(* ===== verification/Prelude.thy ===== *)
theory Prelude
  imports Main "HOL-Library.Word"
begin

text \<open>
  Shared material of the gm-kms development: the machine types of the Rust sources, byte
  encodings of integers (\<open>to_be_bytes\<close>, \<open>to_le_bytes\<close> and their inverses), the result type of
  fallible operations, and the interface of a component with state: a locale for an operation
  that keeps an invariant, from which the invariant of every run follows once and for all.
\<close>

section \<open>Machine types\<close>

type_synonym u8 = "8 word"
type_synonym u16 = "16 word"
type_synonym u32 = "32 word"
type_synonym u64 = "64 word"
type_synonym u128 = "128 word"
type_synonym bytes = "u8 list"

text \<open>A \<open>Uuid\<close> is its 128-bit value; \<open>as_bytes\<close> is the big-endian encoding.\<close>

type_synonym uuid = "128 word"

text \<open>
  Instants and UTC times are integers counting nanoseconds from a fixed origin. The clock is
  never read inside the model: every read of the source is an argument of the operation.
\<close>

type_synonym time = int

definition secs :: "int \<Rightarrow> int" where
  "secs n = n * 1000000000"

lemma secs_mono [simp]: "secs m \<le> secs n \<longleftrightarrow> m \<le> n" and secs_less [simp]: "secs m < secs n \<longleftrightarrow> m < n"
  by (simp_all add: secs_def)

lemma secs_pos [simp]: "0 < secs n \<longleftrightarrow> 0 < n" and secs_nonneg [simp]: "0 \<le> secs n \<longleftrightarrow> 0 \<le> n"
  by (simp_all add: secs_def)

text \<open>\<open>Duration::as_secs\<close> of a non-negative duration.\<close>

definition as_secs :: "int \<Rightarrow> int" where
  "as_secs d = d div 1000000000"

lemma as_secs_less: "as_secs d < n \<longleftrightarrow> d < secs n"
  by (auto simp: as_secs_def secs_def)

section \<open>Byte encodings of integers\<close>

text \<open>The \<open>n\<close> big-endian bytes of a natural number, and the number a byte string denotes.\<close>

fun be_bytes :: "nat \<Rightarrow> nat \<Rightarrow> bytes" where
  "be_bytes 0 x = []"
| "be_bytes (Suc n) x = be_bytes n (x div 256) @ [word_of_nat x]"

definition from_be :: "bytes \<Rightarrow> nat" where
  "from_be bs = foldl (\<lambda>a b. a * 256 + unat b) 0 bs"

definition le_bytes :: "nat \<Rightarrow> nat \<Rightarrow> bytes" where
  "le_bytes n x = rev (be_bytes n x)"

definition from_le :: "bytes \<Rightarrow> nat" where
  "from_le bs = from_be (rev bs)"

lemma length_be_bytes [simp]: "length (be_bytes n x) = n"
  by (induction n arbitrary: x) auto

lemma length_le_bytes [simp]: "length (le_bytes n x) = n"
  by (simp add: le_bytes_def)

lemma from_be_Nil [simp]: "from_be [] = 0"
  by (simp add: from_be_def)

lemma from_be_snoc [simp]: "from_be (bs @ [b]) = from_be bs * 256 + unat b"
  by (simp add: from_be_def)

lemma unat_byte: "unat (b :: u8) < 256"
  using unsigned_less [of b] by simp

lemma unat_word_of_nat_byte: "unat (word_of_nat x :: u8) = x mod 256"
  by (simp add: unat_of_nat)

lemma from_be_bytes: "from_be (be_bytes n x) = x mod 256 ^ n"
proof (induction n arbitrary: x)
  case 0
  then show ?case by simp
next
  case (Suc n)
  have "from_be (be_bytes (Suc n) x) = (x div 256) mod 256 ^ n * 256 + x mod 256"
    by (simp add: Suc unat_word_of_nat_byte)
  also have "\<dots> = x mod (256 * 256 ^ n)"
    by (simp add: mod_mult2_eq)
  finally show ?case by simp
qed

lemma be_bytes_from_be: "be_bytes (length bs) (from_be bs) = bs"
proof (induction bs rule: rev_induct)
  case Nil
  then show ?case by simp
next
  case (snoc b bs)
  have "(from_be bs * 256 + unat b) div 256 = from_be bs"
    using unat_byte [of b] by simp
  moreover have "(word_of_nat (from_be bs * 256 + unat b) :: u8) = b"
    using unat_byte [of b] by (simp only: word_unat_eq_iff unat_word_of_nat_byte) simp
  ultimately show ?case using snoc by simp
qed

lemma from_be_less: "from_be bs < 256 ^ length bs"
proof (induction bs rule: rev_induct)
  case Nil
  then show ?case by simp
next
  case (snoc b bs)
  then show ?case using unat_byte [of b] by simp
qed

lemma be_bytes_inj:
  assumes "be_bytes n x = be_bytes n y" "x < 256 ^ n" "y < 256 ^ n"
  shows "x = y"
proof -
  have "x mod 256 ^ n = y mod 256 ^ n"
    using assms(1) by (metis from_be_bytes)
  with assms(2,3) show ?thesis by simp
qed

lemma from_be_zero_Cons [simp]: "from_be (0 # bs) = from_be bs"
  by (simp add: from_be_def)

section \<open>Words and lists\<close>

lemma unat_u32: "unat (n :: u32) < 4294967296"
  using unsigned_less [of n] by simp

lemma unat_of_nat_u32: "i < 4294967296 \<Longrightarrow> unat (word_of_nat i :: u32) = i"
  by (simp add: unat_of_nat)

lemma length_concat_uniform:
  "\<forall>ys \<in> set xss. length ys = m \<Longrightarrow> length (concat xss) = m * length xss"
  by (induction xss) auto

lemma take_drop_concat_uniform:
  assumes "\<forall>ys \<in> set xss. length ys = m" "b < length xss"
  shows "take m (drop (b * m) (concat xss)) = xss ! b"
  using assms
proof (induction xss arbitrary: b)
  case Nil
  then show ?case by simp
next
  case (Cons ys xss)
  then show ?case by (cases b) auto
qed

lemma concat_chunks:
  "length xs = m * n \<Longrightarrow> concat (map (\<lambda>b. take m (drop (b * m) xs)) [0..<n]) = xs"
proof (induction n arbitrary: xs)
  case 0
  then show ?case by simp
next
  case (Suc n)
  have "[0..<Suc n] = 0 # map Suc [0..<n]"
    by (simp add: map_Suc_upt upt_conv_Cons del: upt_Suc)
  then have "concat (map (\<lambda>b. take m (drop (b * m) xs)) [0..<Suc n])
    = take m xs @ concat (map (\<lambda>b. take m (drop (b * m) (drop m xs))) [0..<n])"
    by (simp add: comp_def add.commute)
  also have "\<dots> = take m xs @ drop m xs"
    using Suc.IH [of "drop m xs"] Suc.prems by simp
  finally show ?case by simp
qed

lemma filter_concat_map: "filter P (concat (map f xs)) = concat (map (\<lambda>x. filter P (f x)) xs)"
  by (induction xs) auto


section \<open>Results of fallible operations\<close>

text \<open>
  \<open>Result<T, E>\<close> is \<open>'e + 'a\<close> with \<open>Inl\<close> the error. An operation on a state returns its result
  together with the state it leaves behind, on the error paths too.
\<close>

definition is_ok :: "'e + 'a \<Rightarrow> bool" where
  "is_ok r \<longleftrightarrow> (case r of Inl _ \<Rightarrow> False | Inr _ \<Rightarrow> True)"

lemma is_ok_simps [simp]: "\<not> is_ok (Inl e)" "is_ok (Inr x)"
  by (simp_all add: is_ok_def)

lemma is_ok_iff: "is_ok r \<longleftrightarrow> (\<exists>x. r = Inr x)"
  by (cases r) auto

definition ok_or :: "'e \<Rightarrow> 'a option \<Rightarrow> 'e + 'a" where
  "ok_or e o' = (case o' of None \<Rightarrow> Inl e | Some x \<Rightarrow> Inr x)"

lemma ok_or_simps [simp]: "ok_or e None = Inl e" "ok_or e (Some x) = Inr x"
  by (simp_all add: ok_or_def)

definition and_then :: "'e + 'a \<Rightarrow> ('a \<Rightarrow> 'e + 'b) \<Rightarrow> 'e + 'b" where
  "and_then r f = (case r of Inl e \<Rightarrow> Inl e | Inr x \<Rightarrow> f x)"

lemma and_then_simps [simp]: "and_then (Inl e) f = Inl e" "and_then (Inr x) f = f x"
  by (simp_all add: and_then_def)

lemma and_then_Inr: "and_then r f = Inr y \<longleftrightarrow> (\<exists>x. r = Inr x \<and> f x = Inr y)"
  by (cases r) auto

definition map_err :: "('e \<Rightarrow> 'f) \<Rightarrow> 'e + 'a \<Rightarrow> 'f + 'a" where
  "map_err h r = (case r of Inl e \<Rightarrow> Inl (h e) | Inr x \<Rightarrow> Inr x)"

lemma map_err_simps [simp]: "map_err h (Inl e) = Inl (h e)" "map_err h (Inr x) = Inr x"
  by (simp_all add: map_err_def)

lemma map_err_Inr [simp]: "map_err h r = Inr x \<longleftrightarrow> r = Inr x"
  by (cases r) auto

lemma ok_or_Inr [simp]: "ok_or e r = Inr x \<longleftrightarrow> r = Some x"
  by (cases r) auto

text \<open>The operator \<open>?\<close> between operations on a state.\<close>

definition then_st :: "('e + 'a) \<times> 's \<Rightarrow> ('a \<Rightarrow> 's \<Rightarrow> ('e + 'b) \<times> 's) \<Rightarrow> ('e + 'b) \<times> 's" where
  "then_st r f = (case r of (Inl e, s) \<Rightarrow> (Inl e, s) | (Inr x, s) \<Rightarrow> f x s)"

lemma then_st_simps [simp]: "then_st (Inl e, s) f = (Inl e, s)" "then_st (Inr x, s) f = f x s"
  by (simp_all add: then_st_def)

lemma then_st_Inr: "then_st r f = (Inr y, s') \<longleftrightarrow> (\<exists>x s. r = (Inr x, s) \<and> f x s = (Inr y, s'))"
  by (cases r; cases "fst r") auto

lemma then_st_cases:
  obtains e s where "r = (Inl e, s)" "then_st r f = (Inl e, s)"
  | x s where "r = (Inr x, s)" "then_st r f = f x s"
  by (cases r; cases "fst r") auto

text \<open>
  Text built by \<open>format!\<close> is kept unrendered: its literal pieces and its arguments. The dash of
  some messages is the three-byte UTF-8 encoding of U+2014.
\<close>

datatype msg = Lit string | Num nat | Id uuid | Str string | Dbg string | DbgBytes bytes | Fmt "msg list"

text \<open>\<open>rand::rng().fill_bytes\<close> on a buffer of \<open>n\<close> bytes, the generator being the stream of bytes it yields.\<close>

definition fill_bytes :: "(nat \<Rightarrow> u8) \<Rightarrow> nat \<Rightarrow> bytes" where
  "fill_bytes rng n = map rng [0..<n]"

lemma length_fill_bytes [simp]: "length (fill_bytes rng n) = n"
  by (simp add: fill_bytes_def)

definition dash :: string where
  "dash = [CHR 0xE2, CHR 0x80, CHR 0x94]"

section \<open>Hash maps with a length\<close>

text \<open>
  Where the number of entries or the iteration order of a hash map matters, the map is an association
  list with distinct keys.
\<close>

definition map_insert :: "'k \<Rightarrow> 'v \<Rightarrow> ('k \<times> 'v) list \<Rightarrow> ('k \<times> 'v) list" where
  "map_insert k v kvs = (k, v) # filter (\<lambda>kv. fst kv \<noteq> k) kvs"

definition map_remove :: "'k \<Rightarrow> ('k \<times> 'v) list \<Rightarrow> ('k \<times> 'v) list" where
  "map_remove k kvs = filter (\<lambda>kv. fst kv \<noteq> k) kvs"

lemma map_of_map_insert: "map_of (map_insert k v m) = (map_of m)(k \<mapsto> v)"
proof -
  have "map_of (filter (\<lambda>kv. fst kv \<noteq> k) m) x = (if x = k then None else map_of m x)" for x
    by (induction m) auto
  then show ?thesis by (auto simp: map_insert_def fun_eq_iff)
qed

lemma map_of_map_remove: "map_of (map_remove k m) = (map_of m)(k := None)"
proof -
  have "map_of (filter (\<lambda>kv. fst kv \<noteq> k) m) x = (if x = k then None else map_of m x)" for x
    by (induction m) auto
  then show ?thesis by (auto simp: map_remove_def fun_eq_iff)
qed

lemma map_keys_insert: "fst ` set (map_insert k v m) = insert k (fst ` set m)"
  by (auto simp: map_insert_def image_iff)

lemma map_keys_remove: "fst ` set (map_remove k m) = fst ` set m - {k}"
  by (auto simp: map_remove_def image_iff)

lemma distinct_map_insert: "distinct (map fst m) \<Longrightarrow> distinct (map fst (map_insert k v m))"
  by (auto simp: map_insert_def distinct_map_filter)

lemma distinct_map_remove: "distinct (map fst m) \<Longrightarrow> distinct (map fst (map_remove k m))"
  by (simp add: map_remove_def distinct_map_filter)

section \<open>Components with state\<close>

text \<open>
  A component is a state, operations \<open>step\<close> applied to it one after the other, and an invariant
  every admissible operation keeps. The lemmas on runs are proved here once; each component
  interprets the locale with its own dispatcher over its operations.
\<close>

fun run_ops :: "('op \<Rightarrow> 's \<Rightarrow> 's) \<Rightarrow> 'op list \<Rightarrow> 's \<Rightarrow> 's" where
  "run_ops f [] s = s"
| "run_ops f (x # xs) s = run_ops f xs (f x s)"

lemma run_ops_append: "run_ops f (xs @ ys) s = run_ops f ys (run_ops f xs s)"
  by (induction xs arbitrary: s) auto

locale stateful =
  fixes step :: "'op \<Rightarrow> 's \<Rightarrow> 's"
    and ok :: "'op \<Rightarrow> bool"
    and inv :: "'s \<Rightarrow> bool"
  assumes step_inv: "ok x \<Longrightarrow> inv s \<Longrightarrow> inv (step x s)"
begin

lemma run_inv: "list_all ok xs \<Longrightarrow> inv s \<Longrightarrow> inv (run_ops step xs s)"
  by (induction xs arbitrary: s) (auto intro: step_inv)

end

text \<open>
  A component with final states its operations never leave, and an observation they never change
  there.
\<close>

locale absorbing = stateful +
  fixes final :: "'s \<Rightarrow> bool"
    and obs :: "'s \<Rightarrow> 'o"
  assumes step_final: "ok x \<Longrightarrow> inv s \<Longrightarrow> final s \<Longrightarrow> final (step x s)"
    and step_obs: "ok x \<Longrightarrow> inv s \<Longrightarrow> final s \<Longrightarrow> obs (step x s) = obs s"
begin

lemma run_final: "list_all ok xs \<Longrightarrow> inv s \<Longrightarrow> final s \<Longrightarrow> final (run_ops step xs s)"
  by (induction xs arbitrary: s) (auto intro: step_inv step_final)

lemma run_obs: "list_all ok xs \<Longrightarrow> inv s \<Longrightarrow> final s \<Longrightarrow> obs (run_ops step xs s) = obs s"
  by (induction xs arbitrary: s) (auto simp: step_inv step_final step_obs)

end

text \<open>
  A lookup that refuses the keys a tenant does not own and leaves the state alone when it does. Every
  operation that begins with the lookup inherits both.
\<close>

locale tenant_guarded =
  fixes lookup :: "'k \<Rightarrow> 't \<Rightarrow> 's \<Rightarrow> ('e + 'x) \<times> 's"
    and owned :: "'s \<Rightarrow> 'k \<Rightarrow> 't \<Rightarrow> bool"
  assumes lookup_foreign: "\<not> owned s k t \<Longrightarrow> \<exists>e. lookup k t s = (Inl e, s)"
begin

lemma guarded_foreign: "\<not> owned s k t \<Longrightarrow> \<exists>e. then_st (lookup k t s) f = (Inl e, s)"
  using lookup_foreign by fastforce

lemma guarded_owned: "then_st (lookup k t s) f = (Inr y, s') \<Longrightarrow> owned s k t"
  using guarded_foreign [of s k t f] by auto

end

lemma find_append: "find P (xs @ ys) = (case find P xs of Some x \<Rightarrow> Some x | None \<Rightarrow> find P ys)"
  by (induction xs) auto

end
