(* ===== verification/Field61.thy ===== *)
theory Field61
  imports Prelude
begin

text \<open>
  The prime field behind Shamir's secret sharing: the integers modulo \<open>2 ^ 61 - 1\<close>. That every
  nonzero residue \<open>a\<close> satisfies \<open>a ^ (p - 1) = 1\<close> (Fermat's little theorem at this modulus, on
  which \<open>inv_mod\<close> of \<^verbatim>\<open>crates/kms-core/src/shamir.rs\<close> relies) is derived from a Pratt
  certificate: 37 has order \<open>p - 1\<close>, so its powers are all the nonzero residues. The residues are
  then an instance of the library's class of fields.
\<close>

section \<open>The modulus and powers modulo it\<close>

definition fprime :: int where
  "fprime = 2305843009213693951"

lemma fprime_pos [simp]: "0 < fprime" and fprime_gt1 [simp]: "1 < fprime"
  and fprime_nz [simp]: "fprime \<noteq> 0"
  by (simp_all add: fprime_def)

lemma fprime_pow2: "fprime = 2 ^ 61 - 1"
  by (simp add: fprime_def)

text \<open>Exponentiation by squaring on a binary numeral, to evaluate the certificate.\<close>

fun modpow :: "int \<Rightarrow> num \<Rightarrow> int" where
  "modpow b num.One = b mod fprime"
| "modpow b (num.Bit0 n) = modpow (b * b mod fprime) n"
| "modpow b (num.Bit1 n) = b * modpow (b * b mod fprime) n mod fprime"

lemma modpow: "modpow b n = b ^ numeral n mod fprime"
proof (induction n arbitrary: b)
  case One
  then show ?case by simp
next
  case (Bit0 n)
  have "(b * b mod fprime) ^ numeral n mod fprime = (b * b) ^ numeral n mod fprime"
    by (simp add: power_mod)
  then show ?case by (simp add: Bit0 numeral_Bit0 power_add power_mult_distrib)
next
  case (Bit1 n)
  have "b * ((b * b mod fprime) ^ numeral n mod fprime) mod fprime = b * (b * b) ^ numeral n mod fprime"
    by (metis mod_mult_right_eq power_mod)
  moreover have "b ^ numeral (num.Bit1 n) = b * (b * b) ^ numeral n"
    by (simp only: numeral_Bit1 power_add power_mult_distrib power_one_right mult.commute)
  ultimately show ?case by (simp add: Bit1)
qed

section \<open>The order of 37\<close>

definition gord :: nat where
  "gord = 2305843009213693950"

lemma gord_int: "int gord = fprime - 1"
  by (simp add: gord_def fprime_def)

lemma gord_pos [simp]: "0 < gord"
  by (simp add: gord_def)

lemma gen_order: "(37::int) ^ gord mod fprime = 1"
  by (simp only: gord_def modpow [symmetric]) code_simp

lemma gen_not_2: "(37::int) ^ 1152921504606846975 mod fprime \<noteq> 1"
  by (simp only: modpow [symmetric]) code_simp

lemma gen_not_3: "(37::int) ^ 768614336404564650 mod fprime \<noteq> 1"
  by (simp only: modpow [symmetric]) code_simp

lemma gen_not_5: "(37::int) ^ 461168601842738790 mod fprime \<noteq> 1"
  by (simp only: modpow [symmetric]) code_simp

lemma gen_not_7: "(37::int) ^ 329406144173384850 mod fprime \<noteq> 1"
  by (simp only: modpow [symmetric]) code_simp

lemma gen_not_11: "(37::int) ^ 209622091746699450 mod fprime \<noteq> 1"
  by (simp only: modpow [symmetric]) code_simp

lemma gen_not_13: "(37::int) ^ 177372539170284150 mod fprime \<noteq> 1"
  by (simp only: modpow [symmetric]) code_simp

lemma gen_not_31: "(37::int) ^ 74382032555280450 mod fprime \<noteq> 1"
  by (simp only: modpow [symmetric]) code_simp

lemma gen_not_41: "(37::int) ^ 56240073395455950 mod fprime \<noteq> 1"
  by (simp only: modpow [symmetric]) code_simp

lemma gen_not_61: "(37::int) ^ 37800705069076950 mod fprime \<noteq> 1"
  by (simp only: modpow [symmetric]) code_simp

lemma gen_not_151: "(37::int) ^ 15270483504726450 mod fprime \<noteq> 1"
  by (simp only: modpow [symmetric]) code_simp

lemma gen_not_331: "(37::int) ^ 6966293079195450 mod fprime \<noteq> 1"
  by (simp only: modpow [symmetric]) code_simp

lemma gen_not_1321: "(37::int) ^ 1745528394559950 mod fprime \<noteq> 1"
  by (simp only: modpow [symmetric]) code_simp

text \<open>The prime factors of the order, each with no divisor but itself.\<close>

definition has_no_divisor :: "int \<Rightarrow> bool" where
  "has_no_divisor q \<longleftrightarrow> (\<forall>d \<in> set [2..36]. d < q \<longrightarrow> q mod d \<noteq> 0)"

lemma no_divisor_below:
  assumes "has_no_divisor (int q)" "d dvd q" "2 \<le> d" "d < q" "d \<le> 36"
  shows False
proof -
  have "int d \<in> set [2..36]" using assms(3,5) by (simp only: set_upto atLeastAtMost_iff) linarith
  then have "int d < int q \<longrightarrow> int q mod int d \<noteq> 0"
    using assms(1) unfolding has_no_divisor_def by (elim bspec)
  then have "int q mod int d \<noteq> 0" using assms(4) by simp
  moreover have "int q mod int d = 0" using assms(2) by (simp flip: of_nat_mod)
  ultimately show False by simp
qed

lemma no_divisor:
  assumes "has_no_divisor (int q)" "q < 37 * 37" "d dvd q" "2 \<le> d" "d < q"
  shows False
proof (cases "d \<le> 36")
  case True
  with assms show ?thesis by (blast intro: no_divisor_below)
next
  case False
  obtain h where h: "q = d * h" using assms(3) by (auto elim: dvdE)
  have "h \<noteq> 0" "h \<noteq> 1" using h assms(4,5) by auto
  then have "2 \<le> h" by simp
  moreover have "h \<le> 36"
  proof (rule ccontr)
    assume "\<not> h \<le> 36"
    with False have "37 * 37 \<le> d * h" by (intro mult_le_mono) auto
    with h assms(2) show False by simp
  qed
  moreover have "h < q" using h assms(4) \<open>2 \<le> h\<close> by simp
  moreover have "h dvd q" using h by simp
  ultimately show ?thesis using no_divisor_below [OF assms(1), of h] by blast
qed

lemma coprime_of_no_divisor:
  assumes "has_no_divisor (int q)" "1 < q" "q < 37 * 37" "\<not> q dvd m"
  shows "coprime m q"
proof -
  let ?g = "gcd m q"
  have "?g \<noteq> q" using assms(4) by (metis gcd_dvd1)
  moreover have "?g \<le> q" "?g \<noteq> 0" using assms(2) by (auto intro: dvd_imp_le)
  moreover have "\<not> (2 \<le> ?g \<and> ?g < q)" using no_divisor [OF assms(1,3), of ?g] by auto
  ultimately have "?g = 1" by linarith
  then show ?thesis by (simp add: coprime_iff_gcd_eq_1)
qed

definition gord_factors :: "nat list" where
  "gord_factors = [2, 3, 5, 7, 11, 13, 31, 41, 61, 151, 331, 1321]"

lemma small_no_divisor:
  "has_no_divisor 2"
  "has_no_divisor 3"
  "has_no_divisor 5"
  "has_no_divisor 7"
  "has_no_divisor 11"
  "has_no_divisor 13"
  "has_no_divisor 31"
  "has_no_divisor 41"
  "has_no_divisor 61"
  "has_no_divisor 151"
  "has_no_divisor 331"
  "has_no_divisor 1321"
  by code_simp+

lemma gord_factors_no_divisor: "\<forall>q \<in> set gord_factors. has_no_divisor (int q) \<and> 1 < q \<and> q < 37 * 37"
  by (simp add: gord_factors_def small_no_divisor)

lemma gord_product:
  "gord = 2 * 3 * 3 * 5 * 5 * 7 * 11 * 13 * 31 * 41 * 61 * 151 * 331 * 1321"
  by (simp add: gord_def)

lemma factor_of_divisor:
  assumes "m dvd gord" "m \<noteq> 1"
  shows "\<exists>q \<in> set gord_factors. q dvd m"
proof (rule ccontr)
  assume "\<not> ?thesis"
  then have "\<forall>q \<in> set gord_factors. coprime m q"
    using gord_factors_no_divisor coprime_of_no_divisor by blast
  then have "coprime m gord"
    unfolding gord_product gord_factors_def by (simp del: mult_numeral_1 arith_simps)
  with assms(1) have "m = 1"
    by (metis coprime_common_divisor dvd_refl nat_dvd_1_iff_1)
  with assms(2) show False by simp
qed

lemma gen_not_factor: "q \<in> set gord_factors \<Longrightarrow> (37::int) ^ (gord div q) mod fprime \<noteq> 1"
  using gen_not_2 gen_not_3 gen_not_5 gen_not_7 gen_not_11 gen_not_13 gen_not_31 gen_not_41 gen_not_61 gen_not_151 gen_not_331 gen_not_1321
  unfolding gord_factors_def gord_def by (auto simp del: power_numeral)

lemma pow_one_mult: "(a::int) ^ n mod fprime = 1 \<Longrightarrow> a ^ (n * k) mod fprime = 1"
  by (metis fprime_gt1 mod_pos_pos_trivial power_mod power_mult power_one zero_le_one)

lemma gen_order_min:
  assumes "0 < d" "d < gord"
  shows "(37::int) ^ d mod fprime \<noteq> 1"
proof
  assume d1: "(37::int) ^ d mod fprime = 1"
  let ?e = "gcd d gord"
  obtain x y where xy: "d * x = gord * y + ?e"
    using bezout_nat [of d gord] assms(1) by auto
  have "(37::int) ^ (gord * y + ?e) mod fprime = 37 ^ ?e mod fprime"
  proof -
    have "(37::int) ^ (gord * y + ?e) mod fprime = (37 ^ (gord * y) mod fprime) * 37 ^ ?e mod fprime"
      by (simp add: power_add mod_mult_left_eq)
    then show ?thesis by (simp add: pow_one_mult [OF gen_order])
  qed
  then have e1: "(37::int) ^ ?e mod fprime = 1"
    using xy pow_one_mult [OF d1, of x] by simp
  obtain m where m: "gord = ?e * m" by (meson dvdE gcd_dvd2)
  have "?e \<le> d" using assms(1) by (auto intro: dvd_imp_le)
  with assms(2) m have "m \<noteq> 1" by auto
  moreover have "m dvd gord" using m by (metis dvd_triv_right)
  ultimately obtain q where q: "q \<in> set gord_factors" "q dvd m"
    using factor_of_divisor by blast
  then obtain k where k: "m = q * k" by (auto elim: dvdE)
  have "0 < q" using q(1) gord_factors_no_divisor by fastforce
  then have "gord div q = ?e * k" using m k
    by (metis mult.left_commute nonzero_mult_div_cancel_left not_gr0)
  with e1 have "(37::int) ^ (gord div q) mod fprime = 1"
    by (simp add: pow_one_mult)
  with gen_not_factor [OF q(1)] show False by simp
qed

section \<open>Fermat's little theorem at this modulus\<close>

definition gen_pow :: "nat \<Rightarrow> int" where
  "gen_pow i = 37 ^ i mod fprime"

lemma gen_pow_inj: "inj_on gen_pow {..<gord}"
proof (rule linorder_inj_onI')
  fix i j assume ij: "i \<in> {..<gord}" "j \<in> {..<gord}" "i < j"
  show "gen_pow i \<noteq> gen_pow j"
  proof
    assume "gen_pow i = gen_pow j"
    then have "37 ^ i * 37 ^ (gord - i) mod fprime = 37 ^ j * 37 ^ (gord - i) mod fprime"
      by (metis gen_pow_def mod_mult_left_eq)
    then have "(37::int) ^ gord mod fprime = 37 ^ (gord + (j - i)) mod fprime"
      using ij by (simp add: add.commute flip: power_add)
    moreover have "(37::int) ^ (gord + (j - i)) mod fprime = 37 ^ (j - i) mod fprime"
      by (metis gen_order mod_mult_left_eq mult_1 power_add)
    ultimately have "(37::int) ^ (j - i) mod fprime = 1"
      using gen_order by simp
    moreover have "0 < j - i" "j - i < gord" using ij by auto
    ultimately show False using gen_order_min by blast
  qed
qed

lemma gen_pow_range: "i < gord \<Longrightarrow> gen_pow i \<in> {1..<fprime}"
proof -
  assume i: "i < gord"
  have "gen_pow i \<noteq> 0"
  proof
    assume "gen_pow i = 0"
    then have "37 ^ i * 37 ^ (gord - i) mod fprime = 0"
      by (metis gen_pow_def mod_0 mod_mult_left_eq mult_zero_left)
    moreover have "(37::int) ^ i * 37 ^ (gord - i) = 37 ^ gord"
      using i by (simp flip: power_add)
    ultimately show False using gen_order by simp
  qed
  moreover have "0 \<le> gen_pow i" "gen_pow i < fprime"
    by (simp_all add: gen_pow_def)
  ultimately show ?thesis by simp
qed

lemma gen_pow_onto: "gen_pow ` {..<gord} = {1..<fprime}"
proof (rule card_subset_eq)
  show "finite {1..<fprime}" by simp
  show "gen_pow ` {..<gord} \<subseteq> {1..<fprime}" using gen_pow_range by auto
  have "card (gen_pow ` {..<gord}) = gord" by (simp add: card_image gen_pow_inj)
  also have "\<dots> = card {1..<fprime}" using gord_int by simp
  finally show "card (gen_pow ` {..<gord}) = card {1..<fprime}" .
qed

lemma fermat:
  assumes "a mod fprime \<noteq> 0"
  shows "a ^ gord mod fprime = 1"
proof -
  have "a mod fprime \<in> {1..<fprime}"
    using assms pos_mod_sign [OF fprime_pos, of a] pos_mod_bound [OF fprime_pos, of a]
    unfolding atLeastLessThan_iff by linarith
  then obtain i where "a mod fprime = gen_pow i"
    using gen_pow_onto by (metis imageE)
  then have "a ^ gord mod fprime = (37 ^ i) ^ gord mod fprime"
    by (metis gen_pow_def power_mod)
  also have "\<dots> = 37 ^ (gord * i) mod fprime"
    by (simp add: power_mult [symmetric] mult.commute)
  also have "\<dots> = 1" by (rule pow_one_mult [OF gen_order])
  finally show ?thesis .
qed

section \<open>The field of residues\<close>

typedef gf = "{0..<fprime}"
  morphisms gf_rep gf_abs
  by (rule exI [of _ 0]) simp

setup_lifting type_definition_gf

lift_definition gf_of :: "int \<Rightarrow> gf" is "\<lambda>x. x mod fprime"
  by simp

instantiation gf :: field
begin

lift_definition zero_gf :: gf is 0 by simp

lift_definition one_gf :: gf is 1 by simp

lift_definition plus_gf :: "gf \<Rightarrow> gf \<Rightarrow> gf" is "\<lambda>x y. (x + y) mod fprime" by simp

lift_definition minus_gf :: "gf \<Rightarrow> gf \<Rightarrow> gf" is "\<lambda>x y. (x - y) mod fprime" by simp

lift_definition uminus_gf :: "gf \<Rightarrow> gf" is "\<lambda>x. (- x) mod fprime" by simp

lift_definition times_gf :: "gf \<Rightarrow> gf \<Rightarrow> gf" is "\<lambda>x y. (x * y) mod fprime" by simp

lift_definition inverse_gf :: "gf \<Rightarrow> gf" is "\<lambda>x. x ^ (gord - 1) mod fprime" by simp

definition divide_gf :: "gf \<Rightarrow> gf \<Rightarrow> gf" where
  "divide_gf x y = x * inverse y"

instance
proof
  fix a b c :: gf
  show "a + b + c = a + (b + c)" by transfer (simp add: mod_simps ac_simps)
  show "a + b = b + a" by transfer (simp add: ac_simps)
  show "0 + a = a" by transfer simp
  show "- a + a = 0" by transfer (simp add: mod_simps)
  show "a - b = a + - b" by transfer (simp add: mod_simps)
  show "a * b * c = a * (b * c)" by transfer (simp add: mod_simps ac_simps)
  show "a * b = b * a" by transfer (simp add: ac_simps)
  show "1 * a = a" by transfer simp
  show "(a + b) * c = a * c + b * c" by transfer (simp add: mod_simps distrib_right)
  show "(0::gf) \<noteq> 1" by transfer simp
  show "a div b = a * inverse b" by (rule divide_gf_def)
  have "Suc (gord - 2) = gord - 1" by (simp add: gord_def)
  then show "inverse (0::gf) = 0" by transfer (metis mod_0 mult_zero_left power_Suc)
  show "inverse a * a = 1" if "a \<noteq> 0"
    using that
  proof (transfer)
    fix a assume a: "a \<in> {0..<fprime}" "a \<noteq> 0"
    then have "a mod fprime \<noteq> 0" by simp
    moreover have "a ^ (gord - 1) * a = a ^ gord"
      using gord_pos by (metis Suc_pred' power_Suc2)
    ultimately show "a ^ (gord - 1) mod fprime * a mod fprime = 1"
      using fermat by (metis mod_mult_left_eq)
  qed
qed

end

lemma gf_of_add: "gf_of (x + y) = gf_of x + gf_of y"
  by transfer (simp add: mod_simps)

lemma gf_of_diff: "gf_of (x - y) = gf_of x - gf_of y"
  by transfer (simp add: mod_simps)

lemma gf_of_mult: "gf_of (x * y) = gf_of x * gf_of y"
  by transfer (simp add: mod_simps)

lemma gf_of_0 [simp]: "gf_of 0 = 0" and gf_of_1 [simp]: "gf_of 1 = 1"
  by (transfer, simp)+

lemma gf_of_power: "gf_of (x ^ n) = gf_of x ^ n"
  by (induction n) (simp_all add: gf_of_mult)

lemma gf_of_mod [simp]: "gf_of (x mod fprime) = gf_of x"
  by transfer simp

lemma gf_of_fprime [simp]: "gf_of fprime = 0"
  by transfer simp

lemma gf_of_eq_iff: "gf_of x = gf_of y \<longleftrightarrow> x mod fprime = y mod fprime"
  by transfer simp

lemma gf_of_inj:
  assumes "gf_of x = gf_of y" "0 \<le> x" "x < fprime" "0 \<le> y" "y < fprime"
  shows "x = y"
  using assms by (simp add: gf_of_eq_iff)

lemma gf_inverse_power: "inverse (a::gf) = a ^ (gord - 1)"
proof (cases "a = 0")
  case True
  then show ?thesis by (simp add: gord_def)
next
  case False
  obtain x where a: "a = gf_of x" by transfer (metis atLeastLessThan_iff mod_pos_pos_trivial)
  then have "x mod fprime \<noteq> 0" using False by (metis gf_of_0 gf_of_mod)
  then have "a ^ gord = 1" using fermat by (metis a gf_of_1 gf_of_mod gf_of_power)
  then have "a ^ (gord - 1) * a = 1" using gord_pos by (metis Suc_pred' power_Suc2)
  then show ?thesis by (metis inverse_unique mult.commute)
qed

end
