(* ===== verification/Lagrange.thy ===== *)
theory Lagrange
  imports Prelude
begin

text \<open>
  Interpolation at zero over any field, on points indexed by a finite set: the identity behind
  the reconstruction of a secret from its shares.
\<close>

section \<open>Polynomials as coefficient lists\<close>

fun peval :: "'a::comm_ring_1 list \<Rightarrow> 'a \<Rightarrow> 'a" where
  "peval [] x = 0"
| "peval (c # cs) x = c + x * peval cs x"

lemma peval_at_0: "peval cs 0 = (case cs of [] \<Rightarrow> 0 | c # _ \<Rightarrow> c)"
  by (cases cs) auto

lemma peval_snoc: "peval (cs @ [c]) x = peval cs x + c * x ^ length cs"
  by (induction cs) (auto simp: algebra_simps)

lemma peval_root_factor:
  "\<exists>qs. length qs \<le> length cs - 1 \<and> (\<forall>x. peval cs x = peval cs r + (x - r) * peval qs x)"
proof (induction cs)
  case Nil
  then show ?case by (intro exI [of _ "[]"]) auto
next
  case (Cons c cs)
  then obtain qs where qs: "length qs \<le> length cs - 1"
    "\<And>x. peval cs x = peval cs r + (x - r) * peval qs x" by auto
  show ?case
  proof (cases cs)
    case Nil
    then show ?thesis by (intro exI [of _ "[]"]) auto
  next
    case (Cons c' cs')
    have "peval (c # cs) x = peval (c # cs) r + (x - r) * peval (peval cs r # qs) x" for x
    proof -
      have "peval (c # cs) x = c + x * (peval cs r + (x - r) * peval qs x)"
        using qs(2) [of x] by simp
      then show ?thesis by (simp add: algebra_simps)
    qed
    moreover have "length (peval cs r # qs) \<le> length (c # cs) - 1"
      using qs(1) Cons by simp
    ultimately show ?thesis by blast
  qed
qed

section \<open>Lagrange coefficients at zero\<close>

definition lcoeff :: "'i set \<Rightarrow> ('i \<Rightarrow> 'a::field) \<Rightarrow> 'i \<Rightarrow> 'a" where
  "lcoeff I x i = (\<Prod>j \<in> I - {i}. x j * inverse (x j - x i))"

definition linterp :: "'i set \<Rightarrow> ('i \<Rightarrow> 'a::field) \<Rightarrow> ('i \<Rightarrow> 'a) \<Rightarrow> 'a" where
  "linterp I x y = (\<Sum>i \<in> I. y i * lcoeff I x i)"

lemma lcoeff_remove:
  assumes "finite I" "c \<in> I" "i \<in> I" "i \<noteq> c"
  shows "lcoeff I x i = x c * inverse (x c - x i) * lcoeff (I - {c}) x i"
proof -
  have "I - {i} = insert c (I - {c} - {i})" using assms by auto
  moreover have "c \<notin> I - {c} - {i}" by simp
  ultimately show ?thesis using assms(1) by (simp add: lcoeff_def)
qed

lemma neville_term:
  fixes u v w R :: "'a::field"
  assumes "u - w \<noteq> 0" "v - w \<noteq> 0"
  shows "(v - u) * (u * inverse (u - w) * (v * inverse (v - w) * R))
    = v * (u * inverse (u - w) * R) - u * (v * inverse (v - w) * R)"
proof -
  have "(v - u) * (inverse (u - w) * inverse (v - w)) = inverse (u - w) - inverse (v - w)"
  proof -
    have "(v - u) * (inverse (u - w) * inverse (v - w))
      = inverse (u - w) * ((v - w) * inverse (v - w)) - ((u - w) * inverse (u - w)) * inverse (v - w)"
      by (simp add: algebra_simps)
    then show ?thesis using assms by simp
  qed
  then have "u * v * R * ((v - u) * (inverse (u - w) * inverse (v - w)))
    = u * v * R * (inverse (u - w) - inverse (v - w))" by (rule arg_cong)
  then show ?thesis by (simp add: algebra_simps)
qed

lemma lcoeff_neville:
  assumes "finite I" "inj_on x I" "c \<in> I" "d \<in> I" "c \<noteq> d" "i \<in> I"
  shows "(x d - x c) * lcoeff I x i =
    x d * (if i = d then 0 else lcoeff (I - {d}) x i) - x c * (if i = c then 0 else lcoeff (I - {c}) x i)"
proof -
  have cd: "x d - x c \<noteq> 0" using assms by (auto dest: inj_onD)
  consider "i = c" | "i = d" | "i \<noteq> c" "i \<noteq> d" by auto
  then show ?thesis
  proof cases
    case 1
    then have "lcoeff I x i = x d * inverse (x d - x c) * lcoeff (I - {d}) x i"
      using assms lcoeff_remove [of I d i x] by simp
    with 1 cd assms(5) show ?thesis by (simp add: field_simps)
  next
    case 2
    then have "lcoeff I x i = x c * inverse (x c - x d) * lcoeff (I - {c}) x i"
      using assms lcoeff_remove [of I c i x] by simp
    moreover have "x c - x d \<noteq> 0" using cd by auto
    ultimately show ?thesis using 2 assms(5) by (simp add: field_simps)
  next
    case 3
    let ?R = "lcoeff (I - {d} - {c}) x i"
    have ci: "x c - x i \<noteq> 0" and di: "x d - x i \<noteq> 0"
      using 3 assms by (auto dest: inj_onD)
    have "lcoeff (I - {d}) x i = x c * inverse (x c - x i) * ?R"
      using assms 3 lcoeff_remove [of "I - {d}" c i x] by simp
    moreover have "lcoeff (I - {c}) x i = x d * inverse (x d - x i) * ?R"
      using assms 3 lcoeff_remove [of "I - {c}" d i x] by (simp add: Diff_insert [symmetric] insert_commute)
    moreover have "lcoeff I x i = x c * inverse (x c - x i) * lcoeff (I - {c}) x i"
      using assms 3 lcoeff_remove [of I c i x] by simp
    ultimately show ?thesis using 3 neville_term [OF ci di, of ?R] by simp
  qed
qed

lemma sum_lcoeff_remove:
  assumes "finite I" "d \<in> I"
  shows "(\<Sum>i\<in>I. if i = d then 0 else f i) = (\<Sum>i\<in>I - {d}. f i)"
proof -
  have "(\<Sum>i\<in>I. if i = d then 0 else f i) = (\<Sum>i\<in>I - {d}. if i = d then 0 else f i)"
    using assms by (simp add: sum.remove)
  also have "\<dots> = (\<Sum>i\<in>I - {d}. f i)" by (rule sum.cong) auto
  finally show ?thesis .
qed

lemma sum_lcoeff:
  assumes "finite I" "inj_on x I" "I \<noteq> {}"
  shows "(\<Sum>i\<in>I. lcoeff I x i) = 1"
  using assms
proof (induction "card I" arbitrary: I rule: less_induct)
  case less
  show ?case
  proof (cases "\<exists>c d. c \<in> I \<and> d \<in> I \<and> c \<noteq> d")
    case False
    then obtain c where "I = {c}" using less.prems(3) by blast
    then show ?thesis by (simp add: lcoeff_def)
  next
    case True
    then obtain c d where cd: "c \<in> I" "d \<in> I" "c \<noteq> d" by blast
    have IH: "(\<Sum>i\<in>I - {e}. lcoeff (I - {e}) x i) = 1" if "e \<in> {c, d}" for e
    proof (rule less.hyps)
      show "card (I - {e}) < card I" using that cd less.prems(1) by (auto intro: card_Diff1_less)
      show "inj_on x (I - {e})" using less.prems(2) by (rule inj_on_subset) auto
      show "I - {e} \<noteq> {}" using that cd by auto
    qed (use less.prems in auto)
    have "(x d - x c) * (\<Sum>i\<in>I. lcoeff I x i)
      = x d * (\<Sum>i\<in>I. if i = d then 0 else lcoeff (I - {d}) x i)
        - x c * (\<Sum>i\<in>I. if i = c then 0 else lcoeff (I - {c}) x i)"
      using lcoeff_neville [OF less.prems(1,2) cd]
      by (simp add: sum_distrib_left sum_subtractf)
    also have "\<dots> = x d - x c"
      using IH cd less.prems(1) by (simp add: sum_lcoeff_remove)
    finally have "(x d - x c) * (\<Sum>i\<in>I. lcoeff I x i) = x d - x c" .
    moreover have "x d - x c \<noteq> 0" using cd less.prems(2) by (auto dest: inj_onD)
    ultimately show ?thesis by simp
  qed
qed

section \<open>Interpolation of a polynomial of low degree\<close>

lemma linterp_root:
  assumes "finite I" "inj_on x I" "c \<in> I"
  shows "linterp I x (\<lambda>i. (x i - x c) * h i) = - x c * linterp (I - {c}) x h"
proof -
  have summand: "(x i - x c) * h i * lcoeff I x i = (if i = c then 0 else - x c * (h i * lcoeff (I - {c}) x i))"
    if "i \<in> I" for i
  proof (cases "i = c")
    case False
    have "x c - x i \<noteq> 0" using assms that False by (auto dest: inj_onD)
    then show ?thesis using False lcoeff_remove [OF assms(1,3) that False, of x]
      by (simp add: field_simps)
  qed simp
  have "linterp I x (\<lambda>i. (x i - x c) * h i)
    = (\<Sum>i\<in>I. if i = c then 0 else - x c * (h i * lcoeff (I - {c}) x i))"
    unfolding linterp_def by (intro sum.cong refl summand)
  also have "\<dots> = (\<Sum>i\<in>I - {c}. - x c * (h i * lcoeff (I - {c}) x i))"
    using assms by (simp only: sum_lcoeff_remove)
  finally show ?thesis by (simp add: linterp_def sum_distrib_left)
qed

lemma linterp_add: "linterp I x (\<lambda>i. f i + g i) = linterp I x f + linterp I x g"
  by (simp add: linterp_def sum.distrib distrib_right)

lemma linterp_const:
  "finite I \<Longrightarrow> inj_on x I \<Longrightarrow> I \<noteq> {} \<Longrightarrow> linterp I x (\<lambda>_. c) = c"
  by (simp add: linterp_def sum_lcoeff flip: sum_distrib_left)

theorem linterp_peval:
  assumes "finite I" "inj_on x I" "length cs \<le> card I"
  shows "linterp I x (\<lambda>i. peval cs (x i)) = peval cs 0"
  using assms
proof (induction "card I" arbitrary: I cs)
  case 0
  then show ?case by (simp add: linterp_def)
next
  case (Suc n)
  then obtain c where c: "c \<in> I" by fastforce
  obtain qs where qs: "length qs \<le> length cs - 1"
    "\<And>x'. peval cs x' = peval cs (x c) + (x' - x c) * peval qs x'"
    using peval_root_factor by blast
  have IH: "linterp (I - {c}) x (\<lambda>i. peval qs (x i)) = peval qs 0"
  proof (rule Suc.hyps(1))
    show "n = card (I - {c})" using Suc c by simp
    show "inj_on x (I - {c})" using Suc.prems(2) by (rule inj_on_subset) auto
    show "length qs \<le> card (I - {c})" using qs(1) Suc c by simp
  qed (use Suc in auto)
  have "linterp I x (\<lambda>i. peval cs (x i))
    = linterp I x (\<lambda>i. peval cs (x c) + (x i - x c) * peval qs (x i))"
    using qs(2) by metis
  also have "\<dots> = peval cs (x c) - x c * linterp (I - {c}) x (\<lambda>i. peval qs (x i))"
  proof -
    have "linterp I x (\<lambda>_. peval cs (x c)) = peval cs (x c)"
      using Suc.prems c by (intro linterp_const) auto
    then show ?thesis using linterp_root [OF Suc.prems(1,2) c] by (simp add: linterp_add)
  qed
  also have "\<dots> = peval cs 0" using qs(2) [of 0] IH by simp
  finally show ?case .
qed

end
