(* ===== verification/Shamir.thy ===== *)
theory Shamir
  imports Field61 Lagrange
begin

text \<open>
  Shamir's secret sharing, \<^verbatim>\<open>crates/kms-core/src/shamir.rs\<close>: modular arithmetic on \<open>u64\<close>,
  splitting a secret into shares block by block, the hash commitments, and reconstruction by
  Lagrange interpolation. SHA-256 and the hexadecimal encoding come from other crates and are
  parameters (\<open>sha256\<close>, \<open>hexenc\<close>); random bytes, the identifier and the clock are arguments.
  Rust's remainder by a zero prime panics; the theorems are about the instance \<open>new\<close> builds.
\<close>

section \<open>Data\<close>

definition FIELD_PRIME :: u64 where
  "FIELD_PRIME = 2305843009213693951"

record share =
  sh_x :: u32
  sh_y :: u64
  sh_block_index :: u32

record commitment =
  cm_block_index :: u32
  cm_index :: u32
  cm_value :: u64

record shares_metadata =
  md_id :: uuid
  md_version :: u32
  md_created_at :: time
  md_is_verifiable :: bool
  md_secret_hash :: "string option"
  md_original_len :: "nat option"
  md_num_blocks :: "u32 option"

record shares =
  ss_total_shares :: u32
  ss_threshold :: u32
  ss_shares :: "share list"
  ss_commitments :: "commitment list option"
  ss_metadata :: shares_metadata

record share_verification =
  sv_valid :: bool
  sv_x :: u32
  sv_error :: "msg option"

record reconstruction_result =
  rr_success :: bool
  rr_secret :: "bytes option"
  rr_secret_hash :: "string option"
  rr_shares_used :: u32
  rr_error :: "msg option"

record shamir_secret_sharing =
  sss_prime :: u64

definition sss_new :: shamir_secret_sharing where
  "sss_new = \<lparr>sss_prime = FIELD_PRIME\<rparr>"

definition with_prime :: "u64 \<Rightarrow> shamir_secret_sharing" where
  "with_prime p = \<lparr>sss_prime = p\<rparr>"

section \<open>Modular arithmetic\<close>

definition add_mod :: "shamir_secret_sharing \<Rightarrow> u64 \<Rightarrow> u64 \<Rightarrow> u64" where
  "add_mod s a b = (a + b) mod sss_prime s"

definition sub_mod :: "shamir_secret_sharing \<Rightarrow> u64 \<Rightarrow> u64 \<Rightarrow> u64" where
  "sub_mod s a b = (a + sss_prime s - b) mod sss_prime s"

definition mul_mod :: "shamir_secret_sharing \<Rightarrow> u64 \<Rightarrow> u64 \<Rightarrow> u64" where
  "mul_mod s a b = ucast ((ucast a * ucast b :: u128) mod ucast (sss_prime s))"

function pow_loop :: "shamir_secret_sharing \<Rightarrow> u64 \<Rightarrow> u64 \<Rightarrow> u64 \<Rightarrow> u64" where
  "pow_loop s result base e =
     (if e = 0 then result
      else pow_loop s (if e mod 2 = 1 then mul_mod s result base else result)
             (mul_mod s base base) (e div 2))"
  by pat_completeness auto
termination
  by (relation "measure (\<lambda>(s, r, b, e). unat e)") (auto simp: unat_div unat_gt_0)

declare pow_loop.simps [simp del]

definition pow_mod :: "shamir_secret_sharing \<Rightarrow> u64 \<Rightarrow> u64 \<Rightarrow> u64" where
  "pow_mod s base e = (if e = 0 then 1 else pow_loop s 1 (base mod sss_prime s) e)"

definition inv_mod :: "shamir_secret_sharing \<Rightarrow> u64 \<Rightarrow> u64" where
  "inv_mod s a = pow_mod s a (sss_prime s - 2)"

fun poly_step :: "shamir_secret_sharing \<Rightarrow> u64 \<Rightarrow> u64 \<times> u64 \<Rightarrow> u64 \<Rightarrow> u64 \<times> u64" where
  "poly_step s x (result, x_power) coeff =
     (add_mod s result (mul_mod s coeff x_power), mul_mod s x_power x)"

definition evaluate_polynomial :: "shamir_secret_sharing \<Rightarrow> u64 list \<Rightarrow> u64 \<Rightarrow> u64" where
  "evaluate_polynomial s coefficients x = fst (foldl (poly_step s x) (0, 1) coefficients)"

text \<open>The eight random bytes \<open>fill_bytes\<close> returned are the argument.\<close>

definition random_field_element :: "shamir_secret_sharing \<Rightarrow> bytes \<Rightarrow> u64" where
  "random_field_element s bs =
     (let value = word_of_nat (from_le bs) mod sss_prime s in if value = 0 then 1 else value)"

section \<open>Splitting\<close>

definition commitment_input :: "u32 \<Rightarrow> nat \<Rightarrow> u64 \<Rightarrow> bytes" where
  "commitment_input block_index i coeff =
     le_bytes 4 (unat block_index) @ le_bytes 4 (unat (word_of_nat i :: u32)) @ le_bytes 8 (unat coeff)"

definition commitment_value :: "(bytes \<Rightarrow> bytes) \<Rightarrow> u32 \<Rightarrow> nat \<Rightarrow> u64 \<Rightarrow> u64" where
  "commitment_value sha256 block_index i coeff =
     word_of_nat (from_le (take 8 (sha256 (commitment_input block_index i coeff))))"

definition generate_commitments_for_block ::
  "(bytes \<Rightarrow> bytes) \<Rightarrow> u64 list \<Rightarrow> u32 \<Rightarrow> commitment list" where
  "generate_commitments_for_block sha256 coefficients block_index =
     map (\<lambda>(i, coeff). \<lparr>cm_block_index = block_index, cm_index = word_of_nat i,
                         cm_value = commitment_value sha256 block_index i coeff\<rparr>)
       (enumerate 0 coefficients)"

definition block_size :: nat where
  "block_size = 7"

definition padded_len :: "nat \<Rightarrow> nat" where
  "padded_len original_len =
     (if original_len mod block_size = 0 then original_len + block_size
      else (original_len div block_size + 1) * block_size)"

definition pad_secret :: "bytes \<Rightarrow> bytes" where
  "pad_secret secret =
     (let n = padded_len (length secret) - length secret in secret @ replicate n (word_of_nat n))"

definition block_value :: "bytes \<Rightarrow> nat \<Rightarrow> u64" where
  "block_value padded b = word_of_nat (from_be (0 # take block_size (drop (b * block_size) padded)))"

definition block_coefficients ::
  "shamir_secret_sharing \<Rightarrow> (nat \<Rightarrow> nat \<Rightarrow> bytes) \<Rightarrow> bytes \<Rightarrow> u32 \<Rightarrow> nat \<Rightarrow> u64 list" where
  "block_coefficients s rnd padded threshold b =
     block_value padded b # map (\<lambda>i. random_field_element s (rnd b i)) [1..<unat threshold]"

definition block_shares :: "shamir_secret_sharing \<Rightarrow> u64 list \<Rightarrow> u32 \<Rightarrow> nat \<Rightarrow> share list" where
  "block_shares s coefficients total_shares b =
     map (\<lambda>x. \<lparr>sh_x = word_of_nat x, sh_y = evaluate_polynomial s coefficients (word_of_nat x),
                sh_block_index = word_of_nat b\<rparr>) [1..<Suc (unat total_shares)]"

definition sss_split ::
  "(bytes \<Rightarrow> bytes) \<Rightarrow> (bytes \<Rightarrow> string) \<Rightarrow> shamir_secret_sharing \<Rightarrow> (nat \<Rightarrow> nat \<Rightarrow> bytes) \<Rightarrow> uuid \<Rightarrow> time
    \<Rightarrow> bytes \<Rightarrow> u32 \<Rightarrow> u32 \<Rightarrow> bool \<Rightarrow> string + shares" where
  "sss_split sha256 hexenc s rnd new_id now secret threshold total_shares verifiable =
     (if threshold < 2 then Inl ''Threshold must be at least 2''
      else if total_shares < threshold then Inl ''Total shares must be >= threshold''
      else if threshold > total_shares then Inl ''Threshold cannot exceed total shares''
      else if secret = [] then Inl ''Secret cannot be empty''
      else
        let padded = pad_secret secret;
            num_blocks = (word_of_nat (length padded div block_size) :: u32);
            blocks = [0..<unat num_blocks];
            coeffs = block_coefficients s rnd padded threshold;
            all_commitments = (if verifiable
              then concat (map (\<lambda>b. generate_commitments_for_block sha256 (coeffs b) (word_of_nat b)) blocks)
              else []);
            has_commitments = (verifiable \<and> all_commitments \<noteq> [])
        in Inr \<lparr>ss_total_shares = total_shares, ss_threshold = threshold,
                ss_shares = concat (map (\<lambda>b. block_shares s (coeffs b) total_shares b) blocks),
                ss_commitments = (if has_commitments then Some all_commitments else None),
                ss_metadata = \<lparr>md_id = new_id, md_version = 2, md_created_at = now,
                  md_is_verifiable = has_commitments,
                  md_secret_hash = Some (hexenc (sha256 secret)),
                  md_original_len = Some (length secret), md_num_blocks = Some num_blocks\<rparr>\<rparr>)"

section \<open>Verification of shares\<close>

definition verify_share :: "shamir_secret_sharing \<Rightarrow> share \<Rightarrow> commitment list \<Rightarrow> share_verification" where
  "verify_share s sh commitments =
     (let block_commitments =
            sort_key cm_index (filter (\<lambda>c. cm_block_index c = sh_block_index sh) commitments)
      in if block_commitments = [] then
           \<lparr>sv_valid = False, sv_x = sh_x sh,
            sv_error = Some (Fmt [Lit ''No commitments available for block '', Num (unat (sh_block_index sh)),
                                  Lit ('' '' @ dash @ '' cannot verify share'')])\<rparr>
         else let valid = sh_y sh < sss_prime s
              in \<lparr>sv_valid = valid, sv_x = sh_x sh,
                  sv_error = (if valid then None
                    else Some (Fmt [Lit ''Share y value out of range for block '',
                                    Num (unat (sh_block_index sh))]))\<rparr>)"

text \<open>
  The loop over the coefficients. Indexing past the last commitment panics: \<open>None\<close>.
\<close>

fun check_coefficients ::
  "(bytes \<Rightarrow> bytes) \<Rightarrow> u32 \<Rightarrow> commitment list \<Rightarrow> (nat \<times> u64) list \<Rightarrow> share_verification option" where
  "check_coefficients sha256 block_index cms [] = Some \<lparr>sv_valid = True, sv_x = 0, sv_error = None\<rparr>"
| "check_coefficients sha256 block_index cms ((i, coeff) # rest) =
     (if length cms \<le> i then None
      else if commitment_value sha256 block_index i coeff \<noteq> cm_value (cms ! i)
      then Some \<lparr>sv_valid = False, sv_x = 0,
                 sv_error = Some (Fmt [Lit ''Coefficient '', Num i, Lit '' verification failed for block '',
                                       Num (unat block_index)])\<rparr>
      else check_coefficients sha256 block_index cms rest)"

definition verify_coefficients_against_commitments ::
  "(bytes \<Rightarrow> bytes) \<Rightarrow> u64 list \<Rightarrow> commitment list \<Rightarrow> u32 \<Rightarrow> share_verification option" where
  "verify_coefficients_against_commitments sha256 coefficients commitments block_index =
     (let block_commitments = filter (\<lambda>c. cm_block_index c = block_index) commitments
      in if block_commitments = [] then
           Some \<lparr>sv_valid = False, sv_x = 0, sv_error = Some (Lit ''No commitments for verification'')\<rparr>
         else check_coefficients sha256 block_index block_commitments (enumerate 0 coefficients))"

fun verify_each_share :: "shamir_secret_sharing \<Rightarrow> commitment list \<Rightarrow> share list \<Rightarrow> share_verification option" where
  "verify_each_share s commitments [] = None"
| "verify_each_share s commitments (sh # rest) =
     (let result = verify_share s sh commitments
      in if \<not> sv_valid result then Some result else verify_each_share s commitments rest)"

definition verify_share_all_blocks ::
  "shamir_secret_sharing \<Rightarrow> share list \<Rightarrow> commitment list \<Rightarrow> share_verification" where
  "verify_share_all_blocks s shares_for_x commitments =
     (let first_x = (case shares_for_x of [] \<Rightarrow> 0 | sh # _ \<Rightarrow> sh_x sh)
      in if commitments = [] then
           \<lparr>sv_valid = False, sv_x = first_x, sv_error = Some (Lit ''No commitments available'')\<rparr>
         else case verify_each_share s commitments shares_for_x of
           Some result \<Rightarrow> result
         | None \<Rightarrow> \<lparr>sv_valid = True, sv_x = first_x, sv_error = None\<rparr>)"

section \<open>Reconstruction\<close>

fun lagrange_step ::
  "shamir_secret_sharing \<Rightarrow> share list \<Rightarrow> nat \<Rightarrow> u64 \<times> u64 \<Rightarrow> nat \<Rightarrow> u64 \<times> u64" where
  "lagrange_step s block i (numerator, denominator) j =
     (if i \<noteq> j
      then let xi = ucast (sh_x (block ! i)); xj = ucast (sh_x (block ! j))
           in (mul_mod s numerator xj, mul_mod s denominator (sub_mod s xj xi))
      else (numerator, denominator))"

definition lagrange_coeff :: "shamir_secret_sharing \<Rightarrow> share list \<Rightarrow> nat \<Rightarrow> u64" where
  "lagrange_coeff s block i =
     (let (numerator, denominator) = foldl (lagrange_step s block i) (1, 1) [0..<length block]
      in mul_mod s numerator (inv_mod s denominator))"

definition interpolate_block :: "shamir_secret_sharing \<Rightarrow> share list \<Rightarrow> u64" where
  "interpolate_block s block =
     foldl (\<lambda>secret_value i.
              add_mod s secret_value (mul_mod s (sh_y (block ! i)) (lagrange_coeff s block i)))
       0 [0..<length block]"

definition block_bytes :: "u64 \<Rightarrow> bytes" where
  "block_bytes v = drop 1 (be_bytes 8 (unat v))"

definition strip_padding :: "nat option \<Rightarrow> bytes \<Rightarrow> bytes" where
  "strip_padding original_len blocks =
     (case original_len of
        Some n \<Rightarrow> if n \<le> length blocks then take n blocks else blocks
      | None \<Rightarrow>
          (let pad_byte = (if blocks = [] then 0 else last blocks); pad_len = unat pad_byte
           in if pad_len > 0 \<and> pad_len \<le> 8 \<and> pad_len \<le> length blocks
              then let padding_start = length blocks - pad_len
                   in if list_all (\<lambda>b. b = pad_byte) (drop padding_start blocks)
                      then take padding_start blocks else blocks
              else blocks))"

definition reconstruction_failed :: "nat \<Rightarrow> msg \<Rightarrow> reconstruction_result" where
  "reconstruction_failed used e =
     \<lparr>rr_success = False, rr_secret = None, rr_secret_hash = None,
      rr_shares_used = word_of_nat used, rr_error = Some e\<rparr>"

definition reconstruct_with_metadata ::
  "(bytes \<Rightarrow> bytes) \<Rightarrow> (bytes \<Rightarrow> string) \<Rightarrow> shamir_secret_sharing \<Rightarrow> share list \<Rightarrow> shares_metadata
    \<Rightarrow> reconstruction_result" where
  "reconstruct_with_metadata sha256 hexenc s shs metadata =
     (let num_blocks = unat (case md_num_blocks metadata of Some n \<Rightarrow> n | None \<Rightarrow> 1)
      in if shs = [] then reconstruction_failed 0 (Lit ''No shares provided'')
         else if length shs < num_blocks then
           reconstruction_failed 0 (Fmt [Lit ''Need at least '', Num num_blocks,
             Lit '' shares (one per block), got '', Num (length shs)])
         else if num_blocks = 0 \<or> length shs mod num_blocks \<noteq> 0 then
           reconstruction_failed 0 (Fmt [Lit ''Share count '', Num (length shs),
             Lit '' not evenly divisible by num_blocks '', Num num_blocks])
         else
           let per_block = length shs div num_blocks;
               blocks = concat (map (\<lambda>b. block_bytes (interpolate_block s
                          (take per_block (drop (b * per_block) shs)))) [0..<num_blocks]);
               secret = strip_padding (md_original_len metadata) blocks
           in case md_secret_hash metadata of
                Some expected \<Rightarrow>
                  if hexenc (sha256 secret) \<noteq> expected then
                    reconstruction_failed (length shs)
                      (Lit (''Secret hash mismatch '' @ dash @ '' reconstruction may be corrupt''))
                  else \<lparr>rr_success = True, rr_secret = Some secret,
                        rr_secret_hash = Some (hexenc (sha256 secret)),
                        rr_shares_used = word_of_nat (length shs), rr_error = None\<rparr>
              | None \<Rightarrow> \<lparr>rr_success = True, rr_secret = Some secret, rr_secret_hash = None,
                          rr_shares_used = word_of_nat (length shs), rr_error = None\<rparr>)"

definition reconstruct ::
  "(bytes \<Rightarrow> bytes) \<Rightarrow> (bytes \<Rightarrow> string) \<Rightarrow> shamir_secret_sharing \<Rightarrow> time \<Rightarrow> share list \<Rightarrow> reconstruction_result" where
  "reconstruct sha256 hexenc s now shs =
     reconstruct_with_metadata sha256 hexenc s shs
       \<lparr>md_id = 0, md_version = 1, md_created_at = now, md_is_verifiable = False,
        md_secret_hash = None, md_original_len = None, md_num_blocks = Some 1\<rparr>"

definition verify_reconstruction ::
  "(bytes \<Rightarrow> bytes) \<Rightarrow> (bytes \<Rightarrow> string) \<Rightarrow> shamir_secret_sharing \<Rightarrow> time \<Rightarrow> share list \<Rightarrow> bytes
    \<Rightarrow> reconstruction_result" where
  "verify_reconstruction sha256 hexenc s now shs expected_secret =
     (let result = reconstruct sha256 hexenc s now shs
      in if rr_success result then
           (case rr_secret result of
              Some secret \<Rightarrow>
                if hexenc (sha256 secret) = hexenc (sha256 expected_secret) then result
                else reconstruction_failed (length shs) (Lit ''Secret hash mismatch'')
            | None \<Rightarrow> result)
         else result)"

section \<open>The arithmetic computes in the field\<close>

definition gfw :: "u64 \<Rightarrow> gf" where
  "gfw w = gf_of (uint w)"

lemma uint_FIELD_PRIME: "uint FIELD_PRIME = fprime"
  by (simp add: FIELD_PRIME_def fprime_def)

lemma sss_prime_new [simp]: "sss_prime sss_new = FIELD_PRIME"
  by (simp add: sss_new_def)

lemma gfw_0 [simp]: "gfw 0 = 0" and gfw_1 [simp]: "gfw 1 = 1"
  by (simp_all add: gfw_def)

lemma gfw_inj: "gfw a = gfw b \<Longrightarrow> a < FIELD_PRIME \<Longrightarrow> b < FIELD_PRIME \<Longrightarrow> a = b"
  unfolding gfw_def word_less_def uint_FIELD_PRIME
  by (rule word_uint_eqI) (rule gf_of_inj, auto)

lemma uint_mod_prime: "uint (a mod FIELD_PRIME) = uint a mod fprime"
  by (simp add: uint_mod uint_FIELD_PRIME)

lemma mod_prime_less: "a mod FIELD_PRIME < FIELD_PRIME"
  by (simp add: word_less_def uint_mod_prime uint_FIELD_PRIME)

lemma u64_less: "uint (a :: u64) < 2 ^ 64"
  using uint_lt2p [of a] by simp

lemma fprime_less: "fprime < 2305843009213693952"
  by (simp add: fprime_def)

lemma uint_mul_mod: "uint (mul_mod sss_new a b) = uint a * uint b mod fprime"
proof -
  have "uint a * uint b < 2 ^ 64 * 2 ^ 64"
    using u64_less [of a] u64_less [of b] by (intro mult_strict_mono') auto
  then have "uint (ucast a * ucast b :: u128) = uint a * uint b"
    by (simp add: uint_word_ariths unsigned_ucast_eq take_bit_eq_mod mod_simps)
  then have "uint ((ucast a * ucast b :: u128) mod ucast FIELD_PRIME) = uint a * uint b mod fprime"
    by (simp add: uint_mod unsigned_ucast_eq take_bit_eq_mod uint_FIELD_PRIME fprime_def)
  moreover have "uint a * uint b mod fprime < 18446744073709551616"
    using pos_mod_bound [OF fprime_pos, of "uint a * uint b"] fprime_less by linarith
  ultimately show ?thesis
    by (simp add: mul_mod_def unsigned_ucast_eq take_bit_eq_mod)
qed

lemma mul_mod_less: "mul_mod sss_new a b < FIELD_PRIME"
  by (simp add: word_less_def uint_mul_mod uint_FIELD_PRIME)

lemma gfw_mul_mod: "gfw (mul_mod sss_new a b) = gfw a * gfw b"
  by (simp add: gfw_def uint_mul_mod gf_of_mult)

lemma uint_add_mod:
  assumes "a < FIELD_PRIME" "b < FIELD_PRIME"
  shows "uint (add_mod sss_new a b) = (uint a + uint b) mod fprime"
proof -
  have "uint a + uint b < 2 ^ 64"
    using assms fprime_less by (simp add: word_less_def uint_FIELD_PRIME)
  then have "uint (a + b) = uint a + uint b"
    by (simp add: uint_word_ariths)
  then show ?thesis by (simp add: add_mod_def uint_mod_prime)
qed

lemma add_mod_less: "add_mod sss_new a b < FIELD_PRIME"
  by (simp add: add_mod_def mod_prime_less)

lemma gfw_add_mod: "a < FIELD_PRIME \<Longrightarrow> b < FIELD_PRIME \<Longrightarrow> gfw (add_mod sss_new a b) = gfw a + gfw b"
  by (simp add: gfw_def uint_add_mod gf_of_add)

lemma gfw_sub_mod:
  assumes "uint a < 4294967296" "uint b < 4294967296"
  shows "gfw (sub_mod sss_new a b) = gfw a - gfw b"
proof -
  have "uint (a + FIELD_PRIME - b) = uint a + fprime - uint b"
  proof -
    have "uint (a + FIELD_PRIME) = uint a + fprime"
      using assms(1) by (simp add: uint_word_ariths uint_FIELD_PRIME fprime_def)
    moreover have "0 \<le> uint a + fprime - uint b"
      using assms uint_ge_0 [of a] unfolding fprime_def by linarith
    moreover have "uint a + fprime - uint b < 18446744073709551616"
      using assms uint_ge_0 [of b] unfolding fprime_def by linarith
    ultimately show ?thesis by (simp add: uint_word_ariths)
  qed
  then have "gfw (sub_mod sss_new a b) = gf_of (uint a + fprime - uint b)"
    by (simp add: gfw_def sub_mod_def uint_mod_prime)
  then show ?thesis by (simp add: gfw_def gf_of_diff gf_of_add)
qed

lemma power_square_step:
  "x ^ n = (if n mod 2 = 1 then x else 1) * (x * x :: 'a::comm_monoid_mult) ^ (n div 2)"
proof (cases "even n")
  case True
  then obtain m where "n = m + m" by (metis evenE mult_2)
  then show ?thesis by (simp add: power_add power_mult_distrib)
next
  case False
  then obtain m where "n = Suc (m + m)" by (metis Suc_eq_plus1 mult_2 oddE)
  moreover have "n mod 2 = 1" using False by presburger
  ultimately show ?thesis by (simp add: power_add power_mult_distrib)
qed

lemma gfw_pow_loop: "gfw (pow_loop sss_new r b e) = gfw r * gfw b ^ unat e"
proof (induction sss_new r b e rule: pow_loop.induct)
  case (1 r b e)
  show ?case
  proof (cases "e = 0")
    case True
    then show ?thesis by (simp add: pow_loop.simps [of _ _ _ 0])
  next
    case False
    have parity: "e mod 2 = 1 \<longleftrightarrow> unat e mod 2 = 1"
      by (simp add: word_unat_eq_iff unat_mod)
    have half: "unat (e div 2) = unat e div 2" by (simp add: unat_div)
    note square = power_square_step [of "gfw b" "unat e"]
    with False 1 show ?thesis
      by (simp add: pow_loop.simps [of _ r b e] parity half gfw_mul_mod square)
  qed
qed

lemma gfw_mod_prime: "gfw (a mod FIELD_PRIME) = gfw a"
  by (simp add: gfw_def uint_mod_prime)

lemma gfw_pow_mod: "gfw (pow_mod sss_new b e) = gfw b ^ unat e"
  by (simp add: pow_mod_def gfw_pow_loop gfw_mod_prime)

lemma gfw_inv_mod: "gfw (inv_mod sss_new a) = inverse (gfw a)"
proof -
  have "unat (FIELD_PRIME - 2) = gord - 1"
    by (simp add: FIELD_PRIME_def gord_def)
  then show ?thesis by (simp add: inv_mod_def gfw_pow_mod gf_inverse_power)
qed

lemma poly_loop:
  assumes "r < FIELD_PRIME"
  shows "fst (foldl (poly_step sss_new x) (r, xp) cs) < FIELD_PRIME
    \<and> gfw (fst (foldl (poly_step sss_new x) (r, xp) cs)) = gfw r + gfw xp * peval (map gfw cs) (gfw x)"
  using assms
proof (induction cs arbitrary: r xp)
  case Nil
  then show ?case by simp
next
  case (Cons c cs)
  show ?case
    using Cons.IH [OF add_mod_less, of r "mul_mod sss_new c xp" "mul_mod sss_new xp x"] Cons.prems
    by (simp add: gfw_add_mod mul_mod_less gfw_mul_mod algebra_simps)
qed

lemma FIELD_PRIME_pos [simp]: "0 < FIELD_PRIME"
  by (simp add: FIELD_PRIME_def)

lemma evaluate_polynomial_less: "evaluate_polynomial sss_new cs x < FIELD_PRIME"
  using poly_loop [of 0 x 1 cs] by (simp add: evaluate_polynomial_def)

lemma gfw_evaluate_polynomial:
  "gfw (evaluate_polynomial sss_new cs x) = peval (map gfw cs) (gfw x)"
  using poly_loop [of 0 x 1 cs] by (simp add: evaluate_polynomial_def)

section \<open>Interpolation recovers the constant term\<close>

abbreviation gfx :: "share \<Rightarrow> gf" where
  "gfx sh \<equiv> gfw (ucast (sh_x sh))"

lemma uint_ucast_u32: "uint (ucast (a :: u32) :: u64) = uint a"
  using uint_lt2p [of a] by (simp add: unsigned_ucast_eq take_bit_eq_mod)

lemma u32_less: "uint (a :: u32) < 4294967296"
  using uint_lt2p [of a] by simp

lemma gfx_inj: "gfx s = gfx t \<longleftrightarrow> sh_x s = sh_x t"
proof
  assume "gfx s = gfx t"
  then have "uint (sh_x s) = uint (sh_x t)"
    unfolding gfw_def uint_ucast_u32
    by (rule gf_of_inj) (use u32_less [of "sh_x s"] u32_less [of "sh_x t"] in \<open>auto simp: fprime_def\<close>)
  then show "sh_x s = sh_x t" by (rule word_uint_eqI)
qed simp

lemma gfw_sub_x:
  "gfw (sub_mod sss_new (ucast (sh_x s)) (ucast (sh_x t))) = gfx s - gfx t"
  by (rule gfw_sub_mod) (simp_all only: uint_ucast_u32 u32_less)

lemma lagrange_loop:
  assumes "distinct js"
  shows "gfw (fst (foldl (lagrange_step sss_new block i) (n, d) js))
      = gfw n * (\<Prod>j \<in> set js - {i}. gfx (block ! j))
    \<and> gfw (snd (foldl (lagrange_step sss_new block i) (n, d) js))
      = gfw d * (\<Prod>j \<in> set js - {i}. gfx (block ! j) - gfx (block ! i))"
  using assms
proof (induction js arbitrary: n d)
  case Nil
  then show ?case by simp
next
  case (Cons j js)
  show ?case
  proof (cases "i = j")
    case True
    with Cons show ?thesis by simp
  next
    case False
    then have "set (j # js) - {i} = insert j (set js - {i})" by auto
    moreover have "j \<notin> set js - {i}" using Cons.prems by simp
    ultimately show ?thesis using Cons False
      by (simp add: Let_def gfw_mul_mod gfw_sub_x mult.assoc)
  qed
qed

lemma gfw_lagrange_coeff:
  "gfw (lagrange_coeff sss_new block i) = lcoeff {..<length block} (\<lambda>j. gfx (block ! j)) i"
proof -
  have [simp]: "{0..<length block} = {..<length block}" by auto
  show ?thesis
    using lagrange_loop [of "[0..<length block]" block i 1 1]
    by (simp add: lagrange_coeff_def case_prod_beta gfw_mul_mod gfw_inv_mod lcoeff_def
        prod.distrib prod_inversef [unfolded comp_def])
qed

lemma interpolate_loop:
  assumes "r < FIELD_PRIME"
  shows "foldl (\<lambda>v i. add_mod sss_new v (mul_mod sss_new (f i) (g i))) r is < FIELD_PRIME
    \<and> gfw (foldl (\<lambda>v i. add_mod sss_new v (mul_mod sss_new (f i) (g i))) r is)
      = gfw r + (\<Sum>i \<leftarrow> is. gfw (f i) * gfw (g i))"
  using assms
proof (induction "is" arbitrary: r)
  case Nil
  then show ?case by simp
next
  case (Cons i "is")
  show ?case
    using Cons.IH [OF add_mod_less, of r "mul_mod sss_new (f i) (g i)"] Cons.prems
    by (simp add: gfw_add_mod mul_mod_less gfw_mul_mod algebra_simps)
qed

lemma interpolate_block_less: "interpolate_block sss_new block < FIELD_PRIME"
  unfolding interpolate_block_def by (rule interpolate_loop [THEN conjunct1]) simp

lemma gfw_interpolate_block:
  "gfw (interpolate_block sss_new block)
     = linterp {..<length block} (\<lambda>j. gfx (block ! j)) (\<lambda>j. gfw (sh_y (block ! j)))"
  by (simp add: interpolate_block_def interpolate_loop gfw_lagrange_coeff linterp_def
      interv_sum_list_conv_sum_set_nat atLeast0LessThan)

lemma interpolate_block_recovers:
  assumes "distinct (map sh_x block)" "length cs \<le> length block" "cs \<noteq> []" "hd cs < FIELD_PRIME"
    and "\<And>sh. sh \<in> set block \<Longrightarrow> sh_y sh = evaluate_polynomial sss_new cs (ucast (sh_x sh))"
  shows "interpolate_block sss_new block = hd cs"
proof -
  let ?x = "\<lambda>j. gfx (block ! j)"
  have "inj_on ?x {..<length block}"
    using assms(1) by (auto simp: inj_on_def gfx_inj distinct_conv_nth)
  then have "linterp {..<length block} ?x (\<lambda>j. peval (map gfw cs) (?x j)) = peval (map gfw cs) 0"
    using assms(2) by (intro linterp_peval) auto
  moreover have "linterp {..<length block} ?x (\<lambda>j. gfw (sh_y (block ! j)))
      = linterp {..<length block} ?x (\<lambda>j. peval (map gfw cs) (?x j))"
    unfolding linterp_def by (rule sum.cong) (auto simp: assms(5) gfw_evaluate_polynomial)
  moreover have "peval (map gfw cs) 0 = gfw (hd cs)" using assms(3) by (cases cs) auto
  ultimately have "gfw (interpolate_block sss_new block) = gfw (hd cs)"
    by (simp add: gfw_interpolate_block)
  then show ?thesis using interpolate_block_less assms(4) by (rule gfw_inj)
qed

section \<open>Blocks of a padded secret\<close>

lemma padded_len_eq: "padded_len n = 7 * (n div 7 + 1)"
  by (auto simp: padded_len_def block_size_def)

lemma padded_len_ge: "n < padded_len n"
  unfolding padded_len_eq by presburger

lemma length_pad_secret: "length (pad_secret secret) = padded_len (length secret)"
  using padded_len_ge [of "length secret"] by (simp add: pad_secret_def Let_def)

lemma take_pad_secret: "take (length secret) (pad_secret secret) = secret"
  by (simp add: pad_secret_def Let_def)

lemma block_slice:
  assumes "length padded = 7 * n" "b < n"
  shows "length (take 7 (drop (b * 7) padded)) = 7"
  using assms by simp

lemma block_value_unat:
  assumes "length padded = 7 * n" "b < n"
  shows "unat (block_value padded b) = from_be (take 7 (drop (b * 7) padded))"
    and "unat (block_value padded b) < 2 ^ 56"
proof -
  let ?bs = "take 7 (drop (b * 7) padded)"
  have lt: "from_be ?bs < 2 ^ 56"
    using from_be_less [of ?bs] block_slice [OF assms] by (simp del: length_take length_drop)
  then show eq: "unat (block_value padded b) = from_be ?bs"
    by (simp add: block_value_def block_size_def unat_of_nat)
  show "unat (block_value padded b) < 2 ^ 56" using lt eq by simp
qed

lemma block_value_less:
  assumes "length padded = 7 * n" "b < n"
  shows "block_value padded b < FIELD_PRIME"
  using block_value_unat(2) [OF assms] by (simp add: word_less_nat_alt FIELD_PRIME_def)

lemma block_bytes_value:
  assumes "length padded = 7 * n" "b < n"
  shows "block_bytes (block_value padded b) = take 7 (drop (b * 7) padded)"
proof -
  let ?bs = "take 7 (drop (b * 7) padded)"
  have "be_bytes (length (0 # ?bs)) (from_be (0 # ?bs)) = 0 # ?bs"
    by (rule be_bytes_from_be)
  then have "be_bytes 8 (from_be ?bs) = 0 # ?bs"
    using block_slice [OF assms] by (simp del: length_take length_drop be_bytes.simps)
  then show ?thesis
    using block_value_unat(1) [OF assms] by (simp add: block_bytes_def del: be_bytes.simps)
qed

lemma concat_block_bytes:
  assumes "length padded = 7 * n"
  shows "concat (map (\<lambda>b. block_bytes (block_value padded b)) [0..<n]) = padded"
proof -
  have "map (\<lambda>b. block_bytes (block_value padded b)) [0..<n] = map (\<lambda>b. take 7 (drop (b * 7) padded)) [0..<n]"
    using assms by (intro map_cong refl block_bytes_value) auto
  then show ?thesis using concat_chunks [OF assms] by (simp only:)
qed

section \<open>The shares of the participants present\<close>

abbreviation present_shares :: "u32 list \<Rightarrow> share list \<Rightarrow> share list" where
  "present_shares present shs \<equiv> filter (\<lambda>sh. sh_x sh \<in> set present) shs"

definition share_points :: "u32 \<Rightarrow> u32 list" where
  "share_points n = map word_of_nat [1..<Suc (unat n)]"

lemma set_share_points: "set (share_points n) = {1..n}"
proof
  show "set (share_points n) \<subseteq> {1..n}"
  proof
    fix x assume "x \<in> set (share_points n)"
    then obtain i where i: "x = word_of_nat i" "1 \<le> i" "i \<le> unat n"
      by (auto simp: share_points_def)
    then have "unat x = i"
      using unat_u32 [of n] by (simp add: unat_of_nat_u32)
    with i show "x \<in> {1..n}" by (simp add: word_le_nat_alt)
  qed
  show "{1..n} \<subseteq> set (share_points n)"
  proof
    fix x assume "x \<in> {1..n}"
    then have "unat x \<in> {1..<Suc (unat n)}" "x = word_of_nat (unat x)"
      by (auto simp: word_le_nat_alt)
    then show "x \<in> set (share_points n)"
      unfolding share_points_def by (metis imageI set_map set_upt)
  qed
qed

lemma distinct_share_points: "distinct (share_points n)"
proof -
  have "inj_on (word_of_nat :: nat \<Rightarrow> u32) (set [1..<Suc (unat n)])"
    using unat_u32 [of n] by (intro inj_onI) (metis atLeastLessThan_iff le_less_trans less_Suc_eq_le set_upt unat_of_nat_u32)
  then show ?thesis by (simp add: share_points_def distinct_map)
qed

lemma map_sh_x_block_shares: "map sh_x (block_shares s cs n b) = share_points n"
  by (simp add: block_shares_def share_points_def comp_def)

lemma block_shares_y:
  assumes "sh \<in> set (block_shares s cs n b)"
  shows "sh_y sh = evaluate_polynomial s cs (ucast (sh_x sh))"
proof -
  from assms obtain i where "i \<in> {1..<Suc (unat n)}" and
    sh: "sh = \<lparr>sh_x = word_of_nat i, sh_y = evaluate_polynomial s cs (word_of_nat i), sh_block_index = word_of_nat b\<rparr>"
    unfolding block_shares_def set_map set_upt by blast
  then have i: "i \<le> unat n" by simp
  have "ucast (word_of_nat i :: u32) = (word_of_nat i :: u64)"
    using i unat_u32 [of n] by (simp add: word_unat_eq_iff unsigned_ucast_eq unat_of_nat take_bit_eq_mod)
  with sh show ?thesis by simp
qed

lemma present_block:
  assumes "distinct present" "set present \<subseteq> {1..n}"
  shows "length (present_shares present (block_shares s cs n b)) = length present"
    and "distinct (map sh_x (present_shares present (block_shares s cs n b)))"
proof -
  let ?blk = "present_shares present (block_shares s cs n b)"
  have eq: "map sh_x ?blk = filter (\<lambda>x. x \<in> set present) (share_points n)"
    by (simp add: filter_map comp_def flip: map_sh_x_block_shares [of s cs n b])
  then show d: "distinct (map sh_x ?blk)" using distinct_share_points by simp
  have "set (map sh_x ?blk) = set present"
    using assms(2) unfolding eq by (auto simp: set_share_points)
  then have "length (map sh_x ?blk) = length present"
    using d assms(1) by (metis distinct_card)
  then show "length ?blk = length present" by simp
qed

lemma present_block_secret:
  assumes "distinct present" "set present \<subseteq> {1..n}" "length cs \<le> length present"
    "cs \<noteq> []" "hd cs < FIELD_PRIME"
  shows "interpolate_block sss_new (present_shares present (block_shares sss_new cs n b)) = hd cs"
  using assms present_block [OF assms(1,2), of sss_new cs b]
  by (intro interpolate_block_recovers) (auto intro: block_shares_y)

definition split_blocks :: "bytes \<Rightarrow> nat" where
  "split_blocks secret = length secret div 7 + 1"

lemma sss_split_ok_iff:
  "is_ok (sss_split sha256 hexenc s rnd i now secret k n v) \<longleftrightarrow> 2 \<le> k \<and> k \<le> n \<and> secret \<noteq> []"
  by (auto simp: sss_split_def Let_def not_less)

lemma sss_split_Inr:
  assumes "sss_split sha256 hexenc s rnd i now secret k n v = Inr sh" "length secret div 7 + 1 < 2 ^ 32"
  shows "2 \<le> k" "k \<le> n" "secret \<noteq> []"
    "ss_shares sh = concat (map (\<lambda>b. block_shares s
       (block_coefficients s rnd (pad_secret secret) k b) n b) [0..<split_blocks secret])"
    "md_original_len (ss_metadata sh) = Some (length secret)"
    "md_secret_hash (ss_metadata sh) = Some (hexenc (sha256 secret))"
    "md_num_blocks (ss_metadata sh) = Some (word_of_nat (split_blocks secret))"
    "unat (word_of_nat (split_blocks secret) :: u32) = split_blocks secret"
proof -
  have len: "length (pad_secret secret) div block_size = split_blocks secret"
    by (simp add: length_pad_secret padded_len_eq split_blocks_def block_size_def)
  show unat: "unat (word_of_nat (split_blocks secret) :: u32) = split_blocks secret"
    using assms(2) by (intro unat_of_nat_u32) (simp add: split_blocks_def)
  show "2 \<le> k" "k \<le> n" "secret \<noteq> []"
    "ss_shares sh = concat (map (\<lambda>b. block_shares s
       (block_coefficients s rnd (pad_secret secret) k b) n b) [0..<split_blocks secret])"
    "md_original_len (ss_metadata sh) = Some (length secret)"
    "md_secret_hash (ss_metadata sh) = Some (hexenc (sha256 secret))"
    "md_num_blocks (ss_metadata sh) = Some (word_of_nat (split_blocks secret))"
    using assms(1) unat by (auto simp: sss_split_def Let_def len not_less split: if_splits)
qed

text \<open>
  C9. Splitting a secret and reconstructing it from the shares of any group of distinct
  participants at least as large as the threshold, whatever random coefficients were drawn,
  returns exactly the secret and passes the hash check; reconstruction needs the metadata the
  split returned and the shares in the block-major order it produced.
\<close>

theorem shamir_roundtrip:
  assumes split: "sss_split sha256 hexenc sss_new rnd i now secret k n v = Inr sh"
    and len: "length secret div 7 + 1 < 2 ^ 32"
    and present: "distinct present" "set present \<subseteq> {1..n}" "unat k \<le> length present"
  shows "reconstruct_with_metadata sha256 hexenc sss_new
           (present_shares present (ss_shares sh)) (ss_metadata sh)
         = \<lparr>rr_success = True, rr_secret = Some secret, rr_secret_hash = Some (hexenc (sha256 secret)),
            rr_shares_used = word_of_nat (length present * (length secret div 7 + 1)), rr_error = None\<rparr>"
proof -
  let ?nb = "split_blocks secret" and ?m = "length present" and ?pad = "pad_secret secret"
  let ?cs = "block_coefficients sss_new rnd ?pad k"
  let ?blk = "\<lambda>b. present_shares present (block_shares sss_new (?cs b) n b)"
  let ?shs = "present_shares present (ss_shares sh)"
  note facts = sss_split_Inr [OF split len]
  have k: "2 \<le> unat k" using facts(1) by (simp add: word_le_nat_alt)
  have shs: "?shs = concat (map ?blk [0..<?nb])"
    by (simp add: facts(4) filter_concat_map)
  have uniform: "\<forall>ys \<in> set (map ?blk [0..<?nb]). length ys = ?m"
    using present_block(1) [OF present(1,2)] by auto
  have lens: "length ?shs = ?m * ?nb"
    using length_concat_uniform [OF uniform] by (simp add: shs)
  have slice: "take ?m (drop (b * ?m) ?shs) = ?blk b" if "b < ?nb" for b
    using take_drop_concat_uniform [OF uniform, of b] that by (simp add: shs)
  have padlen: "length ?pad = 7 * ?nb"
    by (simp add: length_pad_secret padded_len_eq split_blocks_def)
  have secret: "interpolate_block sss_new (?blk b) = block_value ?pad b" if "b < ?nb" for b
  proof -
    have "hd (?cs b) = block_value ?pad b" "?cs b \<noteq> []" "length (?cs b) = unat k"
      using k by (simp_all add: block_coefficients_def)
    then show ?thesis
      using present_block_secret [OF present(1,2), of "?cs b"] present(3) block_value_less [OF padlen that]
      by simp
  qed
  have pos: "0 < ?nb" "0 < ?m" using k present(3) by (simp add: split_blocks_def, linarith)
  have blocks: "concat (map (\<lambda>b. block_bytes (interpolate_block sss_new
          (take ?m (drop (b * ?m) ?shs)))) [0..<?nb]) = ?pad"
  proof -
    have "map (\<lambda>b. block_bytes (interpolate_block sss_new (take ?m (drop (b * ?m) ?shs)))) [0..<?nb]
      = map (\<lambda>b. block_bytes (block_value ?pad b)) [0..<?nb]"
      by (rule map_cong) (simp_all only: slice secret set_upt atLeastLessThan_iff)
    then show ?thesis by (simp only: concat_block_bytes [OF padlen])
  qed
  have strip: "strip_padding (Some (length secret)) ?pad = secret"
    using padded_len_ge [of "length secret"]
    by (simp add: strip_padding_def length_pad_secret take_pad_secret)
  have nonempty: "?shs \<noteq> []" and div: "length ?shs div ?nb = ?m"
    and guards: "(length ?shs < ?nb) = False" "(?nb = 0 \<or> length ?shs mod ?nb \<noteq> 0) = False"
    using lens pos by auto
  show ?thesis
    unfolding reconstruct_with_metadata_def Let_def facts(5-7) option.case facts(8) guards div blocks strip
    by (simp only: nonempty if_False refl not_True_eq_False lens split_blocks_def)
qed

theorem shamir_roundtrip_witness:
  "\<exists>sh. sss_split (\<lambda>b. b) (\<lambda>b. ''h'') sss_new (\<lambda>_ _. [1]) 0 0 [1, 2, 3] 2 3 True = Inr sh
    \<and> rr_secret (reconstruct_with_metadata (\<lambda>b. b) (\<lambda>b. ''h'') sss_new
          (present_shares [1, 3] (ss_shares sh)) (ss_metadata sh)) = Some [1, 2, 3]"
proof -
  obtain sh where sh: "sss_split (\<lambda>b. b) (\<lambda>b. ''h'') sss_new (\<lambda>_ _. [1]) 0 0 [1, 2, 3] 2 3 True = Inr sh"
    using sss_split_ok_iff [of "\<lambda>b. b" "\<lambda>b. ''h''" sss_new "\<lambda>_ _. [1]" 0 0 "[1, 2, 3]" 2 3 True]
    by (auto simp: is_ok_iff)
  have "rr_secret (reconstruct_with_metadata (\<lambda>b. b) (\<lambda>b. ''h'') sss_new
          (present_shares [1, 3] (ss_shares sh)) (ss_metadata sh)) = Some [1, 2, 3]"
    by (subst shamir_roundtrip [OF sh]) simp_all
  with sh show ?thesis by blast
qed

section \<open>What a single share and the commitments tell\<close>

lemma random_field_element_nonzero: "gfw (random_field_element sss_new bs) \<noteq> 0"
proof -
  have "random_field_element sss_new bs < FIELD_PRIME \<and> random_field_element sss_new bs \<noteq> 0"
    by (simp add: random_field_element_def Let_def mod_prime_less) (simp add: FIELD_PRIME_def)
  then show ?thesis by (metis gfw_0 gfw_inj FIELD_PRIME_pos)
qed

lemma block_shares_x_nonzero:
  assumes "sh \<in> set (block_shares s cs n b)"
  shows "gfx sh \<noteq> 0"
proof -
  have "sh_x sh \<in> set (share_points n)"
    using assms map_sh_x_block_shares [of s cs n b] by (metis image_eqI set_map)
  then have "sh_x sh \<noteq> 0" by (auto simp: set_share_points)
  then have "uint (sh_x sh) \<noteq> 0" by (simp add: uint_0_iff)
  then show ?thesis
    using u32_less [of "sh_x sh"] gf_of_inj [of "uint (sh_x sh)" 0]
    by (auto simp: gfw_def uint_ucast_u32 fprime_def)
qed

text \<open>
  With threshold two, no share of a block ever equals the block's secret value: the
  random coefficient is never zero, so one share excludes one candidate for the secret. The
  module documentation promises that fewer shares than the threshold reveal no information.
\<close>

theorem shamir_threshold_two_leak:
  assumes "length padded = 7 * m" "b < m"
    and "sh \<in> set (block_shares sss_new (block_coefficients sss_new rnd padded 2 b) n b)"
  shows "sh_y sh \<noteq> block_value padded b"
proof
  let ?cs = "block_coefficients sss_new rnd padded 2 b"
  assume eq: "sh_y sh = block_value padded b"
  obtain r where cs: "?cs = [block_value padded b, r]" and r: "gfw r \<noteq> 0"
    using random_field_element_nonzero by (auto simp: block_coefficients_def upt_rec)
  have "gfw (sh_y sh) = gfw (block_value padded b) + gfx sh * gfw r"
    using block_shares_y [OF assms(3)] by (simp add: gfw_evaluate_polynomial cs)
  then have "gfx sh * gfw r = 0" using eq by simp
  with r block_shares_x_nonzero [OF assms(3)] show False by simp
qed

theorem shamir_threshold_two_leak_witness:
  "sh_y (block_shares sss_new (block_coefficients sss_new (\<lambda>_ _. [1]) [0, 0, 0, 0, 0, 0, 5] 2 0) 3 0 ! 0)
    \<noteq> block_value [0, 0, 0, 0, 0, 0, 5] 0"
proof (rule shamir_threshold_two_leak [where m = 1])
  show "block_shares sss_new (block_coefficients sss_new (\<lambda>_ _. [1]) [0, 0, 0, 0, 0, 0, 5] 2 0) 3 0 ! 0
    \<in> set (block_shares sss_new (block_coefficients sss_new (\<lambda>_ _. [1]) [0, 0, 0, 0, 0, 0, 5] 2 0) 3 0)"
    by (rule nth_mem) (simp add: block_shares_def)
qed simp_all

lemma check_coefficients_generated:
  assumes "\<And>i c. (i, c) \<in> set ics \<Longrightarrow> i < length cms \<and> cm_value (cms ! i) = commitment_value sha256 b i c"
  shows "check_coefficients sha256 b cms ics = Some \<lparr>sv_valid = True, sv_x = 0, sv_error = None\<rparr>"
  using assms by (induction ics) (auto, fastforce+)

lemma generated_commitment_nth:
  assumes "(i, c) \<in> set (enumerate 0 cs)"
  shows "i < length (generate_commitments_for_block sha256 cs b)"
    and "cm_value (generate_commitments_for_block sha256 cs b ! i) = commitment_value sha256 b i c"
  using assms by (auto simp: generate_commitments_for_block_def in_set_enumerate_eq nth_enumerate_eq)

lemma filter_generated:
  assumes "b < m" "m < 2 ^ 32"
  shows "filter (\<lambda>c. cm_block_index c = word_of_nat b)
      (concat (map (\<lambda>b. generate_commitments_for_block sha256 (cs b) (word_of_nat b)) [0..<m]))
    = generate_commitments_for_block sha256 (cs b) (word_of_nat b)"
proof -
  have "filter (\<lambda>c. cm_block_index c = word_of_nat b)
      (generate_commitments_for_block sha256 (cs b') (word_of_nat b'))
    = (if b' = b then generate_commitments_for_block sha256 (cs b) (word_of_nat b) else [])"
    if "b' < m" for b'
  proof -
    have "(word_of_nat b' :: u32) = word_of_nat b \<longleftrightarrow> b' = b"
    proof -
      have "b < 4294967296" "b' < 4294967296" using that assms by simp_all
      then show ?thesis by (metis unat_of_nat_u32)
    qed
    then show ?thesis
      by (auto simp: generate_commitments_for_block_def filter_empty_conv intro!: filter_True)
  qed
  then have "map (\<lambda>b'. filter (\<lambda>c. cm_block_index c = word_of_nat b)
      (generate_commitments_for_block sha256 (cs b') (word_of_nat b'))) [0..<m]
    = map (\<lambda>b'. if b' = b then generate_commitments_for_block sha256 (cs b) (word_of_nat b) else []) [0..<m]"
    by (intro map_cong) auto
  moreover have "concat (map (\<lambda>b'. if b' = b then X else []) [0..<m]) = X" if "b < m" for X :: "commitment list"
    using that by (induction m) (auto simp: less_Suc_eq)
  ultimately show ?thesis using assms(1) by (simp only: filter_concat_map)
qed


text \<open>
  The commitments a verifiable split publishes verify the polynomial coefficients of
  every block: the check finds the block's own commitments among all, accepts each coefficient
  and never indexes past the last commitment.
\<close>

theorem shamir_commitments_verify:
  assumes split: "sss_split sha256 hexenc sss_new rnd i now secret k n True = Inr sh"
    and len: "length secret div 7 + 1 < 2 ^ 32" and b: "b < length secret div 7 + 1"
  shows "\<exists>cms. ss_commitments sh = Some cms \<and> md_is_verifiable (ss_metadata sh) \<and>
    verify_coefficients_against_commitments sha256
      (block_coefficients sss_new rnd (pad_secret secret) k b) cms (word_of_nat b)
    = Some \<lparr>sv_valid = True, sv_x = 0, sv_error = None\<rparr>"
proof -
  let ?cs = "block_coefficients sss_new rnd (pad_secret secret) k"
  let ?gen = "\<lambda>b. generate_commitments_for_block sha256 (?cs b) (word_of_nat b)"
  let ?cms = "concat (map ?gen [0..<split_blocks secret])"
  have "length (pad_secret secret) div block_size = split_blocks secret"
    by (simp add: length_pad_secret padded_len_eq split_blocks_def block_size_def)
  note blocks = this sss_split_Inr(8) [OF split len]
  have ne: "?gen b \<noteq> []" by (simp add: generate_commitments_for_block_def block_coefficients_def)
  have mem: "?gen b \<in> set (map ?gen [0..<split_blocks secret])"
    unfolding set_map using b by (intro imageI) (simp add: split_blocks_def del: upt_Suc)
  have ne': "?cms \<noteq> []"
  proof
    assume "?cms = []"
    then have "?gen b = []" using mem unfolding concat_eq_Nil_conv by (rule bspec)
    with ne show False by simp
  qed
  have cms: "ss_commitments sh = Some ?cms" "md_is_verifiable (ss_metadata sh)"
    using split ne' unfolding sss_split_def Let_def blocks by (auto split: if_splits)
  have "filter (\<lambda>c. cm_block_index c = word_of_nat b) ?cms = ?gen b"
    using filter_generated [of b "split_blocks secret"] b len by (simp add: split_blocks_def)
  then have "verify_coefficients_against_commitments sha256 (?cs b) ?cms (word_of_nat b)
    = Some \<lparr>sv_valid = True, sv_x = 0, sv_error = None\<rparr>"
    using ne generated_commitment_nth
    by (simp add: verify_coefficients_against_commitments_def check_coefficients_generated)
  with cms show ?thesis by blast
qed

theorem shamir_commitments_verify_witness:
  "\<exists>sh cms. sss_split (\<lambda>b. b) (\<lambda>b. ''h'') sss_new (\<lambda>_ _. [1]) 0 0 [1, 2, 3, 4, 5, 6, 7, 8] 2 3 True = Inr sh
    \<and> ss_commitments sh = Some cms
    \<and> verify_coefficients_against_commitments (\<lambda>b. b)
        (block_coefficients sss_new (\<lambda>_ _. [1]) (pad_secret [1, 2, 3, 4, 5, 6, 7, 8]) 2 1) cms (word_of_nat 1)
      = Some \<lparr>sv_valid = True, sv_x = 0, sv_error = None\<rparr>"
proof -
  obtain sh where sh: "sss_split (\<lambda>b. b) (\<lambda>b. ''h'') sss_new (\<lambda>_ _. [1]) 0 0 [1, 2, 3, 4, 5, 6, 7, 8] 2 3 True = Inr sh"
    using sss_split_ok_iff [of "\<lambda>b. b" "\<lambda>b. ''h''" sss_new "\<lambda>_ _. [1]" 0 0 "[1, 2, 3, 4, 5, 6, 7, 8]" 2 3 True]
    by (auto simp: is_ok_iff)
  show ?thesis using shamir_commitments_verify [OF sh, of 1] sh by fastforce
qed

lemma strip_padding_pad_secret:
  assumes "length secret \<le> 6"
  shows "strip_padding None (pad_secret secret) = secret"
proof -
  let ?n = "7 - length secret"
  have pad: "pad_secret secret = secret @ replicate ?n (word_of_nat ?n)"
    using assms by (simp add: pad_secret_def padded_len_eq Let_def)
  have n: "0 < ?n" "?n \<le> 7" using assms by auto
  have u: "unat (word_of_nat ?n :: u8) = ?n" using n by (simp only: unat_word_of_nat_byte) simp
  have "last (pad_secret secret) = word_of_nat ?n" using n unfolding pad by simp
  then show ?thesis
    using n u by (simp add: strip_padding_def Let_def pad list_all_iff del: of_nat_diff)
qed

text \<open>
  A secret of at most six bytes fits one block, and the metadata-free reconstruction
  recovers it from any group of participants of threshold size, removing the padding by looking
  at it.
\<close>

theorem shamir_legacy_roundtrip:
  assumes split: "sss_split sha256 hexenc sss_new rnd i now secret k n v = Inr sh"
    and short: "length secret \<le> 6"
    and present: "distinct present" "set present \<subseteq> {1..n}" "unat k \<le> length present"
  shows "rr_success (reconstruct sha256 hexenc sss_new now' (present_shares present (ss_shares sh)))
    \<and> rr_secret (reconstruct sha256 hexenc sss_new now' (present_shares present (ss_shares sh))) = Some secret"
proof -
  let ?pad = "pad_secret secret" and ?m = "length present"
  let ?cs = "block_coefficients sss_new rnd ?pad k 0"
  let ?shs = "present_shares present (ss_shares sh)"
  have one: "split_blocks secret = 1" using short by (simp add: split_blocks_def)
  have "length secret div 7 + 1 < 2 ^ 32" using short by simp
  note facts = sss_split_Inr [OF split this]
  have k: "2 \<le> unat k" using facts(1) by (simp add: word_le_nat_alt)
  have padlen: "length ?pad = 7 * 1" using one by (simp add: length_pad_secret padded_len_eq split_blocks_def)
  have shs: "?shs = present_shares present (block_shares sss_new ?cs n 0)"
    using facts(4) one by simp
  then have lens: "length ?shs = ?m" using present_block(1) [OF present(1,2)] by metis
  have "interpolate_block sss_new ?shs = block_value ?pad 0"
    unfolding shs using present_block_secret [OF present(1,2), of ?cs 0] k present(3)
      block_value_less [OF padlen, of 0] by (simp add: block_coefficients_def)
  moreover have "block_bytes (block_value ?pad 0) = ?pad"
    using block_bytes_value [OF padlen, of 0] padlen by simp
  moreover have "?shs \<noteq> []" "\<not> length ?shs < 1"
    using lens k present(3) by (metis le_zero_eq list.size(3) not_numeral_le_zero order_trans, linarith)
  ultimately have "reconstruct sha256 hexenc sss_new now' ?shs
    = \<lparr>rr_success = True, rr_secret = Some secret, rr_secret_hash = None,
       rr_shares_used = word_of_nat (length ?shs), rr_error = None\<rparr>"
    using strip_padding_pad_secret [OF short]
    by (simp add: reconstruct_def reconstruct_with_metadata_def)
  then show ?thesis by simp
qed

theorem shamir_legacy_roundtrip_witness:
  "\<exists>sh. sss_split (\<lambda>b. b) (\<lambda>b. ''h'') sss_new (\<lambda>_ _. [1]) 0 0 [1, 2, 3] 2 3 True = Inr sh
    \<and> rr_secret (reconstruct (\<lambda>b. b) (\<lambda>b. ''h'') sss_new 0 (present_shares [3, 2] (ss_shares sh)))
        = Some [1, 2, 3]"
proof -
  obtain sh where sh: "sss_split (\<lambda>b. b) (\<lambda>b. ''h'') sss_new (\<lambda>_ _. [1]) 0 0 [1, 2, 3] 2 3 True = Inr sh"
    using sss_split_ok_iff [of "\<lambda>b. b" "\<lambda>b. ''h''" sss_new "\<lambda>_ _. [1]" 0 0 "[1, 2, 3]" 2 3 True]
    by (auto simp: is_ok_iff)
  have "rr_secret (reconstruct (\<lambda>b. b) (\<lambda>b. ''h'') sss_new 0 (present_shares [3, 2] (ss_shares sh)))
        = Some [1, 2, 3]"
    by (rule shamir_legacy_roundtrip [OF sh, THEN conjunct2]) simp_all
  with sh show ?thesis by blast
qed

text \<open>
  A reconstruction that reports success under metadata carrying a hash returns a secret
  with exactly that hash, whatever shares it was given.
\<close>

theorem reconstruct_success_hash:
  assumes "rr_success (reconstruct_with_metadata sha256 hexenc s shs md)" "md_secret_hash md = Some h"
  shows "\<exists>secret. rr_secret (reconstruct_with_metadata sha256 hexenc s shs md) = Some secret
    \<and> hexenc (sha256 secret) = h"
  using assms
  by (auto simp: reconstruct_with_metadata_def reconstruction_failed_def Let_def split: if_splits)

theorem reconstruct_success_hash_witness:
  "\<exists>secret. rr_secret (reconstruct_with_metadata (\<lambda>b. b) (\<lambda>b. ''h'') sss_new
      [\<lparr>sh_x = 1, sh_y = 5, sh_block_index = 0\<rparr>]
      \<lparr>md_id = 0, md_version = 2, md_created_at = 0, md_is_verifiable = False,
       md_secret_hash = Some ''h'', md_original_len = Some 1, md_num_blocks = Some 1\<rparr>) = Some secret"
  using reconstruct_success_hash [of "\<lambda>b. b" "\<lambda>b. ''h''" sss_new
      "[\<lparr>sh_x = 1, sh_y = 5, sh_block_index = 0\<rparr>]"
      "\<lparr>md_id = 0, md_version = 2, md_created_at = 0, md_is_verifiable = False,
        md_secret_hash = Some ''h'', md_original_len = Some 1, md_num_blocks = Some 1\<rparr>" "''h''"]
  by (simp add: reconstruct_with_metadata_def)

text \<open>
  The check of a single share accepts every value below the prime, so a forged share of a
  block that has commitments passes. The module documentation says participants can verify that
  their shares are valid.
\<close>

theorem verify_share_accepts_forged:
  assumes "cm \<in> set cms" "cm_block_index cm = sh_block_index sh" "y < sss_prime s"
  shows "sv_valid (verify_share s (sh\<lparr>sh_y := y\<rparr>) cms)"
proof -
  have "filter (\<lambda>c. cm_block_index c = sh_block_index sh) cms \<noteq> []"
    using assms(1,2) by (auto simp: filter_empty_conv)
  then have "sort_key cm_index (filter (\<lambda>c. cm_block_index c = sh_block_index sh) cms) \<noteq> []"
    by (metis length_0_conv length_sort)
  with assms(3) show ?thesis by (simp add: verify_share_def Let_def)
qed

theorem verify_share_accepts_forged_witness:
  "sv_valid (verify_share sss_new (\<lparr>sh_x = 1, sh_y = 7, sh_block_index = 0\<rparr>\<lparr>sh_y := 42\<rparr>)
     [\<lparr>cm_block_index = 0, cm_index = 0, cm_value = 9\<rparr>])"
  by (rule verify_share_accepts_forged [where cm = "\<lparr>cm_block_index = 0, cm_index = 0, cm_value = 9\<rparr>"])
    (simp_all add: FIELD_PRIME_def)

end
