(* ===== verification/Kms_Types.thy ===== *)
theory Kms_Types
  imports Prelude
begin

text \<open>
  The domain types of \<^verbatim>\<open>crates/kms-core\<close>: key specifications and their capabilities, the
  life cycle states, key metadata, ciphertexts, signatures (\<^verbatim>\<open>key.rs\<close>), the error type
  (\<^verbatim>\<open>error.rs\<close>), key agreement types (\<^verbatim>\<open>dh.rs\<close>) and backend types (\<^verbatim>\<open>types.rs\<close>).
\<close>

section \<open>Errors\<close>

text \<open>The last constructor stands for a panic of the source, which is no \<open>Err\<close> value.\<close>

datatype kms_error =
    KeyNotFound msg
  | KeyVersionNotFound msg
  | PermissionDenied msg
  | InvalidKeySpec msg
  | InvalidAlgorithm msg
  | EncryptionFailed msg
  | DecryptionFailed msg
  | SignatureFailed msg
  | VerificationFailed msg
  | KeyExchangeFailed msg
  | PolicyNotFound msg
  | InvalidPolicy msg
  | PolicyEvaluationFailed msg
  | KeystoreError msg
  | BackendUnavailable msg
  | InvalidCiphertext
  | InvalidSignature
  | InvalidSm2Scalar msg
  | KeyOperationNotAllowed msg
  | KeyAlreadyExists msg
  | Internal msg
  | NotImplemented msg
  | TpmError msg
  | TpmSessionError msg
  | TpmAuthFailed msg
  | TpmPcrMismatch bytes bytes
  | TpmNvIndexNotFound u32
  | TpmNvWriteFailed msg
  | MasterKeyError msg
  | MasterKeyNotFound
  | MasterKeyCorrupted
  | Panicked string

text \<open>
  \<open>to_string\<close> of an error, unrendered. A panic has no text: it is no error value, and
  \<open>map_kms_err\<close>, the source's \<open>map_err\<close> on a result of this type, lets it through.
\<close>

fun err_display :: "kms_error \<Rightarrow> msg" where
  "err_display (KeyNotFound m) = Fmt [Lit ''key not found: '', m]"
| "err_display (KeyVersionNotFound m) = Fmt [Lit ''key version not found: '', m]"
| "err_display (PermissionDenied m) = Fmt [Lit ''permission denied: '', m]"
| "err_display (InvalidKeySpec m) = Fmt [Lit ''invalid key spec: '', m]"
| "err_display (InvalidAlgorithm m) = Fmt [Lit ''invalid algorithm: '', m]"
| "err_display (EncryptionFailed m) = Fmt [Lit ''encryption failed: '', m]"
| "err_display (DecryptionFailed m) = Fmt [Lit ''decryption failed: '', m]"
| "err_display (SignatureFailed m) = Fmt [Lit ''signature failed: '', m]"
| "err_display (VerificationFailed m) = Fmt [Lit ''verification failed: '', m]"
| "err_display (KeyExchangeFailed m) = Fmt [Lit ''key exchange failed: '', m]"
| "err_display (PolicyNotFound m) = Fmt [Lit ''policy not found: '', m]"
| "err_display (InvalidPolicy m) = Fmt [Lit ''invalid policy: '', m]"
| "err_display (PolicyEvaluationFailed m) = Fmt [Lit ''policy evaluation failed: '', m]"
| "err_display (KeystoreError m) = Fmt [Lit ''keystore error: '', m]"
| "err_display (BackendUnavailable m) = Fmt [Lit ''backend unavailable: '', m]"
| "err_display InvalidCiphertext = Lit ''invalid ciphertext''"
| "err_display InvalidSignature = Lit ''invalid signature''"
| "err_display (InvalidSm2Scalar m) = Fmt [Lit ''invalid SM2 private scalar: '', m]"
| "err_display (KeyOperationNotAllowed m) = Fmt [Lit ''key operation not allowed: '', m]"
| "err_display (KeyAlreadyExists m) = Fmt [Lit ''key already exists: '', m]"
| "err_display (Internal m) = Fmt [Lit ''internal error: '', m]"
| "err_display (NotImplemented m) = Fmt [Lit ''not implemented: '', m]"
| "err_display (TpmError m) = Fmt [Lit ''TPM error: '', m]"
| "err_display (TpmSessionError m) = Fmt [Lit ''TPM session error: '', m]"
| "err_display (TpmAuthFailed m) = Fmt [Lit ''TPM authorization failed: '', m]"
| "err_display (TpmPcrMismatch e a) = Fmt [Lit ''TPM PCR mismatch: expected '', DbgBytes e, Lit '', got '', DbgBytes a]"
| "err_display (TpmNvIndexNotFound i) = Fmt [Lit ''TPM NV index not found: '', Num (unat i)]"
| "err_display (TpmNvWriteFailed m) = Fmt [Lit ''TPM NV write failed: '', m]"
| "err_display (MasterKeyError m) = Fmt [Lit ''master key error: '', m]"
| "err_display MasterKeyNotFound = Lit ''master key not found''"
| "err_display MasterKeyCorrupted = Lit ''master key corrupted''"
| "err_display (Panicked s) = Str s"

definition map_kms_err :: "(kms_error \<Rightarrow> kms_error) \<Rightarrow> kms_error + 'a \<Rightarrow> kms_error + 'a" where
  "map_kms_err f r =
     (case r of Inl (Panicked s) \<Rightarrow> Inl (Panicked s) | Inl e \<Rightarrow> Inl (f e) | Inr x \<Rightarrow> Inr x)"

lemma map_kms_err_Inr [simp]: "map_kms_err f r = Inr x \<longleftrightarrow> r = Inr x" "map_kms_err f (Inr x) = Inr x"
  by (auto simp: map_kms_err_def split: sum.splits kms_error.splits)

section \<open>Key specifications\<close>

datatype key_spec =
    Aes256Gcm | Rsa4096 | EcdsaP256 | EcdsaP384 | Ed25519 | Ed448 | HmacSha256 | Sm3Hmac
  | Sm2 | Sm4 | Sm9Signing | Sm9Encryption

datatype key_purpose = DataEncryption | KeyEncryption | Signing | AuditSigning

fun algorithm_name :: "key_spec \<Rightarrow> string" where
  "algorithm_name Aes256Gcm = ''AES-256-GCM''"
| "algorithm_name Rsa4096 = ''RSA-4096''"
| "algorithm_name EcdsaP256 = ''ECDSA-P256''"
| "algorithm_name EcdsaP384 = ''ECDSA-P384''"
| "algorithm_name Ed25519 = ''Ed25519''"
| "algorithm_name Ed448 = ''Ed448''"
| "algorithm_name HmacSha256 = ''HMAC-SHA256''"
| "algorithm_name Sm3Hmac = ''HMAC-SM3''"
| "algorithm_name Sm2 = ''SM2''"
| "algorithm_name Sm4 = ''SM4''"
| "algorithm_name Sm9Signing = ''SM9-Signing''"
| "algorithm_name Sm9Encryption = ''SM9-Encryption''"

text \<open>\<open>{:?}\<close> of a specification: the derived \<open>Debug\<close> prints the variant's name.\<close>

fun spec_debug :: "key_spec \<Rightarrow> string" where
  "spec_debug Aes256Gcm = ''Aes256Gcm''"
| "spec_debug Rsa4096 = ''Rsa4096''"
| "spec_debug EcdsaP256 = ''EcdsaP256''"
| "spec_debug EcdsaP384 = ''EcdsaP384''"
| "spec_debug Ed25519 = ''Ed25519''"
| "spec_debug Ed448 = ''Ed448''"
| "spec_debug HmacSha256 = ''HmacSha256''"
| "spec_debug Sm3Hmac = ''Sm3Hmac''"
| "spec_debug Sm2 = ''Sm2''"
| "spec_debug Sm4 = ''Sm4''"
| "spec_debug Sm9Signing = ''Sm9Signing''"
| "spec_debug Sm9Encryption = ''Sm9Encryption''"

definition is_asymmetric :: "key_spec \<Rightarrow> bool" where
  "is_asymmetric spec \<longleftrightarrow>
     spec \<in> {Rsa4096, EcdsaP256, EcdsaP384, Ed25519, Ed448, Sm2, Sm9Signing, Sm9Encryption}"

definition is_symmetric :: "key_spec \<Rightarrow> bool" where
  "is_symmetric spec \<longleftrightarrow> spec \<in> {Aes256Gcm, HmacSha256, Sm3Hmac, Sm4}"

definition supports_encryption :: "key_spec \<Rightarrow> bool" where
  "supports_encryption spec \<longleftrightarrow> spec \<in> {Aes256Gcm, Rsa4096, Sm4, Sm2, Sm9Encryption}"

definition supports_signing :: "key_spec \<Rightarrow> bool" where
  "supports_signing spec \<longleftrightarrow> spec \<in> {Rsa4096, EcdsaP256, EcdsaP384, Ed25519, Ed448, Sm2, Sm9Signing}"

definition is_generatable :: "key_spec \<Rightarrow> bool" where
  "is_generatable spec \<longleftrightarrow> spec \<in> {Aes256Gcm, HmacSha256, Sm3Hmac, Sm4, Sm2, Ed25519}"

definition is_importable :: "key_spec \<Rightarrow> bool" where
  "is_importable spec \<longleftrightarrow>
     spec \<in> {Aes256Gcm, HmacSha256, Sm3Hmac, Sm4, Sm2, Ed25519, EcdsaP256, EcdsaP384, Ed448, Rsa4096}"

fun default_purpose :: "key_spec \<Rightarrow> key_purpose" where
  "default_purpose HmacSha256 = AuditSigning"
| "default_purpose Sm3Hmac = AuditSigning"
| "default_purpose Sm2 = Signing"
| "default_purpose Ed25519 = Signing"
| "default_purpose Ed448 = Signing"
| "default_purpose EcdsaP256 = Signing"
| "default_purpose EcdsaP384 = Signing"
| "default_purpose Rsa4096 = Signing"
| "default_purpose Sm9Signing = Signing"
| "default_purpose _ = DataEncryption"

lemmas spec_class_defs =
  is_asymmetric_def is_symmetric_def supports_encryption_def supports_signing_def
  is_generatable_def is_importable_def

section \<open>Life cycle and metadata\<close>

datatype key_status = Active | PendingDeletion | Obsolete | Destroyed

definition can_use :: "key_status \<Rightarrow> bool" where
  "can_use st \<longleftrightarrow> st = Active"

definition can_decrypt :: "key_status \<Rightarrow> bool" where
  "can_decrypt st \<longleftrightarrow> st \<in> {Active, PendingDeletion, Obsolete}"

definition can_rotate :: "key_status \<Rightarrow> bool" where
  "can_rotate st \<longleftrightarrow> st \<in> {Active, Obsolete}"

record key_metadata =
  km_tags :: "string list"
  km_labels :: "string \<rightharpoonup> string"
  km_max_usage_count :: "u64 option"
  km_current_usage_count :: u64
  km_allowed_operations :: "string list"

definition key_metadata_default :: key_metadata where
  "key_metadata_default = \<lparr>km_tags = [], km_labels = Map.empty, km_max_usage_count = None,
     km_current_usage_count = 0, km_allowed_operations = []\<rparr>"

record key_meta =
  m_id :: uuid
  m_tenant_id :: string
  m_name :: string
  m_spec :: key_spec
  m_status :: key_status
  m_created_at :: time
  m_rotated_at :: "time option"
  m_version :: u32
  m_description :: "string option"
  m_metadata :: key_metadata

record key_filter =
  kf_tenant_id :: "string option"
  kf_status :: "key_status option"
  kf_spec :: "key_spec option"
  kf_tags :: "string list option"
  kf_limit :: "nat option"
  kf_offset :: "nat option"

record ciphertext =
  ct_key_id :: uuid
  ct_version :: u32
  ct_format_version :: u8
  ct_nonce :: bytes
  ct_ciphertext :: bytes
  ct_tag :: bytes

record signature =
  sig_key_id :: uuid
  sig_version :: u32
  sig_signature :: bytes

record destruction_proof =
  dp_key_id :: uuid
  dp_material_hash :: string
  dp_destroyed_at :: time
  dp_hash_algorithm :: string
  dp_key_size_bytes :: nat
  dp_zeroization_verified :: bool
  dp_hmac_signature :: "string option"

definition destruction_proof_new ::
  "uuid \<Rightarrow> string \<Rightarrow> nat \<Rightarrow> bool \<Rightarrow> string option \<Rightarrow> time \<Rightarrow> destruction_proof" where
  "destruction_proof_new key_id material_hash key_size zeroized hmac now =
     \<lparr>dp_key_id = key_id, dp_material_hash = material_hash, dp_destroyed_at = now,
      dp_hash_algorithm = ''SHA256'', dp_key_size_bytes = key_size,
      dp_zeroization_verified = zeroized, dp_hmac_signature = hmac\<rparr>"

text \<open>
  \<open>compute_hmac\<close> and \<open>verify_hmac\<close> sign the JSON of the proof without its signature field: the
  serialiser, HMAC-SM3 and base64 decoding come from other crates and are parameters.
\<close>

definition compute_hmac ::
  "(destruction_proof \<Rightarrow> bytes) \<Rightarrow> (bytes \<Rightarrow> bytes \<Rightarrow> bytes) \<Rightarrow> destruction_proof \<Rightarrow> bytes \<Rightarrow> bytes" where
  "compute_hmac to_json sm3_hmac p key = sm3_hmac key (to_json (p\<lparr>dp_hmac_signature := None\<rparr>))"

definition verify_hmac ::
  "(destruction_proof \<Rightarrow> bytes) \<Rightarrow> (bytes \<Rightarrow> bytes \<Rightarrow> bytes) \<Rightarrow> (string \<Rightarrow> bytes option)
    \<Rightarrow> destruction_proof \<Rightarrow> bytes \<Rightarrow> bool" where
  "verify_hmac to_json sm3_hmac base64_decode p key =
     (case dp_hmac_signature p of
        None \<Rightarrow> False
      | Some hmac \<Rightarrow>
          (let computed = sm3_hmac key (to_json (p\<lparr>dp_hmac_signature := None\<rparr>))
           in case base64_decode hmac of None \<Rightarrow> False | Some decoded \<Rightarrow> computed = decoded))"

datatype backend_type = Software | Hsm | Tpm | Cloud | Cached | Database

fun backend_type_str :: "backend_type \<Rightarrow> string" where
  "backend_type_str Software = ''software''"
| "backend_type_str Hsm = ''hsm''"
| "backend_type_str Tpm = ''tpm''"
| "backend_type_str Cloud = ''cloud''"
| "backend_type_str Cached = ''cached''"
| "backend_type_str Database = ''database''"

datatype dh_algorithm = DhEcdsaP256 | DhEcdsaP384 | X25519 | Sm2Kex

fun dh_as_str :: "dh_algorithm \<Rightarrow> string" where
  "dh_as_str DhEcdsaP256 = ''ECDH-P256''"
| "dh_as_str DhEcdsaP384 = ''ECDH-P384''"
| "dh_as_str X25519 = ''X25519''"
| "dh_as_str Sm2Kex = ''SM2-KEX''"

fun public_key_size :: "dh_algorithm \<Rightarrow> nat" where
  "public_key_size DhEcdsaP256 = 65"
| "public_key_size DhEcdsaP384 = 97"
| "public_key_size X25519 = 32"
| "public_key_size Sm2Kex = 64"

fun shared_secret_size :: "dh_algorithm \<Rightarrow> nat" where
  "shared_secret_size DhEcdsaP256 = 32"
| "shared_secret_size DhEcdsaP384 = 48"
| "shared_secret_size X25519 = 32"
| "shared_secret_size Sm2Kex = 32"

record shared_secret =
  sec_secret :: bytes
  sec_kdf :: "string option"

datatype health_status = Healthy | Degraded | Unhealthy | Unknown

section \<open>Facts\<close>

lemma spec_symmetric_or_asymmetric: "is_symmetric sp \<longleftrightarrow> \<not> is_asymmetric sp"
  by (cases sp) (simp_all add: spec_class_defs)

lemma generatable_importable: "is_generatable sp \<Longrightarrow> is_importable sp"
  by (cases sp) (simp_all add: spec_class_defs)

lemma algorithm_name_inj: "algorithm_name a = algorithm_name b \<Longrightarrow> a = b"
  by (cases a; cases b) simp_all

lemma status_order: "can_use st \<Longrightarrow> can_decrypt st \<and> can_rotate st"
  by (simp add: can_use_def can_decrypt_def can_rotate_def)

lemma hmac_roundtrip:
  assumes "base64_decode (enc (compute_hmac to_json mac p key)) = Some (compute_hmac to_json mac p key)"
  shows "verify_hmac to_json mac base64_decode
           (p\<lparr>dp_hmac_signature := Some (enc (compute_hmac to_json mac p key))\<rparr>) key"
  using assms by (simp add: verify_hmac_def compute_hmac_def Let_def)

end
