(* ===== verification/Aad.thy ===== *)
theory Aad
  imports Kms_Types
begin

text \<open>
  Binding of ciphertexts to their context: the additional authenticated data of
  \<^verbatim>\<open>crates/kms-core/src/aad.rs\<close>, a 42-byte record of purpose, key, tenant and version. SHA-256
  is a parameter. The theorem of the theory is that the encoding is injective.
\<close>

definition AAD_MAGIC :: bytes where
  "AAD_MAGIC = [0x6D, 0xB5]"

definition AAD_VERSION :: u16 where
  "AAD_VERSION = 2"

definition AAD_V2_LEN :: nat where
  "AAD_V2_LEN = 42"

datatype purpose = UserData | KekWrap | ExportWrap

fun purpose_u16 :: "purpose \<Rightarrow> u16" where
  "purpose_u16 UserData = 0x0001"
| "purpose_u16 KekWrap = 0x0002"
| "purpose_u16 ExportWrap = 0x0003"

definition purpose_be_bytes :: "purpose \<Rightarrow> bytes" where
  "purpose_be_bytes p = be_bytes 2 (unat (purpose_u16 p))"

text \<open>The bytes of a tenant name are its UTF-8 bytes, one per character of the string.\<close>

definition str_bytes :: "string \<Rightarrow> bytes" where
  "str_bytes s = map of_char s"

definition tenant_hash :: "(bytes \<Rightarrow> bytes) \<Rightarrow> string \<Rightarrow> bytes" where
  "tenant_hash sha256 tenant = take 16 (sha256 (str_bytes tenant))"

definition build_v2 :: "purpose \<Rightarrow> uuid \<Rightarrow> bytes \<Rightarrow> u32 \<Rightarrow> bytes" where
  "build_v2 p key_id tenant_hash' ver =
     AAD_MAGIC @ be_bytes 2 (unat AAD_VERSION) @ purpose_be_bytes p @ be_bytes 16 (unat key_id)
       @ tenant_hash' @ be_bytes 4 (unat ver)"

definition user_data_aad :: "(bytes \<Rightarrow> bytes) \<Rightarrow> uuid \<Rightarrow> string \<Rightarrow> u32 \<Rightarrow> bytes" where
  "user_data_aad sha256 key_id tenant ver = build_v2 UserData key_id (tenant_hash sha256 tenant) ver"

definition kek_wrap_aad :: "uuid \<Rightarrow> bytes" where
  "kek_wrap_aad key_id = build_v2 KekWrap key_id (replicate 16 0) 0"

definition export_wrap_aad :: "(bytes \<Rightarrow> bytes) \<Rightarrow> uuid \<Rightarrow> string \<Rightarrow> bytes" where
  "export_wrap_aad sha256 key_id tenant = build_v2 ExportWrap key_id (tenant_hash sha256 tenant) 0"

section \<open>Length and injectivity\<close>

lemma length_purpose_be_bytes [simp]: "length (purpose_be_bytes p) = 2"
  by (simp add: purpose_be_bytes_def del: be_bytes.simps)

lemma purpose_be_bytes_inj: "purpose_be_bytes p = purpose_be_bytes q \<longleftrightarrow> p = q"
proof
  assume "purpose_be_bytes p = purpose_be_bytes q"
  then have "unat (purpose_u16 p) = unat (purpose_u16 q)"
    unfolding purpose_be_bytes_def by (rule be_bytes_inj) (cases p; simp; cases q; simp)+
  then show "p = q" by (cases p; cases q) simp_all
qed simp

lemma length_build_v2: "length th = 16 \<Longrightarrow> length (build_v2 p key_id th ver) = AAD_V2_LEN"
  by (simp add: build_v2_def AAD_MAGIC_def AAD_V2_LEN_def del: be_bytes.simps)

lemma be_bytes_word_inj:
  fixes a b :: "'a::len word"
  assumes "be_bytes n (unat a) = be_bytes n (unat b)" "2 ^ LENGTH('a) \<le> (256 :: nat) ^ n"
  shows "a = b"
proof -
  have "unat a < 256 ^ n" "unat b < 256 ^ n"
    using unsigned_less [of a] unsigned_less [of b] assms(2) by (meson less_le_trans)+
  with assms(1) have "unat a = unat b" by (rule be_bytes_inj)
  then show ?thesis by (simp add: word_unat_eq_iff)
qed

text \<open>
  The authenticated data determine every field they bind: two encodings with 16-byte tenant
  hashes are equal only for the same purpose, key, tenant hash and key version. Any change of
  one of them changes the data the authentication tag covers.
\<close>

theorem build_v2_inj:
  assumes "length th = 16" "length th' = 16"
  shows "build_v2 p key_id th ver = build_v2 p' key_id' th' ver'
    \<longleftrightarrow> p = p' \<and> key_id = key_id' \<and> th = th' \<and> ver = ver'"
proof
  assume "build_v2 p key_id th ver = build_v2 p' key_id' th' ver'"
  then have "purpose_be_bytes p = purpose_be_bytes p'"
    and k: "be_bytes 16 (unat key_id) = be_bytes 16 (unat key_id')" and "th = th'"
    and v: "be_bytes 4 (unat ver) = be_bytes 4 (unat ver')"
    using assms by (simp_all add: build_v2_def del: be_bytes.simps)
  then show "p = p' \<and> key_id = key_id' \<and> th = th' \<and> ver = ver'"
    using be_bytes_word_inj [OF k] be_bytes_word_inj [OF v] by (simp add: purpose_be_bytes_inj)
qed simp

theorem build_v2_inj_witness:
  "build_v2 UserData 7 (replicate 16 1) 3 \<noteq> build_v2 UserData 7 (replicate 16 1) 4
    \<and> build_v2 UserData 7 (replicate 16 1) 3 \<noteq> build_v2 ExportWrap 7 (replicate 16 1) 3"
  by (simp add: build_v2_inj)

end
