(* ===== verification/Key_Material.thy ===== *)
theory Key_Material
  imports Kms_Types
begin

text \<open>
  Validation of key material: the range check of SM2 private scalars
  (\<^verbatim>\<open>crates/kms-core/src/sm2_scalar.rs\<close>) and the format checks applied to imported material
  (\<^verbatim>\<open>crates/kms-keystore/src/validation.rs\<close>). The first is proved to be the numeric range
  check it is meant to be; for the second the theory states which specifications and lengths it
  lets through and where its own SM2 check departs from the numeric one.
\<close>

section \<open>SM2 private scalars\<close>

definition SM2_CURVE_ORDER_N :: bytes where
  "SM2_CURVE_ORDER_N =
     [0xFF, 0xFF, 0xFF, 0xFE, 0xFF, 0xFF, 0xFF, 0xFF, 0xFF, 0xFF, 0xFF, 0xFF, 0xFF, 0xFF, 0xFF, 0xFF,
      0x72, 0x03, 0xDF, 0x6B, 0x21, 0xC6, 0x05, 0x2B, 0x53, 0xBB, 0xF4, 0x09, 0x39, 0xD5, 0x41, 0x23]"

fun scalar_loop :: "(u8 \<times> u8) list \<Rightarrow> kms_error + unit" where
  "scalar_loop [] = Inl (InvalidSm2Scalar (Lit ''SM2 private scalar must be < n (got exactly n)''))"
| "scalar_loop ((a, b) # rest) =
     (if a < b then Inr ()
      else if a > b then Inl (InvalidSm2Scalar (Lit ''SM2 private scalar must be < n (got > n)''))
      else scalar_loop rest)"

definition sm2_scalar_in_range :: "bytes \<Rightarrow> kms_error + unit" where
  "sm2_scalar_in_range scalar =
     (if length scalar \<noteq> 32 then
        Inl (InvalidSm2Scalar (Fmt [Lit ''scalar must be 32 bytes, got '', Num (length scalar)]))
      else if list_all (\<lambda>b. b = 0) scalar then
        Inl (InvalidSm2Scalar (Lit ''SM2 private scalar must be >= 1 (got 0)''))
      else scalar_loop (zip scalar SM2_CURVE_ORDER_N))"

section \<open>Validation of imported material\<close>

record validation_metadata =
  vm_curve :: "string option"
  vm_usage :: "string option"

record key_validation_result =
  kv_valid :: bool
  kv_error :: "msg option"
  kv_metadata :: validation_metadata

definition kv_ok :: "string option \<Rightarrow> string option \<Rightarrow> key_validation_result" where
  "kv_ok curve usage =
     \<lparr>kv_valid = True, kv_error = None, kv_metadata = \<lparr>vm_curve = curve, vm_usage = usage\<rparr>\<rparr>"

definition kv_bad :: "msg \<Rightarrow> key_validation_result" where
  "kv_bad e = \<lparr>kv_valid = False, kv_error = Some e, kv_metadata = \<lparr>vm_curve = None, vm_usage = None\<rparr>\<rparr>"

definition validate_pkcs8_ed25519 :: "bytes \<Rightarrow> kms_error + unit" where
  "validate_pkcs8_ed25519 material =
     (if length material < 48 then Inl (InvalidAlgorithm (Lit ''PKCS#8 Ed25519 key too short''))
      else if material ! 0 \<noteq> 0x30 then Inl (InvalidAlgorithm (Lit ''Invalid PKCS#8: expected SEQUENCE''))
      else Inr ())"

definition validate_ed25519_key :: "bytes \<Rightarrow> kms_error + key_validation_result" where
  "validate_ed25519_key material =
     (if length material = 32 then Inr (kv_ok (Some ''Ed25519'') (Some ''signing''))
      else if length material \<ge> 48 then
        (case validate_pkcs8_ed25519 material of
           Inl e \<Rightarrow> Inl e
         | Inr _ \<Rightarrow> Inr (kv_ok (Some ''Ed25519'') (Some ''signing'')))
      else Inr (kv_bad (Fmt [Lit ''Ed25519 private key must be 32 bytes (raw) or 48+ bytes (PKCS#8), got '',
                             Num (length material), Lit '' bytes''])))"

definition validate_ed448_key :: "bytes \<Rightarrow> kms_error + key_validation_result" where
  "validate_ed448_key material =
     (if length material = 57 then Inr (kv_ok (Some ''Ed448'') (Some ''signing''))
      else if length material \<ge> 64 then Inr (kv_ok (Some ''Ed448'') (Some ''signing''))
      else Inr (kv_bad (Fmt [Lit ''Ed448 private key must be 57 bytes (raw), got '',
                             Num (length material), Lit '' bytes''])))"

definition validate_pkcs8_ec :: "string \<Rightarrow> bytes \<Rightarrow> kms_error + unit" where
  "validate_pkcs8_ec curve material =
     (if length material < 40 then Inl (InvalidAlgorithm (Lit ''PKCS#8 EC key too short''))
      else if material ! 0 \<noteq> 0x30 then Inl (InvalidAlgorithm (Lit ''Invalid PKCS#8: expected SEQUENCE''))
      else if curve = ''P-256'' \<or> curve = ''P-384'' then Inr ()
      else Inl (InvalidAlgorithm (Fmt [Lit ''Unknown curve: '', Str curve])))"

definition validate_ecdsa_key :: "bytes \<Rightarrow> string \<Rightarrow> kms_error + key_validation_result" where
  "validate_ecdsa_key material curve =
     (case (if curve = ''P-256'' then Some 32 else if curve = ''P-384'' then Some 48 else None) of
        None \<Rightarrow> Inl (InvalidAlgorithm (Fmt [Lit ''Unknown curve: '', Str curve]))
      | Some expected_size \<Rightarrow>
          (if length material = expected_size then Inr (kv_ok (Some curve) (Some ''signing''))
           else if length material \<ge> expected_size + 8 then
             (case validate_pkcs8_ec curve material of
                Inl e \<Rightarrow> Inl e
              | Inr _ \<Rightarrow> Inr (kv_ok (Some curve) (Some ''signing'')))
           else Inr (kv_bad (Fmt [Str curve, Lit '' private key must be '', Num expected_size,
                  Lit '' bytes (raw) or '', Num (expected_size + 8), Lit '' bytes (PKCS#8), got '',
                  Num (length material), Lit '' bytes'']))))"

text \<open>The order constant of the import check, as written in the source: 28 bytes.\<close>

definition SM2_N :: bytes where
  "SM2_N =
     [0xFF, 0xFF, 0xFE, 0xFF, 0xFF, 0xFF, 0xFF, 0xFF, 0xFF, 0xFF, 0xFF, 0xFF, 0x72, 0x03, 0xDF,
      0x6B, 0x21, 0xC6, 0x05, 0x2B, 0x53, 0xBB, 0xF4, 0x09, 0x39, 0xD5, 0x41, 0x23]"

fun sm2_order_loop :: "bytes \<Rightarrow> nat list \<Rightarrow> kms_error + bool" where
  "sm2_order_loop key [] = Inr True"
| "sm2_order_loop key (i # is) =
     (if length SM2_N \<le> 31 - i then Inl (Panicked ''index out of bounds'')
      else if key ! i > SM2_N ! (31 - i) then Inr False
      else if key ! i < SM2_N ! (31 - i) then Inr True
      else sm2_order_loop key is)"

definition validate_sm2_key :: "bytes \<Rightarrow> kms_error + key_validation_result" where
  "validate_sm2_key material =
     (if length material \<noteq> 32 then
        Inr (kv_bad (Fmt [Lit ''SM2 private key must be 32 bytes, got '', Num (length material), Lit '' bytes'']))
      else if list_all (\<lambda>b. b = 0) material then Inr (kv_bad (Lit ''SM2 private key cannot be zero''))
      else case sm2_order_loop material (rev [0..<32]) of
        Inl e \<Rightarrow> Inl e
      | Inr below \<Rightarrow>
          if below then Inr (kv_ok (Some ''SM2'') (Some ''signing/encryption''))
          else Inr (kv_bad (Lit ''SM2 private key >= curve order (invalid)'')))"

definition validate_rsa_key :: "bytes \<Rightarrow> kms_error + key_validation_result" where
  "validate_rsa_key material =
     (if \<not> (2300 \<le> length material \<and> length material \<le> 5000) then
        Inr (kv_bad (Fmt [Lit ''RSA-4096 private key (DER PKCS#1/PKCS#8) must be '', Num 2300, Lit ''-'',
                          Num 5000, Lit '' bytes, got '', Num (length material), Lit '' bytes'']))
      else if material ! 0 \<noteq> 0x30 then
        Inr (kv_bad (Lit ''Invalid RSA key: expected SEQUENCE (PKCS#8)''))
      else Inr (kv_ok None (Some ''signing/encryption'')))"

definition validate_symmetric_key :: "bytes \<Rightarrow> nat \<Rightarrow> kms_error + key_validation_result" where
  "validate_symmetric_key material expected_size =
     (if length material \<noteq> expected_size then
        Inr (kv_bad (Fmt [Lit ''Symmetric key must be '', Num expected_size, Lit '' bytes, got '',
                          Num (length material), Lit '' bytes'']))
      else if list_all (\<lambda>b. b = 0) material then Inr (kv_bad (Lit ''Weak key detected: all zeros''))
      else if list_all (\<lambda>b. b = 0xFF) material then Inr (kv_bad (Lit ''Weak key detected: all 0xFF''))
      else Inr (kv_ok None None))"

fun validate_key_material :: "key_spec \<Rightarrow> bytes \<Rightarrow> kms_error + key_validation_result" where
  "validate_key_material Ed25519 material = validate_ed25519_key material"
| "validate_key_material EcdsaP256 material = validate_ecdsa_key material ''P-256''"
| "validate_key_material EcdsaP384 material = validate_ecdsa_key material ''P-384''"
| "validate_key_material Sm2 material = validate_sm2_key material"
| "validate_key_material Rsa4096 material = validate_rsa_key material"
| "validate_key_material Aes256Gcm material = validate_symmetric_key material 32"
| "validate_key_material HmacSha256 material = validate_symmetric_key material 32"
| "validate_key_material Sm3Hmac material = validate_symmetric_key material 32"
| "validate_key_material Sm4 material = validate_symmetric_key material 16"
| "validate_key_material Sm9Signing material =
     Inr (kv_bad (Fmt [Str (algorithm_name Sm9Signing),
       Lit '' is not importable; SM9 requires KMS-SM9 master-key management (not yet supported)'']))"
| "validate_key_material Sm9Encryption material =
     Inr (kv_bad (Fmt [Str (algorithm_name Sm9Encryption),
       Lit '' is not importable; SM9 requires KMS-SM9 master-key management (not yet supported)'']))"
| "validate_key_material Ed448 material = validate_ed448_key material"

lemmas validation_defs =
  validate_ed25519_key_def validate_ed448_key_def validate_pkcs8_ed25519_def validate_ecdsa_key_def
  validate_pkcs8_ec_def validate_sm2_key_def validate_rsa_key_def validate_symmetric_key_def
  kv_ok_def kv_bad_def

section \<open>The scalar check is the numeric range check\<close>

lemma from_be_Cons: "from_be (b # bs) = unat b * 256 ^ length bs + from_be bs"
proof (induction bs rule: rev_induct)
  case Nil
  then show ?case by (simp add: from_be_def)
next
  case (snoc c cs)
  have "from_be ((b # cs) @ [c]) = from_be (b # cs) * 256 + unat c" by (rule from_be_snoc)
  with snoc show ?case by (simp add: algebra_simps)
qed

lemma scalar_loop_less:
  "length as = length bs \<Longrightarrow> is_ok (scalar_loop (zip as bs)) \<longleftrightarrow> from_be as < from_be bs"
proof (induction as bs rule: list_induct2)
  case Nil
  then show ?case by simp
next
  case (Cons a as b bs)
  have lt: "from_be as < 256 ^ length as" "from_be bs < 256 ^ length as"
    using from_be_less [of as] from_be_less [of bs] Cons.hyps by simp_all
  consider "a < b" | "b < a" | "a = b" using linorder_less_linear by blast
  then show ?case
  proof cases
    case 1
    then have "unat a + 1 \<le> unat b" by (simp add: word_less_nat_alt)
    then have "(unat a + 1) * 256 ^ length as \<le> unat b * 256 ^ length as" by (rule mult_le_mono1)
    with lt 1 show ?thesis by (simp add: from_be_Cons Cons.hyps)
  next
    case 2
    then have "unat b + 1 \<le> unat a" by (simp add: word_less_nat_alt)
    then have "(unat b + 1) * 256 ^ length as \<le> unat a * 256 ^ length as" by (rule mult_le_mono1)
    with lt 2 show ?thesis by (auto simp: from_be_Cons Cons.hyps dest: less_asym)
  next
    case 3
    with Cons show ?thesis by (simp add: from_be_Cons)
  qed
qed

lemma from_be_zero_iff: "from_be bs = 0 \<longleftrightarrow> list_all (\<lambda>b. b = 0) bs"
  by (induction bs) (auto simp: from_be_Cons unat_eq_0)

definition sm2_order :: nat where
  "sm2_order = 0xFFFFFFFEFFFFFFFFFFFFFFFFFFFFFFFF7203DF6B21C6052B53BBF40939D54123"

lemma from_be_order: "from_be SM2_CURVE_ORDER_N = sm2_order"
  by (simp add: SM2_CURVE_ORDER_N_def sm2_order_def from_be_def)

text \<open>
  C25. The byte-wise check of an SM2 private scalar accepts exactly the 32-byte strings whose
  big-endian value lies between 1 and the curve order minus 1.
\<close>

theorem sm2_scalar_in_range_iff:
  "is_ok (sm2_scalar_in_range scalar) \<longleftrightarrow>
     length scalar = 32 \<and> 1 \<le> from_be scalar \<and> from_be scalar < sm2_order"
proof -
  have "length SM2_CURVE_ORDER_N = 32" by (simp add: SM2_CURVE_ORDER_N_def)
  then show ?thesis
    using scalar_loop_less [of scalar SM2_CURVE_ORDER_N]
    by (auto simp: sm2_scalar_in_range_def from_be_order Suc_le_eq from_be_zero_iff [symmetric])
qed

section \<open>What the import check lets through\<close>

lemma symmetric_valid_iff:
  "(\<exists>r. validate_symmetric_key material n = Inr r \<and> kv_valid r) \<longleftrightarrow>
     length material = n \<and> \<not> list_all (\<lambda>b. b = 0) material \<and> \<not> list_all (\<lambda>b. b = 0xFF) material"
  by (auto simp: validation_defs)

text \<open>
  Material accepted for import belongs to an importable specification, and accepted material
  of a symmetric specification has exactly the key length of its algorithm and is not one of the
  two constant weak keys.
\<close>

theorem validate_key_material_sound:
  assumes "validate_key_material sp material = Inr r" "kv_valid r"
  shows "is_importable sp \<and>
    (is_symmetric sp \<longrightarrow> length material = (if sp = Sm4 then 16 else 32)
      \<and> \<not> list_all (\<lambda>b. b = 0) material \<and> \<not> list_all (\<lambda>b. b = 0xFF) material)"
  using assms symmetric_valid_iff [of material] by (cases sp) (auto simp: spec_class_defs kv_bad_def)

theorem validate_key_material_sound_witness:
  "validate_key_material Sm4 (replicate 15 0 @ [1]) = Inr (kv_ok None None) \<and> is_importable Sm4
    \<and> length (replicate 15 (0 :: u8) @ [1]) = 16"
proof -
  have v: "validate_key_material Sm4 (replicate 15 0 @ [1]) = Inr (kv_ok None None)"
    by (simp add: validate_symmetric_key_def)
  show ?thesis using v validate_key_material_sound [OF v] by (simp add: kv_ok_def)
qed

text \<open>
  The import check of SM2 keys compares the last byte of the key with the first byte of a
  truncated order constant: it accepts a scalar above the curve order that the range check
  rejects, rejects a small valid scalar, and indexes out of bounds on another valid one.
\<close>

theorem validate_sm2_key_wrong:
  "validate_sm2_key (replicate 31 0xFF @ [0]) = Inr (kv_ok (Some ''SM2'') (Some ''signing/encryption''))
   \<and> \<not> is_ok (sm2_scalar_in_range (replicate 31 0xFF @ [0]))
   \<and> validate_sm2_key (replicate 29 0 @ [0xFF, 0xFF, 0xFF])
       = Inr (kv_bad (Lit ''SM2 private key >= curve order (invalid)''))
   \<and> is_ok (sm2_scalar_in_range (replicate 29 0 @ [0xFF, 0xFF, 0xFF]))
   \<and> validate_sm2_key ([0, 0, 0, 1] @ rev SM2_N) = Inl (Panicked ''index out of bounds'')
   \<and> is_ok (sm2_scalar_in_range ([0, 0, 0, 1] @ rev SM2_N))"
  by code_simp

end
