(* ===== verification/Software_Keystore.thy ===== *)
theory Software_Keystore
  imports Kms_Types Aad Key_Material
begin

text \<open>
  The software keystore, \<^verbatim>\<open>crates/kms-keystore/src/software/mod.rs\<close>: keys with their version
  history, tenant checks, generation, import, export, encryption, signatures, rotation, deletion
  and listing. The sessions of the SM2 key exchange, which live in the same struct, are modelled in
  \<open>Kex\<close>.

  \<open>ring\<close>, \<open>gm_crypto\<close>, \<open>p256\<close>, \<open>p384\<close>, \<open>x25519_dalek\<close> and \<open>hex\<close> are other crates: the functions used of
  them are the fields of the record \<open>crypto\<close>, an argument of every operation that calls them. Their
  failures carry the text of their error. Random bytes, fresh identifiers and clock readings are
  arguments as well. An operation is modelled as atomic; the source takes the lock once for the
  tenant check and once for the work.
\<close>

section \<open>Cryptographic functions of other crates\<close>

type_synonym rng = "nat \<Rightarrow> u8"

record 'kp crypto =
  sha256 :: "bytes \<Rightarrow> bytes"
  hex_encode :: "bytes \<Rightarrow> string"
  aes_unbound_key :: "bytes \<Rightarrow> string + unit"
  aes_seal :: "bytes \<Rightarrow> bytes \<Rightarrow> bytes \<Rightarrow> bytes \<Rightarrow> string + bytes \<times> bytes"
  aes_open :: "bytes \<Rightarrow> bytes \<Rightarrow> bytes \<Rightarrow> bytes \<Rightarrow> string + bytes"
  sm4_cipher_new :: "bytes \<Rightarrow> string + unit"
  sm4_encrypt_gcm :: "bytes \<Rightarrow> bytes \<Rightarrow> bytes \<Rightarrow> bytes \<Rightarrow> string + bytes \<times> bytes"
  sm4_decrypt_gcm :: "bytes \<Rightarrow> bytes \<Rightarrow> bytes \<Rightarrow> bytes \<Rightarrow> bytes \<Rightarrow> string + bytes"
  sm2_generate :: "rng \<Rightarrow> string + 'kp"
  sm2_private_key_bytes :: "'kp \<Rightarrow> bytes"
  sm2_from_private_key :: "bytes \<Rightarrow> string + 'kp"
  sm2_public_key_bytes :: "'kp \<Rightarrow> bytes"
  sm2_public_key_bytes_uncompressed :: "'kp \<Rightarrow> bytes"
  sm2_distid :: "'kp \<Rightarrow> bytes"
  sm2_encryptor_new :: "bytes \<Rightarrow> string + unit"
  sm2_encrypt :: "bytes \<Rightarrow> rng \<Rightarrow> bytes \<Rightarrow> string + bytes"
  sm2_decrypt :: "'kp \<Rightarrow> bytes \<Rightarrow> string + bytes"
  sm2_signer_new :: "'kp \<Rightarrow> string + unit"
  sm2_sign :: "'kp \<Rightarrow> rng \<Rightarrow> bytes \<Rightarrow> string + bytes"
  sm2_verifier_new :: "bytes \<Rightarrow> bytes \<Rightarrow> string + unit"
  sm2_verify :: "bytes \<Rightarrow> bytes \<Rightarrow> bytes \<Rightarrow> bytes \<Rightarrow> bool"
  ed25519_from_seed :: "bytes \<Rightarrow> string + unit"
  ed25519_sign :: "bytes \<Rightarrow> bytes \<Rightarrow> bytes"
  ed25519_public_key :: "bytes \<Rightarrow> bytes"
  ed25519_verify :: "bytes \<Rightarrow> bytes \<Rightarrow> bytes \<Rightarrow> bool"
  p256_public_key :: "bytes \<Rightarrow> string + unit"
  p256_diffie_hellman :: "rng \<Rightarrow> bytes \<Rightarrow> bytes"
  p384_public_key :: "bytes \<Rightarrow> string + unit"
  p384_diffie_hellman :: "rng \<Rightarrow> bytes \<Rightarrow> bytes"
  x25519_diffie_hellman :: "bytes \<Rightarrow> bytes \<Rightarrow> bytes"

section \<open>State\<close>

record key_entry =
  ke_meta :: key_meta
  ke_material :: bytes
  ke_versions :: "(u32 \<times> bytes) list"

text \<open>The session object of \<open>gm_crypto\<close> is the type parameter.\<close>

record 's sm2_kex_session_entry =
  se_session_id :: uuid
  se_key_id :: uuid
  se_user_id :: bytes
  se_session :: 's
  se_is_initiator :: bool
  se_nonce :: u64
  se_created_at :: time
  se_message_history :: "(time \<times> bytes) list"

record revoked_session_entry =
  re_revoked_at :: time
  re_expires_at :: time

record 's software_keystore =
  keys :: "uuid \<rightharpoonup> key_entry"
  sm2_kex_sessions :: "uuid \<rightharpoonup> 's sm2_kex_session_entry"
  revoked_sessions :: "uuid \<rightharpoonup> revoked_session_entry"

definition ks_new :: "'s software_keystore" where
  "ks_new = \<lparr>keys = Map.empty, sm2_kex_sessions = Map.empty, revoked_sessions = Map.empty\<rparr>"

definition get_entry :: "'s software_keystore \<Rightarrow> uuid \<Rightarrow> kms_error + key_entry" where
  "get_entry s key_id = ok_or (KeyNotFound (Id key_id)) (keys s key_id)"

definition verify_tenant :: "'s software_keystore \<Rightarrow> uuid \<Rightarrow> string \<Rightarrow> kms_error + unit" where
  "verify_tenant s key_id tenant_id =
     and_then (get_entry s key_id) (\<lambda>entry.
       if m_tenant_id (ke_meta entry) \<noteq> tenant_id then Inl (KeyNotFound (Id key_id)) else Inr ())"

text \<open>The tenant check followed by the lookup, the prologue of every operation on a key.\<close>

definition tenant_entry :: "'s software_keystore \<Rightarrow> uuid \<Rightarrow> string \<Rightarrow> kms_error + key_entry" where
  "tenant_entry s key_id tenant_id = and_then (verify_tenant s key_id tenant_id) (\<lambda>_. get_entry s key_id)"

definition not_allowed :: "uuid \<Rightarrow> string \<Rightarrow> kms_error" where
  "not_allowed key_id what = KeyOperationNotAllowed (Fmt [Lit ''Key '', Id key_id, Lit what])"

section \<open>Generation and import\<close>

definition generate_aes_key :: "rng \<Rightarrow> bytes" where
  "generate_aes_key rng = fill_bytes rng 32"

definition generate_ed25519_key :: "rng \<Rightarrow> bytes" where
  "generate_ed25519_key rng = fill_bytes rng 32"

definition generate_sm4_key :: "rng \<Rightarrow> bytes" where
  "generate_sm4_key rng = fill_bytes rng 16"

definition generate_sm2_key :: "'kp crypto \<Rightarrow> rng \<Rightarrow> kms_error + bytes" where
  "generate_sm2_key cr rng =
     and_then (map_err (\<lambda>e. SignatureFailed (Fmt [Lit ''Sm2KeyPair::generate failed: '', Str e]))
                 (sm2_generate cr rng)) (\<lambda>key_pair.
     let b = sm2_private_key_bytes cr key_pair
     in and_then (map_kms_err (\<lambda>e. SignatureFailed
            (Fmt [Lit ''Sm2KeyPair::generate produced out-of-range scalar: '', err_display e]))
            (sm2_scalar_in_range b)) (\<lambda>_. Inr b))"

definition generate_material :: "'kp crypto \<Rightarrow> rng \<Rightarrow> key_spec \<Rightarrow> kms_error + bytes" where
  "generate_material cr rng spec =
     (if spec \<in> {Aes256Gcm, HmacSha256, Sm3Hmac} then Inr (generate_aes_key rng)
      else if spec = Ed25519 then Inr (generate_ed25519_key rng)
      else if spec = Sm4 then Inr (generate_sm4_key rng)
      else if spec = Sm2 then generate_sm2_key cr rng
      else if spec \<in> {Sm9Signing, Sm9Encryption} then
        Inl (NotImplemented (Lit (''SM9 user-key generation requires KMS-SM9 master-key '' @
          ''management infrastructure (not yet integrated). Use RSA / SM2 / SM4 / AES instead.'')))
      else if spec = Rsa4096 then
        Inl (NotImplemented (Lit ''RSA key generation not yet implemented''))
      else
        Inl (NotImplemented (Fmt [Str (algorithm_name spec),
          Lit ('' key generation is not supported; this algorithm can only be imported (importable) ''
               @ dash @ '' not generated by the software keystore'')])))"

definition new_meta :: "uuid \<Rightarrow> time \<Rightarrow> key_spec \<Rightarrow> string \<Rightarrow> string \<Rightarrow> string option \<Rightarrow> key_meta" where
  "new_meta new_id now spec name tenant_id description =
     \<lparr>m_id = new_id, m_tenant_id = tenant_id, m_name = name, m_spec = spec, m_status = Active,
      m_created_at = now, m_rotated_at = None, m_version = 1, m_description = description,
      m_metadata = key_metadata_default\<rparr>"

definition insert_key :: "key_meta \<Rightarrow> bytes \<Rightarrow> 's software_keystore \<Rightarrow> 's software_keystore" where
  "insert_key meta material s =
     s\<lparr>keys := (keys s)(m_id meta \<mapsto> \<lparr>ke_meta = meta, ke_material = material, ke_versions = []\<rparr>)\<rparr>"

definition generate_key ::
  "'kp crypto \<Rightarrow> rng \<Rightarrow> uuid \<Rightarrow> time \<Rightarrow> key_spec \<Rightarrow> string \<Rightarrow> string \<Rightarrow> 's software_keystore
    \<Rightarrow> (kms_error + key_meta) \<times> 's software_keystore" where
  "generate_key cr rng new_id now spec name tenant_id s =
     (case generate_material cr rng spec of
        Inl e \<Rightarrow> (Inl e, s)
      | Inr material \<Rightarrow>
          let meta = new_meta new_id now spec name tenant_id None
          in (Inr meta, insert_key meta material s))"

definition import_check :: "key_spec \<Rightarrow> bytes \<Rightarrow> kms_error + unit" where
  "import_check spec material =
     and_then (map_kms_err (\<lambda>e. InvalidAlgorithm (Fmt [Lit ''key validation failed: '', err_display e]))
                 (validate_key_material spec material)) (\<lambda>validation.
       if \<not> kv_valid validation then
         Inl (InvalidAlgorithm (Fmt [Lit ''invalid key material for '', Dbg (spec_debug spec), Lit '': '',
                case kv_error validation of None \<Rightarrow> Lit ''unknown error'' | Some e \<Rightarrow> e]))
       else Inr ())"

definition import_key_material ::
  "uuid \<Rightarrow> time \<Rightarrow> key_spec \<Rightarrow> string \<Rightarrow> string \<Rightarrow> bytes \<Rightarrow> 's software_keystore
    \<Rightarrow> (kms_error + key_meta) \<times> 's software_keystore" where
  "import_key_material new_id now spec name tenant_id material s =
     (case import_check spec material of
        Inl e \<Rightarrow> (Inl e, s)
      | Inr _ \<Rightarrow>
          let meta = new_meta new_id now spec name tenant_id (Some ''imported'')
          in (Inr meta, insert_key meta material s))"

section \<open>Reading keys\<close>

definition export_key_material :: "'s software_keystore \<Rightarrow> uuid \<Rightarrow> string \<Rightarrow> kms_error + bytes" where
  "export_key_material s key_id tenant_id =
     and_then (tenant_entry s key_id tenant_id) (\<lambda>entry.
       if m_status (ke_meta entry) \<noteq> Active then Inl (not_allowed key_id '' is not active for export'')
       else Inr (ke_material entry))"

definition get_key_material :: "'s software_keystore \<Rightarrow> uuid \<Rightarrow> string \<Rightarrow> kms_error + bytes" where
  "get_key_material s key_id tenant_id =
     and_then (tenant_entry s key_id tenant_id) (\<lambda>entry. Inr (ke_material entry))"

text \<open>\<open>versions.iter().find(|(v, _)| *v == version)\<close> is the first match of the association list.\<close>

definition get_key_material_version ::
  "'s software_keystore \<Rightarrow> uuid \<Rightarrow> u32 \<Rightarrow> string \<Rightarrow> kms_error + bytes" where
  "get_key_material_version s key_id version tenant_id =
     and_then (verify_tenant s key_id tenant_id) (\<lambda>_.
     and_then (ok_or (KeyVersionNotFound (Id key_id)) (keys s key_id)) (\<lambda>entry.
       if version = 0 \<or> version = m_version (ke_meta entry) then Inr (ke_material entry)
       else ok_or (KeyVersionNotFound (Fmt [Id key_id, Lit '' (version '', Num (unat version), Lit '')'']))
              (map_of (ke_versions entry) version)))"

definition get_key_metadata :: "'s software_keystore \<Rightarrow> uuid \<Rightarrow> kms_error + key_meta" where
  "get_key_metadata s key_id =
     ok_or (KeyNotFound (Id key_id)) (map_option ke_meta (keys s key_id))"

section \<open>Encryption\<close>

text \<open>
  \<open>Counter::advance\<close>: the nonce is the low twelve bytes of the big-endian counter. Only the first
  nonce of the sequence is used.
\<close>

definition counter_nonce :: "nat \<Rightarrow> bytes" where
  "counter_nonce c = drop 4 (be_bytes 16 c)"

definition encrypt_aes :: "'kp crypto \<Rightarrow> rng \<Rightarrow> uuid \<Rightarrow> key_entry \<Rightarrow> bytes \<Rightarrow> kms_error + ciphertext" where
  "encrypt_aes cr rng key_id entry plaintext =
     and_then (map_err (\<lambda>e. EncryptionFailed (Str e)) (aes_unbound_key cr (ke_material entry))) (\<lambda>_.
     let starting_counter = from_be (fill_bytes rng 16);
         aad = user_data_aad (sha256 cr) key_id (m_tenant_id (ke_meta entry)) (m_version (ke_meta entry))
     in and_then (map_err (\<lambda>e. EncryptionFailed (Str e))
          (aes_seal cr (ke_material entry) (counter_nonce starting_counter) aad plaintext)) (\<lambda>(in_out, tag).
        Inr \<lparr>ct_key_id = key_id, ct_version = m_version (ke_meta entry), ct_format_version = 2,
             ct_nonce = be_bytes 16 starting_counter, ct_ciphertext = in_out, ct_tag = tag\<rparr>))"

definition encrypt_sm4 :: "'kp crypto \<Rightarrow> rng \<Rightarrow> uuid \<Rightarrow> key_entry \<Rightarrow> bytes \<Rightarrow> kms_error + ciphertext" where
  "encrypt_sm4 cr rng key_id entry plaintext =
     and_then (map_err (\<lambda>e. EncryptionFailed (Str e)) (sm4_cipher_new cr (ke_material entry))) (\<lambda>_.
     let nonce = fill_bytes rng 12;
         aad = user_data_aad (sha256 cr) key_id (m_tenant_id (ke_meta entry)) (m_version (ke_meta entry))
     in and_then (map_err (\<lambda>e. EncryptionFailed (Str e))
          (sm4_encrypt_gcm cr (ke_material entry) plaintext nonce aad)) (\<lambda>(c, tag).
        Inr \<lparr>ct_key_id = key_id, ct_version = m_version (ke_meta entry), ct_format_version = 2,
             ct_nonce = nonce, ct_ciphertext = c, ct_tag = tag\<rparr>))"

definition encrypt_sm2 :: "'kp crypto \<Rightarrow> rng \<Rightarrow> uuid \<Rightarrow> key_entry \<Rightarrow> bytes \<Rightarrow> kms_error + ciphertext" where
  "encrypt_sm2 cr rng key_id entry plaintext =
     and_then (map_err (\<lambda>e. EncryptionFailed (Str e)) (sm2_from_private_key cr (ke_material entry))) (\<lambda>key_pair.
     let pk = sm2_public_key_bytes_uncompressed cr key_pair
     in and_then (map_err (\<lambda>e. EncryptionFailed (Str e)) (sm2_encryptor_new cr pk)) (\<lambda>_.
        and_then (map_err (\<lambda>e. EncryptionFailed (Str e)) (sm2_encrypt cr pk rng plaintext)) (\<lambda>encrypted.
        if length encrypted < 97 then Inl (Panicked ''slice index out of range'')
        else Inr \<lparr>ct_key_id = key_id, ct_version = m_version (ke_meta entry), ct_format_version = 1,
                  ct_nonce = take 65 encrypted, ct_ciphertext = drop 97 encrypted,
                  ct_tag = take 32 (drop 65 encrypted)\<rparr>)))"

definition encrypt ::
  "'kp crypto \<Rightarrow> rng \<Rightarrow> 's software_keystore \<Rightarrow> uuid \<Rightarrow> bytes \<Rightarrow> bytes option \<Rightarrow> string
    \<Rightarrow> kms_error + ciphertext" where
  "encrypt cr rng s key_id plaintext aad tenant_id =
     and_then (tenant_entry s key_id tenant_id) (\<lambda>entry.
       if m_status (ke_meta entry) \<noteq> Active then Inl (not_allowed key_id '' is not active'')
       else if m_spec (ke_meta entry) \<in> {Aes256Gcm, HmacSha256} then encrypt_aes cr rng key_id entry plaintext
       else if m_spec (ke_meta entry) = Sm4 then encrypt_sm4 cr rng key_id entry plaintext
       else if m_spec (ke_meta entry) = Sm2 then encrypt_sm2 cr rng key_id entry plaintext
       else Inl (InvalidAlgorithm (Fmt [Lit ''Encryption not supported for '',
              Dbg (spec_debug (m_spec (ke_meta entry)))])))"

definition select_material :: "key_entry \<Rightarrow> uuid \<Rightarrow> u32 \<Rightarrow> kms_error + bytes" where
  "select_material entry key_id version =
     (if version = m_version (ke_meta entry) then Inr (ke_material entry)
      else ok_or (KeyVersionNotFound (Fmt [Id key_id, Lit '' (version '', Num (unat version), Lit '')'']))
             (map_of (ke_versions entry) version))"

definition stored_aad :: "'kp crypto \<Rightarrow> uuid \<Rightarrow> key_entry \<Rightarrow> ciphertext \<Rightarrow> kms_error + bytes" where
  "stored_aad cr key_id entry c =
     (if ct_format_version c \<in> {0, 1} then Inr []
      else if ct_format_version c = 2 then
        Inr (user_data_aad (sha256 cr) key_id (m_tenant_id (ke_meta entry)) (ct_version c))
      else Inl InvalidCiphertext)"

definition decrypt_aes ::
  "'kp crypto \<Rightarrow> uuid \<Rightarrow> key_entry \<Rightarrow> bytes \<Rightarrow> ciphertext \<Rightarrow> kms_error + bytes" where
  "decrypt_aes cr key_id entry key_material c =
     and_then (map_err (\<lambda>e. DecryptionFailed (Str e)) (aes_unbound_key cr key_material)) (\<lambda>_.
     let starting_counter = (if length (ct_nonce c) = 16 then from_be (ct_nonce c) else 0)
     in and_then (stored_aad cr key_id entry c) (\<lambda>aad.
        map_err (\<lambda>_. InvalidCiphertext)
          (aes_open cr key_material (counter_nonce starting_counter) aad (ct_ciphertext c @ ct_tag c))))"

definition decrypt_sm4 ::
  "'kp crypto \<Rightarrow> uuid \<Rightarrow> key_entry \<Rightarrow> bytes \<Rightarrow> ciphertext \<Rightarrow> kms_error + bytes" where
  "decrypt_sm4 cr key_id entry key_material c =
     and_then (map_err (\<lambda>e. DecryptionFailed (Str e)) (sm4_cipher_new cr key_material)) (\<lambda>_.
     and_then (stored_aad cr key_id entry c) (\<lambda>aad.
       map_err (\<lambda>_. InvalidCiphertext)
         (sm4_decrypt_gcm cr key_material (ct_ciphertext c) (ct_nonce c) aad (ct_tag c))))"

definition decrypt_sm2 :: "'kp crypto \<Rightarrow> bytes \<Rightarrow> ciphertext \<Rightarrow> kms_error + bytes" where
  "decrypt_sm2 cr key_material c =
     and_then (map_err (\<lambda>e. DecryptionFailed (Str e)) (sm2_from_private_key cr key_material)) (\<lambda>key_pair.
       if length (ct_nonce c) \<noteq> 65 \<or> length (ct_tag c) \<noteq> 32 then Inl InvalidCiphertext
       else map_err (\<lambda>_. InvalidCiphertext)
              (sm2_decrypt cr key_pair (ct_nonce c @ ct_tag c @ ct_ciphertext c)))"

definition decrypt ::
  "'kp crypto \<Rightarrow> 's software_keystore \<Rightarrow> uuid \<Rightarrow> ciphertext \<Rightarrow> bytes option \<Rightarrow> string \<Rightarrow> kms_error + bytes" where
  "decrypt cr s key_id c aad tenant_id =
     and_then (tenant_entry s key_id tenant_id) (\<lambda>entry.
       if \<not> can_decrypt (m_status (ke_meta entry)) then Inl (not_allowed key_id '' cannot decrypt'')
       else and_then (select_material entry key_id (ct_version c)) (\<lambda>key_material.
         if m_spec (ke_meta entry) \<in> {Aes256Gcm, HmacSha256} then decrypt_aes cr key_id entry key_material c
         else if m_spec (ke_meta entry) = Sm4 then decrypt_sm4 cr key_id entry key_material c
         else if m_spec (ke_meta entry) = Sm2 then decrypt_sm2 cr key_material c
         else Inl (InvalidAlgorithm (Fmt [Lit ''Decryption not supported for '',
                Dbg (spec_debug (m_spec (ke_meta entry)))]))))"

section \<open>Signatures\<close>

definition sign :: "'kp crypto \<Rightarrow> rng \<Rightarrow> 's software_keystore \<Rightarrow> uuid \<Rightarrow> bytes \<Rightarrow> string \<Rightarrow> kms_error + signature" where
  "sign cr rng s key_id data tenant_id =
     and_then (tenant_entry s key_id tenant_id) (\<lambda>entry.
       let material = ke_material entry;
           signature_of = (\<lambda>b. \<lparr>sig_key_id = key_id, sig_version = m_version (ke_meta entry), sig_signature = b\<rparr>)
       in if m_status (ke_meta entry) \<noteq> Active then Inl (not_allowed key_id '' is not active'')
          else if m_spec (ke_meta entry) = Ed25519 then
            and_then (map_err (\<lambda>e. SignatureFailed (Str e)) (ed25519_from_seed cr material)) (\<lambda>_.
            Inr (signature_of (ed25519_sign cr material data)))
          else if m_spec (ke_meta entry) = Sm2 then
            and_then (map_err (\<lambda>e. SignatureFailed (Str e)) (sm2_from_private_key cr material)) (\<lambda>key_pair.
            and_then (map_err (\<lambda>e. SignatureFailed (Str e)) (sm2_signer_new cr key_pair)) (\<lambda>_.
            and_then (map_err (\<lambda>e. SignatureFailed (Str e)) (sm2_sign cr key_pair rng data)) (\<lambda>b.
            Inr (signature_of b))))
          else Inl (InvalidAlgorithm (Fmt [Lit ''Signing not supported for '',
                 Dbg (spec_debug (m_spec (ke_meta entry)))])))"

definition verify :: "'kp crypto \<Rightarrow> 's software_keystore \<Rightarrow> uuid \<Rightarrow> bytes \<Rightarrow> signature \<Rightarrow> string \<Rightarrow> kms_error + bool" where
  "verify cr s key_id data sg tenant_id =
     and_then (tenant_entry s key_id tenant_id) (\<lambda>entry.
       let material = ke_material entry
       in if m_spec (ke_meta entry) = Ed25519 then
            and_then (map_err (\<lambda>e. VerificationFailed (Str e)) (ed25519_from_seed cr material)) (\<lambda>_.
            Inr (ed25519_verify cr (ed25519_public_key cr material) data (sig_signature sg)))
          else if m_spec (ke_meta entry) = Sm2 then
            and_then (map_err (\<lambda>e. VerificationFailed (Str e)) (sm2_from_private_key cr material)) (\<lambda>key_pair.
            let pk = sm2_public_key_bytes cr key_pair; di = sm2_distid cr key_pair
            in and_then (map_err (\<lambda>e. VerificationFailed (Str e)) (sm2_verifier_new cr pk di)) (\<lambda>_.
               Inr (sm2_verify cr pk di data (sig_signature sg))))
          else Inl (InvalidAlgorithm (Fmt [Lit ''Verification not supported for '',
                 Dbg (spec_debug (m_spec (ke_meta entry)))])))"

section \<open>Rotation and deletion\<close>

definition rotation_material :: "'kp crypto \<Rightarrow> rng \<Rightarrow> key_spec \<Rightarrow> kms_error + bytes" where
  "rotation_material cr rng spec =
     (if spec \<in> {Aes256Gcm, HmacSha256, Sm3Hmac} then Inr (generate_aes_key rng)
      else if spec = Sm4 then Inr (generate_sm4_key rng)
      else if spec = Sm2 then generate_sm2_key cr rng
      else if spec \<in> {Sm9Signing, Sm9Encryption} then
        Inl (KeyOperationNotAllowed (Lit (''SM9 key rotation must go through Sm9RotationAdapter. '' @
          ''Configure RotationService with .with_sm9_adapter()'')))
      else if spec = Rsa4096 then Inl (NotImplemented (Lit ''RSA key rotation not yet implemented''))
      else if spec = Ed25519 then Inr (generate_ed25519_key rng)
      else Inl (NotImplemented (Fmt [Str (algorithm_name spec),
             Lit ('' key rotation is not supported; the software keystore cannot '' @
                  ''generate material for this algorithm'')])))"

text \<open>
  \<open>std::mem::take\<close> moves the current material out of the entry before the new material is generated,
  so the error returns of the \<open>match\<close> leave the entry with empty material.
\<close>

definition archive_material :: "key_entry \<Rightarrow> key_entry" where
  "archive_material entry =
     entry\<lparr>ke_material := [],
           ke_versions := ke_versions entry @ [(m_version (ke_meta entry), ke_material entry)]\<rparr>"

definition rotated_meta :: "time \<Rightarrow> key_meta \<Rightarrow> key_meta" where
  "rotated_meta now meta =
     meta\<lparr>m_status := Active, m_version := m_version meta + 1,
          m_rotated_at := Some (m_created_at meta), m_created_at := now\<rparr>"

definition rotate_key ::
  "'kp crypto \<Rightarrow> rng \<Rightarrow> time \<Rightarrow> uuid \<Rightarrow> string \<Rightarrow> 's software_keystore
    \<Rightarrow> (kms_error + key_meta) \<times> 's software_keystore" where
  "rotate_key cr rng now key_id tenant_id s =
     (case tenant_entry s key_id tenant_id of
        Inl e \<Rightarrow> (Inl e, s)
      | Inr entry \<Rightarrow>
          if \<not> can_rotate (m_status (ke_meta entry)) then (Inl (not_allowed key_id '' cannot be rotated''), s)
          else let archived = archive_material entry
               in case rotation_material cr rng (m_spec (ke_meta entry)) of
                    Inl e \<Rightarrow> (Inl e, s\<lparr>keys := (keys s)(key_id \<mapsto> archived)\<rparr>)
                  | Inr new_material \<Rightarrow>
                      let meta = rotated_meta now (ke_meta entry)
                      in (Inr meta, s\<lparr>keys := (keys s)(key_id \<mapsto>
                            archived\<lparr>ke_meta := meta, ke_material := new_material\<rparr>)\<rparr>))"

definition delete_key ::
  "uuid \<Rightarrow> string \<Rightarrow> 's software_keystore \<Rightarrow> (kms_error + unit) \<times> 's software_keystore" where
  "delete_key key_id tenant_id s =
     (case tenant_entry s key_id tenant_id of
        Inl e \<Rightarrow> (Inl e, s)
      | Inr entry \<Rightarrow>
          (Inr (), s\<lparr>keys := (keys s)(key_id \<mapsto> entry\<lparr>ke_meta := (ke_meta entry)\<lparr>m_status := PendingDeletion\<rparr>\<rparr>)\<rparr>))"

definition destroy_key :: "uuid \<Rightarrow> 's software_keystore \<Rightarrow> (kms_error + unit) \<times> 's software_keystore" where
  "destroy_key key_id s =
     (case get_entry s key_id of
        Inl e \<Rightarrow> (Inl e, s)
      | Inr entry \<Rightarrow> (Inr (), s\<lparr>keys := (keys s)(key_id := None)\<rparr>))"

definition destroy_key_with_proof ::
  "'kp crypto \<Rightarrow> time \<Rightarrow> uuid \<Rightarrow> 's software_keystore
    \<Rightarrow> (kms_error + destruction_proof) \<times> 's software_keystore" where
  "destroy_key_with_proof cr now key_id s =
     (case get_entry s key_id of
        Inl e \<Rightarrow> (Inl e, s)
      | Inr entry \<Rightarrow>
          (Inr (destruction_proof_new key_id (hex_encode cr (sha256 cr (ke_material entry)))
                  (length (ke_material entry)) True None now),
           s\<lparr>keys := (keys s)(key_id := None)\<rparr>))"

section \<open>Listing, health and key agreement\<close>

definition filter_accepts :: "key_filter \<Rightarrow> key_meta \<Rightarrow> bool" where
  "filter_accepts f meta \<longleftrightarrow>
     (case kf_tenant_id f of Some t \<Rightarrow> m_tenant_id meta = t | None \<Rightarrow> True) \<and>
     (case kf_status f of Some st \<Rightarrow> m_status meta = st | None \<Rightarrow> True) \<and>
     (case kf_spec f of Some sp \<Rightarrow> m_spec meta = sp | None \<Rightarrow> True)"

text \<open>\<open>order\<close> is the order in which the hash map yields its keys.\<close>

definition list_keys :: "uuid list \<Rightarrow> 's software_keystore \<Rightarrow> key_filter \<Rightarrow> kms_error + key_meta list" where
  "list_keys order s f =
     (let result = filter (filter_accepts f) (map ke_meta (List.map_filter (keys s) order));
          result = (case kf_offset f of Some n \<Rightarrow> drop n result | None \<Rightarrow> result);
          result = (case kf_limit f of Some n \<Rightarrow> take n result | None \<Rightarrow> result)
      in Inr result)"

definition health :: "'s software_keystore \<Rightarrow> kms_error + health_status" where
  "health s = Inr Healthy"

definition ks_backend_type :: "'s software_keystore \<Rightarrow> backend_type" where
  "ks_backend_type s = Software"

definition derive_ecdh_p256 :: "'kp crypto \<Rightarrow> rng \<Rightarrow> bytes \<Rightarrow> bytes \<Rightarrow> kms_error + bytes" where
  "derive_ecdh_p256 cr rng private_key peer_public_key =
     and_then (map_err (\<lambda>e. KeyExchangeFailed (Fmt [Lit ''invalid P-256 public key: '', Str e]))
                 (p256_public_key cr peer_public_key)) (\<lambda>_.
     Inr (p256_diffie_hellman cr rng peer_public_key))"

definition derive_ecdh_p384 :: "'kp crypto \<Rightarrow> rng \<Rightarrow> bytes \<Rightarrow> bytes \<Rightarrow> kms_error + bytes" where
  "derive_ecdh_p384 cr rng private_key peer_public_key =
     and_then (map_err (\<lambda>e. KeyExchangeFailed (Fmt [Lit ''invalid P-384 public key: '', Str e]))
                 (p384_public_key cr peer_public_key)) (\<lambda>_.
     Inr (p384_diffie_hellman cr rng peer_public_key))"

definition derive_x25519 :: "'kp crypto \<Rightarrow> bytes \<Rightarrow> bytes \<Rightarrow> kms_error + bytes" where
  "derive_x25519 cr private_key peer_public_key =
     (if length private_key < 32 then
        Inl (KeyExchangeFailed (Lit ''X25519 private key must be at least 32 bytes''))
      else if length peer_public_key \<noteq> 32 then
        Inl (KeyExchangeFailed (Lit ''X25519 public key must be exactly 32 bytes''))
      else Inr (x25519_diffie_hellman cr (take 32 private_key) peer_public_key))"

definition derive_sm2_kex :: "bytes \<Rightarrow> bytes \<Rightarrow> kms_error + bytes" where
  "derive_sm2_kex private_key peer_public_key =
     Inl (KeyExchangeFailed (Lit (''SM2-KEX requires session-based API. '' @
       ''Use create_sm2_kex_session and process_sm2_kex_message'')))"

definition derive_shared_secret ::
  "'kp crypto \<Rightarrow> rng \<Rightarrow> 's software_keystore \<Rightarrow> uuid \<Rightarrow> bytes \<Rightarrow> dh_algorithm \<Rightarrow> string
    \<Rightarrow> kms_error + shared_secret" where
  "derive_shared_secret cr rng s key_id peer_public_key algorithm tenant_id =
     and_then (tenant_entry s key_id tenant_id) (\<lambda>entry.
       if m_status (ke_meta entry) \<noteq> Active then Inl (not_allowed key_id '' is not active'')
       else and_then (case algorithm of
              DhEcdsaP256 \<Rightarrow> derive_ecdh_p256 cr rng (ke_material entry) peer_public_key
            | DhEcdsaP384 \<Rightarrow> derive_ecdh_p384 cr rng (ke_material entry) peer_public_key
            | X25519 \<Rightarrow> derive_x25519 cr (ke_material entry) peer_public_key
            | Sm2Kex \<Rightarrow> derive_sm2_kex (ke_material entry) peer_public_key) (\<lambda>secret.
         Inr \<lparr>sec_secret = secret, sec_kdf = Some ''HKDF-SHA256''\<rparr>))"

section \<open>Runs\<close>

text \<open>The operations that change keys, as the steps of a run, with the effect of each.\<close>

datatype ks_call =
    GenerateKey rng uuid time key_spec string string
  | ImportKeyMaterial uuid time key_spec string string bytes
  | RotateKey rng time uuid string
  | DeleteKey uuid string
  | DestroyKey uuid
  | DestroyKeyWithProof time uuid

fun ks_step :: "'kp crypto \<Rightarrow> ks_call \<Rightarrow> 's software_keystore \<Rightarrow> 's software_keystore" where
  "ks_step cr (GenerateKey rng i now spec name t) s = snd (generate_key cr rng i now spec name t s)"
| "ks_step cr (ImportKeyMaterial i now spec name t mat) s = snd (import_key_material i now spec name t mat s)"
| "ks_step cr (RotateKey rng now i t) s = snd (rotate_key cr rng now i t s)"
| "ks_step cr (DeleteKey i t) s = snd (delete_key i t s)"
| "ks_step cr (DestroyKey i) s = snd (destroy_key i s)"
| "ks_step cr (DestroyKeyWithProof now i) s = snd (destroy_key_with_proof cr now i s)"

section \<open>Lookups and single steps\<close>

lemma get_entry_simps [simp]:
  "keys s k = None \<Longrightarrow> get_entry s k = Inl (KeyNotFound (Id k))"
  "keys s k = Some e \<Longrightarrow> get_entry s k = Inr e"
  by (simp_all add: get_entry_def)

lemma tenant_entry_Inr:
  "tenant_entry s k t = Inr e \<longleftrightarrow> keys s k = Some e \<and> m_tenant_id (ke_meta e) = t"
  by (cases "keys s k") (auto simp: tenant_entry_def verify_tenant_def)

lemma tenant_entry_owned [simp]:
  "keys s k = Some e \<Longrightarrow> m_tenant_id (ke_meta e) = t \<Longrightarrow> tenant_entry s k t = Inr e"
  by (simp add: tenant_entry_Inr)

definition owned :: "'s software_keystore \<Rightarrow> uuid \<Rightarrow> string \<Rightarrow> bool" where
  "owned s k t \<longleftrightarrow> (case keys s k of None \<Rightarrow> False | Some e \<Rightarrow> m_tenant_id (ke_meta e) = t)"

lemma not_owned [simp]:
  "\<not> owned s k t \<Longrightarrow> verify_tenant s k t = Inl (KeyNotFound (Id k))"
  "\<not> owned s k t \<Longrightarrow> tenant_entry s k t = Inl (KeyNotFound (Id k))"
  by (auto simp: owned_def verify_tenant_def tenant_entry_def split: option.splits)

interpretation ks_tenant: tenant_guarded "\<lambda>k t s. (tenant_entry s k t, s)" owned
  by unfold_locales simp

lemma tenant_entry_Inl:
  assumes "tenant_entry s k t = Inl x"
  shows "x = KeyNotFound (Id k) \<and> \<not> owned s k t"
  using assms by (cases "owned s k t") (auto simp: owned_def split: option.splits)

text \<open>The effect of each changing operation on the map of keys.\<close>

definition rotated :: "'kp crypto \<Rightarrow> rng \<Rightarrow> time \<Rightarrow> key_entry \<Rightarrow> key_entry" where
  "rotated cr rng now e =
     (if \<not> can_rotate (m_status (ke_meta e)) then e
      else case rotation_material cr rng (m_spec (ke_meta e)) of
             Inl _ \<Rightarrow> archive_material e
           | Inr mat \<Rightarrow> (archive_material e)\<lparr>ke_meta := rotated_meta now (ke_meta e), ke_material := mat\<rparr>)"

lemma keys_rotate_key:
  "keys (snd (rotate_key cr rng now i t s)) =
     (if owned s i t then (keys s)(i := map_option (rotated cr rng now) (keys s i)) else keys s)"
  by (cases "owned s i t")
    (auto simp: rotate_key_def rotated_def owned_def Let_def fun_eq_iff split: option.splits sum.splits)

lemma keys_delete_key:
  "keys (snd (delete_key i t s)) =
     (if owned s i t
      then (keys s)(i := map_option (\<lambda>e. e\<lparr>ke_meta := (ke_meta e)\<lparr>m_status := PendingDeletion\<rparr>\<rparr>) (keys s i))
      else keys s)"
  by (cases "owned s i t") (auto simp: delete_key_def owned_def fun_eq_iff split: option.splits)

lemma keys_destroy_key: "keys (snd (destroy_key i s)) = (keys s)(i := None)"
  by (cases "keys s i") (auto simp: destroy_key_def fun_eq_iff)

lemma keys_destroy_key_with_proof: "keys (snd (destroy_key_with_proof cr now i s)) = (keys s)(i := None)"
  by (cases "keys s i") (auto simp: destroy_key_with_proof_def fun_eq_iff)

lemma keys_generate_key:
  "keys (snd (generate_key cr rng i now spec name t s)) =
     (case generate_material cr rng spec of Inl _ \<Rightarrow> keys s
      | Inr mat \<Rightarrow> (keys s)(i \<mapsto> \<lparr>ke_meta = new_meta i now spec name t None, ke_material = mat, ke_versions = []\<rparr>))"
  by (simp add: generate_key_def insert_key_def new_meta_def Let_def split: sum.splits)

lemma keys_import_key_material:
  "keys (snd (import_key_material i now spec name t mat s)) =
     (case import_check spec mat of Inl _ \<Rightarrow> keys s
      | Inr _ \<Rightarrow> (keys s)(i \<mapsto> \<lparr>ke_meta = new_meta i now spec name t (Some ''imported''),
                              ke_material = mat, ke_versions = []\<rparr>))"
  by (simp add: import_key_material_def insert_key_def new_meta_def Let_def split: sum.splits)

lemmas keys_step = keys_rotate_key keys_delete_key keys_destroy_key keys_destroy_key_with_proof
  keys_generate_key keys_import_key_material

lemma rotated_meta_simps [simp]:
  "m_id (ke_meta (rotated cr rng now e)) = m_id (ke_meta e)"
  "m_tenant_id (ke_meta (rotated cr rng now e)) = m_tenant_id (ke_meta e)"
  "m_spec (ke_meta (rotated cr rng now e)) = m_spec (ke_meta e)"
  by (auto simp: rotated_def archive_material_def rotated_meta_def split: sum.splits)

lemma generate_material_generatable:
  "generate_material cr rng spec = Inr mat \<Longrightarrow> is_generatable spec"
  by (cases spec) (simp_all add: generate_material_def is_generatable_def)

lemma rotation_eq_generation:
  "is_generatable spec \<Longrightarrow> rotation_material cr rng spec = generate_material cr rng spec"
  by (cases spec) (simp_all add: rotation_material_def generate_material_def is_generatable_def)

lemma rotation_not_generatable:
  "\<not> is_generatable spec \<Longrightarrow> \<exists>x. rotation_material cr rng spec = Inl x"
  by (cases spec) (simp_all add: rotation_material_def is_generatable_def)

lemma import_check_importable: "import_check spec mat = Inr u \<Longrightarrow> is_importable spec"
  by (cases spec) (auto simp: import_check_def and_then_Inr is_importable_def kv_bad_def split: if_splits)


section \<open>Invariants of runs\<close>

text \<open>
  Every stored key sits under its own identifier, has a specification the keystore can hold and is
  either active or pending deletion: the states \<open>Obsolete\<close> and \<open>Destroyed\<close> never occur here.
\<close>

definition ks_inv :: "'s software_keystore \<Rightarrow> bool" where
  "ks_inv s \<longleftrightarrow> (\<forall>k e. keys s k = Some e \<longrightarrow>
     m_id (ke_meta e) = k \<and> is_importable (m_spec (ke_meta e))
     \<and> m_status (ke_meta e) \<in> {Active, PendingDeletion})"

lemma rotated_status:
  "m_status (ke_meta e) \<in> {Active, PendingDeletion}
    \<Longrightarrow> m_status (ke_meta (rotated cr rng now e)) \<in> {Active, PendingDeletion}"
  by (auto simp: rotated_def archive_material_def rotated_meta_def split: sum.splits)

lemma ks_inv_new [simp]: "ks_inv ks_new"
  by (simp add: ks_inv_def ks_new_def)

lemma ks_step_inv: "ks_inv s \<Longrightarrow> ks_inv (ks_step cr c s)"
proof (cases c)
  case (GenerateKey rng i now spec name t)
  assume "ks_inv s"
  with GenerateKey show ?thesis
    by (auto simp: ks_inv_def keys_step new_meta_def
        dest!: generate_material_generatable generatable_importable split: sum.splits if_splits)
next
  case (ImportKeyMaterial i now spec name t mat)
  assume "ks_inv s"
  with ImportKeyMaterial show ?thesis
    by (auto simp: ks_inv_def keys_step new_meta_def dest!: import_check_importable
        split: sum.splits if_splits)
next
  case (RotateKey rng now i t)
  assume "ks_inv s"
  with RotateKey rotated_status show ?thesis
    by (fastforce simp: ks_inv_def keys_step split: if_splits)
qed (auto simp: ks_inv_def keys_step split: if_splits)

interpretation ks_invariant: stateful "ks_step cr" "\<lambda>_. True" ks_inv for cr
  by unfold_locales (rule ks_step_inv)


text \<open>Calls that neither destroy the key nor reuse its identifier for a new key.\<close>

fun keeps :: "uuid \<Rightarrow> ks_call \<Rightarrow> bool" where
  "keeps k (GenerateKey rng i now spec name t) \<longleftrightarrow> i \<noteq> k"
| "keeps k (ImportKeyMaterial i now spec name t mat) \<longleftrightarrow> i \<noteq> k"
| "keeps k (RotateKey rng now i t) \<longleftrightarrow> True"
| "keeps k (DeleteKey i t) \<longleftrightarrow> True"
| "keeps k (DestroyKey i) \<longleftrightarrow> i \<noteq> k"
| "keeps k (DestroyKeyWithProof now i) \<longleftrightarrow> i \<noteq> k"

definition pending :: "uuid \<Rightarrow> 's software_keystore \<Rightarrow> bool" where
  "pending k s \<longleftrightarrow> (\<exists>e. keys s k = Some e \<and> m_status (ke_meta e) = PendingDeletion)"

lemma keeps_entry:
  assumes "keeps k c" "keys s k = Some e"
  shows "keys (ks_step cr c s) k = Some e
    \<or> (\<exists>rng now. keys (ks_step cr c s) k = Some (rotated cr rng now e))
    \<or> keys (ks_step cr c s) k = Some (e\<lparr>ke_meta := (ke_meta e)\<lparr>m_status := PendingDeletion\<rparr>\<rparr>)"
  using assms by (cases c) (auto simp: keys_step split: sum.splits)

lemma pending_step:
  assumes "keeps k c" "pending k s"
  shows "keys (ks_step cr c s) k = keys s k"
proof -
  obtain e where e: "keys s k = Some e" "m_status (ke_meta e) = PendingDeletion"
    using assms by (auto simp: pending_def)
  then have "rotated cr rng now e = e" for rng now
    by (simp add: rotated_def can_rotate_def)
  moreover have "e\<lparr>ke_meta := (ke_meta e)\<lparr>m_status := PendingDeletion\<rparr>\<rparr> = e"
    using e by (cases e, cases "ke_meta e") auto
  ultimately show ?thesis
    using keeps_entry [OF assms(1) e(1), of cr] e by auto
qed

interpretation frozen: absorbing "ks_step cr" "keeps k" "\<lambda>_. True" "pending k" "\<lambda>s. keys s k" for cr k
  by unfold_locales (auto simp: pending_step pending_def)


section \<open>Old ciphertexts\<close>

text \<open>
  For the specifications that encrypt, the history of an entry holds versions below the current one
  only, as long as the 32-bit version has not wrapped around, and rotation keeps every version's
  material within reach of \<open>select_material\<close>.
\<close>

definition enc_specs :: "key_spec set" where
  "enc_specs = {Aes256Gcm, HmacSha256, Sm4, Sm2}"

definition sm2_generator_ok :: "'kp crypto \<Rightarrow> bool" where
  "sm2_generator_ok cr \<longleftrightarrow> (\<forall>rng. \<exists>kp. sm2_generate cr rng = Inr kp
     \<and> is_ok (sm2_scalar_in_range (sm2_private_key_bytes cr kp)))"

lemma generate_sm2_key_ok: "sm2_generator_ok cr \<Longrightarrow> is_ok (generate_sm2_key cr rng)"
  by (auto simp: sm2_generator_ok_def generate_sm2_key_def is_ok_iff Let_def dest: spec [of _ rng])

lemma generate_material_ok:
  "sm2_generator_ok cr \<Longrightarrow> is_ok (generate_material cr rng spec) \<longleftrightarrow> is_generatable spec"
  by (cases spec) (simp_all add: generate_material_def is_generatable_def generate_sm2_key_ok)

lemma rotation_material_enc:
  assumes "sm2_generator_ok cr" "spec \<in> enc_specs"
  obtains mat where "rotation_material cr rng spec = Inr mat"
proof -
  have "is_generatable spec"
    using assms(2) by (auto simp: enc_specs_def is_generatable_def)
  then have "is_ok (rotation_material cr rng spec)"
    using generate_material_ok [OF assms(1)] rotation_eq_generation by metis
  then show thesis by (auto simp: is_ok_iff intro: that)
qed

definition entry_hist :: "nat \<Rightarrow> key_entry \<Rightarrow> bool" where
  "entry_hist n e \<longleftrightarrow> m_spec (ke_meta e) \<in> enc_specs \<longrightarrow>
     (\<forall>(v, mat) \<in> set (ke_versions e). v < m_version (ke_meta e)) \<and> unat (m_version (ke_meta e)) \<le> n"

definition hist_inv :: "nat \<Rightarrow> 's software_keystore \<Rightarrow> bool" where
  "hist_inv n s \<longleftrightarrow> (\<forall>k e. keys s k = Some e \<longrightarrow> entry_hist n e)"

lemma version_suc:
  assumes "unat (v :: u32) \<le> n" "Suc n < 4294967296"
  shows "unat (v + 1) = Suc (unat v)" "v < v + 1"
proof -
  show *: "unat (v + 1) = Suc (unat v)"
    using assms by (simp add: unat_plus_if')
  then show "v < v + 1"
    by (simp add: word_less_nat_alt)
qed

lemma entry_hist_rotated:
  assumes "entry_hist n e" "Suc n < 4294967296" "sm2_generator_ok cr"
  shows "entry_hist (Suc n) (rotated cr rng now e)"
proof (cases "m_spec (ke_meta e) \<in> enc_specs \<and> can_rotate (m_status (ke_meta e))")
  case True
  obtain mat where mat: "rotation_material cr rng (m_spec (ke_meta e)) = Inr mat"
    using rotation_material_enc assms(3) True by blast
  have le: "unat (m_version (ke_meta e)) \<le> n"
    and hist: "\<forall>(v, mat) \<in> set (ke_versions e). v < m_version (ke_meta e)"
    using assms(1) True by (auto simp: entry_hist_def)
  note suc = version_suc [OF le assms(2)]
  show ?thesis
    using True mat le hist suc
    by (auto simp: entry_hist_def rotated_def archive_material_def rotated_meta_def
        intro: less_trans)
next
  case False
  show ?thesis
  proof (cases "m_spec (ke_meta e) \<in> enc_specs")
    case True
    with False assms(1) show ?thesis by (simp add: entry_hist_def rotated_def)
  qed (simp add: entry_hist_def)
qed

lemma entry_hist_mono: "entry_hist n e \<Longrightarrow> entry_hist (Suc n) e"
  by (auto simp: entry_hist_def)

lemma entry_hist_fresh: "1 \<le> n \<Longrightarrow> entry_hist n \<lparr>ke_meta = new_meta i now spec name t d, ke_material = mat, ke_versions = []\<rparr>"
  by (simp add: entry_hist_def new_meta_def)

lemma entry_hist_deleted:
  "entry_hist n (e\<lparr>ke_meta := (ke_meta e)\<lparr>m_status := PendingDeletion\<rparr>\<rparr>) \<longleftrightarrow> entry_hist n e"
  by (simp add: entry_hist_def)

lemma hist_inv_step:
  assumes "hist_inv n s" "Suc n < 4294967296" "sm2_generator_ok cr"
  shows "hist_inv (Suc n) (ks_step cr c s)"
proof -
  have mono: "entry_hist (Suc n) e" if "keys s k = Some e" for k e
    using assms(1) that by (auto simp: hist_inv_def intro: entry_hist_mono)
  have rot: "entry_hist (Suc n) (rotated cr rng now e)" if "keys s k = Some e" for k e rng now
    using assms that by (auto simp: hist_inv_def intro: entry_hist_rotated)
  show ?thesis
    unfolding hist_inv_def
    by (cases c) (auto simp: keys_step entry_hist_fresh entry_hist_deleted mono rot split: sum.splits if_splits)
qed

lemma hist_inv_run:
  "hist_inv n s \<Longrightarrow> n + length cs < 4294967296 \<Longrightarrow> sm2_generator_ok cr
    \<Longrightarrow> hist_inv (n + length cs) (run_ops (ks_step cr) cs s)"
proof (induction cs arbitrary: n s)
  case (Cons c cs)
  then show ?case using hist_inv_step [of n s cr c] Cons.IH [of "Suc n" "ks_step cr c s"] by simp
qed simp

text \<open>Version \<open>v\<close> of the key is readable and is the material \<open>mat\<close>.\<close>

definition readable :: "uuid \<Rightarrow> string \<Rightarrow> key_spec \<Rightarrow> u32 \<Rightarrow> bytes \<Rightarrow> 's software_keystore \<Rightarrow> bool" where
  "readable k t sp v mat s \<longleftrightarrow> (\<exists>e. keys s k = Some e \<and> m_tenant_id (ke_meta e) = t \<and> m_spec (ke_meta e) = sp
     \<and> can_decrypt (m_status (ke_meta e)) \<and> select_material e k v = Inr mat)"

lemma select_material_rotated:
  assumes "entry_hist n e" "Suc n < 4294967296" "sm2_generator_ok cr" "m_spec (ke_meta e) \<in> enc_specs"
    and "select_material e k v = Inr mat"
  shows "select_material (rotated cr rng now e) k v = Inr mat"
proof (cases "can_rotate (m_status (ke_meta e))")
  case True
  obtain new where new: "rotation_material cr rng (m_spec (ke_meta e)) = Inr new"
    using rotation_material_enc assms(3,4) by blast
  have le: "unat (m_version (ke_meta e)) \<le> n"
    and hist: "\<forall>(v, mat) \<in> set (ke_versions e). v < m_version (ke_meta e)"
    using assms(1,4) by (auto simp: entry_hist_def)
  note suc = version_suc [OF le assms(2)]
  have le_v: "v \<le> m_version (ke_meta e)"
    using assms(5) hist by (auto simp: select_material_def split: if_splits dest!: map_of_SomeD)
  then have "v \<noteq> m_version (ke_meta e) + 1"
    using suc by (metis leD)
  moreover have "map_of (ke_versions e) (m_version (ke_meta e)) = None"
    using hist by (auto simp: map_of_eq_None_iff)
  ultimately show ?thesis
    using True new assms(5)
    by (auto simp: rotated_def archive_material_def rotated_meta_def select_material_def map_add_def
        split: if_splits option.splits)
qed (use assms in \<open>simp add: rotated_def\<close>)

lemma can_decrypt_rotated:
  "can_decrypt (m_status (ke_meta e)) \<Longrightarrow> can_decrypt (m_status (ke_meta (rotated cr rng now e)))"
  by (auto simp: rotated_def archive_material_def rotated_meta_def can_decrypt_def split: sum.splits)

lemma select_material_deleted:
  "select_material (e\<lparr>ke_meta := (ke_meta e)\<lparr>m_status := PendingDeletion\<rparr>\<rparr>) k v = select_material e k v"
  by (simp add: select_material_def)

lemma readable_step:
  assumes "readable k t sp v mat s" "keeps k c" "sp \<in> enc_specs"
    and "hist_inv n s" "Suc n < 4294967296" "sm2_generator_ok cr"
  shows "readable k t sp v mat (ks_step cr c s)"
proof -
  obtain e where e: "keys s k = Some e" "m_tenant_id (ke_meta e) = t" "m_spec (ke_meta e) = sp"
    "can_decrypt (m_status (ke_meta e))" "select_material e k v = Inr mat"
    using assms(1) by (auto simp: readable_def)
  have "entry_hist n e"
    using assms(4) e(1) by (auto simp: hist_inv_def)
  then have sel: "select_material (rotated cr rng now e) k v = Inr mat" for rng now
    using select_material_rotated assms(3,5,6) e(3,5) by blast
  show ?thesis
    using keeps_entry [OF assms(2) e(1), of cr] e sel can_decrypt_rotated [OF e(4)]
    by (auto simp: readable_def select_material_deleted can_decrypt_def [of PendingDeletion])
qed

lemma readable_run:
  "readable k t sp v mat s \<Longrightarrow> list_all (keeps k) cs \<Longrightarrow> sp \<in> enc_specs \<Longrightarrow> hist_inv n s
    \<Longrightarrow> n + length cs < 4294967296 \<Longrightarrow> sm2_generator_ok cr
    \<Longrightarrow> readable k t sp v mat (run_ops (ks_step cr) cs s)"
proof (induction cs arbitrary: n s)
  case (Cons c cs)
  then show ?case
    using readable_step [of k t sp v mat s c n cr] hist_inv_step [of n s cr c]
      Cons.IH [of "ks_step cr c s" "Suc n"] by simp
qed simp

text \<open>
  What the operations rely on of the cryptographic crates: opening undoes sealing, and decryption
  with an SM2 key pair undoes encryption to its public key.
\<close>

definition aead_ok :: "'kp crypto \<Rightarrow> bool" where
  "aead_ok cr \<longleftrightarrow>
     (\<forall>K n a p c t. aes_seal cr K n a p = Inr (c, t) \<longrightarrow> aes_open cr K n a (c @ t) = Inr p) \<and>
     (\<forall>K n a p c t. sm4_encrypt_gcm cr K p n a = Inr (c, t) \<longrightarrow> sm4_decrypt_gcm cr K c n a t = Inr p) \<and>
     (\<forall>kp rng p c. sm2_encrypt cr (sm2_public_key_bytes_uncompressed cr kp) rng p = Inr c
        \<longrightarrow> sm2_decrypt cr kp c = Inr p)"

lemma nonce_roundtrip:
  "counter_nonce (from_be (be_bytes 16 (from_be (fill_bytes rng 16)))) = counter_nonce (from_be (fill_bytes rng 16))"
  using be_bytes_from_be [of "fill_bytes rng 16"] by simp

lemma encrypt_version:
  "encrypt_aes cr rng k e pt = Inr c \<Longrightarrow> ct_version c = m_version (ke_meta e)"
  "encrypt_sm4 cr rng k e pt = Inr c \<Longrightarrow> ct_version c = m_version (ke_meta e)"
  "encrypt_sm2 cr rng k e pt = Inr c \<Longrightarrow> ct_version c = m_version (ke_meta e)"
  by (auto simp: encrypt_aes_def encrypt_sm4_def encrypt_sm2_def and_then_Inr Let_def
      simp del: be_bytes.simps split: if_splits)

lemma encrypt_readable:
  assumes "encrypt cr rng s k pt aad t = Inr c"
  shows "\<exists>e. keys s k = Some e \<and> m_tenant_id (ke_meta e) = t \<and> m_status (ke_meta e) = Active
    \<and> m_spec (ke_meta e) \<in> enc_specs \<and> ct_version c = m_version (ke_meta e)
    \<and> readable k t (m_spec (ke_meta e)) (ct_version c) (ke_material e) s"
  using assms
  by (auto simp: encrypt_def and_then_Inr tenant_entry_Inr readable_def can_decrypt_def select_material_def
      enc_specs_def split: if_splits dest: encrypt_version)

lemma decrypt_readable:
  assumes "readable k t sp v mat s" "v = ct_version c" "keys s k = Some e'" "sp \<in> enc_specs"
  shows "decrypt cr s k c aad t =
     (if sp \<in> {Aes256Gcm, HmacSha256} then decrypt_aes cr k e' mat c
      else if sp = Sm4 then decrypt_sm4 cr k e' mat c else decrypt_sm2 cr mat c)"
  using assms by (auto simp: decrypt_def readable_def enc_specs_def)

lemma decrypt_undoes_encrypt_aes:
  assumes "aead_ok cr" "encrypt_aes cr rng k e pt = Inr c" "m_tenant_id (ke_meta e') = m_tenant_id (ke_meta e)"
  shows "decrypt_aes cr k e' (ke_material e) c = Inr pt"
  using assms
  by (auto simp: encrypt_aes_def decrypt_aes_def stored_aad_def and_then_Inr Let_def aead_ok_def nonce_roundtrip
      simp del: be_bytes.simps)

lemma decrypt_undoes_encrypt_sm4:
  assumes "aead_ok cr" "encrypt_sm4 cr rng k e pt = Inr c" "m_tenant_id (ke_meta e') = m_tenant_id (ke_meta e)"
  shows "decrypt_sm4 cr k e' (ke_material e) c = Inr pt"
  using assms by (auto simp: encrypt_sm4_def decrypt_sm4_def stored_aad_def and_then_Inr Let_def aead_ok_def)

lemma sm2_parts: "97 \<le> length x \<Longrightarrow> take 65 x @ take 32 (drop 65 x) @ drop 97 x = x"
  using append_take_drop_id [of 32 "drop 65 x"] by simp

lemma decrypt_undoes_encrypt_sm2:
  assumes "aead_ok cr" "encrypt_sm2 cr rng k e pt = Inr c"
  shows "decrypt_sm2 cr (ke_material e) c = Inr pt"
  using assms
  by (auto simp: encrypt_sm2_def decrypt_sm2_def and_then_Inr Let_def aead_ok_def sm2_parts split: if_splits)

lemma hist_inv_new: "hist_inv 1 ks_new"
  by (simp add: hist_inv_def ks_new_def)

text \<open>
  C4. Data encrypted under a key of a reachable keystore remain decryptable by the key's tenant after
  any further sequence of operations that does not destroy the key: rotations of the key, its
  deletion request and all work on other keys. The crates are assumed to decrypt what they encrypt
  and the SM2 generator to return a key in range; the run is shorter than the range of the 32-bit
  version counter. The additional data the caller passes play no part.
\<close>

theorem old_ciphertexts_decrypt:
  assumes crates: "aead_ok cr" "sm2_generator_ok cr"
    and reach: "s = run_ops (ks_step cr) before ks_new"
    and enc: "encrypt cr rng s k pt aad t = Inr c"
    and later: "list_all (keeps k) later" "s' = run_ops (ks_step cr) later s"
    and bound: "length before + length later < 4294967295"
  shows "decrypt cr s' k c aad' t = Inr pt"
proof -
  obtain e where e: "keys s k = Some e" "m_tenant_id (ke_meta e) = t" "m_status (ke_meta e) = Active"
    "m_spec (ke_meta e) \<in> enc_specs" "ct_version c = m_version (ke_meta e)"
    "readable k t (m_spec (ke_meta e)) (ct_version c) (ke_material e) s"
    using encrypt_readable [OF enc] by blast
  have "hist_inv (1 + length before) s"
    unfolding reach by (rule hist_inv_run) (use hist_inv_new bound crates in auto)
  then have r: "readable k t (m_spec (ke_meta e)) (ct_version c) (ke_material e) s'"
    unfolding later(2) by (rule readable_run [rotated 3]) (use e later bound crates in auto)
  then obtain e' where e': "keys s' k = Some e'" "m_tenant_id (ke_meta e') = m_tenant_id (ke_meta e)"
    using e(2) by (auto simp: readable_def)
  have "tenant_entry s k t = Inr e"
    using e by simp
  then show ?thesis
    using e enc e'(2) crates(1)
    by (auto simp: decrypt_readable [OF r refl e'(1) e(4)] encrypt_def enc_specs_def
        intro: decrypt_undoes_encrypt_aes decrypt_undoes_encrypt_sm4 decrypt_undoes_encrypt_sm2)
qed

section \<open>Further properties\<close>

text \<open>
  C11. Tenant isolation: where a tenant does not own a key, every operation that takes a tenant
  answers that the key was not found, in the same words whether the key is missing or belongs to
  somebody else, and the operations that would change the key leave the keystore as it was.
\<close>

theorem tenant_isolation:
  assumes "case keys s k of None \<Rightarrow> True | Some e \<Rightarrow> m_tenant_id (ke_meta e) \<noteq> t"
  shows "export_key_material s k t = Inl (KeyNotFound (Id k))
    \<and> get_key_material s k t = Inl (KeyNotFound (Id k))
    \<and> get_key_material_version s k v t = Inl (KeyNotFound (Id k))
    \<and> encrypt cr rng s k pt aad t = Inl (KeyNotFound (Id k))
    \<and> decrypt cr s k c aad t = Inl (KeyNotFound (Id k))
    \<and> sign cr rng s k data t = Inl (KeyNotFound (Id k))
    \<and> verify cr s k data sg t = Inl (KeyNotFound (Id k))
    \<and> derive_shared_secret cr rng s k peer alg t = Inl (KeyNotFound (Id k))
    \<and> rotate_key cr rng now k t s = (Inl (KeyNotFound (Id k)), s)
    \<and> delete_key k t s = (Inl (KeyNotFound (Id k)), s)"
proof -
  have "\<not> owned s k t"
    using assms by (simp add: owned_def split: option.splits)
  then show ?thesis
    by (simp add: export_key_material_def get_key_material_def get_key_material_version_def
        encrypt_def decrypt_def sign_def verify_def derive_shared_secret_def rotate_key_def delete_key_def)
qed

text \<open>
  With a sound SM2 generator, \<open>generate_key\<close> succeeds exactly for the specifications
  \<open>is_generatable\<close> announces; then the new key is active at version one, owned by the tenant and
  readable under the new identifier, every other key is untouched, and the material has the length
  of the algorithm. On failure nothing changes.
\<close>

theorem generate_key_correct:
  assumes "sm2_generator_ok cr" "generate_key cr rng i now spec name t s = (r, s')"
  shows "(is_ok r \<longleftrightarrow> is_generatable spec)
    \<and> (is_generatable spec \<longrightarrow>
        get_key_metadata s' i = r \<and> is_ok (get_key_material s' i t)
        \<and> (\<forall>mat. get_key_material s' i t = Inr mat \<longrightarrow> length mat = (if spec = Sm4 then 16 else 32))
        \<and> (\<forall>k. k \<noteq> i \<longrightarrow> keys s' k = keys s k))
    \<and> (\<not> is_generatable spec \<longrightarrow> s' = s)"
proof (cases "generate_material cr rng spec")
  case (Inl e)
  with assms generate_material_ok [OF assms(1), of rng spec] show ?thesis
    by (auto simp: generate_key_def)
next
  case (Inr mat)
  have "length mat = (if spec = Sm4 then 16 else 32)"
    using Inr
    by (cases spec) (auto simp: generate_material_def generate_aes_key_def generate_ed25519_key_def
        generate_sm4_key_def generate_sm2_key_def and_then_Inr Let_def sm2_scalar_in_range_def split: if_splits)
  with Inr assms generate_material_ok [OF assms(1), of rng spec] show ?thesis
    by (auto simp: generate_key_def Let_def insert_key_def new_meta_def get_key_metadata_def
        get_key_material_def tenant_entry_def verify_tenant_def)
qed

text \<open>
  Rotating an active key the keystore cannot generate material for (imported RSA, ECDSA and Ed448
  keys) fails, and yet changes the key: \<open>std::mem::take\<close> has already emptied the current material.
  The metadata are unchanged, but the export of the key and its current version are now the
  empty byte string.
\<close>

theorem failed_rotation_empties_key:
  assumes "keys s k = Some e" "m_tenant_id (ke_meta e) = t" "m_status (ke_meta e) = Active"
    and "\<not> is_generatable (m_spec (ke_meta e))"
  shows "\<exists>x s'. rotate_key cr rng now k t s = (Inl x, s')
    \<and> get_key_metadata s' k = get_key_metadata s k
    \<and> export_key_material s' k t = Inr []
    \<and> get_key_material_version s' k (m_version (ke_meta e)) t = Inr []"
proof -
  obtain x where "rotation_material cr rng (m_spec (ke_meta e)) = Inl x"
    using rotation_not_generatable assms(4) by blast
  with assms show ?thesis
    by (auto simp: rotate_key_def can_rotate_def Let_def archive_material_def get_key_metadata_def
        export_key_material_def get_key_material_version_def verify_tenant_def tenant_entry_def get_entry_def)
qed

lemma pages_concat:
  "0 < n \<Longrightarrow> length xs \<le> m * n \<Longrightarrow> concat (map (\<lambda>i. take n (drop (i * n) xs)) [0..<m]) = xs"
proof (induction m arbitrary: xs)
  case (Suc m)
  have "[0..<Suc m] = 0 # map Suc [0..<m]"
    by (simp add: map_Suc_upt upt_conv_Cons del: upt_Suc)
  then have "concat (map (\<lambda>i. take n (drop (i * n) xs)) [0..<Suc m])
    = take n xs @ concat (map (\<lambda>i. take n (drop (i * n) (drop n xs))) [0..<m])"
    by (simp add: comp_def add.commute)
  also have "\<dots> = xs"
    using Suc.IH [of "drop n xs"] Suc.prems by simp
  finally show ?case .
qed simp

lemma map_filter_dom:
  "set order = dom f \<Longrightarrow> set (List.map_filter f order) = ran f"
  by (force simp: List.map_filter_def ran_def dom_def)

lemma length_map_filter_dom:
  "set order \<subseteq> dom f \<Longrightarrow> length (List.map_filter f order) = length order"
  by (induction order) (auto simp: List.map_filter_simps dom_def)

text \<open>
  Listing page by page: for a fixed iteration order of the map, consecutive pages of \<open>n\<close> keys
  together are the unpaged listing, which consists of the metadata of exactly the stored keys that
  pass the filter, each key once.
\<close>

theorem list_keys_pages:
  assumes "distinct order" "set order = dom (keys s)" "0 < n"
    and "kf_offset f = None" "kf_limit f = None"
    and "list_keys order s f = Inr whole" "length whole \<le> m * n"
    and "page = (\<lambda>i. case list_keys order s (f\<lparr>kf_offset := Some (i * n), kf_limit := Some n\<rparr>) of
                       Inl _ \<Rightarrow> [] | Inr p \<Rightarrow> p)"
  shows "concat (map page [0..<m]) = whole
    \<and> set whole = {ke_meta e |e. e \<in> ran (keys s) \<and> filter_accepts f (ke_meta e)}
    \<and> (kf_tenant_id f = None \<and> kf_status f = None \<and> kf_spec f = None \<longrightarrow> length whole = card (dom (keys s)))"
proof -
  have all: "whole = filter (filter_accepts f) (map ke_meta (List.map_filter (keys s) order))"
    using assms(4-6) by (simp add: list_keys_def)
  have "filter_accepts (f\<lparr>kf_offset := Some (i * n), kf_limit := Some n\<rparr>) = filter_accepts f" for i
    by (auto simp: filter_accepts_def fun_eq_iff)
  then have "page = (\<lambda>i. take n (drop (i * n) whole))"
    by (simp add: assms(8) list_keys_def all)
  then have "concat (map page [0..<m]) = whole"
    by (simp add: pages_concat [OF assms(3,7)])
  moreover have "set whole = {ke_meta e |e. e \<in> ran (keys s) \<and> filter_accepts f (ke_meta e)}"
    using map_filter_dom [OF assms(2)] by (auto simp: all)
  moreover have "length whole = card (dom (keys s))"
    if "kf_tenant_id f = None \<and> kf_status f = None \<and> kf_spec f = None"
  proof -
    have "filter_accepts f = (\<lambda>_. True)"
      using that by (simp add: filter_accepts_def fun_eq_iff)
    then show ?thesis
      using assms(1,2) length_map_filter_dom [of order "keys s"] distinct_card [of order] by (simp add: all)
  qed
  ultimately show ?thesis by simp
qed

text \<open>
  What signing and verification rely on: the crates verify their own signatures.
\<close>

definition signatures_ok :: "'kp crypto \<Rightarrow> bool" where
  "signatures_ok cr \<longleftrightarrow>
     (\<forall>K d. ed25519_verify cr (ed25519_public_key cr K) d (ed25519_sign cr K d)) \<and>
     (\<forall>kp. is_ok (sm2_verifier_new cr (sm2_public_key_bytes cr kp) (sm2_distid cr kp))) \<and>
     (\<forall>kp rng d b. sm2_sign cr kp rng d = Inr b
        \<longrightarrow> sm2_verify cr (sm2_public_key_bytes cr kp) (sm2_distid cr kp) d b)"

fun not_rotating :: "uuid \<Rightarrow> ks_call \<Rightarrow> bool" where
  "not_rotating k (RotateKey rng now i t) \<longleftrightarrow> i \<noteq> k"
| "not_rotating k c \<longleftrightarrow> True"

definition signing_entry :: "uuid \<Rightarrow> string \<Rightarrow> key_spec \<Rightarrow> bytes \<Rightarrow> 's software_keystore \<Rightarrow> bool" where
  "signing_entry k t sp mat s \<longleftrightarrow> (\<exists>e. keys s k = Some e \<and> m_tenant_id (ke_meta e) = t
     \<and> m_spec (ke_meta e) = sp \<and> ke_material e = mat)"

interpretation signing_key: stateful "ks_step cr" "\<lambda>c. keeps k c \<and> not_rotating k c"
  "signing_entry k t sp mat" for cr k t sp mat
proof unfold_locales
  fix c and s :: "'b software_keystore"
  assume "keeps k c \<and> not_rotating k c" "signing_entry k t sp mat s"
  then show "signing_entry k t sp mat (ks_step cr c s)"
    by (cases c) (auto simp: keys_step signing_entry_def split: sum.splits)
qed

text \<open>
  A signature made by the keystore verifies under the same key as long as the key is neither
  destroyed nor rotated, also when its deletion has been requested in between.
\<close>

theorem sign_verify:
  assumes "signatures_ok cr" "sign cr rng s k data t = Inr sg"
    and "list_all (\<lambda>c. keeps k c \<and> not_rotating k c) calls"
  shows "verify cr (run_ops (ks_step cr) calls s) k data sg t = Inr True"
proof -
  obtain e where e: "keys s k = Some e" "m_tenant_id (ke_meta e) = t"
    using assms(2) by (auto simp: sign_def and_then_Inr tenant_entry_Inr)
  then have "signing_entry k t (m_spec (ke_meta e)) (ke_material e) (run_ops (ks_step cr) calls s)"
    by (intro signing_key.run_inv assms(3)) (simp add: signing_entry_def)
  then obtain e' where e': "keys (run_ops (ks_step cr) calls s) k = Some e'" "m_tenant_id (ke_meta e') = t"
    "m_spec (ke_meta e') = m_spec (ke_meta e)" "ke_material e' = ke_material e"
    by (auto simp: signing_entry_def)
  then have "tenant_entry (run_ops (ks_step cr) calls s) k t = Inr e'" "tenant_entry s k t = Inr e"
    using e by simp_all
  with assms(1,2) e' show ?thesis
    by (auto simp: sign_def verify_def and_then_Inr Let_def signatures_ok_def is_ok_iff split: if_splits)
qed

text \<open>
  \<open>verify\<close> never looks at the version a signature carries: once the key is rotated, a genuine
  signature made before is checked with the new key and rejected, although the keystore still holds
  the material of the version the signature names.
\<close>

theorem rotation_rejects_old_signatures:
  assumes "keys s k = Some e" "m_tenant_id (ke_meta e) = t" "m_spec (ke_meta e) = Ed25519"
    and "m_version (ke_meta e) \<noteq> 0" "m_version (ke_meta e) \<notin> fst ` set (ke_versions e)"
    and "sign cr rng s k data t = Inr sg"
    and "rotate_key cr rng' now k t s = (Inr meta, s')"
    and "ed25519_from_seed cr (fill_bytes rng' 32) = Inr ()"
    and "\<not> ed25519_verify cr (ed25519_public_key cr (fill_bytes rng' 32)) data (sig_signature sg)"
  shows "verify cr s' k data sg t = Inr False
    \<and> get_key_material_version s' k (sig_version sg) t = Inr (ke_material e)"
proof -
  have sg: "m_status (ke_meta e) = Active" "sig_version sg = m_version (ke_meta e)"
    using assms(1-3,6) by (auto simp: sign_def and_then_Inr Let_def split: if_splits)
  have "rotation_material cr rng' Ed25519 = Inr (fill_bytes rng' 32)"
    by (simp add: rotation_material_def generate_ed25519_key_def)
  then have s': "keys s' k = Some ((archive_material e)\<lparr>ke_meta := rotated_meta now (ke_meta e),
      ke_material := fill_bytes rng' 32\<rparr>)"
    using assms(1-3,7) sg(1) by (auto simp: rotate_key_def can_rotate_def Let_def)
  have "map_of (ke_versions e) (m_version (ke_meta e)) = None"
    using assms(5) by (simp add: map_of_eq_None_iff)
  with s' sg(2) assms(2,3,4,8,9) show ?thesis
    by (simp add: verify_def archive_material_def rotated_meta_def tenant_entry_def verify_tenant_def Let_def
        get_key_material_version_def map_add_def)
qed

section \<open>Concrete instances\<close>

text \<open>
  Functions with the laws the properties assume of the crates, for evaluating the properties on
  concrete inputs: sealing appends key, nonce and additional data as the tag, a signature is the key
  followed by the data.
\<close>

definition demo_open :: "bytes \<Rightarrow> bytes \<Rightarrow> string + bytes" where
  "demo_open tag io =
     (if length tag \<le> length io \<and> drop (length io - length tag) io = tag
      then Inr (take (length io - length tag) io) else Inl ''Unspecified'')"

definition demo_crypto :: "bytes crypto" where
  "demo_crypto = \<lparr>sha256 = (\<lambda>b. take 32 (b @ replicate 32 0)), hex_encode = map (\<lambda>b. char_of (unat b)),
     aes_unbound_key = (\<lambda>k. if length k = 32 then Inr () else Inl ''Unspecified''),
     aes_seal = (\<lambda>k n a p. Inr (p, k @ n @ a)),
     aes_open = (\<lambda>k n a io. demo_open (k @ n @ a) io),
     sm4_cipher_new = (\<lambda>k. if length k = 16 then Inr () else Inl ''InvalidKey''),
     sm4_encrypt_gcm = (\<lambda>k p n a. Inr (p, k @ n @ a)),
     sm4_decrypt_gcm = (\<lambda>k c n a t. demo_open (k @ n @ a) (c @ t)),
     sm2_generate = (\<lambda>rng. Inr (replicate 31 0 @ [1])),
     sm2_private_key_bytes = (\<lambda>kp. kp), sm2_from_private_key = (\<lambda>b. Inr b),
     sm2_public_key_bytes = (\<lambda>kp. kp), sm2_public_key_bytes_uncompressed = (\<lambda>kp. kp),
     sm2_distid = (\<lambda>_. []), sm2_encryptor_new = (\<lambda>_. Inr ()),
     sm2_encrypt = (\<lambda>pk rng p. Inr (replicate 97 0 @ p)), sm2_decrypt = (\<lambda>kp c. Inr (drop 97 c)),
     sm2_signer_new = (\<lambda>_. Inr ()), sm2_sign = (\<lambda>kp rng d. Inr (kp @ d)),
     sm2_verifier_new = (\<lambda>_ _. Inr ()), sm2_verify = (\<lambda>pk _ d b. b = pk @ d),
     ed25519_from_seed = (\<lambda>k. if length k = 32 then Inr () else Inl ''InvalidEncoding''),
     ed25519_sign = (\<lambda>k d. k @ d), ed25519_public_key = (\<lambda>k. k), ed25519_verify = (\<lambda>pk d b. b = pk @ d),
     p256_public_key = (\<lambda>_. Inr ()), p256_diffie_hellman = (\<lambda>rng pk. fill_bytes rng 32),
     p384_public_key = (\<lambda>_. Inr ()), p384_diffie_hellman = (\<lambda>rng pk. fill_bytes rng 48),
     x25519_diffie_hellman = (\<lambda>k pk. k)\<rparr>"

lemma demo_aead_ok: "aead_ok demo_crypto"
  by (simp add: aead_ok_def demo_crypto_def demo_open_def)

lemma demo_signatures_ok: "signatures_ok demo_crypto"
  by (simp add: signatures_ok_def demo_crypto_def)

lemma demo_sm2_generator_ok: "sm2_generator_ok demo_crypto"
proof -
  have "is_ok (sm2_scalar_in_range (replicate 31 0 @ [1]))"
    by code_simp
  then show ?thesis
    by (simp add: sm2_generator_ok_def demo_crypto_def)
qed

definition demo_generate :: "key_spec \<Rightarrow> ks_call" where
  "demo_generate sp = GenerateKey (\<lambda>i. 7) 5 0 sp ''k'' ''acme''"

definition demo_store :: "key_spec \<Rightarrow> unit software_keystore" where
  "demo_store sp = run_ops (ks_step demo_crypto) [demo_generate sp] ks_new"

lemma demo_key:
  assumes "sp \<in> {Aes256Gcm, Ed25519}"
  shows "keys (demo_store sp) = [5 \<mapsto> \<lparr>ke_meta = new_meta 5 0 sp ''k'' ''acme'' None,
    ke_material = replicate 32 7, ke_versions = []\<rparr>]"
  using assms
  by (auto simp: demo_store_def demo_generate_def keys_step generate_material_def generate_aes_key_def
      generate_ed25519_key_def fill_bytes_def ks_new_def map_replicate_const)

lemma new_meta_simps [simp]:
  "m_tenant_id (new_meta i now sp name t d) = t" "m_spec (new_meta i now sp name t d) = sp"
  "m_status (new_meta i now sp name t d) = Active" "m_version (new_meta i now sp name t d) = 1"
  by (simp_all add: new_meta_def)

theorem tenant_isolation_witness:
  "keys (demo_store Aes256Gcm) 5 \<noteq> None
    \<and> encrypt demo_crypto (\<lambda>_. 0) (demo_store Aes256Gcm) 5 [1, 2] None ''other'' = Inl (KeyNotFound (Id 5))"
  by (simp add: demo_key tenant_isolation)


theorem old_ciphertexts_decrypt_witness:
  "\<exists>c. encrypt demo_crypto (\<lambda>_. 3) (demo_store Aes256Gcm) 5 [1, 2, 3] None ''acme'' = Inr c
     \<and> decrypt demo_crypto (run_ops (ks_step demo_crypto)
           [RotateKey (\<lambda>_. 1) 9 5 ''acme'', RotateKey (\<lambda>_. 2) 9 5 ''acme'', DeleteKey 5 ''acme'']
           (demo_store Aes256Gcm)) 5 c None ''acme'' = Inr [1, 2, 3]"
proof -
  have "is_ok (encrypt demo_crypto (\<lambda>_. 3) (demo_store Aes256Gcm) 5 [1, 2, 3] None ''acme'')"
    by (simp add: encrypt_def demo_key encrypt_aes_def demo_crypto_def Let_def del: be_bytes.simps)
  then obtain c where c: "encrypt demo_crypto (\<lambda>_. 3) (demo_store Aes256Gcm) 5 [1, 2, 3] None ''acme'' = Inr c"
    by (auto simp: is_ok_iff)
  have "decrypt demo_crypto (run_ops (ks_step demo_crypto)
           [RotateKey (\<lambda>_. 1) 9 5 ''acme'', RotateKey (\<lambda>_. 2) 9 5 ''acme'', DeleteKey 5 ''acme'']
           (demo_store Aes256Gcm)) 5 c None ''acme'' = Inr [1, 2, 3]"
    by (rule old_ciphertexts_decrypt [OF demo_aead_ok demo_sm2_generator_ok demo_store_def c _ refl]) simp_all
  with c show ?thesis by blast
qed

theorem generate_key_correct_witness:
  "is_ok (fst (generate_key demo_crypto (\<lambda>_. 7) 5 0 Sm4 ''k'' ''acme'' ks_new))
    \<and> \<not> is_ok (fst (generate_key demo_crypto (\<lambda>_. 7) 5 0 EcdsaP256 ''k'' ''acme'' ks_new))"
  by (simp add: is_generatable_def
      generate_key_correct [OF demo_sm2_generator_ok prod.collapse [symmetric], THEN conjunct1])

definition demo_imported :: "unit software_keystore" where
  "demo_imported = snd (import_key_material 6 0 EcdsaP256 ''k'' ''acme'' (replicate 32 9) ks_new)"

lemma demo_imported_key:
  "keys demo_imported = [6 \<mapsto> \<lparr>ke_meta = new_meta 6 0 EcdsaP256 ''k'' ''acme'' (Some ''imported''),
    ke_material = replicate 32 9, ke_versions = []\<rparr>]"
proof -
  have "import_check EcdsaP256 (replicate 32 9) = Inr ()"
    by (simp add: import_check_def validate_ecdsa_key_def kv_ok_def)
  then show ?thesis
    by (simp add: demo_imported_def keys_step ks_new_def)
qed

theorem failed_rotation_empties_key_witness:
  "export_key_material demo_imported 6 ''acme'' = Inr (replicate 32 9)
    \<and> export_key_material (snd (rotate_key demo_crypto (\<lambda>_. 1) 9 6 ''acme'' demo_imported)) 6 ''acme'' = Inr []"
proof -
  have "\<exists>x s'. rotate_key demo_crypto (\<lambda>_. 1) 9 6 ''acme'' demo_imported = (Inl x, s')
      \<and> export_key_material s' 6 ''acme'' = Inr []"
    using failed_rotation_empties_key [of demo_imported 6 _ "''acme''" demo_crypto "\<lambda>_. 1" 9]
    by (fastforce simp: demo_imported_key is_generatable_def)
  then show ?thesis
    by (auto simp: export_key_material_def demo_imported_key)
qed

theorem list_keys_pages_witness:
  "concat (map (\<lambda>i. case list_keys [5] (demo_store Aes256Gcm)
       \<lparr>kf_tenant_id = Some ''acme'', kf_status = None, kf_spec = None, kf_tags = None,
        kf_limit = Some 2, kf_offset = Some (i * 2)\<rparr> of Inl _ \<Rightarrow> [] | Inr p \<Rightarrow> p) [0..<1])
    = [new_meta 5 0 Aes256Gcm ''k'' ''acme'' None]"
proof -
  let ?f = "\<lparr>kf_tenant_id = Some ''acme'', kf_status = None, kf_spec = None, kf_tags = None,
    kf_limit = None, kf_offset = None\<rparr>"
  have whole: "list_keys [5] (demo_store Aes256Gcm) ?f = Inr [new_meta 5 0 Aes256Gcm ''k'' ''acme'' None]"
    by (simp add: list_keys_def demo_key filter_accepts_def List.map_filter_simps)
  show ?thesis
    using list_keys_pages [OF _ _ _ _ _ whole _ refl, of 2 1] by (simp add: demo_key)
qed

theorem sign_verify_witness:
  "\<exists>sg. sign demo_crypto (\<lambda>_. 0) (demo_store Ed25519) 5 [1, 2] ''acme'' = Inr sg
     \<and> verify demo_crypto (run_ops (ks_step demo_crypto) [DeleteKey 5 ''acme''] (demo_store Ed25519))
          5 [1, 2] sg ''acme'' = Inr True"
proof -
  have "is_ok (sign demo_crypto (\<lambda>_. 0) (demo_store Ed25519) 5 [1, 2] ''acme'')"
    by (simp add: sign_def demo_key demo_crypto_def Let_def)
  then obtain sg where "sign demo_crypto (\<lambda>_. 0) (demo_store Ed25519) 5 [1, 2] ''acme'' = Inr sg"
    by (auto simp: is_ok_iff)
  with sign_verify [OF demo_signatures_ok this, of "[DeleteKey 5 ''acme'']"] show ?thesis
    by simp
qed

theorem rotation_rejects_old_signatures_witness:
  "\<exists>sg. sign demo_crypto (\<lambda>_. 0) (demo_store Ed25519) 5 [1, 2] ''acme'' = Inr sg
     \<and> verify demo_crypto (snd (rotate_key demo_crypto (\<lambda>_. 1) 9 5 ''acme'' (demo_store Ed25519)))
          5 [1, 2] sg ''acme'' = Inr False"
proof -
  define sg where "sg = \<lparr>sig_key_id = 5, sig_version = 1, sig_signature = replicate 32 7 @ [1, 2]\<rparr>"
  have sg: "sign demo_crypto (\<lambda>_. 0) (demo_store Ed25519) 5 [1, 2] ''acme'' = Inr sg"
    by (simp add: sg_def sign_def demo_key demo_crypto_def Let_def)
  obtain meta s' where r: "rotate_key demo_crypto (\<lambda>_. 1) 9 5 ''acme'' (demo_store Ed25519) = (Inr meta, s')"
    by (simp add: rotate_key_def demo_key can_rotate_def rotation_material_def Let_def)
  have "\<not> ed25519_verify demo_crypto (ed25519_public_key demo_crypto (fill_bytes (\<lambda>_. 1) 32)) [1, 2]
      (sig_signature sg)"
    and "ed25519_from_seed demo_crypto (fill_bytes (\<lambda>_. 1) 32) = Inr ()"
    by (simp_all add: demo_crypto_def sg_def fill_bytes_def map_replicate_const)
  then have "verify demo_crypto s' 5 [1, 2] sg ''acme'' = Inr False"
    using rotation_rejects_old_signatures [OF _ _ _ _ _ sg r] by (simp add: demo_key)
  with sg r show ?thesis by auto
qed

end
