(* ===== verification/Kex.thy ===== *)
theory Kex
  imports Software_Keystore
begin

text \<open>
  The SM2 key exchange sessions of the software keystore,
  \<^verbatim>\<open>crates/kms-keystore/src/software/mod.rs\<close>: opening a session as initiator or responder,
  processing messages with replay protection, reading the result, removal with revocation, and the
  byte format of the messages. The protocol itself is \<open>gm_crypto\<close>'s \<open>KexSession\<close>, a parameter.
\<close>

section \<open>Messages and the protocol crate\<close>

record sm2_kex_message =
  km_msg_type :: u8
  km_sender_id :: bytes
  km_r_pub :: bytes
  km_signature :: "bytes option"
  km_confirmation :: "bytes option"

text \<open>The array lengths of the struct.\<close>

definition message_ok :: "sm2_kex_message \<Rightarrow> bool" where
  "message_ok msg \<longleftrightarrow> length (km_sender_id msg) = 16 \<and> length (km_r_pub msg) = 64
     \<and> (case km_signature msg of None \<Rightarrow> True | Some b \<Rightarrow> length b = 64)
     \<and> (case km_confirmation msg of None \<Rightarrow> True | Some b \<Rightarrow> length b = 32)"

text \<open>
  What is used of \<open>KexSession\<close> and of SEC1 parsing: \<open>'kp\<close> is a key pair, \<open>'pk\<close> a public key, \<open>'s\<close> a
  session, \<open>'r\<close> a result. The processing functions return the session they leave behind, also when
  they fail.
\<close>

record ('kp, 'pk, 's, 'r) kex_crate =
  kx_new_initiator :: "'kp \<Rightarrow> bytes \<Rightarrow> rng \<Rightarrow> string + 's"
  kx_new_responder :: "'kp \<Rightarrow> bytes \<Rightarrow> rng \<Rightarrow> string + 's"
  kx_public_key :: "bytes \<Rightarrow> string + 'pk"
  kx_generate_msg1 :: "'s \<Rightarrow> string + sm2_kex_message"
  kx_process_msg1 :: "'s \<Rightarrow> sm2_kex_message \<Rightarrow> 'pk \<Rightarrow> (string + sm2_kex_message) \<times> 's"
  kx_process_msg2 :: "'s \<Rightarrow> sm2_kex_message \<Rightarrow> 'pk \<Rightarrow> (string + sm2_kex_message) \<times> 's"
  kx_process_msg3 :: "'s \<Rightarrow> sm2_kex_message \<Rightarrow> (string + unit) \<times> 's"
  kx_get_result :: "'s \<Rightarrow> 'r option"
  kx_shared_secret :: "'r \<Rightarrow> bytes"

definition SM2_KEX_SESSION_TIMEOUT_SECS :: int where
  "SM2_KEX_SESSION_TIMEOUT_SECS = 60"

definition MAX_MESSAGE_HISTORY_SIZE :: nat where
  "MAX_MESSAGE_HISTORY_SIZE = 10"

definition MESSAGE_HISTORY_TTL_SECS :: int where
  "MESSAGE_HISTORY_TTL_SECS = 60"

section \<open>Message format\<close>

definition validate_r_pub :: "bytes \<Rightarrow> kms_error + unit" where
  "validate_r_pub r_pub =
     (if list_all (\<lambda>b. b = 0) r_pub then
        Inl (KeyExchangeFailed (Lit ''SM2-KEX invalid R1/R2: ephemeral public key is identity point''))
      else if list_all (\<lambda>b. b = hd r_pub) r_pub then
        Inl (KeyExchangeFailed (Lit ''SM2-KEX invalid R1/R2: ephemeral public key has uniform bytes''))
      else Inr ())"

definition serialize_sm2_kex_message :: "sm2_kex_message \<Rightarrow> bytes" where
  "serialize_sm2_kex_message msg =
     [km_msg_type msg] @ km_sender_id msg @ km_r_pub msg
     @ (case km_signature msg of Some sg \<Rightarrow> sg | None \<Rightarrow> [])
     @ (case km_confirmation msg of Some confirm \<Rightarrow> confirm | None \<Rightarrow> [])"

definition deserialize_sm2_kex_message :: "bytes \<Rightarrow> u8 \<Rightarrow> msg + sm2_kex_message" where
  "deserialize_sm2_kex_message bs expected_type =
     (if bs = [] then Inl (Lit ''empty message'')
      else
        let msg_type = bs ! 0
        in if expected_type \<noteq> 0 \<and> msg_type \<noteq> expected_type then
             Inl (Fmt [Lit ''expected msg_type '', Num (unat expected_type), Lit '', got '', Num (unat msg_type)])
           else if length bs < 1 + 16 then Inl (Lit ''insufficient bytes for sender_id'')
           else
             let sender_id = take 16 (drop 1 bs); offset = 17;
                 has_r = (msg_type = 1 \<or> msg_type = 2)
             in if has_r \<and> length bs < offset + 64 then Inl (Lit ''insufficient bytes for r_pub'')
                else
                  let r_pub = (if has_r then take 64 (drop offset bs) else replicate 64 0);
                      offset = (if has_r then offset + 64 else offset)
                  in if msg_type = 2 \<and> length bs < offset + 64 then Inl (Lit ''insufficient bytes for signature'')
                     else
                       let sg = (if msg_type = 2 then Some (take 64 (drop offset bs)) else None);
                           offset = (if msg_type = 2 then offset + 64 else offset)
                       in if msg_type = 3 \<and> length bs < offset + 32 then
                            Inl (Lit ''insufficient bytes for confirmation'')
                          else Inr \<lparr>km_msg_type = msg_type, km_sender_id = sender_id, km_r_pub = r_pub,
                                    km_signature = sg,
                                    km_confirmation = (if msg_type = 3 then Some (take 32 (drop offset bs))
                                                       else None)\<rparr>)"

section \<open>Sessions\<close>

definition is_session_revoked :: "time \<Rightarrow> 's software_keystore \<Rightarrow> uuid \<Rightarrow> bool" where
  "is_session_revoked now s session_id \<longleftrightarrow>
     (case revoked_sessions s session_id of Some entry \<Rightarrow> re_expires_at entry > now | None \<Rightarrow> False)"

definition kex_key_pair :: "'kp crypto \<Rightarrow> 's software_keystore \<Rightarrow> uuid \<Rightarrow> kms_error + 'kp" where
  "kex_key_pair cr s key_id =
     and_then (get_entry s key_id) (\<lambda>entry.
       if m_spec (ke_meta entry) \<noteq> Sm2 then
         Inl (InvalidKeySpec (Fmt [Lit ''SM2-KEX requires SM2 key, got '', Dbg (spec_debug (m_spec (ke_meta entry)))]))
       else map_err (\<lambda>e. KeyExchangeFailed (Fmt [Lit ''invalid SM2 key: '', Str e]))
              (sm2_from_private_key cr (ke_material entry)))"

definition insert_session ::
  "uuid \<Rightarrow> uuid \<Rightarrow> bytes \<Rightarrow> 's \<Rightarrow> bool \<Rightarrow> time \<Rightarrow> 's software_keystore \<Rightarrow> 's software_keystore" where
  "insert_session session_id key_id user_id session is_initiator now s =
     s\<lparr>sm2_kex_sessions := (sm2_kex_sessions s)(session_id \<mapsto>
         \<lparr>se_session_id = session_id, se_key_id = key_id, se_user_id = user_id, se_session = session,
          se_is_initiator = is_initiator, se_nonce = 0, se_created_at = now, se_message_history = []\<rparr>)\<rparr>"

definition kex_create ::
  "'kp crypto \<Rightarrow> ('kp, 'pk, 's, 'r) kex_crate \<Rightarrow> rng \<Rightarrow> uuid \<Rightarrow> time \<Rightarrow> uuid \<Rightarrow> bytes \<Rightarrow> 's software_keystore
    \<Rightarrow> (kms_error + uuid \<times> sm2_kex_message) \<times> 's software_keystore" where
  "kex_create cr kx rng new_id now key_id user_id s =
     (case and_then (kex_key_pair cr s key_id) (\<lambda>key_pair.
           and_then (map_err (\<lambda>e. KeyExchangeFailed (Fmt [Lit ''failed to create session: '', Str e]))
                       (kx_new_initiator kx key_pair user_id rng)) (\<lambda>session.
           and_then (map_err (\<lambda>e. KeyExchangeFailed (Fmt [Lit ''failed to generate msg1: '', Str e]))
                       (kx_generate_msg1 kx session)) (\<lambda>msg1.
           Inr (session, msg1)))) of
        Inl e \<Rightarrow> (Inl e, s)
      | Inr (session, msg1) \<Rightarrow>
          (Inr (new_id, msg1), insert_session new_id key_id user_id session True now s))"

definition kex_accept ::
  "'kp crypto \<Rightarrow> ('kp, 'pk, 's, 'r) kex_crate \<Rightarrow> rng \<Rightarrow> uuid \<Rightarrow> time \<Rightarrow> uuid \<Rightarrow> bytes \<Rightarrow> sm2_kex_message \<Rightarrow> bytes
    \<Rightarrow> 's software_keystore \<Rightarrow> (kms_error + uuid \<times> sm2_kex_message) \<times> 's software_keystore" where
  "kex_accept cr kx rng new_id now key_id user_id msg1 peer_public_key s =
     (case and_then (kex_key_pair cr s key_id) (\<lambda>key_pair.
           and_then (map_err (\<lambda>e. KeyExchangeFailed (Fmt [Lit ''failed to create session: '', Str e]))
                       (kx_new_responder kx key_pair user_id rng)) (\<lambda>session.
           and_then (map_err (\<lambda>e. KeyExchangeFailed (Fmt [Lit ''invalid peer public key: '', Str e]))
                       (kx_public_key kx peer_public_key)) (\<lambda>peer_pub_key.
           and_then (validate_r_pub (km_r_pub msg1)) (\<lambda>_.
           let (r, session') = kx_process_msg1 kx session msg1 peer_pub_key
           in and_then (map_err (\<lambda>e. KeyExchangeFailed (Fmt [Lit ''failed to process msg1: '', Str e])) r)
                (\<lambda>msg2. Inr (session', msg2)))))) of
        Inl e \<Rightarrow> (Inl e, s)
      | Inr (session, msg2) \<Rightarrow>
          (Inr (new_id, msg2), insert_session new_id key_id user_id session False now s))"

text \<open>Dropping expired entries of the history, and appending a message to it.\<close>

definition live_history :: "time \<Rightarrow> (time \<times> bytes) list \<Rightarrow> (time \<times> bytes) list" where
  "live_history now h = filter (\<lambda>(timestamp, _). as_secs (now - timestamp) < MESSAGE_HISTORY_TTL_SECS) h"

definition push_history :: "time \<Rightarrow> bytes \<Rightarrow> (time \<times> bytes) list \<Rightarrow> (time \<times> bytes) list" where
  "push_history now h_msg h =
     (let h' = h @ [(now, h_msg)] in if length h' > MAX_MESSAGE_HISTORY_SIZE then drop 1 h' else h')"

definition put_session :: "uuid \<Rightarrow> 's sm2_kex_session_entry \<Rightarrow> 's software_keystore \<Rightarrow> 's software_keystore" where
  "put_session session_id entry s = s\<lparr>sm2_kex_sessions := (sm2_kex_sessions s)(session_id \<mapsto> entry)\<rparr>"

text \<open>\<open>t0\<close>, \<open>t1\<close> and \<open>now\<close> are the three clock readings: revocation check, expiry check, history.\<close>

definition kex_process ::
  "'kp crypto \<Rightarrow> ('kp, 'pk, 's, 'r) kex_crate \<Rightarrow> time \<Rightarrow> time \<Rightarrow> time \<Rightarrow> uuid \<Rightarrow> sm2_kex_message \<Rightarrow> bytes
    \<Rightarrow> 's software_keystore \<Rightarrow> (kms_error + sm2_kex_message option) \<times> 's software_keystore" where
  "kex_process cr kx t0 t1 now session_id msg peer_public_key s =
     (if is_session_revoked t0 s session_id then
        (Inl (KeyExchangeFailed (Fmt [Lit ''SM2-KEX session '', Id session_id, Lit '' has been revoked''])), s)
      else case sm2_kex_sessions s session_id of
        None \<Rightarrow> (Inl (KeyNotFound (Fmt [Lit ''SM2-KEX session '', Id session_id, Lit '' not found''])), s)
      | Some entry \<Rightarrow>
          if t1 - se_created_at entry > secs SM2_KEX_SESSION_TIMEOUT_SECS then
            (Inl (KeyExchangeFailed (Lit ''SM2-KEX session expired (timeout)'')),
             s\<lparr>sm2_kex_sessions := (sm2_kex_sessions s)(session_id := None)\<rparr>)
          else case (if km_msg_type msg = 1 \<or> km_msg_type msg = 2 then validate_r_pub (km_r_pub msg) else Inr ()) of
            Inl e \<Rightarrow> (Inl e, s)
          | Inr _ \<Rightarrow>
              let msg_hash = sha256 cr (serialize_sm2_kex_message msg);
                  h = live_history now (se_message_history entry)
              in if list_ex (\<lambda>(_, hash). hash = msg_hash) h then
                   (Inl (KeyExchangeFailed (Lit ''SM2-KEX replay attack detected: message already processed'')),
                    put_session session_id (entry\<lparr>se_message_history := h\<rparr>) s)
                 else
                   let entry' = entry\<lparr>se_message_history := push_history now msg_hash h,
                                      se_nonce := se_nonce entry + 1\<rparr>
                   in case kx_public_key kx peer_public_key of
                        Inl e \<Rightarrow> (Inl (KeyExchangeFailed (Fmt [Lit ''invalid peer public key: '', Str e])),
                                  put_session session_id entry' s)
                      | Inr peer_pub_key \<Rightarrow>
                          if se_is_initiator entry then
                            let (r, session) = kx_process_msg2 kx (se_session entry) msg peer_pub_key;
                                s' = put_session session_id (entry'\<lparr>se_session := session\<rparr>) s
                            in (case r of
                                  Inr msg3 \<Rightarrow> (Inr (Some msg3), s')
                                | Inl e \<Rightarrow> (Inl (KeyExchangeFailed (Fmt [Lit ''msg2 processing failed: '', Str e])), s'))
                          else
                            let (r, session) = kx_process_msg3 kx (se_session entry) msg;
                                s' = put_session session_id (entry'\<lparr>se_session := session\<rparr>) s
                            in (case r of
                                  Inr _ \<Rightarrow> (Inr None, s')
                                | Inl e \<Rightarrow> (Inl (KeyExchangeFailed (Fmt [Lit ''msg3 processing failed: '', Str e])), s')))"

definition kex_result ::
  "('kp, 'pk, 's, 'r) kex_crate \<Rightarrow> time \<Rightarrow> uuid \<Rightarrow> 's software_keystore \<Rightarrow> kms_error + 'r" where
  "kex_result kx now session_id s =
     (if is_session_revoked now s session_id then
        Inl (KeyExchangeFailed (Fmt [Lit ''SM2-KEX session '', Id session_id, Lit '' has been revoked'']))
      else and_then (ok_or (KeyNotFound (Fmt [Lit ''SM2-KEX session '', Id session_id, Lit '' not found'']))
                       (sm2_kex_sessions s session_id)) (\<lambda>entry.
           ok_or (KeyExchangeFailed (Lit ''session not completed yet'')) (kx_get_result kx (se_session entry))))"

text \<open>\<open>n_revoked\<close> is \<open>revoked.len()\<close>, the number of entries of the revocation map.\<close>

definition kex_remove ::
  "nat \<Rightarrow> time \<Rightarrow> uuid \<Rightarrow> 's software_keystore \<Rightarrow> (kms_error + unit) \<times> 's software_keystore" where
  "kex_remove n_revoked now session_id s =
     (case sm2_kex_sessions s session_id of
        None \<Rightarrow> (Inl (KeyNotFound (Fmt [Lit ''SM2-KEX session '', Id session_id, Lit '' not found''])), s)
      | Some entry \<Rightarrow>
          let revoked = (if n_revoked > 100
                 then (\<lambda>i. case revoked_sessions s i of
                            Some e \<Rightarrow> if re_expires_at e > now then Some e else None | None \<Rightarrow> None)
                 else revoked_sessions s)
          in (Inr (), s\<lparr>revoked_sessions := revoked(session_id \<mapsto>
                          \<lparr>re_revoked_at = now, re_expires_at = now + secs 300\<rparr>),
                        sm2_kex_sessions := (sm2_kex_sessions s)(session_id := None)\<rparr>))"

section \<open>The byte interface\<close>

definition kex_failed :: "kms_error \<Rightarrow> kms_error" where
  "kex_failed e = KeyExchangeFailed (err_display e)"

definition create_sm2_kex_session ::
  "'kp crypto \<Rightarrow> ('kp, 'pk, 's, 'r) kex_crate \<Rightarrow> rng \<Rightarrow> uuid \<Rightarrow> time \<Rightarrow> uuid \<Rightarrow> bytes \<Rightarrow> 's software_keystore
    \<Rightarrow> (kms_error + uuid \<times> bytes) \<times> 's software_keystore" where
  "create_sm2_kex_session cr kx rng new_id now key_id user_id s =
     (let (r, s') = kex_create cr kx rng new_id now key_id user_id s
      in (and_then (map_kms_err kex_failed r) (\<lambda>(session_id, msg).
            Inr (session_id, serialize_sm2_kex_message msg)), s'))"

definition accept_sm2_kex_session ::
  "'kp crypto \<Rightarrow> ('kp, 'pk, 's, 'r) kex_crate \<Rightarrow> rng \<Rightarrow> uuid \<Rightarrow> time \<Rightarrow> uuid \<Rightarrow> bytes \<Rightarrow> bytes \<Rightarrow> bytes
    \<Rightarrow> 's software_keystore \<Rightarrow> (kms_error + uuid \<times> bytes) \<times> 's software_keystore" where
  "accept_sm2_kex_session cr kx rng new_id now key_id user_id msg1_bytes peer_public_key s =
     (case deserialize_sm2_kex_message msg1_bytes 1 of
        Inl e \<Rightarrow> (Inl (Internal (Fmt [Lit ''invalid msg1: '', e])), s)
      | Inr msg1 \<Rightarrow>
          let (r, s') = kex_accept cr kx rng new_id now key_id user_id msg1 peer_public_key s
          in (and_then (map_kms_err kex_failed r) (\<lambda>(session_id, msg2).
                Inr (session_id, serialize_sm2_kex_message msg2)), s'))"

definition process_sm2_kex_message ::
  "'kp crypto \<Rightarrow> ('kp, 'pk, 's, 'r) kex_crate \<Rightarrow> time \<Rightarrow> time \<Rightarrow> time \<Rightarrow> uuid \<Rightarrow> bytes \<Rightarrow> bytes
    \<Rightarrow> 's software_keystore \<Rightarrow> (kms_error + bytes option) \<times> 's software_keystore" where
  "process_sm2_kex_message cr kx t0 t1 now session_id msg_bytes peer_public_key s =
     (case deserialize_sm2_kex_message msg_bytes 0 of
        Inl e \<Rightarrow> (Inl (Internal (Fmt [Lit ''invalid message: '', e])), s)
      | Inr msg \<Rightarrow>
          let (r, s') = kex_process cr kx t0 t1 now session_id msg peer_public_key s
          in (and_then (map_kms_err kex_failed r) (\<lambda>result_msg.
                Inr (map_option serialize_sm2_kex_message result_msg)), s'))"

definition get_sm2_kex_result ::
  "('kp, 'pk, 's, 'r) kex_crate \<Rightarrow> time \<Rightarrow> uuid \<Rightarrow> 's software_keystore \<Rightarrow> kms_error + bytes" where
  "get_sm2_kex_result kx now session_id s =
     and_then (map_kms_err kex_failed (kex_result kx now session_id s)) (\<lambda>result. Inr (kx_shared_secret kx result))"

definition remove_sm2_kex_session ::
  "nat \<Rightarrow> time \<Rightarrow> uuid \<Rightarrow> 's software_keystore \<Rightarrow> (kms_error + unit) \<times> 's software_keystore" where
  "remove_sm2_kex_session n_revoked now session_id s =
     (let (r, s') = kex_remove n_revoked now session_id s in (map_kms_err kex_failed r, s'))"

section \<open>Message format\<close>

text \<open>
  The first two messages of the exchange survive transport: parsing the bytes of an opening
  message, or of a response with its signature, gives the message back, whether the type is expected
  or detected from the bytes.
\<close>

theorem kex_message_roundtrip:
  assumes "message_ok msg" "km_confirmation msg = None" "expected = 0 \<or> expected = km_msg_type msg"
    and "km_msg_type msg = 1 \<and> km_signature msg = None \<or> km_msg_type msg = 2 \<and> km_signature msg \<noteq> None"
  shows "deserialize_sm2_kex_message (serialize_sm2_kex_message msg) expected = Inr msg"
proof (cases msg)
  case (fields ty sid r sg cf)
  with assms show ?thesis
    by (cases sg) (auto simp: deserialize_sm2_kex_message_def serialize_sm2_kex_message_def message_ok_def Let_def)
qed

text \<open>
  The third message does not survive transport: it is written with the 64 bytes of its ephemeral
  key, but parsed as if they were absent, so the receiver takes the first half of the ephemeral key
  for the confirmation.
\<close>

theorem kex_confirmation_lost:
  assumes "message_ok msg" "km_msg_type msg = 3" "km_signature msg = None" "km_confirmation msg = Some conf"
  shows "deserialize_sm2_kex_message (serialize_sm2_kex_message msg) 0
    = Inr (msg\<lparr>km_r_pub := replicate 64 0, km_confirmation := Some (take 32 (km_r_pub msg))\<rparr>)"
proof (cases msg)
  case (fields ty sid r sg cf)
  with assms show ?thesis
    by (simp add: deserialize_sm2_kex_message_def serialize_sm2_kex_message_def message_ok_def Let_def)
qed

section \<open>Runs of session operations\<close>

datatype kex_call =
    KexCreate rng uuid time uuid bytes
  | KexAccept rng uuid time uuid bytes sm2_kex_message bytes
  | KexProcess time time time uuid sm2_kex_message bytes
  | KexRemove nat time uuid

fun kex_step ::
  "'kp crypto \<Rightarrow> ('kp, 'pk, 's, 'r) kex_crate \<Rightarrow> kex_call \<Rightarrow> 's software_keystore \<Rightarrow> 's software_keystore" where
  "kex_step cr kx (KexCreate rng i now k u) s = snd (kex_create cr kx rng i now k u s)"
| "kex_step cr kx (KexAccept rng i now k u msg pk) s = snd (kex_accept cr kx rng i now k u msg pk s)"
| "kex_step cr kx (KexProcess t0 t1 now i msg pk) s = snd (kex_process cr kx t0 t1 now i msg pk s)"
| "kex_step cr kx (KexRemove n now i) s = snd (kex_remove n now i s)"

lemma revoked_sessions_step:
  "revoked_sessions (snd (kex_create cr kx rng i now k u s)) = revoked_sessions s"
  "revoked_sessions (snd (kex_accept cr kx rng i now k u msg pk s)) = revoked_sessions s"
  "revoked_sessions (snd (kex_process cr kx t0 t1 now i msg pk s)) = revoked_sessions s"
  by (auto simp: kex_create_def kex_accept_def kex_process_def insert_session_def put_session_def Let_def
      split: sum.splits option.splits prod.splits)

text \<open>The revocation recorded at \<open>t\<close> is in force until five minutes later.\<close>

definition revoked_from :: "time \<Rightarrow> uuid \<Rightarrow> 's software_keystore \<Rightarrow> bool" where
  "revoked_from t i s \<longleftrightarrow> (case revoked_sessions s i of Some e \<Rightarrow> t + secs 300 \<le> re_expires_at e | None \<Rightarrow> False)"

fun within :: "time \<Rightarrow> kex_call \<Rightarrow> bool" where
  "within t (KexRemove n now i) \<longleftrightarrow> t \<le> now \<and> now < t + secs 300"
| "within t c \<longleftrightarrow> True"

interpretation revocation: stateful "kex_step cr kx" "within t" "revoked_from t i" for cr kx t i
proof unfold_locales
  fix c and s :: "'c software_keystore"
  assume "within t c" "revoked_from t i s"
  then show "revoked_from t i (kex_step cr kx c s)"
    by (cases c)
      (auto simp: revoked_from_def revoked_sessions_step kex_remove_def Let_def split: option.splits if_splits)
qed

text \<open>
  A removed session stays revoked: for five minutes after its removal, whatever session
  operations follow, also ones that would reuse its identifier, its messages and its result are
  refused and its messages change nothing.
\<close>

theorem removed_session_refused:
  assumes "kex_remove n t i s = (Inr (), s1)" "list_all (within t) calls"
    and "s2 = run_ops (kex_step cr kx) calls s1" "now < t + secs 300"
  shows "\<not> is_ok (fst (kex_process cr kx now t1 now' i msg pk s2))
    \<and> snd (kex_process cr kx now t1 now' i msg pk s2) = s2 \<and> \<not> is_ok (kex_result kx now i s2)"
proof -
  have "revoked_from t i s1"
    using assms(1) by (auto simp: kex_remove_def revoked_from_def Let_def split: option.splits)
  then have "revoked_from t i s2"
    unfolding assms(3) using revocation.run_inv assms(2) by blast
  then have "is_session_revoked now s2 i"
    using assms(4) by (auto simp: revoked_from_def is_session_revoked_def split: option.splits)
  then show ?thesis
    by (simp add: kex_process_def kex_result_def)
qed

section \<open>Replay protection\<close>

text \<open>
  The hash of a processed message is in the history of its session, followed by at most \<open>n\<close> later
  messages, or the session is gone.
\<close>

definition remembered :: "uuid \<Rightarrow> time \<Rightarrow> bytes \<Rightarrow> nat \<Rightarrow> 's software_keystore \<Rightarrow> bool" where
  "remembered i t h n s \<longleftrightarrow> (case sm2_kex_sessions s i of None \<Rightarrow> True
     | Some e \<Rightarrow> (\<exists>older newer. se_message_history e = older @ (t, h) # newer \<and> length newer \<le> n))"

text \<open>Calls that do not open another session under the identifier, before the history entry expires.\<close>

fun before_expiry :: "uuid \<Rightarrow> time \<Rightarrow> kex_call \<Rightarrow> bool" where
  "before_expiry i t (KexCreate rng j now k u) \<longleftrightarrow> j \<noteq> i"
| "before_expiry i t (KexAccept rng j now k u msg pk) \<longleftrightarrow> j \<noteq> i"
| "before_expiry i t (KexProcess t0 t1 now j msg pk) \<longleftrightarrow> now < t + secs 60"
| "before_expiry i t (KexRemove n now j) \<longleftrightarrow> True"

lemma live_history_keeps:
  assumes "now < t + secs 60"
  shows "live_history now (older @ (t, h) # newer) = live_history now older @ (t, h) # live_history now newer"
  using assms by (simp add: live_history_def MESSAGE_HISTORY_TTL_SECS_def as_secs_less)

lemma push_history_keeps:
  assumes "length newer \<le> n" "n < 9"
  shows "\<exists>older' newer'. push_history now x (older @ (t, h) # newer) = older' @ (t, h) # newer' \<and> length newer' \<le> Suc n"
proof (cases older)
  case Nil
  with assms show ?thesis
    by (intro exI [of _ "[]"] exI [of _ "newer @ [(now, x)]"])
      (simp add: push_history_def MAX_MESSAGE_HISTORY_SIZE_def)
next
  case (Cons a as)
  with assms show ?thesis
    by (intro exI [of _ "if length (older @ (t, h) # newer) < 10 then older else as"]
        exI [of _ "newer @ [(now, x)]"]) (simp add: push_history_def MAX_MESSAGE_HISTORY_SIZE_def Let_def)
qed

text \<open>The history a processed message leaves behind, if the session survives.\<close>

lemma kex_process_history:
  assumes "sm2_kex_sessions (snd (kex_process cr kx t0 t1 now i msg pk s)) i = Some e'"
  obtains e where "sm2_kex_sessions s i = Some e"
    "se_message_history e' = se_message_history e
      \<or> se_message_history e' = live_history now (se_message_history e)
      \<or> se_message_history e' = push_history now (sha256 cr (serialize_sm2_kex_message msg))
           (live_history now (se_message_history e))"
proof -
  obtain e where e: "sm2_kex_sessions s i = Some e"
    using assms by (cases "sm2_kex_sessions s i") (auto simp: kex_process_def split: if_splits)
  with assms show thesis
    by (intro that [OF e])
      (auto simp: kex_process_def put_session_def Let_def
        split: if_splits sum.splits prod.splits)
qed

lemma sessions_other:
  "j \<noteq> i \<Longrightarrow> sm2_kex_sessions (snd (kex_process cr kx t0 t1 now j msg pk s)) i = sm2_kex_sessions s i"
  "j \<noteq> i \<Longrightarrow> sm2_kex_sessions (snd (kex_create cr kx rng j now k u s)) i = sm2_kex_sessions s i"
  "j \<noteq> i \<Longrightarrow> sm2_kex_sessions (snd (kex_accept cr kx rng j now k u msg pk s)) i = sm2_kex_sessions s i"
  "sm2_kex_sessions (snd (kex_remove n now j s)) i = (if j = i then None else sm2_kex_sessions s i)"
  by (auto simp: kex_create_def kex_accept_def kex_process_def kex_remove_def insert_session_def put_session_def
      Let_def split: sum.splits option.splits prod.splits)

lemma remembered_mono: "remembered i t h n s \<Longrightarrow> n \<le> m \<Longrightarrow> remembered i t h m s"
  by (fastforce simp: remembered_def split: option.splits)

lemma remembered_process:
  assumes "remembered i t h n s" "now < t + secs 60" "n < 9"
  shows "remembered i t h (Suc n) (snd (kex_process cr kx t0 t1 now i msg pk s))"
proof (cases "sm2_kex_sessions (snd (kex_process cr kx t0 t1 now i msg pk s)) i")
  case (Some e')
  then obtain e where e: "sm2_kex_sessions s i = Some e"
    "se_message_history e' = se_message_history e
      \<or> se_message_history e' = live_history now (se_message_history e)
      \<or> se_message_history e' = push_history now (sha256 cr (serialize_sm2_kex_message msg))
           (live_history now (se_message_history e))"
    by (rule kex_process_history)
  obtain older newer where h: "se_message_history e = older @ (t, h) # newer" "length newer \<le> n"
    using assms(1) e(1) by (auto simp: remembered_def)
  have live: "live_history now (se_message_history e) = live_history now older @ (t, h) # live_history now newer"
    "length (live_history now newer) \<le> n"
    using h(2) by (simp_all add: h(1) live_history_keeps [OF assms(2)])
      (simp add: live_history_def order_trans [OF length_filter_le])
  have "\<exists>older newer. se_message_history e' = older @ (t, h) # newer \<and> length newer \<le> Suc n"
    using e(2)
  proof (elim disjE)
    assume "se_message_history e' = se_message_history e"
    with h show ?thesis by fastforce
  next
    assume "se_message_history e' = live_history now (se_message_history e)"
    with live show ?thesis by fastforce
  next
    assume "se_message_history e' = push_history now (sha256 cr (serialize_sm2_kex_message msg))
      (live_history now (se_message_history e))"
    with live push_history_keeps [OF live(2) assms(3)] show ?thesis by metis
  qed
  with Some show ?thesis by (simp add: remembered_def)
qed (simp add: remembered_def)

lemma remembered_step:
  assumes "remembered i t h n s" "before_expiry i t c" "n < 9"
  shows "remembered i t h (Suc n) (kex_step cr kx c s)"
proof (cases c)
  case (KexProcess t0 t1 now j msg pk)
  show ?thesis
  proof (cases "j = i")
    case True
    with KexProcess assms remembered_process show ?thesis by simp
  next
    case False
    with remembered_mono [OF assms(1), of "Suc n"] KexProcess show ?thesis
      by (simp add: remembered_def sessions_other)
  qed
qed (use remembered_mono [OF assms(1), of "Suc n"] assms(2) in \<open>auto simp: remembered_def sessions_other\<close>)

lemma remembered_run:
  "remembered i t h n s \<Longrightarrow> list_all (before_expiry i t) cs \<Longrightarrow> n + length cs \<le> 9
    \<Longrightarrow> remembered i t h (n + length cs) (run_ops (kex_step cr kx) cs s)"
proof (induction cs arbitrary: n s)
  case (Cons c cs)
  then show ?case
    using remembered_step [of i t h n s c cr kx] Cons.IH [of "Suc n" "kex_step cr kx c s"] by simp
qed simp

lemma processed_remembered:
  assumes "kex_process cr kx t0 t1 now i msg pk s = (Inr r, s1)"
  shows "remembered i now (sha256 cr (serialize_sm2_kex_message msg)) 0 s1"
proof -
  have "\<exists>e' hs. sm2_kex_sessions s1 i = Some e'
    \<and> se_message_history e' = push_history now (sha256 cr (serialize_sm2_kex_message msg)) hs"
    using assms by (auto simp: kex_process_def put_session_def Let_def split: if_splits sum.splits prod.splits option.splits)
  then show ?thesis
    by (force simp: remembered_def push_history_def MAX_MESSAGE_HISTORY_SIZE_def Let_def drop_append)
qed

text \<open>
  C27. Replay protection: a message that was processed successfully is refused when it is presented
  again to the same session within a minute, after at most nine other operations, whatever they
  are, as long as no new session takes the identifier.
\<close>

theorem replay_refused:
  assumes "kex_process cr kx t0 t1 now i msg pk s = (Inr r, s1)"
    and "list_all (before_expiry i now) calls" "length calls \<le> 9"
    and "s2 = run_ops (kex_step cr kx) calls s1" "now' < now + secs 60"
  shows "\<not> is_ok (fst (kex_process cr kx t0' t1' now' i msg pk' s2))"
proof -
  let ?h = "sha256 cr (serialize_sm2_kex_message msg)"
  have "remembered i now ?h (0 + length calls) s2"
    unfolding assms(4) by (rule remembered_run) (use processed_remembered [OF assms(1)] assms(2,3) in auto)
  then have "list_ex (\<lambda>(_, hash). hash = ?h) (live_history now' (se_message_history e))"
    if "sm2_kex_sessions s2 i = Some e" for e
    using that live_history_keeps [OF assms(5)] by (auto simp: remembered_def)
  then show ?thesis
    by (auto simp: kex_process_def Let_def split: option.splits sum.splits prod.splits)
qed

section \<open>Concrete instances\<close>

definition demo_msg :: "u8 \<Rightarrow> bytes option \<Rightarrow> bytes option \<Rightarrow> sm2_kex_message" where
  "demo_msg ty sg conf = \<lparr>km_msg_type = ty, km_sender_id = replicate 16 1, km_r_pub = 1 # replicate 63 2,
     km_signature = sg, km_confirmation = conf\<rparr>"

text \<open>A protocol crate that accepts every message.\<close>

definition demo_kex :: "(bytes, unit, unit, unit) kex_crate" where
  "demo_kex = \<lparr>kx_new_initiator = (\<lambda>_ _ _. Inr ()), kx_new_responder = (\<lambda>_ _ _. Inr ()),
     kx_public_key = (\<lambda>_. Inr ()), kx_generate_msg1 = (\<lambda>_. Inr (demo_msg 1 None None)),
     kx_process_msg1 = (\<lambda>_ _ _. (Inr (demo_msg 2 (Some (replicate 64 3)) None), ())),
     kx_process_msg2 = (\<lambda>_ _ _. (Inr (demo_msg 3 None (Some (replicate 32 4))), ())),
     kx_process_msg3 = (\<lambda>_ _. (Inr (), ())), kx_get_result = (\<lambda>_. Some ()), kx_shared_secret = (\<lambda>_. [])\<rparr>"

definition demo_session :: "unit software_keystore" where
  "demo_session = insert_session 9 5 [] () True 0 ks_new"

theorem kex_message_roundtrip_witness:
  "deserialize_sm2_kex_message (serialize_sm2_kex_message (demo_msg 2 (Some (replicate 64 3)) None)) 2
    = Inr (demo_msg 2 (Some (replicate 64 3)) None)"
  by (rule kex_message_roundtrip) (simp_all add: demo_msg_def message_ok_def)

theorem kex_confirmation_lost_witness:
  "deserialize_sm2_kex_message (serialize_sm2_kex_message (demo_msg 3 None (Some (replicate 32 4)))) 0
    = Inr ((demo_msg 3 None (Some (replicate 32 4)))\<lparr>km_r_pub := replicate 64 0,
        km_confirmation := Some (1 # replicate 31 2)\<rparr>)"
  by (subst kex_confirmation_lost) (simp_all add: demo_msg_def message_ok_def take_Cons')

theorem removed_session_refused_witness:
  "\<not> is_ok (fst (kex_process demo_crypto demo_kex (secs 200) 0 0 9 (demo_msg 2 None None) []
     (run_ops (kex_step demo_crypto demo_kex) [KexCreate (\<lambda>_. 0) 9 0 5 [], KexRemove 0 (secs 20) 9]
        (snd (kex_remove 0 (secs 10) 9 demo_session)))))"
proof -
  have "kex_remove 0 (secs 10) 9 demo_session = (Inr (), snd (kex_remove 0 (secs 10) 9 demo_session))"
    by (simp add: kex_remove_def demo_session_def insert_session_def Let_def)
  moreover have "list_all (within (secs 10)) [KexCreate (\<lambda>_. 0) 9 0 5 [], KexRemove 0 (secs 20) 9]"
    and "secs 200 < secs 10 + secs 300"
    by (simp_all add: secs_def)
  ultimately show ?thesis
    using removed_session_refused [THEN conjunct1] by blast
qed

theorem replay_refused_witness:
  "let process = (\<lambda>now. kex_process demo_crypto demo_kex now now now 9 (demo_msg 2 (Some (replicate 64 3)) None) []);
       (r, s) = process 1 demo_session
   in is_ok r \<and> \<not> is_ok (fst (process (secs 59) (run_ops (kex_step demo_crypto demo_kex) [KexRemove 0 2 8] s)))"
proof -
  let ?process = "\<lambda>now. kex_process demo_crypto demo_kex now now now 9 (demo_msg 2 (Some (replicate 64 3)) None) []"
  have "\<exists>r s. ?process 1 demo_session = (Inr r, s)"
    by (simp add: kex_process_def demo_session_def insert_session_def is_session_revoked_def ks_new_def
        validate_r_pub_def demo_msg_def live_history_def demo_kex_def list_all_iff SM2_KEX_SESSION_TIMEOUT_SECS_def secs_def Let_def)
  then obtain r s where p: "?process 1 demo_session = (Inr r, s)" by blast
  have "\<not> is_ok (fst (?process (secs 59) (run_ops (kex_step demo_crypto demo_kex) [KexRemove 0 2 8] s)))"
    by (rule replay_refused [OF p _ _ refl]) (simp_all add: secs_def)
  with p show ?thesis by (simp add: Let_def)
qed

end
