(* ===== verification/Approval.thy ===== *)
theory Approval
  imports Prelude
begin

text \<open>
  The approval workflow, \<^verbatim>\<open>crates/kms-approval\<close>: operation types, levels and roles
  (\<^verbatim>\<open>workflow.rs\<close>, \<^verbatim>\<open>approver.rs\<close>), the errors (\<^verbatim>\<open>error.rs\<close>) and the engine with its
  requests and emergency ("break glass") requests (\<^verbatim>\<open>lib.rs\<close>). An operation that reads the
  clock several times takes the successive readings \<open>clk 0\<close>, \<open>clk 1\<close>, ...; fresh identifiers are
  arguments. The JSON metadata of a request are of a type parameter.
\<close>

section \<open>Levels, roles and operations\<close>

datatype approval_error =
    RequestNotFound
  | RequestAlreadyCompleted
  | RequestExpired
  | AlreadyVoted
  | InsufficientApprovalLevel
  | NotAuthorized
  | SelfApproval
  | InvalidConfig msg
  | OperationRequiresApproval msg
  | ThresholdNotReached
  | WorkflowError msg

datatype operation_type =
    KeyDelete | KeyExport | KeyRotate | PolicyChange | HighValueKeyCreate | AuditAccess | MfaChange | TenantAdmin

datatype approval_level = LNone | LSingle | LDouble | LTriple | LManager | LAdmin

text \<open>The discriminants of the enum, which its derived order compares.\<close>

fun level_num :: "approval_level \<Rightarrow> nat" where
  "level_num LNone = 0"
| "level_num LSingle = 1"
| "level_num LDouble = 2"
| "level_num LTriple = 3"
| "level_num LManager = 4"
| "level_num LAdmin = 5"

lemma level_num_inj: "level_num a = level_num b \<Longrightarrow> a = b"
  by (cases a; cases b) simp_all

instantiation approval_level :: linorder
begin

definition less_eq_approval_level :: "approval_level \<Rightarrow> approval_level \<Rightarrow> bool" where
  "a \<le> b \<longleftrightarrow> level_num a \<le> level_num b"

definition less_approval_level :: "approval_level \<Rightarrow> approval_level \<Rightarrow> bool" where
  "a < b \<longleftrightarrow> level_num a < level_num b"

instance
  by standard (auto simp: less_eq_approval_level_def less_approval_level_def intro: level_num_inj)

end

fun default_required_level :: "operation_type \<Rightarrow> approval_level" where
  "default_required_level KeyDelete = LDouble"
| "default_required_level KeyExport = LTriple"
| "default_required_level HighValueKeyCreate = LManager"
| "default_required_level KeyRotate = LDouble"
| "default_required_level PolicyChange = LDouble"
| "default_required_level AuditAccess = LSingle"
| "default_required_level MfaChange = LSingle"
| "default_required_level TenantAdmin = LAdmin"

definition is_sensitive :: "operation_type \<Rightarrow> bool" where
  "is_sensitive op \<longleftrightarrow> op \<in> {KeyDelete, KeyExport, TenantAdmin}"

datatype approval_status =
    Pending | Approved | Rejected | Cancelled | Expired | EmergencyActivated | EmergencyExpired

definition isTerminal :: "approval_status \<Rightarrow> bool" where
  "isTerminal st \<longleftrightarrow> st \<in> {Approved, Rejected, Cancelled, Expired}"

datatype role = RUser | ROperator | RManager | RAdmin | RSecurityOfficer

fun role_approval_level :: "role \<Rightarrow> approval_level" where
  "role_approval_level RUser = LSingle"
| "role_approval_level ROperator = LDouble"
| "role_approval_level RManager = LTriple"
| "role_approval_level RAdmin = LAdmin"
| "role_approval_level RSecurityOfficer = LManager"

definition can_approve_operation :: "role \<Rightarrow> operation_type \<Rightarrow> bool" where
  "can_approve_operation r op \<longleftrightarrow> role_approval_level r \<ge> default_required_level op"

record api_approval_request =
  rq_operation :: operation_type
  rq_resource_id :: string
  rq_resource_type :: string
  rq_justification :: "string option"
  rq_required_level :: "approval_level option"
  rq_requestor_id :: string

definition get_required_level :: "api_approval_request \<Rightarrow> approval_level" where
  "get_required_level r =
     (case rq_required_level r of Some l \<Rightarrow> l | None \<Rightarrow> default_required_level (rq_operation r))"

definition is_self_approval :: "api_approval_request \<Rightarrow> string \<Rightarrow> bool" where
  "is_self_approval r approver_id \<longleftrightarrow> rq_requestor_id r = approver_id"

section \<open>Approvers\<close>

record approver =
  av_id :: string
  av_name :: string
  av_email :: string
  av_role :: role
  av_tenant_id :: string
  av_active :: bool

definition approver_new :: "string \<Rightarrow> string \<Rightarrow> string \<Rightarrow> role \<Rightarrow> string \<Rightarrow> approver" where
  "approver_new i name email r tenant_id =
     \<lparr>av_id = i, av_name = name, av_email = email, av_role = r, av_tenant_id = tenant_id, av_active = True\<rparr>"

record approver_config =
  ac_approvers :: "string \<rightharpoonup> approver"
  ac_tenant_approvers :: "string \<rightharpoonup> string list"

definition approver_config_new :: approver_config where
  "approver_config_new = \<lparr>ac_approvers = Map.empty, ac_tenant_approvers = Map.empty\<rparr>"

definition add_approver :: "approver \<Rightarrow> approver_config \<Rightarrow> approver_config" where
  "add_approver a c =
     c\<lparr>ac_approvers := (ac_approvers c)(av_id a \<mapsto> a),
       ac_tenant_approvers := (ac_tenant_approvers c)(av_tenant_id a \<mapsto>
         (case ac_tenant_approvers c (av_tenant_id a) of Some ids \<Rightarrow> ids | None \<Rightarrow> []) @ [av_id a])\<rparr>"

definition get_approver :: "approver_config \<Rightarrow> string \<Rightarrow> approver option" where
  "get_approver c i = ac_approvers c i"

definition list_for_tenant :: "approver_config \<Rightarrow> string \<Rightarrow> approver list" where
  "list_for_tenant c tenant_id =
     (case ac_tenant_approvers c tenant_id of
        Some ids \<Rightarrow> List.map_filter (ac_approvers c) ids | None \<Rightarrow> [])"

definition can_approve :: "approver_config \<Rightarrow> string \<Rightarrow> operation_type \<Rightarrow> bool" where
  "can_approve c approver_id op =
     (case ac_approvers c approver_id of
        Some a \<Rightarrow> av_active a \<and> can_approve_operation (av_role a) op | None \<Rightarrow> False)"

section \<open>Requests and the engine\<close>

record approval_record =
  ar_approver_id :: string
  ar_level :: approval_level
  ar_approved_at :: time
  ar_comment :: "string option"

record rejection_record =
  rj_rejector_id :: string
  rj_level :: approval_level
  rj_rejected_at :: time
  rj_reason :: string

record 'j approval_request =
  aq_id :: uuid
  aq_operation :: operation_type
  aq_resource_id :: string
  aq_resource_type :: string
  aq_tenant_id :: string
  aq_requestor_id :: string
  aq_justification :: "string option"
  aq_status :: approval_status
  aq_required_level :: approval_level
  aq_current_level :: approval_level
  aq_approvals :: "approval_record list"
  aq_rejections :: "rejection_record list"
  aq_created_at :: time
  aq_expires_at :: time
  aq_completed_at :: "time option"
  aq_metadata :: 'j

datatype break_glass_status = PendingDualApproval | BgActivated | BgExpired | BgCancelled

record break_glass_request =
  bg_id :: uuid
  bg_operation :: operation_type
  bg_resource_id :: string
  bg_resource_type :: string
  bg_tenant_id :: string
  bg_requestor_id :: string
  bg_emergency_reason :: string
  bg_first_approver_id :: string
  bg_second_approver_id :: string
  bg_duration_minutes :: u32
  bg_status :: break_glass_status
  bg_created_at :: time
  bg_expires_at :: time

record approval_engine_config =
  default_timeout_hours :: u32
  auto_escalation :: bool
  escalation_delay_hours :: u32

record 'j approval_engine =
  ae_config :: approval_engine_config
  ae_pending_requests :: "uuid \<rightharpoonup> 'j approval_request"
  ae_break_glass_requests :: "uuid \<rightharpoonup> break_glass_request"

definition engine_config_default :: approval_engine_config where
  "engine_config_default = \<lparr>default_timeout_hours = 24, auto_escalation = True, escalation_delay_hours = 4\<rparr>"

definition engine_new :: "'j approval_engine" where
  "engine_new = \<lparr>ae_config = engine_config_default, ae_pending_requests = Map.empty,
     ae_break_glass_requests = Map.empty\<rparr>"

definition hours :: "int \<Rightarrow> time" where
  "hours n = secs (n * 3600)"

definition minutes :: "int \<Rightarrow> time" where
  "minutes n = secs (n * 60)"

fun timeout_hours :: "approval_level \<Rightarrow> int" where
  "timeout_hours LNone = 0"
| "timeout_hours LSingle = 12"
| "timeout_hours LDouble = 24"
| "timeout_hours LTriple = 48"
| "timeout_hours LManager = 8"
| "timeout_hours LAdmin = 4"

definition put_request :: "'j approval_request \<Rightarrow> 'j approval_engine \<Rightarrow> 'j approval_engine" where
  "put_request r e = e\<lparr>ae_pending_requests := (ae_pending_requests e)(aq_id r \<mapsto> r)\<rparr>"

definition create_request ::
  "'j \<Rightarrow> uuid \<Rightarrow> time \<Rightarrow> operation_type \<Rightarrow> string \<Rightarrow> string \<Rightarrow> string \<Rightarrow> string \<Rightarrow> string option \<Rightarrow> approval_level
    \<Rightarrow> 'j approval_engine \<Rightarrow> (approval_error + 'j approval_request) \<times> 'j approval_engine" where
  "create_request empty_object new_id now operation resource_id resource_type tenant_id requestor_id
       justification required_level e =
     (let request = \<lparr>aq_id = new_id, aq_operation = operation, aq_resource_id = resource_id,
            aq_resource_type = resource_type, aq_tenant_id = tenant_id, aq_requestor_id = requestor_id,
            aq_justification = justification, aq_status = Pending, aq_required_level = required_level,
            aq_current_level = LNone, aq_approvals = [], aq_rejections = [], aq_created_at = now,
            aq_expires_at = now + hours (timeout_hours required_level), aq_completed_at = None,
            aq_metadata = empty_object\<rparr>
      in (Inr request, put_request request e))"

definition restore_request ::
  "'j approval_request \<Rightarrow> 'j approval_engine \<Rightarrow> (approval_error + unit) \<times> 'j approval_engine" where
  "restore_request r e =
     (if ae_pending_requests e (aq_id r) \<noteq> None then
        (Inl (WorkflowError (Fmt [Lit ''approval request '', Id (aq_id r), Lit '' is already present''])), e)
      else (Inr (), put_request r e))"

definition determine_approval_level :: "role \<Rightarrow> approval_level" where
  "determine_approval_level r =
     (case r of RUser \<Rightarrow> LSingle | ROperator \<Rightarrow> LDouble | RManager \<Rightarrow> LTriple | RAdmin \<Rightarrow> LAdmin
      | RSecurityOfficer \<Rightarrow> LManager)"

definition check_approval_complete :: "'j approval_request \<Rightarrow> bool" where
  "check_approval_complete r =
     (case aq_required_level r of
        LNone \<Rightarrow> True
      | LSingle \<Rightarrow> aq_approvals r \<noteq> []
      | LDouble \<Rightarrow> length (aq_approvals r) \<ge> 2
      | LTriple \<Rightarrow> length (aq_approvals r) \<ge> 3
      | LManager \<Rightarrow> list_ex (\<lambda>a. ar_level a = LManager) (aq_approvals r)
      | LAdmin \<Rightarrow> list_ex (\<lambda>a. ar_level a = LAdmin) (aq_approvals r))"

definition already_voted :: "string \<Rightarrow> 'j approval_request \<Rightarrow> bool" where
  "already_voted who r \<longleftrightarrow>
     list_ex (\<lambda>a. ar_approver_id a = who) (aq_approvals r) \<or> list_ex (\<lambda>a. rj_rejector_id a = who) (aq_rejections r)"

text \<open>Recording a vote, which completes the request when the required level is reached.\<close>

definition record_approval ::
  "(nat \<Rightarrow> time) \<Rightarrow> string \<Rightarrow> approval_level \<Rightarrow> string option \<Rightarrow> 'j approval_request \<Rightarrow> 'j approval_request" where
  "record_approval clk approver_id level comment r =
     (let r1 = r\<lparr>aq_approvals := aq_approvals r @ [\<lparr>ar_approver_id = approver_id, ar_level = level,
                     ar_approved_at = clk 1, ar_comment = comment\<rparr>],
                 aq_current_level := max (aq_current_level r) level\<rparr>
      in if check_approval_complete r1
         then r1\<lparr>aq_status := Approved, aq_completed_at := Some (clk 2)\<rparr> else r1)"

text \<open>
  A request found in the map is updated in place: the result of the operation, and the request it
  leaves behind.
\<close>

definition approve_entity ::
  "(nat \<Rightarrow> time) \<Rightarrow> string \<Rightarrow> approval_level \<Rightarrow> string option \<Rightarrow> 'j approval_request
    \<Rightarrow> (approval_error + 'j approval_request) \<times> 'j approval_request" where
  "approve_entity clk approver_id level comment r =
     (if aq_requestor_id r = approver_id then (Inl SelfApproval, r)
      else if level < aq_required_level r then (Inl InsufficientApprovalLevel, r)
      else if isTerminal (aq_status r) then (Inl RequestAlreadyCompleted, r)
      else if clk 0 > aq_expires_at r then
        (Inl RequestExpired, r\<lparr>aq_status := Expired, aq_completed_at := Some (clk 1)\<rparr>)
      else if already_voted approver_id r then (Inl AlreadyVoted, r)
      else let r' = record_approval clk approver_id level comment r in (Inr r', r'))"

definition reject_entity ::
  "(nat \<Rightarrow> time) \<Rightarrow> string \<Rightarrow> approval_level \<Rightarrow> string \<Rightarrow> 'j approval_request
    \<Rightarrow> (approval_error + 'j approval_request) \<times> 'j approval_request" where
  "reject_entity clk rejector_id level reason r =
     (if aq_requestor_id r = rejector_id then (Inl SelfApproval, r)
      else if isTerminal (aq_status r) then (Inl RequestAlreadyCompleted, r)
      else if clk 0 > aq_expires_at r then
        (Inl RequestExpired, r\<lparr>aq_status := Expired, aq_completed_at := Some (clk 1)\<rparr>)
      else if already_voted rejector_id r then (Inl AlreadyVoted, r)
      else
        let r1 = r\<lparr>aq_rejections := aq_rejections r @ [\<lparr>rj_rejector_id = rejector_id, rj_level = level,
                     rj_rejected_at = clk 1, rj_reason = reason\<rparr>],
                   aq_status := Rejected, aq_completed_at := Some (clk 2)\<rparr>
        in (Inr r1, r1))"

definition cancel_entity ::
  "(nat \<Rightarrow> time) \<Rightarrow> string \<Rightarrow> 'j approval_request \<Rightarrow> (approval_error + 'j approval_request) \<times> 'j approval_request" where
  "cancel_entity clk requestor_id r =
     (if aq_requestor_id r \<noteq> requestor_id then (Inl NotAuthorized, r)
      else if isTerminal (aq_status r) then (Inl RequestAlreadyCompleted, r)
      else let r1 = r\<lparr>aq_status := Cancelled, aq_completed_at := Some (clk 0)\<rparr> in (Inr r1, r1))"

definition on_request ::
  "('j approval_request \<Rightarrow> (approval_error + 'a) \<times> 'j approval_request) \<Rightarrow> uuid \<Rightarrow> 'j approval_engine
    \<Rightarrow> (approval_error + 'a) \<times> 'j approval_engine" where
  "on_request f request_id e =
     (case ae_pending_requests e request_id of
        None \<Rightarrow> (Inl RequestNotFound, e)
      | Some r \<Rightarrow>
          let (res, r') = f r
          in (res, e\<lparr>ae_pending_requests := (ae_pending_requests e)(request_id \<mapsto> r')\<rparr>))"

definition approve ::
  "(nat \<Rightarrow> time) \<Rightarrow> uuid \<Rightarrow> string \<Rightarrow> role \<Rightarrow> string option \<Rightarrow> 'j approval_engine
    \<Rightarrow> (approval_error + 'j approval_request) \<times> 'j approval_engine" where
  "approve clk request_id approver_id approver_role comment e =
     on_request (approve_entity clk approver_id (determine_approval_level approver_role) comment) request_id e"

definition reject ::
  "(nat \<Rightarrow> time) \<Rightarrow> uuid \<Rightarrow> string \<Rightarrow> role \<Rightarrow> string \<Rightarrow> 'j approval_engine
    \<Rightarrow> (approval_error + 'j approval_request) \<times> 'j approval_engine" where
  "reject clk request_id rejector_id rejector_role reason e =
     on_request (reject_entity clk rejector_id (determine_approval_level rejector_role) reason) request_id e"

definition cancel ::
  "(nat \<Rightarrow> time) \<Rightarrow> uuid \<Rightarrow> string \<Rightarrow> 'j approval_engine
    \<Rightarrow> (approval_error + 'j approval_request) \<times> 'j approval_engine" where
  "cancel clk request_id requestor_id e = on_request (cancel_entity clk requestor_id) request_id e"

definition get_request :: "'j approval_engine \<Rightarrow> uuid \<Rightarrow> approval_error + 'j approval_request" where
  "get_request e request_id = ok_or RequestNotFound (ae_pending_requests e request_id)"

definition is_approved :: "time \<Rightarrow> 'j approval_engine \<Rightarrow> uuid \<Rightarrow> operation_type \<Rightarrow> string \<Rightarrow> bool" where
  "is_approved now e request_id operation resource_id =
     (case get_request e request_id of
        Inr req \<Rightarrow> aq_operation req = operation \<and> aq_resource_id req = resource_id
          \<and> aq_status req = Approved \<and> now \<le> aq_expires_at req \<and> check_approval_complete req
      | Inl _ \<Rightarrow> False)"

text \<open>\<open>order\<close> is the order in which the hash map yields its keys.\<close>

definition list_pending :: "uuid list \<Rightarrow> 'j approval_engine \<Rightarrow> string \<Rightarrow> 'j approval_request list" where
  "list_pending order e tenant_id =
     filter (\<lambda>r. aq_tenant_id r = tenant_id \<and> aq_status r = Pending) (List.map_filter (ae_pending_requests e) order)"

definition list_all_requests :: "uuid list \<Rightarrow> 'j approval_engine \<Rightarrow> string \<Rightarrow> 'j approval_request list" where
  "list_all_requests order e tenant_id =
     filter (\<lambda>r. aq_tenant_id r = tenant_id) (List.map_filter (ae_pending_requests e) order)"

text \<open>The sweep over the requests: every expired pending request becomes expired; the result counts them.\<close>

definition expire_request :: "time \<Rightarrow> 'j approval_request \<Rightarrow> 'j approval_request" where
  "expire_request now r =
     (if aq_status r = Pending \<and> now > aq_expires_at r
      then r\<lparr>aq_status := Expired, aq_completed_at := Some now\<rparr> else r)"

definition cleanup_expired :: "time \<Rightarrow> uuid list \<Rightarrow> 'j approval_engine \<Rightarrow> nat \<times> 'j approval_engine" where
  "cleanup_expired now order e =
     (length (filter (\<lambda>r. aq_status r = Pending \<and> now > aq_expires_at r)
                (List.map_filter (ae_pending_requests e) order)),
      e\<lparr>ae_pending_requests := (\<lambda>i. map_option (expire_request now) (ae_pending_requests e i))\<rparr>)"

section \<open>Break glass\<close>

definition MAX_BREAK_GLASS_DURATION_MINS :: u32 where
  "MAX_BREAK_GLASS_DURATION_MINS = 60"

definition create_break_glass_request ::
  "uuid \<Rightarrow> time \<Rightarrow> operation_type \<Rightarrow> string \<Rightarrow> string \<Rightarrow> string \<Rightarrow> string \<Rightarrow> string \<Rightarrow> string \<Rightarrow> string \<Rightarrow> u32
    \<Rightarrow> 'j approval_engine \<Rightarrow> (approval_error + break_glass_request) \<times> 'j approval_engine" where
  "create_break_glass_request new_id now operation resource_id resource_type tenant_id requestor_id
       emergency_reason first_approver_id second_approver_id duration_minutes e =
     (if first_approver_id = second_approver_id then
        (Inl (InvalidConfig (Lit ''Dual custody requires two different approvers'')), e)
      else
        let duration = min duration_minutes MAX_BREAK_GLASS_DURATION_MINS;
            request = \<lparr>bg_id = new_id, bg_operation = operation, bg_resource_id = resource_id,
              bg_resource_type = resource_type, bg_tenant_id = tenant_id, bg_requestor_id = requestor_id,
              bg_emergency_reason = emergency_reason, bg_first_approver_id = first_approver_id,
              bg_second_approver_id = second_approver_id, bg_duration_minutes = duration,
              bg_status = PendingDualApproval, bg_created_at = now,
              bg_expires_at = now + minutes (int (unat duration))\<rparr>
        in (Inr request, e\<lparr>ae_break_glass_requests := (ae_break_glass_requests e)(new_id \<mapsto> request)\<rparr>))"

definition on_break_glass ::
  "(break_glass_request \<Rightarrow> (approval_error + 'a) \<times> break_glass_request) \<Rightarrow> uuid \<Rightarrow> 'j approval_engine
    \<Rightarrow> (approval_error + 'a) \<times> 'j approval_engine" where
  "on_break_glass f request_id e =
     (case ae_break_glass_requests e request_id of
        None \<Rightarrow> (Inl RequestNotFound, e)
      | Some r \<Rightarrow>
          let (res, r') = f r
          in (res, e\<lparr>ae_break_glass_requests := (ae_break_glass_requests e)(request_id \<mapsto> r')\<rparr>))"

definition confirm_break_glass_first ::
  "time \<Rightarrow> uuid \<Rightarrow> string \<Rightarrow> 'j approval_engine \<Rightarrow> (approval_error + break_glass_request) \<times> 'j approval_engine" where
  "confirm_break_glass_first now request_id approver_id e =
     on_break_glass (\<lambda>r.
       if bg_status r \<noteq> PendingDualApproval then (Inl RequestAlreadyCompleted, r)
       else if bg_first_approver_id r \<noteq> approver_id then (Inl NotAuthorized, r)
       else if now > bg_expires_at r then (Inl RequestExpired, r\<lparr>bg_status := BgExpired\<rparr>)
       else (Inr r, r)) request_id e"

definition confirm_break_glass_second ::
  "time \<Rightarrow> uuid \<Rightarrow> string \<Rightarrow> 'j approval_engine \<Rightarrow> (approval_error + break_glass_request) \<times> 'j approval_engine" where
  "confirm_break_glass_second now request_id approver_id e =
     on_break_glass (\<lambda>r.
       if bg_status r \<noteq> PendingDualApproval then (Inl RequestAlreadyCompleted, r)
       else if bg_second_approver_id r \<noteq> approver_id then (Inl NotAuthorized, r)
       else if now > bg_expires_at r then (Inl RequestExpired, r\<lparr>bg_status := BgExpired\<rparr>)
       else let r' = r\<lparr>bg_status := BgActivated\<rparr> in (Inr r', r')) request_id e"

definition cancel_break_glass ::
  "uuid \<Rightarrow> string \<Rightarrow> 'j approval_engine \<Rightarrow> (approval_error + break_glass_request) \<times> 'j approval_engine" where
  "cancel_break_glass request_id requestor_id e =
     on_break_glass (\<lambda>r.
       if bg_requestor_id r \<noteq> requestor_id then (Inl NotAuthorized, r)
       else if bg_status r = BgActivated \<or> bg_status r = BgExpired then (Inl RequestAlreadyCompleted, r)
       else let r' = r\<lparr>bg_status := BgCancelled\<rparr> in (Inr r', r')) request_id e"

definition expire_break_glass :: "time \<Rightarrow> break_glass_request \<Rightarrow> break_glass_request" where
  "expire_break_glass now r =
     (if bg_status r = BgActivated \<and> now > bg_expires_at r then r\<lparr>bg_status := BgExpired\<rparr> else r)"

definition cleanup_expired_break_glass :: "time \<Rightarrow> uuid list \<Rightarrow> 'j approval_engine \<Rightarrow> nat \<times> 'j approval_engine" where
  "cleanup_expired_break_glass now order e =
     (length (filter (\<lambda>r. bg_status r = BgActivated \<and> now > bg_expires_at r)
                (List.map_filter (ae_break_glass_requests e) order)),
      e\<lparr>ae_break_glass_requests := (\<lambda>i. map_option (expire_break_glass now) (ae_break_glass_requests e i))\<rparr>)"

definition get_break_glass :: "'j approval_engine \<Rightarrow> uuid \<Rightarrow> approval_error + break_glass_request" where
  "get_break_glass e request_id = ok_or RequestNotFound (ae_break_glass_requests e request_id)"

definition is_break_glass_active :: "time \<Rightarrow> uuid list \<Rightarrow> 'j approval_engine \<Rightarrow> string \<Rightarrow> bool" where
  "is_break_glass_active now order e resource_id =
     list_ex (\<lambda>r. bg_resource_id r = resource_id \<and> bg_status r = BgActivated \<and> now \<le> bg_expires_at r)
       (List.map_filter (ae_break_glass_requests e) order)"

definition list_active_break_glass :: "time \<Rightarrow> uuid list \<Rightarrow> 'j approval_engine \<Rightarrow> string \<Rightarrow> break_glass_request list" where
  "list_active_break_glass now order e tenant_id =
     filter (\<lambda>r. bg_status r = BgActivated \<and> now \<le> bg_expires_at r)
       (List.map_filter (ae_break_glass_requests e) order)"

section \<open>Runs\<close>

datatype 'j ap_call =
    CreateRequest 'j uuid time operation_type string string string string "string option" approval_level
  | Approve "nat \<Rightarrow> time" uuid string role "string option"
  | Reject "nat \<Rightarrow> time" uuid string role string
  | Cancel "nat \<Rightarrow> time" uuid string
  | CleanupExpired time "uuid list"
  | CreateBreakGlass uuid time operation_type string string string string string string string u32
  | ConfirmFirst time uuid string
  | ConfirmSecond time uuid string
  | CancelBreakGlass uuid string
  | CleanupExpiredBreakGlass time "uuid list"

fun ap_step :: "'j ap_call \<Rightarrow> 'j approval_engine \<Rightarrow> 'j approval_engine" where
  "ap_step (CreateRequest j i now op res ty ten who just lvl) e = snd (create_request j i now op res ty ten who just lvl e)"
| "ap_step (Approve clk i who r c) e = snd (approve clk i who r c e)"
| "ap_step (Reject clk i who r reason) e = snd (reject clk i who r reason e)"
| "ap_step (Cancel clk i who) e = snd (cancel clk i who e)"
| "ap_step (CleanupExpired now order) e = snd (cleanup_expired now order e)"
| "ap_step (CreateBreakGlass i now op res ty ten who reason a b d) e =
     snd (create_break_glass_request i now op res ty ten who reason a b d e)"
| "ap_step (ConfirmFirst now i who) e = snd (confirm_break_glass_first now i who e)"
| "ap_step (ConfirmSecond now i who) e = snd (confirm_break_glass_second now i who e)"
| "ap_step (CancelBreakGlass i who) e = snd (cancel_break_glass i who e)"
| "ap_step (CleanupExpiredBreakGlass now order) e = snd (cleanup_expired_break_glass now order e)"

text \<open>How a call changes a stored request, and that break glass calls never touch requests.\<close>

fun request_effect :: "'j ap_call \<Rightarrow> uuid \<Rightarrow> 'j approval_request \<Rightarrow> 'j approval_request" where
  "request_effect (Approve clk i who r c) k q =
     (if i = k then snd (approve_entity clk who (determine_approval_level r) c q) else q)"
| "request_effect (Reject clk i who r reason) k q =
     (if i = k then snd (reject_entity clk who (determine_approval_level r) reason q) else q)"
| "request_effect (Cancel clk i who) k q = (if i = k then snd (cancel_entity clk who q) else q)"
| "request_effect (CleanupExpired now order) k q = expire_request now q"
| "request_effect c k q = q"

fun creates :: "uuid \<Rightarrow> 'j ap_call \<Rightarrow> bool" where
  "creates k (CreateRequest j i now op res ty ten who just lvl) \<longleftrightarrow> i = k"
| "creates k c \<longleftrightarrow> False"

lemma requests_on_request:
  "ae_pending_requests (snd (on_request f i e)) =
     (ae_pending_requests e)(i := map_option (\<lambda>r. snd (f r)) (ae_pending_requests e i))"
  by (auto simp: on_request_def Let_def fun_eq_iff split: option.splits prod.splits)

lemma requests_on_break_glass [simp]:
  "ae_pending_requests (snd (on_break_glass f i e)) = ae_pending_requests e"
  by (auto simp: on_break_glass_def Let_def split: option.splits prod.splits)

lemma break_glass_on_request [simp]:
  "ae_break_glass_requests (snd (on_request f i e)) = ae_break_glass_requests e"
  by (auto simp: on_request_def Let_def split: option.splits prod.splits)

lemma break_glass_on_break_glass:
  "ae_break_glass_requests (snd (on_break_glass f i e)) =
     (ae_break_glass_requests e)(i := map_option (\<lambda>r. snd (f r)) (ae_break_glass_requests e i))"
  by (auto simp: on_break_glass_def Let_def fun_eq_iff split: option.splits prod.splits)

lemma requests_step:
  "\<not> creates k c \<Longrightarrow> ae_pending_requests (ap_step c e) k = map_option (request_effect c k) (ae_pending_requests e k)"
  by (cases c; cases "ae_pending_requests e k")
    (simp_all add: approve_def reject_def cancel_def requests_on_request create_request_def put_request_def
      cleanup_expired_def create_break_glass_request_def confirm_break_glass_first_def
      confirm_break_glass_second_def cancel_break_glass_def cleanup_expired_break_glass_def Let_def, auto)

section \<open>The quorum\<close>

text \<open>
  How many votes a level asks for, and what every stored request satisfies: the voters are distinct,
  none is the requestor, all have the authority the request requires, and an approved request has
  its votes and no rejection.
\<close>

fun quorum :: "approval_level \<Rightarrow> nat" where
  "quorum LDouble = 2"
| "quorum LTriple = 3"
| "quorum _ = 1"

definition votes_ok :: "'j approval_request \<Rightarrow> bool" where
  "votes_ok r \<longleftrightarrow> distinct (map ar_approver_id (aq_approvals r))
     \<and> aq_requestor_id r \<notin> ar_approver_id ` set (aq_approvals r)
     \<and> list_all (\<lambda>a. aq_required_level r \<le> ar_level a) (aq_approvals r)"

definition request_inv :: "uuid \<Rightarrow> 'j approval_request \<Rightarrow> bool" where
  "request_inv k r \<longleftrightarrow> aq_id r = k \<and> votes_ok r
     \<and> (aq_rejections r \<noteq> [] \<longrightarrow> aq_status r = Rejected)
     \<and> (aq_status r = Approved \<longrightarrow> quorum (aq_required_level r) \<le> length (aq_approvals r))"

lemma complete_quorum:
  "check_approval_complete r \<Longrightarrow> aq_approvals r \<noteq> [] \<Longrightarrow> quorum (aq_required_level r) \<le> length (aq_approvals r)"
  by (cases "aq_required_level r") (auto simp: check_approval_complete_def Suc_le_eq)

lemma record_approval_inv:
  assumes "request_inv k r" "aq_requestor_id r \<noteq> who" "aq_required_level r \<le> l"
    and "\<not> isTerminal (aq_status r)" "\<not> already_voted who r"
  shows "request_inv k (record_approval clk who l c r)"
proof -
  define r1 where "r1 = r\<lparr>aq_approvals := aq_approvals r @ [\<lparr>ar_approver_id = who, ar_level = l,
    ar_approved_at = clk 1, ar_comment = c\<rparr>], aq_current_level := max (aq_current_level r) l\<rparr>"
  have votes: "votes_ok r1"
    using assms by (auto simp: r1_def request_inv_def votes_ok_def already_voted_def list_ex_iff)
  have "check_approval_complete r1 \<Longrightarrow> quorum (aq_required_level r) \<le> Suc (length (aq_approvals r))"
    using complete_quorum [of r1] by (simp add: r1_def)
  moreover have "record_approval clk who l c r = (if check_approval_complete r1
      then r1\<lparr>aq_status := Approved, aq_completed_at := Some (clk 2)\<rparr> else r1)"
    by (simp add: record_approval_def r1_def Let_def)
  ultimately show ?thesis
    using votes assms(1,4) by (auto simp: r1_def request_inv_def votes_ok_def isTerminal_def)
qed

lemma expired_inv:
  "request_inv k r \<Longrightarrow> \<not> isTerminal (aq_status r) \<Longrightarrow> request_inv k (r\<lparr>aq_status := Expired, aq_completed_at := x\<rparr>)"
  "request_inv k r \<Longrightarrow> \<not> isTerminal (aq_status r) \<Longrightarrow> request_inv k (r\<lparr>aq_status := Cancelled, aq_completed_at := x\<rparr>)"
  by (auto simp: request_inv_def votes_ok_def isTerminal_def)

lemma request_effect_inv: "request_inv k r \<Longrightarrow> request_inv k (request_effect c k r)"
  by (cases c)
    (auto simp: approve_entity_def reject_entity_def cancel_entity_def expire_request_def Let_def
      record_approval_inv expired_inv isTerminal_def, auto simp: request_inv_def votes_ok_def)

definition engine_inv :: "'j approval_engine \<Rightarrow> bool" where
  "engine_inv e \<longleftrightarrow> (\<forall>k r. ae_pending_requests e k = Some r \<longrightarrow> request_inv k r)"

lemma created_request:
  "ae_pending_requests (ap_step (CreateRequest j i now op res ty ten who just lvl) e) i = Some q
    \<Longrightarrow> request_inv i q"
  by (auto simp: create_request_def put_request_def request_inv_def votes_ok_def Let_def)

lemma engine_inv_step: "engine_inv e \<Longrightarrow> engine_inv (ap_step c e)"
proof (unfold engine_inv_def, intro allI impI)
  fix k q
  assume inv: "\<forall>k r. ae_pending_requests e k = Some r \<longrightarrow> request_inv k r"
    and q: "ae_pending_requests (ap_step c e) k = Some q"
  show "request_inv k q"
  proof (cases "creates k c")
    case True
    with q created_request show ?thesis by (cases c) auto
  next
    case False
    with q inv show ?thesis by (auto simp: requests_step request_effect_inv)
  qed
qed

interpretation engine_invariant: stateful ap_step "\<lambda>_. True" engine_inv
  by unfold_locales (rule engine_inv_step)

lemma approved_quorum:
  assumes "engine_inv e" "is_approved now e i op res"
  shows "\<exists>r. ae_pending_requests e i = Some r \<and> aq_operation r = op \<and> aq_resource_id r = res \<and> now \<le> aq_expires_at r
    \<and> quorum (aq_required_level r) \<le> card (ar_approver_id ` set (aq_approvals r))
    \<and> aq_requestor_id r \<notin> ar_approver_id ` set (aq_approvals r)
    \<and> (\<forall>a \<in> set (aq_approvals r). aq_required_level r \<le> ar_level a) \<and> aq_rejections r = []"
proof -
  obtain r where r: "ae_pending_requests e i = Some r" "aq_operation r = op" "aq_resource_id r = res"
    "aq_status r = Approved" "now \<le> aq_expires_at r"
    using assms(2) by (cases "ae_pending_requests e i") (auto simp: is_approved_def get_request_def)
  with assms(1) have inv: "request_inv i r"
    by (simp add: engine_inv_def)
  then have "card (ar_approver_id ` set (aq_approvals r)) = length (aq_approvals r)"
    using distinct_card [of "map ar_approver_id (aq_approvals r)"] by (simp add: request_inv_def votes_ok_def)
  with r inv show ?thesis
    by (auto simp: request_inv_def votes_ok_def list_all_iff)
qed

text \<open>
  C13. The gate of the sensitive operations: whenever \<open>is_approved\<close> lets an operation through on an
  engine that started empty, there is a request for exactly this operation and resource, unexpired,
  with at least as many votes as its level demands, cast by distinct people other than the requestor,
  each with the authority the level requires, and nobody has rejected it.
\<close>

theorem approved_means_quorum:
  assumes "e = run_ops ap_step calls engine_new" "is_approved now e i op res"
  shows "\<exists>r. get_request e i = Inr r \<and> aq_operation r = op \<and> aq_resource_id r = res \<and> now \<le> aq_expires_at r
    \<and> quorum (aq_required_level r) \<le> card (ar_approver_id ` set (aq_approvals r))
    \<and> aq_requestor_id r \<notin> ar_approver_id ` set (aq_approvals r)
    \<and> (\<forall>a \<in> set (aq_approvals r). aq_required_level r \<le> ar_level a) \<and> aq_rejections r = []"
proof -
  have "engine_inv e"
    unfolding assms(1)
    by (rule engine_invariant.run_inv) (simp_all add: list.pred_True engine_inv_def engine_new_def)
  from approved_quorum [OF this assms(2)] show ?thesis
    by (auto simp: get_request_def)
qed

section \<open>Terminal requests\<close>

definition terminal :: "uuid \<Rightarrow> 'j approval_engine \<Rightarrow> bool" where
  "terminal k e \<longleftrightarrow> (case ae_pending_requests e k of Some r \<Rightarrow> isTerminal (aq_status r) | None \<Rightarrow> False)"

lemma request_effect_terminal: "isTerminal (aq_status r) \<Longrightarrow> request_effect c k r = r"
  by (cases c) (auto simp: approve_entity_def reject_entity_def cancel_entity_def expire_request_def isTerminal_def)

interpretation completed: absorbing ap_step "\<lambda>c. \<not> creates k c" "\<lambda>_. True" "terminal k"
  "\<lambda>e. ae_pending_requests e k" for k
  by unfold_locales
    (auto simp: terminal_def requests_step request_effect_terminal split: option.splits)

text \<open>
  Completed requests never change: an approved, rejected, cancelled or expired request keeps its
  status, votes and time stamps through any further operations, and voting on it or cancelling it is
  an error.
\<close>

theorem completed_request_final:
  assumes "ae_pending_requests e k = Some r" "isTerminal (aq_status r)"
    and "list_all (\<lambda>c. \<not> creates k c) calls" "e' = run_ops ap_step calls e"
  shows "ae_pending_requests e' k = Some r \<and> \<not> is_ok (fst (approve clk k who ro com e'))
    \<and> \<not> is_ok (fst (reject clk k who ro reason e')) \<and> \<not> is_ok (fst (cancel clk k who e'))"
proof -
  have "ae_pending_requests e' k = Some r"
    using completed.run_obs [of k calls e] assms by (simp add: terminal_def)
  with assms(2) show ?thesis
    by (simp add: approve_def reject_def cancel_def on_request_def approve_entity_def reject_entity_def
        cancel_entity_def Let_def)
qed

section \<open>Reaching a decision\<close>

text \<open>The vote of one person at one moment.\<close>

fun vote :: "uuid \<Rightarrow> string \<times> role \<times> (nat \<Rightarrow> time) \<Rightarrow> 'j approval_engine \<Rightarrow> 'j approval_engine" where
  "vote k (who, ro, clk) e = snd (approve clk k who ro None e)"

text \<open>A vote the request accepts: from somebody else, with the authority, in time.\<close>

fun eligible :: "'j approval_request \<Rightarrow> string \<times> role \<times> (nat \<Rightarrow> time) \<Rightarrow> bool" where
  "eligible r (who, ro, clk) \<longleftrightarrow> who \<noteq> aq_requestor_id r \<and> aq_required_level r \<le> determine_approval_level ro
     \<and> clk 0 \<le> aq_expires_at r"

lemma vote_accepted:
  assumes "ae_pending_requests e k = Some r" "\<not> isTerminal (aq_status r)" "eligible r (who, ro, clk)"
    and "\<not> already_voted who r"
  shows "ae_pending_requests (vote k (who, ro, clk) e) k =
    Some (record_approval clk who (determine_approval_level ro) None r)"
  using assms by (auto simp: approve_def on_request_def approve_entity_def Let_def)

lemma record_approval_simps:
  "aq_requestor_id (record_approval clk who l c r) = aq_requestor_id r"
  "aq_required_level (record_approval clk who l c r) = aq_required_level r"
  "aq_expires_at (record_approval clk who l c r) = aq_expires_at r"
  "aq_operation (record_approval clk who l c r) = aq_operation r"
  "aq_resource_id (record_approval clk who l c r) = aq_resource_id r"
  "aq_rejections (record_approval clk who l c r) = aq_rejections r"
  "map ar_approver_id (aq_approvals (record_approval clk who l c r)) = map ar_approver_id (aq_approvals r) @ [who]"
  "length (aq_approvals (record_approval clk who l c r)) = Suc (length (aq_approvals r))"
  by (simp_all add: record_approval_def Let_def)

lemma already_voted_iff:
  "already_voted who r \<longleftrightarrow> who \<in> set (map ar_approver_id (aq_approvals r))
     \<or> who \<in> set (map rj_rejector_id (aq_rejections r))"
  by (auto simp: already_voted_def list_ex_iff)

text \<open>For the levels that count votes, the request stays open until the last vote.\<close>

definition counting :: "approval_level \<Rightarrow> bool" where
  "counting l \<longleftrightarrow> l \<in> {LSingle, LDouble, LTriple}"

lemma counting_complete:
  "counting (aq_required_level r) \<Longrightarrow> check_approval_complete r \<longleftrightarrow> quorum (aq_required_level r) \<le> length (aq_approvals r)"
  by (cases "aq_required_level r") (auto simp: counting_def check_approval_complete_def Suc_le_eq)

lemma record_approval_status:
  assumes "counting (aq_required_level r)"
  shows "aq_status (record_approval clk who l c r) =
    (if quorum (aq_required_level r) \<le> Suc (length (aq_approvals r)) then Approved else aq_status r)"
  using counting_complete [of "r\<lparr>aq_approvals := aq_approvals r @ [\<lparr>ar_approver_id = who, ar_level = l,
    ar_approved_at = clk 1, ar_comment = c\<rparr>], aq_current_level := max (aq_current_level r) l\<rparr>"] assms
  by (simp add: record_approval_def Let_def)

lemma votes_complete:
  assumes "ae_pending_requests e k = Some r" "aq_status r = Pending" "counting (aq_required_level r)"
    and "aq_rejections r = []" "list_all (eligible r) vs"
    and "distinct (map ar_approver_id (aq_approvals r) @ map fst vs)"
    and "vs \<noteq> []" "length (aq_approvals r) + length vs = quorum (aq_required_level r)"
  shows "\<exists>r'. ae_pending_requests (run_ops (vote k) vs e) k = Some r' \<and> aq_status r' = Approved
    \<and> aq_operation r' = aq_operation r \<and> aq_resource_id r' = aq_resource_id r
    \<and> aq_expires_at r' = aq_expires_at r \<and> aq_required_level r' = aq_required_level r
    \<and> length (aq_approvals r') = quorum (aq_required_level r)"
  using assms
proof (induction vs arbitrary: e r)
  case (Cons v vs)
  obtain who ro clk where v: "v = (who, ro, clk)" by (cases v)
  define r1 where "r1 = record_approval clk who (determine_approval_level ro) None r"
  have "\<not> already_voted who r"
    using Cons.prems by (auto simp: already_voted_iff v)
  then have e1: "ae_pending_requests (vote k v e) k = Some r1"
    unfolding v r1_def using Cons.prems by (intro vote_accepted) (auto simp: v isTerminal_def)
  note r1 = record_approval_simps [where clk = clk and who = who and c = None and r = r
      and l = "determine_approval_level ro", folded r1_def]
    record_approval_status [OF Cons.prems(3), where clk = clk and who = who and c = None
      and l = "determine_approval_level ro", folded r1_def]
  show ?case
  proof (cases "vs = []")
    case True
    with Cons.prems e1 r1 show ?thesis by simp
  next
    case False
    have "eligible r1 = eligible r"
      by (auto simp: fun_eq_iff r1)
    have D: "distinct (map ar_approver_id (aq_approvals r1) @ map fst vs)"
      using Cons.prems(6) by (simp only: r1(7)) (auto simp: v)
    have "Suc (length (aq_approvals r)) < quorum (aq_required_level r)"
      using Cons.prems(8) False by (cases vs) auto
    then have "\<exists>r'. ae_pending_requests (run_ops (vote k) vs (vote k v e)) k = Some r' \<and> aq_status r' = Approved
      \<and> aq_operation r' = aq_operation r1 \<and> aq_resource_id r' = aq_resource_id r1
      \<and> aq_expires_at r' = aq_expires_at r1 \<and> aq_required_level r' = aq_required_level r1
      \<and> length (aq_approvals r') = quorum (aq_required_level r1)"
      using Cons.prems False r1 \<open>eligible r1 = eligible r\<close>
      by (intro Cons.IH [OF e1 _ _ _ _ D]) (simp_all add: v)
    with r1 show ?thesis by simp
  qed
qed simp

text \<open>
  C35. Enough eligible votes approve a request: a fresh request at a level that counts votes, followed
  by exactly as many votes as the level demands, from distinct people other than the requestor, with
  sufficient authority and in time, passes the gate for its operation and resource until it expires.
\<close>

theorem quorum_approves:
  assumes "create_request j k t0 op res ty ten req just lvl e0 = (Inr r, e)" "counting lvl"
    and "list_all (eligible r) vs" "distinct (map fst vs)" "length vs = quorum lvl"
    and "now \<le> t0 + hours (timeout_hours lvl)"
  shows "is_approved now (run_ops (vote k) vs e) k op res"
proof -
  have r: "ae_pending_requests e k = Some r" "aq_status r = Pending" "aq_required_level r = lvl"
    "aq_rejections r = []" "aq_approvals r = []" "aq_operation r = op" "aq_resource_id r = res"
    "aq_expires_at r = t0 + hours (timeout_hours lvl)"
    using assms(1) by (auto simp: create_request_def put_request_def Let_def)
  have "vs \<noteq> []"
    using assms(5) by (cases lvl) auto
  then obtain r' where r': "ae_pending_requests (run_ops (vote k) vs e) k = Some r'" "aq_status r' = Approved"
    "aq_operation r' = op" "aq_resource_id r' = res" "aq_expires_at r' = t0 + hours (timeout_hours lvl)"
    "aq_required_level r' = lvl" "length (aq_approvals r') = quorum lvl"
    using votes_complete [OF r(1,2)] assms(2-5) r by auto
  then have "check_approval_complete r'"
    using counting_complete [of r'] assms(2) by simp
  with r' assms(6) show ?thesis
    by (simp add: is_approved_def get_request_def)
qed

text \<open>
  An administrator cannot approve a manager-level request: the vote is accepted and recorded at
  level \<open>Admin\<close>, but only a vote recorded at level \<open>Manager\<close>, which no role but the security
  officer has, completes such a request.
\<close>

theorem admin_cannot_complete_manager_level:
  assumes "ae_pending_requests e k = Some r" "aq_status r = Pending" "aq_required_level r = LManager"
    and "\<forall>a \<in> set (aq_approvals r). ar_level a \<noteq> LManager"
    and "who \<noteq> aq_requestor_id r" "clk 0 \<le> aq_expires_at r" "\<not> already_voted who r"
  shows "is_ok (fst (approve clk k who RAdmin com e))
    \<and> \<not> is_approved now (snd (approve clk k who RAdmin com e)) k op res
    \<and> (ro \<noteq> RSecurityOfficer \<longrightarrow> \<not> is_approved now (snd (approve clk k who ro com e)) k op res)"
proof -
  have never: "\<not> is_approved now (snd (approve clk k who ro com e)) k op res" if "ro \<noteq> RSecurityOfficer" for ro
    using assms that
    by (cases ro) (auto simp: approve_def on_request_def approve_entity_def is_approved_def get_request_def
        record_approval_def determine_approval_level_def check_approval_complete_def list_ex_iff Let_def)
  have "is_ok (fst (approve clk k who RAdmin com e))"
    using assms by (auto simp: approve_def on_request_def approve_entity_def isTerminal_def Let_def
        determine_approval_level_def less_approval_level_def)
  with never show ?thesis by simp
qed

section \<open>Emergency access\<close>

definition break_glass_ok :: "break_glass_request \<Rightarrow> bool" where
  "break_glass_ok r \<longleftrightarrow> bg_first_approver_id r \<noteq> bg_second_approver_id r \<and> bg_duration_minutes r \<le> 60
     \<and> bg_expires_at r = bg_created_at r + minutes (int (unat (bg_duration_minutes r)))"

definition break_glass_inv :: "'j approval_engine \<Rightarrow> bool" where
  "break_glass_inv e \<longleftrightarrow> (\<forall>k r. ae_break_glass_requests e k = Some r \<longrightarrow> break_glass_ok r)"

lemma break_glass_ok_status [simp]: "break_glass_ok (r\<lparr>bg_status := st\<rparr>) = break_glass_ok r"
  by (simp add: break_glass_ok_def)

lemma break_glass_inv_on:
  "(\<And>r. break_glass_ok (snd (f r)) = break_glass_ok r) \<Longrightarrow> break_glass_inv e
    \<Longrightarrow> break_glass_inv (snd (on_break_glass f i e))"
  by (auto simp: break_glass_inv_def break_glass_on_break_glass)

lemma break_glass_created:
  "break_glass_inv e \<Longrightarrow> break_glass_inv (snd (create_break_glass_request i now op res ty ten who reason a b d e))"
  by (auto simp: break_glass_inv_def break_glass_ok_def create_break_glass_request_def
      MAX_BREAK_GLASS_DURATION_MINS_def Let_def)

lemma break_glass_inv_step: "break_glass_inv e \<Longrightarrow> break_glass_inv (ap_step c e)"
proof (cases c)
  case (CreateBreakGlass i now op res ty ten who reason a b d)
  assume "break_glass_inv e"
  then show ?thesis by (simp add: CreateBreakGlass break_glass_created)
next
  case (CleanupExpiredBreakGlass now order)
  assume "break_glass_inv e"
  then show ?thesis
    by (auto simp: CleanupExpiredBreakGlass break_glass_inv_def cleanup_expired_break_glass_def expire_break_glass_def)
qed (simp_all add: confirm_break_glass_first_def confirm_break_glass_second_def cancel_break_glass_def
    break_glass_inv_on Let_def approve_def reject_def cancel_def, simp_all add: break_glass_inv_def
    create_request_def put_request_def cleanup_expired_def Let_def)

interpretation break_glass_invariant: stateful ap_step "\<lambda>_. True" break_glass_inv
  by unfold_locales (rule break_glass_inv_step)

text \<open>
  Emergency access is short: whenever break glass access to a resource is active, it stems from a
  request for this resource that names two different approvers and was made at most sixty minutes ago.
\<close>

theorem break_glass_bounded:
  assumes "e = run_ops ap_step calls engine_new" "is_break_glass_active now order e res"
  shows "\<exists>k r. get_break_glass e k = Inr r \<and> bg_resource_id r = res \<and> bg_status r = BgActivated
    \<and> bg_first_approver_id r \<noteq> bg_second_approver_id r \<and> now \<le> bg_created_at r + minutes 60"
proof -
  have inv: "break_glass_inv e"
    unfolding assms(1)
    by (rule break_glass_invariant.run_inv) (simp_all add: list.pred_True break_glass_inv_def engine_new_def)
  obtain k r where r: "ae_break_glass_requests e k = Some r" "bg_resource_id r = res" "bg_status r = BgActivated"
    "now \<le> bg_expires_at r"
    using assms(2) by (auto simp: is_break_glass_active_def list_ex_iff List.map_filter_def)
  with inv have "bg_duration_minutes r \<le> 60" "bg_first_approver_id r \<noteq> bg_second_approver_id r"
    "bg_expires_at r = bg_created_at r + minutes (int (unat (bg_duration_minutes r)))"
    by (auto simp: break_glass_inv_def break_glass_ok_def)
  moreover from this(1) have "unat (bg_duration_minutes r) \<le> 60"
    by (simp add: word_le_nat_alt)
  then have "minutes (int (unat (bg_duration_minutes r))) \<le> minutes 60"
    unfolding minutes_def secs_mono by linarith
  ultimately show ?thesis
    using r by (intro exI [of _ k] exI [of _ r]) (auto simp: get_break_glass_def)
qed

text \<open>
  Dual custody is not enforced: the confirmation of the first approver is not recorded, so the
  second approver alone activates emergency access, and nothing prevents the requestor from naming
  themselves as the second approver.
\<close>

theorem break_glass_single_person:
  assumes "first \<noteq> who" "d \<noteq> 0" "t1 \<le> t0 + minutes 1"
    and "create_break_glass_request k t0 op res ty ten who reason first who d e = (r, e1)"
    and "confirm_break_glass_second t1 k who e1 = (r', e2)"
  shows "is_ok r \<and> is_ok r' \<and> is_break_glass_active t1 [k] e2 res"
proof -
  have "1 \<le> unat (min d 60)"
    using assms(2) by (simp add: min_def unat_gt_0 Suc_le_eq)
  then have "minutes 1 \<le> minutes (int (unat (min d 60)))"
    unfolding minutes_def secs_mono by linarith
  with assms show ?thesis
    by (auto simp: create_break_glass_request_def confirm_break_glass_second_def on_break_glass_def
        is_break_glass_active_def MAX_BREAK_GLASS_DURATION_MINS_def Let_def List.map_filter_simps
        split: if_splits)
qed

section \<open>Concrete instances\<close>

definition demo_create :: "approval_level \<Rightarrow> unit ap_call" where
  "demo_create l = CreateRequest () 1 0 KeyExport ''key-1'' ''key'' ''acme'' ''alice'' None l"

definition demo_engine :: "approval_level \<Rightarrow> unit approval_engine" where
  "demo_engine l = ap_step (demo_create l) engine_new"

definition demo_request :: "approval_level \<Rightarrow> unit approval_request" where
  "demo_request l = \<lparr>aq_id = 1, aq_operation = KeyExport, aq_resource_id = ''key-1'', aq_resource_type = ''key'',
     aq_tenant_id = ''acme'', aq_requestor_id = ''alice'', aq_justification = None, aq_status = Pending,
     aq_required_level = l, aq_current_level = LNone, aq_approvals = [], aq_rejections = [],
     aq_created_at = 0, aq_expires_at = hours (timeout_hours l), aq_completed_at = None, aq_metadata = ()\<rparr>"

lemma demo_engine_request: "ae_pending_requests (demo_engine l) = [1 \<mapsto> demo_request l]"
  by (simp add: demo_engine_def demo_create_def create_request_def put_request_def demo_request_def
      engine_new_def Let_def)

lemma demo_create_request:
  "create_request () 1 0 KeyExport ''key-1'' ''key'' ''acme'' ''alice'' None l engine_new
    = (Inr (demo_request l), demo_engine l)"
  by (simp add: demo_engine_def demo_create_def create_request_def demo_request_def Let_def)

theorem quorum_approves_witness:
  "is_approved 10 (run_ops (vote 1) [(''bob'', RManager, \<lambda>_. 1), (''carol'', RAdmin, \<lambda>_. 2),
      (''dave'', RManager, \<lambda>_. 3)] (demo_engine LTriple)) 1 KeyExport ''key-1''"
  by (rule quorum_approves [OF demo_create_request])
    (simp_all add: counting_def demo_request_def determine_approval_level_def less_eq_approval_level_def
      hours_def secs_def)

theorem approved_means_quorum_witness:
  "let e = run_ops ap_step [demo_create LSingle, Approve (\<lambda>_. 1) 1 ''bob'' RUser None] engine_new
   in is_approved 2 e 1 KeyExport ''key-1'' \<and> (\<exists>r. get_request e 1 = Inr r \<and>
        quorum (aq_required_level r) \<le> card (ar_approver_id ` set (aq_approvals r)))"
proof -
  let ?e = "run_ops ap_step [demo_create LSingle, Approve (\<lambda>_. 1) 1 ''bob'' RUser None] engine_new"
  have *: "is_approved 2 ?e 1 KeyExport ''key-1''"
    by (simp add: demo_engine_def [symmetric] approve_def on_request_def demo_engine_request approve_entity_def
        record_approval_def demo_request_def determine_approval_level_def less_approval_level_def isTerminal_def
        already_voted_def check_approval_complete_def is_approved_def get_request_def hours_def secs_def Let_def)
  with approved_means_quorum [OF refl *] show ?thesis
    unfolding Let_def by blast
qed

theorem completed_request_final_witness:
  "let e = run_ops ap_step [Cancel (\<lambda>_. 1) 1 ''alice''] (demo_engine LSingle);
       e' = run_ops ap_step [Approve (\<lambda>_. 2) 1 ''bob'' RAdmin None, CleanupExpired (hours 99) [1]] e
   in ae_pending_requests e' 1 = ae_pending_requests e 1
      \<and> \<not> is_ok (fst (approve (\<lambda>_. 3) 1 ''bob'' RAdmin None e'))"
proof -
  define e where "e = run_ops ap_step [Cancel (\<lambda>_. 1) 1 ''alice''] (demo_engine LSingle)"
  define e' where "e' = run_ops ap_step [Approve (\<lambda>_. 2) 1 ''bob'' RAdmin None, CleanupExpired (hours 99) [1]] e"
  obtain r where r: "ae_pending_requests e 1 = Some r" "isTerminal (aq_status r)"
    by (simp add: e_def cancel_def on_request_def demo_engine_request cancel_entity_def demo_request_def
        isTerminal_def Let_def)
  have "list_all (\<lambda>c. \<not> creates 1 c) [Approve (\<lambda>_. 2) 1 ''bob'' RAdmin None, CleanupExpired (hours 99) [1 :: uuid]]"
    by simp
  note p = completed_request_final [OF r this e'_def]
  show ?thesis
    unfolding Let_def e_def [symmetric] e'_def [symmetric]
    using p [THEN conjunct1] p [THEN conjunct2, THEN conjunct1] r(1) by simp
qed

theorem admin_cannot_complete_manager_level_witness:
  "is_ok (fst (approve (\<lambda>_. 1) 1 ''bob'' RAdmin None (demo_engine LManager)))
    \<and> \<not> is_approved 2 (snd (approve (\<lambda>_. 1) 1 ''bob'' RAdmin None (demo_engine LManager))) 1 KeyExport ''key-1''"
proof -
  have "ae_pending_requests (demo_engine LManager) 1 = Some (demo_request LManager)"
    by (simp add: demo_engine_request)
  from admin_cannot_complete_manager_level [OF this, of "''bob''" "\<lambda>_. 1" None 2 KeyExport "''key-1''"]
  show ?thesis
    by (simp add: demo_request_def already_voted_def hours_def secs_def)
qed

theorem break_glass_single_person_witness:
  "is_break_glass_active 5 [7] (snd (confirm_break_glass_second 5 7 ''mallory''
     (snd (create_break_glass_request 7 0 KeyExport ''key-1'' ''key'' ''acme'' ''mallory'' ''urgent''
             ''nobody'' ''mallory'' 30 (engine_new :: unit approval_engine))))) ''key-1''"
  using break_glass_single_person [OF _ _ _ prod.collapse [symmetric] prod.collapse [symmetric],
      of "''nobody''" "''mallory''" 30 5 0 7 KeyExport "''key-1''" "''key''" "''acme''" "''urgent''"
      "engine_new :: unit approval_engine"]
  by (simp add: minutes_def secs_def)

theorem break_glass_bounded_witness:
  "let e = run_ops ap_step [CreateBreakGlass 7 0 KeyExport ''key-1'' ''key'' ''acme'' ''alice'' ''urgent''
             ''bob'' ''carol'' 600, ConfirmSecond 5 7 ''carol''] (engine_new :: unit approval_engine)
   in is_break_glass_active 9 [7] e ''key-1'' \<and> (\<exists>k r. get_break_glass e k = Inr r \<and> 9 \<le> bg_created_at r + minutes 60)"
proof -
  let ?e = "run_ops ap_step [CreateBreakGlass 7 0 KeyExport ''key-1'' ''key'' ''acme'' ''alice'' ''urgent''
             ''bob'' ''carol'' 600, ConfirmSecond 5 7 ''carol''] (engine_new :: unit approval_engine)"
  have *: "is_break_glass_active 9 [7] ?e ''key-1''"
    by (simp add: create_break_glass_request_def confirm_break_glass_second_def on_break_glass_def
        is_break_glass_active_def MAX_BREAK_GLASS_DURATION_MINS_def List.map_filter_simps minutes_def secs_def Let_def)
  with break_glass_bounded [OF refl *] show ?thesis
    unfolding Let_def by blast
qed

end
