(* ===== verification/Glob.thy ===== *)
theory Glob
  imports Prelude
begin

text \<open>
  Wildcard patterns: the \<open>glob_match\<close> of the policy engine
  (\<^verbatim>\<open>crates/kms-policy/src/engine.rs\<close>), with the string functions of the standard library it
  uses. A \<open>&str\<close> is its UTF-8 encoding; slicing at an index past the end or inside a character panics,
  which is the result \<open>None\<close>.
\<close>

section \<open>String functions\<close>

text \<open>\<open>str::split\<close> on one character: the parts between its occurrences, always at least one.\<close>

fun split_on :: "char \<Rightarrow> string \<Rightarrow> string list" where
  "split_on c [] = [[]]"
| "split_on c (x # xs) =
     (if x = c then [] # split_on c xs
      else case split_on c xs of [] \<Rightarrow> [[x]] | p # ps \<Rightarrow> (x # p) # ps)"

fun starts_with :: "string \<Rightarrow> string \<Rightarrow> bool" where
  "starts_with text [] = True"
| "starts_with [] (x # xs) = False"
| "starts_with (y # ys) (x # xs) = (x = y \<and> starts_with ys xs)"

definition ends_with :: "string \<Rightarrow> string \<Rightarrow> bool" where
  "ends_with text suffix = starts_with (rev text) (rev suffix)"

text \<open>\<open>str::find\<close> of a substring: the first index at which it occurs.\<close>

fun find_sub :: "string \<Rightarrow> string \<Rightarrow> nat option" where
  "find_sub [] part = (if part = [] then Some 0 else None)"
| "find_sub (y # ys) part =
     (if starts_with (y # ys) part then Some 0 else map_option Suc (find_sub ys part))"

text \<open>The bytes \<open>0x80\<close> to \<open>0xBF\<close> continue a character; \<open>text[n..]\<close> is defined at its start only.\<close>

definition continuation :: "char \<Rightarrow> bool" where
  "continuation c \<longleftrightarrow> 128 \<le> (of_char c :: nat) \<and> (of_char c :: nat) < 192"

definition slice_from :: "string \<Rightarrow> nat \<Rightarrow> string option" where
  "slice_from text n =
     (if length text < n \<or> (n < length text \<and> continuation (text ! n)) then None else Some (drop n text))"

section \<open>The matcher\<close>

text \<open>
  The loop over the parts after the first: \<open>Some None\<close> is the early return of \<open>false\<close>,
  \<open>Some (Some pos)\<close> the final position.
\<close>

fun glob_loop :: "string \<Rightarrow> string list \<Rightarrow> nat \<Rightarrow> nat option option" where
  "glob_loop text [] pos = Some (Some pos)"
| "glob_loop text (part # parts) pos =
     (if part = [] then glob_loop text parts pos
      else case slice_from text pos of
             None \<Rightarrow> None
           | Some rest \<Rightarrow>
               (case find_sub rest part of
                  None \<Rightarrow> Some None
                | Some idx \<Rightarrow> glob_loop text parts (pos + idx + length part)))"

text \<open>The starting position, or the early return of \<open>false\<close>.\<close>

definition glob_start :: "string \<Rightarrow> string list \<Rightarrow> string \<Rightarrow> nat option option" where
  "glob_start pattern parts text =
     (if starts_with pattern ''*'' \<and> parts \<noteq> [] then
        (case find (\<lambda>p. p \<noteq> []) parts of
           Some first \<Rightarrow>
             (case slice_from text (length first) of
                None \<Rightarrow> None
              | Some rest \<Rightarrow>
                  (case find_sub rest first of
                     Some idx \<Rightarrow> Some (Some (idx + length first))
                   | None \<Rightarrow> Some None))
         | None \<Rightarrow> Some (Some 0))
      else case parts of
             first # _ \<Rightarrow>
               if first \<noteq> [] \<and> \<not> starts_with text first then Some None else Some (Some (length first))
           | [] \<Rightarrow> Some (Some 0))"

definition glob_match :: "string \<Rightarrow> string \<Rightarrow> bool option" where
  "glob_match pattern text =
     (if pattern = ''*'' then Some True
      else
        let parts = split_on CHR ''*'' pattern
        in case glob_start pattern parts text of
             None \<Rightarrow> None
           | Some None \<Rightarrow> Some False
           | Some (Some pos) \<Rightarrow>
               (case glob_loop text (tl parts) pos of
                  None \<Rightarrow> None
                | Some None \<Rightarrow> Some False
                | Some (Some pos') \<Rightarrow>
                    Some (if ends_with pattern ''*'' then True else pos' = length text)))"

section \<open>Facts on strings\<close>

lemma starts_with_iff: "starts_with t p \<longleftrightarrow> (\<exists>r. t = p @ r)"
  by (induction t p rule: starts_with.induct) auto

lemma ends_with_iff: "ends_with t p \<longleftrightarrow> (\<exists>r. t = r @ p)"
  unfolding ends_with_def starts_with_iff by (metis rev_append rev_rev_ident)

lemma split_on_nonempty [simp]: "split_on c s \<noteq> []"
  by (induction s) (auto split: list.splits)

lemma split_on_none: "c \<notin> set s \<Longrightarrow> split_on c s = [s]"
  by (induction s) auto

lemma split_on_append:
  "c \<notin> set p \<Longrightarrow> split_on c (p @ s) = (p @ hd (split_on c s)) # tl (split_on c s)"
  by (induction p) (auto split: list.splits)

lemma split_on_snoc: "split_on c (s @ [c]) = split_on c s @ [[]]"
  by (induction s) (auto split: list.splits)

lemma hd_split_on: "split_on c (c # s) = [] # split_on c s"
  by simp

lemma last_split_on: "ends_with s [c] \<Longrightarrow> last (split_on c s) = [] \<and> tl (split_on c s) \<noteq> []"
  by (auto simp: ends_with_iff split_on_snoc)

lemma find_sub_Some: "find_sub t p = Some i \<Longrightarrow> \<exists>r. t = take i t @ p @ r \<and> i \<le> length t"
proof (induction t arbitrary: i)
  case Nil
  then show ?case by (auto split: if_splits)
next
  case (Cons y ys)
  show ?case
  proof (cases "starts_with (y # ys) p")
    case True
    with Cons.prems show ?thesis by (auto simp: starts_with_iff)
  next
    case False
    with Cons.prems obtain j where j: "i = Suc j" "find_sub ys p = Some j" by auto
    with Cons.IH [OF j(2)] show ?thesis by auto
  qed
qed

lemma slice_from_Some: "slice_from t n = Some r \<Longrightarrow> r = drop n t \<and> n \<le> length t"
  by (auto simp: slice_from_def split: if_splits)

section \<open>What a match means\<close>

text \<open>
  The language of a pattern: its parts in order, the first at the start, the last at the end, with
  arbitrary text between them. \<open>fill ws qs\<close> interleaves gaps and parts.
\<close>

fun fill :: "string list \<Rightarrow> string list \<Rightarrow> string" where
  "fill (w # ws) (q # qs) = w @ q @ fill ws qs"
| "fill _ _ = []"

definition in_language :: "string \<Rightarrow> string \<Rightarrow> bool" where
  "in_language pattern text \<longleftrightarrow>
     (\<exists>ws. length ws = length (tl (split_on CHR ''*'' pattern))
        \<and> text = hd (split_on CHR ''*'' pattern) @ fill ws (tl (split_on CHR ''*'' pattern)))"

lemma glob_loop_fill:
  "glob_loop t qs pos = Some (Some pos') \<Longrightarrow> pos \<le> length t
    \<Longrightarrow> \<exists>ws. length ws = length qs \<and> drop pos t = fill ws qs @ drop pos' t \<and> pos' \<le> length t"
proof (induction qs arbitrary: pos)
  case Nil
  then show ?case by auto
next
  case (Cons q qs)
  show ?case
  proof (cases "q = []")
    case True
    with Cons.prems obtain ws where "length ws = length qs" "drop pos t = fill ws qs @ drop pos' t" "pos' \<le> length t"
      using Cons.IH [of pos] by auto
    with True show ?thesis by (intro exI [of _ "[] # ws"]) auto
  next
    case False
    with Cons.prems obtain idx where idx: "find_sub (drop pos t) q = Some idx"
      "glob_loop t qs (pos + idx + length q) = Some (Some pos')"
      by (auto split: option.splits dest!: slice_from_Some)
    obtain r where r: "drop pos t = take idx (drop pos t) @ q @ r" "idx \<le> length (drop pos t)"
      using find_sub_Some [OF idx(1)] by auto
    then have len: "length t - pos = idx + length q + length r"
      by (metis add.assoc length_append length_drop length_take min.absorb2)
    have "drop (pos + idx + length q) t = drop (idx + length q) (drop pos t)"
      by (simp add: add.commute add.left_commute)
    also have "\<dots> = r"
      by (subst r(1)) (use r(2) in simp)
    finally have rest: "drop (pos + idx + length q) t = r" .
    have "pos + idx + length q \<le> length t"
      using len Cons.prems(2) by linarith
    then obtain ws where "length ws = length qs" "r = fill ws qs @ drop pos' t" "pos' \<le> length t"
      using Cons.IH [OF idx(2)] rest by auto
    with r(1) show ?thesis
      by (intro exI [of _ "take idx (drop pos t) # ws"]) auto
  qed
qed

lemma fill_absorb_front:
  "length ws = length qs \<Longrightarrow> qs \<noteq> [] \<Longrightarrow> \<exists>ws'. length ws' = length qs \<and> x @ fill ws qs = fill ws' qs"
  by (cases ws; cases qs) (auto intro!: exI [of _ "(x @ hd ws) # tl ws"])

lemma fill_absorb_back:
  "length ws = length qs \<Longrightarrow> qs \<noteq> [] \<Longrightarrow> last qs = []
    \<Longrightarrow> \<exists>ws'. length ws' = length qs \<and> fill ws qs @ x = fill ws' qs"
proof (induction ws qs rule: fill.induct)
  case (1 w ws q qs)
  show ?case
  proof (cases "qs = []")
    case True
    with 1 show ?thesis by (intro exI [of _ "[w @ x]"]) auto
  next
    case False
    with 1 obtain ws' where "length ws' = length qs" "fill ws qs @ x = fill ws' qs" by auto
    then show ?thesis by (intro exI [of _ "w # ws'"]) auto
  qed
qed auto

lemma glob_start_front:
  assumes "glob_start pattern (split_on CHR ''*'' pattern) text = Some (Some pos)"
  shows "pos \<le> length text \<and>
    (starts_with pattern ''*'' \<and> hd (split_on CHR ''*'' pattern) = [] \<and> tl (split_on CHR ''*'' pattern) \<noteq> []
     \<or> text = hd (split_on CHR ''*'' pattern) @ drop pos text)"
proof (cases "starts_with pattern ''*''")
  case True
  then obtain p where p: "pattern = CHR ''*'' # p" by (auto simp: starts_with_iff)
  with assms show ?thesis
    by (auto simp: glob_start_def split: option.splits dest!: slice_from_Some find_sub_Some)
next
  case False
  obtain q qs where q: "split_on CHR ''*'' pattern = q # qs"
    by (cases "split_on CHR ''*'' pattern") auto
  with assms False show ?thesis
    by (auto simp: glob_start_def starts_with_iff split: if_splits)
qed

text \<open>
  The matcher never accepts too much: when it answers yes, the text is made of the parts of the
  pattern in order, the first part at its beginning and the last at its end, with arbitrary text
  only where the pattern has a wildcard.
\<close>

theorem glob_match_sound:
  assumes "glob_match pattern text = Some True"
  shows "in_language pattern text"
proof (cases "pattern = ''*''")
  case True
  then show ?thesis
    by (auto simp: in_language_def intro!: exI [of _ "[text]"])
next
  case False
  let ?qs = "tl (split_on CHR ''*'' pattern)"
  obtain pos pos' where g: "glob_start pattern (split_on CHR ''*'' pattern) text = Some (Some pos)"
    "glob_loop text ?qs pos = Some (Some pos')" "ends_with pattern ''*'' \<or> pos' = length text"
    using assms False by (auto simp: glob_match_def Let_def split: option.splits if_splits)
  note front = glob_start_front [OF g(1)]
  obtain ws where ws: "length ws = length ?qs" "drop pos text = fill ws ?qs @ drop pos' text"
    using glob_loop_fill [OF g(2)] front by auto
  obtain ws1 where ws1: "length ws1 = length ?qs" "drop pos text = fill ws1 ?qs"
  proof (cases "ends_with pattern ''*''")
    case True
    then have "?qs \<noteq> []" "last ?qs = []"
      using last_split_on [of pattern "CHR ''*''"] by (auto simp: last_tl)
    with fill_absorb_back [OF ws(1)] ws(2) that show thesis by metis
  next
    case False
    with g(3) ws that show thesis by simp
  qed
  show ?thesis
  proof (cases "text = hd (split_on CHR ''*'' pattern) @ drop pos text")
    case True
    with ws1 show ?thesis by (auto simp: in_language_def)
  next
    case False
    with front have hd: "hd (split_on CHR ''*'' pattern) = []" "?qs \<noteq> []" by auto
    obtain ws2 where "length ws2 = length ?qs" "take pos text @ drop pos text = fill ws2 ?qs"
      using fill_absorb_front [OF ws1(1) hd(2), of "take pos text"] ws1(2) by auto
    with hd(1) show ?thesis by (auto simp: in_language_def)
  qed
qed

theorem glob_match_sound_witness:
  "glob_match ''key:*-prod'' ''key:eu-prod'' = Some True \<and> in_language ''key:*-prod'' ''key:eu-prod''"
proof -
  have "glob_match ''key:*-prod'' ''key:eu-prod'' = Some True"
    by code_simp
  with glob_match_sound [OF this] show ?thesis by simp
qed

lemma glob_match_plain:
  assumes "CHR ''*'' \<notin> set p"
  shows "glob_match p text = Some (p = text)"
proof -
  have "\<not> starts_with p ''*''" "\<not> ends_with p ''*''" "p \<noteq> ''*''"
    using assms by (auto simp: starts_with_iff ends_with_iff)
  then show ?thesis
    using assms by (auto simp: glob_match_def split_on_none glob_start_def starts_with_iff Let_def)
qed

lemma glob_match_prefix:
  assumes "CHR ''*'' \<notin> set p"
  shows "glob_match (p @ ''*'') text = Some (starts_with text p)"
proof (cases p)
  case Nil
  then show ?thesis by (simp add: glob_match_def)
next
  case (Cons x xs)
  then have "\<not> starts_with (p @ ''*'') ''*''"
    using assms by auto
  moreover have "split_on CHR ''*'' (p @ ''*'') = [p, []]"
    using assms by (simp add: split_on_append)
  ultimately show ?thesis
    using Cons by (auto simp: glob_match_def glob_start_def ends_with_iff Let_def)
qed

text \<open>
  The two kinds of pattern the policies use: a pattern without a wildcard matches exactly itself,
  and a pattern that is a prefix followed by one wildcard matches exactly the texts with that prefix,
  the lone wildcard everything. Neither ever panics.
\<close>

theorem glob_match_exact_and_prefix:
  assumes "CHR ''*'' \<notin> set p"
  shows "glob_match p text = Some (p = text) \<and> glob_match (p @ ''*'') text = Some (starts_with text p)"
  using glob_match_plain [OF assms] glob_match_prefix [OF assms] by simp

theorem glob_match_exact_and_prefix_witness:
  "glob_match ''key:prod-'' ''key:prod-1'' = Some False \<and> glob_match ''key:prod-*'' ''key:prod-1'' = Some True"
  using glob_match_exact_and_prefix [of "''key:prod-''" "''key:prod-1''"] by simp

text \<open>
  With a leading wildcard the matcher skips as many bytes as the first literal part is long before
  it searches: it panics on shorter texts, and misses texts the pattern describes. The search is
  greedy, so a last part that also occurs earlier is missed too.
\<close>

theorem glob_match_incomplete:
  "glob_match ''*-admin'' ''bob'' = None
    \<and> glob_match ''*-admin'' ''bob-admin'' = Some False \<and> in_language ''*-admin'' ''bob-admin''
    \<and> glob_match ''a*b'' ''abab'' = Some False \<and> in_language ''a*b'' ''abab''"
proof -
  have "glob_match ''*-admin'' ''bob'' = None" "glob_match ''*-admin'' ''bob-admin'' = Some False"
    "glob_match ''a*b'' ''abab'' = Some False"
    by code_simp+
  moreover have "in_language ''*-admin'' ''bob-admin''"
    by (auto simp: in_language_def intro!: exI [of _ "[''bob'']"])
  moreover have "in_language ''a*b'' ''abab''"
    by (auto simp: in_language_def intro!: exI [of _ "[''ba'']"])
  ultimately show ?thesis by simp
qed

end
