(* ===== verification/Policy.thy ===== *)
theory Policy
  imports Kms_Types Glob
begin

text \<open>
  The access control engine, \<^verbatim>\<open>crates/kms-policy/src/engine.rs\<close> and \<^verbatim>\<open>lib.rs\<close>: policies,
  access contexts, conditions, the decision, the time skew alerts and the write-through to a durable
  store. The hash map of policies is an association list; its order is the iteration order.
\<close>

section \<open>JSON values\<close>

text \<open>
  \<open>serde_json::Value\<close>: an object is its list of members with distinct names, a number that is no
  integer is kept as text.
\<close>

datatype json = JNull | JBool bool | JInt int | JFloat string | JStr string | JArr "json list"
  | JObj "(string \<times> json) list"

fun as_str :: "json \<Rightarrow> string option" where
  "as_str (JStr s) = Some s"
| "as_str _ = None"

fun as_i64 :: "json \<Rightarrow> int option" where
  "as_i64 (JInt n) = (if - (2 ^ 63) \<le> n \<and> n < 2 ^ 63 then Some n else None)"
| "as_i64 _ = None"

fun as_array :: "json \<Rightarrow> json list option" where
  "as_array (JArr xs) = Some xs"
| "as_array _ = None"

fun as_bool :: "json \<Rightarrow> bool option" where
  "as_bool (JBool b) = Some b"
| "as_bool _ = None"

definition obj_get_str :: "(string \<times> json) list \<Rightarrow> string \<Rightarrow> string option" where
  "obj_get_str obj k = Option.bind (map_of obj k) as_str"

section \<open>Policies and contexts\<close>

datatype policy_effect = Allow | Deny

datatype decision = DDeny | DAllow

fun decision_display :: "decision \<Rightarrow> string" where
  "decision_display DAllow = ''allow''"
| "decision_display DDeny = ''deny''"

record policy =
  pl_id :: uuid
  pl_name :: string
  pl_effect :: policy_effect
  pl_condition :: json
  pl_resources :: "string list"
  pl_subjects :: "string list"
  pl_tenant :: "string option"
  pl_enabled :: bool

type_synonym policy_context = "string \<rightharpoonup> json"

definition ctx_get_str :: "policy_context \<Rightarrow> string \<Rightarrow> string option" where
  "ctx_get_str ctx k = Option.bind (ctx k) as_str"

definition ctx_get_i64 :: "policy_context \<Rightarrow> string \<Rightarrow> int option" where
  "ctx_get_i64 ctx k = Option.bind (ctx k) as_i64"

record access_context =
  ax_subject_id :: string
  ax_subject_type :: string
  ax_subject_roles :: "string list"
  ax_subject_attrs :: "string \<rightharpoonup> json"
  ax_resource_id :: string
  ax_resource_type :: string
  ax_action :: string
  ax_tenant_id :: "string option"
  ax_environment :: "string \<rightharpoonup> json"

definition access_context_new :: "string \<Rightarrow> string \<Rightarrow> string \<Rightarrow> access_context" where
  "access_context_new subject_id action resource_id =
     \<lparr>ax_subject_id = subject_id, ax_subject_type = ''user'', ax_subject_roles = [], ax_subject_attrs = Map.empty,
      ax_resource_id = resource_id, ax_resource_type = ''key'', ax_action = action, ax_tenant_id = None,
      ax_environment = Map.empty\<rparr>"

definition with_tenant :: "string \<Rightarrow> access_context \<Rightarrow> access_context" where
  "with_tenant tenant c = c\<lparr>ax_tenant_id := (if tenant = [] then None else Some tenant)\<rparr>"

definition with_subject_type :: "string \<Rightarrow> access_context \<Rightarrow> access_context" where
  "with_subject_type ty c = c\<lparr>ax_subject_type := ty\<rparr>"

definition with_roles :: "string list \<Rightarrow> access_context \<Rightarrow> access_context" where
  "with_roles roles c = c\<lparr>ax_subject_roles := roles\<rparr>"

definition with_resource_type :: "string \<Rightarrow> access_context \<Rightarrow> access_context" where
  "with_resource_type ty c = c\<lparr>ax_resource_type := ty\<rparr>"

definition with_env :: "string \<Rightarrow> json \<Rightarrow> access_context \<Rightarrow> access_context" where
  "with_env k v c = c\<lparr>ax_environment := (ax_environment c)(k \<mapsto> v)\<rparr>"

definition with_attr :: "string \<Rightarrow> json \<Rightarrow> access_context \<Rightarrow> access_context" where
  "with_attr k v c = c\<lparr>ax_subject_attrs := (ax_subject_attrs c)(k \<mapsto> v)\<rparr>"

text \<open>
  The attributes under a prefix, as the loops insert them: the names are distinct, so the order of
  insertion is immaterial.
\<close>

definition prefixed :: "string \<Rightarrow> (string \<rightharpoonup> json) \<Rightarrow> policy_context" where
  "prefixed p m k = (if starts_with k p then m (drop (length p) k) else None)"

definition to_policy_context :: "access_context \<Rightarrow> policy_context" where
  "to_policy_context c =
     ([''subject.id'' \<mapsto> JStr (ax_subject_id c), ''subject.type'' \<mapsto> JStr (ax_subject_type c),
       ''resource.id'' \<mapsto> JStr (ax_resource_id c), ''resource.type'' \<mapsto> JStr (ax_resource_type c),
       ''action'' \<mapsto> JStr (ax_action c)]
      ++ (case ax_tenant_id c of Some t \<Rightarrow> [''tenant'' \<mapsto> JStr t] | None \<Rightarrow> Map.empty)
      ++ [''subject.roles'' \<mapsto> JArr (map JStr (ax_subject_roles c))]
      ++ prefixed ''subject.'' (ax_subject_attrs c) ++ prefixed ''env.'' (ax_environment c))"

section \<open>Time\<close>

text \<open>
  The trusted time source and the system clock, in seconds since the epoch. One evaluation has one reading of each; the
  code reads them again for every condition that asks.
\<close>

record clock =
  ck_trusted :: "kms_error + int"
  ck_system :: int

definition digit :: "char \<Rightarrow> nat option" where
  "digit c = (let n = (of_char c :: nat) in if 48 \<le> n \<and> n \<le> 57 then Some (n - 48) else None)"

fun parse_digits :: "string \<Rightarrow> nat \<Rightarrow> nat option" where
  "parse_digits [] acc = Some acc"
| "parse_digits (c # cs) acc = Option.bind (digit c) (\<lambda>d. parse_digits cs (10 * acc + d))"

text \<open>\<open>str::parse::<u32>\<close>: decimal digits after an optional plus sign, refused from \<open>2 ^ 32\<close> on.\<close>

definition parse_u32 :: "string \<Rightarrow> nat option" where
  "parse_u32 s =
     (let ds = (if starts_with s ''+'' then tl s else s)
      in if ds = [] then None
         else Option.bind (parse_digits ds 0) (\<lambda>n. if n < 2 ^ 32 then Some n else None))"

definition parse_time :: "string \<Rightarrow> nat option" where
  "parse_time s =
     (case split_on CHR '':'' s of
        [h, m] \<Rightarrow> Option.bind (parse_u32 h) (\<lambda>hour. Option.bind (parse_u32 m) (\<lambda>minute.
                     if hour < 24 \<and> minute < 60 then Some (hour * 60 + minute) else None))
      | _ \<Rightarrow> None)"

definition current_minutes :: "clock \<Rightarrow> nat" where
  "current_minutes cl =
     (let t = (case ck_trusted cl of
                 Inr t \<Rightarrow> nat (t mod 2 ^ 64)
               | Inl _ \<Rightarrow> nat (ck_system cl))
      in (t mod 86400) div 3600 * 60 + (t mod 3600) div 60)"

definition evaluate_time_range :: "clock \<Rightarrow> string \<Rightarrow> string \<Rightarrow> bool" where
  "evaluate_time_range cl start end_time =
     (case parse_time start of
        None \<Rightarrow> False
      | Some s \<Rightarrow>
          (case parse_time end_time of
             None \<Rightarrow> False
           | Some e \<Rightarrow>
               if s \<le> e then s \<le> current_minutes cl \<and> current_minutes cl \<le> e
               else s \<le> current_minutes cl \<or> current_minutes cl \<le> e))"

section \<open>Conditions\<close>

lemma json_member_size:
  "map_of obj k = Some v \<Longrightarrow> size v < Suc (size_list (size_prod (\<lambda>_. 0) size) obj)"
  by (induction obj) (auto split: if_splits)

function evaluate_condition :: "clock \<Rightarrow> policy_context \<Rightarrow> json \<Rightarrow> bool" where
  "evaluate_condition cl ctx (JBool b) = b"
| "evaluate_condition cl ctx (JObj obj) =
     (case obj_get_str obj ''operator'' of
        None \<Rightarrow> False
      | Some op \<Rightarrow>
          let args = (case map_of obj ''args'' of Some v \<Rightarrow> Some v | None \<Rightarrow> map_of obj ''value'')
          in if op = ''always'' then True
             else if op = ''never'' then False
             else if op = ''eq'' \<or> op = ''=='' then
               (case (obj_get_str obj ''attribute'', Option.bind args as_str) of
                  (Some attr, Some val) \<Rightarrow> ctx_get_str ctx attr = Some val | _ \<Rightarrow> False)
             else if op = ''in'' then
               (case (obj_get_str obj ''attribute'', Option.bind args as_array) of
                  (Some attr, Some arr) \<Rightarrow>
                    (case ctx_get_str ctx attr of
                       Some attr_val \<Rightarrow> list_ex (\<lambda>v. as_str v = Some attr_val) arr | None \<Rightarrow> False)
                | _ \<Rightarrow> False)
             else if op = ''and'' then
               (case args of Some (JArr conditions) \<Rightarrow> list_all (\<lambda>c. evaluate_condition cl ctx c) conditions
                | _ \<Rightarrow> False)
             else if op = ''or'' then
               (case args of Some (JArr conditions) \<Rightarrow> list_ex (\<lambda>c. evaluate_condition cl ctx c) conditions
                | _ \<Rightarrow> False)
             else if op = ''time_range'' then
               (case (obj_get_str obj ''start'', obj_get_str obj ''end'') of
                  (Some s, Some e) \<Rightarrow> evaluate_time_range cl s e | _ \<Rightarrow> False)
             else if op = ''time_between'' then
               (case Option.bind args as_str of
                  Some value \<Rightarrow> (case split_on CHR ''-'' value of [a, b] \<Rightarrow> evaluate_time_range cl a b | _ \<Rightarrow> False)
                | None \<Rightarrow> False)
             else if op = ''not_expired'' then
               (case obj_get_str obj ''attribute'' of
                  Some attr \<Rightarrow>
                    (case ctx_get_i64 ctx attr of Some ts \<Rightarrow> ts > max 0 (ck_system cl) | None \<Rightarrow> False)
                | None \<Rightarrow> False)
             else False)"
| "evaluate_condition cl ctx JNull = False"
| "evaluate_condition cl ctx (JInt n) = False"
| "evaluate_condition cl ctx (JFloat f) = False"
| "evaluate_condition cl ctx (JStr s) = False"
| "evaluate_condition cl ctx (JArr xs) = False"
  by pat_completeness auto
termination
proof (relation "measure (\<lambda>(_, _, v). size v)", goal_cases)
  case 1
  then show ?case by simp
next
  case (2 cl ctx obj op args v conditions c)
  then have "size (JArr conditions) < Suc (size_list (size_prod (\<lambda>_. 0) size) obj)"
    by (intro json_member_size [of obj "if map_of obj ''args'' = None then ''value'' else ''args''"])
      (auto split: option.splits)
  with 2 show ?case
    by (auto dest: size_list_estimation' [where f = size and y = "size c", OF _ order_refl])
next
  case (3 cl ctx obj op args v conditions c)
  then have "size (JArr conditions) < Suc (size_list (size_prod (\<lambda>_. 0) size) obj)"
    by (intro json_member_size [of obj "if map_of obj ''args'' = None then ''value'' else ''args''"])
      (auto split: option.splits)
  with 3 show ?case
    by (auto dest: size_list_estimation' [where f = size and y = "size c", OF _ order_refl])
qed

section \<open>The decision\<close>

definition tenant_matches :: "policy \<Rightarrow> access_context \<Rightarrow> bool option" where
  "tenant_matches p c =
     (case pl_tenant p of
        None \<Rightarrow> Some True
      | Some pattern \<Rightarrow>
          (case ax_tenant_id c of None \<Rightarrow> Some False | Some tenant \<Rightarrow> glob_match pattern tenant))"

text \<open>\<open>any\<close> over patterns, left to right, stopping at the first match; a panic ends everything.\<close>

fun any_match :: "string list \<Rightarrow> string \<Rightarrow> bool option" where
  "any_match [] text = Some False"
| "any_match (p # ps) text =
     (case glob_match p text of
        None \<Rightarrow> None
      | Some True \<Rightarrow> Some True
      | Some False \<Rightarrow> any_match ps text)"

definition applies :: "access_context \<Rightarrow> policy \<Rightarrow> bool option" where
  "applies c p =
     (if \<not> pl_enabled p then Some False
      else case any_match (pl_subjects p) (ax_subject_id c) of
             None \<Rightarrow> None
           | Some False \<Rightarrow> Some False
           | Some True \<Rightarrow>
               (case tenant_matches p c of
                  None \<Rightarrow> None
                | Some False \<Rightarrow> Some False
                | Some True \<Rightarrow> any_match (pl_resources p) (ax_resource_id c)))"

fun filter_applies :: "access_context \<Rightarrow> policy list \<Rightarrow> policy list option" where
  "filter_applies c [] = Some []"
| "filter_applies c (p # ps) =
     (case applies c p of
        None \<Rightarrow> None
      | Some b \<Rightarrow> map_option (\<lambda>qs. if b then p # qs else qs) (filter_applies c ps))"

text \<open>The stable sort that puts the denials first.\<close>

definition deny_first :: "policy list \<Rightarrow> policy list" where
  "deny_first ps = filter (\<lambda>p. pl_effect p = Deny) ps @ filter (\<lambda>p. pl_effect p \<noteq> Deny) ps"

definition first_decision :: "clock \<Rightarrow> policy_context \<Rightarrow> policy list \<Rightarrow> decision" where
  "first_decision cl ctx ps =
     (case find (\<lambda>p. evaluate_condition cl ctx (pl_condition p)) ps of
        Some p \<Rightarrow> (case pl_effect p of Allow \<Rightarrow> DAllow | Deny \<Rightarrow> DDeny)
      | None \<Rightarrow> DDeny)"

definition evaluate_locked :: "clock \<Rightarrow> (string \<times> policy) list \<Rightarrow> access_context \<Rightarrow> decision option" where
  "evaluate_locked cl policies c =
     map_option (\<lambda>ps. first_decision cl (to_policy_context c) (deny_first ps)) (filter_applies c (map snd policies))"

section \<open>The engine\<close>

datatype time_skew_status = SkewOk | SkewWarning int | SkewCritical int

fun is_healthy :: "time_skew_status \<Rightarrow> bool" where
  "is_healthy SkewOk = True"
| "is_healthy _ = False"

fun skew_secs :: "time_skew_status \<Rightarrow> int option" where
  "skew_secs SkewOk = None"
| "skew_secs (SkewWarning s) = Some s"
| "skew_secs (SkewCritical s) = Some s"

definition MAX_TIME_SKEW_SECS :: int where
  "MAX_TIME_SKEW_SECS = 30"

definition TIME_SKEW_WARNING_SECS :: int where
  "TIME_SKEW_WARNING_SECS = 10"

record time_skew_alert =
  ta_timestamp :: int
  ta_skew_seconds :: int
  ta_severity :: string

text \<open>
  A durable store: its operations, as the trait has them, on a store state \<open>'r\<close>. An error carries the
  text of the store's error.
\<close>

datatype store_error = Unavailable msg | Malformed msg

fun store_error_display :: "store_error \<Rightarrow> msg" where
  "store_error_display (Unavailable m) = Fmt [Lit ''policy store unavailable: '', m]"
| "store_error_display (Malformed m) = Fmt [Lit ''stored policy is malformed: '', m]"

record 'r policy_repository =
  rp_load_all :: "'r \<Rightarrow> store_error + policy list"
  rp_save :: "policy \<Rightarrow> 'r \<Rightarrow> (store_error + unit) \<times> 'r"
  rp_delete :: "uuid \<Rightarrow> 'r \<Rightarrow> (store_error + bool) \<times> 'r"

record 'r pbac_engine =
  pe_policies :: "(string \<times> policy) list"
  pe_time_skew_alerts :: "time_skew_alert list"
  pe_repository :: "'r option"

definition engine_without_store :: "'r pbac_engine" where
  "engine_without_store = \<lparr>pe_policies = [], pe_time_skew_alerts = [], pe_repository = None\<rparr>"

definition with_repository :: "'r \<Rightarrow> 'r pbac_engine \<Rightarrow> 'r pbac_engine" where
  "with_repository r e = e\<lparr>pe_repository := Some r\<rparr>"

definition has_repository :: "'r pbac_engine \<Rightarrow> bool" where
  "has_repository e \<longleftrightarrow> pe_repository e \<noteq> None"

text \<open>\<open>uuid_str\<close> is \<open>Uuid::to_string\<close>.\<close>

definition add_policy ::
  "'r policy_repository \<Rightarrow> (uuid \<Rightarrow> string) \<Rightarrow> policy \<Rightarrow> 'r pbac_engine \<Rightarrow> (kms_error + unit) \<times> 'r pbac_engine" where
  "add_policy ops uuid_str p e =
     (case (case pe_repository e of
              None \<Rightarrow> (Inr (), None)
            | Some r \<Rightarrow> (let (res, r') = rp_save ops p r in (res, Some r'))) of
        (Inl err, r') \<Rightarrow>
          (Inl (Internal (Fmt [Lit ''persist policy: '', store_error_display err])), e\<lparr>pe_repository := r'\<rparr>)
      | (Inr _, r') \<Rightarrow>
          (Inr (), e\<lparr>pe_repository := r', pe_policies := map_insert (uuid_str (pl_id p)) p (pe_policies e)\<rparr>))"

definition remove_policy ::
  "'r policy_repository \<Rightarrow> (uuid \<Rightarrow> string) \<Rightarrow> uuid \<Rightarrow> 'r pbac_engine \<Rightarrow> (kms_error + unit) \<times> 'r pbac_engine" where
  "remove_policy ops uuid_str i e =
     (case (case pe_repository e of
              None \<Rightarrow> (Inr True, None)
            | Some r \<Rightarrow> (let (res, r') = rp_delete ops i r in (res, Some r'))) of
        (Inl err, r') \<Rightarrow>
          (Inl (Internal (Fmt [Lit ''delete policy: '', store_error_display err])), e\<lparr>pe_repository := r'\<rparr>)
      | (Inr _, r') \<Rightarrow>
          (Inr (), e\<lparr>pe_repository := r', pe_policies := map_remove (uuid_str i) (pe_policies e)\<rparr>))"

definition replace_all :: "(uuid \<Rightarrow> string) \<Rightarrow> policy list \<Rightarrow> 'r pbac_engine \<Rightarrow> 'r pbac_engine" where
  "replace_all uuid_str ps e =
     e\<lparr>pe_policies := foldl (\<lambda>m p. map_insert (uuid_str (pl_id p)) p m) [] ps\<rparr>"

definition load_from_repository ::
  "'r policy_repository \<Rightarrow> (uuid \<Rightarrow> string) \<Rightarrow> 'r pbac_engine \<Rightarrow> (kms_error + nat) \<times> 'r pbac_engine" where
  "load_from_repository ops uuid_str e =
     (case pe_repository e of
        None \<Rightarrow> (Inl (Internal (Lit ''no policy repository is configured'')), e)
      | Some r \<Rightarrow>
          (case rp_load_all ops r of
             Inl err \<Rightarrow> (Inl (Internal (Fmt [Lit ''load policies: '', store_error_display err])), e)
           | Inr policies \<Rightarrow> (Inr (length policies), replace_all uuid_str policies e)))"

definition get_policy :: "'r pbac_engine \<Rightarrow> string \<Rightarrow> policy option" where
  "get_policy e i = map_of (pe_policies e) i"

definition list_policies :: "'r pbac_engine \<Rightarrow> policy list" where
  "list_policies e = map snd (pe_policies e)"

definition enabled_policy_count :: "'r pbac_engine \<Rightarrow> nat" where
  "enabled_policy_count e = length (filter (\<lambda>(_, p). pl_enabled p) (pe_policies e))"

definition evaluate_if_configured :: "clock \<Rightarrow> 'r pbac_engine \<Rightarrow> access_context \<Rightarrow> decision option option" where
  "evaluate_if_configured cl e c =
     (if list_all (\<lambda>(_, p). \<not> pl_enabled p) (pe_policies e) then Some None
      else map_option Some (evaluate_locked cl (pe_policies e) c))"

definition evaluate :: "clock \<Rightarrow> 'r pbac_engine \<Rightarrow> access_context \<Rightarrow> decision option" where
  "evaluate cl e c = evaluate_locked cl (pe_policies e) c"

definition validator_check_time_skew :: "clock \<Rightarrow> kms_error + time_skew_status" where
  "validator_check_time_skew cl =
     and_then (if ck_system cl < 0
               then Inl (Internal (Lit ''second time provided was later than self'')) else Inr (ck_system cl))
       (\<lambda>system_time. and_then (ck_trusted cl) (\<lambda>trusted_time.
          let skew = \<bar>system_time - trusted_time\<bar>
          in Inr (if skew > MAX_TIME_SKEW_SECS then SkewCritical skew
                  else if skew > TIME_SKEW_WARNING_SECS then SkewWarning skew else SkewOk)))"

text \<open>\<open>now\<close> is the second reading of the system clock.\<close>

definition check_time_skew :: "clock \<Rightarrow> int \<Rightarrow> 'r pbac_engine \<Rightarrow> (kms_error + time_skew_status) \<times> 'r pbac_engine" where
  "check_time_skew cl now e =
     (case validator_check_time_skew cl of
        Inl err \<Rightarrow> (Inl err, e)
      | Inr status \<Rightarrow>
          if is_healthy status then (Inr status, e)
          else if now < 0 then (Inl (Internal (Lit ''second time provided was later than self'')), e)
          else
            let alert = \<lparr>ta_timestamp = now, ta_skew_seconds = (case skew_secs status of Some s \<Rightarrow> s | None \<Rightarrow> 0),
                   ta_severity = (case status of SkewCritical _ \<Rightarrow> ''critical'' | _ \<Rightarrow> ''warning'')\<rparr>;
                alerts = pe_time_skew_alerts e @ [alert];
                alerts = (if length alerts > 100 then drop 1 alerts else alerts)
            in (Inr status, e\<lparr>pe_time_skew_alerts := alerts\<rparr>))"

definition get_time_skew_alerts :: "'r pbac_engine \<Rightarrow> time_skew_alert list" where
  "get_time_skew_alerts e = pe_time_skew_alerts e"

section \<open>Deny overrides, default deny\<close>

lemma filter_applies_Some:
  "filter_applies c ps = Some qs \<longleftrightarrow> (\<forall>p \<in> set ps. applies c p \<noteq> None) \<and> qs = filter (\<lambda>p. applies c p = Some True) ps"
  by (induction ps arbitrary: qs) (auto split: option.splits)

lemma filter_applies_None: "filter_applies c ps = None \<longleftrightarrow> (\<exists>p \<in> set ps. applies c p = None)"
  by (induction ps) (auto split: option.splits)

lemma first_decision_denials:
  "\<forall>p \<in> set ds. pl_effect p = Deny \<Longrightarrow> first_decision cl ctx (ds @ ps) =
     (if list_ex (\<lambda>p. evaluate_condition cl ctx (pl_condition p)) ds then DDeny else first_decision cl ctx ps)"
  by (induction ds) (auto simp: first_decision_def)

lemma first_decision_allows:
  "\<forall>p \<in> set ps. pl_effect p \<noteq> Deny \<Longrightarrow>
     first_decision cl ctx ps = DAllow \<longleftrightarrow> list_ex (\<lambda>p. evaluate_condition cl ctx (pl_condition p)) ps"
  by (induction ps) (auto simp: first_decision_def split: policy_effect.splits)

lemma first_decision_deny_first:
  "first_decision cl ctx (deny_first ps) = DAllow \<longleftrightarrow>
     list_ex (\<lambda>p. pl_effect p = Allow \<and> evaluate_condition cl ctx (pl_condition p)) ps
     \<and> \<not> list_ex (\<lambda>p. pl_effect p = Deny \<and> evaluate_condition cl ctx (pl_condition p)) ps"
proof -
  have neq: "pl_effect p \<noteq> Deny \<longleftrightarrow> pl_effect p = Allow" for p :: policy
    by (cases "pl_effect p") auto
  show ?thesis
    by (auto simp: deny_first_def first_decision_denials first_decision_allows list_ex_iff neq) force
qed

text \<open>An applicable policy whose condition holds.\<close>

definition fires :: "clock \<Rightarrow> access_context \<Rightarrow> policy_effect \<Rightarrow> policy list \<Rightarrow> bool" where
  "fires cl c eff ps \<longleftrightarrow> list_ex (\<lambda>p. pl_effect p = eff \<and> applies c p = Some True
     \<and> evaluate_condition cl (to_policy_context c) (pl_condition p)) ps"

lemma evaluate_locked_Some:
  "evaluate_locked cl ps c = Some d \<longleftrightarrow> (\<forall>p \<in> set (map snd ps). applies c p \<noteq> None)
     \<and> (d = DAllow \<longleftrightarrow> fires cl c Allow (map snd ps) \<and> \<not> fires cl c Deny (map snd ps))"
proof (cases "filter_applies c (map snd ps)")
  case None
  then show ?thesis using filter_applies_None [of c "map snd ps"] by (auto simp: evaluate_locked_def)
next
  case (Some qs)
  then have qs: "\<forall>p \<in> set (map snd ps). applies c p \<noteq> None" "qs = filter (\<lambda>p. applies c p = Some True) (map snd ps)"
    by (simp_all add: filter_applies_Some)
  have "first_decision cl (to_policy_context c) (deny_first qs) = DAllow
      \<longleftrightarrow> fires cl c Allow (map snd ps) \<and> \<not> fires cl c Deny (map snd ps)"
    unfolding first_decision_deny_first fires_def list_ex_iff qs(2) by auto
  moreover have "evaluate_locked cl ps c = Some (first_decision cl (to_policy_context c) (deny_first qs))"
    using Some by (simp add: evaluate_locked_def)
  ultimately show ?thesis
    using qs(1) by (cases d; cases "first_decision cl (to_policy_context c) (deny_first qs)") auto
qed

text \<open>
  C14. Deny overrides and default deny: the engine allows a request exactly when an enabled policy that
  covers its subject, tenant and resource, with a condition that holds, allows it, and no such policy
  denies it. The decision, and whether a pattern panics, do not depend on the iteration order of the
  map of policies.
\<close>

theorem evaluate_deny_overrides:
  assumes "set (pe_policies e') = set (pe_policies e)"
  shows "(evaluate cl e c = Some DAllow \<longleftrightarrow>
      list_all (\<lambda>p. applies c p \<noteq> None) (list_policies e)
      \<and> fires cl c Allow (list_policies e) \<and> \<not> fires cl c Deny (list_policies e))
    \<and> (evaluate cl e c = None \<longleftrightarrow> list_ex (\<lambda>p. applies c p = None) (list_policies e))
    \<and> evaluate cl e' c = evaluate cl e c"
proof -
  have "fires cl c eff (map snd (pe_policies e')) = fires cl c eff (map snd (pe_policies e))" for eff
    using assms by (simp add: fires_def list_ex_iff)
  then have "evaluate cl e' c = Some d \<longleftrightarrow> evaluate cl e c = Some d" for d
    using assms by (simp add: evaluate_def evaluate_locked_Some)
  then have "evaluate cl e' c = evaluate cl e c"
    by (metis not_None_eq)
  moreover have "evaluate cl e c = None \<longleftrightarrow> list_ex (\<lambda>p. applies c p = None) (list_policies e)"
    using filter_applies_None [of c "map snd (pe_policies e)"]
    by (simp add: evaluate_def evaluate_locked_def list_policies_def list_ex_iff)
  ultimately show ?thesis
    by (simp add: evaluate_def evaluate_locked_Some list_policies_def list_all_iff)
qed

text \<open>A policy of another tenant: scoped, by a plain name, to a tenant the request is not in.\<close>

definition foreign :: "access_context \<Rightarrow> policy \<Rightarrow> bool" where
  "foreign c p \<longleftrightarrow> (case pl_tenant p of None \<Rightarrow> False
     | Some t \<Rightarrow> CHR ''*'' \<notin> set t \<and> ax_tenant_id c \<noteq> Some t)"

text \<open>
  Tenant scoping: policies bound to another tenant never influence a decision, and a request
  without a tenant is influenced by no policy that is bound to a plain tenant name. Removing all such
  policies leaves every decision as it is.
\<close>

theorem foreign_policies_ignored:
  assumes "evaluate cl e c = Some d"
  shows "evaluate cl (e\<lparr>pe_policies := filter (\<lambda>(_, p). \<not> foreign c p) (pe_policies e)\<rparr>) c = Some d"
proof -
  have foreign: "applies c p \<noteq> Some True" if "foreign c p" for p
    using that
    by (auto simp: foreign_def applies_def tenant_matches_def glob_match_plain split: option.splits bool.splits if_splits)
  have sub: "set (map snd (filter (\<lambda>(_, p). \<not> foreign c p) (pe_policies e))) \<subseteq> set (map snd (pe_policies e))"
    by auto
  have "fires cl c eff (map snd (filter (\<lambda>(_, p). \<not> foreign c p) ps)) = fires cl c eff (map snd ps)" for eff ps
    using foreign by (induction ps) (auto simp: fires_def)
  with assms sub show ?thesis
    unfolding evaluate_def evaluate_locked_Some by (auto simp: subset_iff)
qed

text \<open>
  The operators \<open>ne\<close>, \<open>gt\<close>, \<open>lt\<close>, \<open>not_in\<close> and \<open>matches\<close>, which the crate's documentation lists
  as supported, are not: a condition with such an operator never holds, so a denial written with one
  of them never denies anything.
\<close>

theorem documented_operators_never_hold:
  assumes "obj_get_str obj ''operator'' = Some op" "op \<in> {''ne'', ''gt'', ''lt'', ''not_in'', ''matches''}"
    and "pl_condition p = JObj obj" "applies c p \<noteq> None"
    and "pe_policies e' = (k, p) # pe_policies e" "evaluate cl e c = Some d"
  shows "\<not> evaluate_condition cl ctx (JObj obj) \<and> evaluate cl e' c = Some d"
proof -
  have never: "\<not> evaluate_condition cl ctx (JObj obj)" for ctx
    using assms(1,2) by auto
  then have "fires cl c eff (map snd (pe_policies e')) = fires cl c eff (map snd (pe_policies e))" for eff
    using assms(3,5) by (auto simp: fires_def)
  with never assms(4,5,6) show ?thesis
    by (simp add: evaluate_def evaluate_locked_Some)
qed

section \<open>Concrete instances\<close>

definition demo_policy :: "uuid \<Rightarrow> policy_effect \<Rightarrow> json \<Rightarrow> string option \<Rightarrow> policy" where
  "demo_policy i eff cond t = \<lparr>pl_id = i, pl_name = ''p'', pl_effect = eff, pl_condition = cond,
     pl_resources = [''key:*''], pl_subjects = [''*''], pl_tenant = t, pl_enabled = True\<rparr>"

definition demo_always :: json where
  "demo_always = JObj [(''operator'', JStr ''always'')]"

definition demo_pbac :: "unit pbac_engine" where
  "demo_pbac = \<lparr>pe_policies = [(''1'', demo_policy 1 Allow demo_always None),
     (''2'', demo_policy 2 Deny demo_always (Some ''globex''))], pe_time_skew_alerts = [], pe_repository = None\<rparr>"

definition demo_clock :: clock where
  "demo_clock = \<lparr>ck_trusted = Inr 0, ck_system = 0\<rparr>"

definition demo_access :: access_context where
  "demo_access = with_tenant ''acme'' (access_context_new ''bob'' ''encrypt'' ''key:1'')"

lemma demo_key_glob: "glob_match ''key:*'' ''key:1'' = Some True"
  using glob_match_prefix [of "''key:''" "''key:1''"] by simp

lemma demo_applies:
  "applies demo_access (demo_policy i eff cond t) = Some (case t of None \<Rightarrow> True | Some t \<Rightarrow> t = ''acme'')"
  if "case t of None \<Rightarrow> True | Some t \<Rightarrow> CHR ''*'' \<notin> set t"
proof -
  have "glob_match ''*'' ''bob'' = Some True"
    by (simp add: glob_match_def)
  with that show ?thesis
    by (auto simp: applies_def demo_policy_def demo_access_def with_tenant_def access_context_new_def
        tenant_matches_def demo_key_glob glob_match_plain split: option.splits bool.splits)
qed

lemma demo_evaluate: "evaluate demo_clock demo_pbac demo_access = Some DAllow"
  by (simp add: evaluate_def evaluate_locked_Some demo_pbac_def demo_applies fires_def)
    (auto simp: demo_policy_def demo_always_def obj_get_str_def)

theorem evaluate_deny_overrides_witness:
  "evaluate demo_clock (demo_pbac\<lparr>pe_policies := rev (pe_policies demo_pbac)\<rparr>) demo_access = Some DAllow"
proof -
  have "set (pe_policies (demo_pbac\<lparr>pe_policies := rev (pe_policies demo_pbac)\<rparr>)) = set (pe_policies demo_pbac)"
    by simp
  from evaluate_deny_overrides [OF this, THEN conjunct2, THEN conjunct2] demo_evaluate show ?thesis by simp
qed

theorem foreign_policies_ignored_witness:
  "foreign demo_access (demo_policy 2 Deny demo_always (Some ''globex''))
    \<and> evaluate demo_clock (demo_pbac\<lparr>pe_policies := filter (\<lambda>(_, p). \<not> foreign demo_access p) (pe_policies demo_pbac)\<rparr>)
        demo_access = Some DAllow"
  using foreign_policies_ignored [OF demo_evaluate]
  by (simp add: foreign_def demo_policy_def demo_access_def with_tenant_def)

theorem documented_operators_never_hold_witness:
  "let deny = demo_policy 3 Deny (JObj [(''operator'', JStr ''ne''), (''attribute'', JStr ''subject.id''),
                (''value'', JStr ''alice'')]) None
   in evaluate demo_clock (demo_pbac\<lparr>pe_policies := (''3'', deny) # pe_policies demo_pbac\<rparr>) demo_access = Some DAllow"
proof -
  let ?obj = "[(''operator'', JStr ''ne''), (''attribute'', JStr ''subject.id''), (''value'', JStr ''alice'')]"
  let ?deny = "demo_policy 3 Deny (JObj ?obj) None"
  have "obj_get_str ?obj ''operator'' = Some ''ne''" "pl_condition ?deny = JObj ?obj"
    "applies demo_access ?deny \<noteq> None"
    by (simp_all add: obj_get_str_def demo_applies) (simp add: demo_policy_def)
  then show ?thesis
    unfolding Let_def
    using documented_operators_never_hold [where p = ?deny and obj = ?obj and op = "''ne''" and k = "''3''"
        and e' = "demo_pbac\<lparr>pe_policies := (''3'', ?deny) # pe_policies demo_pbac\<rparr>",
        OF _ _ _ _ _ demo_evaluate, THEN conjunct2] by simp
qed

end
