(* ===== verification/Policy_Store.thy ===== *)
theory Policy_Store
  imports Policy "HOL-Library.Product_Lexorder"
begin

text \<open>
  The durable store of policies, \<^verbatim>\<open>crates/kms-policy/src/store.rs\<close>, as a table of rows, and its
  interface to the engine: what the engine relies on of a store is a locale, the engine's guarantees
  are proved in it, and the table is shown to be an instance. Every statement may fail; then it has
  no effect, which is PostgreSQL's guarantee for a statement it answers with an error. A statement that took effect
  while its answer was lost is outside the model; so are two changes of one policy at the same time, as the
  engine changes the store before it takes its lock.
\<close>

section \<open>The table\<close>

record policy_row =
  row_id :: uuid
  row_name :: string
  row_effect :: string
  row_condition :: json
  row_resources :: "string list"
  row_subjects :: "string list"
  row_tenant :: "string option"
  row_enabled :: bool
  row_created_at :: time
  row_updated_at :: time

type_synonym policies_table = "policy_row list"

definition effect_to_db :: "policy_effect \<Rightarrow> store_error + string" where
  "effect_to_db eff = Inr (case eff of Allow \<Rightarrow> ''ALLOW'' | Deny \<Rightarrow> ''DENY'')"

text \<open>The text of the decoder's error is a parameter.\<close>

definition effect_from_db :: "(string \<Rightarrow> string) \<Rightarrow> string \<Rightarrow> store_error + policy_effect" where
  "effect_from_db serde_error raw =
     (if raw = ''ALLOW'' then Inr Allow
      else if raw = ''DENY'' then Inr Deny
      else Inl (Malformed (Fmt [Lit ''unknown policy effect '', Dbg raw, Lit '': '', Str (serde_error raw)])))"

definition row_to_policy :: "(string \<Rightarrow> string) \<Rightarrow> policy_row \<Rightarrow> store_error + policy" where
  "row_to_policy serde_error row =
     and_then (effect_from_db serde_error (row_effect row)) (\<lambda>eff.
       Inr \<lparr>pl_id = row_id row, pl_name = row_name row, pl_effect = eff, pl_condition = row_condition row,
            pl_resources = row_resources row, pl_subjects = row_subjects row, pl_tenant = row_tenant row,
            pl_enabled = row_enabled row\<rparr>)"

fun collect_rows :: "(string \<Rightarrow> string) \<Rightarrow> policy_row list \<Rightarrow> store_error + policy list" where
  "collect_rows se [] = Inr []"
| "collect_rows se (row # rows) =
     and_then (row_to_policy se row) (\<lambda>p. and_then (collect_rows se rows) (\<lambda>ps. Inr (p # ps)))"

text \<open>\<open>failure\<close> is the error of the statement, if it fails.\<close>

definition pg_load_all :: "(string \<Rightarrow> string) \<Rightarrow> string option \<Rightarrow> policies_table \<Rightarrow> store_error + policy list" where
  "pg_load_all se failure table =
     (case failure of
        Some e \<Rightarrow> Inl (Unavailable (Fmt [Lit ''load policies: '', Str e]))
      | None \<Rightarrow> collect_rows se (sort_key (\<lambda>row. (row_created_at row, row_id row)) table))"

definition policy_row_of :: "policy \<Rightarrow> string \<Rightarrow> time \<Rightarrow> time \<Rightarrow> policy_row" where
  "policy_row_of p eff created now =
     \<lparr>row_id = pl_id p, row_name = pl_name p, row_effect = eff, row_condition = pl_condition p,
      row_resources = pl_resources p, row_subjects = pl_subjects p, row_tenant = pl_tenant p,
      row_enabled = pl_enabled p, row_created_at = created, row_updated_at = now\<rparr>"

text \<open>\<open>INSERT ... ON CONFLICT (id) DO UPDATE\<close>: the row of the identifier is updated, or a new row appended.\<close>

definition upsert :: "policy \<Rightarrow> string \<Rightarrow> time \<Rightarrow> policies_table \<Rightarrow> policies_table" where
  "upsert p eff now table =
     (if pl_id p \<in> row_id ` set table
      then map (\<lambda>row. if row_id row = pl_id p then policy_row_of p eff (row_created_at row) now else row) table
      else table @ [policy_row_of p eff now now])"

definition pg_save :: "string option \<Rightarrow> time \<Rightarrow> policy \<Rightarrow> policies_table \<Rightarrow> (store_error + unit) \<times> policies_table" where
  "pg_save failure now p table =
     (case effect_to_db (pl_effect p) of
        Inl e \<Rightarrow> (Inl e, table)
      | Inr eff \<Rightarrow>
          (case failure of
             Some e \<Rightarrow> (Inl (Unavailable (Fmt [Lit ''save policy '', Id (pl_id p), Lit '': '', Str e])), table)
           | None \<Rightarrow> (Inr (), upsert p eff now table)))"

definition pg_delete :: "string option \<Rightarrow> uuid \<Rightarrow> policies_table \<Rightarrow> (store_error + bool) \<times> policies_table" where
  "pg_delete failure i table =
     (case failure of
        Some e \<Rightarrow> (Inl (Unavailable (Fmt [Lit ''delete policy '', Id i, Lit '': '', Str e])), table)
      | None \<Rightarrow> (Inr (i \<in> row_id ` set table), filter (\<lambda>row. row_id row \<noteq> i) table))"

definition pg_repository :: "(string \<Rightarrow> string) \<Rightarrow> string option \<Rightarrow> time \<Rightarrow> policies_table policy_repository" where
  "pg_repository se failure now =
     \<lparr>rp_load_all = pg_load_all se failure, rp_save = pg_save failure now, rp_delete = pg_delete failure\<rparr>"

section \<open>The engine on a store\<close>

text \<open>Memory and store hold the same policies under the same identifiers.\<close>

definition synced :: "(uuid \<Rightarrow> string) \<Rightarrow> ('r \<Rightarrow> bool) \<Rightarrow> ('r \<Rightarrow> uuid \<rightharpoonup> policy) \<Rightarrow> 'r pbac_engine \<Rightarrow> bool" where
  "synced uuid_str ok contents e \<longleftrightarrow>
     (case pe_repository e of None \<Rightarrow> False
      | Some r \<Rightarrow> ok r \<and> (\<forall>i. map_of (pe_policies e) (uuid_str i) = contents r i))"

lemma map_of_replace_all:
  assumes "inj uuid_str" "distinct (map pl_id ps)"
  shows "map_of (pe_policies (replace_all uuid_str ps e)) (uuid_str i) = map_of (map (\<lambda>p. (pl_id p, p)) ps) i"
proof -
  have "map_of (foldl (\<lambda>m p. map_insert (uuid_str (pl_id p)) p m) acc ps) (uuid_str i) =
      (case map_of (map (\<lambda>p. (pl_id p, p)) ps) i of Some p \<Rightarrow> Some p | None \<Rightarrow> map_of acc (uuid_str i))" for acc
    using assms(2)
  proof (induction ps arbitrary: acc)
    case (Cons p ps)
    have fresh: "map_of (map (\<lambda>p. (pl_id p, p)) ps) (pl_id p) = None"
      using Cons.prems by (simp add: map_of_eq_None_iff image_image)
    show ?case
    proof (cases "i = pl_id p")
      case True
      with Cons fresh show ?thesis by (simp add: map_of_map_insert)
    next
      case False
      with Cons inj_eq [OF assms(1)] show ?thesis by (simp add: map_of_map_insert split: option.splits)
    qed
  qed simp
  then show ?thesis
    by (simp add: replace_all_def split: option.splits)
qed

text \<open>
  What the engine relies on: a successful write is visible in the store's contents, a failed one is
  not, and a successful load returns the contents.
\<close>

locale durable_policies =
  fixes ops :: "'r policy_repository"
    and ok :: "'r \<Rightarrow> bool"
    and contents :: "'r \<Rightarrow> uuid \<rightharpoonup> policy"
  assumes save_ok: "ok r \<Longrightarrow> rp_save ops p r = (Inr u, r') \<Longrightarrow> ok r' \<and> contents r' = (contents r)(pl_id p \<mapsto> p)"
    and save_err: "ok r \<Longrightarrow> rp_save ops p r = (Inl x, r') \<Longrightarrow> ok r' \<and> contents r' = contents r"
    and delete_ok: "ok r \<Longrightarrow> rp_delete ops i r = (Inr b, r') \<Longrightarrow> ok r' \<and> contents r' = (contents r)(i := None)"
    and delete_err: "ok r \<Longrightarrow> rp_delete ops i r = (Inl x, r') \<Longrightarrow> ok r' \<and> contents r' = contents r"
    and load_ok: "ok r \<Longrightarrow> rp_load_all ops r = Inr ps \<Longrightarrow>
      distinct (map pl_id ps) \<and> map_of (map (\<lambda>p. (pl_id p, p)) ps) = contents r"
begin

lemma add_synced:
  assumes "inj uuid_str" "synced uuid_str ok contents e"
  shows "synced uuid_str ok contents (snd (add_policy ops uuid_str p e))"
proof -
  obtain r where r: "pe_repository e = Some r" "ok r" "\<forall>i. map_of (pe_policies e) (uuid_str i) = contents r i"
    using assms(2) by (auto simp: synced_def split: option.splits)
  obtain res r' where s: "rp_save ops p r = (res, r')" by (cases "rp_save ops p r")
  show ?thesis
  proof (cases res)
    case (Inl x)
    with save_err [OF r(2), of p x r'] r s show ?thesis by (simp add: add_policy_def synced_def)
  next
    case (Inr u)
    with save_ok [OF r(2), of p u r'] r s inj_eq [OF assms(1)] show ?thesis
      by (simp add: add_policy_def synced_def map_of_map_insert)
  qed
qed

lemma remove_synced:
  assumes "inj uuid_str" "synced uuid_str ok contents e"
  shows "synced uuid_str ok contents (snd (remove_policy ops uuid_str i e))"
proof -
  obtain r where r: "pe_repository e = Some r" "ok r" "\<forall>i. map_of (pe_policies e) (uuid_str i) = contents r i"
    using assms(2) by (auto simp: synced_def split: option.splits)
  obtain res r' where s: "rp_delete ops i r = (res, r')" by (cases "rp_delete ops i r")
  show ?thesis
  proof (cases res)
    case (Inl x)
    with delete_err [OF r(2), of i x r'] r s show ?thesis by (simp add: remove_policy_def synced_def)
  next
    case (Inr b)
    with delete_ok [OF r(2), of i b r'] r s inj_eq [OF assms(1)] show ?thesis
      by (simp add: remove_policy_def synced_def map_of_map_remove)
  qed
qed

lemma load_synced:
  assumes "inj uuid_str" "pe_repository e = Some r" "ok r"
    and "load_from_repository ops uuid_str e = (Inr n, e')"
  shows "synced uuid_str ok contents e'"
proof -
  obtain ps where ps: "rp_load_all ops r = Inr ps" "e' = replace_all uuid_str ps e"
    using assms(2,4) by (auto simp: load_from_repository_def split: sum.splits)
  with load_ok [OF assms(3) ps(1)] map_of_replace_all [OF assms(1)] assms(2,3) show ?thesis
    by (simp add: synced_def replace_all_def)
qed

lemma load_keeps_synced:
  assumes "inj uuid_str" "synced uuid_str ok contents e"
  shows "synced uuid_str ok contents (snd (load_from_repository ops uuid_str e))"
proof (cases "load_from_repository ops uuid_str e")
  case (Pair res e')
  show ?thesis
  proof (cases res)
    case (Inl x)
    with Pair assms(2) show ?thesis
      by (auto simp: load_from_repository_def split: option.splits sum.splits)
  next
    case (Inr n)
    obtain r where "pe_repository e = Some r" "ok r"
      using assms(2) by (auto simp: synced_def split: option.splits)
    with load_synced [OF assms(1)] Pair Inr show ?thesis by simp
  qed
qed

end

section \<open>The table is a store\<close>

definition pg_contents :: "(string \<Rightarrow> string) \<Rightarrow> policies_table \<Rightarrow> uuid \<rightharpoonup> policy" where
  "pg_contents se table i =
     Option.bind (map_of (map (\<lambda>row. (row_id row, row)) table) i)
       (\<lambda>row. case row_to_policy se row of Inr p \<Rightarrow> Some p | Inl _ \<Rightarrow> None)"

text \<open>The primary key.\<close>

definition pg_ok :: "policies_table \<Rightarrow> bool" where
  "pg_ok table \<longleftrightarrow> distinct (map row_id table)"

lemma row_to_policy_id: "row_to_policy se row = Inr p \<Longrightarrow> pl_id p = row_id row"
  by (auto simp: row_to_policy_def and_then_Inr)

lemma row_roundtrip:
  "effect_to_db (pl_effect p) = Inr eff \<Longrightarrow> row_to_policy se (policy_row_of p eff created now) = Inr p"
  by (cases "pl_effect p")
    (auto simp: effect_to_db_def row_to_policy_def effect_from_db_def policy_row_of_def)

lemma upsert_ok: "pg_ok table \<Longrightarrow> pg_ok (upsert p eff now table)"
proof -
  have "map row_id (map (\<lambda>row. if row_id row = pl_id p then policy_row_of p eff (row_created_at row) now else row) table)
      = map row_id table"
    by (simp add: policy_row_of_def)
  then show "pg_ok table \<Longrightarrow> pg_ok (upsert p eff now table)"
    by (auto simp: pg_ok_def upsert_def policy_row_of_def simp del: map_map)
qed

lemma upsert_rows:
  "map_of (map (\<lambda>row. (row_id row, row)) (upsert p eff now table)) i =
     (if i = pl_id p
      then (case map_of (map (\<lambda>row. (row_id row, row)) table) i of
              None \<Rightarrow> Some (policy_row_of p eff now now) | Some row \<Rightarrow> Some (policy_row_of p eff (row_created_at row) now))
      else map_of (map (\<lambda>row. (row_id row, row)) table) i)"
proof -
  have upd: "map_of (map (\<lambda>row. (row_id row, row))
      (map (\<lambda>row. if row_id row = pl_id p then policy_row_of p eff (row_created_at row) now else row) table)) i =
     (if i = pl_id p
      then map_option (\<lambda>row. policy_row_of p eff (row_created_at row) now) (map_of (map (\<lambda>row. (row_id row, row)) table) i)
      else map_of (map (\<lambda>row. (row_id row, row)) table) i)"
    by (induction table) (auto simp: policy_row_of_def)
  have app: "map_of (map (\<lambda>row. (row_id row, row)) (table @ [policy_row_of p eff now now])) i =
     (case map_of (map (\<lambda>row. (row_id row, row)) table) i of
        Some row \<Rightarrow> Some row | None \<Rightarrow> if i = pl_id p then Some (policy_row_of p eff now now) else None)"
    by (induction table) (auto simp: policy_row_of_def)
  have none: "map_of (map (\<lambda>row. (row_id row, row)) table) k = None \<longleftrightarrow> k \<notin> row_id ` set table" for k
    by (simp add: map_of_eq_None_iff image_image)
  show ?thesis
  proof (cases "pl_id p \<in> row_id ` set table")
    case True
    with none [of i] upd show ?thesis by (auto simp: upsert_def split: option.splits)
  next
    case False
    with none [of "pl_id p"] app show ?thesis by (simp add: upsert_def split: option.splits)
  qed
qed

lemma upsert_contents:
  assumes "effect_to_db (pl_effect p) = Inr eff"
  shows "pg_contents se (upsert p eff now table) = (pg_contents se table)(pl_id p \<mapsto> p)"
  by (auto simp: fun_eq_iff pg_contents_def upsert_rows row_roundtrip [OF assms] split: option.splits)

lemma delete_contents:
  "pg_contents se (filter (\<lambda>row. row_id row \<noteq> i) table) = (pg_contents se table)(i := None)"
proof -
  have "map_of (map (\<lambda>row. (row_id row, row)) (filter (\<lambda>row. row_id row \<noteq> i) table)) k =
      (if k = i then None else map_of (map (\<lambda>row. (row_id row, row)) table) k)" for k
    by (induction table) auto
  then show ?thesis
    by (auto simp: fun_eq_iff pg_contents_def)
qed

lemma collect_rows_Inr:
  "collect_rows se rows = Inr ps \<Longrightarrow> list_all2 (\<lambda>row p. row_to_policy se row = Inr p) rows ps"
  by (induction rows arbitrary: ps) (auto simp: and_then_Inr)

lemma collect_contents:
  "list_all2 (\<lambda>row p. row_to_policy se row = Inr p) rows ps \<Longrightarrow>
     map pl_id ps = map row_id rows \<and> map_of (map (\<lambda>p. (pl_id p, p)) ps) = pg_contents se rows"
  by (induction rows ps rule: list_all2_induct)
    (auto simp: fun_eq_iff pg_contents_def row_to_policy_id split: option.splits)

lemma sort_contents:
  assumes "pg_ok table"
  shows "pg_contents se (sort_key f table) = pg_contents se table" "distinct (map row_id (sort_key f table))"
proof -
  show d: "distinct (map row_id (sort_key f table))"
    using assms by (simp add: pg_ok_def distinct_map)
  have "map_of (map (\<lambda>row. (row_id row, row)) (sort_key f table)) = map_of (map (\<lambda>row. (row_id row, row)) table)"
    using assms d by (subst map_of_inject_set) (auto simp: pg_ok_def comp_def)
  then show "pg_contents se (sort_key f table) = pg_contents se table"
    by (simp add: fun_eq_iff pg_contents_def)
qed

interpretation pg: durable_policies "pg_repository se failure now" pg_ok "pg_contents se" for se failure now
proof (unfold_locales, goal_cases)
  case (1 r p u r')
  then show ?case
    by (auto simp: pg_repository_def pg_save_def upsert_ok upsert_contents split: sum.splits option.splits)
next
  case (2 r p x r')
  then show ?case
    by (auto simp: pg_repository_def pg_save_def split: sum.splits option.splits)
next
  case (3 r i b r')
  then show ?case
    by (auto simp: pg_repository_def pg_delete_def delete_contents pg_ok_def distinct_map_filter split: option.splits)
next
  case (4 r i x r')
  then show ?case
    by (auto simp: pg_repository_def pg_delete_def split: option.splits)
next
  case (5 r ps)
  then have "collect_rows se (sort_key (\<lambda>row. (row_created_at row, row_id row)) r) = Inr ps"
    by (auto simp: pg_repository_def pg_load_all_def split: option.splits)
  note c = collect_contents [OF collect_rows_Inr [OF this]]
  show ?case
    using c sort_contents [OF 5(1), where f = "\<lambda>row. (row_created_at row, row_id row)"] by simp
qed

section \<open>Restarts\<close>

datatype pbac_call = AddPolicy policy | RemovePolicy uuid | LoadPolicies

text \<open>A call, with the time of the statement and its failure, if it fails.\<close>

fun pbac_step ::
  "(string \<Rightarrow> string) \<Rightarrow> (uuid \<Rightarrow> string) \<Rightarrow> pbac_call \<times> string option \<times> time
    \<Rightarrow> policies_table pbac_engine \<Rightarrow> policies_table pbac_engine" where
  "pbac_step se uuid_str (AddPolicy p, failure, now) e = snd (add_policy (pg_repository se failure now) uuid_str p e)"
| "pbac_step se uuid_str (RemovePolicy i, failure, now) e = snd (remove_policy (pg_repository se failure now) uuid_str i e)"
| "pbac_step se uuid_str (LoadPolicies, failure, now) e = snd (load_from_repository (pg_repository se failure now) uuid_str e)"

interpretation in_sync: stateful "pbac_step se uuid_str" "\<lambda>_. inj uuid_str"
  "synced uuid_str pg_ok (pg_contents se)" for se uuid_str
proof unfold_locales
  fix x e
  assume "inj uuid_str" "synced uuid_str pg_ok (pg_contents se) e"
  then show "synced uuid_str pg_ok (pg_contents se) (pbac_step se uuid_str x e)"
    by (cases "(se, uuid_str, x, e)" rule: pbac_step.cases)
      (auto simp: pg.add_synced pg.remove_synced pg.load_keeps_synced)
qed

text \<open>
  C16. Policies survive restarts: start an engine on an empty table and let any sequence of
  additions, removals and reloads happen one after the other, with any of the statements failing without
  effect. A new engine that then loads the same table successfully answers every lookup as the old one does.
\<close>

theorem policies_survive_restart:
  assumes "inj uuid_str" "e = run_ops (pbac_step se uuid_str) calls (with_repository [] engine_without_store)"
    and "pe_repository e = Some table"
    and "load_from_repository (pg_repository se failure now) uuid_str (with_repository table engine_without_store)
           = (Inr n, e')"
  shows "get_policy e' (uuid_str i) = get_policy e (uuid_str i)"
proof -
  have "synced uuid_str pg_ok (pg_contents se) (with_repository [] engine_without_store)"
    by (simp add: synced_def with_repository_def engine_without_store_def pg_ok_def pg_contents_def)
  then have "synced uuid_str pg_ok (pg_contents se) e"
    unfolding assms(2) by (intro in_sync.run_inv) (simp_all add: assms(1) list.pred_True)
  then have e: "pg_ok table" "get_policy e (uuid_str i) = pg_contents se table i" for i
    using assms(3) by (simp_all add: synced_def get_policy_def)
  have "synced uuid_str pg_ok (pg_contents se) e'"
    using pg.load_synced [OF assms(1) _ e(1) assms(4)] by (simp add: with_repository_def)
  moreover have "pe_repository e' = Some table"
    using assms(4) by (auto simp: load_from_repository_def with_repository_def replace_all_def split: sum.splits)
  ultimately have "get_policy e' (uuid_str i) = pg_contents se table i"
    by (simp add: synced_def get_policy_def)
  then show ?thesis
    using e(2) [of i] by (rule trans [OF _ sym])
qed

definition demo_uuid_str :: "uuid \<Rightarrow> string" where
  "demo_uuid_str u = replicate (unat u) CHR ''x''"

lemma demo_uuid_str_inj: "inj demo_uuid_str"
proof (rule injI)
  fix u v :: uuid
  assume "demo_uuid_str u = demo_uuid_str v"
  then have "unat u = unat v"
    by (metis demo_uuid_str_def length_replicate)
  then show "u = v" by (simp add: word_unat_eq_iff)
qed

theorem policies_survive_restart_witness:
  "let p = demo_policy 1 Deny demo_always None;
       e = run_ops (pbac_step id demo_uuid_str) [(AddPolicy p, None, 0), (RemovePolicy 1, Some ''connection lost'', 1)]
             (with_repository [] engine_without_store)
   in \<exists>n e'. load_from_repository (pg_repository id None 2) demo_uuid_str
          (with_repository (the (pe_repository e)) engine_without_store) = (Inr n, e')
        \<and> get_policy e' (demo_uuid_str 1) = get_policy e (demo_uuid_str 1) \<and> get_policy e (demo_uuid_str 1) = Some p"
proof -
  define p where "p = demo_policy 1 Deny demo_always None"
  define calls where "calls = [(AddPolicy p, None, 0 :: int), (RemovePolicy 1, Some ''connection lost'', 1)]"
  define e where "e = run_ops (pbac_step id demo_uuid_str) calls (with_repository [] engine_without_store)"
  let ?table = "[policy_row_of p ''DENY'' 0 0]"
  have p: "pl_id p = 1" "pl_effect p = Deny"
    by (simp_all add: p_def demo_policy_def)
  have e: "pe_repository e = Some ?table" "get_policy e (demo_uuid_str 1) = Some p"
    by (simp_all add: e_def calls_def with_repository_def engine_without_store_def add_policy_def remove_policy_def
        pg_repository_def pg_save_def pg_delete_def effect_to_db_def upsert_def get_policy_def map_insert_def p)
  have "\<exists>n e'. load_from_repository (pg_repository id None 2) demo_uuid_str
      (with_repository ?table engine_without_store) = (Inr n, e')"
    using row_roundtrip [of p "''DENY''" id 0 0]
    by (simp add: load_from_repository_def with_repository_def pg_repository_def pg_load_all_def effect_to_db_def p)
  then obtain n e' where l: "load_from_repository (pg_repository id None 2) demo_uuid_str
      (with_repository ?table engine_without_store) = (Inr n, e')" by blast
  from policies_survive_restart [OF demo_uuid_str_inj e_def e(1) l, of 1] l e show ?thesis
    unfolding Let_def p_def [symmetric] calls_def [symmetric] e_def [symmetric] by auto
qed

end
