(* ===== verification/Audit_Log.thy ===== *)
theory Audit_Log
  imports Aad Policy "HOL-Library.Char_ord" "HOL-Library.List_Lexorder" "HOL-Library.Sublist"
begin

text \<open>
  The tamper-evident audit log of \<^verbatim>\<open>crates/kms-audit\<close>: events (\<^verbatim>\<open>kms-core/src/event.rs\<close>),
  signed entries (\<^verbatim>\<open>lib.rs\<close>), the plain and the signing logger (\<^verbatim>\<open>logger.rs\<close>) and the
  integrity verifier (\<^verbatim>\<open>verifier.rs\<close>). The JSON encoder and decoder and the hash functions come from
  other crates and are the fields of the record \<open>audit_crates\<close>. The critical sections of a
  logging call are also the steps of a transition system, in which calls interleave.
\<close>

section \<open>Events\<close>

datatype event_type =
    KeyCreated | KeyAccessed | KeyMaterialAccessed | KeyEncrypted | KeyDecrypted | KeySigned
  | KeyVerified | KeyRotated | KeyDeleted | KeyDestroyed | KeyImported | KeyExportRequested
  | KeyExported
  | PolicyCreated | PolicyUpdated | PolicyDeleted | PolicyChanged | PolicyEvaluated
  | AccessGranted | AccessDenied
  | SystemStarted | SystemStopped | HealthCheck | SelfTestPassed | SelfTestFailed
  | AdminLogin | AdminLogout | ConfigChanged
  | MfaSetup | MfaVerified | MfaFailed | MfaBackupCodeUsed
  | ApiKeyCreated | ApiKeyRotated | ApiKeyRevoked
  | RateLimitTriggered
  | SessionCreated | SessionExpired
  | BackupCreated | BackupRestored
  | ApprovalRequested | ApprovalGranted | ApprovalDenied

text \<open>
  The metadata of an event are a hash map. Its encoding depends on the iteration order, so the map is
  an association list in this order.
\<close>

record audit_event =
  av_event_id :: uuid
  av_timestamp :: time
  av_event_type :: event_type
  av_actor_id :: string
  av_actor_type :: string
  av_action :: string
  av_resource_type :: string
  av_resource_id :: "string option"
  av_result :: string
  av_metadata :: "(string \<times> json) list"

definition event_new ::
  "uuid \<Rightarrow> time \<Rightarrow> event_type \<Rightarrow> string \<Rightarrow> string \<Rightarrow> string \<Rightarrow> string \<Rightarrow> string option \<Rightarrow> string \<Rightarrow> audit_event" where
  "event_new new_id now ty actor_id actor_type action resource_type resource_id res =
     \<lparr>av_event_id = new_id, av_timestamp = now, av_event_type = ty, av_actor_id = actor_id,
      av_actor_type = actor_type, av_action = action, av_resource_type = resource_type,
      av_resource_id = resource_id, av_result = res, av_metadata = []\<rparr>"

record trusted_timestamp =
  tt_raw_token :: bytes
  tt_gen_time :: int
  tt_serial_number :: bytes
  tt_policy :: string
  tt_hash_algorithm :: string
  tt_nonce :: bytes
  tt_accuracy_millis :: u32

record signed_audit_entry =
  sg_payload :: audit_event
  sg_signature :: bytes
  sg_sequence :: u64
  sg_previous_signature :: "bytes option"
  sg_trusted_timestamp :: "trusted_timestamp option"

text \<open>
  \<open>ring\<close>'s HMAC-SHA256 and SHA-256, and \<open>serde_json\<close>'s encoders of events and entries and decoder
  of a line, with the text of its error.
\<close>

record audit_crates =
  ac_hmac :: "bytes \<Rightarrow> bytes \<Rightarrow> bytes"
  ac_sha256 :: "bytes \<Rightarrow> bytes"
  ac_event_json :: "audit_event \<Rightarrow> string option"
  ac_entry_json :: "signed_audit_entry \<Rightarrow> string option"
  ac_parse_entry :: "string \<Rightarrow> string + signed_audit_entry"

definition payload_json :: "audit_crates \<Rightarrow> audit_event \<Rightarrow> bytes" where
  "payload_json ac ev = (case ac_event_json ac ev of Some s \<Rightarrow> str_bytes s | None \<Rightarrow> [])"

definition signing_input :: "audit_crates \<Rightarrow> audit_event \<Rightarrow> u64 \<Rightarrow> bytes option \<Rightarrow> bytes" where
  "signing_input ac payload sequence previous_signature =
     le_bytes 8 (unat sequence)
     @ (case previous_signature of Some prev_sig \<Rightarrow> prev_sig | None \<Rightarrow> [])
     @ payload_json ac payload"

definition signed_entry_new ::
  "audit_crates \<Rightarrow> audit_event \<Rightarrow> u64 \<Rightarrow> bytes \<Rightarrow> bytes option \<Rightarrow> trusted_timestamp option \<Rightarrow> signed_audit_entry" where
  "signed_entry_new ac payload sequence signing_key previous_signature trusted_timestamp =
     \<lparr>sg_payload = payload,
      sg_signature = ac_hmac ac signing_key (signing_input ac payload sequence previous_signature),
      sg_sequence = sequence, sg_previous_signature = previous_signature,
      sg_trusted_timestamp = trusted_timestamp\<rparr>"

text \<open>\<open>ring::hmac::verify\<close> compares the given tag with the computed one.\<close>

definition entry_input :: "audit_crates \<Rightarrow> signed_audit_entry \<Rightarrow> bytes" where
  "entry_input ac e = signing_input ac (sg_payload e) (sg_sequence e) (sg_previous_signature e)"

definition entry_verify :: "audit_crates \<Rightarrow> bytes \<Rightarrow> signed_audit_entry \<Rightarrow> bool" where
  "entry_verify ac signing_key e \<longleftrightarrow> ac_hmac ac signing_key (entry_input ac e) = sg_signature e"

definition entry_verify_chain :: "audit_crates \<Rightarrow> bytes \<Rightarrow> bytes option \<Rightarrow> signed_audit_entry \<Rightarrow> bool" where
  "entry_verify_chain ac signing_key previous_signature e \<longleftrightarrow>
     (if \<not> entry_verify ac signing_key e then False
      else case (sg_previous_signature e, previous_signature) of
             (Some cur, Some prev) \<Rightarrow> cur = prev
           | (None, None) \<Rightarrow> True
           | _ \<Rightarrow> False)"

section \<open>The plain logger\<close>

record audit_config =
  cf_output_path :: string
  cf_flush_interval_secs :: u64
  cf_buffer_size :: nat
  cf_kafka_brokers :: "string option"
  cf_kafka_topic :: "string option"

definition audit_config_default :: audit_config where
  "audit_config_default = \<lparr>cf_output_path = ''stdout'', cf_flush_interval_secs = 5, cf_buffer_size = 100,
     cf_kafka_brokers = None, cf_kafka_topic = None\<rparr>"

record audit_filter =
  fl_event_types :: "event_type list option"
  fl_actor_id :: "string option"
  fl_resource_id :: "string option"
  fl_start_time :: "time option"
  fl_end_time :: "time option"
  fl_limit :: "nat option"
  fl_offset :: "nat option"

text \<open>The two places output goes to: standard output and the file of the configured path.\<close>

record sinks =
  sk_stdout :: string
  sk_file :: string

text \<open>
  Writing lines: \<open>opened\<close> tells whether the file could be opened, \<open>written i\<close> whether the write of the
  line \<open>i\<close> succeeded; the source ignores failed writes and entries that do not encode.
\<close>

definition to_lines :: "('a \<Rightarrow> string option) \<Rightarrow> (nat \<Rightarrow> bool) \<Rightarrow> 'a list \<Rightarrow> string" where
  "to_lines enc written xs =
     concat (map (\<lambda>i. case enc (xs ! i) of Some line \<Rightarrow> if written i then line @ [CHR 0x0A] else [] | None \<Rightarrow> [])
       [0..<length xs])"

definition write_lines ::
  "audit_config \<Rightarrow> ('a \<Rightarrow> string option) \<Rightarrow> bool \<Rightarrow> (nat \<Rightarrow> bool) \<Rightarrow> 'a list \<Rightarrow> sinks \<Rightarrow> sinks" where
  "write_lines cf enc opened written xs sk =
     (let out = to_lines enc written xs
      in if cf_output_path cf = ''stdout'' \<or> \<not> opened then sk\<lparr>sk_stdout := sk_stdout sk @ out\<rparr>
         else sk\<lparr>sk_file := sk_file sk @ out\<rparr>)"

record audit_logger =
  al_config :: audit_config
  al_buffer :: "audit_event list"
  al_sinks :: sinks

definition al_flush :: "audit_crates \<Rightarrow> bool \<Rightarrow> (nat \<Rightarrow> bool) \<Rightarrow> audit_logger \<Rightarrow> audit_logger" where
  "al_flush ac opened written l =
     (let events = al_buffer l; l' = l\<lparr>al_buffer := []\<rparr>
      in if events = [] then l'
         else l'\<lparr>al_sinks := write_lines (al_config l) (ac_event_json ac) opened written events (al_sinks l)\<rparr>)"

definition al_log :: "audit_crates \<Rightarrow> bool \<Rightarrow> (nat \<Rightarrow> bool) \<Rightarrow> audit_event \<Rightarrow> audit_logger \<Rightarrow> audit_logger" where
  "al_log ac opened written ev l =
     (let l' = l\<lparr>al_buffer := al_buffer l @ [ev]\<rparr>
      in if cf_buffer_size (al_config l) \<le> length (al_buffer l') then al_flush ac opened written l' else l')"

definition filter_matches :: "audit_filter \<Rightarrow> audit_event \<Rightarrow> bool" where
  "filter_matches f ev \<longleftrightarrow>
     (case fl_event_types f of Some types \<Rightarrow> av_event_type ev \<in> set types | None \<Rightarrow> True)
     \<and> (case fl_actor_id f of Some a \<Rightarrow> av_actor_id ev = a | None \<Rightarrow> True)
     \<and> (case fl_resource_id f of Some r \<Rightarrow> av_resource_id ev = Some r | None \<Rightarrow> True)
     \<and> (case fl_start_time f of Some t \<Rightarrow> t \<le> av_timestamp ev | None \<Rightarrow> True)
     \<and> (case fl_end_time f of Some t \<Rightarrow> av_timestamp ev \<le> t | None \<Rightarrow> True)"

definition unwrap_or :: "'a \<Rightarrow> 'a option \<Rightarrow> 'a" where
  "unwrap_or d x = (case x of Some v \<Rightarrow> v | None \<Rightarrow> d)"

definition al_query :: "audit_filter \<Rightarrow> audit_logger \<Rightarrow> audit_event list" where
  "al_query f l =
     take (unwrap_or 100 (fl_limit f)) (drop (unwrap_or 0 (fl_offset f)) (filter (filter_matches f) (al_buffer l)))"

definition al_backlog_depth :: "audit_logger \<Rightarrow> nat" where
  "al_backlog_depth l = length (al_buffer l)"

section \<open>The signing logger\<close>

record signed_audit_config =
  sc_base :: audit_config
  sc_signing_key :: bytes
  sc_initial_sequence :: u64

definition signed_config_new :: "(nat \<Rightarrow> u8) \<Rightarrow> audit_config \<Rightarrow> u64 \<Rightarrow> signed_audit_config" where
  "signed_config_new rng base initial_sequence =
     \<lparr>sc_base = base, sc_signing_key = fill_bytes rng 32, sc_initial_sequence = initial_sequence\<rparr>"

definition signed_config_with_key :: "audit_config \<Rightarrow> bytes \<Rightarrow> u64 \<Rightarrow> signed_audit_config" where
  "signed_config_with_key base signing_key initial_sequence =
     \<lparr>sc_base = base, sc_signing_key = signing_key, sc_initial_sequence = initial_sequence\<rparr>"

record signed_audit_logger =
  sl_config :: signed_audit_config
  sl_buffer :: "signed_audit_entry list"
  sl_current_sequence :: u64
  sl_previous_signature :: "bytes option"
  sl_sinks :: sinks

definition sl_new :: "signed_audit_config \<Rightarrow> sinks \<Rightarrow> signed_audit_logger" where
  "sl_new config sk = \<lparr>sl_config = config, sl_buffer = [], sl_current_sequence = 0,
     sl_previous_signature = None, sl_sinks = sk\<rparr>"

definition sl_key :: "signed_audit_logger \<Rightarrow> bytes" where
  "sl_key l = sc_signing_key (sl_config l)"

text \<open>The four critical sections of a logging call: sequence number, read link, store link, push.\<close>

definition take_sequence :: "signed_audit_logger \<Rightarrow> u64 \<times> signed_audit_logger" where
  "take_sequence l = (sl_current_sequence l, l\<lparr>sl_current_sequence := sl_current_sequence l + 1\<rparr>)"

definition store_signature :: "bytes \<Rightarrow> signed_audit_logger \<Rightarrow> signed_audit_logger" where
  "store_signature sig l = l\<lparr>sl_previous_signature := Some sig\<rparr>"

definition push_entry :: "signed_audit_entry \<Rightarrow> signed_audit_logger \<Rightarrow> signed_audit_logger" where
  "push_entry e l = l\<lparr>sl_buffer := sl_buffer l @ [e]\<rparr>"

definition buffer_full :: "signed_audit_logger \<Rightarrow> bool" where
  "buffer_full l \<longleftrightarrow> cf_buffer_size (sc_base (sl_config l)) \<le> length (sl_buffer l)"

definition write_entries ::
  "audit_crates \<Rightarrow> bool \<Rightarrow> (nat \<Rightarrow> bool) \<Rightarrow> signed_audit_entry list \<Rightarrow> signed_audit_logger \<Rightarrow> signed_audit_logger" where
  "write_entries ac opened written es l =
     (if es = [] then l
      else l\<lparr>sl_sinks := write_lines (sc_base (sl_config l)) (ac_entry_json ac) opened written es (sl_sinks l)\<rparr>)"

definition sl_flush :: "audit_crates \<Rightarrow> bool \<Rightarrow> (nat \<Rightarrow> bool) \<Rightarrow> signed_audit_logger \<Rightarrow> signed_audit_logger" where
  "sl_flush ac opened written l = write_entries ac opened written (sl_buffer l) (l\<lparr>sl_buffer := []\<rparr>)"

definition sl_log ::
  "audit_crates \<Rightarrow> bool \<Rightarrow> (nat \<Rightarrow> bool) \<Rightarrow> audit_event \<Rightarrow> signed_audit_logger \<Rightarrow> signed_audit_logger" where
  "sl_log ac opened written ev l =
     (let (sequence, l1) = take_sequence l;
          prev_sig = sl_previous_signature l1;
          e = signed_entry_new ac ev sequence (sl_key l1) prev_sig None;
          l2 = store_signature (sg_signature e) l1;
          l3 = push_entry e l2
      in if buffer_full l3 then sl_flush ac opened written l3 else l3)"

definition sl_backlog_depth :: "signed_audit_logger \<Rightarrow> nat" where
  "sl_backlog_depth l = length (sl_buffer l)"

text \<open>The chain head: 32 bytes of the last signature, or of a fixed HMAC before the first entry.\<close>

definition get_chain_head :: "audit_crates \<Rightarrow> signed_audit_logger \<Rightarrow> bytes" where
  "get_chain_head ac l =
     (case sl_previous_signature l of
        Some sig \<Rightarrow> take 32 sig @ replicate (32 - length sig) 0
      | None \<Rightarrow> ac_hmac ac (str_bytes ''kms-audit-genesis'') (str_bytes ''genesis''))"

fun verify_entries :: "audit_crates \<Rightarrow> bytes \<Rightarrow> bytes option \<Rightarrow> signed_audit_entry list \<Rightarrow> bool" where
  "verify_entries ac key prev_sig [] = True"
| "verify_entries ac key prev_sig (e # es) =
     (entry_verify_chain ac key prev_sig e \<and> verify_entries ac key (Some (sg_signature e)) es)"

definition verify_all :: "audit_crates \<Rightarrow> signed_audit_logger \<Rightarrow> bool" where
  "verify_all ac l = verify_entries ac (sl_key l) None (sl_buffer l)"

section \<open>The verifier\<close>

record verification_report =
  vr_valid :: bool
  vr_entries_checked :: nat
  vr_first_invalid_index :: "nat option"
  vr_error :: "msg option"

text \<open>
  \<open>str::lines\<close>: the parts between line feeds, without a carriage return before the feed, and without
  a last empty part.
\<close>

definition strip_cr :: "string \<Rightarrow> string" where
  "strip_cr s = (if s \<noteq> [] \<and> last s = CHR 0x0D then butlast s else s)"

definition str_lines :: "string \<Rightarrow> string list" where
  "str_lines content =
     (let parts = split_on (CHR 0x0A) content
      in map strip_cr (butlast parts) @ (if last parts = [] then [] else [last parts]))"

fun verify_lines ::
  "audit_crates \<Rightarrow> bytes \<Rightarrow> nat \<Rightarrow> bytes option \<Rightarrow> nat option \<Rightarrow> string list \<Rightarrow> verification_report" where
  "verify_lines ac key i prev_signature first_invalid [] =
     \<lparr>vr_valid = (first_invalid = None), vr_entries_checked = i, vr_first_invalid_index = first_invalid,
      vr_error = map_option (\<lambda>i. Fmt [Lit ''Chain broken at entry '', Num i]) first_invalid\<rparr>"
| "verify_lines ac key i prev_signature first_invalid (line # lines) =
     (case ac_parse_entry ac line of
        Inl err \<Rightarrow> \<lparr>vr_valid = False, vr_entries_checked = i, vr_first_invalid_index = Some i,
                   vr_error = Some (Fmt [Lit ''Failed to parse entry '', Num i, Lit '': '', Str err])\<rparr>
      | Inr e \<Rightarrow>
          let first_invalid' =
                (case prev_signature of
                   Some expected_prev \<Rightarrow>
                     if sg_previous_signature e \<noteq> Some expected_prev
                     then (case first_invalid of None \<Rightarrow> Some i | Some j \<Rightarrow> Some j) else first_invalid
                 | None \<Rightarrow> first_invalid)
          in if \<not> entry_verify ac key e then
               \<lparr>vr_valid = False, vr_entries_checked = i + 1, vr_first_invalid_index = Some i,
                vr_error = Some (Fmt [Lit ''Signature verification failed at entry '', Num i])\<rparr>
             else verify_lines ac key (i + 1) (Some (sg_signature e)) first_invalid' lines)"

definition verify_content :: "audit_crates \<Rightarrow> bytes \<Rightarrow> string \<Rightarrow> verification_report" where
  "verify_content ac key content = verify_lines ac key 0 None None (str_lines content)"

definition jsonl_name :: "string \<Rightarrow> bool" where
  "jsonl_name name \<longleftrightarrow> ends_with name ''.jsonl'' \<and> length name > 6"

text \<open>
  The log files one after the other: each is its path and the outcome of reading it, the text of the
  file or of the error.
\<close>

definition join_path :: "string \<Rightarrow> string \<Rightarrow> string" where
  "join_path dir name = (if ends_with dir ''/'' then dir @ name else dir @ ''/'' @ name)"

fun verify_files ::
  "audit_crates \<Rightarrow> bytes \<Rightarrow> nat \<Rightarrow> (string \<times> (string + string)) list \<Rightarrow> verification_report" where
  "verify_files ac key checked [] =
     \<lparr>vr_valid = True, vr_entries_checked = checked, vr_first_invalid_index = None, vr_error = None\<rparr>"
| "verify_files ac key checked ((path, outcome) # files) =
     (case outcome of
        Inl err \<Rightarrow>
          \<lparr>vr_valid = False, vr_entries_checked = checked, vr_first_invalid_index = None,
           vr_error = Some (Fmt [Fmt [Lit ''Failed to read '', Dbg path, Lit '': '', Str err],
                                 Lit '' (file: '', Str path, Lit '')''])\<rparr>
      | Inr content \<Rightarrow>
          let report = verify_content ac key content; checked' = checked + vr_entries_checked report
          in if \<not> vr_valid report then
               \<lparr>vr_valid = False, vr_entries_checked = checked', vr_first_invalid_index = None,
                vr_error = Some (Fmt [unwrap_or (Lit ''Unknown error'') (vr_error report),
                                      Lit '' (file: '', Str path, Lit '')''])\<rparr>
             else verify_files ac key checked' files)"

text \<open>\<open>files\<close> lists the directory by file names; the verifier sorts the paths.\<close>

definition verify_directory ::
  "audit_crates \<Rightarrow> bytes \<Rightarrow> string \<Rightarrow> (string \<times> (string + string)) list \<Rightarrow> verification_report" where
  "verify_directory ac key log_path files =
     verify_files ac key 0 (sort_key fst (map (\<lambda>(name, outcome). (join_path log_path name, outcome))
       (filter (\<lambda>(name, _). jsonl_name name) files)))"

section \<open>Interleaved calls\<close>

text \<open>
  A call in progress: what is left to do and what it has read so far. Each critical section, and each
  write of drained entries, is one step; between the steps other calls take theirs.
\<close>

datatype log_call =
    Begin audit_event
  | HasSequence audit_event u64
  | HasLink audit_event u64 "bytes option"
  | Signed signed_audit_entry
  | Flushing
  | Writing "signed_audit_entry list"
  | Done

inductive call_step ::
  "audit_crates \<Rightarrow> log_call \<times> signed_audit_logger \<Rightarrow> log_call \<times> signed_audit_logger \<Rightarrow> bool"
  for ac where
  begin_step: "take_sequence l = (n, l') \<Longrightarrow> call_step ac (Begin ev, l) (HasSequence ev n, l')"
| link_step: "call_step ac (HasSequence ev n, l) (HasLink ev n (sl_previous_signature l), l)"
| sign_step: "e = signed_entry_new ac ev n (sl_key l) p None \<Longrightarrow>
    call_step ac (HasLink ev n p, l) (Signed e, store_signature (sg_signature e) l)"
| push_step: "call_step ac (Signed e, l) (if buffer_full (push_entry e l) then Flushing else Done, push_entry e l)"
| drain_step: "call_step ac (Flushing, l) (Writing (sl_buffer l), l\<lparr>sl_buffer := []\<rparr>)"
| write_step: "call_step ac (Writing es, l) (Done, write_entries ac opened written es l)"

inductive log_step ::
  "audit_crates \<Rightarrow> log_call list \<times> signed_audit_logger \<Rightarrow> log_call list \<times> signed_audit_logger \<Rightarrow> bool"
  for ac where
  one_call: "i < length cs \<Longrightarrow> call_step ac (cs ! i, l) (c, l') \<Longrightarrow> log_step ac (cs, l) (cs[i := c], l')"

inductive_simps call_step_simps:
  "call_step ac (Begin ev, l) x" "call_step ac (HasSequence ev n, l) x" "call_step ac (HasLink ev n p, l) x"
  "call_step ac (Signed e, l) x" "call_step ac (Flushing, l) x" "call_step ac (Writing es, l) x"
  "call_step ac (Done, l) x"

inductive_cases log_stepE: "log_step ac (cs, l) (cs', l')"

definition log_reaches ::
  "audit_crates \<Rightarrow> log_call list \<times> signed_audit_logger \<Rightarrow> log_call list \<times> signed_audit_logger \<Rightarrow> bool" where
  "log_reaches ac = rtranclp (log_step ac)"

definition seq_ops :: "audit_crates \<Rightarrow> (audit_event + unit) \<Rightarrow> signed_audit_logger \<Rightarrow> signed_audit_logger" where
  "seq_ops ac c l = (case c of Inl ev \<Rightarrow> sl_log ac True (\<lambda>_. True) ev l | Inr _ \<Rightarrow> sl_flush ac True (\<lambda>_. True) l)"

section \<open>Lines\<close>

lemma split_on_line: "c \<notin> set s \<Longrightarrow> split_on c (s @ c # t) = s # split_on c t"
  by (induction s) auto

text \<open>Texts without line ends, which is what the compact JSON encoder produces.\<close>

definition one_line :: "string \<Rightarrow> bool" where
  "one_line s \<longleftrightarrow> CHR 0x0A \<notin> set s \<and> CHR 0x0D \<notin> set s"

lemma strip_cr_one_line [simp]: "one_line s \<Longrightarrow> strip_cr s = s"
  using last_in_set by (fastforce simp: strip_cr_def one_line_def)

lemma split_on_lines:
  "list_all one_line ss \<Longrightarrow> split_on (CHR 0x0A) (concat (map (\<lambda>s. s @ [CHR 0x0A]) ss)) = ss @ [[]]"
  by (induction ss) (simp_all add: split_on_line one_line_def)

lemma str_lines_concat:
  "list_all one_line ss \<Longrightarrow> str_lines (concat (map (\<lambda>s. s @ [CHR 0x0A]) ss)) = ss"
  by (simp add: str_lines_def split_on_lines Let_def) (simp add: list_all_iff map_idI)

lemma to_lines_all:
  assumes "\<forall>x \<in> set xs. enc x = Some (f x)"
  shows "to_lines enc (\<lambda>_. True) xs = concat (map (\<lambda>x. f x @ [CHR 0x0A]) xs)"
proof -
  have "to_lines enc (\<lambda>_. True) xs = concat (map (\<lambda>i. f (xs ! i) @ [CHR 0x0A]) [0..<length xs])"
    unfolding to_lines_def using assms by (intro arg_cong [where f = concat] map_cong) auto
  also have "map (\<lambda>i. f (xs ! i) @ [CHR 0x0A]) [0..<length xs] = map (\<lambda>x. f x @ [CHR 0x0A]) (map ((!) xs) [0..<length xs])"
    by simp
  finally show ?thesis by (simp only: map_nth)
qed

section \<open>What the verifier accepts\<close>

text \<open>Every entry but the first links to its predecessor; \<open>prev\<close> is the link expected of the first.\<close>

fun linked :: "bytes option \<Rightarrow> signed_audit_entry list \<Rightarrow> bool" where
  "linked prev [] = True"
| "linked prev (e # es) = ((prev = None \<or> sg_previous_signature e = prev) \<and> linked (Some (sg_signature e)) es)"

definition parses :: "audit_crates \<Rightarrow> string list \<Rightarrow> signed_audit_entry list \<Rightarrow> bool" where
  "parses ac lines es \<longleftrightarrow> map (ac_parse_entry ac) lines = map Inr es"

lemma verify_lines_valid:
  "vr_valid (verify_lines ac key i prev fi lines) \<longleftrightarrow>
     fi = None \<and> (\<exists>es. parses ac lines es \<and> list_all (entry_verify ac key) es \<and> linked prev es)"
proof (induction lines arbitrary: i prev fi)
  case Nil
  then show ?case by (simp add: parses_def)
next
  case (Cons line lines)
  show ?case
    by (auto simp: Cons.IH parses_def Cons_eq_map_conv map_eq_Cons_conv Let_def split: sum.splits option.splits
        if_splits)
qed

lemma verify_lines_checked:
  assumes "vr_valid (verify_lines ac key i prev fi lines)"
  shows "verify_lines ac key i prev fi lines
       = \<lparr>vr_valid = True, vr_entries_checked = i + length lines, vr_first_invalid_index = None, vr_error = None\<rparr>"
  using assms
proof (induction lines arbitrary: i prev fi)
  case Nil
  then show ?case by simp
next
  case (Cons line lines)
  then obtain e where "ac_parse_entry ac line = Inr e" "entry_verify ac key e"
    by (auto simp: Let_def split: sum.splits if_splits)
  with Cons.prems show ?case
    by (simp only: verify_lines.simps sum.case Let_def not_not if_False simp_thms) (simp add: Cons.IH)
qed

lemma verify_content_valid:
  "vr_valid (verify_content ac key content) \<longleftrightarrow>
     (\<exists>es. parses ac (str_lines content) es \<and> list_all (entry_verify ac key) es \<and> linked None es)"
  by (simp add: verify_content_def verify_lines_valid)

section \<open>Sequential logging\<close>

text \<open>The entries a sequence of events is logged as, from a sequence number and a link on.\<close>

fun sign_chain :: "audit_crates \<Rightarrow> bytes \<Rightarrow> u64 \<Rightarrow> bytes option \<Rightarrow> audit_event list \<Rightarrow> signed_audit_entry list" where
  "sign_chain ac key n prev [] = []"
| "sign_chain ac key n prev (ev # evs) =
     (let e = signed_entry_new ac ev n key prev None
      in e # sign_chain ac key (n + 1) (Some (sg_signature e)) evs)"

definition chain_end :: "bytes option \<Rightarrow> signed_audit_entry list \<Rightarrow> bytes option" where
  "chain_end prev es = (if es = [] then prev else Some (sg_signature (last es)))"

lemma chain_end_simps [simp]:
  "chain_end prev [] = prev" "chain_end prev (es @ [e]) = Some (sg_signature e)"
  "chain_end prev (e # es) = chain_end (Some (sg_signature e)) es"
  by (simp_all add: chain_end_def)

lemma sign_chain_snoc:
  "sign_chain ac key n prev (evs @ [ev]) = sign_chain ac key n prev evs
     @ [signed_entry_new ac ev (n + of_nat (length evs)) key (chain_end prev (sign_chain ac key n prev evs)) None]"
  by (induction evs arbitrary: n prev) (simp_all add: Let_def algebra_simps)

lemma sign_chain_payloads [simp]: "map sg_payload (sign_chain ac key n prev evs) = evs"
  by (induction evs arbitrary: n prev) (simp_all add: Let_def signed_entry_new_def)

lemma length_sign_chain [simp]: "length (sign_chain ac key n prev evs) = length evs"
  by (metis length_map sign_chain_payloads)

lemma signed_entry_verifies [simp]: "entry_verify ac key (signed_entry_new ac ev n key prev t)"
  by (simp add: entry_verify_def entry_input_def signed_entry_new_def)

lemma signed_entry_link [simp]: "sg_previous_signature (signed_entry_new ac ev n key prev t) = prev"
  by (simp add: signed_entry_new_def)

lemma sign_chain_verifies: "list_all (entry_verify ac key) (sign_chain ac key n prev evs)"
  by (induction evs arbitrary: n prev) (simp_all add: Let_def)

lemma sign_chain_linked: "linked prev (sign_chain ac key n prev evs)"
  by (induction evs arbitrary: n prev) (simp_all add: Let_def signed_entry_new_def)

lemma sign_chain_verify_entries: "verify_entries ac key prev (sign_chain ac key n prev evs)"
  by (induction evs arbitrary: n prev)
    (simp_all add: Let_def entry_verify_chain_def signed_entry_link split: option.splits)

text \<open>
  The JSON crate handles an entry: encoding succeeds, gives one line, and decoding returns the entry.
  This is so when the metadata have at most one key; with more keys, decoding builds a map that may
  iterate in another order.
\<close>

definition roundtrips :: "audit_crates \<Rightarrow> signed_audit_entry \<Rightarrow> bool" where
  "roundtrips ac e \<longleftrightarrow>
     (case ac_entry_json ac e of Some s \<Rightarrow> one_line s \<and> ac_parse_entry ac s = Inr e | None \<Rightarrow> False)"

definition entry_line :: "audit_crates \<Rightarrow> signed_audit_entry \<Rightarrow> string" where
  "entry_line ac e = (case ac_entry_json ac e of Some s \<Rightarrow> s | None \<Rightarrow> [])"

definition file_text :: "audit_crates \<Rightarrow> signed_audit_entry list \<Rightarrow> string" where
  "file_text ac es = concat (map (\<lambda>s. s @ [CHR 0x0A]) (map (entry_line ac) es))"

lemma file_text_append [simp]: "file_text ac (es @ es') = file_text ac es @ file_text ac es'"
  by (simp add: file_text_def)

lemma file_text_lines:
  assumes "list_all (roundtrips ac) es"
  shows "str_lines (file_text ac es) = map (entry_line ac) es" "parses ac (str_lines (file_text ac es)) es"
proof -
  have one: "one_line (entry_line ac e) \<and> ac_parse_entry ac (entry_line ac e) = Inr e" if "roundtrips ac e" for e
    using that by (auto simp: roundtrips_def entry_line_def split: option.splits)
  then show *: "str_lines (file_text ac es) = map (entry_line ac) es"
    unfolding file_text_def using assms by (intro str_lines_concat) (simp add: list.pred_map list_all_iff)
  show "parses ac (str_lines (file_text ac es)) es"
    unfolding * parses_def using one assms by (simp add: list_all_iff)
qed

lemma to_lines_entries:
  assumes "list_all (roundtrips ac) es"
  shows "to_lines (ac_entry_json ac) (\<lambda>_. True) es = file_text ac es"
proof -
  have "\<forall>e \<in> set es. ac_entry_json ac e = Some (entry_line ac e)"
    using assms by (auto simp: roundtrips_def entry_line_def list_all_iff split: option.splits)
  from to_lines_all [OF this] show ?thesis by (simp add: file_text_def comp_def)
qed

text \<open>What the logger has written and buffered is the chain of the events logged so far.\<close>

definition log_inv :: "audit_crates \<Rightarrow> signed_audit_config \<Rightarrow> audit_event list \<Rightarrow> signed_audit_logger \<Rightarrow> bool" where
  "log_inv ac config evs l \<longleftrightarrow> sl_config l = config \<and> sl_current_sequence l = of_nat (length evs)
     \<and> (\<exists>es. sk_file (sl_sinks l) = file_text ac es \<and> es @ sl_buffer l = sign_chain ac (sc_signing_key config) 0 None evs)
     \<and> sl_previous_signature l = chain_end None (sign_chain ac (sc_signing_key config) 0 None evs)"

lemma log_inv_new: "sk_file sk = [] \<Longrightarrow> log_inv ac config [] (sl_new config sk)"
  by (simp add: log_inv_def sl_new_def file_text_def)

lemma log_inv_flush:
  assumes "cf_output_path (sc_base config) \<noteq> ''stdout''" "list_all (roundtrips ac) (sign_chain ac (sc_signing_key config) 0 None evs)"
    and "log_inv ac config evs l"
  shows "log_inv ac config evs (sl_flush ac True (\<lambda>_. True) l)" "sl_buffer (sl_flush ac True (\<lambda>_. True) l) = []"
proof -
  let ?chain = "sign_chain ac (sc_signing_key config) 0 None evs"
  obtain es where es: "sk_file (sl_sinks l) = file_text ac es" "es @ sl_buffer l = ?chain"
    using assms(3) by (auto simp: log_inv_def)
  have "list_all (roundtrips ac) (es @ sl_buffer l)"
    unfolding es(2) by (rule assms(2))
  then have "to_lines (ac_entry_json ac) (\<lambda>_. True) (sl_buffer l) = file_text ac (sl_buffer l)"
    using to_lines_entries by simp
  with es assms(1,3) show "log_inv ac config evs (sl_flush ac True (\<lambda>_. True) l)"
    unfolding log_inv_def
    by (auto simp: sl_flush_def write_entries_def write_lines_def Let_def intro!: exI [of _ ?chain]
        simp flip: file_text_append es(2))
  show "sl_buffer (sl_flush ac True (\<lambda>_. True) l) = []"
    by (simp add: sl_flush_def write_entries_def)
qed

lemma log_inv_push:
  assumes "log_inv ac config evs l" "take_sequence l = (n, l1)"
    and "e = signed_entry_new ac ev n (sl_key l1) (sl_previous_signature l1) None"
  shows "log_inv ac config (evs @ [ev]) (push_entry e (store_signature (sg_signature e) l1))"
  using assms
  by (auto simp: log_inv_def take_sequence_def push_entry_def store_signature_def sl_key_def sign_chain_snoc
      simp flip: append_assoc)

lemma log_inv_log:
  assumes "cf_output_path (sc_base config) \<noteq> ''stdout''" "list_all (roundtrips ac) (sign_chain ac (sc_signing_key config) 0 None (evs @ [ev]))"
    and "log_inv ac config evs l"
  shows "log_inv ac config (evs @ [ev]) (sl_log ac True (\<lambda>_. True) ev l)"
proof -
  obtain n l1 where seq: "take_sequence l = (n, l1)" by fastforce
  show ?thesis
    using log_inv_push [OF assms(3) seq refl] log_inv_flush(1) [OF assms(1,2) log_inv_push [OF assms(3) seq refl]]
    by (simp add: sl_log_def seq Let_def)
qed

definition logged :: "(audit_event + unit) list \<Rightarrow> audit_event list" where
  "logged ops = concat (map (\<lambda>c. case c of Inl ev \<Rightarrow> [ev] | Inr _ \<Rightarrow> []) ops)"

lemma log_inv_run:
  assumes "cf_output_path (sc_base config) \<noteq> ''stdout''"
    and "list_all (roundtrips ac) (sign_chain ac (sc_signing_key config) 0 None (evs @ logged ops))" "log_inv ac config evs l"
  shows "log_inv ac config (evs @ logged ops) (run_ops (seq_ops ac) ops l)"
  using assms(2,3)
proof (induction ops arbitrary: evs l)
  case Nil
  then show ?case by (simp add: logged_def)
next
  case (Cons c ops)
  have chain_prefix: "list_all (roundtrips ac) (sign_chain ac (sc_signing_key config) 0 None xs)"
    if "list_all (roundtrips ac) (sign_chain ac (sc_signing_key config) 0 None (xs @ ys))" for xs ys
    using that by (induction ys rule: rev_induct) (simp_all add: sign_chain_snoc flip: append_assoc)
  show ?case
  proof (cases c)
    case (Inl ev)
    then show ?thesis
      using Cons.IH [of "evs @ [ev]"] Cons.prems log_inv_log [OF assms(1)] chain_prefix
      by (simp add: logged_def seq_ops_def)
  next
    case (Inr u)
    then show ?thesis
      using Cons.IH [of evs] Cons.prems log_inv_flush(1) [OF assms(1)] chain_prefix
      by (simp add: logged_def seq_ops_def)
  qed
qed

text \<open>
  C28. A genuine log verifies: log any events whose entries survive the JSON crate, one call after the
  other and with flushes anywhere in between, to an empty file. After a last flush the verifier
  accepts the file, has checked exactly as many entries as events were logged, and the lines of the
  file carry these events in order.
\<close>

theorem audit_log_verifies:
  assumes "cf_output_path (sc_base config) \<noteq> ''stdout''" "sk_file sk = []"
    and "list_all (roundtrips ac) (sign_chain ac (sc_signing_key config) 0 None (logged ops))"
    and "content = sk_file (sl_sinks (sl_flush ac True (\<lambda>_. True) (run_ops (seq_ops ac) ops (sl_new config sk))))"
  shows "verify_content ac (sc_signing_key config) content
      = \<lparr>vr_valid = True, vr_entries_checked = length (logged ops), vr_first_invalid_index = None, vr_error = None\<rparr>
    \<and> map (map_sum id sg_payload \<circ> ac_parse_entry ac) (str_lines content) = map Inr (logged ops)"
proof -
  let ?es = "sign_chain ac (sc_signing_key config) 0 None (logged ops)"
  let ?l = "run_ops (seq_ops ac) ops (sl_new config sk)"
  have "log_inv ac config (logged ops) ?l"
    using log_inv_run [OF assms(1) _ log_inv_new [OF assms(2)]] assms(3) by simp
  from log_inv_flush [OF assms(1,3) this] have content: "content = file_text ac ?es"
    unfolding assms(4) log_inv_def by auto
  have lines: "parses ac (str_lines content) ?es"
    unfolding content by (rule file_text_lines(2) [OF assms(3)])
  then have "vr_valid (verify_content ac (sc_signing_key config) content)"
    unfolding verify_content_valid using sign_chain_verifies sign_chain_linked by blast
  moreover have "length (str_lines content) = length (logged ops)"
    using lines unfolding parses_def by (metis length_map length_sign_chain)
  moreover have "map (map_sum id sg_payload \<circ> ac_parse_entry ac) (str_lines content) = map Inr (map sg_payload ?es)"
  proof -
    have "map (map_sum id sg_payload \<circ> ac_parse_entry ac) (str_lines content) = map (map_sum id sg_payload) (map Inr ?es)"
      using lines unfolding parses_def by (simp only: map_map [symmetric])
    then show ?thesis by (simp only: map_map comp_def map_sum.simps)
  qed
  ultimately show ?thesis
    by (simp add: verify_content_def verify_lines_checked)
qed

section \<open>Tamper evidence\<close>

definition link_bytes :: "signed_audit_entry \<Rightarrow> bytes" where
  "link_bytes e = (case sg_previous_signature e of Some p \<Rightarrow> p | None \<Rightarrow> [])"

text \<open>The signed part of an entry: everything but the trusted time stamp.\<close>

definition sealed :: "signed_audit_entry \<Rightarrow> audit_event \<times> u64 \<times> bytes \<times> bytes" where
  "sealed e = (sg_payload e, sg_sequence e, link_bytes e, sg_signature e)"

text \<open>
  On the given events the encoding is injective and no encoding ends with another one: a JSON object
  closes with the brace that matches its first.
\<close>

definition suffix_free :: "audit_crates \<Rightarrow> audit_event set \<Rightarrow> bool" where
  "suffix_free ac S \<longleftrightarrow> (\<forall>ev \<in> S. \<forall>ev' \<in> S. suffix (payload_json ac ev') (payload_json ac ev) \<longrightarrow> ev = ev')"

lemma unat_u64: "unat (n :: u64) < 18446744073709551616"
  using unsigned_less [of n] by simp

lemma le_bytes_inj_u64:
  assumes "le_bytes 8 (unat m) = le_bytes 8 (unat n)"
  shows "m = (n :: u64)"
proof -
  have "unat k < 256 ^ 8" for k :: u64
    using unat_u64 [of k] by simp
  then have "unat m = unat n"
    using be_bytes_inj [of 8 "unat m" "unat n"] assms unfolding le_bytes_def by (metis rev_is_rev_conv)
  then show ?thesis by (simp only: word_unat_eq_iff)
qed

lemma entry_input_inj:
  assumes "suffix_free ac S" "sg_payload e \<in> S" "sg_payload e' \<in> S" "entry_input ac e = entry_input ac e'"
  shows "sg_payload e = sg_payload e' \<and> sg_sequence e = sg_sequence e' \<and> link_bytes e = link_bytes e'"
proof -
  have parts: "entry_input ac x = le_bytes 8 (unat (sg_sequence x)) @ link_bytes x @ payload_json ac (sg_payload x)" for x
    by (simp add: entry_input_def signing_input_def link_bytes_def split: option.splits)
  have "sg_sequence e = sg_sequence e'"
    and tail: "link_bytes e @ payload_json ac (sg_payload e) = link_bytes e' @ payload_json ac (sg_payload e')"
    using assms(4) le_bytes_inj_u64 unfolding parts by (auto simp: append_eq_append_conv)
  moreover have "sg_payload e = sg_payload e'"
    using tail assms(1-3) unfolding suffix_free_def suffix_def append_eq_append_conv2 by metis
  ultimately show ?thesis by simp
qed

lemma linked_snoc:
  "linked prev (es @ [e]) \<longleftrightarrow> linked prev es \<and> (chain_end prev es = None \<or> sg_previous_signature e = chain_end prev es)"
  by (induction es arbitrary: prev) auto

lemma chains_agree:
  assumes "suffix_free ac (sg_payload ` (set es \<union> set es'))" "inj_on (ac_hmac ac key) (entry_input ac ` (set es \<union> set es'))"
    and "list_all (entry_verify ac key) es" "linked None es"
    and "list_all (entry_verify ac key) es'" "linked None es'"
    and "es \<noteq> []" "es' \<noteq> []" "sg_signature (last es) = sg_signature (last es')"
  shows "suffix (map sealed es) (map sealed es') \<or> suffix (map sealed es') (map sealed es)"
  using assms
proof (induction es arbitrary: es' rule: rev_induct)
  case Nil
  then show ?case by simp
next
  case (snoc e xs)
  obtain ys e' where es': "es' = ys @ [e']" using snoc.prems(8) by (cases es' rule: rev_cases) auto
  have "entry_input ac e = entry_input ac e'"
  proof (rule inj_onD [OF snoc.prems(2)])
    show "ac_hmac ac key (entry_input ac e) = ac_hmac ac key (entry_input ac e')"
      using snoc.prems(3,5,9) unfolding es' by (simp add: entry_verify_def)
  qed (simp_all add: es')
  from entry_input_inj [OF snoc.prems(1) _ _ this] have same: "sealed e = sealed e'"
    using snoc.prems(9) unfolding es' by (simp add: sealed_def)
  show ?case
  proof (cases "xs = [] \<or> ys = []")
    case True
    then show ?thesis unfolding es' by (auto simp: same)
  next
    case False
    then have "sg_signature (last xs) = sg_signature (last ys)"
      using snoc.prems(4,6) same unfolding es' by (simp add: linked_snoc chain_end_def sealed_def link_bytes_def)
    moreover have "inj_on (ac_hmac ac key) (entry_input ac ` (set xs \<union> set ys))"
      using snoc.prems(2) unfolding es' by (rule inj_on_subset) auto
    moreover have "suffix_free ac (sg_payload ` (set xs \<union> set ys))"
      using snoc.prems(1) unfolding es' suffix_free_def by auto
    ultimately have "suffix (map sealed xs) (map sealed ys) \<or> suffix (map sealed ys) (map sealed xs)"
      using snoc.IH [of ys] snoc.prems(3-6) False unfolding es' by (simp add: linked_snoc)
    then show ?thesis unfolding es' by (auto simp: same)
  qed
qed

text \<open>
  C26. Tamper evidence: take two log files that both verify and end with the same signature, for
  instance the file as it was written and the file as it is found. Unless two of their entries
  collide under the MAC, one of them is a tail of the other in everything the signatures cover, which is the
  event, its number, the link to the entry before and the signature (\<open>sealed\<close>): no event was altered, inserted,
  removed or reordered, and at most entries at the beginning are missing. The time stamp of an entry is not
  covered and can be altered or added.
\<close>

theorem tampering_detected:
  assumes "suffix_free ac (sg_payload ` (set es \<union> set es'))" "inj_on (ac_hmac ac key) (entry_input ac ` (set es \<union> set es'))"
    and "vr_valid (verify_content ac key content)" "parses ac (str_lines content) es"
    and "vr_valid (verify_content ac key content')" "parses ac (str_lines content') es'"
    and "es \<noteq> []" "es' \<noteq> []" "sg_signature (last es) = sg_signature (last es')"
  shows "suffix (map sealed es) (map sealed es') \<or> suffix (map sealed es') (map sealed es)"
proof -
  have unique: "xs = ys" if "parses ac ls xs" "parses ac ls ys" for ls xs ys
    using that unfolding parses_def by (metis inj_Inr map_injective)
  have "list_all (entry_verify ac key) es \<and> linked None es" "list_all (entry_verify ac key) es' \<and> linked None es'"
    using assms(3-6) unique unfolding verify_content_valid by blast+
  with chains_agree [OF assms(1,2)] assms(7-9) show ?thesis by blast
qed

section \<open>Concurrent logging\<close>

lemma log_step_at:
  "call_step ac (c, l) (c', l') \<Longrightarrow> log_reaches ac (cs', l'') z \<Longrightarrow> i < length cs \<Longrightarrow> cs ! i = c
    \<Longrightarrow> cs' = cs[i := c'] \<Longrightarrow> l'' = l' \<Longrightarrow> log_reaches ac (cs, l) z"
  unfolding log_reaches_def by (auto intro: converse_rtranclp_into_rtranclp one_call)

lemma log_reaches_refl: "log_reaches ac x x"
  by (simp add: log_reaches_def)

text \<open>A call that is never interrupted behaves as the sequential operation.\<close>

lemma log_sequential: "log_reaches ac ([Begin ev], l) ([Done], sl_log ac opened written ev l)"
proof -
  obtain n l1 where seq: "take_sequence l = (n, l1)" by fastforce
  let ?e = "signed_entry_new ac ev n (sl_key l1) (sl_previous_signature l1) None"
  let ?l = "push_entry ?e (store_signature (sg_signature ?e) l1)"
  have "log_reaches ac ([if buffer_full ?l then Flushing else Done], ?l) ([Done], sl_log ac opened written ev l)"
  proof (cases "buffer_full ?l")
    case True
    have "log_reaches ac ([Writing (sl_buffer ?l)], ?l\<lparr>sl_buffer := []\<rparr>) ([Done], sl_flush ac opened written ?l)"
      unfolding sl_flush_def by (rule log_step_at [where i = 0, OF write_step log_reaches_refl]) simp_all
    then have "log_reaches ac ([Flushing], ?l) ([Done], sl_flush ac opened written ?l)"
      by (rule log_step_at [where i = 0, OF drain_step]) simp_all
    with True show ?thesis by (simp add: sl_log_def seq Let_def)
  next
    case False
    then show ?thesis by (simp add: sl_log_def seq Let_def log_reaches_refl)
  qed
  then have "log_reaches ac ([Signed ?e], store_signature (sg_signature ?e) l1) ([Done], sl_log ac opened written ev l)"
    by (rule log_step_at [where i = 0, OF push_step]) simp_all
  then have "log_reaches ac ([HasLink ev n (sl_previous_signature l1)], l1) ([Done], sl_log ac opened written ev l)"
    by (rule log_step_at [where i = 0, OF sign_step [OF refl]]) simp_all
  then have "log_reaches ac ([HasSequence ev n], l1) ([Done], sl_log ac opened written ev l)"
    by (rule log_step_at [where i = 0, OF link_step]) simp_all
  then show ?thesis
    by (rule log_step_at [where i = 0, OF begin_step [OF seq]]) simp_all
qed

text \<open>
  Concurrent calls fork the chain: two calls on a fresh logger can interleave so that both sign
  against the same link. Both entries are then logged with valid signatures and different sequence
  numbers, but the log the service itself wrote no longer verifies.
\<close>

theorem concurrent_log_forks_chain:
  assumes "2 < cf_buffer_size (sc_base config)"
  shows "\<exists>l. log_reaches ac ([Begin a, Begin b], sl_new config sk) ([Done, Done], l)
    \<and> map sg_payload (sl_buffer l) = [a, b] \<and> map sg_sequence (sl_buffer l) = [0, 1]
    \<and> list_all (entry_verify ac (sc_signing_key config)) (sl_buffer l) \<and> \<not> verify_all ac l"
proof -
  let ?key = "sc_signing_key config"
  let ?e = "signed_entry_new ac a 0 ?key None None" and ?f = "signed_entry_new ac b 1 ?key None None"
  let ?l = "\<lambda>n p es. \<lparr>sl_config = config, sl_buffer = es, sl_current_sequence = n,
    sl_previous_signature = p, sl_sinks = sk\<rparr>"
  let ?z = "([Done, Done], ?l 2 (Some (sg_signature ?f)) [?e, ?f])"
  have "log_reaches ac ([Done, Signed ?f], ?l 2 (Some (sg_signature ?f)) [?e]) ?z"
    by (rule log_step_at [where i = 1, OF push_step log_reaches_refl])
      (use assms in \<open>simp_all add: push_entry_def buffer_full_def\<close>)
  then have "log_reaches ac ([Signed ?e, Signed ?f], ?l 2 (Some (sg_signature ?f)) []) ?z"
    by (rule log_step_at [where i = 0, OF push_step]) (use assms in \<open>simp_all add: push_entry_def buffer_full_def\<close>)
  then have "log_reaches ac ([Signed ?e, HasLink b 1 None], ?l 2 (Some (sg_signature ?e)) []) ?z"
    by (rule log_step_at [where i = 1, OF sign_step [OF refl]]) (simp_all add: store_signature_def sl_key_def)
  then have "log_reaches ac ([HasLink a 0 None, HasLink b 1 None], ?l 2 None []) ?z"
    by (rule log_step_at [where i = 0, OF sign_step [OF refl]]) (simp_all add: store_signature_def sl_key_def)
  then have "log_reaches ac ([HasLink a 0 None, HasSequence b 1], ?l 2 None []) ?z"
    by (rule log_step_at [where i = 1, OF link_step]) simp_all
  then have "log_reaches ac ([HasSequence a 0, HasSequence b 1], ?l 2 None []) ?z"
    by (rule log_step_at [where i = 0, OF link_step]) simp_all
  then have "log_reaches ac ([HasSequence a 0, Begin b], ?l 1 None []) ?z"
    by (rule log_step_at [where i = 1, OF begin_step [OF take_sequence_def]]) simp_all
  then have "log_reaches ac ([Begin a, Begin b], sl_new config sk) ?z"
    by (rule log_step_at [where i = 0, OF begin_step [OF take_sequence_def]]) (simp_all add: sl_new_def)
  moreover have "\<not> verify_all ac (?l 2 (Some (sg_signature ?f)) [?e, ?f])"
    by (simp add: verify_all_def entry_verify_chain_def)
  ultimately show ?thesis
    by (intro exI [of _ "?l 2 (Some (sg_signature ?f)) [?e, ?f]"]) (simp add: signed_entry_new_def [of _ _ 0]
      signed_entry_new_def [of _ _ 1] entry_verify_def entry_input_def)
qed

section \<open>Concrete instances\<close>

definition demo_event :: "uuid \<Rightarrow> audit_event" where
  "demo_event i = event_new i 0 KeyCreated ''alice'' ''user'' ''create_key'' ''key'' None ''success''"

text \<open>Crates that know two events and the two entries of their log, with a MAC that prepends the key.\<close>

definition demo_base :: audit_crates where
  "demo_base = \<lparr>ac_hmac = (\<lambda>key m. key @ m), ac_sha256 = (\<lambda>m. 1 # m),
     ac_event_json = (\<lambda>ev. Some (if av_event_id ev = 1 then ''x'' else ''y'')),
     ac_entry_json = (\<lambda>_. None), ac_parse_entry = (\<lambda>_. Inl '''')\<rparr>"

definition demo_config :: signed_audit_config where
  "demo_config = signed_config_with_key (audit_config_default\<lparr>cf_output_path := ''audit.log''\<rparr>) [7] 0"

definition demo_entries :: "signed_audit_entry list" where
  "demo_entries = sign_chain demo_base [7] 0 None [demo_event 1, demo_event 2]"

definition demo_crates :: audit_crates where
  "demo_crates = demo_base\<lparr>
     ac_entry_json := (\<lambda>e. Some (if av_event_id (sg_payload e) = 1 then ''a'' else ''b'')),
     ac_parse_entry := (\<lambda>s. if s = ''a'' then Inr (demo_entries ! 0) else if s = ''b'' then Inr (demo_entries ! 1)
                           else Inl ''no entry'')\<rparr>"

lemma demo_chain: "sign_chain demo_crates [7] 0 None [demo_event 1, demo_event 2] = demo_entries"
  by (simp add: demo_entries_def demo_crates_def signed_entry_new_def signing_input_def payload_json_def Let_def)

lemma demo_ids: "map (av_event_id \<circ> sg_payload) demo_entries = [1, 2]" "length demo_entries = 2"
  by (simp_all add: demo_entries_def signed_entry_new_def demo_event_def event_new_def Let_def)

lemma demo_parse:
  "ac_parse_entry demo_crates ''a'' = Inr (demo_entries ! 0)" "ac_parse_entry demo_crates ''b'' = Inr (demo_entries ! 1)"
  by (simp_all add: demo_crates_def)

lemma demo_entries_nth: "demo_entries = [demo_entries ! 0, demo_entries ! 1]"
  by (rule nth_equalityI) (auto simp: demo_ids less_2_cases_iff)

lemma demo_entry_ids [simp]:
  "av_event_id (sg_payload (demo_entries ! 0)) = 1" "av_event_id (sg_payload (demo_entries ! Suc 0)) = 2"
  by (simp_all add: demo_entries_def signed_entry_new_def demo_event_def event_new_def Let_def)

lemma demo_roundtrips: "list_all (roundtrips demo_crates) demo_entries"
  by (subst demo_entries_nth) (simp add: roundtrips_def demo_crates_def one_line_def)

theorem audit_log_verifies_witness:
  "verify_content demo_crates [7] (sk_file (sl_sinks (sl_flush demo_crates True (\<lambda>_. True)
      (run_ops (seq_ops demo_crates) [Inl (demo_event 1), Inr (), Inl (demo_event 2)]
        (sl_new demo_config \<lparr>sk_stdout = [], sk_file = []\<rparr>)))))
    = \<lparr>vr_valid = True, vr_entries_checked = 2, vr_first_invalid_index = None, vr_error = None\<rparr>"
proof -
  let ?ops = "[Inl (demo_event 1), Inr (), Inl (demo_event 2)]"
  have logged: "logged ?ops = [demo_event 1, demo_event 2]" by (simp add: logged_def)
  have key: "sc_signing_key demo_config = [7]" by (simp add: demo_config_def signed_config_with_key_def)
  have path: "cf_output_path (sc_base demo_config) \<noteq> ''stdout''"
    by (simp add: demo_config_def signed_config_with_key_def)
  have "list_all (roundtrips demo_crates) (sign_chain demo_crates (sc_signing_key demo_config) 0 None (logged ?ops))"
    unfolding logged key demo_chain by (rule demo_roundtrips)
  from audit_log_verifies [OF path _ this refl, of "\<lparr>sk_stdout = [], sk_file = []\<rparr>", THEN conjunct1]
  show ?thesis by (simp add: logged key)
qed

theorem tampering_detected_witness:
  "suffix (map sealed demo_entries) (map sealed [demo_entries ! 1])
    \<or> suffix (map sealed [demo_entries ! 1]) (map sealed demo_entries)"
proof -
  have lines: "str_lines [CHR ''a'', CHR 0x0A, CHR ''b'', CHR 0x0A] = [''a'', ''b'']"
    "str_lines [CHR ''b'', CHR 0x0A] = [''b'']"
    by (simp_all add: str_lines_def strip_cr_def)
  have both: "parses demo_crates (str_lines [CHR ''a'', CHR 0x0A, CHR ''b'', CHR 0x0A]) demo_entries"
    "parses demo_crates (str_lines [CHR ''b'', CHR 0x0A]) [demo_entries ! 1]"
    unfolding lines parses_def by (subst demo_entries_nth, simp add: demo_parse) (simp add: demo_parse)
  have ok: "list_all (entry_verify demo_crates [7]) demo_entries" "linked None demo_entries"
    unfolding demo_chain [symmetric] by (rule sign_chain_verifies, rule sign_chain_linked)
  then have tail: "entry_verify demo_crates [7] (demo_entries ! 1)"
    by (simp add: list_all_length demo_ids)
  have free: "suffix_free demo_crates (sg_payload ` (set demo_entries \<union> set [demo_entries ! 1]))"
    by (subst demo_entries_nth) (simp add: suffix_free_def payload_json_def demo_crates_def demo_base_def str_bytes_def
        suffix_def Cons_eq_append_conv)
  have valid: "vr_valid (verify_content demo_crates [7] [CHR ''a'', CHR 0x0A, CHR ''b'', CHR 0x0A])"
    "vr_valid (verify_content demo_crates [7] [CHR ''b'', CHR 0x0A])"
    unfolding verify_content_valid using both ok tail by (blast, intro exI [of _ "[demo_entries ! 1]"], simp)
  have inj: "inj_on (ac_hmac demo_crates [7]) S" for S
    by (simp add: demo_crates_def demo_base_def inj_on_def)
  have "demo_entries \<noteq> []" "sg_signature (last demo_entries) = sg_signature (last [demo_entries ! 1])"
    by (subst demo_entries_nth, simp)+
  then show ?thesis
    by (intro tampering_detected [OF free inj valid(1) both(1) valid(2) both(2)]) simp_all
qed

theorem concurrent_log_forks_chain_witness:
  "\<exists>l. log_reaches demo_crates ([Begin (demo_event 1), Begin (demo_event 2)],
        sl_new demo_config \<lparr>sk_stdout = [], sk_file = []\<rparr>) ([Done, Done], l) \<and> \<not> verify_all demo_crates l"
proof -
  have "2 < cf_buffer_size (sc_base demo_config)"
    by (simp add: demo_config_def signed_config_with_key_def audit_config_default_def)
  from concurrent_log_forks_chain [OF this] show ?thesis by blast
qed

end
