(* ===== verification/Worm.thy ===== *)
theory Worm
  imports Audit_Log
begin

text \<open>
  Write-once storage of audit entries: the writer with its file rotation and running hash
  (\<^verbatim>\<open>crates/kms-audit/src/worm_writer.rs\<close>) and the logger on top of it
  (\<^verbatim>\<open>worm_logger.rs\<close>). The directory is a map from file names to files. Clock readings are
  arguments, as is the outcome of every system call that can fail.
\<close>

section \<open>Running hash\<close>

datatype audit_error =
    Io string
  | Serialization string
  | InvalidPath string "string option"
  | ChainVerificationFailed nat string
  | AuditConfigError msg
  | Network string
  | AuditPermissionDenied string
  | TsaFailed string
  | AuditInternal string

record hash_chain_state =
  hc_running_hash :: bytes
  hc_entry_count :: u64

definition hash_chain_new :: "audit_crates \<Rightarrow> hash_chain_state" where
  "hash_chain_new ac = \<lparr>hc_running_hash = ac_sha256 ac [], hc_entry_count = 0\<rparr>"

definition hash_chain_update :: "audit_crates \<Rightarrow> bytes \<Rightarrow> hash_chain_state \<Rightarrow> hash_chain_state" where
  "hash_chain_update ac entry_hash h =
     \<lparr>hc_running_hash = ac_sha256 ac (hc_running_hash h @ entry_hash), hc_entry_count = hc_entry_count h + 1\<rparr>"

definition compute_entry_hash :: "audit_crates \<Rightarrow> signed_audit_entry \<Rightarrow> bytes" where
  "compute_entry_hash ac e = ac_sha256 ac (payload_json ac (sg_payload e) @ sg_signature e)"

section \<open>Files\<close>

record log_file =
  lf_text :: string
  lf_modified :: time
  lf_read_only :: bool

text \<open>An empty current path is \<open>None\<close>; the open file is named by its path.\<close>

record worm_writer =
  ww_files :: "string \<rightharpoonup> log_file"
  ww_current_file :: "string option"
  ww_current_path :: "string option"
  ww_hash_chain :: hash_chain_state
  ww_rotation_age :: time

definition worm_writer_new :: "audit_crates \<Rightarrow> (string \<rightharpoonup> log_file) \<Rightarrow> worm_writer" where
  "worm_writer_new ac files = \<lparr>ww_files = files, ww_current_file = None, ww_current_path = None,
     ww_hash_chain = hash_chain_new ac, ww_rotation_age = secs 3600\<rparr>"

definition with_rotation_age :: "time \<Rightarrow> worm_writer \<Rightarrow> worm_writer" where
  "with_rotation_age age w = w\<lparr>ww_rotation_age := age\<rparr>"

fun nat_digits :: "nat \<Rightarrow> string" where
  "nat_digits n = (if n < 10 then [char_of (48 + n)] else nat_digits (n div 10) @ [char_of (48 + n mod 10)])"

definition audit_file_name :: "nat \<Rightarrow> string" where
  "audit_file_name timestamp = ''audit-'' @ nat_digits timestamp @ ''.jsonl''"

definition rotate :: "worm_writer \<Rightarrow> worm_writer" where
  "rotate w =
     (let files = (case ww_current_path w of
                     Some p \<Rightarrow> (case ww_files w p of
                                  Some f \<Rightarrow> (ww_files w)(p \<mapsto> f\<lparr>lf_read_only := True\<rparr>) | None \<Rightarrow> ww_files w)
                   | None \<Rightarrow> ww_files w)
      in w\<lparr>ww_files := files, ww_current_file := None, ww_current_path := None\<rparr>)"

text \<open>A modification time after the clock reading counts as age zero.\<close>

definition maybe_rotate :: "time \<Rightarrow> worm_writer \<Rightarrow> worm_writer" where
  "maybe_rotate now w =
     (case ww_current_path w of
        None \<Rightarrow> w
      | Some p \<Rightarrow>
          (case ww_files w p of
             Some f \<Rightarrow> if max 0 (now - lf_modified f) > ww_rotation_age w then rotate w else w
           | None \<Rightarrow> w))"

text \<open>
  The outcomes of the calls of one \<open>append\<close>: creating the file, opening it, the two writes and the
  synchronisation; \<open>Some\<close> is the error. A failed write leaves the file as it was.
\<close>

record io_outcome =
  io_create :: "string option"
  io_open :: "string option"
  io_write :: "string option"
  io_newline :: "string option"
  io_sync :: "string option"

definition open_new_file :: "io_outcome \<Rightarrow> time \<Rightarrow> worm_writer \<Rightarrow> (audit_error + string) \<times> worm_writer" where
  "open_new_file io now w =
     (let path = audit_file_name (nat (as_secs now))
      in case io_create io of
           Some e \<Rightarrow> (Inl (Io e), w)
         | None \<Rightarrow>
             if ww_files w path \<noteq> None then (Inl (Io ''File exists''), w)
             else (Inr path, w\<lparr>ww_files := (ww_files w)(path \<mapsto> \<lparr>lf_text = [], lf_modified = now, lf_read_only = False\<rparr>)\<rparr>))"

text \<open>The open file of the writer, opening a new one first where there is none.\<close>

definition ensure_file :: "io_outcome \<Rightarrow> time \<Rightarrow> worm_writer \<Rightarrow> (audit_error + string) \<times> worm_writer" where
  "ensure_file io now w =
     (case ww_current_file w of
        Some p \<Rightarrow> (Inr p, w)
      | None \<Rightarrow>
          (case open_new_file io now w of
             (Inl e, w') \<Rightarrow> (Inl e, w')
           | (Inr path, w') \<Rightarrow>
               let w'' = w'\<lparr>ww_current_path := Some path\<rparr>
               in (case io_open io of
                     Some e \<Rightarrow> (Inl (Io e), w'')
                   | None \<Rightarrow> (Inr path, w''\<lparr>ww_current_file := Some path\<rparr>))))"

definition append_text :: "string \<Rightarrow> string \<Rightarrow> time \<Rightarrow> worm_writer \<Rightarrow> worm_writer" where
  "append_text path s now w =
     (case ww_files w path of
        Some f \<Rightarrow> w\<lparr>ww_files := (ww_files w)(path \<mapsto> f\<lparr>lf_text := lf_text f @ s, lf_modified := now\<rparr>)\<rparr>
      | None \<Rightarrow> w)"

definition worm_append ::
  "audit_crates \<Rightarrow> io_outcome \<Rightarrow> time \<Rightarrow> signed_audit_entry \<Rightarrow> worm_writer \<Rightarrow> (audit_error + unit) \<times> worm_writer" where
  "worm_append ac io now e w =
     (case ensure_file io now (maybe_rotate now w) of
        (Inl err, w1) \<Rightarrow> (Inl err, w1)
      | (Inr path, w1) \<Rightarrow>
          (case ac_entry_json ac e of
             None \<Rightarrow> (Inl (Serialization ''entry''), w1)
           | Some json \<Rightarrow>
               (case io_write io of
                  Some err \<Rightarrow> (Inl (Io err), w1)
                | None \<Rightarrow>
                    let w2 = append_text path json now w1
                    in (case io_newline io of
                          Some err \<Rightarrow> (Inl (Io err), w2)
                        | None \<Rightarrow>
                            let w3 = append_text path [CHR 0x0A] now w2
                            in (case io_sync io of
                                  Some err \<Rightarrow> (Inl (Io err), w3)
                                | None \<Rightarrow>
                                    (Inr (), w3\<lparr>ww_hash_chain :=
                                       hash_chain_update ac (compute_entry_hash ac e) (ww_hash_chain w3)\<rparr>))))))"

fun append_batch ::
  "audit_crates \<Rightarrow> io_outcome \<Rightarrow> time \<Rightarrow> signed_audit_entry list \<Rightarrow> worm_writer \<Rightarrow> (audit_error + unit) \<times> worm_writer" where
  "append_batch ac io now [] w = (Inr (), w)"
| "append_batch ac io now (e # es) w =
     (case worm_append ac io now e w of
        (Inl err, w') \<Rightarrow> (Inl err, w')
      | (Inr _, w') \<Rightarrow> append_batch ac io now es w')"

section \<open>Verification\<close>

fun worm_verify_loop :: "audit_crates \<Rightarrow> nat \<Rightarrow> bytes option \<Rightarrow> signed_audit_entry list \<Rightarrow> nat option" where
  "worm_verify_loop ac i prev_entry_hash [] = None"
| "worm_verify_loop ac i prev_entry_hash (e # es) =
     (case prev_entry_hash of
        Some expected_prev \<Rightarrow>
          if unwrap_or [] (sg_previous_signature e) \<noteq> expected_prev then Some i
          else worm_verify_loop ac (i + 1) (Some (compute_entry_hash ac e)) es
      | None \<Rightarrow> worm_verify_loop ac (i + 1) (Some (compute_entry_hash ac e)) es)"

definition checked_sub :: "u64 \<Rightarrow> u64 \<Rightarrow> u64 option" where
  "checked_sub a b = (if b \<le> a then Some (a - b) else None)"

definition worm_verify_chain :: "audit_crates \<Rightarrow> signed_audit_entry list \<Rightarrow> worm_writer \<Rightarrow> verification_report" where
  "worm_verify_chain ac es w =
     (case worm_verify_loop ac 0 None es of
        Some i \<Rightarrow> \<lparr>vr_valid = False, vr_entries_checked = length es, vr_first_invalid_index = Some i,
                   vr_error = Some (Fmt [Lit ''chain broken at entry '', Num i,
                     Lit '': stored previous_signature does not match computed prev_entry_hash''])\<rparr>
      | None \<Rightarrow>
          (case checked_sub (hc_entry_count (ww_hash_chain w)) 1 of
             Some expected_count \<Rightarrow>
               if word_of_nat (length es) \<noteq> expected_count then
                 \<lparr>vr_valid = False, vr_entries_checked = length es, vr_first_invalid_index = Some 0,
                  vr_error = Some (Fmt [Lit ''Entry count mismatch: expected '', Num (unat expected_count),
                                        Lit '', got '', Num (length es)])\<rparr>
               else \<lparr>vr_valid = True, vr_entries_checked = length es, vr_first_invalid_index = None, vr_error = None\<rparr>
           | None \<Rightarrow> \<lparr>vr_valid = True, vr_entries_checked = length es, vr_first_invalid_index = None, vr_error = None\<rparr>))"

text \<open>
  Reading back: \<open>names\<close> is the directory in the order the system lists it. The entries are sorted by
  the number in the file name, those of one file keep their order; lines that do not parse are skipped.
\<close>

definition parse_u64 :: "string \<Rightarrow> nat option" where
  "parse_u64 s =
     (let ds = (if starts_with s ''+'' then tl s else s)
      in if ds = [] then None
         else Option.bind (parse_digits ds 0) (\<lambda>n. if n < 2 ^ 64 then Some n else None))"

definition file_timestamp :: "string \<Rightarrow> nat" where
  "file_timestamp name =
     (let stem = take (length name - 6) name
      in if starts_with stem ''audit-'' then unwrap_or 0 (parse_u64 (drop 6 stem)) else 0)"

definition is_blank :: "string \<Rightarrow> bool" where
  "is_blank s \<longleftrightarrow> list_all (\<lambda>c. c \<in> {CHR 0x20, CHR 0x09, CHR 0x0A, CHR 0x0B, CHR 0x0C, CHR 0x0D}) s"

definition file_entries :: "audit_crates \<Rightarrow> string \<Rightarrow> signed_audit_entry list" where
  "file_entries ac content =
     List.map_filter (\<lambda>line. if is_blank line then None
        else case ac_parse_entry ac line of Inr e \<Rightarrow> Some e | Inl _ \<Rightarrow> None) (str_lines content)"

definition read_all_entries :: "audit_crates \<Rightarrow> string list \<Rightarrow> worm_writer \<Rightarrow> signed_audit_entry list" where
  "read_all_entries ac names w =
     map snd (sort_key fst (concat (map (\<lambda>name.
       case ww_files w name of
         Some f \<Rightarrow> if jsonl_name name then map (Pair (file_timestamp name)) (file_entries ac (lf_text f)) else []
       | None \<Rightarrow> []) names)))"

definition startup_verify_chain ::
  "audit_crates \<Rightarrow> string list \<Rightarrow> (string \<rightharpoonup> log_file) \<Rightarrow> verification_report" where
  "startup_verify_chain ac names files =
     (let writer = worm_writer_new ac files; entries = read_all_entries ac names writer
      in if entries = [] then
           \<lparr>vr_valid = True, vr_entries_checked = 0, vr_first_invalid_index = None, vr_error = None\<rparr>
         else worm_verify_chain ac entries writer)"

section \<open>The logger\<close>

record worm_signed_audit_logger =
  wl_signed :: signed_audit_logger
  wl_writer :: worm_writer

text \<open>
  The logger keeps the fields of the signing logger, with the same meaning, beside the writer. A
  failed write to the storage is reported to the service log only.
\<close>

definition wl_new :: "signed_audit_config \<Rightarrow> time \<Rightarrow> sinks \<Rightarrow> worm_writer \<Rightarrow> worm_signed_audit_logger" where
  "wl_new config rotation_age sk w =
     \<lparr>wl_signed = sl_new config sk, wl_writer = with_rotation_age rotation_age w\<rparr>"

definition wl_log ::
  "audit_crates \<Rightarrow> io_outcome \<Rightarrow> time \<Rightarrow> bool \<Rightarrow> (nat \<Rightarrow> bool) \<Rightarrow> audit_event
    \<Rightarrow> worm_signed_audit_logger \<Rightarrow> worm_signed_audit_logger" where
  "wl_log ac io now opened written ev l =
     (let (sequence, l1) = take_sequence (wl_signed l);
          e = signed_entry_new ac ev sequence (sl_key l1) (sl_previous_signature l1) None;
          l2 = store_signature (sg_signature e) l1;
          w = snd (worm_append ac io now e (wl_writer l));
          l3 = push_entry e l2
      in \<lparr>wl_signed = (if buffer_full l3 then sl_flush ac opened written l3 else l3), wl_writer = w\<rparr>)"

definition wl_flush ::
  "audit_crates \<Rightarrow> bool \<Rightarrow> (nat \<Rightarrow> bool) \<Rightarrow> worm_signed_audit_logger \<Rightarrow> worm_signed_audit_logger" where
  "wl_flush ac opened written l = l\<lparr>wl_signed := sl_flush ac opened written (wl_signed l)\<rparr>"

definition wl_verify_chain ::
  "audit_crates \<Rightarrow> signed_audit_entry list \<Rightarrow> worm_signed_audit_logger \<Rightarrow> verification_report" where
  "wl_verify_chain ac es l = worm_verify_chain ac es (wl_writer l)"

section \<open>The logger refines the signing logger\<close>

lemma wl_log_signed: "wl_signed (wl_log ac io now opened written ev l) = sl_log ac opened written ev (wl_signed l)"
  by (simp add: wl_log_def sl_log_def Let_def split: prod.splits)

lemma wl_log_writer:
  "\<exists>e. wl_writer (wl_log ac io now opened written ev l) = snd (worm_append ac io now e (wl_writer l))"
  by (auto simp: wl_log_def Let_def split: prod.splits)

text \<open>A call of the logger: outcomes of the system calls, time and event.\<close>

type_synonym wl_call = "io_outcome \<times> time \<times> audit_event"

fun wl_step :: "audit_crates \<Rightarrow> wl_call \<Rightarrow> worm_signed_audit_logger \<Rightarrow> worm_signed_audit_logger" where
  "wl_step ac (io, now, ev) l = wl_log ac io now True (\<lambda>_. True) ev l"

lemma wl_run_signed:
  "wl_signed (run_ops (wl_step ac) calls l) = run_ops (sl_log ac True (\<lambda>_. True)) (map (snd \<circ> snd) calls) (wl_signed l)"
  by (induction calls arbitrary: l) (auto simp: wl_log_signed)

text \<open>While the buffer has room, it holds the chain of all events logged.\<close>

lemma sl_run_buffer:
  "length evs < cf_buffer_size (sc_base config) \<Longrightarrow>
   run_ops (sl_log ac True (\<lambda>_. True)) evs (sl_new config sk) =
     (let chain = sign_chain ac (sc_signing_key config) 0 None evs
      in \<lparr>sl_config = config, sl_buffer = chain, sl_current_sequence = of_nat (length evs),
          sl_previous_signature = chain_end None chain, sl_sinks = sk\<rparr>)"
proof (induction evs rule: rev_induct)
  case Nil
  then show ?case by (simp add: sl_new_def)
next
  case (snoc ev evs)
  then show ?case
    by (simp add: run_ops_append sl_log_def take_sequence_def store_signature_def push_entry_def buffer_full_def
        sl_key_def sign_chain_snoc Let_def add.commute)
qed

section \<open>A verification that never succeeds\<close>

definition all_ok :: io_outcome where
  "all_ok = \<lparr>io_create = None, io_open = None, io_write = None, io_newline = None, io_sync = None\<rparr>"

lemma first_append_counts:
  assumes "ac_entry_json ac e \<noteq> None"
  shows "hc_entry_count (ww_hash_chain (snd (worm_append ac all_ok now e
    (with_rotation_age age (worm_writer_new ac Map.empty))))) = 1"
  using assms
  by (auto simp: worm_append_def maybe_rotate_def ensure_file_def open_new_file_def with_rotation_age_def
      worm_writer_new_def hash_chain_new_def hash_chain_update_def append_text_def all_ok_def Let_def
      split: option.splits)

lemma worm_verify_rejects_pair:
  assumes "sg_previous_signature e' = Some (sg_signature e)" "compute_entry_hash ac e \<noteq> sg_signature e"
  shows "\<not> vr_valid (worm_verify_chain ac (e # e' # es) w)"
  using assms by (auto simp: worm_verify_chain_def unwrap_or_def)

text \<open>
  The chain check of the write-once storage rejects every genuine log: after logging any number of
  events without failures, the buffered entries pass the signing logger's check, but the writer's
  check of the same entries fails. It compares each link with a hash of the previous entry although
  links are signatures, and it expects one entry less than were written.
\<close>

theorem worm_check_rejects_genuine_log:
  assumes "l = run_ops (wl_step ac) calls (wl_new config age sk (worm_writer_new ac Map.empty))"
    and "calls \<noteq> []" "length calls < cf_buffer_size (sc_base config)" "list_all (\<lambda>(io, _). io = all_ok) calls"
    and "\<forall>e \<in> set (sl_buffer (wl_signed l)). compute_entry_hash ac e \<noteq> sg_signature e" "\<forall>e. ac_entry_json ac e \<noteq> None"
  shows "length (sl_buffer (wl_signed l)) = length calls \<and> verify_all ac (wl_signed l)
    \<and> \<not> vr_valid (wl_verify_chain ac (sl_buffer (wl_signed l)) l)"
proof -
  let ?evs = "map (snd \<circ> snd) calls" and ?key = "sc_signing_key config"
  have signed: "wl_signed l = \<lparr>sl_config = config, sl_buffer = sign_chain ac ?key 0 None ?evs,
      sl_current_sequence = of_nat (length calls),
      sl_previous_signature = chain_end None (sign_chain ac ?key 0 None ?evs), sl_sinks = sk\<rparr>"
    using sl_run_buffer [of ?evs config ac sk] assms(3)
    unfolding assms(1) wl_run_signed wl_new_def by (simp add: Let_def)
  have "\<not> vr_valid (wl_verify_chain ac (sl_buffer (wl_signed l)) l)"
  proof (cases calls)
    case Nil
    with assms(2) show ?thesis by simp
  next
    case (Cons c cs)
    obtain io now ev where c: "c = (io, now, ev)" by (cases c)
    show ?thesis
    proof (cases cs)
      case Nil
      have "hc_entry_count (ww_hash_chain (wl_writer l)) = 1"
        using assms(4,6) wl_log_writer [of ac io now True "\<lambda>_. True" ev] first_append_counts
        unfolding assms(1) Cons Nil c by (auto simp: wl_new_def) (metis worm_signed_audit_logger.select_convs(2))
      then show ?thesis
        unfolding signed Cons Nil
        by (simp add: wl_verify_chain_def worm_verify_chain_def checked_sub_def Let_def)
    next
      case (Cons c' cs')
      with \<open>calls = c # cs\<close> assms(5) show ?thesis
        unfolding signed wl_verify_chain_def by (simp add: Let_def worm_verify_rejects_pair)
    qed
  qed
  then show ?thesis
    unfolding signed by (simp add: verify_all_def sl_key_def sign_chain_verify_entries)
qed

section \<open>Concrete instances\<close>

lemma demo_hash_differs: "compute_entry_hash demo_crates e = 1 # payload_json demo_crates (sg_payload e) @ sg_signature e"
  by (simp add: compute_entry_hash_def demo_crates_def demo_base_def)

theorem worm_check_rejects_genuine_log_witness:
  "let l = run_ops (wl_step demo_crates) [(all_ok, 0, demo_event 1), (all_ok, 1, demo_event 2)]
        (wl_new demo_config (secs 3600) \<lparr>sk_stdout = [], sk_file = []\<rparr> (worm_writer_new demo_crates Map.empty))
   in verify_all demo_crates (wl_signed l) \<and> \<not> vr_valid (wl_verify_chain demo_crates (sl_buffer (wl_signed l)) l)"
proof -
  let ?calls = "[(all_ok, 0, demo_event 1), (all_ok, 1, demo_event 2)]"
  have room: "length ?calls < cf_buffer_size (sc_base demo_config)"
    by (simp add: demo_config_def signed_config_with_key_def audit_config_default_def)
  have ok: "list_all (\<lambda>(io, _). io = all_ok) ?calls" by simp
  have "compute_entry_hash demo_crates e \<noteq> sg_signature e" for e
    unfolding demo_hash_differs by (metis append_Cons append_is_Nil_conv append_self_conv2 list.discI append.assoc)
  moreover have "ac_entry_json demo_crates e \<noteq> None" for e
    by (simp add: demo_crates_def)
  ultimately show ?thesis
    unfolding Let_def using worm_check_rejects_genuine_log [OF refl _ room ok] by blast
qed

end
