(* ===== verification/Bounded_Cache.thy ===== *)
theory Bounded_Cache
  imports Prelude
begin

text \<open>
  The bounded cache of key material with first-in first-out eviction,
  \<^verbatim>\<open>crates/kms-keystore/src/bounded_cache.rs\<close>, over any type of entries. What a keystore relies on
  of a cache is the locale \<open>key_cache\<close>: a cache may forget entries but never invents or alters them.
\<close>

section \<open>The cache\<close>

record 'e bounded_cache =
  bc_map :: "(uuid \<times> 'e) list"
  bc_order :: "uuid list"
  bc_capacity :: "nat option"
  bc_evictions :: u64

definition bc_new :: "nat option \<Rightarrow> 'e bounded_cache" where
  "bc_new capacity = \<lparr>bc_map = [], bc_order = [], bc_capacity = capacity, bc_evictions = 0\<rparr>"

definition get_cloned :: "'e bounded_cache \<Rightarrow> uuid \<Rightarrow> 'e option" where
  "get_cloned c key = map_of (bc_map c) key"

text \<open>\<open>HashMap::get_mut\<close> followed by an update in place.\<close>

definition update_entry :: "uuid \<Rightarrow> ('e \<Rightarrow> 'e) \<Rightarrow> (uuid \<times> 'e) list \<Rightarrow> (uuid \<times> 'e) list" where
  "update_entry key f m = map (\<lambda>(k, e). if k = key then (k, f e) else (k, e)) m"

definition mutate :: "uuid \<Rightarrow> ('e \<Rightarrow> 'r \<times> 'e) \<Rightarrow> 'e bounded_cache \<Rightarrow> 'r option \<times> 'e bounded_cache" where
  "mutate key f c =
     (case map_of (bc_map c) key of
        None \<Rightarrow> (None, c)
      | Some e \<Rightarrow> (Some (fst (f e)), c\<lparr>bc_map := update_entry key (\<lambda>e. snd (f e)) (bc_map c)\<rparr>))"

text \<open>The loop that evicts down to the cap, over the queue it pops from.\<close>

fun evict_loop :: "nat \<Rightarrow> (uuid \<times> 'e) list \<Rightarrow> uuid list \<Rightarrow> u64 \<Rightarrow> (uuid \<times> 'e) list \<times> uuid list \<times> u64" where
  "evict_loop cap m [] n = (m, [], n)"
| "evict_loop cap m (victim # order) n =
     (if length m \<le> cap then (m, victim # order, n)
      else if map_of m victim \<noteq> None then evict_loop cap (map_remove victim m) order (n + 1)
      else evict_loop cap m order n)"

definition insert_with_eviction :: "uuid \<Rightarrow> 'e \<Rightarrow> 'e bounded_cache \<Rightarrow> 'e bounded_cache" where
  "insert_with_eviction key entry c =
     (let m = map_insert key entry (bc_map c);
          order = bc_order c @ [key]
      in case bc_capacity c of
           None \<Rightarrow> c\<lparr>bc_map := m, bc_order := order\<rparr>
         | Some cap \<Rightarrow>
             let (m', order', n) = evict_loop cap m order (bc_evictions c)
             in c\<lparr>bc_map := m', bc_order := order', bc_evictions := n\<rparr>)"

definition mutate_and_insert ::
  "uuid \<Rightarrow> ('e \<Rightarrow> ('r \<times> (uuid \<times> 'e) list) \<times> 'e) \<Rightarrow> 'e bounded_cache \<Rightarrow> 'r option \<times> 'e bounded_cache" where
  "mutate_and_insert key f c =
     (case mutate key f c of
        (None, c') \<Rightarrow> (None, c')
      | (Some (r, to_insert), c') \<Rightarrow> (Some r, fold (\<lambda>(k, e). insert_with_eviction k e) to_insert c'))"

text \<open>Only the first occurrence of the key leaves the queue.\<close>

definition remove :: "uuid \<Rightarrow> 'e bounded_cache \<Rightarrow> 'e option \<times> 'e bounded_cache" where
  "remove key c =
     (case map_of (bc_map c) key of
        None \<Rightarrow> (None, c)
      | Some e \<Rightarrow> (Some e, c\<lparr>bc_map := map_remove key (bc_map c), bc_order := remove1 key (bc_order c)\<rparr>))"

definition try_read :: "'e bounded_cache \<Rightarrow> uuid \<Rightarrow> ('e \<Rightarrow> 'r) \<Rightarrow> 'r option" where
  "try_read c key f = map_option f (map_of (bc_map c) key)"

definition bc_len :: "'e bounded_cache \<Rightarrow> nat" where
  "bc_len c = length (bc_map c)"

definition bc_is_empty :: "'e bounded_cache \<Rightarrow> bool" where
  "bc_is_empty c \<longleftrightarrow> bc_map c = []"

definition bc_clear :: "'e bounded_cache \<Rightarrow> 'e bounded_cache" where
  "bc_clear c = c\<lparr>bc_map := [], bc_order := []\<rparr>"

section \<open>The interface\<close>

locale key_cache =
  fixes get :: "'c \<Rightarrow> 'k \<Rightarrow> 'e option"
    and ins :: "'k \<Rightarrow> 'e \<Rightarrow> 'c \<Rightarrow> 'c"
    and upd :: "'k \<Rightarrow> ('e \<Rightarrow> 'e) \<Rightarrow> 'c \<Rightarrow> 'c"
    and del :: "'k \<Rightarrow> 'c \<Rightarrow> 'c"
  assumes get_ins: "get (ins k e c) k' = Some x \<Longrightarrow> (if k' = k then x = e else get c k' = Some x)"
    and get_upd: "get (upd k f c) k' = (if k' = k then map_option f (get c k') else get c k')"
    and get_del: "get (del k c) k' = (if k' = k then None else get c k')"
begin

text \<open>Every cached entry satisfies a property of its key, for instance agreement with a database.\<close>

definition all_cached :: "('k \<Rightarrow> 'e \<Rightarrow> bool) \<Rightarrow> 'c \<Rightarrow> bool" where
  "all_cached P c \<longleftrightarrow> (\<forall>k e. get c k = Some e \<longrightarrow> P k e)"

lemma all_cached_ins: "all_cached P c \<Longrightarrow> P k e \<Longrightarrow> all_cached P (ins k e c)"
  using get_ins unfolding all_cached_def by (metis (full_types))

lemma all_cached_upd:
  "all_cached P c \<Longrightarrow> (\<And>e. get c k = Some e \<Longrightarrow> P k (f e)) \<Longrightarrow> all_cached P (upd k f c)"
  by (auto simp: all_cached_def get_upd split: if_splits)

lemma all_cached_del: "all_cached P c \<Longrightarrow> all_cached P (del k c)"
  by (simp add: all_cached_def get_del)

lemma all_cached_mono: "all_cached P c \<Longrightarrow> (\<And>k e. get c k = Some e \<Longrightarrow> P k e \<Longrightarrow> Q k e) \<Longrightarrow> all_cached Q c"
  by (auto simp: all_cached_def)

end

section \<open>Eviction\<close>

lemma evict_loop_map_of:
  "evict_loop cap m order n = (m', order', n') \<Longrightarrow> map_of m' k = Some e \<Longrightarrow> map_of m k = Some e"
proof (induction cap m order n rule: evict_loop.induct)
  case (1 cap m n)
  then show ?case by simp
next
  case (2 cap m victim order n)
  then show ?case by (auto simp: map_of_map_remove split: if_splits)
qed

lemma map_of_update_entry: "map_of (update_entry key f m) k = (if k = key then map_option f (map_of m k) else map_of m k)"
  by (induction m) (auto simp: update_entry_def)

lemma keys_update_entry [simp]: "map fst (update_entry key f m) = map fst m"
  by (induction m) (auto simp: update_entry_def)

lemma get_insert_with_eviction:
  "get_cloned (insert_with_eviction k e c) k' = Some x \<Longrightarrow> (if k' = k then x = e else get_cloned c k' = Some x)"
  by (auto simp: get_cloned_def insert_with_eviction_def Let_def map_of_map_insert
      dest: evict_loop_map_of split: option.splits prod.splits if_splits)

definition set_entry :: "uuid \<Rightarrow> ('e \<Rightarrow> 'e) \<Rightarrow> 'e bounded_cache \<Rightarrow> 'e bounded_cache" where
  "set_entry key f c = snd (mutate key (\<lambda>e. ((), f e)) c)"

lemma get_set_entry:
  "get_cloned (set_entry k f c) k' = (if k' = k then map_option f (get_cloned c k') else get_cloned c k')"
  by (auto simp: set_entry_def mutate_def get_cloned_def map_of_update_entry split: option.splits)

lemma get_remove: "get_cloned (snd (remove k c)) k' = (if k' = k then None else get_cloned c k')"
  by (auto simp: remove_def get_cloned_def map_of_map_remove split: option.splits)

interpretation bounded: key_cache get_cloned insert_with_eviction set_entry "\<lambda>k c. snd (remove k c)"
  by unfold_locales (fact get_insert_with_eviction get_set_entry get_remove)+

section \<open>The bound\<close>

text \<open>Keys occur once, every key is queued, and the cap is respected.\<close>

definition cache_inv :: "'e bounded_cache \<Rightarrow> bool" where
  "cache_inv c \<longleftrightarrow> distinct (map fst (bc_map c)) \<and> fst ` set (bc_map c) \<subseteq> set (bc_order c)
     \<and> (case bc_capacity c of Some cap \<Rightarrow> bc_len c \<le> cap | None \<Rightarrow> True)"

lemma evict_loop_inv:
  assumes "evict_loop cap m order n = (m', order', n')" "distinct (map fst m)" "fst ` set m \<subseteq> set order"
  shows "distinct (map fst m') \<and> fst ` set m' \<subseteq> set order' \<and> length m' \<le> cap"
  using assms
proof (induction cap m order n rule: evict_loop.induct)
  case (1 cap m n)
  then show ?case by simp
next
  case (2 cap m victim order n)
  have *: "fst ` set (map_remove victim m) \<subseteq> set order" "map_of m victim = None \<Longrightarrow> fst ` set m \<subseteq> set order"
    using 2(5) by (auto simp: map_keys_remove map_of_eq_None_iff)
  consider "length m \<le> cap" | "\<not> length m \<le> cap" "map_of m victim \<noteq> None" | "\<not> length m \<le> cap" "map_of m victim = None"
    by blast
  then show ?case
  proof cases
    case 1
    with 2 show ?thesis by simp
  next
    case a: 2
    with 2(3) have "evict_loop cap (map_remove victim m) order (n + 1) = (m', order', n')"
      by (simp del: not_None_eq)
    then show ?thesis
      using 2(1) [OF a] 2(4) *(1) by (blast intro: distinct_map_remove)
  next
    case b: 3
    with 2(3) have "evict_loop cap m order n = (m', order', n')"
      by simp
    then show ?thesis
      using 2(2) [OF b(1)] b(2) 2(4) *(2) by simp
  qed
qed

lemma capacity_insert [simp]: "bc_capacity (insert_with_eviction k e c) = bc_capacity c"
  by (simp add: insert_with_eviction_def Let_def split: option.splits prod.splits)

lemma cache_inv_insert:
  assumes "cache_inv c"
  shows "cache_inv (insert_with_eviction k e c)"
proof -
  have "distinct (map fst (map_insert k e (bc_map c)))" "fst ` set (map_insert k e (bc_map c)) \<subseteq> set (bc_order c @ [k])"
    using assms by (auto simp: cache_inv_def distinct_map_insert map_keys_insert)
  then show ?thesis
    using evict_loop_inv [of _ "map_insert k e (bc_map c)" "bc_order c @ [k]" "bc_evictions c"]
    by (auto simp: cache_inv_def insert_with_eviction_def bc_len_def Let_def split: option.splits prod.splits)
qed

lemma length_map_remove_le: "length (map_remove k m) \<le> length m"
  by (simp add: map_remove_def)

lemma cache_inv_remove: "cache_inv c \<Longrightarrow> cache_inv (snd (remove k c))"
  using length_map_remove_le [of k "bc_map c"]
  by (auto simp: cache_inv_def remove_def bc_len_def distinct_map_remove map_keys_remove in_set_remove1 subset_iff
      split: option.splits)

lemma cache_inv_mutate: "cache_inv c \<Longrightarrow> cache_inv (snd (mutate k f c))"
proof -
  have *: "fst ` set (update_entry k g m) = fst ` set m" for g m
    using keys_update_entry [of k g m] by (metis list.set_map)
  assume "cache_inv c"
  then show ?thesis
    by (auto simp: cache_inv_def mutate_def bc_len_def * update_entry_def [THEN arg_cong [where f = length]]
        simp del: set_map split: option.splits)
qed

lemma cache_inv_clear: "cache_inv (bc_clear c)"
  by (simp add: cache_inv_def bc_clear_def bc_len_def split: option.splits)

lemma cache_inv_new [simp]: "cache_inv (bc_new cap)"
  by (simp add: cache_inv_def bc_new_def bc_len_def split: option.splits)

datatype 'e cache_call =
    Insert uuid 'e
  | Mutate uuid "'e \<Rightarrow> 'e"
  | MutateAndInsert uuid "'e \<Rightarrow> (uuid \<times> 'e) list \<times> 'e"
  | Remove uuid
  | Clear

fun cache_step :: "'e cache_call \<Rightarrow> 'e bounded_cache \<Rightarrow> 'e bounded_cache" where
  "cache_step (Insert k e) c = insert_with_eviction k e c"
| "cache_step (Mutate k f) c = set_entry k f c"
| "cache_step (MutateAndInsert k f) c = snd (mutate_and_insert k (\<lambda>e. (((), fst (f e)), snd (f e))) c)"
| "cache_step (Remove k) c = snd (remove k c)"
| "cache_step Clear c = bc_clear c"

lemma cache_inv_fold: "cache_inv c \<Longrightarrow> cache_inv (fold (\<lambda>(k, e). insert_with_eviction k e) kes c)"
  by (induction kes arbitrary: c) (auto simp: cache_inv_insert)

lemma cache_inv_mutate_and_insert: "cache_inv c \<Longrightarrow> cache_inv (snd (mutate_and_insert k f c))"
  using cache_inv_mutate [of c k f]
  by (auto simp: mutate_and_insert_def cache_inv_fold split: prod.splits option.splits)

interpretation cache: stateful cache_step "\<lambda>_. True" cache_inv
proof
  fix x and c :: "'e bounded_cache"
  assume "cache_inv c"
  then show "cache_inv (cache_step x c)"
    by (cases x) (simp_all add: cache_inv_insert cache_inv_remove cache_inv_clear set_entry_def cache_inv_mutate
        cache_inv_mutate_and_insert)
qed

lemma capacity_step [simp]: "bc_capacity (cache_step x c) = bc_capacity c"
proof -
  have *: "bc_capacity (fold (\<lambda>(k, e). insert_with_eviction k e) kes c) = bc_capacity c" for kes and c :: "'e bounded_cache"
    by (induction kes arbitrary: c) auto
  show ?thesis
    by (cases x) (auto simp: set_entry_def mutate_def mutate_and_insert_def remove_def bc_clear_def *
        split: option.splits prod.splits)
qed

lemma capacity_run [simp]: "bc_capacity (run_ops cache_step xs c) = bc_capacity c"
  by (induction xs arbitrary: c) auto

section \<open>First in, first out\<close>

text \<open>The cache after inserting a list of entries under distinct keys, as the window of the newest ones.\<close>

definition fifo_window :: "nat \<Rightarrow> (uuid \<times> 'e) list \<Rightarrow> 'e bounded_cache" where
  "fifo_window cap kes =
     (let w = drop (length kes - cap) kes
      in \<lparr>bc_map = rev w, bc_order = map fst w, bc_capacity = Some cap, bc_evictions = of_nat (length kes - cap)\<rparr>)"

lemma map_insert_fresh: "k \<notin> fst ` set m \<Longrightarrow> map_insert k e m = (k, e) # m"
  by (auto simp: map_insert_def filter_id_conv)

lemma map_remove_absent: "k \<notin> fst ` set m \<Longrightarrow> map_remove k m = m"
  by (auto simp: map_remove_def filter_id_conv)

lemma map_remove_append: "map_remove k (m @ m') = map_remove k m @ map_remove k m'"
  by (simp add: map_remove_def)

lemma evict_loop_full:
  assumes "distinct (map fst w)" "length w = Suc cap"
  shows "evict_loop cap (rev w) (map fst w) n = (rev (tl w), map fst (tl w), n + 1)"
proof (cases w)
  case Nil
  with assms show ?thesis by simp
next
  case (Cons y w')
  with assms have "map_remove (fst y) (rev w) = rev w'" "length w' = cap"
    by (simp_all add: map_remove_append map_remove_absent) (simp add: map_remove_def)
  moreover have "map_of (rev w) (fst y) \<noteq> None"
    using Cons by (simp only: map_of_eq_None_iff) simp
  moreover have "evict_loop cap (rev w') (map fst w') (n + 1) = (rev w', map fst w', n + 1)"
    using \<open>length w' = cap\<close> by (cases w') simp_all
  ultimately show ?thesis
    using assms Cons by (simp del: not_None_eq map_of_eq_None_iff)
qed

lemma insert_fifo_window:
  assumes "distinct (map fst (kes @ [(k, e)]))"
  shows "insert_with_eviction k e (fifo_window cap kes) = fifo_window cap (kes @ [(k, e)])"
proof -
  let ?w = "drop (length kes - cap) kes"
  have fresh: "k \<notin> fst ` set ?w"
    using assms by (auto dest: in_set_dropD)
  then have m: "map_insert k e (rev ?w) = rev (?w @ [(k, e)])"
    by (simp add: map_insert_fresh)
  have d: "distinct (map fst (?w @ [(k, e)]))"
    using assms fresh by (simp add: distinct_drop flip: drop_map) (simp add: drop_map)
  show ?thesis
  proof (cases "length kes < cap")
    case True
    then have "evict_loop cap (rev (?w @ [(k, e)])) (map fst (?w @ [(k, e)])) n
        = (rev (?w @ [(k, e)]), map fst (?w @ [(k, e)]), n)" for n :: u64
      by (cases "map fst (?w @ [(k, e)])") simp_all
    with True show ?thesis
      using m by (simp add: insert_with_eviction_def fifo_window_def Let_def)
  next
    case False
    have "?w @ [(k, e)] = drop (length kes - cap) (kes @ [(k, e)])"
      by simp
    then have t: "tl (?w @ [(k, e)]) = drop (Suc (length kes) - cap) (kes @ [(k, e)])"
      using False by (metis Suc_diff_le drop_Suc not_less tl_drop)
    have "length (?w @ [(k, e)]) = Suc cap"
      using False by simp
    from evict_loop_full [OF d this] show ?thesis
      using m t False
      by (simp add: insert_with_eviction_def fifo_window_def Let_def Suc_diff_le add.commute del: tl_append2)
  qed
qed

lemma fold_fifo_window:
  "distinct (map fst (kes @ kes')) \<Longrightarrow>
   fold (\<lambda>(k, e). insert_with_eviction k e) kes' (fifo_window cap kes) = fifo_window cap (kes @ kes')"
proof (induction kes' arbitrary: kes)
  case Nil
  then show ?case by simp
next
  case (Cons ke kes')
  then show ?case
    using insert_fifo_window [of kes "fst ke" "snd ke" cap] Cons.IH [of "kes @ [ke]"]
    by (cases ke) auto
qed

lemma bc_new_window: "bc_new (Some cap) = fifo_window cap []"
  by (simp add: bc_new_def fifo_window_def)

text \<open>C34. After entries have been inserted under distinct keys, a cache with a cap holds exactly the
  newest ones up to the cap, under their keys, and it has counted one eviction for each of the
  others (modulo the width of the counter).\<close>

theorem cache_is_fifo:
  assumes "distinct (map fst kes)"
  shows "let c = fold (\<lambda>(k, e). insert_with_eviction k e) kes (bc_new (Some cap))
         in get_cloned c = map_of (drop (length kes - cap) kes)
            \<and> bc_len c = min (length kes) cap \<and> bc_evictions c = of_nat (length kes - cap)"
proof -
  have "distinct (map fst (drop (length kes - cap) kes))"
    using assms by (simp add: distinct_drop flip: drop_map)
  then have "map_of (rev (drop (length kes - cap) kes)) = map_of (drop (length kes - cap) kes)"
    by (metis map_of_inject_set rev_map distinct_rev set_rev)
  with assms show ?thesis
    using fold_fifo_window [of "[]" kes cap]
    by (auto simp: bc_new_window fifo_window_def Let_def get_cloned_def bc_len_def fun_eq_iff)
qed

theorem cache_is_fifo_witness:
  "let c = fold (\<lambda>(k, e). insert_with_eviction k e) [(7, ''a''), (8, ''b''), (9, ''c'')] (bc_new (Some 2))
   in get_cloned c = map_of [(8, ''b''), (9, ''c'')] \<and> bc_len c = 2 \<and> bc_evictions c = 1"
  using cache_is_fifo [of "[(7, ''a''), (8, ''b''), (9, ''c'')]" 2] by (simp add: Let_def)

text \<open>However the cache is used, it never holds more entries than its cap, no key twice, and
  every key it holds is queued for eviction.\<close>

theorem cache_bounded:
  fixes c :: "'e bounded_cache"
  assumes "c = run_ops cache_step calls (bc_new (Some cap))"
  shows "bc_len c \<le> cap \<and> distinct (map fst (bc_map c)) \<and> (\<forall>k. get_cloned c k \<noteq> None \<longrightarrow> k \<in> set (bc_order c))"
proof -
  have "cache_inv c"
    using cache.run_inv [of calls "bc_new (Some cap)"] assms by (simp add: list_all_iff)
  moreover have "bc_capacity c = Some cap"
    using assms by (simp add: bc_new_def)
  ultimately show ?thesis
    by (auto simp: cache_inv_def get_cloned_def dest!: map_of_SomeD)
qed

theorem cache_bounded_witness:
  "let c = run_ops cache_step [Insert 1 True, Insert 2 True, Insert 2 False, Remove 2, Insert 3 True] (bc_new (Some 1))
   in bc_len c \<le> 1 \<and> get_cloned c 3 = Some True"
  using cache_bounded [OF refl, of "[Insert 1 True, Insert 2 True, Insert 2 False, Remove 2, Insert 3 True]" 1]
  by (simp add: Let_def) (simp add: bc_new_def insert_with_eviction_def map_insert_def map_remove_def remove_def
      get_cloned_def)

text \<open>
  A key inserted again leaves its first place in the queue behind, and the entry inserted last can be
  the one that is evicted.
\<close>

theorem reinserted_entry_evicted:
  "let c = run_ops cache_step [Insert a x, Insert a x, Insert b y, Insert a z] (bc_new (Some 1))
   in a \<noteq> b \<longrightarrow> get_cloned c a = None \<and> get_cloned c b = Some y"
  by (simp add: Let_def bc_new_def insert_with_eviction_def map_insert_def map_remove_def get_cloned_def)

end
