(* ===== verification/Key_Repository.thy ===== *)
theory Key_Repository
  imports Kms_Types "HOL-Library.Multiset"
begin

text \<open>
  The repository of keys and key versions, \<^verbatim>\<open>crates/kms-keystore/src/repository.rs\<close>: the two
  tables as lists of rows, and one definition per SQL statement with the constraints of the schema
  in \<open>migrate\<close> (primary keys, the unique pair of key and version, the reference from versions to keys).

  PostgreSQL, \<open>sqlx\<close> and \<open>serde_json\<close> are other code: the record \<open>db_env\<close> holds what is used of them (the
  JSON conversion of metadata, the resolution of stored times, the order of rows a sorted query
  returns, the text of an error of the server). A statement takes an optional \<open>fault\<close>, the text of the
  error when it fails; a statement that fails leaves the tables as they were.
\<close>

section \<open>Rows\<close>

record 'j key_row =
  kr_id :: uuid
  kr_tenant_id :: string
  kr_name :: string
  kr_spec :: string
  kr_status :: string
  kr_version :: "32 word"
  kr_created_at :: time
  kr_rotated_at :: "time option"
  kr_description :: "string option"
  kr_metadata :: "'j option"
  kr_encrypted_material :: "bytes option"
  kr_deleted_at :: "time option"
  kr_deleted_by :: "string option"

record key_version_row =
  vr_id :: uuid
  vr_key_id :: uuid
  vr_version :: "32 word"
  vr_encrypted_dek :: "bytes option"
  vr_status :: string
  vr_created_at :: time
  vr_rotated_at :: "time option"

record 'j tables =
  tb_keys :: "'j key_row list"
  tb_versions :: "key_version_row list"

record 'j db_env =
  to_value :: "key_metadata \<Rightarrow> 'j option"
  from_value :: "'j \<Rightarrow> key_metadata option"
  empty_object :: 'j
  db_time :: "time \<Rightarrow> time"
  order_by_created_desc :: "'j key_row list \<Rightarrow> 'j key_row list"
  pg_error :: "string \<Rightarrow> string"

type_synonym fault = "string option"

definition empty_tables :: "'j tables" where
  "empty_tables = \<lparr>tb_keys = [], tb_versions = []\<rparr>"

text \<open>The integer columns are \<open>i32\<close>; \<open>as i32\<close> and \<open>as u32\<close> keep the 32 bits.\<close>

fun status_debug :: "key_status \<Rightarrow> string" where
  "status_debug Active = ''Active''"
| "status_debug PendingDeletion = ''PendingDeletion''"
| "status_debug Obsolete = ''Obsolete''"
| "status_debug Destroyed = ''Destroyed''"

definition spec_from_str :: "string \<Rightarrow> key_spec" where
  "spec_from_str s =
     (if s = ''Aes256Gcm'' then Aes256Gcm
      else if s = ''Ed25519'' then Ed25519
      else if s = ''EcdsaP256'' then EcdsaP256
      else if s = ''Sm4'' then Sm4
      else if s = ''Sm2'' then Sm2
      else if s = ''HmacSha256'' then HmacSha256
      else if s = ''Rsa4096'' then Rsa4096
      else Aes256Gcm)"

definition status_from_str :: "string \<Rightarrow> key_status" where
  "status_from_str s =
     (if s = ''Active'' then Active
      else if s = ''PendingDeletion'' then PendingDeletion
      else if s = ''Obsolete'' then Obsolete
      else if s = ''Destroyed'' then Destroyed
      else Active)"

definition key_meta_from :: "'j db_env \<Rightarrow> 'j key_row \<Rightarrow> key_meta" where
  "key_meta_from db e =
     \<lparr>m_id = kr_id e, m_tenant_id = kr_tenant_id e, m_name = kr_name e,
      m_spec = spec_from_str (kr_spec e), m_status = status_from_str (kr_status e),
      m_created_at = kr_created_at e, m_rotated_at = kr_rotated_at e, m_version = kr_version e,
      m_description = kr_description e,
      m_metadata = (case Option.bind (kr_metadata e) (from_value db) of
                      Some md \<Rightarrow> md | None \<Rightarrow> key_metadata_default)\<rparr>"

section \<open>Statements on keys\<close>

definition internal :: "string \<Rightarrow> kms_error" where
  "internal e = Internal (Str e)"

text \<open>A statement that cannot violate a constraint, and its result on the tables.\<close>

definition execute :: "fault \<Rightarrow> ('j tables \<Rightarrow> 'j tables) \<Rightarrow> 'j tables \<Rightarrow> (kms_error + unit) \<times> 'j tables" where
  "execute fault f tb = (case fault of Some e \<Rightarrow> (Inl (internal e), tb) | None \<Rightarrow> (Inr (), f tb))"

definition fetch :: "fault \<Rightarrow> ('j tables \<Rightarrow> 'a) \<Rightarrow> 'j tables \<Rightarrow> kms_error + 'a" where
  "fetch fault q tb = (case fault of Some e \<Rightarrow> Inl (internal e) | None \<Rightarrow> Inr (q tb))"

definition row_of_meta :: "'j db_env \<Rightarrow> key_meta \<Rightarrow> 'j key_row" where
  "row_of_meta db meta =
     \<lparr>kr_id = m_id meta, kr_tenant_id = m_tenant_id meta, kr_name = m_name meta,
      kr_spec = spec_debug (m_spec meta), kr_status = status_debug (m_status meta),
      kr_version = m_version meta, kr_created_at = db_time db (m_created_at meta),
      kr_rotated_at = map_option (db_time db) (m_rotated_at meta), kr_description = m_description meta,
      kr_metadata = Some (case to_value db (m_metadata meta) of Some v \<Rightarrow> v | None \<Rightarrow> empty_object db),
      kr_encrypted_material = None, kr_deleted_at = None, kr_deleted_by = None\<rparr>"

definition repo_insert :: "'j db_env \<Rightarrow> fault \<Rightarrow> key_meta \<Rightarrow> 'j tables \<Rightarrow> (kms_error + unit) \<times> 'j tables" where
  "repo_insert db fault meta tb =
     (if fault = None \<and> m_id meta \<in> kr_id ` set (tb_keys tb) then (Inl (internal (pg_error db ''keys_pkey'')), tb)
      else execute fault (\<lambda>tb. tb\<lparr>tb_keys := tb_keys tb @ [row_of_meta db meta]\<rparr>) tb)"

definition live :: "uuid \<Rightarrow> 'j key_row \<Rightarrow> bool" where
  "live i r \<longleftrightarrow> kr_id r = i \<and> kr_deleted_at r = None"

definition live_row :: "'j tables \<Rightarrow> uuid \<Rightarrow> 'j key_row option" where
  "live_row tb i = find (live i) (tb_keys tb)"

definition find_by_id :: "'j db_env \<Rightarrow> fault \<Rightarrow> uuid \<Rightarrow> 'j tables \<Rightarrow> kms_error + key_meta option" where
  "find_by_id db fault i tb = fetch fault (\<lambda>tb. map_option (key_meta_from db) (live_row tb i)) tb"

definition find_encrypted_material :: "fault \<Rightarrow> uuid \<Rightarrow> 'j tables \<Rightarrow> kms_error + bytes option" where
  "find_encrypted_material fault i tb =
     fetch fault (\<lambda>tb. Option.bind (live_row tb i) kr_encrypted_material) tb"

definition update_where :: "('r \<Rightarrow> bool) \<Rightarrow> ('r \<Rightarrow> 'r) \<Rightarrow> 'r list \<Rightarrow> 'r list" where
  "update_where P f rs = map (\<lambda>r. if P r then f r else r) rs"

definition update_encrypted_material ::
  "fault \<Rightarrow> uuid \<Rightarrow> bytes \<Rightarrow> 'j tables \<Rightarrow> (kms_error + unit) \<times> 'j tables" where
  "update_encrypted_material fault i enc tb =
     execute fault (\<lambda>tb. tb\<lparr>tb_keys :=
       update_where (live i) (\<lambda>r. r\<lparr>kr_encrypted_material := Some enc\<rparr>) (tb_keys tb)\<rparr>) tb"

text \<open>\<open>LIMIT\<close> and \<open>OFFSET\<close> of the server: a negative number is an error.\<close>

definition select_page ::
  "'j db_env \<Rightarrow> fault \<Rightarrow> ('j key_row \<Rightarrow> bool) \<Rightarrow> int option \<Rightarrow> int option \<Rightarrow> 'j tables
    \<Rightarrow> kms_error + key_meta list" where
  "select_page db fault P lim off tb =
     (let lim' = (case lim of Some n \<Rightarrow> n | None \<Rightarrow> 100);
          off' = (case off of Some n \<Rightarrow> n | None \<Rightarrow> 0)
      in if fault = None \<and> lim' < 0 then Inl (internal (pg_error db ''LIMIT''))
         else if fault = None \<and> off' < 0 then Inl (internal (pg_error db ''OFFSET''))
         else fetch fault (\<lambda>tb. map (key_meta_from db)
                (take (nat lim') (drop (nat off') (order_by_created_desc db (filter P (tb_keys tb)))))) tb)"

definition repo_list ::
  "'j db_env \<Rightarrow> fault \<Rightarrow> string \<Rightarrow> string option \<Rightarrow> int option \<Rightarrow> int option \<Rightarrow> 'j tables
    \<Rightarrow> kms_error + key_meta list" where
  "repo_list db fault tenant_id status lim off tb =
     select_page db fault (\<lambda>r. kr_tenant_id r = tenant_id \<and> kr_deleted_at r = None) lim off tb"

definition list_all_tenants ::
  "'j db_env \<Rightarrow> fault \<Rightarrow> int option \<Rightarrow> int option \<Rightarrow> 'j tables \<Rightarrow> kms_error + key_meta list" where
  "list_all_tenants db fault lim off tb = select_page db fault (\<lambda>r. kr_deleted_at r = None) lim off tb"

definition update_status ::
  "fault \<Rightarrow> uuid \<Rightarrow> key_status \<Rightarrow> 'j tables \<Rightarrow> (kms_error + unit) \<times> 'j tables" where
  "update_status fault i st tb =
     execute fault (\<lambda>tb. tb\<lparr>tb_keys :=
       update_where (live i) (\<lambda>r. r\<lparr>kr_status := status_debug st\<rparr>) (tb_keys tb)\<rparr>) tb"

text \<open>\<open>now\<close> is the server's \<open>NOW()\<close>.\<close>

definition soft_delete ::
  "fault \<Rightarrow> time \<Rightarrow> uuid \<Rightarrow> string \<Rightarrow> 'j tables \<Rightarrow> (kms_error + unit) \<times> 'j tables" where
  "soft_delete fault now i deleted_by tb =
     execute fault (\<lambda>tb. tb\<lparr>tb_keys :=
       update_where (live i) (\<lambda>r. r\<lparr>kr_deleted_at := Some now, kr_deleted_by := Some deleted_by\<rparr>)
         (tb_keys tb)\<rparr>) tb"

section \<open>Statements on key versions\<close>

definition insert_version ::
  "'j db_env \<Rightarrow> fault \<Rightarrow> uuid \<Rightarrow> time \<Rightarrow> uuid \<Rightarrow> u32 \<Rightarrow> bytes option \<Rightarrow> string \<Rightarrow> 'j tables
    \<Rightarrow> (kms_error + uuid) \<times> 'j tables" where
  "insert_version db fault new_id now key_id version dek status tb =
     (case fault of
        Some e \<Rightarrow> (Inl (internal e), tb)
      | None \<Rightarrow>
          if new_id \<in> vr_id ` set (tb_versions tb) then (Inl (internal (pg_error db ''key_versions_pkey'')), tb)
          else if (key_id, version) \<in> (\<lambda>v. (vr_key_id v, vr_version v)) ` set (tb_versions tb)
          then (Inl (internal (pg_error db ''key_versions_key_id_version_key'')), tb)
          else if key_id \<notin> kr_id ` set (tb_keys tb)
          then (Inl (internal (pg_error db ''key_versions_key_id_fkey'')), tb)
          else (Inr new_id, tb\<lparr>tb_versions := tb_versions tb @
                  [\<lparr>vr_id = new_id, vr_key_id = key_id, vr_version = version, vr_encrypted_dek = dek,
                    vr_status = status, vr_created_at = db_time db now,
                    vr_rotated_at = Some (db_time db now)\<rparr>]\<rparr>))"

text \<open>Versions of a key are distinct, so the order of this query is determined; the column is signed.\<close>

definition list_versions :: "fault \<Rightarrow> uuid \<Rightarrow> 'j tables \<Rightarrow> kms_error + key_version_row list" where
  "list_versions fault key_id tb =
     fetch fault (\<lambda>tb. sort_key (\<lambda>v. - sint (vr_version v)) (filter (\<lambda>v. vr_key_id v = key_id) (tb_versions tb))) tb"

definition version_row :: "'j tables \<Rightarrow> uuid \<Rightarrow> u32 \<Rightarrow> key_version_row option" where
  "version_row tb key_id version = find (\<lambda>v. vr_key_id v = key_id \<and> vr_version v = version) (tb_versions tb)"

definition get_version :: "fault \<Rightarrow> uuid \<Rightarrow> u32 \<Rightarrow> 'j tables \<Rightarrow> kms_error + key_version_row option" where
  "get_version fault key_id version tb = fetch fault (\<lambda>tb. version_row tb key_id version) tb"

definition update_version_rotated_at ::
  "'j db_env \<Rightarrow> fault \<Rightarrow> time \<Rightarrow> uuid \<Rightarrow> u32 \<Rightarrow> 'j tables \<Rightarrow> (kms_error + unit) \<times> 'j tables" where
  "update_version_rotated_at db fault now key_id version tb =
     execute fault (\<lambda>tb. tb\<lparr>tb_versions :=
       update_where (\<lambda>v. vr_key_id v = key_id \<and> vr_version v = version)
         (\<lambda>v. v\<lparr>vr_rotated_at := Some (db_time db now), vr_status := ''Rotated''\<rparr>) (tb_versions tb)\<rparr>) tb"

section \<open>Rows and metadata\<close>

definition persisted_specs :: "key_spec set" where
  "persisted_specs = {Aes256Gcm, Ed25519, EcdsaP256, Sm4, Sm2, HmacSha256, Rsa4096}"

lemma spec_from_debug: "spec_from_str (spec_debug sp) = (if sp \<in> persisted_specs then sp else Aes256Gcm)"
  by (cases sp) (simp_all add: spec_from_str_def persisted_specs_def)

lemma status_from_debug [simp]: "status_from_str (status_debug st) = st"
  by (cases st) (simp_all add: status_from_str_def)

text \<open>What a database keeps of metadata exactly.\<close>

definition storable :: "'j db_env \<Rightarrow> key_meta \<Rightarrow> bool" where
  "storable db meta \<longleftrightarrow> m_spec meta \<in> persisted_specs \<and> db_time db (m_created_at meta) = m_created_at meta
     \<and> map_option (db_time db) (m_rotated_at meta) = m_rotated_at meta
     \<and> Option.bind (to_value db (m_metadata meta)) (from_value db) = Some (m_metadata meta)"

lemma key_meta_roundtrip: "storable db meta \<Longrightarrow> key_meta_from db (row_of_meta db meta) = meta"
  by (cases "to_value db (m_metadata meta)")
    (auto simp: storable_def key_meta_from_def row_of_meta_def spec_from_debug)

section \<open>Statements and live rows\<close>

lemma execute_None [simp]: "execute None f tb = (Inr (), f tb)" and fetch_None [simp]: "fetch None q tb = Inr (q tb)"
  and execute_Some [simp]: "execute (Some e) f tb = (Inl (internal e), tb)" and fetch_Some [simp]: "fetch (Some e) q tb = Inl (internal e)"
  by (simp_all add: execute_def fetch_def)

lemma find_update_where:
  assumes "\<And>r. P r \<Longrightarrow> Q (f r) = Q r"
  shows "find Q (update_where P f rs) = map_option (\<lambda>r. if P r then f r else r) (find Q rs)"
  using assms by (induction rs) (auto simp: update_where_def)

lemma live_row_SomeD: "live_row tb i = Some r \<Longrightarrow> r \<in> set (tb_keys tb) \<and> kr_id r = i \<and> kr_deleted_at r = None"
  by (auto simp: live_row_def live_def find_Some_iff)

lemma live_row_None: "i \<notin> kr_id ` set (tb_keys tb) \<Longrightarrow> live_row tb i = None"
  by (auto simp: live_row_def live_def find_None_iff)

lemma live_row_insert:
  "m_id meta \<notin> kr_id ` set (tb_keys tb) \<Longrightarrow>
   live_row (tb\<lparr>tb_keys := tb_keys tb @ [row_of_meta db meta]\<rparr>) i =
     (if i = m_id meta then Some (row_of_meta db meta) else live_row tb i)"
  by (auto simp: live_row_def find_append live_def row_of_meta_def live_row_None [unfolded live_row_def]
      split: option.splits dest: find_Some_iff [THEN iffD1])

lemma live_row_update:
  assumes "\<And>r. live k (f r) = live k r" "\<And>r. kr_id (f r) = kr_id r"
  shows "live_row (tb\<lparr>tb_keys := update_where (live k) f (tb_keys tb)\<rparr>) i =
     (if i = k then map_option f (live_row tb i) else live_row tb i)"
proof -
  have "live i (f r) = live i r" if "live k r" for r
    using assms that by (auto simp: live_def)
  then have *: "live_row (tb\<lparr>tb_keys := update_where (live k) f (tb_keys tb)\<rparr>) i
      = map_option (\<lambda>r. if live k r then f r else r) (live_row tb i)"
    unfolding live_row_def by (simp add: find_update_where)
  then show ?thesis
    by (cases "live_row tb i") (use live_row_SomeD [of tb i] in \<open>auto simp: live_def\<close>)
qed

lemma ids_update_where: "(\<And>r. f (g r) = f r) \<Longrightarrow> map f (update_where P g rs) = map f rs"
  by (induction rs) (auto simp: update_where_def)

lemma live_row_delete:
  "live_row (tb\<lparr>tb_keys := update_where (live k) (\<lambda>r. r\<lparr>kr_deleted_at := Some now, kr_deleted_by := b\<rparr>) (tb_keys tb)\<rparr>) i =
     (if i = k then None else live_row tb i)"
proof -
  have "find (live i) (update_where (live k) (\<lambda>r. r\<lparr>kr_deleted_at := Some now, kr_deleted_by := b\<rparr>) rs) =
     (if i = k then None else find (live i) rs)" for rs :: "'a key_row list"
    by (induction rs) (auto simp: update_where_def live_def [abs_def])
  then show ?thesis by (simp add: live_row_def)
qed

section \<open>Keys that come back from the database\<close>

text \<open>
  A key written to the database and read back is the same key exactly when its specification is one
  of the seven the reader knows: for every other specification (P-384, Ed448, SM3-HMAC, SM9) the
  key comes back as an AES key.
\<close>

theorem insert_find_roundtrip:
  assumes "m_id meta \<notin> kr_id ` set (tb_keys tb)" "db_time db (m_created_at meta) = m_created_at meta"
    "map_option (db_time db) (m_rotated_at meta) = m_rotated_at meta"
    "Option.bind (to_value db (m_metadata meta)) (from_value db) = Some (m_metadata meta)"
  shows "find_by_id db None (m_id meta) (snd (repo_insert db None meta tb))
    = Inr (Some (if m_spec meta \<in> persisted_specs then meta else meta\<lparr>m_spec := Aes256Gcm\<rparr>))"
proof -
  have "key_meta_from db (row_of_meta db meta)
      = (if m_spec meta \<in> persisted_specs then meta else meta\<lparr>m_spec := Aes256Gcm\<rparr>)"
    using assms by (cases "to_value db (m_metadata meta)")
      (auto simp: key_meta_from_def row_of_meta_def spec_from_debug)
  with assms(1) show ?thesis
    by (simp add: find_by_id_def repo_insert_def live_row_insert)
qed

text \<open>A database for examples: metadata are stored as they are and rows are sorted by insertion.\<close>

definition demo_db :: "key_metadata db_env" where
  "demo_db = \<lparr>to_value = Some, from_value = Some, empty_object = key_metadata_default, db_time = (\<lambda>t. t),
     order_by_created_desc = sort_key (\<lambda>r. - kr_created_at r), pg_error = (\<lambda>c. c)\<rparr>"

lemmas demo_db_simps [simp] = demo_db_def [THEN arg_cong [where f = to_value], simplified]
  demo_db_def [THEN arg_cong [where f = from_value], simplified]
  demo_db_def [THEN arg_cong [where f = db_time], simplified]

definition demo_meta :: "key_spec \<Rightarrow> key_meta" where
  "demo_meta sp = \<lparr>m_id = 7, m_tenant_id = ''a'', m_name = ''n'', m_spec = sp, m_status = Active, m_created_at = 5,
     m_rotated_at = None, m_version = 1, m_description = None, m_metadata = key_metadata_default\<rparr>"

theorem insert_find_roundtrip_witness:
  "find_by_id demo_db None 7 (snd (repo_insert demo_db None (demo_meta Sm2) empty_tables)) = Inr (Some (demo_meta Sm2))
   \<and> find_by_id demo_db None 7 (snd (repo_insert demo_db None (demo_meta Sm3Hmac) empty_tables))
       = Inr (Some (demo_meta Aes256Gcm))"
  using insert_find_roundtrip [of "demo_meta Sm2" empty_tables demo_db]
    insert_find_roundtrip [of "demo_meta Sm3Hmac" empty_tables demo_db]
  by (simp add: demo_meta_def empty_tables_def persisted_specs_def)

text \<open>
  A page of a tenant's keys holds only keys of that tenant that are not deleted, newest first, at
  most as many as the limit, which is 100 when none is given; the status asked for is ignored.
\<close>

theorem repo_list_page:
  assumes "repo_list db None t st lim off tb = Inr metas"
    "let rs = filter (\<lambda>r. kr_tenant_id r = t \<and> kr_deleted_at r = None) (tb_keys tb);
         rs' = order_by_created_desc db rs
     in mset rs' = mset rs \<and> sorted (map (\<lambda>r. - kr_created_at r) rs')"
  shows "(\<forall>meta \<in> set metas. \<exists>r \<in> set (tb_keys tb). kr_tenant_id r = t \<and> kr_deleted_at r = None \<and> meta = key_meta_from db r)
    \<and> sorted (map (\<lambda>meta. - m_created_at meta) metas)
    \<and> length metas \<le> nat (case lim of None \<Rightarrow> 100 | Some n \<Rightarrow> n)
    \<and> repo_list db None t st' lim off tb = Inr metas"
proof -
  define rs where "rs = filter (\<lambda>r. kr_tenant_id r = t \<and> kr_deleted_at r = None) (tb_keys tb)"
  define page where "page = take (nat (case lim of None \<Rightarrow> 100 | Some n \<Rightarrow> n))
      (drop (nat (case off of None \<Rightarrow> 0 | Some n \<Rightarrow> n)) (order_by_created_desc db rs))"
  have metas: "metas = map (key_meta_from db) page"
    using assms(1) by (auto simp: repo_list_def select_page_def Let_def page_def rs_def split: if_splits option.splits)
  have ord: "mset (order_by_created_desc db rs) = mset rs" "sorted (map (\<lambda>r. - kr_created_at r) (order_by_created_desc db rs))"
    using assms(2) by (simp_all add: Let_def rs_def)
  then have "set page \<subseteq> set rs"
    unfolding page_def by (metis mset_eq_setD order_trans set_drop_subset set_take_subset)
  then have "\<forall>meta \<in> set metas. \<exists>r \<in> set (tb_keys tb). kr_tenant_id r = t \<and> kr_deleted_at r = None \<and> meta = key_meta_from db r"
    by (auto simp: metas rs_def)
  moreover have "sorted (map (\<lambda>r. - kr_created_at r) page)"
    unfolding page_def using ord(2) by (metis drop_map sorted_wrt_drop sorted_wrt_take take_map)
  then have "sorted (map (\<lambda>meta. - m_created_at meta) metas)"
    by (simp add: metas comp_def key_meta_from_def)
  moreover have "length metas \<le> nat (case lim of None \<Rightarrow> 100 | Some n \<Rightarrow> n)"
    by (simp add: metas page_def)
  ultimately show ?thesis
    using assms(1) by (simp add: repo_list_def)
qed

definition demo_tables :: "key_metadata tables" where
  "demo_tables = empty_tables\<lparr>tb_keys :=
     [row_of_meta demo_db (demo_meta Sm2),
      row_of_meta demo_db ((demo_meta Sm4)\<lparr>m_id := 8, m_created_at := 6, m_status := Obsolete\<rparr>),
      row_of_meta demo_db ((demo_meta Sm4)\<lparr>m_id := 9, m_tenant_id := ''b''\<rparr>)]\<rparr>"

theorem repo_list_page_witness:
  "let metas = [(demo_meta Sm4)\<lparr>m_id := 8, m_created_at := 6, m_status := Obsolete\<rparr>, demo_meta Sm2]
   in repo_list demo_db None ''a'' (Some ''Active'') None None demo_tables = Inr metas
      \<and> sorted (map (\<lambda>meta. - m_created_at meta) metas)
      \<and> repo_list demo_db None ''a'' None None None demo_tables = Inr metas"
proof -
  let ?metas = "[(demo_meta Sm4)\<lparr>m_id := 8, m_created_at := 6, m_status := Obsolete\<rparr>, demo_meta Sm2]"
  have *: "repo_list demo_db None ''a'' (Some ''Active'') None None demo_tables = Inr ?metas"
    by (simp add: repo_list_def select_page_def demo_tables_def empty_tables_def demo_db_def row_of_meta_def
        demo_meta_def key_meta_from_def spec_from_str_def status_from_str_def)
  show ?thesis
    using repo_list_page [OF *, of None] * by (simp add: Let_def demo_db_def)
qed

end
