(* ===== verification/Postgres_Keystore.thy ===== *)
theory Postgres_Keystore
  imports Software_Keystore Bounded_Cache Key_Repository
begin

text \<open>
  The keystore over PostgreSQL, \<^verbatim>\<open>crates/kms-keystore/src/postgres.rs\<close>: key material is sealed under a
  key encryption key and stored with the metadata, and kept decrypted in the bounded cache. The
  repository is \<open>Key_Repository\<close>, the cache \<open>Bounded_Cache\<close>, and the cryptographic functions are those of the
  record \<open>crypto\<close>. An operation takes the faults of its statements, numbered in the order the source
  issues them, and the random sources of its draws; a source that is \<open>None\<close> fails. The key encryption
  key is given (\<open>load_or_generate_kek\<close> reads the environment and may end the process).
\<close>

section \<open>State\<close>

record pg_entry =
  pe_meta :: key_meta
  pe_material :: bytes

record 'j pg_keystore =
  pg_keys :: "pg_entry bounded_cache"
  pg_repo :: "'j tables"
  pg_kek :: bytes
  pg_in_memory_cap :: "nat option"
  pg_keys_ready :: bool

type_synonym faults = "nat \<Rightarrow> fault"
type_synonym sys_rng = "rng option"

definition pg_new :: "bytes \<Rightarrow> 'j tables \<Rightarrow> 'j pg_keystore" where
  "pg_new kek repo = \<lparr>pg_keys = bc_new None, pg_repo = repo, pg_kek = kek, pg_in_memory_cap = None, pg_keys_ready = False\<rparr>"

definition with_in_memory_cap :: "nat \<Rightarrow> 'j pg_keystore \<Rightarrow> 'j pg_keystore" where
  "with_in_memory_cap n s = s\<lparr>pg_in_memory_cap := Some n, pg_keys := bc_new (Some n)\<rparr>"

definition sys_fill :: "sys_rng \<Rightarrow> nat \<Rightarrow> kms_error \<Rightarrow> kms_error + bytes" where
  "sys_fill r n e = (case r of None \<Rightarrow> Inl e | Some g \<Rightarrow> Inr (fill_bytes g n))"

definition nonce_error :: kms_error where
  "nonce_error = EncryptionFailed (Lit ''failed to generate nonce'')"

section \<open>Sealed material\<close>

definition encrypt_material :: "'kp crypto \<Rightarrow> sys_rng \<Rightarrow> bytes \<Rightarrow> uuid \<Rightarrow> bytes \<Rightarrow> kms_error + bytes" where
  "encrypt_material cr r kek key_id material =
     and_then (map_err (\<lambda>e. EncryptionFailed (Str e)) (aes_unbound_key cr kek)) (\<lambda>_.
     and_then (sys_fill r 12 nonce_error) (\<lambda>nonce.
     and_then (map_err (\<lambda>e. EncryptionFailed (Str e)) (aes_seal cr kek nonce (kek_wrap_aad key_id) material))
       (\<lambda>(in_out, tag). Inr (nonce @ in_out @ tag))))"

definition decrypt_material_static :: "'kp crypto \<Rightarrow> bytes \<Rightarrow> uuid \<Rightarrow> bytes \<Rightarrow> kms_error + bytes" where
  "decrypt_material_static cr kek key_id encrypted =
     (if length encrypted < 12 + 16 then Inl (DecryptionFailed (Lit ''Encrypted material too short''))
      else let nonce = take 12 encrypted;
               ciphertext_len = length encrypted - 12 - 16
           in and_then (map_err (\<lambda>e. DecryptionFailed (Str e)) (aes_unbound_key cr kek)) (\<lambda>_.
              let in_out = take ciphertext_len (drop 12 encrypted);
                  tag = drop (12 + ciphertext_len) encrypted
              in map_err (\<lambda>_. InvalidCiphertext) (aes_open cr kek nonce (kek_wrap_aad key_id) (in_out @ tag))))"

definition decrypt_material :: "'kp crypto \<Rightarrow> 'j pg_keystore \<Rightarrow> uuid \<Rightarrow> bytes \<Rightarrow> kms_error + bytes" where
  "decrypt_material cr s key_id encrypted = decrypt_material_static cr (pg_kek s) key_id encrypted"

definition generate_key_material :: "sys_rng \<Rightarrow> key_spec \<Rightarrow> kms_error + bytes" where
  "generate_key_material r spec =
     and_then
       (if spec \<in> {Aes256Gcm, HmacSha256, Sm3Hmac} then Inr 32
        else if spec \<in> {EcdsaP256, EcdsaP384, Ed25519, Ed448} then Inr 32
        else if spec = Sm4 then Inr 16
        else if spec = Sm2 then Inr 32
        else if spec \<in> {Sm9Signing, Sm9Encryption} then Inl (NotImplemented (Lit ''SM9 not yet implemented''))
        else Inl (NotImplemented (Lit ''RSA not yet implemented'')))
       (\<lambda>len. sys_fill r len (Internal (Lit ''failed to generate random key material'')))"

section \<open>Loading keys\<close>

definition load_entry_from_db :: "'kp crypto \<Rightarrow> 'j db_env \<Rightarrow> faults \<Rightarrow> uuid \<Rightarrow> 'j pg_keystore \<Rightarrow> kms_error + pg_entry" where
  "load_entry_from_db cr db fl key_id s =
     and_then (find_by_id db (fl 0) key_id (pg_repo s)) (\<lambda>found.
     and_then (ok_or (KeyNotFound (Id key_id)) found) (\<lambda>meta.
     and_then (find_encrypted_material (fl 1) key_id (pg_repo s)) (\<lambda>stored.
     and_then (ok_or (Internal (Fmt [Lit ''key '', Id key_id, Lit ('' found in DB but has no encrypted material '' @
         ''(may predate persistence; skip via load_keys restart)'')])) stored) (\<lambda>encrypted.
     and_then (map_kms_err (\<lambda>e. Internal (Fmt [Lit ''lazy-load KEK decrypt failed for '', Id key_id, Lit '': '',
         err_display e, Lit ''. This likely indicates the KEK has changed since startup.'']))
         (decrypt_material cr s key_id encrypted)) (\<lambda>material.
     Inr \<lparr>pe_meta = meta, pe_material = material\<rparr>)))))"

text \<open>A lookup that misses the cache uses the first two statements of the faults.\<close>

definition entry_for ::
  "'kp crypto \<Rightarrow> 'j db_env \<Rightarrow> faults \<Rightarrow> uuid \<Rightarrow> string \<Rightarrow> 'j pg_keystore \<Rightarrow> (kms_error + pg_entry) \<times> 'j pg_keystore" where
  "entry_for cr db fl key_id tenant_id s =
     (case get_cloned (pg_keys s) key_id of
        Some entry \<Rightarrow>
          if m_tenant_id (pe_meta entry) \<noteq> tenant_id then (Inl (KeyNotFound (Id key_id)), s) else (Inr entry, s)
      | None \<Rightarrow>
          (case load_entry_from_db cr db fl key_id s of
             Inl (KeyNotFound _) \<Rightarrow> (Inl (KeyNotFound (Id key_id)), s)
           | Inl e \<Rightarrow> (Inl e, s)
           | Inr entry \<Rightarrow>
               if m_tenant_id (pe_meta entry) \<noteq> tenant_id then (Inl (KeyNotFound (Id key_id)), s)
               else (Inr entry, s\<lparr>pg_keys := insert_with_eviction key_id entry (pg_keys s)\<rparr>)))"

definition load_one_into_cache ::
  "'kp crypto \<Rightarrow> fault \<Rightarrow> key_meta \<Rightarrow> 'j pg_keystore \<Rightarrow> (kms_error + bool) \<times> 'j pg_keystore" where
  "load_one_into_cache cr fault meta s =
     (case find_encrypted_material fault (m_id meta) (pg_repo s) of
        Inl e \<Rightarrow> (Inl e, s)
      | Inr None \<Rightarrow> (Inr False, s)
      | Inr (Some encrypted) \<Rightarrow>
          (case map_kms_err (\<lambda>e. Internal (Fmt [Lit ''Failed to decrypt key '', Id (m_id meta), Lit '' from database: '',
                  err_display e, Lit ''. This may indicate the KEK has changed.'']))
                (decrypt_material cr s (m_id meta) encrypted) of
             Inl e \<Rightarrow> (Inl e, s)
           | Inr material \<Rightarrow>
               (Inr True, s\<lparr>pg_keys := insert_with_eviction (m_id meta)
                  \<lparr>pe_meta = meta, pe_material = material\<rparr> (pg_keys s)\<rparr>)))"

fun load_keys_loop :: "'kp crypto \<Rightarrow> faults \<Rightarrow> nat \<Rightarrow> key_meta list \<Rightarrow> 'j pg_keystore \<Rightarrow> 'j pg_keystore" where
  "load_keys_loop cr fl i [] s = s"
| "load_keys_loop cr fl i (meta # metas) s =
     load_keys_loop cr fl (Suc i) metas (snd (load_one_into_cache cr (fl i) meta s))"

definition load_keys :: "'kp crypto \<Rightarrow> 'j db_env \<Rightarrow> faults \<Rightarrow> 'j pg_keystore \<Rightarrow> (kms_error + unit) \<times> 'j pg_keystore" where
  "load_keys cr db fl s =
     (case list_all_tenants db (fl 0) None None (pg_repo s) of
        Inl e \<Rightarrow> (Inl e, s)
      | Inr metas \<Rightarrow> (Inr (), (load_keys_loop cr fl 1 metas s)\<lparr>pg_keys_ready := True\<rparr>))"

text \<open>The background task: its own loop over a copy of the handles, with a count of the keys inserted.\<close>

fun spawn_load_keys_loop ::
  "'kp crypto \<Rightarrow> faults \<Rightarrow> nat \<Rightarrow> bytes \<Rightarrow> 'j tables \<Rightarrow> key_meta list \<Rightarrow> pg_entry bounded_cache \<Rightarrow> nat
    \<Rightarrow> pg_entry bounded_cache \<times> nat" where
  "spawn_load_keys_loop cr fl i kek repo [] cache n = (cache, n)"
| "spawn_load_keys_loop cr fl i kek repo (meta # metas) cache n =
     (case find_encrypted_material (fl i) (m_id meta) repo of
        Inr (Some encrypted) \<Rightarrow>
          (case decrypt_material_static cr kek (m_id meta) encrypted of
             Inr material \<Rightarrow>
               spawn_load_keys_loop cr fl (Suc i) kek repo metas
                 (insert_with_eviction (m_id meta) \<lparr>pe_meta = meta, pe_material = material\<rparr> cache) (n + 1)
           | Inl _ \<Rightarrow> spawn_load_keys_loop cr fl (Suc i) kek repo metas cache n)
      | Inr None \<Rightarrow> spawn_load_keys_loop cr fl (Suc i) kek repo metas cache n
      | Inl _ \<Rightarrow> spawn_load_keys_loop cr fl (Suc i) kek repo metas cache n)"

definition spawn_load_keys :: "'kp crypto \<Rightarrow> 'j db_env \<Rightarrow> faults \<Rightarrow> 'j pg_keystore \<Rightarrow> (kms_error + nat) \<times> 'j pg_keystore" where
  "spawn_load_keys cr db fl s =
     (case list_all_tenants db (fl 0) None None (pg_repo s) of
        Inl e \<Rightarrow> (Inl e, s)
      | Inr metas \<Rightarrow>
          let (cache, n) = spawn_load_keys_loop cr fl 1 (pg_kek s) (pg_repo s) metas (pg_keys s) 0
          in (Inr n, s\<lparr>pg_keys := cache, pg_keys_ready := True\<rparr>))"

definition to_internal :: "kms_error + 'a \<Rightarrow> kms_error + 'a" where
  "to_internal r = map_err (\<lambda>e. Internal (err_display e)) r"

definition get_key_versions :: "fault \<Rightarrow> uuid \<Rightarrow> 'j pg_keystore \<Rightarrow> kms_error + key_version_row list" where
  "get_key_versions fault key_id s = to_internal (list_versions fault key_id (pg_repo s))"

definition get_key_version :: "fault \<Rightarrow> uuid \<Rightarrow> u32 \<Rightarrow> 'j pg_keystore \<Rightarrow> kms_error + key_version_row option" where
  "get_key_version fault key_id version s = to_internal (get_version fault key_id version (pg_repo s))"

definition material_for_version :: "'kp crypto \<Rightarrow> fault \<Rightarrow> uuid \<Rightarrow> u32 \<Rightarrow> 'j pg_keystore \<Rightarrow> kms_error + bytes" where
  "material_for_version cr fault key_id version s =
     and_then (get_key_version fault key_id version s) (\<lambda>found.
     and_then (ok_or (KeyVersionNotFound (Fmt [Id key_id, Lit '' (version '', Num (unat version), Lit '')''])) found) (\<lambda>row.
     and_then (ok_or (KeyVersionNotFound (Fmt [Id key_id, Lit '' (version '', Num (unat version),
         Lit '' has no stored material)''])) (vr_encrypted_dek row)) (\<lambda>encrypted.
     decrypt_material cr s key_id encrypted)))"

section \<open>Cryptographic operations on material\<close>

definition pg_encrypt_aead ::
  "(bytes \<Rightarrow> bytes \<Rightarrow> bytes \<Rightarrow> string + bytes \<times> bytes) \<Rightarrow> sys_rng \<Rightarrow> uuid \<Rightarrow> bytes \<Rightarrow> u32 \<Rightarrow> bytes
    \<Rightarrow> kms_error + ciphertext" where
  "pg_encrypt_aead seal r key_id aad version plaintext =
     and_then (sys_fill r 12 nonce_error) (\<lambda>nonce.
     and_then (map_err (\<lambda>e. EncryptionFailed (Str e)) (seal nonce aad plaintext)) (\<lambda>(c, tag).
     Inr \<lparr>ct_key_id = key_id, ct_version = version, ct_format_version = 2, ct_nonce = nonce,
          ct_ciphertext = c, ct_tag = tag\<rparr>))"

definition crypto_encrypt ::
  "'kp crypto \<Rightarrow> sys_rng \<Rightarrow> rng \<Rightarrow> bytes \<Rightarrow> key_spec \<Rightarrow> uuid \<Rightarrow> string \<Rightarrow> u32 \<Rightarrow> bytes \<Rightarrow> bytes option
    \<Rightarrow> kms_error + ciphertext" where
  "crypto_encrypt cr r sm2_rng material spec key_id tenant_id version plaintext aad =
     (if spec \<in> {Aes256Gcm, HmacSha256} then
        and_then (map_err (\<lambda>e. EncryptionFailed (Str e)) (aes_unbound_key cr material)) (\<lambda>_.
        pg_encrypt_aead (aes_seal cr material) r key_id (user_data_aad (sha256 cr) key_id tenant_id version)
          version plaintext)
      else if spec = Sm4 then
        and_then (map_err (\<lambda>e. EncryptionFailed (Str e)) (sm4_cipher_new cr material)) (\<lambda>_.
        pg_encrypt_aead (\<lambda>nonce aad p. sm4_encrypt_gcm cr material p nonce aad) r key_id
          (user_data_aad (sha256 cr) key_id tenant_id version) version plaintext)
      else if spec = Sm2 then
        and_then (map_err (\<lambda>e. EncryptionFailed (Str e)) (sm2_from_private_key cr material)) (\<lambda>key_pair.
        let pk = sm2_public_key_bytes_uncompressed cr key_pair
        in and_then (map_err (\<lambda>e. EncryptionFailed (Str e)) (sm2_encryptor_new cr pk)) (\<lambda>_.
           and_then (map_err (\<lambda>e. EncryptionFailed (Str e)) (sm2_encrypt cr pk sm2_rng plaintext)) (\<lambda>encrypted.
           if length encrypted < 97 then Inl (Panicked ''slice index out of range'')
           else Inr \<lparr>ct_key_id = key_id, ct_version = version, ct_format_version = 1,
                     ct_nonce = take 65 encrypted, ct_ciphertext = drop 97 encrypted,
                     ct_tag = take 32 (drop 65 encrypted)\<rparr>)))
      else Inl (InvalidAlgorithm (Fmt [Lit ''Encryption not supported for '', Dbg (spec_debug spec)])))"

definition pg_stored_aad :: "'kp crypto \<Rightarrow> string \<Rightarrow> ciphertext \<Rightarrow> kms_error + bytes" where
  "pg_stored_aad cr tenant_id c =
     (if ct_format_version c \<in> {0, 1} then Inr []
      else if ct_format_version c = 2 then Inr (user_data_aad (sha256 cr) (ct_key_id c) tenant_id (ct_version c))
      else Inl InvalidCiphertext)"

definition crypto_decrypt ::
  "'kp crypto \<Rightarrow> bytes \<Rightarrow> key_spec \<Rightarrow> ciphertext \<Rightarrow> string \<Rightarrow> bytes option \<Rightarrow> kms_error + bytes" where
  "crypto_decrypt cr material spec c tenant_id aad =
     (if spec \<in> {Aes256Gcm, HmacSha256} then
        and_then (map_err (\<lambda>e. DecryptionFailed (Str e)) (aes_unbound_key cr material)) (\<lambda>_.
        if length (ct_nonce c) \<noteq> 12 then Inl InvalidCiphertext
        else and_then (pg_stored_aad cr tenant_id c) (\<lambda>aad.
          map_err (\<lambda>_. InvalidCiphertext) (aes_open cr material (ct_nonce c) aad (ct_ciphertext c @ ct_tag c))))
      else if spec = Sm4 then
        and_then (map_err (\<lambda>e. DecryptionFailed (Str e)) (sm4_cipher_new cr material)) (\<lambda>_.
        and_then (pg_stored_aad cr tenant_id c) (\<lambda>aad.
          map_err (\<lambda>_. InvalidCiphertext)
            (sm4_decrypt_gcm cr material (ct_ciphertext c) (ct_nonce c) aad (ct_tag c))))
      else if spec = Sm2 then decrypt_sm2 cr material c
      else Inl (InvalidAlgorithm (Fmt [Lit ''Decryption not supported for '', Dbg (spec_debug spec)])))"

definition crypto_sign ::
  "'kp crypto \<Rightarrow> rng \<Rightarrow> bytes \<Rightarrow> key_spec \<Rightarrow> uuid \<Rightarrow> u32 \<Rightarrow> bytes \<Rightarrow> kms_error + signature" where
  "crypto_sign cr rng material spec key_id version data =
     (let signature_of = (\<lambda>b. \<lparr>sig_key_id = key_id, sig_version = version, sig_signature = b\<rparr>)
      in if spec = Ed25519 then
           and_then (map_err (\<lambda>e. SignatureFailed (Str e)) (ed25519_from_seed cr material)) (\<lambda>_.
           Inr (signature_of (ed25519_sign cr material data)))
         else if spec = Sm2 then
           and_then (map_err (\<lambda>e. SignatureFailed (Str e)) (sm2_from_private_key cr material)) (\<lambda>key_pair.
           and_then (map_err (\<lambda>e. SignatureFailed (Str e)) (sm2_signer_new cr key_pair)) (\<lambda>_.
           and_then (map_err (\<lambda>e. SignatureFailed (Str e)) (sm2_sign cr key_pair rng data)) (\<lambda>b.
           Inr (signature_of b))))
         else Inl (InvalidAlgorithm (Fmt [Lit ''Signing not supported for '', Dbg (spec_debug spec)])))"

definition crypto_verify ::
  "'kp crypto \<Rightarrow> bytes \<Rightarrow> key_spec \<Rightarrow> uuid \<Rightarrow> bytes \<Rightarrow> signature \<Rightarrow> kms_error + bool" where
  "crypto_verify cr material spec key_id data sg =
     (if spec = Ed25519 then
        and_then (map_err (\<lambda>e. VerificationFailed (Str e)) (ed25519_from_seed cr material)) (\<lambda>_.
        Inr (ed25519_verify cr (ed25519_public_key cr material) data (sig_signature sg)))
      else if spec = Sm2 then
        and_then (map_err (\<lambda>e. VerificationFailed (Str e)) (sm2_from_private_key cr material)) (\<lambda>key_pair.
        let pk = sm2_public_key_bytes cr key_pair; di = sm2_distid cr key_pair
        in and_then (map_err (\<lambda>e. VerificationFailed (Str e)) (sm2_verifier_new cr pk di)) (\<lambda>_.
           Inr (sm2_verify cr pk di data (sig_signature sg))))
      else Inl (InvalidAlgorithm (Fmt [Lit ''Verification not supported for '', Dbg (spec_debug spec)])))"

section \<open>The operations of the backend\<close>

text \<open>A statement on the repository of a keystore; its error is wrapped once more.\<close>

definition on_repo ::
  "('j tables \<Rightarrow> (kms_error + 'a) \<times> 'j tables) \<Rightarrow> 'j pg_keystore \<Rightarrow> (kms_error + 'a) \<times> 'j pg_keystore" where
  "on_repo stmt s = (let (r, tb) = stmt (pg_repo s) in (to_internal r, s\<lparr>pg_repo := tb\<rparr>))"

definition cache_insert :: "uuid \<Rightarrow> pg_entry \<Rightarrow> 'j pg_keystore \<Rightarrow> 'j pg_keystore" where
  "cache_insert k e s = s\<lparr>pg_keys := insert_with_eviction k e (pg_keys s)\<rparr>"

definition cache_status :: "uuid \<Rightarrow> key_status \<Rightarrow> 'j pg_keystore \<Rightarrow> 'j pg_keystore" where
  "cache_status k st s =
     s\<lparr>pg_keys := set_entry k (\<lambda>e. e\<lparr>pe_meta := (pe_meta e)\<lparr>m_status := st\<rparr>\<rparr>) (pg_keys s)\<rparr>"

definition pg_generate_key ::
  "'kp crypto \<Rightarrow> 'j db_env \<Rightarrow> faults \<Rightarrow> sys_rng \<Rightarrow> sys_rng \<Rightarrow> uuid \<Rightarrow> time \<Rightarrow> key_spec \<Rightarrow> string \<Rightarrow> string
    \<Rightarrow> 'j pg_keystore \<Rightarrow> (kms_error + key_meta) \<times> 'j pg_keystore" where
  "pg_generate_key cr db fl r r' new_id now spec name tenant_id s =
     then_st (generate_key_material r spec, s) (\<lambda>material s.
     then_st (encrypt_material cr r' (pg_kek s) new_id material, s) (\<lambda>encrypted s.
     let meta = new_meta new_id now spec name tenant_id None;
         s = cache_insert new_id \<lparr>pe_meta = meta, pe_material = material\<rparr> s
     in then_st (on_repo (repo_insert db (fl 0) meta) s) (\<lambda>_ s.
        then_st (on_repo (update_encrypted_material (fl 1) new_id encrypted) s) (\<lambda>_ s.
        (Inr meta, s)))))"

definition pg_import_key_material ::
  "'kp crypto \<Rightarrow> 'j db_env \<Rightarrow> faults \<Rightarrow> sys_rng \<Rightarrow> uuid \<Rightarrow> time \<Rightarrow> key_spec \<Rightarrow> string \<Rightarrow> string \<Rightarrow> bytes
    \<Rightarrow> 'j pg_keystore \<Rightarrow> (kms_error + key_meta) \<times> 'j pg_keystore" where
  "pg_import_key_material cr db fl r new_id now spec name tenant_id material s =
     then_st (import_check spec material, s) (\<lambda>_ s.
     let meta = new_meta new_id now spec name tenant_id (Some ''imported'')
     in then_st (encrypt_material cr r (pg_kek s) new_id material, s) (\<lambda>encrypted s.
        let s = cache_insert new_id \<lparr>pe_meta = meta, pe_material = material\<rparr> s
        in then_st (on_repo (repo_insert db (fl 0) meta) s) (\<lambda>_ s.
           then_st (on_repo (update_encrypted_material (fl 1) new_id encrypted) s) (\<lambda>_ s.
           (Inr meta, s)))))"

definition pg_get_key_metadata :: "'j db_env \<Rightarrow> faults \<Rightarrow> uuid \<Rightarrow> 'j pg_keystore \<Rightarrow> kms_error + key_meta" where
  "pg_get_key_metadata db fl key_id s =
     (case get_cloned (pg_keys s) key_id of
        Some entry \<Rightarrow> Inr (pe_meta entry)
      | None \<Rightarrow> and_then (find_by_id db (fl 0) key_id (pg_repo s)) (ok_or (KeyNotFound (Id key_id))))"

definition pg_encrypt ::
  "'kp crypto \<Rightarrow> 'j db_env \<Rightarrow> faults \<Rightarrow> sys_rng \<Rightarrow> rng \<Rightarrow> uuid \<Rightarrow> bytes \<Rightarrow> bytes option \<Rightarrow> string
    \<Rightarrow> 'j pg_keystore \<Rightarrow> (kms_error + ciphertext) \<times> 'j pg_keystore" where
  "pg_encrypt cr db fl r sm2_rng key_id plaintext aad tenant_id s =
     then_st (entry_for cr db fl key_id tenant_id s) (\<lambda>entry s.
       if m_status (pe_meta entry) \<noteq> Active then (Inl (not_allowed key_id '' is not active''), s)
       else (crypto_encrypt cr r sm2_rng (pe_material entry) (m_spec (pe_meta entry)) key_id tenant_id
               (m_version (pe_meta entry)) plaintext aad, s))"

definition pg_decrypt ::
  "'kp crypto \<Rightarrow> 'j db_env \<Rightarrow> faults \<Rightarrow> uuid \<Rightarrow> ciphertext \<Rightarrow> bytes option \<Rightarrow> string
    \<Rightarrow> 'j pg_keystore \<Rightarrow> (kms_error + bytes) \<times> 'j pg_keystore" where
  "pg_decrypt cr db fl key_id c aad tenant_id s =
     then_st (entry_for cr db fl key_id tenant_id s) (\<lambda>entry s.
       if \<not> can_decrypt (m_status (pe_meta entry)) then (Inl (not_allowed key_id '' cannot decrypt''), s)
       else then_st (if ct_version c = m_version (pe_meta entry) then Inr (pe_material entry)
                     else material_for_version cr (fl 2) key_id (ct_version c) s, s) (\<lambda>key_material s.
            (crypto_decrypt cr key_material (m_spec (pe_meta entry)) c (m_tenant_id (pe_meta entry)) aad, s)))"

definition pg_get_key_material_version ::
  "'kp crypto \<Rightarrow> 'j db_env \<Rightarrow> faults \<Rightarrow> uuid \<Rightarrow> u32 \<Rightarrow> string \<Rightarrow> 'j pg_keystore
    \<Rightarrow> (kms_error + bytes) \<times> 'j pg_keystore" where
  "pg_get_key_material_version cr db fl key_id version tenant_id s =
     then_st (entry_for cr db fl key_id tenant_id s) (\<lambda>entry s.
       if version = 0 \<or> version = m_version (pe_meta entry) then (Inr (pe_material entry), s)
       else (material_for_version cr (fl 2) key_id version s, s))"

definition pg_sign ::
  "'kp crypto \<Rightarrow> 'j db_env \<Rightarrow> faults \<Rightarrow> rng \<Rightarrow> uuid \<Rightarrow> bytes \<Rightarrow> string \<Rightarrow> 'j pg_keystore
    \<Rightarrow> (kms_error + signature) \<times> 'j pg_keystore" where
  "pg_sign cr db fl rng key_id data tenant_id s =
     then_st (entry_for cr db fl key_id tenant_id s) (\<lambda>entry s.
       if m_status (pe_meta entry) \<noteq> Active then (Inl (not_allowed key_id '' is not active''), s)
       else (crypto_sign cr rng (pe_material entry) (m_spec (pe_meta entry)) key_id
               (m_version (pe_meta entry)) data, s))"

definition pg_verify ::
  "'kp crypto \<Rightarrow> 'j db_env \<Rightarrow> faults \<Rightarrow> uuid \<Rightarrow> bytes \<Rightarrow> signature \<Rightarrow> string \<Rightarrow> 'j pg_keystore
    \<Rightarrow> (kms_error + bool) \<times> 'j pg_keystore" where
  "pg_verify cr db fl key_id data sg tenant_id s =
     then_st (entry_for cr db fl key_id tenant_id s) (\<lambda>entry s.
       (crypto_verify cr (pe_material entry) (m_spec (pe_meta entry)) key_id data sg, s))"

definition pg_rotated_meta :: "uuid \<Rightarrow> time \<Rightarrow> key_meta \<Rightarrow> key_meta" where
  "pg_rotated_meta new_id now old =
     \<lparr>m_id = new_id, m_tenant_id = m_tenant_id old, m_name = m_name old, m_spec = m_spec old, m_status = Active,
      m_created_at = now, m_rotated_at = Some (m_created_at old), m_version = m_version old + 1,
      m_description = m_description old, m_metadata = m_metadata old\<rparr>"

text \<open>The random sources are drawn for the new material, its nonce and the nonce of the archived material.\<close>

definition pg_rotate_key ::
  "'kp crypto \<Rightarrow> 'j db_env \<Rightarrow> faults \<Rightarrow> (nat \<Rightarrow> sys_rng) \<Rightarrow> uuid \<Rightarrow> uuid \<Rightarrow> time \<Rightarrow> uuid \<Rightarrow> string
    \<Rightarrow> 'j pg_keystore \<Rightarrow> (kms_error + key_meta) \<times> 'j pg_keystore" where
  "pg_rotate_key cr db fl rs new_id version_id now key_id tenant_id s =
     then_st (entry_for cr db fl key_id tenant_id s) (\<lambda>entry s.
       if \<not> can_rotate (m_status (pe_meta entry)) then (Inl (not_allowed key_id '' cannot be rotated''), s)
       else then_st (generate_key_material (rs 0) (m_spec (pe_meta entry)), s) (\<lambda>new_material s.
         let old_meta = pe_meta entry; meta = pg_rotated_meta new_id now old_meta
         in then_st (encrypt_material cr (rs 1) (pg_kek s) (m_id meta) new_material, s) (\<lambda>encrypted_new s.
            then_st (on_repo (repo_insert db (fl 2) meta) s) (\<lambda>_ s.
            then_st (on_repo (update_encrypted_material (fl 3) (m_id meta) encrypted_new) s) (\<lambda>_ s.
            then_st (on_repo (update_status (fl 4) (m_id old_meta) Obsolete) s) (\<lambda>_ s.
            then_st (encrypt_material cr (rs 2) (pg_kek s) (m_id old_meta) (pe_material entry), s) (\<lambda>encrypted_dek s.
            then_st (on_repo (insert_version db (fl 5) version_id now (m_id old_meta) (m_version old_meta)
                       (Some encrypted_dek) ''Rotated'') s) (\<lambda>_ s.
            then_st (on_repo (update_version_rotated_at db (fl 6) now (m_id old_meta) (m_version old_meta)) s) (\<lambda>_ s.
            (Inr meta, cache_insert (m_id meta) \<lparr>pe_meta = meta, pe_material = new_material\<rparr>
                         (cache_status key_id Obsolete s)))))))))))"

definition pg_delete_key ::
  "'kp crypto \<Rightarrow> 'j db_env \<Rightarrow> faults \<Rightarrow> time \<Rightarrow> uuid \<Rightarrow> string \<Rightarrow> 'j pg_keystore
    \<Rightarrow> (kms_error + unit) \<times> 'j pg_keystore" where
  "pg_delete_key cr db fl now key_id tenant_id s =
     then_st (entry_for cr db fl key_id tenant_id s) (\<lambda>_ s.
     then_st (on_repo (soft_delete (fl 2) now key_id ''kms-system'') s) (\<lambda>_ s.
     (Inr (), cache_status key_id PendingDeletion s)))"

definition pg_destroy_key :: "uuid \<Rightarrow> 'j pg_keystore \<Rightarrow> (kms_error + unit) \<times> 'j pg_keystore" where
  "pg_destroy_key key_id s =
     (case remove key_id (pg_keys s) of
        (None, c) \<Rightarrow> (Inl (KeyNotFound (Id key_id)), s\<lparr>pg_keys := c\<rparr>)
      | (Some _, c) \<Rightarrow> (Inr (), s\<lparr>pg_keys := c\<rparr>))"

definition pg_destroy_key_with_proof ::
  "'kp crypto \<Rightarrow> time \<Rightarrow> uuid \<Rightarrow> 'j pg_keystore \<Rightarrow> (kms_error + destruction_proof) \<times> 'j pg_keystore" where
  "pg_destroy_key_with_proof cr now key_id s =
     (case remove key_id (pg_keys s) of
        (None, c) \<Rightarrow> (Inl (KeyNotFound (Id key_id)), s\<lparr>pg_keys := c\<rparr>)
      | (Some entry, c) \<Rightarrow>
          (Inr (destruction_proof_new key_id (hex_encode cr (sha256 cr (pe_material entry)))
                  (length (pe_material entry)) True None now), s\<lparr>pg_keys := c\<rparr>))"

text \<open>\<open>as i64\<close> of a \<open>usize\<close>.\<close>

definition as_i64 :: "nat \<Rightarrow> int" where
  "as_i64 n = sint (word_of_nat n :: u64)"

definition pg_list_keys :: "'j db_env \<Rightarrow> faults \<Rightarrow> key_filter \<Rightarrow> 'j pg_keystore \<Rightarrow> kms_error + key_meta list" where
  "pg_list_keys db fl f s =
     and_then (ok_or (Internal (Lit (''list_keys called without tenant_id '' @ dash @ '' tenant isolation violated'')))
                 (kf_tenant_id f)) (\<lambda>tenant_id.
     to_internal (repo_list db (fl 0) tenant_id (map_option status_debug (kf_status f))
       (map_option as_i64 (kf_limit f)) (map_option as_i64 (kf_offset f)) (pg_repo s)))"

definition pg_health :: "'j db_env \<Rightarrow> faults \<Rightarrow> 'j pg_keystore \<Rightarrow> kms_error + health_status" where
  "pg_health db fl s =
     (case list_all_tenants db (fl 0) (Some 1) None (pg_repo s) of
        Inr _ \<Rightarrow> if pg_keys_ready s then Inr Healthy else Inr Unknown
      | Inl _ \<Rightarrow> Inr Degraded)"

definition pg_export_key_material ::
  "'kp crypto \<Rightarrow> 'j db_env \<Rightarrow> faults \<Rightarrow> uuid \<Rightarrow> string \<Rightarrow> 'j pg_keystore \<Rightarrow> (kms_error + bytes) \<times> 'j pg_keystore" where
  "pg_export_key_material cr db fl key_id tenant_id s =
     then_st (entry_for cr db fl key_id tenant_id s) (\<lambda>entry s.
       if m_status (pe_meta entry) \<noteq> Active then (Inl (not_allowed key_id '' is not active for export''), s)
       else (Inr (pe_material entry), s))"

definition pg_get_key_material ::
  "'kp crypto \<Rightarrow> 'j db_env \<Rightarrow> faults \<Rightarrow> uuid \<Rightarrow> string \<Rightarrow> 'j pg_keystore \<Rightarrow> (kms_error + bytes) \<times> 'j pg_keystore" where
  "pg_get_key_material cr db fl key_id tenant_id s =
     then_st (entry_for cr db fl key_id tenant_id s) (\<lambda>entry s. (Inr (pe_material entry), s))"

definition pg_derive_shared_secret ::
  "'kp crypto \<Rightarrow> 'j db_env \<Rightarrow> faults \<Rightarrow> rng \<Rightarrow> uuid \<Rightarrow> bytes \<Rightarrow> dh_algorithm \<Rightarrow> string \<Rightarrow> 'j pg_keystore
    \<Rightarrow> (kms_error + shared_secret) \<times> 'j pg_keystore" where
  "pg_derive_shared_secret cr db fl rng key_id peer_public_key algorithm tenant_id s =
     then_st (entry_for cr db fl key_id tenant_id s) (\<lambda>entry s.
       (and_then (case algorithm of
            DhEcdsaP256 \<Rightarrow> derive_ecdh_p256 cr rng (pe_material entry) peer_public_key
          | DhEcdsaP384 \<Rightarrow> derive_ecdh_p384 cr rng (pe_material entry) peer_public_key
          | X25519 \<Rightarrow> derive_x25519 cr (pe_material entry) peer_public_key
          | Sm2Kex \<Rightarrow> derive_sm2_kex (pe_material entry) peer_public_key) (\<lambda>secret.
        Inr \<lparr>sec_secret = secret, sec_kdf = Some ''HKDF-SHA256''\<rparr>), s))"

definition pg_backend_type :: "'j pg_keystore \<Rightarrow> backend_type" where
  "pg_backend_type s = Database"

section \<open>Runs\<close>

text \<open>
  The calls that change a keystore. Encryption, decryption, signing, verification, export, reading of
  material and key agreement change it only by the lookup they begin with (\<open>Use\<close>). A restart keeps the
  database and begins with an empty cache.
\<close>

datatype pg_call =
    PgGenerate faults sys_rng sys_rng uuid time key_spec string string
  | PgImport faults sys_rng uuid time key_spec string string bytes
  | PgUse faults uuid string
  | PgRotate faults "nat \<Rightarrow> sys_rng" uuid uuid time uuid string
  | PgDelete faults time uuid string
  | PgDestroy uuid
  | PgDestroyWithProof time uuid
  | PgLoadKeys faults
  | PgSpawnLoadKeys faults
  | PgRestart "nat option"

definition pg_restart :: "nat option \<Rightarrow> 'j pg_keystore \<Rightarrow> 'j pg_keystore" where
  "pg_restart cap s =
     (let s' = pg_new (pg_kek s) (pg_repo s) in case cap of None \<Rightarrow> s' | Some n \<Rightarrow> with_in_memory_cap n s')"

fun pg_step :: "'kp crypto \<Rightarrow> 'j db_env \<Rightarrow> pg_call \<Rightarrow> 'j pg_keystore \<Rightarrow> 'j pg_keystore" where
  "pg_step cr db (PgGenerate fl r r' i now spec name t) s = snd (pg_generate_key cr db fl r r' i now spec name t s)"
| "pg_step cr db (PgImport fl r i now spec name t mat) s = snd (pg_import_key_material cr db fl r i now spec name t mat s)"
| "pg_step cr db (PgUse fl k t) s = snd (entry_for cr db fl k t s)"
| "pg_step cr db (PgRotate fl rs i vi now k t) s = snd (pg_rotate_key cr db fl rs i vi now k t s)"
| "pg_step cr db (PgDelete fl now k t) s = snd (pg_delete_key cr db fl now k t s)"
| "pg_step cr db (PgDestroy k) s = snd (pg_destroy_key k s)"
| "pg_step cr db (PgDestroyWithProof now k) s = snd (pg_destroy_key_with_proof cr now k s)"
| "pg_step cr db (PgLoadKeys fl) s = snd (load_keys cr db fl s)"
| "pg_step cr db (PgSpawnLoadKeys fl) s = snd (spawn_load_keys cr db fl s)"
| "pg_step cr db (PgRestart cap) s = pg_restart cap s"

text \<open>
  The calls considered: new identifiers are new, the clock has the resolution of the database, new
  keys have a specification the database can return, and a rotation is not interrupted by a failing
  statement or random source (its statements are not one transaction).
\<close>

definition pg_fresh :: "'j pg_keystore \<Rightarrow> uuid \<Rightarrow> bool" where
  "pg_fresh s i \<longleftrightarrow> i \<notin> kr_id ` set (tb_keys (pg_repo s)) \<and> get_cloned (pg_keys s) i = None"

fun pg_admissible :: "'j db_env \<Rightarrow> pg_call \<Rightarrow> 'j pg_keystore \<Rightarrow> bool" where
  "pg_admissible db (PgGenerate fl r r' i now spec name t) s \<longleftrightarrow>
     pg_fresh s i \<and> storable db (new_meta i now spec name t None)"
| "pg_admissible db (PgImport fl r i now spec name t mat) s \<longleftrightarrow>
     pg_fresh s i \<and> storable db (new_meta i now spec name t (Some ''imported''))"
| "pg_admissible db (PgRotate fl rs i vi now k t) s \<longleftrightarrow>
     pg_fresh s i \<and> i \<noteq> k \<and> vi \<notin> vr_id ` set (tb_versions (pg_repo s)) \<and> db_time db now = now
     \<and> rs 2 \<noteq> None \<and> fl 5 = None \<and> fl 6 = None"
| "pg_admissible db c s \<longleftrightarrow> True"

inductive pg_reach :: "'kp crypto \<Rightarrow> 'j db_env \<Rightarrow> bytes \<Rightarrow> 'j pg_keystore \<Rightarrow> bool" for cr db kek where
  pg_start: "pg_reach cr db kek (pg_new kek empty_tables)"
| pg_next: "pg_reach cr db kek s \<Longrightarrow> pg_admissible db c s \<Longrightarrow> pg_reach cr db kek (pg_step cr db c s)"

end
