(* ===== verification/Postgres_Invariant.thy ===== *)
theory Postgres_Invariant
  imports Postgres_Keystore
begin

text \<open>
  The invariant of the PostgreSQL keystore: the tables satisfy the constraints the code relies on, and what
  is cached agrees with the row of the key as long as the row is live. Every statement and every
  operation keeps it, so it holds in every reachable state (\<open>pg_reach_inv\<close>).
\<close>

section \<open>Sealing and opening\<close>

text \<open>What is relied on of AES-GCM under the key encryption key: sealing succeeds and opening undoes it.\<close>

definition kek_ok :: "'kp crypto \<Rightarrow> bytes \<Rightarrow> bool" where
  "kek_ok cr kek \<longleftrightarrow> aes_unbound_key cr kek = Inr () \<and>
     (\<forall>n a p. length n = 12 \<longrightarrow> (\<exists>c t. aes_seal cr kek n a p = Inr (c, t) \<and> 16 \<le> length t
        \<and> aes_open cr kek n a (c @ t) = Inr p))"

lemma kek_sealE:
  assumes "kek_ok cr kek" "length n = 12"
  obtains c t where "aes_seal cr kek n a p = Inr (c, t)" "16 \<le> length t" "aes_open cr kek n a (c @ t) = Inr p"
  using assms unfolding kek_ok_def by blast

lemma encrypt_material_Inr:
  assumes "kek_ok cr kek"
  shows "encrypt_material cr (Some g) kek k m \<noteq> Inl e"
proof -
  obtain c t where "aes_seal cr kek (fill_bytes g 12) (kek_wrap_aad k) m = Inr (c, t)"
    using assms by (rule kek_sealE [of _ _ "fill_bytes g 12"]) simp
  with assms show ?thesis
    by (simp add: encrypt_material_def sys_fill_def kek_ok_def)
qed

lemma decrypt_encrypt_material:
  assumes "kek_ok cr kek" "encrypt_material cr r kek k m = Inr enc"
  shows "decrypt_material_static cr kek k enc = Inr m"
proof -
  obtain g c t where *: "aes_seal cr kek (fill_bytes g 12) (kek_wrap_aad k) m = Inr (c, t)" "enc = fill_bytes g 12 @ c @ t"
    using assms(2) by (auto simp: encrypt_material_def and_then_Inr sys_fill_def split: option.splits)
  moreover have "16 \<le> length t \<and> aes_open cr kek (fill_bytes g 12) (kek_wrap_aad k) (c @ t) = Inr m"
    using assms(1) *(1) by (elim kek_sealE [of _ _ "fill_bytes g 12" "kek_wrap_aad k" m]) simp_all
  moreover have "take (length enc - 28) (drop 12 enc) @ drop (12 + (length enc - 28)) enc = c @ t"
    using *(2) by (metis append_take_drop_id drop_drop add.commute append_eq_conv_conj length_fill_bytes)
  ultimately show ?thesis
    using assms(1) by (simp add: decrypt_material_static_def kek_ok_def Let_def)
qed

section \<open>Invariant\<close>

definition agrees :: "'kp crypto \<Rightarrow> 'j db_env \<Rightarrow> bytes \<Rightarrow> 'j tables \<Rightarrow> uuid \<Rightarrow> pg_entry \<Rightarrow> bool" where
  "agrees cr db kek tb k e \<longleftrightarrow> m_id (pe_meta e) = k \<and> storable db (pe_meta e) \<and>
     (\<forall>r. live_row tb k = Some r \<longrightarrow> pe_meta e = key_meta_from db r \<and>
        (\<forall>enc. kr_encrypted_material r = Some enc \<longrightarrow> decrypt_material_static cr kek k enc = Inr (pe_material e)))"

definition cache_ok :: "'kp crypto \<Rightarrow> 'j db_env \<Rightarrow> bytes \<Rightarrow> 'j tables \<Rightarrow> pg_entry bounded_cache \<Rightarrow> bool" where
  "cache_ok cr db kek tb c \<longleftrightarrow> bounded.all_cached (agrees cr db kek tb) c"

text \<open>
  In the tables, identifiers are unique, every row is one the reader returns unchanged, and an archived
  version belongs to a key that exists, has its version and is marked obsolete while it is live.
\<close>

definition repo_inv :: "'j db_env \<Rightarrow> 'j tables \<Rightarrow> bool" where
  "repo_inv db tb \<longleftrightarrow> distinct (map kr_id (tb_keys tb))
     \<and> (\<forall>r \<in> set (tb_keys tb). storable db (key_meta_from db r))
     \<and> vr_key_id ` set (tb_versions tb) \<subseteq> kr_id ` set (tb_keys tb)
     \<and> (\<forall>v \<in> set (tb_versions tb). \<forall>r. live_row tb (vr_key_id v) = Some r \<longrightarrow>
          vr_version v = kr_version r \<and> kr_status r = ''Obsolete'')"

definition pg_inv :: "'kp crypto \<Rightarrow> 'j db_env \<Rightarrow> 'j pg_keystore \<Rightarrow> bool" where
  "pg_inv cr db s \<longleftrightarrow> repo_inv db (pg_repo s) \<and> cache_ok cr db (pg_kek s) (pg_repo s) (pg_keys s)"

lemma cache_ok_get: "cache_ok cr db kek tb c \<Longrightarrow> get_cloned c k = Some e \<Longrightarrow> agrees cr db kek tb k e"
  by (simp add: cache_ok_def bounded.all_cached_def)

lemma cache_ok_insert: "cache_ok cr db kek tb c \<Longrightarrow> agrees cr db kek tb k e \<Longrightarrow> cache_ok cr db kek tb (insert_with_eviction k e c)"
  unfolding cache_ok_def by (rule bounded.all_cached_ins)

lemma cache_ok_remove: "cache_ok cr db kek tb c \<Longrightarrow> cache_ok cr db kek tb (snd (remove k c))"
  unfolding cache_ok_def by (rule bounded.all_cached_del)

lemma cache_ok_new [simp]: "cache_ok cr db kek tb (bc_new cap)"
  by (simp add: cache_ok_def bounded.all_cached_def bc_new_def get_cloned_def)

text \<open>A change of the tables that a cache survives.\<close>

lemma cache_ok_tables:
  assumes "cache_ok cr db kek tb c"
    and "\<And>k e. get_cloned c k = Some e \<Longrightarrow> agrees cr db kek tb k e \<Longrightarrow> agrees cr db kek tb' k e"
  shows "cache_ok cr db kek tb' c"
  using assms unfolding cache_ok_def by (rule bounded.all_cached_mono)

lemma agrees_live_cong: "live_row tb' k = live_row tb k \<Longrightarrow> agrees cr db kek tb' k e = agrees cr db kek tb k e"
  by (simp add: agrees_def)

section \<open>Statements keep the invariant\<close>

lemma decrypt_material_kek [simp]: "decrypt_material cr s k enc = decrypt_material_static cr (pg_kek s) k enc"
  by (simp add: decrypt_material_def)

lemma to_internal_simps [simp]: "to_internal (Inr x) = Inr x" "to_internal (Inl e) = Inl (Internal (err_display e))"
  by (simp_all add: to_internal_def)

lemma pg_inv_fields:
  "pg_inv cr db (s\<lparr>pg_keys := c\<rparr>) \<longleftrightarrow> repo_inv db (pg_repo s) \<and> cache_ok cr db (pg_kek s) (pg_repo s) c"
  "pg_inv cr db (s\<lparr>pg_repo := tb\<rparr>) \<longleftrightarrow> repo_inv db tb \<and> cache_ok cr db (pg_kek s) tb (pg_keys s)"
  "pg_inv cr db (s\<lparr>pg_keys_ready := b\<rparr>) \<longleftrightarrow> pg_inv cr db s"
  by (simp_all add: pg_inv_def)

lemma repo_inv_insert:
  assumes "repo_inv db tb" "m_id meta \<notin> kr_id ` set (tb_keys tb)" "storable db meta"
  shows "repo_inv db (tb\<lparr>tb_keys := tb_keys tb @ [row_of_meta db meta]\<rparr>)"
proof -
  have "vr_key_id v \<noteq> m_id meta" if "v \<in> set (tb_versions tb)" for v
    using assms(1,2) that unfolding repo_inv_def by (metis image_eqI subsetD)
  moreover have "kr_id (row_of_meta db meta) = m_id meta"
    by (simp add: row_of_meta_def)
  ultimately show ?thesis
    using assms by (auto simp: repo_inv_def live_row_insert key_meta_roundtrip)
qed

lemma cache_ok_repo_insert:
  assumes "cache_ok cr db kek tb c" "m_id meta \<notin> kr_id ` set (tb_keys tb)" "storable db meta"
    and "\<And>e. get_cloned c (m_id meta) = Some e \<Longrightarrow> pe_meta e = meta"
  shows "cache_ok cr db kek (tb\<lparr>tb_keys := tb_keys tb @ [row_of_meta db meta]\<rparr>) c"
proof (rule cache_ok_tables [OF assms(1)])
  fix k e assume "get_cloned c k = Some e" "agrees cr db kek tb k e"
  then show "agrees cr db kek (tb\<lparr>tb_keys := tb_keys tb @ [row_of_meta db meta]\<rparr>) k e"
    using assms(2-4) by (cases "k = m_id meta")
      (auto simp: agrees_def live_row_insert key_meta_roundtrip, auto simp: row_of_meta_def)
qed

lemma repo_inv_update:
  assumes "repo_inv db tb" "\<And>r. kr_id (f r) = kr_id r" "\<And>r. kr_deleted_at (f r) = kr_deleted_at r"
    "\<And>r. kr_version (f r) = kr_version r" "\<And>r. kr_status r = ''Obsolete'' \<Longrightarrow> kr_status (f r) = ''Obsolete''"
    "\<And>r. storable db (key_meta_from db r) \<Longrightarrow> storable db (key_meta_from db (f r))"
  shows "repo_inv db (tb\<lparr>tb_keys := update_where (live k) f (tb_keys tb)\<rparr>)"
proof -
  have ids: "map kr_id (update_where (live k) f (tb_keys tb)) = map kr_id (tb_keys tb)"
    using assms(2) by (rule ids_update_where)
  then have "kr_id ` set (update_where (live k) f (tb_keys tb)) = kr_id ` set (tb_keys tb)"
    by (metis list.set_map)
  moreover have "storable db (key_meta_from db r)" if "r \<in> set (update_where (live k) f (tb_keys tb))" for r
    using that assms(1,6) by (auto simp: update_where_def repo_inv_def)
  moreover have "live_row (tb\<lparr>tb_keys := update_where (live k) f (tb_keys tb)\<rparr>) i =
      (if i = k then map_option f (live_row tb i) else live_row tb i)" for i
    by (rule live_row_update) (simp_all add: live_def assms(2,3))
  ultimately show ?thesis
    using assms(1,4,5) ids by (auto simp: repo_inv_def split: if_splits)
qed

lemma repo_inv_material:
  "repo_inv db tb \<Longrightarrow>
   repo_inv db (tb\<lparr>tb_keys := update_where (live k) (\<lambda>r. r\<lparr>kr_encrypted_material := Some enc\<rparr>) (tb_keys tb)\<rparr>)"
  by (rule repo_inv_update) (simp_all add: key_meta_from_def storable_def)

lemma repo_inv_obsolete:
  "repo_inv db tb \<Longrightarrow>
   repo_inv db (tb\<lparr>tb_keys := update_where (live k) (\<lambda>r. r\<lparr>kr_status := ''Obsolete''\<rparr>) (tb_keys tb)\<rparr>)"
  by (rule repo_inv_update) (simp_all add: key_meta_from_def storable_def)

lemma live_row_material:
  "live_row (tb\<lparr>tb_keys := update_where (live k) (\<lambda>r. r\<lparr>kr_encrypted_material := Some enc\<rparr>) (tb_keys tb)\<rparr>) i =
     (if i = k then map_option (\<lambda>r. r\<lparr>kr_encrypted_material := Some enc\<rparr>) (live_row tb i) else live_row tb i)"
  by (rule live_row_update) (simp_all add: live_def)

lemma live_row_status:
  "live_row (tb\<lparr>tb_keys := update_where (live k) (\<lambda>r. r\<lparr>kr_status := st\<rparr>) (tb_keys tb)\<rparr>) i =
     (if i = k then map_option (\<lambda>r. r\<lparr>kr_status := st\<rparr>) (live_row tb i) else live_row tb i)"
  by (rule live_row_update) (simp_all add: live_def)

lemma repo_inv_delete:
  assumes "repo_inv db tb"
  shows "repo_inv db (tb\<lparr>tb_keys := update_where (live k) (\<lambda>r. r\<lparr>kr_deleted_at := Some now, kr_deleted_by := b\<rparr>) (tb_keys tb)\<rparr>)"
proof -
  let ?f = "\<lambda>r. r\<lparr>kr_deleted_at := Some now, kr_deleted_by := b\<rparr>"
  have ids: "map kr_id (update_where (live k) ?f (tb_keys tb)) = map kr_id (tb_keys tb)"
    by (rule ids_update_where) simp
  then have "kr_id ` set (update_where (live k) ?f (tb_keys tb)) = kr_id ` set (tb_keys tb)"
    by (metis list.set_map)
  moreover have "storable db (key_meta_from db r)" if "r \<in> set (update_where (live k) ?f (tb_keys tb))" for r
    using that assms by (auto simp: update_where_def repo_inv_def key_meta_from_def storable_def)
  ultimately show ?thesis
    using assms ids by (auto simp: repo_inv_def live_row_delete split: if_splits)
qed

lemma cache_ok_material:
  assumes "cache_ok cr db kek tb c"
    and "\<And>e. get_cloned c k = Some e \<Longrightarrow> decrypt_material_static cr kek k enc = Inr (pe_material e)"
  shows "cache_ok cr db kek (tb\<lparr>tb_keys := update_where (live k) (\<lambda>r. r\<lparr>kr_encrypted_material := Some enc\<rparr>) (tb_keys tb)\<rparr>) c"
proof (rule cache_ok_tables [OF assms(1)])
  fix i e assume "get_cloned c i = Some e" "agrees cr db kek tb i e"
  then show "agrees cr db kek (tb\<lparr>tb_keys := update_where (live k) (\<lambda>r. r\<lparr>kr_encrypted_material := Some enc\<rparr>) (tb_keys tb)\<rparr>) i e"
    using assms(2) by (auto simp: agrees_def live_row_material key_meta_from_def)
qed

text \<open>A status written to the row of a key and to its cached entry.\<close>

lemma cache_ok_status:
  assumes "cache_ok cr db kek tb c"
  shows "cache_ok cr db kek (tb\<lparr>tb_keys := update_where (live k) (\<lambda>r. r\<lparr>kr_status := status_debug st\<rparr>) (tb_keys tb)\<rparr>)
           (set_entry k (\<lambda>e. e\<lparr>pe_meta := (pe_meta e)\<lparr>m_status := st\<rparr>\<rparr>) c)"
  using assms unfolding cache_ok_def bounded.all_cached_def get_set_entry
  by (auto simp: agrees_def live_row_status key_meta_from_def storable_def)

lemma cache_ok_delete:
  assumes "cache_ok cr db kek tb c"
  shows "cache_ok cr db kek (tb\<lparr>tb_keys := update_where (live k) (\<lambda>r. r\<lparr>kr_deleted_at := Some now, kr_deleted_by := b\<rparr>) (tb_keys tb)\<rparr>)
           (set_entry k (\<lambda>e. e\<lparr>pe_meta := (pe_meta e)\<lparr>m_status := st\<rparr>\<rparr>) c)"
  using assms unfolding cache_ok_def bounded.all_cached_def get_set_entry
  by (auto simp: agrees_def live_row_delete storable_def)

lemma find_live:
  "distinct (map kr_id rs) \<Longrightarrow> r \<in> set rs \<Longrightarrow> kr_deleted_at r = None \<Longrightarrow> find (live (kr_id r)) rs = Some r"
  by (induction rs) (auto simp: live_def)

lemma repo_inv_live: "repo_inv db tb \<Longrightarrow> r \<in> set (tb_keys tb) \<Longrightarrow> kr_deleted_at r = None \<Longrightarrow> live_row tb (kr_id r) = Some r"
  by (simp add: repo_inv_def live_row_def find_live)

section \<open>Operations keep the invariant\<close>

lemma load_entry_agrees:
  assumes "pg_inv cr db s" "load_entry_from_db cr db fl k s = Inr e"
  shows "agrees cr db (pg_kek s) (pg_repo s) k e"
proof -
  obtain r enc where "live_row (pg_repo s) k = Some r" "pe_meta e = key_meta_from db r" "kr_encrypted_material r = Some enc"
    "decrypt_material_static cr (pg_kek s) k enc = Inr (pe_material e)"
    using assms(2) by (auto simp: load_entry_from_db_def and_then_Inr find_by_id_def find_encrypted_material_def fetch_def
        split: option.splits bind_splits)
  moreover from this(1) have "r \<in> set (tb_keys (pg_repo s))" "kr_id r = k"
    by (simp_all add: live_row_SomeD)
  ultimately show ?thesis
    using assms(1) by (auto simp: agrees_def pg_inv_def repo_inv_def) (simp add: key_meta_from_def)
qed

lemma entry_for_cases:
  obtains (refused) "entry_for cr db fl k t s = (Inl (KeyNotFound (Id k)), s)"
  | (failed) x where "entry_for cr db fl k t s = (Inl x, s)" "load_entry_from_db cr db fl k s = Inl x"
      "get_cloned (pg_keys s) k = None"
  | (hit) e where "entry_for cr db fl k t s = (Inr e, s)" "get_cloned (pg_keys s) k = Some e" "m_tenant_id (pe_meta e) = t"
  | (loaded) e where "entry_for cr db fl k t s = (Inr e, cache_insert k e s)" "get_cloned (pg_keys s) k = None"
      "load_entry_from_db cr db fl k s = Inr e" "m_tenant_id (pe_meta e) = t"
proof (cases "get_cloned (pg_keys s) k")
  case (Some e)
  then show thesis
    using that(1,3) by (cases "m_tenant_id (pe_meta e) = t") (auto simp: entry_for_def)
next
  case None
  show thesis
  proof (cases "load_entry_from_db cr db fl k s")
    case (Inl x)
    with None show thesis
      using that(1,2) by (cases x) (auto simp: entry_for_def)
  next
    case (Inr e)
    with None show thesis
      using that(1,4) by (cases "m_tenant_id (pe_meta e) = t") (auto simp: entry_for_def cache_insert_def)
  qed
qed

lemma pg_inv_cache_insert:
  "pg_inv cr db s \<Longrightarrow> agrees cr db (pg_kek s) (pg_repo s) k e \<Longrightarrow> pg_inv cr db (cache_insert k e s)"
  by (simp add: cache_insert_def pg_inv_def cache_ok_insert)

lemma entry_for_inv: "pg_inv cr db s \<Longrightarrow> pg_inv cr db (snd (entry_for cr db fl k t s))"
  by (rule entry_for_cases [of cr db fl k t s]) (auto intro: pg_inv_cache_insert load_entry_agrees)

text \<open>What an entry that is found is, and what the lookup leaves unchanged.\<close>

lemma entry_for_found:
  assumes "pg_inv cr db s" "entry_for cr db fl k t s = (Inr e, s')"
  shows "agrees cr db (pg_kek s) (pg_repo s) k e \<and> m_tenant_id (pe_meta e) = t \<and> pg_inv cr db s'
    \<and> pg_repo s' = pg_repo s \<and> pg_kek s' = pg_kek s"
proof (rule entry_for_cases [of cr db fl k t s])
  fix e' assume *: "entry_for cr db fl k t s = (Inr e', s)" "get_cloned (pg_keys s) k = Some e'" "m_tenant_id (pe_meta e') = t"
  with assms show ?thesis by (auto simp: pg_inv_def dest: cache_ok_get)
next
  fix e' assume "entry_for cr db fl k t s = (Inr e', cache_insert k e' s)" "load_entry_from_db cr db fl k s = Inr e'"
    "m_tenant_id (pe_meta e') = t"
  with assms load_entry_agrees [OF assms(1)] show ?thesis
    by (auto intro: pg_inv_cache_insert) (simp_all add: cache_insert_def)
qed (use assms(2) in simp_all)

lemma entry_for_unchanged [simp]:
  "pg_repo (snd (entry_for cr db fl k t s)) = pg_repo s" "pg_kek (snd (entry_for cr db fl k t s)) = pg_kek s"
  by (rule entry_for_cases [of cr db fl k t s]; simp add: cache_insert_def)+

text \<open>The end of generation and import: cache, insert the row, store the sealed material.\<close>

definition persist ::
  "'j db_env \<Rightarrow> faults \<Rightarrow> key_meta \<Rightarrow> bytes \<Rightarrow> bytes \<Rightarrow> 'j pg_keystore \<Rightarrow> (kms_error + key_meta) \<times> 'j pg_keystore" where
  "persist db fl meta material encrypted s =
     (let s = cache_insert (m_id meta) \<lparr>pe_meta = meta, pe_material = material\<rparr> s
      in then_st (on_repo (repo_insert db (fl 0) meta) s) (\<lambda>_ s.
         then_st (on_repo (update_encrypted_material (fl 1) (m_id meta) encrypted) s) (\<lambda>_ s. (Inr meta, s))))"

lemma get_cached_own:
  "get_cloned (insert_with_eviction k e c) k = Some x \<Longrightarrow> x = e"
  by (drule get_insert_with_eviction) simp

lemma persist_inv:
  assumes "pg_inv cr db s" "pg_fresh s (m_id meta)" "storable db meta"
    "decrypt_material_static cr (pg_kek s) (m_id meta) encrypted = Inr material"
  shows "pg_inv cr db (snd (persist db fl meta material encrypted s))"
proof -
  let ?e = "\<lparr>pe_meta = meta, pe_material = material\<rparr>"
  let ?c = "insert_with_eviction (m_id meta) ?e (pg_keys s)"
  let ?tb = "(pg_repo s)\<lparr>tb_keys := tb_keys (pg_repo s) @ [row_of_meta db meta]\<rparr>"
  have fresh: "m_id meta \<notin> kr_id ` set (tb_keys (pg_repo s))"
    using assms(2) by (simp add: pg_fresh_def)
  then have "agrees cr db (pg_kek s) (pg_repo s) (m_id meta) ?e"
    using assms(3) by (simp add: agrees_def live_row_None)
  then have c: "cache_ok cr db (pg_kek s) (pg_repo s) ?c"
    using assms(1) by (simp add: pg_inv_def cache_ok_insert)
  have tb: "repo_inv db ?tb" "cache_ok cr db (pg_kek s) ?tb ?c"
    using assms(1,3) fresh c
    by (auto simp: pg_inv_def intro!: repo_inv_insert cache_ok_repo_insert dest: get_cached_own)
  have "decrypt_material_static cr (pg_kek s) (m_id meta) encrypted = Inr (pe_material e)"
    if "get_cloned ?c (m_id meta) = Some e" for e
    using get_cached_own [OF that] assms(4) by simp
  note repo_inv_material [OF tb(1), of "m_id meta" encrypted] cache_ok_material [OF tb(2) this]
  then show ?thesis
    using c tb assms fresh
    by (cases "fl 0"; cases "fl 1")
      (auto simp: persist_def on_repo_def repo_insert_def update_encrypted_material_def cache_insert_def pg_inv_def Let_def)
qed

lemma pg_generate_key_inv:
  assumes "kek_ok cr (pg_kek s)" "pg_inv cr db s" "pg_fresh s i" "storable db (new_meta i now spec name t None)"
  shows "pg_inv cr db (snd (pg_generate_key cr db fl r r' i now spec name t s))"
proof (cases "generate_key_material r spec")
  case (Inr m)
  show ?thesis
  proof (cases "encrypt_material cr r' (pg_kek s) i m")
    case Inl
    with Inr assms show ?thesis by (simp add: pg_generate_key_def)
  next
    case (Inr enc)
    have "pg_generate_key cr db fl r r' i now spec name t s = persist db fl (new_meta i now spec name t None) m enc s"
      using \<open>generate_key_material r spec = Inr m\<close> Inr by (simp add: pg_generate_key_def persist_def new_meta_def Let_def)
    with Inr assms decrypt_encrypt_material show ?thesis
      by (auto intro!: persist_inv simp: new_meta_def)
  qed
qed (use assms in \<open>simp add: pg_generate_key_def\<close>)

lemma pg_import_key_material_inv:
  assumes "kek_ok cr (pg_kek s)" "pg_inv cr db s" "pg_fresh s i" "storable db (new_meta i now spec name t (Some ''imported''))"
  shows "pg_inv cr db (snd (pg_import_key_material cr db fl r i now spec name t m s))"
proof (cases "import_check spec m")
  case (Inr u)
  show ?thesis
  proof (cases "encrypt_material cr r (pg_kek s) i m")
    case Inl
    with Inr assms show ?thesis by (simp add: pg_import_key_material_def Let_def)
  next
    case (Inr enc)
    have "pg_import_key_material cr db fl r i now spec name t m s
        = persist db fl (new_meta i now spec name t (Some ''imported'')) m enc s"
      using \<open>import_check spec m = Inr u\<close> Inr by (simp add: pg_import_key_material_def persist_def new_meta_def Let_def)
    with Inr assms decrypt_encrypt_material show ?thesis
      by (auto intro!: persist_inv simp: new_meta_def)
  qed
qed (use assms in \<open>simp add: pg_import_key_material_def\<close>)

lemma pg_delete_key_inv:
  assumes "pg_inv cr db s"
  shows "pg_inv cr db (snd (pg_delete_key cr db fl now k t s))"
proof -
  obtain r s' where e: "entry_for cr db fl k t s = (r, s')"
    by (cases "entry_for cr db fl k t s")
  then have "pg_inv cr db s'"
    using entry_for_inv [OF assms, of fl k t] by simp
  then show ?thesis
    using e by (cases r; cases "fl 2")
      (auto simp: pg_delete_key_def on_repo_def soft_delete_def cache_status_def pg_inv_def
        intro: repo_inv_delete cache_ok_delete)
qed

lemma pg_destroy_inv:
  "pg_inv cr db s \<Longrightarrow> pg_inv cr db (snd (pg_destroy_key k s))"
  "pg_inv cr db s \<Longrightarrow> pg_inv cr db (snd (pg_destroy_key_with_proof cr' now k s))"
  using cache_ok_remove [of cr db "pg_kek s" "pg_repo s" "pg_keys s" k]
  by (auto simp: pg_destroy_key_def pg_destroy_key_with_proof_def pg_inv_def split: prod.splits option.splits)

section \<open>Rotation keeps the invariant\<close>

text \<open>The tables after the three statements that write the new key and mark the old one.\<close>

definition rotated_tables :: "'j db_env \<Rightarrow> key_meta \<Rightarrow> bytes \<Rightarrow> uuid \<Rightarrow> 'j tables \<Rightarrow> 'j tables" where
  "rotated_tables db meta enc k tb =
     (let tb = tb\<lparr>tb_keys := tb_keys tb @ [row_of_meta db meta]\<rparr>;
          tb = tb\<lparr>tb_keys := update_where (live (m_id meta)) (\<lambda>r. r\<lparr>kr_encrypted_material := Some enc\<rparr>) (tb_keys tb)\<rparr>
      in tb\<lparr>tb_keys := update_where (live k) (\<lambda>r. r\<lparr>kr_status := ''Obsolete''\<rparr>) (tb_keys tb)\<rparr>)"

lemma live_row_rotated:
  assumes "m_id meta \<notin> kr_id ` set (tb_keys tb)" "m_id meta \<noteq> k"
  shows "live_row (rotated_tables db meta enc k tb) i =
    (if i = m_id meta then Some ((row_of_meta db meta)\<lparr>kr_encrypted_material := Some enc\<rparr>)
     else if i = k then map_option (\<lambda>r. r\<lparr>kr_status := ''Obsolete''\<rparr>) (live_row tb i) else live_row tb i)"
  using assms unfolding rotated_tables_def Let_def live_row_status live_row_material by (simp add: live_row_insert)

lemma repo_inv_rotated:
  assumes "repo_inv db tb" "m_id meta \<notin> kr_id ` set (tb_keys tb)" "storable db meta"
  shows "repo_inv db (rotated_tables db meta enc k tb)"
  unfolding rotated_tables_def Let_def by (intro repo_inv_obsolete repo_inv_material repo_inv_insert assms)

lemma versions_rotated [simp]: "tb_versions (rotated_tables db meta enc k tb) = tb_versions tb"
  by (simp add: rotated_tables_def Let_def)

lemma ids_rotated: "kr_id ` set (tb_keys (rotated_tables db meta enc k tb)) = insert (m_id meta) (kr_id ` set (tb_keys tb))"
proof -
  have "kr_id ` set (update_where P f rs) = kr_id ` set rs" if "\<And>r. kr_id (f r) = kr_id r" for P f and rs :: "'a key_row list"
    using ids_update_where [of kr_id f, OF that] by (metis list.set_map)
  then show ?thesis
    by (simp add: rotated_tables_def Let_def) (simp add: row_of_meta_def)
qed

text \<open>The version row written last, as \<open>update_version_rotated_at\<close> leaves it.\<close>

lemma repo_inv_version:
  assumes "repo_inv db tb" "k \<in> kr_id ` set (tb_keys tb)" "set vs \<subseteq> set (tb_versions tb) \<union> {v}"
    "vr_key_id v = k" "\<And>r. live_row tb k = Some r \<Longrightarrow> vr_version v = kr_version r \<and> kr_status r = ''Obsolete''"
    "\<And>v. vr_key_id (g v) = vr_key_id v" "\<And>v. vr_version (g v) = vr_version v"
  shows "repo_inv db (tb\<lparr>tb_versions := update_where P g vs\<rparr>)"
proof -
  have *: "\<exists>v' \<in> set (tb_versions tb) \<union> {v}. vr_key_id x = vr_key_id v' \<and> vr_version x = vr_version v'"
    if "x \<in> set (update_where P g vs)" for x
    using that assms(3,6,7) by (auto simp: update_where_def)
  have "live_row (tb\<lparr>tb_versions := update_where P g vs\<rparr>) i = live_row tb i" for i
    by (simp add: live_row_def)
  then show ?thesis
    using assms(1,2,4,5) * unfolding repo_inv_def by (auto dest!: *)
qed

lemma cache_ok_live_cong: "(\<And>k. live_row tb' k = live_row tb k) \<Longrightarrow> cache_ok cr db kek tb' c = cache_ok cr db kek tb c"
  by (simp add: cache_ok_def bounded.all_cached_def agrees_def)

lemma cache_ok_rotated:
  assumes "cache_ok cr db kek tb c" "m_id meta \<notin> kr_id ` set (tb_keys tb)" "m_id meta \<noteq> k" "get_cloned c (m_id meta) = None"
  shows "cache_ok cr db kek (rotated_tables db meta enc k tb)
     (set_entry k (\<lambda>e. e\<lparr>pe_meta := (pe_meta e)\<lparr>m_status := Obsolete\<rparr>\<rparr>) c)"
  using assms unfolding cache_ok_def bounded.all_cached_def get_set_entry
  by (auto simp: agrees_def live_row_rotated key_meta_from_def storable_def status_from_str_def)

text \<open>A second rotation of a key stops at the version row; the key was marked obsolete before.\<close>

lemma cache_ok_rotated_stop:
  assumes "cache_ok cr db kek tb c" "m_id meta \<notin> kr_id ` set (tb_keys tb)" "m_id meta \<noteq> k" "get_cloned c (m_id meta) = None"
    "\<And>r. live_row tb k = Some r \<Longrightarrow> kr_status r = ''Obsolete''"
  shows "cache_ok cr db kek (rotated_tables db meta enc k tb) c"
  using assms unfolding cache_ok_def bounded.all_cached_def
  by (fastforce simp: agrees_def live_row_rotated key_meta_from_def)

text \<open>The statements of a rotation, from the entry on: four outcomes.\<close>

lemma rotate_statements:
  assumes "encrypt_material cr (rs 2) (pg_kek s) (m_id old) mat = Inr dek" "m_id meta \<notin> kr_id ` set (tb_keys (pg_repo s))"
    "vi \<notin> vr_id ` set (tb_versions (pg_repo s))" "fl 5 = None" "fl 6 = None"
    and r: "r = then_st (on_repo (repo_insert db (fl 2) meta) s) (\<lambda>_ s.
            then_st (on_repo (update_encrypted_material (fl 3) (m_id meta) enc) s) (\<lambda>_ s.
            then_st (on_repo (update_status (fl 4) (m_id old) Obsolete) s) (\<lambda>_ s.
            then_st (encrypt_material cr (rs 2) (pg_kek s) (m_id old) mat, s) (\<lambda>dek s.
            then_st (on_repo (insert_version db (fl 5) vi now (m_id old) (m_version old) (Some dek) ''Rotated'') s) (\<lambda>_ s.
            then_st (on_repo (update_version_rotated_at db (fl 6) now (m_id old) (m_version old)) s) f)))))"
  shows "(\<exists>e. r = (Inl e, s))
    \<or> (\<exists>e. r = (Inl e, s\<lparr>pg_repo := (pg_repo s)\<lparr>tb_keys := tb_keys (pg_repo s) @ [row_of_meta db meta]\<rparr>\<rparr>))
    \<or> (\<exists>e tb. r = (Inl e, s\<lparr>pg_repo := tb\<rparr>) \<and> tb = (pg_repo s)\<lparr>tb_keys := update_where (live (m_id meta))
        (\<lambda>r. r\<lparr>kr_encrypted_material := Some enc\<rparr>) (tb_keys (pg_repo s) @ [row_of_meta db meta])\<rparr>)
    \<or> (\<exists>e. r = (Inl e, s\<lparr>pg_repo := rotated_tables db meta enc (m_id old) (pg_repo s)\<rparr>)
        \<and> ((m_id old, m_version old) \<in> (\<lambda>v. (vr_key_id v, vr_version v)) ` set (tb_versions (pg_repo s))
           \<or> m_id old \<notin> kr_id ` set (tb_keys (rotated_tables db meta enc (m_id old) (pg_repo s)))))
    \<or> (\<exists>vs v. r = f () (s\<lparr>pg_repo := (rotated_tables db meta enc (m_id old) (pg_repo s))\<lparr>tb_versions :=
          update_where (\<lambda>v. vr_key_id v = m_id old \<and> vr_version v = m_version old)
            (\<lambda>v. v\<lparr>vr_rotated_at := Some (db_time db now), vr_status := ''Rotated''\<rparr>) vs\<rparr>\<rparr>)
        \<and> vs = tb_versions (pg_repo s) @ [v] \<and> vr_key_id v = m_id old \<and> vr_version v = m_version old
        \<and> vr_encrypted_dek v = Some dek
        \<and> m_id old \<in> kr_id ` set (tb_keys (rotated_tables db meta enc (m_id old) (pg_repo s)))
        \<and> (m_id old, m_version old) \<notin> (\<lambda>v. (vr_key_id v, vr_version v)) ` set (tb_versions (pg_repo s)))"
  using assms(1-5)
  by (cases "fl 2"; cases "fl 3"; cases "fl 4")
    (simp_all add: r on_repo_def repo_insert_def update_encrypted_material_def update_status_def insert_version_def
      update_version_rotated_at_def rotated_tables_def Let_def, auto?)

lemma storable_rotated_meta: "storable db old \<Longrightarrow> db_time db now = now \<Longrightarrow> storable db (pg_rotated_meta i now old)"
  by (simp add: storable_def pg_rotated_meta_def)

lemma pg_rotated_meta_simps [simp]:
  "m_id (pg_rotated_meta i now old) = i" "m_tenant_id (pg_rotated_meta i now old) = m_tenant_id old"
  "m_spec (pg_rotated_meta i now old) = m_spec old" "m_status (pg_rotated_meta i now old) = Active"
  "m_version (pg_rotated_meta i now old) = m_version old + 1"
  by (simp_all add: pg_rotated_meta_def)

lemma pg_fresh_after_lookup:
  assumes "pg_fresh s i" "i \<noteq> k"
  shows "pg_fresh (snd (entry_for cr db fl k t s)) i"
proof (rule entry_for_cases [of cr db fl k t s])
  fix e assume "entry_for cr db fl k t s = (Inr e, cache_insert k e s)"
  then show ?thesis
    using assms get_insert_with_eviction [of k e "pg_keys s" i]
    by (cases "get_cloned (insert_with_eviction k e (pg_keys s)) i") (auto simp: pg_fresh_def cache_insert_def)
qed (use assms in simp_all)

lemma rotation_stop_status:
  assumes "repo_inv db tb" "m_id meta \<noteq> k"
    "(k, ver) \<in> (\<lambda>v. (vr_key_id v, vr_version v)) ` set (tb_versions tb)
     \<or> k \<notin> kr_id ` set (tb_keys (rotated_tables db meta enc k tb))"
    "live_row tb k = Some r"
  shows "kr_status r = ''Obsolete''"
  using assms(3)
proof
  assume "(k, ver) \<in> (\<lambda>v. (vr_key_id v, vr_version v)) ` set (tb_versions tb)"
  with assms(1,4) show ?thesis by (auto simp: repo_inv_def)
next
  assume "k \<notin> kr_id ` set (tb_keys (rotated_tables db meta enc k tb))"
  with assms(2,4) show ?thesis by (auto simp: ids_rotated dest: live_row_SomeD)
qed

text \<open>The keystore a completed rotation leaves.\<close>

lemma pg_inv_rotated:
  assumes "pg_inv cr db s" "pg_fresh s (m_id meta)" "m_id meta \<noteq> k" "storable db meta"
    "decrypt_material_static cr (pg_kek s) (m_id meta) enc = Inr m"
    "k \<in> kr_id ` set (tb_keys (rotated_tables db meta enc k (pg_repo s)))" "vr_key_id v = k"
    "\<And>r. live_row (pg_repo s) k = Some r \<Longrightarrow> vr_version v = kr_version r"
    "\<And>v. vr_key_id (g v) = vr_key_id v" "\<And>v. vr_version (g v) = vr_version v"
  shows "pg_inv cr db (cache_insert (m_id meta) \<lparr>pe_meta = meta, pe_material = m\<rparr> (cache_status k Obsolete
      (s\<lparr>pg_repo := (rotated_tables db meta enc k (pg_repo s))\<lparr>tb_versions :=
         update_where P g (tb_versions (pg_repo s) @ [v])\<rparr>\<rparr>)))"
proof -
  let ?tb = "rotated_tables db meta enc k (pg_repo s)"
  let ?tb' = "?tb\<lparr>tb_versions := update_where P g (tb_versions (pg_repo s) @ [v])\<rparr>"
  have fresh: "m_id meta \<notin> kr_id ` set (tb_keys (pg_repo s))" "get_cloned (pg_keys s) (m_id meta) = None"
    using assms(2) by (simp_all add: pg_fresh_def)
  have tb: "repo_inv db ?tb"
    using assms(1,4) fresh(1) by (simp add: pg_inv_def repo_inv_rotated)
  have "repo_inv db ?tb'"
    by (rule repo_inv_version [OF tb assms(6) _ assms(7)])
      (use assms(3,8) in \<open>auto simp: live_row_rotated [OF fresh(1) assms(3)] assms(9,10)\<close>)
  moreover have live: "live_row ?tb' i = live_row ?tb i" for i
    by (simp add: live_row_def)
  have "cache_ok cr db (pg_kek s) ?tb' (set_entry k (\<lambda>e. e\<lparr>pe_meta := (pe_meta e)\<lparr>m_status := Obsolete\<rparr>\<rparr>) (pg_keys s))"
    unfolding cache_ok_live_cong [OF live] using assms(1,3) fresh by (simp add: pg_inv_def cache_ok_rotated)
  moreover have "agrees cr db (pg_kek s) ?tb' (m_id meta) \<lparr>pe_meta = meta, pe_material = m\<rparr>"
    unfolding agrees_live_cong [OF live] using assms(4,5) key_meta_roundtrip [OF assms(4)]
    by (simp add: agrees_def live_row_rotated [OF fresh(1) assms(3)]) (simp add: key_meta_from_def)
  ultimately show ?thesis
    by (simp add: pg_inv_def cache_insert_def cache_status_def cache_ok_insert)
qed

lemma rotate_statements_inv:
  assumes inv: "pg_inv cr db s" and fresh: "pg_fresh s (m_id meta)" "m_id meta \<noteq> m_id old" "vi \<notin> vr_id ` set (tb_versions (pg_repo s))"
    and meta: "storable db meta" "decrypt_material_static cr (pg_kek s) (m_id meta) enc = Inr m"
    and ver: "\<And>r. live_row (pg_repo s) (m_id old) = Some r \<Longrightarrow> m_version old = kr_version r"
    and ok: "encrypt_material cr (rs 2) (pg_kek s) (m_id old) mat = Inr dek" "fl 5 = None" "fl 6 = None"
  shows "pg_inv cr db (snd (then_st (on_repo (repo_insert db (fl 2) meta) s) (\<lambda>_ s.
            then_st (on_repo (update_encrypted_material (fl 3) (m_id meta) enc) s) (\<lambda>_ s.
            then_st (on_repo (update_status (fl 4) (m_id old) Obsolete) s) (\<lambda>_ s.
            then_st (encrypt_material cr (rs 2) (pg_kek s) (m_id old) mat, s) (\<lambda>dek s.
            then_st (on_repo (insert_version db (fl 5) vi now (m_id old) (m_version old) (Some dek) ''Rotated'') s) (\<lambda>_ s.
            then_st (on_repo (update_version_rotated_at db (fl 6) now (m_id old) (m_version old)) s) (\<lambda>_ s.
            (Inr meta, cache_insert (m_id meta) \<lparr>pe_meta = meta, pe_material = m\<rparr> (cache_status (m_id old) Obsolete s))))))))))"
    (is "pg_inv cr db (snd ?r)")
proof -
  let ?k = "m_id old"
  have new: "m_id meta \<notin> kr_id ` set (tb_keys (pg_repo s))" "get_cloned (pg_keys s) (m_id meta) = None"
    using fresh(1) by (simp_all add: pg_fresh_def)
  let ?tb = "(pg_repo s)\<lparr>tb_keys := tb_keys (pg_repo s) @ [row_of_meta db meta]\<rparr>"
  have t1: "repo_inv db ?tb" "cache_ok cr db (pg_kek s) ?tb (pg_keys s)"
    using inv new meta(1) by (auto simp: pg_inv_def intro!: repo_inv_insert cache_ok_repo_insert)
  have t2: "pg_inv cr db (s\<lparr>pg_repo := ?tb\<lparr>tb_keys := update_where (live (m_id meta))
      (\<lambda>r. r\<lparr>kr_encrypted_material := Some enc\<rparr>) (tb_keys ?tb)\<rparr>\<rparr>)"
    unfolding pg_inv_fields using t1 new by (intro conjI repo_inv_material cache_ok_material) simp_all
  have t3: "pg_inv cr db (s\<lparr>pg_repo := rotated_tables db meta enc ?k (pg_repo s)\<rparr>)"
    if "(?k, m_version old) \<in> (\<lambda>v. (vr_key_id v, vr_version v)) ` set (tb_versions (pg_repo s))
       \<or> ?k \<notin> kr_id ` set (tb_keys (rotated_tables db meta enc ?k (pg_repo s)))"
    unfolding pg_inv_fields using inv new meta(1) fresh(2) rotation_stop_status [OF _ _ that]
    by (intro conjI repo_inv_rotated cache_ok_rotated_stop) (auto simp: pg_inv_def)
  note outcomes = rotate_statements [of cr rs s old mat dek meta vi fl ?r db enc now, OF ok(1) new(1) fresh(3) ok(2,3) refl]
  then show ?thesis
    using t1 t2 t3 inv pg_inv_rotated [OF inv fresh(1,2) meta] ver
    by (auto simp: pg_inv_fields)
qed

lemma pg_rotate_key_inv:
  assumes kek: "kek_ok cr (pg_kek s)" and inv: "pg_inv cr db s"
    and adm: "pg_admissible db (PgRotate fl rs i vi now k t) s"
  shows "pg_inv cr db (snd (pg_rotate_key cr db fl rs i vi now k t s))"
proof (cases "entry_for cr db fl k t s")
  case (Pair x s1)
  show ?thesis
  proof (cases x)
    case Inl
    with Pair entry_for_inv [OF inv, of fl k t] show ?thesis by (simp add: pg_rotate_key_def)
  next
    case (Inr e)
    with Pair have e: "entry_for cr db fl k t s = (Inr e, s1)" by simp
    have ag: "agrees cr db (pg_kek s) (pg_repo s) k e" and inv1: "pg_inv cr db s1"
      and s1: "pg_repo s1 = pg_repo s" "pg_kek s1 = pg_kek s"
      using entry_for_found [OF inv e] by simp_all
    let ?old = "pe_meta e" and ?meta = "pg_rotated_meta i now (pe_meta e)"
    have old: "m_id ?old = k" "storable db ?meta"
      using ag adm by (simp_all add: agrees_def storable_rotated_meta)
    have fresh: "pg_fresh s1 (m_id ?meta)" "m_id ?meta \<noteq> m_id ?old" "vi \<notin> vr_id ` set (tb_versions (pg_repo s1))"
      using adm pg_fresh_after_lookup [of s i k cr db fl t] e s1 old(1) by simp_all
    have ver: "m_version ?old = kr_version r" if "live_row (pg_repo s1) (m_id ?old) = Some r" for r
      using ag that s1 old(1) by (auto simp: agrees_def key_meta_from_def)
    obtain g where "rs 2 = Some g" using adm by auto
    then obtain dek where dek: "encrypt_material cr (rs 2) (pg_kek s1) (m_id ?old) (pe_material e) = Inr dek"
      using encrypt_material_Inr [OF kek, of g k "pe_material e"] old(1) s1
      by (cases "encrypt_material cr (Some g) (pg_kek s) k (pe_material e)") auto
    show ?thesis
    proof (cases "can_rotate (m_status ?old) \<and> (\<exists>m enc. generate_key_material (rs 0) (m_spec ?old) = Inr m
        \<and> encrypt_material cr (rs 1) (pg_kek s1) i m = Inr enc)")
      case False
      with e inv1 show ?thesis
        by (cases "generate_key_material (rs 0) (m_spec ?old)"; cases "encrypt_material cr (rs 1) (pg_kek s1) i
            (projr (generate_key_material (rs 0) (m_spec ?old)))") (auto simp: pg_rotate_key_def Let_def)
    next
      case True
      then obtain m enc where m: "can_rotate (m_status ?old)" "generate_key_material (rs 0) (m_spec ?old) = Inr m"
        "encrypt_material cr (rs 1) (pg_kek s1) i m = Inr enc" by blast
      then have "decrypt_material_static cr (pg_kek s1) (m_id ?meta) enc = Inr m"
        using decrypt_encrypt_material [OF kek] s1 by simp
      note rotate_statements_inv [of cr db s1 ?meta ?old vi enc m rs _ _ fl now, OF inv1 fresh old(2) this ver dek]
      with e m adm old(1) show ?thesis by (simp add: pg_rotate_key_def Let_def)
    qed
  qed
qed

section \<open>Loading keeps the invariant\<close>

text \<open>What is relied on of the server: a sorted query returns the rows it selects.\<close>

definition db_sorts :: "'j db_env \<Rightarrow> bool" where
  "db_sorts db \<longleftrightarrow> (\<forall>rs. set (order_by_created_desc db rs) \<subseteq> set rs)"

lemma list_all_tenants_rows:
  assumes "db_sorts db" "list_all_tenants db fault lim off tb = Inr metas" "meta \<in> set metas"
  shows "\<exists>r \<in> set (tb_keys tb). kr_deleted_at r = None \<and> meta = key_meta_from db r"
proof -
  let ?rs = "order_by_created_desc db (filter (\<lambda>r. kr_deleted_at r = None) (tb_keys tb))"
  have "metas = map (key_meta_from db) (take (nat (case lim of Some n \<Rightarrow> n | None \<Rightarrow> 100))
      (drop (nat (case off of Some n \<Rightarrow> n | None \<Rightarrow> 0)) ?rs))"
    using assms(2) by (auto simp: list_all_tenants_def select_page_def Let_def fetch_def split: if_splits option.splits)
  then show ?thesis
    using assms(1,3) unfolding db_sorts_def
    by (fastforce dest!: in_set_takeD in_set_dropD)
qed

lemma load_one_into_cache_inv:
  assumes "pg_inv cr db s" "r \<in> set (tb_keys (pg_repo s))" "kr_deleted_at r = None"
  shows "pg_inv cr db (snd (load_one_into_cache cr fault (key_meta_from db r) s))"
proof -
  have "storable db (key_meta_from db r)" "live_row (pg_repo s) (kr_id r) = Some r"
    using assms by (auto simp: pg_inv_def repo_inv_live) (simp add: repo_inv_def)
  moreover have "m_id (key_meta_from db r) = kr_id r"
    by (simp add: key_meta_from_def)
  ultimately show ?thesis
    using assms(1)
    by (auto simp: load_one_into_cache_def find_encrypted_material_def fetch_def pg_inv_def agrees_def
        split: option.splits sum.splits intro!: cache_ok_insert)
qed

lemma load_one_unchanged [simp]:
  "pg_repo (snd (load_one_into_cache cr fault meta s)) = pg_repo s" "pg_kek (snd (load_one_into_cache cr fault meta s)) = pg_kek s"
  by (simp_all add: load_one_into_cache_def split: sum.splits option.splits)

lemma load_keys_loop_inv:
  assumes "pg_inv cr db s" "\<And>meta. meta \<in> set metas \<Longrightarrow> \<exists>r \<in> set (tb_keys (pg_repo s)). kr_deleted_at r = None \<and> meta = key_meta_from db r"
  shows "pg_inv cr db (load_keys_loop cr fl i metas s)"
  using assms
proof (induction metas arbitrary: i s)
  case Nil
  then show ?case by simp
next
  case (Cons meta metas)
  then obtain r where "r \<in> set (tb_keys (pg_repo s))" "kr_deleted_at r = None" "meta = key_meta_from db r"
    by (meson list.set_intros(1))
  with Cons.prems(1) have "pg_inv cr db (snd (load_one_into_cache cr (fl i) meta s))"
    by (simp add: load_one_into_cache_inv)
  with Cons show ?case by simp
qed

lemma load_keys_inv:
  assumes "db_sorts db" "pg_inv cr db s"
  shows "pg_inv cr db (snd (load_keys cr db fl s))"
  using assms list_all_tenants_rows [OF assms(1)]
  by (auto simp: load_keys_def pg_inv_fields intro!: load_keys_loop_inv split: sum.splits)

text \<open>The background loop does to the cache what the loop of \<open>load_keys\<close> does.\<close>

lemma map_kms_err_Inl: "r = Inl e \<Longrightarrow> \<exists>e'. map_kms_err f r = Inl e'"
  by (cases e) (simp_all add: map_kms_err_def)

lemma spawn_loop_eq:
  "load_keys_loop cr fl i metas s
     = s\<lparr>pg_keys := fst (spawn_load_keys_loop cr fl i (pg_kek s) (pg_repo s) metas (pg_keys s) n)\<rparr>"
proof (induction metas arbitrary: i s n)
  case Nil
  then show ?case by simp
next
  case (Cons meta metas)
  consider (fail) x where "find_encrypted_material (fl i) (m_id meta) (pg_repo s) = Inl x"
    | (missing) "find_encrypted_material (fl i) (m_id meta) (pg_repo s) = Inr None"
    | (found) enc where "find_encrypted_material (fl i) (m_id meta) (pg_repo s) = Inr (Some enc)"
    by (metis old.sum.exhaust option.exhaust)
  then show ?case
  proof cases
    case (found enc)
    show ?thesis
    proof (cases "decrypt_material_static cr (pg_kek s) (m_id meta) enc")
      case (Inl x)
      from map_kms_err_Inl [OF this] found Inl Cons [of "Suc i" s n] show ?thesis
        by (auto simp: load_one_into_cache_def split: sum.splits)
    next
      case (Inr m)
      with found show ?thesis
        using Cons [of "Suc i" "s\<lparr>pg_keys := insert_with_eviction (m_id meta) \<lparr>pe_meta = meta, pe_material = m\<rparr> (pg_keys s)\<rparr>" "n + 1"]
        by (simp add: load_one_into_cache_def)
    qed
  qed (use Cons in \<open>simp_all add: load_one_into_cache_def\<close>)
qed

lemma spawn_load_keys_state: "snd (spawn_load_keys cr db fl s) = snd (load_keys cr db fl s)"
  by (simp add: spawn_load_keys_def load_keys_def spawn_loop_eq [where n = 0] split: sum.splits prod.splits)

section \<open>Reachable keystores\<close>

lemma pg_restart_fields [simp]:
  "pg_repo (pg_restart cap s) = pg_repo s" "pg_kek (pg_restart cap s) = pg_kek s" "pg_keys (pg_restart cap s) = bc_new cap"
  by (auto simp: pg_restart_def pg_new_def with_in_memory_cap_def Let_def split: option.splits)

lemma pg_step_inv:
  assumes "kek_ok cr (pg_kek s)" "db_sorts db" "pg_admissible db c s" "pg_inv cr db s"
  shows "pg_inv cr db (pg_step cr db c s)"
proof (cases c)
  case (PgRotate fl rs i vi now k t)
  show ?thesis
    using pg_rotate_key_inv [OF assms(1,4)] assms(3) unfolding PgRotate by simp
qed (use assms in \<open>simp_all add: pg_generate_key_inv pg_import_key_material_inv entry_for_inv pg_delete_key_inv
      pg_destroy_inv load_keys_inv spawn_load_keys_state pg_inv_def [of _ _ "pg_restart _ _"]\<close>, simp add: pg_inv_def)

lemma then_st_field:
  assumes "f (snd r) = f s" "\<And>x s'. r = (Inr x, s') \<Longrightarrow> f (snd (g x s')) = f s"
  shows "f (snd (then_st r g)) = f s"
  using assms by (cases r; cases "fst r") auto

lemma on_repo_kek [simp]: "pg_kek (snd (on_repo stmt s)) = pg_kek s"
  by (simp add: on_repo_def split: prod.splits)

lemma kek_snd: "r = (x, s') \<Longrightarrow> pg_kek (snd r) = pg_kek s \<Longrightarrow> pg_kek s' = pg_kek s"
  by simp

lemma on_repo_kekD: "on_repo stmt s = (x, s') \<Longrightarrow> pg_kek s' = pg_kek s"
  by (erule kek_snd) simp

lemma entry_for_kekD: "entry_for cr db fl k t s = (x, s') \<Longrightarrow> pg_kek s' = pg_kek s"
  by (erule kek_snd) simp

lemma load_keys_loop_fields [simp]:
  "pg_kek (load_keys_loop cr fl i metas s) = pg_kek s" "pg_repo (load_keys_loop cr fl i metas s) = pg_repo s"
  by (induction metas arbitrary: i s) simp_all

lemma load_keys_fields [simp]: "pg_kek (snd (load_keys cr db fl s)) = pg_kek s" "pg_repo (snd (load_keys cr db fl s)) = pg_repo s"
  by (simp_all add: load_keys_def split: sum.splits)

lemma cache_change_fields [simp]:
  "pg_kek (cache_insert k e s) = pg_kek s" "pg_kek (cache_status k st s) = pg_kek s"
  "pg_repo (cache_insert k e s) = pg_repo s" "pg_repo (cache_status k st s) = pg_repo s"
  by (simp_all add: cache_insert_def cache_status_def)

lemma pg_destroy_fields [simp]:
  "pg_kek (snd (pg_destroy_key k s)) = pg_kek s" "pg_kek (snd (pg_destroy_key_with_proof cr now k s)) = pg_kek s"
  "pg_repo (snd (pg_destroy_key k s)) = pg_repo s" "pg_repo (snd (pg_destroy_key_with_proof cr now k s)) = pg_repo s"
  by (simp_all add: pg_destroy_key_def pg_destroy_key_with_proof_def split: prod.splits option.splits)

lemma pg_step_kek [simp]: "pg_kek (pg_step cr db c s) = pg_kek s"
  by (cases c)
    (auto simp: pg_generate_key_def pg_import_key_material_def pg_rotate_key_def pg_delete_key_def Let_def
      spawn_load_keys_state intro!: then_st_field dest!: on_repo_kekD entry_for_kekD)

lemma pg_reach_inv:
  assumes "pg_reach cr db kek s" "kek_ok cr kek" "db_sorts db"
  shows "pg_inv cr db s \<and> pg_kek s = kek"
  using assms(1)
proof induction
  case pg_start
  have "repo_inv db empty_tables"
    by (simp add: repo_inv_def empty_tables_def)
  then show ?case by (simp add: pg_inv_def pg_new_def)
next
  case (pg_next s c)
  with assms show ?case by (simp add: pg_step_inv)
qed

end
