(* ===== verification/Postgres_Properties.thy ===== *)
theory Postgres_Properties
  imports Postgres_Invariant
begin

text \<open>
  What a reachable PostgreSQL keystore guarantees: answers that do not depend on the cache, decryption of
  old data over rotations and restarts, the limits of rotation and destruction, tenant isolation, and
  the equivalence of the two ways to load keys.
\<close>

section \<open>Results do not depend on the cache\<close>

text \<open>The entry the database holds for a key.\<close>

definition stored_entry :: "'kp crypto \<Rightarrow> 'j db_env \<Rightarrow> 'j pg_keystore \<Rightarrow> uuid \<Rightarrow> pg_entry \<Rightarrow> bool" where
  "stored_entry cr db s k e \<longleftrightarrow> load_entry_from_db cr db (\<lambda>_. None) k s = Inr e"

lemma stored_entry_iff:
  "stored_entry cr db s k e \<longleftrightarrow> (\<exists>r enc. live_row (pg_repo s) k = Some r \<and> kr_encrypted_material r = Some enc
     \<and> pe_meta e = key_meta_from db r \<and> decrypt_material_static cr (pg_kek s) k enc = Inr (pe_material e))"
  by (cases e) (auto simp: stored_entry_def load_entry_from_db_def and_then_Inr find_by_id_def find_encrypted_material_def)

lemma stored_entry_cached:
  assumes "pg_inv cr db s" "stored_entry cr db s k e" "get_cloned (pg_keys s) k = Some e'"
  shows "e' = e"
proof -
  have "agrees cr db (pg_kek s) (pg_repo s) k e'"
    using assms(1,3) by (auto simp: pg_inv_def dest: cache_ok_get)
  with assms(2) show ?thesis
    by (cases e; cases e') (auto simp: stored_entry_iff agrees_def)
qed

lemma entry_for_stored:
  assumes "pg_inv cr db s" "stored_entry cr db s k e"
  shows "fst (entry_for cr db (\<lambda>_. None) k t s) = (if m_tenant_id (pe_meta e) = t then Inr e else Inl (KeyNotFound (Id k)))"
proof (cases "get_cloned (pg_keys s) k")
  case None
  with assms(2) show ?thesis by (simp add: entry_for_def stored_entry_def)
next
  case (Some e')
  with stored_entry_cached [OF assms] show ?thesis by (simp add: entry_for_def)
qed

lemma then_st_lookup:
  assumes "pg_inv cr db s" "stored_entry cr db s k e" "m_tenant_id (pe_meta e) = t"
  obtains s' where "entry_for cr db (\<lambda>_. None) k t s = (Inr e, s')" "pg_repo s' = pg_repo s" "pg_kek s' = pg_kek s"
  using entry_for_stored [OF assms(1,2), of t] assms(3) entry_for_unchanged [of cr db "\<lambda>_. None" k t s]
  by (cases "entry_for cr db (\<lambda>_. None) k t s") simp

lemma then_st_refused:
  assumes "pg_inv cr db s" "stored_entry cr db s k e" "m_tenant_id (pe_meta e) \<noteq> t"
  shows "fst (then_st (entry_for cr db (\<lambda>_. None) k t s) g) = Inl (KeyNotFound (Id k))"
  using entry_for_stored [OF assms(1,2), of t] assms(3)
  by (cases "entry_for cr db (\<lambda>_. None) k t s"; cases "fst (entry_for cr db (\<lambda>_. None) k t s)") auto

text \<open>A continuation that looks only at the entry, the tables and the key encryption key.\<close>

lemma lookup_transparent:
  assumes "pg_inv cr db s" "pg_inv cr db s0" "stored_entry cr db s k e" "pg_repo s0 = pg_repo s" "pg_kek s0 = pg_kek s"
    and "\<And>x s s'. pg_repo s = pg_repo s' \<Longrightarrow> pg_kek s = pg_kek s' \<Longrightarrow> fst (g x s) = fst (g x s')"
  shows "fst (then_st (entry_for cr db (\<lambda>_. None) k t s0) g) = fst (then_st (entry_for cr db (\<lambda>_. None) k t s) g)"
proof -
  have 0: "stored_entry cr db s0 k e"
    using assms(3-5) by (simp add: stored_entry_iff)
  show ?thesis
  proof (cases "m_tenant_id (pe_meta e) = t")
    case True
    obtain s1 where s1: "entry_for cr db (\<lambda>_. None) k t s = (Inr e, s1)" "pg_repo s1 = pg_repo s" "pg_kek s1 = pg_kek s"
      by (rule then_st_lookup [OF assms(1,3) True])
    obtain s2 where "entry_for cr db (\<lambda>_. None) k t s0 = (Inr e, s2)" "pg_repo s2 = pg_repo s0" "pg_kek s2 = pg_kek s0"
      by (rule then_st_lookup [OF assms(2) 0 True])
    with s1 assms(4,5) assms(6) [of s2 s1 e] show ?thesis by simp
  next
    case False
    then show ?thesis
      using then_st_refused [OF assms(1,3) False, of g] then_st_refused [OF assms(2) 0 False, of g] by simp
  qed
qed

text \<open>
  C8. Whether a key is in the cache makes no difference to what the keystore answers, as long as keys are
  generated and imported with specifications the database returns and no rotation is interrupted after it has
  stored the new key (\<open>pg_admissible\<close>): in every state reached like this, for a key whose row and material are
  in the database, encryption, decryption, signing, verification, export and reading of material return what
  they return with an empty cache of any capacity over the same database. Keys of the other specifications,
  P-384, Ed448, SM3-HMAC and SM9, do answer differently: they come back from the database as AES keys.
\<close>

theorem pg_cache_transparent:
  assumes "pg_reach cr db kek s" "kek_ok cr kek" "db_sorts db" "stored_entry cr db s k e"
  shows "fst (pg_encrypt cr db (\<lambda>_. None) r g k pt aad t (pg_restart cap s)) = fst (pg_encrypt cr db (\<lambda>_. None) r g k pt aad t s)
    \<and> fst (pg_decrypt cr db (\<lambda>_. None) k c aad t (pg_restart cap s)) = fst (pg_decrypt cr db (\<lambda>_. None) k c aad t s)
    \<and> fst (pg_sign cr db (\<lambda>_. None) g k d t (pg_restart cap s)) = fst (pg_sign cr db (\<lambda>_. None) g k d t s)
    \<and> fst (pg_verify cr db (\<lambda>_. None) k d sg t (pg_restart cap s)) = fst (pg_verify cr db (\<lambda>_. None) k d sg t s)
    \<and> fst (pg_export_key_material cr db (\<lambda>_. None) k t (pg_restart cap s)) = fst (pg_export_key_material cr db (\<lambda>_. None) k t s)
    \<and> fst (pg_get_key_material_version cr db (\<lambda>_. None) k v t (pg_restart cap s))
        = fst (pg_get_key_material_version cr db (\<lambda>_. None) k v t s)"
proof -
  have inv: "pg_inv cr db s"
    using pg_reach_inv [OF assms(1-3)] by simp
  then have "pg_inv cr db (pg_restart cap s)"
    by (simp add: pg_inv_def)
  note transparent = lookup_transparent [OF inv this assms(4)]
  show ?thesis
    unfolding pg_encrypt_def pg_decrypt_def pg_sign_def pg_verify_def pg_export_key_material_def pg_get_key_material_version_def
    by (intro conjI transparent)
      (simp_all add: then_st_def material_for_version_def get_key_version_def split: sum.splits)
qed

section \<open>Stored keys over a run\<close>

lemma repo_insert_live:
  assumes "m_id meta \<noteq> k" "live_row tb k = Some r"
  shows "live_row (snd (repo_insert db fault meta tb)) k = Some r"
  using assms by (cases fault) (auto simp: repo_insert_def live_row_insert dest: live_row_SomeD)

text \<open>What the statements of an admissible call do to the live row of another key, or of a key they mark.\<close>

definition row_kept :: "'j key_row \<Rightarrow> 'j key_row option \<Rightarrow> bool" where
  "row_kept r r' \<longleftrightarrow> (\<exists>st \<in> {kr_status r, ''Obsolete''}. r' = Some (r\<lparr>kr_status := st\<rparr>))"

lemma row_kept_refl [simp]: "row_kept r (Some r)"
  by (auto simp: row_kept_def intro: bexI [of _ "kr_status r"])

lemma row_kept_trans: "row_kept r (Some r') \<Longrightarrow> row_kept r' r'' \<Longrightarrow> row_kept r r''"
  by (auto simp: row_kept_def)

definition keeps_row :: "uuid \<Rightarrow> ('j tables \<Rightarrow> ('e + 'a) \<times> 'j tables) \<Rightarrow> bool" where
  "keeps_row k stmt \<longleftrightarrow> (\<forall>tb r. live_row tb k = Some r \<longrightarrow> row_kept r (live_row (snd (stmt tb)) k))"

lemma row_kept_obsolete [simp]: "row_kept r (Some (r\<lparr>kr_status := ''Obsolete''\<rparr>))"
  by (auto simp: row_kept_def)

lemma live_row_versions [simp]: "live_row (tb\<lparr>tb_versions := vs\<rparr>) k = live_row tb k"
  by (simp add: live_row_def)

lemma keeps_row_statements:
  "i \<noteq> k \<Longrightarrow> keeps_row k (update_encrypted_material fault i enc)"
  "keeps_row k (update_status fault i Obsolete)"
  "i \<noteq> k \<Longrightarrow> keeps_row k (soft_delete fault now i b)"
  "keeps_row k (insert_version db fault vi now i v dek st)"
  "keeps_row k (update_version_rotated_at db fault now i v)"
  unfolding keeps_row_def
  by (cases fault; simp add: update_encrypted_material_def update_status_def soft_delete_def insert_version_def
        update_version_rotated_at_def live_row_material live_row_status live_row_delete)+

lemma keeps_row_insert: "m_id meta \<noteq> k \<Longrightarrow> keeps_row k (repo_insert db fault meta)"
  by (simp add: keeps_row_def repo_insert_live)

text \<open>Chains of statements on the repository.\<close>

definition pg_keeps_row :: "uuid \<Rightarrow> 'j key_row \<Rightarrow> ('e + 'a) \<times> 'j pg_keystore \<Rightarrow> bool" where
  "pg_keeps_row k r x \<longleftrightarrow> row_kept r (live_row (pg_repo (snd x)) k)"

lemma pg_keeps_then:
  assumes "pg_keeps_row k r x" "\<And>y s r'. x = (Inr y, s) \<Longrightarrow> live_row (pg_repo s) k = Some r' \<Longrightarrow> pg_keeps_row k r' (f y s)"
  shows "pg_keeps_row k r (then_st x f)"
proof (cases "fst x")
  case Inl
  with assms(1) show ?thesis by (cases x) (simp add: pg_keeps_row_def)
next
  case (Inr y)
  with assms(1) obtain r' where r': "live_row (pg_repo (snd x)) k = Some r'" "row_kept r (Some r')"
    by (auto simp: pg_keeps_row_def row_kept_def)
  with Inr assms(2) [of y "snd x" r'] show ?thesis
    by (cases x) (auto simp: pg_keeps_row_def intro: row_kept_trans)
qed

lemma pg_keeps_on_repo: "keeps_row k stmt \<Longrightarrow> live_row (pg_repo s) k = Some r \<Longrightarrow> pg_keeps_row k r (on_repo stmt s)"
  by (auto simp: pg_keeps_row_def keeps_row_def on_repo_def split: prod.splits) (metis snd_conv)

lemma pg_keeps_same: "live_row (pg_repo s) k = Some r \<Longrightarrow> pg_keeps_row k r (x, s)"
  by (simp add: pg_keeps_row_def)

lemma pg_keeps_entry_for: "live_row (pg_repo s) k = Some r \<Longrightarrow> pg_keeps_row k r (entry_for cr db fl i t s)"
  by (simp add: pg_keeps_row_def)

definition not_deleting :: "uuid \<Rightarrow> pg_call \<Rightarrow> bool" where
  "not_deleting k c \<longleftrightarrow> (case c of PgDelete _ _ k' _ \<Rightarrow> k' \<noteq> k | _ \<Rightarrow> True)"

lemma pg_step_keeps_row:
  assumes "pg_admissible db c s" "not_deleting k c" "live_row (pg_repo s) k = Some r"
  shows "row_kept r (live_row (pg_repo (pg_step cr db c s)) k)"
proof -
  note keep = pg_keeps_then pg_keeps_on_repo pg_keeps_same pg_keeps_entry_for keeps_row_statements keeps_row_insert
  have fresh: "i \<noteq> k" if "pg_fresh s i" for i
    using that assms(3) by (auto simp: pg_fresh_def dest: live_row_SomeD)
  show ?thesis
  proof (cases c)
    case (PgGenerate fl rn rn' i now spec name t)
    have "pg_keeps_row k r (pg_generate_key cr db fl rn rn' i now spec name t s)"
      unfolding pg_generate_key_def Let_def using fresh assms(1,3) PgGenerate
      by (intro keep) (auto simp: new_meta_def)
    with PgGenerate show ?thesis by (simp add: pg_keeps_row_def)
  next
    case (PgImport fl rn i now spec name t mat)
    have "pg_keeps_row k r (pg_import_key_material cr db fl rn i now spec name t mat s)"
      unfolding pg_import_key_material_def Let_def using fresh assms(1,3) PgImport
      by (intro keep) (auto simp: new_meta_def)
    with PgImport show ?thesis by (simp add: pg_keeps_row_def)
  next
    case (PgRotate fl rs i vi now k' t)
    with assms(1) fresh have "i \<noteq> k" by simp
    then have "pg_keeps_row k r (pg_rotate_key cr db fl rs i vi now k' t s)"
      unfolding pg_rotate_key_def Let_def using assms(3)
      by (auto intro!: keep split: if_splits)
    with PgRotate show ?thesis by (simp add: pg_keeps_row_def)
  next
    case (PgDelete fl now k' t)
    have "pg_keeps_row k r (pg_delete_key cr db fl now k' t s)"
      unfolding pg_delete_key_def using assms PgDelete
      by (intro keep) (auto simp: not_deleting_def)
    with PgDelete show ?thesis by (simp add: pg_keeps_row_def)
  qed (use assms(3) in \<open>simp_all add: spawn_load_keys_state\<close>)
qed

fun pg_run_ok :: "'kp crypto \<Rightarrow> 'j db_env \<Rightarrow> pg_call list \<Rightarrow> 'j pg_keystore \<Rightarrow> bool" where
  "pg_run_ok cr db [] s \<longleftrightarrow> True"
| "pg_run_ok cr db (c # cs) s \<longleftrightarrow> pg_admissible db c s \<and> pg_run_ok cr db cs (pg_step cr db c s)"

lemma pg_reach_run: "pg_reach cr db kek s \<Longrightarrow> pg_run_ok cr db cs s \<Longrightarrow> pg_reach cr db kek (run_ops (pg_step cr db) cs s)"
  by (induction cs arbitrary: s) (auto intro: pg_next)

lemma pg_run_keeps_row:
  assumes "pg_run_ok cr db cs s" "list_all (not_deleting k) cs" "live_row (pg_repo s) k = Some r"
  shows "row_kept r (live_row (pg_repo (run_ops (pg_step cr db) cs s)) k)"
  using assms
proof (induction cs arbitrary: s r)
  case Nil
  then show ?case by simp
next
  case (Cons c cs)
  then obtain r' where "live_row (pg_repo (pg_step cr db c s)) k = Some r'" "row_kept r (Some r')"
    using pg_step_keeps_row [of db c s k r cr] by (auto simp: row_kept_def)
  with Cons show ?case by (auto intro: row_kept_trans)
qed

lemma row_kept_stored:
  assumes "stored_entry cr db s k e" "\<And>r. live_row (pg_repo s) k = Some r \<Longrightarrow> row_kept r (live_row (pg_repo s') k)" "pg_kek s' = pg_kek s"
  shows "\<exists>st \<in> {m_status (pe_meta e), Obsolete}. stored_entry cr db s' k (e\<lparr>pe_meta := (pe_meta e)\<lparr>m_status := st\<rparr>\<rparr>)"
proof -
  obtain r enc where r: "live_row (pg_repo s) k = Some r" "kr_encrypted_material r = Some enc" "pe_meta e = key_meta_from db r"
    "decrypt_material_static cr (pg_kek s) k enc = Inr (pe_material e)"
    using assms(1) by (auto simp: stored_entry_iff)
  with assms(2) obtain st where "st \<in> {kr_status r, ''Obsolete''}" "live_row (pg_repo s') k = Some (r\<lparr>kr_status := st\<rparr>)"
    unfolding row_kept_def by blast
  with r assms(3) show ?thesis
    by (auto simp: stored_entry_iff key_meta_from_def status_from_str_def)
qed

lemma pg_run_kek [simp]: "pg_kek (run_ops (pg_step cr db) cs s) = pg_kek s"
  by (induction cs arbitrary: s) simp_all

lemma pg_run_stored:
  assumes "pg_run_ok cr db cs s" "list_all (not_deleting k) cs" "stored_entry cr db s k e"
  shows "\<exists>st \<in> {m_status (pe_meta e), Obsolete}.
    stored_entry cr db (run_ops (pg_step cr db) cs s) k (e\<lparr>pe_meta := (pe_meta e)\<lparr>m_status := st\<rparr>\<rparr>)"
  by (rule row_kept_stored [OF assms(3)]) (use pg_run_keeps_row [OF assms(1,2)] in simp_all)

section \<open>Round trips\<close>

lemma crypto_decrypt_encrypt:
  assumes "aead_ok cr" "crypto_encrypt cr r g m sp k t v pt aad = Inr c"
  shows "crypto_decrypt cr m sp c t aad' = Inr pt \<and> ct_version c = v"
  using assms
  by (auto simp: crypto_encrypt_def crypto_decrypt_def pg_encrypt_aead_def pg_stored_aad_def decrypt_sm2_def and_then_Inr
      sys_fill_def Let_def aead_ok_def sm2_parts split: if_splits option.splits)

lemma pg_encrypt_found:
  assumes "pg_inv cr db s" "stored_entry cr db s k e" "pg_encrypt cr db (\<lambda>_. None) r g k pt aad t s = (Inr c, s1)"
  shows "m_tenant_id (pe_meta e) = t \<and> m_status (pe_meta e) = Active \<and> s1 = pg_step cr db (PgUse (\<lambda>_. None) k t) s
    \<and> crypto_encrypt cr r g (pe_material e) (m_spec (pe_meta e)) k t (m_version (pe_meta e)) pt aad = Inr c"
  using assms(3) entry_for_stored [OF assms(1,2), of t]
  by (auto simp: pg_encrypt_def then_st_Inr split: if_splits)

text \<open>
  C15. Data encrypted under a key that is stored in the database can be decrypted by its tenant after any
  further work on the keystore that does not delete the key: rotations, evictions, destruction of the
  cached material, reloads and restarts with the same key encryption key and any cache capacity.
\<close>

theorem pg_old_ciphertexts_decrypt:
  assumes "pg_reach cr db kek s" "kek_ok cr kek" "db_sorts db" "aead_ok cr" "stored_entry cr db s k e"
    and enc: "pg_encrypt cr db (\<lambda>_. None) r g k pt aad t s = (Inr c, s1)"
    and run: "pg_run_ok cr db cs s1" "list_all (not_deleting k) cs"
  shows "fst (pg_decrypt cr db (\<lambda>_. None) k c aad' t (run_ops (pg_step cr db) cs s1)) = Inr pt"
proof -
  have inv: "pg_inv cr db s"
    using pg_reach_inv [OF assms(1-3)] by simp
  note e = pg_encrypt_found [OF inv assms(5) enc]
  let ?s' = "run_ops (pg_step cr db) cs s1"
  have "pg_reach cr db kek s1"
    using pg_next [OF assms(1), of "PgUse (\<lambda>_. None) k t"] e by simp
  then have inv': "pg_inv cr db ?s'"
    using pg_reach_inv [OF pg_reach_run assms(2,3)] run(1) by simp
  have "stored_entry cr db s1 k e"
    using assms(5) e by (simp add: stored_entry_iff)
  from pg_run_stored [OF run this] e obtain st where
    st: "st \<in> {Active, Obsolete}" "stored_entry cr db ?s' k (e\<lparr>pe_meta := (pe_meta e)\<lparr>m_status := st\<rparr>\<rparr>)"
    by auto
  obtain s2 where "entry_for cr db (\<lambda>_. None) k t ?s' = (Inr (e\<lparr>pe_meta := (pe_meta e)\<lparr>m_status := st\<rparr>\<rparr>), s2)"
    by (rule then_st_lookup [OF inv' st(2)]) (use e in auto)
  with st(1) e crypto_decrypt_encrypt [OF assms(4)] show ?thesis
    by (auto simp: pg_decrypt_def can_decrypt_def)
qed

text \<open>
  A stored key decrypts ciphertexts of its own version only: \<open>rotate_key\<close> writes the new material under a
  new identifier, the archive holds no version but the key's own, and a ciphertext that names another
  version is refused. In particular the identifier a rotation returns does not decrypt what was
  encrypted before it.
\<close>

theorem pg_other_version_refused:
  assumes "pg_reach cr db kek s" "kek_ok cr kek" "db_sorts db" "stored_entry cr db s k e"
    "m_tenant_id (pe_meta e) = t" "can_decrypt (m_status (pe_meta e))" "ct_version c \<noteq> m_version (pe_meta e)"
  shows "fst (pg_decrypt cr db (\<lambda>_. None) k c aad t s)
    = Inl (KeyVersionNotFound (Fmt [Id k, Lit '' (version '', Num (unat (ct_version c)), Lit '')'']))"
proof -
  have inv: "pg_inv cr db s"
    using pg_reach_inv [OF assms(1-3)] by simp
  obtain s1 where s1: "entry_for cr db (\<lambda>_. None) k t s = (Inr e, s1)" "pg_repo s1 = pg_repo s"
    by (rule then_st_lookup [OF inv assms(4,5)])
  obtain r where r: "live_row (pg_repo s) k = Some r" "m_version (pe_meta e) = kr_version r"
    using assms(4) by (auto simp: stored_entry_iff key_meta_from_def)
  have "version_row (pg_repo s) k (ct_version c) = None"
  proof (rule ccontr)
    assume "version_row (pg_repo s) k (ct_version c) \<noteq> None"
    then obtain v where "v \<in> set (tb_versions (pg_repo s))" "vr_key_id v = k" "vr_version v = ct_version c"
      by (auto simp: version_row_def find_Some_iff) (metis nth_mem)
    with inv r assms(7) show False
      by (auto simp: pg_inv_def repo_inv_def)
  qed
  with s1 assms(6,7) show ?thesis
    by (simp add: pg_decrypt_def material_for_version_def get_key_version_def get_version_def)
qed

text \<open>
  Destroying a key of the PostgreSQL keystore removes it from the cache only: the next request of its
  tenant reads the key back from the database, material included.
\<close>

theorem pg_destroyed_key_returns:
  assumes "pg_reach cr db kek s" "kek_ok cr kek" "db_sorts db" "stored_entry cr db s k e" "m_tenant_id (pe_meta e) = t"
    "pg_destroy_key k s = (Inr (), s')"
  shows "get_cloned (pg_keys s') k = None \<and> fst (pg_get_key_material cr db (\<lambda>_. None) k t s') = Inr (pe_material e)"
proof -
  have s': "s' = pg_step cr db (PgDestroy k) s"
    using assms(6) by simp
  then have "pg_inv cr db s'"
    using pg_reach_inv [OF pg_next [OF assms(1)] assms(2,3), of "PgDestroy k"] by simp
  moreover have "stored_entry cr db s' k e"
    using assms(4) s' by (simp add: stored_entry_iff)
  ultimately obtain s2 where "entry_for cr db (\<lambda>_. None) k t s' = (Inr e, s2)"
    using assms(5) by (rule then_st_lookup)
  moreover have "get_cloned (pg_keys s') k = None"
    using assms(6) get_remove [of k "pg_keys s" k] by (auto simp: pg_destroy_key_def split: prod.splits option.splits)
  ultimately show ?thesis
    by (simp add: pg_get_key_material_def)
qed

section \<open>Rotating a key twice\<close>

lemma pg_step_stored:
  assumes "pg_admissible db c s" "not_deleting k c" "stored_entry cr db s k e"
  shows "\<exists>st \<in> {m_status (pe_meta e), Obsolete}. stored_entry cr db (pg_step cr db c s) k (e\<lparr>pe_meta := (pe_meta e)\<lparr>m_status := st\<rparr>\<rparr>)"
  by (rule row_kept_stored [OF assms(3)]) (simp_all add: pg_step_keeps_row [OF assms(1,2)])

lemma version_row_upd_id: "(vr_key_id (v\<lparr>vr_rotated_at := a, vr_status := b\<rparr>), vr_version (v\<lparr>vr_rotated_at := a, vr_status := b\<rparr>))
    = (vr_key_id v, vr_version v)"
  by simp

lemma rotate_once:
  assumes "kek_ok cr (pg_kek s)" "pg_inv cr db s" "stored_entry cr db s k e" "m_tenant_id (pe_meta e) = t"
    "pg_fresh s i" "i \<noteq> k" "vi \<notin> vr_id ` set (tb_versions (pg_repo s))"
    "can_rotate (m_status (pe_meta e))" "generate_key_material (rs 0) (m_spec (pe_meta e)) = Inr m" "rs 1 \<noteq> None" "rs 2 \<noteq> None"
  shows "\<exists>enc x s'. pg_rotate_key cr db (\<lambda>_. None) rs i vi now k t s = (x, s')
    \<and> live_row (pg_repo s') i = Some ((row_of_meta db (pg_rotated_meta i now (pe_meta e)))\<lparr>kr_encrypted_material := Some enc\<rparr>)
    \<and> (k, m_version (pe_meta e)) \<in> (\<lambda>v. (vr_key_id v, vr_version v)) ` set (tb_versions (pg_repo s'))
    \<and> (is_ok x \<longleftrightarrow> (k, m_version (pe_meta e)) \<notin> (\<lambda>v. (vr_key_id v, vr_version v)) ` set (tb_versions (pg_repo s)))"
proof -
  let ?meta = "pg_rotated_meta i now (pe_meta e)"
  obtain s1 where s1: "entry_for cr db (\<lambda>_. None) k t s = (Inr e, s1)" "pg_repo s1 = pg_repo s" "pg_kek s1 = pg_kek s"
    by (rule then_st_lookup [OF assms(2-4)])
  obtain r where r: "live_row (pg_repo s) k = Some r" "m_id (pe_meta e) = k"
    using assms(3) live_row_SomeD [of "pg_repo s" k] by (auto simp: stored_entry_iff key_meta_from_def)
  obtain enc where enc: "encrypt_material cr (rs 1) (pg_kek s) i m = Inr enc"
    using assms(10) encrypt_material_Inr [OF assms(1)] by (cases "encrypt_material cr (rs 1) (pg_kek s) i m") auto
  obtain dek where dek: "encrypt_material cr (rs 2) (pg_kek s) k (pe_material e) = Inr dek"
    using assms(11) encrypt_material_Inr [OF assms(1)] by (cases "encrypt_material cr (rs 2) (pg_kek s) k (pe_material e)") auto
  have new: "m_id ?meta \<notin> kr_id ` set (tb_keys (pg_repo s))"
    using assms(5) by (simp add: pg_fresh_def)
  let ?tb = "rotated_tables db ?meta enc k (pg_repo s)"
  have live: "live_row ?tb i = Some ((row_of_meta db ?meta)\<lparr>kr_encrypted_material := Some enc\<rparr>)"
    using live_row_rotated [OF new, of k db enc i] assms(6) by simp
  have k: "k \<in> kr_id ` set (tb_keys ?tb)"
    using r(1) by (auto simp: ids_rotated dest: live_row_SomeD)
  have "(\<lambda>v. (vr_key_id v, vr_version v)) ` set (update_where P (\<lambda>v. v\<lparr>vr_rotated_at := a, vr_status := b\<rparr>) vs)
      = (\<lambda>v. (vr_key_id v, vr_version v)) ` set vs" for P a b and vs :: "key_version_row list"
    using ids_update_where [of "\<lambda>v. (vr_key_id v, vr_version v)" "\<lambda>v. v\<lparr>vr_rotated_at := a, vr_status := b\<rparr>" P vs]
    by (metis (no_types, lifting) list.set_map version_row_upd_id)
  with s1 r(2) enc dek assms(7-9) new live k show ?thesis
    unfolding pg_rotate_key_def Let_def
    by (auto simp: on_repo_def repo_insert_def update_encrypted_material_def update_status_def insert_version_def
      update_version_rotated_at_def rotated_tables_def Let_def)
qed

text \<open>
  An obsolete key passes the check of \<open>rotate_key\<close>, but rotating a key a second time always fails at the
  archived version, after the new key has been written: every attempt leaves one more active key in
  the database that the caller was never told of.
\<close>

theorem pg_second_rotation_orphans:
  assumes "pg_reach cr db kek s" "kek_ok cr kek" "db_sorts db" "stored_entry cr db s k e" "m_tenant_id (pe_meta e) = t"
    and once: "pg_rotate_key cr db (\<lambda>_. None) rs i vi now k t s = (Inr meta, s1)"
      "pg_admissible db (PgRotate (\<lambda>_. None) rs i vi now k t) s" "rs 1 \<noteq> None"
    and twice: "pg_rotate_key cr db (\<lambda>_. None) rs' i' vi' now' k t s1 = (x, s2)"
      "pg_admissible db (PgRotate (\<lambda>_. None) rs' i' vi' now' k t) s1" "rs' 0 \<noteq> None" "rs' 1 \<noteq> None"
  shows "\<not> is_ok x \<and> (\<exists>r. live_row (pg_repo s2) i' = Some r \<and> kr_status r = ''Active'' \<and> kr_encrypted_material r \<noteq> None
    \<and> kr_tenant_id r = t)"
proof -
  have inv: "pg_inv cr db s" "pg_kek s = kek"
    using pg_reach_inv [OF assms(1-3)] by simp_all
  have s1: "s1 = pg_step cr db (PgRotate (\<lambda>_. None) rs i vi now k t) s"
    using once(1) by simp
  have inv1: "pg_inv cr db s1" "pg_kek s1 = kek"
    using pg_reach_inv [OF pg_next [OF assms(1) once(2)] assms(2,3)] s1 by simp_all
  obtain s0 where "entry_for cr db (\<lambda>_. None) k t s = (Inr e, s0)"
    by (rule then_st_lookup [OF inv(1) assms(4,5)])
  with once(1) obtain m where m: "can_rotate (m_status (pe_meta e))" "generate_key_material (rs 0) (m_spec (pe_meta e)) = Inr m"
    by (auto simp: pg_rotate_key_def then_st_Inr split: if_splits)
  have adm: "pg_fresh s i" "i \<noteq> k" "vi \<notin> vr_id ` set (tb_versions (pg_repo s))" "rs 2 \<noteq> None"
    "pg_fresh s1 i'" "i' \<noteq> k" "vi' \<notin> vr_id ` set (tb_versions (pg_repo s1))" "rs' 2 \<noteq> None"
    using once(2) twice(2) by simp_all
  note rotate_once [OF _ inv(1) assms(4,5) adm(1-3) m once(3) adm(4), of now]
  then have dup: "(k, m_version (pe_meta e)) \<in> (\<lambda>v. (vr_key_id v, vr_version v)) ` set (tb_versions (pg_repo s1))"
    using once(1) assms(2) inv(2) by auto
  have "not_deleting k (PgRotate (\<lambda>_. None) rs i vi now k t)"
    by (simp add: not_deleting_def)
  from pg_step_stored [OF once(2) this assms(4)] obtain st where st: "st \<in> {m_status (pe_meta e), Obsolete}"
    "stored_entry cr db s1 k (e\<lparr>pe_meta := (pe_meta e)\<lparr>m_status := st\<rparr>\<rparr>)" (is "stored_entry _ _ _ _ ?e")
    unfolding s1 by blast
  have "can_rotate (m_status (pe_meta ?e))" "m_tenant_id (pe_meta ?e) = t" "m_spec (pe_meta ?e) = m_spec (pe_meta e)"
    "m_version (pe_meta ?e) = m_version (pe_meta e)"
    using st(1) m(1) assms(5) by (auto simp: can_rotate_def)
  moreover from this(3) m(2) twice(3) obtain m' where "generate_key_material (rs' 0) (m_spec (pe_meta ?e)) = Inr m'"
    by (auto simp: generate_key_material_def and_then_Inr sys_fill_def split: option.splits)
  ultimately show ?thesis
    using rotate_once [OF _ inv1(1) st(2) _ adm(5-7) _ _ twice(4) adm(8), of t m' now'] twice(1) dup assms(2) inv1(2)
    by (auto simp: row_of_meta_def)
qed

section \<open>Loading in the foreground and in the background\<close>

lemma spawn_counts:
  "snd (spawn_load_keys_loop cr fl i kek repo metas cache n) \<le> n + length metas"
proof (induction metas arbitrary: i cache n)
  case (Cons meta metas)
  have "snd (spawn_load_keys_loop cr fl (Suc i) kek repo metas c n') \<le> n + length (meta # metas)" if "n' \<le> n + 1" for c n'
    using Cons [of "Suc i" c n'] that by simp
  then show ?case by (simp split: sum.splits option.splits)
qed simp

text \<open>
  Loading the keys in the background is equivalent to loading them in the foreground: for the same
  faults of the database both leave the same cache and the same readiness, both fail exactly when the
  listing fails, and neither stops at a row it cannot read. At most the 100 newest keys are loaded.
\<close>

theorem spawn_load_keys_equivalent:
  "snd (spawn_load_keys cr db fl s) = snd (load_keys cr db fl s)
   \<and> (is_ok (fst (spawn_load_keys cr db fl s)) \<longleftrightarrow> fl 0 = None)
   \<and> (is_ok (fst (load_keys cr db fl s)) \<longleftrightarrow> fl 0 = None)
   \<and> pg_keys_ready (snd (load_keys cr db fl s)) = (fl 0 = None \<or> pg_keys_ready s)
   \<and> (case fst (spawn_load_keys cr db fl s) of Inr n \<Rightarrow> n \<le> 100 | Inl _ \<Rightarrow> True)"
proof -
  have "length metas \<le> 100" if "list_all_tenants db (fl 0) None None (pg_repo s) = Inr metas" for metas
    using that by (auto simp: list_all_tenants_def select_page_def Let_def fetch_def split: option.splits if_splits)
  moreover have "is_ok (list_all_tenants db (fl 0) None None (pg_repo s)) \<longleftrightarrow> fl 0 = None"
    by (cases "fl 0") (simp_all add: list_all_tenants_def select_page_def Let_def)
  moreover have "n \<le> length metas" if "spawn_load_keys_loop cr fl 1 (pg_kek s) (pg_repo s) metas (pg_keys s) 0 = (c, n)" for metas c n
    using spawn_counts [of cr fl 1 "pg_kek s" "pg_repo s" metas "pg_keys s" 0] that by simp
  ultimately show ?thesis
    unfolding spawn_load_keys_state
    by (cases "list_all_tenants db (fl 0) None None (pg_repo s)")
      (auto simp: spawn_load_keys_def load_keys_def split: prod.splits intro: order_trans)
qed
section \<open>Tenants\<close>

text \<open>The keystore would serve the key to the tenant: from the cache, or else from the database.\<close>

definition pg_owned :: "'kp crypto \<Rightarrow> 'j db_env \<Rightarrow> faults \<Rightarrow> 'j pg_keystore \<Rightarrow> uuid \<Rightarrow> string \<Rightarrow> bool" where
  "pg_owned cr db fl s k t \<longleftrightarrow>
     (case get_cloned (pg_keys s) k of
        Some e \<Rightarrow> m_tenant_id (pe_meta e) = t
      | None \<Rightarrow> (case load_entry_from_db cr db fl k s of Inr e \<Rightarrow> m_tenant_id (pe_meta e) = t | Inl _ \<Rightarrow> False))"

interpretation pg_tenant: tenant_guarded "entry_for cr db fl" "pg_owned cr db fl" for cr db fl
proof
  fix s k t assume "\<not> pg_owned cr db fl s k t"
  then show "\<exists>e. entry_for cr db fl k t s = (Inl e, s)"
    by (rule_tac entry_for_cases [of cr db fl k t s]) (auto simp: pg_owned_def)
qed

text \<open>
  A tenant gets nothing of another tenant's keys: every operation on a key the tenant does not own
  returns an error and leaves the keystore as it was, the cache included; when the key is another
  tenant's, the error is the one for a key that does not exist.
\<close>

theorem pg_tenant_isolation:
  assumes "\<not> pg_owned cr db fl s k t"
  shows "(\<exists>e. pg_encrypt cr db fl r g k pt aad t s = (Inl e, s))
    \<and> (\<exists>e. pg_decrypt cr db fl k c aad t s = (Inl e, s))
    \<and> (\<exists>e. pg_sign cr db fl g k d t s = (Inl e, s))
    \<and> (\<exists>e. pg_verify cr db fl k d sg t s = (Inl e, s))
    \<and> (\<exists>e. pg_rotate_key cr db fl rs i vi now k t s = (Inl e, s))
    \<and> (\<exists>e. pg_delete_key cr db fl now k t s = (Inl e, s))
    \<and> (\<exists>e. pg_export_key_material cr db fl k t s = (Inl e, s))
    \<and> (\<exists>e. pg_get_key_material cr db fl k t s = (Inl e, s))
    \<and> (\<exists>e. pg_get_key_material_version cr db fl k v t s = (Inl e, s))
    \<and> (\<exists>e. pg_derive_shared_secret cr db fl g k pk alg t s = (Inl e, s))
    \<and> (get_cloned (pg_keys s) k \<noteq> None \<longrightarrow> pg_get_key_material cr db fl k t s = (Inl (KeyNotFound (Id k)), s))"
  unfolding pg_encrypt_def pg_decrypt_def pg_sign_def pg_verify_def pg_rotate_key_def pg_delete_key_def
    pg_export_key_material_def pg_get_key_material_def pg_get_key_material_version_def pg_derive_shared_secret_def
  using assms by (intro conjI pg_tenant.guarded_foreign) (auto simp: pg_owned_def entry_for_def)

section \<open>The key encryption key\<close>

text \<open>What is relied on of authentication: data sealed with one context do not open with another.\<close>

definition kek_authentic :: "'kp crypto \<Rightarrow> bytes \<Rightarrow> bool" where
  "kek_authentic cr kek \<longleftrightarrow> (\<forall>n a a' p c t. length n = 12 \<and> length a = AAD_V2_LEN \<and> length a' = AAD_V2_LEN \<and> a \<noteq> a'
     \<and> aes_seal cr kek n a p = Inr (c, t) \<longrightarrow> \<not> is_ok (aes_open cr kek n a' (c @ t)))"

lemma kek_wrap_aad_inj: "kek_wrap_aad k = kek_wrap_aad k' \<longleftrightarrow> k = k'"
proof
  assume "kek_wrap_aad k = kek_wrap_aad k'"
  then have "be_bytes 16 (unat k) = be_bytes 16 (unat k')"
    by (simp add: kek_wrap_aad_def build_v2_def del: be_bytes.simps)
  from be_bytes_word_inj [OF this] show "k = k'" by simp
qed simp

lemma length_kek_wrap_aad: "length (kek_wrap_aad k) = AAD_V2_LEN"
  by (simp add: kek_wrap_aad_def length_build_v2)

text \<open>
  C30. Material sealed for the database under the key encryption key opens again for the key it was sealed
  for, and for no other key: the stored material of two rows cannot be exchanged.
\<close>

theorem kek_wrap_roundtrip:
  assumes "kek_ok cr kek" "kek_authentic cr kek" "encrypt_material cr r kek k m = Inr enc"
  shows "decrypt_material_static cr kek k enc = Inr m
    \<and> (\<forall>k'. k' \<noteq> k \<longrightarrow> decrypt_material_static cr kek k' enc = Inl InvalidCiphertext)"
proof (intro conjI allI impI)
  show "decrypt_material_static cr kek k enc = Inr m"
    by (rule decrypt_encrypt_material [OF assms(1,3)])
next
  fix k' assume "k' \<noteq> k"
  obtain g c t where s: "aes_seal cr kek (fill_bytes g 12) (kek_wrap_aad k) m = Inr (c, t)" "enc = fill_bytes g 12 @ c @ t"
    using assms(3) by (auto simp: encrypt_material_def and_then_Inr sys_fill_def split: option.splits)
  then have "\<not> is_ok (aes_open cr kek (fill_bytes g 12) (kek_wrap_aad k') (c @ t))"
    using assms(2) \<open>k' \<noteq> k\<close> kek_wrap_aad_inj [of k k'] length_kek_wrap_aad
    unfolding kek_authentic_def by (metis length_fill_bytes)
  moreover have "\<not> length enc < 12 + 16"
    using decrypt_encrypt_material [OF assms(1,3)] by (auto simp: decrypt_material_static_def)
  moreover have "take (length enc - 28) (drop 12 enc) @ drop (12 + (length enc - 28)) enc = c @ t"
    using s(2) by (metis append_take_drop_id drop_drop add.commute append_eq_conv_conj length_fill_bytes)
  ultimately show "decrypt_material_static cr kek k' enc = Inl InvalidCiphertext"
    using assms(1) s(2)
    by (cases "aes_open cr kek (fill_bytes g 12) (kek_wrap_aad k') (c @ t)")
      (simp_all add: decrypt_material_static_def kek_ok_def Let_def)
qed

section \<open>Examples\<close>

definition demo_kek :: bytes where
  "demo_kek = replicate 32 1"

lemma demo_kek_ok: "kek_ok demo_crypto demo_kek"
  by (auto simp: kek_ok_def demo_crypto_def demo_open_def demo_kek_def)

lemma demo_kek_authentic: "kek_authentic demo_crypto demo_kek"
  by (auto simp: kek_authentic_def demo_crypto_def demo_open_def AAD_V2_LEN_def)

lemma demo_db_sorts: "db_sorts demo_db"
  by (simp add: db_sorts_def demo_db_def)

definition demo_pg_generate :: pg_call where
  "demo_pg_generate = PgGenerate (\<lambda>_. None) (Some (\<lambda>_. 7)) (Some (\<lambda>_. 9)) 5 0 Aes256Gcm ''k'' ''acme''"

definition demo_pg :: "key_metadata pg_keystore" where
  "demo_pg = pg_step demo_crypto demo_db demo_pg_generate (pg_new demo_kek empty_tables)"

definition demo_pg_entry :: pg_entry where
  "demo_pg_entry = \<lparr>pe_meta = new_meta 5 0 Aes256Gcm ''k'' ''acme'' None, pe_material = replicate 32 7\<rparr>"

lemma demo_storable: "storable demo_db (new_meta i now Aes256Gcm name t d)"
  by (simp add: storable_def new_meta_def persisted_specs_def)

lemma demo_pg_reach: "pg_reach demo_crypto demo_db demo_kek demo_pg"
  unfolding demo_pg_def
  by (rule pg_next [OF pg_start]) (simp add: demo_pg_generate_def demo_storable pg_fresh_def pg_new_def empty_tables_def
      bc_new_def get_cloned_def)

lemma demo_encrypt_material:
  "encrypt_material demo_crypto (Some g) demo_kek k m
     = Inr (fill_bytes g 12 @ m @ demo_kek @ fill_bytes g 12 @ kek_wrap_aad k)"
  by (simp add: encrypt_material_def sys_fill_def demo_crypto_def demo_kek_def)

lemma fill_bytes_const: "fill_bytes (\<lambda>_. b) n = replicate n b"
  by (simp add: fill_bytes_def map_replicate_const)

lemma demo_pg_state:
  "demo_pg = \<lparr>pg_keys = insert_with_eviction 5 demo_pg_entry (bc_new None),
     pg_repo = \<lparr>tb_keys = [(row_of_meta demo_db (pe_meta demo_pg_entry))\<lparr>kr_encrypted_material := Some
        (replicate 12 9 @ replicate 32 7 @ demo_kek @ replicate 12 9 @ kek_wrap_aad 5)\<rparr>], tb_versions = []\<rparr>,
     pg_kek = demo_kek, pg_in_memory_cap = None, pg_keys_ready = False\<rparr>"
  by (simp add: demo_pg_def demo_pg_generate_def pg_generate_key_def generate_key_material_def sys_fill_def pg_new_def
      demo_encrypt_material fill_bytes_const cache_insert_def on_repo_def repo_insert_def update_encrypted_material_def
      update_where_def empty_tables_def demo_pg_entry_def Let_def)
    (simp add: live_def row_of_meta_def new_meta_def)

lemma demo_pg_stored: "stored_entry demo_crypto demo_db demo_pg 5 demo_pg_entry"
proof -
  have "decrypt_material_static demo_crypto demo_kek 5
      (replicate 12 9 @ replicate 32 7 @ demo_kek @ replicate 12 9 @ kek_wrap_aad 5) = Inr (replicate 32 7)"
    using decrypt_encrypt_material [OF demo_kek_ok demo_encrypt_material [of "\<lambda>_. 9" 5 "replicate 32 7"]]
    by (simp only: fill_bytes_const)
  moreover have "key_meta_from demo_db ((row_of_meta demo_db (pe_meta demo_pg_entry))\<lparr>kr_encrypted_material := x\<rparr>) = pe_meta demo_pg_entry" for x
    using key_meta_roundtrip [OF demo_storable [of 5 0 "''k''" "''acme''" None]]
    by (simp add: demo_pg_entry_def key_meta_from_def)
  ultimately show ?thesis
    unfolding stored_entry_iff
    by (simp add: demo_pg_state live_row_def live_def)
      (simp add: demo_pg_entry_def row_of_meta_def new_meta_def live_def)
qed

lemma demo_pg_hyps:
  "pg_reach demo_crypto demo_db demo_kek demo_pg" "kek_ok demo_crypto demo_kek" "db_sorts demo_db"
  "stored_entry demo_crypto demo_db demo_pg 5 demo_pg_entry"
  by (fact demo_pg_reach demo_kek_ok demo_db_sorts demo_pg_stored)+

lemma demo_entry_fields [simp]:
  "m_tenant_id (pe_meta demo_pg_entry) = ''acme''" "m_status (pe_meta demo_pg_entry) = Active"
  "m_spec (pe_meta demo_pg_entry) = Aes256Gcm" "m_version (pe_meta demo_pg_entry) = 1"
  "pe_material demo_pg_entry = replicate 32 7"
  by (simp_all add: demo_pg_entry_def)

theorem pg_cache_transparent_witness:
  "fst (pg_export_key_material demo_crypto demo_db (\<lambda>_. None) 5 ''acme'' (pg_restart (Some 0) demo_pg))
     = fst (pg_export_key_material demo_crypto demo_db (\<lambda>_. None) 5 ''acme'' demo_pg)"
  using pg_cache_transparent [OF demo_pg_hyps, where cap = "Some 0" and t = "''acme''"] by blast

theorem pg_destroyed_key_returns_witness:
  "fst (pg_get_key_material demo_crypto demo_db (\<lambda>_. None) 5 ''acme'' (snd (pg_destroy_key 5 demo_pg))) = Inr (replicate 32 7)"
proof -
  have "pg_destroy_key 5 demo_pg = (Inr (), snd (pg_destroy_key 5 demo_pg))"
    by (simp add: demo_pg_state pg_destroy_key_def remove_def insert_with_eviction_def bc_new_def map_insert_def)
  from pg_destroyed_key_returns [OF demo_pg_hyps _ this, of "''acme''"] show ?thesis by simp
qed

theorem pg_other_version_refused_witness:
  "fst (pg_decrypt demo_crypto demo_db (\<lambda>_. None) 5 \<lparr>ct_key_id = 5, ct_version = 2, ct_format_version = 2, ct_nonce = [],
      ct_ciphertext = [], ct_tag = []\<rparr> None ''acme'' demo_pg)
    = Inl (KeyVersionNotFound (Fmt [Id 5, Lit '' (version '', Num 2, Lit '')'']))"
  using pg_other_version_refused [OF demo_pg_hyps, of "''acme''" "\<lparr>ct_key_id = 5, ct_version = 2, ct_format_version = 2,
      ct_nonce = [], ct_ciphertext = [], ct_tag = []\<rparr>"]
  by (simp add: can_decrypt_def)

lemma demo_lookup: "entry_for demo_crypto demo_db (\<lambda>_. None) 5 ''acme'' demo_pg = (Inr demo_pg_entry, demo_pg)"
  by (simp add: entry_for_def demo_pg_state get_cloned_def insert_with_eviction_def bc_new_def map_insert_def)

definition demo_run :: "pg_call list" where
  "demo_run = [PgRestart (Some 0), PgDestroy 5, PgLoadKeys (\<lambda>_. None)]"

theorem pg_old_ciphertexts_decrypt_witness:
  "\<exists>c s1. pg_encrypt demo_crypto demo_db (\<lambda>_. None) (Some (\<lambda>_. 3)) (\<lambda>_. 0) 5 [1, 2] None ''acme'' demo_pg = (Inr c, s1)
    \<and> fst (pg_decrypt demo_crypto demo_db (\<lambda>_. None) 5 c None ''acme'' (run_ops (pg_step demo_crypto demo_db) demo_run s1))
        = Inr [1, 2]"
proof -
  obtain c where c: "pg_encrypt demo_crypto demo_db (\<lambda>_. None) (Some (\<lambda>_. 3)) (\<lambda>_. 0) 5 [1, 2] None ''acme'' demo_pg = (Inr c, demo_pg)"
    by (simp add: pg_encrypt_def demo_lookup crypto_encrypt_def pg_encrypt_aead_def sys_fill_def) (simp add: demo_crypto_def)
  have "pg_run_ok demo_crypto demo_db demo_run demo_pg" "list_all (not_deleting 5) demo_run"
    by (simp_all add: demo_run_def not_deleting_def)
  from pg_old_ciphertexts_decrypt [OF demo_pg_hyps(1-3) demo_aead_ok demo_pg_hyps(4) c this] c show ?thesis by blast
qed

definition demo_rngs :: "nat \<Rightarrow> sys_rng" where
  "demo_rngs i = Some (\<lambda>_. 4)"

theorem pg_second_rotation_orphans_witness:
  "\<exists>meta s1 x s2. pg_rotate_key demo_crypto demo_db (\<lambda>_. None) demo_rngs 6 1 3 5 ''acme'' demo_pg = (Inr meta, s1)
    \<and> pg_rotate_key demo_crypto demo_db (\<lambda>_. None) demo_rngs 8 2 4 5 ''acme'' s1 = (x, s2) \<and> \<not> is_ok x"
proof -
  have inv: "pg_inv demo_crypto demo_db demo_pg" "pg_kek demo_pg = demo_kek"
    using pg_reach_inv [OF demo_pg_hyps(1-3)] by simp_all
  have gen: "generate_key_material (demo_rngs 0) Aes256Gcm = Inr (replicate 32 4)"
    by (simp add: generate_key_material_def demo_rngs_def sys_fill_def fill_bytes_const)
  have fresh: "pg_fresh demo_pg 6" "tb_versions (pg_repo demo_pg) = []"
    by (simp_all add: pg_fresh_def demo_pg_state get_cloned_def insert_with_eviction_def bc_new_def map_insert_def
        row_of_meta_def) (simp add: demo_pg_entry_def new_meta_def)
  obtain x s1 where r: "pg_rotate_key demo_crypto demo_db (\<lambda>_. None) demo_rngs 6 1 3 5 ''acme'' demo_pg = (x, s1)"
    by (cases "pg_rotate_key demo_crypto demo_db (\<lambda>_. None) demo_rngs 6 1 3 5 ''acme'' demo_pg")
  moreover have "is_ok x"
    using rotate_once [of demo_crypto demo_pg demo_db 5 demo_pg_entry "''acme''" 6 1 demo_rngs "replicate 32 4" 3]
      demo_kek_ok inv demo_pg_stored gen fresh r
    by (simp add: can_rotate_def demo_rngs_def)
  then obtain meta where "x = Inr meta"
    by (auto simp: is_ok_iff)
  moreover have adm: "pg_admissible demo_db (PgRotate (\<lambda>_. None) demo_rngs 6 1 3 5 ''acme'') demo_pg"
    using fresh by (simp add: demo_rngs_def)
  moreover have "kr_id ` set (tb_keys (pg_repo s1)) = {5, 6}" "vr_id ` set (tb_versions (pg_repo s1)) = {1}"
    "get_cloned (pg_keys s1) 8 = None"
    using arg_cong [OF r, of snd, symmetric] unfolding pg_rotate_key_def demo_lookup then_st_simps
    by (simp_all add: can_rotate_def demo_rngs_def generate_key_material_def sys_fill_def
        demo_encrypt_material fill_bytes_const on_repo_def repo_insert_def update_encrypted_material_def update_status_def
        insert_version_def update_version_rotated_at_def update_where_def cache_insert_def cache_status_def demo_pg_state
        get_cloned_def insert_with_eviction_def bc_new_def map_insert_def set_entry_def mutate_def update_entry_def Let_def
        row_of_meta_def live_def)
      (simp_all add: demo_pg_entry_def new_meta_def)
  then have "pg_admissible demo_db (PgRotate (\<lambda>_. None) demo_rngs 8 2 4 5 ''acme'') s1"
    by (simp add: pg_fresh_def demo_rngs_def)
  ultimately show ?thesis
    using pg_second_rotation_orphans [OF demo_pg_hyps, of "''acme''" demo_rngs 6 1 3 meta s1 demo_rngs 8 2 4]
    by (simp add: demo_rngs_def) (metis surj_pair)
qed

theorem pg_tenant_isolation_witness:
  "\<exists>e. pg_export_key_material demo_crypto demo_db (\<lambda>_. None) 5 ''globex'' demo_pg = (Inl e, demo_pg)"
proof -
  have "\<not> pg_owned demo_crypto demo_db (\<lambda>_. None) demo_pg 5 ''globex''"
    by (simp add: pg_owned_def demo_pg_state get_cloned_def insert_with_eviction_def bc_new_def map_insert_def)
  from pg_tenant_isolation [OF this] show ?thesis by blast
qed

theorem kek_wrap_roundtrip_witness:
  "\<exists>enc. encrypt_material demo_crypto (Some (\<lambda>_. 9)) demo_kek 5 [1, 2] = Inr enc
    \<and> decrypt_material_static demo_crypto demo_kek 5 enc = Inr [1, 2]
    \<and> decrypt_material_static demo_crypto demo_kek 6 enc = Inl InvalidCiphertext"
  using kek_wrap_roundtrip [OF demo_kek_ok demo_kek_authentic demo_encrypt_material [of "\<lambda>_. 9" 5 "[1, 2]"]]
  by (simp add: demo_encrypt_material)

end
