(* ===== verification/Backend.thy ===== *)
theory Backend
  imports Postgres_Properties
begin

text \<open>
  The trait \<open>KeystoreBackend\<close>, \<^verbatim>\<open>crates/kms-keystore/src/backend.rs\<close>, as a record of operations: what the
  services call through \<open>Arc<dyn KeystoreBackend>\<close>. An operation takes the inputs of the environment for
  the call (random sources, fresh identifiers, the clock, faults of the database), which are of a type
  of the backend. The software keystore and the PostgreSQL keystore are the two instances, and the
  contract the services rely on is the locale \<open>keystore_contract\<close>.
\<close>

record ('n, 's) backend =
  be_generate_key :: "'n \<Rightarrow> key_spec \<Rightarrow> string \<Rightarrow> string \<Rightarrow> 's \<Rightarrow> (kms_error + key_meta) \<times> 's"
  be_get_key_metadata :: "'n \<Rightarrow> uuid \<Rightarrow> 's \<Rightarrow> (kms_error + key_meta) \<times> 's"
  be_encrypt :: "'n \<Rightarrow> uuid \<Rightarrow> bytes \<Rightarrow> bytes option \<Rightarrow> string \<Rightarrow> 's \<Rightarrow> (kms_error + ciphertext) \<times> 's"
  be_decrypt :: "'n \<Rightarrow> uuid \<Rightarrow> ciphertext \<Rightarrow> bytes option \<Rightarrow> string \<Rightarrow> 's \<Rightarrow> (kms_error + bytes) \<times> 's"
  be_sign :: "'n \<Rightarrow> uuid \<Rightarrow> bytes \<Rightarrow> string \<Rightarrow> 's \<Rightarrow> (kms_error + signature) \<times> 's"
  be_verify :: "'n \<Rightarrow> uuid \<Rightarrow> bytes \<Rightarrow> signature \<Rightarrow> string \<Rightarrow> 's \<Rightarrow> (kms_error + bool) \<times> 's"
  be_rotate_key :: "'n \<Rightarrow> uuid \<Rightarrow> string \<Rightarrow> 's \<Rightarrow> (kms_error + key_meta) \<times> 's"
  be_delete_key :: "'n \<Rightarrow> uuid \<Rightarrow> string \<Rightarrow> 's \<Rightarrow> (kms_error + unit) \<times> 's"
  be_list_keys :: "'n \<Rightarrow> key_filter \<Rightarrow> 's \<Rightarrow> (kms_error + key_meta list) \<times> 's"
  be_import_key_material :: "'n \<Rightarrow> key_spec \<Rightarrow> string \<Rightarrow> string \<Rightarrow> bytes \<Rightarrow> 's \<Rightarrow> (kms_error + key_meta) \<times> 's"
  be_export_key_material :: "'n \<Rightarrow> uuid \<Rightarrow> string \<Rightarrow> 's \<Rightarrow> (kms_error + bytes) \<times> 's"
  be_get_key_material :: "'n \<Rightarrow> uuid \<Rightarrow> string \<Rightarrow> 's \<Rightarrow> (kms_error + bytes) \<times> 's"
  be_get_key_material_version :: "'n \<Rightarrow> uuid \<Rightarrow> u32 \<Rightarrow> string \<Rightarrow> 's \<Rightarrow> (kms_error + bytes) \<times> 's"

text \<open>The default of the trait for a version, which both keystores override.\<close>

definition default_get_key_material_version ::
  "('n, 's) backend \<Rightarrow> 'n \<Rightarrow> uuid \<Rightarrow> u32 \<Rightarrow> string \<Rightarrow> 's \<Rightarrow> (kms_error + bytes) \<times> 's" where
  "default_get_key_material_version b n key_id version tenant_id s =
     then_st (be_get_key_material b n key_id tenant_id s) (\<lambda>material s.
       if version = 0 then (Inr material, s)
       else then_st (be_get_key_metadata b n key_id s) (\<lambda>meta s.
         if m_version meta = version then (Inr material, s)
         else (Inl (KeyVersionNotFound (Fmt [Id key_id, Lit '' (version '', Num (unat version), Lit '')''])), s)))"

section \<open>The software keystore as a backend\<close>

record ks_env =
  kn_rng :: rng
  kn_id :: uuid
  kn_now :: time
  kn_order :: "uuid list"

definition software_backend :: "'kp crypto \<Rightarrow> (ks_env, 's software_keystore) backend" where
  "software_backend cr = \<lparr>
     be_generate_key = (\<lambda>n spec name t s. generate_key cr (kn_rng n) (kn_id n) (kn_now n) spec name t s),
     be_get_key_metadata = (\<lambda>n k s. (get_key_metadata s k, s)),
     be_encrypt = (\<lambda>n k pt aad t s. (encrypt cr (kn_rng n) s k pt aad t, s)),
     be_decrypt = (\<lambda>n k c aad t s. (decrypt cr s k c aad t, s)),
     be_sign = (\<lambda>n k d t s. (sign cr (kn_rng n) s k d t, s)),
     be_verify = (\<lambda>n k d sg t s. (verify cr s k d sg t, s)),
     be_rotate_key = (\<lambda>n k t s. rotate_key cr (kn_rng n) (kn_now n) k t s),
     be_delete_key = (\<lambda>n k t s. delete_key k t s),
     be_list_keys = (\<lambda>n f s. (list_keys (kn_order n) s f, s)),
     be_import_key_material = (\<lambda>n spec name t m s. import_key_material (kn_id n) (kn_now n) spec name t m s),
     be_export_key_material = (\<lambda>n k t s. (export_key_material s k t, s)),
     be_get_key_material = (\<lambda>n k t s. (get_key_material s k t, s)),
     be_get_key_material_version = (\<lambda>n k v t s. (get_key_material_version s k v t, s))\<rparr>"

section \<open>The PostgreSQL keystore as a backend\<close>

record pg_env =
  pn_faults :: faults
  pn_rngs :: "nat \<Rightarrow> sys_rng"
  pn_sm2_rng :: rng
  pn_id :: uuid
  pn_version_id :: uuid
  pn_now :: time

definition pg_backend :: "'kp crypto \<Rightarrow> 'j db_env \<Rightarrow> (pg_env, 'j pg_keystore) backend" where
  "pg_backend cr db = \<lparr>
     be_generate_key = (\<lambda>n spec name t s.
        pg_generate_key cr db (pn_faults n) (pn_rngs n 0) (pn_rngs n 1) (pn_id n) (pn_now n) spec name t s),
     be_get_key_metadata = (\<lambda>n k s. (pg_get_key_metadata db (pn_faults n) k s, s)),
     be_encrypt = (\<lambda>n k pt aad t s. pg_encrypt cr db (pn_faults n) (pn_rngs n 0) (pn_sm2_rng n) k pt aad t s),
     be_decrypt = (\<lambda>n k c aad t s. pg_decrypt cr db (pn_faults n) k c aad t s),
     be_sign = (\<lambda>n k d t s. pg_sign cr db (pn_faults n) (pn_sm2_rng n) k d t s),
     be_verify = (\<lambda>n k d sg t s. pg_verify cr db (pn_faults n) k d sg t s),
     be_rotate_key = (\<lambda>n k t s. pg_rotate_key cr db (pn_faults n) (pn_rngs n) (pn_id n) (pn_version_id n) (pn_now n) k t s),
     be_delete_key = (\<lambda>n k t s. pg_delete_key cr db (pn_faults n) (pn_now n) k t s),
     be_list_keys = (\<lambda>n f s. (pg_list_keys db (pn_faults n) f s, s)),
     be_import_key_material = (\<lambda>n spec name t m s.
        pg_import_key_material cr db (pn_faults n) (pn_rngs n 0) (pn_id n) (pn_now n) spec name t m s),
     be_export_key_material = (\<lambda>n k t s. pg_export_key_material cr db (pn_faults n) k t s),
     be_get_key_material = (\<lambda>n k t s. pg_get_key_material cr db (pn_faults n) k t s),
     be_get_key_material_version = (\<lambda>n k v t s. pg_get_key_material_version cr db (pn_faults n) k v t s)\<rparr>"

section \<open>The contract\<close>

text \<open>
  What the services rely on. \<open>served n s k t\<close>: under the environment \<open>n\<close> the keystore serves the key to the
  tenant; \<open>sane n\<close>: the environment does not fail. Reading metadata changes nothing and, in a sane
  environment, fails in one way only; an operation for a tenant the key is not served to fails and
  changes nothing.
\<close>

locale keystore_contract =
  fixes b :: "('n, 's) backend"
    and served :: "'n \<Rightarrow> 's \<Rightarrow> uuid \<Rightarrow> string \<Rightarrow> bool"
    and sane :: "'n \<Rightarrow> bool"
  assumes metadata_state: "snd (be_get_key_metadata b n k s) = s"
    and metadata_error: "sane n \<Longrightarrow> fst (be_get_key_metadata b n k s) = Inl e \<Longrightarrow> e = KeyNotFound (Id k)"
    and encrypt_foreign: "\<not> served n s k t \<Longrightarrow> \<exists>e. be_encrypt b n k pt aad t s = (Inl e, s)"
    and decrypt_foreign: "\<not> served n s k t \<Longrightarrow> \<exists>e. be_decrypt b n k c aad t s = (Inl e, s)"
    and sign_foreign: "\<not> served n s k t \<Longrightarrow> \<exists>e. be_sign b n k d t s = (Inl e, s)"
    and verify_foreign: "\<not> served n s k t \<Longrightarrow> \<exists>e. be_verify b n k d sg t s = (Inl e, s)"
    and rotate_foreign: "\<not> served n s k t \<Longrightarrow> \<exists>e. be_rotate_key b n k t s = (Inl e, s)"
    and delete_foreign: "\<not> served n s k t \<Longrightarrow> \<exists>e. be_delete_key b n k t s = (Inl e, s)"
    and export_foreign: "\<not> served n s k t \<Longrightarrow> \<exists>e. be_export_key_material b n k t s = (Inl e, s)"
    and material_foreign: "\<not> served n s k t \<Longrightarrow> \<exists>e. be_get_key_material b n k t s = (Inl e, s)"
    and version_foreign: "\<not> served n s k t \<Longrightarrow> \<exists>e. be_get_key_material_version b n k v t s = (Inl e, s)"
begin

text \<open>The default of the trait keeps the contract, so a backend that does not override it does too.\<close>

lemma default_version_foreign:
  "\<not> served n s k t \<Longrightarrow> \<exists>e. default_get_key_material_version b n k v t s = (Inl e, s)"
  using material_foreign [of n s k t] by (auto simp: default_get_key_material_version_def)

lemma default_version_current:
  assumes "default_get_key_material_version b n k v t s = (Inr m, s')" "v \<noteq> 0"
  shows "\<exists>meta s1. be_get_key_metadata b n k s1 = (Inr meta, s') \<and> m_version meta = v \<and> be_get_key_material b n k t s = (Inr m, s1)"
  using assms by (auto simp: default_get_key_material_version_def then_st_def split: prod.splits sum.splits if_splits)

end

interpretation sb: keystore_contract "software_backend cr" "\<lambda>n s k t. owned s k t" "\<lambda>n. True" for cr
proof
  fix n k s e
  assume "fst (be_get_key_metadata (software_backend cr) n k s) = Inl e"
  then show "e = KeyNotFound (Id k)"
    by (auto simp: software_backend_def get_key_metadata_def ok_or_def split: option.splits)
qed (auto simp: software_backend_def encrypt_def decrypt_def sign_def verify_def rotate_key_def delete_key_def
    export_key_material_def get_key_material_def get_key_material_version_def)

interpretation pb: keystore_contract "pg_backend cr db" "\<lambda>n. pg_owned cr db (pn_faults n)" "\<lambda>n. pn_faults n 0 = None" for cr db
proof
  fix n k s e
  assume "pn_faults n 0 = None" "fst (be_get_key_metadata (pg_backend cr db) n k s) = Inl e"
  then show "e = KeyNotFound (Id k)"
    by (auto simp: pg_backend_def pg_get_key_metadata_def find_by_id_def fetch_def ok_or_def split: option.splits)
qed (auto simp: pg_backend_def pg_encrypt_def pg_decrypt_def pg_sign_def pg_verify_def pg_rotate_key_def pg_delete_key_def
    pg_export_key_material_def pg_get_key_material_def pg_get_key_material_version_def intro: pg_tenant.guarded_foreign)

end
