(* ===== verification/Limits.thy ===== *)
theory Limits
  imports Kms_Types Glob
begin

text \<open>
  Limits counted in Redis: the rate limiters of \<^verbatim>\<open>crates/kms-keystore/src/rate_limiter.rs\<close> and
  \<^verbatim>\<open>crates/kms-api/src/ratelimit.rs\<close>, the quotas of \<^verbatim>\<open>crates/kms-api/src/quota.rs\<close> and the operation counter
  of \<^verbatim>\<open>crates/kms-api/src/rotation.rs\<close>. Redis is another program: its commands are the fields of the
  record \<open>redis\<close> over a state of any type, and what a theorem relies on of them is one of its
  hypotheses (\<open>redis_counts\<close>, with the passing of time and timeouts, and \<open>redis_zsets\<close>).
\<close>

section \<open>Commands\<close>

text \<open>
  A failing command carries the text of its error; \<open>rd_get\<close> of a missing key is one, since nil does not
  convert to an integer. Scores of sorted sets are integers here, the \<open>f64\<close> of a time in seconds.
\<close>

record 'r redis =
  rd_incr :: "string \<Rightarrow> 'r \<Rightarrow> (string + u64) \<times> 'r"
  rd_decr :: "string \<Rightarrow> 'r \<Rightarrow> (string + u64) \<times> 'r"
  rd_expire :: "string \<Rightarrow> int \<Rightarrow> 'r \<Rightarrow> (string + unit) \<times> 'r"
  rd_pexpire :: "string \<Rightarrow> int \<Rightarrow> 'r \<Rightarrow> (string + unit) \<times> 'r"
  rd_ttl :: "string \<Rightarrow> 'r \<Rightarrow> string + int"
  rd_pttl :: "string \<Rightarrow> 'r \<Rightarrow> string + int"
  rd_get :: "string \<Rightarrow> 'r \<Rightarrow> string + u64"
  rd_get_opt :: "string \<Rightarrow> 'r \<Rightarrow> string + u64 option"
  rd_set :: "string \<Rightarrow> u64 \<Rightarrow> 'r \<Rightarrow> (string + unit) \<times> 'r"
  rd_del :: "string \<Rightarrow> 'r \<Rightarrow> (string + unit) \<times> 'r"
  rd_zrembyscore :: "string \<Rightarrow> int \<Rightarrow> int \<Rightarrow> 'r \<Rightarrow> (string + unit) \<times> 'r"
  rd_zcard :: "string \<Rightarrow> 'r \<Rightarrow> string + u64"
  rd_zadd :: "string \<Rightarrow> string \<Rightarrow> int \<Rightarrow> 'r \<Rightarrow> (string + unit) \<times> 'r"

text \<open>\<open>map_err(|e| Error::Internal(e.to_string()))\<close> on the result of a command.\<close>

definition or_internal :: "(string + 'a) \<times> 'r \<Rightarrow> (kms_error + 'a) \<times> 'r" where
  "or_internal x = (map_err (\<lambda>e. Internal (Str e)) (fst x), snd x)"

text \<open>Decimal digits of a number, as \<open>format!\<close> writes it.\<close>

fun dec :: "nat \<Rightarrow> string" where
  "dec n = (if n < 10 then [char_of (48 + n)] else dec (n div 10) @ [char_of (48 + n mod 10)])"

declare dec.simps [simp del]

definition saturating_sub :: "u64 \<Rightarrow> u64 \<Rightarrow> u64" where
  "saturating_sub a b = (if b \<le> a then a - b else 0)"

section \<open>The rate limiter of the keystore crate\<close>

record rl_config =
  rl_max_requests :: u64
  rl_window_secs :: u64
  rl_sliding_window :: bool

definition rl_config_default :: rl_config where
  "rl_config_default = \<lparr>rl_max_requests = 1000, rl_window_secs = 60, rl_sliding_window = True\<rparr>"

record rl_result =
  rr_allowed :: bool
  rr_current :: u64
  rr_limit :: u64
  rr_remaining :: u64
  rr_reset_at :: u64
  rr_retry_after_secs :: "u64 option"

definition rl_allowed :: "u64 \<Rightarrow> u64 \<Rightarrow> u64 \<Rightarrow> rl_result" where
  "rl_allowed current limit reset_at =
     \<lparr>rr_allowed = True, rr_current = current, rr_limit = limit, rr_remaining = saturating_sub limit current,
      rr_reset_at = reset_at, rr_retry_after_secs = None\<rparr>"

definition rate_limited :: "u64 \<Rightarrow> u64 \<Rightarrow> u64 \<Rightarrow> u64 \<Rightarrow> rl_result" where
  "rate_limited current limit reset_at retry_after =
     \<lparr>rr_allowed = False, rr_current = current, rr_limit = limit, rr_remaining = 0, rr_reset_at = reset_at,
      rr_retry_after_secs = Some retry_after\<rparr>"

definition rl_key :: "string \<Rightarrow> u64 \<Rightarrow> string" where
  "rl_key tenant_id window = ''rate_limit:'' @ tenant_id @ '':'' @ dec (unat window)"

text \<open>
  The reading of the clock in whole seconds since the epoch, an error before it; dividing by a window of
  zero seconds panics. \<open>request_uuid\<close> is the text of the fresh identifier of the request.
\<close>

definition rl_now :: "rl_config \<Rightarrow> string + u64 \<Rightarrow> kms_error + u64" where
  "rl_now cfg clock =
     and_then (map_err (\<lambda>e. Internal (Str e)) clock) (\<lambda>now.
       if rl_window_secs cfg = 0 then Inl (Panicked ''attempt to divide by zero'') else Inr now)"

definition rl_request_id :: "u64 \<Rightarrow> string \<Rightarrow> string" where
  "rl_request_id now request_uuid = dec (unat now) @ '':'' @ request_uuid"

definition check_sliding ::
  "'r redis \<Rightarrow> rl_config \<Rightarrow> u64 \<Rightarrow> string \<Rightarrow> string \<Rightarrow> 'r \<Rightarrow> (kms_error + rl_result) \<times> 'r" where
  "check_sliding rd cfg now request_uuid tenant_id r =
     (let window = now div rl_window_secs cfg;
          window_start = window * rl_window_secs cfg;
          window_end = window_start + rl_window_secs cfg;
          key = rl_key tenant_id window;
          request_id = rl_request_id now request_uuid
      in then_st (or_internal (rd_zrembyscore rd key 0 (sint window_start) r)) (\<lambda>_ r.
         then_st (or_internal (rd_zcard rd key r, r)) (\<lambda>current r.
         if rl_max_requests cfg \<le> current then
           (Inr (rate_limited current (rl_max_requests cfg) window_end (window_end - now)), r)
         else then_st (or_internal (rd_zadd rd key request_id (uint now) r)) (\<lambda>_ r.
              then_st (or_internal (rd_expire rd key (sint (rl_window_secs cfg * 2)) r)) (\<lambda>_ r.
              (Inr (rl_allowed (current + 1) (rl_max_requests cfg) window_end), r))))))"

definition check_fixed ::
  "'r redis \<Rightarrow> rl_config \<Rightarrow> u64 \<Rightarrow> string \<Rightarrow> 'r \<Rightarrow> (kms_error + rl_result) \<times> 'r" where
  "check_fixed rd cfg now tenant_id r =
     (let window = now div rl_window_secs cfg;
          window_end = window * rl_window_secs cfg + rl_window_secs cfg;
          key = rl_key tenant_id window
      in then_st (or_internal (rd_incr rd key r)) (\<lambda>current r.
         then_st (if current = 1 then or_internal (rd_expire rd key (sint (rl_window_secs cfg)) r) else (Inr (), r)) (\<lambda>_ r.
         if rl_max_requests cfg < current then
           (Inr (rate_limited current (rl_max_requests cfg) window_end (window_end - now)), r)
         else (Inr (rl_allowed current (rl_max_requests cfg) window_end), r))))"

definition check_rate_limit ::
  "'r redis \<Rightarrow> rl_config \<Rightarrow> string + u64 \<Rightarrow> string \<Rightarrow> string \<Rightarrow> 'r \<Rightarrow> (kms_error + rl_result) \<times> 'r" where
  "check_rate_limit rd cfg clock request_uuid tenant_id r =
     then_st (rl_now cfg clock, r) (\<lambda>now r.
       if rl_sliding_window cfg then check_sliding rd cfg now request_uuid tenant_id r
       else check_fixed rd cfg now tenant_id r)"

definition rl_get_status ::
  "'r redis \<Rightarrow> rl_config \<Rightarrow> string + u64 \<Rightarrow> string \<Rightarrow> 'r \<Rightarrow> (kms_error + rl_result) \<times> 'r" where
  "rl_get_status rd cfg clock tenant_id r =
     then_st (rl_now cfg clock, r) (\<lambda>now r.
       let window = now div rl_window_secs cfg;
           window_start = window * rl_window_secs cfg;
           window_end = window_start + rl_window_secs cfg;
           key = rl_key tenant_id window;
           status = (\<lambda>current. \<lparr>rr_allowed = current < rl_max_requests cfg, rr_current = current,
             rr_limit = rl_max_requests cfg, rr_remaining = saturating_sub (rl_max_requests cfg) current,
             rr_reset_at = window_end,
             rr_retry_after_secs = (if rl_max_requests cfg \<le> current then Some (window_end - now) else None)\<rparr>)
       in if rl_sliding_window cfg then
            then_st (or_internal (rd_zrembyscore rd key 0 (sint window_start) r)) (\<lambda>_ r.
            then_st (or_internal (rd_zcard rd key r, r)) (\<lambda>current r. (Inr (status current), r)))
          else (Inr (status (case rd_get rd key r of Inr n \<Rightarrow> n | Inl _ \<Rightarrow> 0)), r))"

definition rl_reset :: "'r redis \<Rightarrow> rl_config \<Rightarrow> string + u64 \<Rightarrow> string \<Rightarrow> 'r \<Rightarrow> (kms_error + unit) \<times> 'r" where
  "rl_reset rd cfg clock tenant_id r =
     then_st (rl_now cfg clock, r) (\<lambda>now r.
       or_internal (rd_del rd (rl_key tenant_id (now div rl_window_secs cfg)) r))"

text \<open>The variant for a cluster differs in what it reports when the fixed window is exhausted.\<close>

definition cluster_check_rate_limit ::
  "'r redis \<Rightarrow> rl_config \<Rightarrow> string + u64 \<Rightarrow> string \<Rightarrow> string \<Rightarrow> 'r \<Rightarrow> (kms_error + rl_result) \<times> 'r" where
  "cluster_check_rate_limit rd cfg clock request_uuid tenant_id r =
     then_st (rl_now cfg clock, r) (\<lambda>now r.
       if rl_sliding_window cfg then check_sliding rd cfg now request_uuid tenant_id r
       else
         let window = now div rl_window_secs cfg;
             window_end = window * rl_window_secs cfg + rl_window_secs cfg;
             key = rl_key tenant_id window
         in then_st (or_internal (rd_incr rd key r)) (\<lambda>current r.
            then_st (if current = 1 then or_internal (rd_expire rd key (sint (rl_window_secs cfg)) r) else (Inr (), r)) (\<lambda>_ r.
            if rl_max_requests cfg < current then
              let ttl = (case rd_ttl rd key r of Inr t \<Rightarrow> t | Inl _ \<Rightarrow> 0)
              in (Inr (rate_limited current (rl_max_requests cfg) (now + word_of_int ttl) (word_of_int ttl)), r)
            else (Inr (rl_allowed current (rl_max_requests cfg) window_end), r))))"

section \<open>The rate limiter of the API\<close>

datatype rate_limit_fail_mode = FailOpen | FailClosed

record tenant_rl_config =
  tr_requests_per_second :: u64
  tr_requests_per_minute :: u64
  tr_burst_size :: u64
  tr_fail_mode :: rate_limit_fail_mode

definition tenant_rl_config_default :: tenant_rl_config where
  "tenant_rl_config_default =
     \<lparr>tr_requests_per_second = 100, tr_requests_per_minute = 5000, tr_burst_size = 200, tr_fail_mode = FailClosed\<rparr>"

definition tr_key :: "string \<Rightarrow> u64 \<Rightarrow> string" where
  "tr_key tenant_id now_ms = ''ratelimit:'' @ tenant_id @ '':'' @ dec (unat (now_ms div 1000))"

text \<open>The Lua script, one atomic step: the counter and the time to live in milliseconds.\<close>

definition tr_script :: "'r redis \<Rightarrow> string \<Rightarrow> int \<Rightarrow> 'r \<Rightarrow> (string + u64 \<times> int) \<times> 'r" where
  "tr_script rd window_key window_ms r =
     then_st (rd_incr rd window_key r) (\<lambda>current r.
     then_st (if current = 1 then rd_pexpire rd window_key window_ms r else (Inr (), r)) (\<lambda>_ r.
     then_st (rd_pttl rd window_key r, r) (\<lambda>ttl r.
     (Inr (current, if ttl < 0 then window_ms else ttl), r))))"

text \<open>
  \<open>Err\<close> carries the seconds after which to retry and the time to live in milliseconds. Rounding up
  \<open>ttl_ms as f64 / 1000.0\<close> is exact for the times to live that occur.
\<close>

definition tenant_check ::
  "'r redis \<Rightarrow> tenant_rl_config \<Rightarrow> u64 \<Rightarrow> string \<Rightarrow> 'r \<Rightarrow> (u64 \<times> int + u64) \<times> 'r" where
  "tenant_check rd cfg now_ms tenant_id r =
     (case tr_script rd (tr_key tenant_id now_ms) 1000 r of
        (Inr (current_count, ttl), r) \<Rightarrow>
          if tr_requests_per_second cfg < current_count then
            (Inl (word_of_nat ((unat (word_of_int ttl :: u64) + 999) div 1000), ttl), r)
          else (Inr (tr_requests_per_second cfg - current_count), r)
      | (Inl e, r) \<Rightarrow>
          (case tr_fail_mode cfg of
             FailOpen \<Rightarrow> (Inr (tr_requests_per_second cfg), r)
           | FailClosed \<Rightarrow> (Inl (60, 60000), r)))"

definition tr_get_usage :: "'r redis \<Rightarrow> u64 \<Rightarrow> string \<Rightarrow> 'r \<Rightarrow> string + u64" where
  "tr_get_usage rd now_ms tenant_id r =
     and_then (rd_get_opt rd (tr_key tenant_id now_ms) r) (\<lambda>count. Inr (case count of Some n \<Rightarrow> n | None \<Rightarrow> 0))"

text \<open>The tenant of a request without authentication context: the query parameter, if it is well formed.\<close>

definition ascii_alphanumeric :: "char \<Rightarrow> bool" where
  "ascii_alphanumeric c \<longleftrightarrow>
     (let n = (of_char c :: nat) in (48 \<le> n \<and> n \<le> 57) \<or> (65 \<le> n \<and> n \<le> 90) \<or> (97 \<le> n \<and> n \<le> 122))"

definition valid_tenant :: "string \<Rightarrow> bool" where
  "valid_tenant i \<longleftrightarrow> i \<noteq> [] \<and> length i \<le> 128
     \<and> list_all (\<lambda>c. ascii_alphanumeric c \<or> c = CHR ''-'' \<or> c = CHR ''_'') i"

definition tenant_extraction :: "string option \<Rightarrow> string" where
  "tenant_extraction query =
     (case Option.bind query (\<lambda>q. map_option (drop 10)
             (find (\<lambda>p. starts_with p ''tenant_id='') (split_on (CHR ''&'') q))) of
        Some i \<Rightarrow> if valid_tenant i then i else ''default''
      | None \<Rightarrow> ''default'')"

datatype limiter_response = Unauthorized | TooManyRequestsAfter u64 | NextWithTenant string

definition rate_limit_middleware ::
  "'r redis \<Rightarrow> tenant_rl_config \<Rightarrow> u64 \<Rightarrow> string option \<Rightarrow> 'r \<Rightarrow> limiter_response \<times> 'r" where
  "rate_limit_middleware rd cfg now_ms tenant r =
     (case tenant of
        None \<Rightarrow> (Unauthorized, r)
      | Some tenant_id \<Rightarrow>
          (case tenant_check rd cfg now_ms tenant_id r of
             (Inr _, r) \<Rightarrow> (NextWithTenant tenant_id, r)
           | (Inl (retry_after, _), r) \<Rightarrow> (TooManyRequestsAfter retry_after, r)))"

section \<open>Quotas\<close>

record quota_config =
  qc_max_keys :: u64
  qc_max_requests_per_minute :: u64
  qc_max_requests_per_day :: u64

definition DEFAULT_QUOTA :: quota_config where
  "DEFAULT_QUOTA = \<lparr>qc_max_keys = 1000, qc_max_requests_per_minute = 5000, qc_max_requests_per_day = 1000000\<rparr>"

record quota_exceeded =
  qe_resource :: string
  qe_current :: u64
  qe_limit :: u64

record quota_usage =
  qu_tenant_id :: string
  qu_key_count :: u64
  qu_requests_this_minute :: u64
  qu_requests_today :: u64

datatype quota_error = Exceeded quota_exceeded | Storage string

definition quota_keys_key :: "string \<Rightarrow> string" where
  "quota_keys_key tenant_id = ''quota:'' @ tenant_id @ '':keys''"

definition can_create_key :: "'r redis \<Rightarrow> quota_config \<Rightarrow> string \<Rightarrow> 'r \<Rightarrow> quota_exceeded + bool" where
  "can_create_key rd cfg tenant_id r =
     (let current = (case rd_get rd (quota_keys_key tenant_id) r of Inr n \<Rightarrow> n | Inl _ \<Rightarrow> 0)
      in if qc_max_keys cfg \<le> current then
           Inl \<lparr>qe_resource = ''keys'', qe_current = current, qe_limit = qc_max_keys cfg\<rparr>
         else Inr True)"

definition or_storage :: "(string + 'a) \<times> 'r \<Rightarrow> (quota_error + 'a) \<times> 'r" where
  "or_storage x = (map_err Storage (fst x), snd x)"

definition increment_key_count :: "'r redis \<Rightarrow> string \<Rightarrow> 'r \<Rightarrow> (quota_error + u64) \<times> 'r" where
  "increment_key_count rd tenant_id r =
     then_st (or_storage (rd_incr rd (quota_keys_key tenant_id) r)) (\<lambda>new_count r.
     then_st (or_storage (rd_expire rd (quota_keys_key tenant_id) (60 * 60 * 24 * 30) r)) (\<lambda>_ r.
     (Inr new_count, r)))"

definition decrement_key_count :: "'r redis \<Rightarrow> quota_config \<Rightarrow> string \<Rightarrow> 'r \<Rightarrow> (quota_error + u64) \<times> 'r" where
  "decrement_key_count rd cfg tenant_id r =
     then_st (or_storage (rd_decr rd (quota_keys_key tenant_id) r)) (\<lambda>new_count r.
       if qc_max_keys cfg < new_count then
         then_st (or_storage (rd_set rd (quota_keys_key tenant_id) 0 r)) (\<lambda>_ r. (Inr 0, r))
       else (Inr new_count, r))"

text \<open>\<open>format_time\<close> is chrono's formatting of a time by a pattern; the clock is read once per counter.\<close>

definition minute_key :: "(string \<Rightarrow> time \<Rightarrow> string) \<Rightarrow> string \<Rightarrow> time \<Rightarrow> string" where
  "minute_key format_time tenant_id now = ''quota:'' @ tenant_id @ '':req:minute:'' @ format_time ''%Y%m%d%H%M'' now"

definition day_key :: "(string \<Rightarrow> time \<Rightarrow> string) \<Rightarrow> string \<Rightarrow> time \<Rightarrow> string" where
  "day_key format_time tenant_id now = ''quota:'' @ tenant_id @ '':req:day:'' @ format_time ''%Y%m%d'' now"

text \<open>One of the two counters: \<open>None\<close> is the early \<open>return Ok(())\<close> on an error of Redis.\<close>

definition count_request ::
  "'r redis \<Rightarrow> string \<Rightarrow> int \<Rightarrow> string \<Rightarrow> u64 \<Rightarrow> 'r \<Rightarrow> (quota_exceeded + unit) option \<times> 'r" where
  "count_request rd key ttl resource limit r =
     (case rd_incr rd key r of
        (Inl _, r) \<Rightarrow> (None, r)
      | (Inr n, r) \<Rightarrow>
          let (_, r) = rd_expire rd key ttl r
          in if limit < n then (Some (Inl \<lparr>qe_resource = resource, qe_current = n, qe_limit = limit\<rparr>), r)
             else (Some (Inr ()), r))"

definition record_request ::
  "'r redis \<Rightarrow> (string \<Rightarrow> time \<Rightarrow> string) \<Rightarrow> quota_config \<Rightarrow> time \<Rightarrow> time \<Rightarrow> string \<Rightarrow> 'r \<Rightarrow> (quota_exceeded + unit) \<times> 'r" where
  "record_request rd format_time cfg now now' tenant_id r =
     (case count_request rd (minute_key format_time tenant_id now) 120 ''requests_per_minute''
             (qc_max_requests_per_minute cfg) r of
        (None, r) \<Rightarrow> (Inr (), r)
      | (Some (Inl e), r) \<Rightarrow> (Inl e, r)
      | (Some (Inr _), r) \<Rightarrow>
          (case count_request rd (day_key format_time tenant_id now') 86400 ''requests_per_day''
                  (qc_max_requests_per_day cfg) r of
             (None, r) \<Rightarrow> (Inr (), r)
           | (Some (Inl e), r) \<Rightarrow> (Inl e, r)
           | (Some (Inr _), r) \<Rightarrow> (Inr (), r)))"

definition quota_get_usage ::
  "'r redis \<Rightarrow> (string \<Rightarrow> time \<Rightarrow> string) \<Rightarrow> time \<Rightarrow> time \<Rightarrow> string \<Rightarrow> 'r \<Rightarrow> quota_error + quota_usage" where
  "quota_get_usage rd format_time now now' tenant_id r =
     and_then (map_err Storage (rd_get rd (quota_keys_key tenant_id) r)) (\<lambda>key_count.
     and_then (map_err Storage (rd_get rd (minute_key format_time tenant_id now) r)) (\<lambda>requests_this_minute.
     and_then (map_err Storage (rd_get rd (day_key format_time tenant_id now') r)) (\<lambda>requests_today.
     Inr \<lparr>qu_tenant_id = tenant_id, qu_key_count = key_count, qu_requests_this_minute = requests_this_minute,
          qu_requests_today = requests_today\<rparr>)))"

section \<open>The operation counter\<close>

text \<open>\<open>uuid_str\<close> is the text of an identifier; the value read back is parsed, any failure counts as zero.\<close>

definition ops_key :: "(uuid \<Rightarrow> string) \<Rightarrow> uuid \<Rightarrow> string" where
  "ops_key uuid_str key_id = ''kms:key:'' @ uuid_str key_id @ '':ops''"

definition op_increment :: "'r redis \<Rightarrow> (uuid \<Rightarrow> string) \<Rightarrow> uuid \<Rightarrow> 'r \<Rightarrow> u64 \<times> 'r" where
  "op_increment rd uuid_str key_id r =
     (case rd_incr rd (ops_key uuid_str key_id) r of (Inr n, r) \<Rightarrow> (n, r) | (Inl _, r) \<Rightarrow> (0, r))"

definition op_get_count :: "'r redis \<Rightarrow> (uuid \<Rightarrow> string) \<Rightarrow> uuid \<Rightarrow> 'r \<Rightarrow> u64" where
  "op_get_count rd uuid_str key_id r =
     (case rd_get rd (ops_key uuid_str key_id) r of Inr n \<Rightarrow> n | Inl _ \<Rightarrow> 0)"

section \<open>Admission\<close>

text \<open>A sequence of steps on a store, and how many of them were admitted.\<close>

fun admitted :: "('r \<Rightarrow> bool \<times> 'r) list \<Rightarrow> 'r \<Rightarrow> nat" where
  "admitted [] r = 0"
| "admitted (f # fs) r = (let (ok, r') = f r in (if ok then 1 else 0) + admitted fs r')"

text \<open>
  When a count never decreases, and a step is admitted only by raising it within the limit, the
  admitted steps are no more than what the limit leaves.
\<close>

lemma admissions_bounded:
  assumes "\<And>f r. f \<in> set fs \<Longrightarrow> (if fst (f r) then cnt r < m \<and> Suc (cnt r) \<le> cnt (snd (f r)) else cnt r \<le> cnt (snd (f r)))"
  shows "admitted fs r \<le> m - cnt r"
  using assms
proof (induction fs arbitrary: r)
  case Nil
  then show ?case by simp
next
  case (Cons f fs)
  have "admitted fs (snd (f r)) \<le> m - cnt (snd (f r))"
    by (rule Cons.IH, rule Cons.prems) simp
  moreover have "if fst (f r) then cnt r < m \<and> Suc (cnt r) \<le> cnt (snd (f r)) else cnt r \<le> cnt (snd (f r))"
    by (rule Cons.prems) simp
  ultimately show ?case
    by (auto simp: Let_def split: prod.splits if_splits)
qed

text \<open>
  A view of the keys of Redis: the value under a key, the value of a missing key, the time in milliseconds
  at which a key falls due, and the server's clock. As time passes the keys that fall due disappear.
\<close>

record ('r, 'v) redis_view =
  vw_value :: "'r \<Rightarrow> string \<Rightarrow> 'v"
  vw_missing :: 'v
  vw_due :: "'r \<Rightarrow> string \<Rightarrow> int option"
  vw_clock :: "'r \<Rightarrow> int"

definition overdue :: "('r, 'v) redis_view \<Rightarrow> 'r \<Rightarrow> string \<Rightarrow> int \<Rightarrow> bool" where
  "overdue v r k now \<longleftrightarrow> (case vw_due v r k of Some d \<Rightarrow> d \<le> now | None \<Rightarrow> False)"

definition ages :: "('r, 'v) redis_view \<Rightarrow> 'r \<Rightarrow> 'r \<Rightarrow> bool" where
  "ages v r r' \<longleftrightarrow> vw_clock v r \<le> vw_clock v r'
     \<and> (\<forall>k. vw_value v r' k = (if overdue v r k (vw_clock v r') then vw_missing v else vw_value v r k))
     \<and> (\<forall>k. vw_due v r' k = (if overdue v r k (vw_clock v r') then None else vw_due v r k))"

text \<open>
  Setting a timeout of so many milliseconds on a key: nothing for a missing key, removal of the key for a
  timeout that is not positive, and otherwise a time at which the key falls due.
\<close>

definition sets_timeout :: "('r, 'v) redis_view \<Rightarrow> string \<Rightarrow> int \<Rightarrow> 'r \<Rightarrow> 'r \<Rightarrow> bool" where
  "sets_timeout v k ms r r' \<longleftrightarrow> vw_clock v r' = vw_clock v r
     \<and> vw_value v r' = (if ms \<le> 0 then (vw_value v r)(k := vw_missing v) else vw_value v r)
     \<and> (if ms \<le> 0 then vw_due v r' = (vw_due v r)(k := None)
        else vw_due v r' = (vw_due v r)(k \<mapsto> vw_clock v r + ms) \<or> vw_value v r k = vw_missing v \<and> vw_due v r' = vw_due v r)"

text \<open>A command changed nothing.\<close>

definition unchanged :: "('r, 'v) redis_view \<Rightarrow> 'r \<Rightarrow> 'r \<Rightarrow> bool" where
  "unchanged v r r' \<longleftrightarrow> vw_value v r' = vw_value v r \<and> vw_due v r' = vw_due v r \<and> vw_clock v r' = vw_clock v r"

text \<open>\<open>INCR\<close> raises the count of its key, starting from zero, and leaves its timeout.\<close>

definition raises :: "('r, nat) redis_view \<Rightarrow> string \<Rightarrow> 'r \<Rightarrow> 'r \<Rightarrow> bool" where
  "raises v k r r' \<longleftrightarrow> vw_value v r' = (vw_value v r)(k := Suc (vw_value v r k)) \<and> vw_due v r' = vw_due v r
     \<and> vw_clock v r' = vw_clock v r"

text \<open>
  What is relied on of counters in Redis: time may pass before any command; \<open>INCR\<close> answers with the new count,
  \<open>EXPIRE\<close> and \<open>PEXPIRE\<close> set a timeout in seconds and in milliseconds; a command that answers with an error may
  have taken effect or not.
\<close>

definition redis_counts :: "'r redis \<Rightarrow> ('r, nat) redis_view \<Rightarrow> bool" where
  "redis_counts rd v \<longleftrightarrow> vw_missing v = 0
     \<and> (\<forall>k r. \<exists>r1. ages v r r1 \<and> (case rd_incr rd k r of
           (Inr n, r') \<Rightarrow> raises v k r1 r' \<and> unat n = vw_value v r' k
         | (Inl _, r') \<Rightarrow> raises v k r1 r' \<or> unchanged v r1 r'))
     \<and> (\<forall>k n r. \<exists>r1. ages v r r1 \<and> (case rd_expire rd k n r of
           (Inr _, r') \<Rightarrow> sets_timeout v k (1000 * n) r1 r' | (Inl _, r') \<Rightarrow> sets_timeout v k (1000 * n) r1 r' \<or> unchanged v r1 r'))
     \<and> (\<forall>k n r. \<exists>r1. ages v r r1 \<and> (case rd_pexpire rd k n r of
           (Inr _, r') \<Rightarrow> sets_timeout v k n r1 r' | (Inl _, r') \<Rightarrow> sets_timeout v k n r1 r' \<or> unchanged v r1 r'))"

lemma redis_countsD:
  assumes "redis_counts rd v"
  shows "vw_missing v = 0"
    and "\<exists>r1. ages v r r1 \<and> (raises v k r1 (snd (rd_incr rd k r)) \<or> unchanged v r1 (snd (rd_incr rd k r)))"
    and "rd_incr rd k r = (Inr n, r') \<Longrightarrow> \<exists>r1. ages v r r1 \<and> raises v k r1 r' \<and> unat n = vw_value v r' k"
    and "\<exists>r1. ages v r r1 \<and> (sets_timeout v k (1000 * s) r1 (snd (rd_expire rd k s r)) \<or> unchanged v r1 (snd (rd_expire rd k s r)))"
    and "\<exists>r1. ages v r r1 \<and> (sets_timeout v k s r1 (snd (rd_pexpire rd k s r)) \<or> unchanged v r1 (snd (rd_pexpire rd k s r)))"
proof -
  have incr: "\<exists>r1. ages v r r1 \<and> (case rd_incr rd k r of
           (Inr n, r') \<Rightarrow> raises v k r1 r' \<and> unat n = vw_value v r' k | (Inl _, r') \<Rightarrow> raises v k r1 r' \<or> unchanged v r1 r')"
    and ex: "\<exists>r1. ages v r r1 \<and> (case rd_expire rd k s r of
           (Inr _, r') \<Rightarrow> sets_timeout v k (1000 * s) r1 r' | (Inl _, r') \<Rightarrow> sets_timeout v k (1000 * s) r1 r' \<or> unchanged v r1 r')"
    and pex: "\<exists>r1. ages v r r1 \<and> (case rd_pexpire rd k s r of
           (Inr _, r') \<Rightarrow> sets_timeout v k s r1 r' | (Inl _, r') \<Rightarrow> sets_timeout v k s r1 r' \<or> unchanged v r1 r')"
    using assms unfolding redis_counts_def by blast+
  show "vw_missing v = 0"
    using assms by (simp add: redis_counts_def)
  from incr show "\<exists>r1. ages v r r1 \<and> (raises v k r1 (snd (rd_incr rd k r)) \<or> unchanged v r1 (snd (rd_incr rd k r)))"
    by (cases "rd_incr rd k r"; cases "fst (rd_incr rd k r)") auto
  show "\<exists>r1. ages v r r1 \<and> raises v k r1 r' \<and> unat n = vw_value v r' k" if "rd_incr rd k r = (Inr n, r')"
    using incr that by simp
  from ex show "\<exists>r1. ages v r r1 \<and> (sets_timeout v k (1000 * s) r1 (snd (rd_expire rd k s r)) \<or> unchanged v r1 (snd (rd_expire rd k s r)))"
    by (cases "rd_expire rd k s r"; cases "fst (rd_expire rd k s r)") auto
  from pex show "\<exists>r1. ages v r r1 \<and> (sets_timeout v k s r1 (snd (rd_pexpire rd k s r)) \<or> unchanged v r1 (snd (rd_pexpire rd k s r)))"
    by (cases "rd_pexpire rd k s r"; cases "fst (rd_pexpire rd k s r)") auto
qed

text \<open>A key that does not fall due before the time \<open>e\<close>; while the clock is below \<open>e\<close>, such a key stays and its count does not sink.\<close>

definition lasts :: "('r, 'v) redis_view \<Rightarrow> int \<Rightarrow> string \<Rightarrow> 'r \<Rightarrow> bool" where
  "lasts v e k r \<longleftrightarrow> (case vw_due v r k of Some d \<Rightarrow> e \<le> d | None \<Rightarrow> True)"

definition counts_up :: "('r, nat) redis_view \<Rightarrow> int \<Rightarrow> 'r \<Rightarrow> 'r \<Rightarrow> bool" where
  "counts_up v e r r' \<longleftrightarrow> vw_clock v r \<le> vw_clock v r'
     \<and> (vw_clock v r' < e \<longrightarrow> (\<forall>k. lasts v e k r \<longrightarrow> lasts v e k r' \<and> vw_value v r k \<le> vw_value v r' k))"

lemma counts_up_refl [simp]: "counts_up v e r r"
  by (simp add: counts_up_def)

lemma counts_up_trans [trans]: "counts_up v e r r' \<Longrightarrow> counts_up v e r' r'' \<Longrightarrow> counts_up v e r r''"
  unfolding counts_up_def by (meson le_less_trans order_trans)

lemma counts_up_ages: "ages v r r' \<Longrightarrow> counts_up v e r r'"
  by (auto simp: ages_def counts_up_def lasts_def overdue_def split: option.splits)

lemma counts_up_raises: "raises v k r r' \<Longrightarrow> counts_up v e r r'"
  by (auto simp: raises_def counts_up_def lasts_def)

lemma counts_up_unchanged: "unchanged v r r' \<Longrightarrow> counts_up v e r r'"
  by (auto simp: unchanged_def counts_up_def lasts_def)

lemma counts_up_timeout: "sets_timeout v k ms r r' \<Longrightarrow> 0 < ms \<Longrightarrow> e \<le> vw_clock v r + ms \<Longrightarrow> counts_up v e r r'"
  by (auto simp: sets_timeout_def counts_up_def lasts_def)

lemma counts_up_incr: "redis_counts rd v \<Longrightarrow> counts_up v e r (snd (rd_incr rd k r))"
  using redis_countsD(2) [of rd v r k] by (meson counts_up_ages counts_up_raises counts_up_unchanged counts_up_trans)

lemma counts_up_expire:
  assumes "redis_counts rd v" "0 < s" "e \<le> vw_clock v r + 1000 * s"
  shows "counts_up v e r (snd (rd_expire rd k s r))"
proof -
  obtain r1 where r1: "ages v r r1" "sets_timeout v k (1000 * s) r1 (snd (rd_expire rd k s r)) \<or> unchanged v r1 (snd (rd_expire rd k s r))"
    using redis_countsD(4) [OF assms(1)] by blast
  then have "counts_up v e r1 (snd (rd_expire rd k s r))"
    using assms(2,3) by (auto simp: ages_def intro: counts_up_unchanged counts_up_timeout [where ms = "1000 * s"])
  then show ?thesis
    using counts_up_trans [OF counts_up_ages [OF r1(1)]] by blast
qed

lemma counts_up_pexpire:
  assumes "redis_counts rd v" "0 < s" "e \<le> vw_clock v r + s"
  shows "counts_up v e r (snd (rd_pexpire rd k s r))"
proof -
  obtain r1 where r1: "ages v r r1" "sets_timeout v k s r1 (snd (rd_pexpire rd k s r)) \<or> unchanged v r1 (snd (rd_pexpire rd k s r))"
    using redis_countsD(5) [OF assms(1)] by blast
  then have "counts_up v e r1 (snd (rd_pexpire rd k s r))"
    using assms(2,3) by (auto simp: ages_def intro: counts_up_unchanged counts_up_timeout [where ms = s])
  then show ?thesis
    using counts_up_trans [OF counts_up_ages [OF r1(1)]] by blast
qed

text \<open>A successful \<open>INCR\<close> before \<open>e\<close> answers with a count above the one before.\<close>

lemma incr_answer:
  assumes "redis_counts rd v" "rd_incr rd k r = (Inr n, r')" "vw_clock v r' < e" "lasts v e k r"
  shows "vw_value v r k < unat n" "vw_value v r' k = unat n" "lasts v e k r'"
proof -
  obtain r1 where r1: "ages v r r1" "raises v k r1 r'" "unat n = vw_value v r' k"
    using redis_countsD(3) [OF assms(1,2)] by blast
  moreover have "vw_clock v r1 < e"
    using r1(2) assms(3) by (simp add: raises_def)
  ultimately have "lasts v e k r1" "vw_value v r k \<le> vw_value v r1 k"
    using counts_up_ages [OF r1(1), of e] assms(4) by (auto simp: counts_up_def)
  with r1 show "vw_value v r k < unat n" "vw_value v r' k = unat n" "lasts v e k r'"
    by (auto simp: raises_def lasts_def)
qed

text \<open>The state after a sequence of steps.\<close>

definition after_steps :: "('r \<Rightarrow> bool \<times> 'r) list \<Rightarrow> 'r \<Rightarrow> 'r" where
  "after_steps fs r = fold (\<lambda>f r. snd (f r)) fs r"

lemma after_steps_simps [simp]: "after_steps [] r = r" "after_steps (f # fs) r = after_steps fs (snd (f r))"
  by (simp_all add: after_steps_def)

text \<open>
  Steps that count up until \<open>e\<close>, begun at the time \<open>c\<close> or later, of which one is admitted only by raising the
  count of the key within the limit: until \<open>e\<close> no more are admitted than the limit leaves.
\<close>

lemma counted_admissions:
  assumes "\<And>f r. f \<in> set fs \<Longrightarrow> c \<le> vw_clock v r \<Longrightarrow> counts_up v e r (snd (f r))"
    and "\<And>f r. f \<in> set fs \<Longrightarrow> c \<le> vw_clock v r \<Longrightarrow> lasts v e k r \<Longrightarrow> vw_clock v (snd (f r)) < e \<Longrightarrow> fst (f r)
      \<Longrightarrow> vw_value v r k < m \<and> vw_value v r k < vw_value v (snd (f r)) k"
    and "c \<le> vw_clock v r" "lasts v e k r" "vw_clock v (after_steps fs r) < e"
  shows "admitted fs r \<le> m - vw_value v r k"
  using assms
proof (induction fs arbitrary: r)
  case (Cons f fs)
  let ?r = "snd (f r)"
  have later: "c \<le> vw_clock v r \<Longrightarrow> vw_clock v r \<le> vw_clock v (after_steps fs r)" for r
    using Cons.prems(1)
  proof (induction fs arbitrary: r)
    case (Cons g gs)
    have "counts_up v e r (snd (g r))"
      using Cons.prems by simp
    then have "vw_clock v r \<le> vw_clock v (snd (g r))"
      by (simp add: counts_up_def)
    moreover have "vw_clock v (snd (g r)) \<le> vw_clock v (after_steps gs (snd (g r)))"
      by (rule Cons.IH) (use Cons.prems calculation in auto)
    ultimately show ?case by simp
  qed simp
  have up: "counts_up v e r ?r"
    using Cons.prems(1,3) by simp
  then have clock: "c \<le> vw_clock v ?r"
    using Cons.prems(3) by (simp add: counts_up_def)
  then have before: "vw_clock v ?r < e"
    using later [OF clock] Cons.prems(5) by simp
  then have kept: "lasts v e k ?r" "vw_value v r k \<le> vw_value v ?r k"
    using up Cons.prems(4) by (auto simp: counts_up_def)
  have "admitted fs ?r \<le> m - vw_value v ?r k"
    by (rule Cons.IH) (use Cons.prems clock kept(1) in auto)
  moreover have "vw_value v r k < m \<and> vw_value v r k < vw_value v ?r k" if "fst (f r)"
    using Cons.prems(2) [of f r] Cons.prems(3,4) before that by simp
  ultimately show ?case
    using kept(2) by (auto simp: Let_def split: prod.splits)
qed simp

definition granted :: "kms_error + rl_result \<Rightarrow> bool" where
  "granted x = (case x of Inr res \<Rightarrow> rr_allowed res | Inl _ \<Rightarrow> False)"

text \<open>
  The checks of a run, by any tenants at any times; those of one tenant in one window count as admitted when
  they are granted.
\<close>

definition fixed_step :: "'r redis \<Rightarrow> rl_config \<Rightarrow> string \<Rightarrow> u64 \<Rightarrow> u64 \<times> string \<Rightarrow> 'r \<Rightarrow> bool \<times> 'r" where
  "fixed_step rd cfg tenant window check r =
     (case check of (now, t) \<Rightarrow>
        let (x, r') = check_fixed rd cfg now t r
        in (t = tenant \<and> now div rl_window_secs cfg = window \<and> granted x, r'))"

lemma check_fixed_state:
  "snd (check_fixed rd cfg now t r)
     = (let k = rl_key t (now div rl_window_secs cfg); r1 = snd (rd_incr rd k r)
        in if fst (rd_incr rd k r) = Inr 1 then snd (rd_expire rd k (sint (rl_window_secs cfg)) r1) else r1)"
  by (auto simp: check_fixed_def or_internal_def then_st_def Let_def split: sum.splits prod.splits)

lemma fixed_step_counts:
  assumes "redis_counts rd v" "0 < sint (rl_window_secs cfg)" "e \<le> vw_clock v r + 1000 * sint (rl_window_secs cfg)"
  shows "counts_up v e r (snd (check_fixed rd cfg now t r))"
proof -
  let ?k = "rl_key t (now div rl_window_secs cfg)"
  have incr: "counts_up v e r (snd (rd_incr rd ?k r))"
    by (rule counts_up_incr [OF assms(1)])
  then have "vw_clock v r \<le> vw_clock v (snd (rd_incr rd ?k r))"
    by (simp add: counts_up_def)
  then have "counts_up v e (snd (rd_incr rd ?k r)) (snd (rd_expire rd ?k (sint (rl_window_secs cfg)) (snd (rd_incr rd ?k r))))"
    by (intro counts_up_expire assms) (use assms(3) in simp)
  with incr show ?thesis
    by (auto simp: check_fixed_state Let_def intro: counts_up_trans)
qed

lemma check_fixed_granted:
  assumes "redis_counts rd v" "0 < sint (rl_window_secs cfg)" "e \<le> vw_clock v r + 1000 * sint (rl_window_secs cfg)"
    and "key = rl_key t (now div rl_window_secs cfg)" "lasts v e key r"
    and "check_fixed rd cfg now t r = (x, r')" "vw_clock v r' < e" "granted x"
  shows "vw_value v r key < unat (rl_max_requests cfg) \<and> vw_value v r key < vw_value v r' key"
proof -
  obtain y r1 where y: "rd_incr rd key r = (y, r1)"
    by (cases "rd_incr rd key r")
  obtain n where n: "y = Inr n" and max: "n \<le> rl_max_requests cfg"
      and r': "r' = r1 \<or> r' = snd (rd_expire rd key (sint (rl_window_secs cfg)) r1)"
    using assms(6,8) y word_less_1 [of "rl_max_requests cfg"] not_less [of "rl_max_requests cfg" 1]
    by (auto simp: check_fixed_def Let_def or_internal_def then_st_def granted_def rate_limited_def rl_allowed_def not_less
        assms(4) [symmetric] split: sum.splits prod.splits if_splits)
  have incr: "rd_incr rd key r = (Inr n, r1)"
    using y n by simp
  have "vw_clock v r \<le> vw_clock v r1"
    using counts_up_incr [OF assms(1), of e r key] incr by (simp add: counts_up_def)
  then have up: "counts_up v e r1 r'"
    using r' assms(3) by (auto intro!: counts_up_expire assms(1,2))
  then have "vw_clock v r1 < e"
    using assms(7) by (simp add: counts_up_def)
  from incr_answer [OF assms(1) incr this assms(5)] up max assms(7) show ?thesis
    by (auto simp: counts_up_def word_le_nat_alt)
qed

text \<open>
  C40. The fixed-window limiter never admits more than \<open>max_requests\<close> requests of a tenant in one window,
  less those counted before: whatever requests of this and of other tenants, in this and in other windows,
  come in between, and whichever commands of Redis fail. The run may take less than the length of a window
  by the clock of Redis, and the counter must not have been set before to fall due in that time; a request
  whose commands reach Redis later than that meets a new counter.
\<close>

theorem fixed_window_bound:
  assumes "redis_counts rd v" "0 < sint (rl_window_secs cfg)"
    and "run = map (fixed_step rd cfg tenant window) checks"
    and "vw_clock v (after_steps run r) < vw_clock v r + 1000 * sint (rl_window_secs cfg)"
    and "lasts v (vw_clock v r + 1000 * sint (rl_window_secs cfg)) (rl_key tenant window) r"
  shows "admitted run r \<le> unat (rl_max_requests cfg) - vw_value v r (rl_key tenant window)"
proof (rule counted_admissions [OF _ _ order_refl assms(5,4)])
  fix f q assume "f \<in> set run" and late: "vw_clock v r \<le> vw_clock v q"
  then obtain now t where f: "f = fixed_step rd cfg tenant window (now, t)"
    using assms(3) by auto
  let ?e = "vw_clock v r + 1000 * sint (rl_window_secs cfg)"
  obtain x q' where q': "check_fixed rd cfg now t q = (x, q')"
    by (cases "check_fixed rd cfg now t q")
  have le: "?e \<le> vw_clock v q + 1000 * sint (rl_window_secs cfg)"
    using late by simp
  show "counts_up v ?e q (snd (f q))"
    using fixed_step_counts [OF assms(1,2) le, of now t] q' by (simp add: f fixed_step_def)
  assume "lasts v ?e (rl_key tenant window) q" "vw_clock v (snd (f q)) < ?e" "fst (f q)"
  with check_fixed_granted [OF assms(1,2) le _ _ q'] q'
  show "vw_value v q (rl_key tenant window) < unat (rl_max_requests cfg)
      \<and> vw_value v q (rl_key tenant window) < vw_value v (snd (f q)) (rl_key tenant window)"
    by (auto simp: f fixed_step_def)
qed

section \<open>The sliding window\<close>

text \<open>
  What is relied on of sorted sets in Redis, as the set of members with their scores under each key: a
  range of scores is removed, the number of members is returned, and adding a member replaces its
  score; a failing command changes nothing. Time does not show: this is about runs in which no key falls due.
\<close>

definition redis_zsets :: "'r redis \<Rightarrow> ('r \<Rightarrow> string \<Rightarrow> (string \<times> int) set) \<Rightarrow> bool" where
  "redis_zsets rd zs \<longleftrightarrow>
     (\<forall>k lo hi r. case rd_zrembyscore rd k lo hi r of
        (Inr _, r') \<Rightarrow> zs r' = (zs r)(k := {x \<in> zs r k. snd x < lo \<or> hi < snd x}) | (Inl _, r') \<Rightarrow> zs r' = zs r)
     \<and> (\<forall>k r n. rd_zcard rd k r = Inr n \<longrightarrow> unat n = card (zs r k))
     \<and> (\<forall>k m sc r. case rd_zadd rd k m sc r of
        (Inr _, r') \<Rightarrow> zs r' = (zs r)(k := insert (m, sc) {x \<in> zs r k. fst x \<noteq> m}) | (Inl _, r') \<Rightarrow> zs r' = zs r)
     \<and> (\<forall>k n r. zs (snd (rd_expire rd k n r)) = zs r \<or> n \<le> 0 \<and> zs (snd (rd_expire rd k n r)) = (zs r)(k := {}))
     \<and> (\<forall>r k. finite (zs r k))"

lemma zsets_rem:
  assumes "redis_zsets rd zs"
  shows "rd_zrembyscore rd k lo hi r = (Inr u, r') \<Longrightarrow> zs r' = (zs r)(k := {x \<in> zs r k. snd x < lo \<or> hi < snd x})"
    and "rd_zrembyscore rd k lo hi r = (Inl e, r') \<Longrightarrow> zs r' = zs r"
  using assms unfolding redis_zsets_def by (metis (mono_tags, lifting) old.prod.case sum.case)+

lemma zsets_add:
  assumes "redis_zsets rd zs"
  shows "rd_zadd rd k m sc r = (Inr u, r') \<Longrightarrow> zs r' = (zs r)(k := insert (m, sc) {x \<in> zs r k. fst x \<noteq> m})"
    and "rd_zadd rd k m sc r = (Inl e, r') \<Longrightarrow> zs r' = zs r"
  using assms unfolding redis_zsets_def by (metis (mono_tags, lifting) old.prod.case sum.case)+

lemma zsets_other:
  "redis_zsets rd zs \<Longrightarrow> rd_expire rd k n r = (x, r') \<Longrightarrow> 0 < n \<Longrightarrow> zs r' = zs r"
  "redis_zsets rd zs \<Longrightarrow> rd_zcard rd k r = Inr c \<Longrightarrow> unat c = card (zs r k)"
  "redis_zsets rd zs \<Longrightarrow> finite (zs r k)"
  unfolding redis_zsets_def by (metis not_less snd_conv)+

text \<open>The requests of a window that are kept: those after its first second.\<close>

definition kept_after :: "int \<Rightarrow> (string \<times> int) set \<Rightarrow> nat" where
  "kept_after start z = card {x \<in> z. start < snd x}"

text \<open>
  A check of the window that begins at \<open>start\<close>: when it is granted after the first second, under a fresh
  request id, the count of kept requests was below the limit and has grown by one.
\<close>

lemma check_sliding_kept:
  assumes zs: "redis_zsets rd zs" and ttl: "0 < sint (rl_window_secs cfg * 2)"
    and start: "sint (now div rl_window_secs cfg * rl_window_secs cfg) = start" "0 \<le> start"
    and key: "key = rl_key tenant (now div rl_window_secs cfg)"
    and fresh: "rl_request_id now u \<notin> fst ` zs r key"
    and res: "check_sliding rd cfg now u tenant r = (x, r')"
  shows "if granted x \<and> start < uint now
    then kept_after start (zs r key) < unat (rl_max_requests cfg) \<and> kept_after start (zs r' key) = Suc (kept_after start (zs r key))
    else kept_after start (zs r key) \<le> kept_after start (zs r' key)"
proof -
  let ?m = "rl_request_id now u" and ?z = "\<lambda>r. {x \<in> zs r key. start < snd x}"
  obtain y r1 where r1: "rd_zrembyscore rd key 0 start r = (y, r1)"
    by (cases "rd_zrembyscore rd key 0 start r")
  obtain b r2 where r2: "rd_zadd rd key ?m (uint now) r1 = (b, r2)"
    by (cases "rd_zadd rd key ?m (uint now) r1")
  obtain c r3 where r3: "rd_expire rd key (sint (rl_window_secs cfg * 2)) r2 = (c, r3)"
    by (cases "rd_expire rd key (sint (rl_window_secs cfg * 2)) r2")
  have "zs r1 = zs r \<or> zs r1 = (zs r)(key := {x \<in> zs r key. snd x < 0 \<or> start < snd x})"
    using zsets_rem(1) [OF zs] zsets_rem(2) [OF zs] r1 by (cases y) blast+
  then have z1: "?z r1 = ?z r" "zs r1 key \<subseteq> zs r key"
    by auto
  have fin: "finite (zs q key)" for q
    using zsets_other(3) [OF zs] .
  have fresh1: "?m \<notin> fst ` zs r1 key"
    using fresh z1(2) by auto
  have add: "card (?z r2) = (if start < uint now then Suc (card (?z r)) else card (?z r))" if "b = Inr v" for v
  proof -
    have "?z r2 = (if start < uint now then insert (?m, uint now) (?z r1) else ?z r1)"
      using zsets_add(1) [OF zs, of key ?m "uint now" r1 v r2] r2 that fresh1 by (auto simp: image_iff)
    moreover have "(?m, uint now) \<notin> ?z r1"
      using fresh1 by force
    moreover have "finite (?z r)"
      by (rule finite_subset [OF _ fin [of r]]) auto
    ultimately show ?thesis
      by (auto simp: z1(1))
  qed
  have same: "zs r2 = zs r1" if "b = Inl v" for v
    using zsets_add(2) [OF zs] r2 that by blast
  have z3: "zs r3 = zs r2"
    using zsets_other(1) [OF zs r3 ttl] .
  have le: "card (?z r) \<le> card (zs r1 key)"
    unfolding z1(1) [symmetric] by (rule card_mono) (auto simp: fin)
  note [simp] = check_sliding_def Let_def start(1) key [symmetric] or_internal_def kept_after_def rl_allowed_def granted_def
    rate_limited_def r1 r2 r3
  show ?thesis
  proof (cases y)
    case (Inl e)
    with res z1(1) show ?thesis by auto
  next
    case y: (Inr u)
    show ?thesis
    proof (cases "rd_zcard rd key r1")
      case (Inl e)
      with y res z1(1) show ?thesis by auto
    next
      case (Inr n)
      then have n: "unat n = card (zs r1 key)"
        by (rule zsets_other(2) [OF zs])
      show ?thesis
      proof (cases "rl_max_requests cfg \<le> n")
        case True
        with y Inr res z1(1) show ?thesis by auto
      next
        case False
        then have lt: "card (?z r) < unat (rl_max_requests cfg)"
          using le n by (simp add: word_le_nat_alt)
        show ?thesis
        proof (cases b)
          case (Inl e)
          with y Inr False same res z1(1) show ?thesis by auto
        next
          case b: (Inr v)
          show ?thesis
            using y Inr False b add [OF b] lt res z1(1) z3 by (cases c) auto
        qed
      qed
    qed
  qed
qed
text \<open>
  The requests of one window for a tenant, each with its time and the text of its identifier. Requests of
  other tenants or windows use other keys and are left out here.
\<close>

fun sliding_checks ::
  "'r redis \<Rightarrow> rl_config \<Rightarrow> string \<Rightarrow> (u64 \<times> string) list \<Rightarrow> 'r \<Rightarrow> (u64 \<times> (kms_error + rl_result)) list \<times> 'r" where
  "sliding_checks rd cfg tenant [] r = ([], r)"
| "sliding_checks rd cfg tenant ((now, u) # reqs) r =
     (let (x, r) = check_sliding rd cfg now u tenant r; (xs, r) = sliding_checks rd cfg tenant reqs r
      in ((now, x) # xs, r))"

text \<open>The members of a key come from the requests made, whatever the answers.\<close>

lemma check_sliding_members:
  assumes "redis_zsets rd zs" "check_sliding rd cfg now u tenant r = (x, r')"
  shows "fst ` zs r' key \<subseteq> insert (rl_request_id now u) (fst ` zs r key)"
proof -
  let ?k = "rl_key tenant (now div rl_window_secs cfg)" and ?m = "rl_request_id now u"
  have rem: "fst ` zs (snd (rd_zrembyscore rd k lo hi q)) key \<subseteq> fst ` zs q key" for k lo hi q
    using zsets_rem [OF assms(1), of k lo hi q]
    by (cases "rd_zrembyscore rd k lo hi q"; cases "fst (rd_zrembyscore rd k lo hi q)"; cases "k = key") (force simp: image_subset_iff)+
  have add: "fst ` zs (snd (rd_zadd rd k m sc q)) key \<subseteq> insert m (fst ` zs q key)" for k m sc q
    using zsets_add [OF assms(1), of k m sc q]
    by (cases "rd_zadd rd k m sc q"; cases "fst (rd_zadd rd k m sc q)"; cases "k = key") (force simp: image_subset_iff)+
  have ex: "fst ` zs (snd (rd_expire rd k n q)) key \<subseteq> fst ` zs q key" for k n q
  proof -
    have "zs (snd (rd_expire rd k n q)) = zs q \<or> zs (snd (rd_expire rd k n q)) = (zs q)(k := {})"
      using assms(1) unfolding redis_zsets_def by blast
    then show ?thesis by (auto split: if_splits)
  qed
  let ?r1 = "snd (rd_zrembyscore rd ?k 0 (sint (now div rl_window_secs cfg * rl_window_secs cfg)) r)"
  let ?r2 = "snd (rd_zadd rd ?k ?m (uint now) ?r1)"
  have "r' = ?r1 \<or> r' = ?r2 \<or> (\<exists>n. r' = snd (rd_expire rd ?k n ?r2))"
    using assms(2) unfolding check_sliding_def Let_def or_internal_def
    by (auto simp: then_st_def split: sum.splits if_splits prod.splits)
  moreover have r1: "fst ` zs ?r1 key \<subseteq> fst ` zs r key"
    by (rule rem)
  moreover have r2: "fst ` zs ?r2 key \<subseteq> insert ?m (fst ` zs r key)"
    using add [of ?k ?m "uint now" ?r1] r1 by blast
  moreover have "fst ` zs (snd (rd_expire rd ?k n ?r2)) key \<subseteq> insert ?m (fst ` zs r key)" for n
    using ex [of ?k n ?r2] r2 by (rule subset_trans)
  ultimately show ?thesis
    by (elim disjE exE) (simp_all only:, blast)
qed

text \<open>
  With fresh request identifiers, of the requests a tenant makes in one window after its first second
  the sliding-window limiter grants at most \<open>max_requests\<close>, less those it had granted before.
\<close>

theorem sliding_window_bound:
  assumes zs: "redis_zsets rd zs" and ttl: "0 < sint (rl_window_secs cfg * 2)"
    and start: "sint (window * rl_window_secs cfg) = start" "0 \<le> start"
    and fresh: "distinct (map (\<lambda>(now, u). rl_request_id now u) reqs)"
      "\<forall>(now, u) \<in> set reqs. rl_request_id now u \<notin> fst ` zs r (rl_key tenant window) \<and> now div rl_window_secs cfg = window"
  shows "length (filter (\<lambda>(now, x). granted x \<and> start < uint now) (fst (sliding_checks rd cfg tenant reqs r)))
    \<le> unat (rl_max_requests cfg) - kept_after start (zs r (rl_key tenant window))"
  using fresh
proof (induction reqs arbitrary: r)
  case Nil
  then show ?case by simp
next
  case (Cons req reqs)
  let ?key = "rl_key tenant window"
  obtain now u where req: "req = (now, u)" by (cases req)
  obtain x r1 where r1: "check_sliding rd cfg now u tenant r = (x, r1)" by (cases "check_sliding rd cfg now u tenant r")
  have w: "now div rl_window_secs cfg = window" and new: "rl_request_id now u \<notin> fst ` zs r ?key"
    using Cons.prems(2) by (auto simp: req)
  have "length (filter (\<lambda>(now, x). granted x \<and> start < uint now) (fst (sliding_checks rd cfg tenant reqs r1)))
      \<le> unat (rl_max_requests cfg) - kept_after start (zs r1 ?key)"
  proof (rule Cons.IH)
    show "distinct (map (\<lambda>(now, u). rl_request_id now u) reqs)"
      using Cons.prems(1) by simp
    show "\<forall>(now, u) \<in> set reqs. rl_request_id now u \<notin> fst ` zs r1 ?key \<and> now div rl_window_secs cfg = window"
    proof clarify
      fix now' u' assume in': "(now', u') \<in> set reqs"
      then have "rl_request_id now' u' \<noteq> rl_request_id now u"
        using Cons.prems(1) unfolding req by force
      moreover have "rl_request_id now' u' \<notin> fst ` zs r ?key \<and> now' div rl_window_secs cfg = window"
        using Cons.prems(2) in' by auto
      ultimately show "rl_request_id now' u' \<notin> fst ` zs r1 ?key \<and> now' div rl_window_secs cfg = window"
        using check_sliding_members [OF zs r1, of ?key] by blast
    qed
  qed
  moreover have "if granted x \<and> start < uint now
      then kept_after start (zs r ?key) < unat (rl_max_requests cfg) \<and> kept_after start (zs r1 ?key) = Suc (kept_after start (zs r ?key))
      else kept_after start (zs r ?key) \<le> kept_after start (zs r1 ?key)"
    using check_sliding_kept [OF zs ttl _ start(2) _ new r1] start(1) w by simp
  ultimately show ?case
    by (auto simp: req r1 split: prod.splits if_splits)
qed

text \<open>
  Requests in the first second of a window are never limited: as long as no request with a later
  time is recorded, a check at the start of the window is granted, however many went before.
\<close>

theorem sliding_first_second_unlimited:
  assumes zs: "redis_zsets rd zs" and now: "now = now div rl_window_secs cfg * rl_window_secs cfg" "0 \<le> sint now"
    and past: "\<forall>x \<in> zs r (rl_key tenant (now div rl_window_secs cfg)). 0 \<le> snd x \<and> snd x \<le> sint now"
    and up: "\<And>k lo hi r. \<exists>r'. rd_zrembyscore rd k lo hi r = (Inr (), r')" "\<And>k r. zs r k = {} \<Longrightarrow> \<exists>n. rd_zcard rd k r = Inr n"
      "\<And>k m sc r. \<exists>r'. rd_zadd rd k m sc r = (Inr (), r')" "\<And>k n r. \<exists>r'. rd_expire rd k n r = (Inr (), r')"
    and pos: "0 < rl_max_requests cfg"
  shows "granted (fst (check_sliding rd cfg now u tenant r))"
proof -
  let ?k = "rl_key tenant (now div rl_window_secs cfg)"
  obtain r1 where r1: "rd_zrembyscore rd ?k 0 (sint now) r = (Inr (), r1)" using up(1) by blast
  obtain r2 where r2: "rd_zadd rd ?k (rl_request_id now u) (uint now) r1 = (Inr (), r2)" using up(3) by blast
  obtain r3 where r3: "rd_expire rd ?k (sint (rl_window_secs cfg * 2)) r2 = (Inr (), r3)" using up(4) by blast
  have "zs r1 ?k = {}"
    using zsets_rem(1) [OF zs r1] past by auto
  moreover from this obtain n where n: "rd_zcard rd ?k r1 = Inr n" using up(2) by blast
  ultimately have "n = 0"
    using zsets_other(2) [OF zs n] by (simp add: unat_eq_0)
  then show ?thesis
    using pos r1 n r2 r3
    by (simp add: check_sliding_def Let_def now(1) [symmetric] or_internal_def granted_def rl_allowed_def not_le word_gt_0)
qed
section \<open>Keys\<close>

fun dec_value :: "nat \<Rightarrow> string \<Rightarrow> nat" where
  "dec_value n [] = n"
| "dec_value n (c # cs) = dec_value (10 * n + (of_char c - 48)) cs"

lemma dec_value_append: "dec_value n (xs @ [c]) = 10 * dec_value n xs + (of_char c - 48)"
  by (induction n xs rule: dec_value.induct) auto

lemma dec_value_dec: "dec_value 0 (dec n) = n"
proof (induction n rule: dec.induct)
  case (1 n)
  then show ?case
    by (subst dec.simps) (auto simp: dec_value_append of_char_of)
qed

lemma dec_inj: "dec m = dec n \<Longrightarrow> m = n"
  by (metis dec_value_dec)

lemma dec_colon: "CHR '':'' \<notin> set (dec n)"
proof (induction n rule: dec.induct)
  case (1 n)
  moreover have "CHR '':'' \<noteq> char_of (48 + d)" if "d < 10" for d :: nat
  proof
    assume "CHR '':'' = char_of (48 + d)"
    then have "(of_char (CHR '':'') :: nat) = of_char (char_of (48 + d))" by simp
    with that show False by (simp add: of_char_of)
  qed
  ultimately show ?case
    by (subst dec.simps) auto
qed

lemma last_colon_split:
  assumes "xs @ CHR '':'' # ys = xs' @ CHR '':'' # ys'" "CHR '':'' \<notin> set ys" "CHR '':'' \<notin> set ys'"
  shows "xs = xs' \<and> ys = ys'"
  using assms by (auto simp: append_eq_append_conv2 append_eq_Cons_conv Cons_eq_append_conv)

text \<open>
  Neither limiter lets two tenants share a counter: the key determines the tenant and the window,
  whatever characters the identifiers of tenants hold.
\<close>

theorem limiter_keys_separate:
  "(rl_key t w = rl_key t' w' \<longleftrightarrow> t = t' \<and> w = w') \<and> (tr_key t now = tr_key t' now' \<longleftrightarrow> t = t' \<and> now div 1000 = now' div 1000)"
proof -
  have key: "xs @ t @ '':'' @ dec m = xs @ t' @ '':'' @ dec n \<longleftrightarrow> t = t' \<and> m = n" for xs m n
    using last_colon_split [of t "dec m" t' "dec n"] dec_colon dec_inj by auto
  show ?thesis
    unfolding rl_key_def tr_key_def key by (simp add: word_unat_eq_iff)
qed

section \<open>The limiter of the API and the quotas\<close>

lemma tr_script_counts:
  assumes "redis_counts rd v" "0 < w" "e \<le> vw_clock v r + w" "tr_script rd key w r = (x, r')"
  shows "counts_up v e r r'"
    and "x = Inr (n, ttl) \<Longrightarrow> lasts v e key r \<Longrightarrow> vw_clock v r' < e \<Longrightarrow> vw_value v r key < unat n \<and> vw_value v r key < vw_value v r' key"
proof -
  obtain y r1 where y: "rd_incr rd key r = (y, r1)" by (cases "rd_incr rd key r")
  have up1: "counts_up v e r r1"
    using counts_up_incr [OF assms(1), of e r key] y by simp
  then have "e \<le> vw_clock v r1 + w"
    using assms(3) by (simp add: counts_up_def)
  then have "counts_up v e r1 (snd (rd_pexpire rd key w r1))"
    by (rule counts_up_pexpire [OF assms(1,2)])
  moreover have "r' = r1 \<or> r' = snd (rd_pexpire rd key w r1)"
    using assms(4) y unfolding tr_script_def by (auto simp: then_st_def split: sum.splits prod.splits if_splits)
  ultimately have up2: "counts_up v e r1 r'"
    by auto
  show "counts_up v e r r'"
    using up1 up2 by (rule counts_up_trans)
  assume x: "x = Inr (n, ttl)" and until: "lasts v e key r" "vw_clock v r' < e"
  have "y = Inr n"
    using assms(4) y x unfolding tr_script_def by (cases y) (auto simp: then_st_def split: sum.splits prod.splits if_splits)
  moreover have "vw_clock v r1 < e"
    using up2 until(2) by (simp add: counts_up_def)
  ultimately show "vw_value v r key < unat n \<and> vw_value v r key < vw_value v r' key"
    using incr_answer [OF assms(1), of key r n r1 e] y until up2 by (auto simp: counts_up_def)
qed

fun middleware_step :: "'r redis \<Rightarrow> tenant_rl_config \<Rightarrow> string \<Rightarrow> u64 \<times> string option \<Rightarrow> 'r \<Rightarrow> bool \<times> 'r" where
  "middleware_step rd cfg t (now_ms, t') r =
     (let (resp, r') = rate_limit_middleware rd cfg now_ms t' r in (resp = NextWithTenant t, r'))"

lemma middleware_step_counts:
  assumes "redis_counts rd v" "tr_fail_mode cfg = FailClosed" "t' = Some t \<longrightarrow> tr_key t now_ms = key" "e \<le> vw_clock v r + 1000"
  shows "counts_up v e r (snd (middleware_step rd cfg t (now_ms, t') r))"
    and "lasts v e key r \<Longrightarrow> vw_clock v (snd (middleware_step rd cfg t (now_ms, t') r)) < e \<Longrightarrow> fst (middleware_step rd cfg t (now_ms, t') r)
      \<Longrightarrow> vw_value v r key < unat (tr_requests_per_second cfg)
        \<and> vw_value v r key < vw_value v (snd (middleware_step rd cfg t (now_ms, t') r)) key"
proof -
  let ?step = "middleware_step rd cfg t (now_ms, t') r"
  have "counts_up v e r (snd ?step)
    \<and> (lasts v e key r \<longrightarrow> vw_clock v (snd ?step) < e \<longrightarrow> fst ?step
       \<longrightarrow> vw_value v r key < unat (tr_requests_per_second cfg) \<and> vw_value v r key < vw_value v (snd ?step) key)"
  proof (cases t')
    case None
    then show ?thesis by (simp add: rate_limit_middleware_def)
  next
    case (Some t1)
    obtain x r1 where x: "tr_script rd (tr_key t1 now_ms) 1000 r = (x, r1)" by (cases "tr_script rd (tr_key t1 now_ms) 1000 r")
    note counts = tr_script_counts [OF assms(1) _ assms(4) x]
    show ?thesis
      using Some x counts(1) counts(2) assms(2,3)
      by (auto simp: rate_limit_middleware_def tenant_check_def Let_def word_le_nat_alt not_less
          split: sum.splits prod.splits if_splits)
  qed
  then show "counts_up v e r (snd ?step)"
    and "lasts v e key r \<Longrightarrow> vw_clock v (snd ?step) < e \<Longrightarrow> fst ?step
      \<Longrightarrow> vw_value v r key < unat (tr_requests_per_second cfg) \<and> vw_value v r key < vw_value v (snd ?step) key"
    by blast+
qed

text \<open>
  Behind the middleware, with the default fail mode, at most \<open>requests_per_second\<close> requests of a tenant
  pass in one second, whatever requests of other tenants come in between and whichever commands of
  Redis fail; a request without tenant never passes. The run takes less than a second by the clock of Redis.
\<close>

theorem middleware_bound:
  assumes "redis_counts rd v" "tr_fail_mode cfg = FailClosed"
    and "\<forall>now_ms. (now_ms, Some tenant) \<in> set reqs \<longrightarrow> tr_key tenant now_ms = key"
    and "vw_clock v (after_steps (map (middleware_step rd cfg tenant) reqs) r) < vw_clock v r + 1000" "lasts v (vw_clock v r + 1000) key r"
  shows "admitted (map (middleware_step rd cfg tenant) reqs) r \<le> unat (tr_requests_per_second cfg) - vw_value v r key"
proof (rule counted_admissions [OF _ _ order_refl assms(5,4)])
  fix f q assume "f \<in> set (map (middleware_step rd cfg tenant) reqs)" and late: "vw_clock v r \<le> vw_clock v q"
  then obtain now_ms t' where f: "(now_ms, t') \<in> set reqs" "f = middleware_step rd cfg tenant (now_ms, t')"
    by auto
  then have key: "t' = Some tenant \<longrightarrow> tr_key tenant now_ms = key"
    using assms(3) by auto
  have le: "vw_clock v r + 1000 \<le> vw_clock v q + 1000"
    using late by simp
  show "counts_up v (vw_clock v r + 1000) q (snd (f q))"
    unfolding f(2) by (rule middleware_step_counts(1) [OF assms(1,2) key le])
  assume "lasts v (vw_clock v r + 1000) key q" "vw_clock v (snd (f q)) < vw_clock v r + 1000" "fst (f q)"
  then show "vw_value v q key < unat (tr_requests_per_second cfg) \<and> vw_value v q key < vw_value v (snd (f q)) key"
    unfolding f(2) by (rule middleware_step_counts(2) [OF assms(1,2) key le])
qed

text \<open>
  When the counter cannot be raised, the limiter of the API refuses under the default fail mode and
  the quota lets the request pass.
\<close>

theorem redis_down:
  assumes "\<And>k. \<exists>e. rd_incr rd k r = (Inl e, r)"
  shows "rate_limit_middleware rd tenant_rl_config_default now_ms (Some t) r = (TooManyRequestsAfter 60, r)
    \<and> record_request rd format_time cfg now now' t r = (Inr (), r)"
proof -
  obtain e where "rd_incr rd (tr_key t now_ms) r = (Inl e, r)" using assms by blast
  moreover obtain e' where "rd_incr rd (minute_key format_time t now) r = (Inl e', r)" using assms by blast
  ultimately show ?thesis
    by (simp add: rate_limit_middleware_def tenant_check_def tr_script_def tenant_rl_config_default_def
        record_request_def count_request_def then_st_def)
qed

lemma count_request_counts:
  assumes "redis_counts rd v" "0 < ttl" "e \<le> vw_clock v r + 1000 * ttl" "count_request rd key ttl res limit r = (x, r')"
  shows "counts_up v e r r'"
    and "x = Some (Inr u) \<Longrightarrow> lasts v e key r \<Longrightarrow> vw_clock v r' < e \<Longrightarrow> vw_value v r key < unat limit \<and> vw_value v r key < vw_value v r' key"
proof -
  obtain y r1 where y: "rd_incr rd key r = (y, r1)" by (cases "rd_incr rd key r")
  have up1: "counts_up v e r r1"
    using counts_up_incr [OF assms(1), of e r key] y by simp
  then have "e \<le> vw_clock v r1 + 1000 * ttl"
    using assms(3) by (simp add: counts_up_def)
  then have "counts_up v e r1 (snd (rd_expire rd key ttl r1))"
    by (rule counts_up_expire [OF assms(1,2)])
  moreover have "r' = r1 \<or> r' = snd (rd_expire rd key ttl r1)"
    using assms(4) y unfolding count_request_def by (auto split: sum.splits prod.splits if_splits)
  ultimately have up2: "counts_up v e r1 r'"
    by auto
  show "counts_up v e r r'"
    using up1 up2 by (rule counts_up_trans)
  assume x: "x = Some (Inr u)" and until: "lasts v e key r" "vw_clock v r' < e"
  obtain n where n: "y = Inr n" "n \<le> limit"
    using assms(4) y x unfolding count_request_def
    by (cases y) (auto simp: not_less split: sum.splits prod.splits if_splits)
  moreover have "vw_clock v r1 < e"
    using up2 until(2) by (simp add: counts_up_def)
  ultimately show "vw_value v r key < unat limit \<and> vw_value v r key < vw_value v r' key"
    using incr_answer [OF assms(1), of key r n r1 e] y until up2 by (auto simp: counts_up_def word_le_nat_alt)
qed

definition quota_step ::
  "'r redis \<Rightarrow> (string \<Rightarrow> time \<Rightarrow> string) \<Rightarrow> quota_config \<Rightarrow> string \<Rightarrow> time \<times> time \<times> string \<Rightarrow> 'r \<Rightarrow> bool \<times> 'r" where
  "quota_step rd format_time cfg tenant req r =
     (case req of (now, now', t) \<Rightarrow>
        let (x, r') = record_request rd format_time cfg now now' t r
        in (t = tenant \<and> x = Inr () \<and> \<not> isl (fst (rd_incr rd (minute_key format_time t now) r)), r'))"

lemma quota_step_counts:
  assumes cnt: "redis_counts rd v" and time: "e \<le> vw_clock v r + 120000"
  shows "counts_up v e r (snd (quota_step rd format_time cfg tenant (now, now', t) r))"
    and "lasts v e (minute_key format_time tenant now) r \<Longrightarrow> vw_clock v (snd (quota_step rd format_time cfg tenant (now, now', t) r)) < e
      \<Longrightarrow> fst (quota_step rd format_time cfg tenant (now, now', t) r)
      \<Longrightarrow> vw_value v r (minute_key format_time tenant now) < unat (qc_max_requests_per_minute cfg)
        \<and> vw_value v r (minute_key format_time tenant now)
          < vw_value v (snd (quota_step rd format_time cfg tenant (now, now', t) r)) (minute_key format_time tenant now)"
proof -
  let ?mk = "minute_key format_time t now" and ?step = "quota_step rd format_time cfg tenant (now, now', t) r"
  obtain x r1 where x: "count_request rd ?mk 120 ''requests_per_minute'' (qc_max_requests_per_minute cfg) r = (x, r1)"
    by (metis surj_pair)
  obtain y r2 where y: "count_request rd (day_key format_time t now') 86400 ''requests_per_day'' (qc_max_requests_per_day cfg) r1 = (y, r2)"
    by (metis surj_pair)
  have state: "snd ?step = r1 \<or> snd ?step = r2"
    unfolding quota_step_def record_request_def by (auto simp: x y Let_def split: option.splits sum.splits)
  have up1: "counts_up v e r r1"
    by (rule count_request_counts(1) [OF cnt _ _ x]) (use time in simp_all)
  then have "vw_clock v r \<le> vw_clock v r1"
    by (simp add: counts_up_def)
  then have up2: "counts_up v e r1 r2"
    by (intro count_request_counts(1) [OF cnt _ _ y]) (use time in simp_all)
  have up3: "counts_up v e r1 (snd ?step)"
    using state up2 by auto
  show "counts_up v e r (snd ?step)"
    using up1 up3 by (rule counts_up_trans)
  assume until: "lasts v e (minute_key format_time tenant now) r" "vw_clock v (snd ?step) < e" and ok: "fst ?step"
  have "isl (fst (rd_incr rd ?mk r))" if "x = None"
    using x that by (auto simp: count_request_def split: prod.splits sum.splits if_splits)
  with ok have t: "t = tenant" and "x = Some (Inr ())"
    unfolding quota_step_def record_request_def by (auto simp: x y Let_def split: option.splits sum.splits)
  moreover have "vw_clock v r1 < e"
    using up3 until(2) by (simp add: counts_up_def)
  ultimately have "vw_value v r ?mk < unat (qc_max_requests_per_minute cfg) \<and> vw_value v r ?mk < vw_value v r1 ?mk"
    using count_request_counts(2) [OF cnt _ _ x, of e "()"] until(1) time by simp
  moreover have "lasts v e ?mk r1"
    using up1 until(1) \<open>vw_clock v r1 < e\<close> t by (auto simp: counts_up_def)
  ultimately show "vw_value v r (minute_key format_time tenant now) < unat (qc_max_requests_per_minute cfg)
        \<and> vw_value v r (minute_key format_time tenant now) < vw_value v (snd ?step) (minute_key format_time tenant now)"
    using up3 until(2) t by (fastforce simp: counts_up_def)
qed

text \<open>
  Of the requests of a tenant in one minute that Redis counted, the quota accepts at most
  \<open>max_requests_per_minute\<close>, when they take less than the two minutes after which the counter falls due.
\<close>

theorem quota_minute_bound:
  assumes cnt: "redis_counts rd v"
    and min: "\<forall>now now'. (now, now', tenant) \<in> set reqs \<longrightarrow> minute_key format_time tenant now = key"
    and time: "vw_clock v (after_steps (map (quota_step rd format_time cfg tenant) reqs) r) < vw_clock v r + 120000"
      "lasts v (vw_clock v r + 120000) key r"
  shows "admitted (map (quota_step rd format_time cfg tenant) reqs) r \<le> unat (qc_max_requests_per_minute cfg) - vw_value v r key"
proof (rule counted_admissions [OF _ _ order_refl time(2,1)])
  fix f q assume "f \<in> set (map (quota_step rd format_time cfg tenant) reqs)" and late: "vw_clock v r \<le> vw_clock v q"
  then obtain now now' t where f: "(now, now', t) \<in> set reqs" "f = quota_step rd format_time cfg tenant (now, now', t)"
    by auto
  have le: "vw_clock v r + 120000 \<le> vw_clock v q + 120000"
    using late by simp
  show "counts_up v (vw_clock v r + 120000) q (snd (f q))"
    unfolding f(2) by (rule quota_step_counts(1) [OF cnt le])
  assume until: "lasts v (vw_clock v r + 120000) key q" "vw_clock v (snd (f q)) < vw_clock v r + 120000" and ok: "fst (f q)"
  have "t = tenant"
    using ok by (auto simp: f(2) quota_step_def split: prod.splits)
  then have "minute_key format_time tenant now = key"
    using min f(1) by auto
  with quota_step_counts(2) [OF cnt le, of format_time tenant now cfg now' t] until ok
  show "vw_value v q key < unat (qc_max_requests_per_minute cfg) \<and> vw_value v q key < vw_value v (snd (f q)) key"
    unfolding f(2) by simp
qed

text \<open>
  Whatever the query of a request without authentication is, the tenant extracted from it is a well
  formed identifier: between 1 and 128 characters, letters, digits, \<open>-\<close> and \<open>_\<close> only, so it cannot add a
  separator to a key of Redis.
\<close>

theorem tenant_extraction_valid: "valid_tenant (tenant_extraction query)"
proof -
  have "valid_tenant ''default''"
    by (simp add: valid_tenant_def ascii_alphanumeric_def Let_def)
  then show ?thesis
    by (auto simp: tenant_extraction_def split: option.splits)
qed
section \<open>A store\<close>

text \<open>
  A small Redis: counters up to the largest signed number with their timeouts, under a clock that stands still, and
  sorted sets as lists.
\<close>

record mini_store =
  ms_counts :: "string \<Rightarrow> nat"
  ms_due :: "string \<Rightarrow> int option"
  ms_clock :: int
  ms_zsets :: "string \<Rightarrow> (string \<times> int) list"

definition mini_empty :: mini_store where
  "mini_empty = \<lparr>ms_counts = (\<lambda>_. 0), ms_due = (\<lambda>_. None), ms_clock = 0, ms_zsets = (\<lambda>_. [])\<rparr>"

definition mini_timeout :: "string \<Rightarrow> int \<Rightarrow> mini_store \<Rightarrow> mini_store" where
  "mini_timeout k ms r =
     (if ms \<le> 0 then r\<lparr>ms_counts := (ms_counts r)(k := 0), ms_due := (ms_due r)(k := None), ms_zsets := (ms_zsets r)(k := [])\<rparr>
      else r\<lparr>ms_due := (ms_due r)(k \<mapsto> ms_clock r + ms)\<rparr>)"

definition mini_redis :: "mini_store redis" where
  "mini_redis = \<lparr>
     rd_incr = (\<lambda>k r. if 2 ^ 63 - 1 \<le> ms_counts r k then (Inl ''increment or decrement would overflow'', r)
       else (Inr (word_of_nat (Suc (ms_counts r k))), r\<lparr>ms_counts := (ms_counts r)(k := Suc (ms_counts r k))\<rparr>)),
     rd_decr = (\<lambda>k r. (Inl ''not used'', r)),
     rd_expire = (\<lambda>k n r. (Inr (), mini_timeout k (1000 * n) r)),
     rd_pexpire = (\<lambda>k n r. (Inr (), mini_timeout k n r)),
     rd_ttl = (\<lambda>k r. Inr 60),
     rd_pttl = (\<lambda>k r. Inr 1000),
     rd_get = (\<lambda>k r. Inr (word_of_nat (ms_counts r k))),
     rd_get_opt = (\<lambda>k r. Inr (Some (word_of_nat (ms_counts r k)))),
     rd_set = (\<lambda>k n r. (Inr (), r\<lparr>ms_counts := (ms_counts r)(k := unat n)\<rparr>)),
     rd_del = (\<lambda>k r. (Inr (), r\<lparr>ms_counts := (ms_counts r)(k := 0), ms_due := (ms_due r)(k := None), ms_zsets := (ms_zsets r)(k := [])\<rparr>)),
     rd_zrembyscore = (\<lambda>k lo hi r. (Inr (), r\<lparr>ms_zsets := (ms_zsets r)(k := filter (\<lambda>x. snd x < lo \<or> hi < snd x) (ms_zsets r k))\<rparr>)),
     rd_zcard = (\<lambda>k r. let n = length (remdups (ms_zsets r k)) in if n < 2 ^ 63 then Inr (word_of_nat n) else Inl ''overflow''),
     rd_zadd = (\<lambda>k m sc r. (Inr (), r\<lparr>ms_zsets := (ms_zsets r)(k := (m, sc) # filter (\<lambda>x. fst x \<noteq> m) (ms_zsets r k))\<rparr>))\<rparr>"

lemma unat_small: "n < 2 ^ 63 \<Longrightarrow> unat (word_of_nat n :: u64) = n"
  by (simp add: unat_of_nat take_bit_nat_eq_self)

definition mini_due :: "int option \<Rightarrow> int \<Rightarrow> int option" where
  "mini_due d now = (if \<exists>t. d = Some t \<and> t \<le> now then None else d)"

definition mini_view :: "(mini_store, nat) redis_view" where
  "mini_view = \<lparr>vw_value = ms_counts, vw_missing = 0, vw_due = (\<lambda>r k. mini_due (ms_due r k) (ms_clock r)), vw_clock = ms_clock\<rparr>"

lemma mini_view_simps [simp]:
  "vw_value mini_view = ms_counts" "vw_missing mini_view = 0" "vw_clock mini_view = ms_clock"
  "vw_due mini_view r = (\<lambda>k. mini_due (ms_due r k) (ms_clock r))"
  by (simp_all add: mini_view_def)

lemma mini_aged [simp]: "ages mini_view r r"
  by (auto simp: ages_def overdue_def mini_due_def split: option.splits)

lemma mini_timeout_sets: "sets_timeout mini_view k ms r (mini_timeout k ms r)"
  by (auto simp: sets_timeout_def mini_timeout_def fun_eq_iff) (simp_all add: mini_due_def)

lemma mini_redis_counts: "redis_counts mini_redis mini_view"
  unfolding redis_counts_def
proof (intro conjI allI)
  fix k r
  show "\<exists>r1. ages mini_view r r1 \<and> (case rd_incr mini_redis k r of
      (Inr n, r') \<Rightarrow> raises mini_view k r1 r' \<and> unat n = vw_value mini_view r' k
    | (Inl _, r') \<Rightarrow> raises mini_view k r1 r' \<or> unchanged mini_view r1 r')"
    by (rule exI [of _ r])
      (use unat_small in \<open>auto simp: mini_redis_def raises_def unchanged_def not_le less_diff_conv simp del: of_nat_Suc\<close>)
next
  fix k n r
  show "\<exists>r1. ages mini_view r r1 \<and> (case rd_expire mini_redis k n r of
      (Inr _, r') \<Rightarrow> sets_timeout mini_view k (1000 * n) r1 r'
    | (Inl _, r') \<Rightarrow> sets_timeout mini_view k (1000 * n) r1 r' \<or> unchanged mini_view r1 r')"
    by (rule exI [of _ r]) (simp add: mini_redis_def mini_timeout_sets)
  show "\<exists>r1. ages mini_view r r1 \<and> (case rd_pexpire mini_redis k n r of
      (Inr _, r') \<Rightarrow> sets_timeout mini_view k n r1 r' | (Inl _, r') \<Rightarrow> sets_timeout mini_view k n r1 r' \<or> unchanged mini_view r1 r')"
    by (rule exI [of _ r]) (simp add: mini_redis_def mini_timeout_sets)
qed simp

text \<open>The clock of the small Redis stands still.\<close>

lemma mini_clock_still:
  "ms_clock (snd (rd_incr mini_redis k r)) = ms_clock r" "ms_clock (snd (rd_expire mini_redis k n r)) = ms_clock r"
  "ms_clock (snd (rd_pexpire mini_redis k n r)) = ms_clock r"
  by (simp_all add: mini_redis_def mini_timeout_def)

lemma mini_redis_zsets: "redis_zsets mini_redis (\<lambda>r k. set (ms_zsets r k))"
  using unat_small by (auto simp: redis_zsets_def mini_redis_def mini_timeout_def Let_def length_remdups_card_conv fun_eq_iff split: if_splits)

lemma mini_fixed_still: "check_fixed mini_redis cfg now t r = (x, r') \<Longrightarrow> ms_clock r' = ms_clock r"
  using check_fixed_state [of mini_redis cfg now t r] by (auto simp: Let_def mini_clock_still split: if_splits)

lemma mini_middleware_still: "rate_limit_middleware mini_redis cfg now t r = (x, r') \<Longrightarrow> ms_clock r' = ms_clock r"
  by (auto simp: rate_limit_middleware_def tenant_check_def tr_script_def then_st_def mini_redis_def mini_timeout_def
      split: option.splits sum.splits prod.splits if_splits rate_limit_fail_mode.splits)

lemma mini_quota_still: "record_request mini_redis format_time cfg now now' t r = (x, r') \<Longrightarrow> ms_clock r' = ms_clock r"
  by (auto simp: record_request_def count_request_def mini_redis_def mini_timeout_def Let_def
      split: option.splits sum.splits prod.splits if_splits)

lemma mini_steps_still:
  "(\<And>f r. f \<in> set fs \<Longrightarrow> ms_clock (snd (f r)) = ms_clock r) \<Longrightarrow> ms_clock (after_steps fs r) = ms_clock r"
  by (induction fs arbitrary: r) auto

theorem fixed_window_bound_witness:
  "admitted (map (fixed_step mini_redis (rl_config_default\<lparr>rl_max_requests := 1\<rparr>) ''a'' 1)
      [(61, ''a''), (61, ''b''), (62, ''a''), (59, ''a''), (119, ''a'')]) mini_empty \<le> 1"
proof -
  let ?cfg = "rl_config_default\<lparr>rl_max_requests := 1\<rparr>"
  let ?run = "map (fixed_step mini_redis ?cfg ''a'' 1) [(61, ''a''), (61, ''b''), (62, ''a''), (59, ''a''), (119, ''a'')]"
  have "ms_clock (after_steps ?run mini_empty) = ms_clock mini_empty"
    by (rule mini_steps_still) (auto simp: fixed_step_def Let_def dest: mini_fixed_still split: prod.splits)
  then show ?thesis
    using fixed_window_bound [OF mini_redis_counts _ refl, of ?cfg "''a''" 1 "[(61, ''a''), (61, ''b''), (62, ''a''), (59, ''a''), (119, ''a'')]" mini_empty]
    by (simp add: rl_config_default_def lasts_def mini_due_def mini_empty_def)
qed

theorem sliding_window_bound_witness:
  "length (filter (\<lambda>(now, x). granted x \<and> 60 < uint now)
      (fst (sliding_checks mini_redis (rl_config_default\<lparr>rl_max_requests := 1\<rparr>) ''a'' [(61, ''p''), (62, ''q'')] mini_empty))) \<le> 1"
proof -
  have "distinct (map (\<lambda>(now, u). rl_request_id now u) [(61, ''p''), (62, ''q'')])"
    by code_simp
  then show ?thesis
    using sliding_window_bound [OF mini_redis_zsets, of "rl_config_default\<lparr>rl_max_requests := 1\<rparr>" 1 60
        "[(61, ''p''), (62, ''q'')]" mini_empty "''a''"]
    by (simp add: rl_config_default_def mini_empty_def kept_after_def)
qed

theorem sliding_first_second_unlimited_witness:
  "granted (fst (check_sliding mini_redis (rl_config_default\<lparr>rl_max_requests := 1\<rparr>) 60 ''r'' ''a''
     (mini_empty\<lparr>ms_zsets := \<lambda>_. [(''60:p'', 60), (''60:q'', 60)]\<rparr>)))"
  by (rule sliding_first_second_unlimited [OF mini_redis_zsets]) (auto simp: rl_config_default_def mini_redis_def)

theorem middleware_bound_witness:
  "admitted (map (middleware_step mini_redis (tenant_rl_config_default\<lparr>tr_requests_per_second := 1\<rparr>) ''a'')
      [(5000, Some ''a''), (5200, Some ''b''), (5999, Some ''a''), (5001, None)]) mini_empty \<le> 1"
proof -
  let ?cfg = "tenant_rl_config_default\<lparr>tr_requests_per_second := 1\<rparr>"
  let ?run = "map (middleware_step mini_redis ?cfg ''a'') [(5000, Some ''a''), (5200, Some ''b''), (5999, Some ''a''), (5001, None)]"
  have "ms_clock (after_steps ?run mini_empty) = ms_clock mini_empty"
    by (rule mini_steps_still) (auto dest: mini_middleware_still split: prod.splits)
  moreover have "tr_key ''a'' 5000 = tr_key ''a'' 5999" "tr_key ''a'' 5001 = tr_key ''a'' 5999"
    by (simp_all add: tr_key_def)
  ultimately show ?thesis
    using middleware_bound [OF mini_redis_counts, of ?cfg "''a''"
        "[(5000, Some ''a''), (5200, Some ''b''), (5999, Some ''a''), (5001, None)]" "tr_key ''a'' 5999" mini_empty]
    by (auto simp: lasts_def mini_due_def mini_empty_def tenant_rl_config_default_def simp del: middleware_step.simps after_steps_simps admitted.simps list.map)
qed

theorem redis_down_witness:
  "rate_limit_middleware (mini_redis\<lparr>rd_incr := \<lambda>k r. (Inl ''down'', r)\<rparr>) tenant_rl_config_default 5000 (Some ''a'') mini_empty
     = (TooManyRequestsAfter 60, mini_empty)
   \<and> record_request (mini_redis\<lparr>rd_incr := \<lambda>k r. (Inl ''down'', r)\<rparr>) (\<lambda>f t. f) DEFAULT_QUOTA 0 0 ''a'' mini_empty = (Inr (), mini_empty)"
  by (rule redis_down) simp

theorem quota_minute_bound_witness:
  "admitted (map (quota_step mini_redis (\<lambda>f t. f) (DEFAULT_QUOTA\<lparr>qc_max_requests_per_minute := 1\<rparr>) ''a'')
      [(0, 0, ''a''), (1, 1, ''b''), (2, 2, ''a'')]) mini_empty \<le> 1"
proof -
  let ?cfg = "DEFAULT_QUOTA\<lparr>qc_max_requests_per_minute := 1\<rparr>"
  let ?run = "map (quota_step mini_redis (\<lambda>f t. f) ?cfg ''a'') [(0, 0, ''a''), (1, 1, ''b''), (2, 2, ''a'')]"
  have "ms_clock (after_steps ?run mini_empty) = ms_clock mini_empty"
    by (rule mini_steps_still) (auto simp: quota_step_def Let_def dest: mini_quota_still split: prod.splits)
  moreover have "minute_key (\<lambda>f t. f) ''a'' now = minute_key (\<lambda>f t. f) ''a'' 0" for now
    by (simp add: minute_key_def)
  ultimately show ?thesis
    using quota_minute_bound [OF mini_redis_counts, where tenant = "''a''" and reqs = "[(0, 0, ''a''), (1, 1, ''b''), (2, 2, ''a'')]"
      and format_time = "\<lambda>f t. f" and key = "minute_key (\<lambda>f t. f) ''a'' 0" and r = mini_empty and cfg = ?cfg]
    by (auto simp: lasts_def mini_due_def mini_empty_def DEFAULT_QUOTA_def simp del: after_steps_simps admitted.simps list.map)
qed

end
