(* ===== verification/Services.thy ===== *)
theory Services
  imports Backend Limits Key_Format
begin

text \<open>
  The service layer, \<^verbatim>\<open>crates/kms-api/src/service\<close>: key life cycle (\<^verbatim>\<open>key_service.rs\<close>), cryptographic
  operations (\<^verbatim>\<open>crypto_service.rs\<close>), envelopes (\<^verbatim>\<open>envelope_service.rs\<close>) and the mapping of errors
  (\<^verbatim>\<open>error.rs\<close>, \<^verbatim>\<open>mod.rs\<close> and \<^verbatim>\<open>kms-api/src/error.rs\<close>). A service works on a keystore, given by its
  operations as a \<open>backend\<close>, and on Redis for quotas and operation counters. Its state is the pair of
  both. Metrics and log output are left out.
\<close>

section \<open>Errors\<close>

text \<open>A panic is no error value of the source: it passes every mapping unchanged.\<close>

datatype service_error =
    SvKeyNotFound msg
  | SvKeyVersionNotFound msg
  | SvKeyOperationNotAllowed msg
  | SvInvalidCiphertext
  | SvInvalidAlgorithm msg
  | SvQuotaExceeded string "64 word" "64 word"
  | SvRateLimitExceeded
  | SvInvalidSpec msg
  | SvValidationError msg
  | SvEncryptionFailed msg
  | SvDecryptionFailed msg
  | SvSignatureFailed msg
  | SvInternal msg
  | SvPanicked string

fun service_error_from :: "kms_error \<Rightarrow> service_error" where
  "service_error_from (KeyNotFound i) = SvKeyNotFound i"
| "service_error_from (KeyVersionNotFound i) = SvKeyVersionNotFound i"
| "service_error_from (KeyOperationNotAllowed m) = SvKeyOperationNotAllowed m"
| "service_error_from InvalidCiphertext = SvInvalidCiphertext"
| "service_error_from (InvalidAlgorithm m) = SvInvalidAlgorithm m"
| "service_error_from (EncryptionFailed m) = SvEncryptionFailed m"
| "service_error_from (DecryptionFailed m) = SvDecryptionFailed m"
| "service_error_from (SignatureFailed m) = SvSignatureFailed m"
| "service_error_from (VerificationFailed m) = SvSignatureFailed m"
| "service_error_from (InvalidKeySpec sp) = SvInvalidSpec sp"
| "service_error_from (NotImplemented m) = SvInternal m"
| "service_error_from (Internal m) = SvInternal m"
| "service_error_from (Panicked p) = SvPanicked p"
| "service_error_from e = SvInternal (err_display e)"

datatype api_error =
    ApiKeyNotFound msg
  | ApiNotFound msg
  | ApiPermissionDenied
  | ApiForbidden msg
  | ApiInvalidRequest msg
  | ApiInvalidArgument msg
  | ApiBadRequest msg
  | ApiInternal msg
  | ApiQuotaExceeded string u64 u64
  | ApiTooManyRequests msg
  | ApiNotImplemented
  | ApiPanicked string

fun into_api_error :: "service_error \<Rightarrow> api_error" where
  "into_api_error (SvKeyNotFound i) = ApiKeyNotFound i"
| "into_api_error (SvKeyVersionNotFound i) = ApiKeyNotFound i"
| "into_api_error (SvKeyOperationNotAllowed m) = ApiForbidden m"
| "into_api_error SvInvalidCiphertext = ApiInvalidRequest (Lit ''invalid ciphertext'')"
| "into_api_error (SvInvalidAlgorithm m) = ApiInvalidRequest m"
| "into_api_error (SvQuotaExceeded r c l) = ApiQuotaExceeded r c l"
| "into_api_error SvRateLimitExceeded = ApiForbidden (Lit ''rate limit exceeded'')"
| "into_api_error (SvInvalidSpec sp) = ApiInvalidRequest (Fmt [Lit ''invalid spec: '', sp])"
| "into_api_error (SvValidationError m) = ApiInvalidRequest m"
| "into_api_error (SvEncryptionFailed m) = ApiInternal m"
| "into_api_error (SvDecryptionFailed m) = ApiInternal m"
| "into_api_error (SvSignatureFailed m) = ApiInternal m"
| "into_api_error (SvInternal m) = ApiInternal m"
| "into_api_error (SvPanicked p) = ApiPanicked p"

definition to_api :: "kms_error \<Rightarrow> api_error" where
  "to_api e = into_api_error (service_error_from e)"

text \<open>The answer of the HTTP interface: the status and the text under \<open>error\<close>; a panic has none.\<close>

fun into_response :: "api_error \<Rightarrow> (nat \<times> msg) option" where
  "into_response (ApiKeyNotFound i) = Some (404, Lit ''key not found'')"
| "into_response (ApiNotFound m) = Some (404, m)"
| "into_response ApiPermissionDenied = Some (403, Lit ''permission denied'')"
| "into_response (ApiForbidden m) = Some (403, m)"
| "into_response (ApiInvalidRequest m) = Some (400, m)"
| "into_response (ApiInvalidArgument m) = Some (400, m)"
| "into_response (ApiBadRequest m) = Some (400, m)"
| "into_response (ApiInternal m) = Some (500, Lit ''internal server error'')"
| "into_response (ApiQuotaExceeded r c l) =
     Some (429, Fmt [Lit ''quota exceeded: '', Str r, Lit '' ('', Num (unat c), Lit ''/'', Num (unat l), Lit '')''])"
| "into_response (ApiTooManyRequests m) = Some (429, m)"
| "into_response ApiNotImplemented = Some (501, Lit ''not implemented'')"
| "into_response (ApiPanicked p) = None"

section \<open>Configuration and state\<close>

text \<open>
  Functions of other crates the services call besides those of \<open>crypto\<close>: HMAC-SM3, RSA-OAEP and base64.
\<close>

record svc_crates =
  sm3_hmac :: "bytes \<Rightarrow> bytes \<Rightarrow> string + bytes"
  sm3_hmac_verify :: "bytes \<Rightarrow> bytes \<Rightarrow> bytes \<Rightarrow> string + bool"
  rsa_from_pkcs1_der :: "bytes \<Rightarrow> string + unit"
  rsa_oaep_encrypt :: "bytes \<Rightarrow> rng \<Rightarrow> bytes \<Rightarrow> string + bytes"
  b64_encode :: "bytes \<Rightarrow> string"

record ('n, 's, 'r) services =
  svc_keystore :: "('n, 's) backend"
  svc_redis :: "'r redis"
  svc_quota_tracker :: "quota_config option"
  svc_op_counter :: bool
  svc_format_time :: "string \<Rightarrow> time \<Rightarrow> string"
  svc_uuid_str :: "uuid \<Rightarrow> string"

record ('s, 'r) svc_state =
  sv_keystore :: 's
  sv_redis :: 'r

text \<open>What a call draws on: an environment per call of the keystore, clock readings and random sources.\<close>

record 'n call =
  cl_envs :: "nat \<Rightarrow> 'n"
  cl_clock :: "nat \<Rightarrow> time"
  cl_rngs :: "nat \<Rightarrow> sys_rng"
  cl_os_rng :: rng

text \<open>A call of the keystore with its error mapped, and the two uses of Redis.\<close>

definition keystore_call ::
  "(kms_error \<Rightarrow> api_error) \<Rightarrow> ('s \<Rightarrow> (kms_error + 'a) \<times> 's) \<Rightarrow> ('s, 'r) svc_state \<Rightarrow> (api_error + 'a) \<times> ('s, 'r) svc_state" where
  "keystore_call h f st = (let (x, ks) = f (sv_keystore st) in (map_err h x, st\<lparr>sv_keystore := ks\<rparr>))"

definition check_quota ::
  "('n, 's, 'r) services \<Rightarrow> 'n call \<Rightarrow> string \<Rightarrow> ('s, 'r) svc_state \<Rightarrow> (api_error + unit) \<times> ('s, 'r) svc_state" where
  "check_quota sv cl tenant_id st =
     (case svc_quota_tracker sv of
        None \<Rightarrow> (Inr (), st)
      | Some q \<Rightarrow>
          let (x, r) = record_request (svc_redis sv) (svc_format_time sv) q (cl_clock cl 0) (cl_clock cl 1) tenant_id (sv_redis st)
          in (map_err (\<lambda>e. ApiQuotaExceeded (qe_resource e) (qe_current e) (qe_limit e)) x, st\<lparr>sv_redis := r\<rparr>))"

definition count_operation :: "('n, 's, 'r) services \<Rightarrow> uuid \<Rightarrow> ('s, 'r) svc_state \<Rightarrow> ('s, 'r) svc_state" where
  "count_operation sv key_id st =
     (if svc_op_counter sv then st\<lparr>sv_redis := snd (op_increment (svc_redis sv) (svc_uuid_str sv) key_id (sv_redis st))\<rparr>
      else st)"

section \<open>Cryptographic operations\<close>

definition build_mac_input :: "bytes option \<Rightarrow> bytes \<Rightarrow> bytes" where
  "build_mac_input aad data =
     (case aad of
        Some a \<Rightarrow> if a \<noteq> [] then be_bytes 4 (length a mod 2 ^ 32) @ a @ data else data
      | None \<Rightarrow> data)"

definition fetch_owned_key_meta ::
  "('n, 's, 'r) services \<Rightarrow> 'n \<Rightarrow> uuid \<Rightarrow> string \<Rightarrow> ('s, 'r) svc_state \<Rightarrow> (api_error + key_meta) \<times> ('s, 'r) svc_state" where
  "fetch_owned_key_meta sv n key_id tenant_id st =
     then_st (keystore_call to_api (be_get_key_metadata (svc_keystore sv) n key_id) st) (\<lambda>meta st.
       if m_tenant_id meta \<noteq> tenant_id then (Inl (ApiKeyNotFound (Id key_id)), st) else (Inr meta, st))"

text \<open>The four operations share their frame: quota, ownership, the keystore, the counter.\<close>

definition guarded_operation ::
  "('n, 's, 'r) services \<Rightarrow> 'n call \<Rightarrow> uuid \<Rightarrow> string \<Rightarrow> ('n \<Rightarrow> 's \<Rightarrow> (kms_error + 'a) \<times> 's)
    \<Rightarrow> ('s, 'r) svc_state \<Rightarrow> (api_error + 'a) \<times> ('s, 'r) svc_state" where
  "guarded_operation sv cl key_id tenant_id f st =
     then_st (check_quota sv cl tenant_id st) (\<lambda>_ st.
     then_st (fetch_owned_key_meta sv (cl_envs cl 0) key_id tenant_id st) (\<lambda>_ st.
     then_st (keystore_call to_api (f (cl_envs cl 1)) st) (\<lambda>x st.
     (Inr x, count_operation sv key_id st))))"

definition cs_encrypt ::
  "('n, 's, 'r) services \<Rightarrow> 'n call \<Rightarrow> uuid \<Rightarrow> bytes \<Rightarrow> bytes option \<Rightarrow> string
    \<Rightarrow> ('s, 'r) svc_state \<Rightarrow> (api_error + ciphertext) \<times> ('s, 'r) svc_state" where
  "cs_encrypt sv cl key_id plaintext aad tenant_id =
     guarded_operation sv cl key_id tenant_id (\<lambda>n. be_encrypt (svc_keystore sv) n key_id plaintext aad tenant_id)"

definition cs_decrypt ::
  "('n, 's, 'r) services \<Rightarrow> 'n call \<Rightarrow> uuid \<Rightarrow> ciphertext \<Rightarrow> bytes option \<Rightarrow> string
    \<Rightarrow> ('s, 'r) svc_state \<Rightarrow> (api_error + bytes) \<times> ('s, 'r) svc_state" where
  "cs_decrypt sv cl key_id c aad tenant_id =
     guarded_operation sv cl key_id tenant_id (\<lambda>n. be_decrypt (svc_keystore sv) n key_id c aad tenant_id)"

definition cs_sign ::
  "('n, 's, 'r) services \<Rightarrow> 'n call \<Rightarrow> uuid \<Rightarrow> bytes \<Rightarrow> string
    \<Rightarrow> ('s, 'r) svc_state \<Rightarrow> (api_error + signature) \<times> ('s, 'r) svc_state" where
  "cs_sign sv cl key_id data tenant_id =
     guarded_operation sv cl key_id tenant_id (\<lambda>n. be_sign (svc_keystore sv) n key_id data tenant_id)"

definition cs_verify ::
  "('n, 's, 'r) services \<Rightarrow> 'n call \<Rightarrow> uuid \<Rightarrow> bytes \<Rightarrow> signature \<Rightarrow> string
    \<Rightarrow> ('s, 'r) svc_state \<Rightarrow> (api_error + bool) \<times> ('s, 'r) svc_state" where
  "cs_verify sv cl key_id data sg tenant_id =
     guarded_operation sv cl key_id tenant_id (\<lambda>n. be_verify (svc_keystore sv) n key_id data sg tenant_id)"

definition prepare_hmac ::
  "('n, 's, 'r) services \<Rightarrow> 'n call \<Rightarrow> uuid \<Rightarrow> string
    \<Rightarrow> ('s, 'r) svc_state \<Rightarrow> (api_error + key_meta \<times> bytes) \<times> ('s, 'r) svc_state" where
  "prepare_hmac sv cl key_id tenant_id st =
     then_st (check_quota sv cl tenant_id st) (\<lambda>_ st.
     then_st (fetch_owned_key_meta sv (cl_envs cl 0) key_id tenant_id st) (\<lambda>meta st.
     if m_spec meta \<noteq> Sm3Hmac then
       (Inl (ApiInvalidRequest (Fmt [Lit ''key '', Id key_id, Lit '' is '', Dbg (spec_debug (m_spec meta)),
               Lit '', not an HMAC-SM3 key''])), st)
     else then_st (keystore_call to_api (be_get_key_material (svc_keystore sv) (cl_envs cl 1) key_id tenant_id) st)
            (\<lambda>material st. (Inr (meta, material), st))))"

definition cs_hmac ::
  "svc_crates \<Rightarrow> ('n, 's, 'r) services \<Rightarrow> 'n call \<Rightarrow> uuid \<Rightarrow> bytes \<Rightarrow> bytes option \<Rightarrow> string
    \<Rightarrow> ('s, 'r) svc_state \<Rightarrow> (api_error + bytes \<times> u32) \<times> ('s, 'r) svc_state" where
  "cs_hmac sc sv cl key_id data aad tenant_id st =
     then_st (prepare_hmac sv cl key_id tenant_id st) (\<lambda>(meta, material) st.
     then_st (map_err (\<lambda>e. ApiInternal (Fmt [Lit ''hmac-sm3 failed: '', Str e]))
                (sm3_hmac sc material (build_mac_input aad data)), st) (\<lambda>mac st.
     (Inr (mac, m_version meta), count_operation sv key_id st)))"

definition cs_hmac_verify ::
  "svc_crates \<Rightarrow> ('n, 's, 'r) services \<Rightarrow> 'n call \<Rightarrow> uuid \<Rightarrow> bytes \<Rightarrow> bytes option \<Rightarrow> bytes \<Rightarrow> string
    \<Rightarrow> ('s, 'r) svc_state \<Rightarrow> (api_error + bool) \<times> ('s, 'r) svc_state" where
  "cs_hmac_verify sc sv cl key_id data aad expected_mac tenant_id st =
     then_st (prepare_hmac sv cl key_id tenant_id st) (\<lambda>(meta, material) st.
     then_st (map_err (\<lambda>e. ApiInternal (Fmt [Lit ''hmac-sm3 verify failed: '', Str e]))
                (sm3_hmac_verify sc material (build_mac_input aad data) expected_mac), st) (\<lambda>valid st.
     (Inr valid, count_operation sv key_id st)))"

section \<open>Life cycle of keys\<close>

datatype export_protection = RsaOaep | Sm2Protection

definition parse_protection :: "string option \<Rightarrow> api_error + export_protection" where
  "parse_protection scheme =
     (case map_option (\<lambda>s. to_lowercase (trim s)) scheme of
        None \<Rightarrow> Inr RsaOaep
      | Some other \<Rightarrow>
          if other \<in> {'''', ''rsa'', ''rsa-oaep'', ''rsa_oaep'', ''rsaoaep''} then Inr RsaOaep
          else if other = ''sm2'' then Inr Sm2Protection
          else Inl (ApiInvalidRequest (Fmt [Lit ''unsupported export protection scheme: '', Str other])))"

record export_options =
  eo_protection :: export_protection
  eo_version :: "u32 option"

record exported_key =
  ek_wrapped_key :: string
  ek_encrypted_transport_key :: string
  ek_key_fingerprint :: string

text \<open>The quota of keys: refused before the key is made, counted after; a failing count is only logged.\<close>

definition check_key_quota :: "('n, 's, 'r) services \<Rightarrow> string \<Rightarrow> ('s, 'r) svc_state \<Rightarrow> api_error + unit" where
  "check_key_quota sv tenant_id st =
     (case svc_quota_tracker sv of
        None \<Rightarrow> Inr ()
      | Some q \<Rightarrow> map_err (\<lambda>_. ApiQuotaExceeded ''keys'' 0 0)
                   (and_then (can_create_key (svc_redis sv) q tenant_id (sv_redis st)) (\<lambda>_. Inr ())))"

definition count_key :: "('n, 's, 'r) services \<Rightarrow> string \<Rightarrow> ('s, 'r) svc_state \<Rightarrow> ('s, 'r) svc_state" where
  "count_key sv tenant_id st =
     (case svc_quota_tracker sv of
        None \<Rightarrow> st
      | Some q \<Rightarrow> st\<lparr>sv_redis := snd (increment_key_count (svc_redis sv) tenant_id (sv_redis st))\<rparr>)"

definition kys_create_key ::
  "('n, 's, 'r) services \<Rightarrow> 'n call \<Rightarrow> key_spec \<Rightarrow> string \<Rightarrow> string
    \<Rightarrow> ('s, 'r) svc_state \<Rightarrow> (api_error + key_meta) \<times> ('s, 'r) svc_state" where
  "kys_create_key sv cl spec name tenant_id st =
     (if \<not> is_generatable spec then
        (Inl (ApiInvalidRequest (Fmt [Str (algorithm_name spec), Lit '' cannot be generated; generatable specs are AES-256-GCM, SM4, SM2, Ed25519, HMAC-SHA256, HMAC-SM3. Importable-only specs (ECDSA/Ed448/RSA) must use the import endpoint.''])), st)
      else then_st (check_key_quota sv tenant_id st, st) (\<lambda>_ st.
           then_st (keystore_call to_api (be_generate_key (svc_keystore sv) (cl_envs cl 0) spec name tenant_id) st) (\<lambda>meta st.
           (Inr meta, count_key sv tenant_id st))))"

definition kys_rotate_key ::
  "('n, 's, 'r) services \<Rightarrow> 'n call \<Rightarrow> uuid \<Rightarrow> string
    \<Rightarrow> ('s, 'r) svc_state \<Rightarrow> (api_error + key_meta) \<times> ('s, 'r) svc_state" where
  "kys_rotate_key sv cl key_id tenant_id st =
     then_st (fetch_owned_key_meta sv (cl_envs cl 0) key_id tenant_id st) (\<lambda>_ st.
       keystore_call to_api (be_rotate_key (svc_keystore sv) (cl_envs cl 1) key_id tenant_id) st)"

definition kys_delete_key ::
  "('n, 's, 'r) services \<Rightarrow> 'n call \<Rightarrow> uuid \<Rightarrow> string
    \<Rightarrow> ('s, 'r) svc_state \<Rightarrow> (api_error + unit) \<times> ('s, 'r) svc_state" where
  "kys_delete_key sv cl key_id tenant_id st =
     then_st (fetch_owned_key_meta sv (cl_envs cl 0) key_id tenant_id st) (\<lambda>_ st.
       keystore_call to_api (be_delete_key (svc_keystore sv) (cl_envs cl 1) key_id tenant_id) st)"

definition kys_get_key ::
  "('n, 's, 'r) services \<Rightarrow> 'n call \<Rightarrow> uuid \<Rightarrow> string
    \<Rightarrow> ('s, 'r) svc_state \<Rightarrow> (api_error + key_meta) \<times> ('s, 'r) svc_state" where
  "kys_get_key sv cl key_id tenant_id st = fetch_owned_key_meta sv (cl_envs cl 0) key_id tenant_id st"

definition kys_list_keys ::
  "('n, 's, 'r) services \<Rightarrow> 'n call \<Rightarrow> key_filter \<Rightarrow> string
    \<Rightarrow> ('s, 'r) svc_state \<Rightarrow> (api_error + key_meta list) \<times> ('s, 'r) svc_state" where
  "kys_list_keys sv cl filt tenant_id st =
     keystore_call to_api (be_list_keys (svc_keystore sv) (cl_envs cl 0) (filt\<lparr>kf_tenant_id := Some tenant_id\<rparr>)) st"

definition ascii_hexdigit :: "char \<Rightarrow> bool" where
  "ascii_hexdigit c \<longleftrightarrow>
     (let n = (of_char c :: nat) in (48 \<le> n \<and> n \<le> 57) \<or> (65 \<le> n \<and> n \<le> 70) \<or> (97 \<le> n \<and> n \<le> 102))"

fun key_format_api_error :: "key_format_error \<Rightarrow> api_error" where
  "key_format_api_error (KfInvalidRequest m) = ApiInvalidRequest (Fmt [Lit ''invalid request: '', m])"
| "key_format_api_error (KfUnsupportedFormat m) = ApiInvalidRequest (Fmt [Lit ''unsupported format: '', m])"
| "key_format_api_error (KfPanicked p) = ApiPanicked p"

definition kys_import_key ::
  "'v format_crates \<Rightarrow> ('n, 's, 'r) services \<Rightarrow> 'n call \<Rightarrow> key_spec \<Rightarrow> string \<Rightarrow> string \<Rightarrow> bytes \<Rightarrow> bytes \<Rightarrow> string \<Rightarrow> string
    \<Rightarrow> ('s, 'r) svc_state \<Rightarrow> (api_error + key_meta) \<times> ('s, 'r) svc_state" where
  "kys_import_key fc sv cl spec name format wrapped_key encrypted_transport_key source_fingerprint tenant_id st =
     (if \<not> is_importable spec then
        (Inl (ApiInvalidRequest (Fmt [Str (algorithm_name spec), Lit '' cannot be imported; SM9 material is issued via KMS-SM9 master-key management and is not supported for import.''])), st)
      else if encrypted_transport_key = [] then
        (Inl (ApiInvalidRequest (Lit ''encrypted_transport_key cannot be empty'')), st)
      else if length source_fingerprint \<noteq> 64 \<or> \<not> list_all ascii_hexdigit source_fingerprint then
        (Inl (ApiInvalidRequest (Lit ''source_fingerprint must be 64 hex characters (SHA-256)'')), st)
      else then_st (map_err key_format_api_error (kf_parse fc format wrapped_key), st) (\<lambda>key_material st.
           then_st (check_key_quota sv tenant_id st, st) (\<lambda>_ st.
           then_st (keystore_call to_api
                      (be_import_key_material (svc_keystore sv) (cl_envs cl 0) spec name tenant_id key_material) st) (\<lambda>meta st.
           (Inr meta, count_key sv tenant_id st)))))"

text \<open>Random bytes in the service layer: the error of \<open>ring\<close> goes into the message.\<close>

definition api_fill :: "sys_rng \<Rightarrow> nat \<Rightarrow> string \<Rightarrow> api_error + bytes" where
  "api_fill r n what =
     (case r of
        None \<Rightarrow> Inl (ApiInternal (Fmt [Lit what, Lit ''ring::error::Unspecified'']))
      | Some g \<Rightarrow> Inr (fill_bytes g n))"

definition or_api :: "string \<Rightarrow> string + 'a \<Rightarrow> api_error + 'a" where
  "or_api what = map_err (\<lambda>e. ApiInternal (Fmt [Lit what, Str e]))"

definition check_target_key :: "export_protection \<Rightarrow> bytes \<Rightarrow> api_error + unit" where
  "check_target_key p target_public_key =
     (case p of
        RsaOaep \<Rightarrow>
          if length target_public_key < 256 then
            Inl (ApiInvalidRequest (Lit ''target_public_key too small, expected at least 2048-bit RSA''))
          else Inr ()
      | Sm2Protection \<Rightarrow>
          if length target_public_key \<noteq> 65 \<or> hd target_public_key \<noteq> 0x04 then
            Inl (ApiInvalidRequest (Lit ''SM2 export requires a 65-byte uncompressed SEC1 public key (0x04 prefix)''))
          else Inr ())"

definition wrap_rsa ::
  "'kp crypto \<Rightarrow> svc_crates \<Rightarrow> (nat \<Rightarrow> sys_rng) \<Rightarrow> rng \<Rightarrow> bytes \<Rightarrow> bytes \<Rightarrow> bytes \<Rightarrow> api_error + bytes \<times> bytes" where
  "wrap_rsa cr sc rngs os_rng target_public_key export_aad key_material =
     and_then (api_fill (rngs 0) 32 ''failed to generate transport key: '') (\<lambda>transport_key.
     and_then (or_api ''failed to create KEK: '' (aes_unbound_key cr transport_key)) (\<lambda>_.
     and_then (api_fill (rngs 1) 12 ''failed to generate nonce: '') (\<lambda>nonce_bytes.
     and_then (or_api ''failed to wrap key: '' (aes_seal cr transport_key nonce_bytes export_aad key_material)) (\<lambda>(in_out, tag).
     and_then (map_err (\<lambda>_. ApiInvalidRequest (Lit ''invalid RSA public key format'')) (rsa_from_pkcs1_der sc target_public_key)) (\<lambda>_.
     and_then (or_api ''failed to encrypt transport key: '' (rsa_oaep_encrypt sc target_public_key os_rng transport_key)) (\<lambda>etk.
     Inr (in_out @ tag, etk)))))))"

definition wrap_sm2 ::
  "'kp crypto \<Rightarrow> (nat \<Rightarrow> sys_rng) \<Rightarrow> rng \<Rightarrow> bytes \<Rightarrow> bytes \<Rightarrow> bytes \<Rightarrow> api_error + bytes \<times> bytes" where
  "wrap_sm2 cr rngs os_rng target_public_key export_aad key_material =
     and_then (api_fill (rngs 0) 16 ''failed to generate transport key: '') (\<lambda>transport_key.
     and_then (api_fill (rngs 1) 12 ''failed to generate nonce: '') (\<lambda>nonce_bytes.
     and_then (or_api ''sm4 cipher init failed: '' (sm4_cipher_new cr transport_key)) (\<lambda>_.
     and_then (or_api ''sm4-gcm wrap failed: '' (sm4_encrypt_gcm cr transport_key key_material nonce_bytes export_aad)) (\<lambda>(ct, tag).
     and_then (map_err (\<lambda>_. ApiInvalidRequest (Lit ''invalid SM2 public key format'')) (sm2_encryptor_new cr target_public_key)) (\<lambda>_.
     and_then (or_api ''sm2 transport-key encryption failed: '' (sm2_encrypt cr target_public_key os_rng transport_key)) (\<lambda>etk.
     Inr (nonce_bytes @ ct @ tag, etk)))))))"

definition export_error :: "uuid \<Rightarrow> kms_error \<Rightarrow> api_error" where
  "export_error key_id e =
     (case e of
        KeyNotFound _ \<Rightarrow> ApiNotFound (Fmt [Lit ''key '', Id key_id, Lit '' not found''])
      | KeyOperationNotAllowed _ \<Rightarrow> ApiForbidden (Fmt [Lit ''key '', Id key_id, Lit '' cannot be exported''])
      | _ \<Rightarrow> to_api e)"

definition version_error :: "uuid \<Rightarrow> u32 \<Rightarrow> kms_error \<Rightarrow> api_error" where
  "version_error key_id v e =
     (case e of
        KeyNotFound _ \<Rightarrow> ApiNotFound (Fmt [Lit ''key '', Id key_id, Lit '' version '', Num (unat v), Lit '' not found''])
      | _ \<Rightarrow> to_api e)"

definition kys_export_key ::
  "'kp crypto \<Rightarrow> svc_crates \<Rightarrow> ('n, 's, 'r) services \<Rightarrow> 'n call \<Rightarrow> uuid \<Rightarrow> bytes \<Rightarrow> string \<Rightarrow> export_options
    \<Rightarrow> ('s, 'r) svc_state \<Rightarrow> (api_error + exported_key) \<times> ('s, 'r) svc_state" where
  "kys_export_key cr sc sv cl key_id target_public_key tenant_id opts st =
     then_st (fetch_owned_key_meta sv (cl_envs cl 0) key_id tenant_id st) (\<lambda>meta st.
     then_st (check_target_key (eo_protection opts) target_public_key, st) (\<lambda>_ st.
     then_st (keystore_call (export_error key_id) (be_export_key_material (svc_keystore sv) (cl_envs cl 1) key_id tenant_id) st) (\<lambda>current_material st.
     then_st (case eo_version opts of
                Some v \<Rightarrow>
                  if v \<noteq> 0 \<and> v \<noteq> m_version meta then
                    keystore_call (version_error key_id v)
                      (be_get_key_material_version (svc_keystore sv) (cl_envs cl 2) key_id v tenant_id) st
                  else (Inr current_material, st)
              | None \<Rightarrow> (Inr current_material, st)) (\<lambda>key_material st.
     then_st (case eo_protection opts of
                RsaOaep \<Rightarrow> wrap_rsa cr sc (cl_rngs cl) (cl_os_rng cl) target_public_key
                             (export_wrap_aad (sha256 cr) key_id tenant_id) key_material
              | Sm2Protection \<Rightarrow> wrap_sm2 cr (cl_rngs cl) (cl_os_rng cl) target_public_key
                             (export_wrap_aad (sha256 cr) key_id tenant_id) key_material, st) (\<lambda>(wrapped_key, encrypted_transport_key) st.
     (Inr \<lparr>ek_wrapped_key = b64_encode sc wrapped_key, ek_encrypted_transport_key = b64_encode sc encrypted_transport_key,
           ek_key_fingerprint = hex_encode cr (sha256 cr key_material)\<rparr>, st))))))"

definition parse_spec :: "string \<Rightarrow> api_error + key_spec" where
  "parse_spec spec_str =
     (let s = to_lowercase spec_str
      in if s \<in> {''aes-256-gcm'', ''aes256gcm''} then Inr Aes256Gcm
         else if s \<in> {''hmac-sha256'', ''hmacsha256''} then Inr HmacSha256
         else if s \<in> {''hmac-sm3'', ''sm3-hmac'', ''sm3hmac''} then Inr Sm3Hmac
         else if s \<in> {''ecdsa-p256'', ''ecdsap256''} then Inr EcdsaP256
         else if s \<in> {''ecdsa-p384'', ''ecdsap384''} then Inr EcdsaP384
         else if s = ''ed25519'' then Inr Ed25519
         else if s = ''ed448'' then Inr Ed448
         else if s = ''sm4'' then Inr Sm4
         else if s = ''sm2'' then Inr Sm2
         else if s \<in> {''sm9-signing'', ''sm9signing''} then Inr Sm9Signing
         else if s \<in> {''sm9-encryption'', ''sm9encryption''} then Inr Sm9Encryption
         else if s \<in> {''rsa-4096'', ''rsa4096''} then Inr Rsa4096
         else Inl (ApiInvalidRequest (Fmt [Lit ''unsupported spec: '', Str spec_str])))"

section \<open>Envelopes\<close>

record envelope_encrypt_response =
  ee_wrapped_dek :: string
  ee_dek_nonce :: string
  ee_ciphertext :: string
  ee_data_nonce :: string
  ee_tag :: string
  ee_kek_version :: u32

record rewrap_dek_response =
  rd_wrapped_dek :: string
  rd_dek_nonce :: string
  rd_kek_version :: u32
  rd_old_kek_version :: u32

definition kek_error :: "uuid \<Rightarrow> kms_error \<Rightarrow> api_error" where
  "kek_error kek_id e =
     (case e of
        KeyNotFound _ \<Rightarrow> ApiNotFound (Fmt [Lit ''KEK '', Id kek_id, Lit '' not found''])
      | Panicked p \<Rightarrow> ApiPanicked p
      | _ \<Rightarrow> ApiInternal (err_display e))"

definition kek_material_error :: "uuid \<Rightarrow> kms_error \<Rightarrow> api_error" where
  "kek_material_error kek_id e =
     (case e of
        NotImplemented _ \<Rightarrow> ApiInternal (Lit ''KEK material not available for envelope encryption'')
      | _ \<Rightarrow> kek_error kek_id e)"

definition not_a_kek :: api_error where
  "not_a_kek = ApiInvalidRequest (Lit ''KEK must be AES-256-GCM'')"

text \<open>\<open>copy_from_slice\<close> into an array of twelve bytes panics on a shorter slice.\<close>

definition copy_nonce :: "bytes \<Rightarrow> api_error + bytes" where
  "copy_nonce nonce =
     (if length nonce < 12 then Inl (ApiPanicked ''copy_from_slice: source slice length does not match destination slice length'')
      else Inr (take 12 nonce))"

text \<open>Sealing data under a fresh key: \<open>split_at\<close> behind the end of the sealed data would panic.\<close>

definition es_encrypt ::
  "'kp crypto \<Rightarrow> svc_crates \<Rightarrow> ('n, 's, 'r) services \<Rightarrow> 'n call \<Rightarrow> uuid \<Rightarrow> bytes \<Rightarrow> bytes option \<Rightarrow> string
    \<Rightarrow> ('s, 'r) svc_state \<Rightarrow> (api_error + envelope_encrypt_response) \<times> ('s, 'r) svc_state" where
  "es_encrypt cr sc sv cl kek_id plaintext aad tenant_id st =
     then_st (keystore_call (kek_error kek_id) (be_get_key_metadata (svc_keystore sv) (cl_envs cl 0) kek_id) st) (\<lambda>kek_meta st.
     if m_spec kek_meta \<noteq> Aes256Gcm then (Inl not_a_kek, st)
     else then_st (keystore_call (kek_material_error kek_id)
                     (be_get_key_material (svc_keystore sv) (cl_envs cl 1) kek_id tenant_id) st) (\<lambda>kek_bytes st.
       (and_then (api_fill (cl_rngs cl 0) 32 ''failed to generate DEK: '') (\<lambda>dek_bytes.
        and_then (api_fill (cl_rngs cl 1) 12 ''failed to generate dek nonce: '') (\<lambda>dek_nonce_bytes.
        and_then (or_api ''invalid KEK: '' (aes_unbound_key cr kek_bytes)) (\<lambda>_.
        and_then (or_api ''failed to wrap DEK: '' (aes_seal cr kek_bytes dek_nonce_bytes [] dek_bytes)) (\<lambda>(wrapped, tag).
        and_then (api_fill (cl_rngs cl 2) 12 ''failed to generate data nonce: '') (\<lambda>data_nonce_bytes.
        and_then (or_api ''invalid DEK: '' (aes_unbound_key cr dek_bytes)) (\<lambda>_.
        and_then (or_api ''encryption failed: '' (aes_seal cr dek_bytes data_nonce_bytes [] plaintext)) (\<lambda>(sealed, data_tag).
        let ciphertext_with_tag = sealed @ data_tag;
            mid = length ciphertext_with_tag - 16
        in if length ciphertext_with_tag < 16 then Inl (ApiPanicked ''mid > len'')
           else Inr \<lparr>ee_wrapped_dek = b64_encode sc (wrapped @ tag), ee_dek_nonce = b64_encode sc dek_nonce_bytes,
                     ee_ciphertext = b64_encode sc (take mid ciphertext_with_tag),
                     ee_data_nonce = b64_encode sc data_nonce_bytes,
                     ee_tag = b64_encode sc (drop mid ciphertext_with_tag),
                     ee_kek_version = m_version kek_meta\<rparr>))))))), st)))"

text \<open>Opening a wrapped data key, shared by the two operations below but for the texts of the errors.\<close>

definition unwrap_dek :: "'kp crypto \<Rightarrow> string \<Rightarrow> string \<Rightarrow> bytes \<Rightarrow> bytes \<Rightarrow> bytes \<Rightarrow> api_error + bytes" where
  "unwrap_dek cr invalid_kek failed kek_bytes wrapped_dek dek_nonce =
     (if length wrapped_dek < 48 then Inl (ApiInvalidRequest (Lit ''invalid wrapped_dek length''))
      else and_then (or_api invalid_kek (aes_unbound_key cr kek_bytes)) (\<lambda>_.
           and_then (copy_nonce dek_nonce) (\<lambda>nonce.
           let encrypted_dek = take (length wrapped_dek - 16) wrapped_dek;
               stored_tag = drop (length wrapped_dek - 16) wrapped_dek
           in map_err (\<lambda>_. ApiInvalidArgument (Lit failed)) (aes_open cr kek_bytes nonce [] (encrypted_dek @ stored_tag)))))"

definition es_rewrap_dek ::
  "'kp crypto \<Rightarrow> svc_crates \<Rightarrow> ('n, 's, 'r) services \<Rightarrow> 'n call \<Rightarrow> uuid \<Rightarrow> bytes \<Rightarrow> bytes \<Rightarrow> u32 \<Rightarrow> string
    \<Rightarrow> ('s, 'r) svc_state \<Rightarrow> (api_error + rewrap_dek_response) \<times> ('s, 'r) svc_state" where
  "es_rewrap_dek cr sc sv cl kek_id wrapped_dek dek_nonce old_kek_version tenant_id st =
     then_st (keystore_call (kek_error kek_id) (be_get_key_metadata (svc_keystore sv) (cl_envs cl 0) kek_id) st) (\<lambda>kek_meta st.
     if m_spec kek_meta \<noteq> Aes256Gcm then (Inl not_a_kek, st)
     else let new_kek_version = m_version kek_meta
          in if old_kek_version = new_kek_version then
               (Inr \<lparr>rd_wrapped_dek = b64_encode sc wrapped_dek, rd_dek_nonce = b64_encode sc dek_nonce,
                     rd_kek_version = new_kek_version, rd_old_kek_version = old_kek_version\<rparr>, st)
             else
               then_st (keystore_call (kek_error kek_id)
                          (be_get_key_material_version (svc_keystore sv) (cl_envs cl 1) kek_id old_kek_version tenant_id) st) (\<lambda>old_kek_bytes st.
               then_st (keystore_call (kek_error kek_id)
                          (be_get_key_material (svc_keystore sv) (cl_envs cl 2) kek_id tenant_id) st) (\<lambda>new_kek_bytes st.
               (and_then (unwrap_dek cr ''invalid old KEK: '' ''DEK unwrap failed during rewrap - old KEK version mismatch or corrupted data''
                            old_kek_bytes wrapped_dek dek_nonce) (\<lambda>dek_bytes.
                and_then (api_fill (cl_rngs cl 0) 12 ''failed to generate dek nonce: '') (\<lambda>new_dek_nonce.
                and_then (or_api ''invalid new KEK: '' (aes_unbound_key cr new_kek_bytes)) (\<lambda>_.
                and_then (or_api ''failed to rewrap DEK: '' (aes_seal cr new_kek_bytes new_dek_nonce [] dek_bytes)) (\<lambda>(rewrapped, new_tag).
                Inr \<lparr>rd_wrapped_dek = b64_encode sc (rewrapped @ new_tag), rd_dek_nonce = b64_encode sc new_dek_nonce,
                     rd_kek_version = new_kek_version, rd_old_kek_version = old_kek_version\<rparr>)))), st))))"

definition es_decrypt_with_kek_version ::
  "'kp crypto \<Rightarrow> ('n, 's, 'r) services \<Rightarrow> 'n call \<Rightarrow> uuid \<Rightarrow> bytes \<Rightarrow> bytes \<Rightarrow> bytes \<Rightarrow> bytes \<Rightarrow> bytes \<Rightarrow> bytes option \<Rightarrow> string \<Rightarrow> u32
    \<Rightarrow> ('s, 'r) svc_state \<Rightarrow> (api_error + bytes) \<times> ('s, 'r) svc_state" where
  "es_decrypt_with_kek_version cr sv cl kek_id c wrapped_dek dek_nonce data_nonce tag aad tenant_id kek_version st =
     then_st (keystore_call (kek_error kek_id)
                (be_get_key_material_version (svc_keystore sv) (cl_envs cl 0) kek_id kek_version tenant_id) st) (\<lambda>kek_bytes st.
       (and_then (unwrap_dek cr ''invalid KEK: '' ''DEK unwrap failed - KEK mismatch or corrupted data'' kek_bytes wrapped_dek dek_nonce) (\<lambda>dek_bytes.
        and_then (copy_nonce data_nonce) (\<lambda>nonce.
        and_then (or_api ''invalid DEK after unwrap: '' (aes_unbound_key cr dek_bytes)) (\<lambda>_.
        map_err (\<lambda>_. ApiInternal (Lit ''decryption failed - invalid ciphertext or key''))
          (aes_open cr dek_bytes nonce [] (c @ tag))))), st))"

definition es_decrypt ::
  "'kp crypto \<Rightarrow> ('n, 's, 'r) services \<Rightarrow> 'n call \<Rightarrow> uuid \<Rightarrow> bytes \<Rightarrow> bytes \<Rightarrow> bytes \<Rightarrow> bytes \<Rightarrow> bytes \<Rightarrow> bytes option \<Rightarrow> string
    \<Rightarrow> ('s, 'r) svc_state \<Rightarrow> (api_error + bytes) \<times> ('s, 'r) svc_state" where
  "es_decrypt cr sv cl kek_id c wrapped_dek dek_nonce data_nonce tag aad tenant_id st =
     es_decrypt_with_kek_version cr sv cl kek_id c wrapped_dek dek_nonce data_nonce tag aad tenant_id 0 st"

end
