(* ===== verification/Service_Properties.thy ===== *)
theory Service_Properties
  imports Services
begin

text \<open>
  Properties of the service layer: tenants are kept apart for both keystores, by the contract of
  \<open>Backend\<close>; a missing key and somebody else's key get the same answer; envelopes stay readable over
  rotations and can be moved to the current key; wrapped exports open; and where the envelope service
  falls short.
\<close>

section \<open>Tenants\<close>

text \<open>A request is refused: an error is returned and the keystore is as before.\<close>

definition refused :: "('s, 'r) svc_state \<Rightarrow> (api_error + 'a) \<times> ('s, 'r) svc_state \<Rightarrow> bool" where
  "refused st res \<longleftrightarrow> (\<exists>e. fst res = Inl e) \<and> sv_keystore (snd res) = sv_keystore st"

lemma refused_Inl [simp]: "refused st (Inl e, st') \<longleftrightarrow> sv_keystore st' = sv_keystore st"
  by (simp add: refused_def)

lemma refused_then: "refused st res \<Longrightarrow> refused st (then_st res f)"
  by (cases res; cases "fst res") (auto simp: refused_def)

lemma refused_bind:
  assumes "sv_keystore (snd res) = sv_keystore st" "\<And>x st'. sv_keystore st' = sv_keystore st \<Longrightarrow> refused st (f x st')"
  shows "refused st (then_st res f)"
  using assms by (cases res; cases "fst res") (auto simp: refused_def)

lemma check_quota_keystore [simp]: "sv_keystore (snd (check_quota sv cl t st)) = sv_keystore st"
  by (simp add: check_quota_def split: option.splits prod.splits)

lemma keystore_call_fails:
  "f (sv_keystore st) = (Inl e, sv_keystore st) \<Longrightarrow> keystore_call h f st = (Inl (h e), st)"
  by (simp add: keystore_call_def)

lemma keystore_call_state:
  "snd (f (sv_keystore st)) = sv_keystore st \<Longrightarrow> keystore_call h f st = (map_err h (fst (f (sv_keystore st))), st)"
  by (cases "f (sv_keystore st)") (simp add: keystore_call_def)

text \<open>
  A rewrap that names the current version of an AES key is answered with the data key it brought.
\<close>

definition rewrap_echoes ::
  "'kp crypto \<Rightarrow> svc_crates \<Rightarrow> ('n, 's, 'r) services \<Rightarrow> 'n call \<Rightarrow> uuid \<Rightarrow> bytes \<Rightarrow> bytes \<Rightarrow> u32 \<Rightarrow> string \<Rightarrow> ('s, 'r) svc_state \<Rightarrow> bool" where
  "rewrap_echoes cr sc sv cl k w n v t st \<longleftrightarrow>
     (\<exists>meta. fst (be_get_key_metadata (svc_keystore sv) (cl_envs cl 0) k (sv_keystore st)) = Inr meta
        \<and> m_spec meta = Aes256Gcm \<and> m_version meta = v)
     \<and> es_rewrap_dek cr sc sv cl k w n v t st
       = (Inr \<lparr>rd_wrapped_dek = b64_encode sc w, rd_dek_nonce = b64_encode sc n, rd_kek_version = v, rd_old_kek_version = v\<rparr>, st)"

text \<open>Every operation of the services on the key, for the tenant, is refused; but for such a rewrap.\<close>

definition tenant_refused ::
  "'kp crypto \<Rightarrow> svc_crates \<Rightarrow> ('n, 's, 'r) services \<Rightarrow> 'n call \<Rightarrow> uuid \<Rightarrow> string \<Rightarrow> ('s, 'r) svc_state \<Rightarrow> bool" where
  "tenant_refused cr sc sv cl k t st \<longleftrightarrow>
     (\<forall>pt aad. refused st (cs_encrypt sv cl k pt aad t st))
     \<and> (\<forall>c aad. refused st (cs_decrypt sv cl k c aad t st))
     \<and> (\<forall>d. refused st (cs_sign sv cl k d t st))
     \<and> (\<forall>d sg. refused st (cs_verify sv cl k d sg t st))
     \<and> (\<forall>d aad. refused st (cs_hmac sc sv cl k d aad t st))
     \<and> (\<forall>d aad mac. refused st (cs_hmac_verify sc sv cl k d aad mac t st))
     \<and> refused st (kys_rotate_key sv cl k t st)
     \<and> refused st (kys_delete_key sv cl k t st)
     \<and> (\<forall>pk opts. refused st (kys_export_key cr sc sv cl k pk t opts st))
     \<and> (\<forall>pt aad. refused st (es_encrypt cr sc sv cl k pt aad t st))
     \<and> (\<forall>c w n n' tag aad v. refused st (es_decrypt_with_kek_version cr sv cl k c w n n' tag aad t v st))
     \<and> (\<forall>c w n n' tag aad. refused st (es_decrypt cr sv cl k c w n n' tag aad t st))
     \<and> (\<forall>w n v. refused st (es_rewrap_dek cr sc sv cl k w n v t st) \<or> rewrap_echoes cr sc sv cl k w n v t st)"

text \<open>The tenant is shown its own keys only, and showing them changes nothing.\<close>

definition shown_own :: "('n, 's, 'r) services \<Rightarrow> 'n call \<Rightarrow> string \<Rightarrow> ('s, 'r) svc_state \<Rightarrow> bool" where
  "shown_own sv cl t st \<longleftrightarrow>
     (\<forall>k. case kys_get_key sv cl k t st of (res, st') \<Rightarrow>
        sv_keystore st' = sv_keystore st \<and> (\<forall>meta. res = Inr meta \<longrightarrow> m_tenant_id meta = t))
     \<and> (\<forall>filt. case kys_list_keys sv cl filt t st of (res, st') \<Rightarrow>
        sv_keystore st' = sv_keystore st \<and> (\<forall>ms. res = Inr ms \<longrightarrow> list_all (\<lambda>m. m_tenant_id m = t) ms))"

context keystore_contract
begin

lemma metadata_call: "keystore_call h (be_get_key_metadata b n k) st = (map_err h (fst (be_get_key_metadata b n k (sv_keystore st))), st)"
  by (rule keystore_call_state) (rule metadata_state)

lemma fetch_keystore: "svc_keystore sv = b \<Longrightarrow> snd (fetch_owned_key_meta sv n k t st) = st"
  by (auto simp: fetch_owned_key_meta_def metadata_call then_st_def split: sum.splits)

text \<open>A call that fails for the tenant fails the operation, whatever comes before it.\<close>

lemma call_refused:
  assumes "\<exists>e. f (sv_keystore st) = (Inl e, sv_keystore st)" "sv_keystore st' = sv_keystore st"
  shows "refused st (then_st (keystore_call h f st') g)" "refused st (keystore_call h f st')"
proof -
  obtain e where "f (sv_keystore st') = (Inl e, sv_keystore st')"
    using assms by auto
  then have "keystore_call h f st' = (Inl (h e), st')"
    by (rule keystore_call_fails)
  with assms(2) show "refused st (then_st (keystore_call h f st') g)" "refused st (keystore_call h f st')"
    by simp_all
qed

lemma guarded_refused:
  assumes "svc_keystore sv = b" "\<exists>e. f (cl_envs cl 1) (sv_keystore st) = (Inl e, sv_keystore st)"
  shows "refused st (guarded_operation sv cl k t f st)"
  unfolding guarded_operation_def
  by (intro refused_bind call_refused assms) (simp_all add: fetch_keystore [OF assms(1)])

lemma prepare_hmac_refused:
  assumes "svc_keystore sv = b" "\<And>i. \<not> served (cl_envs cl i) (sv_keystore st) k t"
  shows "refused st (prepare_hmac sv cl k t st)"
  unfolding prepare_hmac_def assms(1)
  by (intro refused_bind) (auto simp: fetch_keystore [OF assms(1)] intro!: call_refused material_foreign assms)

lemma unserved_refused:
  assumes sv: "svc_keystore sv = b" and no: "\<And>i. \<not> served (cl_envs cl i) (sv_keystore st) k t"
  shows "tenant_refused cr sc sv cl k t st"
proof -
  note call = call_refused [where st = st]
  have "refused st (cs_encrypt sv cl k pt aad t st)" "refused st (cs_decrypt sv cl k c aad t st)"
    "refused st (cs_sign sv cl k d t st)" "refused st (cs_verify sv cl k d sg t st)" for pt aad c d sg
    unfolding cs_encrypt_def cs_decrypt_def cs_sign_def cs_verify_def sv
    by (intro guarded_refused sv encrypt_foreign decrypt_foreign sign_foreign verify_foreign no)+
  moreover have "refused st (cs_hmac sc sv cl k d aad t st)" "refused st (cs_hmac_verify sc sv cl k d aad mac t st)" for d aad mac
    unfolding cs_hmac_def cs_hmac_verify_def by (intro refused_then prepare_hmac_refused sv no)+
  moreover have "refused st (kys_rotate_key sv cl k t st)" "refused st (kys_delete_key sv cl k t st)"
    unfolding kys_rotate_key_def kys_delete_key_def sv
    by (intro refused_bind; simp add: fetch_keystore [OF sv]; intro call rotate_foreign delete_foreign no; simp)+
  moreover have "refused st (kys_export_key cr sc sv cl k pk t opts st)" for pk opts
    unfolding kys_export_key_def sv
    by (rule refused_bind, simp add: fetch_keystore [OF sv], rule refused_bind, simp, rule call)
      (use export_foreign no in auto)
  moreover have "refused st (es_encrypt cr sc sv cl k pt aad t st)" for pt aad
    unfolding es_encrypt_def sv
    by (intro refused_bind) (auto simp: metadata_call intro!: call material_foreign no)
  moreover have "refused st (es_decrypt_with_kek_version cr sv cl k c w n n' tag aad t v st)" for c w n n' tag aad v
    unfolding es_decrypt_with_kek_version_def sv
    by (intro call version_foreign no) simp
  moreover from this have "refused st (es_decrypt cr sv cl k c w n n' tag aad t st)" for c w n n' tag aad
    by (simp add: es_decrypt_def)
  moreover have "refused st (es_rewrap_dek cr sc sv cl k w n v t st) \<or> rewrap_echoes cr sc sv cl k w n v t st" for w n v
  proof (cases "fst (be_get_key_metadata b (cl_envs cl 0) k (sv_keystore st))")
    case (Inl e)
    then show ?thesis
      by (simp add: es_rewrap_dek_def sv metadata_call)
  next
    case (Inr meta)
    have "refused st (es_rewrap_dek cr sc sv cl k w n v t st)" if "m_spec meta \<noteq> Aes256Gcm \<or> v \<noteq> m_version meta"
    proof (cases "m_spec meta = Aes256Gcm")
      case True
      with that show ?thesis
        by (simp add: es_rewrap_dek_def sv metadata_call Inr Let_def) (intro call version_foreign no, simp)
    next
      case False
      then show ?thesis
        by (simp add: es_rewrap_dek_def sv metadata_call Inr Let_def)
    qed
    moreover have "rewrap_echoes cr sc sv cl k w n v t st" if "m_spec meta = Aes256Gcm" "v = m_version meta"
      using that by (simp add: rewrap_echoes_def es_rewrap_dek_def sv metadata_call Inr Let_def)
    ultimately show ?thesis by blast
  qed
  ultimately show ?thesis
    unfolding tenant_refused_def by blast
qed

text \<open>Reading metadata is guarded by the service; a listing is as good as the keystore's.\<close>

lemma own_metadata:
  assumes "svc_keystore sv = b"
  shows "case kys_get_key sv cl k t st of (res, st') \<Rightarrow>
    sv_keystore st' = sv_keystore st \<and> (\<forall>meta. res = Inr meta \<longrightarrow> m_tenant_id meta = t)"
  using assms
  by (cases "fst (be_get_key_metadata b (cl_envs cl 0) k (sv_keystore st))")
    (auto simp: kys_get_key_def fetch_owned_key_meta_def metadata_call)

lemma own_listing:
  assumes "svc_keystore sv = b"
    and "\<And>n f. snd (be_list_keys b n f (sv_keystore st)) = sv_keystore st"
    and "\<And>n f ms. fst (be_list_keys b n (f\<lparr>kf_tenant_id := Some t\<rparr>) (sv_keystore st)) = Inr ms \<Longrightarrow> list_all (\<lambda>m. m_tenant_id m = t) ms"
  shows "shown_own sv cl t st"
proof -
  have "case kys_list_keys sv cl filt t st of (res, st') \<Rightarrow>
      sv_keystore st' = sv_keystore st \<and> (\<forall>ms. res = Inr ms \<longrightarrow> list_all (\<lambda>m. m_tenant_id m = t) ms)" for filt
    using assms(1) assms(2) [of "cl_envs cl 0" "filt\<lparr>kf_tenant_id := Some t\<rparr>"] assms(3) [of "cl_envs cl 0" filt]
    by (cases "be_list_keys b (cl_envs cl 0) (filt\<lparr>kf_tenant_id := Some t\<rparr>) (sv_keystore st)")
      (auto simp: kys_list_keys_def keystore_call_def)
  with own_metadata [OF assms(1)] show ?thesis
    by (simp only: shown_own_def simp_thms)
qed

end

lemma backend_metadata [simp]:
  "be_get_key_metadata (software_backend cr) n k s = (get_key_metadata s k, s)"
  "be_get_key_metadata (pg_backend cr db) n' k s' = (pg_get_key_metadata db (pn_faults n') k s', s')"
  by (simp_all add: software_backend_def pg_backend_def)

lemma backend_material [simp]:
  "be_get_key_material (software_backend cr) n k t s = (get_key_material s k t, s)"
  "be_get_key_material_version (software_backend cr) n k v t s = (get_key_material_version s k v t, s)"
  "be_export_key_material (software_backend cr) n k t s = (export_key_material s k t, s)"
  by (simp_all add: software_backend_def)

lemma software_shown_own:
  assumes "svc_keystore sv = software_backend cr"
  shows "shown_own sv cl t st"
proof (rule sb.own_listing [OF assms])
  show "list_all (\<lambda>m. m_tenant_id m = t) ms"
    if "fst (be_list_keys (software_backend cr) n (f\<lparr>kf_tenant_id := Some t\<rparr>) (sv_keystore st)) = Inr ms" for n f ms
    using that
    by (auto simp: software_backend_def list_keys_def Let_def filter_accepts_def list_all_iff
        dest!: in_set_takeD in_set_dropD split: option.splits)
qed (simp add: software_backend_def)

lemma pg_shown_own:
  assumes "svc_keystore pv = pg_backend cr db" "db_sorts db"
  shows "shown_own pv cl t st"
proof (rule pb.own_listing [OF assms(1)])
  have "set (order_by_created_desc db rs) \<subseteq> set rs" for rs
    using assms(2) by (simp add: db_sorts_def)
  then have "x \<in> set (order_by_created_desc db (filter P rs)) \<Longrightarrow> P x" for x P and rs
    by force
  then show "list_all (\<lambda>m. m_tenant_id m = t) ms"
    if "fst (be_list_keys (pg_backend cr db) n (f\<lparr>kf_tenant_id := Some t\<rparr>) (sv_keystore st)) = Inr ms" for n f ms
    using that
    by (auto simp: pg_backend_def pg_list_keys_def repo_list_def select_page_def fetch_def list_all_iff key_meta_from_def Let_def
        dest!: in_set_takeD in_set_dropD split: option.splits if_splits) fastforce+
qed (simp add: pg_backend_def)

text \<open>
  C10. The services keep tenants apart, on the software keystore and on the PostgreSQL keystore: every
  operation on a key the keystore would not serve to the tenant is refused and leaves the keystore as
  it was, whatever the quota and the faults of the database; the metadata and the listings a tenant gets are of
  its own keys. The one operation that may succeed is a rewrap that names the current version of an AES key: it
  does not ask whose key it is, and returns the data key it was given.
\<close>

theorem services_isolate_tenants:
  assumes "svc_keystore sv = software_backend cr" "\<not> owned (sv_keystore st) k t"
    and "svc_keystore pv = pg_backend cr db" "db_sorts db" "\<And>i. \<not> pg_owned cr db (pn_faults (cl_envs pcl i)) (sv_keystore pst) k t"
  shows "tenant_refused cr sc sv cl k t st \<and> shown_own sv cl t st \<and> tenant_refused cr sc pv pcl k t pst \<and> shown_own pv pcl t pst"
  using sb.unserved_refused [OF assms(1)] pb.unserved_refused [OF assms(3)] assms(2,5) software_shown_own [OF assms(1)]
    pg_shown_own [OF assms(3,4)] by blast

text \<open>The answer to each operation of the key and crypto services is that the key is not found.\<close>

definition answers_not_found ::
  "'kp crypto \<Rightarrow> svc_crates \<Rightarrow> ('n, 's, 'r) services \<Rightarrow> 'n call \<Rightarrow> uuid \<Rightarrow> string \<Rightarrow> ('s, 'r) svc_state \<Rightarrow> bool" where
  "answers_not_found cr sc sv cl k t st \<longleftrightarrow>
     (let e = ApiKeyNotFound (Id k) in
     (\<forall>pt aad. fst (cs_encrypt sv cl k pt aad t st) = Inl e)
     \<and> (\<forall>c aad. fst (cs_decrypt sv cl k c aad t st) = Inl e)
     \<and> (\<forall>d. fst (cs_sign sv cl k d t st) = Inl e)
     \<and> (\<forall>d sg. fst (cs_verify sv cl k d sg t st) = Inl e)
     \<and> (\<forall>d aad. fst (cs_hmac sc sv cl k d aad t st) = Inl e)
     \<and> (\<forall>d aad mac. fst (cs_hmac_verify sc sv cl k d aad mac t st) = Inl e)
     \<and> fst (kys_get_key sv cl k t st) = Inl e
     \<and> fst (kys_rotate_key sv cl k t st) = Inl e
     \<and> fst (kys_delete_key sv cl k t st) = Inl e
     \<and> (\<forall>pk opts. fst (kys_export_key cr sc sv cl k pk t opts st) = Inl e))"

context keystore_contract
begin

lemma concealed_fetch:
  assumes "svc_keystore sv = b" "sane n" "\<And>meta. fst (be_get_key_metadata b n k (sv_keystore st)) = Inr meta \<Longrightarrow> m_tenant_id meta \<noteq> t"
  shows "fetch_owned_key_meta sv n k t st = (Inl (ApiKeyNotFound (Id k)), st)"
proof (cases "fst (be_get_key_metadata b n k (sv_keystore st))")
  case (Inl e)
  with assms(2) have "e = KeyNotFound (Id k)"
    by (rule metadata_error)
  with Inl assms(1) show ?thesis
    by (simp add: fetch_owned_key_meta_def metadata_call to_api_def)
next
  case (Inr meta)
  with assms(1) assms(3) [OF Inr] show ?thesis
    by (simp add: fetch_owned_key_meta_def metadata_call)
qed

lemma concealed_answers:
  assumes sv: "svc_keystore sv = b" and con: "sane (cl_envs cl 0)" "\<And>meta. fst (be_get_key_metadata b (cl_envs cl 0) k (sv_keystore st)) = Inr meta \<Longrightarrow> m_tenant_id meta \<noteq> t"
    and quota: "fst (check_quota sv cl t st) = Inr ()"
  shows "answers_not_found cr sc sv cl k t st"
proof -
  obtain st' where q: "check_quota sv cl t st = (Inr (), st')"
    using quota by (cases "check_quota sv cl t st") simp
  have "sv_keystore st' = sv_keystore st"
    using check_quota_keystore [of sv cl t st] q by simp
  then have "fetch_owned_key_meta sv (cl_envs cl 0) k t st' = (Inl (ApiKeyNotFound (Id k)), st')"
    "fetch_owned_key_meta sv (cl_envs cl 0) k t st = (Inl (ApiKeyNotFound (Id k)), st)"
    by (auto intro!: concealed_fetch sv con)
  with q show ?thesis
    by (simp add: answers_not_found_def Let_def cs_encrypt_def cs_decrypt_def cs_sign_def cs_verify_def guarded_operation_def
        cs_hmac_def cs_hmac_verify_def prepare_hmac_def kys_get_key_def kys_rotate_key_def kys_delete_key_def kys_export_key_def)
qed

end

text \<open>
  The key and crypto services do not tell a missing key from somebody else's: on either keystore, as
  long as the quota is not exceeded and the database answers, every operation says that the key is not
  found, in the same words.
\<close>

theorem services_hide_keys:
  assumes "svc_keystore sv = software_backend cr" "\<not> owned (sv_keystore st) k t" "fst (check_quota sv cl t st) = Inr ()"
    and "svc_keystore pv = pg_backend cr db" "pn_faults (cl_envs pcl 0) 0 = None" "fst (check_quota pv pcl t pst) = Inr ()"
      "\<And>meta. pg_get_key_metadata db (pn_faults (cl_envs pcl 0)) k (sv_keystore pst) = Inr meta \<Longrightarrow> m_tenant_id meta \<noteq> t"
  shows "answers_not_found cr sc sv cl k t st \<and> answers_not_found cr sc pv pcl k t pst"
proof
  show "answers_not_found cr sc sv cl k t st"
    using assms(2) by (intro sb.concealed_answers [OF assms(1) _ _ assms(3)]) (auto simp: owned_def get_key_metadata_def ok_or_def split: option.splits)
  show "answers_not_found cr sc pv pcl k t pst"
    using assms(7) by (intro pb.concealed_answers [OF assms(4,5) _ assms(6)]) auto
qed

text \<open>
  The envelope service does tell them apart. For a key of another tenant it answers that a key of
  another kind is no AES key, and confirms the current version of an AES key by returning the wrapped
  data key unchanged; for a missing key it answers that there is none.
\<close>

theorem envelope_reveals_foreign_keys:
  assumes "svc_keystore sv = software_backend cr" "keys (sv_keystore st) k = Some e" "m_tenant_id (ke_meta e) \<noteq> t" "keys (sv_keystore st) k' = None"
  shows "(m_spec (ke_meta e) \<noteq> Aes256Gcm \<longrightarrow> fst (es_encrypt cr sc sv cl k pt aad t st) = Inl not_a_kek)
    \<and> (m_spec (ke_meta e) = Aes256Gcm \<longrightarrow> (\<exists>r. fst (es_rewrap_dek cr sc sv cl k w n (m_version (ke_meta e)) t st) = Inr r))
    \<and> fst (es_encrypt cr sc sv cl k' pt aad t st) = Inl (ApiNotFound (Fmt [Lit ''KEK '', Id k', Lit '' not found'']))
    \<and> fst (es_rewrap_dek cr sc sv cl k' w n v t st) = Inl (ApiNotFound (Fmt [Lit ''KEK '', Id k', Lit '' not found'']))"
  using assms
  by (simp add: es_encrypt_def es_rewrap_dek_def keystore_call_def get_key_metadata_def kek_error_def Let_def)

section \<open>Envelopes\<close>

text \<open>
  What is relied on of AES-256-GCM: with a key of 32 bytes sealing succeeds, adds a tag of 16 bytes, and
  opening undoes it.
\<close>

definition aes_works :: "'kp crypto \<Rightarrow> bool" where
  "aes_works cr \<longleftrightarrow> (\<forall>K. length K = 32 \<longrightarrow> aes_unbound_key cr K = Inr () \<and>
     (\<forall>n a p. \<exists>c t. aes_seal cr K n a p = Inr (c, t) \<and> length c = length p \<and> length t = 16 \<and> aes_open cr K n a (c @ t) = Inr p))"

lemma aes_works_seal:
  assumes "aes_works cr" "length K = 32"
  obtains c t where "aes_seal cr K n a p = Inr (c, t)" "length c = length p" "length t = 16" "aes_open cr K n a (c @ t) = Inr p"
  using assms unfolding aes_works_def by blast

lemma aes_works_key: "aes_works cr \<Longrightarrow> length K = 32 \<Longrightarrow> aes_unbound_key cr K = Inr ()"
  by (simp add: aes_works_def)

text \<open>Versions count from one, and every version of an AES key has 32 bytes.\<close>

definition kek_entry :: "nat \<Rightarrow> key_entry \<Rightarrow> bool" where
  "kek_entry n e \<longleftrightarrow> m_version (ke_meta e) \<noteq> 0 \<and> unat (m_version (ke_meta e)) \<le> n
     \<and> (m_spec (ke_meta e) = Aes256Gcm \<longrightarrow> length (ke_material e) = 32 \<and> (\<forall>(v, m) \<in> set (ke_versions e). length m = 32))"

definition kek_inv :: "nat \<Rightarrow> 's software_keystore \<Rightarrow> bool" where
  "kek_inv n s \<longleftrightarrow> (\<forall>k e. keys s k = Some e \<longrightarrow> kek_entry n e)"

lemma kek_entry_rotated:
  assumes "kek_entry n e" "Suc n < 4294967296"
  shows "kek_entry (Suc n) (rotated cr rng now e)"
proof -
  have "unat (m_version (ke_meta e) + 1) = Suc (unat (m_version (ke_meta e)))"
    using assms version_suc(1) [of "m_version (ke_meta e)" n] by (simp add: kek_entry_def)
  then have "m_version (ke_meta e) + 1 \<noteq> 0" "unat (m_version (ke_meta e) + 1) \<le> Suc n"
    using assms(1) by (auto simp: kek_entry_def)
  then show ?thesis
    using assms(1)
    by (auto simp: kek_entry_def rotated_def archive_material_def rotated_meta_def rotation_material_def generate_aes_key_def
        split: sum.splits)
qed

lemma kek_inv_step:
  assumes "kek_inv n s" "Suc n < 4294967296" "1 \<le> n"
  shows "kek_inv (Suc n) (ks_step cr c s)"
proof -
  have mono: "kek_entry (Suc n) e" if "keys s k = Some e" for k e
    using assms(1) that by (auto simp: kek_inv_def kek_entry_def intro: le_SucI)
  have rot: "kek_entry (Suc n) (rotated cr rng now e)" if "keys s k = Some e" for k e rng now
    using assms that by (auto simp: kek_inv_def intro: kek_entry_rotated)
  have gen: "kek_entry (Suc n) \<lparr>ke_meta = new_meta i now spec name t d, ke_material = mat, ke_versions = []\<rparr>"
    if "spec = Aes256Gcm \<Longrightarrow> length mat = 32" for i now spec name t d mat
    using that assms(3) by (simp add: kek_entry_def new_meta_def)
  have del: "kek_entry (Suc n) (e\<lparr>ke_meta := (ke_meta e)\<lparr>m_status := PendingDeletion\<rparr>\<rparr>)" if "keys s k = Some e" for k e
    using mono [OF that] by (simp add: kek_entry_def)
  have imp: "length mat = 32" if "import_check Aes256Gcm mat = Inr r" for mat r
    using that symmetric_valid_iff [of mat 32] by (auto simp: import_check_def and_then_Inr split: if_splits)
  have gen_len: "length mat = 32" if "generate_material cr rng Aes256Gcm = Inr mat" for rng mat
    using that by (auto simp: generate_material_def generate_aes_key_def)
  show ?thesis
    unfolding kek_inv_def
    by (cases c) (auto simp: keys_step mono rot del intro!: gen dest: gen_len imp split: sum.splits if_splits)
qed

lemma kek_inv_run:
  "kek_inv n s \<Longrightarrow> n + length cs < 4294967296 \<Longrightarrow> 1 \<le> n \<Longrightarrow> kek_inv (n + length cs) (run_ops (ks_step cr) cs s)"
proof (induction cs arbitrary: n s)
  case (Cons c cs)
  then show ?case using kek_inv_step [of n s cr c] Cons.IH [of "Suc n" "ks_step cr c s"] by simp
qed simp

lemma kek_inv_new: "kek_inv 1 ks_new"
  by (simp add: kek_inv_def ks_new_def)

lemma material_version_owned:
  "keys s k = Some e \<Longrightarrow> m_tenant_id (ke_meta e) = t \<Longrightarrow> v \<noteq> 0 \<Longrightarrow> get_key_material_version s k v t = select_material e k v"
  by (simp add: get_key_material_version_def select_material_def verify_tenant_def)

lemma readable_version: "readable k t sp v mat s \<Longrightarrow> v \<noteq> 0 \<Longrightarrow> get_key_material_version s k v t = Inr mat"
  by (auto simp: readable_def material_version_owned)

lemma unwrap_dek_sealed:
  assumes "aes_works cr" "length kek = 32" "aes_seal cr kek nonce [] dek = Inr (w, tag)" "length dek = 32" "length nonce = 12"
  shows "unwrap_dek cr a b kek (w @ tag) nonce = Inr dek"
proof -
  have "length w = 32" "length tag = 16" "aes_open cr kek nonce [] (w @ tag) = Inr dek"
    using aes_works_seal [OF assms(1,2), of nonce "[]" dek] assms(3,4) by auto
  then show ?thesis
    using aes_works_key [OF assms(1,2)] assms(5) by (simp add: unwrap_dek_def or_api_def copy_nonce_def)
qed

text \<open>The sealed parts of a response, for the material \<open>kek\<close>.\<close>

definition envelope_of ::
  "'kp crypto \<Rightarrow> bytes \<Rightarrow> bytes \<Rightarrow> (bytes \<times> bytes) \<Rightarrow> (bytes \<times> bytes \<times> bytes) \<Rightarrow> bool" where
  "envelope_of cr kek pt wrapped data \<longleftrightarrow>
     (case (wrapped, data) of ((w, dn), (c, xn, tag)) \<Rightarrow> \<exists>dek w' wt.
        length dek = 32 \<and> length dn = 12 \<and> length xn = 12 \<and> w = w' @ wt
        \<and> aes_seal cr kek dn [] dek = Inr (w', wt) \<and> aes_seal cr dek xn [] pt = Inr (c, tag))"

lemma envelope_ofI:
  "length dek = 32 \<Longrightarrow> length dn = 12 \<Longrightarrow> length xn = 12 \<Longrightarrow> aes_seal cr kek dn [] dek = Inr (w, wt)
    \<Longrightarrow> aes_seal cr dek xn [] pt = Inr (c, tag) \<Longrightarrow> envelope_of cr kek pt (w @ wt, dn) (c, xn, tag)"
  unfolding envelope_of_def by blast

lemma es_encrypt_envelope:
  assumes works: "aes_works cr" and sv: "svc_keystore sv = software_backend cr"
    and enc: "es_encrypt cr sc sv cl k pt aad t st = (Inr resp, st1)"
    and b64: "\<And>x. unb64 (b64_encode sc x) = x"
  obtains e where "keys (sv_keystore st) k = Some e" "m_tenant_id (ke_meta e) = t" "m_spec (ke_meta e) = Aes256Gcm"
    "ee_kek_version resp = m_version (ke_meta e)" "sv_keystore st1 = sv_keystore st"
    "envelope_of cr (ke_material e) pt (unb64 (ee_wrapped_dek resp), unb64 (ee_dek_nonce resp))
       (unb64 (ee_ciphertext resp), unb64 (ee_data_nonce resp), unb64 (ee_tag resp))"
proof -
  obtain e where e: "keys (sv_keystore st) k = Some e" "m_spec (ke_meta e) = Aes256Gcm" "m_tenant_id (ke_meta e) = t"
    using enc by (auto simp: es_encrypt_def keystore_call_def sv get_key_metadata_def get_key_material_def and_then_Inr tenant_entry_Inr
        ok_or_def then_st_def split: option.splits if_splits sum.splits prod.splits)
  obtain g0 g1 g2 w wt c tag where parts: "cl_rngs cl 0 = Some g0" "cl_rngs cl 1 = Some g1" "cl_rngs cl 2 = Some g2"
    "aes_seal cr (ke_material e) (fill_bytes g1 12) [] (fill_bytes g0 32) = Inr (w, wt)"
    "aes_seal cr (fill_bytes g0 32) (fill_bytes g2 12) [] pt = Inr (c, tag)"
    and resp: "resp = \<lparr>ee_wrapped_dek = b64_encode sc (w @ wt), ee_dek_nonce = b64_encode sc (fill_bytes g1 12),
       ee_ciphertext = b64_encode sc (take (length (c @ tag) - 16) (c @ tag)), ee_data_nonce = b64_encode sc (fill_bytes g2 12),
       ee_tag = b64_encode sc (drop (length (c @ tag) - 16) (c @ tag)), ee_kek_version = m_version (ke_meta e)\<rparr>"
    and st1: "st1 = st"
    using enc e unfolding es_encrypt_def sv
    by (auto simp: keystore_call_def get_key_metadata_def get_key_material_def and_then_Inr api_fill_def or_api_def
        Let_def split: option.splits if_splits prod.splits)
  have "length tag = 16"
    using aes_works_seal [OF works, of "fill_bytes g0 32" "fill_bytes g2 12" "[]" pt] parts(5) by auto
  then have "take (length (c @ tag) - 16) (c @ tag) = c" "drop (length (c @ tag) - 16) (c @ tag) = tag"
    by simp_all
  moreover have "envelope_of cr (ke_material e) pt (w @ wt, fill_bytes g1 12) (c, fill_bytes g2 12, tag)"
    by (rule envelope_ofI [OF _ _ _ parts(4,5)]) simp_all
  ultimately show thesis
    using e st1 by (intro that [of e]) (simp_all add: resp b64)
qed

lemma envelope_opens:
  assumes works: "aes_works cr" "length kek = 32" and env: "envelope_of cr kek pt (w, dn) (c, xn, tag)"
    and sv: "svc_keystore sv = software_backend cr" and mat: "get_key_material_version (sv_keystore st) k v t = Inr kek"
  shows "fst (es_decrypt_with_kek_version cr sv cl k c w dn xn tag aad t v st) = Inr pt"
proof -
  obtain dek w' wt where *: "length dek = 32" "length dn = 12" "length xn = 12" "w = w' @ wt"
    "aes_seal cr kek dn [] dek = Inr (w', wt)" "aes_seal cr dek xn [] pt = Inr (c, tag)"
    using env by (auto simp: envelope_of_def)
  moreover have "aes_open cr dek xn [] (c @ tag) = Inr pt"
    using aes_works_seal [OF works(1) *(1), of xn "[]" pt] *(6) by auto
  ultimately show ?thesis
    using unwrap_dek_sealed [OF works *(5,1,2)] aes_works_key [OF works(1) *(1)] mat
    by (simp add: es_decrypt_with_kek_version_def sv keystore_call_def copy_nonce_def or_api_def)
qed

text \<open>Moving a data key to the current version keeps the envelope.\<close>

lemma rewrap_envelope:
  assumes works: "aes_works cr" "length old = 32" and env: "envelope_of cr old pt (w, dn) (c, xn, tag)"
    and sv: "svc_keystore sv = software_backend cr" and b64: "\<And>x. unb64 (b64_encode sc x) = x"
    and e: "keys (sv_keystore st) k = Some e" "m_tenant_id (ke_meta e) = t" "m_spec (ke_meta e) = Aes256Gcm" "length (ke_material e) = 32"
    and mat: "get_key_material_version (sv_keystore st) k v t = Inr old"
    and rng: "cl_rngs cl 0 = Some g"
  shows "\<exists>rw. es_rewrap_dek cr sc sv cl k w dn v t st = (Inr rw, st) \<and> rd_kek_version rw = m_version (ke_meta e)
    \<and> envelope_of cr (ke_material e) pt (unb64 (rd_wrapped_dek rw), unb64 (rd_dek_nonce rw)) (c, xn, tag)"
proof (cases "v = m_version (ke_meta e)")
  case True
  then have "old = ke_material e"
    using mat e by (simp add: get_key_material_version_def verify_tenant_def)
  with True env e show ?thesis
    by (simp add: es_rewrap_dek_def sv keystore_call_def get_key_metadata_def Let_def b64)
next
  case False
  obtain dek w' wt where *: "length dek = 32" "length dn = 12" "length xn = 12" "w = w' @ wt"
    "aes_seal cr old dn [] dek = Inr (w', wt)" "aes_seal cr dek xn [] pt = Inr (c, tag)"
    using env by (auto simp: envelope_of_def)
  obtain nw nt where new: "aes_seal cr (ke_material e) (fill_bytes g 12) [] dek = Inr (nw, nt)"
    using aes_works_seal [OF works(1) e(4)] by blast
  have "get_key_material (sv_keystore st) k t = Inr (ke_material e)"
    using e by (simp add: get_key_material_def)
  moreover have "envelope_of cr (ke_material e) pt (nw @ nt, fill_bytes g 12) (c, xn, tag)"
    by (rule envelope_ofI [OF *(1) _ *(3) new *(6)]) simp
  ultimately show ?thesis
    using False e mat rng unwrap_dek_sealed [OF works *(5,1,2)] aes_works_key [OF works(1) e(4)] new *(4)
    by (simp add: es_rewrap_dek_def sv keystore_call_def get_key_metadata_def Let_def or_api_def api_fill_def b64)
qed

text \<open>
  C12. An envelope sealed under a key of the software keystore opens with the version it names after any
  later rotations, the deletion request of the key included; and its data key can be moved to the
  current version, after which the envelope opens without naming a version. Base64 decodes what it
  encoded; the crates work and the version counter does not overflow.
\<close>

theorem envelope_survives_rotation:
  assumes crates: "aes_works cr" "sm2_generator_ok cr" and b64: "\<And>x. unb64 (b64_encode sc x) = x"
    and sv: "svc_keystore sv = software_backend cr" and reach: "sv_keystore st = run_ops (ks_step cr) before ks_new"
    and enc: "es_encrypt cr sc sv cl k pt aad t st = (Inr resp, st1)"
    and later: "list_all (keeps k) later" "sv_keystore st2 = run_ops (ks_step cr) later (sv_keystore st1)"
    and bound: "length before + length later < 4294967295" and rng: "cl_rngs cl' 0 = Some g"
  shows "fst (es_decrypt_with_kek_version cr sv cl' k (unb64 (ee_ciphertext resp)) (unb64 (ee_wrapped_dek resp))
      (unb64 (ee_dek_nonce resp)) (unb64 (ee_data_nonce resp)) (unb64 (ee_tag resp)) aad' t (ee_kek_version resp) st2) = Inr pt
    \<and> (\<exists>rw. es_rewrap_dek cr sc sv cl' k (unb64 (ee_wrapped_dek resp)) (unb64 (ee_dek_nonce resp)) (ee_kek_version resp) t st2
          = (Inr rw, st2)
        \<and> fst (es_decrypt cr sv cl' k (unb64 (ee_ciphertext resp)) (unb64 (rd_wrapped_dek rw)) (unb64 (rd_dek_nonce rw))
            (unb64 (ee_data_nonce resp)) (unb64 (ee_tag resp)) aad' t st2) = Inr pt)"
proof -
  obtain e where e: "keys (sv_keystore st) k = Some e" "m_tenant_id (ke_meta e) = t" "m_spec (ke_meta e) = Aes256Gcm"
    "ee_kek_version resp = m_version (ke_meta e)" "sv_keystore st1 = sv_keystore st"
    and env: "envelope_of cr (ke_material e) pt (unb64 (ee_wrapped_dek resp), unb64 (ee_dek_nonce resp))
       (unb64 (ee_ciphertext resp), unb64 (ee_data_nonce resp), unb64 (ee_tag resp))"
    using es_encrypt_envelope [OF crates(1) sv enc b64] by blast
  have inv: "hist_inv (1 + length before) (sv_keystore st)" "kek_inv (1 + length before) (sv_keystore st)"
    unfolding reach using hist_inv_run [OF hist_inv_new, of before cr] kek_inv_run [OF kek_inv_new, of before cr] bound crates(2)
    by simp_all
  have status: "ks_inv (sv_keystore st)"
    unfolding reach by (rule ks_invariant.run_inv) (simp_all add: list.pred_True)
  have kek: "m_version (ke_meta e) \<noteq> 0" "length (ke_material e) = 32"
    using inv(2) e(1,3) by (auto simp: kek_inv_def kek_entry_def)
  have "readable k t Aes256Gcm (m_version (ke_meta e)) (ke_material e) (sv_keystore st)"
    using status e(1-3) by (auto simp: readable_def ks_inv_def can_decrypt_def select_material_def)
  then have r: "readable k t Aes256Gcm (m_version (ke_meta e)) (ke_material e) (sv_keystore st2)"
    unfolding later(2) e(5) by (rule readable_run [OF _ later(1) _ inv(1)]) (use bound crates(2) in \<open>auto simp: enc_specs_def\<close>)
  then have mat: "get_key_material_version (sv_keystore st2) k (ee_kek_version resp) t = Inr (ke_material e)"
    using readable_version kek(1) e(4) by metis
  obtain e' where e': "keys (sv_keystore st2) k = Some e'" "m_tenant_id (ke_meta e') = t" "m_spec (ke_meta e') = Aes256Gcm"
    using r by (auto simp: readable_def)
  have "kek_inv (1 + length before + length later) (sv_keystore st2)"
    unfolding later(2) e(5) by (rule kek_inv_run [OF inv(2)]) (use bound in auto)
  then have len: "length (ke_material e') = 32"
    using e' by (auto simp: kek_inv_def kek_entry_def)
  obtain rw where rw: "es_rewrap_dek cr sc sv cl' k (unb64 (ee_wrapped_dek resp)) (unb64 (ee_dek_nonce resp)) (ee_kek_version resp) t st2
      = (Inr rw, st2)"
    and env': "envelope_of cr (ke_material e') pt (unb64 (rd_wrapped_dek rw), unb64 (rd_dek_nonce rw))
       (unb64 (ee_ciphertext resp), unb64 (ee_data_nonce resp), unb64 (ee_tag resp))"
    using rewrap_envelope [OF crates(1) kek(2) env sv b64 e' len mat rng] by blast
  have "get_key_material_version (sv_keystore st2) k 0 t = Inr (ke_material e')"
    using e' by (simp add: get_key_material_version_def verify_tenant_def)
  then show ?thesis
    using envelope_opens [OF crates(1) kek(2) env sv mat] envelope_opens [OF crates(1) len env' sv] rw
    unfolding es_decrypt_def by blast
qed

text \<open>
  A nonce of fewer than twelve bytes makes the envelope service panic: with a key the tenant owns and
  a wrapped data key of sufficient length, whatever the rest of the request.
\<close>

theorem envelope_short_nonce_panics:
  assumes "svc_keystore sv = software_backend cr" "get_key_material_version (sv_keystore st) k v t = Inr kek"
    "aes_unbound_key cr kek = Inr ()" "48 \<le> length w" "length dn < 12"
  shows "\<exists>p. fst (es_decrypt_with_kek_version cr sv cl k c w dn xn tag aad t v st) = Inl (ApiPanicked p)
    \<and> into_response (ApiPanicked p) = None"
  using assms by (simp add: es_decrypt_with_kek_version_def keystore_call_def unwrap_dek_def or_api_def copy_nonce_def)

section \<open>Exported keys\<close>

text \<open>What is relied on of the crates for SM2 protection.\<close>

definition sm_works :: "'kp crypto \<Rightarrow> bool" where
  "sm_works cr \<longleftrightarrow>
     (\<forall>K p n a c t. sm4_encrypt_gcm cr K p n a = Inr (c, t) \<longrightarrow> length t = 16 \<and> sm4_decrypt_gcm cr K c n a t = Inr p)
     \<and> (\<forall>kp rng p c. sm2_encrypt cr (sm2_public_key_bytes_uncompressed cr kp) rng p = Inr c \<longrightarrow> sm2_decrypt cr kp c = Inr p)"

text \<open>How the holder of the SM2 key opens an export: the transport key, then nonce, data and tag.\<close>

definition open_sm2_export :: "'kp crypto \<Rightarrow> 'kp \<Rightarrow> bytes \<Rightarrow> bytes \<Rightarrow> bytes \<Rightarrow> string + bytes" where
  "open_sm2_export cr kp export_aad wrapped etk =
     and_then (sm2_decrypt cr kp etk) (\<lambda>transport_key.
       sm4_decrypt_gcm cr transport_key (take (length wrapped - 28) (drop 12 wrapped)) (take 12 wrapped) export_aad
         (drop (length wrapped - 16) wrapped))"

lemma wrap_sm2_opens:
  assumes "sm_works cr" "wrap_sm2 cr rngs os (sm2_public_key_bytes_uncompressed cr kp) aad m = Inr (w, etk)"
  shows "open_sm2_export cr kp aad w etk = Inr m"
proof -
  obtain g0 g1 c t where *: "sm4_encrypt_gcm cr (fill_bytes g0 16) m (fill_bytes g1 12) aad = Inr (c, t)"
    "sm2_encrypt cr (sm2_public_key_bytes_uncompressed cr kp) os (fill_bytes g0 16) = Inr etk" "w = fill_bytes g1 12 @ c @ t"
    using assms(2) by (auto simp: wrap_sm2_def and_then_Inr api_fill_def or_api_def split: option.splits)
  have "length t = 16" "sm4_decrypt_gcm cr (fill_bytes g0 16) c (fill_bytes g1 12) aad t = Inr m"
    "sm2_decrypt cr kp etk = Inr (fill_bytes g0 16)"
    using assms(1) *(1,2) unfolding sm_works_def by blast+
  then show ?thesis
    by (simp add: open_sm2_export_def *(3))
qed

text \<open>
  A key exported under SM2 protection can be opened by the holder of the private key: the transport
  key decrypts, and the wrapped key opens under the additional data of the key and its tenant. The
  fingerprint is that of the material. On the software keystore, the material is the current one when no
  version or version zero is asked for.
\<close>

theorem sm2_export_opens:
  assumes works: "sm_works cr" and b64: "\<And>x. unb64 (b64_encode sc x) = x" and sv: "svc_keystore sv = software_backend cr"
    and opts: "eo_protection opts = Sm2Protection" "eo_version opts \<in> {None, Some 0}"
    and exp: "fst (kys_export_key cr sc sv cl k (sm2_public_key_bytes_uncompressed cr kp) t opts st) = Inr ek"
  shows "\<exists>m. export_key_material (sv_keystore st) k t = Inr m
    \<and> open_sm2_export cr kp (export_wrap_aad (sha256 cr) k t) (unb64 (ek_wrapped_key ek)) (unb64 (ek_encrypted_transport_key ek)) = Inr m
    \<and> ek_key_fingerprint ek = hex_encode cr (sha256 cr m)"
proof -
  obtain m w etk where m: "export_key_material (sv_keystore st) k t = Inr m"
    "wrap_sm2 cr (cl_rngs cl) (cl_os_rng cl) (sm2_public_key_bytes_uncompressed cr kp) (export_wrap_aad (sha256 cr) k t) m = Inr (w, etk)"
    "ek = \<lparr>ek_wrapped_key = b64_encode sc w, ek_encrypted_transport_key = b64_encode sc etk,
       ek_key_fingerprint = hex_encode cr (sha256 cr m)\<rparr>"
    using exp opts unfolding kys_export_key_def fetch_owned_key_meta_def sv
    by (auto simp: keystore_call_def then_st_def split: sum.splits prod.splits if_splits option.splits)
  then show ?thesis
    using wrap_sm2_opens [OF works m(2)] by (simp add: b64)
qed

definition xor_crypto :: "bytes crypto" where
  "xor_crypto = demo_crypto\<lparr>
     aes_seal := (\<lambda>k n a p. Inr (map (\<lambda>b. xor b (if n = [] then 0 else hd n)) p, replicate 16 0)),
     aes_open := (\<lambda>k n a io. Inr (map (\<lambda>b. xor b (if n = [] then 0 else hd n)) (take (length io - 16) io))),
     sm4_encrypt_gcm := (\<lambda>k p n a. Inr (p, replicate 16 0)), sm4_decrypt_gcm := (\<lambda>k c n a t. Inr c)\<rparr>"

definition mini_svc_crates :: svc_crates where
  "mini_svc_crates = \<lparr>sm3_hmac = (\<lambda>k d. Inr (k @ d)), sm3_hmac_verify = (\<lambda>k d m. Inr (m = k @ d)),
     rsa_from_pkcs1_der = (\<lambda>_. Inr ()), rsa_oaep_encrypt = (\<lambda>pk rng p. Inr p), b64_encode = map (\<lambda>b. char_of (unat b))\<rparr>"

lemma xor_works: "aes_works xor_crypto"
  by (auto simp: aes_works_def xor_crypto_def demo_crypto_def comp_def xor.assoc map_idI)

text \<open>
  A key exported under RSA protection cannot be opened from what the service returns: the random
  nonce of the wrap is not part of the answer. There is a cipher that works, under which two different
  keys are wrapped with the same transport key to the same bytes.
\<close>

theorem rsa_export_loses_nonce:
  "aes_works xor_crypto \<and> (\<exists>rngs rngs' os pk aad m m' w etk. m \<noteq> m' \<and> rngs 0 = rngs' 0
     \<and> wrap_rsa xor_crypto mini_svc_crates rngs os pk aad m = Inr (w, etk)
     \<and> wrap_rsa xor_crypto mini_svc_crates rngs' os pk aad m' = Inr (w, etk))"
proof
  define rngs :: "u8 \<Rightarrow> nat \<Rightarrow> sys_rng" where "rngs x i = (if i = 0 then Some (\<lambda>_. 0) else Some (\<lambda>_. x))" for x i
  have "wrap_rsa xor_crypto mini_svc_crates (rngs x) (\<lambda>_. 0) [] [] [x] = Inr (0 # replicate 16 0, replicate 32 0)" for x
    by (simp add: rngs_def wrap_rsa_def api_fill_def or_api_def xor_crypto_def demo_crypto_def mini_svc_crates_def fill_bytes_const)
  moreover have "[0 :: u8] \<noteq> [1]" "rngs 0 0 = rngs 1 0"
    by (simp_all add: rngs_def)
  ultimately show "\<exists>rngs rngs' os pk aad m m' w etk. m \<noteq> m' \<and> rngs 0 = rngs' 0
     \<and> wrap_rsa xor_crypto mini_svc_crates rngs os pk aad m = Inr (w, etk)
     \<and> wrap_rsa xor_crypto mini_svc_crates rngs' os pk aad m' = Inr (w, etk)"
    by blast
qed (rule xor_works)

section \<open>Names of specifications, MAC inputs and imports\<close>

text \<open>
  The names of a key specification, as the service shows them and as it debug-prints them, are parsed
  back to it.
\<close>

theorem parse_spec_roundtrip: "parse_spec (algorithm_name sp) = Inr sp \<and> parse_spec (spec_debug sp) = Inr sp"
  by (cases sp) (simp_all add: parse_spec_def Let_def ascii_lower_def)

text \<open>
  The input of the managed HMAC separates non-empty contexts: distinct pairs of context and data give
  distinct inputs. Without a context it does not: every input with a context is also the input of some
  data without one, so a tag for the one is a tag for the other.
\<close>

theorem mac_input_contexts:
  assumes "a \<noteq> []" "length a < 2 ^ 32" "a' \<noteq> []" "length a' < 2 ^ 32"
  shows "(build_mac_input (Some a) d = build_mac_input (Some a') d' \<longleftrightarrow> a = a' \<and> d = d')
    \<and> (\<exists>d'. build_mac_input None d' = build_mac_input (Some a) d)"
proof
  have "length a = length a'" if "be_bytes 4 (length a) @ x = be_bytes 4 (length a') @ x'" for x x'
    using that assms(2,4) by (intro be_bytes_inj [of 4]) (auto simp del: be_bytes.simps)
  with assms show "build_mac_input (Some a) d = build_mac_input (Some a') d' \<longleftrightarrow> a = a' \<and> d = d'"
    by (fastforce simp: build_mac_input_def simp del: be_bytes.simps)
  show "\<exists>d'. build_mac_input None d' = build_mac_input (Some a) d"
    by (simp add: build_mac_input_def)
qed

text \<open>
  Importing ignores the transport key and the fingerprint: once both are well formed, the outcome is
  that of the data given, which are taken as they are, and does not depend on them.
\<close>

theorem import_ignores_wrapping:
  assumes "etk \<noteq> []" "etk' \<noteq> []" "length fp = 64" "list_all ascii_hexdigit fp" "length fp' = 64" "list_all ascii_hexdigit fp'"
  shows "kys_import_key fc sv cl spec name format key_data etk fp t st = kys_import_key fc sv cl spec name format key_data etk' fp' t st"
  using assms by (simp add: kys_import_key_def)

section \<open>Concrete instances\<close>

definition mini_services :: "('n, 's) backend \<Rightarrow> ('n, 's, mini_store) services" where
  "mini_services b = \<lparr>svc_keystore = b, svc_redis = mini_redis, svc_quota_tracker = None,
     svc_op_counter = False, svc_format_time = (\<lambda>f t. f), svc_uuid_str = (\<lambda>_. ''id'')\<rparr>"

definition mini_state :: "'s \<Rightarrow> ('s, mini_store) svc_state" where
  "mini_state s = \<lparr>sv_keystore = s, sv_redis = mini_empty\<rparr>"

definition mini_call :: "'n \<Rightarrow> 'n call" where
  "mini_call n = \<lparr>cl_envs = (\<lambda>_. n), cl_clock = (\<lambda>_. 0), cl_rngs = (\<lambda>_. Some (\<lambda>_. 3)), cl_os_rng = (\<lambda>_. 1)\<rparr>"

definition mini_ks_env :: ks_env where
  "mini_ks_env = \<lparr>kn_rng = (\<lambda>_. 1), kn_id = 9, kn_now = 0, kn_order = []\<rparr>"

definition mini_pg_env :: pg_env where
  "mini_pg_env = \<lparr>pn_faults = (\<lambda>_. None), pn_rngs = (\<lambda>_. None), pn_sm2_rng = (\<lambda>_. 1), pn_id = 9, pn_version_id = 10, pn_now = 0\<rparr>"

lemmas mini_defs = mini_services_def mini_state_def mini_call_def mini_ks_env_def mini_pg_env_def

lemma demo_not_owned: "\<not> owned (demo_store Aes256Gcm) 5 ''globex''"
  by (simp add: owned_def demo_key)

lemma demo_pg_not_owned: "\<not> pg_owned demo_crypto demo_db (\<lambda>_. None) demo_pg 5 ''globex''"
  by (simp add: pg_owned_def demo_pg_state get_cloned_def insert_with_eviction_def bc_new_def map_insert_def)

theorem services_isolate_tenants_witness:
  "tenant_refused demo_crypto mini_svc_crates (mini_services (software_backend demo_crypto)) (mini_call mini_ks_env) 5 ''globex''
     (mini_state (demo_store Aes256Gcm))
   \<and> shown_own (mini_services (software_backend demo_crypto)) (mini_call mini_ks_env) ''globex'' (mini_state (demo_store Aes256Gcm))
   \<and> tenant_refused demo_crypto mini_svc_crates (mini_services (pg_backend demo_crypto demo_db)) (mini_call mini_pg_env) 5 ''globex''
     (mini_state demo_pg)
   \<and> shown_own (mini_services (pg_backend demo_crypto demo_db)) (mini_call mini_pg_env) ''globex'' (mini_state demo_pg)"
proof (rule services_isolate_tenants)
  show "\<not> pg_owned demo_crypto demo_db (pn_faults (cl_envs (mini_call mini_pg_env) i)) (sv_keystore (mini_state demo_pg)) 5 ''globex''" for i
    using demo_pg_not_owned by (simp add: mini_defs)
qed (simp_all add: mini_defs demo_not_owned demo_db_sorts)

theorem services_hide_keys_witness:
  "answers_not_found demo_crypto mini_svc_crates (mini_services (software_backend demo_crypto)) (mini_call mini_ks_env) 5 ''globex''
     (mini_state (demo_store Aes256Gcm))
   \<and> answers_not_found demo_crypto mini_svc_crates (mini_services (pg_backend demo_crypto demo_db)) (mini_call mini_pg_env) 5 ''globex''
     (mini_state demo_pg)"
proof (rule services_hide_keys)
  show "m_tenant_id meta \<noteq> ''globex''"
    if "pg_get_key_metadata demo_db (pn_faults (cl_envs (mini_call mini_pg_env) 0)) 5 (sv_keystore (mini_state demo_pg)) = Inr meta" for meta
    using that demo_pg_not_owned
    by (auto simp: mini_defs pg_get_key_metadata_def pg_owned_def demo_pg_state get_cloned_def insert_with_eviction_def bc_new_def map_insert_def)
qed (simp_all add: mini_defs demo_not_owned check_quota_def)

theorem envelope_reveals_foreign_keys_witness:
  "fst (es_encrypt demo_crypto mini_svc_crates (mini_services (software_backend demo_crypto)) (mini_call mini_ks_env) 5 [1] None ''globex''
     (mini_state (demo_store Ed25519))) = Inl not_a_kek"
  using envelope_reveals_foreign_keys [of "mini_services (software_backend demo_crypto)" demo_crypto "mini_state (demo_store Ed25519)" 5 _ "''globex''" 6
      mini_svc_crates "mini_call mini_ks_env" "[1]" None]
  by (simp add: mini_services_def mini_state_def demo_key)

lemma xor_sm_works: "sm_works xor_crypto"
  by (simp add: sm_works_def xor_crypto_def demo_crypto_def)

lemma xor_generator: "sm2_generator_ok xor_crypto"
  using demo_sm2_generator_ok by (simp add: sm2_generator_ok_def xor_crypto_def)

lemma mini_b64: "map of_char (b64_encode mini_svc_crates x) = x"
proof -
  have "(of_char (char_of (unat b)) :: u8) = b" for b :: u8
  proof -
    have "(of_char (char_of (unat b)) :: u8) = word_of_nat (of_char (char_of (unat b)))"
      by (simp only: of_nat_of_char)
    moreover have "(of_char (char_of (unat b)) :: nat) = unat b"
      using unsigned_less [of b, where 'a = nat] by simp
    ultimately show ?thesis
      by simp
  qed
  then show ?thesis
    by (simp add: mini_svc_crates_def comp_def map_idI)
qed

definition xor_store :: "unit software_keystore" where
  "xor_store = run_ops (ks_step xor_crypto) [demo_generate Aes256Gcm] ks_new"

lemma xor_key:
  "keys xor_store = [5 \<mapsto> \<lparr>ke_meta = new_meta 5 0 Aes256Gcm ''k'' ''acme'' None, ke_material = replicate 32 7, ke_versions = []\<rparr>]"
  by (auto simp: xor_store_def demo_generate_def keys_step generate_material_def generate_aes_key_def fill_bytes_const ks_new_def)

theorem envelope_survives_rotation_witness:
  "\<exists>resp. es_encrypt xor_crypto mini_svc_crates (mini_services (software_backend xor_crypto)) (mini_call mini_ks_env) 5 [1, 2] None ''acme''
      (mini_state xor_store) = (Inr resp, mini_state xor_store)
    \<and> fst (es_decrypt_with_kek_version xor_crypto (mini_services (software_backend xor_crypto)) (mini_call mini_ks_env) 5
        (map of_char (ee_ciphertext resp)) (map of_char (ee_wrapped_dek resp)) (map of_char (ee_dek_nonce resp))
        (map of_char (ee_data_nonce resp)) (map of_char (ee_tag resp)) None ''acme'' (ee_kek_version resp)
        (mini_state (run_ops (ks_step xor_crypto) [RotateKey (\<lambda>_. 8) 3 5 ''acme''] xor_store))) = Inr [1, 2]"
proof -
  let ?sv = "mini_services (software_backend xor_crypto)" and ?cl = "mini_call mini_ks_env"
  obtain resp where enc: "es_encrypt xor_crypto mini_svc_crates ?sv ?cl 5 [1, 2] None ''acme'' (mini_state xor_store) = (Inr resp, mini_state xor_store)"
    by (simp add: es_encrypt_def mini_defs keystore_call_def get_key_metadata_def get_key_material_def xor_key api_fill_def or_api_def
        xor_crypto_def demo_crypto_def fill_bytes_const Let_def)
  with envelope_survives_rotation [OF xor_works xor_generator mini_b64 _ _ enc, of "[demo_generate Aes256Gcm]" "[RotateKey (\<lambda>_. 8) 3 5 ''acme'']"
      "mini_state (run_ops (ks_step xor_crypto) [RotateKey (\<lambda>_. 8) 3 5 ''acme''] xor_store)" ?cl "\<lambda>_. 3" None]
  show ?thesis
    by (simp add: mini_services_def mini_state_def mini_call_def xor_store_def)
qed

theorem envelope_short_nonce_panics_witness:
  "\<exists>p. fst (es_decrypt_with_kek_version xor_crypto (mini_services (software_backend xor_crypto)) (mini_call mini_ks_env) 5 []
      (replicate 48 0) [1] [] [] None ''acme'' 0 (mini_state xor_store)) = Inl (ApiPanicked p) \<and> into_response (ApiPanicked p) = None"
  by (rule envelope_short_nonce_panics [where kek = "replicate 32 7"])
    (simp_all add: mini_defs xor_key get_key_material_version_def verify_tenant_def xor_crypto_def demo_crypto_def)

theorem sm2_export_opens_witness:
  "\<exists>ek. fst (kys_export_key xor_crypto mini_svc_crates (mini_services (software_backend xor_crypto)) (mini_call mini_ks_env) 5
       (4 # replicate 64 0) ''acme'' \<lparr>eo_protection = Sm2Protection, eo_version = None\<rparr> (mini_state xor_store)) = Inr ek
    \<and> open_sm2_export xor_crypto (4 # replicate 64 0) (export_wrap_aad (sha256 xor_crypto) 5 ''acme'')
       (map of_char (ek_wrapped_key ek)) (map of_char (ek_encrypted_transport_key ek)) = Inr (replicate 32 7)"
proof -
  let ?opts = "\<lparr>eo_protection = Sm2Protection, eo_version = None\<rparr>" and ?sv = "mini_services (software_backend xor_crypto)"
  have pk: "sm2_public_key_bytes_uncompressed xor_crypto (4 # replicate 64 0) = 4 # replicate 64 0"
    by (simp add: xor_crypto_def demo_crypto_def)
  have mat: "export_key_material xor_store 5 ''acme'' = Inr (replicate 32 7)"
    by (simp add: export_key_material_def xor_key)
  obtain ek where ek: "fst (kys_export_key xor_crypto mini_svc_crates ?sv (mini_call mini_ks_env) 5 (4 # replicate 64 0) ''acme'' ?opts (mini_state xor_store)) = Inr ek"
    by (simp add: kys_export_key_def fetch_owned_key_meta_def keystore_call_def mini_defs get_key_metadata_def xor_key mat check_target_key_def
        wrap_sm2_def api_fill_def or_api_def xor_crypto_def demo_crypto_def)
  with sm2_export_opens [OF xor_sm_works mini_b64, of ?sv ?opts "mini_call mini_ks_env" 5 "4 # replicate 64 0" "''acme''" "mini_state xor_store" ek] mat pk
  show ?thesis
    by (simp add: mini_services_def mini_state_def)
qed

theorem mac_input_contexts_witness:
  "\<exists>d'. build_mac_input None d' = build_mac_input (Some [1]) [2]"
  using mac_input_contexts [of "[1]" "[3]" "[2]" "[2]"] by simp

theorem import_ignores_wrapping_witness:
  "kys_import_key mini_formats (mini_services (software_backend demo_crypto)) (mini_call mini_ks_env) Aes256Gcm ''k'' ''raw'' [1] [1] (replicate 64 CHR ''0'') ''acme''
      (mini_state (demo_store Aes256Gcm))
   = kys_import_key mini_formats (mini_services (software_backend demo_crypto)) (mini_call mini_ks_env) Aes256Gcm ''k'' ''raw'' [1] [2] (replicate 64 CHR ''a'') ''acme''
      (mini_state (demo_store Aes256Gcm))"
  by (rule import_ignores_wrapping) (simp_all add: ascii_hexdigit_def list_all_iff)

end
