(* ===== verification/Auth.thy ===== *)
theory Auth
  imports Key_Format Policy
begin

unbundle bit_operations_syntax

text \<open>
  Authentication of requests, \<^verbatim>\<open>crates/kms-api/src/auth.rs\<close>: permissions as bits, the roles of API keys, the
  list of keys with its life cycle, the middleware in front of every route, and the policy check behind
  it. One reading of the clock serves all keys a single call looks at; calls in sequence have readings
  of their own. Secrets are compared as the strings they are.
\<close>

section \<open>Permissions and roles\<close>

type_synonym permission = u32

definition LIST_KEYS :: permission where "LIST_KEYS = push_bit 0 1"
definition GET_KEY :: permission where "GET_KEY = push_bit 1 1"
definition ENCRYPT :: permission where "ENCRYPT = push_bit 2 1"
definition DECRYPT :: permission where "DECRYPT = push_bit 3 1"
definition SIGN :: permission where "SIGN = push_bit 4 1"
definition VERIFY :: permission where "VERIFY = push_bit 5 1"
definition HASH :: permission where "HASH = push_bit 6 1"
definition DH_DERIVE :: permission where "DH_DERIVE = push_bit 7 1"
definition CREATE_KEY :: permission where "CREATE_KEY = push_bit 8 1"
definition DELETE_KEY :: permission where "DELETE_KEY = push_bit 9 1"
definition ROTATE_KEY :: permission where "ROTATE_KEY = push_bit 10 1"
definition IMPORT_KEY :: permission where "IMPORT_KEY = push_bit 11 1"
definition EXPORT_KEY :: permission where "EXPORT_KEY = push_bit 12 1"
definition MANAGE_POLICY :: permission where "MANAGE_POLICY = push_bit 13 1"
definition VIEW_AUDIT :: permission where "VIEW_AUDIT = push_bit 14 1"
definition EXPORT_AUDIT :: permission where "EXPORT_AUDIT = push_bit 15 1"
definition MANAGE_API_KEYS :: permission where "MANAGE_API_KEYS = push_bit 16 1"
definition MANAGE_MFA :: permission where "MANAGE_MFA = push_bit 17 1"
definition APPROVE_ACTION :: permission where "APPROVE_ACTION = push_bit 18 1"

definition AUTHENTICATED :: permission where
  "AUTHENTICATED = LIST_KEYS"

lemmas permission_bits =
  LIST_KEYS_def GET_KEY_def ENCRYPT_def DECRYPT_def SIGN_def VERIFY_def HASH_def DH_DERIVE_def
  CREATE_KEY_def DELETE_KEY_def ROTATE_KEY_def IMPORT_KEY_def EXPORT_KEY_def MANAGE_POLICY_def
  VIEW_AUDIT_def EXPORT_AUDIT_def MANAGE_API_KEYS_def MANAGE_MFA_def APPROVE_ACTION_def

datatype api_key_permission = ReadOnly | Operator | KeyAdmin | SecurityOfficer | AuditAdmin | TenantAdmin

text \<open>\<open>replace('_', "-")\<close>.\<close>

definition dashes :: "string \<Rightarrow> string" where
  "dashes = map (\<lambda>c. if c = CHR ''_'' then CHR ''-'' else c)"

definition from_role_name :: "string \<Rightarrow> api_key_permission option" where
  "from_role_name name =
     (let normalized = dashes (to_lowercase (trim name))
      in if normalized \<in> {''read-only'', ''readonly'', ''reader''} then Some ReadOnly
         else if normalized = ''operator'' then Some Operator
         else if normalized \<in> {''key-admin'', ''keyadmin''} then Some KeyAdmin
         else if normalized \<in> {''security-officer'', ''securityofficer'', ''officer''} then Some SecurityOfficer
         else if normalized \<in> {''audit-admin'', ''auditadmin'', ''auditor''} then Some AuditAdmin
         else if normalized \<in> {''tenant-admin'', ''tenantadmin''} then Some TenantAdmin
         else None)"

fun permissions :: "api_key_permission \<Rightarrow> permission" where
  "permissions ReadOnly = LIST_KEYS OR GET_KEY"
| "permissions Operator =
     LIST_KEYS OR GET_KEY OR ENCRYPT OR DECRYPT OR SIGN OR VERIFY OR HASH OR DH_DERIVE"
| "permissions KeyAdmin =
     LIST_KEYS OR GET_KEY OR ENCRYPT OR DECRYPT OR SIGN OR VERIFY OR HASH OR DH_DERIVE
     OR CREATE_KEY OR DELETE_KEY OR ROTATE_KEY OR IMPORT_KEY OR EXPORT_KEY"
| "permissions SecurityOfficer =
     LIST_KEYS OR GET_KEY OR VIEW_AUDIT OR MANAGE_POLICY OR MANAGE_API_KEYS OR MANAGE_MFA OR APPROVE_ACTION"
| "permissions AuditAdmin = VIEW_AUDIT OR EXPORT_AUDIT"
| "permissions TenantAdmin = LIST_KEYS OR GET_KEY OR APPROVE_ACTION"

text \<open>\<open>contains\<close> of the bit set: all bits of the argument are set.\<close>

definition satisfies :: "api_key_permission \<Rightarrow> permission \<Rightarrow> bool" where
  "satisfies role required \<longleftrightarrow> permissions role AND required = required"

fun role_display :: "api_key_permission \<Rightarrow> string" where
  "role_display ReadOnly = ''read-only''"
| "role_display Operator = ''operator''"
| "role_display KeyAdmin = ''key-admin''"
| "role_display SecurityOfficer = ''security-officer''"
| "role_display AuditAdmin = ''audit-admin''"
| "role_display TenantAdmin = ''tenant-admin''"

section \<open>API keys\<close>

record api_key =
  ak_secret :: string
  ak_permission :: api_key_permission
  ak_created_at :: time
  ak_expires_at :: "time option"
  ak_revoked :: bool
  ak_key_id :: string
  ak_tenant_id :: "string option"
  ak_failed_attempts :: u32
  ak_locked_until :: "time option"

text \<open>\<open>fresh\<close> is the text of the new random identifier.\<close>

definition api_key_new :: "time \<Rightarrow> string \<Rightarrow> string \<Rightarrow> api_key_permission \<Rightarrow> api_key" where
  "api_key_new now fresh secret role =
     \<lparr>ak_secret = secret, ak_permission = role, ak_created_at = now, ak_expires_at = None, ak_revoked = False,
      ak_key_id = fresh, ak_tenant_id = None, ak_failed_attempts = 0, ak_locked_until = None\<rparr>"

definition with_expiration :: "time \<Rightarrow> api_key \<Rightarrow> api_key" where
  "with_expiration t k = k\<lparr>ak_expires_at := Some t\<rparr>"

definition with_key_id :: "string \<Rightarrow> api_key \<Rightarrow> api_key" where
  "with_key_id i k = k\<lparr>ak_key_id := i\<rparr>"

definition with_tenant_binding :: "string \<Rightarrow> api_key \<Rightarrow> api_key" where
  "with_tenant_binding t k = k\<lparr>ak_tenant_id := Some t\<rparr>"

definition ak_is_valid :: "time \<Rightarrow> api_key \<Rightarrow> bool" where
  "ak_is_valid now k \<longleftrightarrow> \<not> ak_revoked k \<and> (case ak_expires_at k of None \<Rightarrow> True | Some e \<Rightarrow> now < e)"

definition ak_is_locked :: "time \<Rightarrow> api_key \<Rightarrow> bool" where
  "ak_is_locked now k \<longleftrightarrow> (case ak_locked_until k of None \<Rightarrow> False | Some u \<Rightarrow> now < u)"

definition ak_record_failed :: "api_key \<Rightarrow> api_key" where
  "ak_record_failed k = k\<lparr>ak_failed_attempts := ak_failed_attempts k + 1\<rparr>"

definition ak_record_success :: "api_key \<Rightarrow> api_key" where
  "ak_record_success k = k\<lparr>ak_failed_attempts := 0, ak_locked_until := None\<rparr>"

definition ak_lock :: "time \<Rightarrow> time \<Rightarrow> api_key \<Rightarrow> api_key" where
  "ak_lock now d k = k\<lparr>ak_locked_until := Some (now + d)\<rparr>"

section \<open>The list of keys\<close>

record api_key_config =
  ac_header_name :: string
  ac_valid_keys :: "api_key list"
  ac_max_failed_attempts :: u32
  ac_lockout_duration :: time
  ac_brute_force_protection :: bool
  ac_unknown_key_attempts :: u32
  ac_unknown_key_last_attempt :: "time option"

datatype auth_error = ApiKeyNotConfigured string | AuthConfiguration msg

text \<open>\<open>ApiKeyConfig::with_keys\<close> fixes the name of the header, the other two take it as an argument.\<close>

definition config_of :: "string \<Rightarrow> api_key list \<Rightarrow> api_key_config" where
  "config_of header_name ks =
     \<lparr>ac_header_name = header_name, ac_valid_keys = ks, ac_max_failed_attempts = 5,
      ac_lockout_duration = secs (15 * 60), ac_brute_force_protection = True,
      ac_unknown_key_attempts = 0, ac_unknown_key_last_attempt = None\<rparr>"

definition config_new :: "time \<Rightarrow> string \<Rightarrow> string \<Rightarrow> string \<Rightarrow> api_key_config" where
  "config_new now fresh header_name key = config_of header_name [api_key_new now fresh key ReadOnly]"

definition config_with_role :: "time \<Rightarrow> string \<Rightarrow> string \<Rightarrow> string \<Rightarrow> api_key_permission \<Rightarrow> api_key_config" where
  "config_with_role now fresh header_name key role = config_of header_name [api_key_new now fresh key role]"

definition config_with_keys :: "api_key list \<Rightarrow> api_key_config" where
  "config_with_keys ks = config_of ''x-api-key'' ks"

text \<open>\<open>env\<close> is the process environment; a variable that is not valid Unicode counts as absent.\<close>

definition config_from_env ::
  "(string \<rightharpoonup> string) \<Rightarrow> time \<Rightarrow> string \<Rightarrow> string \<Rightarrow> string \<Rightarrow> auth_error + api_key_config" where
  "config_from_env env now fresh header_name env_var =
     and_then (ok_or (ApiKeyNotConfigured env_var) (env env_var)) (\<lambda>key.
       if key = [] then Inl (AuthConfiguration (Lit ''API key cannot be empty''))
       else if key = ''dev-api-key'' \<and> env ''KMS_DEV_MODE'' \<noteq> Some ''1''
       then Inl (AuthConfiguration (Lit ''Insecure default 'dev-api-key' rejected. Set KMS_API_KEY to a secure value, or set KMS_DEV_MODE=1 for development.''))
       else
         and_then
           (case env ''KMS_API_KEY_ROLE'' of
              Some requested \<Rightarrow>
                ok_or (AuthConfiguration (Fmt [Lit (''unknown KMS_API_KEY_ROLE '' @ [CHR 0x27]), Str requested,
                         Lit (CHR 0x27 # '' (expected read-only, operator, key-admin, security-officer, audit-admin or tenant-admin)'')]))
                  (from_role_name requested)
            | None \<Rightarrow> Inr (if key = ''dev-api-key'' then KeyAdmin else Operator))
           (\<lambda>role. Inr (config_with_role now fresh header_name key role)))"

definition disable_brute_force_protection :: "api_key_config \<Rightarrow> api_key_config" where
  "disable_brute_force_protection c = c\<lparr>ac_brute_force_protection := False\<rparr>"

text \<open>The key a secret authenticates as.\<close>

definition usable :: "time \<Rightarrow> string \<Rightarrow> api_key \<Rightarrow> bool" where
  "usable now s k \<longleftrightarrow> ak_secret k = s \<and> ak_is_valid now k \<and> \<not> ak_is_locked now k"

definition auth_validate :: "time \<Rightarrow> api_key_config \<Rightarrow> string \<Rightarrow> api_key_permission option" where
  "auth_validate now c s = map_option ak_permission (find (usable now s) (ac_valid_keys c))"

definition validate_with_identity :: "time \<Rightarrow> api_key_config \<Rightarrow> string \<Rightarrow> (api_key_permission \<times> string) option" where
  "validate_with_identity now c s =
     map_option (\<lambda>k. (ak_permission k, ak_key_id k)) (find (usable now s) (ac_valid_keys c))"

text \<open>A loop over mutable references that changes the first element it is looking for.\<close>

fun update_first :: "('a \<Rightarrow> bool) \<Rightarrow> ('a \<Rightarrow> 'a) \<Rightarrow> 'a list \<Rightarrow> 'a list" where
  "update_first P f [] = []"
| "update_first P f (x # xs) = (if P x then f x # xs else x # update_first P f xs)"

text \<open>The second component is the delay in milliseconds before the call returns.\<close>

definition record_failed_attempt :: "time \<Rightarrow> string \<Rightarrow> api_key_config \<Rightarrow> api_key_config \<times> u64" where
  "record_failed_attempt now s c =
     (if \<not> ac_brute_force_protection c then (c, 0)
      else
        let c = (case ac_unknown_key_last_attempt c of
                   Some prev \<Rightarrow> if now - prev > secs (5 * 60) then c\<lparr>ac_unknown_key_attempts := 0\<rparr> else c
                 | None \<Rightarrow> c)
        in if \<exists>k \<in> set (ac_valid_keys c). ak_secret k = s
           then (c\<lparr>ac_valid_keys :=
                     update_first (\<lambda>k. ak_secret k = s)
                       (\<lambda>k. let k' = ak_record_failed k
                            in if ak_failed_attempts k' \<ge> ac_max_failed_attempts c
                               then ak_lock now (ac_lockout_duration c) k' else k')
                       (ac_valid_keys c)\<rparr>, 0)
           else
             let n = ac_unknown_key_attempts c + 1
             in (c\<lparr>ac_unknown_key_attempts := n, ac_unknown_key_last_attempt := Some now\<rparr>,
                 min (ucast n * 50) 2000))"

definition config_record_success :: "string \<Rightarrow> api_key_config \<Rightarrow> api_key_config" where
  "config_record_success s c =
     c\<lparr>ac_valid_keys := update_first (\<lambda>k. ak_secret k = s) ak_record_success (ac_valid_keys c)\<rparr>"

definition config_is_locked :: "time \<Rightarrow> api_key_config \<Rightarrow> string \<Rightarrow> bool" where
  "config_is_locked now c s =
     (case find (\<lambda>k. ak_secret k = s) (ac_valid_keys c) of Some k \<Rightarrow> ak_is_locked now k | None \<Rightarrow> False)"

definition config_is_valid :: "time \<Rightarrow> api_key_config \<Rightarrow> string \<Rightarrow> bool" where
  "config_is_valid now c s \<longleftrightarrow> auth_validate now c s \<noteq> None"

definition has_permission :: "time \<Rightarrow> api_key_config \<Rightarrow> string \<Rightarrow> permission \<Rightarrow> bool" where
  "has_permission now c s required =
     (case auth_validate now c s of Some p \<Rightarrow> required = 0 \<or> satisfies p required | None \<Rightarrow> False)"

definition lookup_key_id :: "api_key_config \<Rightarrow> string \<Rightarrow> string option" where
  "lookup_key_id c s = map_option ak_key_id (find (\<lambda>k. ak_secret k = s) (ac_valid_keys c))"

definition lookup_tenant :: "api_key_config \<Rightarrow> string \<Rightarrow> string option" where
  "lookup_tenant c s = Option.bind (find (\<lambda>k. ak_secret k = s) (ac_valid_keys c)) ak_tenant_id"

definition add_key :: "api_key \<Rightarrow> api_key_config \<Rightarrow> api_key_config" where
  "add_key k c = c\<lparr>ac_valid_keys := ac_valid_keys c @ [k]\<rparr>"

definition revoke_key :: "string \<Rightarrow> api_key_config \<Rightarrow> bool \<times> api_key_config" where
  "revoke_key i c =
     (\<exists>k \<in> set (ac_valid_keys c). ak_key_id k = i,
      c\<lparr>ac_valid_keys := update_first (\<lambda>k. ak_key_id k = i) (\<lambda>k. k\<lparr>ak_revoked := True\<rparr>) (ac_valid_keys c)\<rparr>)"

definition lock_key_by_id :: "time \<Rightarrow> string \<Rightarrow> api_key_config \<Rightarrow> api_key_config" where
  "lock_key_by_id now i c =
     c\<lparr>ac_valid_keys := update_first (\<lambda>k. ak_key_id k = i) (ak_lock now (ac_lockout_duration c)) (ac_valid_keys c)\<rparr>"

text \<open>\<open>now\<close> is the reading for the old key, \<open>created\<close> the one for the new key.\<close>

definition auth_rotate_key ::
  "time \<Rightarrow> time \<Rightarrow> string \<Rightarrow> string \<Rightarrow> string \<Rightarrow> api_key_permission \<Rightarrow> time \<Rightarrow> api_key_config
   \<Rightarrow> api_key option \<times> api_key_config" where
  "auth_rotate_key now created fresh old_key_id new_secret new_permission grace_period c =
     (if \<exists>k \<in> set (ac_valid_keys c). ak_key_id k = old_key_id
      then
        let new_key = with_key_id (old_key_id @ ''-rotated'') (api_key_new created fresh new_secret new_permission)
        in (Some new_key,
            c\<lparr>ac_valid_keys :=
                update_first (\<lambda>k. ak_key_id k = old_key_id) (with_expiration (now + grace_period)) (ac_valid_keys c)
                @ [new_key]\<rparr>)
      else (None, c))"

definition list_valid_keys :: "time \<Rightarrow> api_key_config \<Rightarrow> api_key list" where
  "list_valid_keys now c = filter (ak_is_valid now) (ac_valid_keys c)"

record api_key_metadata =
  am_key_id :: string
  am_permission :: api_key_permission
  am_created_at :: time
  am_expires_at :: "time option"
  am_revoked :: bool
  am_is_valid :: bool

definition ak_get_key_metadata :: "time \<Rightarrow> api_key_config \<Rightarrow> string \<Rightarrow> api_key_metadata option" where
  "ak_get_key_metadata now c i =
     map_option (\<lambda>k. \<lparr>am_key_id = ak_key_id k, am_permission = ak_permission k, am_created_at = ak_created_at k,
                      am_expires_at = ak_expires_at k, am_revoked = ak_revoked k, am_is_valid = ak_is_valid now k\<rparr>)
       (find (\<lambda>k. ak_key_id k = i) (ac_valid_keys c))"

section \<open>The middleware\<close>

text \<open>
  A request as the middleware sees it: the configuration attached to it and its headers, of which it
  reads those whose value is text. The extensions it inserts are what the next handler gets.
\<close>

datatype http_status = UNAUTHORIZED | FORBIDDEN | INTERNAL_SERVER_ERROR

record auth_request =
  rq_config :: "api_key_config option"
  rq_header :: "string \<rightharpoonup> string"

record caller =
  cl_key_id :: string
  cl_bound_tenant :: "string option"
  cl_role :: api_key_permission

definition auth_middleware_with_permission ::
  "time \<Rightarrow> time \<Rightarrow> auth_request \<Rightarrow> (caller \<Rightarrow> 'r) \<Rightarrow> permission \<Rightarrow> http_status + 'r" where
  "auth_middleware_with_permission now1 now2 request nxt required =
     (case rq_config request of
        None \<Rightarrow> Inl INTERNAL_SERVER_ERROR
      | Some config \<Rightarrow>
          (case rq_header request (to_lowercase (ac_header_name config)) of
             None \<Rightarrow> Inl UNAUTHORIZED
           | Some s \<Rightarrow>
               let key_id = lookup_key_id config s;
                   bound_tenant = lookup_tenant config s;
                   role = (case auth_validate now1 config s of Some p \<Rightarrow> p | None \<Rightarrow> ReadOnly)
               in if has_permission now2 config s required
                  then Inr (nxt \<lparr>cl_key_id = (case key_id of Some i \<Rightarrow> i | None \<Rightarrow> ''unknown''),
                                 cl_bound_tenant = bound_tenant, cl_role = role\<rparr>)
                  else Inl FORBIDDEN))"

definition api_key_auth :: "time \<Rightarrow> time \<Rightarrow> auth_request \<Rightarrow> (caller \<Rightarrow> 'r) \<Rightarrow> http_status + 'r" where
  "api_key_auth now1 now2 request nxt = auth_middleware_with_permission now1 now2 request nxt AUTHENTICATED"

definition require_permission ::
  "permission \<Rightarrow> time \<Rightarrow> time \<Rightarrow> auth_request \<Rightarrow> (caller \<Rightarrow> 'r) \<Rightarrow> http_status + 'r" where
  "require_permission required now1 now2 request nxt = auth_middleware_with_permission now1 now2 request nxt required"

section \<open>Attribute-based control\<close>

datatype pbac_outcome = PbacAllowed | PbacDenied

text \<open>\<open>None\<close> is a panic of the engine's pattern matcher, as in \<open>Policy\<close>; the engine returns no errors.\<close>

definition evaluate_pbac ::
  "clock \<Rightarrow> 'r pbac_engine \<Rightarrow> string \<Rightarrow> string \<Rightarrow> string \<Rightarrow> string \<Rightarrow> pbac_outcome option" where
  "evaluate_pbac cl engine subject_id tenant action resource_id =
     map_option (\<lambda>d. case d of None \<Rightarrow> PbacAllowed | Some DAllow \<Rightarrow> PbacAllowed | Some DDeny \<Rightarrow> PbacDenied)
       (evaluate_if_configured cl engine (with_tenant tenant (access_context_new subject_id action resource_id)))"

definition check_rest_pbac ::
  "clock \<Rightarrow> 'r pbac_engine \<Rightarrow> string \<Rightarrow> string \<Rightarrow> string \<Rightarrow> string \<Rightarrow> (http_status + unit) option" where
  "check_rest_pbac cl engine subject_id tenant action resource_id =
     map_option (\<lambda>r. case r of PbacAllowed \<Rightarrow> Inr () | PbacDenied \<Rightarrow> Inl FORBIDDEN)
       (evaluate_pbac cl engine subject_id tenant action resource_id)"

section \<open>Lists and lookups\<close>

lemma update_first_none: "\<not> (\<exists>x \<in> set xs. P x) \<Longrightarrow> update_first P f xs = xs"
  by (induction xs) auto

lemma update_first_map:
  "(\<And>x. P x \<Longrightarrow> g (f x) = g x) \<Longrightarrow> map g (update_first P f xs) = map g xs"
  by (induction xs) auto

lemma update_first_all:
  "(\<And>x. Q x \<Longrightarrow> P x \<Longrightarrow> Q (f x)) \<Longrightarrow> \<forall>x \<in> set xs. Q x \<Longrightarrow> \<forall>x \<in> set (update_first P f xs). Q x"
  by (induction xs) auto

lemma update_first_find:
  "find P xs = Some x \<Longrightarrow> (\<And>y. P y \<Longrightarrow> P (f y)) \<Longrightarrow> find P (update_first P f xs) = Some (f x)"
  by (induction xs) (auto split: if_splits)

lemma update_first_find_other:
  "(\<And>y. P y \<Longrightarrow> \<not> Q y \<and> \<not> Q (f y)) \<Longrightarrow> find Q (update_first P f xs) = find Q xs"
  by (induction xs) auto

text \<open>Where a function separates the elements of a list, looking for its value finds the element.\<close>

lemma find_distinct:
  "distinct (map g xs) \<Longrightarrow> x \<in> set xs \<Longrightarrow> find (\<lambda>y. g y = g x) xs = Some x"
  by (induction xs) (auto simp: image_iff)

lemma find_distinct_and:
  "distinct (map g xs) \<Longrightarrow> x \<in> set xs \<Longrightarrow> find (\<lambda>y. g y = g x \<and> Q y) xs = (if Q x then Some x else None)"
  by (induction xs) (auto simp: image_iff find_None_iff)

lemma update_first_distinct:
  "distinct (map g xs) \<Longrightarrow> x \<in> set xs
   \<Longrightarrow> update_first (\<lambda>y. g y = g x) f xs = map (\<lambda>y. if y = x then f x else y) xs"
proof (induction xs)
  case (Cons a xs)
  show ?case
  proof (cases "g a = g x")
    case True
    with Cons.prems have "a = x" "x \<notin> set xs"
      by (auto simp: image_iff)
    then show ?thesis by (auto intro: map_idI [symmetric])
  next
    case False
    then show ?thesis using Cons by auto
  qed
qed simp

lemma find_usable_eq: "find (usable now s) ks = find (\<lambda>k. ak_secret k = s \<and> ak_is_valid now k \<and> \<not> ak_is_locked now k) ks"
  by (simp add: usable_def [abs_def])

text \<open>With distinct secrets a secret stands for one key.\<close>

lemma find_usable_distinct:
  assumes "distinct (map ak_secret ks)" "k \<in> set ks"
  shows "find (usable now (ak_secret k)) ks = (if ak_is_valid now k \<and> \<not> ak_is_locked now k then Some k else None)"
  using find_distinct_and [OF assms, of "\<lambda>k. ak_is_valid now k \<and> \<not> ak_is_locked now k"]
  by (simp only: find_usable_eq)

lemma has_permission_iff:
  "has_permission now c s required \<longleftrightarrow>
     (\<exists>k. find (usable now s) (ac_valid_keys c) = Some k \<and> (required = 0 \<or> satisfies (ak_permission k) required))"
  by (auto simp: has_permission_def auth_validate_def split: option.splits)

lemma find_usableD:
  "find (usable now s) ks = Some k \<Longrightarrow> k \<in> set ks \<and> ak_secret k = s \<and> ak_is_valid now k \<and> \<not> ak_is_locked now k"
  by (auto simp: find_Some_iff usable_def)

lemma middleware_Inr:
  "auth_middleware_with_permission now1 now2 rq nxt required = Inr r \<longleftrightarrow>
     (\<exists>c s. rq_config rq = Some c \<and> rq_header rq (to_lowercase (ac_header_name c)) = Some s
        \<and> has_permission now2 c s required
        \<and> r = nxt \<lparr>cl_key_id = (case lookup_key_id c s of Some i \<Rightarrow> i | None \<Rightarrow> ''unknown''),
                   cl_bound_tenant = lookup_tenant c s,
                   cl_role = (case auth_validate now1 c s of Some p \<Rightarrow> p | None \<Rightarrow> ReadOnly)\<rparr>)"
  by (auto simp: auth_middleware_with_permission_def Let_def split: option.splits)

section \<open>Roles\<close>

text \<open>
  The name a role is displayed by is parsed back to the role, with underscores in place of dashes
  too; so every role can be named in a configuration.
\<close>

theorem role_name_roundtrip:
  "from_role_name (role_display r) = Some r
   \<and> from_role_name (map (\<lambda>c. if c = CHR ''-'' then CHR ''_'' else c) (role_display r)) = Some r"
  by (cases r) (simp_all add: from_role_name_def trim_id b64_char_def ascii_lower_def dashes_def)

text \<open>
  A valid key of an audit administrator is refused wherever any authenticated key is to be admitted:
  the minimum permission of those routes is to list keys, which the role does not have.
\<close>

theorem audit_admin_not_authenticated:
  assumes "rq_config rq = Some c" "rq_header rq (to_lowercase (ac_header_name c)) = Some s"
    and "auth_validate now2 c s = Some AuditAdmin"
  shows "api_key_auth now1 now2 rq nxt = Inl FORBIDDEN"
  using assms
  by (simp add: api_key_auth_def auth_middleware_with_permission_def has_permission_def satisfies_def
      AUTHENTICATED_def permission_bits)

section \<open>The middleware and the life cycle of keys\<close>

definition demo_key :: "string \<Rightarrow> string \<Rightarrow> api_key_permission \<Rightarrow> api_key" where
  "demo_key i s r = with_key_id i (api_key_new 0 '''' s r)"

definition auth_demo_config :: api_key_config where
  "auth_demo_config = config_with_keys [with_tenant_binding ''acme'' (demo_key ''k1'' ''s1'' Operator), demo_key ''k2'' ''s2'' AuditAdmin]"

definition auth_demo_request :: "string \<Rightarrow> auth_request" where
  "auth_demo_request s = \<lparr>rq_config = Some auth_demo_config, rq_header = [''x-api-key'' \<mapsto> s]\<rparr>"

lemmas demo_auth_simps =
  auth_demo_request_def auth_demo_config_def config_with_keys_def config_of_def demo_key_def with_key_id_def
  with_tenant_binding_def api_key_new_def ascii_lower_def

theorem audit_admin_not_authenticated_witness:
  "api_key_auth 1 1 (auth_demo_request ''s2'') (\<lambda>_. ()) = Inl FORBIDDEN"
  by (rule audit_admin_not_authenticated [where c = auth_demo_config and s = "''s2''"])
    (simp_all add: demo_auth_simps auth_validate_def usable_def ak_is_valid_def ak_is_locked_def)

text \<open>The caller a key makes.\<close>

definition caller_of :: "api_key \<Rightarrow> caller" where
  "caller_of k = \<lparr>cl_key_id = ak_key_id k, cl_bound_tenant = ak_tenant_id k, cl_role = ak_permission k\<rparr>"

definition authenticates :: "time \<Rightarrow> (string \<Rightarrow> string option) \<Rightarrow> api_key_config \<Rightarrow> api_key \<Rightarrow> bool" where
  "authenticates now header c k \<longleftrightarrow> k \<in> set (ac_valid_keys c) \<and> header (to_lowercase (ac_header_name c)) = Some (ak_secret k)
     \<and> ak_is_valid now k \<and> \<not> ak_is_locked now k"

text \<open>
  The caller a key makes when the role is read at \<open>now\<close>: a key that is not usable at that time counts as read-only.
\<close>

definition caller_at :: "time \<Rightarrow> api_key \<Rightarrow> caller" where
  "caller_at now k = (caller_of k)\<lparr>cl_role := if ak_is_valid now k \<and> \<not> ak_is_locked now k then ak_permission k else ReadOnly\<rparr>"

lemma middleware_key_at:
  assumes "rq_config rq = Some c" "distinct (map ak_secret (ac_valid_keys c))"
    and "auth_middleware_with_permission now1 now2 rq f required = Inr y"
  shows "\<exists>k. authenticates now2 (rq_header rq) c k \<and> (required = 0 \<or> satisfies (ak_permission k) required) \<and> y = f (caller_at now1 k)"
proof -
  obtain s where s: "rq_header rq (to_lowercase (ac_header_name c)) = Some s" "has_permission now2 c s required"
    and y: "y = f \<lparr>cl_key_id = (case lookup_key_id c s of Some i \<Rightarrow> i | None \<Rightarrow> ''unknown''), cl_bound_tenant = lookup_tenant c s,
                   cl_role = (case auth_validate now1 c s of Some p \<Rightarrow> p | None \<Rightarrow> ReadOnly)\<rparr>"
    using assms(1,3) by (auto simp: middleware_Inr)
  then obtain k where k: "find (usable now2 s) (ac_valid_keys c) = Some k" "required = 0 \<or> satisfies (ak_permission k) required"
    by (auto simp: has_permission_iff)
  then have in_c: "k \<in> set (ac_valid_keys c)" "ak_secret k = s" "ak_is_valid now2 k" "\<not> ak_is_locked now2 k"
    using find_usableD by blast+
  then have "find (\<lambda>k. ak_secret k = s) (ac_valid_keys c) = Some k"
      "find (usable now1 s) (ac_valid_keys c) = (if ak_is_valid now1 k \<and> \<not> ak_is_locked now1 k then Some k else None)"
    using find_distinct [OF assms(2) in_c(1)] find_usable_distinct [OF assms(2) in_c(1), of now1] by simp_all
  then have "y = f (caller_at now1 k)"
    by (simp add: y caller_at_def caller_of_def lookup_key_id_def lookup_tenant_def auth_validate_def)
  with s(1) k(2) in_c show ?thesis
    by (auto simp: authenticates_def)
qed

lemma satisfies_roles:
  "satisfies p CREATE_KEY \<longleftrightarrow> p = KeyAdmin"
  "satisfies p MANAGE_POLICY \<longleftrightarrow> p = SecurityOfficer"
  "satisfies p MANAGE_MFA \<longleftrightarrow> p = SecurityOfficer"
  "satisfies p ENCRYPT \<longleftrightarrow> p = Operator \<or> p = KeyAdmin"
  "satisfies p APPROVE_ACTION \<longleftrightarrow> p = SecurityOfficer \<or> p = TenantAdmin"
  "satisfies p VIEW_AUDIT \<longleftrightarrow> p = SecurityOfficer \<or> p = AuditAdmin"
  "satisfies p LIST_KEYS \<longleftrightarrow> p \<noteq> AuditAdmin"
  by (cases p; simp add: satisfies_def permission_bits)+

text \<open>
  C17. Authentication is sound: when no two keys share a secret, a request that passes the middleware
  carries the secret of a key that is neither revoked nor expired nor locked and whose role holds the
  required permission, and the identity and the tenant handed to the handler are those of this key. So is the
  role, unless the key was not usable yet at the earlier of the two readings of the clock, when it was still
  locked: then the handler is told the weakest role.
\<close>

theorem middleware_sound:
  assumes "rq_config rq = Some c" "distinct (map ak_secret (ac_valid_keys c))"
    and "auth_middleware_with_permission now1 now2 rq (\<lambda>cl. cl) required = Inr cl"
  shows "\<exists>k \<in> set (ac_valid_keys c). rq_header rq (to_lowercase (ac_header_name c)) = Some (ak_secret k)
     \<and> ak_is_valid now2 k \<and> \<not> ak_is_locked now2 k \<and> (required = 0 \<or> satisfies (ak_permission k) required)
     \<and> cl_key_id cl = ak_key_id k \<and> cl_bound_tenant cl = ak_tenant_id k
     \<and> cl_role cl = (if ak_is_valid now1 k \<and> \<not> ak_is_locked now1 k then ak_permission k else ReadOnly)"
  using middleware_key_at [OF assms] by (auto simp: authenticates_def caller_at_def caller_of_def)

theorem middleware_sound_witness:
  "\<exists>k \<in> set (ac_valid_keys auth_demo_config). rq_header (auth_demo_request ''s1'') (to_lowercase (ac_header_name auth_demo_config)) = Some (ak_secret k)
     \<and> ak_is_valid 2 k \<and> \<not> ak_is_locked 2 k \<and> (ENCRYPT = 0 \<or> satisfies (ak_permission k) ENCRYPT)
     \<and> ''k1'' = ak_key_id k \<and> Some ''acme'' = ak_tenant_id k
     \<and> Operator = (if ak_is_valid 1 k \<and> \<not> ak_is_locked 1 k then ak_permission k else ReadOnly)"
proof -
  have "auth_middleware_with_permission 1 2 (auth_demo_request ''s1'') (\<lambda>cl. cl) ENCRYPT
      = Inr \<lparr>cl_key_id = ''k1'', cl_bound_tenant = Some ''acme'', cl_role = Operator\<rparr>"
    by (simp add: demo_auth_simps middleware_Inr has_permission_def lookup_key_id_def lookup_tenant_def
      auth_validate_def usable_def ak_is_valid_def ak_is_locked_def satisfies_def permission_bits)
  from middleware_sound [OF _ _ this] show ?thesis
    by (simp add: demo_auth_simps)
qed

text \<open>
  Without that assumption identity and authority can come from different keys: when a secret is
  used again after its key was revoked, requests act with the role of the new key under the
  identifier and the tenant of the revoked one.
\<close>

theorem shared_secret_mixes_identities:
  "\<exists>old fresh c. ak_revoked old \<and> ac_valid_keys c = [old, fresh] \<and> ak_secret old = ak_secret fresh
     \<and> ak_key_id old \<noteq> ak_key_id fresh \<and> ak_tenant_id old \<noteq> ak_tenant_id fresh
     \<and> auth_middleware_with_permission now now \<lparr>rq_config = Some c, rq_header = [''x-api-key'' \<mapsto> ak_secret old]\<rparr> (\<lambda>cl. cl) CREATE_KEY
       = Inr \<lparr>cl_key_id = ak_key_id old, cl_bound_tenant = ak_tenant_id old, cl_role = KeyAdmin\<rparr>"
proof (intro exI)
  let ?old = "with_tenant_binding ''acme'' (demo_key ''k1'' ''s1'' ReadOnly)\<lparr>ak_revoked := True\<rparr>"
  let ?fresh = "demo_key ''k2'' ''s1'' KeyAdmin"
  show "ak_revoked ?old \<and> ac_valid_keys (config_with_keys [?old, ?fresh]) = [?old, ?fresh] \<and> ak_secret ?old = ak_secret ?fresh
     \<and> ak_key_id ?old \<noteq> ak_key_id ?fresh \<and> ak_tenant_id ?old \<noteq> ak_tenant_id ?fresh
     \<and> auth_middleware_with_permission now now
         \<lparr>rq_config = Some (config_with_keys [?old, ?fresh]), rq_header = [''x-api-key'' \<mapsto> ak_secret ?old]\<rparr> (\<lambda>cl. cl) CREATE_KEY
       = Inr \<lparr>cl_key_id = ak_key_id ?old, cl_bound_tenant = ak_tenant_id ?old, cl_role = KeyAdmin\<rparr>"
    by (simp add: demo_auth_simps middleware_Inr has_permission_def lookup_key_id_def lookup_tenant_def
      auth_validate_def usable_def ak_is_valid_def ak_is_locked_def satisfies_def permission_bits)
qed

text \<open>The operations that change the list of keys, and the secrets they bring in.\<close>

datatype auth_op =
    OpAdd api_key
  | OpRevoke string
  | OpLock time string
  | OpRotate time time string string string api_key_permission time
  | OpFailed time string
  | OpSuccess string

fun auth_step :: "auth_op \<Rightarrow> api_key_config \<Rightarrow> api_key_config" where
  "auth_step (OpAdd k) c = add_key k c"
| "auth_step (OpRevoke i) c = snd (revoke_key i c)"
| "auth_step (OpLock now i) c = lock_key_by_id now i c"
| "auth_step (OpRotate now cr fresh i s r g) c = snd (auth_rotate_key now cr fresh i s r g c)"
| "auth_step (OpFailed now s) c = fst (record_failed_attempt now s c)"
| "auth_step (OpSuccess s) c = config_record_success s c"

fun brings :: "auth_op \<Rightarrow> string \<Rightarrow> bool" where
  "brings (OpAdd k) s = (ak_secret k = s)"
| "brings (OpRotate now cr fresh i s' r g) s = (s' = s)"
| "brings _ s = False"

definition all_revoked :: "string \<Rightarrow> api_key_config \<Rightarrow> bool" where
  "all_revoked s c \<longleftrightarrow> (\<forall>k \<in> set (ac_valid_keys c). ak_secret k = s \<longrightarrow> ak_revoked k)"

lemma all_revoked_update:
  "(\<And>k. ak_secret (f k) = ak_secret k \<and> (ak_revoked k \<longrightarrow> ak_revoked (f k))) \<Longrightarrow> all_revoked s c
   \<Longrightarrow> all_revoked s (c\<lparr>ac_valid_keys := update_first P f (ac_valid_keys c)\<rparr>)"
  unfolding all_revoked_def by (simp, rule update_first_all) auto

lemma all_revoked_add: "all_revoked s c \<Longrightarrow> ak_secret k \<noteq> s \<Longrightarrow> all_revoked s (add_key k c)"
  by (auto simp: all_revoked_def add_key_def)

lemma rotate_as_add:
  "snd (auth_rotate_key now cr fresh i s r g c) =
     (if \<exists>k \<in> set (ac_valid_keys c). ak_key_id k = i
      then add_key (with_key_id (i @ ''-rotated'') (api_key_new cr fresh s r))
             (c\<lparr>ac_valid_keys := update_first (\<lambda>k. ak_key_id k = i) (with_expiration (now + g)) (ac_valid_keys c)\<rparr>)
      else c)"
  by (simp add: auth_rotate_key_def add_key_def Let_def)

definition count_failure :: "time \<Rightarrow> api_key_config \<Rightarrow> api_key \<Rightarrow> api_key" where
  "count_failure now c k =
     (let k' = ak_record_failed k
      in if ak_failed_attempts k' \<ge> ac_max_failed_attempts c then ak_lock now (ac_lockout_duration c) k' else k')"

lemma record_failed_keys:
  "ac_brute_force_protection c
   \<Longrightarrow> ac_valid_keys (fst (record_failed_attempt now s c)) = update_first (\<lambda>k. ak_secret k = s) (count_failure now c) (ac_valid_keys c)"
  by (simp add: record_failed_attempt_def Let_def count_failure_def [abs_def] update_first_none cong: if_cong split: option.split)

lemma all_revoked_failed:
  assumes "all_revoked s c"
  shows "all_revoked s (fst (record_failed_attempt now s' c))"
proof (cases "ac_brute_force_protection c")
  case True
  have "all_revoked s (c\<lparr>ac_valid_keys := update_first (\<lambda>k. ak_secret k = s') (count_failure now c) (ac_valid_keys c)\<rparr>)"
    by (rule all_revoked_update [OF _ assms]) (simp add: count_failure_def ak_record_failed_def ak_lock_def Let_def)
  then show ?thesis
    by (simp add: all_revoked_def record_failed_keys [OF True])
next
  case False
  then show ?thesis
    using assms by (simp add: record_failed_attempt_def)
qed

lemma auth_step_revoked: "\<not> brings op s \<Longrightarrow> all_revoked s c \<Longrightarrow> all_revoked s (auth_step op c)"
proof (cases op)
  case (OpRotate now cr fresh i s' r g)
  assume "\<not> brings op s" "all_revoked s c"
  then show ?thesis
    using OpRotate
    by (auto simp: rotate_as_add with_expiration_def with_key_id_def api_key_new_def
        intro!: all_revoked_add all_revoked_update)
qed (auto simp: revoke_key_def lock_key_by_id_def ak_lock_def config_record_success_def ak_record_success_def
    intro: all_revoked_add all_revoked_failed intro!: all_revoked_update)

interpretation revoked: stateful auth_step "\<lambda>op. \<not> brings op s" "all_revoked s"
  by unfold_locales (rule auth_step_revoked)

text \<open>
  C19. A revoked key stays out: once the key with a secret no other key has is revoked, nothing done
  to the list of keys, short of bringing in the same secret again, makes any request with that secret
  pass, whatever permission it needs.
\<close>

theorem revoked_key_stays_out:
  assumes "distinct (map ak_secret (ac_valid_keys c))" "distinct (map ak_key_id (ac_valid_keys c))"
    and "k \<in> set (ac_valid_keys c)" "list_all (\<lambda>op. \<not> brings op (ak_secret k)) ops"
  shows "\<not> has_permission now (run_ops auth_step ops (snd (revoke_key (ak_key_id k) c))) (ak_secret k) required"
proof -
  have "all_revoked (ak_secret k) (snd (revoke_key (ak_key_id k) c))"
    using assms(1,3) unfolding all_revoked_def revoke_key_def
    by (auto simp: update_first_distinct [OF assms(2,3)] distinct_map dest: inj_onD)
  then have "all_revoked (ak_secret k) (run_ops auth_step ops (snd (revoke_key (ak_key_id k) c)))"
    by (rule revoked.run_inv [OF assms(4)])
  then show ?thesis
    by (auto simp: has_permission_iff all_revoked_def ak_is_valid_def dest!: find_usableD)
qed

theorem revoked_key_stays_out_witness:
  "\<not> has_permission 9 (run_ops auth_step [OpSuccess ''s1'', OpRotate 3 3 '''' ''k1'' ''s3'' KeyAdmin 100]
       (snd (revoke_key ''k1'' auth_demo_config))) ''s1'' LIST_KEYS"
  using revoked_key_stays_out [of auth_demo_config "with_tenant_binding ''acme'' (demo_key ''k1'' ''s1'' Operator)"
      "[OpSuccess ''s1'', OpRotate 3 3 '''' ''k1'' ''s3'' KeyAdmin 100]" 9 LIST_KEYS]
  by (simp add: auth_demo_config_def config_with_keys_def config_of_def demo_key_def with_key_id_def
      with_tenant_binding_def api_key_new_def)

text \<open>
  Failed attempts lock a key: once as many failures as the limit have been recorded for its secret,
  one after the other, the key is refused until the lockout after the last of them has passed, even
  with the right secret.
\<close>

lemma failures_counted:
  assumes "distinct (map ak_secret (ac_valid_keys c))" "ac_brute_force_protection c"
    and "k \<in> set (ac_valid_keys c)" "ak_failed_attempts k = 0" "length ts < 2 ^ 32"
  defines "c' \<equiv> run_ops (\<lambda>t c. fst (record_failed_attempt t (ak_secret k) c)) ts c"
  shows "distinct (map ak_secret (ac_valid_keys c')) \<and> ac_brute_force_protection c'
     \<and> ac_max_failed_attempts c' = ac_max_failed_attempts c \<and> ac_lockout_duration c' = ac_lockout_duration c
     \<and> (\<exists>k' \<in> set (ac_valid_keys c'). ak_secret k' = ak_secret k \<and> ak_failed_attempts k' = word_of_nat (length ts)
          \<and> (ts \<noteq> [] \<and> unat (ac_max_failed_attempts c) \<le> length ts
             \<longrightarrow> ak_locked_until k' = Some (last ts + ac_lockout_duration c)))"
  using assms(5) unfolding c'_def
proof (induction ts rule: rev_induct)
  case Nil
  then show ?case using assms(1-4) by auto
next
  case (snoc t ts)
  define d where "d = run_ops (\<lambda>t c. fst (record_failed_attempt t (ak_secret k) c)) ts c"
  obtain k' where k': "k' \<in> set (ac_valid_keys d)" "ak_secret k' = ak_secret k" "ak_failed_attempts k' = word_of_nat (length ts)"
    and d: "distinct (map ak_secret (ac_valid_keys d))" "ac_brute_force_protection d"
      "ac_max_failed_attempts d = ac_max_failed_attempts c" "ac_lockout_duration d = ac_lockout_duration c"
    using snoc unfolding d_def [symmetric] by auto
  let ?e = "fst (record_failed_attempt t (ak_secret k) d)"
  have e: "ac_valid_keys ?e = update_first (\<lambda>k''. ak_secret k'' = ak_secret k') (count_failure t d) (ac_valid_keys d)"
    using record_failed_keys [OF d(2)] k'(2) by simp
  have "distinct (map ak_secret (ac_valid_keys ?e))"
    unfolding e using d(1)
    by (subst update_first_map) (auto simp: count_failure_def ak_record_failed_def ak_lock_def Let_def)
  moreover have "ac_brute_force_protection ?e" "ac_max_failed_attempts ?e = ac_max_failed_attempts c"
    "ac_lockout_duration ?e = ac_lockout_duration c"
    using d by (simp_all add: record_failed_attempt_def Let_def split: option.split)
  moreover have "count_failure t d k' \<in> set (ac_valid_keys ?e)"
    unfolding e update_first_distinct [OF d(1) k'(1)] using k'(1) by force
  moreover have "ak_secret (count_failure t d k') = ak_secret k"
    using k' by (simp add: count_failure_def ak_record_failed_def ak_lock_def Let_def)
  moreover have n: "ak_failed_attempts (count_failure t d k') = word_of_nat (length (ts @ [t]))"
    using k' by (simp add: count_failure_def ak_record_failed_def ak_lock_def Let_def)
  moreover have "ak_locked_until (count_failure t d k') = Some (t + ac_lockout_duration c)"
    if "unat (ac_max_failed_attempts c) \<le> length (ts @ [t])"
  proof -
    have "word_of_nat (length ts) + 1 = (word_of_nat (Suc (length ts)) :: u32)"
      by simp
    moreover have "unat (word_of_nat (Suc (length ts)) :: u32) = Suc (length ts)"
      using snoc.prems by (intro unat_of_nat_u32) simp
    ultimately have "ac_max_failed_attempts d \<le> ak_failed_attempts (ak_record_failed k')"
      using that k'(3) d(3) by (simp add: word_le_nat_alt ak_record_failed_def del: of_nat_Suc)
    then show ?thesis
      by (simp add: count_failure_def Let_def ak_lock_def d)
  qed
  ultimately show ?case
    unfolding run_ops_append d_def [symmetric] by simp blast
qed

theorem failures_lock_key:
  assumes "distinct (map ak_secret (ac_valid_keys c))" "ac_brute_force_protection c"
    and "k \<in> set (ac_valid_keys c)" "ak_failed_attempts k = 0"
    and "ts \<noteq> []" "unat (ac_max_failed_attempts c) \<le> length ts" "length ts < 2 ^ 32"
    and "now < last ts + ac_lockout_duration c"
  shows "auth_validate now (run_ops (\<lambda>t c. fst (record_failed_attempt t (ak_secret k) c)) ts c) (ak_secret k) = None"
proof -
  let ?c = "run_ops (\<lambda>t c. fst (record_failed_attempt t (ak_secret k) c)) ts c"
  obtain k' where k': "k' \<in> set (ac_valid_keys ?c)" "ak_secret k' = ak_secret k"
    "ak_locked_until k' = Some (last ts + ac_lockout_duration c)" "distinct (map ak_secret (ac_valid_keys ?c))"
    using failures_counted [OF assms(1-4,7)] assms(5,6) by auto
  then have "ak_is_locked now k'"
    using assms(8) by (simp add: ak_is_locked_def)
  then have "find (usable now (ak_secret k')) (ac_valid_keys ?c) = None"
    using find_usable_distinct [OF k'(4,1)] by simp
  then show ?thesis
    by (simp add: auth_validate_def k'(2))
qed

theorem failures_lock_key_witness:
  "auth_validate (secs 100) (run_ops (\<lambda>t c. fst (record_failed_attempt t ''s1'' c)) [1, 2, 3, 4, 5] auth_demo_config) ''s1'' = None"
  using failures_lock_key [of auth_demo_config "with_tenant_binding ''acme'' (demo_key ''k1'' ''s1'' Operator)" "[1, 2, 3, 4, 5]" "secs 100"]
  by (simp add: demo_auth_simps secs_def)

section \<open>Rotation of API keys\<close>

lemma find_key_append: "find P (xs @ ys) = (case find P xs of Some x \<Rightarrow> Some x | None \<Rightarrow> find P ys)"
  by (induction xs) auto

lemma rotated_keys:
  assumes "distinct (map ak_key_id (ac_valid_keys c))" "k \<in> set (ac_valid_keys c)"
  shows "ac_valid_keys (snd (auth_rotate_key now cr fresh (ak_key_id k) s r g c)) =
     map (\<lambda>k'. if k' = k then with_expiration (now + g) k else k') (ac_valid_keys c)
     @ [with_key_id (ak_key_id k @ ''-rotated'') (api_key_new cr fresh s r)]"
  using assms by (auto simp: auth_rotate_key_def Let_def update_first_distinct [OF assms])

text \<open>
  Rotation with a grace period: the new secret is good at once and for good, the old one until the
  grace period ends unless it is revoked or locked, and all other keys are as before.
\<close>

theorem rotation_grace_period:
  fixes now cr g :: time and fresh :: string and r :: api_key_permission
  assumes "distinct (map ak_secret (ac_valid_keys c))" "distinct (map ak_key_id (ac_valid_keys c))"
    and "k \<in> set (ac_valid_keys c)" "s \<notin> ak_secret ` set (ac_valid_keys c)"
  defines "c' \<equiv> snd (auth_rotate_key now cr fresh (ak_key_id k) s r g c)"
  shows "auth_validate t c' s = Some r
     \<and> auth_validate t c' (ak_secret k) =
         (if \<not> ak_revoked k \<and> t < now + g \<and> \<not> ak_is_locked t k then Some (ak_permission k) else None)
     \<and> (\<forall>s'. s' \<notin> {s, ak_secret k} \<longrightarrow> auth_validate t c' s' = auth_validate t c s')"
proof -
  let ?k = "with_expiration (now + g) k"
  let ?new = "with_key_id (ak_key_id k @ ''-rotated'') (api_key_new cr fresh s r)"
  let ?ks = "map (\<lambda>k'. if k' = k then ?k else k') (ac_valid_keys c)"
  note keys = rotated_keys [OF assms(2,3), of now cr fresh s r g, folded c'_def]
  have secrets: "map ak_secret ?ks = map ak_secret (ac_valid_keys c)"
    by (simp add: with_expiration_def)
  have perm: "ak_permission ?new = r"
    by (simp add: with_key_id_def api_key_new_def)
  have new: "usable t s' ?new \<longleftrightarrow> s' = s" for s'
    by (auto simp: usable_def with_key_id_def api_key_new_def ak_is_valid_def ak_is_locked_def)
  have "s \<notin> set (map ak_secret ?ks)"
    unfolding secrets using assms(4) by simp
  then have "s \<notin> ak_secret ` set ?ks"
    by (simp only: set_map simp_thms)
  then have "find (usable t s) ?ks = None"
    unfolding find_None_iff usable_def by blast
  then have "auth_validate t c' s = Some r"
    by (simp add: auth_validate_def keys find_key_append new perm)
  moreover have "find (usable t (ak_secret ?k)) ?ks = (if ak_is_valid t ?k \<and> \<not> ak_is_locked t ?k then Some ?k else None)"
  proof (rule find_usable_distinct)
    show "distinct (map ak_secret ?ks)"
      unfolding secrets by (rule assms(1))
    show "?k \<in> set ?ks"
      using assms(3) by force
  qed
  then have "auth_validate t c' (ak_secret k) =
      (if \<not> ak_revoked k \<and> t < now + g \<and> \<not> ak_is_locked t k then Some (ak_permission k) else None)"
    using assms(3,4) by (auto simp: auth_validate_def keys find_key_append new with_expiration_def ak_is_valid_def ak_is_locked_def)
  moreover have "auth_validate t c' s' = auth_validate t c s'" if "s' \<notin> {s, ak_secret k}" for s'
  proof -
    have "find (usable t s') (map (\<lambda>k'. if k' = k then ?k else k') ks) = find (usable t s') ks" for ks
      using that by (induction ks) (auto simp: usable_def with_expiration_def)
    then show ?thesis
      using that by (simp add: auth_validate_def keys find_key_append new split: option.split)
  qed
  ultimately show ?thesis by blast
qed

theorem rotation_grace_period_witness:
  "auth_validate 7 (snd (auth_rotate_key 5 5 '''' ''k1'' ''s3'' KeyAdmin 10 auth_demo_config)) ''s3'' = Some KeyAdmin"
  using rotation_grace_period [of auth_demo_config "with_tenant_binding ''acme'' (demo_key ''k1'' ''s1'' Operator)" "''s3''" 7 5 5 "''''" KeyAdmin 10]
  by (simp add: demo_auth_simps)

text \<open>
  Rotation loses the tenant: the new key is bound to no tenant even when the old one is, so
  requests with it name their tenant themselves.
\<close>

theorem rotation_drops_tenant:
  assumes "distinct (map ak_key_id (ac_valid_keys c))" "k \<in> set (ac_valid_keys c)" "ak_tenant_id k = Some tenant"
    and "s \<notin> ak_secret ` set (ac_valid_keys c)"
  shows "lookup_tenant (snd (auth_rotate_key now cr fresh (ak_key_id k) s r g c)) s = None"
proof -
  have "find (\<lambda>k. ak_secret k = s) (map (\<lambda>k'. if k' = k then with_expiration (now + g) k else k') (ac_valid_keys c)) = None"
    using assms(2,4) by (auto simp: find_None_iff with_expiration_def)
  then show ?thesis
    by (simp add: lookup_tenant_def rotated_keys [OF assms(1,2)] find_key_append with_key_id_def api_key_new_def)
qed

theorem rotation_drops_tenant_witness:
  "lookup_tenant auth_demo_config ''s1'' = Some ''acme''
   \<and> lookup_tenant (snd (auth_rotate_key 5 5 '''' ''k1'' ''s3'' KeyAdmin 10 auth_demo_config)) ''s3'' = None"
  using rotation_drops_tenant [of auth_demo_config "with_tenant_binding ''acme'' (demo_key ''k1'' ''s1'' Operator)" "''acme''" "''s3''" 5 5 "''''" KeyAdmin 10]
  by (simp add: demo_auth_simps lookup_tenant_def)

text \<open>
  Rotating a key that has expired makes it valid again: its expiry is moved to the end of the
  grace period whatever it was.
\<close>

theorem rotation_revives_expired_key:
  "\<exists>c k. distinct (map ak_secret (ac_valid_keys c)) \<and> k \<in> set (ac_valid_keys c)
     \<and> (\<forall>t \<ge> 1000. auth_validate t c (ak_secret k) = None)
     \<and> auth_validate 1001 (snd (auth_rotate_key 1000 1000 fresh (ak_key_id k) new_secret r 3600 c)) (ak_secret k) = Some (ak_permission k)"
proof (intro exI)
  let ?k = "with_expiration 500 (demo_key ''k1'' ''s1'' Operator)"
  show "distinct (map ak_secret (ac_valid_keys (config_with_keys [?k]))) \<and> ?k \<in> set (ac_valid_keys (config_with_keys [?k]))
     \<and> (\<forall>t \<ge> 1000. auth_validate t (config_with_keys [?k]) (ak_secret ?k) = None)
     \<and> auth_validate 1001 (snd (auth_rotate_key 1000 1000 fresh (ak_key_id ?k) new_secret r 3600 (config_with_keys [?k]))) (ak_secret ?k)
       = Some (ak_permission ?k)"
    by (simp add: demo_auth_simps with_expiration_def auth_validate_def usable_def ak_is_valid_def ak_is_locked_def
        auth_rotate_key_def Let_def)
qed

section \<open>Configuration from the environment\<close>

text \<open>
  The configuration read from the environment is safe: its only key is the non-empty value of the
  variable, the development key is accepted in development mode only, and a role is either the one
  the environment names by a known name or a default that is not an administrator's outside
  development mode.
\<close>

theorem config_from_env_safe:
  assumes "config_from_env env now fresh header_name env_var = Inr c"
  shows "\<exists>key role. env env_var = Some key \<and> key \<noteq> [] \<and> ac_valid_keys c = [api_key_new now fresh key role]
     \<and> (key = ''dev-api-key'' \<longrightarrow> env ''KMS_DEV_MODE'' = Some ''1'')
     \<and> (case env ''KMS_API_KEY_ROLE'' of
          Some requested \<Rightarrow> from_role_name requested = Some role
        | None \<Rightarrow> role = (if key = ''dev-api-key'' then KeyAdmin else Operator))"
proof -
  let ?role = "\<lambda>key. case env ''KMS_API_KEY_ROLE'' of
      Some requested \<Rightarrow> from_role_name requested
    | None \<Rightarrow> Some (if key = ''dev-api-key'' then KeyAdmin else Operator)"
  obtain key where key: "env env_var = Some key"
    using assms by (cases "env env_var") (simp_all add: config_from_env_def)
  moreover have "key \<noteq> []" "key = ''dev-api-key'' \<longrightarrow> env ''KMS_DEV_MODE'' = Some ''1''"
    using assms key unfolding config_from_env_def by (cases "key = []"; cases "env ''KMS_DEV_MODE'' = Some ''1''"; force)+
  moreover obtain role where "?role key = Some role" "c = config_with_role now fresh header_name key role"
    using assms key unfolding config_from_env_def
    by (cases "env ''KMS_API_KEY_ROLE''") (simp_all add: and_then_Inr split: if_split_asm, blast)
  ultimately show ?thesis
    by (cases "env ''KMS_API_KEY_ROLE''") (simp_all add: config_with_role_def config_of_def)
qed

theorem config_from_env_safe_witness:
  "\<exists>key role. [''KMS_API_KEY'' \<mapsto> ''secret''] ''KMS_API_KEY'' = Some key \<and> key \<noteq> []
     \<and> ac_valid_keys (config_with_role 0 ''i'' ''x-api-key'' ''secret'' Operator) = [api_key_new 0 ''i'' key role]
     \<and> (key = ''dev-api-key'' \<longrightarrow> [''KMS_API_KEY'' \<mapsto> ''secret''] ''KMS_DEV_MODE'' = Some ''1'')
     \<and> (case [''KMS_API_KEY'' \<mapsto> ''secret''] ''KMS_API_KEY_ROLE'' of
          Some requested \<Rightarrow> from_role_name requested = Some role
        | None \<Rightarrow> role = (if key = ''dev-api-key'' then KeyAdmin else Operator))"
  by (rule config_from_env_safe [where header_name = "''x-api-key''"]) (simp add: config_from_env_def)

end
