(* ===== verification/Totp.thy ===== *)
theory Totp
  imports Limits Key_Format
begin

unbundle bit_operations_syntax

text \<open>
  One-time passwords and backup codes, \<^verbatim>\<open>crates/kms-mfa\<close>. The hash functions, base32, hexadecimal text and
  the upper case of Unicode are the fields of \<open>mfa_crates\<close>; HMAC, which the crate writes out itself, the
  truncation to decimal digits, the window of accepted codes and the bookkeeping of backup codes are
  defined here. Random numbers are a stream of draws, and the loop that draws backup codes is partial:
  it need not end.
\<close>

section \<open>Types\<close>

datatype mfa_error =
    NotEnabled | InvalidCode | CodeExpired | WindowExceeded | InvalidSecret | BackupCodeUsed | NoBackupCodes
  | BackupCodeLocked u64 | VerificationRequired | OperationNotPermitted string | MfaInvalidConfig string
  | SecretGenerationFailed string | MfaPanicked

datatype totp_algorithm = Sha1 | Sha256 | Sha512

record mfa_crates =
  mc_hash :: "totp_algorithm \<Rightarrow> bytes \<Rightarrow> bytes"
  mc_hex :: "bytes \<Rightarrow> string"
  mc_base32 :: "bytes \<Rightarrow> string"
  mc_to_uppercase :: "string \<Rightarrow> string"

datatype mfa_type = MfaTotp | MfaHardware | MfaSms

record mfa_status =
  ms_enabled :: bool
  ms_mfa_type :: mfa_type
  ms_backup_codes_remaining :: nat
  ms_last_verified_at :: "int option"

definition mfa_status_default :: mfa_status where
  "mfa_status_default = \<lparr>ms_enabled = False, ms_mfa_type = MfaTotp, ms_backup_codes_remaining = 0, ms_last_verified_at = None\<rparr>"

datatype mfa_level = LevelNone | OptIn | Required

datatype protected_operation = PDecrypt | PSign | PDelete | PRotate | PExport | PAdmin

definition mfa_is_sensitive :: "protected_operation \<Rightarrow> bool" where
  "mfa_is_sensitive p \<longleftrightarrow> p \<in> {PDelete, PExport, PAdmin, PRotate}"

section \<open>Time-based codes\<close>

record totp_config =
  tc_secret :: bytes
  tc_time_step :: u64
  tc_digits :: u32
  tc_algorithm :: totp_algorithm
  tc_window :: u32

definition totp_config_default :: totp_config where
  "totp_config_default = \<lparr>tc_secret = [], tc_time_step = 30, tc_digits = 6, tc_algorithm = Sha1, tc_window = 1\<rparr>"

record totp_code =
  tk_code :: string
  tk_generated_at :: u64
  tk_expires_at :: u64
  tk_period :: u64

text \<open>The difference is taken in 64 signed bits.\<close>

definition remaining_seconds :: "u64 \<Rightarrow> totp_code \<Rightarrow> int" where
  "remaining_seconds now c = sint (tk_expires_at c - now)"

definition code_is_valid :: "u64 \<Rightarrow> totp_code \<Rightarrow> bool" where
  "code_is_valid now c \<longleftrightarrow> remaining_seconds now c > 0"

definition totp_new :: "totp_config \<Rightarrow> mfa_error + totp_config" where
  "totp_new config =
     (if tc_secret config = [] then Inl InvalidSecret
      else if tc_digits config < 6 \<or> tc_digits config > 8 then Inl (MfaInvalidConfig ''digits must be between 6 and 8'')
      else if tc_time_step config = 0 then Inl (MfaInvalidConfig ''time_step must be non-zero'')
      else Inr config)"

definition totp_with_secret :: "bytes \<Rightarrow> mfa_error + totp_config" where
  "totp_with_secret secret = totp_new (totp_config_default\<lparr>tc_secret := secret\<rparr>)"

text \<open>The three HMAC functions of the source differ in the hash function and the block size.\<close>

definition hmac_with :: "(bytes \<Rightarrow> bytes) \<Rightarrow> nat \<Rightarrow> bytes \<Rightarrow> bytes \<Rightarrow> bytes" where
  "hmac_with H block_size key message =
     (let key = (if length key > block_size then H key else key);
          padded_key = take block_size key @ replicate (block_size - length key) 0;
          inner_padding = map (\<lambda>b. 0x36 XOR b) padded_key;
          outer_padding = map (\<lambda>b. 0x5c XOR b) padded_key;
          inner_hash = H (inner_padding @ message)
      in H (outer_padding @ inner_hash))"

definition hmac_sha1 :: "mfa_crates \<Rightarrow> bytes \<Rightarrow> bytes \<Rightarrow> bytes" where
  "hmac_sha1 mc = hmac_with (mc_hash mc Sha1) 64"

definition hmac_sha256 :: "mfa_crates \<Rightarrow> bytes \<Rightarrow> bytes \<Rightarrow> bytes" where
  "hmac_sha256 mc = hmac_with (mc_hash mc Sha256) 64"

definition hmac_sha512 :: "mfa_crates \<Rightarrow> bytes \<Rightarrow> bytes \<Rightarrow> bytes" where
  "hmac_sha512 mc = hmac_with (mc_hash mc Sha512) 128"

text \<open>Right-aligned decimal text filled with zeros.\<close>

definition zero_padded :: "nat \<Rightarrow> nat \<Rightarrow> string" where
  "zero_padded width n = replicate (width - length (dec n)) CHR ''0'' @ dec n"

text \<open>Indexing out of range and division by zero panic.\<close>

definition compute_hotp :: "mfa_crates \<Rightarrow> totp_config \<Rightarrow> u64 \<Rightarrow> mfa_error + string" where
  "compute_hotp mc config counter =
     (let counter_bytes = be_bytes 8 (unat counter);
          hmac = (case tc_algorithm config of
                    Sha1 \<Rightarrow> hmac_sha1 mc (tc_secret config) counter_bytes
                  | Sha256 \<Rightarrow> hmac_sha256 mc (tc_secret config) counter_bytes
                  | Sha512 \<Rightarrow> hmac_sha512 mc (tc_secret config) counter_bytes)
      in if hmac = [] then Inl MfaPanicked
         else
           let offset = unat (last hmac AND 0x0f)
           in if length hmac \<le> offset + 3 then Inl MfaPanicked
              else
                let binary = push_bit 24 (ucast (hmac ! offset AND 0x7f) :: u32)
                      OR push_bit 16 (ucast (hmac ! (offset + 1)))
                      OR push_bit 8 (ucast (hmac ! (offset + 2)))
                      OR ucast (hmac ! (offset + 3));
                    modulus = 10 ^ unat (tc_digits config)
                in if modulus = 0 then Inl MfaPanicked
                   else Inr (zero_padded (unat (tc_digits config)) (unat (binary mod modulus))))"

definition generate_at_timestamp :: "mfa_crates \<Rightarrow> totp_config \<Rightarrow> u64 \<Rightarrow> mfa_error + totp_code" where
  "generate_at_timestamp mc config timestamp =
     (if tc_time_step config = 0 then Inl MfaPanicked
      else
        let counter = timestamp div tc_time_step config
        in and_then (compute_hotp mc config counter) (\<lambda>code.
             Inr \<lparr>tk_code = code, tk_generated_at = timestamp, tk_expires_at = (counter + 1) * tc_time_step config,
                  tk_period = tc_time_step config\<rparr>))"

fun validate_loop :: "mfa_crates \<Rightarrow> totp_config \<Rightarrow> string \<Rightarrow> u64 \<Rightarrow> nat list \<Rightarrow> mfa_error + bool" where
  "validate_loop mc config code counter [] = Inr False"
| "validate_loop mc config code counter (delta # deltas) =
     and_then (compute_hotp mc config (counter + word_of_nat delta)) (\<lambda>expected.
       if expected = code then Inr True
       else if counter \<ge> word_of_nat delta then
         and_then (compute_hotp mc config (counter - word_of_nat delta)) (\<lambda>expected.
           if expected = code then Inr True else validate_loop mc config code counter deltas)
       else validate_loop mc config code counter deltas)"

definition validate_at_timestamp :: "mfa_crates \<Rightarrow> totp_config \<Rightarrow> string \<Rightarrow> u64 \<Rightarrow> mfa_error + bool" where
  "validate_at_timestamp mc config code timestamp =
     (if tc_time_step config = 0 then Inl MfaPanicked
      else validate_loop mc config code (timestamp div tc_time_step config) [0..<Suc (unat (tc_window config))])"

definition generate_secret :: "(nat \<Rightarrow> u8) \<Rightarrow> mfa_error + bytes" where
  "generate_secret rng = Inr (fill_bytes rng 20)"

definition get_provisioning_uri :: "mfa_crates \<Rightarrow> totp_config \<Rightarrow> string \<Rightarrow> string \<Rightarrow> string" where
  "get_provisioning_uri mc config account_name issuer =
     (let params = [(''secret'', mc_base32 mc (tc_secret config)), (''issuer'', issuer), (''algorithm'', ''SHA1''),
                    (''digits'', dec (unat (tc_digits config))), (''period'', dec (unat (tc_time_step config)))];
          query = concat (case map (\<lambda>(k, v). k @ ''='' @ v) params of [] \<Rightarrow> [] | p # ps \<Rightarrow> p # map (\<lambda>q. ''&'' @ q) ps)
      in ''otpauth://totp/'' @ issuer @ '':'' @ account_name @ ''?'' @ query)"

section \<open>Backup codes\<close>

record backup_code =
  bc_code :: string
  bc_used :: bool
  bc_used_at :: "int option"

record backup_code_generator =
  bg_codes :: "string set"
  bg_remaining :: nat
  bg_failed_attempts :: u32
  bg_lockout_until :: "int option"

definition MAX_FAILED_ATTEMPTS :: u32 where
  "MAX_FAILED_ATTEMPTS = 5"

definition LOCKOUT_DURATION_SECS :: int where
  "LOCKOUT_DURATION_SECS = 300"

definition hash_code :: "mfa_crates \<Rightarrow> string \<Rightarrow> string" where
  "hash_code mc code = mc_hex mc (mc_hash mc Sha256 (map (\<lambda>c. word_of_nat (of_char c)) (mc_to_uppercase mc (trim code))))"

text \<open>A draw is the four random bytes read as a number.\<close>

definition generate_single_code :: "u32 \<Rightarrow> string" where
  "generate_single_code draw = zero_padded 8 (unat (draw mod 100000000))"

partial_function (option) generate_loop ::
  "mfa_crates \<Rightarrow> (nat \<Rightarrow> u32) \<Rightarrow> nat \<Rightarrow> nat \<Rightarrow> string set \<Rightarrow> backup_code list \<Rightarrow> (string set \<times> backup_code list) option" where
  "generate_loop mc rng count i codes backup_codes =
     (if card codes < count then
        let code = generate_single_code (rng i);
            hash = hash_code mc code
        in if hash \<notin> codes
           then generate_loop mc rng count (Suc i) (insert hash codes)
                  (backup_codes @ [\<lparr>bc_code = code, bc_used = False, bc_used_at = None\<rparr>])
           else generate_loop mc rng count (Suc i) codes backup_codes
      else Some (codes, backup_codes))"

definition bg_generate :: "mfa_crates \<Rightarrow> (nat \<Rightarrow> u32) \<Rightarrow> nat \<Rightarrow> (backup_code_generator \<times> backup_code list) option" where
  "bg_generate mc rng count =
     map_option (\<lambda>(codes, backup_codes).
       (\<lparr>bg_codes = codes, bg_remaining = count, bg_failed_attempts = 0, bg_lockout_until = None\<rparr>, backup_codes))
       (generate_loop mc rng count 0 {} [])"

definition bg_is_locked_out :: "int \<Rightarrow> backup_code_generator \<Rightarrow> u64 option" where
  "bg_is_locked_out now g =
     (case bg_lockout_until g of
        Some lockout_until \<Rightarrow> if now < lockout_until then Some (word_of_int (lockout_until - now)) else None
      | None \<Rightarrow> None)"

text \<open>\<open>now\<close> is the time of the check, \<open>now'\<close> the time a lockout starts at.\<close>

definition consume_code :: "mfa_crates \<Rightarrow> int \<Rightarrow> int \<Rightarrow> string \<Rightarrow> backup_code_generator \<Rightarrow> (mfa_error + unit) \<times> backup_code_generator" where
  "consume_code mc now now' code g =
     (case bg_is_locked_out now g of
        Some retry_after \<Rightarrow> (Inl (BackupCodeLocked retry_after), g)
      | None \<Rightarrow>
          let normalized_hash = hash_code mc code
          in if normalized_hash \<notin> bg_codes g then
               let g' = g\<lparr>bg_failed_attempts := bg_failed_attempts g + 1\<rparr>
               in if bg_failed_attempts g' \<ge> MAX_FAILED_ATTEMPTS
                  then (Inl (BackupCodeLocked (word_of_int LOCKOUT_DURATION_SECS)),
                        g'\<lparr>bg_lockout_until := Some (now' + LOCKOUT_DURATION_SECS)\<rparr>)
                  else (Inl InvalidCode, g')
             else if bg_remaining g = 0 then (Inl NoBackupCodes, g)
             else (Inr (), g\<lparr>bg_failed_attempts := 0, bg_lockout_until := None,
                             bg_codes := bg_codes g - {normalized_hash}, bg_remaining := bg_remaining g - 1\<rparr>))"

definition is_valid_code :: "mfa_crates \<Rightarrow> backup_code_generator \<Rightarrow> string \<Rightarrow> bool" where
  "is_valid_code mc g code \<longleftrightarrow> hash_code mc code \<in> bg_codes g"

definition bg_has_codes :: "backup_code_generator \<Rightarrow> bool" where
  "bg_has_codes g \<longleftrightarrow> bg_remaining g > 0"

definition bg_load :: "backup_code list \<Rightarrow> backup_code_generator" where
  "bg_load codes =
     (let unused = filter (\<lambda>c. \<not> bc_used c) codes
      in \<lparr>bg_codes = set (map bc_code unused), bg_remaining = length unused, bg_failed_attempts = 0, bg_lockout_until = None\<rparr>)"

section \<open>Codes have the configured number of digits\<close>

lemma dec_digits: "c \<in> set (dec n) \<Longrightarrow> 48 \<le> (of_char c :: nat) \<and> (of_char c :: nat) \<le> 57"
proof (induction n rule: dec.induct)
  case (1 n)
  show ?case
  proof (cases "n < 10")
    case True
    then show ?thesis
      using 1 by (subst (asm) (2) dec.simps) (auto simp: of_char_of)
  next
    case False
    then show ?thesis
      using 1 by (subst (asm) (2) dec.simps) (auto simp: of_char_of)
  qed
qed

lemma length_dec: "0 < k \<Longrightarrow> n < 10 ^ k \<Longrightarrow> length (dec n) \<le> k"
proof (induction n arbitrary: k rule: dec.induct)
  case (1 n)
  show ?case
  proof (cases "n < 10")
    case True
    with 1 show ?thesis by (subst dec.simps) simp
  next
    case False
    with 1(3) have "k \<noteq> 1" by (cases "k = 1") auto
    with 1(2) obtain j where j: "k = Suc j" "0 < j"
      by (cases k) auto
    with 1(3) have "n div 10 < 10 ^ j"
      by (simp add: div_less_iff_less_mult mult.commute)
    with 1(1) [OF False j(2)] False j(1) show ?thesis
      by (subst dec.simps) simp
  qed
qed

lemma zero_padded_format:
  assumes "0 < w" "n < 10 ^ w"
  shows "length (zero_padded w n) = w" "\<forall>c \<in> set (zero_padded w n). 48 \<le> (of_char c :: nat) \<and> (of_char c :: nat) \<le> 57"
  using length_dec [OF assms] dec_digits [of _ n] by (auto simp: zero_padded_def)

definition hash_sizes :: "mfa_crates \<Rightarrow> bool" where
  "hash_sizes mc \<longleftrightarrow> (\<forall>b. length (mc_hash mc Sha1 b) = 20 \<and> length (mc_hash mc Sha256 b) = 32 \<and> length (mc_hash mc Sha512 b) = 64)"

lemma totp_new_Inr:
  "totp_new config = Inr config' \<longleftrightarrow>
     config' = config \<and> tc_secret config \<noteq> [] \<and> 6 \<le> tc_digits config \<and> tc_digits config \<le> 8 \<and> tc_time_step config \<noteq> 0"
  by (auto simp: totp_new_def)

lemma digits_cases: "6 \<le> (d :: u32) \<Longrightarrow> d \<le> 8 \<Longrightarrow> unat d = 6 \<or> unat d = 7 \<or> unat d = 8"
  by (auto simp: word_le_nat_alt)

lemma digits_modulus:
  assumes "6 \<le> (d :: u32)" "d \<le> 8"
  shows "unat ((10 :: u32) ^ unat d) = 10 ^ unat d" "(10 :: u32) ^ unat d \<noteq> 0"
  using digits_cases [OF assms] by auto

text \<open>
  C22. Codes are well formed: with a configuration the constructor accepts and hash functions of their
  standard sizes, computing a code never panics, and the code consists of the configured number of
  decimal digits.
\<close>

lemma hotp_shape:
  assumes "totp_new config = Inr config'" "hash_sizes mc"
  obtains code where "compute_hotp mc config counter = Inr code" "length code = unat (tc_digits config)"
    "\<forall>c \<in> set code. 48 \<le> (of_char c :: nat) \<and> (of_char c :: nat) \<le> 57"
proof -
  define hmac where "hmac = (case tc_algorithm config of
      Sha1 \<Rightarrow> hmac_sha1 mc (tc_secret config) (be_bytes 8 (unat counter))
    | Sha256 \<Rightarrow> hmac_sha256 mc (tc_secret config) (be_bytes 8 (unat counter))
    | Sha512 \<Rightarrow> hmac_sha512 mc (tc_secret config) (be_bytes 8 (unat counter)))"
  have len: "20 \<le> length hmac"
    using assms(2) by (simp add: hmac_def hmac_sha1_def hmac_sha256_def hmac_sha512_def hmac_with_def hash_sizes_def Let_def
        split: totp_algorithm.split)
  have "unat (last hmac AND 0x0f) \<le> unat (0x0f :: u8)"
    by (simp only: word_le_nat_alt [symmetric] word_and_le1)
  then have off: "unat (last hmac AND 0x0f) \<le> 15" by simp
  have d: "6 \<le> tc_digits config" "tc_digits config \<le> 8"
    using assms(1) by (auto simp: totp_new_Inr)
  note m = digits_modulus [OF d]
  define binary where "binary = push_bit 24 (ucast (hmac ! unat (last hmac AND 0x0f) AND 0x7f) :: u32)
      OR push_bit 16 (ucast (hmac ! (unat (last hmac AND 0x0f) + 1)))
      OR push_bit 8 (ucast (hmac ! (unat (last hmac AND 0x0f) + 2)))
      OR ucast (hmac ! (unat (last hmac AND 0x0f) + 3))"
  have "hmac \<noteq> []" "\<not> length hmac \<le> unat (last hmac AND 0x0f) + 3"
    using len off by auto
  then have res: "compute_hotp mc config counter = Inr (zero_padded (unat (tc_digits config)) (unat (binary mod 10 ^ unat (tc_digits config))))"
    unfolding compute_hotp_def Let_def hmac_def [symmetric] binary_def [symmetric] using m(2) by simp
  have "unat (binary mod 10 ^ unat (tc_digits config)) < unat ((10 :: u32) ^ unat (tc_digits config))"
    using m by (simp add: unat_mod)
  moreover have "0 < unat (tc_digits config)"
    using digits_cases [OF d] by auto
  ultimately show ?thesis
    using that [OF res] zero_padded_format m(1) by simp
qed

theorem hotp_wellformed:
  assumes "totp_new config = Inr config'" "hash_sizes mc"
  shows "\<exists>code. compute_hotp mc config counter = Inr code \<and> length code = unat (tc_digits config)
     \<and> (\<forall>c \<in> set code. 48 \<le> (of_char c :: nat) \<and> (of_char c :: nat) \<le> 57)"
  by (rule hotp_shape [OF assms, of counter]) auto

definition mini_mfa :: mfa_crates where
  "mini_mfa = \<lparr>mc_hash = (\<lambda>a b. take (case a of Sha1 \<Rightarrow> 20 | Sha256 \<Rightarrow> 32 | Sha512 \<Rightarrow> 64) (rev b @ replicate 64 0)),
     mc_hex = (\<lambda>b. concat (map (\<lambda>x. [char_of (48 + unat x div 16), char_of (48 + unat x mod 16)]) b)),
     mc_base32 = map (\<lambda>b. char_of (unat b)), mc_to_uppercase = (\<lambda>s. s)\<rparr>"

definition mini_totp :: totp_config where
  "mini_totp = totp_config_default\<lparr>tc_secret := [1, 2, 3]\<rparr>"

lemma mini_hash_sizes: "hash_sizes mini_mfa"
  by (auto simp: hash_sizes_def mini_mfa_def min_def)

lemma mini_totp_new: "totp_new mini_totp = Inr mini_totp"
  by (simp add: totp_new_def mini_totp_def totp_config_default_def)

theorem hotp_wellformed_witness:
  "\<exists>code. compute_hotp mini_mfa mini_totp 7 = Inr code \<and> length code = unat (tc_digits mini_totp)
     \<and> (\<forall>c \<in> set code. 48 \<le> (of_char c :: nat) \<and> (of_char c :: nat) \<le> 57)"
  by (rule hotp_wellformed [OF mini_totp_new mini_hash_sizes])

section \<open>The window of accepted codes\<close>

lemma validate_loop_iff:
  assumes "\<And>c. \<exists>code'. compute_hotp mc config c = Inr code'"
  shows "validate_loop mc config code counter deltas =
     Inr (\<exists>d \<in> set deltas. compute_hotp mc config (counter + word_of_nat d) = Inr code
            \<or> counter \<ge> word_of_nat d \<and> compute_hotp mc config (counter - word_of_nat d) = Inr code)"
proof (induction deltas)
  case Nil
  then show ?case by simp
next
  case (Cons d ds)
  obtain e1 e2 where "compute_hotp mc config (counter + word_of_nat d) = Inr e1" "compute_hotp mc config (counter - word_of_nat d) = Inr e2"
    using assms by blast
  then show ?case using Cons by auto
qed

lemma window_counters:
  assumes "unat counter + w < 2 ^ 64"
  shows "(\<exists>d \<in> set [0..<Suc w]. P (counter + word_of_nat d) \<or> counter \<ge> word_of_nat d \<and> P (counter - word_of_nat d))
     \<longleftrightarrow> (\<exists>c' :: u64. unat counter \<le> unat c' + w \<and> unat c' \<le> unat counter + w \<and> P c')" (is "?L \<longleftrightarrow> ?R")
proof
  have small: "unat (word_of_nat d :: u64) = d" if "d \<le> w" for d
    using assms that by (subst unat_of_nat) (simp add: take_bit_nat_eq_self)
  have plus: "unat (counter + word_of_nat d) = unat counter + d" if "d \<le> w" for d
    using assms that small [OF that] by (subst unat_plus_simple [THEN iffD1]) (auto simp: no_olen_add_nat)
  have minus: "unat (counter - word_of_nat d) = unat counter - d" if "d \<le> w" "counter \<ge> word_of_nat d" for d
    using that small [OF that(1)] by (simp add: unat_sub)
  show ?R if ?L
  proof -
    from that obtain d where "d \<in> set [0..<Suc w]"
      and P: "P (counter + word_of_nat d) \<or> counter \<ge> word_of_nat d \<and> P (counter - word_of_nat d)"
      by (rule bexE)
    then have d: "d \<le> w" by auto
    from P show ?R
    proof
      assume "P (counter + word_of_nat d)"
      with plus [OF d] d show ?R by (intro exI [of _ "counter + word_of_nat d"]) simp
    next
      assume "counter \<ge> word_of_nat d \<and> P (counter - word_of_nat d)"
      with minus [OF d] d show ?R by (intro exI [of _ "counter - word_of_nat d"]) (simp, linarith)
    qed
  qed
  show ?L if ?R
  proof -
    from that obtain c' where c': "unat counter \<le> unat c' + w" "unat c' \<le> unat counter + w" "P c'"
      by blast
    show ?L
    proof (cases "unat counter \<le> unat c'")
      case True
      define d where "d = unat c' - unat counter"
      have "d \<le> w" using c' by (simp add: d_def)
      then have "counter + word_of_nat d = c'"
        using plus [of d] True by (simp add: word_unat_eq_iff d_def)
      with c'(3) \<open>d \<le> w\<close> show ?L by (intro bexI [of _ d]) auto
    next
      case False
      define d where "d = unat counter - unat c'"
      have "d \<le> w" using c' by (simp add: d_def)
      then have le: "counter \<ge> word_of_nat d"
        using small [of d] by (simp add: word_le_nat_alt d_def)
      then have "counter - word_of_nat d = c'"
        using minus [OF \<open>d \<le> w\<close> le] False by (simp add: word_unat_eq_iff d_def)
      with c'(3) \<open>d \<le> w\<close> le show ?L by (intro bexI [of _ d]) auto
    qed
  qed
qed

text \<open>
  Validation never fails and accepts a code exactly when it is the code of a time step at most
  \<open>window\<close> steps away from the current one, before or after.
\<close>

lemma validate_steps:
  assumes "totp_new config = Inr config'" "hash_sizes mc"
    and "unat (timestamp div tc_time_step config) + unat (tc_window config) < 2 ^ 64"
  shows "validate_at_timestamp mc config code timestamp =
     Inr (\<exists>c :: u64. unat (timestamp div tc_time_step config) \<le> unat c + unat (tc_window config)
            \<and> unat c \<le> unat (timestamp div tc_time_step config) + unat (tc_window config)
            \<and> compute_hotp mc config c = Inr code)"
proof -
  have "\<exists>code'. compute_hotp mc config c = Inr code'" for c
    using hotp_shape [OF assms(1,2), of c] by blast
  moreover have "tc_time_step config \<noteq> 0"
    using assms(1) by (simp add: totp_new_Inr)
  ultimately show ?thesis
    unfolding validate_at_timestamp_def
    by (simp only: if_False validate_loop_iff window_counters [OF assms(3), of "\<lambda>c. compute_hotp mc config c = Inr code"])
qed

theorem totp_window_exact:
  assumes "totp_new config = Inr config'" "hash_sizes mc"
    and "unat (timestamp div tc_time_step config) + unat (tc_window config) < 2 ^ 64"
  shows "validate_at_timestamp mc config code timestamp =
     Inr (\<exists>c :: u64. unat (timestamp div tc_time_step config) \<le> unat c + unat (tc_window config)
            \<and> unat c \<le> unat (timestamp div tc_time_step config) + unat (tc_window config)
            \<and> compute_hotp mc config c = Inr code)"
  by (rule validate_steps [OF assms])

theorem totp_window_exact_witness:
  "validate_at_timestamp mini_mfa mini_totp ''000000'' 1000 =
     Inr (\<exists>c :: u64. unat (1000 div tc_time_step mini_totp) \<le> unat c + unat (tc_window mini_totp)
            \<and> unat c \<le> unat (1000 div tc_time_step mini_totp) + unat (tc_window mini_totp)
            \<and> compute_hotp mini_mfa mini_totp c = Inr ''000000'')"
  by (rule totp_window_exact [OF mini_totp_new mini_hash_sizes]) (simp add: mini_totp_def totp_config_default_def)

text \<open>
  A generated code is accepted at every time whose step is at most \<open>window\<close> steps away, however
  often it has been presented before: validation keeps no state.
\<close>

theorem totp_roundtrip:
  assumes "totp_new config = Inr config'" "hash_sizes mc"
    and "unat (t' div tc_time_step config) + unat (tc_window config) < 2 ^ 64"
    and "unat (t' div tc_time_step config) \<le> unat (t div tc_time_step config) + unat (tc_window config)"
    and "unat (t div tc_time_step config) \<le> unat (t' div tc_time_step config) + unat (tc_window config)"
  shows "\<exists>k. generate_at_timestamp mc config t = Inr k \<and> validate_at_timestamp mc config (tk_code k) t' = Inr True"
proof -
  obtain code where code: "compute_hotp mc config (t div tc_time_step config) = Inr code"
    using hotp_shape [OF assms(1,2)] by blast
  moreover have "tc_time_step config \<noteq> 0"
    using assms(1) by (simp add: totp_new_Inr)
  ultimately have "\<exists>k. generate_at_timestamp mc config t = Inr k \<and> tk_code k = code"
    by (simp add: generate_at_timestamp_def Let_def)
  moreover have "validate_at_timestamp mc config code t' = Inr True"
    unfolding validate_steps [OF assms(1-3)] using assms(4,5) code by auto
  ultimately show ?thesis by auto
qed

theorem totp_roundtrip_witness:
  "\<exists>k. generate_at_timestamp mini_mfa mini_totp 1000 = Inr k
     \<and> validate_at_timestamp mini_mfa mini_totp (tk_code k) 1030 = Inr True"
  by (rule totp_roundtrip [OF mini_totp_new mini_hash_sizes]) (simp_all add: mini_totp_def totp_config_default_def)

text \<open>
  The provisioning text always names SHA1, so it is the same for configurations that differ in
  their algorithm only, while an authenticator that follows it computes other codes.
\<close>

theorem provisioning_ignores_algorithm:
  "get_provisioning_uri mc (config\<lparr>tc_algorithm := a\<rparr>) account issuer = get_provisioning_uri mc config account issuer
   \<and> (\<exists>mc. hash_sizes mc \<and> compute_hotp mc (mini_totp\<lparr>tc_algorithm := Sha256\<rparr>) 1 \<noteq> compute_hotp mc mini_totp 1)"
proof
  show "get_provisioning_uri mc (config\<lparr>tc_algorithm := a\<rparr>) account issuer = get_provisioning_uri mc config account issuer"
    by (simp add: get_provisioning_uri_def)
  let ?mc = "mini_mfa\<lparr>mc_hash := (\<lambda>a b. case a of Sha1 \<Rightarrow> replicate 20 1 | Sha256 \<Rightarrow> replicate 32 2 | Sha512 \<Rightarrow> replicate 64 3)\<rparr>"
  have "hash_sizes ?mc"
    by (simp add: hash_sizes_def)
  moreover have "compute_hotp ?mc (mini_totp\<lparr>tc_algorithm := Sha256\<rparr>) 1 \<noteq> compute_hotp ?mc mini_totp 1"
    by (simp add: compute_hotp_def hmac_sha1_def hmac_sha256_def hmac_with_def mini_totp_def totp_config_default_def
        zero_padded_def dec.simps Let_def last_replicate)
  ultimately show "\<exists>mc. hash_sizes mc \<and> compute_hotp mc (mini_totp\<lparr>tc_algorithm := Sha256\<rparr>) 1 \<noteq> compute_hotp mc mini_totp 1"
    by blast
qed

section \<open>Drawing backup codes\<close>

text \<open>What the loop has gathered: as many codes as hashes, the hashes of the codes, all unused.\<close>

definition gathered :: "mfa_crates \<Rightarrow> (nat \<Rightarrow> u32) \<Rightarrow> string set \<Rightarrow> backup_code list \<Rightarrow> bool" where
  "gathered mc rng codes bcs \<longleftrightarrow>
     codes = set (map (\<lambda>b. hash_code mc (bc_code b)) bcs) \<and> distinct (map (\<lambda>b. hash_code mc (bc_code b)) bcs)
     \<and> (\<forall>b \<in> set bcs. \<not> bc_used b \<and> (\<exists>i. bc_code b = generate_single_code (rng i)))"

lemma gathered_card: "gathered mc rng codes bcs \<Longrightarrow> card codes = length bcs \<and> finite codes"
  by (auto simp: gathered_def) (metis distinct_card length_map list.set_map)

lemma gathered_step:
  assumes "gathered mc rng codes bcs" "hash_code mc (generate_single_code (rng i)) \<notin> codes"
  shows "gathered mc rng (insert (hash_code mc (generate_single_code (rng i))) codes)
     (bcs @ [\<lparr>bc_code = generate_single_code (rng i), bc_used = False, bc_used_at = None\<rparr>])"
  using assms by (auto simp: gathered_def)

lemma generate_loop_result:
  assumes "generate_loop mc rng count i codes bcs = Some y"
  shows "gathered mc rng codes bcs \<longrightarrow> card codes \<le> count \<longrightarrow> gathered mc rng (fst y) (snd y) \<and> card (fst y) = count"
proof (rule generate_loop.raw_induct [OF _ assms])
  fix loop :: "mfa_crates \<Rightarrow> (nat \<Rightarrow> u32) \<Rightarrow> nat \<Rightarrow> nat \<Rightarrow> string set \<Rightarrow> backup_code list \<Rightarrow> (string set \<times> backup_code list) option"
    and mc rng count i codes bcs y
  assume IH: "\<And>mc rng count i codes bcs y. loop mc rng count i codes bcs = Some y \<Longrightarrow>
      gathered mc rng codes bcs \<longrightarrow> card codes \<le> count \<longrightarrow> gathered mc rng (fst y) (snd y) \<and> card (fst y) = count"
  assume body: "(if card codes < count then
        let code = generate_single_code (rng i); hash = hash_code mc code
        in if hash \<notin> codes
           then loop mc rng count (Suc i) (insert hash codes) (bcs @ [\<lparr>bc_code = code, bc_used = False, bc_used_at = None\<rparr>])
           else loop mc rng count (Suc i) codes bcs
      else Some (codes, bcs)) = Some y"
  let ?h = "hash_code mc (generate_single_code (rng i))"
  show "gathered mc rng codes bcs \<longrightarrow> card codes \<le> count \<longrightarrow> gathered mc rng (fst y) (snd y) \<and> card (fst y) = count"
  proof (intro impI)
    assume g: "gathered mc rng codes bcs" "card codes \<le> count"
    consider "card codes < count" "?h \<in> codes" | "card codes < count" "?h \<notin> codes" | "\<not> card codes < count"
      by blast
    then show "gathered mc rng (fst y) (snd y) \<and> card (fst y) = count"
    proof cases
      case 1
      then show ?thesis using body IH g by (auto simp: Let_def)
    next
      case 2
      have "card (insert ?h codes) \<le> count"
        using 2 gathered_card [OF g(1)] by simp
      with IH gathered_step [OF g(1) 2(2)] body 2 show ?thesis
        by (auto simp: Let_def)
    next
      case 3
      then show ?thesis using body g by auto
    qed
  qed
qed

lemma generate_from_empty:
  assumes "generate_loop mc rng count 0 {} [] = Some (codes, bcs)"
  shows "gathered mc rng codes bcs" "card codes = count"
proof -
  have "gathered mc rng {} []"
    by (simp add: gathered_def)
  then show "gathered mc rng codes bcs" "card codes = count"
    using generate_loop_result [OF assms] by simp_all
qed

lemma length_single_code: "length (generate_single_code d) = 8"
  unfolding generate_single_code_def by (rule zero_padded_format) (simp_all add: unat_mod)

text \<open>The loop ends once the draws have produced enough different hashes.\<close>

lemma generate_loop_terminates:
  assumes "count \<le> card (codes \<union> (\<lambda>j. hash_code mc (generate_single_code (rng j))) ` {i..<i + n})" "finite codes"
  shows "generate_loop mc rng count i codes bcs \<noteq> None"
  using assms
proof (induction n arbitrary: i codes bcs)
  case 0
  then show ?case by (subst generate_loop.simps) simp
next
  case (Suc n)
  let ?h = "\<lambda>j. hash_code mc (generate_single_code (rng j))"
  have split: "{i..<i + Suc n} = insert i {Suc i..<Suc i + n}"
    by auto
  have next_ok: "generate_loop mc rng count (Suc i) (insert (?h i) codes) bcs' \<noteq> None" for bcs'
    using Suc.prems unfolding split by (intro Suc.IH) simp_all
  then have "?h i \<in> codes \<Longrightarrow> generate_loop mc rng count (Suc i) codes bcs \<noteq> None"
    by (metis insert_absorb)
  with next_ok show ?case
    by (subst generate_loop.simps) (auto simp: Let_def)
qed

text \<open>
  C23. Generation of backup codes returns when the random draws contain as many codes with different
  hashes as are asked for. It then has exactly that many codes; their hashes are what the generator
  stores, all different, and each of them is accepted.
\<close>

theorem backup_codes_generated:
  assumes "count \<le> card ((\<lambda>i. hash_code mc (generate_single_code (rng i))) ` {0..<n})"
  shows "\<exists>g bcs. bg_generate mc rng count = Some (g, bcs) \<and> length bcs = count \<and> bg_remaining g = card (bg_codes g)
     \<and> bg_codes g = (\<lambda>b. hash_code mc (bc_code b)) ` set bcs \<and> distinct (map (\<lambda>b. hash_code mc (bc_code b)) bcs)
     \<and> list_all (\<lambda>b. is_valid_code mc g (bc_code b) \<and> length (bc_code b) = 8) bcs"
proof -
  have "generate_loop mc rng count 0 {} [] \<noteq> None"
    by (rule generate_loop_terminates [where n = n]) (use assms in simp_all)
  then obtain codes bcs where r: "generate_loop mc rng count 0 {} [] = Some (codes, bcs)"
    by auto
  then have g: "gathered mc rng codes bcs" "card codes = count"
    using generate_from_empty by blast+
  show ?thesis
    using r g gathered_card [OF g(1)] length_single_code
    by (auto simp: bg_generate_def gathered_def is_valid_code_def list_all_iff)
qed

lemma mini_hash_draws: "hash_code mini_mfa (generate_single_code 0) \<noteq> hash_code mini_mfa (generate_single_code 1)"
  by (simp add: generate_single_code_def zero_padded_def dec.simps hash_code_def trim_id b64_char_def mini_mfa_def)

theorem backup_codes_generated_witness:
  "\<exists>g bcs. bg_generate mini_mfa word_of_nat 2 = Some (g, bcs) \<and> length bcs = 2 \<and> bg_remaining g = card (bg_codes g)
     \<and> bg_codes g = (\<lambda>b. hash_code mini_mfa (bc_code b)) ` set bcs \<and> distinct (map (\<lambda>b. hash_code mini_mfa (bc_code b)) bcs)
     \<and> list_all (\<lambda>b. is_valid_code mini_mfa g (bc_code b) \<and> length (bc_code b) = 8) bcs"
proof (rule backup_codes_generated [where n = 2])
  have "(\<lambda>i. hash_code mini_mfa (generate_single_code (word_of_nat i))) ` {0..<2}
      = {hash_code mini_mfa (generate_single_code 0), hash_code mini_mfa (generate_single_code 1)}"
    by (auto simp: numeral_2_eq_2 atLeastLessThanSuc)
  then show "2 \<le> card ((\<lambda>i. hash_code mini_mfa (generate_single_code (word_of_nat i))) ` {0..<2})"
    using mini_hash_draws by simp
qed

text \<open>Invariants of a generator: the counter is the number of codes.\<close>

definition bg_inv :: "backup_code_generator \<Rightarrow> bool" where
  "bg_inv g \<longleftrightarrow> finite (bg_codes g) \<and> bg_remaining g = card (bg_codes g)"

lemma consume_inv: "bg_inv g \<Longrightarrow> bg_inv (snd (consume_code mc now now' code g))"
  by (auto simp: consume_code_def bg_inv_def Let_def split: option.split)

lemma consume_shrinks: "bg_codes (snd (consume_code mc now now' code g)) \<subseteq> bg_codes g"
  by (auto simp: consume_code_def Let_def split: option.split)

lemma consume_ok:
  "fst (consume_code mc now now' code g) = Inr () \<longleftrightarrow>
     bg_is_locked_out now g = None \<and> hash_code mc code \<in> bg_codes g \<and> bg_remaining g \<noteq> 0"
  by (auto simp: consume_code_def Let_def split: option.split)

type_synonym consume_call = "int \<times> int \<times> string"

definition consume_step :: "mfa_crates \<Rightarrow> consume_call \<Rightarrow> backup_code_generator \<Rightarrow> backup_code_generator" where
  "consume_step mc = (\<lambda>(now, now', code) g. snd (consume_code mc now now' code g))"

interpretation codes_inv: stateful "consume_step mc" "\<lambda>_. True" bg_inv
  by unfold_locales (auto simp: consume_step_def consume_inv)

interpretation code_gone: stateful "consume_step mc" "\<lambda>_. True" "\<lambda>g. h \<notin> bg_codes g"
  by unfold_locales (use consume_shrinks in \<open>fastforce simp: consume_step_def\<close>)

text \<open>
  C20. A backup code is good for one use: once it has been accepted, no later attempt with it, or with
  any text of the same hash, is accepted, whatever attempts are made in between.
\<close>

theorem backup_code_single_use:
  assumes "fst (consume_code mc now now' code g) = Inr ()" "hash_code mc code' = hash_code mc code"
  shows "fst (consume_code mc t t' code' (run_ops (consume_step mc) calls (snd (consume_code mc now now' code g)))) \<noteq> Inr ()"
proof -
  have "hash_code mc code \<notin> bg_codes (snd (consume_code mc now now' code g))"
    using assms(1) by (auto simp: consume_code_def Let_def split: option.splits if_splits)
  then have "hash_code mc code \<notin> bg_codes (run_ops (consume_step mc) calls (snd (consume_code mc now now' code g)))"
    by (rule code_gone.run_inv [rotated]) (simp add: list_all_iff)
  then show ?thesis
    by (simp add: consume_ok assms(2))
qed

definition mini_codes :: backup_code_generator where
  "mini_codes = \<lparr>bg_codes = {hash_code mini_mfa ''A'', hash_code mini_mfa ''B''}, bg_remaining = 2, bg_failed_attempts = 0, bg_lockout_until = None\<rparr>"

theorem backup_code_single_use_witness:
  "fst (consume_code mini_mfa 9 9 ''A'' (run_ops (consume_step mini_mfa) [(8, 8, ''X'')] (snd (consume_code mini_mfa 7 7 ''A'' mini_codes)))) \<noteq> Inr ()"
  by (rule backup_code_single_use) (simp_all add: consume_ok bg_is_locked_out_def mini_codes_def)

text \<open>
  Loading the codes generation returned gives a generator that accepts none of them: generation
  hands out the codes themselves, while the loaded list is taken to hold hashes.
\<close>

theorem loaded_codes_refused:
  assumes "bg_generate mc rng count = Some (g, bcs)" "\<And>b. length (mc_hex mc (mc_hash mc Sha256 b)) = 64"
  shows "list_all (\<lambda>b. is_valid_code mc g (bc_code b) \<and> \<not> is_valid_code mc (bg_load bcs) (bc_code b)) bcs"
proof -
  obtain codes where r: "generate_loop mc rng count 0 {} [] = Some (codes, bcs)" "bg_codes g = codes"
    using assms(1) by (auto simp: bg_generate_def)
  then have g: "gathered mc rng codes bcs"
    using generate_from_empty by blast
  have len: "length (hash_code mc s) = 64" for s
    by (simp add: hash_code_def assms(2))
  have "hash_code mc s \<noteq> bc_code b" if b: "b \<in> set bcs" for s b
  proof
    assume "hash_code mc s = bc_code b"
    moreover obtain i where "bc_code b = generate_single_code (rng i)"
      using g b unfolding gathered_def by blast
    ultimately show False
      using len [of s] length_single_code [of "rng i"] by simp
  qed
  then show ?thesis
    using g r(2) by (auto simp: list_all_iff is_valid_code_def bg_load_def gathered_def Let_def)
qed

lemma mini_hex_length: "length (mc_hex mini_mfa (mc_hash mini_mfa Sha256 b)) = 64"
proof -
  have "length (concat (map (\<lambda>x. [char_of (48 + unat x div 16), char_of (48 + unat x mod 16)]) (c :: bytes))) = 2 * length c" for c
    by (induction c) auto
  moreover have "length (mc_hash mini_mfa Sha256 b) = 32"
    using mini_hash_sizes by (simp add: hash_sizes_def)
  moreover have "mc_hex mini_mfa = (\<lambda>b. concat (map (\<lambda>x. [char_of (48 + unat x div 16), char_of (48 + unat x mod 16)]) b))"
    by (simp add: mini_mfa_def)
  ultimately show ?thesis
    by (simp only:)
qed

theorem loaded_codes_refused_witness:
  "\<exists>g bcs. bcs \<noteq> [] \<and> list_all (\<lambda>b. is_valid_code mini_mfa g (bc_code b) \<and> \<not> is_valid_code mini_mfa (bg_load bcs) (bc_code b)) bcs"
proof -
  obtain g b where "bg_generate mini_mfa (\<lambda>_. 0) 1 = Some (g, [b])"
    by (simp add: bg_generate_def generate_loop.simps [of _ _ _ 0] generate_loop.simps [of _ _ _ "Suc 0"] Let_def)
  from loaded_codes_refused [OF this mini_hex_length] show ?thesis by blast
qed

section \<open>Guessing backup codes\<close>

text \<open>How many wrong codes are looked at in a run of attempts, and how many attempts are accepted.\<close>

fun wrong_guesses :: "mfa_crates \<Rightarrow> consume_call list \<Rightarrow> backup_code_generator \<Rightarrow> nat" where
  "wrong_guesses mc [] g = 0"
| "wrong_guesses mc ((now, now', code) # cs) g =
     (if bg_is_locked_out now g = None \<and> hash_code mc code \<notin> bg_codes g then 1 else 0)
     + wrong_guesses mc cs (snd (consume_code mc now now' code g))"

fun accepted_codes :: "mfa_crates \<Rightarrow> consume_call list \<Rightarrow> backup_code_generator \<Rightarrow> nat" where
  "accepted_codes mc [] g = 0"
| "accepted_codes mc ((now, now', code) # cs) g =
     (if fst (consume_code mc now now' code g) = Inr () then 1 else 0)
     + accepted_codes mc cs (snd (consume_code mc now now' code g))"

text \<open>What is left of the budget from time \<open>s\<close> up to time \<open>e\<close>.\<close>

definition budget :: "int \<Rightarrow> int \<Rightarrow> backup_code_generator \<Rightarrow> nat" where
  "budget s e g =
     (4 - unat (bg_failed_attempts g))
     + (let u = (case bg_lockout_until g of Some u \<Rightarrow> max s u | None \<Rightarrow> s)
        in if e < u then 0 else nat ((e - u) div 300) + 1)"

lemma div300_step: "t \<le> t' \<Longrightarrow> t' + 300 \<le> e \<Longrightarrow> Suc (nat ((e - (t' + 300)) div 300)) \<le> nat ((e - t) div 300)" for e t :: int
  by linarith

lemma budget_mono: "s \<le> s' \<Longrightarrow> budget s' e g \<le> budget s e g"
  by (auto simp: budget_def Let_def split: option.split intro!: nat_mono zdiv_mono1)

lemma unlocked_until: "bg_is_locked_out t g = None \<Longrightarrow> (case bg_lockout_until g of Some u \<Rightarrow> max t u | None \<Rightarrow> t) = t"
  by (auto simp: bg_is_locked_out_def split: option.splits if_splits)

lemma budget_wrong:
  assumes "bg_is_locked_out t g = None" "hash_code mc code \<notin> bg_codes g" "t \<le> t'" "t \<le> e" "unat (bg_failed_attempts g) < 2 ^ 32 - 1"
  shows "Suc (budget t e (snd (consume_code mc t t' code g))) \<le> budget t e g"
proof -
  let ?fa = "bg_failed_attempts g"
  note unlocked = unlocked_until [OF assms(1)]
  have fa: "unat (?fa + 1) = Suc (unat ?fa)"
    using assms(5) by (subst unat_add_lem [THEN iffD1]) auto
  show ?thesis
  proof (cases "?fa + 1 \<ge> MAX_FAILED_ATTEMPTS")
    case True
    then have "4 \<le> unat ?fa"
      by (simp add: word_le_nat_alt fa MAX_FAILED_ATTEMPTS_def)
    then show ?thesis
      using assms(1-4) True div300_step [of t t' e] fa
      by (simp add: consume_code_def budget_def unlocked LOCKOUT_DURATION_SECS_def Let_def max_def)
  next
    case False
    then have "unat ?fa < 4"
      by (simp add: word_le_nat_alt fa MAX_FAILED_ATTEMPTS_def)
    then show ?thesis
      using assms(1-4) False unlocked
      by (simp add: consume_code_def budget_def fa Let_def)
  qed
qed

lemma budget_accepted:
  assumes "fst (consume_code mc t t' code g) = Inr ()"
  shows "budget t e (snd (consume_code mc t t' code g)) \<le> budget t e g + 4"
    and "bg_remaining (snd (consume_code mc t t' code g)) + 1 = bg_remaining g"
proof -
  have ok: "bg_is_locked_out t g = None" "hash_code mc code \<in> bg_codes g" "bg_remaining g \<noteq> 0"
    using assms by (simp_all add: consume_ok)
  then have g: "snd (consume_code mc t t' code g) = g\<lparr>bg_failed_attempts := 0, bg_lockout_until := None,
      bg_codes := bg_codes g - {hash_code mc code}, bg_remaining := bg_remaining g - 1\<rparr>"
    by (simp add: consume_code_def)
  show "budget t e (snd (consume_code mc t t' code g)) \<le> budget t e g + 4"
    unfolding g using unlocked_until [OF ok(1)] by (simp add: budget_def)
  show "bg_remaining (snd (consume_code mc t t' code g)) + 1 = bg_remaining g"
    unfolding g using ok(3) by simp
qed

lemma consume_kept:
  assumes "fst (consume_code mc t t' code g) \<noteq> Inr ()" "bg_is_locked_out t g \<noteq> None \<or> hash_code mc code \<in> bg_codes g"
  shows "snd (consume_code mc t t' code g) = g"
  using assms by (auto simp: consume_code_def Let_def split: option.splits)

lemma consume_remaining: "bg_remaining (snd (consume_code mc t t' code g)) \<le> bg_remaining g"
  by (auto simp: consume_code_def Let_def split: option.split)

lemma consume_failed_count:
  "unat (bg_failed_attempts (snd (consume_code mc now now' code g))) \<le> Suc (unat (bg_failed_attempts g))"
  by (auto simp: consume_code_def Let_def unat_word_ariths split: option.split intro: order_trans [OF mod_less_eq_dividend])

lemma guesses_bound:
  assumes "sorted (map fst cs)" "\<forall>(t, t', code) \<in> set cs. s \<le> t \<and> t \<le> t' \<and> t \<le> e"
    and "unat (bg_failed_attempts g) + length cs < 2 ^ 32"
  shows "wrong_guesses mc cs g \<le> budget s e g + 4 * accepted_codes mc cs g \<and> accepted_codes mc cs g \<le> bg_remaining g"
  using assms
proof (induction cs arbitrary: s g)
  case Nil
  then show ?case by simp
next
  case (Cons c cs)
  obtain t t' code where c: "c = (t, t', code)" by (cases c)
  let ?g = "snd (consume_code mc t t' code g)"
  have t: "s \<le> t" "t \<le> t'" "t \<le> e"
    using Cons.prems(2) c by auto
  have "\<forall>(u, u', code') \<in> set cs. t \<le> u \<and> u \<le> u' \<and> u \<le> e"
    using Cons.prems(1,2) c by fastforce
  moreover have "unat (bg_failed_attempts ?g) + length cs < 2 ^ 32"
    using Cons.prems(3) consume_failed_count [of mc t t' code g] by simp
  ultimately have IH: "wrong_guesses mc cs ?g \<le> budget t e ?g + 4 * accepted_codes mc cs ?g"
      "accepted_codes mc cs ?g \<le> bg_remaining ?g"
    using Cons.IH [of t ?g] Cons.prems(1) by (auto simp: c)
  note less = budget_mono [OF t(1), of e g]
  consider "fst (consume_code mc t t' code g) = Inr ()"
    | "fst (consume_code mc t t' code g) \<noteq> Inr ()" "bg_is_locked_out t g = None \<and> hash_code mc code \<notin> bg_codes g"
    | "fst (consume_code mc t t' code g) \<noteq> Inr ()" "bg_is_locked_out t g \<noteq> None \<or> hash_code mc code \<in> bg_codes g"
    by blast
  then show ?case
  proof cases
    case 1
    with IH budget_accepted(1) [OF 1, of e] budget_accepted(2) [OF 1] less show ?thesis
      by (simp add: c consume_ok)
  next
    case 2
    then have "Suc (budget t e ?g) \<le> budget t e g"
      using t Cons.prems(3) by (intro budget_wrong) auto
    with IH 2 less consume_remaining [of mc t t' code g] show ?thesis
      by (simp add: c)
  next
    case 3
    with IH consume_kept [OF 3] less show ?thesis
      by (auto simp: c)
  qed
qed

text \<open>
  C21. Guessing is slow: in any run of attempts on a fresh generator, however many and with whatever codes, at
  most five wrong codes are looked at, plus one for every five minutes from the first attempt to the last,
  plus four for every code that is accepted in between; and no more codes are accepted than were issued.
\<close>

theorem guessing_bounded:
  assumes "sorted (map fst cs)" "\<forall>(t, t', code) \<in> set cs. s \<le> t \<and> t \<le> t' \<and> t \<le> e"
    and "bg_failed_attempts g = 0" "bg_lockout_until g = None" "s \<le> e" "length cs < 2 ^ 32"
  shows "wrong_guesses mc cs g \<le> 5 + nat ((e - s) div 300) + 4 * accepted_codes mc cs g
    \<and> accepted_codes mc cs g \<le> bg_remaining g"
  using guesses_bound [OF assms(1,2), of g mc] assms(3-6) by (simp add: budget_def)

theorem guessing_bounded_witness:
  "wrong_guesses mini_mfa ((0, 0, ''A'') # map (\<lambda>t. (t, t, ''X'')) [0, 1, 2, 3, 4, 5, 6, 304, 305, 606]) mini_codes
     \<le> 5 + nat ((700 - 0) div 300) + 4 * 2"
proof -
  let ?cs = "(0, 0, ''A'') # map (\<lambda>t. (t, t, ''X'')) [0, 1, 2, 3, 4, 5, 6, 304, 305, 606 :: int]"
  have "wrong_guesses mini_mfa ?cs mini_codes \<le> 5 + nat ((700 - 0) div 300) + 4 * accepted_codes mini_mfa ?cs mini_codes
      \<and> accepted_codes mini_mfa ?cs mini_codes \<le> bg_remaining mini_codes"
    by (rule guessing_bounded) (auto simp: mini_codes_def)
  moreover have "bg_remaining mini_codes = 2"
    by (simp add: mini_codes_def)
  ultimately show ?thesis
    by linarith
qed


end
