(* ===== verification/Events.thy ===== *)
theory Events
  imports Audit_Log
begin

text \<open>
  The constructors of audit events, \<^verbatim>\<open>crates/kms-core/src/event.rs\<close>. Each takes the fresh identifier and
  the time the event is stamped with; \<open>us\<close> is the text of an identifier.
\<close>

definition with_metadata :: "string \<Rightarrow> json \<Rightarrow> audit_event \<Rightarrow> audit_event" where
  "with_metadata k v e = e\<lparr>av_metadata := map_insert k v (av_metadata e)\<rparr>"

definition ev_key_created ::
  "(uuid \<Rightarrow> string) \<Rightarrow> uuid \<Rightarrow> time \<Rightarrow> uuid \<Rightarrow> string \<Rightarrow> string \<Rightarrow> audit_event" where
  "ev_key_created us new_id now key_id actor_id spec =
     with_metadata ''key_spec'' (JStr spec)
       (event_new new_id now KeyCreated actor_id ''user'' ''create_key'' ''key'' (Some (us key_id)) ''success'')"

definition ev_key_encrypted ::
  "(uuid \<Rightarrow> string) \<Rightarrow> uuid \<Rightarrow> time \<Rightarrow> uuid \<Rightarrow> string \<Rightarrow> nat \<Rightarrow> audit_event" where
  "ev_key_encrypted us new_id now key_id actor_id bytes =
     with_metadata ''bytes'' (JInt (int bytes))
       (event_new new_id now KeyEncrypted actor_id ''user'' ''encrypt'' ''key'' (Some (us key_id)) ''success'')"

definition ev_key_decrypted ::
  "(uuid \<Rightarrow> string) \<Rightarrow> uuid \<Rightarrow> time \<Rightarrow> uuid \<Rightarrow> string \<Rightarrow> nat \<Rightarrow> audit_event" where
  "ev_key_decrypted us new_id now key_id actor_id bytes =
     with_metadata ''bytes'' (JInt (int bytes))
       (event_new new_id now KeyDecrypted actor_id ''user'' ''decrypt'' ''key'' (Some (us key_id)) ''success'')"

definition ev_key_signed ::
  "(uuid \<Rightarrow> string) \<Rightarrow> uuid \<Rightarrow> time \<Rightarrow> uuid \<Rightarrow> string \<Rightarrow> audit_event" where
  "ev_key_signed us new_id now key_id actor_id =
     event_new new_id now KeySigned actor_id ''user'' ''sign'' ''key'' (Some (us key_id)) ''success''"

definition ev_key_verified ::
  "(uuid \<Rightarrow> string) \<Rightarrow> uuid \<Rightarrow> time \<Rightarrow> uuid \<Rightarrow> string \<Rightarrow> bool \<Rightarrow> audit_event" where
  "ev_key_verified us new_id now key_id actor_id valid =
     with_metadata ''valid'' (JBool valid)
       (event_new new_id now KeyVerified actor_id ''user'' ''verify'' ''key'' (Some (us key_id)) (if valid then ''success'' else ''failure''))"

definition ev_key_deleted ::
  "(uuid \<Rightarrow> string) \<Rightarrow> uuid \<Rightarrow> time \<Rightarrow> uuid \<Rightarrow> string \<Rightarrow> audit_event" where
  "ev_key_deleted us new_id now key_id actor_id =
     event_new new_id now KeyDeleted actor_id ''user'' ''delete_key'' ''key'' (Some (us key_id)) ''success''"

definition ev_key_rotated ::
  "(uuid \<Rightarrow> string) \<Rightarrow> uuid \<Rightarrow> time \<Rightarrow> uuid \<Rightarrow> string \<Rightarrow> audit_event" where
  "ev_key_rotated us new_id now key_id actor_id =
     event_new new_id now KeyRotated actor_id ''user'' ''rotate_key'' ''key'' (Some (us key_id)) ''success''"

definition ev_key_imported ::
  "(uuid \<Rightarrow> string) \<Rightarrow> uuid \<Rightarrow> time \<Rightarrow> uuid \<Rightarrow> string \<Rightarrow> string \<Rightarrow> audit_event" where
  "ev_key_imported us new_id now key_id actor_id format =
     with_metadata ''key_format'' (JStr format)
       (event_new new_id now KeyImported actor_id ''user'' ''import_key'' ''key'' (Some (us key_id)) ''success'')"

definition ev_key_exported ::
  "(uuid \<Rightarrow> string) \<Rightarrow> uuid \<Rightarrow> time \<Rightarrow> uuid \<Rightarrow> string \<Rightarrow> string \<Rightarrow> audit_event" where
  "ev_key_exported us new_id now key_id actor_id purpose =
     event_new new_id now KeyExported actor_id ''user'' ''export_key'' ''key'' (Some (us key_id)) ''success''"

definition ev_key_material_accessed ::
  "(uuid \<Rightarrow> string) \<Rightarrow> uuid \<Rightarrow> time \<Rightarrow> uuid \<Rightarrow> string \<Rightarrow> string \<Rightarrow> audit_event" where
  "ev_key_material_accessed us new_id now key_id actor_id operation =
     event_new new_id now KeyMaterialAccessed actor_id ''user'' operation ''key'' (Some (us key_id)) ''success''"

definition ev_key_export_requested ::
  "(uuid \<Rightarrow> string) \<Rightarrow> uuid \<Rightarrow> time \<Rightarrow> uuid \<Rightarrow> string \<Rightarrow> string \<Rightarrow> audit_event" where
  "ev_key_export_requested us new_id now key_id actor_id format =
     with_metadata ''export_format'' (JStr format)
       (event_new new_id now KeyExportRequested actor_id ''user'' ''export_key_request'' ''key'' (Some (us key_id)) ''success'')"

definition ev_policy_changed ::
  "(uuid \<Rightarrow> string) \<Rightarrow> uuid \<Rightarrow> time \<Rightarrow> uuid \<Rightarrow> string \<Rightarrow> string \<Rightarrow> audit_event" where
  "ev_policy_changed us new_id now policy_id actor_id change_type =
     with_metadata ''change_type'' (JStr change_type)
       (event_new new_id now PolicyChanged actor_id ''user'' ''policy_update'' ''policy'' (Some (us policy_id)) ''success'')"

definition ev_access_denied ::
  "uuid \<Rightarrow> time \<Rightarrow> string \<Rightarrow> string \<Rightarrow> string \<Rightarrow> audit_event" where
  "ev_access_denied new_id now actor_id action reason =
     with_metadata ''reason'' (JStr reason)
       (event_new new_id now AccessDenied actor_id ''user'' action ''policy'' None ''denied'')"

definition ev_mfa_setup ::
  "uuid \<Rightarrow> time \<Rightarrow> string \<Rightarrow> string \<Rightarrow> audit_event" where
  "ev_mfa_setup new_id now user_id method =
     with_metadata ''method'' (JStr method)
       (event_new new_id now MfaSetup user_id ''user'' ''mfa_setup'' ''mfa'' None ''success'')"

definition ev_mfa_verified ::
  "uuid \<Rightarrow> time \<Rightarrow> string \<Rightarrow> audit_event" where
  "ev_mfa_verified new_id now user_id =
     event_new new_id now MfaVerified user_id ''user'' ''mfa_verify'' ''mfa'' None ''success''"

definition ev_mfa_failed ::
  "uuid \<Rightarrow> time \<Rightarrow> string \<Rightarrow> string \<Rightarrow> audit_event" where
  "ev_mfa_failed new_id now user_id reason =
     with_metadata ''reason'' (JStr reason)
       (event_new new_id now MfaFailed user_id ''user'' ''mfa_verify'' ''mfa'' None ''failure'')"

definition ev_mfa_backup_code_used ::
  "uuid \<Rightarrow> time \<Rightarrow> string \<Rightarrow> audit_event" where
  "ev_mfa_backup_code_used new_id now user_id =
     event_new new_id now MfaBackupCodeUsed user_id ''user'' ''mfa_verify_backup'' ''mfa'' None ''success''"

definition ev_api_key_created ::
  "uuid \<Rightarrow> time \<Rightarrow> string \<Rightarrow> string \<Rightarrow> audit_event" where
  "ev_api_key_created new_id now key_id actor_id =
     event_new new_id now ApiKeyCreated actor_id ''user'' ''create_api_key'' ''api_key'' (Some key_id) ''success''"

definition ev_api_key_rotated ::
  "uuid \<Rightarrow> time \<Rightarrow> string \<Rightarrow> string \<Rightarrow> audit_event" where
  "ev_api_key_rotated new_id now key_id actor_id =
     event_new new_id now ApiKeyRotated actor_id ''user'' ''rotate_api_key'' ''api_key'' (Some key_id) ''success''"

definition ev_api_key_revoked ::
  "uuid \<Rightarrow> time \<Rightarrow> string \<Rightarrow> string \<Rightarrow> audit_event" where
  "ev_api_key_revoked new_id now key_id actor_id =
     event_new new_id now ApiKeyRevoked actor_id ''user'' ''revoke_api_key'' ''api_key'' (Some key_id) ''success''"

definition ev_rate_limit_triggered ::
  "uuid \<Rightarrow> time \<Rightarrow> string \<Rightarrow> string \<Rightarrow> string \<Rightarrow> audit_event" where
  "ev_rate_limit_triggered new_id now actor_id tenant_id limit_type =
     with_metadata ''limit_type'' (JStr limit_type) (with_metadata ''tenant_id'' (JStr tenant_id)
       (event_new new_id now RateLimitTriggered actor_id ''user'' ''rate_limit'' ''rate_limit'' None ''denied''))"

definition ev_session_created ::
  "(uuid \<Rightarrow> string) \<Rightarrow> uuid \<Rightarrow> time \<Rightarrow> uuid \<Rightarrow> string \<Rightarrow> audit_event" where
  "ev_session_created us new_id now session_id actor_id =
     event_new new_id now SessionCreated actor_id ''user'' ''create_session'' ''session'' (Some (us session_id)) ''success''"

definition ev_session_expired ::
  "(uuid \<Rightarrow> string) \<Rightarrow> uuid \<Rightarrow> time \<Rightarrow> uuid \<Rightarrow> string \<Rightarrow> audit_event" where
  "ev_session_expired us new_id now session_id actor_id =
     event_new new_id now SessionExpired actor_id ''user'' ''session_expired'' ''session'' (Some (us session_id)) ''success''"

definition ev_backup_created ::
  "uuid \<Rightarrow> time \<Rightarrow> string \<Rightarrow> string \<Rightarrow> nat \<Rightarrow> audit_event" where
  "ev_backup_created new_id now backup_id actor_id key_count =
     with_metadata ''key_count'' (JInt (int key_count))
       (event_new new_id now BackupCreated actor_id ''user'' ''create_backup'' ''backup'' (Some backup_id) ''success'')"

definition ev_backup_restored ::
  "uuid \<Rightarrow> time \<Rightarrow> string \<Rightarrow> string \<Rightarrow> nat \<Rightarrow> audit_event" where
  "ev_backup_restored new_id now backup_id actor_id key_count =
     with_metadata ''key_count'' (JInt (int key_count))
       (event_new new_id now BackupRestored actor_id ''user'' ''restore_backup'' ''backup'' (Some backup_id) ''success'')"

definition ev_approval_requested ::
  "(uuid \<Rightarrow> string) \<Rightarrow> uuid \<Rightarrow> time \<Rightarrow> uuid \<Rightarrow> string \<Rightarrow> string \<Rightarrow> audit_event" where
  "ev_approval_requested us new_id now request_id actor_id operation =
     with_metadata ''operation'' (JStr operation)
       (event_new new_id now ApprovalRequested actor_id ''user'' ''request_approval'' ''approval'' (Some (us request_id)) ''pending'')"

definition ev_approval_granted ::
  "(uuid \<Rightarrow> string) \<Rightarrow> uuid \<Rightarrow> time \<Rightarrow> uuid \<Rightarrow> string \<Rightarrow> audit_event" where
  "ev_approval_granted us new_id now request_id approver_id =
     event_new new_id now ApprovalGranted approver_id ''user'' ''approve_request'' ''approval'' (Some (us request_id)) ''success''"

definition ev_approval_denied ::
  "(uuid \<Rightarrow> string) \<Rightarrow> uuid \<Rightarrow> time \<Rightarrow> uuid \<Rightarrow> string \<Rightarrow> string \<Rightarrow> audit_event" where
  "ev_approval_denied us new_id now request_id approver_id reason =
     with_metadata ''reason'' (JStr reason)
       (event_new new_id now ApprovalDenied approver_id ''user'' ''deny_request'' ''approval'' (Some (us request_id)) ''denied'')"

end
