(* ===== verification/Backup.thy ===== *)
theory Backup
  imports Software_Keystore Limits
begin

text \<open>
  Encrypted backups of keys, \<^verbatim>\<open>crates/kms-core/src/backup.rs\<close>: the master key and its passphrase-protected
  file, writing, verifying and restoring backups, choosing the newest one, and retention. The backup
  directory is a map from file names to files; \<open>io i\<close> tells whether the \<open>i\<close>-th input or output action of
  a call succeeds, and \<open>order\<close> is the order in which the directory is listed. SM4 is taken from \<open>crypto\<close>, SM3 and
  the JSON encoders are the fields of \<open>backup_crates\<close>. Locked memory can be allocated for every positive
  size.
\<close>

section \<open>Types\<close>

datatype backup_error = BkError msg | BkPanicked

record key_backup =
  kb_version :: u32
  kb_key_meta :: key_meta
  kb_encrypted_material :: bytes
  kb_nonce :: bytes
  kb_material_hash :: string
  kb_backed_up_at :: time
  kb_description :: "string option"

record signed_backup =
  sb_data :: string
  sb_signature :: string

record master_key =
  mk_id :: uuid
  mk_material :: bytes

record encrypted_master_key =
  em_id :: uuid
  em_encrypted_material :: bytes
  em_nonce :: bytes
  em_salt :: bytes
  em_kdf_iterations :: u32

record backup_crates =
  bk_sm3 :: "bytes \<Rightarrow> string + bytes"
  bk_sm3_hex :: "bytes \<Rightarrow> string + string"
  bk_sm3_hmac_hex :: "bytes \<Rightarrow> bytes \<Rightarrow> string + string"
  bk_hex :: "bytes \<Rightarrow> string"
  bk_uuid_str :: "uuid \<Rightarrow> string"
  bk_backup_json :: "key_backup \<Rightarrow> string option"
  bk_parse_backup :: "string \<Rightarrow> key_backup option"
  bk_signed_json :: "signed_backup \<Rightarrow> string option"
  bk_parse_signed :: "string \<Rightarrow> signed_backup option"
  bk_master_json :: "encrypted_master_key \<Rightarrow> string option"
  bk_parse_master :: "string \<Rightarrow> encrypted_master_key option"

definition BACKUP_VERSION :: u32 where
  "BACKUP_VERSION = 2"

definition MASTER_KEY_FILE :: string where
  "MASTER_KEY_FILE = ''master_key.enc''"

definition SM4_KEY_SIZE :: nat where
  "SM4_KEY_SIZE = 16"

definition SM4_NONCE_SIZE :: nat where
  "SM4_NONCE_SIZE = 12"

definition HMAC_KEY_SIZE :: nat where
  "HMAC_KEY_SIZE = 32"

definition bk_err :: "string \<Rightarrow> backup_error" where
  "bk_err s = BkError (Lit s)"

definition bk_err_of :: "string \<Rightarrow> string \<Rightarrow> backup_error" where
  "bk_err_of what e = BkError (Fmt [Lit what, Str e])"

text \<open>\<open>context\<close>: the new message in front of the cause.\<close>

definition with_context :: "msg \<Rightarrow> backup_error + 'a \<Rightarrow> backup_error + 'a" where
  "with_context m r = map_err (\<lambda>e. case e of BkError c \<Rightarrow> BkError (Fmt [m, c]) | BkPanicked \<Rightarrow> BkPanicked) r"

lemma with_context_Inr [simp]: "with_context m (Inr x) = Inr x"
  by (simp add: with_context_def)

lemma with_context_eq_Inr [simp]: "with_context m r = Inr x \<longleftrightarrow> r = Inr x"
  by (simp add: with_context_def)

section \<open>The backup directory\<close>

record bfile =
  bf_content :: string
  bf_modified :: time
  bf_mode :: nat

record backup_dir =
  bd_exists :: bool
  bd_files :: "string \<rightharpoonup> bfile"

definition io_check :: "bool \<Rightarrow> string \<Rightarrow> backup_error + unit" where
  "io_check b what = (if b then Inr () else Inl (bk_err what))"

text \<open>
  Writing through a temporary file of mode \<open>0o600\<close>, which is 384. A failed call removes the temporary
  file; when the removal fails too, a file that could not be written stays behind empty.
\<close>

definition tmp_name :: "backup_crates \<Rightarrow> (nat \<Rightarrow> u8) \<Rightarrow> string \<Rightarrow> string" where
  "tmp_name bk rng file_name = ''.'' @ file_name @ ''.'' @ bk_hex bk (fill_bytes rng 8) @ ''.tmp''"

definition write_owner_only ::
  "backup_crates \<Rightarrow> (nat \<Rightarrow> bool) \<Rightarrow> (nat \<Rightarrow> u8) \<Rightarrow> time \<Rightarrow> string \<Rightarrow> string \<Rightarrow> backup_dir \<Rightarrow> bool \<times> backup_dir" where
  "write_owner_only bk io rng now path content d =
     (let tmp = tmp_name bk rng path;
          cleanup = (\<lambda>d. if io 4 then d\<lparr>bd_files := (bd_files d)(tmp := None)\<rparr> else d)
      in if \<not> bd_exists d \<or> \<not> io 0 \<or> bd_files d tmp \<noteq> None then (False, cleanup d)
         else
           let part = (if io 1 then content else []);
               d' = d\<lparr>bd_files := (bd_files d)(tmp \<mapsto> \<lparr>bf_content = part, bf_modified = now, bf_mode = 384\<rparr>)\<rparr>
           in if io 1 \<and> io 2 \<and> io 3
              then (True, d'\<lparr>bd_files := (bd_files d')(path := bd_files d' tmp, tmp := None)\<rparr>)
              else (False, cleanup d'))"

section \<open>The master key\<close>

definition secure_box :: "nat \<Rightarrow> backup_error + unit" where
  "secure_box n = (if n = 0 then Inl (bk_err ''SecureBox size must be greater than 0'') else Inr ())"

definition mk_new :: "uuid \<Rightarrow> bytes \<Rightarrow> backup_error + master_key" where
  "mk_new fresh material =
     (if length material \<noteq> SM4_KEY_SIZE + HMAC_KEY_SIZE
      then Inl (BkError (Fmt [Lit ''Master key material must be '', Num (SM4_KEY_SIZE + HMAC_KEY_SIZE), Lit '' bytes ('', Num SM4_KEY_SIZE,
                  Lit '' SM4 + '', Num HMAC_KEY_SIZE, Lit '' HMAC), got '', Num (length material)]))
      else and_then (secure_box (length material)) (\<lambda>_. Inr \<lparr>mk_id = fresh, mk_material = material\<rparr>))"

definition mk_generate :: "uuid \<Rightarrow> (nat \<Rightarrow> u8) \<Rightarrow> backup_error + master_key" where
  "mk_generate fresh rng =
     and_then (secure_box (SM4_KEY_SIZE + HMAC_KEY_SIZE)) (\<lambda>_.
       Inr \<lparr>mk_id = fresh, mk_material = fill_bytes rng (SM4_KEY_SIZE + HMAC_KEY_SIZE)\<rparr>)"

text \<open>Slices behind the end of the material panic.\<close>

definition mk_sm4_key :: "master_key \<Rightarrow> backup_error + bytes" where
  "mk_sm4_key mk = (if length (mk_material mk) < SM4_KEY_SIZE then Inl BkPanicked else Inr (take SM4_KEY_SIZE (mk_material mk)))"

definition mk_hmac_key :: "master_key \<Rightarrow> backup_error + bytes" where
  "mk_hmac_key mk = (if length (mk_material mk) < SM4_KEY_SIZE then Inl BkPanicked else Inr (drop SM4_KEY_SIZE (mk_material mk)))"

text \<open>The loop \<open>for _ in 1..iterations\<close>.\<close>

fun kdf_iterate :: "backup_crates \<Rightarrow> bytes \<Rightarrow> nat \<Rightarrow> bytes \<Rightarrow> backup_error + bytes" where
  "kdf_iterate bk buf 0 hash = Inr hash"
| "kdf_iterate bk buf (Suc n) hash =
     and_then (map_err (bk_err_of ''SM3 KDF failed: '') (bk_sm3 bk (hash @ buf))) (kdf_iterate bk buf n)"

definition derive_key_from_passphrase :: "backup_crates \<Rightarrow> string \<Rightarrow> bytes \<Rightarrow> u32 \<Rightarrow> backup_error + bytes" where
  "derive_key_from_passphrase bk passphrase salt iterations =
     and_then (secure_box SM4_KEY_SIZE) (\<lambda>_.
     let buf = salt @ str_bytes passphrase
     in and_then (map_err (bk_err_of ''SM3 KDF failed: '') (bk_sm3 bk buf)) (\<lambda>hash.
        and_then (kdf_iterate bk buf (unat iterations - 1) hash) (\<lambda>hash.
        if length hash < SM4_KEY_SIZE then Inl BkPanicked else Inr (take SM4_KEY_SIZE hash))))"

definition export_encrypted ::
  "'kp crypto \<Rightarrow> backup_crates \<Rightarrow> (nat \<Rightarrow> u8) \<Rightarrow> (nat \<Rightarrow> u8) \<Rightarrow> string \<Rightarrow> u32 \<Rightarrow> master_key \<Rightarrow> backup_error + encrypted_master_key" where
  "export_encrypted cr bk salt_rng nonce_rng passphrase kdf_iterations mk =
     (let salt = fill_bytes salt_rng 32
      in and_then (derive_key_from_passphrase bk passphrase salt kdf_iterations) (\<lambda>derived_key.
         let nonce = fill_bytes nonce_rng SM4_NONCE_SIZE
         in and_then (map_err (bk_err_of ''Failed to create SM4 cipher for export: '') (sm4_cipher_new cr derived_key)) (\<lambda>_.
            and_then (map_err (bk_err_of ''Failed to encrypt master key: '') (sm4_encrypt_gcm cr derived_key (mk_material mk) nonce [])) (\<lambda>(c, tag).
            Inr \<lparr>em_id = mk_id mk, em_encrypted_material = c @ tag, em_nonce = nonce, em_salt = salt,
                 em_kdf_iterations = kdf_iterations\<rparr>))))"

definition import_encrypted :: "'kp crypto \<Rightarrow> backup_crates \<Rightarrow> encrypted_master_key \<Rightarrow> string \<Rightarrow> backup_error + master_key" where
  "import_encrypted cr bk encrypted passphrase =
     and_then (derive_key_from_passphrase bk passphrase (em_salt encrypted) (em_kdf_iterations encrypted)) (\<lambda>derived_key.
     and_then (map_err (bk_err_of ''Failed to create SM4 cipher for import: '') (sm4_cipher_new cr derived_key)) (\<lambda>_.
     let m = em_encrypted_material encrypted
     in if length m < 16 then Inl (bk_err ''Encrypted master key too short'')
        else if length (em_nonce encrypted) \<noteq> 12 then Inl (bk_err ''Invalid nonce length'')
        else and_then (map_err (bk_err_of ''Failed to decrypt master key: '')
                (sm4_decrypt_gcm cr derived_key (take (length m - 16) m) (em_nonce encrypted) [] (drop (length m - 16) m))) (\<lambda>plaintext.
             and_then (secure_box (length plaintext)) (\<lambda>_.
             Inr \<lparr>mk_id = em_id encrypted, mk_material = plaintext\<rparr>))))"

text \<open>What a call that stores the master key draws on.\<close>

record mk_env =
  me_io :: "nat \<Rightarrow> bool"
  me_salt :: "nat \<Rightarrow> u8"
  me_nonce :: "nat \<Rightarrow> u8"
  me_tmp :: "nat \<Rightarrow> u8"
  me_now :: time

definition save_encrypted ::
  "'kp crypto \<Rightarrow> backup_crates \<Rightarrow> mk_env \<Rightarrow> string \<Rightarrow> string \<Rightarrow> u32 \<Rightarrow> master_key \<Rightarrow> backup_dir
   \<Rightarrow> (backup_error + unit) \<times> backup_dir" where
  "save_encrypted cr bk env path passphrase kdf_iterations mk d =
     (case and_then (export_encrypted cr bk (me_salt env) (me_nonce env) passphrase kdf_iterations mk) (\<lambda>encrypted.
             ok_or (bk_err ''Failed to serialize encrypted master key'') (bk_master_json bk encrypted)) of
        Inl e \<Rightarrow> (Inl e, d)
      | Inr json \<Rightarrow>
          if \<not> me_io env 5 then (Inl (bk_err ''Failed to create master key directory''), d)
          else
            let (ok, d') = write_owner_only bk (me_io env) (me_tmp env) (me_now env) path json (d\<lparr>bd_exists := True\<rparr>)
            in (io_check ok ''Failed to write encrypted master key'', d'))"

definition load_encrypted ::
  "'kp crypto \<Rightarrow> backup_crates \<Rightarrow> (nat \<Rightarrow> bool) \<Rightarrow> string \<Rightarrow> string \<Rightarrow> backup_dir \<Rightarrow> backup_error + master_key" where
  "load_encrypted cr bk io path passphrase d =
     and_then (ok_or (bk_err ''Failed to read encrypted master key file'') (if io 6 then bd_files d path else None)) (\<lambda>f.
     and_then (ok_or (bk_err ''Failed to parse encrypted master key file'') (bk_parse_master bk (bf_content f))) (\<lambda>encrypted.
     import_encrypted cr bk encrypted passphrase))"

section \<open>The service\<close>

record backup_config =
  bcf_enabled :: bool
  bcf_backup_path :: string
  bcf_retention_count :: u32
  bcf_retention_days :: u32
  bcf_kdf_iterations :: u32

definition backup_config_default :: backup_config where
  "backup_config_default = \<lparr>bcf_enabled = True, bcf_backup_path = ''/var/kms/backup'', bcf_retention_count = 3,
     bcf_retention_days = 365, bcf_kdf_iterations = 100000\<rparr>"

record backup_record =
  br_key_id :: uuid
  br_backup_id :: uuid
  br_backed_up_at :: time
  br_material_hash :: string

record backup_service =
  bs_config :: backup_config
  bs_master_key :: master_key
  bs_registry :: "backup_record list"

definition bs_new :: "backup_config \<Rightarrow> master_key \<Rightarrow> backup_service" where
  "bs_new config mk = \<lparr>bs_config = config, bs_master_key = mk, bs_registry = []\<rparr>"

definition with_random_master_key :: "uuid \<Rightarrow> (nat \<Rightarrow> u8) \<Rightarrow> backup_config \<Rightarrow> backup_error + backup_service" where
  "with_random_master_key fresh rng config = and_then (mk_generate fresh rng) (\<lambda>mk. Inr (bs_new config mk))"

definition encrypt_with_master :: "'kp crypto \<Rightarrow> backup_service \<Rightarrow> bytes \<Rightarrow> bytes \<Rightarrow> backup_error + bytes" where
  "encrypt_with_master cr bs plaintext nonce =
     and_then (mk_sm4_key (bs_master_key bs)) (\<lambda>k.
     and_then (map_err (bk_err_of ''Failed to create SM4 cipher: '') (sm4_cipher_new cr k)) (\<lambda>_.
     and_then (map_err (bk_err_of ''SM4-GCM encryption failed: '') (sm4_encrypt_gcm cr k plaintext nonce [])) (\<lambda>(c, tag).
     Inr (c @ tag))))"

definition decrypt_with_master :: "'kp crypto \<Rightarrow> backup_service \<Rightarrow> bytes \<Rightarrow> bytes \<Rightarrow> backup_error + bytes" where
  "decrypt_with_master cr bs c nonce =
     (if length c < 16 then Inl (bk_err ''Ciphertext too short for SM4-GCM (need at least 16 bytes for tag)'')
      else
        and_then (mk_sm4_key (bs_master_key bs)) (\<lambda>k.
        and_then (map_err (bk_err_of ''Failed to create SM4 cipher: '') (sm4_cipher_new cr k)) (\<lambda>_.
        map_err (bk_err_of ''SM4-GCM decryption failed: '')
          (sm4_decrypt_gcm cr k (take (length c - 16) c) nonce [] (drop (length c - 16) c)))))"

definition bs_compute_hmac :: "backup_crates \<Rightarrow> backup_service \<Rightarrow> string \<Rightarrow> backup_error + string" where
  "bs_compute_hmac bk bs data =
     and_then (mk_hmac_key (bs_master_key bs)) (\<lambda>k.
       map_err (bk_err_of ''SM3-HMAC computation failed: '') (bk_sm3_hmac_hex bk k (str_bytes data)))"

definition self_check_probe :: string where
  "self_check_probe = ''kms-backup-masterkey-self-check''"

definition bs_self_check :: "'kp crypto \<Rightarrow> backup_crates \<Rightarrow> (nat \<Rightarrow> u8) \<Rightarrow> backup_service \<Rightarrow> backup_error + unit" where
  "bs_self_check cr bk rng bs =
     (let probe = str_bytes self_check_probe; nonce = fill_bytes rng SM4_NONCE_SIZE
      in and_then (encrypt_with_master cr bs probe nonce) (\<lambda>ct.
         and_then (decrypt_with_master cr bs ct nonce) (\<lambda>back.
         if back \<noteq> probe then Inl (bk_err ''backup master key self-check failed: SM4-GCM round-trip mismatch'')
         else and_then (bs_compute_hmac bk bs self_check_probe) (\<lambda>_. Inr ()))))"

definition load_or_create ::
  "'kp crypto \<Rightarrow> backup_crates \<Rightarrow> mk_env \<Rightarrow> uuid \<Rightarrow> (nat \<Rightarrow> u8) \<Rightarrow> (nat \<Rightarrow> u8) \<Rightarrow> backup_config \<Rightarrow> string \<Rightarrow> backup_dir
   \<Rightarrow> (backup_error + backup_service) \<times> backup_dir" where
  "load_or_create cr bk env fresh mk_rng check_rng config passphrase d =
     (if passphrase = [] then (Inl (bk_err ''backup master key passphrase must not be empty''), d)
      else
        then_st
          (if bd_files d MASTER_KEY_FILE \<noteq> None
           then (with_context (Fmt [Lit ''failed to load backup master key from '', Str (bcf_backup_path config),
                                    Lit '' (wrong passphrase or corrupted file)''])
                   (load_encrypted cr bk (me_io env) MASTER_KEY_FILE passphrase d), d)
           else then_st (mk_generate fresh mk_rng, d) (\<lambda>mk d.
                then_st (save_encrypted cr bk env MASTER_KEY_FILE passphrase (bcf_kdf_iterations config) mk d) (\<lambda>_ d.
                (Inr mk, d))))
          (\<lambda>mk d. let svc = bs_new config mk in (and_then (bs_self_check cr bk check_rng svc) (\<lambda>_. Inr svc), d)))"

text \<open>Names of backup files; \<open>timestamp()\<close> is in whole seconds.\<close>

definition dec_int :: "int \<Rightarrow> string" where
  "dec_int i = (if i < 0 then ''-'' @ dec (nat (- i)) else dec (nat i))"

definition backup_filename :: "backup_crates \<Rightarrow> key_backup \<Rightarrow> string" where
  "backup_filename bk backup =
     bk_uuid_str bk (m_id (kb_key_meta backup)) @ ''-'' @ dec_int (as_secs (kb_backed_up_at backup)) @ ''.json''"

text \<open>
  \<open>std::fs::write\<close> creates the file with the default mode; the mode is tightened afterwards, where
  reading the attributes may fail silently.
\<close>

definition save_backup ::
  "backup_crates \<Rightarrow> (nat \<Rightarrow> bool) \<Rightarrow> nat \<Rightarrow> time \<Rightarrow> key_backup \<Rightarrow> backup_service \<Rightarrow> backup_dir \<Rightarrow> (backup_error + unit) \<times> backup_dir" where
  "save_backup bk io default_mode now backup bs d =
     (if \<not> bd_exists d \<and> \<not> io 0 then (Inl (bk_err ''Failed to create backup directory''), d)
      else
        let d = d\<lparr>bd_exists := True\<rparr>
        in case and_then (ok_or (bk_err ''Failed to serialize backup'') (bk_backup_json bk backup)) (\<lambda>data.
                and_then (bs_compute_hmac bk bs data) (\<lambda>signature.
                ok_or (bk_err ''Failed to serialize signed backup'')
                  (bk_signed_json bk \<lparr>sb_data = data, sb_signature = signature\<rparr>))) of
             Inl e \<Rightarrow> (Inl e, d)
           | Inr json \<Rightarrow>
               if \<not> io 1 then (Inl (bk_err ''Failed to write backup file''), d)
               else
                 let path = backup_filename bk backup;
                     mode = (case bd_files d path of Some f \<Rightarrow> bf_mode f | None \<Rightarrow> default_mode);
                     put = (\<lambda>mode. d\<lparr>bd_files := (bd_files d)(path \<mapsto> \<lparr>bf_content = json, bf_modified = now, bf_mode = mode\<rparr>)\<rparr>)
                 in if \<not> io 2 then (Inr (), put mode)
                    else if io 3 then (Inr (), put 384)
                    else (Inl (bk_err ''set_permissions''), put mode))"

text \<open>What a backup draws on.\<close>

record backup_env =
  bv_io :: "nat \<Rightarrow> bool"
  bv_mode :: nat
  bv_now :: time
  bv_written :: time
  bv_nonce :: "nat \<Rightarrow> u8"
  bv_backup_id :: uuid

definition backup_key ::
  "'kp crypto \<Rightarrow> backup_crates \<Rightarrow> backup_env \<Rightarrow> key_meta \<Rightarrow> bytes \<Rightarrow> string option \<Rightarrow> backup_service \<Rightarrow> backup_dir
   \<Rightarrow> (backup_error + key_backup) \<times> backup_service \<times> backup_dir" where
  "backup_key cr bk env meta material description bs d =
     (let nonce = fill_bytes (bv_nonce env) SM4_NONCE_SIZE
      in case and_then (map_err (bk_err_of ''SM3 hash failed: '') (bk_sm3_hex bk material)) (\<lambda>material_hash.
              and_then (encrypt_with_master cr bs material nonce) (\<lambda>encrypted_material.
              Inr \<lparr>kb_version = BACKUP_VERSION, kb_key_meta = meta, kb_encrypted_material = encrypted_material,
                   kb_nonce = nonce, kb_material_hash = material_hash, kb_backed_up_at = bv_now env,
                   kb_description = description\<rparr>)) of
           Inl e \<Rightarrow> (Inl e, bs, d)
         | Inr backup \<Rightarrow>
             let bs' = bs\<lparr>bs_registry := bs_registry bs @
                   [\<lparr>br_key_id = m_id meta, br_backup_id = bv_backup_id env, br_backed_up_at = kb_backed_up_at backup,
                     br_material_hash = kb_material_hash backup\<rparr>]\<rparr>;
                 (r, d') = save_backup bk (bv_io env) (bv_mode env) (bv_written env) backup bs' d
             in (and_then r (\<lambda>_. Inr backup), bs', d'))"

definition restore_key :: "'kp crypto \<Rightarrow> backup_crates \<Rightarrow> backup_service \<Rightarrow> key_backup \<Rightarrow> backup_error + bytes" where
  "restore_key cr bk bs backup =
     (if kb_version backup \<noteq> BACKUP_VERSION
      then Inl (BkError (Fmt [Lit ''Unsupported backup version: '', Num (unat (kb_version backup)), Lit '' (expected '', Num (unat BACKUP_VERSION), Lit '')'']))
      else if length (kb_nonce backup) \<noteq> 12 then Inl (bk_err ''Invalid nonce length in backup'')
      else
        and_then (decrypt_with_master cr bs (kb_encrypted_material backup) (kb_nonce backup)) (\<lambda>key_material.
        and_then (map_err (bk_err_of ''SM3 hash failed: '') (bk_sm3_hex bk key_material)) (\<lambda>computed_hash.
        if computed_hash \<noteq> kb_material_hash backup
        then Inl (BkError (Fmt [Lit ''Key material SM3 integrity check failed for key '', Id (m_id (kb_key_meta backup))]))
        else Inr key_material)))"

definition verify_backup_file :: "backup_crates \<Rightarrow> bool \<Rightarrow> string \<Rightarrow> backup_service \<Rightarrow> backup_dir \<Rightarrow> backup_error + key_backup" where
  "verify_backup_file bk can_read path bs d =
     and_then (ok_or (bk_err ''Failed to read backup file for verification'') (if can_read then bd_files d path else None)) (\<lambda>f.
     and_then (ok_or (bk_err ''Failed to parse signed backup file'') (bk_parse_signed bk (bf_content f))) (\<lambda>signed.
     and_then (bs_compute_hmac bk bs (sb_data signed)) (\<lambda>computed_sig.
     if computed_sig \<noteq> sb_signature signed then Inl (bk_err ''Backup file HMAC signature verification failed'')
     else and_then (ok_or (bk_err ''Failed to parse backup data'') (bk_parse_backup bk (sb_data signed))) (\<lambda>backup.
          if kb_version backup \<noteq> BACKUP_VERSION
          then Inl (BkError (Fmt [Lit ''Backup version mismatch: '', Num (unat (kb_version backup))]))
          else Inr backup))))"

definition restore_from_file ::
  "'kp crypto \<Rightarrow> backup_crates \<Rightarrow> bool \<Rightarrow> string \<Rightarrow> backup_service \<Rightarrow> backup_dir \<Rightarrow> backup_error + key_backup \<times> bytes" where
  "restore_from_file cr bk can_read path bs d =
     and_then (verify_backup_file bk can_read path bs d) (\<lambda>backup.
     and_then (restore_key cr bk bs backup) (\<lambda>material. Inr (backup, material)))"

text \<open>
  Splitting a file name at its last dot; a leading dot does not start an extension. The time stamp
  is what follows the last dash of the stem.
\<close>

definition after_last :: "char \<Rightarrow> string \<Rightarrow> string" where
  "after_last c s = rev (takeWhile (\<lambda>x. x \<noteq> c) (rev s))"

definition file_ext :: "string \<Rightarrow> string option" where
  "file_ext s =
     (let e = after_last CHR ''.'' s
      in if CHR ''.'' \<in> set s \<and> length e + 1 < length s then Some e else None)"

definition file_stem :: "string \<Rightarrow> string" where
  "file_stem s = (case file_ext s of Some e \<Rightarrow> take (length s - length e - 1) s | None \<Rightarrow> s)"

fun dec_parse :: "nat \<Rightarrow> string \<Rightarrow> nat option" where
  "dec_parse a [] = Some a"
| "dec_parse a (c # cs) =
     (let n = of_char c in if 48 \<le> n \<and> n \<le> (57 :: nat) then dec_parse (10 * a + (n - 48)) cs else None)"

definition parse_i64 :: "string \<Rightarrow> int option" where
  "parse_i64 s =
     (let neg = (s \<noteq> [] \<and> hd s = CHR ''-'');
          body = (case s of c # t \<Rightarrow> if c = CHR ''-'' \<or> c = CHR ''+'' then t else s | [] \<Rightarrow> [])
      in if body = [] then None
         else case dec_parse 0 body of
                Some n \<Rightarrow> let i = (if neg then - int n else int n) in if - (2 ^ 63) \<le> i \<and> i < 2 ^ 63 then Some i else None
              | None \<Rightarrow> None)"

text \<open>\<open>mtime\<close> is the modification time in seconds where the attributes can be read.\<close>

definition backup_stamp :: "(string \<Rightarrow> int option) \<Rightarrow> string \<Rightarrow> int" where
  "backup_stamp mtime path =
     (case parse_i64 (after_last CHR ''-'' (file_stem path)) of
        Some i \<Rightarrow> i
      | None \<Rightarrow> (case mtime path of Some t \<Rightarrow> t | None \<Rightarrow> - (2 ^ 63)))"

fun newest_backup ::
  "(string \<Rightarrow> int option) \<Rightarrow> (backup_error + string) list \<Rightarrow> (int \<times> string) option \<Rightarrow> backup_error + (int \<times> string) option" where
  "newest_backup mtime [] newest = Inr newest"
| "newest_backup mtime (Inl e # paths) newest = Inl e"
| "newest_backup mtime (Inr path # paths) newest =
     (if file_ext path \<noteq> Some ''json'' then newest_backup mtime paths newest
      else
        let stamp = backup_stamp mtime path
        in newest_backup mtime paths
             (case newest of None \<Rightarrow> Some (stamp, path) | Some (best, p) \<Rightarrow> if stamp > best then Some (stamp, path) else newest))"

text \<open>\<open>entries\<close> is the listing of the directory, each entry of which can fail to be read.\<close>

definition verify_latest_backup ::
  "'kp crypto \<Rightarrow> backup_crates \<Rightarrow> (backup_error + (backup_error + string) list) \<Rightarrow> (string \<Rightarrow> int option) \<Rightarrow> bool \<Rightarrow> backup_service \<Rightarrow> backup_dir
   \<Rightarrow> backup_error + string option" where
  "verify_latest_backup cr bk entries mtime can_read bs d =
     (if \<not> bd_exists d then Inr None
      else
        and_then (with_context (Fmt [Lit ''failed to read backup directory '', Str (bcf_backup_path (bs_config bs))]) entries) (\<lambda>paths.
        and_then (newest_backup mtime paths None) (\<lambda>newest.
        case newest of
          None \<Rightarrow> Inr None
        | Some (_, path) \<Rightarrow>
            and_then (with_context (Fmt [Lit ''failed to verify backup file '', Str path]) (verify_backup_file bk can_read path bs d)) (\<lambda>backup.
            and_then (with_context (Fmt [Lit ''failed to decrypt backup file '', Str path]) (restore_key cr bk bs backup)) (\<lambda>_.
            Inr (Some path))))))"

definition list_backups :: "backup_service \<Rightarrow> uuid \<Rightarrow> time list" where
  "list_backups bs key_id = map br_backed_up_at (filter (\<lambda>r. br_key_id r = key_id) (bs_registry bs))"

text \<open>A file whose attributes cannot be read is kept; a failed removal ends the call.\<close>

fun cleanup_loop :: "(string \<Rightarrow> bool) \<Rightarrow> (string \<Rightarrow> bool) \<Rightarrow> time \<Rightarrow> (backup_error + string) list \<Rightarrow> nat \<Rightarrow> backup_dir \<Rightarrow> (backup_error + nat) \<times> backup_dir" where
  "cleanup_loop stat rm cutoff [] removed d = (Inr removed, d)"
| "cleanup_loop stat rm cutoff (Inl e # paths) removed d = (Inl e, d)"
| "cleanup_loop stat rm cutoff (Inr path # paths) removed d =
     (case bd_files d path of
        Some f \<Rightarrow>
          if file_ext path = Some ''json'' \<and> stat path \<and> bf_modified f < cutoff then
            (if rm path then cleanup_loop stat rm cutoff paths (Suc removed) (d\<lparr>bd_files := (bd_files d)(path := None)\<rparr>)
             else (Inl (bk_err ''remove_file''), d))
          else cleanup_loop stat rm cutoff paths removed d
      | None \<Rightarrow> cleanup_loop stat rm cutoff paths removed d)"

definition cleanup_old_backups ::
  "time \<Rightarrow> (backup_error + (backup_error + string) list) \<Rightarrow> (string \<Rightarrow> bool) \<Rightarrow> (string \<Rightarrow> bool) \<Rightarrow> backup_service \<Rightarrow> backup_dir
   \<Rightarrow> (backup_error + nat) \<times> backup_dir" where
  "cleanup_old_backups now entries stat rm bs d =
     (let cutoff = now - secs (int (unat (bcf_retention_days (bs_config bs))) * 86400)
      in if bd_exists d
         then (case entries of Inl e \<Rightarrow> (Inl e, d) | Inr paths \<Rightarrow> cleanup_loop stat rm cutoff paths 0 d)
         else (Inr 0, d))"

section \<open>What the crates promise\<close>

definition sm4_works :: "'kp crypto \<Rightarrow> bool" where
  "sm4_works cr \<longleftrightarrow>
     (\<forall>K p n a. length K = 16 \<longrightarrow> sm4_cipher_new cr K = Inr () \<and>
        (\<exists>c t. sm4_encrypt_gcm cr K p n a = Inr (c, t) \<and> length t = 16 \<and> sm4_decrypt_gcm cr K c n a t = Inr p))"

definition sm3_works :: "backup_crates \<Rightarrow> bool" where
  "sm3_works bk \<longleftrightarrow>
     (\<forall>b. (\<exists>h. bk_sm3 bk b = Inr h \<and> length h = 32) \<and> is_ok (bk_sm3_hex bk b) \<and> (\<forall>k. is_ok (bk_sm3_hmac_hex bk k b)))"

text \<open>What has been encoded is decoded to the same value.\<close>

definition json_works :: "backup_crates \<Rightarrow> bool" where
  "json_works bk \<longleftrightarrow>
     (\<forall>b s. bk_backup_json bk b = Some s \<longrightarrow> bk_parse_backup bk s = Some b)
     \<and> (\<forall>b s. bk_signed_json bk b = Some s \<longrightarrow> bk_parse_signed bk s = Some b)
     \<and> (\<forall>b s. bk_master_json bk b = Some s \<longrightarrow> bk_parse_master bk s = Some b)"

lemma sm4_worksE:
  assumes "sm4_works cr" "length K = 16"
  obtains c t where "sm4_cipher_new cr K = Inr ()" "sm4_encrypt_gcm cr K p n a = Inr (c, t)" "length t = 16"
    "sm4_decrypt_gcm cr K c n a t = Inr p"
  using assms unfolding sm4_works_def by blast

lemma json_backup: "json_works bk \<Longrightarrow> bk_backup_json bk b = Some s \<Longrightarrow> bk_parse_backup bk s = Some b"
  unfolding json_works_def by blast

lemma json_signed: "json_works bk \<Longrightarrow> bk_signed_json bk b = Some s \<Longrightarrow> bk_parse_signed bk s = Some b"
  unfolding json_works_def by blast

lemma json_master: "json_works bk \<Longrightarrow> bk_master_json bk b = Some s \<Longrightarrow> bk_parse_master bk s = Some b"
  unfolding json_works_def by blast

section \<open>Backup and restore\<close>

lemma master_roundtrip:
  assumes "sm4_works cr" "16 \<le> length (mk_material (bs_master_key bs))"
    and "encrypt_with_master cr bs p n = Inr c" "bs_master_key bs' = bs_master_key bs"
  shows "decrypt_with_master cr bs' c n = Inr p"
proof -
  let ?k = "take 16 (mk_material (bs_master_key bs))"
  have "length ?k = 16" using assms(2) by simp
  from sm4_worksE [OF assms(1) this] obtain c' t where c: "sm4_cipher_new cr ?k = Inr ()"
    "sm4_encrypt_gcm cr ?k p n [] = Inr (c', t)" "length t = 16" "sm4_decrypt_gcm cr ?k c' n [] t = Inr p" by blast
  with assms(2,3) have "c = c' @ t"
    by (simp add: encrypt_with_master_def mk_sm4_key_def SM4_KEY_SIZE_def)
  with c assms(2,4) show ?thesis
    by (simp add: decrypt_with_master_def mk_sm4_key_def SM4_KEY_SIZE_def)
qed

lemma backup_key_Inr:
  assumes "backup_key cr bk env meta material desc bs d = (Inr b, bs', d')"
  shows "\<exists>h e. bk_sm3_hex bk material = Inr h \<and> encrypt_with_master cr bs material (fill_bytes (bv_nonce env) 12) = Inr e
     \<and> b = \<lparr>kb_version = 2, kb_key_meta = meta, kb_encrypted_material = e, kb_nonce = fill_bytes (bv_nonce env) 12,
            kb_material_hash = h, kb_backed_up_at = bv_now env, kb_description = desc\<rparr>
     \<and> bs_master_key bs' = bs_master_key bs
     \<and> save_backup bk (bv_io env) (bv_mode env) (bv_written env) b bs' d = (Inr (), d')"
  using assms
  by (auto simp: backup_key_def Let_def SM4_NONCE_SIZE_def BACKUP_VERSION_def and_then_Inr split: sum.splits prod.splits)

lemma compute_hmac_cong: "bs_master_key bs' = bs_master_key bs \<Longrightarrow> bs_compute_hmac bk bs' = bs_compute_hmac bk bs"
  by (simp add: bs_compute_hmac_def [abs_def])

lemma save_backup_Inr:
  assumes "save_backup bk io mode now b bs d = (Inr (), d')"
  shows "\<exists>data sig json m. bk_backup_json bk b = Some data \<and> bs_compute_hmac bk bs data = Inr sig
     \<and> bk_signed_json bk \<lparr>sb_data = data, sb_signature = sig\<rparr> = Some json \<and> bd_exists d'
     \<and> bd_files d' = (bd_files d)(backup_filename bk b \<mapsto> \<lparr>bf_content = json, bf_modified = now, bf_mode = m\<rparr>)"
  using assms by (auto simp: save_backup_def Let_def and_then_Inr split: if_splits sum.splits)

lemma saved_backup_restores:
  assumes "sm4_works cr" "json_works bk" "16 \<le> length (mk_material (bs_master_key bs))"
    and "backup_key cr bk env meta material desc bs d = (Inr b, bs', d')"
    and "bs_master_key rs = bs_master_key bs" "bd_files e (backup_filename bk b) = bd_files d' (backup_filename bk b)"
  shows "restore_from_file cr bk True (backup_filename bk b) rs e = Inr (b, material)"
proof -
  obtain h c where h: "bk_sm3_hex bk material = Inr h" and c: "encrypt_with_master cr bs material (fill_bytes (bv_nonce env) 12) = Inr c"
    and b: "b = \<lparr>kb_version = 2, kb_key_meta = meta, kb_encrypted_material = c, kb_nonce = fill_bytes (bv_nonce env) 12,
            kb_material_hash = h, kb_backed_up_at = bv_now env, kb_description = desc\<rparr>"
    and bs': "bs_master_key bs' = bs_master_key bs"
    and sv: "save_backup bk (bv_io env) (bv_mode env) (bv_written env) b bs' d = (Inr (), d')"
    using backup_key_Inr [OF assms(4)] by blast
  obtain data sig json m where s: "bk_backup_json bk b = Some data" "bs_compute_hmac bk bs' data = Inr sig"
    "bk_signed_json bk \<lparr>sb_data = data, sb_signature = sig\<rparr> = Some json"
    "bd_files d' (backup_filename bk b) = Some \<lparr>bf_content = json, bf_modified = bv_written env, bf_mode = m\<rparr>"
    using save_backup_Inr [OF sv] by auto
  have "bs_compute_hmac bk rs data = Inr sig"
    using s(2) compute_hmac_cong [of rs bs' bk] bs' assms(5) by simp
  then have "verify_backup_file bk True (backup_filename bk b) rs e = Inr b"
    using s(4) json_backup [OF assms(2) s(1)] json_signed [OF assms(2) s(3)] assms(6)
    by (simp add: verify_backup_file_def b BACKUP_VERSION_def)
  moreover have "restore_key cr bk rs b = Inr material"
    using master_roundtrip [OF assms(1,3) c assms(5)] h by (simp add: restore_key_def b BACKUP_VERSION_def)
  ultimately show ?thesis
    by (simp add: restore_from_file_def)
qed

text \<open>
  C18. A backup that was taken can be restored: as long as its file is left alone, every service with
  the same master key gets from it the metadata, the description and the material that were backed up.
\<close>

theorem backup_restores:
  assumes "sm4_works cr" "json_works bk" "16 \<le> length (mk_material (bs_master_key bs))"
    and "backup_key cr bk env meta material desc bs d = (Inr b, bs', d')"
    and "bs_master_key rs = bs_master_key bs" "bd_files e (backup_filename bk b) = bd_files d' (backup_filename bk b)"
  shows "restore_from_file cr bk True (backup_filename bk b) rs e = Inr (b, material)
     \<and> kb_key_meta b = meta \<and> kb_description b = desc"
  using saved_backup_restores [OF assms] backup_key_Inr [OF assms(4)] by auto

text \<open>
  Two backups of a key within one second go to the same file: the earlier one is overwritten, and
  restoring it returns the later material.
\<close>

theorem same_second_backup_lost:
  assumes "sm4_works cr" "json_works bk" "16 \<le> length (mk_material (bs_master_key bs))"
    and "backup_key cr bk env meta material desc bs d = (Inr b, bs', d')"
    and "backup_key cr bk env' meta' material' desc' bs' d' = (Inr b', bs'', d'')"
    and "m_id meta' = m_id meta" "as_secs (bv_now env') = as_secs (bv_now env)"
  shows "restore_from_file cr bk True (backup_filename bk b) bs'' d'' = Inr (b', material')"
proof -
  have m: "bs_master_key bs' = bs_master_key bs" "bs_master_key bs'' = bs_master_key bs'"
    using backup_key_Inr [OF assms(4)] backup_key_Inr [OF assms(5)] by blast+
  have "restore_from_file cr bk True (backup_filename bk b') bs'' d'' = Inr (b', material')"
    by (rule saved_backup_restores [OF assms(1,2) _ assms(5)]) (use assms(3) m in simp_all)
  moreover have "backup_filename bk b' = backup_filename bk b"
    using backup_key_Inr [OF assms(4)] backup_key_Inr [OF assms(5)] assms(6,7) by (auto simp: backup_filename_def)
  ultimately show ?thesis by simp
qed

text \<open>
  The registry counts backups that were not written: when the file cannot be written the call
  fails, and yet the backup is listed.
\<close>

theorem failed_backup_listed:
  assumes "sm4_works cr" "sm3_works bk" "16 \<le> length (mk_material (bs_master_key bs))"
    and "bd_exists d" "\<not> bv_io env 1" "backup_key cr bk env meta material desc bs d = (r, bs', d')"
  shows "\<not> is_ok r \<and> bd_files d' = bd_files d \<and> list_backups bs' (m_id meta) = list_backups bs (m_id meta) @ [bv_now env]"
proof -
  let ?k = "take 16 (mk_material (bs_master_key bs))"
  have "length ?k = 16" using assms(3) by simp
  from sm4_worksE [OF assms(1) this] obtain c t where "sm4_cipher_new cr ?k = Inr ()"
    "sm4_encrypt_gcm cr ?k material (fill_bytes (bv_nonce env) 12) [] = Inr (c, t)" by blast
  moreover obtain h where "bk_sm3_hex bk material = Inr h"
    using assms(2) by (auto simp: sm3_works_def is_ok_iff)
  ultimately show ?thesis
    using assms(3-6)
    by (auto simp: backup_key_def encrypt_with_master_def mk_sm4_key_def SM4_KEY_SIZE_def SM4_NONCE_SIZE_def Let_def
        save_backup_def list_backups_def is_ok_def split: sum.splits prod.splits if_splits)
qed

section \<open>The master key\<close>

lemma kdf_total:
  assumes "sm3_works bk" "length h = 32"
  shows "\<exists>h'. kdf_iterate bk buf n h = Inr h' \<and> length h' = 32"
  using assms(2)
proof (induction n arbitrary: h)
  case (Suc n)
  obtain h' where "bk_sm3 bk (h @ buf) = Inr h'" "length h' = 32"
    using assms(1) unfolding sm3_works_def by blast
  with Suc.IH [of h'] show ?case by simp
qed simp

lemma derive_total:
  assumes "sm3_works bk"
  shows "\<exists>k. derive_key_from_passphrase bk pw salt n = Inr k \<and> length k = 16"
proof -
  obtain h where h: "bk_sm3 bk (salt @ str_bytes pw) = Inr h" "length h = 32"
    using assms unfolding sm3_works_def by blast
  then obtain h' where "kdf_iterate bk (salt @ str_bytes pw) (unat n - 1) h = Inr h'" "length h' = 32"
    using kdf_total [OF assms] by blast
  with h show ?thesis
    by (simp add: derive_key_from_passphrase_def secure_box_def SM4_KEY_SIZE_def)
qed

lemma export_import:
  assumes "sm4_works cr" "sm3_works bk" "mk_material mk \<noteq> []"
    and "export_encrypted cr bk salt_rng nonce_rng pw n mk = Inr em"
  shows "import_encrypted cr bk em pw = Inr mk"
proof -
  obtain k where k: "derive_key_from_passphrase bk pw (fill_bytes salt_rng 32) n = Inr k" "length k = 16"
    using derive_total [OF assms(2)] by blast
  from sm4_worksE [OF assms(1) k(2)] obtain c t where c: "sm4_cipher_new cr k = Inr ()"
    "sm4_encrypt_gcm cr k (mk_material mk) (fill_bytes nonce_rng 12) [] = Inr (c, t)" "length t = 16"
    "sm4_decrypt_gcm cr k c (fill_bytes nonce_rng 12) [] t = Inr (mk_material mk)" by blast
  then show ?thesis
    using assms(3,4) k
    by (auto simp: export_encrypted_def import_encrypted_def Let_def SM4_NONCE_SIZE_def secure_box_def)
qed

lemma self_check_passes:
  assumes "sm4_works cr" "sm3_works bk" "16 \<le> length (mk_material (bs_master_key bs))"
  shows "bs_self_check cr bk rng bs = Inr ()"
proof -
  let ?k = "take 16 (mk_material (bs_master_key bs))"
  have "length ?k = 16" using assms(3) by simp
  from sm4_worksE [OF assms(1) this] obtain c t where "sm4_cipher_new cr ?k = Inr ()"
    "sm4_encrypt_gcm cr ?k (str_bytes self_check_probe) (fill_bytes rng 12) [] = Inr (c, t)" by blast
  then have e: "encrypt_with_master cr bs (str_bytes self_check_probe) (fill_bytes rng 12) = Inr (c @ t)"
    using assms(3) by (simp add: encrypt_with_master_def mk_sm4_key_def SM4_KEY_SIZE_def)
  moreover obtain h where "bs_compute_hmac bk bs self_check_probe = Inr h"
    using assms(2,3) by (auto simp: bs_compute_hmac_def mk_hmac_key_def SM4_KEY_SIZE_def sm3_works_def is_ok_iff)
  ultimately show ?thesis
    using master_roundtrip [OF assms(1,3) e refl] by (simp add: bs_self_check_def SM4_NONCE_SIZE_def)
qed

lemma write_owner_only_True:
  assumes "write_owner_only bk io rng now path content d = (True, d')"
  shows "bd_files d' path = Some \<lparr>bf_content = content, bf_modified = now, bf_mode = 384\<rparr>"
proof -
  have "tmp_name bk rng path \<noteq> path"
  proof
    assume "tmp_name bk rng path = path"
    then have "length (tmp_name bk rng path) = length path" by simp
    then show False by (simp add: tmp_name_def)
  qed
  with assms show ?thesis
    by (auto simp: write_owner_only_def Let_def split: if_splits)
qed

text \<open>
  C24. The master key survives restarts: after a first start has created it, every later start with the
  same passphrase that finds the file as it was gets the same master key and changes nothing on disk.
\<close>

theorem master_key_survives_restart:
  assumes "sm4_works cr" "sm3_works bk" "json_works bk" "bd_files d MASTER_KEY_FILE = None"
    and "load_or_create cr bk env fresh mk_rng check_rng config pw d = (Inr svc, d1)"
    and "bd_files d2 MASTER_KEY_FILE = bd_files d1 MASTER_KEY_FILE" "me_io env2 6"
  shows "\<exists>svc2. load_or_create cr bk env2 fresh2 mk_rng2 check_rng2 config2 pw d2 = (Inr svc2, d2)
     \<and> bs_master_key svc2 = bs_master_key svc"
proof -
  define mk where "mk = \<lparr>mk_id = fresh, mk_material = fill_bytes mk_rng 48\<rparr>"
  have pw: "pw \<noteq> []"
    using assms(5) by (auto simp: load_or_create_def)
  have gen: "mk_generate fresh mk_rng = Inr mk"
    by (simp add: mk_generate_def secure_box_def SM4_KEY_SIZE_def HMAC_KEY_SIZE_def mk_def)
  have run: "then_st (save_encrypted cr bk env MASTER_KEY_FILE pw (bcf_kdf_iterations config) mk d)
      (\<lambda>_ d. (and_then (bs_self_check cr bk check_rng (bs_new config mk)) (\<lambda>_. Inr (bs_new config mk)), d)) = (Inr svc, d1)"
    using assms(4,5) pw gen
    by (simp add: load_or_create_def then_st_def Let_def split: prod.splits sum.splits)
  then have save: "save_encrypted cr bk env MASTER_KEY_FILE pw (bcf_kdf_iterations config) mk d = (Inr (), d1)"
    and svc: "svc = bs_new config mk"
    by (auto simp: then_st_Inr and_then_Inr)
  then obtain em json where em: "export_encrypted cr bk (me_salt env) (me_nonce env) pw (bcf_kdf_iterations config) mk = Inr em"
    "bk_master_json bk em = Some json"
    and w: "write_owner_only bk (me_io env) (me_tmp env) (me_now env) MASTER_KEY_FILE json (d\<lparr>bd_exists := True\<rparr>) = (True, d1)"
    by (auto simp: save_encrypted_def and_then_Inr io_check_def split: sum.splits if_splits prod.splits)
  have master_file: "bd_files d2 MASTER_KEY_FILE = Some \<lparr>bf_content = json, bf_modified = me_now env, bf_mode = 384\<rparr>"
    using write_owner_only_True [OF w] assms(6) by simp
  have mat: "mk_material mk \<noteq> []"
    by (metis length_fill_bytes list.size(3) master_key.select_convs(2) mk_def zero_neq_numeral)
  have "load_encrypted cr bk (me_io env2) MASTER_KEY_FILE pw d2 = Inr mk"
    using master_file assms(7) json_master [OF assms(3) em(2)] export_import [OF assms(1,2) mat em(1)]
    by (simp add: load_encrypted_def)
  moreover have "bs_self_check cr bk check_rng2 (bs_new config2 mk) = Inr ()"
    by (rule self_check_passes [OF assms(1,2)]) (simp add: bs_new_def mk_def)
  ultimately show ?thesis
    using pw master_file svc by (simp add: load_or_create_def Let_def bs_new_def)
qed

text \<open>
  An existing master key is never replaced: whatever the passphrase and whatever fails, a start that
  finds the file leaves the directory as it is.
\<close>

theorem master_key_never_replaced:
  assumes "bd_files d MASTER_KEY_FILE \<noteq> None"
  shows "snd (load_or_create cr bk env fresh mk_rng check_rng config pw d) = d"
  using assms by (auto simp: load_or_create_def then_st_def Let_def split: sum.splits)

section \<open>A small instance\<close>

definition mini_sm4 :: "bytes crypto" where
  "mini_sm4 = demo_crypto\<lparr>sm4_cipher_new := (\<lambda>_. Inr ()), sm4_encrypt_gcm := (\<lambda>k p n a. Inr (p, replicate 16 0)),
     sm4_decrypt_gcm := (\<lambda>k c n a t. Inr c)\<rparr>"

definition mini_mk :: master_key where
  "mini_mk = \<lparr>mk_id = 3, mk_material = replicate 48 0\<rparr>"

definition mini_bs :: backup_service where
  "mini_bs = bs_new backup_config_default mini_mk"

definition mini_dir :: backup_dir where
  "mini_dir = \<lparr>bd_exists = True, bd_files = Map.empty\<rparr>"

definition mini_backup_meta :: key_meta where
  "mini_backup_meta = \<lparr>m_id = 5, m_tenant_id = ''acme'', m_name = ''k'', m_spec = Sm4, m_status = Active, m_created_at = 0,
     m_rotated_at = None, m_version = 1, m_description = None, m_metadata = key_metadata_default\<rparr>"

definition mini_kb :: "u8 \<Rightarrow> key_backup" where
  "mini_kb x = \<lparr>kb_version = 2, kb_key_meta = mini_backup_meta, kb_encrypted_material = x # replicate 16 0,
     kb_nonce = replicate 12 0, kb_material_hash = ''h'', kb_backed_up_at = 0, kb_description = None\<rparr>"

definition mini_em :: encrypted_master_key where
  "mini_em = \<lparr>em_id = 3, em_encrypted_material = replicate 48 0 @ replicate 16 0, em_nonce = replicate 12 0,
     em_salt = replicate 32 0, em_kdf_iterations = 100000\<rparr>"

definition mini_bk :: backup_crates where
  "mini_bk = \<lparr>bk_sm3 = (\<lambda>_. Inr (replicate 32 0)), bk_sm3_hex = (\<lambda>_. Inr ''h''), bk_sm3_hmac_hex = (\<lambda>k d. Inr ''s''),
     bk_hex = (\<lambda>_. ''x''), bk_uuid_str = (\<lambda>_. ''u''),
     bk_backup_json = (\<lambda>b. if b = mini_kb 1 then Some ''1'' else if b = mini_kb 2 then Some ''2'' else None),
     bk_parse_backup = (\<lambda>s. if s = ''1'' then Some (mini_kb 1) else if s = ''2'' then Some (mini_kb 2) else None),
     bk_signed_json = (\<lambda>b. if sb_signature b = ''s'' then Some (sb_data b) else None),
     bk_parse_signed = (\<lambda>s. Some \<lparr>sb_data = s, sb_signature = ''s''\<rparr>),
     bk_master_json = (\<lambda>b. if b = mini_em then Some ''m'' else None),
     bk_parse_master = (\<lambda>s. Some mini_em)\<rparr>"

definition mini_benv :: backup_env where
  "mini_benv = \<lparr>bv_io = (\<lambda>_. True), bv_mode = 420, bv_now = 0, bv_written = 0, bv_nonce = (\<lambda>_. 0), bv_backup_id = 9\<rparr>"

lemma fill_zero: "fill_bytes (\<lambda>_. x) n = replicate n x"
  by (simp add: fill_bytes_def map_replicate_const)

lemma mini_sm4_works: "sm4_works mini_sm4"
  by (simp add: sm4_works_def mini_sm4_def demo_crypto_def)

lemma mini_sm3_works: "sm3_works mini_bk"
  by (simp add: sm3_works_def mini_bk_def)

lemma mini_json_works: "json_works mini_bk"
  unfolding json_works_def
  by (intro conjI allI) (auto simp: mini_bk_def mini_kb_def)

lemma mini_backup:
  assumes "x = 1 \<or> x = 2"
  shows "\<exists>bs' d'. backup_key mini_sm4 mini_bk mini_benv mini_backup_meta [x] None (bs\<lparr>bs_master_key := mini_mk\<rparr>) d = (Inr (mini_kb x), bs', d')
     \<and> bs_master_key bs' = mini_mk"
  using assms
  by (auto simp: backup_key_def save_backup_def bs_compute_hmac_def encrypt_with_master_def mk_sm4_key_def mk_hmac_key_def
      mini_sm4_def mini_bk_def mini_benv_def mini_mk_def mini_kb_def SM4_KEY_SIZE_def SM4_NONCE_SIZE_def BACKUP_VERSION_def
      str_bytes_def Let_def fill_zero)

lemma mini_bs_master: "bs_master_key mini_bs = mini_mk" "mini_bs\<lparr>bs_master_key := mini_mk\<rparr> = mini_bs"
  by (simp_all add: mini_bs_def bs_new_def)

lemma mini_material: "16 \<le> length (mk_material mini_mk)"
  by (simp add: mini_mk_def)

theorem backup_restores_witness:
  "\<exists>bs' d'. backup_key mini_sm4 mini_bk mini_benv mini_backup_meta [1] None mini_bs mini_dir = (Inr (mini_kb 1), bs', d')
     \<and> restore_from_file mini_sm4 mini_bk True (backup_filename mini_bk (mini_kb 1)) mini_bs d' = Inr (mini_kb 1, [1])
     \<and> kb_key_meta (mini_kb 1) = mini_backup_meta \<and> kb_description (mini_kb 1) = None"
proof -
  obtain bs' d' where b: "backup_key mini_sm4 mini_bk mini_benv mini_backup_meta [1] None mini_bs mini_dir = (Inr (mini_kb 1), bs', d')"
    using mini_backup [of 1 mini_bs mini_dir] by (auto simp: mini_bs_master)
  then show ?thesis
    using backup_restores [OF mini_sm4_works mini_json_works _ b, of mini_bs d'] mini_material by (simp add: mini_bs_master)
qed

theorem same_second_backup_lost_witness:
  "\<exists>bs' d' bs'' d''. backup_key mini_sm4 mini_bk mini_benv mini_backup_meta [1] None mini_bs mini_dir = (Inr (mini_kb 1), bs', d')
     \<and> backup_key mini_sm4 mini_bk mini_benv mini_backup_meta [2] None bs' d' = (Inr (mini_kb 2), bs'', d'')
     \<and> restore_from_file mini_sm4 mini_bk True (backup_filename mini_bk (mini_kb 1)) bs'' d'' = Inr (mini_kb 2, [2])"
proof -
  obtain bs' d' where b: "backup_key mini_sm4 mini_bk mini_benv mini_backup_meta [1] None mini_bs mini_dir = (Inr (mini_kb 1), bs', d')"
    "bs_master_key bs' = mini_mk"
    using mini_backup [of 1 mini_bs mini_dir] by (auto simp: mini_bs_master)
  moreover have "bs'\<lparr>bs_master_key := mini_mk\<rparr> = bs'"
    using b(2) by simp
  then obtain bs'' d'' where "backup_key mini_sm4 mini_bk mini_benv mini_backup_meta [2] None bs' d' = (Inr (mini_kb 2), bs'', d'')"
    using mini_backup [of 2 bs' d'] by auto
  ultimately show ?thesis
    using same_second_backup_lost [OF mini_sm4_works mini_json_works _ b(1)] mini_material by (auto simp: mini_bs_master)
qed

theorem failed_backup_listed_witness:
  "\<exists>r bs' d'. backup_key mini_sm4 mini_bk (mini_benv\<lparr>bv_io := (\<lambda>_. False)\<rparr>) mini_backup_meta [1] None mini_bs mini_dir = (r, bs', d')
     \<and> \<not> is_ok r \<and> bd_files d' = bd_files mini_dir
     \<and> list_backups bs' (m_id mini_backup_meta) = list_backups mini_bs (m_id mini_backup_meta) @ [0]"
proof -
  obtain r bs' d' where b: "backup_key mini_sm4 mini_bk (mini_benv\<lparr>bv_io := (\<lambda>_. False)\<rparr>) mini_backup_meta [1] None mini_bs mini_dir = (r, bs', d')"
    by (metis surj_pair)
  then show ?thesis
    using failed_backup_listed [OF mini_sm4_works mini_sm3_works _ _ _ b] mini_material
    by (simp add: mini_bs_master mini_dir_def mini_benv_def)
qed

definition mini_menv :: mk_env where
  "mini_menv = \<lparr>me_io = (\<lambda>_. True), me_salt = (\<lambda>_. 0), me_nonce = (\<lambda>_. 0), me_tmp = (\<lambda>_. 0), me_now = 0\<rparr>"

lemma mini_export: "export_encrypted mini_sm4 mini_bk (\<lambda>_. 0) (\<lambda>_. 0) ''pw'' 100000 mini_mk = Inr mini_em"
proof -
  obtain k where "derive_key_from_passphrase mini_bk ''pw'' (replicate 32 0) 100000 = Inr k"
    using derive_total [OF mini_sm3_works] by blast
  then show ?thesis
    by (simp add: export_encrypted_def fill_zero mini_sm4_def mini_em_def mini_mk_def SM4_NONCE_SIZE_def)
qed

lemma mini_first_start:
  "\<exists>d1. load_or_create mini_sm4 mini_bk mini_menv 3 (\<lambda>_. 0) (\<lambda>_. 0) backup_config_default ''pw'' mini_dir = (Inr mini_bs, d1)"
proof -
  have "mk_generate 3 (\<lambda>_. 0) = Inr mini_mk"
    by (simp add: mk_generate_def secure_box_def SM4_KEY_SIZE_def HMAC_KEY_SIZE_def mini_mk_def fill_zero)
  moreover have "bs_self_check mini_sm4 mini_bk (\<lambda>_. 0) mini_bs = Inr ()"
    by (rule self_check_passes [OF mini_sm4_works mini_sm3_works]) (simp add: mini_bs_master mini_material)
  moreover have "bk_master_json mini_bk mini_em = Some ''m''"
    by (simp add: mini_bk_def)
  ultimately show ?thesis
    using mini_export
    by (simp add: load_or_create_def save_encrypted_def write_owner_only_def mini_menv_def mini_dir_def Let_def io_check_def
        backup_config_default_def mini_bs_def)
qed

theorem master_key_survives_restart_witness:
  "\<exists>d1 svc2. load_or_create mini_sm4 mini_bk mini_menv 3 (\<lambda>_. 0) (\<lambda>_. 0) backup_config_default ''pw'' mini_dir = (Inr mini_bs, d1)
     \<and> load_or_create mini_sm4 mini_bk mini_menv 4 (\<lambda>_. 1) (\<lambda>_. 1) backup_config_default ''pw'' d1 = (Inr svc2, d1)
     \<and> bs_master_key svc2 = bs_master_key mini_bs"
proof -
  obtain d1 where d1: "load_or_create mini_sm4 mini_bk mini_menv 3 (\<lambda>_. 0) (\<lambda>_. 0) backup_config_default ''pw'' mini_dir = (Inr mini_bs, d1)"
    using mini_first_start by blast
  then show ?thesis
    using master_key_survives_restart [OF mini_sm4_works mini_sm3_works mini_json_works _ d1, of d1 mini_menv]
    by (auto simp: mini_dir_def mini_menv_def)
qed

theorem master_key_never_replaced_witness:
  "snd (load_or_create mini_sm4 mini_bk mini_menv 4 (\<lambda>_. 1) (\<lambda>_. 1) backup_config_default ''other''
     (mini_dir\<lparr>bd_files := [MASTER_KEY_FILE \<mapsto> \<lparr>bf_content = ''m'', bf_modified = 0, bf_mode = 384\<rparr>]\<rparr>))
   = mini_dir\<lparr>bd_files := [MASTER_KEY_FILE \<mapsto> \<lparr>bf_content = ''m'', bf_modified = 0, bf_mode = 384\<rparr>]\<rparr>"
  by (rule master_key_never_replaced) simp

section \<open>The newest backup and retention\<close>

lemma newest_backup_max:
  assumes "newest_backup mtime entries acc = Inr r"
  shows "(\<forall>p. Inr p \<in> set entries \<and> file_ext p = Some ''json'' \<longrightarrow> (\<exists>t q. r = Some (t, q) \<and> backup_stamp mtime p \<le> t))
     \<and> (\<forall>t q. acc = Some (t, q) \<longrightarrow> (\<exists>t' q'. r = Some (t', q') \<and> t \<le> t'))
     \<and> (\<forall>t q. r = Some (t, q) \<longrightarrow> acc = Some (t, q) \<or> (Inr q \<in> set entries \<and> file_ext q = Some ''json'' \<and> t = backup_stamp mtime q))"
  using assms
proof (induction mtime entries acc rule: newest_backup.induct)
  case (3 mtime path paths newest)
  show ?case
  proof (cases "file_ext path = Some ''json''")
    case True
    let ?s = "backup_stamp mtime path"
    let ?acc = "case newest of None \<Rightarrow> Some (?s, path) | Some (best, p) \<Rightarrow> if ?s > best then Some (?s, path) else newest"
    have step: "newest_backup mtime paths ?acc = Inr r"
      using 3(3) True by (simp add: Let_def)
    note IH = 3(2) [OF _ refl step, simplified True, simplified]
    have acc: "\<exists>t q. ?acc = Some (t, q) \<and> ?s \<le> t" "\<forall>t q. newest = Some (t, q) \<longrightarrow> (\<exists>t' q'. ?acc = Some (t', q') \<and> t \<le> t')"
      "\<forall>t q. ?acc = Some (t, q) \<longrightarrow> newest = Some (t, q) \<or> (q = path \<and> t = ?s)"
      by (auto split: option.splits)
    obtain t0 q0 where a0: "?acc = Some (t0, q0)" "?s \<le> t0"
      using acc(1) by blast
    obtain t1 q1 where r: "r = Some (t1, q1)" "t0 \<le> t1"
      using IH a0(1) by blast
    have "\<forall>t q. newest = Some (t, q) \<longrightarrow> t \<le> t0"
      using acc(2) a0(1) by auto
    moreover have "(newest = Some (t1, q1) \<or> (q1 = path \<and> t1 = ?s)) \<or> (Inr q1 \<in> set paths \<and> file_ext q1 = Some ''json'' \<and> t1 = backup_stamp mtime q1)"
      using IH acc(3) r(1) by blast
    moreover have "\<forall>p. Inr p \<in> set paths \<and> file_ext p = Some ''json'' \<longrightarrow> backup_stamp mtime p \<le> t1"
      using IH r(1) by auto
    ultimately show ?thesis
      using r a0 True by fastforce
  next
    case False
    then have "newest_backup mtime paths newest = Inr r"
      using 3(3) by simp
    with 3(1) False show ?thesis by auto
  qed
qed auto

text \<open>
  The check of the newest backup is sound and complete: the file it reports is a listed backup whose
  time stamp no other listed backup exceeds, and the key in it can be restored; it reports none only
  when the directory lists no backup.
\<close>

theorem latest_backup_checked:
  assumes "bd_exists d" "verify_latest_backup cr bk (Inr entries) mtime can bs d = Inr r"
  shows "case r of
      None \<Rightarrow> (\<nexists>p. Inr p \<in> set entries \<and> file_ext p = Some ''json'')
    | Some path \<Rightarrow> Inr path \<in> set entries \<and> file_ext path = Some ''json''
        \<and> (\<forall>p. Inr p \<in> set entries \<and> file_ext p = Some ''json'' \<longrightarrow> backup_stamp mtime p \<le> backup_stamp mtime path)
        \<and> is_ok (restore_from_file cr bk can path bs d)"
proof -
  obtain newest where n: "newest_backup mtime entries None = Inr newest"
    using assms by (auto simp: verify_latest_backup_def and_then_Inr)
  note max = newest_backup_max [OF n]
  show ?thesis
  proof (cases newest)
    case None
    then have "r = None"
      using assms n by (simp add: verify_latest_backup_def)
    then show ?thesis using max None by auto
  next
    case (Some tq)
    obtain t path where tq: "tq = (t, path)" by (cases tq)
    then have r: "r = Some path" "is_ok (restore_from_file cr bk can path bs d)"
      using assms n Some by (auto simp: verify_latest_backup_def and_then_Inr restore_from_file_def)
    then show ?thesis
      using max Some tq by auto
  qed
qed

theorem latest_backup_checked_witness:
  "\<exists>bs' d'. backup_key mini_sm4 mini_bk mini_benv mini_backup_meta [1] None mini_bs mini_dir = (Inr (mini_kb 1), bs', d')
     \<and> is_ok (restore_from_file mini_sm4 mini_bk True ''u-0.json'' mini_bs d')"
proof -
  obtain bs' d' where b: "backup_key mini_sm4 mini_bk mini_benv mini_backup_meta [1] None mini_bs mini_dir = (Inr (mini_kb 1), bs', d')"
    using mini_backup [of 1 mini_bs mini_dir] by (auto simp: mini_bs_master)
  have nm: "backup_filename mini_bk (mini_kb 1) = ''u-0.json''"
    by (simp add: backup_filename_def mini_bk_def mini_kb_def as_secs_def dec_int_def dec.simps) code_simp
  have "restore_from_file mini_sm4 mini_bk True ''u-0.json'' mini_bs d' = Inr (mini_kb 1, [1])"
    using saved_backup_restores [OF mini_sm4_works mini_json_works _ b, of mini_bs d'] mini_material by (simp add: mini_bs_master nm)
  then obtain bb where v: "verify_backup_file mini_bk True ''u-0.json'' mini_bs d' = Inr bb" "restore_key mini_sm4 mini_bk mini_bs bb = Inr [1]"
    by (auto simp: restore_from_file_def and_then_Inr)
  have ext: "file_ext ''u-0.json'' = Some ''json''"
    by code_simp
  have ex: "bd_exists d'"
    using save_backup_Inr backup_key_Inr [OF b] by blast
  have "verify_latest_backup mini_sm4 mini_bk (Inr [Inr ''u-0.json'']) (\<lambda>_. None) True mini_bs d' = Inr (Some ''u-0.json'')"
    using v ex ext by (simp add: verify_latest_backup_def Let_def)
  from latest_backup_checked [OF ex this] b show ?thesis by auto
qed

lemma cleanup_loop_files:
  assumes "cleanup_loop stat rm cutoff (map Inr paths) k d = (Inr n, d')" "distinct paths"
  shows "bd_files d' p =
     (case bd_files d p of
        Some f \<Rightarrow> if p \<in> set paths \<and> file_ext p = Some ''json'' \<and> stat p \<and> bf_modified f < cutoff then None else Some f
      | None \<Rightarrow> None)"
  using assms
proof (induction paths arbitrary: k d)
  case Nil
  then show ?case by (auto split: option.splits)
next
  case (Cons q qs)
  show ?case
  proof (cases "bd_files d q")
    case None
    then have "cleanup_loop stat rm cutoff (map Inr qs) k d = (Inr n, d')"
      using Cons.prems(1) by simp
    from Cons.IH [OF this] Cons.prems(2) None show ?thesis
      by (auto split: option.splits)
  next
    case (Some f)
    show ?thesis
    proof (cases "file_ext q = Some ''json'' \<and> stat q \<and> bf_modified f < cutoff")
      case True
      then have "cleanup_loop stat rm cutoff (map Inr qs) (Suc k) (d\<lparr>bd_files := (bd_files d)(q := None)\<rparr>) = (Inr n, d')"
        using Cons.prems(1) Some by (auto split: if_splits)
      from Cons.IH [OF this] Cons.prems(2) Some True show ?thesis
        by (auto split: option.splits)
    next
      case False
      then have "cleanup_loop stat rm cutoff (map Inr qs) k d = (Inr n, d')"
        using Cons.prems(1) Some by (auto split: if_splits)
      from Cons.IH [OF this] Cons.prems(2) Some False show ?thesis
        by (auto split: option.splits)
    qed
  qed
qed

text \<open>
  Retention removes exactly the backup files past the retention period: after a clean-up that
  succeeds, a listed backup whose attributes can be read is gone if and only if it was last written
  before the cutoff, and every other file is as it was.
\<close>

theorem cleanup_removes_expired:
  assumes "bd_exists d" "distinct paths" "cleanup_old_backups now (Inr (map Inr paths)) stat rm bs d = (Inr n, d')"
  shows "bd_files d' p =
     (case bd_files d p of
        Some f \<Rightarrow>
          if p \<in> set paths \<and> file_ext p = Some ''json'' \<and> stat p
             \<and> bf_modified f < now - secs (int (unat (bcf_retention_days (bs_config bs))) * 86400)
          then None else Some f
      | None \<Rightarrow> None)"
proof -
  have "cleanup_loop stat rm (now - secs (int (unat (bcf_retention_days (bs_config bs))) * 86400)) (map Inr paths) 0 d = (Inr n, d')"
    using assms(1,3) unfolding cleanup_old_backups_def Let_def by simp
  from cleanup_loop_files [OF this assms(2)] show ?thesis .
qed

theorem cleanup_removes_expired_witness:
  "bd_files (snd (cleanup_old_backups (secs (400 * 86400)) (Inr (map Inr [''u-0.json''])) (\<lambda>_. True) (\<lambda>_. True) mini_bs
     (mini_dir\<lparr>bd_files := [''u-0.json'' \<mapsto> \<lparr>bf_content = [], bf_modified = 0, bf_mode = 384\<rparr>]\<rparr>))) ''u-0.json'' = None"
proof -
  let ?d = "mini_dir\<lparr>bd_files := [''u-0.json'' \<mapsto> \<lparr>bf_content = [], bf_modified = 0, bf_mode = 384\<rparr>]\<rparr>"
  let ?c = "cleanup_old_backups (secs (400 * 86400)) (Inr (map Inr [''u-0.json''])) (\<lambda>_. True) (\<lambda>_. True) mini_bs ?d"
  have ext: "file_ext ''u-0.json'' = Some ''json''"
    by code_simp
  have "fst ?c = Inr 1"
    by (simp add: cleanup_old_backups_def mini_dir_def Let_def mini_bs_def bs_new_def backup_config_default_def secs_def ext)
  then have n: "?c = (Inr 1, snd ?c)"
    by (metis prod.collapse)
  show ?thesis
    using cleanup_removes_expired [OF _ _ n, of "''u-0.json''"] ext
    by (simp add: mini_dir_def mini_bs_def bs_new_def backup_config_default_def secs_def)
qed

end
