(* ===== verification/Kek_Source.thy ===== *)
theory Kek_Source
  imports Key_Format
begin

text \<open>
  Where the key encryption key comes from, \<^verbatim>\<open>crates/kms-core/src/kek_source.rs\<close>. The environment of the
  process is a partial function, the file system a function from paths to the mode bits and the text
  of a file; reading the text can fail for a file whose attributes can be read. Decoding hexadecimal
  text belongs to another crate.
\<close>

unbundle bit_operations_syntax

datatype kek_source = KekEnv | KekFile string | KekMissing

datatype kek_source_error =
    InsecureFileMode string u32
  | KekFileNotFound string
  | KekInvalidLength nat
  | KekInvalidHex string
  | ContainedWhitespace
  | NotConfigured

record kek_file =
  kf_mode :: u32
  kf_text :: "string option"

type_synonym kek_files = "string \<Rightarrow> kek_file option"

definition kek_from_env :: "(string \<Rightarrow> string option) \<Rightarrow> kek_source" where
  "kek_from_env env =
     (case env ''KMS_KEK_FILE'' of
        Some p \<Rightarrow>
          if trim p \<noteq> [] then KekFile p
          else (case env ''KMS_KEK'' of Some v \<Rightarrow> if trim v \<noteq> [] then KekEnv else KekMissing | None \<Rightarrow> KekMissing)
      | None \<Rightarrow> (case env ''KMS_KEK'' of Some v \<Rightarrow> if trim v \<noteq> [] then KekEnv else KekMissing | None \<Rightarrow> KekMissing))"

text \<open>A character of white space somewhere in a text, the text being in UTF-8.\<close>

fun has_white_space :: "string \<Rightarrow> bool" where
  "has_white_space [] = False"
| "has_white_space (c # cs) \<longleftrightarrow> list_ex (\<lambda>w. starts_with (c # cs) w) white_space \<or> has_white_space cs"

definition decode_hex_kek :: "(string \<Rightarrow> string + bytes) \<Rightarrow> string \<Rightarrow> kek_source_error + bytes" where
  "decode_hex_kek hex_decode raw =
     (if has_white_space raw then Inl ContainedWhitespace
      else and_then (map_err KekInvalidHex (hex_decode raw)) (\<lambda>bs.
           if length bs = 32 then Inr bs else Inl (KekInvalidLength (length bs))))"

definition load_hex_from_env :: "(string \<Rightarrow> string + bytes) \<Rightarrow> (string \<Rightarrow> string option) \<Rightarrow> string \<Rightarrow> kek_source_error + bytes" where
  "load_hex_from_env hex_decode env var_name =
     and_then (ok_or NotConfigured (env var_name)) (decode_hex_kek hex_decode)"

definition assert_file_mode_0600 :: "kek_files \<Rightarrow> string \<Rightarrow> kek_source_error + unit" where
  "assert_file_mode_0600 fs path =
     and_then (ok_or (KekFileNotFound path) (fs path)) (\<lambda>meta.
       let mode = kf_mode meta AND 511
       in if mode \<noteq> 384 then Inl (InsecureFileMode path mode) else Inr ())"

definition load_hex_from_file :: "(string \<Rightarrow> string + bytes) \<Rightarrow> kek_files \<Rightarrow> string \<Rightarrow> kek_source_error + bytes" where
  "load_hex_from_file hex_decode fs path =
     and_then (assert_file_mode_0600 fs path) (\<lambda>_.
     and_then (ok_or (KekFileNotFound path) (case fs path of Some f \<Rightarrow> kf_text f | None \<Rightarrow> None))
       (decode_hex_kek hex_decode))"

definition kek_load ::
  "(string \<Rightarrow> string + bytes) \<Rightarrow> (string \<Rightarrow> string option) \<Rightarrow> kek_files \<Rightarrow> kek_source \<Rightarrow> kek_source_error + bytes" where
  "kek_load hex_decode env fs src =
     (case src of
        KekEnv \<Rightarrow> load_hex_from_env hex_decode env ''KMS_KEK''
      | KekFile p \<Rightarrow> load_hex_from_file hex_decode fs p
      | KekMissing \<Rightarrow> Inl NotConfigured)"

text \<open>
  A key encryption key that is loaded has 32 bytes, decoded from a text without white space, and it
  comes from the place configured: from the named file, and then only if nobody but its owner has any
  right to it, or from the variable when no file is named. A file that is named and cannot be used is
  an error, never a reason to fall back to the variable.
\<close>

theorem kek_source_sound:
  assumes "kek_load hex_decode env fs (kek_from_env env) = Inr kek"
  shows "length kek = 32 \<and>
    (case env ''KMS_KEK_FILE'' of
       Some p \<Rightarrow>
         if trim p \<noteq> [] then
           (\<exists>f t. fs p = Some f \<and> kf_mode f AND 511 = 384 \<and> kf_text f = Some t \<and> \<not> has_white_space t \<and> hex_decode t = Inr kek)
         else (\<exists>v. env ''KMS_KEK'' = Some v \<and> \<not> has_white_space v \<and> hex_decode v = Inr kek)
     | None \<Rightarrow> (\<exists>v. env ''KMS_KEK'' = Some v \<and> \<not> has_white_space v \<and> hex_decode v = Inr kek))"
  using assms
  by (auto simp: kek_load_def kek_from_env_def load_hex_from_env_def load_hex_from_file_def assert_file_mode_0600_def
      decode_hex_kek_def and_then_Inr Let_def split: option.splits if_splits)

lemma no_white_space: "\<forall>c \<in> set s. b64_char c \<Longrightarrow> \<not> has_white_space s"
proof (induction s)
  case (Cons c cs)
  have "\<not> starts_with (c # cs) w" if "w \<in> set white_space" for w
    using white_space_b64 [OF that] Cons.prems by (cases w) auto
  with Cons show ?case by (auto simp: list_ex_iff)
qed simp

theorem kek_source_sound_witness:
  "length (replicate 32 (0 :: u8)) = 32 \<and> (\<exists>f t. [''k'' \<mapsto> \<lparr>kf_mode = 33152, kf_text = Some ''00''\<rparr>] ''k'' = Some f
     \<and> kf_mode f AND 511 = 384 \<and> kf_text f = Some t \<and> \<not> has_white_space t
     \<and> (\<lambda>_. Inr (replicate 32 0) :: string + bytes) t = Inr (replicate 32 0))"
proof -
  have ws: "\<not> has_white_space ''00''"
    by (rule no_white_space) (simp add: b64_char_def)
  have tr: "trim ''k'' \<noteq> []"
    by (simp add: trim_id b64_char_def)
  have "kek_load (\<lambda>_. Inr (replicate 32 0)) [''KMS_KEK_FILE'' \<mapsto> ''k''] [''k'' \<mapsto> \<lparr>kf_mode = 33152, kf_text = Some ''00''\<rparr>]
      (kek_from_env [''KMS_KEK_FILE'' \<mapsto> ''k'']) = Inr (replicate 32 0)"
    using ws tr by (simp add: kek_load_def kek_from_env_def load_hex_from_file_def assert_file_mode_0600_def decode_hex_kek_def)
  from kek_source_sound [OF this] tr show ?thesis by simp
qed

text \<open>
  A key that is usable by itself is refused when the file ends in a line break, which is how text
  editors and most tools write a file.
\<close>

theorem kek_trailing_newline_refused:
  assumes "fs p = Some f" "kf_mode f AND 511 = 384" "kf_text f = Some (t @ [CHR 10])"
  shows "kek_load hex_decode env fs (KekFile p) = Inl ContainedWhitespace"
proof -
  have "has_white_space (t @ [CHR 10])"
  proof (induction t)
    case Nil
    have "[CHR 10] \<in> set white_space"
      by (subst white_space_split) simp
    then show ?case by (auto simp: list_ex_iff intro!: bexI [of _ "[CHR 10]"])
  qed auto
  with assms show ?thesis
    by (simp add: kek_load_def load_hex_from_file_def assert_file_mode_0600_def decode_hex_kek_def)
qed

theorem kek_trailing_newline_refused_witness:
  "kek_load (\<lambda>_. Inr (replicate 32 0)) (\<lambda>_. None) [''k'' \<mapsto> \<lparr>kf_mode = 384, kf_text = Some (''00'' @ [CHR 10])\<rparr>] (KekFile ''k'')
     = Inl ContainedWhitespace"
  by (rule kek_trailing_newline_refused [where t = "''00''" and f = "\<lparr>kf_mode = 384, kf_text = Some (''00'' @ [CHR 10])\<rparr>"]) simp_all

end
