(* ===== verification/Mfa.thy ===== *)
theory Mfa
  imports Totp Kek_Source Service_Properties
begin

text \<open>
  The manager of second factors, \<^verbatim>\<open>crates/kms-api/src/mfa.rs\<close>. With a database it keeps configurations
  and lockouts in two tables, else in memory; one-time password secrets are sealed with the key
  encryption key. Every statement sent to the database can fail: its outcome is an argument, as is each
  reading of a clock. \<open>serde_json\<close>, base64 and the ciphers are parameters. Metrics are left out.
\<close>

unbundle bit_operations_syntax

section \<open>State\<close>

definition MAX_TOTP_ATTEMPTS :: u32 where
  "MAX_TOTP_ATTEMPTS = 5"

definition TOTP_LOCKOUT_SECS :: u64 where
  "TOTP_LOCKOUT_SECS = 300"

definition MAX_BACKUP_CODE_USES :: u32 where
  "MAX_BACKUP_CODE_USES = 3"

datatype mfa_failure_reason = TimeSkew | WrongCode | BackupCodeWasUsed | LockedOut

record mfa_memory =
  mem_totp_configs :: "string \<rightharpoonup> totp_config"
  mem_backup_codes :: "string \<rightharpoonup> string list"
  mem_failed_attempts :: "string \<rightharpoonup> u32"
  mem_lockouts :: "string \<rightharpoonup> u64"
  mem_backup_code_usage :: "string \<rightharpoonup> u32"

text \<open>The rows of the tables; a column of type \<open>INTEGER\<close> is a word of 32 bits read as signed.\<close>

record mfa_row =
  mr_totp_secret :: bytes
  mr_totp_algorithm :: string
  mr_totp_digits :: "32 word"
  mr_totp_period_secs :: "32 word"
  mr_totp_window :: "32 word"
  mr_backup_codes :: string
  mr_enabled :: bool

record lockout_row =
  lr_failed_attempts :: "32 word"
  lr_locked_until :: "time option"
  lr_backup_code_usage :: "32 word"

record mfa_manager =
  mm_pool :: bool
  mm_configs :: "string \<rightharpoonup> mfa_row"
  mm_lockouts :: "string \<rightharpoonup> lockout_row"
  mm_memory :: mfa_memory
  mm_kek :: "bytes option"

record mfa_codecs =
  mj_encode :: "string list \<Rightarrow> string option"
  mj_decode :: "string \<Rightarrow> string list option"
  mj_b64_encode :: "bytes \<Rightarrow> string"
  mj_b64_decode :: "string \<Rightarrow> bytes option"

definition mfa_memory_default :: mfa_memory where
  "mfa_memory_default = \<lparr>mem_totp_configs = Map.empty, mem_backup_codes = Map.empty, mem_failed_attempts = Map.empty,
     mem_lockouts = Map.empty, mem_backup_code_usage = Map.empty\<rparr>"

definition load_kek :: "(string \<Rightarrow> string + bytes) \<Rightarrow> (string \<Rightarrow> string option) \<Rightarrow> kek_files \<Rightarrow> bytes option" where
  "load_kek hex_decode env fs = (case kek_load hex_decode env fs (kek_from_env env) of Inr kek \<Rightarrow> Some kek | Inl _ \<Rightarrow> None)"

text \<open>A new manager on a database finds the tables as they are.\<close>

definition mfa_new ::
  "(string \<Rightarrow> string + bytes) \<Rightarrow> (string \<Rightarrow> string option) \<Rightarrow> kek_files \<Rightarrow> (string \<rightharpoonup> mfa_row) \<Rightarrow> (string \<rightharpoonup> lockout_row) \<Rightarrow> mfa_manager" where
  "mfa_new hex_decode env fs configs lockouts =
     \<lparr>mm_pool = True, mm_configs = configs, mm_lockouts = lockouts, mm_memory = mfa_memory_default, mm_kek = load_kek hex_decode env fs\<rparr>"

definition mfa_new_in_memory :: "(string \<Rightarrow> string + bytes) \<Rightarrow> (string \<Rightarrow> string option) \<Rightarrow> kek_files \<Rightarrow> mfa_manager" where
  "mfa_new_in_memory hex_decode env fs =
     \<lparr>mm_pool = False, mm_configs = Map.empty, mm_lockouts = Map.empty, mm_memory = mfa_memory_default, mm_kek = load_kek hex_decode env fs\<rparr>"

definition is_secret_encrypted :: "mfa_manager \<Rightarrow> bool" where
  "is_secret_encrypted m \<longleftrightarrow> mm_kek m \<noteq> None"

section \<open>Secrets and codes\<close>

definition hash_backup_code :: "mfa_crates \<Rightarrow> string \<Rightarrow> string" where
  "hash_backup_code mc code = mc_hex mc (mc_hash mc Sha256 (map (\<lambda>c. word_of_nat (of_char c)) (mc_to_uppercase mc (trim code))))"

text \<open>A generator that fails makes \<open>expect\<close> panic: the result is \<open>None\<close>.\<close>

definition encrypt_secret :: "'kp crypto \<Rightarrow> sys_rng \<Rightarrow> mfa_manager \<Rightarrow> bytes \<Rightarrow> bytes option option" where
  "encrypt_secret cr rng m secret =
     (case mm_kek m of
        None \<Rightarrow> Some None
      | Some kek \<Rightarrow>
          (case aes_unbound_key cr kek of
             Inl _ \<Rightarrow> Some None
           | Inr _ \<Rightarrow>
               (case rng of
                  None \<Rightarrow> None
                | Some g \<Rightarrow>
                    let nonce_bytes = fill_bytes g 12
                    in (case aes_seal cr kek nonce_bytes [] secret of
                          Inl _ \<Rightarrow> Some None
                        | Inr (in_out, tag) \<Rightarrow> Some (Some (nonce_bytes @ in_out @ tag))))))"

definition decrypt_secret :: "'kp crypto \<Rightarrow> mfa_manager \<Rightarrow> bytes \<Rightarrow> bytes option" where
  "decrypt_secret cr m encrypted =
     (case mm_kek m of
        None \<Rightarrow> Some encrypted
      | Some kek \<Rightarrow>
          if length encrypted < 12 + 16 then Some encrypted
          else
            let nonce_bytes = take 12 encrypted
            in (case aes_unbound_key cr kek of
                  Inl _ \<Rightarrow> None
                | Inr _ \<Rightarrow>
                    let ciphertext_len = length encrypted - 12 - 16;
                        in_out = take ciphertext_len (drop 12 encrypted);
                        tag = drop (12 + ciphertext_len) encrypted
                    in (case aes_open cr kek nonce_bytes [] (in_out @ tag) of
                          Inr plaintext \<Rightarrow> Some plaintext
                        | Inl _ \<Rightarrow> Some encrypted)))"

section \<open>Configurations\<close>

definition algorithm_debug :: "totp_algorithm \<Rightarrow> string" where
  "algorithm_debug a = (case a of Sha1 \<Rightarrow> ''Sha1'' | Sha256 \<Rightarrow> ''Sha256'' | Sha512 \<Rightarrow> ''Sha512'')"

definition algorithm_of :: "string \<Rightarrow> totp_algorithm" where
  "algorithm_of s = (if s = ''Sha256'' then Sha256 else if s = ''Sha512'' then Sha512 else Sha1)"

definition no_kek_message :: string where
  "no_kek_message = ''Cannot store TOTP secret: no KEK configured. Set KMS_KEK before enabling MFA.''"

text \<open>
  Storing ignores the outcome \<open>up\<close> of the statement. The result of the whole is \<open>None\<close> when it panics. An
  update of an existing row keeps its \<open>enabled\<close>, a new row is enabled by default.
\<close>

definition store_totp_config ::
  "'kp crypto \<Rightarrow> mfa_crates \<Rightarrow> mfa_codecs \<Rightarrow> sys_rng \<Rightarrow> bool \<Rightarrow> string \<Rightarrow> totp_config \<Rightarrow> string list \<Rightarrow> mfa_manager
   \<Rightarrow> (string + unit) option \<times> mfa_manager" where
  "store_totp_config cr mc mj rng up user_id config backup_codes m =
     (case encrypt_secret cr rng m (tc_secret config) of
        None \<Rightarrow> (None, m)
      | Some None \<Rightarrow> (Some (Inl no_kek_message), m)
      | Some (Some encrypted_secret) \<Rightarrow>
          let hashed_codes = map (hash_backup_code mc) backup_codes;
              row = \<lparr>mr_totp_secret = encrypted_secret, mr_totp_algorithm = algorithm_debug (tc_algorithm config),
                     mr_totp_digits = tc_digits config, mr_totp_period_secs = ucast (tc_time_step config),
                     mr_totp_window = tc_window config,
                     mr_backup_codes = (case mj_encode mj hashed_codes of Some s \<Rightarrow> s | None \<Rightarrow> ''[]''),
                     mr_enabled = (case mm_configs m user_id of Some r \<Rightarrow> mr_enabled r | None \<Rightarrow> True)\<rparr>;
              m = (if mm_pool m \<and> up then m\<lparr>mm_configs := (mm_configs m)(user_id \<mapsto> row)\<rparr> else m);
              mem = mm_memory m
          in (Some (Inr ()),
              m\<lparr>mm_memory := mem\<lparr>mem_totp_configs := (mem_totp_configs mem)(user_id \<mapsto> config),
                                  mem_backup_codes := (mem_backup_codes mem)(user_id \<mapsto> hashed_codes)\<rparr>\<rparr>))"

definition load_totp_config :: "'kp crypto \<Rightarrow> bool \<Rightarrow> string \<Rightarrow> mfa_manager \<Rightarrow> totp_config option" where
  "load_totp_config cr up user_id m =
     (if mm_pool m then
        (case (if up then mm_configs m user_id else None) of
           None \<Rightarrow> None
         | Some row \<Rightarrow>
             map_option (\<lambda>secret. \<lparr>tc_secret = secret, tc_time_step = scast (mr_totp_period_secs row), tc_digits = mr_totp_digits row,
                 tc_algorithm = algorithm_of (mr_totp_algorithm row), tc_window = mr_totp_window row\<rparr>)
               (decrypt_secret cr m (mr_totp_secret row)))
      else mem_totp_configs (mm_memory m) user_id)"

definition load_backup_codes :: "mfa_codecs \<Rightarrow> bool \<Rightarrow> string \<Rightarrow> mfa_manager \<Rightarrow> string list option" where
  "load_backup_codes mj up user_id m =
     (if mm_pool m then
        (case (if up then mm_configs m user_id else None) of
           None \<Rightarrow> None
         | Some row \<Rightarrow> mj_decode mj (mr_backup_codes row))
      else mem_backup_codes (mm_memory m) user_id)"

definition has_totp_config :: "bool \<Rightarrow> string \<Rightarrow> mfa_manager \<Rightarrow> bool" where
  "has_totp_config up user_id m \<longleftrightarrow>
     (if mm_pool m then up \<and> mm_configs m user_id \<noteq> None else mem_totp_configs (mm_memory m) user_id \<noteq> None)"

definition backup_codes_remaining :: "mfa_codecs \<Rightarrow> bool \<Rightarrow> string \<Rightarrow> mfa_manager \<Rightarrow> nat" where
  "backup_codes_remaining mj up user_id m = (case load_backup_codes mj up user_id m of Some c \<Rightarrow> length c | None \<Rightarrow> 0)"

text \<open>
  Using up a code reads the list, then writes back the list without the code. The second half takes
  the list that was read, since another instance may run in between.
\<close>

definition consume_read_codes ::
  "mfa_crates \<Rightarrow> mfa_codecs \<Rightarrow> bool \<Rightarrow> string \<Rightarrow> string \<Rightarrow> string list \<Rightarrow> mfa_manager \<Rightarrow> bool \<times> mfa_manager" where
  "consume_read_codes mc mj up user_id code codes m =
     (let normalized = hash_backup_code mc code
      in if normalized \<in> set codes then
           let codes = remove1 normalized codes;
               codes_json = (case mj_encode mj codes of Some s \<Rightarrow> s | None \<Rightarrow> ''[]'');
               m = (if mm_pool m \<and> up
                    then m\<lparr>mm_configs := (mm_configs m)(user_id := map_option (mr_backup_codes_update (\<lambda>_. codes_json)) (mm_configs m user_id))\<rparr>
                    else m)
           in (True, m\<lparr>mm_memory := (mm_memory m)\<lparr>mem_backup_codes := (mem_backup_codes (mm_memory m))(user_id \<mapsto> codes)\<rparr>\<rparr>)
         else (False, m))"

definition consume_backup_code ::
  "mfa_crates \<Rightarrow> mfa_codecs \<Rightarrow> (nat \<Rightarrow> bool) \<Rightarrow> string \<Rightarrow> string \<Rightarrow> mfa_manager \<Rightarrow> bool \<times> mfa_manager" where
  "consume_backup_code mc mj up user_id code m =
     (case load_backup_codes mj (up 0) user_id m of
        None \<Rightarrow> (False, m)
      | Some codes \<Rightarrow> consume_read_codes mc mj (up 1) user_id code codes m)"

section \<open>Lockouts\<close>

text \<open>\<open>duration_since(UNIX_EPOCH)\<close> in seconds, zero before the epoch.\<close>

definition unix_secs :: "time \<Rightarrow> u64" where
  "unix_secs now = (if now < 0 then 0 else word_of_int (as_secs now))"

text \<open>Adding one to a column that holds the greatest integer is an error of the database.\<close>

definition increment_column :: "32 word \<Rightarrow> 32 word option" where
  "increment_column n = (if n = 0x7FFFFFFF then None else Some (n + 1))"

definition empty_lockout :: lockout_row where
  "empty_lockout = \<lparr>lr_failed_attempts = 0, lr_locked_until = None, lr_backup_code_usage = 0\<rparr>"

definition count_failure_row :: "bool \<Rightarrow> string \<Rightarrow> mfa_manager \<Rightarrow> u32 \<times> mfa_manager" where
  "count_failure_row up user_id m =
     (let row = (case mm_lockouts m user_id of Some r \<Rightarrow> r | None \<Rightarrow> empty_lockout)
      in case (if up then increment_column (lr_failed_attempts row) else None) of
           None \<Rightarrow> (0, m)
         | Some n \<Rightarrow> (n, m\<lparr>mm_lockouts := (mm_lockouts m)(user_id \<mapsto> row\<lparr>lr_failed_attempts := n\<rparr>)\<rparr>))"

definition record_failed_totp_attempt :: "(nat \<Rightarrow> bool) \<Rightarrow> time \<Rightarrow> string \<Rightarrow> mfa_manager \<Rightarrow> bool \<times> mfa_manager" where
  "record_failed_totp_attempt up now user_id m =
     (if mm_pool m then
        let (attempts, m) = count_failure_row (up 0) user_id m
        in if attempts \<ge> MAX_TOTP_ATTEMPTS then
             (True,
              if up 1 then m\<lparr>mm_lockouts := (mm_lockouts m)(user_id :=
                  map_option (lr_locked_until_update (\<lambda>_. Some (now + secs 300))) (mm_lockouts m user_id))\<rparr>
              else m)
           else (False, m)
      else
        let mem = mm_memory m;
            attempts = (case mem_failed_attempts mem user_id of Some n \<Rightarrow> n | None \<Rightarrow> 0) + 1;
            mem = mem\<lparr>mem_failed_attempts := (mem_failed_attempts mem)(user_id \<mapsto> attempts)\<rparr>
        in if attempts \<ge> MAX_TOTP_ATTEMPTS then
             (True, m\<lparr>mm_memory := mem\<lparr>mem_lockouts := (mem_lockouts mem)(user_id \<mapsto> unix_secs now + TOTP_LOCKOUT_SECS)\<rparr>\<rparr>)
           else (False, m\<lparr>mm_memory := mem\<rparr>))"

definition clear_failed_attempts :: "bool \<Rightarrow> string \<Rightarrow> mfa_manager \<Rightarrow> mfa_manager" where
  "clear_failed_attempts up user_id m =
     (if mm_pool m then
        if up then m\<lparr>mm_lockouts := (mm_lockouts m)(user_id := map_option (\<lambda>_. empty_lockout) (mm_lockouts m user_id))\<rparr> else m
      else m\<lparr>mm_memory := (mm_memory m)\<lparr>mem_failed_attempts := (mem_failed_attempts (mm_memory m))(user_id := None)\<rparr>\<rparr>)"

definition locked_until :: "bool \<Rightarrow> string \<Rightarrow> mfa_manager \<Rightarrow> time option" where
  "locked_until up user_id m =
     (if up then (case mm_lockouts m user_id of Some r \<Rightarrow> lr_locked_until r | None \<Rightarrow> None) else None)"

definition mfa_is_locked_out :: "bool \<Rightarrow> time \<Rightarrow> string \<Rightarrow> mfa_manager \<Rightarrow> bool" where
  "mfa_is_locked_out up now user_id m \<longleftrightarrow>
     (if mm_pool m then (case locked_until up user_id m of Some u \<Rightarrow> now < u | None \<Rightarrow> False)
      else (case mem_lockouts (mm_memory m) user_id of Some expiry \<Rightarrow> unix_secs now < expiry | None \<Rightarrow> False))"

text \<open>\<open>num_seconds\<close> rounds towards zero.\<close>

definition lockout_remaining_secs :: "bool \<Rightarrow> time \<Rightarrow> string \<Rightarrow> mfa_manager \<Rightarrow> u64" where
  "lockout_remaining_secs up now user_id m =
     (if mm_pool m then
        (case locked_until up user_id m of
           Some u \<Rightarrow> if u - now \<ge> secs 1 then word_of_int (as_secs (u - now)) else 0
         | None \<Rightarrow> 0)
      else
        (case mem_lockouts (mm_memory m) user_id of
           Some expiry \<Rightarrow> if unix_secs now < expiry then expiry - unix_secs now else 0
         | None \<Rightarrow> 0))"

definition failed_attempt_count :: "bool \<Rightarrow> string \<Rightarrow> mfa_manager \<Rightarrow> u32" where
  "failed_attempt_count up user_id m =
     (if mm_pool m then
        (if up then (case mm_lockouts m user_id of Some r \<Rightarrow> lr_failed_attempts r | None \<Rightarrow> 0) else 0)
      else (case mem_failed_attempts (mm_memory m) user_id of Some n \<Rightarrow> n | None \<Rightarrow> 0))"

definition record_backup_code_usage :: "bool \<Rightarrow> string \<Rightarrow> mfa_manager \<Rightarrow> bool \<times> mfa_manager" where
  "record_backup_code_usage up user_id m =
     (if mm_pool m then
        let row = (case mm_lockouts m user_id of Some r \<Rightarrow> r | None \<Rightarrow> empty_lockout)
        in (case (if up then increment_column (lr_backup_code_usage row) else None) of
              None \<Rightarrow> (MAX_BACKUP_CODE_USES \<le> 0, m)
            | Some n \<Rightarrow> (MAX_BACKUP_CODE_USES \<le> n, m\<lparr>mm_lockouts := (mm_lockouts m)(user_id \<mapsto> row\<lparr>lr_backup_code_usage := n\<rparr>)\<rparr>))
      else
        let mem = mm_memory m;
            usage = (case mem_backup_code_usage mem user_id of Some n \<Rightarrow> n | None \<Rightarrow> 0) + 1
        in (MAX_BACKUP_CODE_USES \<le> usage,
            m\<lparr>mm_memory := mem\<lparr>mem_backup_code_usage := (mem_backup_code_usage mem)(user_id \<mapsto> usage)\<rparr>\<rparr>))"

definition backup_code_usage_count :: "bool \<Rightarrow> string \<Rightarrow> mfa_manager \<Rightarrow> u32" where
  "backup_code_usage_count up user_id m =
     (if mm_pool m then
        (if up then (case mm_lockouts m user_id of Some r \<Rightarrow> lr_backup_code_usage r | None \<Rightarrow> 0) else 0)
      else (case mem_backup_code_usage (mm_memory m) user_id of Some n \<Rightarrow> n | None \<Rightarrow> 0))"

definition reset_backup_code_usage :: "bool \<Rightarrow> string \<Rightarrow> mfa_manager \<Rightarrow> mfa_manager" where
  "reset_backup_code_usage up user_id m =
     (if mm_pool m then
        if up then m\<lparr>mm_lockouts := (mm_lockouts m)(user_id := map_option (lr_backup_code_usage_update (\<lambda>_. 0)) (mm_lockouts m user_id))\<rparr> else m
      else m\<lparr>mm_memory := (mm_memory m)\<lparr>mem_backup_code_usage := (mem_backup_code_usage (mm_memory m))(user_id := None)\<rparr>\<rparr>)"

section \<open>Migration\<close>

text \<open>
  The migration works on a table \<open>mfa_totp_configs\<close> of its own, an argument here: \<open>None\<close> when the table does
  not exist. The loop goes through the rows read at the start; \<open>up (Suc i)\<close> is the outcome of the \<open>i\<close>-th
  update. A panic of the generator ends it with \<open>None\<close>.
\<close>

fun migrate_loop ::
  "'kp crypto \<Rightarrow> mfa_codecs \<Rightarrow> (nat \<Rightarrow> sys_rng) \<Rightarrow> (nat \<Rightarrow> bool) \<Rightarrow> mfa_manager \<Rightarrow> nat \<Rightarrow> (string \<times> string) list \<Rightarrow> u64
   \<Rightarrow> (string \<times> string) list \<Rightarrow> (msg + u64) option \<times> (string \<times> string) list" where
  "migrate_loop cr mj rngs up m i [] migrated table = (Some (Inr migrated), table)"
| "migrate_loop cr mj rngs up m i ((user_id, secret) # rows) migrated table =
     (if decrypt_secret cr m (map (\<lambda>c. word_of_nat (of_char c)) secret) \<noteq> None
         \<and> (case mj_b64_decode mj secret of Some decoded \<Rightarrow> length decoded > 32 | None \<Rightarrow> False)
      then migrate_loop cr mj rngs up m (Suc i) rows migrated table
      else
        (case encrypt_secret cr (rngs i) m (map (\<lambda>c. word_of_nat (of_char c)) secret) of
           None \<Rightarrow> (None, table)
         | Some None \<Rightarrow> migrate_loop cr mj rngs up m (Suc i) rows migrated table
         | Some (Some encrypted) \<Rightarrow>
             if up (Suc i) then
               migrate_loop cr mj rngs up m (Suc i) rows (migrated + 1)
                 (map (\<lambda>(u, s). if u = user_id then (u, mj_b64_encode mj encrypted) else (u, s)) table)
             else (Some (Inl (Fmt [Lit ''Failed to update secret for user '', Str user_id])), table)))"

definition migrate_plaintext_secrets ::
  "'kp crypto \<Rightarrow> mfa_codecs \<Rightarrow> (nat \<Rightarrow> sys_rng) \<Rightarrow> (nat \<Rightarrow> bool) \<Rightarrow> mfa_manager \<Rightarrow> (string \<times> string) list option
   \<Rightarrow> (msg + u64) option \<times> (string \<times> string) list option" where
  "migrate_plaintext_secrets cr mj rngs up m table =
     (if \<not> mm_pool m then (Some (Inl (Lit ''No database pool configured'')), table)
      else if mm_kek m = None then (Some (Inl (Fmt [Lit ''No KEK configured '', Lit dash, Lit '' cannot encrypt''])), table)
      else (case (if up 0 then table else None) of
              None \<Rightarrow> (Some (Inl (Lit ''Failed to query TOTP configs'')), table)
            | Some rows \<Rightarrow> let (r, t) = migrate_loop cr mj rngs up m 0 rows 0 rows in (r, Some t)))"

record mfa_status_response =
  msr_enabled :: bool
  msr_mfa_type :: string
  msr_backup_codes_remaining :: nat

definition mfa_status_response_of :: "mfa_status \<Rightarrow> mfa_status_response" where
  "mfa_status_response_of s =
     \<lparr>msr_enabled = ms_enabled s,
      msr_mfa_type = (case ms_mfa_type s of MfaTotp \<Rightarrow> ''totp'' | MfaHardware \<Rightarrow> ''hardware'' | MfaSms \<Rightarrow> ''sms''),
      msr_backup_codes_remaining = ms_backup_codes_remaining s\<rparr>"

section \<open>Stored configurations\<close>

definition codec_works :: "mfa_codecs \<Rightarrow> bool" where
  "codec_works mj \<longleftrightarrow> (\<forall>cs. \<exists>s. mj_encode mj cs = Some s \<and> mj_decode mj s = Some cs)"

lemma codec_worksE:
  assumes "codec_works mj" obtains s where "mj_encode mj cs = Some s" "mj_decode mj s = Some cs"
  using assms unfolding codec_works_def by blast

lemma hash_backup_code_eq: "hash_backup_code = hash_code"
  by (simp add: fun_eq_iff hash_backup_code_def hash_code_def)

lemma algorithm_roundtrip [simp]: "algorithm_of (algorithm_debug a) = a"
  by (cases a) (simp_all add: algorithm_of_def algorithm_debug_def)

lemma period_roundtrip: "unat (n :: u64) < 2 ^ 31 \<Longrightarrow> scast (ucast n :: 32 word) = n"
proof -
  assume n: "unat n < 2 ^ 31"
  have "int (unat n) < int (2 ^ 31)"
    using n by (simp only: of_nat_less_iff)
  then have "uint n < 2 ^ 31"
    by simp
  moreover have "- (2 ^ 31) \<le> uint n"
    by (rule order_trans [of _ 0]) simp_all
  ultimately have "signed_take_bit 31 (uint n) = uint n"
    by (intro signed_take_bit_int_eq_self)
  then have "sint (ucast n :: 32 word) = uint n"
    by (simp add: sint_uint unsigned_ucast_eq signed_take_bit_take_bit)
  then show ?thesis
    by (metis word_of_int_uint scast_eq)
qed

lemma decrypt_encrypt_secret:
  assumes "aes_works cr" "mm_kek m = Some kek" "length kek = 32" "mm_kek m' = Some kek"
    and "encrypt_secret cr rng m secret = Some (Some e)"
  shows "decrypt_secret cr m' e = Some secret"
proof -
  obtain g c t where g: "rng = Some g" and seal: "aes_seal cr kek (fill_bytes g 12) [] secret = Inr (c, t)"
    and e: "e = fill_bytes g 12 @ c @ t"
    using assms(2,5) by (auto simp: encrypt_secret_def Let_def split: option.splits sum.splits)
  obtain c' t' where c': "aes_seal cr kek (fill_bytes g 12) [] secret = Inr (c', t')" "length t' = 16"
    "aes_open cr kek (fill_bytes g 12) [] (c' @ t') = Inr secret"
    using aes_works_seal [OF assms(1,3)] by metis
  then have "length t = 16" "aes_open cr kek (fill_bytes g 12) [] (c @ t) = Inr secret"
    using seal by auto
  then show ?thesis
    using assms(4) aes_works_key [OF assms(1,3)] by (simp add: decrypt_secret_def e Let_def)
qed

text \<open>
  What is enrolled survives a restart: after storing with a working database, every manager on
  the same tables with the same key encryption key reads the configuration back as it was, for periods
  that fit the column, together with the hashes of the backup codes.
\<close>

theorem totp_config_survives:
  assumes "aes_works cr" "codec_works mj" "mm_pool m" "mm_kek m = Some kek" "length kek = 32"
    and "unat (tc_time_step config) < 2 ^ 31"
    and "store_totp_config cr mc mj rng True user_id config codes m = (Some (Inr ()), m')"
    and "mm_pool n" "mm_kek n = Some kek" "mm_configs n user_id = mm_configs m' user_id"
  shows "load_totp_config cr True user_id n = Some config
     \<and> load_backup_codes mj True user_id n = Some (map (hash_backup_code mc) codes)"
proof -
  obtain s where s: "mj_encode mj (map (hash_backup_code mc) codes) = Some s" "mj_decode mj s = Some (map (hash_backup_code mc) codes)"
    using codec_worksE [OF assms(2)] by blast
  obtain e where e: "encrypt_secret cr rng m (tc_secret config) = Some (Some e)"
    using assms(7) by (auto simp: store_totp_config_def split: option.splits)
  note d = decrypt_encrypt_secret [OF assms(1,4,5,9) e]
  have "mm_configs m' user_id = Some \<lparr>mr_totp_secret = e, mr_totp_algorithm = algorithm_debug (tc_algorithm config),
      mr_totp_digits = tc_digits config, mr_totp_period_secs = ucast (tc_time_step config), mr_totp_window = tc_window config,
      mr_backup_codes = s, mr_enabled = (case mm_configs m user_id of Some r \<Rightarrow> mr_enabled r | None \<Rightarrow> True)\<rparr>"
    using assms(3,7) e s(1) by (auto simp: store_totp_config_def Let_def)
  then show ?thesis
    using assms(8,10) d s(2) period_roundtrip [OF assms(6)] by (simp add: load_totp_config_def load_backup_codes_def)
qed

text \<open>
  Without a key encryption key nothing is stored: the call is refused and the manager is unchanged,
  in the database and in memory.
\<close>

theorem no_kek_nothing_stored:
  assumes "mm_kek m = None"
  shows "store_totp_config cr mc mj rng up user_id config codes m = (Some (Inl no_kek_message), m)"
  using assms by (simp add: store_totp_config_def encrypt_secret_def)

text \<open>
  A secret that cannot be opened, because it was altered or sealed with another key, is not refused:
  the stored bytes themselves are used as the secret.
\<close>

theorem unreadable_secret_used:
  assumes "mm_pool m" "mm_configs m user_id = Some row" "mm_kek m = Some kek" "is_ok (aes_unbound_key cr kek)"
    and "28 \<le> length (mr_totp_secret row)"
    and "\<not> is_ok (aes_open cr kek (take 12 (mr_totp_secret row)) [] (drop 12 (mr_totp_secret row)))"
  shows "\<exists>config. load_totp_config cr True user_id m = Some config \<and> tc_secret config = mr_totp_secret row"
proof -
  have "take (length (mr_totp_secret row) - 28) (drop 12 (mr_totp_secret row)) @ drop (length (mr_totp_secret row) - 16) (mr_totp_secret row)
      = drop 12 (mr_totp_secret row)"
    using assms(5) append_take_drop_id [of "length (mr_totp_secret row) - 28" "drop 12 (mr_totp_secret row)"] by simp
  then show ?thesis
    using assms by (auto simp: load_totp_config_def decrypt_secret_def Let_def is_ok_iff split: sum.splits)
qed

section \<open>Backup codes\<close>

lemma consume_read_True:
  assumes "consume_read_codes mc mj up user_id code codes m = (True, m')"
  shows "hash_backup_code mc code \<in> set codes"
  using assms by (auto simp: consume_read_codes_def Let_def split: if_splits)

lemma consume_load:
  assumes "codec_works mj" "load_backup_codes mj True user_id m = Some codes"
    and "consume_read_codes mc mj True user_id code codes m = (r, m')"
  shows "load_backup_codes mj True user_id m' = Some (if r then remove1 (hash_backup_code mc code) codes else codes)
     \<and> r = (hash_backup_code mc code \<in> set codes)"
proof (cases "hash_backup_code mc code \<in> set codes")
  case True
  obtain s where "mj_encode mj (remove1 (hash_backup_code mc code) codes) = Some s" "mj_decode mj s = Some (remove1 (hash_backup_code mc code) codes)"
    using codec_worksE [OF assms(1)] by blast
  with True assms(2,3) show ?thesis
    by (auto simp: consume_read_codes_def load_backup_codes_def Let_def split: if_splits option.splits)
next
  case False
  with assms(2,3) show ?thesis by (simp add: consume_read_codes_def Let_def)
qed

text \<open>Trying codes one after the other; \<open>uses\<close> counts how often a code is accepted.\<close>

fun try_codes :: "mfa_crates \<Rightarrow> mfa_codecs \<Rightarrow> string \<Rightarrow> string list \<Rightarrow> mfa_manager \<Rightarrow> (string \<times> bool) list \<times> mfa_manager" where
  "try_codes mc mj user_id [] m = ([], m)"
| "try_codes mc mj user_id (c # cs) m =
     (let (r, m) = consume_backup_code mc mj (\<lambda>_. True) user_id c m; (rs, m) = try_codes mc mj user_id cs m in ((c, r) # rs, m))"

lemma try_codes_count:
  assumes "codec_works mj"
  shows "load_backup_codes mj True user_id m = Some codes
    \<Longrightarrow> length (filter (\<lambda>(d, r). r \<and> hash_backup_code mc d = h) (fst (try_codes mc mj user_id cs m))) \<le> count_list codes h"
proof (induction cs arbitrary: m codes)
  case (Cons c cs)
  obtain r m1 where s: "consume_read_codes mc mj True user_id c codes m = (r, m1)"
    by (cases "consume_read_codes mc mj True user_id c codes m")
  note l = consume_load [OF assms Cons.prems s]
  obtain rs m2 where t: "try_codes mc mj user_id cs m1 = (rs, m2)"
    by (cases "try_codes mc mj user_id cs m1")
  have "length (filter (\<lambda>(d, r). r \<and> hash_backup_code mc d = h) rs)
      \<le> count_list (if r then remove1 (hash_backup_code mc c) codes else codes) h"
    using Cons.IH [OF conjunct1 [OF l]] t by simp
  moreover have "count_list (remove1 x xs) y = count_list xs y - (if x = y then 1 else 0)" for x y :: string and xs
    by (induction xs) auto
  moreover have "r \<and> hash_backup_code mc c = h \<longrightarrow> 1 \<le> count_list codes h"
    using l by (metis One_nat_def Suc_leI count_list_0_iff gr0I)
  ultimately show ?case
    using Cons.prems s t by (auto simp: consume_backup_code_def split: if_splits)
qed simp

text \<open>
  A backup code is worth as many uses as it was issued: with a working database, in every sequence of
  attempts a code is accepted at most as often as its hash is in the stored list, so a code issued
  once is accepted once.
\<close>

theorem backup_codes_used_up:
  assumes "codec_works mj" "load_backup_codes mj True user_id m = Some codes"
  shows "length (filter (\<lambda>(d, accepted). accepted \<and> d = code) (fst (try_codes mc mj user_id cs m))) \<le> count_list codes (hash_backup_code mc code)"
proof -
  have "length (filter (\<lambda>(d, r). r \<and> d = code) xs)
      \<le> length (filter (\<lambda>(d, r). r \<and> hash_backup_code mc d = hash_backup_code mc code) xs)" for xs :: "(string \<times> bool) list"
    by (induction xs) auto
  then show ?thesis
    using try_codes_count [OF assms, of mc "hash_backup_code mc code" cs] order_trans by blast
qed

text \<open>
  Two instances accept the same code: when both read the list before either writes it back, each
  finds the code in what it read.
\<close>

theorem backup_code_accepted_twice:
  assumes "load_backup_codes mj True user_id m = Some codes" "hash_backup_code mc code \<in> set codes"
  shows "fst (consume_read_codes mc mj up user_id code codes m)
     \<and> fst (consume_read_codes mc mj up' user_id code codes (snd (consume_read_codes mc mj up user_id code codes m)))"
  using assms by (simp add: consume_read_codes_def Let_def)

section \<open>A small instance\<close>

text \<open>A codec for lists of texts: every character after a mark, and an end mark after every text.\<close>

fun mini_decode :: "string \<Rightarrow> string \<Rightarrow> string list option" where
  "mini_decode acc [] = Some []"
| "mini_decode acc (m # cs) =
     (if m = CHR ''e'' then map_option ((#) acc) (mini_decode [] cs)
      else case cs of [] \<Rightarrow> None | c # cs \<Rightarrow> mini_decode (acc @ [c]) cs)"

definition mini_encode :: "string list \<Rightarrow> string" where
  "mini_encode ts = concat (map (\<lambda>t. concat (map (\<lambda>c. [CHR ''c'', c]) t) @ ''e'') ts)"

definition mini_codecs :: mfa_codecs where
  "mini_codecs = \<lparr>mj_encode = (\<lambda>ts. Some (mini_encode ts)), mj_decode = mini_decode [], mj_b64_encode = map (\<lambda>b. char_of (unat b)),
     mj_b64_decode = (\<lambda>s. Some (map (\<lambda>c. word_of_nat (of_char c)) s))\<rparr>"

lemma mini_decode_text: "mini_decode acc (concat (map (\<lambda>c. [CHR ''c'', c]) t) @ CHR ''e'' # cs) = map_option ((#) (acc @ t)) (mini_decode [] cs)"
  by (induction t arbitrary: acc) auto

lemma mini_codec_works: "codec_works mini_codecs"
proof -
  have "mini_decode [] (mini_encode ts) = Some ts" for ts
    by (induction ts) (simp_all add: mini_encode_def mini_decode_text)
  then show ?thesis by (simp add: codec_works_def mini_codecs_def)
qed

definition mini_kek :: bytes where
  "mini_kek = replicate 32 7"

definition mini_manager :: mfa_manager where
  "mini_manager = \<lparr>mm_pool = True, mm_configs = Map.empty, mm_lockouts = Map.empty, mm_memory = mfa_memory_default, mm_kek = Some mini_kek\<rparr>"

definition mini_totp_config :: totp_config where
  "mini_totp_config = \<lparr>tc_secret = [1, 2, 3], tc_time_step = 30, tc_digits = 6, tc_algorithm = Sha256, tc_window = 1\<rparr>"

lemma mini_store: "\<exists>m'. store_totp_config xor_crypto mini_mfa mini_codecs (Some (\<lambda>_. 0)) True ''eve'' mini_totp_config codes mini_manager = (Some (Inr ()), m')"
  by (simp add: store_totp_config_def encrypt_secret_def mini_manager_def mini_kek_def xor_crypto_def demo_crypto_def Let_def)

theorem totp_config_survives_witness:
  "\<exists>m'. store_totp_config xor_crypto mini_mfa mini_codecs (Some (\<lambda>_. 0)) True ''eve'' mini_totp_config [''12345678''] mini_manager = (Some (Inr ()), m')
     \<and> load_totp_config xor_crypto True ''eve'' (mini_manager\<lparr>mm_configs := mm_configs m'\<rparr>) = Some mini_totp_config
     \<and> load_backup_codes mini_codecs True ''eve'' (mini_manager\<lparr>mm_configs := mm_configs m'\<rparr>) = Some (map (hash_backup_code mini_mfa) [''12345678''])"
proof -
  obtain m' where m': "store_totp_config xor_crypto mini_mfa mini_codecs (Some (\<lambda>_. 0)) True ''eve'' mini_totp_config [''12345678''] mini_manager = (Some (Inr ()), m')"
    using mini_store by blast
  have "load_totp_config xor_crypto True ''eve'' (mini_manager\<lparr>mm_configs := mm_configs m'\<rparr>) = Some mini_totp_config
     \<and> load_backup_codes mini_codecs True ''eve'' (mini_manager\<lparr>mm_configs := mm_configs m'\<rparr>) = Some (map (hash_backup_code mini_mfa) [''12345678''])"
    by (rule totp_config_survives [OF xor_works mini_codec_works _ _ _ _ m', where kek = mini_kek])
       (simp_all add: mini_manager_def mini_kek_def mini_totp_config_def)
  with m' show ?thesis by blast
qed

theorem no_kek_nothing_stored_witness:
  "store_totp_config xor_crypto mini_mfa mini_codecs (Some (\<lambda>_. 0)) True ''eve'' mini_totp_config [] (mini_manager\<lparr>mm_kek := None\<rparr>)
     = (Some (Inl no_kek_message), mini_manager\<lparr>mm_kek := None\<rparr>)"
  by (rule no_kek_nothing_stored) simp

theorem unreadable_secret_used_witness:
  "\<exists>config. load_totp_config demo_crypto True ''eve'' (mini_manager\<lparr>mm_configs := [''eve'' \<mapsto> \<lparr>mr_totp_secret = replicate 28 1,
       mr_totp_algorithm = ''Sha1'', mr_totp_digits = 6, mr_totp_period_secs = 30, mr_totp_window = 1, mr_backup_codes = '''', mr_enabled = True\<rparr>]\<rparr>)
     = Some config \<and> tc_secret config = replicate 28 1"
proof -
  let ?row = "\<lparr>mr_totp_secret = replicate 28 1, mr_totp_algorithm = ''Sha1'', mr_totp_digits = 6, mr_totp_period_secs = 30,
      mr_totp_window = 1, mr_backup_codes = '''', mr_enabled = True\<rparr>"
  have "\<not> is_ok (aes_open demo_crypto mini_kek (replicate 12 1) [] (replicate 16 1))"
    by (simp add: demo_crypto_def demo_open_def mini_kek_def)
  then show ?thesis
    using unreadable_secret_used [of "mini_manager\<lparr>mm_configs := [''eve'' \<mapsto> ?row]\<rparr>" "''eve''" ?row mini_kek demo_crypto]
    by (simp add: mini_manager_def mini_kek_def demo_crypto_def)
qed

lemma mini_loaded:
  "load_backup_codes mini_codecs True ''eve'' (mini_manager\<lparr>mm_configs := [''eve'' \<mapsto> \<lparr>mr_totp_secret = [],
     mr_totp_algorithm = ''Sha1'', mr_totp_digits = 6, mr_totp_period_secs = 30, mr_totp_window = 1,
     mr_backup_codes = mini_encode codes, mr_enabled = True\<rparr>]\<rparr>) = Some codes"
proof -
  obtain s where "mj_encode mini_codecs codes = Some s" "mj_decode mini_codecs s = Some codes"
    using codec_worksE [OF mini_codec_works] by blast
  then show ?thesis
    by (simp add: load_backup_codes_def mini_manager_def mini_codecs_def)
qed

definition mini_enrolled :: "string list \<Rightarrow> mfa_manager" where
  "mini_enrolled codes = mini_manager\<lparr>mm_configs := [''eve'' \<mapsto> \<lparr>mr_totp_secret = [],
     mr_totp_algorithm = ''Sha1'', mr_totp_digits = 6, mr_totp_period_secs = 30, mr_totp_window = 1,
     mr_backup_codes = mini_encode codes, mr_enabled = True\<rparr>]\<rparr>"

theorem backup_codes_used_up_witness:
  "length (filter (\<lambda>(d, accepted). accepted \<and> d = ''1234'') (fst (try_codes mini_mfa mini_codecs ''eve'' [''1234'', ''1234'']
     (mini_enrolled [hash_backup_code mini_mfa ''1234''])))) \<le> 1"
  using backup_codes_used_up [OF mini_codec_works mini_loaded, of "''1234''" mini_mfa "[''1234'', ''1234'']" "[hash_backup_code mini_mfa ''1234'']"]
  by (simp only: mini_enrolled_def [symmetric] count_list.simps if_True add_0 refl)

theorem backup_code_accepted_twice_witness:
  "fst (consume_read_codes mini_mfa mini_codecs True ''eve'' ''1234'' [hash_backup_code mini_mfa ''1234''] (mini_enrolled [hash_backup_code mini_mfa ''1234'']))
     \<and> fst (consume_read_codes mini_mfa mini_codecs True ''eve'' ''1234'' [hash_backup_code mini_mfa ''1234'']
        (snd (consume_read_codes mini_mfa mini_codecs True ''eve'' ''1234'' [hash_backup_code mini_mfa ''1234''] (mini_enrolled [hash_backup_code mini_mfa ''1234'']))))"
  unfolding mini_enrolled_def by (rule backup_code_accepted_twice [OF mini_loaded]) simp

end
