(* ===== verification/Rest.thy ===== *)
theory Rest
  imports Mfa Auth Approval Policy_Store Events Backup
begin

text \<open>
  The HTTP interface, \<^verbatim>\<open>crates/kms-api/src/rest.rs\<close>, with the validation of its input (\<^verbatim>\<open>validation.rs\<close>)
  and the manager of approval requests (\<^verbatim>\<open>approval.rs\<close>). A handler takes the caller the middleware has
  established, its parameters and the state of the service; bodies are taken as parsed, with the
  defaults of absent fields filled in. The audit log is the list of the events handed to it. Metrics,
  log output and the documentation of the interface are left out.
\<close>

section \<open>Validation of input\<close>

definition MAX_KEY_NAME_LENGTH :: nat where
  "MAX_KEY_NAME_LENGTH = 256"

definition MAX_DATA_LENGTH :: nat where
  "MAX_DATA_LENGTH = 16 * 1024 * 1024"

definition MAX_AAD_LENGTH :: nat where
  "MAX_AAD_LENGTH = 64 * 1024"

definition SUPPORTED_SPECS :: "string list" where
  "SUPPORTED_SPECS = [''aes-256-gcm'', ''ed25519'', ''ecdsa-p256'', ''ecdsa-p384'', ''sm4'', ''sm2'', ''sm9-signing'',
     ''sm9-encryption'', ''hmac-sha256'', ''hmac-sm3'', ''ed448'', ''rsa4096'']"

datatype validation_error =
    VInvalidSpec string
  | VInvalidKeyName string msg
  | VDataTooLarge nat nat
  | VInvalidBase64 string
  | VInvalidTenantId string
  | VEmptyField string

definition quote :: string where
  "quote = [CHR 39]"

fun validation_message :: "validation_error \<Rightarrow> msg" where
  "validation_message (VInvalidSpec v) =
     Fmt ([Lit ''unsupported spec: '', Lit quote, Str v, Lit quote, Lit ''. Supported: ''] @ map Dbg SUPPORTED_SPECS)"
| "validation_message (VInvalidKeyName v reason) =
     Fmt [Lit ''invalid key name '', Lit quote, Str v, Lit quote, Lit '': '', reason]"
| "validation_message (VDataTooLarge n mx) = Fmt [Lit ''data size '', Num n, Lit '' exceeds maximum '', Num mx]"
| "validation_message (VInvalidBase64 reason) = Fmt [Lit ''invalid base64 encoding: '', Str reason]"
| "validation_message (VInvalidTenantId v) =
     Fmt [Lit ''invalid tenant ID: '', Lit quote, Str v, Lit quote, Lit ''. Tenant IDs must be 1-128 alphanumeric characters'']"
| "validation_message (VEmptyField f) = Fmt [Str f, Lit '' cannot be empty'']"

definition validate_spec :: "string \<Rightarrow> validation_error + unit" where
  "validate_spec spec = (if to_lowercase spec \<notin> set SUPPORTED_SPECS then Inl (VInvalidSpec spec) else Inr ())"

definition ascii_alphanumeric :: "char \<Rightarrow> bool" where
  "ascii_alphanumeric c \<longleftrightarrow>
     (let n = of_char c :: nat in 48 \<le> n \<and> n \<le> 57 \<or> 65 \<le> n \<and> n \<le> 90 \<or> 97 \<le> n \<and> n \<le> 122)"

text \<open>The pattern for names: an alphanumeric character, then at most 255 of these or \<open>.\<close>, \<open>_\<close>, \<open>-\<close>.\<close>

definition key_name_matches :: "string \<Rightarrow> bool" where
  "key_name_matches name =
     (case name of
        [] \<Rightarrow> False
      | c # cs \<Rightarrow> ascii_alphanumeric c \<and> length cs \<le> 255
          \<and> list_all (\<lambda>c. ascii_alphanumeric c \<or> c = CHR ''.'' \<or> c = CHR ''_'' \<or> c = CHR ''-'') cs)"

definition validate_key_name :: "string \<Rightarrow> validation_error + unit" where
  "validate_key_name name =
     (if name = [] then Inl (VEmptyField ''name'')
      else if length name > MAX_KEY_NAME_LENGTH then
        Inl (VInvalidKeyName name (Fmt [Lit ''exceeds maximum length of '', Num MAX_KEY_NAME_LENGTH, Lit '' characters'']))
      else if \<not> key_name_matches name then
        Inl (VInvalidKeyName name (Lit ''must start with alphanumeric and contain only alphanumeric, dash, underscore, or period''))
      else Inr ())"

definition validate_tenant_id :: "string \<Rightarrow> validation_error + unit" where
  "validate_tenant_id tenant_id =
     (if tenant_id = [] then Inl (VEmptyField ''tenant_id'')
      else if length tenant_id > 128 then Inl (VInvalidTenantId tenant_id)
      else if \<not> list_all (\<lambda>c. ascii_alphanumeric c \<or> c = CHR ''-'' \<or> c = CHR ''_'') tenant_id then Inl (VInvalidTenantId tenant_id)
      else Inr ())"

definition validate_data_length :: "string \<Rightarrow> nat \<Rightarrow> validation_error + unit" where
  "validate_data_length data mx = (if length data > mx then Inl (VDataTooLarge (length data) mx) else Inr ())"

definition validate_base64 :: "(string \<Rightarrow> string + bytes) \<Rightarrow> string \<Rightarrow> nat \<Rightarrow> validation_error + nat" where
  "validate_base64 b64 data max_decoded_len =
     and_then (map_err VInvalidBase64 (b64 data)) (\<lambda>decoded.
       if length decoded > max_decoded_len then Inl (VDataTooLarge (length decoded) max_decoded_len) else Inr (length decoded))"

definition validate_create_key_request :: "string \<Rightarrow> string \<Rightarrow> string \<Rightarrow> validation_error + unit" where
  "validate_create_key_request name spec tenant_id =
     and_then (validate_key_name name) (\<lambda>_. and_then (validate_spec spec) (\<lambda>_. validate_tenant_id tenant_id))"

definition validate_aad :: "(string \<Rightarrow> string + bytes) \<Rightarrow> string option \<Rightarrow> validation_error + unit" where
  "validate_aad b64 aad =
     (case aad of
        Some aad_data \<Rightarrow>
          and_then (validate_data_length aad_data MAX_AAD_LENGTH) (\<lambda>_.
          and_then (validate_base64 b64 aad_data MAX_AAD_LENGTH) (\<lambda>_. Inr ()))
      | None \<Rightarrow> Inr ())"

definition validate_encrypt_request :: "(string \<Rightarrow> string + bytes) \<Rightarrow> string \<Rightarrow> string option \<Rightarrow> validation_error + unit" where
  "validate_encrypt_request b64 plaintext aad =
     and_then (validate_data_length plaintext MAX_DATA_LENGTH) (\<lambda>_.
     and_then (validate_base64 b64 plaintext MAX_DATA_LENGTH) (\<lambda>decoded_len.
     if decoded_len = 0 then Inl (VEmptyField ''plaintext'') else validate_aad b64 aad))"

definition validate_decrypt_request ::
  "(string \<Rightarrow> string + bytes) \<Rightarrow> string \<Rightarrow> string \<Rightarrow> string \<Rightarrow> string option \<Rightarrow> validation_error + unit" where
  "validate_decrypt_request b64 c nonce tag aad =
     and_then (validate_data_length c MAX_DATA_LENGTH) (\<lambda>_.
     and_then (validate_base64 b64 c MAX_DATA_LENGTH) (\<lambda>_.
     and_then (validate_data_length nonce 1024) (\<lambda>_.
     and_then (validate_base64 b64 nonce 1024) (\<lambda>_.
     and_then (validate_data_length tag 1024) (\<lambda>_.
     and_then (validate_base64 b64 tag 1024) (\<lambda>_.
     validate_aad b64 aad))))))"

section \<open>State\<close>

text \<open>
  Functions of other crates the handlers call themselves. A key of SM9 is what can be done with it: the
  signer and the decryptor an identity's key makes, and the verifier and encryptor of the master key.
\<close>

record rest_crates =
  rx_b64_decode :: "string \<Rightarrow> string + bytes"
  rx_parse_uuid :: "string \<Rightarrow> uuid option"
  rx_rfc3339 :: "time \<Rightarrow> string"
  rx_sm3_hash :: "bytes \<Rightarrow> string + bytes"
  rx_sm9_signer :: "bytes \<Rightarrow> string + (bytes \<Rightarrow> rng \<Rightarrow> string + bytes)"
  rx_sm9_signature_from_der :: "bytes \<Rightarrow> string + bytes"
  rx_sm9_signature_from_bytes :: "bytes \<Rightarrow> string + bytes"
  rx_sm9_verify :: "bytes \<Rightarrow> bytes \<Rightarrow> bytes \<Rightarrow> string + bool"
  rx_sm9_encrypt :: "bytes \<Rightarrow> bytes \<Rightarrow> rng \<Rightarrow> string + bytes"
  rx_sm9_ciphertext_from_bytes :: "bytes \<Rightarrow> string + bytes"
  rx_sm9_decryptor :: "bytes \<Rightarrow> string + (bytes \<Rightarrow> bytes \<Rightarrow> string + bytes)"

text \<open>What does not change while the service runs: the keystore's operations, other crates, the store of policies.\<close>

record ('n, 's, 'r, 'q, 'j, 'kp, 'v) kms_deps =
  dp_services :: "('n, 's, 'r) services"
  dp_health :: "'n \<Rightarrow> 's \<Rightarrow> (kms_error + health_status) \<times> 's"
  dp_derive :: "'n \<Rightarrow> uuid \<Rightarrow> bytes \<Rightarrow> dh_algorithm \<Rightarrow> string \<Rightarrow> 's \<Rightarrow> (kms_error + shared_secret) \<times> 's"
  dp_crypto :: "'kp crypto"
  dp_svc_crates :: svc_crates
  dp_format_crates :: "'v format_crates"
  dp_rest :: rest_crates
  dp_mfa_crates :: mfa_crates
  dp_mfa_codecs :: mfa_codecs
  dp_backup_crates :: backup_crates
  dp_policy_ops :: "'q policy_repository"
  dp_empty_object :: 'j
  dp_audit_query :: "audit_filter \<Rightarrow> audit_event list \<Rightarrow> audit_event list"

record ('s, 'r, 'q, 'j) kms_state =
  st_svc :: "('s, 'r) svc_state"
  st_policy :: "'q pbac_engine"
  st_approval :: "'j approval_engine"
  st_mfa :: mfa_manager
  st_api_keys :: api_key_config
  st_backup :: "(backup_service \<times> backup_dir) option"
  st_audit :: "audit_event list"

text \<open>What a request draws on: readings of clocks, fresh identifiers, random sources and the outcomes of calls.\<close>

record 'n request_env =
  re_call :: "'n call"
  re_envs :: "nat \<Rightarrow> 'n"
  re_clock :: "nat \<Rightarrow> time"
  re_policy_clock :: clock
  re_ids :: "nat \<Rightarrow> uuid"
  re_backup :: backup_env
  re_up :: "nat \<Rightarrow> bool"
  re_rng :: rng
  re_sys_rng :: sys_rng
  re_order :: "uuid list"

definition uuid_text :: "('n, 's, 'r, 'q, 'j, 'kp, 'v) kms_deps \<Rightarrow> uuid \<Rightarrow> string" where
  "uuid_text dp = svc_uuid_str (dp_services dp)"

definition log_event :: "audit_event \<Rightarrow> ('s, 'r, 'q, 'j) kms_state \<Rightarrow> ('s, 'r, 'q, 'j) kms_state" where
  "log_event e st = st\<lparr>st_audit := st_audit st @ [e]\<rparr>"

text \<open>A call of a service.\<close>

definition with_svc ::
  "(('s, 'r) svc_state \<Rightarrow> 'a \<times> ('s, 'r) svc_state) \<Rightarrow> ('s, 'r, 'q, 'j) kms_state \<Rightarrow> 'a \<times> ('s, 'r, 'q, 'j) kms_state" where
  "with_svc f st = (let (x, s) = f (st_svc st) in (x, st\<lparr>st_svc := s\<rparr>))"

text \<open>The policy check of every handler; a panic of the pattern matcher ends the request.\<close>

definition check_pbac ::
  "'n request_env \<Rightarrow> string \<Rightarrow> string \<Rightarrow> string \<Rightarrow> string \<Rightarrow> ('s, 'r, 'q, 'j) kms_state \<Rightarrow> api_error + unit" where
  "check_pbac en caller_id tenant action resource_id st =
     (case check_rest_pbac (re_policy_clock en) (st_policy st) caller_id tenant action resource_id of
        None \<Rightarrow> Inl (ApiPanicked ''glob_match'')
      | Some r \<Rightarrow> map_err (\<lambda>_. ApiPermissionDenied) r)"

definition resolve_tenant :: "string option \<Rightarrow> string \<Rightarrow> string" where
  "resolve_tenant bound self_reported = (case bound of Some b \<Rightarrow> b | None \<Rightarrow> self_reported)"

definition invalid :: "string \<Rightarrow> api_error" where
  "invalid s = ApiInvalidRequest (Lit s)"

definition decode_field :: "('n, 's, 'r, 'q, 'j, 'kp, 'v) kms_deps \<Rightarrow> string \<Rightarrow> string \<Rightarrow> api_error + bytes" where
  "decode_field dp field text = map_err (\<lambda>_. invalid (''invalid base64 '' @ field)) (rx_b64_decode (dp_rest dp) text)"

definition encode64 :: "('n, 's, 'r, 'q, 'j, 'kp, 'v) kms_deps \<Rightarrow> bytes \<Rightarrow> string" where
  "encode64 dp = b64_encode (dp_svc_crates dp)"

section \<open>Keys\<close>

record key_response =
  kr_id :: uuid
  kr_tenant_id :: string
  kr_name :: string
  kr_spec :: string
  kr_status :: string
  kr_version :: u32
  kr_created_at :: string

definition status_debug :: "key_status \<Rightarrow> string" where
  "status_debug s =
     (case s of Active \<Rightarrow> ''Active'' | PendingDeletion \<Rightarrow> ''PendingDeletion'' | Obsolete \<Rightarrow> ''Obsolete'' | Destroyed \<Rightarrow> ''Destroyed'')"

definition key_response_of :: "('n, 's, 'r, 'q, 'j, 'kp, 'v) kms_deps \<Rightarrow> key_meta \<Rightarrow> key_response" where
  "key_response_of dp meta =
     \<lparr>kr_id = m_id meta, kr_tenant_id = m_tenant_id meta, kr_name = m_name meta, kr_spec = spec_debug (m_spec meta),
      kr_status = status_debug (m_status meta), kr_version = m_version meta, kr_created_at = rx_rfc3339 (dp_rest dp) (m_created_at meta)\<rparr>"

record create_key_request =
  ckr_name :: string
  ckr_spec :: string
  ckr_tenant_id :: string

record tenant_query =
  tq_tenant_id :: string
  tq_approval_id :: "string option"

text \<open>The best-effort backup of a new key: its errors are only logged.\<close>

definition backup_new_key ::
  "('n, 's, 'r, 'q, 'j, 'kp, 'v) kms_deps \<Rightarrow> 'n request_env \<Rightarrow> key_meta \<Rightarrow> string \<Rightarrow> string
   \<Rightarrow> ('s, 'r, 'q, 'j) kms_state \<Rightarrow> ('s, 'r, 'q, 'j) kms_state" where
  "backup_new_key dp en meta tenant name st =
     (case st_backup st of
        None \<Rightarrow> st
      | Some (bs, d) \<Rightarrow>
          (case with_svc (keystore_call to_api
                   (be_get_key_material (svc_keystore (dp_services dp)) (re_envs en 0) (m_id meta) tenant)) st of
             (Inl _, st) \<Rightarrow> st
           | (Inr material, st) \<Rightarrow>
               let (r, bs, d) = backup_key (dp_crypto dp) (dp_backup_crates dp) (re_backup en) meta material (Some name) bs d
               in st\<lparr>st_backup := Some (bs, d)\<rparr>))"

definition rest_create_key ::
  "('n, 's, 'r, 'q, 'j, 'kp, 'v) kms_deps \<Rightarrow> 'n request_env \<Rightarrow> caller \<Rightarrow> create_key_request
   \<Rightarrow> ('s, 'r, 'q, 'j) kms_state \<Rightarrow> (api_error + key_response) \<times> ('s, 'r, 'q, 'j) kms_state" where
  "rest_create_key dp en cl req st =
     (let tenant = resolve_tenant (cl_bound_tenant cl) (ckr_tenant_id req)
      in then_st (map_err (\<lambda>e. ApiInvalidRequest (validation_message e))
                    (validate_create_key_request (ckr_name req) (ckr_spec req) tenant), st) (\<lambda>_ st.
         then_st (check_pbac en (cl_key_id cl) tenant ''create_key'' (ckr_name req) st, st) (\<lambda>_ st.
         then_st (parse_spec (ckr_spec req), st) (\<lambda>spec st.
         then_st (with_svc (kys_create_key (dp_services dp) (re_call en) spec (ckr_name req) tenant) st) (\<lambda>meta st.
         let st = backup_new_key dp en meta tenant (ckr_name req) st;
             event = ev_key_created (uuid_text dp) (re_ids en 0) (re_clock en 0) (m_id meta) (cl_key_id cl) (ckr_spec req)
         in (Inr (key_response_of dp meta), log_event event st))))))"

definition rest_get_key ::
  "('n, 's, 'r, 'q, 'j, 'kp, 'v) kms_deps \<Rightarrow> 'n request_env \<Rightarrow> caller \<Rightarrow> uuid \<Rightarrow> tenant_query
   \<Rightarrow> ('s, 'r, 'q, 'j) kms_state \<Rightarrow> (api_error + key_response) \<times> ('s, 'r, 'q, 'j) kms_state" where
  "rest_get_key dp en cl i tq st =
     (let tenant_id = resolve_tenant (cl_bound_tenant cl) (tq_tenant_id tq)
      in then_st (check_pbac en (cl_key_id cl) tenant_id ''get_key'' (uuid_text dp i) st, st) (\<lambda>_ st.
         then_st (with_svc (kys_get_key (dp_services dp) (re_call en) i tenant_id) st) (\<lambda>meta st.
         (Inr (key_response_of dp meta), st))))"

definition key_filter_default :: key_filter where
  "key_filter_default = \<lparr>kf_tenant_id = None, kf_status = None, kf_spec = None, kf_tags = None, kf_limit = None, kf_offset = None\<rparr>"

definition rest_list_keys ::
  "('n, 's, 'r, 'q, 'j, 'kp, 'v) kms_deps \<Rightarrow> 'n request_env \<Rightarrow> caller \<Rightarrow> tenant_query
   \<Rightarrow> ('s, 'r, 'q, 'j) kms_state \<Rightarrow> (api_error + key_response list) \<times> ('s, 'r, 'q, 'j) kms_state" where
  "rest_list_keys dp en cl tq st =
     (let tenant_id = resolve_tenant (cl_bound_tenant cl) (tq_tenant_id tq)
      in then_st (check_pbac en (cl_key_id cl) tenant_id ''list_keys'' ''keys'' st, st) (\<lambda>_ st.
         then_st (with_svc (kys_list_keys (dp_services dp) (re_call en) key_filter_default tenant_id) st) (\<lambda>ks st.
         (Inr (map (key_response_of dp) ks), st))))"

section \<open>Using keys\<close>

record encrypt_request =
  er_plaintext :: string
  er_aad :: "string option"

record encrypt_response =
  es_ciphertext :: string
  es_nonce :: string
  es_tag :: string
  es_format_version :: u8
  es_version :: u32

definition rest_encrypt ::
  "('n, 's, 'r, 'q, 'j, 'kp, 'v) kms_deps \<Rightarrow> 'n request_env \<Rightarrow> caller \<Rightarrow> uuid \<Rightarrow> tenant_query \<Rightarrow> encrypt_request
   \<Rightarrow> ('s, 'r, 'q, 'j) kms_state \<Rightarrow> (api_error + encrypt_response) \<times> ('s, 'r, 'q, 'j) kms_state" where
  "rest_encrypt dp en cl i tq req st =
     (let tenant_id = resolve_tenant (cl_bound_tenant cl) (tq_tenant_id tq)
      in then_st (check_pbac en (cl_key_id cl) tenant_id ''encrypt'' (uuid_text dp i) st, st) (\<lambda>_ st.
         then_st (map_err (\<lambda>e. ApiInvalidRequest (validation_message e))
                    (validate_encrypt_request (rx_b64_decode (dp_rest dp)) (er_plaintext req) (er_aad req)), st) (\<lambda>_ st.
         then_st (decode_field dp ''plaintext'' (er_plaintext req), st) (\<lambda>plaintext st.
         then_st (with_svc (cs_encrypt (dp_services dp) (re_call en) i plaintext (map_option str_bytes (er_aad req)) tenant_id) st) (\<lambda>c st.
         let event = ev_key_encrypted (uuid_text dp) (re_ids en 0) (re_clock en 0) i (cl_key_id cl) (length plaintext)
         in (Inr \<lparr>es_ciphertext = encode64 dp (ct_ciphertext c), es_nonce = encode64 dp (ct_nonce c), es_tag = encode64 dp (ct_tag c),
                  es_format_version = ct_format_version c, es_version = ct_version c\<rparr>, log_event event st))))))"

record decrypt_request =
  dr_ciphertext :: string
  dr_nonce :: string
  dr_tag :: string
  dr_aad :: "string option"
  dr_format_version :: u8
  dr_version :: u32

definition rest_decrypt ::
  "('n, 's, 'r, 'q, 'j, 'kp, 'v) kms_deps \<Rightarrow> 'n request_env \<Rightarrow> caller \<Rightarrow> uuid \<Rightarrow> tenant_query \<Rightarrow> decrypt_request
   \<Rightarrow> ('s, 'r, 'q, 'j) kms_state \<Rightarrow> (api_error + string) \<times> ('s, 'r, 'q, 'j) kms_state" where
  "rest_decrypt dp en cl i tq req st =
     (let tenant_id = resolve_tenant (cl_bound_tenant cl) (tq_tenant_id tq)
      in then_st (check_pbac en (cl_key_id cl) tenant_id ''decrypt'' (uuid_text dp i) st, st) (\<lambda>_ st.
         then_st (map_err (\<lambda>e. ApiInvalidRequest (validation_message e))
                    (validate_decrypt_request (rx_b64_decode (dp_rest dp)) (dr_ciphertext req) (dr_nonce req) (dr_tag req) (dr_aad req)), st) (\<lambda>_ st.
         then_st (decode_field dp ''nonce'' (dr_nonce req), st) (\<lambda>nonce st.
         then_st (decode_field dp ''ciphertext'' (dr_ciphertext req), st) (\<lambda>cipher st.
         then_st (decode_field dp ''tag'' (dr_tag req), st) (\<lambda>tag st.
         let c = \<lparr>ct_key_id = i, ct_version = (if dr_version req = 0 then 1 else dr_version req), ct_format_version = dr_format_version req,
                  ct_nonce = nonce, ct_ciphertext = cipher, ct_tag = tag\<rparr>
         in then_st (with_svc (cs_decrypt (dp_services dp) (re_call en) i c (map_option str_bytes (dr_aad req)) tenant_id) st) (\<lambda>plaintext st.
            let event = ev_key_decrypted (uuid_text dp) (re_ids en 0) (re_clock en 0) i (cl_key_id cl) (length plaintext)
            in (Inr (encode64 dp plaintext), log_event event st))))))))"

record sign_response =
  sr_signature :: string
  sr_version :: u32

definition rest_sign ::
  "('n, 's, 'r, 'q, 'j, 'kp, 'v) kms_deps \<Rightarrow> 'n request_env \<Rightarrow> caller \<Rightarrow> uuid \<Rightarrow> tenant_query \<Rightarrow> string
   \<Rightarrow> ('s, 'r, 'q, 'j) kms_state \<Rightarrow> (api_error + sign_response) \<times> ('s, 'r, 'q, 'j) kms_state" where
  "rest_sign dp en cl i tq data_text st =
     (let tenant_id = resolve_tenant (cl_bound_tenant cl) (tq_tenant_id tq)
      in then_st (check_pbac en (cl_key_id cl) tenant_id ''sign'' (uuid_text dp i) st, st) (\<lambda>_ st.
         then_st (decode_field dp ''data'' data_text, st) (\<lambda>data st.
         then_st (with_svc (cs_sign (dp_services dp) (re_call en) i data tenant_id) st) (\<lambda>sg st.
         let event = ev_key_signed (uuid_text dp) (re_ids en 0) (re_clock en 0) i (cl_key_id cl)
         in (Inr \<lparr>sr_signature = encode64 dp (sig_signature sg), sr_version = sig_version sg\<rparr>, log_event event st)))))"

definition rest_verify ::
  "('n, 's, 'r, 'q, 'j, 'kp, 'v) kms_deps \<Rightarrow> 'n request_env \<Rightarrow> caller \<Rightarrow> uuid \<Rightarrow> tenant_query \<Rightarrow> string \<Rightarrow> string
   \<Rightarrow> ('s, 'r, 'q, 'j) kms_state \<Rightarrow> (api_error + bool) \<times> ('s, 'r, 'q, 'j) kms_state" where
  "rest_verify dp en cl i tq data_text signature_text st =
     (let tenant_id = resolve_tenant (cl_bound_tenant cl) (tq_tenant_id tq)
      in then_st (check_pbac en (cl_key_id cl) tenant_id ''verify'' (uuid_text dp i) st, st) (\<lambda>_ st.
         then_st (decode_field dp ''data'' data_text, st) (\<lambda>data st.
         then_st (decode_field dp ''signature'' signature_text, st) (\<lambda>signature_bytes st.
         let sg = \<lparr>sig_key_id = i, sig_version = 1, sig_signature = signature_bytes\<rparr>
         in then_st (with_svc (cs_verify (dp_services dp) (re_call en) i data sg tenant_id) st) (\<lambda>valid st.
            let event = ev_key_verified (uuid_text dp) (re_ids en 0) (re_clock en 0) i (cl_key_id cl) valid
            in (Inr valid, log_event event st))))))"

definition decode_aad :: "('n, 's, 'r, 'q, 'j, 'kp, 'v) kms_deps \<Rightarrow> string option \<Rightarrow> api_error + bytes option" where
  "decode_aad dp aad =
     (case aad of None \<Rightarrow> Inr None | Some s \<Rightarrow> and_then (decode_field dp ''aad'' s) (\<lambda>b. Inr (Some b)))"

record hmac_response =
  hr_mac :: string
  hr_version :: u32

definition rest_hmac ::
  "('n, 's, 'r, 'q, 'j, 'kp, 'v) kms_deps \<Rightarrow> 'n request_env \<Rightarrow> caller \<Rightarrow> uuid \<Rightarrow> tenant_query \<Rightarrow> string \<Rightarrow> string option
   \<Rightarrow> ('s, 'r, 'q, 'j) kms_state \<Rightarrow> (api_error + hmac_response) \<times> ('s, 'r, 'q, 'j) kms_state" where
  "rest_hmac dp en cl i tq data_text aad_text st =
     (let tenant_id = resolve_tenant (cl_bound_tenant cl) (tq_tenant_id tq)
      in then_st (check_pbac en (cl_key_id cl) tenant_id ''hmac'' (uuid_text dp i) st, st) (\<lambda>_ st.
         then_st (decode_field dp ''data'' data_text, st) (\<lambda>data st.
         then_st (decode_aad dp aad_text, st) (\<lambda>aad st.
         then_st (with_svc (cs_hmac (dp_svc_crates dp) (dp_services dp) (re_call en) i data aad tenant_id) st) (\<lambda>(mac, version) st.
         let event = ev_key_signed (uuid_text dp) (re_ids en 0) (re_clock en 0) i (cl_key_id cl)
         in (Inr \<lparr>hr_mac = encode64 dp mac, hr_version = version\<rparr>, log_event event st))))))"

definition rest_hmac_verify ::
  "('n, 's, 'r, 'q, 'j, 'kp, 'v) kms_deps \<Rightarrow> 'n request_env \<Rightarrow> caller \<Rightarrow> uuid \<Rightarrow> tenant_query \<Rightarrow> string \<Rightarrow> string \<Rightarrow> string option
   \<Rightarrow> ('s, 'r, 'q, 'j) kms_state \<Rightarrow> (api_error + bool) \<times> ('s, 'r, 'q, 'j) kms_state" where
  "rest_hmac_verify dp en cl i tq data_text mac_text aad_text st =
     (let tenant_id = resolve_tenant (cl_bound_tenant cl) (tq_tenant_id tq)
      in then_st (check_pbac en (cl_key_id cl) tenant_id ''hmac_verify'' (uuid_text dp i) st, st) (\<lambda>_ st.
         then_st (decode_field dp ''data'' data_text, st) (\<lambda>data st.
         then_st (decode_field dp ''mac'' mac_text, st) (\<lambda>expected_mac st.
         then_st (decode_aad dp aad_text, st) (\<lambda>aad st.
         then_st (with_svc (cs_hmac_verify (dp_svc_crates dp) (dp_services dp) (re_call en) i data aad expected_mac tenant_id) st) (\<lambda>valid st.
         let event = ev_key_verified (uuid_text dp) (re_ids en 0) (re_clock en 0) i (cl_key_id cl) valid
         in (Inr valid, log_event event st)))))))"

text \<open>The tenant of the checks that have none in the request: the one the key is bound to.\<close>

definition bound_or_empty :: "caller \<Rightarrow> string" where
  "bound_or_empty cl = (case cl_bound_tenant cl of Some t \<Rightarrow> t | None \<Rightarrow> [])"

definition plain_event :: "'n request_env \<Rightarrow> event_type \<Rightarrow> string \<Rightarrow> string \<Rightarrow> string \<Rightarrow> string option \<Rightarrow> audit_event" where
  "plain_event en kind actor action resource_type resource_id =
     event_new (re_ids en 0) (re_clock en 0) kind actor ''user'' action resource_type resource_id ''success''"

record hash_response =
  hs_hash :: string
  hs_algorithm :: string

definition rest_hash ::
  "('n, 's, 'r, 'q, 'j, 'kp, 'v) kms_deps \<Rightarrow> 'n request_env \<Rightarrow> caller \<Rightarrow> string \<Rightarrow> string
   \<Rightarrow> ('s, 'r, 'q, 'j) kms_state \<Rightarrow> (api_error + hash_response) \<times> ('s, 'r, 'q, 'j) kms_state" where
  "rest_hash dp en cl data_text algorithm st =
     then_st (check_pbac en (cl_key_id cl) (bound_or_empty cl) ''hash'' ''hash'' st, st) (\<lambda>_ st.
     then_st (decode_field dp ''data'' data_text, st) (\<lambda>data st.
     then_st (if to_lowercase algorithm = ''sm3'' then
                and_then (map_err (\<lambda>e. ApiInternal (Str e)) (rx_sm3_hash (dp_rest dp) data)) (\<lambda>h. Inr (hex_encode (dp_crypto dp) h))
              else if to_lowercase algorithm = ''sha256'' then Inr (hex_encode (dp_crypto dp) (sha256 (dp_crypto dp) data))
              else Inl (ApiInvalidRequest (Fmt [Lit ''unsupported hash algorithm: '', Str algorithm])), st) (\<lambda>hash_hex st.
     (Inr \<lparr>hs_hash = hash_hex, hs_algorithm = to_lowercase algorithm\<rparr>,
      log_event (plain_event en KeyAccessed (cl_key_id cl) ''hash'' ''crypto'' None) st))))"

section \<open>Health\<close>

record health_response =
  hp_status :: string
  hp_keystore :: string
  hp_audit :: string

definition health_check ::
  "('n, 's, 'r, 'q, 'j, 'kp, 'v) kms_deps \<Rightarrow> 'n request_env
   \<Rightarrow> ('s, 'r, 'q, 'j) kms_state \<Rightarrow> (api_error + health_response) \<times> ('s, 'r, 'q, 'j) kms_state" where
  "health_check dp en st =
     (let (r, ks) = dp_health dp (re_envs en 0) (sv_keystore (st_svc st));
          keystore_status = (case r of Inr Healthy \<Rightarrow> ''healthy'' | Inr Degraded \<Rightarrow> ''degraded'' | Inr Unhealthy \<Rightarrow> ''unhealthy''
                             | Inr Unknown \<Rightarrow> ''unknown'' | Inl _ \<Rightarrow> ''error'');
          audit_status = ''healthy'';
          overall_status = (if keystore_status = ''healthy'' \<and> audit_status = ''healthy'' then ''ok''
                            else if keystore_status = ''degraded'' \<or> audit_status = ''error'' then ''degraded'' else ''error'')
      in (Inr \<lparr>hp_status = overall_status, hp_keystore = keystore_status, hp_audit = audit_status\<rparr>,
          st\<lparr>st_svc := (st_svc st)\<lparr>sv_keystore := ks\<rparr>\<rparr>))"

definition liveness_probe :: nat where
  "liveness_probe = 200"

definition readiness_probe ::
  "('n, 's, 'r, 'q, 'j, 'kp, 'v) kms_deps \<Rightarrow> 'n request_env \<Rightarrow> ('s, 'r, 'q, 'j) kms_state \<Rightarrow> nat \<times> ('s, 'r, 'q, 'j) kms_state" where
  "readiness_probe dp en st =
     (let (r, ks) = dp_health dp (re_envs en 0) (sv_keystore (st_svc st))
      in (case r of Inr Healthy \<Rightarrow> 200 | Inr Degraded \<Rightarrow> 200 | Inr Unhealthy \<Rightarrow> 503 | Inr Unknown \<Rightarrow> 503 | Inl _ \<Rightarrow> 503,
          st\<lparr>st_svc := (st_svc st)\<lparr>sv_keystore := ks\<rparr>\<rparr>))"

end
