(* ===== verification/Rest_Control.thy ===== *)
theory Rest_Control
  imports Rest
begin

text \<open>
  The rest of the HTTP interface, \<^verbatim>\<open>crates/kms-api/src/rest.rs\<close>: approval requests with their manager
  (\<^verbatim>\<open>crates/kms-api/src/approval.rs\<close>), the operations that need an approval, second factors, envelopes, key
  agreement, policies, the audit log, SM9, and the table of routes with the permission each demands.
\<close>

section \<open>The approval manager\<close>

definition operation_to_string :: "operation_type \<Rightarrow> string" where
  "operation_to_string op =
     (case op of KeyDelete \<Rightarrow> ''key_delete'' | KeyExport \<Rightarrow> ''key_export'' | KeyRotate \<Rightarrow> ''key_rotate'' | PolicyChange \<Rightarrow> ''policy_change''
      | HighValueKeyCreate \<Rightarrow> ''high_value_key_create'' | AuditAccess \<Rightarrow> ''audit_access'' | MfaChange \<Rightarrow> ''mfa_change''
      | operation_type.TenantAdmin \<Rightarrow> ''tenant_admin'')"

definition status_to_string :: "approval_status \<Rightarrow> string" where
  "status_to_string s =
     (case s of Pending \<Rightarrow> ''pending'' | Approved \<Rightarrow> ''approved'' | Rejected \<Rightarrow> ''rejected'' | Cancelled \<Rightarrow> ''cancelled''
      | approval_status.Expired \<Rightarrow> ''expired'' | EmergencyActivated \<Rightarrow> ''emergency_activated'' | EmergencyExpired \<Rightarrow> ''emergency_expired'')"

definition level_to_string :: "approval_level \<Rightarrow> string" where
  "level_to_string l =
     (case l of LNone \<Rightarrow> ''none'' | LSingle \<Rightarrow> ''single'' | LDouble \<Rightarrow> ''double'' | LTriple \<Rightarrow> ''triple''
      | LManager \<Rightarrow> ''manager'' | LAdmin \<Rightarrow> ''admin'')"

record approval_request_response =
  apr_id :: string
  apr_operation :: string
  apr_resource_id :: string
  apr_resource_type :: string
  apr_tenant_id :: string
  apr_requestor_id :: string
  apr_justification :: "string option"
  apr_status :: string
  apr_required_level :: string
  apr_current_level :: string
  apr_approvals_count :: nat
  apr_rejections_count :: nat
  apr_created_at :: string
  apr_expires_at :: string
  apr_completed_at :: "string option"

definition approval_response_of ::
  "('n, 's, 'r, 'q, 'j, 'kp, 'v) kms_deps \<Rightarrow> 'j approval_request \<Rightarrow> approval_request_response" where
  "approval_response_of dp e =
     \<lparr>apr_id = uuid_text dp (aq_id e), apr_operation = operation_to_string (aq_operation e), apr_resource_id = aq_resource_id e,
      apr_resource_type = aq_resource_type e, apr_tenant_id = aq_tenant_id e, apr_requestor_id = aq_requestor_id e,
      apr_justification = aq_justification e, apr_status = status_to_string (aq_status e),
      apr_required_level = level_to_string (aq_required_level e), apr_current_level = level_to_string (aq_current_level e),
      apr_approvals_count = length (aq_approvals e), apr_rejections_count = length (aq_rejections e),
      apr_created_at = rx_rfc3339 (dp_rest dp) (aq_created_at e), apr_expires_at = rx_rfc3339 (dp_rest dp) (aq_expires_at e),
      apr_completed_at = map_option (rx_rfc3339 (dp_rest dp)) (aq_completed_at e)\<rparr>"

definition to_option :: "'e + 'a \<Rightarrow> 'a option" where
  "to_option r = (case r of Inl _ \<Rightarrow> None | Inr x \<Rightarrow> Some x)"

definition mgr_create_request ::
  "('n, 's, 'r, 'q, 'j, 'kp, 'v) kms_deps \<Rightarrow> uuid \<Rightarrow> time \<Rightarrow> operation_type \<Rightarrow> string \<Rightarrow> string \<Rightarrow> string \<Rightarrow> string \<Rightarrow> string option \<Rightarrow> approval_level option
   \<Rightarrow> 'j approval_engine \<Rightarrow> approval_request_response option \<times> 'j approval_engine" where
  "mgr_create_request dp new_id now operation resource_id resource_type tenant_id requestor_id justification required_level e =
     (let level = (case required_level of Some l \<Rightarrow> l | None \<Rightarrow> default_required_level operation);
          (r, e) = create_request (dp_empty_object dp) new_id now operation resource_id resource_type tenant_id requestor_id justification level e
      in (map_option (approval_response_of dp) (to_option r), e))"

definition mgr_approve ::
  "('n, 's, 'r, 'q, 'j, 'kp, 'v) kms_deps \<Rightarrow> (nat \<Rightarrow> time) \<Rightarrow> uuid \<Rightarrow> string \<Rightarrow> role \<Rightarrow> string option
   \<Rightarrow> 'j approval_engine \<Rightarrow> (approval_error + approval_request_response) \<times> 'j approval_engine" where
  "mgr_approve dp clk request_id approver_id approver_role comment e =
     then_st (approve clk request_id approver_id approver_role comment e) (\<lambda>r e. (Inr (approval_response_of dp r), e))"

definition mgr_reject ::
  "('n, 's, 'r, 'q, 'j, 'kp, 'v) kms_deps \<Rightarrow> (nat \<Rightarrow> time) \<Rightarrow> uuid \<Rightarrow> string \<Rightarrow> role \<Rightarrow> string
   \<Rightarrow> 'j approval_engine \<Rightarrow> (approval_error + approval_request_response) \<times> 'j approval_engine" where
  "mgr_reject dp clk request_id rejector_id rejector_role reason e =
     then_st (reject clk request_id rejector_id rejector_role reason e) (\<lambda>r e. (Inr (approval_response_of dp r), e))"

definition mgr_cancel ::
  "('n, 's, 'r, 'q, 'j, 'kp, 'v) kms_deps \<Rightarrow> (nat \<Rightarrow> time) \<Rightarrow> uuid \<Rightarrow> string
   \<Rightarrow> 'j approval_engine \<Rightarrow> approval_request_response option \<times> 'j approval_engine" where
  "mgr_cancel dp clk request_id requestor_id e =
     (let (r, e) = cancel clk request_id requestor_id e in (map_option (approval_response_of dp) (to_option r), e))"

definition mgr_get_request ::
  "('n, 's, 'r, 'q, 'j, 'kp, 'v) kms_deps \<Rightarrow> uuid \<Rightarrow> 'j approval_engine \<Rightarrow> approval_request_response option" where
  "mgr_get_request dp request_id e = map_option (approval_response_of dp) (to_option (get_request e request_id))"

definition mgr_list_pending ::
  "('n, 's, 'r, 'q, 'j, 'kp, 'v) kms_deps \<Rightarrow> uuid list \<Rightarrow> string \<Rightarrow> 'j approval_engine \<Rightarrow> approval_request_response list" where
  "mgr_list_pending dp order tenant_id e = map (approval_response_of dp) (list_pending order e tenant_id)"

section \<open>Operations that need an approval\<close>

definition require_approved ::
  "('n, 's, 'r, 'q, 'j, 'kp, 'v) kms_deps \<Rightarrow> time \<Rightarrow> string option \<Rightarrow> operation_type \<Rightarrow> string \<Rightarrow> string
   \<Rightarrow> ('s, 'r, 'q, 'j) kms_state \<Rightarrow> api_error + unit" where
  "require_approved dp now approval_id operation resource_id action st =
     (case approval_id of
        Some id_str \<Rightarrow>
          if id_str \<noteq> [] then
            and_then (ok_or (invalid ''invalid approval_id format'') (rx_parse_uuid (dp_rest dp) id_str)) (\<lambda>approval_uuid.
            if \<not> is_approved now (st_approval st) approval_uuid operation resource_id
            then Inl (ApiForbidden (Fmt [Str action, Lit '' requires a fully approved request bound to this resource'']))
            else Inr ())
          else Inl (ApiInvalidRequest (Fmt [Str action, Lit '' requires an approved request. Create one via POST /v1/approvals first'']))
      | None \<Rightarrow> Inl (ApiInvalidRequest (Fmt [Str action, Lit '' requires an approved request. Create one via POST /v1/approvals first''])))"

definition rest_rotate_key ::
  "('n, 's, 'r, 'q, 'j, 'kp, 'v) kms_deps \<Rightarrow> 'n request_env \<Rightarrow> caller \<Rightarrow> uuid \<Rightarrow> tenant_query
   \<Rightarrow> ('s, 'r, 'q, 'j) kms_state \<Rightarrow> (api_error + key_response) \<times> ('s, 'r, 'q, 'j) kms_state" where
  "rest_rotate_key dp en cl i tq st =
     (let tenant_id = resolve_tenant (cl_bound_tenant cl) (tq_tenant_id tq)
      in then_st (check_pbac en (cl_key_id cl) tenant_id ''rotate_key'' (uuid_text dp i) st, st) (\<lambda>_ st.
         then_st (require_approved dp (re_clock en 1) (tq_approval_id tq) KeyRotate (uuid_text dp i) ''key rotation'' st, st) (\<lambda>_ st.
         then_st (with_svc (kys_rotate_key (dp_services dp) (re_call en) i tenant_id) st) (\<lambda>meta st.
         let event = ev_key_rotated (uuid_text dp) (re_ids en 0) (re_clock en 0) i (cl_key_id cl)
         in (Inr (key_response_of dp meta), log_event event st)))))"

definition rest_delete_key ::
  "('n, 's, 'r, 'q, 'j, 'kp, 'v) kms_deps \<Rightarrow> 'n request_env \<Rightarrow> caller \<Rightarrow> uuid \<Rightarrow> tenant_query
   \<Rightarrow> ('s, 'r, 'q, 'j) kms_state \<Rightarrow> (api_error + unit) \<times> ('s, 'r, 'q, 'j) kms_state" where
  "rest_delete_key dp en cl i tq st =
     (let tenant_id = resolve_tenant (cl_bound_tenant cl) (tq_tenant_id tq)
      in then_st (check_pbac en (cl_key_id cl) tenant_id ''delete_key'' (uuid_text dp i) st, st) (\<lambda>_ st.
         then_st (require_approved dp (re_clock en 1) (tq_approval_id tq) KeyDelete (uuid_text dp i) ''key deletion'' st, st) (\<lambda>_ st.
         then_st (with_svc (kys_delete_key (dp_services dp) (re_call en) i tenant_id) st) (\<lambda>_ st.
         let event = ev_key_deleted (uuid_text dp) (re_ids en 0) (re_clock en 0) i (cl_key_id cl)
         in (Inr (), log_event event st)))))"

record export_key_request =
  xr_target_public_key :: string
  xr_purpose :: string
  xr_approval_id :: "string option"
  xr_protection_scheme :: "string option"
  xr_version :: "u32 option"

definition rest_export_key ::
  "('n, 's, 'r, 'q, 'j, 'kp, 'v) kms_deps \<Rightarrow> 'n request_env \<Rightarrow> caller \<Rightarrow> uuid \<Rightarrow> tenant_query \<Rightarrow> export_key_request
   \<Rightarrow> ('s, 'r, 'q, 'j) kms_state \<Rightarrow> (api_error + exported_key) \<times> ('s, 'r, 'q, 'j) kms_state" where
  "rest_export_key dp en cl i tq req st =
     (let tenant_id = resolve_tenant (cl_bound_tenant cl) (tq_tenant_id tq)
      in then_st (check_pbac en (cl_key_id cl) tenant_id ''export_key'' (uuid_text dp i) st, st) (\<lambda>_ st.
         then_st (require_approved dp (re_clock en 2) (xr_approval_id req) KeyExport (uuid_text dp i) ''key export'' st, st) (\<lambda>_ st.
         then_st (decode_field dp ''target_public_key'' (xr_target_public_key req), st) (\<lambda>target_pubkey st.
         then_st (parse_protection (xr_protection_scheme req), st) (\<lambda>protection st.
         then_st (with_svc (kys_export_key (dp_crypto dp) (dp_svc_crates dp) (dp_services dp) (re_call en) i target_pubkey tenant_id
                              \<lparr>eo_protection = protection, eo_version = xr_version req\<rparr>) st) (\<lambda>exported st.
         let st = log_event (ev_key_export_requested (uuid_text dp) (re_ids en 0) (re_clock en 0) i (cl_key_id cl) (xr_purpose req)) st;
             st = log_event (ev_key_exported (uuid_text dp) (re_ids en 1) (re_clock en 1) i (cl_key_id cl) (xr_purpose req)) st
         in (Inr exported, st)))))))"

section \<open>Approval requests\<close>

definition parse_operation :: "string \<Rightarrow> operation_type option" where
  "parse_operation op =
     (let s = to_lowercase op
      in if s = ''key_delete'' then Some KeyDelete else if s = ''key_export'' then Some KeyExport
         else if s = ''key_rotate'' then Some KeyRotate else if s = ''policy_change'' then Some PolicyChange
         else if s = ''high_value_key_create'' then Some HighValueKeyCreate else if s = ''audit_access'' then Some AuditAccess
         else if s = ''mfa_change'' then Some MfaChange else if s = ''tenant_admin'' then Some operation_type.TenantAdmin
         else None)"

definition resource_type_for :: "operation_type \<Rightarrow> string" where
  "resource_type_for op =
     (case op of KeyDelete \<Rightarrow> ''key'' | KeyExport \<Rightarrow> ''key'' | KeyRotate \<Rightarrow> ''key'' | HighValueKeyCreate \<Rightarrow> ''key-request''
      | PolicyChange \<Rightarrow> ''policy'' | AuditAccess \<Rightarrow> ''audit'' | MfaChange \<Rightarrow> ''mfa'' | operation_type.TenantAdmin \<Rightarrow> ''tenant'')"

definition role_from_permission :: "api_key_permission \<Rightarrow> role" where
  "role_from_permission p =
     (case p of ReadOnly \<Rightarrow> RUser | Operator \<Rightarrow> ROperator | KeyAdmin \<Rightarrow> RManager | SecurityOfficer \<Rightarrow> RSecurityOfficer
      | AuditAdmin \<Rightarrow> RUser | api_key_permission.TenantAdmin \<Rightarrow> RAdmin)"

definition eq_ignore_ascii_case :: "string \<Rightarrow> string \<Rightarrow> bool" where
  "eq_ignore_ascii_case a b \<longleftrightarrow> map ascii_lower a = map ascii_lower b"

definition ensure_resource_tenant ::
  "('n, 's, 'r, 'q, 'j, 'kp, 'v) kms_deps \<Rightarrow> 'n request_env \<Rightarrow> string \<Rightarrow> string \<Rightarrow> string
   \<Rightarrow> ('s, 'r, 'q, 'j) kms_state \<Rightarrow> (api_error + unit) \<times> ('s, 'r, 'q, 'j) kms_state" where
  "ensure_resource_tenant dp en resource_type resource_id tenant_id st =
     (if \<not> eq_ignore_ascii_case resource_type ''key'' then (Inr (), st)
      else
        then_st (ok_or (invalid ''invalid resource_id format'') (rx_parse_uuid (dp_rest dp) resource_id), st) (\<lambda>key_id st.
        then_st (with_svc (keystore_call (\<lambda>_. ApiKeyNotFound (Id key_id))
                   (be_get_key_metadata (svc_keystore (dp_services dp)) (re_envs en 0) key_id)) st) (\<lambda>meta st.
        if m_tenant_id meta \<noteq> tenant_id then (Inl (ApiKeyNotFound (Id key_id)), st) else (Inr (), st))))"

definition approval_not_found :: api_error where
  "approval_not_found = ApiNotFound (Lit ''Approval request not found'')"

definition ensure_approval_tenant ::
  "uuid \<Rightarrow> string option \<Rightarrow> ('s, 'r, 'q, 'j) kms_state \<Rightarrow> api_error + unit" where
  "ensure_approval_tenant request_id bound st =
     (case bound of
        None \<Rightarrow> Inr ()
      | Some bound_tenant \<Rightarrow>
          (case get_request (st_approval st) request_id of
             Inr r \<Rightarrow> if aq_tenant_id r \<noteq> bound_tenant then Inl approval_not_found else Inr ()
           | Inl _ \<Rightarrow> Inr ()))"

record create_approval_req =
  cq_operation :: string
  cq_resource_id :: string
  cq_tenant_id :: string
  cq_justification :: "string option"

definition on_approval ::
  "('j approval_engine \<Rightarrow> 'a \<times> 'j approval_engine) \<Rightarrow> ('s, 'r, 'q, 'j) kms_state \<Rightarrow> 'a \<times> ('s, 'r, 'q, 'j) kms_state" where
  "on_approval f st = (let (x, e) = f (st_approval st) in (x, st\<lparr>st_approval := e\<rparr>))"

definition create_approval_request ::
  "('n, 's, 'r, 'q, 'j, 'kp, 'v) kms_deps \<Rightarrow> 'n request_env \<Rightarrow> caller \<Rightarrow> create_approval_req
   \<Rightarrow> ('s, 'r, 'q, 'j) kms_state \<Rightarrow> (api_error + approval_request_response) \<times> ('s, 'r, 'q, 'j) kms_state" where
  "create_approval_request dp en cl req st =
     then_st (ok_or (ApiInvalidArgument (Fmt [Lit ''Unknown operation: '', Str (cq_operation req)])) (parse_operation (cq_operation req)), st) (\<lambda>operation st.
     let resource_type = resource_type_for operation;
         tenant_id = resolve_tenant (cl_bound_tenant cl) (cq_tenant_id req)
     in then_st (ensure_resource_tenant dp en resource_type (cq_resource_id req) tenant_id st) (\<lambda>_ st.
        let (r, st) = on_approval (mgr_create_request dp (re_ids en 1) (re_clock en 1) operation (cq_resource_id req) resource_type tenant_id
                         (cl_key_id cl) (cq_justification req) None) st
        in then_st (ok_or (ApiInternal (Lit ''Failed to create approval request'')) r, st) (\<lambda>response st.
           let request_uuid = (case rx_parse_uuid (dp_rest dp) (apr_id response) of Some u \<Rightarrow> u | None \<Rightarrow> 0);
               event = ev_approval_requested (uuid_text dp) (re_ids en 0) (re_clock en 0) request_uuid (cl_key_id cl) (cq_operation req)
           in (Inr response, log_event event st))))"

definition list_pending_approvals ::
  "('n, 's, 'r, 'q, 'j, 'kp, 'v) kms_deps \<Rightarrow> 'n request_env \<Rightarrow> caller \<Rightarrow> string
   \<Rightarrow> ('s, 'r, 'q, 'j) kms_state \<Rightarrow> (api_error + approval_request_response list) \<times> ('s, 'r, 'q, 'j) kms_state" where
  "list_pending_approvals dp en cl tenant_id st =
     (if (case cl_bound_tenant cl of Some b \<Rightarrow> b \<noteq> tenant_id | None \<Rightarrow> False) then (Inl ApiPermissionDenied, st)
      else (Inr (mgr_list_pending dp (re_order en) tenant_id (st_approval st)),
            log_event (plain_event en ApprovalRequested (cl_key_id cl) ''list_pending_approvals'' ''approval'' None) st))"

definition get_approval_request ::
  "('n, 's, 'r, 'q, 'j, 'kp, 'v) kms_deps \<Rightarrow> 'n request_env \<Rightarrow> caller \<Rightarrow> uuid
   \<Rightarrow> ('s, 'r, 'q, 'j) kms_state \<Rightarrow> (api_error + approval_request_response) \<times> ('s, 'r, 'q, 'j) kms_state" where
  "get_approval_request dp en cl request_id st =
     then_st (ok_or approval_not_found (mgr_get_request dp request_id (st_approval st)), st) (\<lambda>response st.
     if (case cl_bound_tenant cl of Some b \<Rightarrow> apr_tenant_id response \<noteq> b | None \<Rightarrow> False) then (Inl approval_not_found, st)
     else (Inr response,
           log_event (plain_event en ApprovalRequested (cl_key_id cl) ''get_approval_request'' ''approval'' (Some (uuid_text dp request_id))) st))"

fun approval_error_display :: "approval_error \<Rightarrow> msg" where
  "approval_error_display RequestNotFound = Lit ''approval request not found''"
| "approval_error_display RequestAlreadyCompleted = Lit ''approval request already completed''"
| "approval_error_display RequestExpired = Lit ''approval request expired''"
| "approval_error_display AlreadyVoted = Lit ''user has already voted on this request''"
| "approval_error_display InsufficientApprovalLevel = Lit ''approver role level is insufficient for this operation''"
| "approval_error_display NotAuthorized = Lit ''not authorized to perform this action''"
| "approval_error_display SelfApproval = Lit ''self-approval is not allowed''"
| "approval_error_display (InvalidConfig m) = Fmt [Lit ''invalid approval configuration: '', m]"
| "approval_error_display (OperationRequiresApproval m) = Fmt [Lit ''operation requires approval: '', m]"
| "approval_error_display ThresholdNotReached = Lit ''approval threshold not reached''"
| "approval_error_display (WorkflowError m) = Fmt [Lit ''approval workflow error: '', m]"

definition approval_error_to_api_error :: "approval_error \<Rightarrow> api_error" where
  "approval_error_to_api_error e =
     (case e of
        SelfApproval \<Rightarrow> ApiForbidden (Lit ''self-approval is not allowed'')
      | InsufficientApprovalLevel \<Rightarrow> ApiForbidden (Lit ''approver authority is insufficient for this operation'')
      | AlreadyVoted \<Rightarrow> ApiInvalidRequest (Lit ''this approver has already voted on the request'')
      | RequestExpired \<Rightarrow> ApiInvalidRequest (Lit ''approval request has expired'')
      | RequestNotFound \<Rightarrow> ApiNotFound (Lit ''Approval request not found or already completed'')
      | RequestAlreadyCompleted \<Rightarrow> ApiNotFound (Lit ''Approval request not found or already completed'')
      | other \<Rightarrow> ApiInternal (approval_error_display other))"

definition approve_request ::
  "('n, 's, 'r, 'q, 'j, 'kp, 'v) kms_deps \<Rightarrow> 'n request_env \<Rightarrow> caller \<Rightarrow> uuid \<Rightarrow> string option
   \<Rightarrow> ('s, 'r, 'q, 'j) kms_state \<Rightarrow> (api_error + approval_request_response) \<times> ('s, 'r, 'q, 'j) kms_state" where
  "approve_request dp en cl request_id comment st =
     then_st (ensure_approval_tenant request_id (cl_bound_tenant cl) st, st) (\<lambda>_ st.
     let (r, st) = on_approval (mgr_approve dp (re_clock en) request_id (cl_key_id cl) (role_from_permission (cl_role cl)) comment) st
     in then_st (map_err approval_error_to_api_error r, st) (\<lambda>response st.
        (Inr response, log_event (ev_approval_granted (uuid_text dp) (re_ids en 0) (re_clock en 9) request_id (cl_key_id cl)) st)))"

definition reject_request ::
  "('n, 's, 'r, 'q, 'j, 'kp, 'v) kms_deps \<Rightarrow> 'n request_env \<Rightarrow> caller \<Rightarrow> uuid \<Rightarrow> string
   \<Rightarrow> ('s, 'r, 'q, 'j) kms_state \<Rightarrow> (api_error + approval_request_response) \<times> ('s, 'r, 'q, 'j) kms_state" where
  "reject_request dp en cl request_id reason st =
     then_st (ensure_approval_tenant request_id (cl_bound_tenant cl) st, st) (\<lambda>_ st.
     let (r, st) = on_approval (mgr_reject dp (re_clock en) request_id (cl_key_id cl) (role_from_permission (cl_role cl)) reason) st
     in then_st (map_err approval_error_to_api_error r, st) (\<lambda>response st.
        (Inr response, log_event (ev_approval_denied (uuid_text dp) (re_ids en 0) (re_clock en 9) request_id (cl_key_id cl) reason) st)))"

definition cancel_request ::
  "('n, 's, 'r, 'q, 'j, 'kp, 'v) kms_deps \<Rightarrow> 'n request_env \<Rightarrow> caller \<Rightarrow> uuid
   \<Rightarrow> ('s, 'r, 'q, 'j) kms_state \<Rightarrow> (api_error + approval_request_response) \<times> ('s, 'r, 'q, 'j) kms_state" where
  "cancel_request dp en cl request_id st =
     (let (r, st) = on_approval (mgr_cancel dp (re_clock en) request_id (cl_key_id cl)) st
      in then_st (ok_or (ApiNotFound (Lit ''Approval request not found or not authorized'')) r, st) (\<lambda>response st.
         (Inr response,
          log_event (event_new (re_ids en 0) (re_clock en 9) ApprovalDenied (cl_key_id cl) ''user'' ''cancel_request'' ''approval''
                       (Some (uuid_text dp request_id)) ''cancelled'') st)))"

section \<open>Second factors\<close>

fun mfa_error_display :: "mfa_error \<Rightarrow> msg" where
  "mfa_error_display NotEnabled = Lit ''MFA not enabled''"
| "mfa_error_display InvalidCode = Lit ''invalid TOTP code''"
| "mfa_error_display CodeExpired = Lit ''TOTP code expired''"
| "mfa_error_display WindowExceeded = Lit ''TOTP code window exceeded''"
| "mfa_error_display InvalidSecret = Lit ''invalid secret''"
| "mfa_error_display BackupCodeUsed = Lit ''backup code already used''"
| "mfa_error_display NoBackupCodes = Lit ''no backup codes remaining''"
| "mfa_error_display (BackupCodeLocked n) =
     Fmt [Lit ''too many failed backup code attempts, locked for '', Num (unat n), Lit '' seconds'']"
| "mfa_error_display VerificationRequired = Lit ''MFA required but not verified''"
| "mfa_error_display (OperationNotPermitted s) = Fmt [Lit ''operation not permitted without MFA: '', Str s]"
| "mfa_error_display (MfaInvalidConfig s) = Fmt [Lit ''invalid MFA configuration: '', Str s]"
| "mfa_error_display (SecretGenerationFailed s) = Fmt [Lit ''secret generation failed: '', Str s]"
| "mfa_error_display MfaPanicked = Lit ''panicked''"

text \<open>An error of the second factor as an answer; a panic stays one.\<close>

definition mfa_api_error :: "(msg \<Rightarrow> api_error) \<Rightarrow> mfa_error \<Rightarrow> api_error" where
  "mfa_api_error h e = (if e = MfaPanicked then ApiPanicked ''totp'' else h (mfa_error_display e))"

record mfa_setup_response =
  mq_secret :: string
  mq_provisioning_uri :: string
  mq_backup_codes :: "string list"

text \<open>The eight backup codes: four random bytes each, as a number of eight digits.\<close>

definition setup_codes :: "rng \<Rightarrow> string list" where
  "setup_codes rng =
     map (\<lambda>k. zero_padded 8 (from_be (map (\<lambda>b. rng (4 * k + b)) [0..<4]) mod 100000000)) [0..<8]"

definition rest_mfa_setup ::
  "('n, 's, 'r, 'q, 'j, 'kp, 'v) kms_deps \<Rightarrow> 'n request_env \<Rightarrow> string
   \<Rightarrow> ('s, 'r, 'q, 'j) kms_state \<Rightarrow> (api_error + mfa_setup_response) \<times> ('s, 'r, 'q, 'j) kms_state" where
  "rest_mfa_setup dp en user_id st =
     then_st (map_err (mfa_api_error ApiInternal) (generate_secret (re_rng en)), st) (\<lambda>secret st.
     let config = \<lparr>tc_secret = secret, tc_time_step = 30, tc_digits = 6, tc_algorithm = Sha1, tc_window = 1\<rparr>
     in then_st (map_err (mfa_api_error ApiInternal) (totp_new config), st) (\<lambda>generator st.
        let provisioning_uri = get_provisioning_uri (dp_mfa_crates dp) generator user_id ''gm-kms'';
            backup_codes = setup_codes (\<lambda>k. re_rng en (20 + k));
            secret_b32 = mc_base32 (dp_mfa_crates dp) secret;
            (r, m) = store_totp_config (dp_crypto dp) (dp_mfa_crates dp) (dp_mfa_codecs dp) (re_sys_rng en) (re_up en 0)
                       user_id config backup_codes (st_mfa st);
            st = st\<lparr>st_mfa := m\<rparr>
        in case r of
             None \<Rightarrow> (Inl (ApiPanicked ''failed to generate nonce''), st)
           | Some (Inl e) \<Rightarrow> (Inl (ApiInvalidRequest (Lit e)), st)
           | Some (Inr _) \<Rightarrow>
               (Inr \<lparr>mq_secret = secret_b32, mq_provisioning_uri = provisioning_uri, mq_backup_codes = backup_codes\<rparr>,
                log_event (ev_mfa_setup (re_ids en 0) (re_clock en 0) user_id ''totp'') st)))"

definition on_mfa :: "(mfa_manager \<Rightarrow> 'a \<times> mfa_manager) \<Rightarrow> ('s, 'r, 'q, 'j) kms_state \<Rightarrow> 'a \<times> ('s, 'r, 'q, 'j) kms_state" where
  "on_mfa f st = (let (x, m) = f (st_mfa st) in (x, st\<lparr>st_mfa := m\<rparr>))"

text \<open>The statements a handler sends are numbered; those of exclusive branches can share a number.\<close>

definition rest_mfa_verify ::
  "('n, 's, 'r, 'q, 'j, 'kp, 'v) kms_deps \<Rightarrow> 'n request_env \<Rightarrow> caller \<Rightarrow> string \<Rightarrow> string
   \<Rightarrow> ('s, 'r, 'q, 'j) kms_state \<Rightarrow> (api_error + bool \<times> u32 option) \<times> ('s, 'r, 'q, 'j) kms_state" where
  "rest_mfa_verify dp en cl user_id code st =
     (if mfa_is_locked_out (re_up en 0) (re_clock en 1) user_id (st_mfa st) then
        (Inl (ApiTooManyRequests (Fmt [Lit ''Account locked. Try again in '',
           Num (unat (lockout_remaining_secs (re_up en 1) (re_clock en 2) user_id (st_mfa st))), Lit '' seconds''])), st)
      else
        then_st (ok_or (ApiNotFound (Lit ''MFA not configured for user'')) (load_totp_config (dp_crypto dp) (re_up en 1) user_id (st_mfa st)), st) (\<lambda>config st.
        then_st (map_err (mfa_api_error ApiInternal) (totp_with_secret (tc_secret config)), st) (\<lambda>generator st.
        then_st (map_err (mfa_api_error ApiInvalidArgument)
                   (validate_at_timestamp (dp_mfa_crates dp) generator code (unix_secs (re_clock en 3))), st) (\<lambda>valid st.
        if valid then
          let st = st\<lparr>st_mfa := reset_backup_code_usage (re_up en 3) user_id (clear_failed_attempts (re_up en 2) user_id (st_mfa st))\<rparr>
          in (Inr (True, None), log_event (ev_mfa_verified (re_ids en 0) (re_clock en 0) user_id) st)
        else
          let (locked, st) = on_mfa (record_failed_totp_attempt (\<lambda>k. re_up en (2 + k)) (re_clock en 4) user_id) st
          in if locked then
               let st = st\<lparr>st_api_keys := lock_key_by_id (re_clock en 5) (cl_key_id cl) (st_api_keys st)\<rparr>
               in (Inl (ApiTooManyRequests (Fmt [Lit ''Too many failed attempts. Account locked for '', Num (unat TOTP_LOCKOUT_SECS), Lit '' seconds''])),
                   log_event (ev_mfa_failed (re_ids en 0) (re_clock en 0) user_id ''account_locked'') st)
             else
               let attempts = failed_attempt_count (re_up en 4) user_id (st_mfa st);
                   attempts_remaining = (if attempts \<le> MAX_TOTP_ATTEMPTS then MAX_TOTP_ATTEMPTS - attempts else 0)
               in (Inr (False, Some attempts_remaining),
                   log_event (ev_mfa_failed (re_ids en 0) (re_clock en 0) user_id ''invalid_totp_code'') st)))))"

definition backup_limit_exceeded :: api_error where
  "backup_limit_exceeded = ApiTooManyRequests (Lit ''Backup code usage limit exceeded. Please use TOTP or reset MFA'')"

definition rest_mfa_verify_backup ::
  "('n, 's, 'r, 'q, 'j, 'kp, 'v) kms_deps \<Rightarrow> 'n request_env \<Rightarrow> caller \<Rightarrow> string \<Rightarrow> string
   \<Rightarrow> ('s, 'r, 'q, 'j) kms_state \<Rightarrow> (api_error + bool) \<times> ('s, 'r, 'q, 'j) kms_state" where
  "rest_mfa_verify_backup dp en cl user_id code st =
     (if backup_code_usage_count (re_up en 0) user_id (st_mfa st) \<ge> MAX_BACKUP_CODE_USES then (Inl backup_limit_exceeded, st)
      else
        let (backup_valid, st) = on_mfa (consume_backup_code (dp_mfa_crates dp) (dp_mfa_codecs dp) (\<lambda>k. re_up en (1 + k)) user_id code) st
        in if backup_valid then
             let st = st\<lparr>st_mfa := reset_backup_code_usage (re_up en 3) user_id (st_mfa st)\<rparr>
             in (Inr True, log_event (ev_mfa_backup_code_used (re_ids en 0) (re_clock en 0) user_id) st)
           else
             let (limit_exceeded, st) = on_mfa (record_backup_code_usage (re_up en 2) user_id) st
             in if limit_exceeded then
                  let st = st\<lparr>st_api_keys := lock_key_by_id (re_clock en 5) (cl_key_id cl) (st_api_keys st)\<rparr>
                  in (Inl backup_limit_exceeded,
                      log_event (ev_mfa_failed (re_ids en 0) (re_clock en 0) user_id ''backup_code_limit_exceeded'') st)
                else (Inr False, log_event (ev_mfa_failed (re_ids en 0) (re_clock en 0) user_id ''invalid_backup_code'') st))"

definition rest_mfa_status ::
  "('n, 's, 'r, 'q, 'j, 'kp, 'v) kms_deps \<Rightarrow> 'n request_env \<Rightarrow> caller \<Rightarrow> string
   \<Rightarrow> ('s, 'r, 'q, 'j) kms_state \<Rightarrow> (api_error + mfa_status_response) \<times> ('s, 'r, 'q, 'j) kms_state" where
  "rest_mfa_status dp en cl user_id st =
     (Inr \<lparr>msr_enabled = has_totp_config (re_up en 0) user_id (st_mfa st), msr_mfa_type = ''totp'',
           msr_backup_codes_remaining = backup_codes_remaining (dp_mfa_codecs dp) (re_up en 1) user_id (st_mfa st)\<rparr>,
      log_event (plain_event en MfaSetup (cl_key_id cl) ''mfa_status'' ''mfa'' None) st)"

section \<open>Envelopes, key agreement and import\<close>

definition parse_id :: "('n, 's, 'r, 'q, 'j, 'kp, 'v) kms_deps \<Rightarrow> string \<Rightarrow> string \<Rightarrow> api_error + uuid" where
  "parse_id dp field text = ok_or (invalid (''invalid '' @ field @ '' format'')) (rx_parse_uuid (dp_rest dp) text)"

definition optional_tenant :: "caller \<Rightarrow> string option \<Rightarrow> string" where
  "optional_tenant cl tenant_id = resolve_tenant (cl_bound_tenant cl) (case tenant_id of Some t \<Rightarrow> t | None \<Rightarrow> ''default'')"

record envelope_encrypt_req =
  eq_kek_id :: string
  eq_plaintext :: string
  eq_tenant_id :: "string option"

definition rest_envelope_encrypt ::
  "('n, 's, 'r, 'q, 'j, 'kp, 'v) kms_deps \<Rightarrow> 'n request_env \<Rightarrow> caller \<Rightarrow> envelope_encrypt_req
   \<Rightarrow> ('s, 'r, 'q, 'j) kms_state \<Rightarrow> (api_error + envelope_encrypt_response) \<times> ('s, 'r, 'q, 'j) kms_state" where
  "rest_envelope_encrypt dp en cl req st =
     then_st (parse_id dp ''kek_id'' (eq_kek_id req), st) (\<lambda>kek_id st.
     let tenant_id = optional_tenant cl (eq_tenant_id req)
     in then_st (check_pbac en (cl_key_id cl) tenant_id ''envelope_encrypt'' (uuid_text dp kek_id) st, st) (\<lambda>_ st.
        then_st (decode_field dp ''plaintext'' (eq_plaintext req), st) (\<lambda>plaintext st.
        then_st (with_svc (es_encrypt (dp_crypto dp) (dp_svc_crates dp) (dp_services dp) (re_call en) kek_id plaintext None tenant_id) st) (\<lambda>res st.
        let event = ev_key_encrypted (uuid_text dp) (re_ids en 0) (re_clock en 0) kek_id (cl_key_id cl) (length plaintext)
        in (Inr res, log_event event st)))))"

record envelope_decrypt_req =
  ed_kek_id :: string
  ed_wrapped_dek :: string
  ed_dek_nonce :: string
  ed_ciphertext :: string
  ed_data_nonce :: string
  ed_tag :: string
  ed_tenant_id :: "string option"
  ed_kek_version :: u32

definition rest_envelope_decrypt ::
  "('n, 's, 'r, 'q, 'j, 'kp, 'v) kms_deps \<Rightarrow> 'n request_env \<Rightarrow> caller \<Rightarrow> envelope_decrypt_req
   \<Rightarrow> ('s, 'r, 'q, 'j) kms_state \<Rightarrow> (api_error + string) \<times> ('s, 'r, 'q, 'j) kms_state" where
  "rest_envelope_decrypt dp en cl req st =
     then_st (parse_id dp ''kek_id'' (ed_kek_id req), st) (\<lambda>kek_id st.
     let tenant_id = optional_tenant cl (ed_tenant_id req)
     in then_st (check_pbac en (cl_key_id cl) tenant_id ''envelope_decrypt'' (uuid_text dp kek_id) st, st) (\<lambda>_ st.
        then_st (decode_field dp ''wrapped_dek'' (ed_wrapped_dek req), st) (\<lambda>wrapped_dek st.
        then_st (decode_field dp ''ciphertext'' (ed_ciphertext req), st) (\<lambda>c st.
        then_st (decode_field dp ''dek_nonce'' (ed_dek_nonce req), st) (\<lambda>dek_nonce st.
        then_st (decode_field dp ''data_nonce'' (ed_data_nonce req), st) (\<lambda>data_nonce st.
        then_st (decode_field dp ''tag'' (ed_tag req), st) (\<lambda>tag st.
        then_st (with_svc (es_decrypt_with_kek_version (dp_crypto dp) (dp_services dp) (re_call en) kek_id c wrapped_dek dek_nonce
                             data_nonce tag None tenant_id (ed_kek_version req)) st) (\<lambda>plaintext st.
        let event = ev_key_decrypted (uuid_text dp) (re_ids en 0) (re_clock en 0) kek_id (cl_key_id cl) (length plaintext)
        in (Inr (encode64 dp plaintext), log_event event st)))))))))"

record envelope_rewrap_req =
  ew_kek_id :: string
  ew_wrapped_dek :: string
  ew_dek_nonce :: string
  ew_old_kek_version :: u32
  ew_tenant_id :: "string option"

definition rest_envelope_rewrap ::
  "('n, 's, 'r, 'q, 'j, 'kp, 'v) kms_deps \<Rightarrow> 'n request_env \<Rightarrow> caller \<Rightarrow> envelope_rewrap_req
   \<Rightarrow> ('s, 'r, 'q, 'j) kms_state \<Rightarrow> (api_error + rewrap_dek_response) \<times> ('s, 'r, 'q, 'j) kms_state" where
  "rest_envelope_rewrap dp en cl req st =
     then_st (parse_id dp ''kek_id'' (ew_kek_id req), st) (\<lambda>kek_id st.
     let tenant_id = optional_tenant cl (ew_tenant_id req)
     in then_st (check_pbac en (cl_key_id cl) tenant_id ''envelope_rewrap'' (uuid_text dp kek_id) st, st) (\<lambda>_ st.
        then_st (decode_field dp ''wrapped_dek'' (ew_wrapped_dek req), st) (\<lambda>wrapped_dek st.
        then_st (decode_field dp ''dek_nonce'' (ew_dek_nonce req), st) (\<lambda>dek_nonce st.
        then_st (with_svc (es_rewrap_dek (dp_crypto dp) (dp_svc_crates dp) (dp_services dp) (re_call en) kek_id wrapped_dek dek_nonce
                             (ew_old_kek_version req) tenant_id) st) (\<lambda>res st.
        let event = ev_key_rotated (uuid_text dp) (re_ids en 0) (re_clock en 0) kek_id (cl_key_id cl)
        in (Inr res, log_event event st))))))"

record dh_derive_req =
  dq_key_id :: string
  dq_algorithm :: string
  dq_peer_public_key :: string
  dq_tenant_id :: "string option"

definition parse_dh_algorithm :: "('n, 's, 'r, 'q, 'j, 'kp, 'v) kms_deps \<Rightarrow> string \<Rightarrow> api_error + dh_algorithm" where
  "parse_dh_algorithm dp text =
     (let s = mc_to_uppercase (dp_mfa_crates dp) text
      in if s \<in> {''ECDH-P256'', ''P-256''} then Inr DhEcdsaP256
         else if s \<in> {''ECDH-P384'', ''P-384''} then Inr DhEcdsaP384
         else if s \<in> {''X25519'', ''CURVE25519''} then Inr X25519
         else if s \<in> {''SM2-KEX'', ''SM2''} then Inr Sm2Kex
         else Inl (ApiInvalidRequest (Fmt [Lit ''unsupported DH algorithm: '', Str text,
                Lit '' (supported: ECDH-P256, ECDH-P384, X25519, SM2-KEX)''])))"

definition dh_error :: "uuid \<Rightarrow> kms_error \<Rightarrow> api_error" where
  "dh_error key_id e =
     (case e of
        KeyNotFound _ \<Rightarrow> ApiNotFound (Fmt [Lit ''key '', Id key_id, Lit '' not found''])
      | NotImplemented _ \<Rightarrow> ApiNotImplemented
      | KeyOperationNotAllowed m \<Rightarrow> ApiInvalidRequest m
      | Panicked p \<Rightarrow> ApiPanicked p
      | _ \<Rightarrow> ApiInternal (err_display e))"

record dh_derive_response =
  ds_shared_secret :: string
  ds_kdf :: string

definition rest_dh_derive ::
  "('n, 's, 'r, 'q, 'j, 'kp, 'v) kms_deps \<Rightarrow> 'n request_env \<Rightarrow> caller \<Rightarrow> dh_derive_req
   \<Rightarrow> ('s, 'r, 'q, 'j) kms_state \<Rightarrow> (api_error + dh_derive_response) \<times> ('s, 'r, 'q, 'j) kms_state" where
  "rest_dh_derive dp en cl req st =
     then_st (parse_id dp ''key_id'' (dq_key_id req), st) (\<lambda>key_id st.
     let tenant_id = optional_tenant cl (dq_tenant_id req)
     in then_st (check_pbac en (cl_key_id cl) tenant_id ''dh_derive'' (uuid_text dp key_id) st, st) (\<lambda>_ st.
        then_st (with_svc (keystore_call (\<lambda>_. ApiKeyNotFound (Id key_id))
                   (be_get_key_metadata (svc_keystore (dp_services dp)) (re_envs en 0) key_id)) st) (\<lambda>meta st.
        if m_tenant_id meta \<noteq> tenant_id then (Inl (ApiKeyNotFound (Id key_id)), st)
        else
          then_st (parse_dh_algorithm dp (dq_algorithm req), st) (\<lambda>algorithm st.
          then_st (decode_field dp ''peer_public_key'' (dq_peer_public_key req), st) (\<lambda>peer_public_key st.
          then_st (with_svc (keystore_call (dh_error key_id) (dp_derive dp (re_envs en 1) key_id peer_public_key algorithm tenant_id)) st) (\<lambda>secret st.
          (Inr \<lparr>ds_shared_secret = encode64 dp (sec_secret secret), ds_kdf = (case sec_kdf secret of Some k \<Rightarrow> k | None \<Rightarrow> ''none'')\<rparr>,
           log_event (plain_event en KeyAccessed (cl_key_id cl) ''derive_shared_secret'' ''dh'' (Some (uuid_text dp key_id))) st)))))))"

record import_key_req =
  iq_name :: string
  iq_spec :: string
  iq_format :: string
  iq_wrapped_key :: string
  iq_encrypted_transport_key :: string
  iq_source_fingerprint :: string
  iq_tenant_id :: string

record import_key_response =
  ir_id :: string
  ir_spec :: string
  ir_imported :: bool
  ir_source_fingerprint :: string

definition rest_import_key ::
  "('n, 's, 'r, 'q, 'j, 'kp, 'v) kms_deps \<Rightarrow> 'n request_env \<Rightarrow> caller \<Rightarrow> import_key_req
   \<Rightarrow> ('s, 'r, 'q, 'j) kms_state \<Rightarrow> (api_error + import_key_response) \<times> ('s, 'r, 'q, 'j) kms_state" where
  "rest_import_key dp en cl req st =
     (let tenant = resolve_tenant (cl_bound_tenant cl) (iq_tenant_id req)
      in then_st (check_pbac en (cl_key_id cl) tenant ''import_key'' (iq_name req) st, st) (\<lambda>_ st.
         then_st (parse_spec (iq_spec req), st) (\<lambda>spec st.
         then_st (decode_field dp ''wrapped_key'' (iq_wrapped_key req), st) (\<lambda>wrapped_key_bytes st.
         then_st (decode_field dp ''encrypted_transport_key'' (iq_encrypted_transport_key req), st) (\<lambda>transport_key_bytes st.
         then_st (with_svc (kys_import_key (dp_format_crates dp) (dp_services dp) (re_call en) spec (iq_name req) (iq_format req)
                              wrapped_key_bytes transport_key_bytes (iq_source_fingerprint req) tenant) st) (\<lambda>meta st.
         let event = ev_key_imported (uuid_text dp) (re_ids en 0) (re_clock en 0) (m_id meta) (cl_key_id cl) (iq_format req)
         in (Inr \<lparr>ir_id = uuid_text dp (m_id meta), ir_spec = spec_debug (m_spec meta), ir_imported = True,
                  ir_source_fingerprint = iq_source_fingerprint req\<rparr>, log_event event st)))))))"

section \<open>Policies and the audit log\<close>

record create_policy_req =
  pq_name :: string
  pq_effect :: string
  pq_condition :: json
  pq_resources :: "string list"
  pq_subjects :: "string list"
  pq_tenant :: "string option"
  pq_enabled :: bool

record policy_response =
  ps_id :: string
  ps_name :: string
  ps_effect :: string
  ps_condition :: json
  ps_resources :: "string list"
  ps_subjects :: "string list"
  ps_tenant :: "string option"
  ps_enabled :: bool

definition policy_response_of :: "('n, 's, 'r, 'q, 'j, 'kp, 'v) kms_deps \<Rightarrow> policy \<Rightarrow> policy_response" where
  "policy_response_of dp p =
     \<lparr>ps_id = uuid_text dp (pl_id p), ps_name = pl_name p, ps_effect = (case pl_effect p of Allow \<Rightarrow> ''Allow'' | Deny \<Rightarrow> ''Deny''),
      ps_condition = pl_condition p, ps_resources = pl_resources p, ps_subjects = pl_subjects p, ps_tenant = pl_tenant p,
      ps_enabled = pl_enabled p\<rparr>"

definition parse_effect :: "string \<Rightarrow> api_error + policy_effect" where
  "parse_effect s =
     (if to_lowercase s = ''allow'' then Inr Allow
      else if to_lowercase s = ''deny'' then Inr Deny
      else Inl (ApiInvalidRequest (Fmt [Lit ''invalid effect: '', Str s, Lit '', expected '', Lit quote, Lit ''allow'', Lit quote,
             Lit '' or '', Lit quote, Lit ''deny'', Lit quote])))"

definition internal_error :: "kms_error \<Rightarrow> api_error" where
  "internal_error e = (case e of Panicked p \<Rightarrow> ApiPanicked p | _ \<Rightarrow> ApiInternal (err_display e))"

definition on_policy :: "('q pbac_engine \<Rightarrow> 'a \<times> 'q pbac_engine) \<Rightarrow> ('s, 'r, 'q, 'j) kms_state \<Rightarrow> 'a \<times> ('s, 'r, 'q, 'j) kms_state" where
  "on_policy f st = (let (x, e) = f (st_policy st) in (x, st\<lparr>st_policy := e\<rparr>))"

definition rest_create_policy ::
  "('n, 's, 'r, 'q, 'j, 'kp, 'v) kms_deps \<Rightarrow> 'n request_env \<Rightarrow> caller \<Rightarrow> create_policy_req
   \<Rightarrow> ('s, 'r, 'q, 'j) kms_state \<Rightarrow> (api_error + policy_response) \<times> ('s, 'r, 'q, 'j) kms_state" where
  "rest_create_policy dp en cl req st =
     then_st (parse_effect (pq_effect req), st) (\<lambda>effect st.
     let policy = \<lparr>pl_id = re_ids en 1, pl_name = pq_name req, pl_effect = effect, pl_condition = pq_condition req,
                   pl_resources = pq_resources req, pl_subjects = pq_subjects req,
                   pl_tenant = (case pq_tenant req of Some t \<Rightarrow> if trim t \<noteq> [] then Some t else None | None \<Rightarrow> None),
                   pl_enabled = pq_enabled req\<rparr>;
         (r, st) = on_policy (add_policy (dp_policy_ops dp) (uuid_text dp) policy) st
     in then_st (map_err internal_error r, st) (\<lambda>_ st.
        (Inr (policy_response_of dp policy),
         log_event (ev_policy_changed (uuid_text dp) (re_ids en 0) (re_clock en 0) (pl_id policy) (cl_key_id cl) ''created'') st)))"

definition policy_not_found :: "string \<Rightarrow> api_error" where
  "policy_not_found i = ApiNotFound (Fmt [Lit ''policy '', Str i, Lit '' not found''])"

definition rest_get_policy ::
  "('n, 's, 'r, 'q, 'j, 'kp, 'v) kms_deps \<Rightarrow> string \<Rightarrow> ('s, 'r, 'q, 'j) kms_state \<Rightarrow> (api_error + policy_response) \<times> ('s, 'r, 'q, 'j) kms_state" where
  "rest_get_policy dp i st =
     (case get_policy (st_policy st) i of Some p \<Rightarrow> Inr (policy_response_of dp p) | None \<Rightarrow> Inl (policy_not_found i), st)"

definition rest_list_policies ::
  "('n, 's, 'r, 'q, 'j, 'kp, 'v) kms_deps \<Rightarrow> ('s, 'r, 'q, 'j) kms_state \<Rightarrow> (api_error + policy_response list) \<times> ('s, 'r, 'q, 'j) kms_state" where
  "rest_list_policies dp st = (Inr (map (policy_response_of dp) (list_policies (st_policy st))), st)"

definition rest_delete_policy ::
  "('n, 's, 'r, 'q, 'j, 'kp, 'v) kms_deps \<Rightarrow> 'n request_env \<Rightarrow> caller \<Rightarrow> uuid
   \<Rightarrow> ('s, 'r, 'q, 'j) kms_state \<Rightarrow> (api_error + unit) \<times> ('s, 'r, 'q, 'j) kms_state" where
  "rest_delete_policy dp en cl i st =
     (if get_policy (st_policy st) (uuid_text dp i) = None then (Inl (policy_not_found (uuid_text dp i)), st)
      else
        let (r, st) = on_policy (remove_policy (dp_policy_ops dp) (uuid_text dp) i) st
        in then_st (map_err internal_error r, st) (\<lambda>_ st.
           (Inr (), log_event (ev_policy_changed (uuid_text dp) (re_ids en 0) (re_clock en 0) i (cl_key_id cl) ''deleted'') st)))"

definition query_audit_events ::
  "('n, 's, 'r, 'q, 'j, 'kp, 'v) kms_deps \<Rightarrow> 'n request_env \<Rightarrow> caller \<Rightarrow> audit_filter
   \<Rightarrow> ('s, 'r, 'q, 'j) kms_state \<Rightarrow> (api_error + audit_event list) \<times> ('s, 'r, 'q, 'j) kms_state" where
  "query_audit_events dp en cl filt st =
     then_st (check_pbac en (cl_key_id cl) (bound_or_empty cl) ''query_audit_events'' ''audit'' st, st) (\<lambda>_ st.
     (Inr (dp_audit_query dp filt (st_audit st)), st))"

section \<open>Identity-based cryptography\<close>

definition or_internal_text :: "string + 'a \<Rightarrow> api_error + 'a" where
  "or_internal_text = map_err (\<lambda>e. ApiInternal (Str e))"

definition sm9_event :: "'n request_env \<Rightarrow> caller \<Rightarrow> string \<Rightarrow> audit_event" where
  "sm9_event en cl action = plain_event en KeyAccessed (cl_key_id cl) action ''sm9'' None"

definition rest_sm9_sign ::
  "('n, 's, 'r, 'q, 'j, 'kp, 'v) kms_deps \<Rightarrow> 'n request_env \<Rightarrow> caller \<Rightarrow> string \<Rightarrow> string
   \<Rightarrow> ('s, 'r, 'q, 'j) kms_state \<Rightarrow> (api_error + string) \<times> ('s, 'r, 'q, 'j) kms_state" where
  "rest_sm9_sign dp en cl identity data_text st =
     then_st (check_pbac en (cl_key_id cl) (bound_or_empty cl) ''sm9_sign'' identity st, st) (\<lambda>_ st.
     then_st (decode_field dp ''data'' data_text, st) (\<lambda>data st.
     then_st (or_internal_text (rx_sm9_signer (dp_rest dp) (str_bytes identity)), st) (\<lambda>signer st.
     then_st (or_internal_text (signer data (re_rng en)), st) (\<lambda>signature_bytes st.
     (Inr (encode64 dp signature_bytes), log_event (sm9_event en cl ''sm9_sign'') st)))))"

definition rest_sm9_verify ::
  "('n, 's, 'r, 'q, 'j, 'kp, 'v) kms_deps \<Rightarrow> 'n request_env \<Rightarrow> caller \<Rightarrow> string \<Rightarrow> string \<Rightarrow> string
   \<Rightarrow> ('s, 'r, 'q, 'j) kms_state \<Rightarrow> (api_error + bool) \<times> ('s, 'r, 'q, 'j) kms_state" where
  "rest_sm9_verify dp en cl identity data_text s_text st =
     then_st (check_pbac en (cl_key_id cl) (bound_or_empty cl) ''sm9_verify'' identity st, st) (\<lambda>_ st.
     then_st (decode_field dp ''data'' data_text, st) (\<lambda>data st.
     then_st (decode_field dp ''s'' s_text, st) (\<lambda>signature_bytes st.
     then_st (case rx_sm9_signature_from_der (dp_rest dp) signature_bytes of
                Inr sg \<Rightarrow> Inr sg
              | Inl _ \<Rightarrow> map_err (\<lambda>e. ApiInvalidRequest (Fmt [Lit ''invalid signature format: '', Str e]))
                           (rx_sm9_signature_from_bytes (dp_rest dp) signature_bytes), st) (\<lambda>sg st.
     then_st (or_internal_text (rx_sm9_verify (dp_rest dp) (str_bytes identity) data sg), st) (\<lambda>valid st.
     (Inr valid, log_event (sm9_event en cl ''sm9_verify'') st))))))"

definition rest_sm9_encrypt ::
  "('n, 's, 'r, 'q, 'j, 'kp, 'v) kms_deps \<Rightarrow> 'n request_env \<Rightarrow> caller \<Rightarrow> string \<Rightarrow> string
   \<Rightarrow> ('s, 'r, 'q, 'j) kms_state \<Rightarrow> (api_error + string) \<times> ('s, 'r, 'q, 'j) kms_state" where
  "rest_sm9_encrypt dp en cl identity plaintext_text st =
     then_st (check_pbac en (cl_key_id cl) (bound_or_empty cl) ''sm9_encrypt'' identity st, st) (\<lambda>_ st.
     then_st (decode_field dp ''plaintext'' plaintext_text, st) (\<lambda>plaintext st.
     then_st (or_internal_text (rx_sm9_encrypt (dp_rest dp) (str_bytes identity) plaintext (re_rng en)), st) (\<lambda>c st.
     (Inr (encode64 dp c), log_event (sm9_event en cl ''sm9_encrypt'') st))))"

definition rest_sm9_decrypt ::
  "('n, 's, 'r, 'q, 'j, 'kp, 'v) kms_deps \<Rightarrow> 'n request_env \<Rightarrow> caller \<Rightarrow> string \<Rightarrow> string
   \<Rightarrow> ('s, 'r, 'q, 'j) kms_state \<Rightarrow> (api_error + string) \<times> ('s, 'r, 'q, 'j) kms_state" where
  "rest_sm9_decrypt dp en cl identity c1_text st =
     then_st (check_pbac en (cl_key_id cl) (bound_or_empty cl) ''sm9_decrypt'' identity st, st) (\<lambda>_ st.
     then_st (decode_field dp ''ciphertext'' c1_text, st) (\<lambda>ciphertext_bytes st.
     then_st (map_err (\<lambda>e. ApiInvalidRequest (Fmt [Lit ''invalid ciphertext: '', Str e]))
                (rx_sm9_ciphertext_from_bytes (dp_rest dp) ciphertext_bytes), st) (\<lambda>c st.
     then_st (or_internal_text (rx_sm9_decryptor (dp_rest dp) (str_bytes identity)), st) (\<lambda>decryptor st.
     then_st (or_internal_text (decryptor c (str_bytes identity)), st) (\<lambda>plaintext st.
     (Inr (encode64 dp plaintext), log_event (sm9_event en cl ''sm9_decrypt'') st))))))"

section \<open>Routes\<close>

text \<open>
  A request to one of the routes, as the router parses it, and the answers. The second argument of the
  requests on a key is the query.
\<close>

datatype api_request =
    RqListKeys tenant_query
  | RqGetKey uuid tenant_query
  | RqEncrypt uuid tenant_query encrypt_request
  | RqDecrypt uuid tenant_query decrypt_request
  | RqSign uuid tenant_query string
  | RqVerify uuid tenant_query string string
  | RqHmac uuid tenant_query string "string option"
  | RqHmacVerify uuid tenant_query string string "string option"
  | RqHash string string
  | RqSm9Sign string string
  | RqSm9Verify string string string
  | RqSm9Encrypt string string
  | RqSm9Decrypt string string
  | RqEnvelopeEncrypt envelope_encrypt_req
  | RqEnvelopeDecrypt envelope_decrypt_req
  | RqEnvelopeRewrap envelope_rewrap_req
  | RqDhDerive dh_derive_req
  | RqCreateKey create_key_request
  | RqRotateKey uuid tenant_query
  | RqDeleteKey uuid tenant_query
  | RqImportKey import_key_req
  | RqExportKey uuid tenant_query export_key_request
  | RqCreatePolicy create_policy_req
  | RqListPolicies
  | RqGetPolicy string
  | RqDeletePolicy uuid
  | RqQueryAudit audit_filter
  | RqMfaSetup string
  | RqMfaVerify string string
  | RqMfaVerifyBackup string string
  | RqMfaStatus string
  | RqListPending string
  | RqApprove uuid "string option"
  | RqReject uuid string
  | RqCreateApproval create_approval_req
  | RqGetApproval uuid
  | RqCancel uuid

datatype api_response =
    RsKey key_response
  | RsKeys "key_response list"
  | RsEncrypted encrypt_response
  | RsText string
  | RsSigned sign_response
  | RsValid bool
  | RsHmac hmac_response
  | RsHash hash_response
  | RsEnvelope envelope_encrypt_response
  | RsRewrapped rewrap_dek_response
  | RsShared dh_derive_response
  | RsImported import_key_response
  | RsExported exported_key
  | RsPolicy policy_response
  | RsPolicies "policy_response list"
  | RsEvents "audit_event list"
  | RsMfaSetup mfa_setup_response
  | RsMfaVerified bool "u32 option"
  | RsMfaStatus mfa_status_response
  | RsApproval approval_request_response
  | RsApprovals "approval_request_response list"
  | RsDone

fun route_permission :: "api_request \<Rightarrow> permission" where
  "route_permission (RqListKeys _) = LIST_KEYS"
| "route_permission (RqGetKey _ _) = LIST_KEYS"
| "route_permission (RqEncrypt _ _ _) = ENCRYPT"
| "route_permission (RqDecrypt _ _ _) = ENCRYPT"
| "route_permission (RqSign _ _ _) = ENCRYPT"
| "route_permission (RqVerify _ _ _ _) = ENCRYPT"
| "route_permission (RqHmac _ _ _ _) = ENCRYPT"
| "route_permission (RqHmacVerify _ _ _ _ _) = ENCRYPT"
| "route_permission (RqHash _ _) = ENCRYPT"
| "route_permission (RqSm9Sign _ _) = ENCRYPT"
| "route_permission (RqSm9Verify _ _ _) = ENCRYPT"
| "route_permission (RqSm9Encrypt _ _) = ENCRYPT"
| "route_permission (RqSm9Decrypt _ _) = ENCRYPT"
| "route_permission (RqEnvelopeEncrypt _) = ENCRYPT"
| "route_permission (RqEnvelopeDecrypt _) = ENCRYPT"
| "route_permission (RqEnvelopeRewrap _) = ENCRYPT"
| "route_permission (RqDhDerive _) = ENCRYPT"
| "route_permission (RqCreateKey _) = CREATE_KEY"
| "route_permission (RqRotateKey _ _) = CREATE_KEY"
| "route_permission (RqDeleteKey _ _) = CREATE_KEY"
| "route_permission (RqImportKey _) = CREATE_KEY"
| "route_permission (RqExportKey _ _ _) = CREATE_KEY"
| "route_permission (RqCreatePolicy _) = MANAGE_POLICY"
| "route_permission RqListPolicies = MANAGE_POLICY"
| "route_permission (RqGetPolicy _) = MANAGE_POLICY"
| "route_permission (RqDeletePolicy _) = MANAGE_POLICY"
| "route_permission (RqQueryAudit _) = VIEW_AUDIT"
| "route_permission (RqMfaSetup _) = MANAGE_MFA"
| "route_permission (RqMfaVerify _ _) = MANAGE_MFA"
| "route_permission (RqMfaVerifyBackup _ _) = MANAGE_MFA"
| "route_permission (RqMfaStatus _) = MANAGE_MFA"
| "route_permission (RqListPending _) = APPROVE_ACTION"
| "route_permission (RqApprove _ _) = APPROVE_ACTION"
| "route_permission (RqReject _ _) = APPROVE_ACTION"
| "route_permission (RqCreateApproval _) = AUTHENTICATED"
| "route_permission (RqGetApproval _) = AUTHENTICATED"
| "route_permission (RqCancel _) = AUTHENTICATED"

definition answer :: "('a \<Rightarrow> api_response) \<Rightarrow> (api_error + 'a) \<times> 'st \<Rightarrow> (api_error + api_response) \<times> 'st" where
  "answer f r = (case r of (Inl e, st) \<Rightarrow> (Inl e, st) | (Inr x, st) \<Rightarrow> (Inr (f x), st))"

fun handle ::
  "('n, 's, 'r, 'q, 'j, 'kp, 'v) kms_deps \<Rightarrow> 'n request_env \<Rightarrow> caller \<Rightarrow> api_request
   \<Rightarrow> ('s, 'r, 'q, 'j) kms_state \<Rightarrow> (api_error + api_response) \<times> ('s, 'r, 'q, 'j) kms_state" where
  "handle dp en cl (RqListKeys tq) st = answer RsKeys (rest_list_keys dp en cl tq st)"
| "handle dp en cl (RqGetKey i tq) st = answer RsKey (rest_get_key dp en cl i tq st)"
| "handle dp en cl (RqEncrypt i tq r) st = answer RsEncrypted (rest_encrypt dp en cl i tq r st)"
| "handle dp en cl (RqDecrypt i tq r) st = answer RsText (rest_decrypt dp en cl i tq r st)"
| "handle dp en cl (RqSign i tq d) st = answer RsSigned (rest_sign dp en cl i tq d st)"
| "handle dp en cl (RqVerify i tq d s) st = answer RsValid (rest_verify dp en cl i tq d s st)"
| "handle dp en cl (RqHmac i tq d a) st = answer RsHmac (rest_hmac dp en cl i tq d a st)"
| "handle dp en cl (RqHmacVerify i tq d m a) st = answer RsValid (rest_hmac_verify dp en cl i tq d m a st)"
| "handle dp en cl (RqHash d a) st = answer RsHash (rest_hash dp en cl d a st)"
| "handle dp en cl (RqSm9Sign i d) st = answer RsText (rest_sm9_sign dp en cl i d st)"
| "handle dp en cl (RqSm9Verify i d s) st = answer RsValid (rest_sm9_verify dp en cl i d s st)"
| "handle dp en cl (RqSm9Encrypt i d) st = answer RsText (rest_sm9_encrypt dp en cl i d st)"
| "handle dp en cl (RqSm9Decrypt i c) st = answer RsText (rest_sm9_decrypt dp en cl i c st)"
| "handle dp en cl (RqEnvelopeEncrypt r) st = answer RsEnvelope (rest_envelope_encrypt dp en cl r st)"
| "handle dp en cl (RqEnvelopeDecrypt r) st = answer RsText (rest_envelope_decrypt dp en cl r st)"
| "handle dp en cl (RqEnvelopeRewrap r) st = answer RsRewrapped (rest_envelope_rewrap dp en cl r st)"
| "handle dp en cl (RqDhDerive r) st = answer RsShared (rest_dh_derive dp en cl r st)"
| "handle dp en cl (RqCreateKey r) st = answer RsKey (rest_create_key dp en cl r st)"
| "handle dp en cl (RqRotateKey i tq) st = answer RsKey (rest_rotate_key dp en cl i tq st)"
| "handle dp en cl (RqDeleteKey i tq) st = answer (\<lambda>_. RsDone) (rest_delete_key dp en cl i tq st)"
| "handle dp en cl (RqImportKey r) st = answer RsImported (rest_import_key dp en cl r st)"
| "handle dp en cl (RqExportKey i tq r) st = answer RsExported (rest_export_key dp en cl i tq r st)"
| "handle dp en cl (RqCreatePolicy r) st = answer RsPolicy (rest_create_policy dp en cl r st)"
| "handle dp en cl RqListPolicies st = answer RsPolicies (rest_list_policies dp st)"
| "handle dp en cl (RqGetPolicy i) st = answer RsPolicy (rest_get_policy dp i st)"
| "handle dp en cl (RqDeletePolicy i) st = answer (\<lambda>_. RsDone) (rest_delete_policy dp en cl i st)"
| "handle dp en cl (RqQueryAudit f) st = answer RsEvents (query_audit_events dp en cl f st)"
| "handle dp en cl (RqMfaSetup u) st = answer RsMfaSetup (rest_mfa_setup dp en u st)"
| "handle dp en cl (RqMfaVerify u c) st = answer (\<lambda>(v, n). RsMfaVerified v n) (rest_mfa_verify dp en cl u c st)"
| "handle dp en cl (RqMfaVerifyBackup u c) st = answer RsValid (rest_mfa_verify_backup dp en cl u c st)"
| "handle dp en cl (RqMfaStatus u) st = answer RsMfaStatus (rest_mfa_status dp en cl u st)"
| "handle dp en cl (RqListPending t) st = answer RsApprovals (list_pending_approvals dp en cl t st)"
| "handle dp en cl (RqApprove i c) st = answer RsApproval (approve_request dp en cl i c st)"
| "handle dp en cl (RqReject i r) st = answer RsApproval (reject_request dp en cl i r st)"
| "handle dp en cl (RqCreateApproval r) st = answer RsApproval (create_approval_request dp en cl r st)"
| "handle dp en cl (RqGetApproval i) st = answer RsApproval (get_approval_request dp en cl i st)"
| "handle dp en cl (RqCancel i) st = answer RsApproval (cancel_request dp en cl i st)"

text \<open>
  A request to a protected route: the middleware looks up the key in the header, compares the
  permission of the route, and hands on to the handler. \<open>header\<close> gives the values of the headers of the
  request. The rate limiter in front of it is left out.
\<close>

definition serve ::
  "('n, 's, 'r, 'q, 'j, 'kp, 'v) kms_deps \<Rightarrow> 'n request_env \<Rightarrow> time \<Rightarrow> time \<Rightarrow> (string \<Rightarrow> string option) \<Rightarrow> api_request
   \<Rightarrow> ('s, 'r, 'q, 'j) kms_state \<Rightarrow> (http_status + (api_error + api_response)) \<times> ('s, 'r, 'q, 'j) kms_state" where
  "serve dp en now1 now2 header req st =
     (case require_permission (route_permission req) now1 now2 \<lparr>rq_config = Some (st_api_keys st), rq_header = header\<rparr>
             (\<lambda>cl. handle dp en cl req st) of
        Inl status \<Rightarrow> (Inl status, st)
      | Inr (r, st) \<Rightarrow> (Inr r, st))"

end
