(* ===== verification/Grpc.thy ===== *)
theory Grpc
  imports Rest_Control
begin

text \<open>
  The gRPC interface, \<^verbatim>\<open>crates/kms-api/src/grpc.rs\<close>, over the same state and services as the HTTP interface:
  the interceptor that authenticates, the permission each method asks for, the handlers, and the status
  every error becomes. Messages are taken as parsed; their text fields that hold identifiers or
  base64 are still text. Fields a method never reads are left out, but for the additional data of the
  encrypting methods. The Debug text of an event type is kept as the type.
\<close>

section \<open>Statuses\<close>

datatype grpc_code =
  Unauthenticated | CodePermissionDenied | InvalidArgument | CodeNotFound | FailedPrecondition
  | CodeInternal | ResourceExhausted | Unimplemented

text \<open>A status is a code with a message. A panic of a handler is none.\<close>

datatype grpc_status = Status grpc_code msg | GrpcPanicked string

fun api_error_to_status :: "api_error \<Rightarrow> grpc_status" where
  "api_error_to_status (ApiKeyNotFound i) = Status CodeNotFound (Lit ''key not found'')"
| "api_error_to_status (ApiInvalidRequest m) = Status InvalidArgument m"
| "api_error_to_status (ApiForbidden m) = Status CodePermissionDenied m"
| "api_error_to_status (ApiQuotaExceeded r c l) = Status ResourceExhausted
     (Fmt [Lit ''quota exceeded for '', Str r, Lit '': '', Num (unat c), Lit ''/'', Num (unat l)])"
| "api_error_to_status (ApiInternal m) = Status CodeInternal (Lit ''internal server error'')"
| "api_error_to_status (ApiNotFound m) = Status CodeNotFound m"
| "api_error_to_status (ApiInvalidArgument m) = Status InvalidArgument m"
| "api_error_to_status ApiPermissionDenied = Status CodePermissionDenied (Lit ''permission denied'')"
| "api_error_to_status (ApiBadRequest m) = Status InvalidArgument m"
| "api_error_to_status (ApiTooManyRequests m) = Status ResourceExhausted m"
| "api_error_to_status ApiNotImplemented = Status Unimplemented (Lit ''not implemented'')"
| "api_error_to_status (ApiPanicked p) = GrpcPanicked p"

section \<open>Authentication and checks\<close>

text \<open>
  The metadata of a call: the text of an entry, none when the entry is missing or not visible ASCII. The
  record \<open>caller\<close> plays the part of \<open>GrpcCaller\<close>.
\<close>

definition strip_prefix :: "string \<Rightarrow> string \<Rightarrow> string option" where
  "strip_prefix p s = (if take (length p) s = p then Some (drop (length p) s) else None)"

definition metadata_key :: "(string \<Rightarrow> string option) \<Rightarrow> string option" where
  "metadata_key metadata =
     (case metadata ''x-api-key'' of
        Some key \<Rightarrow> Some key
      | None \<Rightarrow> Option.bind (metadata ''authorization'') (strip_prefix ''Bearer ''))"

definition interceptor_call :: "time \<Rightarrow> api_key_config \<Rightarrow> (string \<Rightarrow> string option) \<Rightarrow> grpc_status + caller" where
  "interceptor_call now config metadata =
     (case metadata_key metadata of
        Some key \<Rightarrow>
          (case validate_with_identity now config key of
             Some (permission, key_id) \<Rightarrow>
               Inr \<lparr>cl_key_id = key_id, cl_bound_tenant = lookup_tenant config key, cl_role = permission\<rparr>
           | None \<Rightarrow> Inl (Status Unauthenticated (Lit ''invalid API key'')))
      | None \<Rightarrow> Inl (Status Unauthenticated (Lit ''API key required: set x-api-key metadata header'')))"

text \<open>The caller is what the interceptor left in the request, if anything. The permission is shown by \<open>Debug\<close>.\<close>

definition check_permission :: "caller option \<Rightarrow> permission \<Rightarrow> grpc_status + caller" where
  "check_permission extension required =
     (case extension of
        Some cl \<Rightarrow>
          if satisfies (cl_role cl) required then Inr cl
          else Inl (Status CodePermissionDenied (Fmt [Lit ''insufficient permissions: '', Num (unat required), Lit '' required'']))
      | None \<Rightarrow> Inl (Status Unauthenticated (Lit ''no caller context'')))"

text \<open>The engine never answers with an error, so the internal status of \<open>check_pbac\<close> does not arise.\<close>

definition grpc_check_pbac ::
  "'n request_env \<Rightarrow> string \<Rightarrow> string \<Rightarrow> string \<Rightarrow> string \<Rightarrow> ('s, 'r, 'q, 'j) kms_state \<Rightarrow> grpc_status + unit" where
  "grpc_check_pbac en subject_id tenant action resource_id st =
     (case evaluate_pbac (re_policy_clock en) (st_policy st) subject_id tenant action resource_id of
        None \<Rightarrow> Inl (GrpcPanicked ''glob_match'')
      | Some PbacAllowed \<Rightarrow> Inr ()
      | Some PbacDenied \<Rightarrow> Inl (Status CodePermissionDenied (Lit ''access denied by policy'')))"

definition grpc_require_approved ::
  "('n, 's, 'r, 'q, 'j, 'kp, 'v) kms_deps \<Rightarrow> time \<Rightarrow> string \<Rightarrow> operation_type \<Rightarrow> string \<Rightarrow> string
   \<Rightarrow> ('s, 'r, 'q, 'j) kms_state \<Rightarrow> grpc_status + unit" where
  "grpc_require_approved dp now approval_id operation resource_id action st =
     (if approval_id = [] then
        Inl (Status FailedPrecondition (Fmt [Str action, Lit '' requires an approved request. Create one via the approvals API first'']))
      else
        and_then (ok_or (Status InvalidArgument (Lit ''invalid approval_id format'')) (rx_parse_uuid (dp_rest dp) approval_id)) (\<lambda>approval_uuid.
        if \<not> is_approved now (st_approval st) approval_uuid operation resource_id then
          Inl (Status CodePermissionDenied (Fmt [Str action, Lit '' requires a fully approved request bound to this resource'']))
        else Inr ()))"

definition grpc_resolve_tenant :: "string option \<Rightarrow> string \<Rightarrow> grpc_status + string" where
  "grpc_resolve_tenant bound req_tenant =
     (case bound of
        Some b \<Rightarrow> Inr b
      | None \<Rightarrow>
          if req_tenant = [] then
            Inl (Status InvalidArgument (Lit ''tenant_id is required: set it in the request or bind it to the API key''))
          else Inr req_tenant)"

section \<open>Steps the handlers share\<close>

definition invalid_arg :: "string \<Rightarrow> grpc_status" where
  "invalid_arg s = Status InvalidArgument (Lit s)"

text \<open>An identifier in a message; the text of the refusal differs between the methods.\<close>

definition grpc_parse_id :: "('n, 's, 'r, 'q, 'j, 'kp, 'v) kms_deps \<Rightarrow> string \<Rightarrow> string \<Rightarrow> grpc_status + uuid" where
  "grpc_parse_id dp refusal text = ok_or (invalid_arg refusal) (rx_parse_uuid (dp_rest dp) text)"

definition grpc_decode :: "('n, 's, 'r, 'q, 'j, 'kp, 'v) kms_deps \<Rightarrow> string \<Rightarrow> string \<Rightarrow> grpc_status + bytes" where
  "grpc_decode dp field text = map_err (\<lambda>_. invalid_arg (''invalid base64 '' @ field)) (rx_b64_decode (dp_rest dp) text)"

text \<open>A call of a service with its errors turned into statuses, and a direct call of the keystore.\<close>

definition grpc_svc ::
  "(('s, 'r) svc_state \<Rightarrow> (api_error + 'a) \<times> ('s, 'r) svc_state) \<Rightarrow> ('s, 'r, 'q, 'j) kms_state
    \<Rightarrow> (grpc_status + 'a) \<times> ('s, 'r, 'q, 'j) kms_state" where
  "grpc_svc f st = (let (r, st) = with_svc f st in (map_err api_error_to_status r, st))"

definition grpc_keystore ::
  "(kms_error \<Rightarrow> grpc_status) \<Rightarrow> ('s \<Rightarrow> (kms_error + 'a) \<times> 's) \<Rightarrow> ('s, 'r, 'q, 'j) kms_state
    \<Rightarrow> (grpc_status + 'a) \<times> ('s, 'r, 'q, 'j) kms_state" where
  "grpc_keystore h f st =
     (let (r, ks) = f (sv_keystore (st_svc st)) in (map_err h r, st\<lparr>st_svc := (st_svc st)\<lparr>sv_keystore := ks\<rparr>\<rparr>))"

definition keystore_status :: "msg \<Rightarrow> kms_error \<Rightarrow> grpc_status" where
  "keystore_status not_found e =
     (case e of
        KeyNotFound _ \<Rightarrow> Status CodeNotFound not_found
      | Panicked p \<Rightarrow> GrpcPanicked p
      | _ \<Rightarrow> Status CodeInternal (err_display e))"

definition internal_text :: "string + 'a \<Rightarrow> grpc_status + 'a" where
  "internal_text = map_err (\<lambda>e. Status CodeInternal (Str e))"

text \<open>An empty field of additional data counts as none.\<close>

definition non_empty :: "bytes \<Rightarrow> bytes option" where
  "non_empty b = (if b = [] then None else Some b)"

text \<open>
  The beginning of the methods: the permission of the caller, the identifier of the key where there is
  one, the tenant, and the policy check. It answers with the caller, the key and the tenant.
\<close>

definition enter_key ::
  "('n, 's, 'r, 'q, 'j, 'kp, 'v) kms_deps \<Rightarrow> 'n request_env \<Rightarrow> caller option \<Rightarrow> permission \<Rightarrow> string \<Rightarrow> string \<Rightarrow> string \<Rightarrow> string
   \<Rightarrow> ('s, 'r, 'q, 'j) kms_state \<Rightarrow> grpc_status + caller \<times> uuid \<times> string" where
  "enter_key dp en ext required refusal id_text req_tenant action st =
     and_then (check_permission ext required) (\<lambda>cl.
     and_then (grpc_parse_id dp refusal id_text) (\<lambda>i.
     and_then (grpc_resolve_tenant (cl_bound_tenant cl) req_tenant) (\<lambda>t.
     and_then (grpc_check_pbac en (cl_key_id cl) t action (uuid_text dp i) st) (\<lambda>_. Inr (cl, i, t)))))"

definition enter_tenant ::
  "'n request_env \<Rightarrow> caller option \<Rightarrow> permission \<Rightarrow> string \<Rightarrow> string \<Rightarrow> string \<Rightarrow> ('s, 'r, 'q, 'j) kms_state \<Rightarrow> grpc_status + caller \<times> string" where
  "enter_tenant en ext required req_tenant action resource st =
     and_then (check_permission ext required) (\<lambda>cl.
     and_then (grpc_resolve_tenant (cl_bound_tenant cl) req_tenant) (\<lambda>t.
     and_then (grpc_check_pbac en (cl_key_id cl) t action resource st) (\<lambda>_. Inr (cl, t))))"

definition enter_global ::
  "'n request_env \<Rightarrow> caller option \<Rightarrow> permission \<Rightarrow> string \<Rightarrow> string \<Rightarrow> ('s, 'r, 'q, 'j) kms_state \<Rightarrow> grpc_status + caller" where
  "enter_global en ext required action resource st =
     and_then (check_permission ext required) (\<lambda>cl.
     and_then (grpc_check_pbac en (cl_key_id cl) (bound_or_empty cl) action resource st) (\<lambda>_. Inr cl))"

section \<open>Keys\<close>

definition grpc_create_key ::
  "('n, 's, 'r, 'q, 'j, 'kp, 'v) kms_deps \<Rightarrow> 'n request_env \<Rightarrow> caller option \<Rightarrow> string \<Rightarrow> string \<Rightarrow> string
   \<Rightarrow> ('s, 'r, 'q, 'j) kms_state \<Rightarrow> (grpc_status + key_response) \<times> ('s, 'r, 'q, 'j) kms_state" where
  "grpc_create_key dp en ext name spec_text req_tenant st =
     then_st (enter_tenant en ext CREATE_KEY req_tenant ''create_key'' name st, st) (\<lambda>(cl, tenant_id) st.
     then_st (map_err api_error_to_status (parse_spec spec_text), st) (\<lambda>spec st.
     then_st (grpc_svc (kys_create_key (dp_services dp) (re_call en) spec name tenant_id) st) (\<lambda>meta st.
     let st = log_event (ev_key_created (uuid_text dp) (re_ids en 0) (re_clock en 0) (m_id meta) (cl_key_id cl) spec_text) st
     in (Inr (key_response_of dp meta), backup_new_key dp en meta tenant_id name st))))"

definition grpc_get_key ::
  "('n, 's, 'r, 'q, 'j, 'kp, 'v) kms_deps \<Rightarrow> 'n request_env \<Rightarrow> caller option \<Rightarrow> string \<Rightarrow> string
   \<Rightarrow> ('s, 'r, 'q, 'j) kms_state \<Rightarrow> (grpc_status + key_response) \<times> ('s, 'r, 'q, 'j) kms_state" where
  "grpc_get_key dp en ext id_text req_tenant st =
     then_st (enter_key dp en ext GET_KEY ''invalid key id'' id_text req_tenant ''get_key'' st, st) (\<lambda>(cl, i, tenant_id) st.
     then_st (grpc_svc (kys_get_key (dp_services dp) (re_call en) i tenant_id) st) (\<lambda>meta st.
     (Inr (key_response_of dp meta),
      log_event (ev_key_material_accessed (uuid_text dp) (re_ids en 0) (re_clock en 0) i (cl_key_id cl) ''get'') st)))"

definition grpc_rotate_key ::
  "('n, 's, 'r, 'q, 'j, 'kp, 'v) kms_deps \<Rightarrow> 'n request_env \<Rightarrow> caller option \<Rightarrow> string \<Rightarrow> string \<Rightarrow> string
   \<Rightarrow> ('s, 'r, 'q, 'j) kms_state \<Rightarrow> (grpc_status + key_response) \<times> ('s, 'r, 'q, 'j) kms_state" where
  "grpc_rotate_key dp en ext id_text req_tenant approval_id st =
     then_st (enter_key dp en ext ROTATE_KEY ''invalid key id'' id_text req_tenant ''rotate_key'' st, st) (\<lambda>(cl, i, tenant_id) st.
     then_st (grpc_require_approved dp (re_clock en 1) approval_id KeyRotate (uuid_text dp i) ''key rotation'' st, st) (\<lambda>_ st.
     then_st (grpc_svc (kys_rotate_key (dp_services dp) (re_call en) i tenant_id) st) (\<lambda>meta st.
     (Inr (key_response_of dp meta),
      log_event (ev_key_rotated (uuid_text dp) (re_ids en 0) (re_clock en 0) i (cl_key_id cl)) st))))"

definition grpc_delete_key ::
  "('n, 's, 'r, 'q, 'j, 'kp, 'v) kms_deps \<Rightarrow> 'n request_env \<Rightarrow> caller option \<Rightarrow> string \<Rightarrow> string \<Rightarrow> string
   \<Rightarrow> ('s, 'r, 'q, 'j) kms_state \<Rightarrow> (grpc_status + unit) \<times> ('s, 'r, 'q, 'j) kms_state" where
  "grpc_delete_key dp en ext id_text req_tenant approval_id st =
     then_st (enter_key dp en ext DELETE_KEY ''invalid key id'' id_text req_tenant ''delete_key'' st, st) (\<lambda>(cl, i, tenant_id) st.
     then_st (grpc_require_approved dp (re_clock en 1) approval_id KeyDelete (uuid_text dp i) ''key deletion'' st, st) (\<lambda>_ st.
     then_st (grpc_svc (kys_delete_key (dp_services dp) (re_call en) i tenant_id) st) (\<lambda>_ st.
     (Inr (), log_event (ev_key_deleted (uuid_text dp) (re_ids en 0) (re_clock en 0) i (cl_key_id cl)) st))))"

definition grpc_list_keys ::
  "('n, 's, 'r, 'q, 'j, 'kp, 'v) kms_deps \<Rightarrow> 'n request_env \<Rightarrow> caller option \<Rightarrow> string
   \<Rightarrow> ('s, 'r, 'q, 'j) kms_state \<Rightarrow> (grpc_status + key_response list) \<times> ('s, 'r, 'q, 'j) kms_state" where
  "grpc_list_keys dp en ext req_tenant st =
     then_st (enter_tenant en ext LIST_KEYS req_tenant ''list_keys'' ''keys'' st, st) (\<lambda>(cl, tenant_id) st.
     then_st (grpc_svc (kys_list_keys (dp_services dp) (re_call en) key_filter_default tenant_id) st) (\<lambda>ks st.
     (Inr (map (key_response_of dp) ks), log_event (plain_event en KeyAccessed (cl_key_id cl) ''list_keys'' ''keys'' None) st)))"

definition grpc_import_key ::
  "('n, 's, 'r, 'q, 'j, 'kp, 'v) kms_deps \<Rightarrow> 'n request_env \<Rightarrow> caller option \<Rightarrow> string \<Rightarrow> string \<Rightarrow> bytes \<Rightarrow> string
   \<Rightarrow> ('s, 'r, 'q, 'j) kms_state \<Rightarrow> (grpc_status + key_response) \<times> ('s, 'r, 'q, 'j) kms_state" where
  "grpc_import_key dp en ext name spec_text key_material req_tenant st =
     then_st (enter_tenant en ext IMPORT_KEY req_tenant ''import_key'' name st, st) (\<lambda>(cl, tenant_id) st.
     then_st (map_err api_error_to_status (parse_spec spec_text), st) (\<lambda>spec st.
     then_st (grpc_keystore (keystore_status (Lit ''key not found''))
                (be_import_key_material (svc_keystore (dp_services dp)) (re_envs en 0) spec name tenant_id key_material) st) (\<lambda>meta st.
     (Inr (key_response_of dp meta),
      log_event (ev_key_imported (uuid_text dp) (re_ids en 0) (re_clock en 0) (m_id meta) (cl_key_id cl) ''raw'') st))))"

record grpc_export_request =
  gx_id :: string
  gx_tenant_id :: string
  gx_approval_id :: string
  gx_target_public_key :: bytes
  gx_purpose :: string
  gx_protection_scheme :: string
  gx_version :: u32

definition grpc_export_key ::
  "('n, 's, 'r, 'q, 'j, 'kp, 'v) kms_deps \<Rightarrow> 'n request_env \<Rightarrow> caller option \<Rightarrow> grpc_export_request
   \<Rightarrow> ('s, 'r, 'q, 'j) kms_state \<Rightarrow> (grpc_status + exported_key) \<times> ('s, 'r, 'q, 'j) kms_state" where
  "grpc_export_key dp en ext req st =
     then_st (enter_key dp en ext EXPORT_KEY ''invalid key id format'' (gx_id req) (gx_tenant_id req) ''export_key'' st, st) (\<lambda>(cl, key_id, tenant_id) st.
     then_st (grpc_require_approved dp (re_clock en 1) (gx_approval_id req) KeyExport (uuid_text dp key_id) ''key export'' st, st) (\<lambda>_ st.
     then_st (map_err api_error_to_status (parse_protection (Some (gx_protection_scheme req))), st) (\<lambda>protection st.
     then_st (grpc_svc (kys_export_key (dp_crypto dp) (dp_svc_crates dp) (dp_services dp) (re_call en) key_id (gx_target_public_key req) tenant_id
                \<lparr>eo_protection = protection, eo_version = (if gx_version req \<noteq> 0 then Some (gx_version req) else None)\<rparr>) st) (\<lambda>exported st.
     (Inr exported, log_event (plain_event en KeyAccessed (cl_key_id cl) ''export_key'' ''export'' (Some (uuid_text dp key_id))) st)))))"

section \<open>Using keys\<close>

record grpc_encrypt_response =
  gc_ciphertext :: string
  gc_nonce :: string
  gc_tag :: string
  gc_version :: u32
  gc_format_version :: u32

text \<open>The additional data of a request to encrypt or decrypt is not looked at.\<close>

definition grpc_encrypt ::
  "('n, 's, 'r, 'q, 'j, 'kp, 'v) kms_deps \<Rightarrow> 'n request_env \<Rightarrow> caller option \<Rightarrow> string \<Rightarrow> bytes \<Rightarrow> bytes \<Rightarrow> string
   \<Rightarrow> ('s, 'r, 'q, 'j) kms_state \<Rightarrow> (grpc_status + grpc_encrypt_response) \<times> ('s, 'r, 'q, 'j) kms_state" where
  "grpc_encrypt dp en ext id_text plaintext aad req_tenant st =
     then_st (enter_key dp en ext ENCRYPT ''invalid key id'' id_text req_tenant ''encrypt'' st, st) (\<lambda>(cl, i, tenant_id) st.
     then_st (grpc_svc (cs_encrypt (dp_services dp) (re_call en) i plaintext None tenant_id) st) (\<lambda>c st.
     (Inr \<lparr>gc_ciphertext = encode64 dp (ct_ciphertext c), gc_nonce = encode64 dp (ct_nonce c), gc_tag = encode64 dp (ct_tag c),
           gc_version = ct_version c, gc_format_version = ucast (ct_format_version c)\<rparr>,
      log_event (ev_key_encrypted (uuid_text dp) (re_ids en 0) (re_clock en 0) i (cl_key_id cl) (length plaintext)) st)))"

record grpc_decrypt_request =
  gd_key_id :: string
  gd_ciphertext :: string
  gd_nonce :: string
  gd_tag :: string
  gd_aad :: bytes
  gd_version :: u32
  gd_tenant_id :: string
  gd_format_version :: "u32 option"

definition grpc_decrypt ::
  "('n, 's, 'r, 'q, 'j, 'kp, 'v) kms_deps \<Rightarrow> 'n request_env \<Rightarrow> caller option \<Rightarrow> grpc_decrypt_request
   \<Rightarrow> ('s, 'r, 'q, 'j) kms_state \<Rightarrow> (grpc_status + bytes) \<times> ('s, 'r, 'q, 'j) kms_state" where
  "grpc_decrypt dp en ext req st =
     then_st (enter_key dp en ext DECRYPT ''invalid key id'' (gd_key_id req) (gd_tenant_id req) ''decrypt'' st, st) (\<lambda>(cl, i, tenant_id) st.
     then_st (grpc_decode dp ''nonce'' (gd_nonce req), st) (\<lambda>nonce st.
     then_st (grpc_decode dp ''ciphertext'' (gd_ciphertext req), st) (\<lambda>cipher st.
     then_st (grpc_decode dp ''tag'' (gd_tag req), st) (\<lambda>tag st.
     let c = \<lparr>ct_key_id = i, ct_version = (if gd_version req = 0 then 1 else gd_version req),
              ct_format_version = ucast (case gd_format_version req of Some v \<Rightarrow> v | None \<Rightarrow> 2),
              ct_nonce = nonce, ct_ciphertext = cipher, ct_tag = tag\<rparr>
     in then_st (grpc_svc (cs_decrypt (dp_services dp) (re_call en) i c None tenant_id) st) (\<lambda>plaintext st.
        (Inr plaintext,
         log_event (ev_key_decrypted (uuid_text dp) (re_ids en 0) (re_clock en 0) i (cl_key_id cl) (length plaintext)) st))))))"

definition grpc_sign ::
  "('n, 's, 'r, 'q, 'j, 'kp, 'v) kms_deps \<Rightarrow> 'n request_env \<Rightarrow> caller option \<Rightarrow> string \<Rightarrow> string \<Rightarrow> string
   \<Rightarrow> ('s, 'r, 'q, 'j) kms_state \<Rightarrow> (grpc_status + sign_response) \<times> ('s, 'r, 'q, 'j) kms_state" where
  "grpc_sign dp en ext id_text data_text req_tenant st =
     then_st (enter_key dp en ext SIGN ''invalid key id'' id_text req_tenant ''sign'' st, st) (\<lambda>(cl, i, tenant_id) st.
     then_st (grpc_decode dp ''data'' data_text, st) (\<lambda>data st.
     then_st (grpc_svc (cs_sign (dp_services dp) (re_call en) i data tenant_id) st) (\<lambda>sg st.
     (Inr \<lparr>sr_signature = encode64 dp (sig_signature sg), sr_version = sig_version sg\<rparr>,
      log_event (ev_key_signed (uuid_text dp) (re_ids en 0) (re_clock en 0) i (cl_key_id cl)) st))))"

definition grpc_verify ::
  "('n, 's, 'r, 'q, 'j, 'kp, 'v) kms_deps \<Rightarrow> 'n request_env \<Rightarrow> caller option \<Rightarrow> string \<Rightarrow> string \<Rightarrow> string \<Rightarrow> string
   \<Rightarrow> ('s, 'r, 'q, 'j) kms_state \<Rightarrow> (grpc_status + bool) \<times> ('s, 'r, 'q, 'j) kms_state" where
  "grpc_verify dp en ext id_text data_text signature_text req_tenant st =
     then_st (enter_key dp en ext VERIFY ''invalid key id'' id_text req_tenant ''verify'' st, st) (\<lambda>(cl, i, tenant_id) st.
     then_st (grpc_decode dp ''data'' data_text, st) (\<lambda>data st.
     then_st (grpc_decode dp ''signature'' signature_text, st) (\<lambda>signature_bytes st.
     let sg = \<lparr>sig_key_id = i, sig_version = 1, sig_signature = signature_bytes\<rparr>
     in then_st (grpc_svc (cs_verify (dp_services dp) (re_call en) i data sg tenant_id) st) (\<lambda>valid st.
        (Inr valid, log_event (ev_key_verified (uuid_text dp) (re_ids en 0) (re_clock en 0) i (cl_key_id cl) valid) st)))))"

definition grpc_hmac ::
  "('n, 's, 'r, 'q, 'j, 'kp, 'v) kms_deps \<Rightarrow> 'n request_env \<Rightarrow> caller option \<Rightarrow> string \<Rightarrow> bytes \<Rightarrow> bytes \<Rightarrow> string
   \<Rightarrow> ('s, 'r, 'q, 'j) kms_state \<Rightarrow> (grpc_status + bytes \<times> u32) \<times> ('s, 'r, 'q, 'j) kms_state" where
  "grpc_hmac dp en ext id_text data aad req_tenant st =
     then_st (enter_key dp en ext ENCRYPT ''invalid key id'' id_text req_tenant ''hmac'' st, st) (\<lambda>(cl, i, tenant_id) st.
     then_st (grpc_svc (cs_hmac (dp_svc_crates dp) (dp_services dp) (re_call en) i data (non_empty aad) tenant_id) st) (\<lambda>mac st.
     (Inr mac, log_event (ev_key_signed (uuid_text dp) (re_ids en 0) (re_clock en 0) i (cl_key_id cl)) st)))"

definition grpc_hmac_verify ::
  "('n, 's, 'r, 'q, 'j, 'kp, 'v) kms_deps \<Rightarrow> 'n request_env \<Rightarrow> caller option \<Rightarrow> string \<Rightarrow> bytes \<Rightarrow> bytes \<Rightarrow> bytes \<Rightarrow> string
   \<Rightarrow> ('s, 'r, 'q, 'j) kms_state \<Rightarrow> (grpc_status + bool) \<times> ('s, 'r, 'q, 'j) kms_state" where
  "grpc_hmac_verify dp en ext id_text data mac aad req_tenant st =
     then_st (enter_key dp en ext ENCRYPT ''invalid key id'' id_text req_tenant ''hmac_verify'' st, st) (\<lambda>(cl, i, tenant_id) st.
     then_st (grpc_svc (cs_hmac_verify (dp_svc_crates dp) (dp_services dp) (re_call en) i data (non_empty aad) mac tenant_id) st) (\<lambda>valid st.
     (Inr valid, log_event (ev_key_verified (uuid_text dp) (re_ids en 0) (re_clock en 0) i (cl_key_id cl) valid) st)))"

section \<open>Identity-based cryptography\<close>

definition grpc_sm9_sign ::
  "('n, 's, 'r, 'q, 'j, 'kp, 'v) kms_deps \<Rightarrow> 'n request_env \<Rightarrow> caller option \<Rightarrow> string \<Rightarrow> string
   \<Rightarrow> ('s, 'r, 'q, 'j) kms_state \<Rightarrow> (grpc_status + string) \<times> ('s, 'r, 'q, 'j) kms_state" where
  "grpc_sm9_sign dp en ext identity data_text st =
     then_st (enter_global en ext SIGN ''sm9_sign'' identity st, st) (\<lambda>cl st.
     then_st (grpc_decode dp ''data'' data_text, st) (\<lambda>data st.
     then_st (internal_text (rx_sm9_signer (dp_rest dp) (str_bytes identity)), st) (\<lambda>signer st.
     then_st (internal_text (signer data (re_rng en)), st) (\<lambda>signature_bytes st.
     (Inr (encode64 dp signature_bytes), log_event (sm9_event en cl ''sm9_sign'') st)))))"

definition grpc_sm9_verify ::
  "('n, 's, 'r, 'q, 'j, 'kp, 'v) kms_deps \<Rightarrow> 'n request_env \<Rightarrow> caller option \<Rightarrow> string \<Rightarrow> string \<Rightarrow> string
   \<Rightarrow> ('s, 'r, 'q, 'j) kms_state \<Rightarrow> (grpc_status + bool) \<times> ('s, 'r, 'q, 'j) kms_state" where
  "grpc_sm9_verify dp en ext identity data_text s_text st =
     then_st (enter_global en ext VERIFY ''sm9_verify'' identity st, st) (\<lambda>cl st.
     then_st (grpc_decode dp ''data'' data_text, st) (\<lambda>data st.
     then_st (grpc_decode dp ''s'' s_text, st) (\<lambda>signature_bytes st.
     then_st (case rx_sm9_signature_from_der (dp_rest dp) signature_bytes of
                Inr sg \<Rightarrow> Inr sg
              | Inl _ \<Rightarrow> map_err (\<lambda>e. Status InvalidArgument (Fmt [Lit ''invalid signature format: '', Str e]))
                           (rx_sm9_signature_from_bytes (dp_rest dp) signature_bytes), st) (\<lambda>sg st.
     then_st (internal_text (rx_sm9_verify (dp_rest dp) (str_bytes identity) data sg), st) (\<lambda>valid st.
     (Inr valid, log_event (sm9_event en cl ''sm9_verify'') st))))))"

definition grpc_sm9_encrypt ::
  "('n, 's, 'r, 'q, 'j, 'kp, 'v) kms_deps \<Rightarrow> 'n request_env \<Rightarrow> caller option \<Rightarrow> string \<Rightarrow> bytes
   \<Rightarrow> ('s, 'r, 'q, 'j) kms_state \<Rightarrow> (grpc_status + string) \<times> ('s, 'r, 'q, 'j) kms_state" where
  "grpc_sm9_encrypt dp en ext identity plaintext st =
     then_st (enter_global en ext ENCRYPT ''sm9_encrypt'' identity st, st) (\<lambda>cl st.
     then_st (internal_text (rx_sm9_encrypt (dp_rest dp) (str_bytes identity) plaintext (re_rng en)), st) (\<lambda>c st.
     (Inr (encode64 dp c), log_event (sm9_event en cl ''sm9_encrypt'') st)))"

definition grpc_sm9_decrypt ::
  "('n, 's, 'r, 'q, 'j, 'kp, 'v) kms_deps \<Rightarrow> 'n request_env \<Rightarrow> caller option \<Rightarrow> string \<Rightarrow> string
   \<Rightarrow> ('s, 'r, 'q, 'j) kms_state \<Rightarrow> (grpc_status + bytes) \<times> ('s, 'r, 'q, 'j) kms_state" where
  "grpc_sm9_decrypt dp en ext identity c1_text st =
     then_st (enter_global en ext DECRYPT ''sm9_decrypt'' identity st, st) (\<lambda>cl st.
     then_st (grpc_decode dp ''ciphertext'' c1_text, st) (\<lambda>ciphertext_bytes st.
     then_st (internal_text (rx_sm9_decryptor (dp_rest dp) (str_bytes identity)), st) (\<lambda>decryptor st.
     then_st (map_err (\<lambda>e. Status InvalidArgument (Fmt [Lit ''invalid ciphertext: '', Str e]))
                (rx_sm9_ciphertext_from_bytes (dp_rest dp) ciphertext_bytes), st) (\<lambda>c st.
     then_st (internal_text (decryptor c (str_bytes identity)), st) (\<lambda>plaintext st.
     (Inr plaintext, log_event (sm9_event en cl ''sm9_decrypt'') st))))))"

section \<open>Envelopes, hashes and key agreement\<close>

definition grpc_envelope_encrypt ::
  "('n, 's, 'r, 'q, 'j, 'kp, 'v) kms_deps \<Rightarrow> 'n request_env \<Rightarrow> caller option \<Rightarrow> string \<Rightarrow> bytes \<Rightarrow> bytes \<Rightarrow> string
   \<Rightarrow> ('s, 'r, 'q, 'j) kms_state \<Rightarrow> (grpc_status + envelope_encrypt_response) \<times> ('s, 'r, 'q, 'j) kms_state" where
  "grpc_envelope_encrypt dp en ext kek_text plaintext aad req_tenant st =
     then_st (enter_key dp en ext ENCRYPT ''invalid kek_id format'' kek_text req_tenant ''envelope_encrypt'' st, st) (\<lambda>(cl, kek_id, tenant_id) st.
     then_st (grpc_svc (es_encrypt (dp_crypto dp) (dp_svc_crates dp) (dp_services dp) (re_call en) kek_id plaintext None tenant_id) st) (\<lambda>res st.
     (Inr res, log_event (ev_key_encrypted (uuid_text dp) (re_ids en 0) (re_clock en 0) kek_id (cl_key_id cl) (length plaintext)) st)))"

record grpc_envelope_decrypt_request =
  gv_kek_id :: string
  gv_ciphertext :: bytes
  gv_wrapped_dek :: bytes
  gv_dek_nonce :: bytes
  gv_data_nonce :: bytes
  gv_tag :: bytes
  gv_aad :: bytes
  gv_kek_version :: u32
  gv_tenant_id :: string

definition grpc_envelope_decrypt ::
  "('n, 's, 'r, 'q, 'j, 'kp, 'v) kms_deps \<Rightarrow> 'n request_env \<Rightarrow> caller option \<Rightarrow> grpc_envelope_decrypt_request
   \<Rightarrow> ('s, 'r, 'q, 'j) kms_state \<Rightarrow> (grpc_status + bytes) \<times> ('s, 'r, 'q, 'j) kms_state" where
  "grpc_envelope_decrypt dp en ext req st =
     then_st (enter_key dp en ext DECRYPT ''invalid kek_id format'' (gv_kek_id req) (gv_tenant_id req) ''envelope_decrypt'' st, st) (\<lambda>(cl, kek_id, tenant_id) st.
     then_st (grpc_svc (es_decrypt_with_kek_version (dp_crypto dp) (dp_services dp) (re_call en) kek_id (gv_ciphertext req) (gv_wrapped_dek req)
                (gv_dek_nonce req) (gv_data_nonce req) (gv_tag req) None tenant_id (gv_kek_version req)) st) (\<lambda>plaintext st.
     (Inr plaintext, log_event (ev_key_decrypted (uuid_text dp) (re_ids en 0) (re_clock en 0) kek_id (cl_key_id cl) (length plaintext)) st)))"

definition grpc_envelope_rewrap ::
  "('n, 's, 'r, 'q, 'j, 'kp, 'v) kms_deps \<Rightarrow> 'n request_env \<Rightarrow> caller option \<Rightarrow> string \<Rightarrow> bytes \<Rightarrow> bytes \<Rightarrow> u32 \<Rightarrow> string
   \<Rightarrow> ('s, 'r, 'q, 'j) kms_state \<Rightarrow> (grpc_status + rewrap_dek_response) \<times> ('s, 'r, 'q, 'j) kms_state" where
  "grpc_envelope_rewrap dp en ext kek_text wrapped_dek dek_nonce old_kek_version req_tenant st =
     then_st (enter_key dp en ext ENCRYPT ''invalid kek_id format'' kek_text req_tenant ''envelope_rewrap'' st, st) (\<lambda>(cl, kek_id, tenant_id) st.
     then_st (grpc_svc (es_rewrap_dek (dp_crypto dp) (dp_svc_crates dp) (dp_services dp) (re_call en) kek_id wrapped_dek dek_nonce
                old_kek_version tenant_id) st) (\<lambda>res st.
     (Inr res, log_event (ev_key_rotated (uuid_text dp) (re_ids en 0) (re_clock en 0) kek_id (cl_key_id cl)) st)))"

definition grpc_hash ::
  "('n, 's, 'r, 'q, 'j, 'kp, 'v) kms_deps \<Rightarrow> 'n request_env \<Rightarrow> caller option \<Rightarrow> string \<Rightarrow> bytes
   \<Rightarrow> ('s, 'r, 'q, 'j) kms_state \<Rightarrow> (grpc_status + bytes) \<times> ('s, 'r, 'q, 'j) kms_state" where
  "grpc_hash dp en ext algorithm data st =
     then_st (enter_global en ext HASH ''hash'' ''hash'' st, st) (\<lambda>cl st.
     (if to_lowercase algorithm = ''sm3'' then internal_text (rx_sm3_hash (dp_rest dp) data)
      else if to_lowercase algorithm = ''sha256'' then Inr (sha256 (dp_crypto dp) data)
      else Inl (Status InvalidArgument (Fmt [Lit ''unsupported hash algorithm: '', Str algorithm, Lit '' (supported: sm3, sha256)''])), st))"

text \<open>Every error of the look-up is answered as a missing key; the algorithm is always SM2.\<close>

definition grpc_dh_derive ::
  "('n, 's, 'r, 'q, 'j, 'kp, 'v) kms_deps \<Rightarrow> 'n request_env \<Rightarrow> caller option \<Rightarrow> string \<Rightarrow> bytes \<Rightarrow> string
   \<Rightarrow> ('s, 'r, 'q, 'j) kms_state \<Rightarrow> (grpc_status + bytes) \<times> ('s, 'r, 'q, 'j) kms_state" where
  "grpc_dh_derive dp en ext id_text peer_public req_tenant st =
     then_st (enter_key dp en ext ENCRYPT ''invalid key_id format'' id_text req_tenant ''dh_derive'' st, st) (\<lambda>(cl, key_id, tenant_id) st.
     then_st (grpc_keystore (\<lambda>_. Status CodeNotFound (Lit ''key not found''))
                (be_get_key_metadata (svc_keystore (dp_services dp)) (re_envs en 0) key_id) st) (\<lambda>meta st.
     if m_tenant_id meta \<noteq> tenant_id then (Inl (Status CodeNotFound (Lit ''key not found'')), st)
     else
       then_st (grpc_keystore (keystore_status (Fmt [Lit ''key '', Id key_id, Lit '' not found'']))
                  (dp_derive dp (re_envs en 1) key_id peer_public Sm2Kex tenant_id) st) (\<lambda>secret st.
       (Inr (sec_secret secret),
        log_event (plain_event en KeyAccessed (cl_key_id cl) ''derive_shared_secret'' ''dh'' (Some (uuid_text dp key_id))) st))))"

section \<open>The audit log\<close>

record grpc_audit_query =
  gq_start_time :: string
  gq_end_time :: string
  gq_event_type :: string
  gq_key_id :: string
  gq_limit :: u32
  gq_offset :: u32

record grpc_audit_event =
  ga_id :: string
  ga_event_type :: event_type
  ga_key_id :: string
  ga_user_id :: string
  ga_tenant_id :: string
  ga_timestamp :: string
  ga_details :: string

definition event_type_named :: "string \<Rightarrow> event_type" where
  "event_type_named text =
     (let s = to_lowercase text
      in if s \<in> {''key_created'', ''create''} then KeyCreated
         else if s \<in> {''key_deleted'', ''delete''} then KeyDeleted
         else if s \<in> {''key_rotated'', ''rotate''} then KeyRotated
         else if s \<in> {''key_imported'', ''import''} then KeyImported
         else if s \<in> {''key_exported'', ''export''} then KeyExported
         else if s \<in> {''key_accessed'', ''access''} then KeyAccessed
         else if s \<in> {''key_encrypted'', ''encrypt''} then KeyEncrypted
         else if s \<in> {''key_decrypted'', ''decrypt''} then KeyDecrypted
         else KeyAccessed)"

definition grpc_audit_filter :: "(string \<Rightarrow> time option) \<Rightarrow> grpc_audit_query \<Rightarrow> audit_filter" where
  "grpc_audit_filter parse_date req =
     \<lparr>fl_event_types = (if gq_event_type req = [] then None else Some [event_type_named (gq_event_type req)]),
      fl_actor_id = None,
      fl_resource_id = (if gq_key_id req = [] then None else Some (gq_key_id req)),
      fl_start_time = (if gq_start_time req = [] then None else parse_date (gq_start_time req)),
      fl_end_time = (if gq_end_time req = [] then None else parse_date (gq_end_time req)),
      fl_limit = (if gq_limit req = 0 then None else Some (unat (gq_limit req))),
      fl_offset = (if gq_offset req = 0 then None else Some (unat (gq_offset req)))\<rparr>"

definition grpc_event_of :: "('n, 's, 'r, 'q, 'j, 'kp, 'v) kms_deps \<Rightarrow> audit_event \<Rightarrow> grpc_audit_event" where
  "grpc_event_of dp e =
     \<lparr>ga_id = uuid_text dp (av_event_id e), ga_event_type = av_event_type e,
      ga_key_id = (case av_resource_id e of Some i \<Rightarrow> i | None \<Rightarrow> []), ga_user_id = av_actor_id e, ga_tenant_id = [],
      ga_timestamp = rx_rfc3339 (dp_rest dp) (av_timestamp e),
      ga_details = (case Option.bind (map_of (av_metadata e) ''details'') as_str of Some d \<Rightarrow> d | None \<Rightarrow> [])\<rparr>"

definition grpc_query_audit_events ::
  "('n, 's, 'r, 'q, 'j, 'kp, 'v) kms_deps \<Rightarrow> 'n request_env \<Rightarrow> caller option \<Rightarrow> (string \<Rightarrow> time option) \<Rightarrow> grpc_audit_query
   \<Rightarrow> ('s, 'r, 'q, 'j) kms_state \<Rightarrow> (grpc_status + grpc_audit_event list \<times> u32) \<times> ('s, 'r, 'q, 'j) kms_state" where
  "grpc_query_audit_events dp en ext parse_date req st =
     then_st (enter_global en ext VIEW_AUDIT ''query_audit_events'' ''audit'' st, st) (\<lambda>cl st.
     let events = dp_audit_query dp (grpc_audit_filter parse_date req) (st_audit st)
     in (Inr (map (grpc_event_of dp) events, of_nat (length events)), st))"

section \<open>Methods\<close>

text \<open>
  A call of one of the methods, the answers, the permission each method asks for, and the dispatch. The
  parser of times is an argument of the query of the log.
\<close>

datatype grpc_request =
    GGetKey string string
  | GCreateKey string string string
  | GRotateKey string string string
  | GDeleteKey string string string
  | GListKeys string
  | GImportKey string string bytes string
  | GExportKey grpc_export_request
  | GEncrypt string bytes bytes string
  | GDecrypt grpc_decrypt_request
  | GSign string string string
  | GVerify string string string string
  | GHmac string bytes bytes string
  | GHmacVerify string bytes bytes bytes string
  | GSm9Sign string string
  | GSm9Verify string string string
  | GSm9Encrypt string bytes
  | GSm9Decrypt string string
  | GEnvelopeEncrypt string bytes bytes string
  | GEnvelopeDecrypt grpc_envelope_decrypt_request
  | GEnvelopeRewrap string bytes bytes u32 string
  | GHash string bytes
  | GDhDerive string bytes string
  | GQueryAudit "string \<Rightarrow> time option" grpc_audit_query

datatype grpc_response =
    GsKey key_response
  | GsKeys "key_response list"
  | GsExported exported_key
  | GsEncrypted grpc_encrypt_response
  | GsBytes bytes
  | GsText string
  | GsSigned sign_response
  | GsValid bool
  | GsMac bytes u32
  | GsEnvelope envelope_encrypt_response
  | GsRewrapped rewrap_dek_response
  | GsEvents "grpc_audit_event list" u32
  | GsDone

fun method_permission :: "grpc_request \<Rightarrow> permission" where
  "method_permission (GGetKey _ _) = GET_KEY"
| "method_permission (GCreateKey _ _ _) = CREATE_KEY"
| "method_permission (GRotateKey _ _ _) = ROTATE_KEY"
| "method_permission (GDeleteKey _ _ _) = DELETE_KEY"
| "method_permission (GListKeys _) = LIST_KEYS"
| "method_permission (GImportKey _ _ _ _) = IMPORT_KEY"
| "method_permission (GExportKey _) = EXPORT_KEY"
| "method_permission (GEncrypt _ _ _ _) = ENCRYPT"
| "method_permission (GDecrypt _) = DECRYPT"
| "method_permission (GSign _ _ _) = SIGN"
| "method_permission (GVerify _ _ _ _) = VERIFY"
| "method_permission (GHmac _ _ _ _) = ENCRYPT"
| "method_permission (GHmacVerify _ _ _ _ _) = ENCRYPT"
| "method_permission (GSm9Sign _ _) = SIGN"
| "method_permission (GSm9Verify _ _ _) = VERIFY"
| "method_permission (GSm9Encrypt _ _) = ENCRYPT"
| "method_permission (GSm9Decrypt _ _) = DECRYPT"
| "method_permission (GEnvelopeEncrypt _ _ _ _) = ENCRYPT"
| "method_permission (GEnvelopeDecrypt _) = DECRYPT"
| "method_permission (GEnvelopeRewrap _ _ _ _ _) = ENCRYPT"
| "method_permission (GHash _ _) = HASH"
| "method_permission (GDhDerive _ _ _) = ENCRYPT"
| "method_permission (GQueryAudit _ _) = VIEW_AUDIT"

definition reply :: "('a \<Rightarrow> grpc_response) \<Rightarrow> (grpc_status + 'a) \<times> 'st \<Rightarrow> (grpc_status + grpc_response) \<times> 'st" where
  "reply f r = (case r of (Inl e, st) \<Rightarrow> (Inl e, st) | (Inr x, st) \<Rightarrow> (Inr (f x), st))"

fun grpc_handle ::
  "('n, 's, 'r, 'q, 'j, 'kp, 'v) kms_deps \<Rightarrow> 'n request_env \<Rightarrow> caller option \<Rightarrow> grpc_request
   \<Rightarrow> ('s, 'r, 'q, 'j) kms_state \<Rightarrow> (grpc_status + grpc_response) \<times> ('s, 'r, 'q, 'j) kms_state" where
  "grpc_handle dp en ext (GGetKey a b) st = reply GsKey (grpc_get_key dp en ext a b st)"
| "grpc_handle dp en ext (GCreateKey a b c) st = reply GsKey (grpc_create_key dp en ext a b c st)"
| "grpc_handle dp en ext (GRotateKey a b c) st = reply GsKey (grpc_rotate_key dp en ext a b c st)"
| "grpc_handle dp en ext (GDeleteKey a b c) st = reply (\<lambda>_. GsDone) (grpc_delete_key dp en ext a b c st)"
| "grpc_handle dp en ext (GListKeys a) st = reply GsKeys (grpc_list_keys dp en ext a st)"
| "grpc_handle dp en ext (GImportKey a b c d) st = reply GsKey (grpc_import_key dp en ext a b c d st)"
| "grpc_handle dp en ext (GExportKey a) st = reply GsExported (grpc_export_key dp en ext a st)"
| "grpc_handle dp en ext (GEncrypt a b c d) st = reply GsEncrypted (grpc_encrypt dp en ext a b c d st)"
| "grpc_handle dp en ext (GDecrypt a) st = reply GsBytes (grpc_decrypt dp en ext a st)"
| "grpc_handle dp en ext (GSign a b c) st = reply GsSigned (grpc_sign dp en ext a b c st)"
| "grpc_handle dp en ext (GVerify a b c d) st = reply GsValid (grpc_verify dp en ext a b c d st)"
| "grpc_handle dp en ext (GHmac a b c d) st = reply (\<lambda>(mac, v). GsMac mac v) (grpc_hmac dp en ext a b c d st)"
| "grpc_handle dp en ext (GHmacVerify a b c d e) st = reply GsValid (grpc_hmac_verify dp en ext a b c d e st)"
| "grpc_handle dp en ext (GSm9Sign a b) st = reply GsText (grpc_sm9_sign dp en ext a b st)"
| "grpc_handle dp en ext (GSm9Verify a b c) st = reply GsValid (grpc_sm9_verify dp en ext a b c st)"
| "grpc_handle dp en ext (GSm9Encrypt a b) st = reply GsText (grpc_sm9_encrypt dp en ext a b st)"
| "grpc_handle dp en ext (GSm9Decrypt a b) st = reply GsBytes (grpc_sm9_decrypt dp en ext a b st)"
| "grpc_handle dp en ext (GEnvelopeEncrypt a b c d) st = reply GsEnvelope (grpc_envelope_encrypt dp en ext a b c d st)"
| "grpc_handle dp en ext (GEnvelopeDecrypt a) st = reply GsBytes (grpc_envelope_decrypt dp en ext a st)"
| "grpc_handle dp en ext (GEnvelopeRewrap a b c d e) st = reply GsRewrapped (grpc_envelope_rewrap dp en ext a b c d e st)"
| "grpc_handle dp en ext (GHash a b) st = reply GsBytes (grpc_hash dp en ext a b st)"
| "grpc_handle dp en ext (GDhDerive a b c) st = reply GsBytes (grpc_dh_derive dp en ext a b c st)"
| "grpc_handle dp en ext (GQueryAudit a b) st = reply (\<lambda>(es, n). GsEvents es n) (grpc_query_audit_events dp en ext a b st)"

text \<open>A call as the server runs it: the interceptor first, then the method with the caller it attached.\<close>

definition grpc_serve ::
  "('n, 's, 'r, 'q, 'j, 'kp, 'v) kms_deps \<Rightarrow> 'n request_env \<Rightarrow> time \<Rightarrow> (string \<Rightarrow> string option) \<Rightarrow> grpc_request
   \<Rightarrow> ('s, 'r, 'q, 'j) kms_state \<Rightarrow> (grpc_status + grpc_response) \<times> ('s, 'r, 'q, 'j) kms_state" where
  "grpc_serve dp en now metadata req st =
     (case interceptor_call now (st_api_keys st) metadata of
        Inl status \<Rightarrow> (Inl status, st)
      | Inr cl \<Rightarrow> grpc_handle dp en (Some cl) req st)"

end
