(* ===== verification/Rest_Properties.thy ===== *)
theory Rest_Properties
  imports Rest_Control
begin

text \<open>
  Properties of the HTTP interface: which parts of the state a request can change and who may send it,
  what it leaves in the audit log, the approvals behind rotation, deletion and export, tenants, and
  round trips through the interface.
\<close>

section \<open>What a request changes\<close>

text \<open>\<open>kept f st res\<close>: the observation \<open>f\<close> is the same before and after.\<close>

definition kept :: "('st \<Rightarrow> 'o) \<Rightarrow> 'st \<Rightarrow> 'r \<times> 'st \<Rightarrow> bool" where
  "kept f st res \<longleftrightarrow> f (snd res) = f st"

named_theorems keeping

lemma kept_pair [keeping]: "f st' = f st \<Longrightarrow> kept f st (x, st')"
  by (simp add: kept_def)

lemma kept_then [keeping]:
  "kept f st r \<Longrightarrow> (\<And>x st'. f st' = f st \<Longrightarrow> kept f st (g x st')) \<Longrightarrow> kept f st (then_st r g)"
  by (cases r; cases "fst r") (auto simp: kept_def)

lemma kept_answer [keeping]: "kept f st r \<Longrightarrow> kept f st (answer h r)"
  by (cases r; cases "fst r") (auto simp: kept_def answer_def)

lemma kept_if [keeping]: "(b \<Longrightarrow> kept f st x) \<Longrightarrow> (\<not> b \<Longrightarrow> kept f st y) \<Longrightarrow> kept f st (if b then x else y)"
  by simp

lemma kept_case_prod [keeping]: "(\<And>x y. p = (x, y) \<Longrightarrow> kept f st (g x y)) \<Longrightarrow> kept f st (case p of (x, y) \<Rightarrow> g x y)"
  by (cases p) simp

lemma kept_case_prod_fun [keeping]: "(\<And>x y. kept f st (g x y st')) \<Longrightarrow> kept f st ((case p of (x, y) \<Rightarrow> g x y) st')"
  by (cases p) simp

lemma kept_case_option [keeping]:
  "kept f st g \<Longrightarrow> (\<And>x. kept f st (h x)) \<Longrightarrow> kept f st (case p of None \<Rightarrow> g | Some x \<Rightarrow> h x)"
  by (cases p) simp_all

lemma kept_case_sum [keeping]:
  "(\<And>x. kept f st (g x)) \<Longrightarrow> (\<And>x. kept f st (h x)) \<Longrightarrow> kept f st (case p of Inl x \<Rightarrow> g x | Inr x \<Rightarrow> h x)"
  by (cases p) simp_all

lemma kept_with_svc: "(\<And>s. f (st'\<lparr>st_svc := s\<rparr>) = f st) \<Longrightarrow> kept f st (with_svc g st')"
  by (simp add: with_svc_def kept_def split: prod.splits)

lemma on_parts:
  "on_approval h st = (let (x, e) = h (st_approval st) in (x, st\<lparr>st_approval := e\<rparr>))"
  "on_mfa h' st = (let (x, m) = h' (st_mfa st) in (x, st\<lparr>st_mfa := m\<rparr>))"
  "on_policy h'' st = (let (x, p) = h'' (st_policy st) in (x, st\<lparr>st_policy := p\<rparr>))"
  by (simp_all add: on_approval_def on_mfa_def on_policy_def)

lemma log_event_parts [simp]:
  "st_svc (log_event e st) = st_svc st" "st_policy (log_event e st) = st_policy st"
  "st_approval (log_event e st) = st_approval st" "st_mfa (log_event e st) = st_mfa st"
  "st_api_keys (log_event e st) = st_api_keys st" "st_backup (log_event e st) = st_backup st"
  "st_audit (log_event e st) = st_audit st @ [e]"
  by (simp_all add: log_event_def)

lemma backup_new_key_parts [simp]:
  "st_policy (backup_new_key dp en meta t name st) = st_policy st"
  "st_approval (backup_new_key dp en meta t name st) = st_approval st"
  "st_mfa (backup_new_key dp en meta t name st) = st_mfa st"
  "st_api_keys (backup_new_key dp en meta t name st) = st_api_keys st"
  "st_audit (backup_new_key dp en meta t name st) = st_audit st"
  by (simp_all add: backup_new_key_def with_svc_def split: option.splits prod.splits sum.splits)

text \<open>The kinds of requests, by what they leave alone.\<close>

definition besides_keys where
  "besides_keys st = (st_policy st, st_approval st, st_mfa st, st_api_keys st, st_backup st)"

definition besides_backup where
  "besides_backup st = (st_policy st, st_approval st, st_mfa st, st_api_keys st)"

definition besides_policies where
  "besides_policies st = (st_svc st, st_approval st, st_mfa st, st_api_keys st, st_backup st)"

definition besides_mfa where
  "besides_mfa st = (st_svc st, st_policy st, st_approval st, st_backup st)"

definition besides_approvals where
  "besides_approvals st = (st_policy st, st_mfa st, st_api_keys st, st_backup st)"

lemmas besides = besides_keys_def besides_backup_def besides_policies_def besides_mfa_def besides_approvals_def

lemma keys_with_svc [keeping]:
  "besides_keys st' = besides_keys st \<Longrightarrow> kept besides_keys st (with_svc g st')"
  "besides_backup st' = besides_backup st \<Longrightarrow> kept besides_backup st (with_svc g st')"
  by (rule kept_with_svc, simp add: besides)+

lemma keys_log [simp]: "besides_keys (log_event e st) = besides_keys st" "besides_backup (log_event e st) = besides_backup st"
  "besides_backup (backup_new_key dp en meta t name st) = besides_backup st"
  by (simp_all add: besides)

lemmas key_handlers = rest_list_keys_def rest_get_key_def rest_encrypt_def rest_decrypt_def rest_sign_def rest_verify_def
  rest_hmac_def rest_hmac_verify_def rest_hash_def rest_sm9_sign_def rest_sm9_verify_def rest_sm9_encrypt_def
  rest_sm9_decrypt_def rest_envelope_encrypt_def rest_envelope_decrypt_def rest_envelope_rewrap_def rest_dh_derive_def
  rest_create_key_def rest_rotate_key_def rest_delete_key_def rest_import_key_def rest_export_key_def

lemma key_handlers_keep:
  "kept besides_keys st (rest_encrypt dp en cl i tq er st)" "kept besides_keys st (rest_decrypt dp en cl i tq dr st)"
  "kept besides_keys st (rest_sign dp en cl i tq d st)" "kept besides_keys st (rest_verify dp en cl i tq d s st)"
  "kept besides_keys st (rest_hmac dp en cl i tq d a st)" "kept besides_keys st (rest_hmac_verify dp en cl i tq d s a st)"
  "kept besides_keys st (rest_hash dp en cl d s st)" "kept besides_keys st (rest_sm9_sign dp en cl idn d st)"
  "kept besides_keys st (rest_sm9_verify dp en cl idn d s st)" "kept besides_keys st (rest_sm9_encrypt dp en cl idn d st)"
  "kept besides_keys st (rest_sm9_decrypt dp en cl idn d st)" "kept besides_keys st (rest_envelope_encrypt dp en cl eer st)"
  "kept besides_keys st (rest_envelope_decrypt dp en cl edr st)" "kept besides_keys st (rest_envelope_rewrap dp en cl ewr st)"
  "kept besides_keys st (rest_dh_derive dp en cl dhr st)" "kept besides_backup st (rest_create_key dp en cl ckr st)"
  "kept besides_keys st (rest_rotate_key dp en cl i tq st)" "kept besides_keys st (rest_delete_key dp en cl i tq st)"
  "kept besides_keys st (rest_import_key dp en cl ikr st)" "kept besides_keys st (rest_export_key dp en cl i tq xkr st)"
  "kept besides_keys st (rest_list_keys dp en cl tq st)" "kept besides_keys st (rest_get_key dp en cl i tq st)"
  unfolding key_handlers Let_def by ((intro keeping | simp)+)

lemma policy_handlers_keep:
  "kept besides_policies st (rest_create_policy dp en cl cpr st)" "kept besides_policies st (rest_get_policy dp idn st)"
  "kept besides_policies st (rest_list_policies dp st)" "kept besides_policies st (rest_delete_policy dp en cl i st)"
  unfolding rest_create_policy_def rest_get_policy_def rest_list_policies_def rest_delete_policy_def on_parts Let_def
  by ((intro keeping | clarsimp simp: besides split: prod.splits)+)

lemma mfa_handlers_keep:
  "kept besides_mfa st (rest_mfa_setup dp en u st)" "kept besides_mfa st (rest_mfa_verify dp en cl u c st)"
  "kept besides_mfa st (rest_mfa_verify_backup dp en cl u c st)" "kept besides_mfa st (rest_mfa_status dp en cl u st)"
  unfolding rest_mfa_setup_def rest_mfa_verify_def rest_mfa_verify_backup_def rest_mfa_status_def on_parts Let_def
  by ((intro keeping | clarsimp simp: besides split: prod.splits)+)

lemma approval_handlers_keep:
  "kept besides_approvals st (create_approval_request dp en cl car st)" "kept besides_approvals st (list_pending_approvals dp en cl t st)"
  "kept besides_approvals st (get_approval_request dp en cl i st)" "kept besides_approvals st (approve_request dp en cl i c st)"
  "kept besides_approvals st (reject_request dp en cl i r st)" "kept besides_approvals st (cancel_request dp en cl i st)"
  unfolding create_approval_request_def list_pending_approvals_def get_approval_request_def approve_request_def
    reject_request_def cancel_request_def ensure_resource_tenant_def on_parts Let_def
  by ((intro keeping kept_with_svc | clarsimp simp: besides split: prod.splits)+)

lemma query_keeps: "kept (\<lambda>st. st) st (query_audit_events dp en cl filt st)"
  unfolding query_audit_events_def by (intro keeping | simp)+

lemmas handlers_keep = key_handlers_keep policy_handlers_keep mfa_handlers_keep approval_handlers_keep query_keeps

text \<open>The log only grows.\<close>

lemma prefix_trans_log: "prefix (st_audit st) (st_audit st') \<Longrightarrow> prefix (st_audit st) (st_audit (log_event e st'))"
  by (auto simp: prefix_def)

section \<open>The software keystore behind the interface\<close>

text \<open>The services of a dependency record run on the software keystore.\<close>

definition software_derive ::
  "'kp crypto \<Rightarrow> ks_env \<Rightarrow> uuid \<Rightarrow> bytes \<Rightarrow> dh_algorithm \<Rightarrow> string \<Rightarrow> 'x software_keystore
   \<Rightarrow> (kms_error + shared_secret) \<times> 'x software_keystore" where
  "software_derive cr n k peer alg t s = (derive_shared_secret cr (kn_rng n) s k peer alg t, s)"

definition on_software :: "'kp crypto \<Rightarrow> (ks_env, 'x software_keystore, 'r, 'q, 'j, 'kp, 'v) kms_deps \<Rightarrow> bool" where
  "on_software cr dp \<longleftrightarrow> svc_keystore (dp_services dp) = software_backend cr \<and> dp_derive dp = software_derive cr"

abbreviation keystore_of :: "('s, 'r, 'q, 'j) kms_state \<Rightarrow> 's" where
  "keystore_of st \<equiv> sv_keystore (st_svc st)"

lemma keeps_quota [keeping]: "sv_keystore st' = sv_keystore st \<Longrightarrow> kept sv_keystore st (check_quota sv cl t st')"
  by (simp add: kept_def)

lemma keeps_call: "(\<And>s. snd (f s) = s) \<Longrightarrow> sv_keystore st' = sv_keystore st \<Longrightarrow> kept sv_keystore st (keystore_call h f st')"
  by (simp add: kept_def keystore_call_def split: prod.splits) (metis snd_conv)

lemma count_keystore [simp]: "sv_keystore (count_operation sv k st) = sv_keystore st" "sv_keystore (count_key sv t st) = sv_keystore st"
  by (simp_all add: count_operation_def count_key_def split: option.splits)

lemma software_pure [simp]:
  "snd (be_get_key_metadata (software_backend cr) n k s) = s"
  "snd (be_encrypt (software_backend cr) n k pt aad t s) = s"
  "snd (be_decrypt (software_backend cr) n k c aad t s) = s"
  "snd (be_sign (software_backend cr) n k d t s) = s"
  "snd (be_verify (software_backend cr) n k d sg t s) = s"
  "snd (be_list_keys (software_backend cr) n fl s) = s"
  "snd (be_export_key_material (software_backend cr) n k t s) = s"
  "snd (be_get_key_material (software_backend cr) n k t s) = s"
  "snd (be_get_key_material_version (software_backend cr) n k v t s) = s"
  "snd (software_derive cr n k peer alg t s) = s"
  by (simp_all add: software_backend_def software_derive_def)

lemma services_keep:
  assumes "svc_keystore sv = software_backend cr"
  shows "kept sv_keystore st (cs_encrypt sv cl k pt aad t st)" "kept sv_keystore st (cs_decrypt sv cl k c aad t st)"
    "kept sv_keystore st (cs_sign sv cl k d t st)" "kept sv_keystore st (cs_verify sv cl k d sg t st)"
    "kept sv_keystore st (cs_hmac sc sv cl k d aad t st)" "kept sv_keystore st (cs_hmac_verify sc sv cl k d aad mac t st)"
    "kept sv_keystore st (kys_get_key sv cl k t st)" "kept sv_keystore st (kys_list_keys sv cl fl t st)"
    "kept sv_keystore st (kys_export_key cp sc sv cl k pk t opts st)" "kept sv_keystore st (es_encrypt cp sc sv cl k pt aad t st)"
    "kept sv_keystore st (es_rewrap_dek cp sc sv cl k w n v t st)"
    "kept sv_keystore st (es_decrypt_with_kek_version cp sv cl k x w n n' tag aad t v st)"
  unfolding cs_encrypt_def cs_decrypt_def cs_sign_def cs_verify_def cs_hmac_def cs_hmac_verify_def prepare_hmac_def
    guarded_operation_def fetch_owned_key_meta_def kys_get_key_def kys_list_keys_def kys_export_key_def es_encrypt_def
    es_rewrap_dek_def es_decrypt_with_kek_version_def assms Let_def
  by ((intro keeping keeps_call | simp)+)

lemma keystore_with_svc:
  "kept sv_keystore (st_svc st') (g (st_svc st')) \<Longrightarrow> keystore_of st' = keystore_of st
    \<Longrightarrow> kept (\<lambda>st. keystore_of st) st (with_svc g st')"
  by (cases "g (st_svc st')") (simp add: kept_def with_svc_def)

lemma key_users_keep:
  assumes "on_software cr dp"
  shows "kept (\<lambda>st. keystore_of st) st (rest_encrypt dp en cl i tq er st)" "kept (\<lambda>st. keystore_of st) st (rest_decrypt dp en cl i tq dr st)"
  "kept (\<lambda>st. keystore_of st) st (rest_sign dp en cl i tq d st)" "kept (\<lambda>st. keystore_of st) st (rest_verify dp en cl i tq d s st)"
  "kept (\<lambda>st. keystore_of st) st (rest_hmac dp en cl i tq d a st)" "kept (\<lambda>st. keystore_of st) st (rest_hmac_verify dp en cl i tq d s a st)"
  "kept (\<lambda>st. keystore_of st) st (rest_hash dp en cl d s st)" "kept (\<lambda>st. keystore_of st) st (rest_sm9_sign dp en cl idn d st)"
  "kept (\<lambda>st. keystore_of st) st (rest_sm9_verify dp en cl idn d s st)" "kept (\<lambda>st. keystore_of st) st (rest_sm9_encrypt dp en cl idn d st)"
  "kept (\<lambda>st. keystore_of st) st (rest_sm9_decrypt dp en cl idn d st)" "kept (\<lambda>st. keystore_of st) st (rest_envelope_encrypt dp en cl eer st)"
  "kept (\<lambda>st. keystore_of st) st (rest_envelope_decrypt dp en cl edr st)" "kept (\<lambda>st. keystore_of st) st (rest_envelope_rewrap dp en cl ewr st)"
  "kept (\<lambda>st. keystore_of st) st (rest_dh_derive dp en cl dhr st)" "kept (\<lambda>st. keystore_of st) st (rest_export_key dp en cl i tq xkr st)"
  "kept (\<lambda>st. keystore_of st) st (rest_list_keys dp en cl tq st)" "kept (\<lambda>st. keystore_of st) st (rest_get_key dp en cl i tq st)"
  "kept (\<lambda>st. keystore_of st) st (create_approval_request dp en cl car st)"
proof -
  have sw: "svc_keystore (dp_services dp) = software_backend cr" "dp_derive dp = software_derive cr"
    using assms by (simp_all add: on_software_def)
  show "kept (\<lambda>st. keystore_of st) st (create_approval_request dp en cl car st)"
    unfolding create_approval_request_def ensure_resource_tenant_def on_parts Let_def sw
    by (intro keeping keystore_with_svc keeps_call | clarsimp split: prod.splits)+
qed (unfold key_handlers Let_def,
  (use assms in \<open>intro keeping keystore_with_svc keeps_call services_keep [where cr = cr] | clarsimp simp: on_software_def\<close>)+)

lemma no_keys_touched:
  "kept (\<lambda>st. keystore_of st) st (list_pending_approvals dp en cl t st)"
  "kept (\<lambda>st. keystore_of st) st (get_approval_request dp en cl i st)" "kept (\<lambda>st. keystore_of st) st (approve_request dp en cl i c st)"
  "kept (\<lambda>st. keystore_of st) st (reject_request dp en cl i r st)" "kept (\<lambda>st. keystore_of st) st (cancel_request dp en cl i st)"
  unfolding list_pending_approvals_def get_approval_request_def approve_request_def reject_request_def cancel_request_def on_parts Let_def
  by ((intro keeping | clarsimp split: prod.splits)+)

text \<open>The call a request makes of the keystore when it is one that changes keys.\<close>

fun keystore_calls ::
  "(ks_env, 's, 'r, 'q, 'j, 'kp, 'v) kms_deps \<Rightarrow> ks_env request_env \<Rightarrow> caller \<Rightarrow> api_request \<Rightarrow> ks_call set" where
  "keystore_calls dp en cl (RqCreateKey r) =
     {GenerateKey (kn_rng (cl_envs (re_call en) 0)) (kn_id (cl_envs (re_call en) 0)) (kn_now (cl_envs (re_call en) 0)) spec (ckr_name r)
        (resolve_tenant (cl_bound_tenant cl) (ckr_tenant_id r)) | spec. is_generatable spec}"
| "keystore_calls dp en cl (RqImportKey r) =
     {ImportKeyMaterial (kn_id (cl_envs (re_call en) 0)) (kn_now (cl_envs (re_call en) 0)) spec (iq_name r)
        (resolve_tenant (cl_bound_tenant cl) (iq_tenant_id r)) mat | spec mat. is_importable spec}"
| "keystore_calls dp en cl (RqRotateKey i tq) =
     {RotateKey (kn_rng (cl_envs (re_call en) 1)) (kn_now (cl_envs (re_call en) 1)) i (resolve_tenant (cl_bound_tenant cl) (tq_tenant_id tq))}"
| "keystore_calls dp en cl (RqDeleteKey i tq) = {DeleteKey i (resolve_tenant (cl_bound_tenant cl) (tq_tenant_id tq))}"
| "keystore_calls dp en cl _ = {}"

lemma software_changing [simp]:
  "be_generate_key (software_backend cr) n spec name t = generate_key cr (kn_rng n) (kn_id n) (kn_now n) spec name t"
  "be_import_key_material (software_backend cr) n spec name t m = import_key_material (kn_id n) (kn_now n) spec name t m"
  "be_rotate_key (software_backend cr) n k t = rotate_key cr (kn_rng n) (kn_now n) k t"
  "be_delete_key (software_backend cr) n k t = delete_key k t"
  by (simp_all add: software_backend_def fun_eq_iff)

definition reaches :: "('st \<Rightarrow> 'o) \<Rightarrow> 'o set \<Rightarrow> 'r \<times> 'st \<Rightarrow> bool" where
  "reaches f S res \<longleftrightarrow> f (snd res) \<in> S"

lemma reaches_then:
  "reaches f S r \<Longrightarrow> (\<And>x st'. r = (Inr x, st') \<Longrightarrow> f st' \<in> S \<Longrightarrow> reaches f S (g x st')) \<Longrightarrow> reaches f S (then_st r g)"
  by (cases r; cases "fst r") (auto simp: reaches_def)

lemma reaches_pair: "f st \<in> S \<Longrightarrow> reaches f S (x, st)"
  by (simp add: reaches_def)

lemma services_change:
  assumes "svc_keystore sv = software_backend cr" "keystore_of st \<in> S"
  shows "(is_generatable spec \<Longrightarrow> ks_step cr (GenerateKey (kn_rng (cl_envs cl 0)) (kn_id (cl_envs cl 0)) (kn_now (cl_envs cl 0)) spec name t)
       (keystore_of st) \<in> S) \<Longrightarrow> reaches (\<lambda>st. keystore_of st) S (with_svc (kys_create_key sv cl spec name t) st)"
   and "(\<And>mat. is_importable spec \<Longrightarrow> ks_step cr (ImportKeyMaterial (kn_id (cl_envs cl 0)) (kn_now (cl_envs cl 0)) spec name t mat)
       (keystore_of st) \<in> S) \<Longrightarrow> reaches (\<lambda>st. keystore_of st) S (with_svc (kys_import_key fc sv cl spec name fmt w tk fp t) st)"
   and "ks_step cr (RotateKey (kn_rng (cl_envs cl 1)) (kn_now (cl_envs cl 1)) k t) (keystore_of st) \<in> S
       \<Longrightarrow> reaches (\<lambda>st. keystore_of st) S (with_svc (kys_rotate_key sv cl k t) st)"
   and "ks_step cr (DeleteKey k t) (keystore_of st) \<in> S \<Longrightarrow> reaches (\<lambda>st. keystore_of st) S (with_svc (kys_delete_key sv cl k t) st)"
  using assms
  by (auto simp: reaches_def with_svc_def kys_create_key_def kys_import_key_def kys_rotate_key_def kys_delete_key_def
       fetch_owned_key_meta_def keystore_call_def then_st_def Let_def split: sum.splits prod.splits) (metis snd_conv)+

lemma backup_keystore:
  "on_software cr dp \<Longrightarrow> keystore_of (backup_new_key dp en meta t name st) = keystore_of st"
  by (auto simp: on_software_def backup_new_key_def with_svc_def keystore_call_def split: option.splits prod.splits sum.splits)

lemma reaches_answer: "reaches f S r \<Longrightarrow> reaches f S (answer h r)"
  by (cases r; cases "fst r") (auto simp: reaches_def answer_def)

lemma key_changers:
  assumes "on_software cr dp"
    and "req = RqCreateKey ckr \<or> req = RqImportKey ikr \<or> req = RqRotateKey i tq \<or> req = RqDeleteKey i tq"
  shows "reaches (\<lambda>st. keystore_of st) (insert (keystore_of st) ((\<lambda>c. ks_step cr c (keystore_of st)) ` keystore_calls dp en cl req))
     (handle dp en cl req st)"
proof -
  have sw: "svc_keystore (dp_services dp) = software_backend cr"
    using assms by (simp add: on_software_def)
  note ch = services_change [OF sw]
  note [simp] = backup_keystore [OF assms(1)]
  have "reaches (\<lambda>st. keystore_of st) (insert (keystore_of st) ((\<lambda>c. ks_step cr c (keystore_of st)) ` keystore_calls dp en cl (RqCreateKey ckr)))
     (rest_create_key dp en cl ckr st)"
    unfolding rest_create_key_def Let_def by (intro reaches_then reaches_pair ch; clarsimp simp del: ks_step.simps; blast?)
  moreover have "reaches (\<lambda>st. keystore_of st) (insert (keystore_of st) ((\<lambda>c. ks_step cr c (keystore_of st)) ` keystore_calls dp en cl (RqImportKey ikr)))
     (rest_import_key dp en cl ikr st)"
    unfolding rest_import_key_def Let_def by (intro reaches_then reaches_pair ch; clarsimp simp del: ks_step.simps; blast?)
  moreover have "reaches (\<lambda>st. keystore_of st) (insert (keystore_of st) ((\<lambda>c. ks_step cr c (keystore_of st)) ` keystore_calls dp en cl (RqRotateKey i tq)))
     (rest_rotate_key dp en cl i tq st)"
    unfolding rest_rotate_key_def Let_def by (intro reaches_then reaches_pair ch; clarsimp simp del: ks_step.simps)
  moreover have "reaches (\<lambda>st. keystore_of st) (insert (keystore_of st) ((\<lambda>c. ks_step cr c (keystore_of st)) ` keystore_calls dp en cl (RqDeleteKey i tq)))
     (rest_delete_key dp en cl i tq st)"
    unfolding rest_delete_key_def Let_def by (intro reaches_then reaches_pair ch; clarsimp simp del: ks_step.simps)
  ultimately show ?thesis
    using assms(2) by (auto intro: reaches_answer)
qed

section \<open>The audit log\<close>

text \<open>
  \<open>audited kinds who st res\<close>: a success has added events of these kinds, all by \<open>who\<close>, to the log; a
  failure has added nothing.
\<close>

definition audited :: "event_type list \<Rightarrow> string \<Rightarrow> ('s, 'r, 'q, 'j) kms_state \<Rightarrow> ('e + 'a) \<times> ('s, 'r, 'q, 'j) kms_state \<Rightarrow> bool" where
  "audited kinds who st res \<longleftrightarrow>
     (case fst res of
        Inl _ \<Rightarrow> st_audit (snd res) = st_audit st
      | Inr _ \<Rightarrow> \<exists>es. st_audit (snd res) = st_audit st @ es \<and> map av_event_type es = kinds \<and> (\<forall>e \<in> set es. av_actor_id e = who))"

named_theorems logging

lemma audited_then [logging]:
  "kept st_audit st r \<Longrightarrow> (\<And>x st'. st_audit st' = st_audit st \<Longrightarrow> audited kinds who st (g x st')) \<Longrightarrow> audited kinds who st (then_st r g)"
  by (cases r; cases "fst r") (auto simp: audited_def kept_def)

lemma audited_error [logging]: "st_audit st' = st_audit st \<Longrightarrow> audited kinds who st (Inl e, st')"
  by (simp add: audited_def)

lemma audited_none [logging]: "st_audit st' = st_audit st \<Longrightarrow> audited [] who st (Inr x, st')"
  by (simp add: audited_def)

lemma audited_one [logging]:
  "st_audit st' = st_audit st \<Longrightarrow> av_event_type e = kind \<Longrightarrow> av_actor_id e = who \<Longrightarrow> audited [kind] who st (Inr x, log_event e st')"
  by (simp add: audited_def)

lemma audited_two [logging]:
  "st_audit st' = st_audit st \<Longrightarrow> av_event_type e = kind \<Longrightarrow> av_actor_id e = who \<Longrightarrow> av_event_type e' = kind' \<Longrightarrow> av_actor_id e' = who
    \<Longrightarrow> audited [kind, kind'] who st (Inr x, log_event e' (log_event e st'))"
  by (simp add: audited_def)

lemma audited_answer: "audited kinds who st r \<Longrightarrow> audited kinds who st (answer h r)"
  by (cases r; cases "fst r") (auto simp: audited_def answer_def)

lemma audited_if [logging]: "(b \<Longrightarrow> audited ks who st x) \<Longrightarrow> (\<not> b \<Longrightarrow> audited ks who st y) \<Longrightarrow> audited ks who st (if b then x else y)"
  by simp

lemma audited_case_prod [logging]: "(\<And>x y. p = (x, y) \<Longrightarrow> audited ks who st (g x y)) \<Longrightarrow> audited ks who st (case p of (x, y) \<Rightarrow> g x y)"
  by (cases p) simp

lemma audited_case_prod_fun [logging]: "(\<And>x y. audited ks who st (g x y st')) \<Longrightarrow> audited ks who st ((case p of (x, y) \<Rightarrow> g x y) st')"
  by (cases p) simp

lemma audit_with_svc [logging]: "st_audit st' = st_audit st \<Longrightarrow> kept st_audit st (with_svc g st')"
  by (rule kept_with_svc) simp

lemma event_types [simp]:
  "av_event_type (event_new i t k a b c d e f) = k" "av_actor_id (event_new i t k a b c d e f) = a"
  "av_event_type (with_metadata x v ev) = av_event_type ev" "av_actor_id (with_metadata x v ev) = av_actor_id ev"
  "av_event_type (plain_event en k a c d e) = k" "av_actor_id (plain_event en k a c d e) = a"
  by (simp_all add: event_new_def with_metadata_def plain_event_def)

lemmas events = ev_key_created_def ev_key_encrypted_def ev_key_decrypted_def ev_key_signed_def ev_key_verified_def ev_key_deleted_def
  ev_key_rotated_def ev_key_imported_def ev_key_exported_def ev_key_export_requested_def ev_policy_changed_def
  ev_approval_requested_def ev_approval_granted_def ev_approval_denied_def ev_mfa_setup_def ev_mfa_verified_def ev_mfa_failed_def
  ev_mfa_backup_code_used_def sm9_event_def

fun event_kinds :: "api_request \<Rightarrow> event_type list" where
  "event_kinds (RqEncrypt _ _ _) = [KeyEncrypted]"
| "event_kinds (RqDecrypt _ _ _) = [KeyDecrypted]"
| "event_kinds (RqSign _ _ _) = [KeySigned]"
| "event_kinds (RqVerify _ _ _ _) = [KeyVerified]"
| "event_kinds (RqHmac _ _ _ _) = [KeySigned]"
| "event_kinds (RqHmacVerify _ _ _ _ _) = [KeyVerified]"
| "event_kinds (RqHash _ _) = [KeyAccessed]"
| "event_kinds (RqSm9Sign _ _) = [KeyAccessed]"
| "event_kinds (RqSm9Verify _ _ _) = [KeyAccessed]"
| "event_kinds (RqSm9Encrypt _ _) = [KeyAccessed]"
| "event_kinds (RqSm9Decrypt _ _) = [KeyAccessed]"
| "event_kinds (RqEnvelopeEncrypt _) = [KeyEncrypted]"
| "event_kinds (RqEnvelopeDecrypt _) = [KeyDecrypted]"
| "event_kinds (RqEnvelopeRewrap _) = [KeyRotated]"
| "event_kinds (RqDhDerive _) = [KeyAccessed]"
| "event_kinds (RqCreateKey _) = [KeyCreated]"
| "event_kinds (RqRotateKey _ _) = [KeyRotated]"
| "event_kinds (RqDeleteKey _ _) = [KeyDeleted]"
| "event_kinds (RqImportKey _) = [KeyImported]"
| "event_kinds (RqExportKey _ _ _) = [KeyExportRequested, KeyExported]"
| "event_kinds (RqCreatePolicy _) = [PolicyChanged]"
| "event_kinds (RqDeletePolicy _) = [PolicyChanged]"
| "event_kinds (RqListPending _) = [ApprovalRequested]"
| "event_kinds (RqGetApproval _) = [ApprovalRequested]"
| "event_kinds (RqCreateApproval _) = [ApprovalRequested]"
| "event_kinds (RqApprove _ _) = [ApprovalGranted]"
| "event_kinds (RqReject _ _) = [ApprovalDenied]"
| "event_kinds (RqCancel _) = [ApprovalDenied]"
| "event_kinds _ = []"

lemma key_handlers_audited:
  "audited [KeyEncrypted] (cl_key_id cl) st (rest_encrypt dp en cl i tq er st)"
  "audited [KeyDecrypted] (cl_key_id cl) st (rest_decrypt dp en cl i tq dr st)"
  "audited [KeySigned] (cl_key_id cl) st (rest_sign dp en cl i tq d st)"
  "audited [KeyVerified] (cl_key_id cl) st (rest_verify dp en cl i tq d s st)"
  "audited [KeySigned] (cl_key_id cl) st (rest_hmac dp en cl i tq d a st)"
  "audited [KeyVerified] (cl_key_id cl) st (rest_hmac_verify dp en cl i tq d s a st)"
  "audited [KeyAccessed] (cl_key_id cl) st (rest_hash dp en cl d s st)"
  "audited [KeyAccessed] (cl_key_id cl) st (rest_sm9_sign dp en cl idn d st)"
  "audited [KeyAccessed] (cl_key_id cl) st (rest_sm9_verify dp en cl idn d s st)"
  "audited [KeyAccessed] (cl_key_id cl) st (rest_sm9_encrypt dp en cl idn d st)"
  "audited [KeyAccessed] (cl_key_id cl) st (rest_sm9_decrypt dp en cl idn d st)"
  "audited [KeyEncrypted] (cl_key_id cl) st (rest_envelope_encrypt dp en cl eer st)"
  "audited [KeyDecrypted] (cl_key_id cl) st (rest_envelope_decrypt dp en cl edr st)"
  "audited [KeyRotated] (cl_key_id cl) st (rest_envelope_rewrap dp en cl ewr st)"
  "audited [KeyAccessed] (cl_key_id cl) st (rest_dh_derive dp en cl dhr st)"
  "audited [KeyCreated] (cl_key_id cl) st (rest_create_key dp en cl ckr st)"
  "audited [KeyRotated] (cl_key_id cl) st (rest_rotate_key dp en cl i tq st)"
  "audited [KeyDeleted] (cl_key_id cl) st (rest_delete_key dp en cl i tq st)"
  "audited [KeyImported] (cl_key_id cl) st (rest_import_key dp en cl ikr st)"
  "audited [KeyExportRequested, KeyExported] (cl_key_id cl) st (rest_export_key dp en cl i tq xkr st)"
  "audited [] (cl_key_id cl) st (rest_list_keys dp en cl tq st)"
  "audited [] (cl_key_id cl) st (rest_get_key dp en cl i tq st)"
  unfolding key_handlers Let_def by ((intro logging keeping | simp add: events)+)

lemma get_policy_audited: "audited [] who st (rest_get_policy dp idn st)"
  by (simp add: audited_def rest_get_policy_def split: option.splits)

lemma control_handlers_audited:
  "audited [PolicyChanged] (cl_key_id cl) st (rest_create_policy dp en cl cpr st)"
  "audited [PolicyChanged] (cl_key_id cl) st (rest_delete_policy dp en cl i st)"
  "audited [] (cl_key_id cl) st (rest_list_policies dp st)"
  "audited [] (cl_key_id cl) st (query_audit_events dp en cl filt st)"
  "audited [ApprovalRequested] (cl_key_id cl) st (create_approval_request dp en cl car st)"
  "audited [ApprovalRequested] (cl_key_id cl) st (list_pending_approvals dp en cl t st)"
  "audited [ApprovalRequested] (cl_key_id cl) st (get_approval_request dp en cl i st)"
  "audited [ApprovalGranted] (cl_key_id cl) st (approve_request dp en cl i c st)"
  "audited [ApprovalDenied] (cl_key_id cl) st (reject_request dp en cl i r st)"
  "audited [ApprovalDenied] (cl_key_id cl) st (cancel_request dp en cl i st)"
  unfolding rest_create_policy_def rest_delete_policy_def rest_list_policies_def query_audit_events_def
    create_approval_request_def list_pending_approvals_def get_approval_request_def approve_request_def reject_request_def
    cancel_request_def ensure_resource_tenant_def on_parts Let_def
  by ((intro logging keeping | clarsimp simp: events split: prod.splits option.splits)+)

section \<open>Requests through the middleware\<close>

lemma route_permission_nonzero: "route_permission req \<noteq> 0"
  by (cases req) (simp_all add: permission_bits AUTHENTICATED_def)

text \<open>The role may be read before a lockout ends and the permission after; who calls does not depend on it.\<close>

lemma serve_cases:
  assumes "distinct (map ak_secret (ac_valid_keys (st_api_keys st)))" "serve dp en now1 now2 header req st = (r, st')"
  obtains status where "r = Inl status" "st' = st"
  | k r' where "authenticates now2 header (st_api_keys st) k" "satisfies (ak_permission k) (route_permission req)"
      "handle dp en (caller_at now1 k) req st = (r', st')" "r = Inr r'"
proof -
  let ?rq = "\<lparr>rq_config = Some (st_api_keys st), rq_header = header\<rparr>"
  show thesis
  proof (cases "require_permission (route_permission req) now1 now2 ?rq (\<lambda>cl. handle dp en cl req st)")
    case (Inl status)
    with assms(2) show ?thesis by (intro that(1)) (auto simp: serve_def)
  next
    case (Inr y)
    then obtain k where "authenticates now2 header (st_api_keys st) k" "satisfies (ak_permission k) (route_permission req)"
        "y = handle dp en (caller_at now1 k) req st"
      using middleware_key_at [of ?rq "st_api_keys st"] assms(1) route_permission_nonzero
      by (fastforce simp: require_permission_def)
    with Inr assms(2) show ?thesis
      by (intro that(2) [of k "fst y"]) (auto simp: serve_def split: prod.splits)
  qed
qed

lemma kept_reaches: "kept f st r \<Longrightarrow> reaches f (insert (f st) S) r"
  by (simp add: kept_def reaches_def)

lemma besides_keystore:
  "kept besides_policies st r \<Longrightarrow> kept (\<lambda>st. keystore_of st) st r" "kept besides_mfa st r \<Longrightarrow> kept (\<lambda>st. keystore_of st) st r"
  "kept (\<lambda>st. st) st r \<Longrightarrow> kept (\<lambda>st. keystore_of st) st r"
  by (simp_all add: kept_def besides)

lemma handle_keystore:
  assumes "on_software cr dp"
  shows "reaches (\<lambda>st. keystore_of st) (insert (keystore_of st) ((\<lambda>c. ks_step cr c (keystore_of st)) ` keystore_calls dp en cl req))
     (handle dp en cl req st)"
proof (cases "(\<exists>r. req = RqCreateKey r) \<or> (\<exists>r. req = RqImportKey r) \<or> (\<exists>i tq. req = RqRotateKey i tq) \<or> (\<exists>i tq. req = RqDeleteKey i tq)")
  case True
  with key_changers [OF assms] show ?thesis by blast
next
  case False
  then have "kept (\<lambda>st. keystore_of st) st (handle dp en cl req st)"
    by (cases req) (simp_all add: kept_answer key_users_keep [OF assms] no_keys_touched
      besides_keystore policy_handlers_keep mfa_handlers_keep query_keeps)
  then show ?thesis by (rule kept_reaches)
qed

lemma handle_audit:
  "route_permission req \<noteq> MANAGE_MFA \<Longrightarrow> audited (event_kinds req) (cl_key_id cl) st (handle dp en cl req st)"
  by (cases req) (simp_all add: audited_answer key_handlers_audited control_handlers_audited get_policy_audited)

lemma mfa_audit:
  "\<exists>es. st_audit (snd (rest_mfa_setup dp en u st)) = st_audit st @ es"
  "\<exists>es. st_audit (snd (rest_mfa_verify dp en cl u c st)) = st_audit st @ es"
  "\<exists>es. st_audit (snd (rest_mfa_verify_backup dp en cl u c st)) = st_audit st @ es"
  "\<exists>es. st_audit (snd (rest_mfa_status dp en cl u st)) = st_audit st @ es"
  by (auto simp: rest_mfa_setup_def rest_mfa_verify_def rest_mfa_verify_backup_def rest_mfa_status_def then_st_def on_mfa_def Let_def
      split: sum.splits prod.splits option.splits)

lemma answer_state [simp]: "snd (answer f r) = snd r"
  by (cases r; cases "fst r") (simp_all add: answer_def)

lemma handle_audit_grows: "prefix (st_audit st) (st_audit (snd (handle dp en cl req st)))"
proof (cases "route_permission req = MANAGE_MFA")
  case True
  then show ?thesis
    using mfa_audit by (cases req) (fastforce simp: permission_bits AUTHENTICATED_def prefix_def)+
next
  case False
  with handle_audit [of req cl st dp en] show ?thesis
    by (auto simp: audited_def prefix_def split: sum.splits)
qed

lemma permission_values:
  "LIST_KEYS = 0x1" "ENCRYPT = 0x4" "CREATE_KEY = 0x100" "MANAGE_POLICY = 0x2000" "VIEW_AUDIT = 0x4000" "MANAGE_MFA = 0x20000"
  "APPROVE_ACTION = 0x40000" "AUTHENTICATED = 0x1"
  by (simp_all add: permission_bits AUTHENTICATED_def)

lemma keys_backup: "kept besides_keys st r \<Longrightarrow> kept besides_backup st r"
  by (simp add: kept_def besides)

lemma handle_keeps:
  "route_permission req = 0x4 \<Longrightarrow> kept besides_keys st (handle dp en cl req st)"
  "route_permission req = 0x1 \<Longrightarrow> kept besides_keys st (handle dp en cl req st) \<or> kept besides_approvals st (handle dp en cl req st)"
  "route_permission req = 0x100 \<Longrightarrow> kept besides_backup st (handle dp en cl req st)"
  "route_permission req = 0x2000 \<Longrightarrow> kept besides_policies st (handle dp en cl req st)"
  "route_permission req = 0x20000 \<Longrightarrow> kept besides_mfa st (handle dp en cl req st)"
  "route_permission req = 0x40000 \<Longrightarrow> kept besides_approvals st (handle dp en cl req st)"
  "route_permission req = 0x4000 \<Longrightarrow> kept (\<lambda>st. st) st (handle dp en cl req st)"
  by (cases req; simp add: permission_values;
      (((rule disjI1)?, rule kept_answer, rule handlers_keep) | (rule disjI2, rule kept_answer, rule handlers_keep)
      | (rule kept_answer, rule keys_backup, rule handlers_keep)))+

lemma route_permissions:
  "route_permission req \<in> {LIST_KEYS, ENCRYPT, CREATE_KEY, MANAGE_POLICY, MANAGE_MFA, VIEW_AUDIT, APPROVE_ACTION}"
  by (cases req) (simp_all add: AUTHENTICATED_def)

section \<open>Who can change what\<close>

lemma keystore_calls_route: "c \<in> keystore_calls dp en cl req \<Longrightarrow> route_permission req = CREATE_KEY"
  by (cases req) auto

lemma handle_footprint:
  assumes "handle dp en cl req st = (r, st')"
  shows "st_policy st' \<noteq> st_policy st \<Longrightarrow> route_permission req = MANAGE_POLICY"
    and "st_mfa st' \<noteq> st_mfa st \<or> st_api_keys st' \<noteq> st_api_keys st \<Longrightarrow> route_permission req = MANAGE_MFA"
    and "st_backup st' \<noteq> st_backup st \<Longrightarrow> route_permission req = CREATE_KEY"
    and "st_approval st' \<noteq> st_approval st \<Longrightarrow> route_permission req \<in> {LIST_KEYS, APPROVE_ACTION}"
  using route_permissions [of req] handle_keeps [of req st dp en cl] assms
  by (auto simp: permission_values kept_def besides)

text \<open>
  C3. Nothing changes without authority. When no two API keys share a secret and the service runs on
  the software keystore, a request that changes the state at all carries the secret of a key that is
  neither revoked nor expired nor locked; keys change only by a call of the keystore a key administrator
  asks for, and so does the backup, policies and second factors only for a security officer, approval
  requests for nobody who is an auditor; and the audit log only grows.
\<close>

theorem changes_need_authority:
  assumes "on_software cr dp" "distinct (map ak_secret (ac_valid_keys (st_api_keys st)))"
    and "serve dp en now1 now2 header req st = (r, st')" "st' \<noteq> st"
  shows "\<exists>k. authenticates now2 header (st_api_keys st) k
    \<and> (keystore_of st' \<noteq> keystore_of st \<longrightarrow> ak_permission k = KeyAdmin
         \<and> (\<exists>c \<in> keystore_calls dp en (caller_at now1 k) req. keystore_of st' = ks_step cr c (keystore_of st)))
    \<and> (st_backup st' \<noteq> st_backup st \<longrightarrow> ak_permission k = KeyAdmin)
    \<and> (st_policy st' \<noteq> st_policy st \<longrightarrow> ak_permission k = SecurityOfficer)
    \<and> (st_mfa st' \<noteq> st_mfa st \<or> st_api_keys st' \<noteq> st_api_keys st \<longrightarrow> ak_permission k = SecurityOfficer)
    \<and> (st_approval st' \<noteq> st_approval st \<longrightarrow> ak_permission k \<noteq> AuditAdmin)
    \<and> prefix (st_audit st) (st_audit st')"
  using assms(2,3)
proof (cases rule: serve_cases)
  case 1
  with assms(4) show ?thesis by simp
next
  case (2 k r')
  have "keystore_of st' = keystore_of st \<or> route_permission req = CREATE_KEY
      \<and> (\<exists>c \<in> keystore_calls dp en (caller_at now1 k) req. keystore_of st' = ks_step cr c (keystore_of st))"
    using handle_keystore [OF assms(1), of st en "caller_at now1 k" req] 2(3) keystore_calls_route by (fastforce simp: reaches_def)
  moreover have "prefix (st_audit st) (st_audit st')"
    using handle_audit_grows [of st dp en "caller_at now1 k" req] 2(3) by simp
  ultimately show ?thesis
    using 2(1,2) handle_footprint [OF 2(3)]
    by (intro exI [of _ k]) (auto simp: permission_values satisfies_roles [unfolded permission_values])
qed

text \<open>
  Requests on second factors: the user they name, and the events an answered request leaves, which for a
  code that is checked depend on the answer.
\<close>

fun named_user :: "api_request \<Rightarrow> string option" where
  "named_user (RqMfaSetup u) = Some u"
| "named_user (RqMfaVerify u _) = Some u"
| "named_user (RqMfaVerifyBackup u _) = Some u"
| "named_user _ = None"

definition answer_kinds :: "api_request \<Rightarrow> api_response \<Rightarrow> event_type list" where
  "answer_kinds req x =
     (case req of
        RqMfaSetup _ \<Rightarrow> [MfaSetup]
      | RqMfaVerify _ _ \<Rightarrow> [if \<exists>n. x = RsMfaVerified True n then MfaVerified else MfaFailed]
      | RqMfaVerifyBackup _ _ \<Rightarrow> [if x = RsValid True then MfaBackupCodeUsed else MfaFailed]
      | RqMfaStatus _ \<Rightarrow> [MfaSetup]
      | _ \<Rightarrow> event_kinds req)"

lemma answer_kinds_other: "route_permission req \<noteq> MANAGE_MFA \<Longrightarrow> answer_kinds req x = event_kinds req \<and> named_user req = None"
  by (cases req) (simp_all add: answer_kinds_def)

text \<open>What a request leaves in the log, by its answer: \<open>who\<close> is the identifier of the authenticated key.\<close>

definition recorded ::
  "api_request \<Rightarrow> string \<Rightarrow> ('s, 'r, 'q, 'j) kms_state \<Rightarrow> (api_error + api_response) \<times> ('s, 'r, 'q, 'j) kms_state \<Rightarrow> bool" where
  "recorded req who st res \<longleftrightarrow>
     (case fst res of
        Inr x \<Rightarrow> \<exists>es. st_audit (snd res) = st_audit st @ es \<and> map av_event_type es = answer_kinds req x
          \<and> (\<forall>e \<in> set es. av_actor_id e = unwrap_or who (named_user req))
      | Inl e \<Rightarrow> st_audit (snd res) = st_audit st
          \<or> (\<exists>u m ev. named_user req = Some u \<and> e = ApiTooManyRequests m \<and> st_audit (snd res) = st_audit st @ [ev]
             \<and> av_event_type ev = MfaFailed \<and> av_actor_id ev = u))"

lemma recorded_logged:
  "st_audit st' = st_audit st \<Longrightarrow> av_event_type ev = k \<Longrightarrow> answer_kinds req x = [k] \<Longrightarrow> av_actor_id ev = unwrap_or who (named_user req)
    \<Longrightarrow> recorded req who st (Inr x, log_event ev st')"
  by (simp add: recorded_def)

lemma recorded_refused:
  "st_audit st' = st_audit st \<Longrightarrow> recorded req who st (Inl e, st')"
  "st_audit st' = st_audit st \<Longrightarrow> named_user req = Some u \<Longrightarrow> av_event_type ev = MfaFailed \<Longrightarrow> av_actor_id ev = u
    \<Longrightarrow> recorded req who st (Inl (ApiTooManyRequests m), log_event ev st')"
  by (simp_all add: recorded_def)

lemma mfa_recorded:
  "recorded (RqMfaSetup u) who st (handle dp en cl (RqMfaSetup u) st)"
  "recorded (RqMfaVerify u c) who st (handle dp en cl (RqMfaVerify u c) st)"
  "recorded (RqMfaVerifyBackup u c) who st (handle dp en cl (RqMfaVerifyBackup u c) st)"
  "recorded (RqMfaStatus u) (cl_key_id cl) st (handle dp en cl (RqMfaStatus u) st)"
proof -
  show "recorded (RqMfaStatus u) (cl_key_id cl) st (handle dp en cl (RqMfaStatus u) st)"
    by (simp add: answer_def rest_mfa_status_def recorded_def answer_kinds_def unwrap_or_def)
  show "recorded (RqMfaSetup u) who st (handle dp en cl (RqMfaSetup u) st)"
    by (auto simp: answer_def rest_mfa_setup_def Let_def then_st_def answer_kinds_def unwrap_or_def recorded_def ev_mfa_setup_def
        split: sum.splits prod.splits option.splits)
  show "recorded (RqMfaVerifyBackup u c) who st (handle dp en cl (RqMfaVerifyBackup u c) st)"
    by (auto simp: answer_def rest_mfa_verify_backup_def Let_def on_mfa_def backup_limit_exceeded_def answer_kinds_def unwrap_or_def
        recorded_def ev_mfa_failed_def ev_mfa_backup_code_used_def split: prod.splits)
  show "recorded (RqMfaVerify u c) who st (handle dp en cl (RqMfaVerify u c) st)"
    by (auto simp: answer_def rest_mfa_verify_def Let_def then_st_def on_mfa_def answer_kinds_def unwrap_or_def recorded_def
        ev_mfa_failed_def ev_mfa_verified_def split: sum.splits prod.splits option.splits if_splits)
qed

lemma handle_recorded: "recorded req (cl_key_id cl) st (handle dp en cl req st)"
proof (cases "route_permission req = MANAGE_MFA")
  case True
  then show ?thesis
    using mfa_recorded by (cases req) (simp_all add: permission_bits AUTHENTICATED_def del: handle.simps)
next
  case False
  with handle_audit [OF this, of cl st dp en] answer_kinds_other [OF False] show ?thesis
    by (auto simp: audited_def recorded_def unwrap_or_def split: sum.splits)
qed

text \<open>
  C7. The audit trail: a request that succeeds adds the events of its kind to the log, stamped with the
  identifier of the key that authenticated it, or with the user it names when it is about a second factor, where
  the kind tells whether the code was right. A request that the middleware refuses or that fails leaves the log
  as it was; the only exception is a check of a second factor that locks the account. So refusals by
  authentication, permissions, policies or quotas leave no trace.
\<close>

theorem audit_trail:
  assumes "distinct (map ak_secret (ac_valid_keys (st_api_keys st)))" "serve dp en now1 now2 header req st = (r, st')"
  shows "case r of
      Inr (Inr x) \<Rightarrow> \<exists>k es. authenticates now2 header (st_api_keys st) k \<and> st_audit st' = st_audit st @ es
        \<and> map av_event_type es = answer_kinds req x \<and> (\<forall>e \<in> set es. av_actor_id e = unwrap_or (ak_key_id k) (named_user req))
    | Inr (Inl e) \<Rightarrow> st_audit st' = st_audit st
        \<or> (\<exists>u m ev. named_user req = Some u \<and> e = ApiTooManyRequests m \<and> st_audit st' = st_audit st @ [ev]
           \<and> av_event_type ev = MfaFailed \<and> av_actor_id ev = u)
    | Inl _ \<Rightarrow> st_audit st' = st_audit st"
  using assms(1,2)
proof (cases rule: serve_cases)
  case (2 k r')
  with handle_recorded [of req "caller_at now1 k" st dp en] show ?thesis
    by (auto simp: recorded_def caller_at_def caller_of_def split: sum.splits)
qed simp

section \<open>Approvals\<close>

text \<open>The calls of the approval engine the interface makes: requests are created with the level of their operation.\<close>

fun api_call :: "'j ap_call \<Rightarrow> bool" where
  "api_call (CreateRequest j i now op res ty ten who just lvl) \<longleftrightarrow> lvl = default_required_level op"
| "api_call (Approve clk i who r c) \<longleftrightarrow> True"
| "api_call (Reject clk i who r reason) \<longleftrightarrow> True"
| "api_call (Cancel clk i who) \<longleftrightarrow> True"
| "api_call _ \<longleftrightarrow> False"

definition stays :: "'j approval_engine \<Rightarrow> 'j approval_engine set" where
  "stays e = insert e {ap_step c e | c. api_call c}"

lemma staysI: "api_call c \<Longrightarrow> ap_step c e \<in> stays e"
  by (auto simp: stays_def)

lemma stays_refl [simp]: "e \<in> stays e"
  by (simp add: stays_def)

lemma then_state: "snd (then_st r (\<lambda>x. Pair (Inr (g x)))) = snd r"
  by (cases r; cases "fst r") auto

lemma engine_calls:
  "snd (mgr_create_request dp i now op res ty ten who just None e) \<in> stays e"
  "snd (mgr_approve dp clk i who r c e) \<in> stays e" "snd (mgr_reject dp clk i who r reason e) \<in> stays e"
  "snd (mgr_cancel dp clk i who e) \<in> stays e"
proof -
  have "snd (mgr_create_request dp i now op res ty ten who just None e)
      = ap_step (CreateRequest (dp_empty_object dp) i now op res ty ten who just (default_required_level op)) e"
    by (simp add: mgr_create_request_def split: prod.splits)
  then show "snd (mgr_create_request dp i now op res ty ten who just None e) \<in> stays e"
    by (simp only:) (rule staysI, simp)
  show "snd (mgr_approve dp clk i who r c e) \<in> stays e" "snd (mgr_reject dp clk i who r reason e) \<in> stays e"
    using staysI [of "Approve clk i who r c" e] staysI [of "Reject clk i who r reason" e]
    by (simp_all add: mgr_approve_def mgr_reject_def then_state)
  show "snd (mgr_cancel dp clk i who e) \<in> stays e"
    using staysI [of "Cancel clk i who" e] by (cases "cancel clk i who e") (simp add: mgr_cancel_def)
qed

lemma reaches_after:
  "kept f st r \<Longrightarrow> f st \<in> S \<Longrightarrow> (\<And>x st'. f st' = f st \<Longrightarrow> reaches f S (g x st')) \<Longrightarrow> reaches f S (then_st r g)"
  by (cases r; cases "fst r") (auto simp: reaches_def kept_def)

text \<open>A call of the engine, and an answer and an event after it.\<close>

lemma reaches_on_approval:
  assumes "snd (h (st_approval st)) \<in> S"
  shows "reaches st_approval S (case on_approval h st of (x, st) \<Rightarrow> then_st (f x, st) (\<lambda>y st. (g y, log_event (ev y) st)))"
  using assms by (cases "h (st_approval st)") (auto simp: on_approval_def reaches_def then_st_def split: sum.splits)

lemma ensure_keeps [keeping]: "st_approval st' = st_approval st \<Longrightarrow> kept st_approval st (ensure_resource_tenant dp en ty i t st')"
  unfolding ensure_resource_tenant_def by (intro keeping kept_with_svc | simp)+

lemma approval_handlers_call:
  "reaches st_approval (stays (st_approval st)) (create_approval_request dp en cl r st)"
  "reaches st_approval (stays (st_approval st)) (approve_request dp en cl i c st)"
  "reaches st_approval (stays (st_approval st)) (reject_request dp en cl i reason st)"
  "reaches st_approval (stays (st_approval st)) (cancel_request dp en cl i st)"
  unfolding create_approval_request_def approve_request_def reject_request_def cancel_request_def Let_def
  by (intro reaches_after reaches_on_approval keeping | simp add: engine_calls)+

lemma besides_approval:
  "kept besides_keys st r \<Longrightarrow> kept st_approval st r" "kept besides_backup st r \<Longrightarrow> kept st_approval st r"
  "kept besides_policies st r \<Longrightarrow> kept st_approval st r" "kept besides_mfa st r \<Longrightarrow> kept st_approval st r"
  "kept (\<lambda>st. st) st r \<Longrightarrow> kept st_approval st r"
  by (simp_all add: kept_def besides)

lemma approval_readers_keep:
  "kept st_approval st (list_pending_approvals dp en cl t st)" "kept st_approval st (get_approval_request dp en cl i st)"
  unfolding list_pending_approvals_def get_approval_request_def by (intro keeping | simp)+

lemma handle_approval: "reaches st_approval (stays (st_approval st)) (handle dp en cl req st)"
proof (cases "(\<exists>r. req = RqCreateApproval r) \<or> (\<exists>i c. req = RqApprove i c) \<or> (\<exists>i c. req = RqReject i c) \<or> (\<exists>i. req = RqCancel i)")
  case True
  then show ?thesis
    by (auto simp: approval_handlers_call intro!: reaches_answer)
next
  case False
  then have "kept st_approval st (handle dp en cl req st)"
    by (cases req) (simp_all add: kept_answer approval_readers_keep besides_approval handlers_keep)
  then show ?thesis
    by (simp add: kept_def reaches_def)
qed

text \<open>What the engine guarantees when the interface is the only one to call it.\<close>

definition approvals_ok :: "'j approval_engine \<Rightarrow> bool" where
  "approvals_ok e \<longleftrightarrow> engine_inv e
     \<and> (\<forall>k r. ae_pending_requests e k = Some r \<longrightarrow> aq_required_level r = default_required_level (aq_operation r))"

lemma request_effect_level [simp]:
  "aq_required_level (request_effect c k r) = aq_required_level r" "aq_operation (request_effect c k r) = aq_operation r"
  by (cases c; simp add: approve_entity_def reject_entity_def cancel_entity_def record_approval_def expire_request_def Let_def)+

lemma approvals_ok_step:
  assumes "api_call c" "approvals_ok e"
  shows "approvals_ok (ap_step c e)"
proof -
  have "aq_required_level r = default_required_level (aq_operation r)" if "ae_pending_requests (ap_step c e) k = Some r" for k r
  proof (cases "creates k c")
    case True
    with assms(1) that show ?thesis
      by (cases c) (auto simp: create_request_def put_request_def Let_def)
  next
    case False
    with that assms(2) show ?thesis
      by (auto simp: requests_step approvals_ok_def)
  qed
  with assms(2) engine_inv_step [of e c] show ?thesis
    by (simp add: approvals_ok_def)
qed

text \<open>The service as a sequence of requests, each with the two readings of the clock the middleware takes.\<close>

type_synonym 'n arrival = "'n request_env \<times> time \<times> time \<times> (string \<Rightarrow> string option) \<times> api_request"

fun api_step :: "('n, 's, 'r, 'q, 'j, 'kp, 'v) kms_deps \<Rightarrow> 'n arrival \<Rightarrow> ('s, 'r, 'q, 'j) kms_state \<Rightarrow> ('s, 'r, 'q, 'j) kms_state" where
  "api_step dp (en, now1, now2, header, req) st = snd (serve dp en now1 now2 header req st)"

lemma serve_state: "snd (serve dp en now1 now2 header req st) \<in> insert st {snd (handle dp en cl req st) | cl. True}"
  by (auto simp: serve_def require_permission_def auth_middleware_with_permission_def Let_def split: sum.splits prod.splits option.splits if_splits)
    (metis snd_conv)+

lemma api_step_approval: "approvals_ok (st_approval st) \<Longrightarrow> approvals_ok (st_approval (api_step dp a st))"
proof -
  assume ok: "approvals_ok (st_approval st)"
  obtain en now1 now2 header req where a: "a = (en, now1, now2, header, req)"
    by (cases a)
  have "approvals_ok (st_approval (snd (handle dp en cl req st)))" for cl
    using handle_approval [of st dp en cl req] ok by (auto simp: reaches_def stays_def approvals_ok_step)
  with ok serve_state [of dp en now1 now2 header req st] show ?thesis
    by (auto simp: a)
qed

interpretation api_approvals: stateful "api_step dp" "\<lambda>_. True" "\<lambda>st. approvals_ok (st_approval st)" for dp
  by unfold_locales (rule api_step_approval)

text \<open>The approval a request must present: its identifier, operation and key, and the reading of the clock it is checked at.\<close>

fun gate :: "api_request \<Rightarrow> (string option \<times> operation_type \<times> uuid \<times> nat) option" where
  "gate (RqRotateKey i tq) = Some (tq_approval_id tq, KeyRotate, i, 1)"
| "gate (RqDeleteKey i tq) = Some (tq_approval_id tq, KeyDelete, i, 1)"
| "gate (RqExportKey i tq r) = Some (xr_approval_id r, KeyExport, i, 2)"
| "gate _ = None"

lemma require_approved_iff:
  "require_approved dp now a op res act st = Inr ()
    \<longleftrightarrow> (\<exists>s u. a = Some s \<and> s \<noteq> [] \<and> rx_parse_uuid (dp_rest dp) s = Some u \<and> is_approved now (st_approval st) u op res)"
  by (auto simp: require_approved_def and_then_Inr split: option.splits)

lemma gate_refuses:
  "require_approved dp now a op res act st \<noteq> Inr ()
    \<Longrightarrow> \<exists>e. then_st (x, st) (\<lambda>_ st. then_st (require_approved dp now a op res act st, st) g) = (Inl e, st)"
  by (cases x; cases "require_approved dp now a op res act st") auto

lemma answer_error: "\<exists>e. r = (Inl e, st) \<Longrightarrow> \<exists>e. answer f r = (Inl e, st)"
  by (auto simp: answer_def)

lemma gate_checked:
  assumes "handle dp en cl req st = (r, st')" "gate req = Some (a, op, i, n)" "is_ok r \<or> st' \<noteq> st"
  shows "\<exists>s u. a = Some s \<and> s \<noteq> [] \<and> rx_parse_uuid (dp_rest dp) s = Some u
    \<and> is_approved (re_clock en n) (st_approval st) u op (uuid_text dp i)"
proof (rule ccontr)
  assume "\<not> ?thesis"
  then have no: "require_approved dp (re_clock en n) a op (uuid_text dp i) act st \<noteq> Inr ()" for act
    by (simp add: require_approved_iff)
  have "\<exists>e. handle dp en cl req st = (Inl e, st)"
    using assms(2) no
    by (cases req) (auto simp: rest_rotate_key_def rest_delete_key_def rest_export_key_def Let_def intro!: answer_error gate_refuses)
  with assms(1,3) show False by auto
qed

text \<open>
  C1. Two people for rotating or deleting a key, three for exporting one: whenever, after any sequence
  of requests from the start of the service, a request to rotate, delete or export a key succeeds or
  changes anything, there is a request for approval of exactly this operation on exactly this key, not
  expired and not rejected, with as many votes as the level of the operation demands, by people who
  are different from each other and from the one who asked.
\<close>

theorem sensitive_requests_approved:
  assumes "ae_pending_requests (st_approval st0) = Map.empty" "st = run_ops (api_step dp) arrivals st0"
    and "distinct (map ak_secret (ac_valid_keys (st_api_keys st)))"
    and "serve dp en now1 now2 header req st = (r, st')" "(\<exists>x. r = Inr (Inr x)) \<or> st' \<noteq> st"
    and "gate req = Some (a, op, i, n)"
  shows "\<exists>s u q. a = Some s \<and> rx_parse_uuid (dp_rest dp) s = Some u \<and> ae_pending_requests (st_approval st) u = Some q
    \<and> aq_operation q = op \<and> aq_resource_id q = uuid_text dp i \<and> re_clock en n \<le> aq_expires_at q \<and> aq_rejections q = []
    \<and> (if op = KeyExport then 3 else 2) \<le> card (ar_approver_id ` set (aq_approvals q))
    \<and> aq_requestor_id q \<notin> ar_approver_id ` set (aq_approvals q)"
  using assms(3,4)
proof (cases rule: serve_cases)
  case (2 k r')
  with assms(5) have "is_ok r' \<or> st' \<noteq> st" by auto
  from gate_checked [OF 2(3) assms(6) this] obtain s u where s: "a = Some s" "rx_parse_uuid (dp_rest dp) s = Some u"
    "is_approved (re_clock en n) (st_approval st) u op (uuid_text dp i)" by blast
  have ok: "approvals_ok (st_approval st)"
    unfolding assms(2) by (rule api_approvals.run_inv) (simp_all add: list.pred_True assms(1) approvals_ok_def engine_inv_def)
  then have "engine_inv (st_approval st)"
    by (simp add: approvals_ok_def)
  from approved_quorum [OF this s(3)] obtain q where q: "ae_pending_requests (st_approval st) u = Some q" "aq_operation q = op"
      "aq_resource_id q = uuid_text dp i" "re_clock en n \<le> aq_expires_at q" "aq_rejections q = []"
      "quorum (aq_required_level q) \<le> card (ar_approver_id ` set (aq_approvals q))"
      "aq_requestor_id q \<notin> ar_approver_id ` set (aq_approvals q)" by blast
  moreover have "op \<in> {KeyRotate, KeyDelete, KeyExport}"
    using assms(6) by (cases req) auto
  ultimately show ?thesis
    using s(1,2) ok by (intro exI [of _ s] exI [of _ u] exI [of _ q]) (auto simp: approvals_ok_def)
qed (use assms(5) in auto)

text \<open>
  An approval is not used up: after a rotation, deletion or export that succeeded with it, the same
  identifier opens the gate again for the same operation on the same key, any number of times, until
  the request expires.
\<close>

theorem approval_serves_again:
  assumes "gate req = Some (a, op, i, n)" "handle dp en cl req st = (Inr x, st')"
  shows "\<exists>u q. ae_pending_requests (st_approval st') u = Some q
    \<and> (\<forall>now act. now \<le> aq_expires_at q \<longrightarrow> require_approved dp now a op (uuid_text dp i) act st' = Inr ())"
proof -
  from gate_checked [OF assms(2,1)] obtain s u where s: "a = Some s" "s \<noteq> []" "rx_parse_uuid (dp_rest dp) s = Some u"
    "is_approved (re_clock en n) (st_approval st) u op (uuid_text dp i)" by auto
  have "route_permission req = 0x100"
    using assms(1) by (cases req) (simp_all add: permission_values)
  from handle_keeps(3) [OF this, of st dp en cl] have "st_approval st' = st_approval st"
    using assms(2) by (simp add: kept_def besides)
  with s show ?thesis
    by (auto simp: require_approved_iff is_approved_def get_request_def ok_or_def split: option.splits)
qed

section \<open>Tenants\<close>

text \<open>The key a request is about.\<close>

fun target_key :: "('n, 's, 'r, 'q, 'j, 'kp, 'v) kms_deps \<Rightarrow> api_request \<Rightarrow> uuid option" where
  "target_key dp (RqGetKey i _) = Some i"
| "target_key dp (RqEncrypt i _ _) = Some i"
| "target_key dp (RqDecrypt i _ _) = Some i"
| "target_key dp (RqSign i _ _) = Some i"
| "target_key dp (RqVerify i _ _ _) = Some i"
| "target_key dp (RqHmac i _ _ _) = Some i"
| "target_key dp (RqHmacVerify i _ _ _ _) = Some i"
| "target_key dp (RqRotateKey i _) = Some i"
| "target_key dp (RqDeleteKey i _) = Some i"
| "target_key dp (RqExportKey i _ _) = Some i"
| "target_key dp (RqEnvelopeEncrypt r) = rx_parse_uuid (dp_rest dp) (eq_kek_id r)"
| "target_key dp (RqEnvelopeDecrypt r) = rx_parse_uuid (dp_rest dp) (ed_kek_id r)"
| "target_key dp (RqEnvelopeRewrap r) = rx_parse_uuid (dp_rest dp) (ew_kek_id r)"
| "target_key dp (RqDhDerive r) = rx_parse_uuid (dp_rest dp) (dq_key_id r)"
| "target_key dp _ = None"

text \<open>
  The answer to a rewrap that names the current version of the key: the data key it brings, decoded and encoded
  again, and the version.
\<close>

definition echoed_rewrap :: "('n, 's, 'r, 'q, 'j, 'kp, 'v) kms_deps \<Rightarrow> envelope_rewrap_req \<Rightarrow> rewrap_dek_response \<Rightarrow> bool" where
  "echoed_rewrap dp w x \<longleftrightarrow>
     (\<exists>dek nonce. decode_field dp ''wrapped_dek'' (ew_wrapped_dek w) = Inr dek \<and> decode_field dp ''dek_nonce'' (ew_dek_nonce w) = Inr nonce
        \<and> x = \<lparr>rd_wrapped_dek = b64_encode (dp_svc_crates dp) dek, rd_dek_nonce = b64_encode (dp_svc_crates dp) nonce,
               rd_kek_version = ew_old_kek_version w, rd_old_kek_version = ew_old_kek_version w\<rparr>)"

definition fails :: "('e + 'a) \<times> 'st \<Rightarrow> bool" where
  "fails r \<longleftrightarrow> \<not> is_ok (fst r)"

lemma fails_then: "fails r \<Longrightarrow> fails (then_st r g)"
  by (cases r; cases "fst r") (auto simp: fails_def)

lemma fails_bind: "(\<And>x. c = Inr x \<Longrightarrow> fails (g x st)) \<Longrightarrow> fails (then_st (c, st) g)"
  by (cases c) (auto simp: fails_def)

lemma fails_answer [simp]: "fails (answer f r) = fails r"
  by (cases r; cases "fst r") (auto simp: fails_def answer_def)

lemma fails_with_svc: "fails (f (st_svc st)) \<Longrightarrow> fails (with_svc f st)"
  by (cases "f (st_svc st)") (auto simp: fails_def with_svc_def)

lemma refused_fails: "refused st r \<Longrightarrow> fails r"
  by (auto simp: refused_def fails_def)

lemma services_fail:
  assumes "svc_keystore sv = software_backend cr" "\<not> owned (sv_keystore st) k t"
  shows "fails (cs_encrypt sv cl k pt aad t st)" "fails (cs_decrypt sv cl k c aad t st)"
    "fails (cs_sign sv cl k d t st)" "fails (cs_verify sv cl k d sg t st)"
    "fails (cs_hmac sc sv cl k d aad t st)" "fails (cs_hmac_verify sc sv cl k d aad mac t st)"
    "fails (kys_rotate_key sv cl k t st)" "fails (kys_delete_key sv cl k t st)"
    "fails (kys_export_key cp sc sv cl k pk t opts st)" "fails (es_encrypt cp sc sv cl k pt aad t st)"
    "fails (es_decrypt_with_kek_version cp sv cl k x w n n' tag aad t v st)"
proof -
  have "tenant_refused cp sc sv cl k t st"
    by (rule sb.unserved_refused) (use assms in auto)
  then show "fails (cs_encrypt sv cl k pt aad t st)" "fails (cs_decrypt sv cl k c aad t st)"
    "fails (cs_sign sv cl k d t st)" "fails (cs_verify sv cl k d sg t st)"
    "fails (cs_hmac sc sv cl k d aad t st)" "fails (cs_hmac_verify sc sv cl k d aad mac t st)"
    "fails (kys_rotate_key sv cl k t st)" "fails (kys_delete_key sv cl k t st)"
    "fails (kys_export_key cp sc sv cl k pk t opts st)" "fails (es_encrypt cp sc sv cl k pt aad t st)"
    "fails (es_decrypt_with_kek_version cp sv cl k x w n n' tag aad t v st)"
    unfolding tenant_refused_def by - (simp_all add: refused_fails [where st = st])
qed

lemma metadata_owned:
  "get_key_metadata s k = Inr m \<Longrightarrow> m_tenant_id m = t \<longleftrightarrow> owned s k t"
  by (auto simp: get_key_metadata_def owned_def split: option.splits)

lemma get_key_fails:
  assumes "svc_keystore sv = software_backend cr" "\<not> owned (sv_keystore st) k t"
  shows "fails (kys_get_key sv cl k t st)"
  using assms(2)
  by (auto simp: fails_def kys_get_key_def fetch_owned_key_meta_def assms(1) keystore_call_def metadata_owned
     then_st_def Let_def split: sum.splits prod.splits)

lemma handlers_fail:
  assumes "svc_keystore (dp_services dp) = software_backend cr" "cl_bound_tenant cl = Some b" "\<not> owned (keystore_of st) i b"
  shows "fails (rest_get_key dp en cl i tq st)" "fails (rest_encrypt dp en cl i tq er st)" "fails (rest_decrypt dp en cl i tq dr st)"
    "fails (rest_sign dp en cl i tq d st)" "fails (rest_verify dp en cl i tq d s st)" "fails (rest_hmac dp en cl i tq d a st)"
    "fails (rest_hmac_verify dp en cl i tq d s a st)" "fails (rest_rotate_key dp en cl i tq st)" "fails (rest_delete_key dp en cl i tq st)"
    "fails (rest_export_key dp en cl i tq xkr st)"
    "rx_parse_uuid (dp_rest dp) (eq_kek_id eer) = Some i \<Longrightarrow> fails (rest_envelope_encrypt dp en cl eer st)"
    "rx_parse_uuid (dp_rest dp) (ed_kek_id edr) = Some i \<Longrightarrow> fails (rest_envelope_decrypt dp en cl edr st)"
  unfolding key_handlers Let_def optional_tenant_def resolve_tenant_def assms(2) parse_id_def option.case
  by (intro fails_bind, rule fails_then, rule fails_with_svc,
      (rule services_fail [OF assms(1,3)] get_key_fails [OF assms(1,3)] | clarsimp, rule services_fail [OF assms(1,3)]))+

lemma dh_derive_fails:
  assumes "svc_keystore (dp_services dp) = software_backend cr" "cl_bound_tenant cl = Some b" "\<not> owned (keystore_of st) i b"
    and "rx_parse_uuid (dp_rest dp) (dq_key_id r) = Some i"
  shows "fails (rest_dh_derive dp en cl r st)"
  unfolding rest_dh_derive_def Let_def optional_tenant_def resolve_tenant_def assms(1,2,4) parse_id_def
  using assms(3)
  by (cases "get_key_metadata (keystore_of st) i"; intro fails_bind)
    (auto simp: with_svc_def keystore_call_def fails_def metadata_owned)

lemma rewrap_foreign:
  assumes "svc_keystore sv = software_backend cr" "\<not> owned (sv_keystore st) k t"
    and "es_rewrap_dek cr' sc sv cl k w n v t st = (Inr x, st')"
  shows "\<exists>e. keys (sv_keystore st) k = Some e \<and> v = m_version (ke_meta e)
    \<and> x = \<lparr>rd_wrapped_dek = b64_encode sc w, rd_dek_nonce = b64_encode sc n, rd_kek_version = v, rd_old_kek_version = v\<rparr>"
proof -
  have no: "get_key_material_version (sv_keystore st) k v t = Inl (KeyNotFound (Id k))"
    using assms(2) by (simp add: get_key_material_version_def)
  show ?thesis
    using assms(1,3) no
    by (auto simp: es_rewrap_dek_def keystore_call_def get_key_metadata_def ok_or_def Let_def then_st_def
        split: option.splits if_splits)
qed

lemma rewrap_answer_foreign:
  assumes "on_software cr dp" "rx_parse_uuid (dp_rest dp) (ew_kek_id w) = Some i" "cl_bound_tenant cl = Some b"
    and "\<not> owned (keystore_of st) i b" "rest_envelope_rewrap dp en cl w st = (Inr x, st')"
  shows "(\<exists>e. keys (keystore_of st) i = Some e \<and> ew_old_kek_version w = m_version (ke_meta e)) \<and> echoed_rewrap dp w x"
proof -
  have sw: "svc_keystore (dp_services dp) = software_backend cr"
    using assms(1) by (simp add: on_software_def)
  have t: "optional_tenant cl tq = b" for tq
    using assms(3) by (simp add: optional_tenant_def resolve_tenant_def)
  from assms(5) obtain dek nonce sv where d: "decode_field dp ''wrapped_dek'' (ew_wrapped_dek w) = Inr dek"
      "decode_field dp ''dek_nonce'' (ew_dek_nonce w) = Inr nonce"
      "es_rewrap_dek (dp_crypto dp) (dp_svc_crates dp) (dp_services dp) (re_call en) i dek nonce (ew_old_kek_version w) b (st_svc st) = (Inr x, sv)"
    using assms(2) t
    by (auto simp: rest_envelope_rewrap_def parse_id_def ok_or_def Let_def then_st_def with_svc_def
        split: sum.splits prod.splits)
  from rewrap_foreign [OF sw _ d(3)] assms(4) show ?thesis
    using d(1,2) by (auto simp: echoed_rewrap_def)
qed

lemma target_owned:
  assumes "on_software cr dp" "target_key dp req = Some i" "cl_bound_tenant cl = Some b" "\<not> owned (keystore_of st) i b"
    and "\<not> (\<exists>w. req = RqEnvelopeRewrap w)"
  shows "fails (handle dp en cl req st)"
proof -
  have sw: "svc_keystore (dp_services dp) = software_backend cr"
    using assms(1) by (simp add: on_software_def)
  show ?thesis
    using assms(2,5) by (cases req) (simp_all add: handlers_fail [OF sw assms(3,4)] dh_derive_fails [OF sw assms(3,4)])
qed

lemma target_served:
  assumes "on_software cr dp" "target_key dp req = Some i" "cl_bound_tenant cl = Some b"
    and "handle dp en cl req st = (Inr x, st')"
  shows "owned (keystore_of st) i b
    \<or> (\<exists>w y e. req = RqEnvelopeRewrap w \<and> keys (keystore_of st) i = Some e \<and> ew_old_kek_version w = m_version (ke_meta e)
        \<and> x = RsRewrapped y \<and> echoed_rewrap dp w y)"
proof (cases "\<exists>w. req = RqEnvelopeRewrap w")
  case True
  then obtain w where w: "req = RqEnvelopeRewrap w" by blast
  with assms(4) obtain y where y: "rest_envelope_rewrap dp en cl w st = (Inr y, st')" "x = RsRewrapped y"
    by (auto simp: answer_def split: prod.splits sum.splits)
  show ?thesis
    using rewrap_answer_foreign [OF assms(1) _ assms(3) _ y(1)] assms(2) w y(2) by auto
next
  case False
  then show ?thesis
    using target_owned [OF assms(1-3), of st en] assms(4) by (auto simp: fails_def)
qed

lemma foreign_entries_kept:
  assumes "c \<in> keystore_calls dp en cl req" "cl_bound_tenant cl = Some b" "keys s i = Some e" "m_tenant_id (ke_meta e) \<noteq> b"
    and "kn_id (cl_envs (re_call en) 0) \<notin> dom (keys s)"
  shows "keys (ks_step cr c s) i = Some e"
proof -
  have "i \<noteq> kn_id (cl_envs (re_call en) 0)" "\<not> owned s i b"
    using assms by (auto simp: owned_def)
  then show ?thesis
    using assms(1,2,3)
    by (cases req) (auto simp: resolve_tenant_def keys_generate_key keys_import_key_material keys_rotate_key keys_delete_key
      split: sum.splits)
qed

lemma listed_tenant:
  assumes "on_software cr dp" "cl_bound_tenant cl = Some b" "rest_list_keys dp en cl tq st = (Inr ks, st')"
  shows "list_all (\<lambda>k. kr_tenant_id k = b) ks"
  using assms
  by (auto simp: rest_list_keys_def resolve_tenant_def then_st_Inr with_svc_def kys_list_keys_def keystore_call_def on_software_def
     software_backend_def list_keys_def Let_def filter_accepts_def key_filter_default_def key_response_of_def list_all_iff)

text \<open>
  C5. A caller whose key is bound to a tenant stays there, whatever tenant the request names: the keys
  of other tenants are exactly as before, a request about one key succeeds only if the key is the
  tenant's, and the keys it is shown by a listing are all the tenant's. One request about a key of another tenant
  can succeed: to rewrap a data key that is said to be wrapped by the key's current version. It gets back what
  it sent, and learns that this is the current version.
\<close>

theorem bound_callers_confined:
  assumes "on_software cr dp" "distinct (map ak_secret (ac_valid_keys (st_api_keys st)))"
    and "serve dp en now1 now2 header req st = (r, st')"
    and "\<And>k. authenticates now2 header (st_api_keys st) k \<Longrightarrow> ak_tenant_id k = Some b"
    and "kn_id (cl_envs (re_call en) 0) \<notin> dom (keys (keystore_of st))"
  shows "(\<forall>i e. keys (keystore_of st) i = Some e \<and> m_tenant_id (ke_meta e) \<noteq> b \<longrightarrow> keys (keystore_of st') i = Some e)
    \<and> (\<forall>i x. target_key dp req = Some i \<and> r = Inr (Inr x) \<longrightarrow> owned (keystore_of st) i b
        \<or> (\<exists>w y e. req = RqEnvelopeRewrap w \<and> keys (keystore_of st) i = Some e \<and> ew_old_kek_version w = m_version (ke_meta e)
            \<and> x = RsRewrapped y \<and> echoed_rewrap dp w y))
    \<and> (\<forall>ks. r = Inr (Inr (RsKeys ks)) \<longrightarrow> list_all (\<lambda>k. kr_tenant_id k = b) ks)"
  using assms(2,3)
proof (cases rule: serve_cases)
  case (2 k r')
  have bound: "cl_bound_tenant (caller_at now1 k) = Some b"
    using 2(1) assms(4) by (simp add: caller_at_def caller_of_def)
  have "keys (keystore_of st') i = Some e" if "keys (keystore_of st) i = Some e" "m_tenant_id (ke_meta e) \<noteq> b" for i e
    using handle_keystore [OF assms(1), of st en "caller_at now1 k" req] 2(3) foreign_entries_kept [OF _ bound that assms(5)] that
    by (auto simp: reaches_def)
  moreover note target_served [OF assms(1) _ bound, of req _ en st _ st']
  moreover have "list_all (\<lambda>k. kr_tenant_id k = b) ks" if "r' = Inr (RsKeys ks)" for ks
  proof -
    from that 2(3) obtain tq where "req = RqListKeys tq"
      by (cases req) (auto simp: answer_def split: prod.splits sum.splits)
    with that 2(3) listed_tenant [OF assms(1) bound, of en tq st] show ?thesis
      by (auto simp: answer_def split: prod.splits sum.splits)
  qed
  ultimately show ?thesis
    using 2(3,4) by blast
qed simp

section \<open>A small instance\<close>

definition mini_rest :: rest_crates where
  "mini_rest = \<lparr>rx_b64_decode = (\<lambda>s. Inr (map of_char s)),
     rx_parse_uuid = (\<lambda>s. if s = ''a'' then Some 1 else if s = ''id'' then Some 5 else None), rx_rfc3339 = (\<lambda>_. ''t''),
     rx_sm3_hash = (\<lambda>b. Inr b), rx_sm9_signer = (\<lambda>_. Inl ''none''), rx_sm9_signature_from_der = (\<lambda>b. Inr b),
     rx_sm9_signature_from_bytes = (\<lambda>b. Inr b), rx_sm9_verify = (\<lambda>_ _ _. Inr False), rx_sm9_encrypt = (\<lambda>_ _ _. Inl ''none''),
     rx_sm9_ciphertext_from_bytes = (\<lambda>b. Inr b), rx_sm9_decryptor = (\<lambda>_. Inl ''none'')\<rparr>"

definition mini_mfa_codecs :: mfa_codecs where
  "mini_mfa_codecs = \<lparr>mj_encode = (\<lambda>_. None), mj_decode = (\<lambda>_. None), mj_b64_encode = map (\<lambda>b. char_of (unat b)),
     mj_b64_decode = (\<lambda>s. Some (map of_char s))\<rparr>"

definition mini_deps :: "(ks_env, unit software_keystore, mini_store, policies_table, unit, bytes, unit) kms_deps" where
  "mini_deps = \<lparr>dp_services = mini_services (software_backend demo_crypto), dp_health = (\<lambda>n s. (health s, s)),
     dp_derive = software_derive demo_crypto, dp_crypto = demo_crypto, dp_svc_crates = mini_svc_crates,
     dp_format_crates = mini_formats, dp_rest = mini_rest, dp_mfa_crates = mini_mfa, dp_mfa_codecs = mini_mfa_codecs,
     dp_backup_crates = mini_bk, dp_policy_ops = pg_repository id None 0, dp_empty_object = (), dp_audit_query = (\<lambda>f es. es)\<rparr>"

definition mini_api_keys :: api_key_config where
  "mini_api_keys = config_with_keys
     [with_tenant_binding ''acme'' (demo_key ''k1'' ''s1'' KeyAdmin), demo_key ''k2'' ''s2'' SecurityOfficer, demo_key ''k3'' ''s3'' SecurityOfficer]"

definition mini_kms :: "(unit software_keystore, mini_store, policies_table, unit) kms_state" where
  "mini_kms = \<lparr>st_svc = mini_state (demo_store Aes256Gcm), st_policy = engine_without_store, st_approval = engine_new,
     st_mfa = \<lparr>mm_pool = False, mm_configs = Map.empty, mm_lockouts = Map.empty, mm_memory = mfa_memory_default, mm_kek = None\<rparr>, st_api_keys = mini_api_keys, st_backup = None, st_audit = []\<rparr>"

definition mini_request_env :: "ks_env request_env" where
  "mini_request_env = \<lparr>re_call = mini_call mini_ks_env, re_envs = (\<lambda>_. mini_ks_env), re_clock = (\<lambda>_. 0), re_policy_clock = demo_clock,
     re_ids = of_nat, re_backup = mini_benv, re_up = (\<lambda>_. True), re_rng = (\<lambda>_. 1), re_sys_rng = None, re_order = []\<rparr>"

definition mini_header :: "string \<Rightarrow> string \<Rightarrow> string option" where
  "mini_header s = [''x-api-key'' \<mapsto> s]"

lemma mini_on_software: "on_software demo_crypto mini_deps"
  by (simp add: on_software_def mini_deps_def mini_services_def)

lemma mini_distinct: "distinct (map ak_secret (ac_valid_keys mini_api_keys))"
  by (simp add: mini_api_keys_def demo_auth_simps)

lemma no_policies: "check_pbac en who t act res st = Inr ()" if "st_policy st = engine_without_store"
  using that by (simp add: check_pbac_def check_rest_pbac_def evaluate_pbac_def evaluate_if_configured_def engine_without_store_def)

lemma mini_serve:
  assumes "st_api_keys st = mini_api_keys"
  shows "satisfies KeyAdmin (route_permission req) \<Longrightarrow> serve dp en 0 0 (mini_header ''s1'') req st
      = (let (r, st') = handle dp en \<lparr>cl_key_id = ''k1'', cl_bound_tenant = Some ''acme'', cl_role = KeyAdmin\<rparr> req st in (Inr r, st'))"
    and "satisfies SecurityOfficer (route_permission req) \<Longrightarrow> serve dp en 0 0 (mini_header ''s2'') req st
      = (let (r, st') = handle dp en \<lparr>cl_key_id = ''k2'', cl_bound_tenant = None, cl_role = SecurityOfficer\<rparr> req st in (Inr r, st'))"
    and "satisfies SecurityOfficer (route_permission req) \<Longrightarrow> serve dp en 0 0 (mini_header ''s3'') req st
      = (let (r, st') = handle dp en \<lparr>cl_key_id = ''k3'', cl_bound_tenant = None, cl_role = SecurityOfficer\<rparr> req st in (Inr r, st'))"
  unfolding serve_def require_permission_def auth_middleware_with_permission_def assms
  by (simp_all add: mini_api_keys_def mini_header_def demo_auth_simps has_permission_def lookup_key_id_def lookup_tenant_def
      auth_validate_def usable_def ak_is_valid_def ak_is_locked_def split: prod.splits)

lemma mini_authenticates:
  "authenticates 0 (mini_header ''s1'') mini_api_keys k \<longleftrightarrow> k = with_tenant_binding ''acme'' (demo_key ''k1'' ''s1'' KeyAdmin)"
  by (auto simp: authenticates_def mini_api_keys_def mini_header_def demo_auth_simps ak_is_valid_def ak_is_locked_def)

text \<open>A request for approval of deleting the key, two votes, and the deletion.\<close>

definition mini_create :: api_request where
  "mini_create = RqCreateApproval \<lparr>cq_operation = ''key_delete'', cq_resource_id = ''id'', cq_tenant_id = ''acme'', cq_justification = None\<rparr>"

definition mini_delete :: api_request where
  "mini_delete = RqDeleteKey 5 \<lparr>tq_tenant_id = ''globex'', tq_approval_id = Some ''a''\<rparr>"

definition mini_arrivals :: "ks_env arrival list" where
  "mini_arrivals = [(mini_request_env, 0, 0, mini_header ''s1'', mini_create), (mini_request_env, 0, 0, mini_header ''s2'', RqApprove 1 None),
     (mini_request_env, 0, 0, mini_header ''s3'', RqApprove 1 None)]"

definition mini_vote :: "string \<Rightarrow> approval_record" where
  "mini_vote who = \<lparr>ar_approver_id = who, ar_level = LManager, ar_approved_at = 0, ar_comment = None\<rparr>"

definition mini_asked :: "approval_record list \<Rightarrow> approval_level \<Rightarrow> approval_status \<Rightarrow> time option \<Rightarrow> unit approval_request" where
  "mini_asked votes level status completed = \<lparr>aq_id = 1, aq_operation = KeyDelete, aq_resource_id = ''id'', aq_resource_type = ''key'',
     aq_tenant_id = ''acme'', aq_requestor_id = ''k1'', aq_justification = None, aq_status = status, aq_required_level = LDouble,
     aq_current_level = level, aq_approvals = votes, aq_rejections = [], aq_created_at = 0, aq_expires_at = hours 24,
     aq_completed_at = completed, aq_metadata = ()\<rparr>"

lemmas mini_simps = mini_deps_def mini_services_def mini_rest_def mini_request_env_def mini_call_def mini_ks_env_def mini_state_def
  Let_def then_st_def on_approval_def log_event_def answer_def uuid_text_def

definition mini_after :: "unit approval_request \<Rightarrow> audit_event list \<Rightarrow> (unit software_keystore, mini_store, policies_table, unit) kms_state" where
  "mini_after q es = mini_kms\<lparr>st_approval := engine_new\<lparr>ae_pending_requests := [1 \<mapsto> q]\<rparr>, st_audit := es\<rparr>"

lemma mini_created: "\<exists>es x. serve mini_deps mini_request_env 0 0 (mini_header ''s1'') mini_create mini_kms
    = (Inr (Inr x), mini_after (mini_asked [] LNone Pending None) es)"
  by (subst mini_serve(1))
    (simp_all add: mini_kms_def permission_values satisfies_roles [unfolded permission_values] mini_create_def create_approval_request_def
      parse_operation_def ascii_lower_def ensure_resource_tenant_def resource_type_for_def eq_ignore_ascii_case_def resolve_tenant_def
      mini_simps with_svc_def keystore_call_def get_key_metadata_def demo_key mgr_create_request_def create_request_def to_option_def
      put_request_def mini_after_def mini_asked_def engine_new_def)

lemmas mini_vote_simps = mini_after_def mini_kms_def permission_values satisfies_roles [unfolded permission_values] approve_request_def
  ensure_approval_tenant_def mgr_approve_def approve_def on_request_def approve_entity_def mini_asked_def mini_vote_def
  role_from_permission_def determine_approval_level_def isTerminal_def hours_def secs_def already_voted_def record_approval_def
  check_approval_complete_def less_eq_approval_level_def less_approval_level_def max_def mini_simps engine_new_def

lemma mini_voted:
  "\<exists>es' x. serve mini_deps mini_request_env 0 0 (mini_header ''s2'') (RqApprove 1 None) (mini_after (mini_asked [] LNone Pending None) es)
    = (Inr (Inr x), mini_after (mini_asked [mini_vote ''k2''] LManager Pending None) es')"
  by (subst mini_serve(2)) (simp_all add: mini_vote_simps)

lemma mini_voted_again:
  "\<exists>es' x. serve mini_deps mini_request_env 0 0 (mini_header ''s3'') (RqApprove 1 None)
      (mini_after (mini_asked [mini_vote ''k2''] LManager Pending None) es)
    = (Inr (Inr x), mini_after (mini_asked [mini_vote ''k2'', mini_vote ''k3''] LManager Approved (Some 0)) es')"
  by (subst mini_serve(3)) (simp_all add: mini_vote_simps)

definition mini_approved where
  "mini_approved = mini_asked [mini_vote ''k2'', mini_vote ''k3''] LManager Approved (Some 0)"

lemma mini_run: "\<exists>es. run_ops (api_step mini_deps) mini_arrivals mini_kms = mini_after mini_approved es"
proof -
  obtain es1 x1 where 1: "serve mini_deps mini_request_env 0 0 (mini_header ''s1'') mini_create mini_kms
      = (Inr (Inr x1), mini_after (mini_asked [] LNone Pending None) es1)"
    using mini_created by blast
  obtain es2 x2 where 2: "serve mini_deps mini_request_env 0 0 (mini_header ''s2'') (RqApprove 1 None) (mini_after (mini_asked [] LNone Pending None) es1)
      = (Inr (Inr x2), mini_after (mini_asked [mini_vote ''k2''] LManager Pending None) es2)"
    using mini_voted by blast
  obtain es3 x3 where 3: "serve mini_deps mini_request_env 0 0 (mini_header ''s3'') (RqApprove 1 None)
      (mini_after (mini_asked [mini_vote ''k2''] LManager Pending None) es2) = (Inr (Inr x3), mini_after mini_approved es3)"
    unfolding mini_approved_def using mini_voted_again by blast
  show ?thesis
    by (auto simp: mini_arrivals_def 1 2 3)
qed

definition mini_caller :: caller where
  "mini_caller = \<lparr>cl_key_id = ''k1'', cl_bound_tenant = Some ''acme'', cl_role = KeyAdmin\<rparr>"

lemma mini_keys [simp]: "st_api_keys (mini_after q es) = mini_api_keys" "st_api_keys mini_kms = mini_api_keys"
  "keystore_of (mini_after q es) = demo_store Aes256Gcm" "keystore_of mini_kms = demo_store Aes256Gcm"
  "st_audit mini_kms = []"
  by (simp_all add: mini_after_def mini_kms_def mini_state_def)

lemma mini_deleted_handle: "\<exists>st'. handle mini_deps mini_request_env mini_caller mini_delete (mini_after mini_approved es) = (Inr RsDone, st')"
  by (simp add: mini_delete_def mini_caller_def rest_delete_key_def resolve_tenant_def no_policies mini_after_def mini_kms_def require_approved_def
      is_approved_def get_request_def mini_approved_def mini_asked_def mini_vote_def hours_def secs_def check_approval_complete_def
      kys_delete_key_def fetch_owned_key_meta_def keystore_call_def with_svc_def get_key_metadata_def demo_key delete_key_def
      mini_simps)

lemma mini_deleted: "\<exists>st'. serve mini_deps mini_request_env 0 0 (mini_header ''s1'') mini_delete (mini_after mini_approved es) = (Inr (Inr RsDone), st')"
  using mini_deleted_handle [of es]
  by (subst mini_serve(1)) (auto simp: mini_caller_def mini_delete_def permission_values satisfies_roles [unfolded permission_values])

theorem sensitive_requests_approved_witness:
  "\<exists>es st' s u q. serve mini_deps mini_request_env 0 0 (mini_header ''s1'') mini_delete (mini_after mini_approved es) = (Inr (Inr RsDone), st')
    \<and> Some ''a'' = Some s \<and> rx_parse_uuid (dp_rest mini_deps) s = Some u
    \<and> ae_pending_requests (st_approval (mini_after mini_approved es)) u = Some q
    \<and> aq_operation q = KeyDelete \<and> aq_resource_id q = uuid_text mini_deps 5 \<and> re_clock mini_request_env 1 \<le> aq_expires_at q \<and> aq_rejections q = []
    \<and> (if KeyDelete = KeyExport then 3 else 2) \<le> card (ar_approver_id ` set (aq_approvals q))
    \<and> aq_requestor_id q \<notin> ar_approver_id ` set (aq_approvals q)"
proof -
  obtain es where run: "run_ops (api_step mini_deps) mini_arrivals mini_kms = mini_after mini_approved es"
    using mini_run by blast
  obtain st' where del: "serve mini_deps mini_request_env 0 0 (mini_header ''s1'') mini_delete (mini_after mini_approved es) = (Inr (Inr RsDone), st')"
    using mini_deleted by blast
  have empty: "ae_pending_requests (st_approval mini_kms) = Map.empty"
    by (simp add: mini_kms_def engine_new_def)
  have "distinct (map ak_secret (ac_valid_keys (st_api_keys (mini_after mini_approved es))))" "(\<exists>x. Inr (Inr RsDone) = Inr (Inr x)) \<or> st' \<noteq> mini_after mini_approved es"
    "gate mini_delete = Some (Some ''a'', KeyDelete, 5, 1)"
    by (simp_all add: mini_distinct mini_delete_def)
  from sensitive_requests_approved [OF empty run [symmetric] this(1) del this(2,3)] del show ?thesis
    by blast
qed

theorem approval_serves_again_witness:
  "\<exists>es st' u q. handle mini_deps mini_request_env mini_caller mini_delete (mini_after mini_approved es) = (Inr RsDone, st')
    \<and> ae_pending_requests (st_approval st') u = Some q
    \<and> (\<forall>now act. now \<le> aq_expires_at q \<longrightarrow> require_approved mini_deps now (Some ''a'') KeyDelete (uuid_text mini_deps 5) act st' = Inr ())"
proof -
  obtain st' where del: "handle mini_deps mini_request_env mini_caller mini_delete (mini_after mini_approved []) = (Inr RsDone, st')"
    using mini_deleted_handle by blast
  have "gate mini_delete = Some (Some ''a'', KeyDelete, 5, 1)"
    by (simp add: mini_delete_def)
  from approval_serves_again [OF this del] del show ?thesis by blast
qed

theorem audit_trail_witness:
  "\<exists>x st' k es. serve mini_deps mini_request_env 0 0 (mini_header ''s1'') mini_create mini_kms = (Inr (Inr x), st')
    \<and> authenticates 0 (mini_header ''s1'') (st_api_keys mini_kms) k \<and> st_audit st' = es
    \<and> map av_event_type es = [ApprovalRequested] \<and> (\<forall>e \<in> set es. av_actor_id e = ak_key_id k)"
proof -
  obtain es x where c: "serve mini_deps mini_request_env 0 0 (mini_header ''s1'') mini_create mini_kms
      = (Inr (Inr x), mini_after (mini_asked [] LNone Pending None) es)"
    using mini_created by blast
  have "distinct (map ak_secret (ac_valid_keys (st_api_keys mini_kms)))"
    by (simp add: mini_distinct)
  from audit_trail [OF this c] show ?thesis
    using c by (simp add: mini_create_def answer_kinds_def unwrap_or_def)
qed

theorem changes_need_authority_witness:
  "\<exists>x st' k. serve mini_deps mini_request_env 0 0 (mini_header ''s1'') mini_create mini_kms = (Inr (Inr x), st') \<and> st' \<noteq> mini_kms
    \<and> authenticates 0 (mini_header ''s1'') (st_api_keys mini_kms) k
    \<and> (st_approval st' \<noteq> st_approval mini_kms \<longrightarrow> ak_permission k \<noteq> AuditAdmin) \<and> prefix (st_audit mini_kms) (st_audit st')"
proof -
  obtain es x where c: "serve mini_deps mini_request_env 0 0 (mini_header ''s1'') mini_create mini_kms
      = (Inr (Inr x), mini_after (mini_asked [] LNone Pending None) es)"
    using mini_created by blast
  have d: "distinct (map ak_secret (ac_valid_keys (st_api_keys mini_kms)))"
    by (simp add: mini_distinct)
  have "ae_pending_requests (st_approval mini_kms) 1 \<noteq> ae_pending_requests (st_approval (mini_after (mini_asked [] LNone Pending None) es)) 1"
    by (simp add: mini_after_def mini_kms_def engine_new_def)
  then have "mini_after (mini_asked [] LNone Pending None) es \<noteq> mini_kms"
    by auto
  from changes_need_authority [OF mini_on_software d c this] this c show ?thesis
    by blast
qed

theorem bound_callers_confined_witness:
  "\<exists>es st'. serve mini_deps mini_request_env 0 0 (mini_header ''s1'') mini_delete (mini_after mini_approved es) = (Inr (Inr RsDone), st')
    \<and> target_key mini_deps mini_delete = Some 5 \<and> owned (keystore_of (mini_after mini_approved es)) 5 ''acme''"
proof -
  obtain st' where del: "serve mini_deps mini_request_env 0 0 (mini_header ''s1'') mini_delete (mini_after mini_approved []) = (Inr (Inr RsDone), st')"
    using mini_deleted by blast
  have d: "distinct (map ak_secret (ac_valid_keys (st_api_keys (mini_after mini_approved []))))"
    by (simp add: mini_distinct)
  have b: "ak_tenant_id k = Some ''acme''" if "authenticates 0 (mini_header ''s1'') (st_api_keys (mini_after mini_approved [])) k" for k
    using that by (simp add: mini_authenticates with_tenant_binding_def)
  have n: "kn_id (cl_envs (re_call mini_request_env) 0) \<notin> dom (keys (keystore_of (mini_after mini_approved [])))"
    by (simp add: mini_request_env_def mini_call_def mini_ks_env_def demo_key)
  have t: "target_key mini_deps mini_delete = Some 5" and other: "mini_delete \<noteq> RqEnvelopeRewrap w" for w
    by (simp_all add: mini_delete_def)
  from bound_callers_confined [OF mini_on_software d del b n] t other del show ?thesis
    by blast
qed


end
