(* ===== verification/Grpc_Properties.thy ===== *)
theory Grpc_Properties
  imports Grpc Rest_Properties
begin

text \<open>
  Properties of the gRPC interface: what a call can change and who may make it, its audit trail, the
  approvals behind sensitive calls whatever channel the requests before them used, tenants, and how the
  two channels compare.
\<close>

section \<open>What a call changes\<close>

lemma kept_reply [keeping]: "kept f st r \<Longrightarrow> kept f st (reply h r)"
  by (cases r; cases "fst r") (auto simp: kept_def reply_def)

lemma reply_state [simp]: "snd (reply f r) = snd r"
  by (cases r; cases "fst r") (simp_all add: reply_def)

lemma grpc_svc_state [simp]: "snd (grpc_svc f st) = snd (with_svc f st)"
  by (simp add: grpc_svc_def split: prod.splits)

lemma grpc_svc_ok: "grpc_svc f st = (Inr x, st') \<longleftrightarrow> with_svc f st = (Inr x, st')"
  by (auto simp: grpc_svc_def map_err_Inr split: prod.splits)

lemma kept_grpc_svc [keeping]: "kept f st (with_svc g st') \<Longrightarrow> kept f st (grpc_svc g st')"
  by (simp add: kept_def)

lemma keys_grpc_keystore [keeping]:
  "besides_keys st' = besides_keys st \<Longrightarrow> kept besides_keys st (grpc_keystore h g st')"
  "besides_backup st' = besides_backup st \<Longrightarrow> kept besides_backup st (grpc_keystore h g st')"
  by (simp_all add: kept_def grpc_keystore_def besides split: prod.splits)

lemmas grpc_handlers = grpc_get_key_def grpc_rotate_key_def grpc_delete_key_def grpc_list_keys_def
  grpc_import_key_def grpc_export_key_def grpc_encrypt_def grpc_decrypt_def grpc_sign_def grpc_verify_def grpc_hmac_def
  grpc_hmac_verify_def grpc_sm9_sign_def grpc_sm9_verify_def grpc_sm9_encrypt_def grpc_sm9_decrypt_def grpc_envelope_encrypt_def
  grpc_envelope_decrypt_def grpc_envelope_rewrap_def grpc_hash_def grpc_dh_derive_def grpc_query_audit_events_def

lemma create_keeps: "kept besides_backup st (grpc_create_key dp en ext n sp t st)"
  unfolding grpc_create_key_def Let_def by ((intro keeping | simp)+)

lemma besides_backup_keys: "kept besides_keys st r \<Longrightarrow> kept besides_backup st r"
  by (rule keys_backup)

lemma grpc_handlers_keep: "(\<nexists>n sp t. req = GCreateKey n sp t) \<Longrightarrow> kept besides_keys st (grpc_handle dp en ext req st)"
  by (cases req; simp only: grpc_handle.simps grpc_handlers Let_def; (intro keeping | simp)+)

lemma grpc_keeps: "kept besides_backup st (grpc_handle dp en ext req st)"
proof (cases "\<exists>n sp t. req = GCreateKey n sp t")
  case True
  then show ?thesis by (auto simp: kept_reply create_keeps)
next
  case False
  then show ?thesis by (intro keys_backup grpc_handlers_keep) simp
qed

section \<open>How a call begins\<close>

lemma check_permission_ok [simp]: "check_permission (Some cl) p = Inr cl' \<longleftrightarrow> cl' = cl \<and> satisfies (cl_role cl) p"
  by (auto simp: check_permission_def)

lemma parse_id_ok [simp]: "grpc_parse_id dp refusal s = Inr i \<longleftrightarrow> rx_parse_uuid (dp_rest dp) s = Some i"
  by (auto simp: grpc_parse_id_def split: option.splits)

lemma resolve_ok: "grpc_resolve_tenant bound s = Inr t \<longleftrightarrow> t = resolve_tenant bound s \<and> (bound = None \<longrightarrow> s \<noteq> [])"
  by (auto simp: grpc_resolve_tenant_def resolve_tenant_def split: option.splits)

lemma enter_ok:
  "enter_key dp en (Some cl) p refusal s rt act st = Inr x \<longleftrightarrow>
     (\<exists>i t. x = (cl, i, t) \<and> satisfies (cl_role cl) p \<and> rx_parse_uuid (dp_rest dp) s = Some i
        \<and> grpc_resolve_tenant (cl_bound_tenant cl) rt = Inr t \<and> grpc_check_pbac en (cl_key_id cl) t act (uuid_text dp i) st = Inr ())"
  "enter_tenant en (Some cl) p rt act res st = Inr y \<longleftrightarrow>
     (\<exists>t. y = (cl, t) \<and> satisfies (cl_role cl) p \<and> grpc_resolve_tenant (cl_bound_tenant cl) rt = Inr t
        \<and> grpc_check_pbac en (cl_key_id cl) t act res st = Inr ())"
  "enter_global en (Some cl) p act res st = Inr z \<longleftrightarrow>
     z = cl \<and> satisfies (cl_role cl) p \<and> grpc_check_pbac en (cl_key_id cl) (bound_or_empty cl) act res st = Inr ()"
  by (auto simp: enter_key_def enter_tenant_def enter_global_def and_then_Inr)

lemma enter_permission: "enter_key dp en (Some cl) p refusal s rt act st = Inr x \<Longrightarrow> satisfies (cl_role cl) p"
  "enter_tenant en (Some cl) p rt act res st = Inr y \<Longrightarrow> satisfies (cl_role cl) p"
  "enter_global en (Some cl) p act res st = Inr z \<Longrightarrow> satisfies (cl_role cl) p"
  by (auto simp: enter_ok)

section \<open>The keystore behind the calls\<close>

text \<open>The call of the keystore a method makes when it is one that changes keys.\<close>

fun rpc_keystore_calls ::
  "(ks_env, 's, 'r, 'q, 'j, 'kp, 'v) kms_deps \<Rightarrow> ks_env request_env \<Rightarrow> caller \<Rightarrow> grpc_request \<Rightarrow> ks_call set" where
  "rpc_keystore_calls dp en cl (GCreateKey name sp rt) =
     {GenerateKey (kn_rng (cl_envs (re_call en) 0)) (kn_id (cl_envs (re_call en) 0)) (kn_now (cl_envs (re_call en) 0)) spec name
        (resolve_tenant (cl_bound_tenant cl) rt) | spec. is_generatable spec}"
| "rpc_keystore_calls dp en cl (GImportKey name sp m rt) =
     {ImportKeyMaterial (kn_id (re_envs en 0)) (kn_now (re_envs en 0)) spec name (resolve_tenant (cl_bound_tenant cl) rt) m
        | spec. parse_spec sp = Inr spec}"
| "rpc_keystore_calls dp en cl (GRotateKey s rt a) =
     {RotateKey (kn_rng (cl_envs (re_call en) 1)) (kn_now (cl_envs (re_call en) 1)) i (resolve_tenant (cl_bound_tenant cl) rt)
        | i. rx_parse_uuid (dp_rest dp) s = Some i}"
| "rpc_keystore_calls dp en cl (GDeleteKey s rt a) =
     {DeleteKey i (resolve_tenant (cl_bound_tenant cl) rt) | i. rx_parse_uuid (dp_rest dp) s = Some i}"
| "rpc_keystore_calls dp en cl _ = {}"

lemma reaches_state: "snd r = snd r' \<Longrightarrow> reaches f S r = reaches f S r'"
  by (simp add: reaches_def)

lemma reaches_svc: "reaches f S (with_svc g st) \<Longrightarrow> reaches f S (grpc_svc g st)"
  by (simp add: reaches_def)

lemma reaches_reply: "reaches f S r \<Longrightarrow> reaches f S (reply h r)"
  by (simp add: reaches_def)

lemma reaches_grpc_keystore:
  "snd (g (keystore_of st)) \<in> S \<Longrightarrow> reaches (\<lambda>st. keystore_of st) S (grpc_keystore h g st)"
  by (cases "g (keystore_of st)") (simp add: reaches_def grpc_keystore_def)

lemma rpc_key_changers:
  assumes "on_software cr dp"
  shows "reaches (\<lambda>st. keystore_of st) (insert (keystore_of st) ((\<lambda>c. ks_step cr c (keystore_of st)) ` rpc_keystore_calls dp en cl (GCreateKey n sp rt)))
      (grpc_create_key dp en (Some cl) n sp rt st)"
    and "reaches (\<lambda>st. keystore_of st) (insert (keystore_of st) ((\<lambda>c. ks_step cr c (keystore_of st)) ` rpc_keystore_calls dp en cl (GImportKey n sp m rt)))
      (grpc_import_key dp en (Some cl) n sp m rt st)"
    and "reaches (\<lambda>st. keystore_of st) (insert (keystore_of st) ((\<lambda>c. ks_step cr c (keystore_of st)) ` rpc_keystore_calls dp en cl (GRotateKey s rt a)))
      (grpc_rotate_key dp en (Some cl) s rt a st)"
    and "reaches (\<lambda>st. keystore_of st) (insert (keystore_of st) ((\<lambda>c. ks_step cr c (keystore_of st)) ` rpc_keystore_calls dp en cl (GDeleteKey s rt a)))
      (grpc_delete_key dp en (Some cl) s rt a st)"
proof -
  have sw: "svc_keystore (dp_services dp) = software_backend cr"
    using assms by (simp add: on_software_def)
  note ch = services_change [OF sw]
  note [simp] = backup_keystore [OF assms(1)]
  show "reaches (\<lambda>st. keystore_of st) (insert (keystore_of st) ((\<lambda>c. ks_step cr c (keystore_of st)) ` rpc_keystore_calls dp en cl (GCreateKey n sp rt)))
      (grpc_create_key dp en (Some cl) n sp rt st)"
    unfolding grpc_create_key_def Let_def
    by (intro reaches_then reaches_pair reaches_svc ch; clarsimp simp: enter_ok resolve_ok simp del: ks_step.simps;
        (intro reaches_then reaches_pair reaches_svc ch; clarsimp simp del: ks_step.simps; blast?)?)
  show "reaches (\<lambda>st. keystore_of st) (insert (keystore_of st) ((\<lambda>c. ks_step cr c (keystore_of st)) ` rpc_keystore_calls dp en cl (GImportKey n sp m rt)))
      (grpc_import_key dp en (Some cl) n sp m rt st)"
    unfolding grpc_import_key_def Let_def sw
    by (rule reaches_then, rule reaches_pair, simp, clarsimp simp: enter_ok resolve_ok simp del: ks_step.simps,
       intro reaches_then reaches_pair reaches_grpc_keystore; clarsimp simp del: ks_step.simps)
      (auto simp: map_err_Inr)
  show "reaches (\<lambda>st. keystore_of st) (insert (keystore_of st) ((\<lambda>c. ks_step cr c (keystore_of st)) ` rpc_keystore_calls dp en cl (GRotateKey s rt a)))
      (grpc_rotate_key dp en (Some cl) s rt a st)"
    unfolding grpc_rotate_key_def Let_def
    by (rule reaches_then, rule reaches_pair, simp, clarsimp simp: enter_ok resolve_ok simp del: ks_step.simps,
       intro reaches_then reaches_pair reaches_svc ch; clarsimp simp del: ks_step.simps)
  show "reaches (\<lambda>st. keystore_of st) (insert (keystore_of st) ((\<lambda>c. ks_step cr c (keystore_of st)) ` rpc_keystore_calls dp en cl (GDeleteKey s rt a)))
      (grpc_delete_key dp en (Some cl) s rt a st)"
    unfolding grpc_delete_key_def Let_def
    by (rule reaches_then, rule reaches_pair, simp, clarsimp simp: enter_ok resolve_ok simp del: ks_step.simps,
       intro reaches_then reaches_pair reaches_svc ch; clarsimp simp del: ks_step.simps)
qed

lemma keystore_grpc_keystore:
  "(\<And>s. snd (g s) = s) \<Longrightarrow> keystore_of st' = keystore_of st \<Longrightarrow> kept (\<lambda>st. keystore_of st) st (grpc_keystore h g st')"
  by (simp add: kept_def grpc_keystore_def split: prod.splits) (metis snd_conv)

fun changes_keys :: "grpc_request \<Rightarrow> bool" where
  "changes_keys (GCreateKey _ _ _) \<longleftrightarrow> True"
| "changes_keys (GImportKey _ _ _ _) \<longleftrightarrow> True"
| "changes_keys (GRotateKey _ _ _) \<longleftrightarrow> True"
| "changes_keys (GDeleteKey _ _ _) \<longleftrightarrow> True"
| "changes_keys _ \<longleftrightarrow> False"

lemma rpc_users_keep:
  assumes "on_software cr dp" "\<not> changes_keys req"
  shows "kept (\<lambda>st. keystore_of st) st (grpc_handle dp en ext req st)"
  using assms(2)
  by (cases req; simp only: changes_keys.simps not_True_eq_False grpc_handle.simps grpc_handlers Let_def;
      (use assms(1) in \<open>intro keeping keystore_with_svc keystore_grpc_keystore services_keep [where cr = cr] | clarsimp simp: on_software_def\<close>)+)

lemma rpc_keystore:
  assumes "on_software cr dp"
  shows "reaches (\<lambda>st. keystore_of st) (insert (keystore_of st) ((\<lambda>c. ks_step cr c (keystore_of st)) ` rpc_keystore_calls dp en cl req))
     (grpc_handle dp en (Some cl) req st)"
proof (cases "changes_keys req")
  case True
  then show ?thesis
    using rpc_key_changers [OF assms, of st en cl]
    by (cases req) (simp_all only: changes_keys.simps grpc_handle.simps reaches_reply)
next
  case False
  from rpc_users_keep [OF assms this] show ?thesis
    by (rule kept_reaches)
qed

section \<open>Permissions and the audit log\<close>

text \<open>A method whose permission the caller lacks fails and changes nothing.\<close>

lemma reply_error [simp]: "reply f (Inl e, st) = (Inl e, st)"
  by (simp add: reply_def)

lemma lacking:
  assumes "\<not> satisfies (cl_role cl) p"
  shows "\<exists>e. reply h (then_st (enter_key dp en (Some cl) p refusal s rt act st, st) g) = (Inl e, st)"
    and "\<exists>e. reply h (then_st (enter_tenant en (Some cl) p rt act res st, st) g') = (Inl e, st)"
    and "\<exists>e. reply h (then_st (enter_global en (Some cl) p act res st, st) g'') = (Inl e, st)"
  using assms by (simp_all add: enter_key_def enter_tenant_def enter_global_def check_permission_def)

lemma method_needs_permission:
  assumes "\<not> satisfies (cl_role cl) (method_permission req)"
  shows "\<exists>e. grpc_handle dp en (Some cl) req st = (Inl e, st)"
  by (insert assms, cases req; simp only: grpc_handle.simps method_permission.simps grpc_create_key_def grpc_handlers; rule lacking, assumption)

fun rpc_event_kinds :: "grpc_request \<Rightarrow> event_type list" where
  "rpc_event_kinds (GGetKey _ _) = [KeyMaterialAccessed]"
| "rpc_event_kinds (GCreateKey _ _ _) = [KeyCreated]"
| "rpc_event_kinds (GRotateKey _ _ _) = [KeyRotated]"
| "rpc_event_kinds (GDeleteKey _ _ _) = [KeyDeleted]"
| "rpc_event_kinds (GListKeys _) = [KeyAccessed]"
| "rpc_event_kinds (GImportKey _ _ _ _) = [KeyImported]"
| "rpc_event_kinds (GExportKey _) = [KeyAccessed]"
| "rpc_event_kinds (GEncrypt _ _ _ _) = [KeyEncrypted]"
| "rpc_event_kinds (GDecrypt _) = [KeyDecrypted]"
| "rpc_event_kinds (GSign _ _ _) = [KeySigned]"
| "rpc_event_kinds (GVerify _ _ _ _) = [KeyVerified]"
| "rpc_event_kinds (GHmac _ _ _ _) = [KeySigned]"
| "rpc_event_kinds (GHmacVerify _ _ _ _ _) = [KeyVerified]"
| "rpc_event_kinds (GSm9Sign _ _) = [KeyAccessed]"
| "rpc_event_kinds (GSm9Verify _ _ _) = [KeyAccessed]"
| "rpc_event_kinds (GSm9Encrypt _ _) = [KeyAccessed]"
| "rpc_event_kinds (GSm9Decrypt _ _) = [KeyAccessed]"
| "rpc_event_kinds (GEnvelopeEncrypt _ _ _ _) = [KeyEncrypted]"
| "rpc_event_kinds (GEnvelopeDecrypt _) = [KeyDecrypted]"
| "rpc_event_kinds (GEnvelopeRewrap _ _ _ _ _) = [KeyRotated]"
| "rpc_event_kinds (GHash _ _) = []"
| "rpc_event_kinds (GDhDerive _ _ _) = [KeyAccessed]"
| "rpc_event_kinds (GQueryAudit _ _) = []"

lemma audited_reply: "audited ks who st r \<Longrightarrow> audited ks who st (reply h r)"
  by (cases r; cases "fst r") (auto simp: audited_def reply_def)

lemma audited_backup:
  "st_audit st' = st_audit st \<Longrightarrow> av_event_type e = kind \<Longrightarrow> av_actor_id e = who
    \<Longrightarrow> audited [kind] who st (Inr x, backup_new_key dp en meta t n (log_event e st'))"
  by (simp add: audited_def)

lemma audited_pair_none: "st_audit st' = st_audit st \<Longrightarrow> audited [] who st (r, st')"
  by (simp add: audited_def split: sum.splits)

lemma audit_grpc_keystore [logging]: "st_audit st' = st_audit st \<Longrightarrow> kept st_audit st (grpc_keystore h g st')"
  by (simp add: kept_def grpc_keystore_def split: prod.splits)

lemma audited_entered:
  "(\<And>i t. audited ks who st (g c i t st))
    \<Longrightarrow> audited ks who st (reply h (then_st (enter_key dp en (Some c) p refusal s rt act st, st) (\<lambda>(cl, i, t) st. g cl i t st)))"
  "(\<And>t. audited ks who st (g' c t st))
    \<Longrightarrow> audited ks who st (reply h (then_st (enter_tenant en (Some c) p rt act res st, st) (\<lambda>(cl, t) st. g' cl t st)))"
  "audited ks who st (g'' c st) \<Longrightarrow> audited ks who st (reply h (then_st (enter_global en (Some c) p act res st, st) g''))"
  subgoal by (rule audited_reply, cases "enter_key dp en (Some c) p refusal s rt act st") (auto simp: audited_error dest!: enter_ok(1) [THEN iffD1])
  subgoal by (rule audited_reply, cases "enter_tenant en (Some c) p rt act res st") (auto simp: audited_error dest!: enter_ok(2) [THEN iffD1])
  subgoal by (rule audited_reply, cases "enter_global en (Some c) p act res st") (auto simp: audited_error dest!: enter_ok(3) [THEN iffD1])
  done

lemma ev_accessed: "av_event_type (ev_key_material_accessed us i t k a o') = KeyMaterialAccessed"
  "av_actor_id (ev_key_material_accessed us i t k a o') = a"
  by (simp_all add: ev_key_material_accessed_def)

lemma rpc_audited: "audited (rpc_event_kinds req) (cl_key_id cl) st (grpc_handle dp en (Some cl) req st)"
  by (cases req; simp only: grpc_handle.simps rpc_event_kinds.simps grpc_create_key_def grpc_handlers Let_def; rule audited_entered;
      (intro logging keeping audited_backup audited_pair_none | simp add: events ev_accessed)+)

section \<open>Calls through the interceptor\<close>

definition rpc_authenticates :: "time \<Rightarrow> (string \<Rightarrow> string option) \<Rightarrow> api_key_config \<Rightarrow> api_key \<Rightarrow> bool" where
  "rpc_authenticates now metadata c k \<longleftrightarrow> k \<in> set (ac_valid_keys c) \<and> metadata_key metadata = Some (ak_secret k)
     \<and> ak_is_valid now k \<and> \<not> ak_is_locked now k"

lemma interceptor_key:
  assumes "distinct (map ak_secret (ac_valid_keys c))" "interceptor_call now c metadata = Inr cl"
  obtains k where "rpc_authenticates now metadata c k" "cl = caller_of k"
proof -
  from assms(2) obtain s k where s: "metadata_key metadata = Some s" "find (usable now s) (ac_valid_keys c) = Some k"
    and cl: "cl = \<lparr>cl_key_id = ak_key_id k, cl_bound_tenant = lookup_tenant c s, cl_role = ak_permission k\<rparr>"
    by (auto simp: interceptor_call_def validate_with_identity_def split: option.splits)
  from find_usableD [OF s(2)] have k: "k \<in> set (ac_valid_keys c)" "ak_secret k = s" "ak_is_valid now k" "\<not> ak_is_locked now k"
    by blast+
  from find_distinct [OF assms(1) k(1)] k(2) have "lookup_tenant c s = ak_tenant_id k"
    by (simp add: lookup_tenant_def)
  with k s(1) cl show thesis
    by (intro that [of k]) (simp_all add: rpc_authenticates_def caller_of_def)
qed

lemma rpc_serve_cases:
  assumes "distinct (map ak_secret (ac_valid_keys (st_api_keys st)))" "grpc_serve dp en now metadata req st = (r, st')"
  obtains status where "r = Inl status" "st' = st"
  | k where "rpc_authenticates now metadata (st_api_keys st) k" "grpc_handle dp en (Some (caller_of k)) req st = (r, st')"
proof (cases "interceptor_call now (st_api_keys st) metadata")
  case (Inl status)
  with assms(2) show thesis by (intro that(1) [of status]) (auto simp: grpc_serve_def)
next
  case (Inr cl)
  from interceptor_key [OF assms(1) this] obtain k where "rpc_authenticates now metadata (st_api_keys st) k" "cl = caller_of k" .
  with Inr assms(2) show thesis
    by (intro that(2)) (auto simp: grpc_serve_def)
qed

lemma key_methods:
  "satisfies p CREATE_KEY \<longleftrightarrow> p = KeyAdmin" "satisfies p DELETE_KEY \<longleftrightarrow> p = KeyAdmin" "satisfies p ROTATE_KEY \<longleftrightarrow> p = KeyAdmin"
  "satisfies p IMPORT_KEY \<longleftrightarrow> p = KeyAdmin" "satisfies p EXPORT_KEY \<longleftrightarrow> p = KeyAdmin"
  by (cases p; simp add: satisfies_def permission_bits)+

lemma changes_keys_admin: "changes_keys req \<Longrightarrow> satisfies p (method_permission req) \<longleftrightarrow> p = KeyAdmin"
  by (cases req) (simp_all add: key_methods)

lemma calls_change_keys: "c \<in> rpc_keystore_calls dp en cl req \<Longrightarrow> changes_keys req"
  by (cases req) auto

lemma rpc_audit_grows: "prefix (st_audit st) (st_audit (snd (grpc_handle dp en (Some cl) req st)))"
  using rpc_audited [of req cl st dp en] by (auto simp: audited_def prefix_def split: sum.splits)

lemma backup_changes: "\<not> changes_keys req \<Longrightarrow> st_backup (snd (grpc_handle dp en ext req st)) = st_backup st"
  using grpc_handlers_keep [of req st dp en ext] by (cases req) (auto simp: kept_def besides_keys_def)

text \<open>
  Over gRPC, too, nothing changes without authority: when no two API keys share a secret and the
  service runs on the software keystore, a call that changes the state carries the secret of a key
  that is neither revoked nor expired nor locked and whose role holds the permission of the method;
  keys and the backup change only for a key administrator, keys by a call of the keystore this
  method makes; the audit log only grows; and policies, approval requests, second factors and API
  keys never change on this channel.
\<close>

theorem rpc_changes_need_authority:
  assumes "on_software cr dp" "distinct (map ak_secret (ac_valid_keys (st_api_keys st)))"
    and "grpc_serve dp en now metadata req st = (r, st')" "st' \<noteq> st"
  shows "\<exists>k. rpc_authenticates now metadata (st_api_keys st) k \<and> satisfies (ak_permission k) (method_permission req)
    \<and> (keystore_of st' \<noteq> keystore_of st \<longrightarrow> ak_permission k = KeyAdmin
         \<and> (\<exists>c \<in> rpc_keystore_calls dp en (caller_of k) req. keystore_of st' = ks_step cr c (keystore_of st)))
    \<and> (st_backup st' \<noteq> st_backup st \<longrightarrow> ak_permission k = KeyAdmin)
    \<and> st_policy st' = st_policy st \<and> st_approval st' = st_approval st \<and> st_mfa st' = st_mfa st \<and> st_api_keys st' = st_api_keys st
    \<and> prefix (st_audit st) (st_audit st')"
  using assms(2,3)
proof (cases rule: rpc_serve_cases)
  case 1
  with assms(4) show ?thesis by simp
next
  case (2 k)
  have perm: "satisfies (ak_permission k) (method_permission req)"
    using method_needs_permission [of "caller_of k" req dp en st] 2(2) assms(4) by (auto simp: caller_of_def)
  have admin: "ak_permission k = KeyAdmin" if "changes_keys req"
    using changes_keys_admin [OF that] perm by simp
  have "keystore_of st' = keystore_of st
      \<or> changes_keys req \<and> (\<exists>c \<in> rpc_keystore_calls dp en (caller_of k) req. keystore_of st' = ks_step cr c (keystore_of st))"
    using rpc_keystore [OF assms(1), of st en "caller_of k" req] 2(2) calls_change_keys by (fastforce simp: reaches_def)
  moreover have "st_backup st' = st_backup st \<or> changes_keys req"
    using backup_changes [of req dp en "Some (caller_of k)" st] 2(2) by auto
  moreover have "besides_backup st' = besides_backup st"
    using grpc_keeps [of st dp en "Some (caller_of k)" req] 2(2) by (simp add: kept_def)
  moreover have "prefix (st_audit st) (st_audit st')"
    using rpc_audit_grows [of st dp en "caller_of k" req] 2(2) by simp
  ultimately show ?thesis
    using 2(1) perm admin by (intro exI [of _ k]) (auto simp: besides_backup_def)
qed

text \<open>
  The audit trail of gRPC: a call that succeeds adds the events of its method, stamped with the
  identifier of the key that authenticated it, and a call that fails adds none. Computing a hash and
  querying the log leave no trace here, while reading and listing keys do, which over HTTP do not.
\<close>

theorem rpc_audit_trail:
  assumes "distinct (map ak_secret (ac_valid_keys (st_api_keys st)))" "grpc_serve dp en now metadata req st = (r, st')"
  shows "case r of
      Inr _ \<Rightarrow> \<exists>k es. rpc_authenticates now metadata (st_api_keys st) k \<and> st_audit st' = st_audit st @ es
        \<and> map av_event_type es = rpc_event_kinds req \<and> (\<forall>e \<in> set es. av_actor_id e = ak_key_id k)
    | Inl _ \<Rightarrow> st_audit st' = st_audit st"
  using assms
proof (cases rule: rpc_serve_cases)
  case (2 k)
  with rpc_audited [of req "caller_of k" st dp en] show ?thesis
    by (auto simp: audited_def caller_of_def split: sum.splits)
qed simp

section \<open>Approvals, whatever the channel\<close>

text \<open>The approval a call must present: its identifier, the operation, and the text that names the key.\<close>

fun rpc_gate :: "grpc_request \<Rightarrow> (string \<times> operation_type \<times> string) option" where
  "rpc_gate (GRotateKey s rt a) = Some (a, KeyRotate, s)"
| "rpc_gate (GDeleteKey s rt a) = Some (a, KeyDelete, s)"
| "rpc_gate (GExportKey r) = Some (gx_approval_id r, KeyExport, gx_id r)"
| "rpc_gate _ = None"

lemma rpc_require_iff:
  "grpc_require_approved dp now a op res act st = Inr ()
    \<longleftrightarrow> (\<exists>u. a \<noteq> [] \<and> rx_parse_uuid (dp_rest dp) a = Some u \<and> is_approved now (st_approval st) u op res)"
  by (auto simp: grpc_require_approved_def and_then_Inr split: option.splits)

lemma rpc_gate_shape:
  assumes "reply h (then_st (enter_key dp en (Some c) p refusal s rt act st, st)
      (\<lambda>(cl, i, t) st. then_st (grpc_require_approved dp now a op (uuid_text dp i) txt st, st) (g cl i t))) = (r, st')"
    and "is_ok r \<or> st' \<noteq> st"
  shows "\<exists>i u. rx_parse_uuid (dp_rest dp) s = Some i \<and> rx_parse_uuid (dp_rest dp) a = Some u \<and> is_approved now (st_approval st) u op (uuid_text dp i)"
proof (cases "enter_key dp en (Some c) p refusal s rt act st")
  case (Inl e)
  with assms show ?thesis by auto
next
  case (Inr x)
  then obtain i t where x: "x = (c, i, t)" "rx_parse_uuid (dp_rest dp) s = Some i"
    by (auto simp: enter_ok)
  with Inr assms have "grpc_require_approved dp now a op (uuid_text dp i) txt st = Inr ()"
    by (cases "grpc_require_approved dp now a op (uuid_text dp i) txt st") auto
  with x(2) show ?thesis
    by (auto simp: rpc_require_iff)
qed

lemma rpc_gates:
  "reply h (grpc_rotate_key dp en (Some c) s rt a st) = (r, st') \<Longrightarrow> is_ok r \<or> st' \<noteq> st \<Longrightarrow>
     \<exists>i u. rx_parse_uuid (dp_rest dp) s = Some i \<and> rx_parse_uuid (dp_rest dp) a = Some u
       \<and> is_approved (re_clock en 1) (st_approval st) u KeyRotate (uuid_text dp i)"
  "reply h' (grpc_delete_key dp en (Some c) s rt a st) = (r, st') \<Longrightarrow> is_ok r \<or> st' \<noteq> st \<Longrightarrow>
     \<exists>i u. rx_parse_uuid (dp_rest dp) s = Some i \<and> rx_parse_uuid (dp_rest dp) a = Some u
       \<and> is_approved (re_clock en 1) (st_approval st) u KeyDelete (uuid_text dp i)"
  "reply h'' (grpc_export_key dp en (Some c) q st) = (r, st') \<Longrightarrow> is_ok r \<or> st' \<noteq> st \<Longrightarrow>
     \<exists>i u. rx_parse_uuid (dp_rest dp) (gx_id q) = Some i \<and> rx_parse_uuid (dp_rest dp) (gx_approval_id q) = Some u
       \<and> is_approved (re_clock en 1) (st_approval st) u KeyExport (uuid_text dp i)"
  unfolding grpc_rotate_key_def grpc_delete_key_def grpc_export_key_def by (rule rpc_gate_shape; assumption)+

lemma rpc_gate_checked:
  assumes "grpc_handle dp en (Some cl) req st = (r, st')" "rpc_gate req = Some (a, op, s)" "is_ok r \<or> st' \<noteq> st"
  shows "\<exists>i u. rx_parse_uuid (dp_rest dp) s = Some i \<and> rx_parse_uuid (dp_rest dp) a = Some u
    \<and> is_approved (re_clock en 1) (st_approval st) u op (uuid_text dp i)"
  by (insert assms, cases req; simp only: grpc_handle.simps rpc_gate.simps option.inject prod.inject option.distinct;
      elim conjE; hypsubst; rule rpc_gates; assumption)

text \<open>The service as a sequence of requests over either channel.\<close>

datatype 'n incoming =
    Http "'n arrival"
  | Rpc "'n request_env" time "string \<Rightarrow> string option" grpc_request

fun service_step :: "('n, 's, 'r, 'q, 'j, 'kp, 'v) kms_deps \<Rightarrow> 'n incoming \<Rightarrow> ('s, 'r, 'q, 'j) kms_state \<Rightarrow> ('s, 'r, 'q, 'j) kms_state" where
  "service_step dp (Http a) st = api_step dp a st"
| "service_step dp (Rpc en now metadata req) st = snd (grpc_serve dp en now metadata req st)"

lemma rpc_keeps_approvals: "st_approval (snd (grpc_serve dp en now metadata req st)) = st_approval st"
  using grpc_keeps [of st dp en _ req] by (auto simp: grpc_serve_def kept_def besides_backup_def split: sum.splits)

lemma service_step_approval: "approvals_ok (st_approval st) \<Longrightarrow> approvals_ok (st_approval (service_step dp a st))"
  by (cases a) (simp_all add: api_step_approval rpc_keeps_approvals)

interpretation service_approvals: stateful "service_step dp" "\<lambda>_. True" "\<lambda>st. approvals_ok (st_approval st)" for dp
  by unfold_locales (rule service_step_approval)

text \<open>
  C2. The channel does not matter for dual control: whenever, after any sequence of requests over HTTP
  and gRPC from the start of the service, a gRPC call to rotate, delete or export a key succeeds or
  changes anything, there is a request for approval of exactly this operation on exactly this key, not
  expired and not rejected, with as many votes of different people, none of them the one who asked, as
  the level of the operation demands.
\<close>

theorem rpc_sensitive_calls_approved:
  assumes "ae_pending_requests (st_approval st0) = Map.empty" "st = run_ops (service_step dp) arrivals st0"
    and "distinct (map ak_secret (ac_valid_keys (st_api_keys st)))"
    and "grpc_serve dp en now metadata req st = (r, st')" "is_ok r \<or> st' \<noteq> st"
    and "rpc_gate req = Some (a, op, s)"
  shows "\<exists>i u q. rx_parse_uuid (dp_rest dp) s = Some i \<and> rx_parse_uuid (dp_rest dp) a = Some u
    \<and> ae_pending_requests (st_approval st) u = Some q
    \<and> aq_operation q = op \<and> aq_resource_id q = uuid_text dp i \<and> re_clock en 1 \<le> aq_expires_at q \<and> aq_rejections q = []
    \<and> (if op = KeyExport then 3 else 2) \<le> card (ar_approver_id ` set (aq_approvals q))
    \<and> aq_requestor_id q \<notin> ar_approver_id ` set (aq_approvals q)"
  using assms(3,4)
proof (cases rule: rpc_serve_cases)
  case (2 k)
  from rpc_gate_checked [OF 2(2) assms(6,5)] obtain i u where s: "rx_parse_uuid (dp_rest dp) s = Some i" "rx_parse_uuid (dp_rest dp) a = Some u"
    "is_approved (re_clock en 1) (st_approval st) u op (uuid_text dp i)" by blast
  have ok: "approvals_ok (st_approval st)"
    unfolding assms(2) by (rule service_approvals.run_inv) (simp_all add: list.pred_True assms(1) approvals_ok_def engine_inv_def)
  then have "engine_inv (st_approval st)"
    by (simp add: approvals_ok_def)
  from approved_quorum [OF this s(3)] obtain q where "ae_pending_requests (st_approval st) u = Some q" "aq_operation q = op"
      "aq_resource_id q = uuid_text dp i" "re_clock en 1 \<le> aq_expires_at q" "aq_rejections q = []"
      "quorum (aq_required_level q) \<le> card (ar_approver_id ` set (aq_approvals q))"
      "aq_requestor_id q \<notin> ar_approver_id ` set (aq_approvals q)" by blast
  moreover have "op \<in> {KeyRotate, KeyDelete, KeyExport}"
    using assms(6) by (cases req) auto
  ultimately show ?thesis
    using s(1,2) ok by (intro exI [of _ i] exI [of _ u] exI [of _ q]) (auto simp: approvals_ok_def)
qed (use assms(5) in auto)

section \<open>Tenants\<close>

text \<open>The key a call is about, as in \<open>target_key\<close>.\<close>

fun rpc_target :: "grpc_request \<Rightarrow> string option" where
  "rpc_target (GGetKey s _) = Some s"
| "rpc_target (GRotateKey s _ _) = Some s"
| "rpc_target (GDeleteKey s _ _) = Some s"
| "rpc_target (GExportKey r) = Some (gx_id r)"
| "rpc_target (GEncrypt s _ _ _) = Some s"
| "rpc_target (GDecrypt r) = Some (gd_key_id r)"
| "rpc_target (GSign s _ _) = Some s"
| "rpc_target (GVerify s _ _ _) = Some s"
| "rpc_target (GHmac s _ _ _) = Some s"
| "rpc_target (GHmacVerify s _ _ _ _) = Some s"
| "rpc_target (GEnvelopeEncrypt s _ _ _) = Some s"
| "rpc_target (GEnvelopeDecrypt r) = Some (gv_kek_id r)"
| "rpc_target (GDhDerive s _ _) = Some s"
| "rpc_target _ = None"

lemma fails_reply [simp]: "fails (reply h r) = fails r"
  by (cases r; cases "fst r") (auto simp: fails_def reply_def)

lemma fails_entered:
  assumes "fails (g c i b st)" "cl_bound_tenant c = Some b" "rx_parse_uuid (dp_rest dp) s = Some i"
  shows "fails (reply h (then_st (enter_key dp en (Some c) p refusal s rt act st, st) (\<lambda>(cl, i, t) st. g cl i t st)))"
proof (cases "enter_key dp en (Some c) p refusal s rt act st")
  case (Inr x)
  then have "x = (c, i, b)"
    using assms(2,3) by (auto simp: enter_ok resolve_ok resolve_tenant_def)
  with Inr assms(1) show ?thesis by simp
qed (simp add: fails_def)

lemma fails_grpc_svc: "fails (f (st_svc st)) \<Longrightarrow> fails (grpc_svc f st)"
  by (cases "f (st_svc st)"; cases "fst (f (st_svc st))") (auto simp: fails_def grpc_svc_def with_svc_def)

lemma rpc_dh_fails:
  assumes "svc_keystore (dp_services dp) = software_backend cr" "\<not> owned (keystore_of st) i b"
  shows "fails (then_st (grpc_keystore hh (be_get_key_metadata (svc_keystore (dp_services dp)) n i) st)
      (\<lambda>meta st. if m_tenant_id meta \<noteq> b then (Inl e, st) else g meta st))"
  using assms by (cases "get_key_metadata (keystore_of st) i") (auto simp: grpc_keystore_def fails_def metadata_owned)

lemma rpc_target_owned:
  assumes "on_software cr dp" "rpc_target req = Some s" "rx_parse_uuid (dp_rest dp) s = Some i"
    and "cl_bound_tenant c = Some b" "\<not> owned (keystore_of st) i b"
  shows "fails (grpc_handle dp en (Some c) req st)"
proof -
  have sw: "svc_keystore (dp_services dp) = software_backend cr"
    using assms(1) by (simp add: on_software_def)
  note f = services_fail [OF sw assms(5)] get_key_fails [OF sw assms(5)]
  show ?thesis
    by (insert assms(2-4), cases req; simp only: rpc_target.simps option.inject option.distinct grpc_handle.simps grpc_handlers Let_def;
        rule fails_entered, (intro fails_bind)?,
        (rule fails_then, rule fails_grpc_svc, rule f | rule rpc_dh_fails [OF sw assms(5)]), simp_all)
qed

lemma rpc_foreign_kept:
  assumes "c \<in> rpc_keystore_calls dp en cl req" "cl_bound_tenant cl = Some b" "keys s i = Some e" "m_tenant_id (ke_meta e) \<noteq> b"
    and "kn_id (cl_envs (re_call en) 0) \<notin> dom (keys s)" "kn_id (re_envs en 0) \<notin> dom (keys s)"
  shows "keys (ks_step cr c s) i = Some e"
proof -
  have "i \<noteq> kn_id (cl_envs (re_call en) 0)" "i \<noteq> kn_id (re_envs en 0)" "\<not> owned s i b"
    using assms by (auto simp: owned_def)
  then show ?thesis
    using assms(1,2,3)
    by (cases req) (auto simp: resolve_tenant_def keys_generate_key keys_import_key_material keys_rotate_key keys_delete_key
      split: sum.splits)
qed

lemma rpc_listed_tenant:
  assumes "on_software cr dp" "cl_bound_tenant c = Some b" "grpc_list_keys dp en (Some c) rt st = (Inr ks, st')"
  shows "list_all (\<lambda>k. kr_tenant_id k = b) ks"
  using assms
  by (auto simp: grpc_list_keys_def enter_ok resolve_ok resolve_tenant_def then_st_Inr grpc_svc_ok with_svc_def kys_list_keys_def
     keystore_call_def on_software_def software_backend_def list_keys_def Let_def filter_accepts_def key_filter_default_def
     key_response_of_def list_all_iff)

text \<open>
  A caller whose key is bound to a tenant stays there over gRPC as well, whatever tenant the call
  names: the keys of other tenants are exactly as before, a call about one key succeeds only if the
  key is the tenant's, and a listing shows only the tenant's keys.
\<close>

theorem rpc_bound_callers_confined:
  assumes "on_software cr dp" "distinct (map ak_secret (ac_valid_keys (st_api_keys st)))"
    and "grpc_serve dp en now metadata req st = (r, st')"
    and "\<And>k. rpc_authenticates now metadata (st_api_keys st) k \<Longrightarrow> ak_tenant_id k = Some b"
    and "kn_id (cl_envs (re_call en) 0) \<notin> dom (keys (keystore_of st))" "kn_id (re_envs en 0) \<notin> dom (keys (keystore_of st))"
  shows "(\<forall>i e. keys (keystore_of st) i = Some e \<and> m_tenant_id (ke_meta e) \<noteq> b \<longrightarrow> keys (keystore_of st') i = Some e)
    \<and> (\<forall>s i x. rpc_target req = Some s \<and> rx_parse_uuid (dp_rest dp) s = Some i \<and> r = Inr x \<longrightarrow> owned (keystore_of st) i b)
    \<and> (\<forall>ks. r = Inr (GsKeys ks) \<longrightarrow> list_all (\<lambda>k. kr_tenant_id k = b) ks)"
  using assms(2,3)
proof (cases rule: rpc_serve_cases)
  case (2 k)
  have bound: "cl_bound_tenant (caller_of k) = Some b"
    using 2(1) assms(4) by (simp add: caller_of_def)
  have "keys (keystore_of st') i = Some e" if "keys (keystore_of st) i = Some e" "m_tenant_id (ke_meta e) \<noteq> b" for i e
    using rpc_keystore [OF assms(1), of st en "caller_of k" req] 2(2) rpc_foreign_kept [OF _ bound that assms(5,6)] that
    by (auto simp: reaches_def)
  moreover have "owned (keystore_of st) i b" if "rpc_target req = Some s" "rx_parse_uuid (dp_rest dp) s = Some i" "r = Inr x" for s i x
    using rpc_target_owned [OF assms(1) that(1,2) bound, of st en] 2(2) that(3) by (auto simp: fails_def)
  moreover have "list_all (\<lambda>k. kr_tenant_id k = b) ks" if "r = Inr (GsKeys ks)" for ks
  proof -
    from that 2(2) obtain rt where "req = GListKeys rt"
      by (cases req) (auto simp: reply_def split: prod.splits sum.splits)
    with that 2(2) rpc_listed_tenant [OF assms(1) bound, of en rt st] show ?thesis
      by (auto simp: reply_def split: prod.splits sum.splits)
  qed
  ultimately show ?thesis
    by blast
qed simp

section \<open>The channels compared\<close>

text \<open>The HTTP request a call corresponds to, for the methods whose messages carry the same contents.\<close>

fun http_twin :: "('n, 's, 'r, 'q, 'j, 'kp, 'v) kms_deps \<Rightarrow> grpc_request \<Rightarrow> (api_request \<times> string) option" where
  "http_twin dp (GRotateKey s rt a) = map_option (\<lambda>i. (RqRotateKey i \<lparr>tq_tenant_id = rt, tq_approval_id = Some a\<rparr>, rt)) (rx_parse_uuid (dp_rest dp) s)"
| "http_twin dp (GDeleteKey s rt a) = map_option (\<lambda>i. (RqDeleteKey i \<lparr>tq_tenant_id = rt, tq_approval_id = Some a\<rparr>, rt)) (rx_parse_uuid (dp_rest dp) s)"
| "http_twin dp (GSign s d rt) = map_option (\<lambda>i. (RqSign i \<lparr>tq_tenant_id = rt, tq_approval_id = None\<rparr> d, rt)) (rx_parse_uuid (dp_rest dp) s)"
| "http_twin dp (GVerify s d sg rt) = map_option (\<lambda>i. (RqVerify i \<lparr>tq_tenant_id = rt, tq_approval_id = None\<rparr> d sg, rt)) (rx_parse_uuid (dp_rest dp) s)"
| "http_twin dp (GSm9Sign i d) = Some (RqSm9Sign i d, ''-'')"
| "http_twin dp (GSm9Verify i d sg) = Some (RqSm9Verify i d sg, ''-'')"
| "http_twin dp _ = None"

definition same_answer :: "grpc_response \<Rightarrow> api_response \<Rightarrow> bool" where
  "same_answer x y \<longleftrightarrow>
     (case x of
        GsKey k \<Rightarrow> y = RsKey k
      | GsDone \<Rightarrow> y = RsDone
      | GsSigned z \<Rightarrow> y = RsSigned z
      | GsValid v \<Rightarrow> y = RsValid v
      | GsText t \<Rightarrow> y = RsText t
      | _ \<Rightarrow> False)"

text \<open>Both succeed with related answers or both fail, and they leave the same state.\<close>

definition alike :: "('a \<Rightarrow> 'b \<Rightarrow> bool) \<Rightarrow> ('e + 'a) \<times> 'st \<Rightarrow> ('f + 'b) \<times> 'st \<Rightarrow> bool" where
  "alike same r r' \<longleftrightarrow> snd r = snd r'
     \<and> (case (fst r, fst r') of (Inr x, Inr y) \<Rightarrow> same x y | (Inl _, Inl _) \<Rightarrow> True | _ \<Rightarrow> False)"

lemma alike_then: "alike (=) r r' \<Longrightarrow> (\<And>x st. alike same (g x st) (g' x st)) \<Longrightarrow> alike same (then_st r g) (then_st r' g')"
  by (cases r; cases r'; cases "fst r"; cases "fst r'") (auto simp: alike_def)

lemma alike_pair: "same x y \<Longrightarrow> alike same (Inr x, st) (Inr y, st)"
  by (simp add: alike_def)

lemma alike_answers: "alike (\<lambda>x y. same (h x) (h' y)) r r' \<Longrightarrow> alike same (reply h r) (answer h' r')"
  by (cases r; cases r'; cases "fst r"; cases "fst r'") (auto simp: alike_def reply_def answer_def)

lemma alike_svc: "alike (=) (grpc_svc g st) (with_svc g st)"
  by (cases "with_svc g st"; cases "fst (with_svc g st)") (auto simp: alike_def grpc_svc_def)

lemma alike_decode: "alike (=) (grpc_decode dp f s, st) (decode_field dp f s, st)"
  by (cases "rx_b64_decode (dp_rest dp) s") (simp_all add: alike_def grpc_decode_def decode_field_def)

lemma alike_internal: "alike (=) (internal_text x, st) (or_internal_text x, st)"
  by (cases x) (simp_all add: alike_def internal_text_def or_internal_text_def)

lemma alike_approval: "alike (=) (grpc_require_approved dp now a op res act st, st) (require_approved dp now (Some a) op res act st, st)"
  by (auto simp: alike_def grpc_require_approved_def require_approved_def and_then_def ok_or_def split: sum.splits option.splits)

lemma alike_pbac: "is_ok (grpc_check_pbac en w t act res st) \<longleftrightarrow> is_ok (check_pbac en w t act res st)"
  by (simp add: grpc_check_pbac_def check_pbac_def check_rest_pbac_def split: option.splits pbac_outcome.splits)

lemma alike_signature: "alike (=) (case x of Inr sg \<Rightarrow> Inr sg | Inl _ \<Rightarrow> map_err f y, st) (case x of Inr sg \<Rightarrow> Inr sg | Inl _ \<Rightarrow> map_err f' y, st)"
  by (cases x; cases y) (simp_all add: alike_def)

lemma alike_entered:
  assumes "satisfies (cl_role c) p" "rx_parse_uuid (dp_rest dp) s = Some i" "grpc_resolve_tenant (cl_bound_tenant c) rt = Inr t"
    and "alike same (g c i t st) (g' () st)"
  shows "alike same (then_st (enter_key dp en (Some c) p refusal s rt act st, st) (\<lambda>(cl, i, t) st. g cl i t st))
     (then_st (check_pbac en (cl_key_id c) t act (uuid_text dp i) st, st) g')"
proof -
  have "enter_key dp en (Some c) p refusal s rt act st
      = and_then (grpc_check_pbac en (cl_key_id c) t act (uuid_text dp i) st) (\<lambda>_. Inr (c, i, t))"
    using assms(1-3) by (simp add: enter_key_def check_permission_def grpc_parse_id_def)
  with assms(4) alike_pbac [of en "cl_key_id c" t act "uuid_text dp i" st] show ?thesis
    by (cases "grpc_check_pbac en (cl_key_id c) t act (uuid_text dp i) st"; cases "check_pbac en (cl_key_id c) t act (uuid_text dp i) st")
      (auto simp: alike_def)
qed

lemma alike_global:
  assumes "satisfies (cl_role c) p" "alike same (g c st) (g' () st)"
  shows "alike same (then_st (enter_global en (Some c) p act res st, st) g)
     (then_st (check_pbac en (cl_key_id c) (bound_or_empty c) act res st, st) g')"
  using assms alike_pbac [of en "cl_key_id c" "bound_or_empty c" act res st]
  by (cases "grpc_check_pbac en (cl_key_id c) (bound_or_empty c) act res st"; cases "check_pbac en (cl_key_id c) (bound_or_empty c) act res st")
    (auto simp: alike_def enter_global_def check_permission_def)

lemma key_twins:
  assumes "rx_parse_uuid (dp_rest dp) s = Some i" "grpc_resolve_tenant (cl_bound_tenant cl) rt = Inr (resolve_tenant (cl_bound_tenant cl) rt)"
  shows "satisfies (cl_role cl) ROTATE_KEY \<Longrightarrow> alike (=) (grpc_rotate_key dp en (Some cl) s rt a st) (rest_rotate_key dp en cl i \<lparr>tq_tenant_id = rt, tq_approval_id = Some a\<rparr> st)"
    and "satisfies (cl_role cl) DELETE_KEY \<Longrightarrow> alike (=) (grpc_delete_key dp en (Some cl) s rt a st) (rest_delete_key dp en cl i \<lparr>tq_tenant_id = rt, tq_approval_id = Some a\<rparr> st)"
    and "satisfies (cl_role cl) SIGN \<Longrightarrow> alike (=) (grpc_sign dp en (Some cl) s d rt st) (rest_sign dp en cl i \<lparr>tq_tenant_id = rt, tq_approval_id = None\<rparr> d st)"
    and "satisfies (cl_role cl) VERIFY \<Longrightarrow> alike (=) (grpc_verify dp en (Some cl) s d sg rt st) (rest_verify dp en cl i \<lparr>tq_tenant_id = rt, tq_approval_id = None\<rparr> d sg st)"
  unfolding grpc_rotate_key_def rest_rotate_key_def grpc_delete_key_def rest_delete_key_def grpc_sign_def rest_sign_def
    grpc_verify_def rest_verify_def Let_def tenant_query.select_convs
  by (rule alike_entered [OF _ assms], assumption, intro alike_then alike_svc alike_decode alike_approval alike_pair refl)+

lemma sm9_twins:
  "satisfies (cl_role cl) SIGN \<Longrightarrow> alike (=) (grpc_sm9_sign dp en (Some cl) idn d st) (rest_sm9_sign dp en cl idn d st)"
  "satisfies (cl_role cl) VERIFY \<Longrightarrow> alike (=) (grpc_sm9_verify dp en (Some cl) idn d sg st) (rest_sm9_verify dp en cl idn d sg st)"
  unfolding grpc_sm9_sign_def rest_sm9_sign_def grpc_sm9_verify_def rest_sm9_verify_def
  by (rule alike_global, assumption, intro alike_then alike_decode alike_internal alike_signature alike_pair refl)+

lemma alike_same: "alike (=) r r' \<Longrightarrow> (\<And>x. same (h x) (h' x)) \<Longrightarrow> alike same (reply h r) (answer h' r')"
  by (rule alike_answers) (auto simp: alike_def split: sum.splits)

text \<open>
  C6. Switching the protocol does not change the outcome: for rotating and deleting keys, signatures
  and signatures of SM9, a call by a caller who holds the permission of the method and names a tenant
  or is bound to one succeeds exactly when the same HTTP request does, with the same answer, and leaves
  the same state, log included.
\<close>

theorem channels_agree:
  assumes "http_twin dp req = Some (req', rt)" "satisfies (cl_role cl) (method_permission req)"
    and "cl_bound_tenant cl \<noteq> None \<or> rt \<noteq> []"
  shows "case (grpc_handle dp en (Some cl) req st, handle dp en cl req' st) of
      ((Inr x, st1), (Inr y, st2)) \<Rightarrow> same_answer x y \<and> st1 = st2
    | ((Inl _, st1), (Inl _, st2)) \<Rightarrow> st1 = st2
    | _ \<Rightarrow> False"
proof -
  have t: "grpc_resolve_tenant (cl_bound_tenant cl) rt = Inr (resolve_tenant (cl_bound_tenant cl) rt)"
    using assms(3) by (auto simp: resolve_ok)
  have "alike same_answer (grpc_handle dp en (Some cl) req st) (handle dp en cl req' st)"
    using assms(1,2) t
    by (cases req) (auto simp: same_answer_def intro!: alike_same key_twins sm9_twins)
  then show ?thesis
    by (auto simp: alike_def split: prod.splits sum.splits)
qed

lemma grpc_keystore_redis: "grpc_keystore h f st = (x, st') \<Longrightarrow> sv_redis (st_svc st') = sv_redis (st_svc st)"
  by (cases "f (keystore_of st)") (auto simp: grpc_keystore_def)

text \<open>
  Importing is different: over gRPC the material goes straight to the keystore. When a tenant has used
  up its quota of keys, every import for it fails over HTTP, while an import over gRPC can still
  succeed, and it is not counted either.
\<close>

theorem rpc_import_outside_quota:
  assumes "grpc_import_key dp en (Some cl) name sp mat rt st = (Inr x, st')"
    and "check_key_quota (dp_services dp) (resolve_tenant (cl_bound_tenant cl) rt) (st_svc st) = Inl e"
  shows "sv_redis (st_svc st') = sv_redis (st_svc st)
    \<and> (\<forall>en' q. resolve_tenant (cl_bound_tenant cl) (iq_tenant_id q) = resolve_tenant (cl_bound_tenant cl) rt
          \<longrightarrow> \<not> is_ok (fst (rest_import_key dp en' cl q st)))"
proof (intro conjI allI impI)
  show "sv_redis (st_svc st') = sv_redis (st_svc st)"
    using assms(1) by (auto simp: grpc_import_key_def then_st_Inr dest!: grpc_keystore_redis)
next
  fix en' and q :: import_key_req
  assume q: "resolve_tenant (cl_bound_tenant cl) (iq_tenant_id q) = resolve_tenant (cl_bound_tenant cl) rt"
  have "fails (kys_import_key fc (dp_services dp) ca spec n f w tk fp (resolve_tenant (cl_bound_tenant cl) rt) (st_svc st))"
    for fc ca spec n f w tk fp
    unfolding kys_import_key_def using assms(2) by (auto simp: fails_def then_st_def split: sum.splits)
  then have "fails (rest_import_key dp en' cl q st)"
    unfolding rest_import_key_def Let_def q by (intro fails_bind fails_then fails_with_svc)
  then show "\<not> is_ok (fst (rest_import_key dp en' cl q st))"
    by (simp add: fails_def)
qed

section \<open>A small instance\<close>

definition mini_rpc_delete :: grpc_request where
  "mini_rpc_delete = GDeleteKey ''id'' ''globex'' ''a''"

lemma rpc_no_policies: "grpc_check_pbac en who t act res st = Inr ()" if "st_policy st = engine_without_store"
  using that by (simp add: grpc_check_pbac_def evaluate_pbac_def evaluate_if_configured_def engine_without_store_def)

lemma mini_interceptor: "interceptor_call 0 mini_api_keys (mini_header ''s1'') = Inr mini_caller"
  by (simp add: interceptor_call_def metadata_key_def mini_header_def validate_with_identity_def mini_api_keys_def demo_auth_simps
      lookup_tenant_def usable_def ak_is_valid_def ak_is_locked_def mini_caller_def)

lemma mini_rpc_authenticates:
  "rpc_authenticates 0 (mini_header ''s1'') mini_api_keys k \<longleftrightarrow> k = with_tenant_binding ''acme'' (demo_key ''k1'' ''s1'' KeyAdmin)"
  by (auto simp: rpc_authenticates_def metadata_key_def mini_api_keys_def mini_header_def demo_auth_simps ak_is_valid_def ak_is_locked_def)

lemma mini_rpc_handled:
  "\<exists>st'. grpc_handle mini_deps mini_request_env (Some mini_caller) mini_rpc_delete (mini_after mini_approved es) = (Inr GsDone, st') \<and> st_audit st' \<noteq> es"
  by (simp add: mini_rpc_delete_def grpc_delete_key_def enter_key_def check_permission_def key_methods mini_caller_def grpc_parse_id_def
      grpc_resolve_tenant_def rpc_no_policies mini_after_def mini_kms_def grpc_require_approved_def
      is_approved_def get_request_def mini_approved_def mini_asked_def mini_vote_def hours_def secs_def check_approval_complete_def
      kys_delete_key_def fetch_owned_key_meta_def keystore_call_def grpc_svc_def with_svc_def get_key_metadata_def demo_key delete_key_def
      reply_def mini_simps)

lemma mini_rpc_deleted:
  obtains st' where "grpc_serve mini_deps mini_request_env 0 (mini_header ''s1'') mini_rpc_delete (mini_after mini_approved es) = (Inr GsDone, st')"
    "st' \<noteq> mini_after mini_approved es"
proof -
  obtain st' where h: "grpc_handle mini_deps mini_request_env (Some mini_caller) mini_rpc_delete (mini_after mini_approved es) = (Inr GsDone, st')"
    "st_audit st' \<noteq> es" using mini_rpc_handled by blast
  have "st_audit (mini_after mini_approved es) = es"
    by (simp add: mini_after_def)
  with h show thesis
    by (intro that [of st']) (auto simp: grpc_serve_def mini_interceptor)
qed

lemma mini_service_run: "run_ops (service_step mini_deps) (map Http as) st = run_ops (api_step mini_deps) as st"
  by (induction as arbitrary: st) auto

theorem rpc_changes_need_authority_witness:
  "\<exists>st' k. grpc_serve mini_deps mini_request_env 0 (mini_header ''s1'') mini_rpc_delete (mini_after mini_approved []) = (Inr GsDone, st')
    \<and> st' \<noteq> mini_after mini_approved [] \<and> rpc_authenticates 0 (mini_header ''s1'') (st_api_keys (mini_after mini_approved [])) k
    \<and> satisfies (ak_permission k) DELETE_KEY \<and> st_approval st' = st_approval (mini_after mini_approved [])"
proof -
  obtain st' where d: "grpc_serve mini_deps mini_request_env 0 (mini_header ''s1'') mini_rpc_delete (mini_after mini_approved []) = (Inr GsDone, st')"
    "st' \<noteq> mini_after mini_approved []" by (rule mini_rpc_deleted)
  have "distinct (map ak_secret (ac_valid_keys (st_api_keys (mini_after mini_approved []))))"
    by (simp add: mini_distinct)
  from rpc_changes_need_authority [OF mini_on_software this d] d show ?thesis
    by (auto simp: mini_rpc_delete_def)
qed

theorem rpc_audit_trail_witness:
  "\<exists>st' k es. grpc_serve mini_deps mini_request_env 0 (mini_header ''s1'') mini_rpc_delete (mini_after mini_approved []) = (Inr GsDone, st')
    \<and> rpc_authenticates 0 (mini_header ''s1'') (st_api_keys (mini_after mini_approved [])) k
    \<and> st_audit st' = st_audit (mini_after mini_approved []) @ es
    \<and> map av_event_type es = [KeyDeleted] \<and> (\<forall>e \<in> set es. av_actor_id e = ak_key_id k)"
proof -
  obtain st' where d: "grpc_serve mini_deps mini_request_env 0 (mini_header ''s1'') mini_rpc_delete (mini_after mini_approved []) = (Inr GsDone, st')"
    by (rule mini_rpc_deleted)
  have "distinct (map ak_secret (ac_valid_keys (st_api_keys (mini_after mini_approved []))))"
    by (simp add: mini_distinct)
  from rpc_audit_trail [OF this d] d show ?thesis
    by (auto simp: mini_rpc_delete_def)
qed

theorem rpc_sensitive_calls_approved_witness:
  "\<exists>es st' i u q. grpc_serve mini_deps mini_request_env 0 (mini_header ''s1'') mini_rpc_delete (mini_after mini_approved es) = (Inr GsDone, st')
    \<and> rx_parse_uuid (dp_rest mini_deps) ''id'' = Some i \<and> rx_parse_uuid (dp_rest mini_deps) ''a'' = Some u
    \<and> ae_pending_requests (st_approval (mini_after mini_approved es)) u = Some q
    \<and> aq_operation q = KeyDelete \<and> aq_resource_id q = uuid_text mini_deps i \<and> re_clock mini_request_env 1 \<le> aq_expires_at q \<and> aq_rejections q = []
    \<and> (if KeyDelete = KeyExport then 3 else 2) \<le> card (ar_approver_id ` set (aq_approvals q))
    \<and> aq_requestor_id q \<notin> ar_approver_id ` set (aq_approvals q)"
proof -
  obtain es where "run_ops (api_step mini_deps) mini_arrivals mini_kms = mini_after mini_approved es"
    using mini_run by blast
  then have run: "mini_after mini_approved es = run_ops (service_step mini_deps) (map Http mini_arrivals) mini_kms"
    by (simp add: mini_service_run)
  obtain st' where del: "grpc_serve mini_deps mini_request_env 0 (mini_header ''s1'') mini_rpc_delete (mini_after mini_approved es) = (Inr GsDone, st')"
    by (rule mini_rpc_deleted)
  have empty: "ae_pending_requests (st_approval mini_kms) = Map.empty"
    by (simp add: mini_kms_def engine_new_def)
  have "distinct (map ak_secret (ac_valid_keys (st_api_keys (mini_after mini_approved es))))"
    "is_ok (Inr GsDone :: grpc_status + grpc_response) \<or> st' \<noteq> mini_after mini_approved es"
    "rpc_gate mini_rpc_delete = Some (''a'', KeyDelete, ''id'')"
    by (simp_all add: mini_distinct mini_rpc_delete_def)
  from rpc_sensitive_calls_approved [OF empty run this(1) del this(2,3)] del show ?thesis
    by blast
qed

theorem rpc_bound_callers_confined_witness:
  "\<exists>st'. grpc_serve mini_deps mini_request_env 0 (mini_header ''s1'') mini_rpc_delete (mini_after mini_approved []) = (Inr GsDone, st')
    \<and> rpc_target mini_rpc_delete = Some ''id'' \<and> rx_parse_uuid (dp_rest mini_deps) ''id'' = Some 5
    \<and> owned (keystore_of (mini_after mini_approved [])) 5 ''acme''"
proof -
  obtain st' where del: "grpc_serve mini_deps mini_request_env 0 (mini_header ''s1'') mini_rpc_delete (mini_after mini_approved []) = (Inr GsDone, st')"
    by (rule mini_rpc_deleted)
  have d: "distinct (map ak_secret (ac_valid_keys (st_api_keys (mini_after mini_approved []))))"
    by (simp add: mini_distinct)
  have b: "ak_tenant_id k = Some ''acme''" if "rpc_authenticates 0 (mini_header ''s1'') (st_api_keys (mini_after mini_approved [])) k" for k
    using that by (simp add: mini_rpc_authenticates with_tenant_binding_def)
  have n: "kn_id (cl_envs (re_call mini_request_env) 0) \<notin> dom (keys (keystore_of (mini_after mini_approved [])))"
    "kn_id (re_envs mini_request_env 0) \<notin> dom (keys (keystore_of (mini_after mini_approved [])))"
    by (simp_all add: mini_request_env_def mini_call_def mini_ks_env_def demo_key)
  have t: "rpc_target mini_rpc_delete = Some ''id''" "rx_parse_uuid (dp_rest mini_deps) ''id'' = Some 5"
    by (simp_all add: mini_rpc_delete_def mini_deps_def mini_rest_def)
  with rpc_bound_callers_confined [OF mini_on_software d del b n] del show ?thesis
    by blast
qed

theorem channels_agree_witness:
  "case (grpc_handle mini_deps mini_request_env (Some mini_caller) mini_rpc_delete (mini_after mini_approved []),
      handle mini_deps mini_request_env mini_caller mini_delete (mini_after mini_approved [])) of
      ((Inr x, st1), (Inr y, st2)) \<Rightarrow> same_answer x y \<and> st1 = st2
    | ((Inl _, st1), (Inl _, st2)) \<Rightarrow> st1 = st2
    | _ \<Rightarrow> False"
  by (rule channels_agree [where rt = "''globex''"])
    (simp_all add: mini_rpc_delete_def mini_delete_def mini_caller_def key_methods mini_deps_def mini_rest_def)

definition mini_limited :: "(ks_env, unit software_keystore, mini_store, policies_table, unit, bytes, unit) kms_deps" where
  "mini_limited = mini_deps\<lparr>dp_services := (dp_services mini_deps)\<lparr>svc_quota_tracker :=
     Some \<lparr>qc_max_keys = 0, qc_max_requests_per_minute = 1, qc_max_requests_per_day = 1\<rparr>\<rparr>\<rparr>"

theorem rpc_import_outside_quota_witness:
  "\<exists>x st'. grpc_import_key mini_limited mini_request_env (Some mini_caller) ''k'' ''sm4'' (fill_bytes (\<lambda>n. of_nat n) 16) ''acme'' mini_kms = (Inr x, st')
    \<and> sv_redis (st_svc st') = sv_redis (st_svc mini_kms)
    \<and> (\<forall>en' q. resolve_tenant (cl_bound_tenant mini_caller) (iq_tenant_id q) = resolve_tenant (cl_bound_tenant mini_caller) ''acme''
          \<longrightarrow> \<not> is_ok (fst (rest_import_key mini_limited en' mini_caller q mini_kms)))"
proof -
  have "import_check Sm4 (fill_bytes (\<lambda>n. of_nat n) 16) = Inr ()"
    by code_simp
  then have "\<exists>x st'. grpc_import_key mini_limited mini_request_env (Some mini_caller) ''k'' ''sm4'' (fill_bytes (\<lambda>n. of_nat n) 16) ''acme'' mini_kms = (Inr x, st')"
    by (simp add: grpc_import_key_def mini_limited_def enter_tenant_def check_permission_def key_methods mini_caller_def
        grpc_resolve_tenant_def rpc_no_policies mini_kms_def parse_spec_def ascii_lower_def grpc_keystore_def software_backend_def
        import_key_material_def mini_simps)
  then obtain x st' where i: "grpc_import_key mini_limited mini_request_env (Some mini_caller) ''k'' ''sm4'' (fill_bytes (\<lambda>n. of_nat n) 16) ''acme'' mini_kms = (Inr x, st')"
    by blast
  have "check_key_quota (dp_services mini_limited) (resolve_tenant (cl_bound_tenant mini_caller) ''acme'') (st_svc mini_kms)
      = Inl (ApiQuotaExceeded ''keys'' 0 0)"
    by (simp add: mini_limited_def check_key_quota_def can_create_key_def mini_simps)
  from rpc_import_outside_quota [OF i this] i show ?thesis by blast
qed

end
