(* ===== verification/Csprng.thy ===== *)
theory Csprng
  imports Kms_Types
begin

text \<open>
  The random number generators of \<^verbatim>\<open>crates/kms-core/src/csprng.rs\<close>: the deterministic generator on
  HMAC-SM3 with its reseeding from the operating system, the helpers that draw straight from the
  operating system, and the self test. SM3 and its HMAC are parameters (the crate \<open>gm_crypto\<close>, whose
  digests are 32 bytes and which does not fail on any input); each call of \<open>getrandom\<close> is an argument,
  the bytes it yields or its error.
\<close>

section \<open>The deterministic generator\<close>

datatype csprng_error = EntropyError string | GenerationError string

record sm3_crate =
  s3_hash :: "bytes \<Rightarrow> bytes"
  s3_hmac :: "bytes \<Rightarrow> bytes \<Rightarrow> bytes"

type_synonym os_entropy = "string + (nat \<Rightarrow> u8)"

record drbg =
  db_key :: bytes
  db_counter :: bytes

text \<open>The messages are in Chinese: "acquiring entropy failed" and "generating random bytes failed", in UTF-8.\<close>

fun csprng_error_display :: "csprng_error \<Rightarrow> msg" where
  "csprng_error_display (EntropyError e) = Fmt [Lit
      ([CHR 0xE7, CHR 0x86, CHR 0xB5, CHR 0xE6, CHR 0xBA, CHR 0x90, CHR 0xE8, CHR 0x8E, CHR 0xB7, CHR 0xE5,
      CHR 0x8F, CHR 0x96, CHR 0xE5, CHR 0xA4, CHR 0xB1, CHR 0xE8, CHR 0xB4, CHR 0xA5]
       @ '': ''), Str e]"
| "csprng_error_display (GenerationError e) = Fmt [Lit
      ([CHR 0xE9, CHR 0x9A, CHR 0x8F, CHR 0xE6, CHR 0x9C, CHR 0xBA, CHR 0xE5, CHR 0xAD, CHR 0x97, CHR 0xE8,
      CHR 0x8A, CHR 0x82, CHR 0xE7, CHR 0x94, CHR 0x9F, CHR 0xE6, CHR 0x88, CHR 0x90, CHR 0xE5, CHR 0xA4,
      CHR 0xB1, CHR 0xE8, CHR 0xB4, CHR 0xA5]
       @ '': ''), Str e]"

text \<open>\<open>getrandom\<close> into a buffer of \<open>n\<close> bytes.\<close>

definition getrandom :: "os_entropy \<Rightarrow> nat \<Rightarrow> csprng_error + bytes" where
  "getrandom os n = map_err EntropyError (case os of Inl e \<Rightarrow> Inl e | Inr g \<Rightarrow> Inr (fill_bytes g n))"

definition drbg_new :: "os_entropy \<Rightarrow> os_entropy \<Rightarrow> csprng_error + drbg" where
  "drbg_new os1 os2 =
     and_then (getrandom os1 32) (\<lambda>key.
     and_then (getrandom os2 32) (\<lambda>counter.
     Inr \<lparr>db_key = key, db_counter = counter\<rparr>))"

definition sm3_hash_32 :: "sm3_crate \<Rightarrow> bytes \<Rightarrow> bytes" where
  "sm3_hash_32 s3 data = s3_hash s3 data"

text \<open>The counter of a seeded state is eight words of four bytes, the numbers from one, little-endian.\<close>

definition drbg_from_seed :: "sm3_crate \<Rightarrow> bytes \<Rightarrow> drbg" where
  "drbg_from_seed s3 seed =
     \<lparr>db_key = sm3_hash_32 s3 seed, db_counter = concat (map (\<lambda>i. le_bytes 4 (i + 1)) [0..<8])\<rparr>"

definition drbg_hmac :: "sm3_crate \<Rightarrow> drbg \<Rightarrow> bytes \<Rightarrow> bytes" where
  "drbg_hmac s3 st data = s3_hmac s3 (db_key st) data"

definition drbg_update :: "sm3_crate \<Rightarrow> bytes \<Rightarrow> drbg \<Rightarrow> drbg" where
  "drbg_update s3 additional_input st =
     (let st = st\<lparr>db_key := drbg_hmac s3 st (db_counter st @ [0x00] @ additional_input)\<rparr>;
          st = st\<lparr>db_counter := drbg_hmac s3 st (db_key st)\<rparr>;
          st = st\<lparr>db_key := drbg_hmac s3 st (db_counter st @ [0x01] @ additional_input)\<rparr>
      in st\<lparr>db_counter := drbg_hmac s3 st (db_key st)\<rparr>)"

definition drbg_reseed :: "sm3_crate \<Rightarrow> bytes \<Rightarrow> drbg \<Rightarrow> drbg" where
  "drbg_reseed s3 entropy st = drbg_update s3 entropy st"

text \<open>The loop of \<open>increment_counter\<close> over the indices below \<open>n\<close>, from the last one down.\<close>

fun increment_below :: "nat \<Rightarrow> bytes \<Rightarrow> bytes" where
  "increment_below 0 counter = counter"
| "increment_below (Suc i) counter =
     (let counter = counter[i := counter ! i + 1]
      in if counter ! i \<noteq> 0 then counter else increment_below i counter)"

definition increment_counter :: "bytes \<Rightarrow> bytes" where
  "increment_counter counter = increment_below 32 counter"

text \<open>The loop of \<open>generate\<close> while \<open>n\<close> bytes of the output remain.\<close>

function drbg_blocks :: "sm3_crate \<Rightarrow> bytes option \<Rightarrow> nat \<Rightarrow> drbg \<Rightarrow> bytes \<times> drbg" where
  "drbg_blocks s3 additional_input n st =
     (if n = 0 then ([], st)
      else
        let st = st\<lparr>db_counter := increment_counter (db_counter st)\<rparr>;
            hmac_input = db_counter st @ (case additional_input of None \<Rightarrow> [] | Some add \<Rightarrow> add);
            temp = drbg_hmac s3 st hmac_input;
            copy_len = min n 32;
            st = st\<lparr>db_counter := increment_counter (db_counter st)\<rparr>;
            (rest, st) = drbg_blocks s3 additional_input (n - copy_len) st
        in (take copy_len temp @ rest, st))"
  by pat_completeness auto
termination
  by (relation "measure (\<lambda>(s3, add, n, st). n)") auto

declare drbg_blocks.simps [simp del]

definition drbg_generate :: "sm3_crate \<Rightarrow> bytes option \<Rightarrow> nat \<Rightarrow> drbg \<Rightarrow> bytes \<times> drbg" where
  "drbg_generate s3 additional_input n st =
     (let st = (case additional_input of None \<Rightarrow> st | Some add \<Rightarrow> drbg_update s3 add st);
          (output, st) = drbg_blocks s3 additional_input n st
      in (output, drbg_update s3 (case additional_input of None \<Rightarrow> [] | Some add \<Rightarrow> add) st))"

section \<open>The generator with reseeding\<close>

definition DEFAULT_RESEED_INTERVAL :: u64 where
  "DEFAULT_RESEED_INTERVAL = 1024"

record gm_rng =
  gr_state :: drbg
  gr_reseed_interval :: u64
  gr_reseed_countdown :: u64

definition gm_rng_new :: "os_entropy \<Rightarrow> os_entropy \<Rightarrow> csprng_error + gm_rng" where
  "gm_rng_new os1 os2 =
     and_then (drbg_new os1 os2) (\<lambda>st.
     Inr \<lparr>gr_state = st, gr_reseed_interval = DEFAULT_RESEED_INTERVAL, gr_reseed_countdown = DEFAULT_RESEED_INTERVAL\<rparr>)"

definition gm_rng_from_seed :: "sm3_crate \<Rightarrow> bytes \<Rightarrow> gm_rng" where
  "gm_rng_from_seed s3 seed =
     \<lparr>gr_state = drbg_from_seed s3 seed, gr_reseed_interval = 0, gr_reseed_countdown = 0\<rparr>"

definition saturating_pred :: "u64 \<Rightarrow> u64" where
  "saturating_pred n = (if n = 0 then 0 else n - 1)"

definition maybe_periodic_reseed :: "sm3_crate \<Rightarrow> os_entropy \<Rightarrow> gm_rng \<Rightarrow> (csprng_error + unit) \<times> gm_rng" where
  "maybe_periodic_reseed s3 os r =
     (if gr_reseed_interval r = 0 then (Inr (), r)
      else
        let r = r\<lparr>gr_reseed_countdown := saturating_pred (gr_reseed_countdown r)\<rparr>
        in if gr_reseed_countdown r = 0 then
             case getrandom os 32 of
               Inl e \<Rightarrow> (Inl e, r)
             | Inr entropy \<Rightarrow>
                 (Inr (), r\<lparr>gr_state := drbg_reseed s3 entropy (gr_state r), gr_reseed_countdown := gr_reseed_interval r\<rparr>)
           else (Inr (), r))"

definition gm_rng_reseed :: "sm3_crate \<Rightarrow> bytes \<Rightarrow> gm_rng \<Rightarrow> gm_rng" where
  "gm_rng_reseed s3 entropy r = r\<lparr>gr_state := drbg_reseed s3 entropy (gr_state r)\<rparr>"

definition gm_rng_output :: "sm3_crate \<Rightarrow> nat \<Rightarrow> gm_rng \<Rightarrow> (csprng_error + bytes) \<times> gm_rng" where
  "gm_rng_output s3 n r = (let (output, st) = drbg_generate s3 None n (gr_state r) in (Inr output, r\<lparr>gr_state := st\<rparr>))"

definition gm_rng_random_bytes :: "sm3_crate \<Rightarrow> os_entropy \<Rightarrow> nat \<Rightarrow> gm_rng \<Rightarrow> (csprng_error + bytes) \<times> gm_rng" where
  "gm_rng_random_bytes s3 os n r = then_st (maybe_periodic_reseed s3 os r) (\<lambda>_. gm_rng_output s3 n)"

definition random_bytes_with_reseed :: "sm3_crate \<Rightarrow> os_entropy \<Rightarrow> nat \<Rightarrow> gm_rng \<Rightarrow> (csprng_error + bytes) \<times> gm_rng" where
  "random_bytes_with_reseed s3 os n r =
     (case getrandom os 32 of
        Inl e \<Rightarrow> (Inl e, r)
      | Inr entropy \<Rightarrow>
          gm_rng_output s3 n (r\<lparr>gr_state := drbg_reseed s3 entropy (gr_state r), gr_reseed_countdown := gr_reseed_interval r\<rparr>))"

text \<open>\<open>fill\<close> writes into the caller's buffer: the result is the content it leaves there.\<close>

definition gm_rng_fill :: "sm3_crate \<Rightarrow> os_entropy \<Rightarrow> bytes \<Rightarrow> gm_rng \<Rightarrow> ((csprng_error + unit) \<times> bytes) \<times> gm_rng" where
  "gm_rng_fill s3 os dest r =
     (case maybe_periodic_reseed s3 os r of
        (Inl e, r) \<Rightarrow> ((Inl e, dest), r)
      | (Inr _, r) \<Rightarrow>
          (let (output, st) = drbg_generate s3 None (length dest) (gr_state r) in ((Inr (), output), r\<lparr>gr_state := st\<rparr>)))"

section \<open>Bytes of the operating system\<close>

definition os_random :: "os_entropy \<Rightarrow> nat \<Rightarrow> csprng_error + bytes" where
  "os_random os n = getrandom os n"

definition generate_dek :: "os_entropy \<Rightarrow> nat \<Rightarrow> csprng_error + bytes" where
  "generate_dek os n = os_random os n"

definition generate_nonce :: "os_entropy \<Rightarrow> nat \<Rightarrow> csprng_error + bytes" where
  "generate_nonce os n = os_random os n"

definition random_bytes :: "os_entropy \<Rightarrow> nat \<Rightarrow> csprng_error + bytes" where
  "random_bytes os n = os_random os n"

record csprng_diagnostics =
  cd_entropy_available :: bool
  cd_implementation :: string
  cd_standards :: "string list"

definition diagnose :: "os_entropy \<Rightarrow> csprng_diagnostics" where
  "diagnose os =
     \<lparr>cd_entropy_available = is_ok (getrandom os 1), cd_implementation = ''GM/SM3 HMAC_DRBG'',
      cd_standards = [''GM/T 0103-2012'', ''GM/T 0105-2012'']\<rparr>"

section \<open>The self test\<close>

definition DRBG_KAT_EXPECTED :: bytes where
  "DRBG_KAT_EXPECTED =
     [62, 47, 184, 75, 201, 248, 226, 119, 152, 15, 78, 78, 49, 128, 44, 151, 25, 193, 214, 24, 97,
      121, 92, 173, 207, 139, 159, 86, 59, 103, 251, 220]"

text \<open>The argument \<open>os i\<close> is what \<open>getrandom\<close> would yield in the \<open>i\<close>-th of the three requests.\<close>

definition csprng_self_test :: "sm3_crate \<Rightarrow> (nat \<Rightarrow> os_entropy) \<Rightarrow> csprng_error + unit" where
  "csprng_self_test s3 os =
     and_then (fst (gm_rng_random_bytes s3 (os 0) 32 (gm_rng_from_seed s3 (replicate 32 0x01)))) (\<lambda>first.
     if first \<noteq> DRBG_KAT_EXPECTED then Inl (GenerationError ''GM DRBG KAT self-test: output mismatch'')
     else and_then (fst (gm_rng_random_bytes s3 (os 1) 32 (gm_rng_from_seed s3 (replicate 32 0x01)))) (\<lambda>second.
     if first \<noteq> second then Inl (GenerationError ''GM DRBG KAT self-test: non-deterministic for fixed seed'')
     else and_then (fst (gm_rng_random_bytes s3 (os 2) 32 (gm_rng_from_seed s3 (replicate 32 0x02)))) (\<lambda>other.
     if other = first then Inl (GenerationError ''GM DRBG KAT self-test: seed change produced identical output'')
     else Inr ())))"

text \<open>In \<open>verify\<close> the diagnosis is the first use of the operating system, the self test makes three
  requests, and the two draws come last.\<close>

definition csprng_verify :: "sm3_crate \<Rightarrow> (nat \<Rightarrow> os_entropy) \<Rightarrow> csprng_error + unit" where
  "csprng_verify s3 os =
     (let diag = diagnose (os 0)
      in if \<not> cd_entropy_available diag then Inl (EntropyError ''OS entropy source unavailable'')
      else and_then (csprng_self_test s3 (\<lambda>i. os (i + 1))) (\<lambda>_.
        and_then (random_bytes (os 4) 32) (\<lambda>bytes1.
        and_then (random_bytes (os 5) 32) (\<lambda>bytes2.
        if bytes1 = bytes2 then Inl (GenerationError ''CSPRNG not producing random values'')
        else Inr ()))))"

section \<open>The counter and the stream\<close>

lemma length_increment_below [simp]: "length (increment_below n c) = length c"
  by (induction n c rule: increment_below.induct) (simp_all add: Let_def)

lemma increment_below_above: "n \<le> j \<Longrightarrow> increment_below n c ! j = c ! j"
proof (induction n c rule: increment_below.induct)
  case (2 i c)
  then show ?case by (auto simp: Let_def)
qed simp

lemma unat_byte_Suc: "unat (b + 1 :: u8) = (unat b + 1) mod 256"
  by (simp add: unat_word_ariths)

lemma byte_wrap: "(b + 1 :: u8) = 0 \<longleftrightarrow> unat b = 255"
proof -
  have "(b + 1 = 0) = ((unat b + 1) mod 256 = 0)"
    by (metis unat_byte_Suc unat_eq_zero)
  also have "\<dots> = (unat b = 255)"
    using unat_byte [of b] by presburger
  finally show ?thesis .
qed

lemma from_be_increment_below:
  "n \<le> length c \<Longrightarrow> from_be (take n (increment_below n c)) = (from_be (take n c) + 1) mod 256 ^ n"
proof (induction n c rule: increment_below.induct)
  case (2 i c)
  have t: "take (Suc i) c = take i c @ [c ! i]"
    using 2(2) by (simp add: take_Suc_conv_app_nth)
  have less: "from_be (take i c) < 256 ^ i"
    using from_be_less [of "take i c"] 2(2) by simp
  show ?case
  proof (cases "c ! i + 1 = 0")
    case True
    let ?d = "increment_below i (c[i := 0])"
    have u: "unat (c ! i) = 255"
      using True by (simp add: byte_wrap)
    have "from_be (take i ?d) = (from_be (take i c) + 1) mod 256 ^ i"
      using 2 True by (simp add: Let_def)
    moreover have "take (Suc i) ?d = take i ?d @ [0]"
      using 2(2) by (simp add: take_Suc_conv_app_nth increment_below_above)
    ultimately have "from_be (take (Suc i) ?d) = (from_be (take i c) + 1) mod 256 ^ i * 256"
      by simp
    also have "\<dots> = (from_be (take i c) * 256 + 256) mod (256 ^ i * 256)"
      unfolding mod_mult_mult2 [symmetric] by (simp only: distrib_right mult_1)
    also have "\<dots> = (from_be (take (Suc i) c) + 1) mod 256 ^ Suc i"
      by (simp add: t u mult.commute add.commute)
    finally show ?thesis
      using True 2(2) by (simp add: Let_def)
  next
    case False
    then have "unat (c ! i + 1) = unat (c ! i) + 1"
      using unat_byte [of "c ! i"] by (simp add: unat_byte_Suc byte_wrap)
    moreover have "from_be (take i c) * 256 + unat (c ! i) + 1 < 256 ^ i * 256"
    proof -
      have "unat (c ! i) + 1 < 256"
        using False unat_byte [of "c ! i"] by (simp add: byte_wrap)
      moreover have "Suc (from_be (take i c)) * 256 \<le> 256 ^ i * 256"
        using less by (intro mult_le_mono1) simp
      ultimately show ?thesis by simp
    qed
    ultimately show ?thesis
      using 2(2) False by (simp add: t Let_def take_Suc_conv_app_nth)
  qed
qed simp

lemma be_bytes_mod: "be_bytes n (x mod 256 ^ n) = be_bytes n x"
  by (metis be_bytes_from_be from_be_bytes length_be_bytes)

lemma increment_counter_be: "increment_counter (be_bytes 32 x) = be_bytes 32 (x + 1)"
proof -
  let ?c = "increment_counter (be_bytes 32 x)"
  have "from_be ?c = (x mod 256 ^ 32 + 1) mod 256 ^ 32"
    using from_be_increment_below [of 32 "be_bytes 32 x"] by (simp add: increment_counter_def from_be_bytes)
  also have "\<dots> = (x + 1) mod 256 ^ 32"
    by (simp add: mod_Suc_eq)
  finally have "be_bytes 32 (from_be ?c) = be_bytes 32 (x + 1)"
    by (simp only: be_bytes_mod)
  then show ?thesis
    using be_bytes_from_be [of ?c] by (simp add: increment_counter_def)
qed

definition sm3_works :: "sm3_crate \<Rightarrow> bool" where
  "sm3_works s3 \<longleftrightarrow> (\<forall>d. length (s3_hash s3 d) = 32) \<and> (\<forall>k d. length (s3_hmac s3 k d) = 32)"

text \<open>The reference: byte \<open>j\<close> of the stream of a key from a counter value.\<close>

definition drbg_stream :: "sm3_crate \<Rightarrow> bytes \<Rightarrow> nat \<Rightarrow> nat \<Rightarrow> u8" where
  "drbg_stream s3 key x j = s3_hmac s3 key (be_bytes 32 (x + 2 * (j div 32) + 1)) ! (j mod 32)"

lemma drbg_stream_next: "drbg_stream s3 key (x + 2) j = drbg_stream s3 key x (j + 32)"
proof -
  have "(j + 32) div 32 = Suc (j div 32)" by simp
  then show ?thesis by (simp only: drbg_stream_def mod_add_self2) simp
qed

lemma drbg_stream_block:
  assumes "sm3_works s3" "m \<le> 32"
  shows "map (drbg_stream s3 key x) [0..<m] = take m (s3_hmac s3 key (be_bytes 32 (x + 1)))"
  using assms by (intro nth_equalityI) (auto simp: drbg_stream_def sm3_works_def)

lemma upt_block: "[0..<m + n] = [0..<m] @ map (\<lambda>j. j + m) [0..<n]" for m n :: nat
  by (simp add: upt_add_eq_append [of 0 m n] map_add_upt add.commute)

lemma drbg_blocks_stream:
  assumes "sm3_works s3"
  shows "drbg_blocks s3 None n \<lparr>db_key = k, db_counter = be_bytes 32 x\<rparr>
    = (map (drbg_stream s3 k x) [0..<n], \<lparr>db_key = k, db_counter = be_bytes 32 (x + 2 * ((n + 31) div 32))\<rparr>)"
proof (induction n arbitrary: x rule: less_induct)
  case (less n)
  show ?case
  proof (cases "n = 0")
    case True
    then show ?thesis by (simp add: drbg_blocks.simps)
  next
    case False
    let ?m = "min n 32"
    have n: "n = ?m + (n - ?m)"
      by simp
    have "map (drbg_stream s3 k x) [0..<?m + (n - ?m)]
        = take ?m (s3_hmac s3 k (be_bytes 32 (x + 1))) @ map (drbg_stream s3 k (x + 2)) [0..<n - ?m]"
    proof -
      have "drbg_stream s3 k x (j + ?m) = drbg_stream s3 k (x + 2) j" if "j < n - ?m" for j
      proof -
        have "?m = 32" using that by auto
        then show ?thesis by (simp only: drbg_stream_next)
      qed
      then have "map (\<lambda>j. drbg_stream s3 k x (j + ?m)) [0..<n - ?m] = map (drbg_stream s3 k (x + 2)) [0..<n - ?m]"
        by (intro map_cong refl) simp_all
      then show ?thesis
        unfolding upt_block by (simp add: drbg_stream_block [OF assms] comp_def del: upt_Suc)
    qed
    moreover have e: "x + 2 + 2 * ((n - ?m + 31) div 32) = x + 2 * ((n + 31) div 32)"
    proof (cases "n \<le> 32")
      case True
      then have "(n + 31) div 32 = 1"
        using False by (intro div_nat_eqI) simp_all
      with True show ?thesis by simp
    next
      case False
      then have "n + 31 = (n - 32 + 31) + 32"
        by simp
      then have "(n + 31) div 32 = (n - 32 + 31 + 32) div 32"
        by (rule arg_cong)
      also have "\<dots> = (n - 32 + 31) div 32 + 1"
        by (rule div_add_self2) simp
      finally have "Suc ((n - 32 + 31) div 32) = (n + 31) div 32"
        by simp
      with False show ?thesis by simp
    qed
    moreover have "drbg_blocks s3 None (n - ?m) \<lparr>db_key = k, db_counter = be_bytes 32 (x + 2)\<rparr>
       = (map (drbg_stream s3 k (x + 2)) [0..<n - ?m], \<lparr>db_key = k, db_counter = be_bytes 32 (x + 2 + 2 * ((n - ?m + 31) div 32))\<rparr>)"
      using False by (intro less.IH) simp
    ultimately have r: "(let (rest, st) = drbg_blocks s3 None (n - ?m) \<lparr>db_key = k, db_counter = be_bytes 32 (x + 2)\<rparr>
          in (take ?m (s3_hmac s3 k (be_bytes 32 (x + 1))) @ rest, st))
       = (map (drbg_stream s3 k x) [0..<n], \<lparr>db_key = k, db_counter = be_bytes 32 (x + 2 * ((n + 31) div 32))\<rparr>)"
      using n by (metis (no_types, lifting) Let_def prod.case)
    have "drbg_blocks s3 None n \<lparr>db_key = k, db_counter = be_bytes 32 x\<rparr>
       = (let (rest, st) = drbg_blocks s3 None (n - ?m) \<lparr>db_key = k, db_counter = be_bytes 32 (x + 2)\<rparr>
          in (take ?m (s3_hmac s3 k (be_bytes 32 (x + 1))) @ rest, st))"
      using False by (subst drbg_blocks.simps) (simp add: Let_def increment_counter_be drbg_hmac_def)
    also note r
    finally show ?thesis .
  qed
qed

lemma drbg_generate_stream:
  assumes "sm3_works s3" "length (db_counter st) = 32"
  shows "drbg_generate s3 None n st
    = (map (drbg_stream s3 (db_key st) (from_be (db_counter st))) [0..<n],
       drbg_update s3 [] \<lparr>db_key = db_key st, db_counter = be_bytes 32 (from_be (db_counter st) + 2 * ((n + 31) div 32))\<rparr>)"
proof -
  have "st = \<lparr>db_key = db_key st, db_counter = be_bytes 32 (from_be (db_counter st))\<rparr>"
    using be_bytes_from_be [of "db_counter st"] assms(2) by simp
  then show ?thesis
    using drbg_blocks_stream [OF assms(1), of n "db_key st" "from_be (db_counter st)"] by (simp add: drbg_generate_def)
qed

lemma from_be_be_bytes_32: "length c = 32 \<Longrightarrow> be_bytes 32 (from_be c) = c"
  using be_bytes_from_be [of c] by simp

text \<open>
  C37. The generator is HMAC-SM3 in counter mode: byte \<open>j\<close> of a request is byte \<open>j mod 32\<close> of the HMAC of
  the counter advanced by \<open>2 (j div 32) + 1\<close> modulo \<open>2^256\<close>, so a request of \<open>n\<close> bytes yields exactly \<open>n\<close>,
  a shorter request in the same state a prefix of it, and no counter value enters two blocks.
\<close>

theorem drbg_is_counter_mode:
  assumes "sm3_works s3" "length (db_counter st) = 32" "n \<le> 2 ^ 255" "m \<le> n"
  shows "fst (drbg_generate s3 None n st)
      = map (\<lambda>j. s3_hmac s3 (db_key st) (be_bytes 32 (from_be (db_counter st) + 2 * (j div 32) + 1)) ! (j mod 32)) [0..<n]
    \<and> fst (drbg_generate s3 None m st) = take m (fst (drbg_generate s3 None n st))
    \<and> (\<forall>i j. i < j \<longrightarrow> 32 * j < n \<longrightarrow>
        be_bytes 32 (from_be (db_counter st) + 2 * i + 1) \<noteq> be_bytes 32 (from_be (db_counter st) + 2 * j + 1))"
proof (intro conjI allI impI)
  show "fst (drbg_generate s3 None n st)
      = map (\<lambda>j. s3_hmac s3 (db_key st) (be_bytes 32 (from_be (db_counter st) + 2 * (j div 32) + 1)) ! (j mod 32)) [0..<n]"
    by (simp add: drbg_generate_stream [OF assms(1,2)] drbg_stream_def del: upt_Suc)
  show "fst (drbg_generate s3 None m st) = take m (fst (drbg_generate s3 None n st))"
    using assms(4) by (simp add: drbg_generate_stream [OF assms(1,2)] take_map)
next
  fix i j assume ij: "i < j" "32 * j < n"
  let ?x = "from_be (db_counter st)"
  have j: "2 * j + 1 < (256 :: nat) ^ 32"
  proof -
    have "2 * j + 1 < (2 :: nat) ^ 255"
      using ij assms(3) by linarith
    also have "(2 :: nat) ^ 255 \<le> 256 ^ 32"
      by simp
    finally show ?thesis .
  qed
  show "be_bytes 32 (?x + 2 * i + 1) \<noteq> be_bytes 32 (?x + 2 * j + 1)"
  proof
    assume "be_bytes 32 (?x + 2 * i + 1) = be_bytes 32 (?x + 2 * j + 1)"
    then have "(?x + (2 * i + 1)) mod 256 ^ 32 = (?x + (2 * j + 1)) mod 256 ^ 32"
      by (metis from_be_bytes add.assoc)
    then have "(256 :: nat) ^ 32 dvd (?x + (2 * j + 1)) - (?x + (2 * i + 1))"
      using ij(1) by (intro mod_eq_dvd_iff_nat [THEN iffD1]) simp_all
    then have "(256 :: nat) ^ 32 dvd 2 * (j - i)"
      by (simp add: diff_mult_distrib2)
    then have "(256 :: nat) ^ 32 \<le> 2 * (j - i)"
      using ij(1) by (intro dvd_imp_le) simp_all
    with j ij(1) show False by linarith
  qed
qed

lemma drbg_update_eq:
  "drbg_update s3 a st =
     (let k1 = s3_hmac s3 (db_key st) (db_counter st @ 0x00 # a); k2 = s3_hmac s3 k1 (s3_hmac s3 k1 k1 @ 0x01 # a)
      in \<lparr>db_key = k2, db_counter = s3_hmac s3 k2 k2\<rparr>)"
  by (simp add: drbg_update_def drbg_hmac_def Let_def)

text \<open>
  The counter carries no entropy of its own: after every update it is the HMAC of the key under the
  key, so two generators that agree on the key after a request agree on every later request.
\<close>

theorem counter_follows_key:
  assumes "drbg_generate s3 add n st = (out, st')" "drbg_generate s3 add' m sv = (out', sv')" "db_key st' = db_key sv'"
  shows "db_counter st' = s3_hmac s3 (db_key st') (db_key st') \<and> drbg_generate s3 extra k st' = drbg_generate s3 extra k sv'"
proof -
  have "db_counter st' = s3_hmac s3 (db_key st') (db_key st')" "db_counter sv' = s3_hmac s3 (db_key sv') (db_key sv')"
    using assms(1,2) by (auto simp: drbg_generate_def drbg_update_eq Let_def split: prod.splits option.splits)
  with assms(3) show ?thesis by (metis drbg.surjective old.unit.exhaust)
qed

section \<open>Requests in sequence\<close>

datatype rng_call = RandomBytes nat | WithReseed nat | Fill bytes | Reseed bytes

fun rng_op :: "sm3_crate \<Rightarrow> rng_call \<times> os_entropy \<Rightarrow> gm_rng \<Rightarrow> gm_rng" where
  "rng_op s3 (RandomBytes n, os) r = snd (gm_rng_random_bytes s3 os n r)"
| "rng_op s3 (WithReseed n, os) r = snd (random_bytes_with_reseed s3 os n r)"
| "rng_op s3 (Fill dest, os) r = snd (gm_rng_fill s3 os dest r)"
| "rng_op s3 (Reseed entropy, os) r = gm_rng_reseed s3 entropy r"

fun rng_answer :: "sm3_crate \<Rightarrow> rng_call \<times> os_entropy \<Rightarrow> gm_rng \<Rightarrow> (csprng_error + bytes) list" where
  "rng_answer s3 (RandomBytes n, os) r = [fst (gm_rng_random_bytes s3 os n r)]"
| "rng_answer s3 (WithReseed n, os) r = [fst (random_bytes_with_reseed s3 os n r)]"
| "rng_answer s3 (Fill dest, os) r = [(case fst (gm_rng_fill s3 os dest r) of (Inl e, _) \<Rightarrow> Inl e | (Inr _, dest) \<Rightarrow> Inr dest)]"
| "rng_answer s3 (Reseed entropy, os) r = []"

fun rng_answers :: "sm3_crate \<Rightarrow> (rng_call \<times> os_entropy) list \<Rightarrow> gm_rng \<Rightarrow> (csprng_error + bytes) list" where
  "rng_answers s3 [] r = []"
| "rng_answers s3 (c # cs) r = rng_answer s3 c r @ rng_answers s3 cs (rng_op s3 c r)"

text \<open>A generator fed by the operating system: its interval stands and its countdown never exceeds it.\<close>

definition fed :: "gm_rng \<Rightarrow> bool" where
  "fed r \<longleftrightarrow> gr_reseed_interval r = DEFAULT_RESEED_INTERVAL \<and> gr_reseed_countdown r \<le> DEFAULT_RESEED_INTERVAL"

lemma unat_saturating_pred: "unat (saturating_pred n) = unat n - 1"
  by (simp add: saturating_pred_def unat_minus_one)

lemma saturating_pred_le: "n \<le> k \<Longrightarrow> saturating_pred n \<le> k"
  by (simp add: word_le_nat_alt unat_saturating_pred)

lemma maybe_reseed_fed: "fed r \<Longrightarrow> fed (snd (maybe_periodic_reseed s3 os r))"
  by (auto simp: fed_def maybe_periodic_reseed_def Let_def saturating_pred_le split: sum.splits)

lemma fed_state [simp]: "fed (r\<lparr>gr_state := st\<rparr>) = fed r"
  by (simp add: fed_def)

lemma output_fed: "fed r \<Longrightarrow> fed (snd (gm_rng_output s3 n r))"
  by (simp add: gm_rng_output_def split_def Let_def)

lemma rng_op_fed: "fed r \<Longrightarrow> fed (rng_op s3 c r)"
proof (induction s3 c r rule: rng_op.induct)
  case (1 s3 n os r)
  then show ?case
    using maybe_reseed_fed [OF 1, of s3 os]
    by (cases "maybe_periodic_reseed s3 os r"; cases "fst (maybe_periodic_reseed s3 os r)")
       (auto simp: gm_rng_random_bytes_def output_fed)
next
  case (2 s3 n os r)
  then show ?case
    by (auto simp: random_bytes_with_reseed_def split: sum.splits intro!: output_fed) (simp add: fed_def)
next
  case (3 s3 dest os r)
  then show ?case
    using maybe_reseed_fed [OF 3, of s3 os]
    by (auto simp: gm_rng_fill_def split: prod.splits sum.splits)
next
  case (4 s3 entropy os r)
  then show ?case by (simp add: gm_rng_reseed_def)
qed

interpretation rng_run: stateful "rng_op s3" "\<lambda>_. True" fed for s3
  by unfold_locales (rule rng_op_fed)

lemma rng_new_fed: "gm_rng_new os1 os2 = Inr r \<Longrightarrow> fed r"
  by (auto simp: gm_rng_new_def and_then_Inr fed_def)

lemma no_entropy_answer:
  assumes "gr_reseed_interval r \<noteq> 0" "\<not> is_ok os"
  shows "gr_reseed_interval (rng_op s3 (c, os) r) = gr_reseed_interval r
    \<and> length (filter is_ok (rng_answer s3 (c, os) r)) + (unat (gr_reseed_countdown (rng_op s3 (c, os) r)) - 1)
        \<le> unat (gr_reseed_countdown r) - 1"
proof -
  let ?r = "r\<lparr>gr_reseed_countdown := saturating_pred (gr_reseed_countdown r)\<rparr>"
  obtain e where e: "getrandom os n = Inl e" for n
    using assms(2) by (cases os) (auto simp: getrandom_def)
  have m: "maybe_periodic_reseed s3 os r = (if saturating_pred (gr_reseed_countdown r) = 0 then (Inl e, ?r) else (Inr (), ?r))"
    using assms(1) by (simp add: maybe_periodic_reseed_def Let_def e)
  note p = unat_saturating_pred [of "gr_reseed_countdown r"]
  have z: "(saturating_pred (gr_reseed_countdown r) = 0) = (unat (gr_reseed_countdown r) - 1 = 0)"
    by (metis p unat_eq_zero)
  show ?thesis
    by (cases c)
       (auto simp: gm_rng_random_bytes_def random_bytes_with_reseed_def gm_rng_fill_def gm_rng_reseed_def
          gm_rng_output_def m p z e Let_def split: prod.splits if_splits)
qed

text \<open>
  A generator fed by the operating system does not run on without it: once \<open>getrandom\<close> fails, at
  most 1023 further requests succeed, whatever was asked before and however the calls are mixed, and
  the countdown never exceeds the interval.
\<close>

theorem output_needs_entropy:
  assumes "gm_rng_new os1 os2 = Inr r0" "r = run_ops (rng_op s3) before r0" "\<forall>(c, os) \<in> set calls. \<not> is_ok os"
  shows "length (filter is_ok (rng_answers s3 calls r)) \<le> 1023 \<and> gr_reseed_countdown r \<le> gr_reseed_interval r"
proof -
  have f: "fed r"
    using rng_run.run_inv [of before r0] rng_new_fed [OF assms(1)] by (simp add: assms(2) list_all_iff)
  have "gr_reseed_interval r \<noteq> 0 \<Longrightarrow> \<forall>(c, os) \<in> set calls. \<not> is_ok os
    \<Longrightarrow> length (filter is_ok (rng_answers s3 calls r)) \<le> unat (gr_reseed_countdown r) - 1" for r
  proof (induction calls arbitrary: r)
    case (Cons x calls)
    obtain c os where x: "x = (c, os)" by (cases x)
    have "length (filter is_ok (rng_answers s3 calls (rng_op s3 x r))) \<le> unat (gr_reseed_countdown (rng_op s3 x r)) - 1"
      using Cons.prems no_entropy_answer [of r os s3 c] by (intro Cons.IH) (auto simp: x)
    then show ?case
      using no_entropy_answer [of r os s3 c] Cons.prems by (auto simp: x)
  qed simp
  from this [of r] have "length (filter is_ok (rng_answers s3 calls r)) \<le> unat (gr_reseed_countdown r) - 1"
    using f assms(3) by (simp add: fed_def DEFAULT_RESEED_INTERVAL_def)
  moreover have "unat (gr_reseed_countdown r) \<le> 1024"
    using f by (simp add: fed_def DEFAULT_RESEED_INTERVAL_def word_le_nat_alt)
  ultimately show ?thesis
    using f by (simp add: fed_def)
qed

lemma seeded_answer:
  assumes "gr_reseed_interval r = 0" "\<forall>n. c \<noteq> WithReseed n"
  shows "rng_answer s3 (c, os) r = rng_answer s3 (c, os') r \<and> rng_op s3 (c, os) r = rng_op s3 (c, os') r
    \<and> gr_reseed_interval (rng_op s3 (c, os) r) = 0 \<and> list_all is_ok (rng_answer s3 (c, os) r)"
  using assms
  by (cases c)
     (auto simp: gm_rng_random_bytes_def gm_rng_fill_def maybe_periodic_reseed_def gm_rng_output_def gm_rng_reseed_def
        Let_def split: prod.splits)

text \<open>
  A seeded generator is a function of its seed: the same calls give the same answers, all of them
  successful, whatever the operating system would have yielded, as long as no call asks for its entropy.
\<close>

theorem seeded_stream_fixed:
  assumes "map fst calls = map fst calls'" "\<forall>(c, os) \<in> set calls. \<forall>n. c \<noteq> WithReseed n"
  shows "rng_answers s3 calls (gm_rng_from_seed s3 seed) = rng_answers s3 calls' (gm_rng_from_seed s3 seed)
    \<and> list_all is_ok (rng_answers s3 calls (gm_rng_from_seed s3 seed))"
proof -
  have all: "gr_reseed_interval r = 0 \<Longrightarrow>
    rng_answers s3 calls r = rng_answers s3 calls' r \<and> list_all is_ok (rng_answers s3 calls r)" for r
    using assms
  proof (induction calls calls' arbitrary: r rule: list_induct2')
    case (4 x xs y ys)
    obtain c os os' where xy: "x = (c, os)" "y = (c, os')"
      using 4(3) by (cases x; cases y) auto
    have c: "\<forall>n. c \<noteq> WithReseed n"
      using 4(4) by (auto simp: xy)
    have "rng_answers s3 xs (rng_op s3 x r) = rng_answers s3 ys (rng_op s3 x r) \<and> list_all is_ok (rng_answers s3 xs (rng_op s3 x r))"
      using 4 seeded_answer [OF 4(2) c, of s3 os os] by (intro 4(1)) (auto simp: xy)
    then show ?case
      using seeded_answer [OF 4(2) c, of s3 os os'] by (auto simp: xy)
  qed simp_all
  show ?thesis
    by (rule all) (simp add: gm_rng_from_seed_def)
qed

text \<open>
  What the self test decides, for every behaviour of the operating system: it passes exactly when
  the block of the first seed is the frozen vector and the second seed does not give it too; its check
  for determinism can never fail.
\<close>

theorem self_test_decides:
  "csprng_self_test s3 os =
     (let first = fst (drbg_generate s3 None 32 (drbg_from_seed s3 (replicate 32 1)));
          other = fst (drbg_generate s3 None 32 (drbg_from_seed s3 (replicate 32 2)))
      in if first \<noteq> DRBG_KAT_EXPECTED then Inl (GenerationError ''GM DRBG KAT self-test: output mismatch'')
         else if other = first then Inl (GenerationError ''GM DRBG KAT self-test: seed change produced identical output'')
         else Inr ())"
proof -
  have "fst (gm_rng_random_bytes s3 o' 32 (gm_rng_from_seed s3 seed)) = Inr (fst (drbg_generate s3 None 32 (drbg_from_seed s3 seed)))"
    for o' seed
    by (simp add: gm_rng_random_bytes_def maybe_periodic_reseed_def gm_rng_from_seed_def gm_rng_output_def split_def Let_def)
  then show ?thesis
    by (simp add: csprng_self_test_def Let_def)
qed

section \<open>A small instance\<close>

definition mini_sm3 :: sm3_crate where
  "mini_sm3 = \<lparr>s3_hash = (\<lambda>d. be_bytes 32 (from_be d)), s3_hmac = (\<lambda>k d. be_bytes 32 (from_be k + from_be d))\<rparr>"

lemma mini_drbg_sm3_works: "sm3_works mini_sm3"
  by (simp add: sm3_works_def mini_sm3_def)

definition mini_drbg :: drbg where
  "mini_drbg = \<lparr>db_key = replicate 32 0, db_counter = replicate 32 0\<rparr>"

theorem drbg_is_counter_mode_witness:
  "fst (drbg_generate mini_sm3 None 40 mini_drbg)
      = map (\<lambda>j. s3_hmac mini_sm3 (db_key mini_drbg) (be_bytes 32 (from_be (db_counter mini_drbg) + 2 * (j div 32) + 1)) ! (j mod 32)) [0..<40]"
  by (rule conjunct1 [OF drbg_is_counter_mode [OF mini_drbg_sm3_works, where m = 40]]) (simp_all add: mini_drbg_def)

theorem counter_follows_key_witness:
  "db_counter (snd (drbg_generate mini_sm3 None 4 mini_drbg))
    = s3_hmac mini_sm3 (db_key (snd (drbg_generate mini_sm3 None 4 mini_drbg))) (db_key (snd (drbg_generate mini_sm3 None 4 mini_drbg)))"
  by (rule conjunct1 [OF counter_follows_key [where add = None and add' = None and n = 4 and m = 4 and st = mini_drbg and sv = mini_drbg,
      OF prod.collapse [symmetric] prod.collapse [symmetric]]]) (rule refl)

theorem output_needs_entropy_witness:
  "\<exists>r. gm_rng_new (Inr (\<lambda>_. 1)) (Inr (\<lambda>_. 2)) = Inr r
    \<and> length (filter is_ok (rng_answers mini_sm3 [(RandomBytes 4, Inl ''no entropy''), (WithReseed 4, Inl ''no entropy'')] r)) \<le> 1023"
proof -
  let ?r = "\<lparr>gr_state = \<lparr>db_key = replicate 32 1, db_counter = replicate 32 2\<rparr>, gr_reseed_interval = DEFAULT_RESEED_INTERVAL,
    gr_reseed_countdown = DEFAULT_RESEED_INTERVAL\<rparr>"
  have n: "gm_rng_new (Inr (\<lambda>_. 1)) (Inr (\<lambda>_. 2)) = Inr ?r"
    by (simp add: gm_rng_new_def drbg_new_def getrandom_def fill_bytes_def map_replicate_trivial map_replicate_const del: upt_Suc)
  show ?thesis
    using n output_needs_entropy [OF n, of ?r mini_sm3 "[]" "[(RandomBytes 4, Inl ''no entropy''), (WithReseed 4, Inl ''no entropy'')]"]
    by simp
qed

theorem seeded_stream_fixed_witness:
  "rng_answers mini_sm3 [(RandomBytes 4, Inl ''no entropy''), (Fill [0, 0], Inl ''no entropy'')] (gm_rng_from_seed mini_sm3 [1])
    = rng_answers mini_sm3 [(RandomBytes 4, Inr (\<lambda>_. 1)), (Fill [0, 0], Inr (\<lambda>_. 2))] (gm_rng_from_seed mini_sm3 [1])"
  by (rule conjunct1 [OF seeded_stream_fixed]) auto

end
