(* ===== verification/Secret_Rotation.thy ===== *)
theory Secret_Rotation
  imports Csprng
begin

text \<open>
  The rotation of versioned secrets, \<^verbatim>\<open>crates/kms-core/src/secret_rotation.rs\<close>. Readings of the clock,
  fresh identifiers and the bytes of the operating system are arguments. The range of durations and of
  points in time belongs to the crate \<open>chrono\<close>: leaving it is a panic.
\<close>

section \<open>State\<close>

datatype secret_type = DatabaseCredential | SecretApiKey | TlsCertificate | GenericSecret

record secret_version =
  sv_version :: u32
  sv_secret :: bytes
  sv_created_at :: time
  sv_expires_at :: time
  sv_active :: bool

record secret_config =
  sc_secret_type :: secret_type
  sc_ttl_seconds :: u64
  sc_grace_period_seconds :: u64
  sc_keep_versions :: u32
  sc_pre_validate :: "string option"
  sc_post_validate :: "string option"

definition secret_config_default :: secret_config where
  "secret_config_default = \<lparr>sc_secret_type = GenericSecret, sc_ttl_seconds = 86400, sc_grace_period_seconds = 3600,
     sc_keep_versions = 3, sc_pre_validate = None, sc_post_validate = None\<rparr>"

datatype secret_rotation_state =
  RotIdle | RotPending | RotRotating | RotValidating | RotRollingBack | RotCompleted | RotFailed

record secret_rotation =
  srt_id :: uuid
  srt_secret_name :: string
  srt_tenant_id :: string
  srt_state :: secret_rotation_state
  srt_old_version :: "u32 option"
  srt_new_version :: "u32 option"
  srt_error :: "string option"
  srt_started_at :: time
  srt_completed_at :: "time option"

record secret_manager =
  sm_secrets :: "string \<rightharpoonup> secret_version list"
  sm_configs :: "string \<rightharpoonup> secret_config"
  sm_rotations :: "secret_rotation list"

text \<open>The ranges of \<open>Duration\<close>, in seconds, and of \<open>DateTime\<close>.\<close>

record chrono_range =
  cr_seconds :: "int \<Rightarrow> bool"
  cr_time :: "time \<Rightarrow> bool"

definition duration_seconds :: "chrono_range \<Rightarrow> u64 \<Rightarrow> kms_error + int" where
  "duration_seconds ch n =
     (if cr_seconds ch (sint n) then Inr (secs (sint n)) else Inl (Panicked ''TimeDelta::seconds out of bounds''))"

definition in_time_range :: "chrono_range \<Rightarrow> time \<Rightarrow> kms_error + time" where
  "in_time_range ch t = (if cr_time ch t then Inr t else Inl (Panicked ''DateTime overflowed''))"

section \<open>Operations\<close>

definition secret_manager_new :: secret_manager where
  "secret_manager_new = \<lparr>sm_secrets = Map.empty, sm_configs = Map.empty, sm_rotations = []\<rparr>"

definition sv_expired :: "time \<Rightarrow> secret_version \<Rightarrow> bool" where
  "sv_expired now v \<longleftrightarrow> sv_expires_at v < now"

definition register_secret ::
  "chrono_range \<Rightarrow> time \<Rightarrow> string \<Rightarrow> string \<Rightarrow> bytes \<Rightarrow> secret_config \<Rightarrow> secret_manager \<Rightarrow> (kms_error + u32) \<times> secret_manager" where
  "register_secret ch now name tenant_id initial_secret config m =
     then_st (duration_seconds ch (sc_ttl_seconds config), m) (\<lambda>ttl m.
     then_st (in_time_range ch (now + ttl), m) (\<lambda>expires_at m.
       let version = \<lparr>sv_version = 1, sv_secret = initial_secret, sv_created_at = now, sv_expires_at = expires_at, sv_active = True\<rparr>
       in (Inr 1, m\<lparr>sm_secrets := (sm_secrets m)(name \<mapsto> [version]), sm_configs := (sm_configs m)(name \<mapsto> config)\<rparr>)))"

definition get_active_secret :: "time \<Rightarrow> string \<Rightarrow> secret_manager \<Rightarrow> secret_version option" where
  "get_active_secret now name m =
     (case sm_secrets m name of
        None \<Rightarrow> None
      | Some versions \<Rightarrow> find (\<lambda>v. sv_active v \<and> \<not> sv_expired now v) versions)"

definition secret_needs_rotation :: "chrono_range \<Rightarrow> time \<Rightarrow> time \<Rightarrow> string \<Rightarrow> secret_manager \<Rightarrow> kms_error + bool" where
  "secret_needs_rotation ch now now2 name m =
     (case (sm_configs m name, get_active_secret now name m) of
        (Some config, Some active) \<Rightarrow>
          and_then (duration_seconds ch (sc_grace_period_seconds config)) (\<lambda>grace.
          and_then (in_time_range ch (sv_expires_at active - grace)) (\<lambda>grace_start.
          Inr (grace_start \<le> now2)))
      | _ \<Rightarrow> Inr True)"

text \<open>The loop that drops versions from the end while there are more than the configured number.\<close>

fun trim_versions :: "nat \<Rightarrow> secret_version list \<Rightarrow> secret_version list" where
  "trim_versions keep versions = (if keep < length versions then trim_versions keep (butlast versions) else versions)"

declare trim_versions.simps [simp del]

definition deactivate_versions :: "secret_version list \<Rightarrow> secret_version list" where
  "deactivate_versions = map (\<lambda>v. v\<lparr>sv_active := False\<rparr>)"

text \<open>The argument \<open>now0\<close> is the clock while the active version is looked up.\<close>

definition rotate_secret ::
  "chrono_range \<Rightarrow> time \<Rightarrow> os_entropy \<Rightarrow> time \<Rightarrow> uuid \<Rightarrow> time \<Rightarrow> string \<Rightarrow> secret_manager
    \<Rightarrow> (kms_error + secret_rotation) \<times> secret_manager" where
  "rotate_secret ch now0 os now fresh completed name m =
     (case sm_configs m name of
        None \<Rightarrow> (Inl (Internal (Fmt [Lit ''Secret '', Str name, Lit '' not found''])), m)
      | Some config \<Rightarrow>
          let old_version = map_option sv_version (get_active_secret now0 name m);
              m = (case sm_secrets m name of
                     None \<Rightarrow> m
                   | Some versions \<Rightarrow> m\<lparr>sm_secrets := (sm_secrets m)(name \<mapsto> deactivate_versions versions)\<rparr>)
          in
          then_st (map_err (\<lambda>e. Internal (Fmt [Lit ''CSPRNG failure: '', csprng_error_display e])) (random_bytes os 32), m) (\<lambda>new_secret m.
          then_st (duration_seconds ch (sc_ttl_seconds config), m) (\<lambda>ttl m.
          then_st (in_time_range ch (now + ttl), m) (\<lambda>expires_at m.
            let new_version_num = (case old_version of None \<Rightarrow> 0 | Some v \<Rightarrow> v) + 1;
                new_version = \<lparr>sv_version = new_version_num, sv_secret = new_secret, sv_created_at = now,
                  sv_expires_at = expires_at, sv_active = True\<rparr>;
                versions = (case sm_secrets m name of None \<Rightarrow> [] | Some versions \<Rightarrow> versions);
                versions = trim_versions (unat (sc_keep_versions config)) (new_version # versions);
                rotation = \<lparr>srt_id = fresh, srt_secret_name = name, srt_tenant_id = ''default'', srt_state = RotCompleted,
                  srt_old_version = old_version, srt_new_version = Some new_version_num, srt_error = None,
                  srt_started_at = now, srt_completed_at = Some completed\<rparr>
            in (Inr rotation, m\<lparr>sm_secrets := (sm_secrets m)(name \<mapsto> versions), sm_rotations := sm_rotations m @ [rotation]\<rparr>)))))"

definition secret_history :: "string \<Rightarrow> secret_manager \<Rightarrow> secret_rotation list" where
  "secret_history name m = filter (\<lambda>r. srt_secret_name r = name) (sm_rotations m)"

text \<open>The position of the first version with the number.\<close>

fun version_position :: "u32 \<Rightarrow> secret_version list \<Rightarrow> nat option" where
  "version_position n [] = None"
| "version_position n (v # vs) = (if sv_version v = n then Some 0 else map_option Suc (version_position n vs))"

definition rollback_secret ::
  "uuid \<Rightarrow> time \<Rightarrow> string \<Rightarrow> u32 \<Rightarrow> secret_manager \<Rightarrow> (kms_error + secret_rotation) \<times> secret_manager" where
  "rollback_secret fresh now name version m =
     (case sm_secrets m name of
        None \<Rightarrow> (Inl (Internal (Fmt [Lit ''Secret '', Str name, Lit '' not found''])), m)
      | Some versions \<Rightarrow>
          (case version_position version versions of
             None \<Rightarrow> (Inl (Internal (Fmt [Lit ''Version '', Num (unat version), Lit '' not found''])), m)
           | Some target_idx \<Rightarrow>
               let versions = deactivate_versions versions;
                   versions = versions[target_idx := (versions ! target_idx)\<lparr>sv_active := True\<rparr>];
                   old_version = map_option sv_version (find (\<lambda>v. sv_active v \<and> sv_version v \<noteq> version) versions);
                   rotation = \<lparr>srt_id = fresh, srt_secret_name = name, srt_tenant_id = ''default'', srt_state = RotCompleted,
                     srt_old_version = old_version, srt_new_version = Some version, srt_error = None,
                     srt_started_at = now, srt_completed_at = Some now\<rparr>
               in (Inr rotation, m\<lparr>sm_secrets := (sm_secrets m)(name \<mapsto> versions), sm_rotations := sm_rotations m @ [rotation]\<rparr>)))"

section \<open>At most one active version\<close>

lemma trim_take: "trim_versions keep vs = take keep vs"
proof (induction keep vs rule: trim_versions.induct)
  case (1 keep vs)
  then show ?case
    by (cases "keep < length vs") (simp_all add: trim_versions.simps [of keep vs] butlast_conv_take)
qed

lemma sv_expired_active [simp]: "sv_expired t (v\<lparr>sv_active := b\<rparr>) = sv_expired t v"
  by (simp add: sv_expired_def)

definition active_count :: "secret_version list \<Rightarrow> nat" where
  "active_count vs = length (filter sv_active vs)"

lemma active_deactivated [simp]: "filter sv_active (deactivate_versions vs) = []"
  by (simp add: deactivate_versions_def filter_empty_conv)

lemma length_deactivated [simp]: "length (deactivate_versions vs) = length vs"
  by (simp add: deactivate_versions_def)

lemma deactivated_nth: "i < length vs \<Longrightarrow> deactivate_versions vs ! i = (vs ! i)\<lparr>sv_active := False\<rparr>"
  by (simp add: deactivate_versions_def)

lemma inactive_find: "filter sv_active vs = [] \<Longrightarrow> find (\<lambda>v. sv_active v \<and> P v) vs = None"
  by (auto simp: find_None_iff filter_empty_conv)

lemma active_count_update: "active_count vs = 0 \<Longrightarrow> active_count (vs[i := v]) \<le> 1"
  by (induction vs arbitrary: i) (auto simp: active_count_def split: nat.split if_splits)

lemma active_count_take: "active_count (take n vs) \<le> active_count vs"
  unfolding active_count_def by (metis append_take_drop_id filter_append le_add1 length_append)

definition one_active :: "secret_manager \<Rightarrow> bool" where
  "one_active m \<longleftrightarrow> (\<forall>name vs. sm_secrets m name = Some vs \<longrightarrow> active_count vs \<le> 1)"

lemma version_position_Some:
  "version_position n vs = Some i \<Longrightarrow> i < length vs \<and> sv_version (vs ! i) = n \<and> (\<forall>j < i. sv_version (vs ! j) \<noteq> n)"
proof (induction vs arbitrary: i)
  case (Cons v vs)
  then show ?case
    by (cases i) (auto split: if_splits simp: less_Suc_eq_0_disj)
qed simp

lemma version_position_first:
  "i < length vs \<Longrightarrow> sv_version (vs ! i) = n \<Longrightarrow> \<forall>j < i. sv_version (vs ! j) \<noteq> n \<Longrightarrow> version_position n vs = Some i"
proof (induction vs arbitrary: i)
  case (Cons v vs)
  show ?case
  proof (cases i)
    case 0
    then show ?thesis using Cons.prems by simp
  next
    case (Suc k)
    then have "sv_version v \<noteq> n" "\<forall>j < k. sv_version (vs ! j) \<noteq> n"
      using Cons.prems(3) by (auto dest: spec [of _ "Suc j" for j])
    then show ?thesis using Suc Cons by simp
  qed
qed simp

text \<open>What a successful rotation leaves behind.\<close>

lemma rotate_ok:
  assumes "rotate_secret ch now0 os now fresh completed name m = (Inr rot, m')"
  obtains config g where "sm_configs m name = Some config" "os = Inr g"
    "srt_old_version rot = map_option sv_version (get_active_secret now0 name m)"
    "srt_new_version rot = Some ((case srt_old_version rot of None \<Rightarrow> 0 | Some v \<Rightarrow> v) + 1)"
    "sm_secrets m' = (sm_secrets m)(name \<mapsto> take (unat (sc_keep_versions config))
       (\<lparr>sv_version = the (srt_new_version rot), sv_secret = fill_bytes g 32, sv_created_at = now,
         sv_expires_at = now + secs (sint (sc_ttl_seconds config)), sv_active = True\<rparr>
        # (case sm_secrets m name of None \<Rightarrow> [] | Some vs \<Rightarrow> deactivate_versions vs)))"
    "sm_configs m' = sm_configs m" "sm_rotations m' = sm_rotations m @ [rot]" "srt_secret_name rot = name"
proof -
  obtain config where c: "sm_configs m name = Some config"
    using assms by (cases "sm_configs m name") (auto simp: rotate_secret_def)
  obtain g where g: "os = Inr g"
    using assms c by (cases os) (auto simp: rotate_secret_def random_bytes_def os_random_def getrandom_def Let_def)
  show ?thesis
    using assms c g
    by (intro that [of config g])
       (auto simp: rotate_secret_def random_bytes_def os_random_def getrandom_def duration_seconds_def in_time_range_def
          trim_take Let_def split: option.splits if_splits)
qed

lemma rollback_ok:
  assumes "rollback_secret fresh now name version m = (Inr rot, m')"
  obtains vs i where "sm_secrets m name = Some vs" "version_position version vs = Some i"
    "sm_secrets m' = (sm_secrets m)(name \<mapsto> (deactivate_versions vs)[i := (vs ! i)\<lparr>sv_active := True\<rparr>])"
    "sm_configs m' = sm_configs m" "sm_rotations m' = sm_rotations m @ [rot]"
    "srt_old_version rot = map_option sv_version (find (\<lambda>v. sv_active v \<and> sv_version v \<noteq> version)
       ((deactivate_versions vs)[i := (vs ! i)\<lparr>sv_active := True\<rparr>]))"
proof -
  obtain vs where vs: "sm_secrets m name = Some vs"
    using assms by (cases "sm_secrets m name") (auto simp: rollback_secret_def)
  obtain i where i: "version_position version vs = Some i"
    using assms vs by (cases "version_position version vs") (auto simp: rollback_secret_def)
  have "(deactivate_versions vs)[i := (deactivate_versions vs ! i)\<lparr>sv_active := True\<rparr>] = (deactivate_versions vs)[i := (vs ! i)\<lparr>sv_active := True\<rparr>]"
    using version_position_Some [OF i] by (simp add: deactivated_nth)
  then show ?thesis
    using assms vs i by (intro that [of vs i]) (auto simp: rollback_secret_def Let_def)
qed

datatype secret_op =
    RegisterSecret time string string bytes secret_config
  | RotateSecret time os_entropy time uuid time string
  | RollbackSecret uuid time string u32

fun secret_step :: "chrono_range \<Rightarrow> secret_op \<Rightarrow> secret_manager \<Rightarrow> secret_manager" where
  "secret_step ch (RegisterSecret now name tenant_id s config) m = snd (register_secret ch now name tenant_id s config m)"
| "secret_step ch (RotateSecret now0 os now fresh completed name) m = snd (rotate_secret ch now0 os now fresh completed name m)"
| "secret_step ch (RollbackSecret fresh now name version) m = snd (rollback_secret fresh now name version m)"

lemma rotate_failed:
  assumes "rotate_secret ch now0 os now fresh completed name m = (Inl e, m')"
  shows "m' = m \<or> (\<exists>vs. sm_secrets m name = Some vs \<and> m' = m\<lparr>sm_secrets := (sm_secrets m)(name \<mapsto> deactivate_versions vs)\<rparr>)"
  using assms
  by (cases os) (auto simp: rotate_secret_def random_bytes_def os_random_def getrandom_def duration_seconds_def in_time_range_def Let_def
    split: option.splits if_splits)

lemma step_one_active: "one_active m \<Longrightarrow> one_active (secret_step ch x m)"
proof (cases x)
  case (RegisterSecret now name tenant_id s config)
  assume "one_active m"
  then show ?thesis
    by (auto simp: RegisterSecret register_secret_def duration_seconds_def in_time_range_def one_active_def active_count_def Let_def)
next
  case (RotateSecret now0 os now fresh completed name)
  assume m: "one_active m"
  obtain r m' where r: "rotate_secret ch now0 os now fresh completed name m = (r, m')"
    by (cases "rotate_secret ch now0 os now fresh completed name m")
  show ?thesis
  proof (cases r)
    case (Inl e)
    then show ?thesis
      using rotate_failed [of ch now0 os now fresh completed name m e m'] m r
      by (auto simp: RotateSecret one_active_def active_count_def split: if_splits)
  next
    case (Inr rot)
    show ?thesis
    proof -
      obtain config :: secret_config and v where "sm_secrets m' = (sm_secrets m)(name \<mapsto> take (unat (sc_keep_versions config))
          (v # (case sm_secrets m name of None \<Rightarrow> [] | Some vs \<Rightarrow> deactivate_versions vs)))"
        by (rule rotate_ok [OF r [unfolded Inr]]) (rule that)
      moreover have "active_count (take n (v # (case sm_secrets m name of None \<Rightarrow> [] | Some vs \<Rightarrow> deactivate_versions vs))) \<le> 1" for n
        by (rule order_trans [OF active_count_take]) (simp add: active_count_def split: option.split)
      ultimately show ?thesis
        using m r by (simp add: RotateSecret one_active_def)
    qed
  qed
next
  case (RollbackSecret fresh now name version)
  assume m: "one_active m"
  obtain r m' where r: "rollback_secret fresh now name version m = (r, m')"
    by (cases "rollback_secret fresh now name version m")
  show ?thesis
  proof (cases r)
    case (Inl e)
    then have "m' = m" using r by (auto simp: rollback_secret_def Let_def split: option.splits)
    then show ?thesis using m r by (simp add: RollbackSecret)
  next
    case (Inr rot)
    obtain vs i v where "sm_secrets m' = (sm_secrets m)(name \<mapsto> (deactivate_versions vs)[i := v])"
      by (rule rollback_ok [OF r [unfolded Inr]]) (erule that)
    moreover have "active_count ((deactivate_versions vs)[i := v]) \<le> 1"
      by (rule active_count_update) (simp add: active_count_def)
    ultimately show ?thesis
      using m r by (simp add: RollbackSecret one_active_def)
  qed
qed

interpretation secrets: stateful "secret_step ch" "\<lambda>_. True" one_active for ch
  by unfold_locales (rule step_one_active)

lemma new_one_active: "one_active secret_manager_new"
  by (simp add: one_active_def secret_manager_new_def)

text \<open>
  Whatever is registered, rotated and rolled back, and whichever of these calls fail, no secret ever
  has two active versions.
\<close>

theorem one_active_version:
  assumes "sm_secrets (run_ops (secret_step ch) xs secret_manager_new) name = Some vs"
  shows "length (filter sv_active vs) \<le> 1"
  using assms secrets.run_inv [of xs secret_manager_new ch] new_one_active by (auto simp: one_active_def active_count_def list_all_iff)

section \<open>Rotation and rollback\<close>

text \<open>What a rotation leaves in the list when there is a valid version: the fresh one in front, then the others, trimmed.\<close>

lemma rotated_versions:
  assumes "rotate_secret ch now0 (Inr g) now fresh completed name m = (Inr rot, m')"
    and "sm_configs m name = Some config" "sm_secrets m name = Some (us @ old # vs)"
    and "\<forall>u \<in> set us. \<not> sv_active u \<and> sv_version u \<noteq> sv_version old" "sv_active old" "\<not> sv_expired now0 old"
  shows "srt_old_version rot = Some (sv_version old)"
    and "sm_secrets m' name = Some (take (unat (sc_keep_versions config))
      (\<lparr>sv_version = sv_version old + 1, sv_secret = fill_bytes g 32, sv_created_at = now,
         sv_expires_at = now + secs (sint (sc_ttl_seconds config)), sv_active = True\<rparr> # deactivate_versions (us @ old # vs)))"
proof -
  obtain config' g' where r: "sm_configs m name = Some config'" "Inr g = (Inr g' :: os_entropy)"
    "srt_old_version rot = map_option sv_version (get_active_secret now0 name m)"
    "srt_new_version rot = Some ((case srt_old_version rot of None \<Rightarrow> 0 | Some v \<Rightarrow> v) + 1)"
    "sm_secrets m' = (sm_secrets m)(name \<mapsto> take (unat (sc_keep_versions config'))
       (\<lparr>sv_version = the (srt_new_version rot), sv_secret = fill_bytes g' 32, sv_created_at = now,
         sv_expires_at = now + secs (sint (sc_ttl_seconds config')), sv_active = True\<rparr>
        # (case sm_secrets m name of None \<Rightarrow> [] | Some vs \<Rightarrow> deactivate_versions vs)))"
    by (rule rotate_ok [OF assms(1)]) (rule that)
  have "find (\<lambda>v. sv_active v \<and> \<not> sv_expired now0 v) us = None"
    using assms(4) by (auto simp: find_None_iff)
  then show old: "srt_old_version rot = Some (sv_version old)"
    using assms(3,5,6) r(3) by (simp add: get_active_secret_def find_append)
  show "sm_secrets m' name = Some (take (unat (sc_keep_versions config))
      (\<lparr>sv_version = sv_version old + 1, sv_secret = fill_bytes g 32, sv_created_at = now,
         sv_expires_at = now + secs (sint (sc_ttl_seconds config)), sv_active = True\<rparr> # deactivate_versions (us @ old # vs)))"
    using r(1,2,4,5) assms(2,3) old by simp
qed

text \<open>
  C39. A rotation that succeeds replaces the secret: until it expires, the fresh bytes are the active
  version, numbered one above the old version. Rolling back to the recorded old version brings the old bytes
  back for as long as they are valid, provided that the old version was not trimmed: versions are kept by their
  place in the list, so the versions in front of the old one (after an earlier rollback there can be some), the
  old one and the fresh one have to fit into the number of versions to keep, and none of those in front may
  carry the old one's number.
\<close>

theorem rotation_replaces_and_rolls_back:
  assumes "rotate_secret ch now0 (Inr g) now fresh completed name m = (Inr rot, m')"
    and "sm_configs m name = Some config" "length us + 2 \<le> unat (sc_keep_versions config)"
    and "sm_secrets m name = Some (us @ old # vs)" "\<forall>u \<in> set us. \<not> sv_active u \<and> sv_version u \<noteq> sv_version old"
    and "sv_active old" "\<not> sv_expired now0 old" "sv_version old + 1 \<noteq> 0"
    and "t \<le> now + secs (sint (sc_ttl_seconds config))" "\<not> sv_expired t' old"
  shows "(\<exists>v. get_active_secret t name m' = Some v \<and> sv_secret v = fill_bytes g 32 \<and> sv_version v = sv_version old + 1)
    \<and> srt_old_version rot = Some (sv_version old)
    \<and> (\<exists>rot' m''. rollback_secret fresh' now' name (sv_version old) m' = (Inr rot', m'') \<and> get_active_secret t' name m'' = Some old)"
proof -
  note rotated = rotated_versions [OF assms(1,2,4,5,6,7)]
  obtain k where k: "unat (sc_keep_versions config) = Suc (length us + Suc k)"
    using assms(3) le_Suc_ex [of "length us + 2" "unat (sc_keep_versions config)"] by auto
  let ?new = "\<lparr>sv_version = sv_version old + 1, sv_secret = fill_bytes g 32, sv_created_at = now,
         sv_expires_at = now + secs (sint (sc_ttl_seconds config)), sv_active = True\<rparr>"
  let ?us = "deactivate_versions us" and ?vs = "take k (deactivate_versions vs)"
  have m': "sm_secrets m' name = Some (?new # ?us @ old\<lparr>sv_active := False\<rparr> # ?vs)"
    using k by (simp add: rotated(2) deactivate_versions_def)
  have none: "version_position (sv_version old) (?us @ ws) = map_option ((+) (length us)) (version_position (sv_version old) ws)" for ws
    using assms(5) by (induction us) (auto simp: deactivate_versions_def option.map_comp o_def option.map_ident cong: option.map_cong)
  have p: "version_position (sv_version old) (?new # ?us @ old\<lparr>sv_active := False\<rparr> # ?vs) = Some (Suc (length us))"
    using assms(8) by (simp add: none)
  have "get_active_secret t name m' = Some ?new"
    using assms(9) by (simp add: get_active_secret_def m' sv_expired_def)
  moreover have inactive: "find (\<lambda>v. sv_active v \<and> \<not> sv_expired t' v) (map (\<lambda>v. v\<lparr>sv_active := False\<rparr>) us) = None"
    by (auto simp: find_None_iff)
  have "old\<lparr>sv_active := True\<rparr> = old"
    using assms(6) by simp
  then have "\<exists>rot' m''. rollback_secret fresh' now' name (sv_version old) m' = (Inr rot', m'') \<and> get_active_secret t' name m'' = Some old"
    using assms(6,10) p inactive
    by (simp add: rollback_secret_def m' Let_def get_active_secret_def deactivate_versions_def nth_append list_update_append
        find_append comp_def)
  ultimately show ?thesis
    using rotated(1) by simp
qed

text \<open>
  An active version with too many others in front of it is trimmed by the rotation that replaces it: the recorded
  old version cannot be rolled back to.
\<close>

theorem replaced_version_trimmed:
  assumes "rotate_secret ch now0 (Inr g) now fresh completed name m = (Inr rot, m')"
    and "sm_configs m name = Some config" "unat (sc_keep_versions config) \<le> length us + 1"
    and "sm_secrets m name = Some (us @ old # vs)" "\<forall>u \<in> set us. \<not> sv_active u \<and> sv_version u \<noteq> sv_version old"
    and "sv_active old" "\<not> sv_expired now0 old" "sv_version old + 1 \<noteq> 0"
  shows "srt_old_version rot = Some (sv_version old) \<and> \<not> is_ok (fst (rollback_secret fresh' now' name (sv_version old) m'))"
proof -
  note rotated = rotated_versions [OF assms(1,2,4,5,6,7)]
  let ?new = "\<lparr>sv_version = sv_version old + 1, sv_secret = fill_bytes g 32, sv_created_at = now,
         sv_expires_at = now + secs (sint (sc_ttl_seconds config)), sv_active = True\<rparr>"
  let ?vs = "take (unat (sc_keep_versions config)) (?new # deactivate_versions (us @ old # vs))"
  have "set ?vs \<subseteq> insert ?new (set (deactivate_versions us))"
    using assms(3) by (cases "unat (sc_keep_versions config)") (auto simp: deactivate_versions_def dest: in_set_takeD)
  then have "\<forall>v \<in> set ?vs. sv_version v \<noteq> sv_version old"
    using assms(5,8) by (fastforce simp: deactivate_versions_def)
  moreover have "version_position n ws = None" if "\<forall>v \<in> set ws. sv_version v \<noteq> n" for n ws
    using that by (induction ws) auto
  ultimately have "version_position (sv_version old) ?vs = None"
    by blast
  then show ?thesis
    using rotated by (simp add: rollback_secret_def)
qed

text \<open>
  When the operating system yields no bytes, the rotation is refused, but the old version has been
  deactivated: a secret that was in use before has no active version at any later time.
\<close>

theorem failed_rotation_loses_secret:
  assumes "sm_configs m name = Some config" "sm_secrets m name = Some vs"
    and "rotate_secret ch now0 (Inl e) now fresh completed name m = (r, m')"
  shows "\<not> is_ok r \<and> get_active_secret t name m' = None"
  using assms
  by (auto simp: rotate_secret_def random_bytes_def os_random_def getrandom_def Let_def get_active_secret_def
      intro!: inactive_find)

text \<open>
  A secret that has expired before it is rotated starts again at version 1, although a version 1 is
  kept already: rolling back to version 1 then stays on the new bytes, and the old ones cannot be named.
\<close>

theorem expired_rotation_restarts_numbers:
  assumes "rotate_secret ch now0 (Inr g) now fresh completed name m = (Inr rot, m')"
    and "sm_configs m name = Some config" "1 \<le> unat (sc_keep_versions config)"
    and "sm_secrets m name = Some vs" "list_all (sv_expired now0) vs" "\<not> sv_expired t \<lparr>sv_version = 1, sv_secret = [],
      sv_created_at = now, sv_expires_at = now + secs (sint (sc_ttl_seconds config)), sv_active = True\<rparr>"
  shows "srt_new_version rot = Some 1 \<and> srt_old_version rot = None
    \<and> (\<exists>rot' m'' v. rollback_secret fresh' now' name 1 m' = (Inr rot', m'') \<and> get_active_secret t name m'' = Some v
        \<and> sv_secret v = fill_bytes g 32)"
proof -
  obtain config' g' where r: "sm_configs m name = Some config'" "Inr g = (Inr g' :: os_entropy)"
    "srt_old_version rot = map_option sv_version (get_active_secret now0 name m)"
    "srt_new_version rot = Some ((case srt_old_version rot of None \<Rightarrow> 0 | Some v \<Rightarrow> v) + 1)"
    "sm_secrets m' = (sm_secrets m)(name \<mapsto> take (unat (sc_keep_versions config'))
       (\<lparr>sv_version = the (srt_new_version rot), sv_secret = fill_bytes g' 32, sv_created_at = now,
         sv_expires_at = now + secs (sint (sc_ttl_seconds config')), sv_active = True\<rparr>
        # (case sm_secrets m name of None \<Rightarrow> [] | Some vs \<Rightarrow> deactivate_versions vs)))"
    by (rule rotate_ok [OF assms(1)]) (rule that)
  have old: "srt_old_version rot = None"
    using assms(4,5) r(3) by (auto simp: get_active_secret_def find_None_iff list_all_iff)
  obtain k where k: "unat (sc_keep_versions config) = Suc k"
    using assms(3) by (cases "unat (sc_keep_versions config)") auto
  let ?new = "\<lparr>sv_version = 1, sv_secret = fill_bytes g 32, sv_created_at = now,
         sv_expires_at = now + secs (sint (sc_ttl_seconds config)), sv_active = True\<rparr>"
  have m': "sm_secrets m' name = Some (?new # take k (deactivate_versions vs))"
  proof -
    have "config' = config" "g' = g" "the (srt_new_version rot) = 1"
      using r(1,2,4) assms(2) old by simp_all
    then show ?thesis
      using assms(4) k by (simp add: r(5))
  qed
  have "\<exists>rot' m''. rollback_secret fresh' now' name 1 m' = (Inr rot', m'') \<and> get_active_secret t name m'' = Some ?new"
    using assms(6) by (simp add: rollback_secret_def m' Let_def get_active_secret_def deactivate_versions_def sv_expired_def)
  then show ?thesis
    using old r(4) by auto
qed

text \<open>
  The record of a rollback never names the version that was left: its old version is always missing.
\<close>

theorem rollback_forgets_old_version:
  assumes "rollback_secret fresh now name version m = (Inr rot, m')"
  shows "srt_old_version rot = None \<and> srt_new_version rot = Some version \<and> srt_state rot = RotCompleted"
proof -
  obtain vs' i where *: "sm_secrets m name = Some vs'" "version_position version vs' = Some i"
    "srt_old_version rot = map_option sv_version (find (\<lambda>v. sv_active v \<and> sv_version v \<noteq> version)
       ((deactivate_versions vs')[i := (vs' ! i)\<lparr>sv_active := True\<rparr>]))"
    by (rule rollback_ok [OF assms(1)]) (rule that)
  have i: "i < length vs'" "sv_version (vs' ! i) = version"
    using version_position_Some [OF *(2)] by auto
  have "\<not> (sv_active v \<and> sv_version v \<noteq> version)"
    if v: "v \<in> set ((deactivate_versions vs')[i := (vs' ! i)\<lparr>sv_active := True\<rparr>])" for v
  proof -
    obtain j where "j < length ((deactivate_versions vs')[i := (vs' ! i)\<lparr>sv_active := True\<rparr>])"
      "v = (deactivate_versions vs')[i := (vs' ! i)\<lparr>sv_active := True\<rparr>] ! j"
      using v unfolding in_set_conv_nth by blast
    then show ?thesis
      using i by (cases "j = i") (simp_all add: deactivated_nth)
  qed
  then have "find (\<lambda>v. sv_active v \<and> sv_version v \<noteq> version) ((deactivate_versions vs')[i := (vs' ! i)\<lparr>sv_active := True\<rparr>]) = None"
    by (auto simp: find_None_iff)
  with *(3) have "srt_old_version rot = None"
    by simp
  moreover have "srt_new_version rot = Some version \<and> srt_state rot = RotCompleted"
    using assms(1) by (auto simp: rollback_secret_def Let_def split: option.splits)
  ultimately show ?thesis by simp
qed

section \<open>A small instance\<close>

definition mini_chrono :: chrono_range where
  "mini_chrono = \<lparr>cr_seconds = (\<lambda>_. True), cr_time = (\<lambda>_. True)\<rparr>"

definition mini_secrets :: secret_manager where
  "mini_secrets = snd (register_secret mini_chrono 0 ''db'' ''t'' [1] secret_config_default secret_manager_new)"

definition mini_old :: secret_version where
  "mini_old = \<lparr>sv_version = 1, sv_secret = [1], sv_created_at = 0, sv_expires_at = secs 86400, sv_active = True\<rparr>"

lemma mini_secrets_eq:
  "mini_secrets = \<lparr>sm_secrets = [''db'' \<mapsto> [mini_old]], sm_configs = [''db'' \<mapsto> secret_config_default], sm_rotations = []\<rparr>"
  by (simp add: mini_secrets_def mini_old_def register_secret_def duration_seconds_def in_time_range_def mini_chrono_def
      secret_config_default_def secret_manager_new_def)

lemma mini_rotate: "\<exists>rot m'. rotate_secret mini_chrono t (Inr (\<lambda>_. 7)) now 5 now ''db'' mini_secrets = (Inr rot, m')"
  by (simp add: rotate_secret_def mini_secrets_eq random_bytes_def os_random_def getrandom_def duration_seconds_def
      in_time_range_def mini_chrono_def secret_config_default_def Let_def)

theorem rotation_replaces_and_rolls_back_witness:
  "\<exists>rot m'. rotate_secret mini_chrono 0 (Inr (\<lambda>_. 7)) 1 5 1 ''db'' mini_secrets = (Inr rot, m')
     \<and> (\<exists>v. get_active_secret 2 ''db'' m' = Some v \<and> sv_secret v = fill_bytes (\<lambda>_. 7) 32 \<and> sv_version v = 2)"
proof -
  obtain rot m' where r: "rotate_secret mini_chrono 0 (Inr (\<lambda>_. 7)) 1 5 1 ''db'' mini_secrets = (Inr rot, m')"
    using mini_rotate by blast
  have "\<exists>v. get_active_secret 2 ''db'' m' = Some v \<and> sv_secret v = fill_bytes (\<lambda>_. 7) 32 \<and> sv_version v = sv_version mini_old + 1"
    by (rule conjunct1 [OF rotation_replaces_and_rolls_back [OF r, where config = secret_config_default and us = "[]" and vs = "[]" and t' = 0]])
       (simp_all add: mini_secrets_eq secret_config_default_def mini_old_def sv_expired_def secs_def)
  with r show ?thesis by (auto simp: mini_old_def)
qed

theorem replaced_version_trimmed_witness:
  "\<exists>rot m'. rotate_secret mini_chrono 0 (Inr (\<lambda>_. 7)) 1 5 1 ''db''
        (mini_secrets\<lparr>sm_configs := [''db'' \<mapsto> secret_config_default\<lparr>sc_keep_versions := 1\<rparr>]\<rparr>) = (Inr rot, m')
     \<and> srt_old_version rot = Some 1 \<and> \<not> is_ok (fst (rollback_secret 6 2 ''db'' 1 m'))"
proof -
  let ?m = "mini_secrets\<lparr>sm_configs := [''db'' \<mapsto> secret_config_default\<lparr>sc_keep_versions := 1\<rparr>]\<rparr>"
  obtain rot m' where r: "rotate_secret mini_chrono 0 (Inr (\<lambda>_. 7)) 1 5 1 ''db'' ?m = (Inr rot, m')"
    and n: "sv_version mini_old = 1"
    by (simp add: rotate_secret_def random_bytes_def os_random_def getrandom_def Let_def mini_secrets_eq mini_old_def secret_config_default_def
        duration_seconds_def in_time_range_def mini_chrono_def)
  show ?thesis
    using r replaced_version_trimmed [OF r, where config = "secret_config_default\<lparr>sc_keep_versions := 1\<rparr>" and us = "[]" and old = mini_old and vs = "[]"]
    by (auto simp: n mini_secrets_eq secret_config_default_def mini_old_def sv_expired_def secs_def)
qed

theorem one_active_version_witness:
  "sm_secrets (run_ops (secret_step mini_chrono) [RegisterSecret 0 ''db'' ''t'' [1] secret_config_default] secret_manager_new) ''db''
     = Some [mini_old] \<and> length (filter sv_active [mini_old]) \<le> 1"
proof
  show *: "sm_secrets (run_ops (secret_step mini_chrono) [RegisterSecret 0 ''db'' ''t'' [1] secret_config_default] secret_manager_new) ''db''
     = Some [mini_old]"
    using mini_secrets_eq by (simp add: mini_secrets_def)
  show "length (filter sv_active [mini_old]) \<le> 1"
    by (rule one_active_version [OF *])
qed

theorem failed_rotation_loses_secret_witness:
  "get_active_secret 0 ''db'' mini_secrets = Some mini_old
    \<and> get_active_secret 0 ''db'' (snd (rotate_secret mini_chrono 0 (Inl ''no entropy'') 0 5 0 ''db'' mini_secrets)) = None"
  using failed_rotation_loses_secret [of mini_secrets "''db''" secret_config_default "[mini_old]" mini_chrono 0 "''no entropy''" 0 5 0,
      OF _ _ prod.collapse [symmetric]]
  by (simp add: mini_secrets_eq get_active_secret_def mini_old_def sv_expired_def secs_def)

theorem expired_rotation_restarts_numbers_witness:
  "\<exists>rot m'. rotate_secret mini_chrono (secs 100000) (Inr (\<lambda>_. 7)) (secs 100000) 5 (secs 100000) ''db'' mini_secrets = (Inr rot, m')
     \<and> srt_new_version rot = Some 1"
proof -
  obtain rot m' where r: "rotate_secret mini_chrono (secs 100000) (Inr (\<lambda>_. 7)) (secs 100000) 5 (secs 100000) ''db'' mini_secrets = (Inr rot, m')"
    using mini_rotate by blast
  have "srt_new_version rot = Some 1"
    by (rule conjunct1 [OF expired_rotation_restarts_numbers [OF r, where config = secret_config_default and vs = "[mini_old]" and t = 0]])
       (simp_all add: mini_secrets_eq secret_config_default_def mini_old_def sv_expired_def secs_def)
  with r show ?thesis by blast
qed

theorem rollback_forgets_old_version_witness:
  "\<exists>rot m'. rollback_secret 5 0 ''db'' 1 mini_secrets = (Inr rot, m') \<and> srt_old_version rot = None"
proof -
  obtain rot m' where r: "rollback_secret 5 0 ''db'' 1 mini_secrets = (Inr rot, m')"
    by (simp add: rollback_secret_def mini_secrets_eq mini_old_def Let_def)
  show ?thesis
    using r rollback_forgets_old_version [OF r] by (simp add: mini_secrets_eq)
qed

end
