(* ===== verification/Sm9.thy ===== *)
theory Sm9
  imports Kek_Source Service_Properties
begin

text \<open>
  SM9 master keys: the stores that seal them with a key encryption key
  (\<^verbatim>\<open>crates/kms-core/src/sm9_master_key.rs\<close>), their table (\<^verbatim>\<open>crates/kms-keystore/src/sm9_master_key.rs\<close>),
  and the adapter that rotates them (\<^verbatim>\<open>crates/kms-core/src/sm9_key_rotation.rs\<close>). The curve arithmetic and
  the rotation managers are those of the crate \<open>gm_sm9_rs\<close>: they are fields of the record \<open>sm9_lib\<close>.
\<close>

section \<open>Stores\<close>

definition master_error :: "msg \<Rightarrow> kms_error" where
  "master_error m = MasterKeyError m"

text \<open>The trait \<open>Sm9MasterKeyStore\<close>: sealing draws a nonce, opening does not.\<close>

record kek_store =
  kst_encrypt :: "sys_rng \<Rightarrow> bytes \<Rightarrow> kms_error + bytes"
  kst_decrypt :: "bytes \<Rightarrow> kms_error + bytes"

definition env_get_kek ::
  "(string \<Rightarrow> string + bytes) \<Rightarrow> (string \<Rightarrow> string + bytes) \<Rightarrow> (string \<Rightarrow> string option) \<Rightarrow> string \<Rightarrow> kms_error + bytes" where
  "env_get_kek hex_decode base64_decode env var_name =
     and_then (ok_or (master_error (Fmt [Lit ''KEK env var '', Str var_name, Lit '' not set''])) (env var_name)) (\<lambda>s.
       if length s = 64 \<and> list_all ascii_hexdigit s
       then map_err (\<lambda>e. master_error (Fmt [Lit ''invalid hex KEK: '', Str e])) (hex_decode s)
       else map_err (\<lambda>e. master_error (Fmt [Lit ''invalid base64 KEK: '', Str e])) (base64_decode s))"

definition unspecified :: string where
  "unspecified = ''ring::error::Unspecified''"

definition seal_with_kek :: "'kp crypto \<Rightarrow> bytes \<Rightarrow> sys_rng \<Rightarrow> bytes \<Rightarrow> kms_error + bytes" where
  "seal_with_kek cr kek rng plaintext =
     and_then (map_err (\<lambda>e. master_error (Str e)) (aes_unbound_key cr kek)) (\<lambda>_.
     and_then (sys_fill rng 12 (master_error (Str unspecified))) (\<lambda>nonce_bytes.
     and_then (map_err (\<lambda>e. master_error (Str e)) (aes_seal cr kek nonce_bytes [] plaintext)) (\<lambda>(in_out, tag).
     Inr (nonce_bytes @ in_out @ tag))))"

definition open_with_kek :: "'kp crypto \<Rightarrow> bytes \<Rightarrow> bytes \<Rightarrow> kms_error + bytes" where
  "open_with_kek cr kek ciphertext =
     and_then (map_err (\<lambda>e. master_error (Str e)) (aes_unbound_key cr kek)) (\<lambda>_.
     map_err (\<lambda>e. master_error (Str e)) (aes_open cr kek (take 12 ciphertext) [] (drop 12 ciphertext)))"

text \<open>The store on a variable of the environment reads the variable at every call.\<close>

definition env_kek_store ::
  "'kp crypto \<Rightarrow> (string \<Rightarrow> string + bytes) \<Rightarrow> (string \<Rightarrow> string + bytes) \<Rightarrow> (string \<Rightarrow> string option) \<Rightarrow> string \<Rightarrow> kek_store" where
  "env_kek_store cr hex_decode base64_decode env var_name = \<lparr>
     kst_encrypt = (\<lambda>rng plaintext.
       and_then (env_get_kek hex_decode base64_decode env var_name) (\<lambda>kek.
         if length kek \<noteq> 32 then Inl (master_error (Lit ''KEK must be 32 bytes'')) else seal_with_kek cr kek rng plaintext)),
     kst_decrypt = (\<lambda>ciphertext.
       if length ciphertext < 12 then Inl (master_error (Lit ''ciphertext too short''))
       else and_then (env_get_kek hex_decode base64_decode env var_name) (\<lambda>kek.
         if length kek \<noteq> 32 then Inl (master_error (Lit ''KEK must be 32 bytes'')) else open_with_kek cr kek ciphertext))\<rparr>"

definition memory_kek_store :: "'kp crypto \<Rightarrow> bytes \<Rightarrow> kek_store" where
  "memory_kek_store cr kek = \<lparr>
     kst_encrypt = seal_with_kek cr kek,
     kst_decrypt = (\<lambda>ciphertext.
       if length ciphertext < 12 then Inl (master_error (Lit ''ciphertext too short'')) else open_with_kek cr kek ciphertext)\<rparr>"

section \<open>The table of the master key\<close>

text \<open>One row at most; the column of the version is of type \<open>INTEGER\<close>, and \<open>as i32\<close> keeps the 32 bits.\<close>

record master_row =
  mk_version :: "32 word"
  mk_encrypted_key :: bytes

type_synonym master_table = "master_row option"

definition master_store :: "kek_store \<Rightarrow> sys_rng \<Rightarrow> fault \<Rightarrow> bytes \<Rightarrow> u32 \<Rightarrow> master_table \<Rightarrow> (kms_error + unit) \<times> master_table" where
  "master_store ks rng fault key version tb =
     then_st (kst_encrypt ks rng key, tb) (\<lambda>encrypted tb.
       case fault of
         Some e \<Rightarrow> (Inl (Internal (Str e)), tb)
       | None \<Rightarrow> (Inr (), Some \<lparr>mk_version = version, mk_encrypted_key = encrypted\<rparr>))"

definition master_load :: "kek_store \<Rightarrow> fault \<Rightarrow> master_table \<Rightarrow> kms_error + bytes" where
  "master_load ks fault tb =
     (case fault of
        Some e \<Rightarrow> Inl (Internal (Str e))
      | None \<Rightarrow>
          (case tb of
             None \<Rightarrow> Inl (Internal (Str ''no rows returned by a query that expected to return at least one row''))
           | Some row \<Rightarrow> kst_decrypt ks (mk_encrypted_key row)))"

definition master_get_version :: "fault \<Rightarrow> master_table \<Rightarrow> kms_error + u32 option" where
  "master_get_version fault tb =
     (case fault of Some e \<Rightarrow> Inl (Internal (Str e)) | None \<Rightarrow> Inr (map_option mk_version tb))"

definition master_exists :: "fault \<Rightarrow> master_table \<Rightarrow> kms_error + bool" where
  "master_exists fault tb = (case fault of Some e \<Rightarrow> Inl (Internal (Str e)) | None \<Rightarrow> Inr (tb \<noteq> None))"

definition master_delete :: "fault \<Rightarrow> master_table \<Rightarrow> (kms_error + unit) \<times> master_table" where
  "master_delete fault tb = (case fault of Some e \<Rightarrow> (Inl (Internal (Str e)), tb) | None \<Rightarrow> (Inr (), None))"

section \<open>The rotation adapter\<close>

text \<open>
  What is used of \<open>gm_sm9_rs\<close>. A manager is of type \<open>'m\<close>; a signing and an encryption master key are of
  types \<open>'sk\<close> and \<open>'ek\<close>, with the bytes of the scalar and, unless the point is the identity, of the affine
  coordinates of the public point. A rotation yields the version left and the version entered.
\<close>

record ('m, 'sk, 'ek, 'h) sm9_lib =
  s9_manager_new :: 'm
  s9_register_sign :: "'sk \<Rightarrow> 'm \<Rightarrow> (string + u32) \<times> 'm"
  s9_register_enc :: "'ek \<Rightarrow> 'm \<Rightarrow> (string + u32) \<times> 'm"
  s9_rotate_sign :: "time \<Rightarrow> 'sk \<Rightarrow> u64 \<Rightarrow> 'm \<Rightarrow> (string + u32 \<times> u32) \<times> 'm"
  s9_rotate_enc :: "time \<Rightarrow> 'ek \<Rightarrow> u64 \<Rightarrow> 'm \<Rightarrow> (string + u32 \<times> u32) \<times> 'm"
  s9_current_sign_version :: "'m \<Rightarrow> u32"
  s9_current_enc_version :: "'m \<Rightarrow> u32"
  s9_current_sign_key :: "'m \<Rightarrow> 'sk option"
  s9_current_enc_key :: "'m \<Rightarrow> 'ek option"
  s9_get_sign_key :: "u32 \<Rightarrow> 'm \<Rightarrow> 'sk option"
  s9_get_enc_key :: "u32 \<Rightarrow> 'm \<Rightarrow> 'ek option"
  s9_sign_valid :: "time \<Rightarrow> u32 \<Rightarrow> 'm \<Rightarrow> bool"
  s9_enc_valid :: "time \<Rightarrow> u32 \<Rightarrow> 'm \<Rightarrow> bool"
  s9_valid_sign_versions :: "time \<Rightarrow> 'm \<Rightarrow> u32 list"
  s9_valid_enc_versions :: "time \<Rightarrow> 'm \<Rightarrow> u32 list"
  s9_sign_history :: "'m \<Rightarrow> 'h list"
  s9_enc_history :: "'m \<Rightarrow> 'h list"
  s9_generate_sign :: "rng \<Rightarrow> string + 'sk"
  s9_generate_enc :: "rng \<Rightarrow> string + 'ek"
  s9_sign_scalar :: "'sk \<Rightarrow> bytes"
  s9_sign_point :: "'sk \<Rightarrow> (bytes \<times> bytes) option"
  s9_enc_scalar :: "'ek \<Rightarrow> bytes"
  s9_enc_point :: "'ek \<Rightarrow> (bytes \<times> bytes) option"

datatype sm9_key_type = Sm9TypeSigning | Sm9TypeEncryption

definition sm9_key_type_display :: "sm9_key_type \<Rightarrow> string" where
  "sm9_key_type_display t = (case t of Sm9TypeSigning \<Rightarrow> ''signing'' | Sm9TypeEncryption \<Rightarrow> ''encryption'')"

record sm9_key_entry =
  s9e_tenant_id :: string
  s9e_key_type :: sm9_key_type
  s9e_version :: u32
  s9e_kms_key_id :: uuid

record 'm sm9_adapter =
  sa_managers :: "string \<rightharpoonup> 'm"
  sa_key_registry :: "uuid \<rightharpoonup> sm9_key_entry"

record sm9_rotation_result =
  s9r_new_version :: u32
  s9r_old_version :: u32
  s9r_grace_period_secs :: u64
  s9r_meta :: key_meta

record sm9_version_info =
  s9v_version :: u32
  s9v_active :: bool
  s9v_grace_expired :: bool

definition sm9_adapter_new :: "'m sm9_adapter" where
  "sm9_adapter_new = \<lparr>sa_managers = Map.empty, sa_key_registry = Map.empty\<rparr>"

definition serialize_sign_master_key :: "('m, 'sk, 'ek, 'h) sm9_lib \<Rightarrow> 'sk \<Rightarrow> kms_error + bytes" where
  "serialize_sign_master_key lib key =
     and_then (ok_or (master_error (Lit ''Identity point cannot be serialized'')) (s9_sign_point lib key)) (\<lambda>(x, y).
     Inr (s9_sign_scalar lib key @ x @ y))"

definition serialize_enc_master_key :: "('m, 'sk, 'ek, 'h) sm9_lib \<Rightarrow> 'ek \<Rightarrow> kms_error + bytes" where
  "serialize_enc_master_key lib key =
     and_then (ok_or (master_error (Lit ''Identity point cannot be serialized'')) (s9_enc_point lib key)) (\<lambda>(x, y).
     Inr (s9_enc_scalar lib key @ x @ y))"

definition put_manager :: "string \<Rightarrow> 'm \<Rightarrow> 'm sm9_adapter \<Rightarrow> 'm sm9_adapter" where
  "put_manager tenant_id mg a = a\<lparr>sa_managers := (sa_managers a)(tenant_id \<mapsto> mg)\<rparr>"

definition manager_or_new :: "('m, 'sk, 'ek, 'h) sm9_lib \<Rightarrow> string \<Rightarrow> 'm sm9_adapter \<Rightarrow> 'm" where
  "manager_or_new lib tenant_id a = (case sa_managers a tenant_id of Some mg \<Rightarrow> mg | None \<Rightarrow> s9_manager_new lib)"

text \<open>What sealing returns is dropped: only its error counts.\<close>

definition register_sign_key ::
  "('m, 'sk, 'ek, 'h) sm9_lib \<Rightarrow> kek_store \<Rightarrow> sys_rng \<Rightarrow> uuid \<Rightarrow> string \<Rightarrow> 'sk \<Rightarrow> 'm sm9_adapter
    \<Rightarrow> (kms_error + uuid \<times> u32) \<times> 'm sm9_adapter" where
  "register_sign_key lib ks rng key_id tenant_id key a =
     (let (r, mg) = s9_register_sign lib key (manager_or_new lib tenant_id a);
          a = put_manager tenant_id mg a
      in then_st (map_err (\<lambda>e. master_error (Fmt [Lit ''SM9 sign key registration failed: '', Str e])) r, a) (\<lambda>version a.
         then_st (serialize_sign_master_key lib key, a) (\<lambda>key_bytes a.
         then_st (kst_encrypt ks rng key_bytes, a) (\<lambda>_ a.
           let entry = \<lparr>s9e_tenant_id = tenant_id, s9e_key_type = Sm9TypeSigning, s9e_version = version, s9e_kms_key_id = key_id\<rparr>
           in (Inr (key_id, version), a\<lparr>sa_key_registry := (sa_key_registry a)(key_id \<mapsto> entry)\<rparr>)))))"

definition register_enc_key ::
  "('m, 'sk, 'ek, 'h) sm9_lib \<Rightarrow> kek_store \<Rightarrow> sys_rng \<Rightarrow> uuid \<Rightarrow> string \<Rightarrow> 'ek \<Rightarrow> 'm sm9_adapter
    \<Rightarrow> (kms_error + uuid \<times> u32) \<times> 'm sm9_adapter" where
  "register_enc_key lib ks rng key_id tenant_id key a =
     (let (r, mg) = s9_register_enc lib key (manager_or_new lib tenant_id a);
          a = put_manager tenant_id mg a
      in then_st (map_err (\<lambda>e. master_error (Fmt [Lit ''SM9 enc key registration failed: '', Str e])) r, a) (\<lambda>version a.
         then_st (serialize_enc_master_key lib key, a) (\<lambda>key_bytes a.
         then_st (kst_encrypt ks rng key_bytes, a) (\<lambda>_ a.
           let entry = \<lparr>s9e_tenant_id = tenant_id, s9e_key_type = Sm9TypeEncryption, s9e_version = version, s9e_kms_key_id = key_id\<rparr>
           in (Inr (key_id, version), a\<lparr>sa_key_registry := (sa_key_registry a)(key_id \<mapsto> entry)\<rparr>)))))"

definition sm9_get_entry :: "uuid \<Rightarrow> 'm sm9_adapter \<Rightarrow> kms_error + sm9_key_entry" where
  "sm9_get_entry key_id a = ok_or (KeyNotFound (Id key_id)) (sa_key_registry a key_id)"

definition sm9_spec :: "sm9_key_type \<Rightarrow> key_spec" where
  "sm9_spec t = (case t of Sm9TypeSigning \<Rightarrow> Sm9Signing | Sm9TypeEncryption \<Rightarrow> Sm9Encryption)"

definition sm9_name :: "sm9_key_type \<Rightarrow> u32 \<Rightarrow> string" where
  "sm9_name t version = ''sm9-'' @ sm9_key_type_display t @ ''-v'' @ dec (unat version)"

definition update_registry_version ::
  "time \<Rightarrow> time \<Rightarrow> uuid \<Rightarrow> u32 \<Rightarrow> 'm sm9_adapter \<Rightarrow> (kms_error + key_meta) \<times> 'm sm9_adapter" where
  "update_registry_version now now2 key_id new_version a =
     (case sa_key_registry a key_id of
        None \<Rightarrow> (Inl (KeyNotFound (Id key_id)), a)
      | Some entry \<Rightarrow>
          let entry = entry\<lparr>s9e_version := new_version\<rparr>
          in (Inr \<lparr>m_id = s9e_kms_key_id entry, m_tenant_id = s9e_tenant_id entry,
                m_name = sm9_name (s9e_key_type entry) new_version, m_spec = sm9_spec (s9e_key_type entry),
                m_status = Active, m_created_at = now, m_rotated_at = Some now2, m_version = new_version,
                m_description = Some (''SM9 '' @ sm9_key_type_display (s9e_key_type entry) @ '' master key (rotated)''),
                m_metadata = key_metadata_default\<rparr>,
              a\<lparr>sa_key_registry := (sa_key_registry a)(key_id \<mapsto> entry)\<rparr>))"

text \<open>The argument \<open>now\<close> gives the readings of the clock of the call, in their order.\<close>

definition rotate_sign_key ::
  "('m, 'sk, 'ek, 'h) sm9_lib \<Rightarrow> kek_store \<Rightarrow> rng \<Rightarrow> sys_rng \<Rightarrow> (nat \<Rightarrow> time) \<Rightarrow> uuid \<Rightarrow> u64 \<Rightarrow> 'm sm9_adapter
    \<Rightarrow> (kms_error + sm9_rotation_result) \<times> 'm sm9_adapter" where
  "rotate_sign_key lib ks g rng now key_id grace_period_secs a =
     then_st (sm9_get_entry key_id a, a) (\<lambda>entry a.
       if s9e_key_type entry \<noteq> Sm9TypeSigning then (Inl (master_error (Lit ''Key is not a signing key'')), a)
       else then_st (map_err (\<lambda>e. master_error (Fmt [Lit ''SM9 key generation failed: '', Str e])) (s9_generate_sign lib g), a) (\<lambda>new_key a.
         then_st (ok_or (master_error (Lit ''No rotation manager for tenant'')) (sa_managers a (s9e_tenant_id entry)), a) (\<lambda>mg a.
           let (r, mg) = s9_rotate_sign lib (now 0) new_key grace_period_secs mg;
               a = put_manager (s9e_tenant_id entry) mg a
           in then_st (map_err (\<lambda>e. master_error (Fmt [Lit ''SM9 sign key rotation failed: '', Str e])) r, a) (\<lambda>(from_version, to_version) a.
              then_st (serialize_sign_master_key lib new_key, a) (\<lambda>key_bytes a.
              then_st (kst_encrypt ks rng key_bytes, a) (\<lambda>_ a.
              then_st (update_registry_version (now 1) (now 2) key_id to_version a) (\<lambda>meta a.
              (Inr \<lparr>s9r_new_version = to_version, s9r_old_version = from_version, s9r_grace_period_secs = grace_period_secs,
                 s9r_meta = meta\<rparr>, a))))))))"

definition rotate_enc_key ::
  "('m, 'sk, 'ek, 'h) sm9_lib \<Rightarrow> kek_store \<Rightarrow> rng \<Rightarrow> sys_rng \<Rightarrow> (nat \<Rightarrow> time) \<Rightarrow> uuid \<Rightarrow> u64 \<Rightarrow> 'm sm9_adapter
    \<Rightarrow> (kms_error + sm9_rotation_result) \<times> 'm sm9_adapter" where
  "rotate_enc_key lib ks g rng now key_id grace_period_secs a =
     then_st (sm9_get_entry key_id a, a) (\<lambda>entry a.
       if s9e_key_type entry \<noteq> Sm9TypeEncryption then (Inl (master_error (Lit ''Key is not an encryption key'')), a)
       else then_st (map_err (\<lambda>e. master_error (Fmt [Lit ''SM9 key generation failed: '', Str e])) (s9_generate_enc lib g), a) (\<lambda>new_key a.
         then_st (ok_or (master_error (Lit ''No rotation manager for tenant'')) (sa_managers a (s9e_tenant_id entry)), a) (\<lambda>mg a.
           let (r, mg) = s9_rotate_enc lib (now 0) new_key grace_period_secs mg;
               a = put_manager (s9e_tenant_id entry) mg a
           in then_st (map_err (\<lambda>e. master_error (Fmt [Lit ''SM9 enc key rotation failed: '', Str e])) r, a) (\<lambda>(from_version, to_version) a.
              then_st (serialize_enc_master_key lib new_key, a) (\<lambda>key_bytes a.
              then_st (kst_encrypt ks rng key_bytes, a) (\<lambda>_ a.
              then_st (update_registry_version (now 1) (now 2) key_id to_version a) (\<lambda>meta a.
              (Inr \<lparr>s9r_new_version = to_version, s9r_old_version = from_version, s9r_grace_period_secs = grace_period_secs,
                 s9r_meta = meta\<rparr>, a))))))))"

section \<open>Reading the adapter\<close>

definition current_sign_key :: "('m, 'sk, 'ek, 'h) sm9_lib \<Rightarrow> string \<Rightarrow> 'm sm9_adapter \<Rightarrow> kms_error + 'sk option" where
  "current_sign_key lib tenant_id a =
     (case sa_managers a tenant_id of None \<Rightarrow> Inr None | Some mg \<Rightarrow> Inr (s9_current_sign_key lib mg))"

definition current_enc_key :: "('m, 'sk, 'ek, 'h) sm9_lib \<Rightarrow> string \<Rightarrow> 'm sm9_adapter \<Rightarrow> kms_error + 'ek option" where
  "current_enc_key lib tenant_id a =
     (case sa_managers a tenant_id of None \<Rightarrow> Inr None | Some mg \<Rightarrow> Inr (s9_current_enc_key lib mg))"

definition sign_key_version :: "('m, 'sk, 'ek, 'h) sm9_lib \<Rightarrow> string \<Rightarrow> u32 \<Rightarrow> 'm sm9_adapter \<Rightarrow> kms_error + 'sk option" where
  "sign_key_version lib tenant_id version a =
     (case sa_managers a tenant_id of None \<Rightarrow> Inr None | Some mg \<Rightarrow> Inr (s9_get_sign_key lib version mg))"

definition enc_key_version :: "('m, 'sk, 'ek, 'h) sm9_lib \<Rightarrow> string \<Rightarrow> u32 \<Rightarrow> 'm sm9_adapter \<Rightarrow> kms_error + 'ek option" where
  "enc_key_version lib tenant_id version a =
     (case sa_managers a tenant_id of None \<Rightarrow> Inr None | Some mg \<Rightarrow> Inr (s9_get_enc_key lib version mg))"

definition is_sign_key_valid :: "('m, 'sk, 'ek, 'h) sm9_lib \<Rightarrow> time \<Rightarrow> string \<Rightarrow> u32 \<Rightarrow> 'm sm9_adapter \<Rightarrow> bool" where
  "is_sign_key_valid lib now tenant_id version a =
     (case sa_managers a tenant_id of None \<Rightarrow> False | Some mg \<Rightarrow> s9_sign_valid lib now version mg)"

definition is_enc_key_valid :: "('m, 'sk, 'ek, 'h) sm9_lib \<Rightarrow> time \<Rightarrow> string \<Rightarrow> u32 \<Rightarrow> 'm sm9_adapter \<Rightarrow> bool" where
  "is_enc_key_valid lib now tenant_id version a =
     (case sa_managers a tenant_id of None \<Rightarrow> False | Some mg \<Rightarrow> s9_enc_valid lib now version mg)"

definition valid_sign_versions ::
  "('m, 'sk, 'ek, 'h) sm9_lib \<Rightarrow> time \<Rightarrow> (u32 \<Rightarrow> time) \<Rightarrow> string \<Rightarrow> 'm sm9_adapter \<Rightarrow> sm9_version_info list" where
  "valid_sign_versions lib now now_of tenant_id a =
     (case sa_managers a tenant_id of
        None \<Rightarrow> []
      | Some mg \<Rightarrow>
          let current = s9_current_sign_version lib mg
          in map (\<lambda>v. \<lparr>s9v_version = v, s9v_active = (v = current), s9v_grace_expired = (\<not> s9_sign_valid lib (now_of v) v mg)\<rparr>)
               (s9_valid_sign_versions lib now mg))"

definition valid_enc_versions ::
  "('m, 'sk, 'ek, 'h) sm9_lib \<Rightarrow> time \<Rightarrow> (u32 \<Rightarrow> time) \<Rightarrow> string \<Rightarrow> 'm sm9_adapter \<Rightarrow> sm9_version_info list" where
  "valid_enc_versions lib now now_of tenant_id a =
     (case sa_managers a tenant_id of
        None \<Rightarrow> []
      | Some mg \<Rightarrow>
          let current = s9_current_enc_version lib mg
          in map (\<lambda>v. \<lparr>s9v_version = v, s9v_active = (v = current), s9v_grace_expired = (\<not> s9_enc_valid lib (now_of v) v mg)\<rparr>)
               (s9_valid_enc_versions lib now mg))"

definition sign_rotation_history :: "('m, 'sk, 'ek, 'h) sm9_lib \<Rightarrow> string \<Rightarrow> 'm sm9_adapter \<Rightarrow> 'h list" where
  "sign_rotation_history lib tenant_id a = (case sa_managers a tenant_id of None \<Rightarrow> [] | Some mg \<Rightarrow> s9_sign_history lib mg)"

definition enc_rotation_history :: "('m, 'sk, 'ek, 'h) sm9_lib \<Rightarrow> string \<Rightarrow> 'm sm9_adapter \<Rightarrow> 'h list" where
  "enc_rotation_history lib tenant_id a = (case sa_managers a tenant_id of None \<Rightarrow> [] | Some mg \<Rightarrow> s9_enc_history lib mg)"

definition sm9_key_meta :: "time \<Rightarrow> uuid \<Rightarrow> 'm sm9_adapter \<Rightarrow> kms_error + key_meta" where
  "sm9_key_meta now key_id a =
     and_then (sm9_get_entry key_id a) (\<lambda>entry.
     Inr \<lparr>m_id = s9e_kms_key_id entry, m_tenant_id = s9e_tenant_id entry,
        m_name = sm9_name (s9e_key_type entry) (s9e_version entry), m_spec = sm9_spec (s9e_key_type entry),
        m_status = Active, m_created_at = now, m_rotated_at = None, m_version = s9e_version entry,
        m_description = Some (''SM9 '' @ sm9_key_type_display (s9e_key_type entry) @ '' master key''),
        m_metadata = key_metadata_default\<rparr>)"

definition sm9_check_rotation_needed :: "('m, 'sk, 'ek, 'h) sm9_lib \<Rightarrow> uuid \<Rightarrow> u32 \<Rightarrow> 'm sm9_adapter \<Rightarrow> kms_error + bool" where
  "sm9_check_rotation_needed lib key_id max_versions a =
     and_then (sm9_get_entry key_id a) (\<lambda>entry.
       case sa_managers a (s9e_tenant_id entry) of
         None \<Rightarrow> Inr False
       | Some mg \<Rightarrow>
           let current_version = (case s9e_key_type entry of
                 Sm9TypeSigning \<Rightarrow> s9_current_sign_version lib mg | Sm9TypeEncryption \<Rightarrow> s9_current_enc_version lib mg)
           in Inr (max_versions \<le> current_version))"

section \<open>Sealing\<close>

lemma open_seal:
  assumes "aes_works cr" "length kek = 32"
  shows "\<exists>c. seal_with_kek cr kek (Some g) p = Inr c \<and> 12 \<le> length c \<and> open_with_kek cr kek c = Inr p"
proof -
  obtain c t where "aes_seal cr kek (fill_bytes g 12) [] p = Inr (c, t)" "aes_open cr kek (fill_bytes g 12) [] (c @ t) = Inr p"
    using aes_works_seal [OF assms] by metis
  then show ?thesis
    using aes_works_key [OF assms] by (simp add: seal_with_kek_def open_with_kek_def sys_fill_def)
qed

text \<open>
  A master key survives in the table: whatever was stored before, after a store under a working
  database and random source the key is loaded back, with its version, by every store with the same key
  encryption key, be it configured through the environment or given.
\<close>

theorem master_key_in_table_survives:
  assumes "aes_works cr" "env_get_kek hx b64 env var = Inr kek" "length kek = 32"
  shows "\<exists>tb'. master_store (env_kek_store cr hx b64 env var) (Some g) None key version tb = (Inr (), tb')
    \<and> master_load (memory_kek_store cr kek) None tb' = Inr key
    \<and> master_load (env_kek_store cr hx b64 env var) None tb' = Inr key
    \<and> master_get_version None tb' = Inr (Some version) \<and> master_exists None tb' = Inr True
    \<and> is_ok (fst (master_delete None tb')) \<and> \<not> is_ok (master_load (memory_kek_store cr kek) None (snd (master_delete None tb')))"
proof -
  obtain c where "seal_with_kek cr kek (Some g) key = Inr c" "12 \<le> length c" "open_with_kek cr kek c = Inr key"
    using open_seal [OF assms(1,3)] by blast
  then show ?thesis
    using assms(2,3)
    by (simp add: master_store_def master_load_def master_get_version_def master_exists_def master_delete_def
        env_kek_store_def memory_kek_store_def)
qed

section \<open>The adapter\<close>

datatype ('sk, 'ek) sm9_op =
    RegisterSign sys_rng uuid string 'sk
  | RegisterEnc sys_rng uuid string 'ek
  | RotateSign rng sys_rng "nat \<Rightarrow> time" uuid u64
  | RotateEnc rng sys_rng "nat \<Rightarrow> time" uuid u64

fun sm9_step :: "('m, 'sk, 'ek, 'h) sm9_lib \<Rightarrow> kek_store \<Rightarrow> ('sk, 'ek) sm9_op \<Rightarrow> 'm sm9_adapter \<Rightarrow> 'm sm9_adapter" where
  "sm9_step lib ks (RegisterSign r i t key) a = snd (register_sign_key lib ks r i t key a)"
| "sm9_step lib ks (RegisterEnc r i t key) a = snd (register_enc_key lib ks r i t key a)"
| "sm9_step lib ks (RotateSign g r now k n) a = snd (rotate_sign_key lib ks g r now k n a)"
| "sm9_step lib ks (RotateEnc g r now k n) a = snd (rotate_enc_key lib ks g r now k n a)"

text \<open>The tenant whose keys an operation works on.\<close>

fun sm9_tenant :: "('sk, 'ek) sm9_op \<Rightarrow> 'm sm9_adapter \<Rightarrow> string option" where
  "sm9_tenant (RegisterSign r i t key) a = Some t"
| "sm9_tenant (RegisterEnc r i t key) a = Some t"
| "sm9_tenant (RotateSign g r now k n) a = map_option s9e_tenant_id (sa_key_registry a k)"
| "sm9_tenant (RotateEnc g r now k n) a = map_option s9e_tenant_id (sa_key_registry a k)"

text \<open>The shape of every step: one manager is replaced, and one entry is added or gets another version.\<close>

definition sm9_shape :: "'m sm9_adapter \<Rightarrow> string option \<Rightarrow> 'm sm9_adapter \<Rightarrow> bool" where
  "sm9_shape a t a' \<longleftrightarrow> a' = a \<or> (\<exists>u mg. t = Some u \<and> sa_managers a' = (sa_managers a)(u \<mapsto> mg)
     \<and> (sa_key_registry a' = sa_key_registry a
        \<or> (\<exists>k e. sa_key_registry a' = (sa_key_registry a)(k \<mapsto> e) \<and> s9e_tenant_id e = u \<and> s9e_kms_key_id e = k
             \<or> sa_key_registry a k \<noteq> None \<and> (\<exists>v. sa_key_registry a' = (sa_key_registry a)(k \<mapsto> (the (sa_key_registry a k))\<lparr>s9e_version := v\<rparr>)))))"

lemma shape_then:
  "sm9_shape a t b \<Longrightarrow> (\<And>y. x = Inr y \<Longrightarrow> sm9_shape a t (snd (f y b))) \<Longrightarrow> sm9_shape a t (snd (then_st (x, b) f))"
  by (cases x) simp_all

lemma snd_then_return [simp]: "snd (then_st r (\<lambda>x s. (Inr (h x), s))) = snd r"
  by (cases r; cases "fst r") simp_all

lemma shape_refl [simp]: "sm9_shape a t a"
  by (simp add: sm9_shape_def)

lemma shape_put [simp]: "sm9_shape a (Some u) (put_manager u mg a)"
  by (auto simp: sm9_shape_def put_manager_def)

lemma shape_put_add:
  "s9e_tenant_id e = u \<Longrightarrow> s9e_kms_key_id e = k
    \<Longrightarrow> sm9_shape a (Some u) ((put_manager u mg a)\<lparr>sa_key_registry := (sa_key_registry (put_manager u mg a))(k \<mapsto> e)\<rparr>)"
  by (auto simp: sm9_shape_def put_manager_def)

lemma shape_put_version:
  assumes "sa_key_registry a k = Some e"
  shows "sm9_shape a (Some u) ((put_manager u mg a)\<lparr>sa_key_registry := (sa_key_registry a)(k \<mapsto> e\<lparr>s9e_version := v\<rparr>)\<rparr>)"
  unfolding sm9_shape_def
  by (rule disjI2, rule exI [of _ u], rule exI [of _ mg], intro conjI disjI2 exI [of _ k] exI [of _ e] exI [of _ v])
     (simp_all add: put_manager_def assms)

lemma shape_put_update:
  "sm9_shape a (Some u) (snd (update_registry_version now now2 k v (put_manager u mg a)))"
proof (cases "sa_key_registry a k")
  case None
  then have "snd (update_registry_version now now2 k v (put_manager u mg a)) = put_manager u mg a"
    by (simp add: update_registry_version_def put_manager_def)
  then show ?thesis by simp
next
  case (Some e)
  have r: "sa_key_registry (put_manager u mg a) = sa_key_registry a"
    by (simp add: put_manager_def)
  show ?thesis
    using shape_put_version [OF Some] by (simp add: update_registry_version_def r Some Let_def)
qed

lemma step_shape: "sm9_shape a (sm9_tenant x a) (sm9_step lib ks x a)"
proof (cases x)
  case (RegisterSign r i t key)
  then show ?thesis
    by (auto simp: register_sign_key_def Let_def split_def intro!: shape_then shape_put_add)
next
  case (RegisterEnc r i t key)
  then show ?thesis
    by (auto simp: register_enc_key_def Let_def split_def intro!: shape_then shape_put_add)
next
  case (RotateSign g r now k n)
  then show ?thesis
    by (auto simp: rotate_sign_key_def sm9_get_entry_def Let_def split_def intro!: shape_then shape_put_update)
next
  case (RotateEnc g r now k n)
  then show ?thesis
    by (auto simp: rotate_enc_key_def sm9_get_entry_def Let_def split_def intro!: shape_then shape_put_update)
qed

text \<open>Every entry names itself and belongs to a tenant with a manager.\<close>

definition sm9_inv :: "'m sm9_adapter \<Rightarrow> bool" where
  "sm9_inv a \<longleftrightarrow> (\<forall>k e. sa_key_registry a k = Some e \<longrightarrow> s9e_kms_key_id e = k \<and> sa_managers a (s9e_tenant_id e) \<noteq> None)"

lemma shape_inv: "sm9_shape a t a' \<Longrightarrow> sm9_inv a \<Longrightarrow> sm9_inv a'"
  unfolding sm9_shape_def sm9_inv_def by (elim disjE exE conjE) (auto split: if_splits)

interpretation sm9_run: stateful "sm9_step lib ks" "\<lambda>_. True" sm9_inv for lib ks
  by unfold_locales (rule shape_inv [OF step_shape])

text \<open>
  The keys of an adapter stay attached to their manager: after any run, however its operations fail,
  every registered key is listed under its own identifier with the version of its entry, and whether it
  is due is decided by its manager, never by the answer for a missing one.
\<close>

theorem sm9_keys_attached:
  assumes "a = run_ops (sm9_step lib ks) ops sm9_adapter_new" "sa_key_registry a k = Some e"
  shows "(\<exists>meta. sm9_key_meta now k a = Inr meta \<and> m_id meta = k \<and> m_spec meta = sm9_spec (s9e_key_type e)
      \<and> m_version meta = s9e_version e)
    \<and> (\<exists>mg. sa_managers a (s9e_tenant_id e) = Some mg \<and> sm9_check_rotation_needed lib k mx a
        = Inr (mx \<le> (case s9e_key_type e of Sm9TypeSigning \<Rightarrow> s9_current_sign_version lib mg | Sm9TypeEncryption \<Rightarrow> s9_current_enc_version lib mg)))"
proof -
  have "sm9_inv a"
    using sm9_run.run_inv [of ops sm9_adapter_new lib ks] assms(1) by (simp add: list_all_iff sm9_inv_def sm9_adapter_new_def)
  with assms(2) obtain mg where "s9e_kms_key_id e = k" "sa_managers a (s9e_tenant_id e) = Some mg"
    by (auto simp: sm9_inv_def)
  with assms(2) show ?thesis
    by (simp add: sm9_key_meta_def sm9_get_entry_def sm9_check_rotation_needed_def)
qed

fun sm9_spares :: "('m, 'sk, 'ek, 'h) sm9_lib \<Rightarrow> kek_store \<Rightarrow> string \<Rightarrow> ('sk, 'ek) sm9_op list \<Rightarrow> 'm sm9_adapter \<Rightarrow> bool" where
  "sm9_spares lib ks t [] a \<longleftrightarrow> True"
| "sm9_spares lib ks t (x # xs) a \<longleftrightarrow> sm9_tenant x a \<noteq> Some t \<and> sm9_spares lib ks t xs (sm9_step lib ks x a)"

lemma shape_spares: "sm9_shape a s a' \<Longrightarrow> s \<noteq> Some t \<Longrightarrow> sa_managers a' t = sa_managers a t"
  by (auto simp: sm9_shape_def split: if_splits)

text \<open>
  Tenants do not see each other's rotations: as long as no operation works on a key of the tenant,
  its current keys, the keys of its versions and their validity stay what they were.
\<close>

theorem sm9_tenants_separate:
  assumes "sm9_spares lib ks t ops a" "a' = run_ops (sm9_step lib ks) ops a"
  shows "current_sign_key lib t a' = current_sign_key lib t a \<and> current_enc_key lib t a' = current_enc_key lib t a
    \<and> sign_key_version lib t v a' = sign_key_version lib t v a \<and> enc_key_version lib t v a' = enc_key_version lib t v a
    \<and> is_sign_key_valid lib now t v a' = is_sign_key_valid lib now t v a
    \<and> is_enc_key_valid lib now t v a' = is_enc_key_valid lib now t v a
    \<and> valid_sign_versions lib now nows t a' = valid_sign_versions lib now nows t a
    \<and> sign_rotation_history lib t a' = sign_rotation_history lib t a"
proof -
  have "sa_managers (run_ops (sm9_step lib ks) ops a) t = sa_managers a t"
    using assms(1)
  proof (induction ops arbitrary: a)
    case (Cons x ops)
    then show ?case
      using shape_spares [OF step_shape [of a x lib ks], of t] by simp
  qed simp
  then show ?thesis
    by (simp add: assms(2) current_sign_key_def current_enc_key_def sign_key_version_def enc_key_version_def
        is_sign_key_valid_def is_enc_key_valid_def valid_sign_versions_def sign_rotation_history_def)
qed

lemma seal_ignored:
  assumes "\<forall>r p. is_ok (kst_encrypt ks r p)" "\<forall>r p. is_ok (kst_encrypt ks' r p)"
  shows "then_st (kst_encrypt ks r p, a) (\<lambda>_. f) = then_st (kst_encrypt ks' r' p, a) (\<lambda>_. f)"
  using assms(1) [rule_format, of r p] assms(2) [rule_format, of r' p] by (auto simp: is_ok_iff)

text \<open>
  Nothing is persisted: two stores that never fail lead to the same results and the same adapter,
  whatever they seal the keys to, because what they return is dropped.
\<close>

theorem sm9_ciphertext_dropped:
  assumes "\<forall>r p. is_ok (kst_encrypt ks r p)" "\<forall>r p. is_ok (kst_encrypt ks' r p)"
  shows "register_sign_key lib ks r i t key a = register_sign_key lib ks' r' i t key a
    \<and> register_enc_key lib ks r i t ekey a = register_enc_key lib ks' r' i t ekey a
    \<and> rotate_sign_key lib ks g r now k n a = rotate_sign_key lib ks' g r' now k n a
    \<and> rotate_enc_key lib ks g r now k n a = rotate_enc_key lib ks' g r' now k n a"
  using assms by (simp add: register_sign_key_def register_enc_key_def rotate_sign_key_def rotate_enc_key_def seal_ignored [where ks = ks and ks' = ks' and r = r and r' = r'] cong: if_cong)

text \<open>
  A rotation whose new key cannot be sealed is reported as failed, but the manager has rotated: the
  new key is the current one, while the key's entry still names the old version.
\<close>

theorem sm9_failed_seal_rotates:
  assumes "sa_key_registry a k = Some e" "s9e_key_type e = Sm9TypeSigning" "sa_managers a (s9e_tenant_id e) = Some mg"
    and "s9_generate_sign lib g = Inr key" "s9_rotate_sign lib (now 0) key n mg = (Inr (v, v'), mg')"
    and "serialize_sign_master_key lib key = Inr p" "kst_encrypt ks r p = Inl err"
  shows "\<exists>a'. rotate_sign_key lib ks g r now k n a = (Inl err, a')
    \<and> current_sign_key lib (s9e_tenant_id e) a' = Inr (s9_current_sign_key lib mg')
    \<and> sm9_key_meta t k a' = sm9_key_meta t k a"
  using assms
  by (simp add: rotate_sign_key_def sm9_get_entry_def put_manager_def current_sign_key_def sm9_key_meta_def)

text \<open>
  The signing keys of a tenant are one key: after a rotation of one of them every other is due, and
  answered for, by the versions of that one, while its entry keeps its old version number.
\<close>

theorem sm9_tenant_keys_shared:
  assumes "sa_key_registry a k = Some e" "sa_key_registry a kk = Some ee" "k \<noteq> kk"
    and "s9e_tenant_id ee = s9e_tenant_id e" "s9e_key_type e = Sm9TypeSigning" "s9e_key_type ee = Sm9TypeSigning"
    and "rotate_sign_key lib ks g r now k n a = (Inr res, a')"
  shows "sm9_check_rotation_needed lib kk mx a' = sm9_check_rotation_needed lib k mx a'
    \<and> sm9_key_meta t kk a' = sm9_key_meta t kk a
    \<and> (\<exists>meta. sm9_key_meta t k a' = Inr meta \<and> m_version meta = s9r_new_version res)"
proof -
  obtain v where "sa_key_registry a' = (sa_key_registry a)(k \<mapsto> e\<lparr>s9e_version := v\<rparr>)" "s9r_new_version res = v"
    using assms(1,7)
    by (auto simp: rotate_sign_key_def sm9_get_entry_def then_st_Inr update_registry_version_def put_manager_def Let_def
        split_def split: if_splits)
  then show ?thesis
    using assms(2-6) by (simp add: sm9_check_rotation_needed_def sm9_key_meta_def sm9_get_entry_def split: option.split)
qed

section \<open>A small instance\<close>

text \<open>A manager that counts versions from one and keeps the key of each.\<close>

definition mini_sm9 :: "(bytes list, bytes, bytes, unit) sm9_lib" where
  "mini_sm9 = \<lparr>s9_manager_new = [], s9_register_sign = (\<lambda>key mg. (Inr 1, [key])), s9_register_enc = (\<lambda>key mg. (Inr 1, [key])),
     s9_rotate_sign = (\<lambda>t key n mg. (Inr (word_of_nat (length mg), word_of_nat (length mg) + 1), mg @ [key])),
     s9_rotate_enc = (\<lambda>t key n mg. (Inr (word_of_nat (length mg), word_of_nat (length mg) + 1), mg @ [key])),
     s9_current_sign_version = (\<lambda>mg. word_of_nat (length mg)), s9_current_enc_version = (\<lambda>mg. word_of_nat (length mg)),
     s9_current_sign_key = (\<lambda>mg. if mg = [] then None else Some (last mg)), s9_current_enc_key = (\<lambda>mg. None),
     s9_get_sign_key = (\<lambda>v mg. None), s9_get_enc_key = (\<lambda>v mg. None), s9_sign_valid = (\<lambda>t v mg. True), s9_enc_valid = (\<lambda>t v mg. True),
     s9_valid_sign_versions = (\<lambda>t mg. []), s9_valid_enc_versions = (\<lambda>t mg. []), s9_sign_history = (\<lambda>mg. []), s9_enc_history = (\<lambda>mg. []),
     s9_generate_sign = (\<lambda>g. Inr [g 0]), s9_generate_enc = (\<lambda>g. Inr [g 0]), s9_sign_scalar = (\<lambda>key. key),
     s9_sign_point = (\<lambda>key. Some (key, key)), s9_enc_scalar = (\<lambda>key. key), s9_enc_point = (\<lambda>key. Some (key, key))\<rparr>"

definition plain_store :: "bytes \<Rightarrow> kek_store" where
  "plain_store prefix = \<lparr>kst_encrypt = (\<lambda>r p. Inr (prefix @ p)), kst_decrypt = (\<lambda>c. Inr (drop (length prefix) c))\<rparr>"

definition broken_store :: kek_store where
  "broken_store = \<lparr>kst_encrypt = (\<lambda>r p. Inl MasterKeyNotFound), kst_decrypt = (\<lambda>c. Inl MasterKeyNotFound)\<rparr>"

definition mini_adapter :: "bytes list sm9_adapter" where
  "mini_adapter = run_ops (sm9_step mini_sm9 (plain_store []))
     [RegisterSign None 1 ''t'' [1], RegisterSign None 2 ''t'' [2]] sm9_adapter_new"

definition mini_entry :: "uuid \<Rightarrow> sm9_key_entry" where
  "mini_entry i = \<lparr>s9e_tenant_id = ''t'', s9e_key_type = Sm9TypeSigning, s9e_version = 1, s9e_kms_key_id = i\<rparr>"

lemma mini_adapter_eq: "mini_adapter = \<lparr>sa_managers = [''t'' \<mapsto> [[2]]], sa_key_registry = [1 \<mapsto> mini_entry 1, 2 \<mapsto> mini_entry 2]\<rparr>"
  by (simp add: mini_adapter_def mini_sm9_def plain_store_def sm9_adapter_new_def mini_entry_def register_sign_key_def
      serialize_sign_master_key_def put_manager_def manager_or_new_def)

theorem master_key_in_table_survives_witness:
  "\<exists>tb'. master_store (env_kek_store xor_crypto (\<lambda>_. Inr (replicate 32 7)) (\<lambda>_. Inr (replicate 32 7)) (\<lambda>_. Some ''x'') ''SM9_KEK'') (Some (\<lambda>_. 0)) None [1, 2] 3 None
      = (Inr (), tb') \<and> master_load (memory_kek_store xor_crypto (replicate 32 7)) None tb' = Inr [1, 2]"
  using master_key_in_table_survives [OF xor_works, of "\<lambda>_. Inr (replicate 32 7)" "\<lambda>_. Inr (replicate 32 7)" "\<lambda>_. Some ''x''" "''SM9_KEK''"
      "replicate 32 7" "\<lambda>_. 0" "[1, 2]" 3 None]
  by (auto simp: env_get_kek_def)

theorem sm9_keys_attached_witness:
  "\<exists>meta. sm9_key_meta 5 2 mini_adapter = Inr meta \<and> m_version meta = 1"
  using sm9_keys_attached [OF mini_adapter_def, of 2 "mini_entry 2" 5] by (auto simp: mini_adapter_eq mini_entry_def)

theorem sm9_tenants_separate_witness:
  "current_sign_key mini_sm9 ''t'' (sm9_step mini_sm9 (plain_store []) (RegisterSign None 3 ''u'' [9]) mini_adapter) = Inr (Some [2])"
  using sm9_tenants_separate [of mini_sm9 "plain_store []" "''t''" "[RegisterSign None 3 ''u'' [9]]" mini_adapter, OF _ refl]
  by (simp add: mini_adapter_eq current_sign_key_def mini_sm9_def)

theorem sm9_ciphertext_dropped_witness:
  "rotate_sign_key mini_sm9 (plain_store [1]) (\<lambda>_. 5) None (\<lambda>_. 0) 1 60 mini_adapter
    = rotate_sign_key mini_sm9 (plain_store [2, 3]) (\<lambda>_. 5) None (\<lambda>_. 0) 1 60 mini_adapter"
  by (rule conjunct1 [OF conjunct2 [OF conjunct2 [OF sm9_ciphertext_dropped]]]) (simp_all add: plain_store_def)

theorem sm9_failed_seal_rotates_witness:
  "\<exists>a'. rotate_sign_key mini_sm9 broken_store (\<lambda>_. 5) None (\<lambda>_. 0) 1 60 mini_adapter = (Inl MasterKeyNotFound, a')
    \<and> current_sign_key mini_sm9 ''t'' a' = Inr (Some [5])"
proof -
  have "\<exists>a'. rotate_sign_key mini_sm9 broken_store (\<lambda>_. 5) None (\<lambda>_. 0) 1 60 mini_adapter = (Inl MasterKeyNotFound, a')
    \<and> current_sign_key mini_sm9 (s9e_tenant_id (mini_entry 1)) a' = Inr (s9_current_sign_key mini_sm9 [[2], [5]])
    \<and> sm9_key_meta 0 1 a' = sm9_key_meta 0 1 mini_adapter"
    by (rule sm9_failed_seal_rotates [where mg = "[[2]]" and key = "[5]" and v = 1 and v' = 2 and p = "[5, 5, 5]"])
       (simp_all add: mini_adapter_eq mini_entry_def mini_sm9_def broken_store_def serialize_sign_master_key_def)
  then show ?thesis
    by (auto simp: mini_entry_def mini_sm9_def)
qed

theorem sm9_tenant_keys_shared_witness:
  "\<exists>res a'. rotate_sign_key mini_sm9 (plain_store []) (\<lambda>_. 5) None (\<lambda>_. 0) 1 60 mini_adapter = (Inr res, a')
    \<and> sm9_check_rotation_needed mini_sm9 2 2 a' = sm9_check_rotation_needed mini_sm9 1 2 a'"
proof -
  obtain res a' where r: "rotate_sign_key mini_sm9 (plain_store []) (\<lambda>_. 5) None (\<lambda>_. 0) 1 60 mini_adapter = (Inr res, a')"
    by (simp add: rotate_sign_key_def sm9_get_entry_def mini_adapter_eq mini_entry_def mini_sm9_def plain_store_def
        serialize_sign_master_key_def update_registry_version_def put_manager_def Let_def)
  have "sm9_check_rotation_needed mini_sm9 2 2 a' = sm9_check_rotation_needed mini_sm9 1 2 a'"
    by (rule conjunct1 [OF sm9_tenant_keys_shared [OF _ _ _ _ _ _ r, where e = "mini_entry 1" and kk = 2 and ee = "mini_entry 2"]])
       (simp_all add: mini_adapter_eq mini_entry_def)
  with r show ?thesis by blast
qed

end
