(* ===== verification/Rotation.thy ===== *)
theory Rotation
  imports Sm9
begin

text \<open>
  The rotation service, \<^verbatim>\<open>crates/kms-api/src/rotation.rs\<close>: policies, the check of a key against its policy,
  and the rotation itself, by the keystore or, for SM9 keys, by the adapter of \<open>Sm9\<close>. The operation counter
  of the same file is in \<open>Limits\<close>. Metrics and log output are left out.
\<close>

section \<open>Policies\<close>

datatype rotation_policy =
    TimeBased u32
  | UsageBased u64
  | VersionBased u32
  | Combined u32 u64 u32

definition time_based :: "u32 \<Rightarrow> rotation_policy" where
  "time_based n = TimeBased n"

definition usage_based :: "u64 \<Rightarrow> rotation_policy" where
  "usage_based max_operations = UsageBased max_operations"

definition version_based :: "u32 \<Rightarrow> rotation_policy" where
  "version_based max_versions = VersionBased max_versions"

definition rotation_policy_default :: rotation_policy where
  "rotation_policy_default = Combined 90 1000000 10"

text \<open>\<open>Duration::days\<close> and, for a duration of either sign, \<open>num_days\<close>, which rounds towards zero.\<close>

definition days :: "int \<Rightarrow> int" where
  "days n = secs (86400 * n)"

definition num_days :: "int \<Rightarrow> int" where
  "num_days d = (if 0 \<le> d then d div days 1 else - ((- d) div days 1))"

definition policy_needs_rotation :: "time \<Rightarrow> rotation_policy \<Rightarrow> key_meta \<Rightarrow> u64 \<Rightarrow> bool" where
  "policy_needs_rotation now policy meta operation_count =
     (let age = now - m_created_at meta
      in case policy of
           TimeBased n \<Rightarrow> days (uint n) < age
         | UsageBased max_operations \<Rightarrow> max_operations \<le> operation_count
         | VersionBased max_versions \<Rightarrow> max_versions \<le> m_version meta
         | Combined time_days max_operations max_versions \<Rightarrow>
             let age_ok = days (uint time_days) < age;
                 usage_ok = max_operations \<le> operation_count;
                 version_ok = max_versions \<le> m_version meta
             in age_ok \<or> usage_ok \<or> version_ok)"

datatype rotation_reason =
    TimeLimit u32 u64
  | UsageLimit u64 u64
  | VersionLimit u32 u32
  | Manual

fun rotation_reason_display :: "rotation_reason \<Rightarrow> string" where
  "rotation_reason_display (TimeLimit n age) =
     ''time limit ('' @ dec (unat n) @ '' days) exceeded, key is '' @ dec (unat age) @ '' days old''"
| "rotation_reason_display (UsageLimit m n) = ''usage limit ('' @ dec (unat m) @ '') exceeded, actual: '' @ dec (unat n)"
| "rotation_reason_display (VersionLimit m n) = ''version limit ('' @ dec (unat m) @ '') exceeded, current: '' @ dec (unat n)"
| "rotation_reason_display Manual = ''manual rotation''"

record rotation_check_result =
  rc_key_id :: uuid
  rc_needs_rotation :: bool
  rc_reason :: "rotation_reason option"

text \<open>The last constructor stands for a panic inside the keystore.\<close>

datatype rotation_error =
    RotKeystoreError msg
  | RotKeyNotFound uuid
  | PolicyNotTriggered
  | RotOperationNotAllowed string
  | RotPanicked string

fun keystore_failure :: "kms_error \<Rightarrow> rotation_error" where
  "keystore_failure (Panicked p) = RotPanicked p"
| "keystore_failure e = RotKeystoreError (err_display e)"

section \<open>The service\<close>

text \<open>
  The counter is the one on Redis when it is configured; the adapter comes with the library and the store
  it uses. The state is that of the keystore, of Redis and of the adapter.
\<close>

record ('n, 's, 'r, 'm, 'sk, 'ek, 'h) rotation_service =
  rs_keystore :: "('n, 's) backend"
  rs_policy :: rotation_policy
  rs_op_counter :: "('r redis \<times> (uuid \<Rightarrow> string)) option"
  rs_sm9_adapter :: "(('m, 'sk, 'ek, 'h) sm9_lib \<times> kek_store) option"

record ('s, 'r, 'm) rotation_state =
  rt_keystore :: 's
  rt_redis :: 'r
  rt_adapter :: "'m sm9_adapter"

text \<open>The inputs of a call: one environment of the keystore per use, the clock, and the random sources of the adapter.\<close>

record 'n rotation_env =
  rn_keystore :: "nat \<Rightarrow> 'n"
  rn_now :: "nat \<Rightarrow> time"
  rn_rng :: rng
  rn_sys :: sys_rng
  rn_sm9_now :: "nat \<Rightarrow> time"

definition rotation_service_new :: "('n, 's) backend \<Rightarrow> rotation_policy \<Rightarrow> ('n, 's, 'r, 'm, 'sk, 'ek, 'h) rotation_service" where
  "rotation_service_new ks policy = \<lparr>rs_keystore = ks, rs_policy = policy, rs_op_counter = None, rs_sm9_adapter = None\<rparr>"

definition with_default_policy :: "('n, 's) backend \<Rightarrow> ('n, 's, 'r, 'm, 'sk, 'ek, 'h) rotation_service" where
  "with_default_policy ks = rotation_service_new ks rotation_policy_default"

definition with_op_counter ::
  "'r redis \<times> (uuid \<Rightarrow> string) \<Rightarrow> ('n, 's, 'r, 'm, 'sk, 'ek, 'h) rotation_service \<Rightarrow> ('n, 's, 'r, 'm, 'sk, 'ek, 'h) rotation_service" where
  "with_op_counter counter sv = sv\<lparr>rs_op_counter := Some counter\<rparr>"

definition with_sm9_adapter ::
  "('m, 'sk, 'ek, 'h) sm9_lib \<times> kek_store \<Rightarrow> ('n, 's, 'r, 'm, 'sk, 'ek, 'h) rotation_service
    \<Rightarrow> ('n, 's, 'r, 'm, 'sk, 'ek, 'h) rotation_service" where
  "with_sm9_adapter adapter sv = sv\<lparr>rs_sm9_adapter := Some adapter\<rparr>"

definition on_keystore ::
  "('s \<Rightarrow> (kms_error + 'a) \<times> 's) \<Rightarrow> ('s, 'r, 'm) rotation_state \<Rightarrow> (rotation_error + 'a) \<times> ('s, 'r, 'm) rotation_state" where
  "on_keystore f st = (let (r, s) = f (rt_keystore st) in (map_err keystore_failure r, st\<lparr>rt_keystore := s\<rparr>))"

definition on_adapter ::
  "('m sm9_adapter \<Rightarrow> (kms_error + 'a) \<times> 'm sm9_adapter) \<Rightarrow> ('s, 'r, 'm) rotation_state
    \<Rightarrow> (rotation_error + 'a) \<times> ('s, 'r, 'm) rotation_state" where
  "on_adapter f st = (let (r, a) = f (rt_adapter st) in (map_err keystore_failure r, st\<lparr>rt_adapter := a\<rparr>))"

definition determine_reason :: "time \<Rightarrow> rotation_policy \<Rightarrow> key_meta \<Rightarrow> u64 \<Rightarrow> rotation_reason" where
  "determine_reason now policy meta operation_count =
     (let age = (word_of_int (num_days (now - m_created_at meta)) :: u64)
      in case policy of
           TimeBased n \<Rightarrow> TimeLimit n age
         | UsageBased max_operations \<Rightarrow> UsageLimit max_operations operation_count
         | VersionBased max_versions \<Rightarrow> VersionLimit max_versions (m_version meta)
         | Combined _ _ _ \<Rightarrow> Manual)"

definition operation_count_of ::
  "('n, 's, 'r, 'm, 'sk, 'ek, 'h) rotation_service \<Rightarrow> uuid \<Rightarrow> ('s, 'r, 'm) rotation_state \<Rightarrow> u64" where
  "operation_count_of sv key_id st =
     (case rs_op_counter sv of Some (rd, uuid_str) \<Rightarrow> op_get_count rd uuid_str key_id (rt_redis st) | None \<Rightarrow> 0)"

definition check_rotation ::
  "('n, 's, 'r, 'm, 'sk, 'ek, 'h) rotation_service \<Rightarrow> 'n rotation_env \<Rightarrow> uuid \<Rightarrow> ('s, 'r, 'm) rotation_state
    \<Rightarrow> (rotation_error + rotation_check_result) \<times> ('s, 'r, 'm) rotation_state" where
  "check_rotation sv en key_id st =
     then_st (on_keystore (be_get_key_metadata (rs_keystore sv) (rn_keystore en 0) key_id) st) (\<lambda>meta st.
       let operation_count = operation_count_of sv key_id st;
           needs_rotation = policy_needs_rotation (rn_now en 0) (rs_policy sv) meta operation_count;
           reason = (if needs_rotation then Some (determine_reason (rn_now en 1) (rs_policy sv) meta operation_count) else None)
       in (Inr \<lparr>rc_key_id = key_id, rc_needs_rotation = needs_rotation, rc_reason = reason\<rparr>, st))"

definition DEFAULT_GRACE_PERIOD_SECS :: u64 where
  "DEFAULT_GRACE_PERIOD_SECS = 86400"

definition keystore_rotate ::
  "('n, 's, 'r, 'm, 'sk, 'ek, 'h) rotation_service \<Rightarrow> 'n rotation_env \<Rightarrow> uuid \<Rightarrow> string \<Rightarrow> ('s, 'r, 'm) rotation_state
    \<Rightarrow> (rotation_error + key_meta) \<times> ('s, 'r, 'm) rotation_state" where
  "keystore_rotate sv en key_id tenant_id st =
     on_keystore (be_rotate_key (rs_keystore sv) (rn_keystore en 3) key_id tenant_id) st"

definition service_rotate_key ::
  "('n, 's, 'r, 'm, 'sk, 'ek, 'h) rotation_service \<Rightarrow> 'n rotation_env \<Rightarrow> uuid \<Rightarrow> string \<Rightarrow> ('s, 'r, 'm) rotation_state
    \<Rightarrow> (rotation_error + key_meta) \<times> ('s, 'r, 'm) rotation_state" where
  "service_rotate_key sv en key_id tenant_id st =
     (case rs_sm9_adapter sv of
        None \<Rightarrow> keystore_rotate sv en key_id tenant_id st
      | Some (lib, ks) \<Rightarrow>
          then_st (on_keystore (be_get_key_metadata (rs_keystore sv) (rn_keystore en 2) key_id) st) (\<lambda>meta st.
            if m_spec meta = Sm9Signing then
              then_st (on_adapter (rotate_sign_key lib ks (rn_rng en) (rn_sys en) (rn_sm9_now en) key_id DEFAULT_GRACE_PERIOD_SECS) st) (\<lambda>_ st.
              (map_err keystore_failure (sm9_key_meta (rn_sm9_now en 3) key_id (rt_adapter st)), st))
            else if m_spec meta = Sm9Encryption then
              then_st (on_adapter (rotate_enc_key lib ks (rn_rng en) (rn_sys en) (rn_sm9_now en) key_id DEFAULT_GRACE_PERIOD_SECS) st) (\<lambda>_ st.
              (map_err keystore_failure (sm9_key_meta (rn_sm9_now en 3) key_id (rt_adapter st)), st))
            else keystore_rotate sv en key_id tenant_id st))"

definition check_and_rotate ::
  "('n, 's, 'r, 'm, 'sk, 'ek, 'h) rotation_service \<Rightarrow> 'n rotation_env \<Rightarrow> uuid \<Rightarrow> ('s, 'r, 'm) rotation_state
    \<Rightarrow> (rotation_error + key_meta) \<times> ('s, 'r, 'm) rotation_state" where
  "check_and_rotate sv en key_id st =
     then_st (check_rotation sv en key_id st) (\<lambda>check st.
     then_st (on_keystore (be_get_key_metadata (rs_keystore sv) (rn_keystore en 1) key_id) st) (\<lambda>meta st.
       if rc_needs_rotation check then service_rotate_key sv en key_id (m_tenant_id meta) st
       else (Inl PolicyNotTriggered, st)))"

text \<open>The dates of keys are far from the limits of \<open>DateTime\<close>, so adding the lifetime does not overflow.\<close>

definition check_expiring_keys :: "time \<Rightarrow> key_meta list \<Rightarrow> uuid list" where
  "check_expiring_keys now ks =
     (let threshold = days 7
      in map m_id (filter (\<lambda>k.
           if m_status k \<noteq> Active then False
           else let default_lifetime = days 90;
                    expiry = m_created_at k + default_lifetime;
                    remaining = expiry - now
                in remaining > 0 \<and> remaining \<le> threshold) ks))"

section \<open>The service on the software keystore\<close>

lemma keystore_unchanged [simp]: "st\<lparr>rt_keystore := rt_keystore st\<rparr> = st"
  by simp

lemma on_keystore_metadata:
  assumes "rs_keystore sv = software_backend cr"
  shows "on_keystore (be_get_key_metadata (rs_keystore sv) n k) st
    = (case keys (rt_keystore st) k of None \<Rightarrow> (Inl (RotKeystoreError (err_display (KeyNotFound (Id k)))), st) | Some e \<Rightarrow> (Inr (ke_meta e), st))"
  by (simp add: on_keystore_def assms get_key_metadata_def ok_or_def split: option.split)

lemma software_rotate: "be_rotate_key (software_backend cr) n = rotate_key cr (kn_rng n) (kn_now n)"
  by (simp add: software_backend_def fun_eq_iff)

lemma check_rotation_software:
  assumes "rs_keystore sv = software_backend cr"
  shows "check_rotation sv en k st =
    (case keys (rt_keystore st) k of
       None \<Rightarrow> (Inl (RotKeystoreError (err_display (KeyNotFound (Id k)))), st)
     | Some e \<Rightarrow>
         let c = operation_count_of sv k st; b = policy_needs_rotation (rn_now en 0) (rs_policy sv) (ke_meta e) c
         in (Inr \<lparr>rc_key_id = k, rc_needs_rotation = b,
               rc_reason = (if b then Some (determine_reason (rn_now en 1) (rs_policy sv) (ke_meta e) c) else None)\<rparr>, st))"
  by (simp add: check_rotation_def on_keystore_metadata [OF assms] Let_def split: option.split)

lemma check_and_rotate_software:
  assumes "rs_keystore sv = software_backend cr"
  shows "check_and_rotate sv en k st =
    (case keys (rt_keystore st) k of
       None \<Rightarrow> (Inl (RotKeystoreError (err_display (KeyNotFound (Id k)))), st)
     | Some e \<Rightarrow>
         if policy_needs_rotation (rn_now en 0) (rs_policy sv) (ke_meta e) (operation_count_of sv k st)
         then service_rotate_key sv en k (m_tenant_id (ke_meta e)) st
         else (Inl PolicyNotTriggered, st))"
  by (simp add: check_and_rotate_def check_rotation_software [OF assms] on_keystore_metadata [OF assms] Let_def
      split: option.split)

lemma rotate_key_ok:
  assumes "rotate_key cr rng now k t s = (Inr meta, s')"
  shows "\<exists>e mat. keys s k = Some e \<and> m_tenant_id (ke_meta e) = t \<and> can_rotate (m_status (ke_meta e))
    \<and> rotation_material cr rng (m_spec (ke_meta e)) = Inr mat \<and> meta = rotated_meta now (ke_meta e)
    \<and> keys s' k = Some ((archive_material e)\<lparr>ke_meta := meta, ke_material := mat\<rparr>) \<and> (\<forall>j. j \<noteq> k \<longrightarrow> keys s' j = keys s j)"
  using assms
  by (cases "tenant_entry s k t") (auto simp: rotate_key_def tenant_entry_Inr Let_def split: if_splits sum.splits)

text \<open>No reachable software keystore holds a key of an SM9 specification.\<close>

definition no_sm9 :: "'s software_keystore \<Rightarrow> bool" where
  "no_sm9 s \<longleftrightarrow> (\<forall>k e. keys s k = Some e \<longrightarrow> m_spec (ke_meta e) \<notin> {Sm9Signing, Sm9Encryption})"

lemma rotated_spec [simp]: "m_spec (ke_meta (rotated cr rng now e)) = m_spec (ke_meta e)"
  by (simp add: rotated_def archive_material_def rotated_meta_def split: sum.split)

lemma no_sm9_step: "no_sm9 s \<Longrightarrow> no_sm9 (ks_step cr c s)"
proof (cases c)
  case (GenerateKey rng i now spec name t)
  assume "no_sm9 s"
  then show ?thesis
    by (auto simp: GenerateKey no_sm9_def keys_step new_meta_def generate_material_def split: sum.splits if_splits)
next
  case (ImportKeyMaterial i now spec name t mat)
  assume "no_sm9 s"
  then show ?thesis
    by (auto simp: ImportKeyMaterial no_sm9_def keys_step new_meta_def import_check_def map_kms_err_def and_then_Inr kv_bad_def
        split: sum.splits if_splits)
next
  case (RotateKey rng now i t)
  assume "no_sm9 s"
  then show ?thesis
    by (auto simp: RotateKey no_sm9_def keys_step split: if_splits)
qed (auto simp: no_sm9_def keys_step split: if_splits)

interpretation no_sm9_run: stateful "ks_step cr" "\<lambda>_. True" no_sm9 for cr
  by unfold_locales (rule no_sm9_step)

lemma no_sm9_new: "no_sm9 ks_new"
  by (simp add: no_sm9_def ks_new_def)

lemma with_adapter_simps [simp]:
  "rs_policy (with_sm9_adapter ad sv) = rs_policy sv" "operation_count_of (with_sm9_adapter ad sv) k st = operation_count_of sv k st"
  by (simp_all add: with_sm9_adapter_def operation_count_of_def)

text \<open>
  With the software keystore the SM9 adapter is never used: no key of a reachable keystore has an SM9
  specification, so a service with the adapter checks and rotates as one without it.
\<close>

theorem adapter_never_used:
  assumes "rs_keystore sv = software_backend cr" "rs_sm9_adapter sv = None"
    and "rt_keystore st = run_ops (ks_step cr) calls ks_new"
  shows "check_and_rotate (with_sm9_adapter ad sv) en k st = check_and_rotate sv en k st
    \<and> (\<forall>e. keys (rt_keystore st) k = Some e \<longrightarrow> m_spec (ke_meta e) \<noteq> Sm9Signing \<and> m_spec (ke_meta e) \<noteq> Sm9Encryption)"
proof -
  have n: "no_sm9 (rt_keystore st)"
    using no_sm9_run.run_inv [of calls ks_new cr] no_sm9_new by (simp add: assms(3) list_all_iff)
  have sv: "rs_keystore (with_sm9_adapter ad sv) = software_backend cr"
    by (simp add: with_sm9_adapter_def assms(1))
  have r: "service_rotate_key (with_sm9_adapter ad sv) en k t st = service_rotate_key sv en k t st"
    if "keys (rt_keystore st) k = Some e" for e t
    using that n
    by (cases ad) (auto simp: service_rotate_key_def on_keystore_metadata [OF assms(1)] with_sm9_adapter_def assms(2) keystore_rotate_def no_sm9_def)
  have "check_and_rotate (with_sm9_adapter ad sv) en k st = check_and_rotate sv en k st"
    unfolding check_and_rotate_software [OF sv] check_and_rotate_software [OF assms(1)]
    by (auto simp: r split: option.split)
  with n show ?thesis
    by (auto simp: no_sm9_def)
qed

text \<open>
  C38. A successful check and rotation, on the software keystore: the policy was due for the key as it was,
  the key belongs to the same tenant with the next version, the old material is kept under the old
  version, and no other key has changed. When the policy is not due, nothing changes.
\<close>

theorem check_and_rotate_sound:
  assumes "rs_keystore sv = software_backend cr" "rs_sm9_adapter sv = None"
    and "check_and_rotate sv en k st = (r, st')"
  shows "case r of
      Inr meta \<Rightarrow> \<exists>e e'. keys (rt_keystore st) k = Some e \<and> keys (rt_keystore st') k = Some e'
        \<and> policy_needs_rotation (rn_now en 0) (rs_policy sv) (ke_meta e) (operation_count_of sv k st)
        \<and> meta = ke_meta e' \<and> m_tenant_id meta = m_tenant_id (ke_meta e) \<and> m_version meta = m_version (ke_meta e) + 1
        \<and> (m_version (ke_meta e), ke_material e) \<in> set (ke_versions e')
        \<and> (\<forall>j. j \<noteq> k \<longrightarrow> keys (rt_keystore st') j = keys (rt_keystore st) j)
    | Inl err \<Rightarrow> err = PolicyNotTriggered \<longrightarrow> st' = st"
proof (cases "keys (rt_keystore st) k")
  case None
  then show ?thesis
    using assms(3) by (auto simp: check_and_rotate_software [OF assms(1)])
next
  case (Some e)
  show ?thesis
  proof (cases "policy_needs_rotation (rn_now en 0) (rs_policy sv) (ke_meta e) (operation_count_of sv k st)")
    case False
    then show ?thesis
      using assms(3) Some by (auto simp: check_and_rotate_software [OF assms(1)])
  next
    case True
    obtain q s' where q: "rotate_key cr (kn_rng (rn_keystore en 3)) (kn_now (rn_keystore en 3)) k (m_tenant_id (ke_meta e)) (rt_keystore st) = (q, s')"
      by (cases "rotate_key cr (kn_rng (rn_keystore en 3)) (kn_now (rn_keystore en 3)) k (m_tenant_id (ke_meta e)) (rt_keystore st)")
    have r: "r = map_err keystore_failure q" "st' = st\<lparr>rt_keystore := s'\<rparr>"
      using assms(2,3) Some True q
      by (auto simp: check_and_rotate_software [OF assms(1)] service_rotate_key_def keystore_rotate_def on_keystore_def assms(1) software_rotate)
    have n: "keystore_failure x \<noteq> PolicyNotTriggered" for x
      by (cases x) simp_all
    show ?thesis
    proof (cases q)
      case (Inl x)
      then show ?thesis by (simp add: r n)
    next
      case (Inr meta)
      obtain mat where "meta = rotated_meta (kn_now (rn_keystore en 3)) (ke_meta e)"
        "keys s' k = Some ((archive_material e)\<lparr>ke_meta := meta, ke_material := mat\<rparr>)" "\<forall>j. j \<noteq> k \<longrightarrow> keys s' j = keys (rt_keystore st) j"
        using rotate_key_ok [OF q [unfolded Inr]] Some by auto
      then show ?thesis
        using Some True by (simp add: r Inr) (simp add: rotated_meta_def archive_material_def)
    qed
  qed
qed

lemma check_and_rotate_entry:
  assumes "rs_keystore sv = software_backend cr" "rs_sm9_adapter sv = None"
    and "check_and_rotate sv en k st = (Inr meta, st')"
  obtains e e' where "keys (rt_keystore st) k = Some e" "keys (rt_keystore st') k = Some e'"
    "policy_needs_rotation (rn_now en 0) (rs_policy sv) (ke_meta e) (operation_count_of sv k st)"
    "ke_meta e' = rotated_meta (kn_now (rn_keystore en 3)) (ke_meta e)" "rt_redis st' = rt_redis st"
proof -
  obtain e where e: "keys (rt_keystore st) k = Some e"
    and p: "policy_needs_rotation (rn_now en 0) (rs_policy sv) (ke_meta e) (operation_count_of sv k st)"
    using assms(3) by (auto simp: check_and_rotate_software [OF assms(1)] split: option.splits if_splits)
  obtain s' where q: "rotate_key cr (kn_rng (rn_keystore en 3)) (kn_now (rn_keystore en 3)) k (m_tenant_id (ke_meta e)) (rt_keystore st) = (Inr meta, s')"
    "st' = st\<lparr>rt_keystore := s'\<rparr>"
    using assms(2,3) e p
    by (auto simp: check_and_rotate_software [OF assms(1)] service_rotate_key_def keystore_rotate_def on_keystore_def assms(1)
        software_rotate split: prod.splits)
  show ?thesis
  proof -
    obtain mat where "meta = rotated_meta (kn_now (rn_keystore en 3)) (ke_meta e)"
      "keys s' k = Some ((archive_material e)\<lparr>ke_meta := meta, ke_material := mat\<rparr>)"
      using rotate_key_ok [OF q(1)] e by auto
    then show ?thesis
      using e p q(2) by (intro that [of e "(archive_material e)\<lparr>ke_meta := meta, ke_material := mat\<rparr>"]) simp_all
  qed
qed

text \<open>
  A policy that counts operations or versions never rests: once it is due by the count or the version,
  it is due again at every check after the rotation, because a rotation raises the version and leaves the
  counter alone; every further check rotates the key once more.
\<close>

theorem usage_policy_never_rests:
  assumes "rs_keystore sv = software_backend cr" "rs_sm9_adapter sv = None"
    and "check_and_rotate sv en k st = (Inr meta, st')" "keys (rt_keystore st) k = Some e" "m_version (ke_meta e) + 1 \<noteq> 0"
    and "case rs_policy sv of TimeBased n \<Rightarrow> False | UsageBased mo \<Rightarrow> mo \<le> operation_count_of sv k st
      | VersionBased mv \<Rightarrow> mv \<le> m_version (ke_meta e) | Combined n mo mv \<Rightarrow> mo \<le> operation_count_of sv k st \<or> mv \<le> m_version (ke_meta e)"
  shows "\<exists>res. check_rotation sv en' k st' = (Inr res, st') \<and> rc_needs_rotation res"
proof -
  obtain e1 e' where e: "keys (rt_keystore st) k = Some e1" "keys (rt_keystore st') k = Some e'"
    "ke_meta e' = rotated_meta (kn_now (rn_keystore en 3)) (ke_meta e1)" "rt_redis st' = rt_redis st"
    by (rule check_and_rotate_entry [OF assms(1-3)]) (rule that)
  have "m_version (ke_meta e') = m_version (ke_meta e) + 1"
    using e assms(4) by (simp add: rotated_meta_def)
  moreover have "v \<le> m_version (ke_meta e) \<Longrightarrow> v \<le> m_version (ke_meta e) + 1" for v
  proof -
    have "unat (m_version (ke_meta e) + 1) = Suc (unat (m_version (ke_meta e)))"
      using assms(5) by (metis unatSuc add.commute)
    then show "v \<le> m_version (ke_meta e) \<Longrightarrow> v \<le> m_version (ke_meta e) + 1"
      by (simp add: word_le_nat_alt)
  qed
  moreover have "operation_count_of sv k st' = operation_count_of sv k st"
    by (simp add: operation_count_of_def e(4) split: option.split)
  ultimately have "policy_needs_rotation (rn_now en' 0) (rs_policy sv) (ke_meta e') (operation_count_of sv k st')"
    using assms(6) by (auto simp: policy_needs_rotation_def Let_def split: rotation_policy.splits)
  then show ?thesis
    using e(2) by (simp add: check_rotation_software [OF assms(1)] Let_def)
qed

text \<open>
  A policy by age does rest: after a rotation the key is not due before the configured number of days
  since the rotation has passed, and it is due at any later time.
\<close>

theorem time_policy_rests:
  assumes "rs_keystore sv = software_backend cr" "rs_sm9_adapter sv = None" "rs_policy sv = TimeBased n"
    and "check_and_rotate sv en k st = (Inr meta, st')"
  shows "\<exists>res. check_rotation sv en' k st' = (Inr res, st')
    \<and> (rc_needs_rotation res \<longleftrightarrow> kn_now (rn_keystore en 3) + days (uint n) < rn_now en' 0)"
proof -
  obtain e1 e' where e: "keys (rt_keystore st) k = Some e1" "keys (rt_keystore st') k = Some e'"
    "ke_meta e' = rotated_meta (kn_now (rn_keystore en 3)) (ke_meta e1)"
    by (rule check_and_rotate_entry [OF assms(1,2,4)]) (rule that)
  then show ?thesis
    by (auto simp: check_rotation_software [OF assms(1)] Let_def assms(3) policy_needs_rotation_def rotated_meta_def)
qed

text \<open>
  For an SM9 key the service with the adapter does not look at the tenant of the request: whoever
  asks, the answer and the effect are the same.
\<close>

theorem sm9_rotation_any_tenant:
  assumes "rs_sm9_adapter sv = Some ad" "fst (be_get_key_metadata (rs_keystore sv) (rn_keystore en 2) k (rt_keystore st)) = Inr meta"
    and "m_spec meta = Sm9Signing \<or> m_spec meta = Sm9Encryption"
  shows "service_rotate_key sv en k t st = service_rotate_key sv en k t' st"
proof -
  obtain s where "be_get_key_metadata (rs_keystore sv) (rn_keystore en 2) k (rt_keystore st) = (Inr meta, s)"
    using assms(2) by (cases "be_get_key_metadata (rs_keystore sv) (rn_keystore en 2) k (rt_keystore st)") auto
  then show ?thesis
    using assms(1,3) by (cases ad) (auto simp: service_rotate_key_def on_keystore_def)
qed

text \<open>
  The list of expiring keys knows nothing of the policy: a key is on it exactly when it is active and
  between 83 days (included) and 90 days (excluded) old.
\<close>

theorem expiring_keys_window:
  "i \<in> set (check_expiring_keys now ks)
    \<longleftrightarrow> (\<exists>k \<in> set ks. m_id k = i \<and> m_status k = Active \<and> days 83 \<le> now - m_created_at k \<and> now - m_created_at k < days 90)"
  by (auto simp: check_expiring_keys_def days_def secs_def Let_def)

section \<open>A small instance\<close>

definition mini_due :: "uuid \<Rightarrow> unit software_keystore" where
  "mini_due k = snd (generate_key demo_crypto (\<lambda>_. 3) k 0 Aes256Gcm ''key'' ''t'' ks_new)"

definition mini_rotation_state :: "(unit software_keystore, unit, unit) rotation_state" where
  "mini_rotation_state = \<lparr>rt_keystore = mini_due 1, rt_redis = (), rt_adapter = sm9_adapter_new\<rparr>"

definition mini_rotation_service :: "rotation_policy \<Rightarrow> (ks_env, unit software_keystore, unit, unit, bytes, bytes, unit) rotation_service" where
  "mini_rotation_service policy = rotation_service_new (software_backend demo_crypto) policy"

definition mini_rotation_env :: "time \<Rightarrow> ks_env rotation_env" where
  "mini_rotation_env t = \<lparr>rn_keystore = (\<lambda>_. \<lparr>kn_rng = (\<lambda>_. 5), kn_id = 0, kn_now = t, kn_order = []\<rparr>), rn_now = (\<lambda>_. t), rn_rng = (\<lambda>_. 0),
     rn_sys = None, rn_sm9_now = (\<lambda>_. t)\<rparr>"

lemma mini_service_simps [simp]:
  "rs_keystore (mini_rotation_service p) = software_backend demo_crypto" "rs_sm9_adapter (mini_rotation_service p) = None"
  "rs_policy (mini_rotation_service p) = p" "operation_count_of (mini_rotation_service p) k st = 0"
  by (simp_all add: mini_rotation_service_def rotation_service_new_def operation_count_of_def)

lemma mini_due_key: "keys (mini_due 1) 1 = Some \<lparr>ke_meta = new_meta 1 0 Aes256Gcm ''key'' ''t'' None, ke_material = fill_bytes (\<lambda>_. 3) 32, ke_versions = []\<rparr>"
  by (simp add: mini_due_def generate_key_def generate_material_def insert_key_def generate_aes_key_def new_meta_def Let_def)

lemma mini_rotates:
  assumes "policy_needs_rotation t p (new_meta 1 0 Aes256Gcm ''key'' ''t'' None) 0"
  shows "\<exists>meta st'. check_and_rotate (mini_rotation_service p) (mini_rotation_env t) 1 mini_rotation_state = (Inr meta, st')"
proof -
  let ?sv = "mini_rotation_service p"
  have "\<exists>meta s'. rotate_key demo_crypto (\<lambda>_. 5) t 1 ''t'' (mini_due 1) = (Inr meta, s')"
    using mini_due_key by (simp add: rotate_key_def new_meta_def rotation_material_def Let_def can_rotate_def)
  then show ?thesis
    using assms mini_due_key
    by (auto simp: check_and_rotate_software mini_rotation_state_def service_rotate_key_def keystore_rotate_def on_keystore_def software_rotate
        mini_rotation_env_def new_meta_def)
qed

theorem adapter_never_used_witness:
  "check_and_rotate (with_sm9_adapter ad (mini_rotation_service (VersionBased 1))) en k
      \<lparr>rt_keystore = ks_new, rt_redis = (), rt_adapter = sm9_adapter_new\<rparr>
    = check_and_rotate (mini_rotation_service (VersionBased 1)) en k \<lparr>rt_keystore = ks_new, rt_redis = (), rt_adapter = sm9_adapter_new\<rparr>"
  by (rule conjunct1 [OF adapter_never_used [where cr = demo_crypto and calls = "[]"]]) simp_all

theorem check_and_rotate_sound_witness:
  "\<exists>meta st' e'. check_and_rotate (mini_rotation_service (VersionBased 1)) (mini_rotation_env 5) 1 mini_rotation_state = (Inr meta, st')
     \<and> keys (rt_keystore st') 1 = Some e' \<and> meta = ke_meta e' \<and> m_version meta = 2"
proof -
  obtain meta st' where r: "check_and_rotate (mini_rotation_service (VersionBased 1)) (mini_rotation_env 5) 1 mini_rotation_state = (Inr meta, st')"
    using mini_rotates [of 5 "VersionBased 1"] by (auto simp: policy_needs_rotation_def new_meta_def)
  from check_and_rotate_sound [OF _ _ r, of demo_crypto] r show ?thesis
    by (auto simp: mini_rotation_state_def mini_due_key new_meta_def)
qed

theorem usage_policy_never_rests_witness:
  "\<exists>meta st' res. check_and_rotate (mini_rotation_service (VersionBased 1)) (mini_rotation_env 5) 1 mini_rotation_state = (Inr meta, st')
     \<and> check_rotation (mini_rotation_service (VersionBased 1)) (mini_rotation_env 6) 1 st' = (Inr res, st') \<and> rc_needs_rotation res"
proof -
  obtain meta st' where r: "check_and_rotate (mini_rotation_service (VersionBased 1)) (mini_rotation_env 5) 1 mini_rotation_state = (Inr meta, st')"
    using mini_rotates [of 5 "VersionBased 1"] by (auto simp: policy_needs_rotation_def new_meta_def)
  have "\<exists>res. check_rotation (mini_rotation_service (VersionBased 1)) (mini_rotation_env 6) 1 st' = (Inr res, st') \<and> rc_needs_rotation res"
    by (rule usage_policy_never_rests [OF _ _ r, where cr = demo_crypto
        and e = "\<lparr>ke_meta = new_meta 1 0 Aes256Gcm ''key'' ''t'' None, ke_material = fill_bytes (\<lambda>_. 3) 32, ke_versions = []\<rparr>"])
       (simp_all add: mini_rotation_state_def mini_due_key new_meta_def)
  with r show ?thesis by blast
qed

theorem time_policy_rests_witness:
  "\<exists>meta st' res. check_and_rotate (mini_rotation_service (TimeBased 1)) (mini_rotation_env (days 2)) 1 mini_rotation_state = (Inr meta, st')
     \<and> check_rotation (mini_rotation_service (TimeBased 1)) (mini_rotation_env (days 3)) 1 st' = (Inr res, st') \<and> \<not> rc_needs_rotation res"
proof -
  obtain meta st' where r: "check_and_rotate (mini_rotation_service (TimeBased 1)) (mini_rotation_env (days 2)) 1 mini_rotation_state = (Inr meta, st')"
    using mini_rotates [of "days 2" "TimeBased 1"] by (auto simp: policy_needs_rotation_def new_meta_def days_def secs_def)
  have "\<exists>res. check_rotation (mini_rotation_service (TimeBased 1)) (mini_rotation_env (days 3)) 1 st' = (Inr res, st')
    \<and> (rc_needs_rotation res \<longleftrightarrow> kn_now (rn_keystore (mini_rotation_env (days 2)) 3) + days (uint (1 :: u32)) < rn_now (mini_rotation_env (days 3)) 0)"
    by (rule time_policy_rests [OF _ _ _ r]) simp_all
  with r show ?thesis
    by (auto simp: mini_rotation_env_def days_def secs_def)
qed

text \<open>A keystore that knows one SM9 key and refuses everything else is enough to see the last theorem apply.\<close>

definition mini_sm9_backend :: "(unit, unit) backend" where
  "mini_sm9_backend =
     \<lparr>be_generate_key = (\<lambda>_ _ _ _ _. (Inl InvalidCiphertext, ())),
       be_get_key_metadata = (\<lambda>_ k _. (Inr (new_meta k 0 Sm9Signing ''key'' ''t'' None), ())),
       be_encrypt = (\<lambda>_ _ _ _ _ _. (Inl InvalidCiphertext, ())), be_decrypt = (\<lambda>_ _ _ _ _ _. (Inl InvalidCiphertext, ())),
       be_sign = (\<lambda>_ _ _ _ _. (Inl InvalidCiphertext, ())), be_verify = (\<lambda>_ _ _ _ _ _. (Inl InvalidCiphertext, ())),
       be_rotate_key = (\<lambda>_ _ _ _. (Inl InvalidCiphertext, ())), be_delete_key = (\<lambda>_ _ _ _. (Inl InvalidCiphertext, ())),
       be_list_keys = (\<lambda>_ _ _. (Inl InvalidCiphertext, ())), be_import_key_material = (\<lambda>_ _ _ _ _ _. (Inl InvalidCiphertext, ())),
       be_export_key_material = (\<lambda>_ _ _ _. (Inl InvalidCiphertext, ())), be_get_key_material = (\<lambda>_ _ _ _. (Inl InvalidCiphertext, ())),
       be_get_key_material_version = (\<lambda>_ _ _ _ _. (Inl InvalidCiphertext, ()))\<rparr>"

theorem sm9_rotation_any_tenant_witness:
  "service_rotate_key (with_sm9_adapter (mini_sm9, plain_store []) (rotation_service_new mini_sm9_backend (TimeBased 1))) en k ''mallory'' st
    = service_rotate_key (with_sm9_adapter (mini_sm9, plain_store []) (rotation_service_new mini_sm9_backend (TimeBased 1))) en k ''t'' st"
  by (rule sm9_rotation_any_tenant [where ad = "(mini_sm9, plain_store [])" and meta = "new_meta k 0 Sm9Signing ''key'' ''t'' None"])
     (simp_all add: with_sm9_adapter_def rotation_service_new_def mini_sm9_backend_def new_meta_def)

end
