(* ===== verification/Timestamp.thy ===== *)
theory Timestamp
  imports Worm Key_Format
begin

unbundle bit_operations_syntax

text \<open>
  The client of RFC 3161 time-stamping authorities, \<^verbatim>\<open>crates/kms-audit/src/timestamp.rs\<close>: the encoder of
  requests, the cursor that reads answers, and the trial of one endpoint after the other. The answer
  of an endpoint is an argument, and so are the random bytes and the clock. Positions are
  natural numbers below the size of a slice; where a sum of the source wraps, that is written out.
\<close>

section \<open>Requests\<close>

datatype tsa_error =
    TsaNetwork msg
  | TsaRefused msg
  | TsaInternal msg
  | TsaPanicked

datatype hash_algorithm = TsSha256 | TsSm3

definition oid_bytes :: "hash_algorithm \<Rightarrow> bytes" where
  "oid_bytes a =
     (case a of
        TsSha256 \<Rightarrow> [0x60, 0x86, 0x48, 0x01, 0x65, 0x03, 0x04, 0x02, 0x01]
      | TsSm3 \<Rightarrow> [0x2a, 0x81, 0x1c, 0xcf, 0x55, 0x01, 0x83, 0x11])"

definition as_oid :: "hash_algorithm \<Rightarrow> string" where
  "as_oid a = (case a of TsSha256 \<Rightarrow> ''2.16.840.1.101.3.4.2.1'' | TsSm3 \<Rightarrow> ''1.2.156.10197.1.401'')"

definition digest_len :: "hash_algorithm \<Rightarrow> nat" where
  "digest_len a = (case a of TsSha256 \<Rightarrow> 32 | TsSm3 \<Rightarrow> 32)"

record timestamp_config =
  tc_server_url :: string
  tc_timeout_secs :: u64
  tc_username :: "string option"
  tc_password :: "string option"
  tc_hash_algorithm :: hash_algorithm
  tc_nonce_size :: nat
  tc_max_time_skew_secs :: u64
  tc_ca_path :: "string option"

definition timestamp_config_default :: timestamp_config where
  "timestamp_config_default =
     \<lparr>tc_server_url = [], tc_timeout_secs = 10, tc_username = None, tc_password = None, tc_hash_algorithm = TsSha256,
      tc_nonce_size = 8, tc_max_time_skew_secs = 300, tc_ca_path = None\<rparr>"

record tsa_client_config =
  cc_endpoints :: "string list"
  cc_timeout_secs :: u64
  cc_username :: "string option"
  cc_password :: "string option"
  cc_hash_algorithm :: hash_algorithm
  cc_ca_path :: "string option"

definition tsa_client_config_default :: tsa_client_config where
  "tsa_client_config_default =
     \<lparr>cc_endpoints = [], cc_timeout_secs = 10, cc_username = None, cc_password = None, cc_hash_algorithm = TsSha256, cc_ca_path = None\<rparr>"

definition to_endpoint_config :: "tsa_client_config \<Rightarrow> string \<Rightarrow> timestamp_config" where
  "to_endpoint_config c url =
     \<lparr>tc_server_url = url, tc_timeout_secs = cc_timeout_secs c, tc_username = cc_username c, tc_password = cc_password c,
      tc_hash_algorithm = cc_hash_algorithm c, tc_nonce_size = 8, tc_max_time_skew_secs = 300, tc_ca_path = cc_ca_path c\<rparr>"

definition der_len :: "nat \<Rightarrow> bytes" where
  "der_len n =
     (if n < 128 then [word_of_nat n]
      else if n < 256 then [0x81, word_of_nat n]
      else [0x82, word_of_nat (n div 256), word_of_nat (n mod 256)])"

definition der_tlv :: "u8 \<Rightarrow> bytes \<Rightarrow> bytes" where
  "der_tlv tag value = tag # der_len (length value) @ value"

definition der_integer_bytes :: "bytes \<Rightarrow> bytes" where
  "der_integer_bytes b = der_tlv 0x02 b"

definition der_octet_string :: "bytes \<Rightarrow> bytes" where
  "der_octet_string b = der_tlv 0x04 b"

definition der_oid :: "bytes \<Rightarrow> bytes" where
  "der_oid b = der_tlv 0x06 b"

definition der_null :: bytes where
  "der_null = [0x05, 0x00]"

definition der_boolean :: "bool \<Rightarrow> bytes" where
  "der_boolean v = [0x01, 0x01, if v then 0xFF else 0x00]"

definition der_sequence :: "bytes \<Rightarrow> bytes" where
  "der_sequence b = der_tlv 0x30 b"

text \<open>The subtraction \<open>bytes.len() - 1\<close> wraps on the empty slice, and the index then panics.\<close>

fun strip_zeros :: "bytes \<Rightarrow> bytes" where
  "strip_zeros [] = []"
| "strip_zeros [b] = [b]"
| "strip_zeros (b # c # bs) = (if b = 0 then strip_zeros (c # bs) else b # c # bs)"

definition strip_leading_zeros :: "bytes \<Rightarrow> bytes option" where
  "strip_leading_zeros bs = (if bs = [] then None else Some (strip_zeros bs))"

definition build_timestamp_request :: "bytes \<Rightarrow> bytes \<Rightarrow> hash_algorithm \<Rightarrow> bytes" where
  "build_timestamp_request digest nonce algorithm =
     (let alg_id = der_sequence (der_oid (oid_bytes algorithm) @ der_null);
          message_imprint = der_sequence (alg_id @ der_octet_string digest);
          version = der_integer_bytes [0x01];
          nonce_der = der_integer_bytes nonce;
          cert_req = der_boolean True
      in der_sequence (version @ message_imprint @ nonce_der @ cert_req))"

section \<open>The cursor\<close>

record der_cursor =
  dc_bytes :: bytes
  dc_pos :: nat

definition der_cursor_new :: "bytes \<Rightarrow> der_cursor" where
  "der_cursor_new b = \<lparr>dc_bytes = b, dc_pos = 0\<rparr>"

definition remaining :: "der_cursor \<Rightarrow> nat" where
  "remaining c = length (dc_bytes c) - dc_pos c"

definition internal_lit :: "string \<Rightarrow> tsa_error" where
  "internal_lit s = TsaInternal (Lit s)"

definition peek_tag :: "der_cursor \<Rightarrow> tsa_error + u8" where
  "peek_tag c =
     (if length (dc_bytes c) \<le> dc_pos c then Inl (TsaInternal (Fmt [Lit ''unexpected end of DER at position '', Num (dc_pos c)]))
      else Inr (dc_bytes c ! dc_pos c))"

definition advance :: "nat \<Rightarrow> der_cursor \<Rightarrow> der_cursor" where
  "advance n c = c\<lparr>dc_pos := dc_pos c + n\<rparr>"

definition read_tag :: "der_cursor \<Rightarrow> (tsa_error + u8) \<times> der_cursor" where
  "read_tag c = then_st (peek_tag c, c) (\<lambda>tag c. (Inr tag, advance 1 c))"

text \<open>The length is a \<open>usize\<close>: bits shifted out of its 64 are lost.\<close>

definition read_length :: "der_cursor \<Rightarrow> (tsa_error + nat) \<times> der_cursor" where
  "read_length c =
     (if length (dc_bytes c) \<le> dc_pos c then (Inl (internal_lit ''unexpected end of DER reading length''), c)
      else
        let first = dc_bytes c ! dc_pos c; c = advance 1 c
        in if first < 0x80 then (Inr (unat first), c)
           else
             let num_octets = unat (first AND 0x7F)
             in if length (dc_bytes c) < dc_pos c + num_octets then (Inl (internal_lit ''DER length extends past end of data''), c)
                else (Inr (foldl (\<lambda>len b. (len * 256 + unat b) mod 2 ^ 64) 0 (take num_octets (drop (dc_pos c) (dc_bytes c)))),
                      advance num_octets c))"

text \<open>When \<open>pos + count\<close> wraps, the wrapped sum passes the check and the slice panics.\<close>

definition read_bytes :: "nat \<Rightarrow> der_cursor \<Rightarrow> (tsa_error + bytes) \<times> der_cursor" where
  "read_bytes count c =
     (if 2 ^ 64 \<le> dc_pos c + count then (Inl TsaPanicked, c)
      else if length (dc_bytes c) < dc_pos c + count then
        (Inl (TsaInternal (Fmt [Lit ''not enough bytes: need '', Num count, Lit '' have '', Num (remaining c)])), c)
      else (Inr (take count (drop (dc_pos c) (dc_bytes c))), advance count c))"

definition read_value :: "der_cursor \<Rightarrow> (tsa_error + bytes) \<times> der_cursor" where
  "read_value c = then_st (read_length c) read_bytes"

definition read_tlv_value :: "der_cursor \<Rightarrow> (tsa_error + bytes) \<times> der_cursor" where
  "read_tlv_value c = then_st (read_tag c) (\<lambda>_ c. read_value c)"

text \<open>The readers of one kind of element compare the tag first.\<close>

definition read_tagged :: "u8 \<Rightarrow> string \<Rightarrow> der_cursor \<Rightarrow> (tsa_error + bytes) \<times> der_cursor" where
  "read_tagged want name c =
     then_st (read_tag c) (\<lambda>tag c.
       if tag \<noteq> want then (Inl (TsaInternal (Fmt [Lit ''expected '', Lit name, Lit '', got 0x'', Num (unat tag)])), c)
       else read_value c)"

definition read_sequence_content :: "der_cursor \<Rightarrow> (tsa_error + der_cursor) \<times> der_cursor" where
  "read_sequence_content c = then_st (read_tagged 0x30 ''SEQUENCE (0x30)'' c) (\<lambda>content c. (Inr (der_cursor_new content), c))"

definition read_integer :: "der_cursor \<Rightarrow> (tsa_error + bytes) \<times> der_cursor" where
  "read_integer c = read_tagged 0x02 ''INTEGER (0x02)'' c"

definition read_octet_string :: "der_cursor \<Rightarrow> (tsa_error + bytes) \<times> der_cursor" where
  "read_octet_string c = read_tagged 0x04 ''OCTET STRING (0x04)'' c"

definition skip_set :: "der_cursor \<Rightarrow> (tsa_error + unit) \<times> der_cursor" where
  "skip_set c = then_st (read_tagged 0x31 ''SET (0x31)'' c) (\<lambda>_ c. (Inr (), c))"

section \<open>Identifiers and times\<close>

fun oid_arcs :: "u32 option \<Rightarrow> bytes \<Rightarrow> u32 list" where
  "oid_arcs None [] = []"
| "oid_arcs (Some val) [] = [val]"
| "oid_arcs v (b # bs) =
     (let val = push_bit 7 (case v of Some x \<Rightarrow> x | None \<Rightarrow> 0) OR (ucast b AND 0x7F)
      in if b AND 0x80 = 0 then val # oid_arcs None bs else oid_arcs (Some val) bs)"

fun decimal :: "nat \<Rightarrow> string" where
  "decimal n = (if n < 10 then [char_of (48 + n)] else decimal (n div 10) @ [char_of (48 + n mod 10)])"

definition oid_bytes_to_string :: "bytes \<Rightarrow> string" where
  "oid_bytes_to_string bs =
     (case bs of
        [] \<Rightarrow> []
      | b # bs \<Rightarrow> decimal (unat b div 40) @ ''.'' @ decimal (unat b mod 40)
          @ concat (map (\<lambda>v. CHR ''.'' # decimal (unat v)) (oid_arcs None bs)))"

definition read_oid :: "der_cursor \<Rightarrow> (tsa_error + string) \<times> der_cursor" where
  "read_oid c = then_st (read_tagged 0x06 ''OID (0x06)'' c) (\<lambda>b c. (Inr (oid_bytes_to_string b), c))"

text \<open>
  Text is its bytes. Slicing it off the boundary of a character panics; \<open>parse\<close> reads an optional sign
  and at least one digit.
\<close>

definition char_boundary :: "bytes \<Rightarrow> nat \<Rightarrow> bool" where
  "char_boundary s i \<longleftrightarrow> i = 0 \<or> i = length s \<or> i < length s \<and> \<not> utf8_cont (s ! i)"

definition str_slice :: "bytes \<Rightarrow> nat \<Rightarrow> nat \<Rightarrow> tsa_error + bytes" where
  "str_slice s a b =
     (if a \<le> b \<and> b \<le> length s \<and> char_boundary s a \<and> char_boundary s b then Inr (take (b - a) (drop a s)) else Inl TsaPanicked)"

definition ascii_digit :: "u8 \<Rightarrow> bool" where
  "ascii_digit b \<longleftrightarrow> 48 \<le> b \<and> b \<le> 57"

definition parse_digit_bytes :: "bytes \<Rightarrow> nat option" where
  "parse_digit_bytes ds =
     (if ds = [] \<or> \<not> list_all ascii_digit ds then None else Some (foldl (\<lambda>n b. n * 10 + unat (b - 48)) 0 ds))"

definition parse_u32_text :: "bytes \<Rightarrow> nat option" where
  "parse_u32_text s = (case s of b # r \<Rightarrow> if b = 43 then parse_digit_bytes r else parse_digit_bytes s | [] \<Rightarrow> None)"

definition parse_i32_text :: "bytes \<Rightarrow> int option" where
  "parse_i32_text s =
     (case s of b # r \<Rightarrow> if b = 45 then map_option (\<lambda>n. - int n) (parse_digit_bytes r) else map_option int (parse_u32_text s) | [] \<Rightarrow> None)"

definition is_leap :: "int \<Rightarrow> bool" where
  "is_leap year \<longleftrightarrow> year mod 4 = 0 \<and> year mod 100 \<noteq> 0 \<or> year mod 400 = 0"

definition time_field :: "bytes \<Rightarrow> nat \<Rightarrow> string \<Rightarrow> tsa_error + nat" where
  "time_field rest a name =
     and_then (str_slice rest a (a + 2)) (\<lambda>f. ok_or (TsaInternal (Fmt [Lit ''invalid '', Lit name])) (parse_u32_text f))"

definition days_before_month :: "u32 list" where
  "days_before_month = [0, 31, 59, 90, 120, 151, 181, 212, 243, 273, 304, 334]"

text \<open>Days are counted in 32 bits; the table has no entry for a month outside the year.\<close>

definition unix_seconds :: "int \<Rightarrow> nat \<Rightarrow> nat \<Rightarrow> nat \<Rightarrow> nat \<Rightarrow> nat \<Rightarrow> tsa_error + int" where
  "unix_seconds year month day hour minute second =
     (if month < 1 \<or> 12 < month then Inl TsaPanicked
      else
        let days = word_of_int (year - 1970) * 365 + word_of_nat (length (filter is_leap [1970..year - 1]))
                   + days_before_month ! (month - 1) + (if month > 2 \<and> is_leap year then 1 else 0) + (word_of_nat day - 1) :: u32
        in Inr (uint days * 86400 + int hour * 3600 + int minute * 60 + int second))"

definition parse_time_parts :: "int \<Rightarrow> bytes \<Rightarrow> tsa_error + int" where
  "parse_time_parts year rest =
     and_then (time_field rest 0 ''month'') (\<lambda>month.
     and_then (time_field rest 2 ''day'') (\<lambda>day.
     and_then (time_field rest 4 ''hour'') (\<lambda>hour.
     and_then (time_field rest 6 ''minute'') (\<lambda>minute.
     and_then (time_field rest 8 ''second'') (\<lambda>second.
     unix_seconds year month day hour minute second)))))"

definition time_value :: "u8 \<Rightarrow> bytes \<Rightarrow> tsa_error + int" where
  "time_value tag text =
     (if tag = 0x17 \<and> 12 \<le> length text then
        and_then (str_slice text 0 2) (\<lambda>y.
        and_then (ok_or (internal_lit ''invalid UTCTime year'') (parse_i32_text y)) (\<lambda>yy.
        and_then (str_slice text 2 (length text)) (\<lambda>rest.
        parse_time_parts (if yy \<ge> 50 then 1900 + yy else 2000 + yy) rest)))
      else if tag = 0x18 \<and> 14 \<le> length text then
        and_then (str_slice text 0 4) (\<lambda>y.
        and_then (ok_or (internal_lit ''invalid GeneralizedTime year'') (parse_i32_text y)) (\<lambda>year.
        and_then (str_slice text 4 (length text)) (\<lambda>rest. parse_time_parts year rest)))
      else Inl (TsaInternal (Fmt [Lit ''invalid time format: '', DbgBytes text])))"

definition read_time :: "der_cursor \<Rightarrow> (tsa_error + int) \<times> der_cursor" where
  "read_time c =
     then_st (read_tag c) (\<lambda>tag c.
       if tag \<noteq> 0x17 \<and> tag \<noteq> 0x18 then
         (Inl (TsaInternal (Fmt [Lit ''expected UTCTime (0x17) or GeneralizedTime (0x18), got 0x'', Num (unat tag)])), c)
       else
         then_st (read_value c) (\<lambda>text c.
           (if \<not> utf8_valid text then Inl (internal_lit ''time is not valid UTF-8'') else time_value tag text, c)))"

section \<open>Answers\<close>

record timestamp_response =
  tr_token :: bytes
  tr_serial_number :: bytes
  tr_accuracy_millis :: u32
  tr_timestamp :: int
  tr_policy :: string

text \<open>A time before the epoch is cast to a huge number of seconds, and the addition to the epoch panics.\<close>

definition response_of_trusted :: "trusted_timestamp \<Rightarrow> tsa_error + timestamp_response" where
  "response_of_trusted ts =
     (if tt_gen_time ts < 0 then Inl TsaPanicked
      else Inr \<lparr>tr_token = tt_raw_token ts, tr_serial_number = tt_serial_number ts, tr_accuracy_millis = tt_accuracy_millis ts,
                tr_timestamp = tt_gen_time ts, tr_policy = tt_policy ts\<rparr>)"

text \<open>One step of reading with a cursor of its own; what follows uses the cursor moved on.\<close>

definition reading ::
  "(der_cursor \<Rightarrow> (tsa_error + 'a) \<times> der_cursor) \<Rightarrow> der_cursor \<Rightarrow> ('a \<Rightarrow> der_cursor \<Rightarrow> tsa_error + 'b) \<Rightarrow> tsa_error + 'b" where
  "reading f c k = (case f c of (Inl e, _) \<Rightarrow> Inl e | (Inr x, c') \<Rightarrow> k x c')"

definition check_status :: "bytes \<Rightarrow> der_cursor \<Rightarrow> tsa_error + unit" where
  "check_status status c =
     (let status_val = (case status of [] \<Rightarrow> 0 | b # _ \<Rightarrow> unat b)
      in if status_val = 0 \<or> status_val = 1 then Inr ()
         else if status_val = 2 then
           (if remaining c > 0 then
              (case fst (read_tlv_value c) of
                 Inl TsaPanicked \<Rightarrow> Inl TsaPanicked
               | Inl _ \<Rightarrow> Inl (TsaRefused (Lit ''TSA rejected request (status=2): unknown''))
               | Inr v \<Rightarrow> Inl (TsaRefused (Fmt [Lit ''TSA rejected request (status=2): '', DbgBytes v])))
            else Inl (TsaRefused (Lit ''TSA rejected request (status=2): no details'')))
         else Inl (TsaRefused (Fmt [Lit ''TSA returned unexpected status: '', Num status_val])))"

definition next_is :: "u8 \<Rightarrow> der_cursor \<Rightarrow> bool" where
  "next_is tag c \<longleftrightarrow> remaining c > 0 \<and> peek_tag c = Inr tag"

text \<open>The optional elements of a \<open>TSTInfo\<close> after the time: the accuracy in milliseconds, and the nonce.\<close>

definition read_accuracy :: "der_cursor \<Rightarrow> (tsa_error + u32) \<times> der_cursor" where
  "read_accuracy c =
     (if next_is 0x30 c then
        then_st (read_sequence_content c) (\<lambda>acc c.
          let (r, acc) = (if next_is 0x02 acc then read_integer acc else (Inr [], acc))
          in (and_then r (\<lambda>_.
                if next_is 0x02 acc then
                  and_then (fst (read_integer acc)) (\<lambda>millis_bytes.
                    Inr (if millis_bytes = [] then 1000 else foldl (\<lambda>m b. push_bit 8 m OR ucast b) 0 millis_bytes))
                else Inr 1000), c))
      else (Inr 1000, c))"

definition read_nonce :: "der_cursor \<Rightarrow> (tsa_error + bytes) \<times> der_cursor" where
  "read_nonce c = (if next_is 0x02 c then read_integer c else (Inr [], c))"

text \<open>A nonce that differs from the one sent is only logged.\<close>

definition parse_tst_info :: "bytes \<Rightarrow> bytes \<Rightarrow> bytes \<Rightarrow> tsa_error + timestamp_response" where
  "parse_tst_info raw_token expected_digest tstinfo_bytes =
     reading read_sequence_content (der_cursor_new tstinfo_bytes) (\<lambda>tst _.
     reading read_integer tst (\<lambda>_ tst.
     reading read_oid tst (\<lambda>policy tst.
     reading read_sequence_content tst (\<lambda>mi tst.
     reading read_tlv_value mi (\<lambda>_ mi.
     reading read_octet_string mi (\<lambda>hashed_msg _.
     if hashed_msg \<noteq> expected_digest then
       Inl (TsaRefused (Fmt [Lit ''TSA response digest mismatch: expected '', DbgBytes expected_digest, Lit '', got '', DbgBytes hashed_msg]))
     else
       reading read_integer tst (\<lambda>serial tst.
       reading read_time tst (\<lambda>gen_time tst.
       reading read_accuracy tst (\<lambda>accuracy_millis tst.
       reading read_nonce tst (\<lambda>_ _.
       Inr \<lparr>tr_token = raw_token, tr_serial_number = serial, tr_accuracy_millis = accuracy_millis,
            tr_timestamp = gen_time, tr_policy = policy\<rparr>))))))))))"

definition parse_token :: "bytes \<Rightarrow> bytes \<Rightarrow> bytes \<Rightarrow> tsa_error + timestamp_response" where
  "parse_token raw_token expected_digest token_tlv =
     reading read_oid (der_cursor_new token_tlv) (\<lambda>_ ci.
     reading (read_tagged 0xA0 ''[0] EXPLICIT (0xA0)'') ci (\<lambda>sd_bytes _.
     reading read_sequence_content (der_cursor_new sd_bytes) (\<lambda>sd _.
     reading read_tlv_value sd (\<lambda>_ sd.
     reading skip_set sd (\<lambda>_ sd.
     reading read_sequence_content sd (\<lambda>eci _.
     reading read_oid eci (\<lambda>_ eci.
     reading (read_tagged 0xA0 ''[0] EXPLICIT for eContent'') eci (\<lambda>ec_bytes _.
     reading read_octet_string (der_cursor_new ec_bytes) (\<lambda>tstinfo_bytes _.
     parse_tst_info raw_token expected_digest tstinfo_bytes)))))))))"

text \<open>The token kept is cut from the whole answer, at the positions its cursor has inside the outer sequence.\<close>

definition parse_timestamp_response :: "bytes \<Rightarrow> bytes \<Rightarrow> tsa_error + timestamp_response" where
  "parse_timestamp_response response expected_digest =
     reading read_sequence_content (der_cursor_new response) (\<lambda>resp _.
     reading read_sequence_content resp (\<lambda>status_cursor resp.
     reading read_integer status_cursor (\<lambda>status status_cursor.
     and_then (check_status status status_cursor) (\<lambda>_.
     if remaining resp = 0 then Inl (TsaRefused (Lit ''TSA response has no TimeStampToken (granted but no token)''))
     else
       let token_start = dc_pos resp
       in reading read_tlv_value resp (\<lambda>token_tlv resp.
            parse_token (take (dc_pos resp - token_start) (drop token_start response)) expected_digest token_tlv)))))"

text \<open>The second look at a stored token. A tag other than the expected one answers false here.\<close>

definition reading_context :: "der_cursor \<Rightarrow> (bytes \<Rightarrow> tsa_error + bool) \<Rightarrow> tsa_error + bool" where
  "reading_context c k =
     reading read_tag c (\<lambda>tag c. if tag \<noteq> 0xA0 then Inr False else reading read_value c (\<lambda>b _. k b))"

definition verify_digest_in_token :: "bytes \<Rightarrow> bytes \<Rightarrow> tsa_error + bool" where
  "verify_digest_in_token token expected_digest =
     reading read_sequence_content (der_cursor_new token) (\<lambda>ci _.
     reading read_oid ci (\<lambda>_ ci.
     reading_context ci (\<lambda>sd_bytes.
     reading read_sequence_content (der_cursor_new sd_bytes) (\<lambda>sd _.
     reading read_tlv_value sd (\<lambda>_ sd.
     reading skip_set sd (\<lambda>_ sd.
     reading read_sequence_content sd (\<lambda>eci _.
     reading read_oid eci (\<lambda>_ eci.
     reading_context eci (\<lambda>ec_bytes.
     reading read_octet_string (der_cursor_new ec_bytes) (\<lambda>tstinfo_bytes _.
     reading read_sequence_content (der_cursor_new tstinfo_bytes) (\<lambda>tst _.
     reading read_integer tst (\<lambda>_ tst.
     reading read_oid tst (\<lambda>_ tst.
     reading read_sequence_content tst (\<lambda>mi _.
     reading read_tlv_value mi (\<lambda>_ mi.
     reading read_octet_string mi (\<lambda>digest _.
     Inr (digest = expected_digest)))))))))))))))))"

section \<open>The authority\<close>

text \<open>\<open>last_nonce\<close> is the state; \<open>tsa\<close> is what posting a request to an endpoint yields.\<close>

record timestamp_authority =
  ta_config :: timestamp_config
  ta_last_nonce :: "bytes option"

text \<open>\<open>client\<close> is the outcome of building the HTTP client.\<close>

definition authority_new :: "string + unit \<Rightarrow> timestamp_config \<Rightarrow> tsa_error + timestamp_authority" where
  "authority_new client config =
     (case client of
        Inl e \<Rightarrow> Inl (TsaNetwork (Fmt [Lit ''Failed to create HTTP client for TSA: '', Str e]))
      | Inr _ \<Rightarrow> Inr \<lparr>ta_config = config, ta_last_nonce = None\<rparr>)"

definition from_client_config :: "string + unit \<Rightarrow> tsa_client_config \<Rightarrow> tsa_error + timestamp_authority" where
  "from_client_config client cfg =
     authority_new client (to_endpoint_config cfg (case cc_endpoints cfg of e # _ \<Rightarrow> e | [] \<Rightarrow> []))"

type_synonym tsa_network = "string \<Rightarrow> bytes \<Rightarrow> msg + bytes"

definition request_timestamp_internal ::
  "tsa_network \<Rightarrow> (nat \<Rightarrow> u8) \<Rightarrow> bytes \<Rightarrow> string \<Rightarrow> timestamp_authority \<Rightarrow> (tsa_error + timestamp_response) \<times> timestamp_authority" where
  "request_timestamp_internal tsa rng digest endpoint ta =
     (let nonce = fill_bytes rng (tc_nonce_size (ta_config ta))
      in case strip_leading_zeros nonce of
           None \<Rightarrow> (Inl TsaPanicked, ta)
         | Some nonce_for_der \<Rightarrow>
             let ta = ta\<lparr>ta_last_nonce := Some nonce\<rparr>;
                 request = build_timestamp_request digest nonce_for_der (tc_hash_algorithm (ta_config ta))
             in (case tsa endpoint request of
                   Inl e \<Rightarrow> Inl (TsaNetwork e)
                 | Inr response \<Rightarrow>
                     map_err (\<lambda>e. case e of TsaPanicked \<Rightarrow> TsaPanicked
                                    | TsaInternal m \<Rightarrow> TsaRefused (Fmt [Lit ''TSA response parsing failed: '', m])
                                    | TsaRefused m \<Rightarrow> TsaRefused (Fmt [Lit ''TSA response parsing failed: '', m])
                                    | TsaNetwork m \<Rightarrow> TsaRefused (Fmt [Lit ''TSA response parsing failed: '', m]))
                       (parse_timestamp_response response digest), ta))"

definition request_timestamp ::
  "tsa_network \<Rightarrow> (nat \<Rightarrow> u8) \<Rightarrow> bytes \<Rightarrow> timestamp_authority \<Rightarrow> (tsa_error + timestamp_response) \<times> timestamp_authority" where
  "request_timestamp tsa rng digest ta = request_timestamp_internal tsa rng digest (tc_server_url (ta_config ta)) ta"

text \<open>The endpoints in order, each with the random bytes of its attempt; a panic ends the loop.\<close>

fun try_endpoints ::
  "tsa_network \<Rightarrow> (nat \<Rightarrow> nat \<Rightarrow> u8) \<Rightarrow> bytes \<Rightarrow> nat \<Rightarrow> string list \<Rightarrow> timestamp_authority
    \<Rightarrow> (tsa_error + timestamp_response) \<times> timestamp_authority" where
  "try_endpoints tsa rngs digest n [] ta = (Inl (TsaRefused (Lit ''All TSA endpoints failed'')), ta)"
| "try_endpoints tsa rngs digest n (e # es) ta =
     (case request_timestamp_internal tsa (rngs n) digest e ta of
        (Inr r, ta) \<Rightarrow> (Inr r, ta)
      | (Inl TsaPanicked, ta) \<Rightarrow> (Inl TsaPanicked, ta)
      | (Inl _, ta) \<Rightarrow> try_endpoints tsa rngs digest (n + 1) es ta)"

definition request_timestamp_with_failover ::
  "tsa_network \<Rightarrow> (nat \<Rightarrow> nat \<Rightarrow> u8) \<Rightarrow> bytes \<Rightarrow> string list \<Rightarrow> timestamp_authority \<Rightarrow> (tsa_error + timestamp_response) \<times> timestamp_authority" where
  "request_timestamp_with_failover tsa rngs digest failover_endpoints ta =
     try_endpoints tsa rngs digest 0 (tc_server_url (ta_config ta) # failover_endpoints) ta"

text \<open>\<open>now\<close> is the reading of the clock in seconds. The answer of the digest check is dropped, its errors are not.\<close>

definition verify_timestamp :: "timestamp_authority \<Rightarrow> int \<Rightarrow> bytes \<Rightarrow> timestamp_response \<Rightarrow> tsa_error + bool" where
  "verify_timestamp ta now digest r =
     and_then (verify_digest_in_token (tr_token r) digest) (\<lambda>_.
       Inr (\<not> \<bar>tr_timestamp r - now\<bar> > uint (tc_max_time_skew_secs (ta_config ta))))"

section \<open>Reading back what was written\<close>

definition der_at :: "bytes \<Rightarrow> bytes \<Rightarrow> der_cursor" where
  "der_at pre rest = \<lparr>dc_bytes = pre @ rest, dc_pos = length pre\<rparr>"

lemma der_cursor_new_at: "der_cursor_new b = der_at [] b"
  by (simp add: der_cursor_new_def der_at_def)

lemma remaining_at [simp]: "remaining (der_at pre rest) = length rest"
  by (simp add: der_at_def remaining_def)

lemma dc_pos_at [simp]: "dc_pos (der_at pre rest) = length pre"
  by (simp add: der_at_def)

lemma peek_tag_at [simp]: "peek_tag (der_at pre (t # rest)) = Inr t"
  by (simp add: der_at_def peek_tag_def)

lemma peek_tag_end [simp]: "peek_tag (der_at pre []) \<noteq> Inr t"
  by (simp add: der_at_def peek_tag_def)

lemma read_tag_at [simp]: "read_tag (der_at pre (t # rest)) = (Inr t, der_at (pre @ [t]) rest)"
  by (simp add: read_tag_def peek_tag_def der_at_def advance_def)

lemma length_der_len: "length (der_len n) \<le> 3"
  by (simp add: der_len_def)

lemma unat_small_byte: "n < 256 \<Longrightarrow> unat (word_of_nat n :: u8) = n"
  by (simp add: unat_of_nat)

lemma read_length_at: "n < 65536 \<Longrightarrow> read_length (der_at pre (der_len n @ rest)) = (Inr n, der_at (pre @ der_len n) rest)"
proof -
  assume n: "n < 65536"
  have s: "n < 128 \<Longrightarrow> (word_of_nat n :: u8) < 0x80"
    by (simp add: word_less_nat_alt unat_small_byte)
  have d: "n div 256 < 256"
    using n by (simp add: less_mult_imp_div_less)
  show ?thesis
    using s d n by (auto simp: der_len_def read_length_def der_at_def advance_def Let_def unat_small_byte nth_append)
qed

lemma read_bytes_at:
  "length pre + length v < 2 ^ 64 \<Longrightarrow> read_bytes (length v) (der_at pre (v @ rest)) = (Inr v, der_at (pre @ v) rest)"
  by (simp add: read_bytes_def der_at_def advance_def)

lemma read_value_at:
  "length v < 65536 \<Longrightarrow> length pre < 2 ^ 63 \<Longrightarrow>
   read_value (der_at pre (der_len (length v) @ v @ rest)) = (Inr v, der_at (pre @ der_len (length v) @ v) rest)"
  using length_der_len [of "length v"] by (simp add: read_value_def read_length_at read_bytes_at)

lemma der_tlv_Cons: "der_tlv t v @ rest = t # der_len (length v) @ v @ rest"
  by (simp add: der_tlv_def)

lemma read_tlv_at:
  "length v < 65536 \<Longrightarrow> length pre < 2 ^ 62 \<Longrightarrow>
   read_tlv_value (der_at pre (der_tlv t v @ rest)) = (Inr v, der_at (pre @ der_tlv t v) rest)"
  by (simp add: read_tlv_value_def der_tlv_Cons read_value_at) (simp add: der_tlv_def)

lemma read_tagged_at:
  "length v < 65536 \<Longrightarrow> length pre < 2 ^ 62 \<Longrightarrow>
   read_tagged t name (der_at pre (der_tlv t v @ rest)) = (Inr v, der_at (pre @ der_tlv t v) rest)"
  by (simp add: read_tagged_def der_tlv_Cons read_value_at) (simp add: der_tlv_def)

lemma read_tagged_other:
  "t \<noteq> t' \<Longrightarrow> \<exists>m. read_tagged t name (der_at pre (t' # rest)) = (Inl (TsaInternal m), der_at (pre @ [t']) rest)"
  by (simp add: read_tagged_def)

lemma read_sequence_at:
  "length v < 65536 \<Longrightarrow> length pre < 2 ^ 62 \<Longrightarrow>
   read_sequence_content (der_at pre (der_sequence v @ rest)) = (Inr (der_at [] v), der_at (pre @ der_sequence v) rest)"
  by (simp add: read_sequence_content_def der_sequence_def read_tagged_at der_cursor_new_at)

lemma read_integer_at:
  "length v < 65536 \<Longrightarrow> length pre < 2 ^ 62 \<Longrightarrow>
   read_integer (der_at pre (der_integer_bytes v @ rest)) = (Inr v, der_at (pre @ der_integer_bytes v) rest)"
  by (simp add: read_integer_def der_integer_bytes_def read_tagged_at)

lemma read_octet_string_at:
  "length v < 65536 \<Longrightarrow> length pre < 2 ^ 62 \<Longrightarrow>
   read_octet_string (der_at pre (der_octet_string v @ rest)) = (Inr v, der_at (pre @ der_octet_string v) rest)"
  by (simp add: read_octet_string_def der_octet_string_def read_tagged_at)

lemma read_oid_at:
  "length v < 65536 \<Longrightarrow> length pre < 2 ^ 62 \<Longrightarrow>
   read_oid (der_at pre (der_oid v @ rest)) = (Inr (oid_bytes_to_string v), der_at (pre @ der_oid v) rest)"
  by (simp add: read_oid_def der_oid_def read_tagged_at)

lemma skip_set_at:
  "length v < 65536 \<Longrightarrow> length pre < 2 ^ 62 \<Longrightarrow>
   skip_set (der_at pre (der_tlv 0x31 v @ rest)) = (Inr (), der_at (pre @ der_tlv 0x31 v) rest)"
  by (simp add: skip_set_def read_tagged_at)

lemma read_last:
  "length v < 65536 \<Longrightarrow> length pre < 2 ^ 62 \<Longrightarrow>
   read_tagged t name (der_at pre (der_tlv t v)) = (Inr v, der_at (pre @ der_tlv t v) [])"
  using read_tagged_at [of v pre t name "[]"] by simp

lemmas reads_at = read_tlv_at read_sequence_at read_integer_at read_octet_string_at read_oid_at skip_set_at read_tagged_at
lemmas reads_end =
  read_tlv_at [where rest = "[]", simplified] read_sequence_at [where rest = "[]", simplified]
  read_integer_at [where rest = "[]", simplified] read_octet_string_at [where rest = "[]", simplified]
  read_oid_at [where rest = "[]", simplified] read_tagged_at [where rest = "[]", simplified]

lemma reading_Inr [simp]: "f c = (Inr x, c') \<Longrightarrow> reading f c k = k x c'"
  by (simp add: reading_def)

lemma length_der_tlv: "length (der_tlv t v) \<le> length v + 4"
  using length_der_len [of "length v"] by (simp add: der_tlv_def)

lemma oid_of_algorithm: "oid_bytes_to_string (oid_bytes a) = as_oid a"
  by (cases a) (simp_all add: oid_bytes_to_string_def oid_bytes_def as_oid_def char_of_def bit_0)
text \<open>
  The messages as RFC 3161 lays them out, written with the encoder of the client: the request's fields
  read with its cursor, and the answer of an authority around a token.
\<close>

definition read_request :: "bytes \<Rightarrow> tsa_error + bytes \<times> string \<times> bytes \<times> bytes \<times> bool" where
  "read_request req =
     reading read_sequence_content (der_cursor_new req) (\<lambda>c _.
     reading read_integer c (\<lambda>version c.
     reading read_sequence_content c (\<lambda>mi c.
     reading read_sequence_content mi (\<lambda>alg mi.
     reading read_oid alg (\<lambda>oid _.
     reading read_octet_string mi (\<lambda>digest _.
     reading read_integer c (\<lambda>nonce c.
     Inr (version, oid, digest, nonce, drop (dc_pos c) (dc_bytes c) = der_boolean True))))))))"

definition tst_info_der :: "bytes \<Rightarrow> bytes \<Rightarrow> bytes \<Rightarrow> bytes \<Rightarrow> bytes \<Rightarrow> bytes \<Rightarrow> bytes" where
  "tst_info_der policy alg digest serial time nonce =
     der_sequence (der_integer_bytes [1] @ der_oid policy @ der_sequence (der_sequence alg @ der_octet_string digest)
       @ der_integer_bytes serial @ der_tlv 0x18 time @ der_integer_bytes nonce)"

definition token_der :: "bytes \<Rightarrow> bytes \<Rightarrow> bytes" where
  "token_der tst signers =
     der_sequence (der_oid [0x2a, 0x86, 0x48, 0x86, 0xf7, 0x0d, 0x01, 0x07, 0x02] @ der_tlv 0xA0 (der_sequence
       (der_integer_bytes [3] @ der_tlv 0x31 [] @
        der_sequence (der_oid [0x2a, 0x86, 0x48, 0x86, 0xf7, 0x0d, 0x01, 0x09, 0x10, 0x01, 0x04] @ der_tlv 0xA0 (der_octet_string tst))
        @ signers)))"

definition answer_der :: "u8 \<Rightarrow> bytes \<Rightarrow> bytes" where
  "answer_der status token = der_sequence (der_sequence (der_integer_bytes [status]) @ token)"

lemma length_der_tlv_less: "length (der_tlv t v) < n \<Longrightarrow> length v < n"
  by (simp add: der_tlv_def)

lemmas der_lengths = der_sequence_def der_integer_bytes_def der_octet_string_def der_oid_def der_tlv_def der_null_def der_boolean_def

lemma length_ders:
  "length v \<le> length (der_sequence v)" "length v \<le> length (der_integer_bytes v)" "length v \<le> length (der_octet_string v)"
  "length v \<le> length (der_oid v)" "length v \<le> length (der_tlv t v)"
  by (simp_all add: der_lengths)

lemma length_ders_bound:
  "length (der_sequence v) \<le> length v + 4" "length (der_integer_bytes v) \<le> length v + 4"
  "length (der_octet_string v) \<le> length v + 4" "length (der_oid v) \<le> length v + 4" "length (der_tlv t v) \<le> length v + 4"
  using length_der_tlv by (simp_all add: der_sequence_def der_integer_bytes_def der_octet_string_def der_oid_def)

lemma parse_tst_info_der:
  assumes len: "length (tst_info_der policy alg digest serial time nonce) < 65536"
    and t: "utf8_valid time" "time_value 0x18 time = Inr at"
  shows "parse_tst_info raw expected (tst_info_der policy alg digest serial time nonce) =
    (if digest = expected then
       Inr \<lparr>tr_token = raw, tr_serial_number = serial, tr_accuracy_millis = 1000, tr_timestamp = at,
            tr_policy = oid_bytes_to_string policy\<rparr>
     else Inl (TsaRefused (Fmt [Lit ''TSA response digest mismatch: expected '', DbgBytes expected, Lit '', got '', DbgBytes digest])))"
proof -
  let ?mi = "der_sequence alg @ der_octet_string digest"
  let ?rest = "der_integer_bytes serial @ der_tlv 0x18 time @ der_integer_bytes nonce"
  let ?body = "der_integer_bytes [1] @ der_oid policy @ der_sequence ?mi @ ?rest"
  have body: "length ?body < 65536"
    using len length_ders(1) [of ?body] unfolding tst_info_der_def by linarith
  have mi: "length ?mi < 65536" and pol: "length policy < 65536" and ser: "length serial < 65536"
    and tim: "length time < 65536" and non: "length nonce < 65536"
    using body length_ders(1) [of ?mi] length_ders(4) [of policy] length_ders(2) [of serial] length_ders(5) [of time "0x18"]
      length_ders(2) [of nonce] by simp_all
  have al: "length alg < 65536" and dig: "length digest < 65536"
    using mi length_ders(1) [of alg] length_ders(3) [of digest] by simp_all
  have rt: "read_time (der_at pre (der_tlv 0x18 time @ r)) = (Inr at, der_at (pre @ der_tlv 0x18 time) r)"
    if "length pre < 2 ^ 62" for pre r
    using t tim that by (simp add: read_time_def der_tlv_Cons read_value_at) (simp add: der_tlv_def)
  have pos: "length (der_integer_bytes [1]) < 2 ^ 62"
    "length (der_integer_bytes [1] @ der_oid policy) < 2 ^ 62"
    "length (der_integer_bytes [1] @ der_oid policy @ der_sequence ?mi) < 2 ^ 62"
    "length (der_integer_bytes [1] @ der_oid policy @ der_sequence ?mi @ der_integer_bytes serial) < 2 ^ 62"
    "length (der_integer_bytes [1] @ der_oid policy @ der_sequence ?mi @ der_integer_bytes serial @ der_tlv 0x18 time) < 2 ^ 62"
    using body by simp_all
  have acc: "read_accuracy (der_at pre (der_integer_bytes nonce)) = (Inr 1000, der_at pre (der_integer_bytes nonce))" for pre
    by (simp add: read_accuracy_def next_is_def der_integer_bytes_def der_tlv_def)
  have non': "read_nonce (der_at pre (der_integer_bytes nonce)) = (Inr nonce, der_at (pre @ der_integer_bytes nonce) [])"
    if "length pre < 2 ^ 62" for pre
    using that non reads_end(3) [of nonce pre]
    by (simp add: read_nonce_def next_is_def) (simp add: der_integer_bytes_def der_tlv_def)
  have alg_pos: "length (der_sequence alg) < 2 ^ 62"
    using mi by simp
  have alg_at: "read_tlv_value (der_at [] (der_sequence alg @ r)) = (Inr alg, der_at (der_sequence alg) r)" for r
    using al reads_at(1) [of alg "[]" "0x30"] by (simp flip: der_sequence_def)
  note steps = parse_tst_info_def tst_info_der_def der_cursor_new_at reads_at reads_end rt acc non' alg_at
  show ?thesis
  proof (cases "expected = digest")
    case True
    then show ?thesis
      using alg_pos body mi pol ser dig by (simp add: steps)
  next
    case False
    then show ?thesis
      using alg_pos body mi pol ser dig by (simp add: steps)
  qed
qed
lemma check_status_granted: "st = 0 \<or> st = 1 \<Longrightarrow> check_status [st] c = Inr ()"
  by (auto simp: check_status_def)

lemma granted_der: "der_sequence (der_integer_bytes [st]) = [0x30, 3, 2, 1, st]"
  by (simp add: der_lengths der_len_def)

lemma parse_empty_answer:
  assumes "st = 0 \<or> st = 1"
  shows "parse_timestamp_response (answer_der st []) expected =
    Inl (TsaRefused (Lit ''TSA response has no TimeStampToken (granted but no token)''))"
proof -
  have "length (der_integer_bytes [st]) < 65536" "length (der_sequence (der_integer_bytes [st])) < 65536"
    unfolding granted_der by (simp_all add: der_lengths der_len_def)
  then show ?thesis
    using check_status_granted [OF assms] by (simp add: parse_timestamp_response_def der_cursor_new_at answer_der_def reads_end reads_at)
qed

lemma parse_answer:
  assumes st: "st = 0 \<or> st = 1" and ne: "token \<noteq> []"
    and len: "length (answer_der st token) < 65536"
  shows "parse_timestamp_response (answer_der st token) expected =
    reading read_tlv_value (der_at (der_sequence (der_integer_bytes [st])) token) (\<lambda>token_tlv c.
      parse_token (take (dc_pos c - length (der_sequence (der_integer_bytes [st])))
                    (drop (length (der_sequence (der_integer_bytes [st]))) (answer_der st token))) expected token_tlv)"
proof -
  have body: "length (der_sequence (der_integer_bytes [st]) @ token) < 65536"
    using len length_ders(1) [of "der_sequence (der_integer_bytes [st]) @ token"] unfolding answer_der_def by linarith
  have st': "length (der_integer_bytes [st]) < 65536"
    by (simp add: der_integer_bytes_def der_tlv_def der_len_def)
  show ?thesis
    using body st' ne check_status_granted [OF st]
    by (simp add: parse_timestamp_response_def der_cursor_new_at answer_der_def reads_end reads_at Let_def)
qed

lemma parse_token_der:
  assumes len: "length (token_der tst signers) < 65536"
  obtains ci where "token_der tst signers = der_tlv 0x30 ci" "length ci < 65536"
    "\<And>raw expected. parse_token raw expected ci = parse_tst_info raw expected tst"
proof -
  let ?oid1 = "[0x2a, 0x86, 0x48, 0x86, 0xf7, 0x0d, 0x01, 0x07, 0x02] :: bytes"
  let ?oid2 = "[0x2a, 0x86, 0x48, 0x86, 0xf7, 0x0d, 0x01, 0x09, 0x10, 0x01, 0x04] :: bytes"
  define ec where "ec = der_octet_string tst"
  define eci where "eci = der_oid ?oid2 @ der_tlv 0xA0 ec"
  define sd where "sd = der_integer_bytes [3] @ der_tlv 0x31 [] @ der_sequence eci @ signers"
  define ci where "ci = der_oid ?oid1 @ der_tlv 0xA0 (der_sequence sd)"
  have tok: "token_der tst signers = der_tlv 0x30 ci"
    by (simp add: token_der_def der_sequence_def ec_def eci_def sd_def ci_def)
  have ci: "length ci < 65536"
    using len length_ders(5) [of ci "0x30"] unfolding tok by linarith
  have sds: "length (der_sequence sd) < 65536"
    using ci length_ders(5) [of "der_sequence sd" "0xA0"] unfolding ci_def length_append by linarith
  have sd: "length sd < 65536"
    using sds length_ders(1) [of sd] by linarith
  have eci: "length eci < 65536"
    using sd length_ders(1) [of eci] unfolding sd_def length_append by linarith
  have ec: "length ec < 65536"
    using eci length_ders(5) [of ec "0xA0"] unfolding eci_def length_append by linarith
  have tst: "length tst < 65536"
    using ec length_ders(3) [of tst] unfolding ec_def by linarith
  have pos: "length (der_oid ?oid1) < 2 ^ 62" "length (der_oid ?oid2) < 2 ^ 62" "length (der_integer_bytes [3]) < 2 ^ 62"
    "length (der_integer_bytes [3] @ der_tlv 0x31 []) < 2 ^ 62"
    by (simp_all add: der_lengths der_len_def)
  have oid1: "read_oid (der_at [] ci) = (Inr (oid_bytes_to_string ?oid1), der_at (der_oid ?oid1) (der_tlv 0xA0 (der_sequence sd)))"
    using read_oid_at [of ?oid1 "[]"] unfolding ci_def by simp
  have oid2: "read_oid (der_at [] eci) = (Inr (oid_bytes_to_string ?oid2), der_at (der_oid ?oid2) (der_tlv 0xA0 ec))"
    using read_oid_at [of ?oid2 "[]"] unfolding eci_def by simp
  have ver: "read_tlv_value (der_at [] sd) = (Inr [3], der_at (der_integer_bytes [3]) (der_tlv 0x31 [] @ der_sequence eci @ signers))"
    using read_tlv_at [of "[3]" "[]" "0x02"] unfolding sd_def by (simp flip: der_integer_bytes_def)
  have set: "skip_set (der_at (der_integer_bytes [3]) (der_tlv 0x31 [] @ der_sequence eci @ signers))
      = (Inr (), der_at (der_integer_bytes [3] @ der_tlv 0x31 []) (der_sequence eci @ signers))"
    using pos by (intro skip_set_at) simp_all
  have "parse_token raw expected ci = parse_tst_info raw expected tst" for raw expected
    using reads_end(6) [OF sds] reads_end(2) [OF sd, of "[]"] read_sequence_at [OF eci pos(4)]
      reads_end(6) [OF ec] reads_end(4) [OF tst, of "[]"] pos
    by (simp add: parse_token_def der_cursor_new_at oid1 oid2 ver set flip: ec_def)
  then show ?thesis
    using tok ci that by blast
qed

lemma parse_genuine:
  assumes st: "st = 0 \<or> st = 1"
    and len: "length (answer_der st (token_der (tst_info_der policy alg digest serial time nonce) signers)) < 65536"
    and t: "utf8_valid time" "time_value 0x18 time = Inr at"
  shows "parse_timestamp_response (answer_der st (token_der (tst_info_der policy alg digest serial time nonce) signers)) expected =
    (let status = der_sequence (der_integer_bytes [st]); token = token_der (tst_info_der policy alg digest serial time nonce) signers
     in if digest = expected then
          Inr \<lparr>tr_token = take (length token) (drop (length status) (answer_der st token)), tr_serial_number = serial,
               tr_accuracy_millis = 1000, tr_timestamp = at, tr_policy = oid_bytes_to_string policy\<rparr>
        else Inl (TsaRefused (Fmt [Lit ''TSA response digest mismatch: expected '', DbgBytes expected, Lit '', got '', DbgBytes digest])))"
proof -
  let ?tst = "tst_info_der policy alg digest serial time nonce"
  let ?status = "der_sequence (der_integer_bytes [st])"
  let ?token = "token_der ?tst signers"
  have body: "length (?status @ ?token) < 65536"
    using len length_ders(1) [of "?status @ ?token"] unfolding answer_der_def by linarith
  have tok: "length ?token < 65536"
    using body unfolding length_append by linarith
  have tst: "length ?tst < 65536"
    using tok length_ders(3) [of ?tst] unfolding token_der_def der_sequence_def der_tlv_def by simp
  obtain ci where ci: "?token = der_tlv 0x30 ci" "length ci < 65536" "\<And>raw expected. parse_token raw expected ci = parse_tst_info raw expected ?tst"
    using parse_token_der [OF tok] by metis
  have ne: "?token \<noteq> []"
    unfolding ci(1) by (simp add: der_tlv_def)
  have "length ?status < 2 ^ 62"
    by (simp add: der_lengths der_len_def)
  then show ?thesis
    using reads_end(1) [OF ci(2), of ?status "0x30"] parse_tst_info_der [OF tst t] parse_answer [OF st ne len, of expected]
    by (simp add: ci Let_def)
qed
lemma reading_Inr_iff: "reading f c k = Inr y \<longleftrightarrow> (\<exists>x c'. f c = (Inr x, c') \<and> k x c' = Inr y)"
  by (auto simp: reading_def split: prod.splits sum.splits)

lemma parse_tst_info_token: "parse_tst_info raw expected b = Inr r \<Longrightarrow> tr_token r = raw"
  by (auto simp: parse_tst_info_def reading_Inr_iff split: if_splits)

lemma parse_token_token: "parse_token raw expected b = Inr r \<Longrightarrow> tr_token r = raw"
  by (auto simp: parse_token_def reading_Inr_iff dest: parse_tst_info_token)

lemma read_tlv_moves: "read_tlv_value c = (Inr v, c') \<Longrightarrow> dc_pos c + 2 \<le> dc_pos c'"
  by (auto simp: read_tlv_value_def read_value_def then_st_Inr read_tag_def peek_tag_def read_length_def read_bytes_def advance_def
      Let_def split: if_splits)

lemma verify_not_sequence:
  "tr_token r = t # b \<Longrightarrow> t \<noteq> 0x30 \<Longrightarrow> \<exists>m. verify_timestamp ta now digest r = Inl (TsaInternal m)"
  using read_tagged_other [of "0x30" t "''SEQUENCE (0x30)''" "[]" b]
  by (auto simp: verify_timestamp_def verify_digest_in_token_def der_cursor_new_at read_sequence_content_def reading_def)

lemma answer_shifted:
  assumes "length token < 65000" and k: "0 < k"
  shows "\<exists>t b. take k (drop 5 (answer_der st token)) = t # b \<and> t \<noteq> 0x30"
proof -
  obtain j where j: "k = Suc j"
    using k gr0_implies_Suc by blast
  show ?thesis
    unfolding answer_der_def granted_der by (simp add: der_sequence_def der_tlv_def der_len_def j)
qed

lemma accepted_refused:
  assumes "st = 0 \<or> st = 1" and "length token < 65000"
    and r: "parse_timestamp_response (answer_der st token) digest = Inr r"
  shows "\<exists>m. verify_timestamp ta now any_digest r = Inl (TsaInternal m)"
proof -
  let ?status = "der_sequence (der_integer_bytes [st])"
  have five: "length ?status = 5"
    by (simp add: granted_der)
  have len: "length (answer_der st token) < 65536"
    using assms(2) length_der_tlv [of "0x30" "?status @ token"] five by (simp add: answer_der_def der_sequence_def)
  have ne: "token \<noteq> []"
    using r parse_empty_answer [OF assms(1)] by auto
  obtain v c where c: "read_tlv_value (der_at ?status token) = (Inr v, c)"
    "parse_token (take (dc_pos c - 5) (drop 5 (answer_der st token))) digest v = Inr r"
    using r unfolding parse_answer [OF assms(1) ne len] reading_Inr_iff five by blast
  obtain t b where tb: "take (dc_pos c - 5) (drop 5 (answer_der st token)) = t # b" "t \<noteq> 0x30"
    using answer_shifted [OF assms(2), of "dc_pos c - 5" st] read_tlv_moves [OF c(1)] five by auto
  have "tr_token r = t # b"
    using parse_token_token [OF c(2)] tb(1) by simp
  then show ?thesis
    using verify_not_sequence tb(2) by blast
qed

text \<open>
  The token of a granted answer is cut from the wrong place: whatever the authority sends after the
  status, a response accepted from it is refused by \<open>verify_timestamp\<close> with a parse error.
\<close>

theorem accepted_never_verifies:
  assumes "st = 0 \<or> st = 1" and "length token < 65000"
    and r: "parse_timestamp_response (answer_der st token) digest = Inr r"
  shows "\<exists>m. verify_timestamp ta now any_digest r = Inl (TsaInternal m)"
  using assms by (rule accepted_refused)
section \<open>Requests, digests and dates\<close>

text \<open>
  A request for a digest and a nonce of a moderate length is read back by the client's own cursor as
  version 1, the identifier of the algorithm, the digest, the nonce, and the wish for certificates.
\<close>

theorem request_readable:
  assumes "length digest \<le> 60000" and "length nonce \<le> 1000"
  shows "read_request (build_timestamp_request digest nonce a) = Inr ([1], as_oid a, digest, nonce, True)"
proof -
  define oid where "oid = der_oid (oid_bytes a)"
  define alg where "alg = oid @ der_null"
  define mi where "mi = der_sequence alg @ der_octet_string digest"
  define tail where "tail = der_integer_bytes nonce @ der_boolean True"
  define body where "body = der_integer_bytes [1] @ der_sequence mi @ tail"
  have req: "build_timestamp_request digest nonce a = der_sequence body"
    by (simp add: build_timestamp_request_def oid_def alg_def mi_def tail_def body_def)
  have ob: "length (oid_bytes a) < 10"
    by (simp add: oid_bytes_def split: hash_algorithm.splits)
  have alg: "length alg < 20"
    using ob length_ders_bound(4) [of "oid_bytes a"] unfolding alg_def oid_def by (simp add: der_null_def)
  have mi: "length mi < 60050"
    using alg assms length_ders_bound(1) [of alg] length_ders_bound(3) [of digest] unfolding mi_def length_append by linarith
  have one: "length (der_integer_bytes [1]) = 3"
    by (simp add: der_lengths der_len_def)
  have body: "length body < 65536" and seq: "length (der_sequence mi) < 60060"
    using mi assms length_ders_bound(1) [of mi] length_ders_bound(2) [of nonce] one unfolding body_def tail_def length_append
    by (simp_all add: der_boolean_def)
  have oid: "read_oid (der_at [] alg) = (Inr (as_oid a), der_at oid der_null)"
    using read_oid_at [of "oid_bytes a" "[]" der_null] ob by (simp add: alg_def oid_def oid_of_algorithm)
  have al: "read_sequence_content (der_at [] mi) = (Inr (der_at [] alg), der_at (der_sequence alg) (der_octet_string digest))"
    using read_sequence_at [of alg "[]" "der_octet_string digest"] alg by (simp add: mi_def)
  have dig: "read_octet_string (der_at (der_sequence alg) (der_octet_string digest))
      = (Inr digest, der_at (der_sequence alg @ der_octet_string digest) [])"
    using reads_end(4) [of digest "der_sequence alg"] length_ders_bound(1) [of alg] alg assms by simp
  have non: "read_integer (der_at (der_integer_bytes [1] @ der_sequence mi) tail)
      = (Inr nonce, der_at ((der_integer_bytes [1] @ der_sequence mi) @ der_integer_bytes nonce) (der_boolean True))"
    unfolding tail_def using assms seq one by (intro read_integer_at) simp_all
  have ver: "read_integer (der_at [] body) = (Inr [1], der_at (der_integer_bytes [1]) (der_sequence mi @ tail))"
    using read_integer_at [of "[1]" "[]"] unfolding body_def by simp
  have mi': "read_sequence_content (der_at (der_integer_bytes [1]) (der_sequence mi @ tail))
      = (Inr (der_at [] mi), der_at (der_integer_bytes [1] @ der_sequence mi) tail)"
    using mi one by (intro read_sequence_at) simp_all
  show ?thesis
    using reads_end(2) [OF body, of "[]"] by (simp add: read_request_def req der_cursor_new_at ver mi' al oid dig non) (simp add: der_at_def)
qed

theorem request_readable_witness:
  "length [1, 2, 3 :: u8] \<le> 60000 \<and> length [9 :: u8] \<le> 1000 \<and>
   read_request (build_timestamp_request [1, 2, 3] [9] TsSm3) = Inr ([1], as_oid TsSm3, [1, 2, 3], [9], True)"
  using request_readable [of "[1, 2, 3]" "[9]" TsSm3] by simp

lemma and_then_reading: "and_then (reading f c k) g = reading f c (\<lambda>x c. and_then (k x c) g)"
  by (simp add: reading_def split: prod.split sum.split)

text \<open>
  \<open>verify_timestamp\<close> does not verify the digest: the answer is the same for every digest it is asked about.
\<close>

theorem verify_ignores_digest: "verify_timestamp ta now digest r = verify_timestamp ta now digest' r"
  by (simp add: verify_timestamp_def verify_digest_in_token_def reading_context_def and_then_reading if_distrib [of "\<lambda>x. and_then x g" for g] cong: if_cong)

section \<open>The calendar\<close>

text \<open>
  The Gregorian calendar, independently of the code: every fourth year has a day more, but of the years that
  close a century only those that can be divided by four hundred; and the lengths of the months.
\<close>

definition gregorian_leap_year :: "int \<Rightarrow> bool" where
  "gregorian_leap_year y \<longleftrightarrow> 4 dvd y \<and> (100 dvd y \<longrightarrow> 400 dvd y)"

definition year_days :: "int \<Rightarrow> int" where
  "year_days y = (if gregorian_leap_year y then 366 else 365)"

definition month_days :: "int \<Rightarrow> nat \<Rightarrow> int" where
  "month_days y m = (if m = 2 then (if gregorian_leap_year y then 29 else 28) else if m \<in> {4, 6, 9, 11} then 30 else 31)"

definition days_since_epoch :: "int \<Rightarrow> nat \<Rightarrow> nat \<Rightarrow> int" where
  "days_since_epoch y m d = (\<Sum>k\<leftarrow>[1970..y - 1]. year_days k) + (\<Sum>k\<leftarrow>[1..<m]. month_days y k) + (int d - 1)"

text \<open>Two dates as a check of the reference: the first of March of 2000 and of 2100.\<close>

lemma days_since_epoch_dates: "days_since_epoch 2000 3 1 = 11017" "days_since_epoch 2100 3 1 = 47541"
  by code_simp+

lemma is_leap_gregorian: "is_leap y \<longleftrightarrow> gregorian_leap_year y"
proof -
  have "4 dvd y" if "100 dvd y"
    using that dvd_trans [of 4 100 y] by simp
  moreover have "100 dvd y" if "400 dvd y"
    using that dvd_trans [of 100 400 y] by simp
  ultimately show ?thesis
    by (auto simp: is_leap_def gregorian_leap_year_def dvd_eq_mod_eq_0)
qed

lemma sum_year_days: "(\<Sum>k\<leftarrow>ys. year_days k) = 365 * int (length ys) + int (length (filter is_leap ys))"
  by (induction ys) (auto simp: year_days_def is_leap_gregorian)

lemma days_before:
  assumes "1 \<le> m" "m \<le> 12"
  shows "days_before_month ! (m - 1) + (if m > 2 \<and> is_leap y then 1 else 0) = word_of_int (\<Sum>k\<leftarrow>[1..<m]. month_days y k)"
proof -
  have "m = 1 \<or> m = 2 \<or> m = 3 \<or> m = 4 \<or> m = 5 \<or> m = 6 \<or> m = 7 \<or> m = 8 \<or> m = 9 \<or> m = 10 \<or> m = 11 \<or> m = 12"
    using assms by presburger
  then show ?thesis
    by (elim disjE) (simp_all add: days_before_month_def month_days_def is_leap_gregorian upt_conv_Cons del: upt.simps)
qed

lemma month_days_bound: "28 \<le> month_days y m" "month_days y m \<le> 31"
  by (simp_all add: month_days_def)

lemma month_sum_bound:
  assumes "m \<le> 12"
  shows "0 \<le> (\<Sum>k\<leftarrow>[1..<m]. month_days y k) \<and> (\<Sum>k\<leftarrow>[1..<m]. month_days y k) \<le> 400"
proof -
  have "(\<Sum>k\<leftarrow>ks. month_days y k) \<le> 31 * int (length ks) \<and> 0 \<le> (\<Sum>k\<leftarrow>ks. month_days y k)" for ks
  proof (induction ks)
    case (Cons k ks)
    then show ?case
      using month_days_bound [of y k] by simp
  qed simp
  from this [of "[1..<m]"] show ?thesis
    using assms by auto
qed

text \<open>
  C33. The time read from a date of the years 1970 to 9999 is the number of seconds since the epoch of
  the Gregorian calendar: the days of the years and the months before it, and the time of the day.
\<close>

theorem unix_seconds_calendar:
  assumes y: "1970 \<le> y" "y \<le> 9999" and m: "1 \<le> m" "m \<le> 12" and d: "1 \<le> d" "int d \<le> month_days y m"
  shows "unix_seconds y m d h mi s = Inr (86400 * days_since_epoch y m d + 3600 * int h + 60 * int mi + int s)"
proof -
  let ?leaps = "length (filter is_leap [1970..y - 1])" and ?months = "\<Sum>k\<leftarrow>[1..<m]. month_days y k"
  have len: "int (length [1970..y - 1]) = y - 1970"
    using y by simp
  have leaps: "int ?leaps \<le> y - 1970"
    using length_filter_le [of is_leap "[1970..y - 1]"] len by linarith
  have d31: "int d \<le> 31"
    using d month_days_bound(2) [of y m] by linarith
  have eq: "days_since_epoch y m d = (y - 1970) * 365 + int ?leaps + ?months + (int d - 1)"
    using len by (simp add: days_since_epoch_def sum_year_days)
  have range: "0 \<le> days_since_epoch y m d" "days_since_epoch y m d < 2 ^ 32"
    using leaps d31 d(1) y month_sum_bound [OF m(2), of y] unfolding eq by simp_all
  have "word_of_int (y - 1970) * 365 + word_of_nat ?leaps + (days_before_month ! (m - 1) + (if m > 2 \<and> is_leap y then 1 else 0))
      + (word_of_nat d - 1) = (word_of_int (days_since_epoch y m d) :: u32)"
    unfolding days_before [OF m] eq by simp
  then have "uint (word_of_int (y - 1970) * 365 + word_of_nat ?leaps + days_before_month ! (m - 1)
      + (if m > 2 \<and> is_leap y then 1 else 0) + (word_of_nat d - 1)) = days_since_epoch y m d"
    using range by (simp add: ac_simps uint_word_of_int take_bit_int_eq_self)
  then show ?thesis
    using m by (simp add: unix_seconds_def Let_def)
qed

theorem unix_seconds_calendar_witness:
  "int 29 \<le> month_days 2024 2 \<and> unix_seconds 2024 2 29 12 0 0 = Inr (86400 * days_since_epoch 2024 2 29 + 3600 * int 12 + 60 * int 0 + int 0)"
  using unix_seconds_calendar [of 2024 2 29 12 0 0] by (simp add: month_days_def gregorian_leap_year_def)

section \<open>A concrete answer\<close>

definition leap_noon :: bytes where
  "leap_noon = [50, 48, 50, 52, 48, 50, 50, 57, 49, 50, 48, 48, 48, 48, 90]"

definition sample_token :: bytes where
  "sample_token = token_der (tst_info_der [0x2a, 3] [5, 0] [7] [42] leap_noon [9]) []"

lemma leap_noon_time: "utf8_valid leap_noon" "time_value 0x18 leap_noon = Inr 1709208000"
  by code_simp+

lemma sample_length: "length sample_token < 65000" "length (answer_der 0 sample_token) < 65536"
  by (simp_all add: sample_token_def token_der_def tst_info_der_def answer_der_def der_lengths der_len_def leap_noon_def)

text \<open>
  A granted answer with a token around the information of RFC 3161 is read: its serial number, its time, its policy and
  an accuracy of one second, when the digest is the one asked for; an answer for another digest is refused.
\<close>

theorem genuine_answer_read:
  assumes "st = 0 \<or> st = 1"
    and "length (answer_der st (token_der (tst_info_der policy alg digest serial time nonce) signers)) < 65536"
    and "utf8_valid time" "time_value 0x18 time = Inr at"
  shows "parse_timestamp_response (answer_der st (token_der (tst_info_der policy alg digest serial time nonce) signers)) expected =
    (let status = der_sequence (der_integer_bytes [st]); token = token_der (tst_info_der policy alg digest serial time nonce) signers
     in if digest = expected then
          Inr \<lparr>tr_token = take (length token) (drop (length status) (answer_der st token)), tr_serial_number = serial,
               tr_accuracy_millis = 1000, tr_timestamp = at, tr_policy = oid_bytes_to_string policy\<rparr>
        else Inl (TsaRefused (Fmt [Lit ''TSA response digest mismatch: expected '', DbgBytes expected, Lit '', got '', DbgBytes digest])))"
  using assms by (rule parse_genuine)

theorem genuine_answer_read_witness:
  "\<exists>r. parse_timestamp_response (answer_der 0 sample_token) [7] = Inr r \<and> tr_serial_number r = [42] \<and> tr_timestamp r = 1709208000"
  using genuine_answer_read [of 0 "[0x2a, 3]" "[5, 0]" "[7]" "[42]" leap_noon "[9]" "[]" 1709208000 "[7]"] leap_noon_time sample_length
  by (simp add: sample_token_def Let_def)

theorem accepted_never_verifies_witness:
  "\<exists>r m. parse_timestamp_response (answer_der 0 sample_token) [7] = Inr r \<and>
     verify_timestamp \<lparr>ta_config = timestamp_config_default, ta_last_nonce = None\<rparr> 1709208000 [7] r = Inl (TsaInternal m)"
proof -
  obtain r where r: "parse_timestamp_response (answer_der 0 sample_token) [7] = Inr r"
    using parse_genuine [of 0 "[0x2a, 3]" "[5, 0]" "[7]" "[42]" leap_noon "[9]" "[]" 1709208000 "[7]"] leap_noon_time sample_length
    by (simp add: sample_token_def Let_def)
  show ?thesis
    using accepted_never_verifies [OF _ sample_length(1) r, of "\<lparr>ta_config = timestamp_config_default, ta_last_nonce = None\<rparr>" 1709208000 "[7]"] r by auto
qed

text \<open>The endpoints are tried in order: the first attempt that does not fail with an error decides.\<close>

definition attempt :: "tsa_network \<Rightarrow> (nat \<Rightarrow> nat \<Rightarrow> u8) \<Rightarrow> bytes \<Rightarrow> string list \<Rightarrow> timestamp_authority \<Rightarrow> nat \<Rightarrow> tsa_error + timestamp_response" where
  "attempt tsa rngs digest es ta i = fst (request_timestamp_internal tsa (rngs i) digest (es ! i) ta)"

definition decides :: "tsa_error + timestamp_response \<Rightarrow> bool" where
  "decides r \<longleftrightarrow> (case r of Inr _ \<Rightarrow> True | Inl e \<Rightarrow> e = TsaPanicked)"

lemma request_internal_config:
  "ta_config (snd (request_timestamp_internal tsa rng digest e ta)) = ta_config ta"
  by (simp add: request_timestamp_internal_def Let_def split: option.split)

lemma request_internal_fst:
  "ta_config ta' = ta_config ta \<Longrightarrow>
   fst (request_timestamp_internal tsa rng digest e ta') = fst (request_timestamp_internal tsa rng digest e ta)"
  by (simp add: request_timestamp_internal_def Let_def split: option.split)

lemma find_over_map: "List.find P (map f xs) = map_option f (List.find (\<lambda>x. P (f x)) xs)"
  by (induction xs) auto

lemma find_upt_Suc: "List.find P [0..<Suc m] = (if P 0 then Some 0 else map_option Suc (List.find (\<lambda>i. P (Suc i)) [0..<m]))"
proof -
  have "[0..<Suc m] = 0 # map Suc [0..<m]"
    by (simp add: upt_conv_Cons map_Suc_upt del: upt_Suc)
  then show ?thesis
    by (simp add: find_over_map)
qed

lemma try_endpoints_find:
  "fst (try_endpoints tsa rngs digest n es ta) =
    (case List.find (\<lambda>i. decides (fst (request_timestamp_internal tsa (rngs (n + i)) digest (es ! i) ta))) [0..<length es] of
       Some i \<Rightarrow> fst (request_timestamp_internal tsa (rngs (n + i)) digest (es ! i) ta)
     | None \<Rightarrow> Inl (TsaRefused (Lit ''All TSA endpoints failed'')))"
proof (induction es arbitrary: n ta)
  case (Cons e es)
  obtain o1 ta1 where r: "request_timestamp_internal tsa (rngs n) digest e ta = (o1, ta1)"
    by fastforce
  have cfg: "ta_config ta1 = ta_config ta"
    using request_internal_config [of tsa "rngs n" digest e ta] r by simp
  show ?case
    using Cons.IH [of "Suc n" ta1] r request_internal_fst [OF cfg]
    by (auto simp: find_upt_Suc decides_def option.map_sel split: sum.splits tsa_error.splits option.splits simp del: upt_Suc)
qed simp

text \<open>
  With failover the first endpoint whose attempt does not fail with an error decides, the primary before
  the others in their order; when every attempt fails the answer is the one error that all have failed.
\<close>

theorem failover_first_answer:
  "fst (request_timestamp_with_failover tsa rngs digest es ta) =
    (case List.find (\<lambda>i. decides (attempt tsa rngs digest (tc_server_url (ta_config ta) # es) ta i)) [0..<length es + 1] of
       Some i \<Rightarrow> attempt tsa rngs digest (tc_server_url (ta_config ta) # es) ta i
     | None \<Rightarrow> Inl (TsaRefused (Lit ''All TSA endpoints failed'')))"
  using try_endpoints_find [of tsa rngs digest 0 "tc_server_url (ta_config ta) # es" ta]
  by (simp add: request_timestamp_with_failover_def attempt_def del: upt_Suc try_endpoints.simps cong: option.case_cong)

end
