(* ===== verification/Timestamped_Log.thy ===== *)
theory Timestamped_Log
  imports Timestamp
begin

text \<open>
  The logger that adds trusted time stamps, the last part of \<^verbatim>\<open>crates/kms-audit/src/logger.rs\<close>: a signing logger,
  the time stamp its entries carry, and the background task that asks an authority for one at every tick.
\<close>

section \<open>The logger and its task\<close>

record timestamped_config =
  td_signed_config :: signed_audit_config
  td_tsa_config :: "tsa_client_config option"
  td_tsa_interval_secs :: u64
  td_require_tsa :: bool

definition timestamped_config_default :: "(nat \<Rightarrow> u8) \<Rightarrow> timestamped_config" where
  "timestamped_config_default rng =
     \<lparr>td_signed_config = signed_config_new rng audit_config_default 0, td_tsa_config = None, td_tsa_interval_secs = 60,
      td_require_tsa = False\<rparr>"

text \<open>The counters of requests, successes and failures are shared; \<open>tl_task\<close> tells whether the task runs.\<close>

record tsa_counters =
  tn_requests :: u64
  tn_successes :: u64
  tn_failures :: u64

record timestamped_logger =
  tl_signed :: signed_audit_logger
  tl_tsa :: "timestamp_authority option"
  tl_endpoints :: "string list"
  tl_current_ts :: "trusted_timestamp option"
  tl_task :: bool
  tl_require_tsa :: bool
  tl_counters :: "tsa_counters option"

text \<open>Without an endpoint there is no authority and no task; \<open>client\<close> is the outcome of building the HTTP client of the authority.\<close>

definition tl_new ::
  "string + unit \<Rightarrow> timestamped_config \<Rightarrow> tsa_counters option \<Rightarrow> sinks \<Rightarrow> tsa_error + timestamped_logger" where
  "tl_new client config counters sk =
     (let endpoints = (case td_tsa_config config of Some c \<Rightarrow> cc_endpoints c | None \<Rightarrow> [])
      in and_then
           (case td_tsa_config config of
              Some c \<Rightarrow> (if (case cc_endpoints c of e # _ \<Rightarrow> e | [] \<Rightarrow> []) = [] then Inr None
                         else map_sum id Some (from_client_config client c))
            | None \<Rightarrow> Inr None)
           (\<lambda>tsa. Inr \<lparr>tl_signed = sl_new (td_signed_config config) sk, tl_tsa = tsa, tl_endpoints = endpoints, tl_current_ts = None,
                      tl_task = (tsa \<noteq> None), tl_require_tsa = td_require_tsa config, tl_counters = counters\<rparr>))"

definition tl_flush :: "audit_crates \<Rightarrow> bool \<Rightarrow> (nat \<Rightarrow> bool) \<Rightarrow> timestamped_logger \<Rightarrow> timestamped_logger" where
  "tl_flush ac opened written t =
     (let l = tl_signed t in t\<lparr>tl_signed := write_entries ac opened written (sl_buffer l) (l\<lparr>sl_buffer := []\<rparr>)\<rparr>)"

definition tl_log :: "audit_crates \<Rightarrow> bool \<Rightarrow> (nat \<Rightarrow> bool) \<Rightarrow> audit_event \<Rightarrow> timestamped_logger \<Rightarrow> timestamped_logger" where
  "tl_log ac opened written ev t =
     (let (sequence, l) = take_sequence (tl_signed t);
          prev_sig = sl_previous_signature l;
          signed_entry = signed_entry_new ac ev sequence (sl_key l) prev_sig (tl_current_ts t);
          l = push_entry signed_entry (store_signature (sg_signature signed_entry) l);
          t = t\<lparr>tl_signed := l\<rparr>
      in if buffer_full l then tl_flush ac opened written t else t)"

definition tl_query :: "audit_filter \<Rightarrow> timestamped_logger \<Rightarrow> audit_event list" where
  "tl_query f t =
     map sg_payload (take (unwrap_or 100 (fl_limit f)) (drop (unwrap_or 0 (fl_offset f))
       (filter (\<lambda>e. filter_matches f (sg_payload e)) (sl_buffer (tl_signed t)))))"

definition tl_backlog_depth :: "timestamped_logger \<Rightarrow> nat" where
  "tl_backlog_depth t = sl_backlog_depth (tl_signed t)"

definition tl_drop :: "timestamped_logger \<Rightarrow> timestamped_logger" where
  "tl_drop t = t\<lparr>tl_task := False\<rparr>"

definition count_tsa_request :: "tsa_counters \<Rightarrow> tsa_counters" where
  "count_tsa_request n = n\<lparr>tn_requests := tn_requests n + 1\<rparr>"

definition count_tsa_success :: "tsa_counters \<Rightarrow> tsa_counters" where
  "count_tsa_success n = n\<lparr>tn_successes := tn_successes n + 1\<rparr>"

definition count_tsa_failure :: "tsa_counters \<Rightarrow> tsa_counters" where
  "count_tsa_failure n = n\<lparr>tn_failures := tn_failures n + 1\<rparr>"

definition tsa_failed :: "timestamped_logger \<Rightarrow> timestamped_logger" where
  "tsa_failed t = t\<lparr>tl_counters := map_option count_tsa_failure (tl_counters t), tl_current_ts := None\<rparr>"

text \<open>
  One tick. \<open>chain_head\<close> is what the task has read from the logger before its request; \<open>now\<close> is the clock when the
  answer is verified. A panic ends the task and leaves the time stamp as it was.
\<close>

definition tsa_tick ::
  "tsa_network \<Rightarrow> (nat \<Rightarrow> nat \<Rightarrow> u8) \<Rightarrow> int \<Rightarrow> bytes \<Rightarrow> timestamped_logger \<Rightarrow> timestamped_logger" where
  "tsa_tick net rngs now chain_head t =
     (case tl_tsa t of
        None \<Rightarrow> t
      | Some tsa \<Rightarrow>
          if \<not> tl_task t then t
          else
            let t = t\<lparr>tl_counters := map_option count_tsa_request (tl_counters t)\<rparr>;
                (response, tsa) = request_timestamp_with_failover net rngs chain_head (tl_endpoints t) tsa;
                t = t\<lparr>tl_tsa := Some tsa\<rparr>
            in (case response of
                  Inl TsaPanicked \<Rightarrow> t\<lparr>tl_task := False\<rparr>
                | Inl _ \<Rightarrow> tsa_failed t
                | Inr r \<Rightarrow>
                    (case verify_timestamp tsa now chain_head r of
                       Inl TsaPanicked \<Rightarrow> t\<lparr>tl_task := False\<rparr>
                     | Inl _ \<Rightarrow> tsa_failed t
                     | Inr False \<Rightarrow> tsa_failed t
                     | Inr True \<Rightarrow>
                         let nonce = unwrap_or [] (ta_last_nonce tsa);
                             ts = \<lparr>tt_raw_token = tr_token r, tt_gen_time = tr_timestamp r, tt_serial_number = tr_serial_number r,
                                   tt_policy = tr_policy r, tt_hash_algorithm = ''sha256'', tt_nonce = nonce,
                                   tt_accuracy_millis = tr_accuracy_millis r\<rparr>
                         in t\<lparr>tl_counters := map_option count_tsa_success (tl_counters t), tl_current_ts := Some ts\<rparr>)))"

section \<open>Runs\<close>

datatype tl_step =
    StepLog bool "nat \<Rightarrow> bool" audit_event
  | StepFlush bool "nat \<Rightarrow> bool"
  | StepTick tsa_network "nat \<Rightarrow> nat \<Rightarrow> u8" int bytes

definition tl_run_step :: "audit_crates \<Rightarrow> tl_step \<Rightarrow> timestamped_logger \<Rightarrow> timestamped_logger" where
  "tl_run_step ac s t =
     (case s of
        StepLog opened written ev \<Rightarrow> tl_log ac opened written ev t
      | StepFlush opened written \<Rightarrow> tl_flush ac opened written t
      | StepTick net rngs now head \<Rightarrow> tsa_tick net rngs now head t)"

definition signed_run_step :: "audit_crates \<Rightarrow> tl_step \<Rightarrow> signed_audit_logger \<Rightarrow> signed_audit_logger" where
  "signed_run_step ac s l =
     (case s of
        StepLog opened written ev \<Rightarrow> sl_log ac opened written ev l
      | StepFlush opened written \<Rightarrow> sl_flush ac opened written l
      | StepTick net rngs now head \<Rightarrow> l)"

text \<open>An authority answers with a status and a token around it, as RFC 3161 says, or not at all.\<close>

definition conforming :: "tsa_network \<Rightarrow> bool" where
  "conforming net \<longleftrightarrow> (\<forall>e req resp. net e req = Inr resp \<longrightarrow> (\<exists>st token. resp = answer_der st token \<and> length token < 65000))"

definition conforming_step :: "tl_step \<Rightarrow> bool" where
  "conforming_step s \<longleftrightarrow> (case s of StepTick net rngs now head \<Rightarrow> conforming net | _ \<Rightarrow> True)"

lemma check_status_Inr: "check_status [st] c = Inr () \<Longrightarrow> st = 0 \<or> st = 1"
  by (auto simp: check_status_def Let_def word_unat_eq_iff split: if_splits sum.splits tsa_error.splits)

lemma parse_answer_granted:
  assumes "parse_timestamp_response (answer_der st token) digest = Inr r" and "length token < 65000"
  shows "st = 0 \<or> st = 1"
proof -
  let ?body = "der_sequence (der_integer_bytes [st]) @ token"
  have st: "length (der_integer_bytes [st]) < 65536" "length ?body < 65536"
    using assms(2) unfolding granted_der by (simp_all add: der_lengths der_len_def)
  have "\<exists>u c. check_status [st] c = Inr u"
    using assms(1) st unfolding parse_timestamp_response_def der_cursor_new_at answer_der_def
    by (auto simp: reads_end reads_at reading_Inr_iff and_then_def split: sum.splits)
  then show ?thesis
    using check_status_Inr by auto
qed

lemma request_internal_Inr:
  "fst (request_timestamp_internal net rng digest e ta) = Inr r \<Longrightarrow>
   \<exists>req resp. net e req = Inr resp \<and> parse_timestamp_response resp digest = Inr r"
  by (auto simp: request_timestamp_internal_def Let_def map_err_def split: option.splits sum.splits)

lemma failover_Inr:
  "fst (request_timestamp_with_failover net rngs digest es ta) = Inr r \<Longrightarrow>
   \<exists>e req resp. net e req = Inr resp \<and> parse_timestamp_response resp digest = Inr r"
  unfolding request_timestamp_with_failover_def try_endpoints_find
  by (auto dest!: request_internal_Inr split: option.splits)

lemma conforming_never_verifies:
  assumes "conforming net" and "fst (request_timestamp_with_failover net rngs head es ta) = Inr r"
  shows "\<exists>m. verify_timestamp ta' now head r = Inl (TsaInternal m)"
proof -
  obtain st token where t: "parse_timestamp_response (answer_der st token) head = Inr r" "length token < 65000"
    using failover_Inr [OF assms(2)] assms(1) unfolding conforming_def by blast
  show ?thesis
    using parse_answer_granted [OF t] t by (intro accepted_refused)
qed

section \<open>No time stamps\<close>

lemma tick_keeps:
  assumes "conforming net" and "tl_current_ts t = None"
  shows "tl_signed (tsa_tick net rngs now head t) = tl_signed t \<and> tl_current_ts (tsa_tick net rngs now head t) = None"
proof (cases "tl_tsa t")
  case (Some tsa)
  obtain r tsa' where r: "request_timestamp_with_failover net rngs head (tl_endpoints t) tsa = (r, tsa')"
    by fastforce
  have never: "\<exists>m. verify_timestamp tsa' now head x = Inl (TsaInternal m)" if "r = Inr x" for x
    using conforming_never_verifies [OF assms(1), of rngs head "tl_endpoints t" tsa x] r that by simp
  show ?thesis
  proof (cases r)
    case (Inr x)
    then show ?thesis
      using never [OF Inr] Some r assms(2) by (auto simp: tsa_tick_def tsa_failed_def)
  next
    case (Inl e)
    then show ?thesis
      using Some r assms(2) by (cases e) (simp_all add: tsa_tick_def tsa_failed_def)
  qed
qed (simp add: tsa_tick_def assms)

lemma flush_signed: "tl_signed (tl_flush ac opened written t) = sl_flush ac opened written (tl_signed t)"
  "tl_current_ts (tl_flush ac opened written t) = tl_current_ts t"
  by (simp_all add: tl_flush_def sl_flush_def Let_def)

lemma log_signed:
  assumes "tl_current_ts t = None"
  shows "tl_signed (tl_log ac opened written ev t) = sl_log ac opened written ev (tl_signed t)"
    and "tl_current_ts (tl_log ac opened written ev t) = None"
  using assms by (simp_all add: tl_log_def sl_log_def Let_def flush_signed split: prod.split)

lemma run_step_signed:
  assumes "conforming_step s" and "tl_current_ts t = None"
  shows "tl_signed (tl_run_step ac s t) = signed_run_step ac s (tl_signed t) \<and> tl_current_ts (tl_run_step ac s t) = None"
  using assms tick_keeps by (cases s) (simp_all add: tl_run_step_def signed_run_step_def conforming_step_def flush_signed log_signed)

text \<open>
  C32. With authorities that answer as RFC 3161 says, whatever they answer and whenever they are asked, no entry
  carries a time stamp: the logger writes what the signing logger writes without one.
\<close>

theorem time_stamps_never_attached:
  assumes "list_all conforming_step steps" "tl_new client config counters sk = Inr logger"
  shows "tl_signed (fold (tl_run_step ac) steps logger)
           = fold (signed_run_step ac) steps (sl_new (td_signed_config config) sk)
         \<and> tl_current_ts (fold (tl_run_step ac) steps logger) = None"
proof -
  have "tl_signed (fold (tl_run_step ac) steps t) = fold (signed_run_step ac) steps (tl_signed t)
      \<and> tl_current_ts (fold (tl_run_step ac) steps t) = None" if "tl_current_ts t = None" for t
    using assms(1) that
  proof (induction steps arbitrary: t)
    case (Cons s steps)
    have step: "tl_signed (tl_run_step ac s t) = signed_run_step ac s (tl_signed t)" "tl_current_ts (tl_run_step ac s t) = None"
      using run_step_signed [of s t ac] Cons.prems by simp_all
    show ?case
      using Cons.IH [OF _ step(2)] Cons.prems(1) step(1) by simp
  qed simp
  moreover have "tl_signed logger = sl_new (td_signed_config config) sk" "tl_current_ts logger = None"
    using assms(2) by (auto simp: tl_new_def Let_def and_then_def split: sum.splits)
  ultimately show ?thesis
    by simp
qed

lemma sample_conforming: "conforming (\<lambda>e req. Inr (answer_der 0 sample_token))"
  using sample_length(1) unfolding conforming_def by blast

theorem time_stamps_never_attached_witness:
  "\<exists>logger. tl_new (Inr ()) \<lparr>td_signed_config = signed_config_with_key audit_config_default [1] 0,
         td_tsa_config = Some (tsa_client_config_default\<lparr>cc_endpoints := [''https://tsa'']\<rparr>),
         td_tsa_interval_secs = 60, td_require_tsa = True\<rparr> None \<lparr>sk_stdout = [], sk_file = []\<rparr> = Inr logger
     \<and> tl_tsa logger \<noteq> None
     \<and> tl_current_ts (fold (tl_run_step demo_crates)
          [StepTick (\<lambda>e req. Inr (answer_der 0 sample_token)) (\<lambda>i j. 7) 1709208000 [7]] logger) = None"
proof -
  let ?config = "\<lparr>td_signed_config = signed_config_with_key audit_config_default [1] 0,
         td_tsa_config = Some (tsa_client_config_default\<lparr>cc_endpoints := [''https://tsa'']\<rparr>),
         td_tsa_interval_secs = 60, td_require_tsa = True\<rparr>"
  obtain logger where new: "tl_new (Inr ()) ?config None \<lparr>sk_stdout = [], sk_file = []\<rparr> = Inr logger" and "tl_tsa logger \<noteq> None"
    by (simp add: tl_new_def from_client_config_def authority_new_def Let_def)
  moreover have "list_all conforming_step [StepTick (\<lambda>e req. Inr (answer_der 0 sample_token)) (\<lambda>i j. 7) 1709208000 [7]]"
    by (simp add: conforming_step_def sample_conforming)
  note conjunct2 [OF time_stamps_never_attached [OF this new]]
  ultimately show ?thesis
    by blast
qed

text \<open>
  The signature of an entry does not cover its time stamp: with any other time stamp in its place the entry
  verifies as before, alone and in the chain.
\<close>

theorem time_stamp_unsigned:
  "entry_verify ac key (e\<lparr>sg_trusted_timestamp := ts\<rparr>) = entry_verify ac key e
   \<and> entry_verify_chain ac key prev_sig (e\<lparr>sg_trusted_timestamp := ts\<rparr>) = entry_verify_chain ac key prev_sig e"
  by (simp add: entry_verify_def entry_verify_chain_def entry_input_def)

end
