(* ===== verification/Signing_Keys.thy ===== *)
theory Signing_Keys
  imports Worm
begin

text \<open>
  What outlives the process that writes the audit log: the signing key in its file
  (\<^verbatim>\<open>crates/kms-audit/src/logger.rs\<close> and \<^verbatim>\<open>worm_logger.rs\<close>), the configuration of the write-once logger, and the
  verifier with its last result (\<^verbatim>\<open>verifier.rs\<close>). Files are a map from paths to bytes; the outcomes of the
  system calls are arguments.
\<close>

section \<open>Key files\<close>

text \<open>
  \<open>kf_written\<close> is the number of bytes a failing write has put into the file. Errors other than a missing file are
  those of \<open>kf_read\<close>.
\<close>

record key_io =
  kf_read :: "string option"
  kf_dir :: "string option"
  kf_create :: "string option"
  kf_write :: "string option"
  kf_written :: nat
  kf_perms :: "string option"

type_synonym key_files = "string \<rightharpoonup> bytes"

definition generate_signing_key :: "(nat \<Rightarrow> u8) \<Rightarrow> bytes" where
  "generate_signing_key rng = fill_bytes rng 32"

definition load_or_create_key_file ::
  "key_io \<Rightarrow> (nat \<Rightarrow> u8) \<Rightarrow> string \<Rightarrow> key_files \<Rightarrow> (string + bytes) \<times> key_files" where
  "load_or_create_key_file io rng path fs =
     (case kf_read io of
        Some e \<Rightarrow> (Inl e, fs)
      | None \<Rightarrow>
          (case fs path of
             Some existing \<Rightarrow> (Inr existing, fs)
           | None \<Rightarrow>
               let raw = generate_signing_key rng
               in (case kf_create io of
                     Some e \<Rightarrow> (Inl e, fs)
                   | None \<Rightarrow>
                       (case kf_write io of
                          Some e \<Rightarrow> (Inl e, fs(path \<mapsto> take (kf_written io) raw))
                        | None \<Rightarrow> (Inr raw, fs(path \<mapsto> raw))))))"

text \<open>\<open>env\<close> is the value of \<^verbatim>\<open>KMS_AUDIT_SIGNING_KEY_FILE\<close>; \<open>ephemeral\<close> the generator of a key that is not kept.\<close>

definition from_env_or_ephemeral ::
  "key_io \<Rightarrow> (nat \<Rightarrow> u8) \<Rightarrow> (nat \<Rightarrow> u8) \<Rightarrow> string option \<Rightarrow> audit_config \<Rightarrow> u64 \<Rightarrow> key_files
    \<Rightarrow> (signed_audit_config \<times> bool) \<times> key_files" where
  "from_env_or_ephemeral io rng ephemeral env base initial_sequence fs =
     (let ((key, persisted), fs) =
        (case env of
           Some path \<Rightarrow>
             (case load_or_create_key_file io rng path fs of
                (Inr key_bytes, fs) \<Rightarrow>
                  (if 32 \<le> length key_bytes then ((key_bytes, True), fs) else ((generate_signing_key ephemeral, False), fs))
              | (Inl _, fs) \<Rightarrow> ((generate_signing_key ephemeral, False), fs))
         | None \<Rightarrow> ((generate_signing_key ephemeral, False), fs))
      in ((\<lparr>sc_base = base, sc_signing_key = key, sc_initial_sequence = initial_sequence\<rparr>, persisted), fs))"

section \<open>The configuration of the write-once logger\<close>

text \<open>
  \<open>Path::with_extension\<close> on the text of a path: the last component without what follows its last dot, a dot at its
  beginning apart. A path whose last component is empty or two dots stays.
\<close>

definition last_component :: "string \<Rightarrow> string" where
  "last_component path = rev (takeWhile (\<lambda>c. c \<noteq> CHR ''/'') (rev path))"

definition file_stem :: "string \<Rightarrow> string" where
  "file_stem name =
     (let before = butlast (rev (dropWhile (\<lambda>c. c \<noteq> CHR ''.'') (rev name)))
      in if before = [] then name else before)"

definition with_extension :: "string \<Rightarrow> string \<Rightarrow> string" where
  "with_extension path ext =
     (let name = last_component path; dir = take (length path - length name) path
      in if name = [] \<or> name = ''..'' then path else dir @ file_stem name @ ''.'' @ ext)"

definition default_signing_key_path :: "string \<Rightarrow> string" where
  "default_signing_key_path worm_path = with_extension worm_path ''signing_key''"

record worm_audit_config =
  wc_signed :: signed_audit_config
  wc_worm_path :: string
  wc_rotation_age_secs :: u64
  wc_signing_key_path :: "string option"

definition worm_config_new :: "(nat \<Rightarrow> u8) \<Rightarrow> string \<Rightarrow> u64 \<Rightarrow> worm_audit_config" where
  "worm_config_new rng worm_path initial_sequence =
     \<lparr>wc_signed = signed_config_new rng audit_config_default initial_sequence, wc_worm_path = worm_path,
      wc_rotation_age_secs = 3600, wc_signing_key_path = None\<rparr>"

definition worm_config_with_key :: "string \<Rightarrow> bytes \<Rightarrow> u64 \<Rightarrow> worm_audit_config" where
  "worm_config_with_key worm_path signing_key initial_sequence =
     \<lparr>wc_signed = signed_config_with_key audit_config_default signing_key initial_sequence, wc_worm_path = worm_path,
      wc_rotation_age_secs = 3600, wc_signing_key_path = None\<rparr>"

definition load_or_generate_key ::
  "key_io \<Rightarrow> (nat \<Rightarrow> u8) \<Rightarrow> string \<Rightarrow> key_files \<Rightarrow> (audit_error + bytes) \<times> key_files" where
  "load_or_generate_key io rng key_path fs =
     (case fs key_path of
        Some key_bytes \<Rightarrow>
          (case kf_read io of
             Some e \<Rightarrow> (Inl (Io e), fs)
           | None \<Rightarrow>
               if length key_bytes \<noteq> 32 then
                 (Inl (AuditConfigError (Fmt [Lit ''Invalid signing key length: expected 32 bytes, got '', Num (length key_bytes)])), fs)
               else (Inr key_bytes, fs))
      | None \<Rightarrow>
          let signing_key = fill_bytes rng 32
          in (case kf_dir io of
                Some e \<Rightarrow> (Inl (Io e), fs)
              | None \<Rightarrow>
                  (case kf_create io of
                     Some e \<Rightarrow> (Inl (Io e), fs)
                   | None \<Rightarrow>
                       (case kf_write io of
                          Some e \<Rightarrow> (Inl (Io e), fs(key_path \<mapsto> take (kf_written io) signing_key))
                        | None \<Rightarrow>
                            (case kf_perms io of
                               Some e \<Rightarrow> (Inl (Io e), fs(key_path \<mapsto> signing_key))
                             | None \<Rightarrow> (Inr signing_key, fs(key_path \<mapsto> signing_key)))))))"

definition worm_load_or_create ::
  "key_io \<Rightarrow> (nat \<Rightarrow> u8) \<Rightarrow> string \<Rightarrow> u64 \<Rightarrow> key_files \<Rightarrow> (audit_error + worm_audit_config) \<times> key_files" where
  "worm_load_or_create io rng worm_path initial_sequence fs =
     then_st (load_or_generate_key io rng (default_signing_key_path worm_path) fs) (\<lambda>signing_key fs.
       (Inr (worm_config_with_key worm_path signing_key initial_sequence), fs))"

definition load_or_create_with_key_path ::
  "key_io \<Rightarrow> (nat \<Rightarrow> u8) \<Rightarrow> string \<Rightarrow> string \<Rightarrow> u64 \<Rightarrow> key_files \<Rightarrow> (audit_error + worm_audit_config) \<times> key_files" where
  "load_or_create_with_key_path io rng worm_path key_path initial_sequence fs =
     then_st (load_or_generate_key io rng key_path fs) (\<lambda>signing_key fs.
       (Inr ((worm_config_with_key worm_path signing_key initial_sequence)\<lparr>wc_signing_key_path := Some key_path\<rparr>), fs))"

definition with_rotation_age_secs :: "u64 \<Rightarrow> worm_audit_config \<Rightarrow> worm_audit_config" where
  "with_rotation_age_secs n c = c\<lparr>wc_rotation_age_secs := n\<rparr>"

definition with_signing_key_path :: "string \<Rightarrow> worm_audit_config \<Rightarrow> worm_audit_config" where
  "with_signing_key_path p c = c\<lparr>wc_signing_key_path := Some p\<rparr>"

definition effective_signing_key_path :: "worm_audit_config \<Rightarrow> string" where
  "effective_signing_key_path c =
     (case wc_signing_key_path c of Some p \<Rightarrow> p | None \<Rightarrow> default_signing_key_path (wc_worm_path c))"

section \<open>The verifier\<close>

record integrity_verifier =
  iv_log_path :: string
  iv_signing_key :: bytes
  iv_check_interval :: time
  iv_last_result :: "verification_report option"

definition integrity_verifier_new :: "string \<Rightarrow> bytes \<Rightarrow> time \<Rightarrow> integrity_verifier" where
  "integrity_verifier_new log_path signing_key check_interval =
     \<lparr>iv_log_path = log_path, iv_signing_key = signing_key, iv_check_interval = check_interval, iv_last_result = None\<rparr>"

definition iv_verify_file :: "audit_crates \<Rightarrow> string + string \<Rightarrow> integrity_verifier \<Rightarrow> audit_error + verification_report" where
  "iv_verify_file ac outcome v =
     (case outcome of Inl e \<Rightarrow> Inl (Io e) | Inr content \<Rightarrow> Inr (verify_content ac (iv_signing_key v) content))"

text \<open>\<open>listing\<close> is the directory: an error, or its names with the outcome of reading each file.\<close>

definition iv_verify ::
  "audit_crates \<Rightarrow> string + (string \<times> (string + string)) list \<Rightarrow> integrity_verifier
    \<Rightarrow> (audit_error + verification_report) \<times> integrity_verifier" where
  "iv_verify ac listing v =
     (case listing of
        Inl e \<Rightarrow> (Inl (Io e), v)
      | Inr files \<Rightarrow>
          let report = verify_directory ac (iv_signing_key v) (iv_log_path v) files
          in (Inr report, v\<lparr>iv_last_result := Some report\<rparr>))"

text \<open>A tick of the background task runs the check and drops its answer.\<close>

definition iv_tick :: "audit_crates \<Rightarrow> string + (string \<times> (string + string)) list \<Rightarrow> integrity_verifier \<Rightarrow> integrity_verifier" where
  "iv_tick ac listing v = snd (iv_verify ac listing v)"

definition get_last_result :: "integrity_verifier \<Rightarrow> verification_report option" where
  "get_last_result v = iv_last_result v"

record verification_config =
  vc_log_path :: string
  vc_signing_key :: bytes
  vc_interval_hours :: u64

definition verification_config_default :: verification_config where
  "verification_config_default = \<lparr>vc_log_path = ''/var/log/kms/audit'', vc_signing_key = [], vc_interval_hours = 24\<rparr>"

section \<open>The key outlives the process\<close>

text \<open>
  A signing key loaded or created beside the write-once log is the one every later start loads, whatever the
  generators yield by then, as long as the file is left alone and can be read.
\<close>

theorem worm_key_survives_restart:
  assumes "worm_load_or_create io rng worm_path seq fs = (Inr c, fs')"
    and "fs'' (default_signing_key_path worm_path) = fs' (default_signing_key_path worm_path)" and "kf_read io' = None"
  shows "worm_load_or_create io' rng' worm_path seq' fs'' = (Inr (worm_config_with_key worm_path (sc_signing_key (wc_signed c)) seq'), fs'')
    \<and> length (sc_signing_key (wc_signed c)) = 32 \<and> default_signing_key_path worm_path = effective_signing_key_path c"
  using assms
  by (auto simp: worm_load_or_create_def load_or_generate_key_def then_st_Inr worm_config_with_key_def signed_config_with_key_def
      effective_signing_key_path_def Let_def split: option.splits if_splits)

definition quiet_io :: key_io where
  "quiet_io = \<lparr>kf_read = None, kf_dir = None, kf_create = None, kf_write = None, kf_written = 0, kf_perms = None\<rparr>"

theorem worm_key_survives_restart_witness:
  "\<exists>c fs. worm_load_or_create quiet_io (\<lambda>i. 7) ''/logs/worm.d'' 0 Map.empty = (Inr c, fs)
     \<and> fst (worm_load_or_create quiet_io (\<lambda>i. 8) ''/logs/worm.d'' 5 fs)
       = Inr (worm_config_with_key ''/logs/worm.d'' (sc_signing_key (wc_signed c)) 5)"
proof -
  have first: "worm_load_or_create quiet_io (\<lambda>i. 7) ''/logs/worm.d'' 0 Map.empty
      = (Inr (worm_config_with_key ''/logs/worm.d'' (fill_bytes (\<lambda>i. 7) 32) 0),
         [default_signing_key_path ''/logs/worm.d'' \<mapsto> fill_bytes (\<lambda>i. 7) 32])"
    by (simp add: worm_load_or_create_def load_or_generate_key_def quiet_io_def Let_def)
  show ?thesis
    using first worm_key_survives_restart [OF first, where fs'' = "[default_signing_key_path ''/logs/worm.d'' \<mapsto> fill_bytes (\<lambda>i. 7) 32]"
        and io' = quiet_io and rng' = "\<lambda>i. 8" and seq' = 5]
    by (auto simp: quiet_io_def)
qed

text \<open>
  A configuration from the environment that is reported as persisted comes back with the same key at the next
  start, whatever the generators yield by then.
\<close>

theorem persisted_key_survives_restart:
  assumes "from_env_or_ephemeral io rng eph env base seq fs = ((c, True), fs')" and "fs'' (the env) = fs' (the env)"
    and "kf_read io' = None"
  shows "\<exists>fs3. from_env_or_ephemeral io' rng' eph' env base' seq' fs'' = ((c\<lparr>sc_base := base', sc_initial_sequence := seq'\<rparr>, True), fs3)"
  using assms
  by (auto simp: from_env_or_ephemeral_def load_or_create_key_file_def generate_signing_key_def Let_def
      split: option.splits if_splits prod.splits sum.splits)

theorem persisted_key_survives_restart_witness:
  "\<exists>c fs fs3. from_env_or_ephemeral quiet_io (\<lambda>i. 7) (\<lambda>i. 9) (Some ''key'') audit_config_default 0 Map.empty = ((c, True), fs)
     \<and> from_env_or_ephemeral quiet_io (\<lambda>i. 8) (\<lambda>i. 9) (Some ''key'') audit_config_default 3 fs
       = ((c\<lparr>sc_base := audit_config_default, sc_initial_sequence := 3\<rparr>, True), fs3)"
proof -
  obtain c fs where first: "from_env_or_ephemeral quiet_io (\<lambda>i. 7) (\<lambda>i. 9) (Some ''key'') audit_config_default 0 Map.empty = ((c, True), fs)"
    by (simp add: from_env_or_ephemeral_def load_or_create_key_file_def generate_signing_key_def quiet_io_def Let_def)
  show ?thesis
    using first persisted_key_survives_restart [OF first, where fs'' = fs and io' = quiet_io and rng' = "\<lambda>i. 8" and eph' = "\<lambda>i. 9"
        and base' = audit_config_default and seq' = 3]
    by (auto simp: quiet_io_def)
qed

section \<open>The chain does not\<close>

text \<open>What a logger writes after a restart goes behind what is in the file already.\<close>

definition behind :: "string \<Rightarrow> signed_audit_logger \<Rightarrow> signed_audit_logger" where
  "behind text l = l\<lparr>sl_sinks := (sl_sinks l)\<lparr>sk_file := text @ sk_file (sl_sinks l)\<rparr>\<rparr>"

lemma flush_behind: "sl_flush ac opened written (behind text l) = behind text (sl_flush ac opened written l)"
  by (simp add: sl_flush_def write_entries_def write_lines_def behind_def Let_def)

lemma log_behind: "sl_log ac opened written ev (behind text l) = behind text (sl_log ac opened written ev l)"
proof -
  have "push_entry e (store_signature s (snd (take_sequence (behind text l)))) = behind text (push_entry e (store_signature s (snd (take_sequence l))))" for e s
    by (simp add: take_sequence_def store_signature_def push_entry_def behind_def)
  moreover have "buffer_full (behind text l') = buffer_full l'" for l'
    by (simp add: buffer_full_def behind_def)
  ultimately show ?thesis
    by (simp add: sl_log_def take_sequence_def sl_key_def Let_def flush_behind) (simp add: behind_def)
qed

lemma run_behind: "run_ops (seq_ops ac) ops (behind text l) = behind text (run_ops (seq_ops ac) ops l)"
  by (induction ops arbitrary: l) (auto simp: seq_ops_def log_behind flush_behind split: sum.splits)

lemma file_after_run:
  assumes "cf_output_path (sc_base config) \<noteq> ''stdout''"
    and "list_all (roundtrips ac) (sign_chain ac (sc_signing_key config) 0 None (logged ops))"
  shows "sk_file (sl_sinks (sl_flush ac True (\<lambda>_. True) (run_ops (seq_ops ac) ops (sl_new config \<lparr>sk_stdout = out, sk_file = text\<rparr>))))
    = text @ file_text ac (sign_chain ac (sc_signing_key config) 0 None (logged ops))"
proof -
  let ?l = "run_ops (seq_ops ac) ops (sl_new config \<lparr>sk_stdout = out, sk_file = []\<rparr>)"
  have new: "sl_new config \<lparr>sk_stdout = out, sk_file = text\<rparr> = behind text (sl_new config \<lparr>sk_stdout = out, sk_file = []\<rparr>)"
    by (simp add: sl_new_def behind_def)
  have "log_inv ac config (logged ops) ?l"
    using log_inv_run [OF assms(1), of ac "[]" ops "sl_new config \<lparr>sk_stdout = out, sk_file = []\<rparr>"] assms(2) log_inv_new by simp
  from log_inv_flush [OF assms(1,2) this]
  have "sk_file (sl_sinks (sl_flush ac True (\<lambda>_. True) ?l)) = file_text ac (sign_chain ac (sc_signing_key config) 0 None (logged ops))"
    unfolding log_inv_def by auto
  then show ?thesis
    unfolding new run_behind flush_behind by (simp add: behind_def)
qed

lemma linked_append: "linked p (es @ es') \<longleftrightarrow> linked p es \<and> linked (chain_end p es) es'"
  by (induction es arbitrary: p) auto

text \<open>
  C31. A restart breaks the chain: a logger that is started again on its file with the same signing key, logs and
  flushes, leaves a file that the verifier rejects, although every line was written by the logger and nothing was
  changed.
\<close>

theorem restart_breaks_chain:
  assumes "cf_output_path (sc_base config) \<noteq> ''stdout''"
    and "list_all (roundtrips ac) (sign_chain ac (sc_signing_key config) 0 None (logged ops))"
    and "list_all (roundtrips ac) (sign_chain ac (sc_signing_key config) 0 None (logged ops'))"
    and "logged ops \<noteq> []" "logged ops' \<noteq> []"
    and "first = sl_flush ac True (\<lambda>_. True) (run_ops (seq_ops ac) ops (sl_new config \<lparr>sk_stdout = [], sk_file = []\<rparr>))"
    and "second = sl_flush ac True (\<lambda>_. True) (run_ops (seq_ops ac) ops' (sl_new config (sl_sinks first)))"
  shows "vr_valid (verify_content ac (sc_signing_key config) (sk_file (sl_sinks first)))
    \<and> \<not> vr_valid (verify_content ac (sc_signing_key config) (sk_file (sl_sinks second)))"
proof -
  let ?es = "sign_chain ac (sc_signing_key config) 0 None (logged ops)"
  let ?es' = "sign_chain ac (sc_signing_key config) 0 None (logged ops')"
  have one: "sk_file (sl_sinks first) = file_text ac ?es"
    using file_after_run [OF assms(1,2), of "[]" "[]"] assms(6) by simp
  have two: "sk_file (sl_sinks second) = file_text ac (?es @ ?es')"
  proof -
    obtain out txt0 where sinks: "sl_sinks first = \<lparr>sk_stdout = out, sk_file = txt0\<rparr>"
      by (cases "sl_sinks first")
    then have "txt0 = file_text ac ?es"
      using one by simp
    then show ?thesis
      by (simp only: assms(7) sinks file_after_run [OF assms(1,3)] file_text_append)
  qed
  have parse1: "parses ac (str_lines (file_text ac ?es)) ?es"
    by (rule file_text_lines(2) [OF assms(2)])
  have parse2: "parses ac (str_lines (file_text ac (?es @ ?es'))) (?es @ ?es')"
    using assms(2,3) by (intro file_text_lines(2)) simp
  obtain p where p: "chain_end None ?es = Some p"
    using assms(4) by (cases "logged ops") (auto simp: chain_end_def Let_def)
  have "\<not> linked None (?es @ ?es')"
    using assms(5) by (cases "logged ops'") (auto simp: linked_append p Let_def)
  moreover have "es = ?es @ ?es'" if "parses ac (str_lines (file_text ac (?es @ ?es'))) es" for es
    using that parse2 unfolding parses_def by (simp add: inj_on_def map_inj_on)
  ultimately show ?thesis
    unfolding verify_content_valid one two using parse1 sign_chain_verifies sign_chain_linked by blast
qed

theorem restart_breaks_chain_witness:
  "let first = sl_flush demo_crates True (\<lambda>_. True) (run_ops (seq_ops demo_crates) [Inl (demo_event 1)]
                 (sl_new demo_config \<lparr>sk_stdout = [], sk_file = []\<rparr>));
       second = sl_flush demo_crates True (\<lambda>_. True) (run_ops (seq_ops demo_crates) [Inl (demo_event 1)]
                 (sl_new demo_config (sl_sinks first)))
   in vr_valid (verify_content demo_crates (sc_signing_key demo_config) (sk_file (sl_sinks first)))
      \<and> \<not> vr_valid (verify_content demo_crates (sc_signing_key demo_config) (sk_file (sl_sinks second)))"
proof -
  have logged: "logged [Inl (demo_event 1)] = [demo_event 1]"
    by (simp add: logged_def)
  have key: "sc_signing_key demo_config = [7]"
    by (simp add: demo_config_def signed_config_with_key_def)
  have path: "cf_output_path (sc_base demo_config) \<noteq> ''stdout''"
    by (simp add: demo_config_def signed_config_with_key_def)
  have "demo_entries = sign_chain demo_crates [7] 0 None [demo_event 1] @ [demo_entries ! 1]"
    using demo_chain by (simp add: demo_entries_def Let_def nth_Cons')
  then have "list_all (roundtrips demo_crates) (sign_chain demo_crates [7] 0 None [demo_event 1])"
    using demo_roundtrips by (metis list_all_append)
  then show ?thesis
    unfolding Let_def by (intro restart_breaks_chain [OF path _ _ _ _ refl refl]) (simp_all only: key logged, simp_all)
qed

text \<open>
  The verifier remembers the report of its last check of the directory, whether a caller or the background task
  made it; a directory that cannot be listed leaves the report as it was.
\<close>

theorem last_result_is_last_report:
  "get_last_result (fold (iv_tick ac) (listings @ [Inr files]) v)
     = Some (verify_directory ac (iv_signing_key v) (iv_log_path v) files)
   \<and> get_last_result (iv_tick ac (Inl e) v) = get_last_result v"
proof -
  have "iv_signing_key (fold (iv_tick ac) listings v) = iv_signing_key v \<and> iv_log_path (fold (iv_tick ac) listings v) = iv_log_path v"
    by (induction listings arbitrary: v) (auto simp: iv_tick_def iv_verify_def Let_def split: sum.splits)
  then show ?thesis
    by (simp add: iv_tick_def [of _ "Inr _"] iv_tick_def [of _ "Inl _"] iv_verify_def get_last_result_def Let_def)
qed

end
