(* ===== verification/Config.thy ===== *)
theory Config
  imports Worm Key_Format
begin

text \<open>
  The configuration of the server: the sections of its file with their defaults and the environment variables
  that override them (\<^verbatim>\<open>src/cmd/config.rs\<close>), the opt-in flags for insecure operation (\<^verbatim>\<open>production_safety.rs\<close> of \<^verbatim>\<open>kms-core\<close>) and the
  protection of connections to the database (\<^verbatim>\<open>tls_config.rs\<close>). The parser of TOML is a parameter: it yields the
  configuration with the defaults of absent fields filled in. The environment is a map; a variable that is not
  valid Unicode counts as absent.
\<close>

type_synonym environment = "string \<rightharpoonup> string"

section \<open>Opting in to insecure operation\<close>

definition is_allow_insecure :: "environment \<Rightarrow> bool" where
  "is_allow_insecure env \<longleftrightarrow> env ''KMS_ALLOW_INSECURE'' = Some ''1''"

definition is_dev_mode :: "environment \<Rightarrow> bool" where
  "is_dev_mode env \<longleftrightarrow> env ''KMS_DEV_MODE'' = Some ''1''"

definition is_insecure_opted_in :: "environment \<Rightarrow> bool" where
  "is_insecure_opted_in env \<longleftrightarrow> is_dev_mode env \<or> is_allow_insecure env"

section \<open>The sections\<close>

record api_key_entry =
  en_key_id :: string
  en_role :: string
  en_tenant :: "string option"
  en_secret_env :: string

record backup_section =
  bx_enabled :: bool
  bx_backup_path :: string
  bx_retention_count :: u32
  bx_retention_days :: u32
  bx_kdf_iterations :: u32
  bx_master_key_passphrase :: "string option"

definition backup_section_default :: backup_section where
  "backup_section_default =
     \<lparr>bx_enabled = True, bx_backup_path = ''/var/kms/backup'', bx_retention_count = 3, bx_retention_days = 365,
      bx_kdf_iterations = 100000, bx_master_key_passphrase = None\<rparr>"

record tsa_section =
  ts_enabled :: bool
  ts_endpoints :: "string list"
  ts_timeout_secs :: u64
  ts_require_tsa :: bool
  ts_interval_secs :: u64
  ts_username :: "string option"
  ts_password :: "string option"
  ts_ca_path :: "string option"
  ts_hash_algorithm :: string

definition tsa_section_default :: tsa_section where
  "tsa_section_default =
     \<lparr>ts_enabled = False, ts_endpoints = [], ts_timeout_secs = 30, ts_require_tsa = False, ts_interval_secs = 60,
      ts_username = None, ts_password = None, ts_ca_path = None, ts_hash_algorithm = ''sha256''\<rparr>"

record audit_section =
  ax_output_path :: string
  ax_flush_interval_secs :: u64
  ax_buffer_size :: nat
  ax_kafka_brokers :: "string option"
  ax_kafka_topic :: "string option"
  ax_tsa :: "tsa_section option"

definition audit_section_default :: audit_section where
  "audit_section_default =
     \<lparr>ax_output_path = ''stdout'', ax_flush_interval_secs = 5, ax_buffer_size = 100, ax_kafka_brokers = None,
      ax_kafka_topic = None, ax_tsa = None\<rparr>"

record server_config =
  sx_rest_port :: u16
  sx_grpc_port :: u16

definition server_config_default :: server_config where
  "server_config_default = \<lparr>sx_rest_port = 8080, sx_grpc_port = 9090\<rparr>"

record backend_config =
  bk_backend_type :: string
  bk_tpm_backend :: string
  bk_allow_in_memory :: bool

definition backend_config_default :: backend_config where
  "backend_config_default = \<lparr>bk_backend_type = ''software'', bk_tpm_backend = ''simulated'', bk_allow_in_memory = False\<rparr>"

record redis_config =
  rx_url :: string
  rx_enabled :: bool

definition redis_config_default :: redis_config where
  "redis_config_default = \<lparr>rx_url = ''redis://127.0.0.1:6379'', rx_enabled = True\<rparr>"

record tls_section =
  tx_cert_path :: string
  tx_key_path :: string
  tx_ca_path :: string
  tx_require_client_cert :: bool

record rest_tls_section =
  rt_enabled :: bool
  rt_backend :: string
  rt_cert_path :: string
  rt_key_path :: string
  rt_ca_path :: "string option"
  rt_require_client_auth :: bool
  rt_tlcp_sign_cert_path :: "string option"
  rt_tlcp_enc_cert_path :: "string option"
  rt_tlcp_sign_key_path :: "string option"
  rt_tlcp_enc_key_path :: "string option"

definition rest_tls_section_default :: rest_tls_section where
  "rest_tls_section_default =
     \<lparr>rt_enabled = False, rt_backend = ''rustls'', rt_cert_path = [], rt_key_path = [], rt_ca_path = None,
      rt_require_client_auth = False, rt_tlcp_sign_cert_path = None, rt_tlcp_enc_cert_path = None,
      rt_tlcp_sign_key_path = None, rt_tlcp_enc_key_path = None\<rparr>"

definition ascii_upper :: "char \<Rightarrow> char" where
  "ascii_upper c = (if 97 \<le> (of_char c :: nat) \<and> (of_char c :: nat) \<le> 122 then char_of ((of_char c :: nat) - 32) else c)"

text \<open>The message names the first path that is missing.\<close>

definition validate_tlcp_paths :: "rest_tls_section \<Rightarrow> msg + unit" where
  "validate_tlcp_paths t =
     (if rt_backend t \<noteq> ''tlcp'' then Inr ()
      else
        case List.find (\<lambda>(name, val). unwrap_or [] val = [])
               [(''tlcp_sign_cert_path'', rt_tlcp_sign_cert_path t), (''tlcp_enc_cert_path'', rt_tlcp_enc_cert_path t),
                (''tlcp_sign_key_path'', rt_tlcp_sign_key_path t), (''tlcp_enc_key_path'', rt_tlcp_enc_key_path t)] of
          Some (name, _) \<Rightarrow> Inl (Fmt [Lit ''REST_TLS_BACKEND=tlcp requires `[rest_tls].'', Lit name, Lit ''` (or env var `REST_TLS_'',
                                  Lit (map ascii_upper name), Lit ''`) to be set''])
        | None \<Rightarrow> Inr ())"

record rate_limit_section =
  rx_limit_enabled :: bool
  rx_requests_per_second :: u64
  rx_requests_per_minute :: u64
  rx_burst_size :: u64

definition rate_limit_section_default :: rate_limit_section where
  "rate_limit_section_default =
     \<lparr>rx_limit_enabled = True, rx_requests_per_second = 100, rx_requests_per_minute = 5000, rx_burst_size = 200\<rparr>"

record quota_section =
  qx_enabled :: bool
  qx_max_keys :: u64
  qx_max_requests_per_minute :: u64
  qx_max_requests_per_day :: u64

definition quota_section_default :: quota_section where
  "quota_section_default =
     \<lparr>qx_enabled = True, qx_max_keys = 1000, qx_max_requests_per_minute = 5000, qx_max_requests_per_day = 1000000\<rparr>"

record cors_config =
  co_allowed_origins :: string
  co_allow_credentials :: bool

definition cors_config_default :: cors_config where
  "cors_config_default = \<lparr>co_allowed_origins = [], co_allow_credentials = True\<rparr>"

record database_config =
  dx_host :: string
  dx_port :: u16
  dx_name :: string
  dx_username :: string
  dx_password :: string
  dx_url :: "string option"
  dx_connect_timeout_secs :: u64

definition database_config_default :: database_config where
  "database_config_default =
     \<lparr>dx_host = ''localhost'', dx_port = 5432, dx_name = ''kms'', dx_username = ''kms_user'', dx_password = ''kms_pass'',
      dx_url = None, dx_connect_timeout_secs = 30\<rparr>"

definition connection_url :: "database_config \<Rightarrow> string" where
  "connection_url d =
     (case dx_url d of
        Some url \<Rightarrow> url
      | None \<Rightarrow> ''postgres://'' @ dx_username d @ '':'' @ dx_password d @ ''@'' @ dx_host d @ '':''
                  @ nat_digits (unat (dx_port d)) @ ''/'' @ dx_name d)"

record kafka_auth_config =
  ka_username :: "string option"
  ka_password :: "string option"
  ka_use_tls :: bool

definition kafka_auth_config_default :: kafka_auth_config where
  "kafka_auth_config_default = \<lparr>ka_username = None, ka_password = None, ka_use_tls = True\<rparr>"

record kms_config =
  kc_server :: server_config
  kc_backend :: backend_config
  kc_redis :: redis_config
  kc_tls :: "tls_section option"
  kc_rest_tls :: "rest_tls_section option"
  kc_audit :: audit_section
  kc_rate_limit :: rate_limit_section
  kc_quota :: quota_section
  kc_cors :: cors_config
  kc_database :: database_config
  kc_backup :: backup_section
  kc_kafka_auth :: kafka_auth_config
  kc_api_keys :: "api_key_entry list"

definition kms_config_default :: kms_config where
  "kms_config_default =
     \<lparr>kc_server = server_config_default, kc_backend = backend_config_default, kc_redis = redis_config_default, kc_tls = None,
      kc_rest_tls = None, kc_audit = audit_section_default, kc_rate_limit = rate_limit_section_default,
      kc_quota = quota_section_default, kc_cors = cors_config_default, kc_database = database_config_default,
      kc_backup = backup_section_default, kc_kafka_auth = kafka_auth_config_default, kc_api_keys = []\<rparr>"

section \<open>The environment\<close>

text \<open>A field that a variable replaces, as text, as an optional text, as a flag or as a number; a number that does not parse is ignored.\<close>

definition env_str :: "environment \<Rightarrow> string \<Rightarrow> string \<Rightarrow> string" where
  "env_str env name old = unwrap_or old (env name)"

definition env_opt :: "environment \<Rightarrow> string \<Rightarrow> string option \<Rightarrow> string option" where
  "env_opt env name old = (case env name of Some v \<Rightarrow> Some v | None \<Rightarrow> old)"

definition env_flag :: "environment \<Rightarrow> string \<Rightarrow> bool \<Rightarrow> bool" where
  "env_flag env name old = (case env name of Some v \<Rightarrow> v = ''true'' | None \<Rightarrow> old)"

definition parse_word :: "string \<Rightarrow> 'l::len word option" where
  "parse_word s =
     (let ds = (if starts_with s ''+'' then tl s else s)
      in if ds = [] then None
         else Option.bind (parse_digits ds 0) (\<lambda>n. if n < 2 ^ LENGTH('l) then Some (word_of_nat n) else None))"

definition env_num :: "environment \<Rightarrow> string \<Rightarrow> 'l::len word \<Rightarrow> 'l word" where
  "env_num env name old = unwrap_or old (Option.bind (env name) parse_word)"

definition tls_from_env :: "environment \<Rightarrow> tls_section option" where
  "tls_from_env env =
     (case (env ''TLS_CERT_PATH'', env ''TLS_KEY_PATH'', env ''TLS_CA_PATH'') of
        (Some cert_path, Some key_path, Some ca_path) \<Rightarrow>
          Some \<lparr>tx_cert_path = cert_path, tx_key_path = key_path, tx_ca_path = ca_path,
                tx_require_client_cert = env_flag env ''TLS_REQUIRE_CLIENT_CERT'' True\<rparr>
      | _ \<Rightarrow> None)"

definition override_tls :: "environment \<Rightarrow> tls_section option \<Rightarrow> tls_section option" where
  "override_tls env tls =
     (case (env ''TLS_CERT_PATH'', tls) of
        (Some cert, None) \<Rightarrow>
          Some \<lparr>tx_cert_path = cert, tx_key_path = env_str env ''TLS_KEY_PATH'' [], tx_ca_path = env_str env ''TLS_CA_PATH'' [],
                tx_require_client_cert = env_flag env ''TLS_REQUIRE_CLIENT_CERT'' True\<rparr>
      | _ \<Rightarrow> tls)"

definition override_rest_tls :: "environment \<Rightarrow> rest_tls_section option \<Rightarrow> rest_tls_section option" where
  "override_rest_tls env tls =
     (let created =
        (case (env ''REST_TLS_CERT_PATH'', tls) of
           (Some cert, None) \<Rightarrow>
             Some \<lparr>rt_enabled = True, rt_backend = env_str env ''REST_TLS_BACKEND'' ''rustls'', rt_cert_path = cert,
                   rt_key_path = env_str env ''REST_TLS_KEY_PATH'' [], rt_ca_path = env ''REST_TLS_CA_PATH'',
                   rt_require_client_auth = env_flag env ''REST_TLS_REQUIRE_CLIENT_AUTH'' False,
                   rt_tlcp_sign_cert_path = env ''REST_TLS_TLCP_SIGN_CERT_PATH'',
                   rt_tlcp_enc_cert_path = env ''REST_TLS_TLCP_ENC_CERT_PATH'',
                   rt_tlcp_sign_key_path = env ''REST_TLS_TLCP_SIGN_KEY_PATH'',
                   rt_tlcp_enc_key_path = env ''REST_TLS_TLCP_ENC_KEY_PATH''\<rparr>
         | _ \<Rightarrow> tls)
      in map_option (\<lambda>t. t\<lparr>
           rt_backend := env_str env ''REST_TLS_BACKEND'' (rt_backend t),
           rt_ca_path := env_opt env ''REST_TLS_CA_PATH'' (rt_ca_path t),
           rt_require_client_auth := env_flag env ''REST_TLS_REQUIRE_CLIENT_AUTH'' (rt_require_client_auth t),
           rt_tlcp_sign_cert_path := env_opt env ''REST_TLS_TLCP_SIGN_CERT_PATH'' (rt_tlcp_sign_cert_path t),
           rt_tlcp_enc_cert_path := env_opt env ''REST_TLS_TLCP_ENC_CERT_PATH'' (rt_tlcp_enc_cert_path t),
           rt_tlcp_sign_key_path := env_opt env ''REST_TLS_TLCP_SIGN_KEY_PATH'' (rt_tlcp_sign_key_path t),
           rt_tlcp_enc_key_path := env_opt env ''REST_TLS_TLCP_ENC_KEY_PATH'' (rt_tlcp_enc_key_path t)\<rparr>) created)"

text \<open>\<open>get_or_insert_with\<close>: a variable for time stamping makes the section exist.\<close>

definition patch_tsa :: "'a option \<Rightarrow> ('a \<Rightarrow> tsa_section \<Rightarrow> tsa_section) \<Rightarrow> tsa_section option \<Rightarrow> tsa_section option" where
  "patch_tsa value upd tsa = (case value of Some v \<Rightarrow> Some (upd v (unwrap_or tsa_section_default tsa)) | None \<Rightarrow> tsa)"

definition override_tsa :: "environment \<Rightarrow> tsa_section option \<Rightarrow> tsa_section option" where
  "override_tsa env tsa =
     (let tsa = patch_tsa (env ''TSA_ENABLED'') (\<lambda>v t. t\<lparr>ts_enabled := (v = ''true'')\<rparr>) tsa;
          tsa = patch_tsa (env ''TSA_ENDPOINT'') (\<lambda>v t. t\<lparr>ts_endpoints := map trim (split_on CHR '','' v)\<rparr>) tsa;
          tsa = patch_tsa (Option.bind (env ''TSA_TIMEOUT'') parse_word) (\<lambda>v t. t\<lparr>ts_timeout_secs := v\<rparr>) tsa;
          tsa = patch_tsa (env ''TSA_REQUIRE'') (\<lambda>v t. t\<lparr>ts_require_tsa := (v = ''true'')\<rparr>) tsa;
          tsa = patch_tsa (Option.bind (env ''TSA_INTERVAL'') parse_word) (\<lambda>v t. t\<lparr>ts_interval_secs := v\<rparr>) tsa;
          tsa = patch_tsa (env ''TSA_USERNAME'') (\<lambda>v t. t\<lparr>ts_username := Some v\<rparr>) tsa;
          tsa = patch_tsa (env ''TSA_PASSWORD'') (\<lambda>v t. t\<lparr>ts_password := Some v\<rparr>) tsa;
          tsa = patch_tsa (env ''TSA_CA_PATH'') (\<lambda>v t. t\<lparr>ts_ca_path := Some v\<rparr>) tsa
      in patch_tsa (env ''TSA_HASH_ALGORITHM'') (\<lambda>v t. t\<lparr>ts_hash_algorithm := v\<rparr>) tsa)"

definition override_audit :: "environment \<Rightarrow> audit_section \<Rightarrow> audit_section" where
  "override_audit env a =
     a\<lparr>ax_output_path := env_str env ''AUDIT_OUTPUT'' (ax_output_path a),
       ax_kafka_brokers := env_opt env ''KAFKA_BROKERS'' (ax_kafka_brokers a),
       ax_kafka_topic := env_opt env ''KAFKA_TOPIC'' (ax_kafka_topic a),
       ax_tsa := override_tsa env (ax_tsa a)\<rparr>"

definition override_database :: "environment \<Rightarrow> database_config \<Rightarrow> database_config" where
  "override_database env d =
     d\<lparr>dx_url := env_opt env ''DATABASE_URL'' (dx_url d), dx_host := env_str env ''POSTGRES_HOST'' (dx_host d),
       dx_port := env_num env ''POSTGRES_PORT'' (dx_port d), dx_name := env_str env ''POSTGRES_DB'' (dx_name d),
       dx_username := env_str env ''POSTGRES_USER'' (dx_username d),
       dx_password := env_str env ''POSTGRES_PASSWORD'' (dx_password d)\<rparr>"

definition override_backup :: "environment \<Rightarrow> backup_section \<Rightarrow> backup_section" where
  "override_backup env b =
     b\<lparr>bx_enabled := env_flag env ''BACKUP_ENABLED'' (bx_enabled b),
       bx_backup_path := env_str env ''BACKUP_PATH'' (bx_backup_path b),
       bx_retention_count := env_num env ''BACKUP_RETENTION_COUNT'' (bx_retention_count b),
       bx_retention_days := env_num env ''BACKUP_RETENTION_DAYS'' (bx_retention_days b),
       bx_kdf_iterations := env_num env ''BACKUP_KDF_ITERATIONS'' (bx_kdf_iterations b),
       bx_master_key_passphrase := env_opt env ''BACKUP_MASTER_KEY_PASSPHRASE'' (bx_master_key_passphrase b)\<rparr>"

definition apply_env_overrides :: "environment \<Rightarrow> kms_config \<Rightarrow> kms_config" where
  "apply_env_overrides env c =
     c\<lparr>kc_server := \<lparr>sx_rest_port = env_num env ''REST_PORT'' (sx_rest_port (kc_server c)),
                     sx_grpc_port = env_num env ''GRPC_PORT'' (sx_grpc_port (kc_server c))\<rparr>,
       kc_backend := (kc_backend c)\<lparr>bk_backend_type := env_str env ''KMS_BACKEND'' (bk_backend_type (kc_backend c)),
                                    bk_tpm_backend := env_str env ''KMS_TPM_BACKEND'' (bk_tpm_backend (kc_backend c))\<rparr>,
       kc_redis := (kc_redis c)\<lparr>rx_url := env_str env ''REDIS_URL'' (rx_url (kc_redis c))\<rparr>,
       kc_tls := override_tls env (kc_tls c),
       kc_rest_tls := override_rest_tls env (kc_rest_tls c),
       kc_audit := override_audit env (kc_audit c),
       kc_rate_limit := (kc_rate_limit c)\<lparr>
         rx_requests_per_second := env_num env ''RATE_LIMIT_RPS'' (rx_requests_per_second (kc_rate_limit c)),
         rx_limit_enabled := env_flag env ''RATE_LIMIT_ENABLED'' (rx_limit_enabled (kc_rate_limit c))\<rparr>,
       kc_database := override_database env (kc_database c),
       kc_kafka_auth := (kc_kafka_auth c)\<lparr>ka_username := env_opt env ''KAFKA_USERNAME'' (ka_username (kc_kafka_auth c)),
                                          ka_password := env_opt env ''KAFKA_PASSWORD'' (ka_password (kc_kafka_auth c)),
                                          ka_use_tls := env_flag env ''KAFKA_USE_TLS'' (ka_use_tls (kc_kafka_auth c))\<rparr>,
       kc_backup := override_backup env (kc_backup c)\<rparr>"

text \<open>\<open>file\<close> is the file at the path: absent, an error of reading it, or its text.\<close>

definition config_load ::
  "(string \<Rightarrow> string + kms_config) \<Rightarrow> environment \<Rightarrow> string \<Rightarrow> (string + string) option \<Rightarrow> msg + kms_config" where
  "config_load parse_toml env path file =
     and_then
       (case file of
          None \<Rightarrow> Inr kms_config_default
        | Some (Inl e) \<Rightarrow> Inl (Fmt [Lit ''Failed to read config file '', Str path, Lit '': '', Str e])
        | Some (Inr content) \<Rightarrow> map_err (\<lambda>e. Fmt [Lit ''Failed to parse config file '', Str path, Lit '': '', Str e]) (parse_toml content))
       (\<lambda>config. Inr (apply_env_overrides env config))"

section \<open>Connections to the database\<close>

datatype tls_mode = TlsDisabled | VerifyCa | NoVerify

definition tls_mode_str :: "tls_mode \<Rightarrow> string" where
  "tls_mode_str m = (case m of TlsDisabled \<Rightarrow> ''disabled'' | VerifyCa \<Rightarrow> ''verify_ca'' | NoVerify \<Rightarrow> ''no_verify'')"

record backend_tls_config =
  bt_mode :: tls_mode
  bt_ca_cert_path :: "string option"
  bt_client_cert_path :: "string option"
  bt_client_key_path :: "string option"

definition bt_disabled :: backend_tls_config where
  "bt_disabled = \<lparr>bt_mode = TlsDisabled, bt_ca_cert_path = None, bt_client_cert_path = None, bt_client_key_path = None\<rparr>"

definition bt_verify_ca :: "string \<Rightarrow> backend_tls_config" where
  "bt_verify_ca ca = \<lparr>bt_mode = VerifyCa, bt_ca_cert_path = Some ca, bt_client_cert_path = None, bt_client_key_path = None\<rparr>"

definition bt_mutual_tls :: "string \<Rightarrow> string \<Rightarrow> string \<Rightarrow> backend_tls_config" where
  "bt_mutual_tls ca cert key =
     \<lparr>bt_mode = VerifyCa, bt_ca_cert_path = Some ca, bt_client_cert_path = Some cert, bt_client_key_path = Some key\<rparr>"

definition is_tls_enabled :: "backend_tls_config \<Rightarrow> bool" where
  "is_tls_enabled b \<longleftrightarrow> bt_mode b \<noteq> TlsDisabled"

definition is_mutual_tls :: "backend_tls_config \<Rightarrow> bool" where
  "is_mutual_tls b \<longleftrightarrow> bt_client_cert_path b \<noteq> None \<and> bt_client_key_path b \<noteq> None"

definition backend_tls_from_env :: "environment \<Rightarrow> string + backend_tls_config" where
  "backend_tls_from_env env =
     (let mode_str = to_lowercase (unwrap_or [] (env ''KMS_DB_TLS_MODE''));
          candidate_mode = (if mode_str = ''no_verify'' then NoVerify else if mode_str = ''disabled'' then TlsDisabled else VerifyCa);
          opted_in = is_insecure_opted_in env;
          ca_cert_path = env ''KMS_DB_TLS_CA_CERT''
      in if candidate_mode = NoVerify \<and> \<not> opted_in then 
           Inl (''KMS_DB_TLS_MODE=no_verify rejected in production; set KMS_ALLOW_INSECURE=1 (or KMS_DEV_MODE=1) to opt in. ''
             @ ''no_verify enables an MITM-attackable connection.'')
         else if candidate_mode = TlsDisabled \<and> \<not> opted_in then 
           Inl (''KMS_DB_TLS_MODE=disabled rejected in production; set KMS_ALLOW_INSECURE=1 (or KMS_DEV_MODE=1) to opt in. ''
             @ ''Disabled means plaintext database traffic.'')
         else if candidate_mode = VerifyCa \<and> unwrap_or [] ca_cert_path = [] then
           Inl ''KMS_DB_TLS_MODE=verify_ca requires KMS_DB_TLS_CA_CERT to be set to a non-empty CA certificate path''
         else if candidate_mode = VerifyCa then Inr (bt_verify_ca (unwrap_or [] ca_cert_path))
         else Inr \<lparr>bt_mode = candidate_mode, bt_ca_cert_path = ca_cert_path, bt_client_cert_path = env ''KMS_DB_TLS_CLIENT_CERT'',
                   bt_client_key_path = env ''KMS_DB_TLS_CLIENT_KEY''\<rparr>)"

definition url_param :: "string \<Rightarrow> string option \<Rightarrow> string" where
  "url_param name value = (case value of Some v \<Rightarrow> ''&'' @ name @ ''='' @ v | None \<Rightarrow> [])"

definition build_postgres_url :: "backend_tls_config \<Rightarrow> string \<Rightarrow> string" where
  "build_postgres_url b base_url =
     (if \<not> is_tls_enabled b then base_url
      else
        let sslmode = (case bt_mode b of TlsDisabled \<Rightarrow> ''disable'' | VerifyCa \<Rightarrow> ''verify-ca'' | NoVerify \<Rightarrow> ''require'');
            separator = (if CHR ''?'' \<in> set base_url then ''&'' else ''?'')
        in base_url @ separator @ ''sslmode='' @ sslmode @ url_param ''sslrootcert'' (bt_ca_cert_path b)
           @ url_param ''sslcert'' (bt_client_cert_path b) @ url_param ''sslkey'' (bt_client_key_path b))"

section \<open>Overrides settle\<close>

lemma env_twice [simp]:
  "env_str env n (env_str env n x) = env_str env n x" "env_opt env n (env_opt env n o1) = env_opt env n o1"
  "env_flag env n (env_flag env n b) = env_flag env n b" "env_num env n (env_num env n w) = env_num env n w"
  by (simp_all add: env_str_def env_opt_def env_flag_def env_num_def unwrap_or_def split: option.split)

lemma env_own_value [simp]:
  "env_str env n (env_str env n x) = env_str env n x" "env_opt env n (env n) = env n"
  by (simp_all add: env_str_def env_opt_def unwrap_or_def split: option.split)

text \<open>The patches of the time-stamping section in their order.\<close>

definition tsa_patches :: "environment \<Rightarrow> (tsa_section option \<Rightarrow> tsa_section option) list" where
  "tsa_patches env =
     [patch_tsa (env ''TSA_ENABLED'') (\<lambda>v t. t\<lparr>ts_enabled := (v = ''true'')\<rparr>),
      patch_tsa (env ''TSA_ENDPOINT'') (\<lambda>v t. t\<lparr>ts_endpoints := map trim (split_on CHR '','' v)\<rparr>),
      patch_tsa (Option.bind (env ''TSA_TIMEOUT'') parse_word) (\<lambda>v t. t\<lparr>ts_timeout_secs := v\<rparr>),
      patch_tsa (env ''TSA_REQUIRE'') (\<lambda>v t. t\<lparr>ts_require_tsa := (v = ''true'')\<rparr>),
      patch_tsa (Option.bind (env ''TSA_INTERVAL'') parse_word) (\<lambda>v t. t\<lparr>ts_interval_secs := v\<rparr>),
      patch_tsa (env ''TSA_USERNAME'') (\<lambda>v t. t\<lparr>ts_username := Some v\<rparr>),
      patch_tsa (env ''TSA_PASSWORD'') (\<lambda>v t. t\<lparr>ts_password := Some v\<rparr>),
      patch_tsa (env ''TSA_CA_PATH'') (\<lambda>v t. t\<lparr>ts_ca_path := Some v\<rparr>),
      patch_tsa (env ''TSA_HASH_ALGORITHM'') (\<lambda>v t. t\<lparr>ts_hash_algorithm := v\<rparr>)]"

lemma override_tsa_fold: "override_tsa env tsa = fold id (tsa_patches env) tsa"
  by (simp add: override_tsa_def tsa_patches_def Let_def)

lemma patch_cases:
  "patch_tsa v u None = None \<and> patch_tsa v u (Some tsa_section_default) = Some tsa_section_default
   \<or> patch_tsa v u None = patch_tsa v u (Some tsa_section_default)"
  by (cases v) (simp_all add: patch_tsa_def unwrap_or_def)

lemma fold_patches_None:
  assumes "list_all (\<lambda>p. p None = None \<and> p (Some d) = Some d \<or> p None = p (Some d)) ps"
  shows "fold id ps None = None \<and> fold id ps (Some d) = Some d \<or> fold id ps None = fold id ps (Some d)"
  using assms
proof (induction ps)
  case (Cons p ps)
  then show ?case
    by (auto simp: id_def)
qed simp

lemma patch_Some: "patch_tsa v u (Some t) = Some (case v of Some x \<Rightarrow> u x t | None \<Rightarrow> t)"
  by (simp add: patch_tsa_def unwrap_or_def split: option.split)

lemma case_update:
  "(case v of Some x \<Rightarrow> t\<lparr>ts_enabled := f x\<rparr> | None \<Rightarrow> t) = t\<lparr>ts_enabled := (case v of Some x \<Rightarrow> f x | None \<Rightarrow> ts_enabled t)\<rparr>"
  "(case v of Some x \<Rightarrow> t\<lparr>ts_endpoints := g x\<rparr> | None \<Rightarrow> t) = t\<lparr>ts_endpoints := (case v of Some x \<Rightarrow> g x | None \<Rightarrow> ts_endpoints t)\<rparr>"
  "(case w of Some x \<Rightarrow> t\<lparr>ts_timeout_secs := x\<rparr> | None \<Rightarrow> t) = t\<lparr>ts_timeout_secs := (case w of Some x \<Rightarrow> x | None \<Rightarrow> ts_timeout_secs t)\<rparr>"
  "(case v of Some x \<Rightarrow> t\<lparr>ts_require_tsa := f x\<rparr> | None \<Rightarrow> t) = t\<lparr>ts_require_tsa := (case v of Some x \<Rightarrow> f x | None \<Rightarrow> ts_require_tsa t)\<rparr>"
  "(case w of Some x \<Rightarrow> t\<lparr>ts_interval_secs := x\<rparr> | None \<Rightarrow> t) = t\<lparr>ts_interval_secs := (case w of Some x \<Rightarrow> x | None \<Rightarrow> ts_interval_secs t)\<rparr>"
  "(case v of Some x \<Rightarrow> t\<lparr>ts_username := Some x\<rparr> | None \<Rightarrow> t) = t\<lparr>ts_username := (case v of Some x \<Rightarrow> Some x | None \<Rightarrow> ts_username t)\<rparr>"
  "(case v of Some x \<Rightarrow> t\<lparr>ts_password := Some x\<rparr> | None \<Rightarrow> t) = t\<lparr>ts_password := (case v of Some x \<Rightarrow> Some x | None \<Rightarrow> ts_password t)\<rparr>"
  "(case v of Some x \<Rightarrow> t\<lparr>ts_ca_path := Some x\<rparr> | None \<Rightarrow> t) = t\<lparr>ts_ca_path := (case v of Some x \<Rightarrow> Some x | None \<Rightarrow> ts_ca_path t)\<rparr>"
  "(case v of Some x \<Rightarrow> t\<lparr>ts_hash_algorithm := x\<rparr> | None \<Rightarrow> t) = t\<lparr>ts_hash_algorithm := (case v of Some x \<Rightarrow> x | None \<Rightarrow> ts_hash_algorithm t)\<rparr>"
  by (auto split: option.split)

definition tsa_overridden :: "environment \<Rightarrow> tsa_section \<Rightarrow> tsa_section" where
  "tsa_overridden env t = t\<lparr>
     ts_enabled := (case env ''TSA_ENABLED'' of Some x \<Rightarrow> x = ''true'' | None \<Rightarrow> ts_enabled t),
     ts_endpoints := (case env ''TSA_ENDPOINT'' of Some x \<Rightarrow> map trim (split_on CHR '','' x) | None \<Rightarrow> ts_endpoints t),
     ts_timeout_secs := (case Option.bind (env ''TSA_TIMEOUT'') parse_word of Some x \<Rightarrow> x | None \<Rightarrow> ts_timeout_secs t),
     ts_require_tsa := (case env ''TSA_REQUIRE'' of Some x \<Rightarrow> x = ''true'' | None \<Rightarrow> ts_require_tsa t),
     ts_interval_secs := (case Option.bind (env ''TSA_INTERVAL'') parse_word of Some x \<Rightarrow> x | None \<Rightarrow> ts_interval_secs t),
     ts_username := (case env ''TSA_USERNAME'' of Some x \<Rightarrow> Some x | None \<Rightarrow> ts_username t),
     ts_password := (case env ''TSA_PASSWORD'' of Some x \<Rightarrow> Some x | None \<Rightarrow> ts_password t),
     ts_ca_path := (case env ''TSA_CA_PATH'' of Some x \<Rightarrow> Some x | None \<Rightarrow> ts_ca_path t),
     ts_hash_algorithm := (case env ''TSA_HASH_ALGORITHM'' of Some x \<Rightarrow> x | None \<Rightarrow> ts_hash_algorithm t)\<rparr>"

lemma override_tsa_Some: "override_tsa env (Some t) = Some (tsa_overridden env t)"
  unfolding override_tsa_def Let_def patch_Some case_update tsa_overridden_def by (simp cong: option.case_cong)

lemma case_own: "(case v of Some x \<Rightarrow> f x | None \<Rightarrow> (case v of Some x \<Rightarrow> f x | None \<Rightarrow> d)) = (case v of Some x \<Rightarrow> f x | None \<Rightarrow> d)"
  by (cases v) simp_all

lemma tsa_overridden_twice: "tsa_overridden env (tsa_overridden env t) = tsa_overridden env t"
  by (cases t) (simp add: tsa_overridden_def case_own cong: option.case_cong)

lemma override_tsa_twice: "override_tsa env (override_tsa env tsa) = override_tsa env tsa"
proof -
  have some: "\<exists>t'. override_tsa env (Some t) = Some t' \<and> override_tsa env (Some t') = Some t'" for t
    by (simp add: override_tsa_Some tsa_overridden_twice)
  show ?thesis
  proof (cases tsa)
    case None
    have "list_all (\<lambda>p. p None = None \<and> p (Some tsa_section_default) = Some tsa_section_default
        \<or> p None = p (Some tsa_section_default)) (tsa_patches env)"
      unfolding tsa_patches_def list.pred_inject by (intro conjI patch_cases) simp_all
    from fold_patches_None [OF this] show ?thesis
      using some [of tsa_section_default] unfolding None override_tsa_fold by auto
  next
    case (Some t)
    then show ?thesis
      by (simp add: override_tsa_Some tsa_overridden_twice)
  qed
qed

lemma override_rest_tls_twice: "override_rest_tls env (override_rest_tls env tls) = override_rest_tls env tls"
  by (cases tls; cases "env ''REST_TLS_CERT_PATH''") (simp_all add: override_rest_tls_def)

lemma override_tls_twice: "override_tls env (override_tls env tls) = override_tls env tls"
  by (cases tls; cases "env ''TLS_CERT_PATH''") (simp_all add: override_tls_def)

text \<open>
  The variables of the environment decide: applying them once more changes nothing, and a field with a variable
  of its own does not depend on the file.
\<close>

theorem env_overrides_settle:
  "apply_env_overrides env (apply_env_overrides env c) = apply_env_overrides env c
   \<and> (env ''DATABASE_URL'' = Some url \<longrightarrow> connection_url (kc_database (apply_env_overrides env c)) = url)"
proof
  show "apply_env_overrides env (apply_env_overrides env c) = apply_env_overrides env c"
    by (simp add: apply_env_overrides_def override_audit_def override_database_def override_backup_def override_tsa_twice
        override_rest_tls_twice override_tls_twice)
  show "env ''DATABASE_URL'' = Some url \<longrightarrow> connection_url (kc_database (apply_env_overrides env c)) = url"
    by (simp add: apply_env_overrides_def override_database_def connection_url_def env_opt_def)
qed

theorem env_overrides_settle_witness:
  "connection_url (kc_database (apply_env_overrides [''DATABASE_URL'' \<mapsto> ''postgres://db/kms''] kms_config_default)) = ''postgres://db/kms''"
  using env_overrides_settle [of "[''DATABASE_URL'' \<mapsto> ''postgres://db/kms'']" kms_config_default "''postgres://db/kms''"] by simp

text \<open>
  Without an opt-in the connection to the database is checked against an authority: the mode is \<open>VerifyCa\<close>, a
  certificate of an authority is named and the URL asks for the check. A certificate of the client never gets there.
\<close>

theorem database_tls_checked:
  assumes "backend_tls_from_env env = Inr b" and "\<not> is_insecure_opted_in env"
  shows "\<exists>ca sep. b = bt_verify_ca ca \<and> ca \<noteq> [] \<and> env ''KMS_DB_TLS_CA_CERT'' = Some ca
    \<and> build_postgres_url b url = url @ sep @ ''sslmode=verify-ca&sslrootcert='' @ ca \<and> \<not> is_mutual_tls b"
  using assms
  by (auto simp: backend_tls_from_env_def Let_def bt_verify_ca_def build_postgres_url_def is_tls_enabled_def is_mutual_tls_def
      url_param_def unwrap_or_def split: if_splits option.splits)

theorem database_tls_checked_witness:
  "\<exists>sep. build_postgres_url (bt_verify_ca ''/ca.pem'') ''postgres://db/kms''
     = ''postgres://db/kms'' @ sep @ ''sslmode=verify-ca&sslrootcert='' @ ''/ca.pem''"
proof -
  let ?env = "[''KMS_DB_TLS_CA_CERT'' \<mapsto> ''/ca.pem'', ''KMS_DB_TLS_CLIENT_CERT'' \<mapsto> ''/client.pem'']"
  have "backend_tls_from_env ?env = Inr (bt_verify_ca ''/ca.pem'')" "\<not> is_insecure_opted_in ?env"
    by (simp_all add: backend_tls_from_env_def unwrap_or_def is_insecure_opted_in_def is_dev_mode_def is_allow_insecure_def)
  from database_tls_checked [OF this, of "''postgres://db/kms''"] show ?thesis
    by (auto simp: bt_verify_ca_def)
qed

end
