(* ===== verification/Spec2Isabelle.thy ===== *)
theory Spec2Isabelle
  imports Shamir Kex Approval Policy_Store Worm Service_Properties Auth Totp Events Backup Kek_Source Grpc_Properties Secret_Rotation Rotation Timestamped_Log Signing_Keys Config
begin

text \<open>
  Verification of gm-kms, a key management service written in Rust. All paths below are relative to
  \<^verbatim>\<open>src/crates\<close>.

  \<^bold>\<open>The program.\<close> Requests reach the service through HTTP and gRPC front ends (\<^verbatim>\<open>kms-api\<close>), which
  authenticate the caller by an API key, check its role, ask a policy engine (\<^verbatim>\<open>kms-policy\<close>), apply rate
  limits and quotas, and, for sensitive operations, demand a request approved by a quorum
  (\<^verbatim>\<open>kms-approval\<close>). They call the services for keys, cryptography and envelopes, which work on a keystore
  (\<^verbatim>\<open>kms-keystore\<close>): in memory, or in PostgreSQL under a key encryption key and behind a bounded cache. Every
  operation is recorded in a signed audit log (\<^verbatim>\<open>kms-audit\<close>). Second factors are in \<^verbatim>\<open>kms-mfa\<close>; domain types,
  the encoding of additional authenticated data, secret sharing for key custodians, random numbers, backups
  and the rotation of secrets and SM9 master keys are in \<^verbatim>\<open>kms-core\<close>.

  \<^bold>\<open>Conventions of the model.\<close> A struct is a record, an enum a datatype, a machine integer a word of its
  width, a hash map a partial function, or an association list where its iteration order shows. An
  operation on a component takes its state as the last argument and returns its result together
  with the state it leaves behind, on the error paths too; \<open>Result\<close> is a sum type with the error on
  the left, and \<open>then_st\<close> is the operator \<open>?\<close>. A panic is an error value of its own or \<open>None\<close>. Text built by
  \<open>format!\<close> around values of other crates is kept unrendered.
  Random bytes, fresh identifiers, clock readings, the iteration order of maps and the outcome of
  input and output are arguments: the statements of PostgreSQL and the calls of the file system each take
  whether they fail (\<open>db_env\<close> and the fields of the other \<open>_env\<close> records), the commands of Redis are the record
  \<open>redis\<close>, and one request of a front end takes a \<open>request_env\<close>. Functions of other crates are fields of records
  (\<open>crypto\<close>, \<open>kex_crate\<close>, \<open>audit_crates\<close>, \<open>sm9_lib\<close>) or plain arguments; what a theorem needs of them is one of
  its hypotheses, and the small instances beside the theorems (\<open>mini_\<dots>\<close>) show that the hypotheses can hold.
  The string functions of the standard library are defined where they are used.

  \<^bold>\<open>Theories.\<close>
  \<^item> \<open>Prelude\<close>: machine types, byte encodings, results, and the interfaces \<open>stateful\<close> (operations that keep
    an invariant) and \<open>absorbing\<close> (final states that are never left), with the lemmas on runs.
  \<^item> \<open>Kms_Types\<close>: \<^verbatim>\<open>kms-core/src/key.rs\<close>, \<^verbatim>\<open>error.rs\<close>, \<^verbatim>\<open>types.rs\<close>, \<^verbatim>\<open>dh.rs\<close>.
  \<^item> \<open>Aad\<close>: \<^verbatim>\<open>kms-core/src/aad.rs\<close>; the encoding is injective.
  \<^item> \<open>Key_Material\<close>: \<^verbatim>\<open>kms-core/src/sm2_scalar.rs\<close> and \<^verbatim>\<open>kms-keystore/src/validation.rs\<close>; the byte-wise range
    check is the numeric one, what import validation lets through, and its faulty SM2 check.
  \<^item> \<open>Field61\<close>, \<open>Lagrange\<close>, \<open>Shamir\<close>: \<^verbatim>\<open>kms-core/src/shamir.rs\<close>. Primality of \<open>2 ^ 61 - 1\<close> by a Pratt
    certificate, the field of its residues, interpolation over any field, and on top of them the
    code: splitting and reconstructing return the secret, commitments verify, and the weaknesses of
    the share check and of threshold two.
  \<^item> \<open>Csprng\<close>: \<^verbatim>\<open>kms-core/src/csprng.rs\<close>. The generator is HMAC in counter mode, every output follows a
    successful reading of entropy, and what the self test accepts.
  \<^item> \<open>Secret_Rotation\<close>: \<^verbatim>\<open>kms-core/src/secret_rotation.rs\<close>. One version is active, rollback returns the
    version before, and three ways to lose secrets.
  \<^item> \<open>Software_Keystore\<close>: \<^verbatim>\<open>kms-keystore/src/software/mod.rs\<close>, keys. The invariant of all reachable stores,
    decryption across rotations, tenant isolation, keys pending deletion, generation, signatures,
    listing, and the loss of material in a failed rotation.
  \<^item> \<open>Kex\<close>: the key exchange sessions of the same file; message format, replay protection, revocation.
  \<^item> \<open>Bounded_Cache\<close>: \<^verbatim>\<open>kms-keystore/src/bounded_cache.rs\<close>. The cache equals a queue of bounded length; what
    a keystore needs of a cache is the locale \<open>key_cache\<close>.
  \<^item> \<open>Key_Repository\<close>: \<^verbatim>\<open>kms-keystore/src/repository.rs\<close>, the tables of keys and versions with their
    constraints and the statements on them.
  \<^item> \<open>Postgres_Keystore\<close>, \<open>Postgres_Invariant\<close>, \<open>Postgres_Properties\<close>: \<^verbatim>\<open>kms-keystore/src/postgres.rs\<close>.
    Cached entries agree with the rows in every reachable state, so answers do not depend on the cache
    or on restarts; decryption across rotations, isolation, and the two ways to load keys.
  \<^item> \<open>Limits\<close>: \<^verbatim>\<open>kms-keystore/src/rate_limiter.rs\<close> and \<^verbatim>\<open>kms-api/src/ratelimit.rs\<close>, \<^verbatim>\<open>quota.rs\<close>,
    with the counter of \<^verbatim>\<open>rotation.rs\<close>; how many requests a window admits, under timeouts of Redis that fall due
    as time passes, and what happens without Redis.
  \<^item> \<open>Backend\<close>: \<^verbatim>\<open>kms-keystore/src/backend.rs\<close> as a record of operations, with the contract the services
    rely on (a locale) and its interpretations on both keystores.
  \<^item> \<open>Key_Format\<close>, \<open>Services\<close>, \<open>Service_Properties\<close>: \<^verbatim>\<open>kms-api/src/service\<close>. Imported formats, the key,
    crypto and envelope services over any backend; isolation of tenants, envelopes across rotations.
  \<^item> \<open>Approval\<close>: \<^verbatim>\<open>kms-approval\<close>. An approval means a quorum of distinct people, a quorum leads to an
    approval, completed requests are final, emergency access is bounded, and where the code falls
    short of dual custody and of its description of administrators.
  \<^item> \<open>Glob\<close>, \<open>Policy\<close>: \<^verbatim>\<open>kms-policy/src/engine.rs\<close>, \<^verbatim>\<open>lib.rs\<close>. The matcher is sound, exact on the
    patterns in use and wrong with a leading wildcard; decisions are deny-overrides and default
    deny, independent of the order of the map; foreign tenants' policies do not matter.
  \<^item> \<open>Policy_Store\<close>: \<^verbatim>\<open>kms-policy/src/store.rs\<close>. What the engine needs of a durable store is the locale
    \<open>durable_policies\<close>; the table of rows is an instance, and policies survive restarts.
  \<^item> \<open>Auth\<close>: \<^verbatim>\<open>kms-api/src/auth.rs\<close>. Roles and permissions, the list of API keys, the middleware: what an
    authenticated request has shown, locking, revocation, and the grace period of a rotated key.
  \<^item> \<open>Totp\<close>, \<open>Mfa\<close>: \<^verbatim>\<open>kms-mfa\<close> and \<^verbatim>\<open>kms-api/src/mfa.rs\<close>. One-time passwords, single use of backup codes,
    the bound on guesses, and the manager over the database or over memory.
  \<^item> \<open>Events\<close>, \<open>Audit_Log\<close>: \<^verbatim>\<open>kms-core/src/event.rs\<close>, \<^verbatim>\<open>kms-audit/src/lib.rs\<close>, \<^verbatim>\<open>logger.rs\<close>,
    \<^verbatim>\<open>verifier.rs\<close>. A sequentially written log verifies, alterations are detected, and concurrent calls,
    modelled as interleaved steps, fork the chain.
  \<^item> \<open>Signing_Keys\<close>: the key files of both audit loggers and the verifier in the background. A signing key
    survives a restart; the chain of the signing logger does not.
  \<^item> \<open>Timestamp\<close>, \<open>Timestamped_Log\<close>: \<^verbatim>\<open>kms-audit/src/timestamp.rs\<close> and the time-stamping logger of \<^verbatim>\<open>logger.rs\<close>.
    A genuine answer of an authority is read and accepted, the token cut out of it never verifies, so no entry
    carries a time stamp; calendar times, and the order of the endpoints.
  \<^item> \<open>Worm\<close>: \<^verbatim>\<open>kms-audit/src/worm_writer.rs\<close>, \<^verbatim>\<open>worm_logger.rs\<close>; the logger refines the signing logger, and
    the chain check of the storage rejects every genuine log.
  \<^item> \<open>Backup\<close>, \<open>Kek_Source\<close>: \<^verbatim>\<open>kms-core/src/backup.rs\<close>, \<^verbatim>\<open>kek_source.rs\<close>. Backups restore, the master key
    survives a restart, and where the key encryption key comes from.
  \<^item> \<open>Sm9\<close>, \<open>Rotation\<close>: \<^verbatim>\<open>kms-core/src/sm9_master_key.rs\<close>, \<^verbatim>\<open>sm9_key_rotation.rs\<close>,
    \<^verbatim>\<open>kms-keystore/src/sm9_master_key.rs\<close>, \<^verbatim>\<open>kms-api/src/rotation.rs\<close>. Sealed master keys, the adapter
    of SM9 keys, and the service that rotates keys by policy.
  \<^item> \<open>Rest\<close>, \<open>Rest_Control\<close>, \<open>Rest_Properties\<close>: \<^verbatim>\<open>kms-api/src/rest.rs\<close> with \<^verbatim>\<open>validation.rs\<close> and
    \<^verbatim>\<open>approval.rs\<close>. All handlers and the middleware in front of them, over the models of all components above;
    who can change keys, approvals before sensitive requests, confinement of bound callers, the audit trail.
  \<^item> \<open>Grpc\<close>, \<open>Grpc_Properties\<close>: \<^verbatim>\<open>kms-api/src/grpc.rs\<close>. Every method with the interceptor in front of it, over
    the same state; the same guarantees on this channel, requests of both channels mixed, the methods
    on which the channels agree, and an import that passes the quota by.
  \<^item> \<open>Config\<close>: \<^verbatim>\<open>config.rs\<close> of the server (in \<^verbatim>\<open>src/src/cmd\<close>), \<^verbatim>\<open>kms-core/src/production_safety.rs\<close>,
    \<^verbatim>\<open>tls_config.rs\<close>. The overrides of the environment settle, and without an opt-in the connection to the database
    is checked against an authority.

  \<^bold>\<open>Bounds.\<close> No operation needs fuel. Loops run over lists or over the digits of a word, and their
  recursion is structural or ends by a measure; the loop that draws backup codes until enough differ is a
  \<open>partial_function (option)\<close>, with the theorem that it ends as soon as the random source has yielded enough
  different codes. Versions, sequence numbers and counters wrap as they
  do in the release build; theorems that need them not to wrap say so.

  \<^bold>\<open>Granularity.\<close> Operations of the keystores, the approval engine and the policy engine are atomic: the
  source holds the lock of the component, or a unique borrow, while it changes the state. An exception is the
  policy engine with a store: it changes the store before it takes its lock, and only changes one after the other
  are modelled. A statement of a database that fails has no effect; a command of Redis that fails may have had
  its effect. One evaluation of policies reads the clock once. The middleware of the HTTP interface
  reads it twice, and the theorems on requests hold for any two readings. The
  signing logger releases its locks between its critical sections, so its calls are also given as
  a transition system. A request of the front ends runs as a whole; its calls of the components follow
  in the order of the code. Restoring a persisted approval request trusts the database and is outside the
  runs the approval theorems range over.

  \<^bold>\<open>Not modelled.\<close> The hardware backends and key files of \<^verbatim>\<open>kms-hsm\<close>, \<^verbatim>\<open>key_io.rs\<close> and \<^verbatim>\<open>envelope.rs\<close> are
  sequences of calls of device libraries and ciphers. The archive upload, webhooks,
  the Redis copy of sessions, TLS listeners, memory protection and the command line client are
  input and output around other crates. The start-up of the server (\<^verbatim>\<open>src/src/cmd/server.rs\<close>) wires the components together. Self tests compare ciphers of other crates with known answers.
  Anomaly statistics, the response cache, metrics and the health service do not decide about requests. The
  ciphers themselves belong to other crates. Within the modelled files, log output, metrics, file permissions
  and the Kafka feature are left out, as are the typed conditions of \<^verbatim>\<open>kms-core/src/policy.rs\<close>, which the
  engine does not use.
\<close>

end
